(* ===== verification/Strings.thy ===== *)
theory Strings imports Prelude "HOL-Library.Sublist" begin

text \<open>
  Python's string methods over the strings of the model: \<^verbatim>\<open>strip\<close>, \<^verbatim>\<open>splitlines\<close>,
  \<^verbatim>\<open>split\<close>, \<^verbatim>\<open>partition\<close>, \<^verbatim>\<open>rpartition\<close>, \<^verbatim>\<open>join\<close>, the \<^verbatim>\<open>in\<close> test, the \<^verbatim>\<open>int\<close> constructor
  with its digit limit, and the \<^verbatim>\<open>$\<close> anchor of the \<^verbatim>\<open>re\<close> module, which also matches before
  a final newline.
\<close>

section \<open>Stripping\<close>

definition py_lstrip :: "string \<Rightarrow> string" where
  "py_lstrip s = dropWhile py_isspace s"

definition py_rstrip :: "string \<Rightarrow> string" where
  "py_rstrip s = rev (dropWhile py_isspace (rev s))"

definition py_strip :: "string \<Rightarrow> string" where
  "py_strip s = py_rstrip (py_lstrip s)"

text \<open>Removal of one character from the right end, as \<^verbatim>\<open>rstrip("\\r")\<close> does.\<close>

definition rstrip_char :: "char \<Rightarrow> string \<Rightarrow> string" where
  "rstrip_char d s = rev (dropWhile (\<lambda>c. c = d) (rev s))"

lemmas strip_defs [py_defs] = py_strip_def py_rstrip_def py_lstrip_def rstrip_char_def

text \<open>A string that \<^verbatim>\<open>strip\<close> leaves alone: empty, or with no white space at either end.\<close>

definition stripped :: "string \<Rightarrow> bool" where
  "stripped s \<longleftrightarrow> s = [] \<or> (\<not> py_isspace (hd s) \<and> \<not> py_isspace (last s))"

lemma py_strip_nil [simp]: "py_strip [] = []"
  by (simp add: strip_defs)

lemma py_strip_id: "stripped s \<Longrightarrow> py_strip s = s"
proof -
  assume st: "stripped s"
  show ?thesis
  proof (cases s)
    case Nil
    then show ?thesis by simp
  next
    case (Cons c cs)
    with st have "py_lstrip s = s" by (simp add: stripped_def py_lstrip_def)
    moreover from st Cons have "py_rstrip s = s"
    proof -
      have "rev s \<noteq> []" "\<not> py_isspace (hd (rev s))"
        using st Cons by (simp_all add: stripped_def hd_rev del: rev.simps)
      then have "dropWhile py_isspace (rev s) = rev s"
        by (cases "rev s") auto
      then show ?thesis by (simp add: py_rstrip_def)
    qed
    ultimately show ?thesis by (simp add: py_strip_def)
  qed
qed

lemma py_strip_snoc_space:
  assumes "stripped s" "py_isspace c"
  shows "py_strip (s @ [c]) = s"
proof (cases "s = []")
  case True
  with assms(2) show ?thesis by (simp add: strip_defs)
next
  case False
  with assms(1) have "\<not> py_isspace (hd s)" by (simp add: stripped_def)
  with False have "py_lstrip (s @ [c]) = s @ [c]"
    by (cases s) (simp_all add: py_lstrip_def)
  moreover have "py_rstrip (s @ [c]) = py_rstrip s"
    using assms(2) by (simp add: py_rstrip_def)
  moreover have "py_lstrip s = s" using False assms(1)
    by (cases s) (simp_all add: py_lstrip_def stripped_def)
  ultimately show ?thesis using py_strip_id [OF assms(1)] by (simp add: py_strip_def)
qed

lemma stripped_line [py_facts]: "stripped s \<Longrightarrow> py_strip (s @ [LF]) = s"
  by (rule py_strip_snoc_space) (simp_all add: py_isspace_def cp_def)

lemma stripped_no_space: "(\<And>c. c \<in> set s \<Longrightarrow> \<not> py_isspace c) \<Longrightarrow> stripped s"
  by (cases s) (auto simp: stripped_def)

lemma stripped_nat_str [simp]: "stripped (nat_str n)"
  by (auto intro!: stripped_no_space dest: nat_str_digits is_digit_not_space)

section \<open>Lines\<close>

text \<open>
  \<^verbatim>\<open>splitlines\<close>: a carriage return and line feed pair is one boundary, and a boundary at
  the end of the text opens no further line.
\<close>

fun splitlines_from :: "string \<Rightarrow> string \<Rightarrow> string list" where
  "splitlines_from acc [] = (if acc = [] then [] else [acc])"
| "splitlines_from acc [c] = (if py_linebreak c then [acc] else [acc @ [c]])"
| "splitlines_from acc (c # d # cs) =
     (if c = CR \<and> d = LF then acc # splitlines_from [] cs
      else if py_linebreak c then acc # splitlines_from [] (d # cs)
      else splitlines_from (acc @ [c]) (d # cs))"

definition py_splitlines :: "string \<Rightarrow> string list" where
  "py_splitlines s = splitlines_from [] s"

text \<open>Reading a text file translates each line ending to a line feed.\<close>

fun univ_newlines :: "string \<Rightarrow> string" where
  "univ_newlines [] = []"
| "univ_newlines [c] = (if c = CR then [LF] else [c])"
| "univ_newlines (c # d # cs) =
     (if c = CR then (if d = LF then LF # univ_newlines cs else LF # univ_newlines (d # cs))
      else c # univ_newlines (d # cs))"

lemma univ_newlines_id: "CR \<notin> set s \<Longrightarrow> univ_newlines s = s"
  by (induction s rule: univ_newlines.induct) auto

definition no_breaks :: "string \<Rightarrow> bool" where
  "no_breaks s \<longleftrightarrow> (\<forall>c \<in> set s. \<not> py_linebreak c)"

lemma no_breaks_simps [simp]:
  "no_breaks []"
  "no_breaks (c # s) \<longleftrightarrow> \<not> py_linebreak c \<and> no_breaks s"
  "no_breaks (s @ t) \<longleftrightarrow> no_breaks s \<and> no_breaks t"
  by (auto simp: no_breaks_def)

lemma py_linebreak_LF [simp]: "py_linebreak LF" and py_linebreak_CR [simp]: "py_linebreak CR"
  by (simp_all add: py_linebreak_def cp_def)

lemma splitlines_from_line:
  "no_breaks s \<Longrightarrow> splitlines_from acc (s @ LF # t) = (acc @ s) # splitlines_from [] t"
proof (induction s arbitrary: acc)
  case Nil
  then show ?case by (cases t) simp_all
next
  case (Cons c s)
  then have c: "\<not> py_linebreak c" "c \<noteq> CR" by auto
  obtain d u where du: "s @ LF # t = d # u" by (cases "s @ LF # t") auto
  have "splitlines_from acc ((c # s) @ LF # t) = splitlines_from (acc @ [c]) (s @ LF # t)"
    using c du by simp
  also have "\<dots> = (acc @ c # s) # splitlines_from [] t"
    using Cons.IH [of "acc @ [c]"] Cons.prems by simp
  finally show ?case .
qed

lemma splitlines_from_rest: "no_breaks s \<Longrightarrow>
    splitlines_from acc s = (if acc @ s = [] then [] else [acc @ s])"
proof (induction s arbitrary: acc)
  case Nil
  then show ?case by simp
next
  case (Cons c s)
  then show ?case by (cases s) auto
qed

text \<open>Lines written one per line, each ended by a line feed, are read back unchanged.\<close>

definition unlines :: "string list \<Rightarrow> string" where
  "unlines ls = concat (map (\<lambda>l. l @ [LF]) ls)"

lemma unlines_simps [simp]: "unlines [] = []" "unlines (l # ls) = l @ LF # unlines ls"
  by (simp_all add: unlines_def)

lemma splitlines_unlines [py_facts]:
  "(\<And>l. l \<in> set ls \<Longrightarrow> no_breaks l) \<Longrightarrow> py_splitlines (unlines ls) = ls"
  by (induction ls) (simp_all add: py_splitlines_def splitlines_from_line)

section \<open>Splitting and joining\<close>

fun py_split :: "char \<Rightarrow> string \<Rightarrow> string list" where
  "py_split d [] = [[]]"
| "py_split d (c # cs) =
     (if c = d then [] # py_split d cs
      else (case py_split d cs of [] \<Rightarrow> [[c]] | x # xs \<Rightarrow> (c # x) # xs))"

fun py_join :: "string \<Rightarrow> string list \<Rightarrow> string" where
  "py_join sep [] = []"
| "py_join sep [x] = x"
| "py_join sep (x # y # ys) = x @ sep @ py_join sep (y # ys)"

lemma py_split_nonempty [simp]: "py_split d s \<noteq> []"
  by (cases s) (auto split: list.splits)

lemma py_join_Cons: "xs \<noteq> [] \<Longrightarrow> py_join sep (x # xs) = x @ sep @ py_join sep xs"
  by (cases xs) simp_all

lemma py_join_snoc: "xs \<noteq> [] \<Longrightarrow> py_join sep (xs @ [x]) = py_join sep xs @ sep @ x"
  by (induction sep xs rule: py_join.induct) simp_all

lemma py_join_hd: "py_join sep ((c # x) # xs) = c # py_join sep (x # xs)"
  by (cases xs) simp_all

lemma py_join_split [simp]: "py_join [d] (py_split d s) = s"
proof (induction s)
  case Nil
  then show ?case by simp
next
  case (Cons c s)
  then show ?case
    by (cases "py_split d s") (auto simp: py_join_Cons py_join_hd split: list.splits)
qed

lemma py_split_no_sep: "d \<notin> set s \<Longrightarrow> py_split d s = [s]"
  by (induction s) auto

lemma py_split_append: "d \<notin> set s \<Longrightarrow> py_split d (s @ d # t) = s # py_split d t"
  by (induction s) auto

lemma py_split_join [py_facts]:
  "xs \<noteq> [] \<Longrightarrow> (\<And>x. x \<in> set xs \<Longrightarrow> d \<notin> set x) \<Longrightarrow> py_split d (py_join [d] xs) = xs"
proof (induction xs)
  case Nil
  then show ?case by simp
next
  case (Cons x xs)
  then show ?case by (cases xs) (simp_all add: py_split_no_sep py_split_append)
qed

lemma py_split_parts: "x \<in> set (py_split d s) \<Longrightarrow> d \<notin> set x"
proof (induction s arbitrary: x)
  case Nil
  then show ?case by simp
next
  case (Cons c s)
  show ?case
  proof (cases "py_split d s")
    case Nil
    then show ?thesis by simp
  next
    case split: (Cons y ys)
    with Cons show ?thesis by (auto split: if_splits)
  qed
qed

lemma set_py_split: "x \<in> set (py_split d s) \<Longrightarrow> set x \<subseteq> set s"
proof (induction s arbitrary: x)
  case Nil
  then show ?case by simp
next
  case (Cons c s)
  then show ?case by (fastforce split: if_splits list.splits)
qed

lemma set_py_join: "set (py_join sep xs) \<subseteq> set sep \<union> \<Union> (set (map set xs))"
  by (induction sep xs rule: py_join.induct) auto

text \<open>Lines joined by line feeds, with or without a final one.\<close>

lemma splitlines_from_no_breaks:
  "no_breaks acc \<Longrightarrow> l \<in> set (splitlines_from acc s) \<Longrightarrow> no_breaks l"
  by (induction acc s rule: splitlines_from.induct) (auto split: if_splits)

lemma splitlines_no_breaks: "l \<in> set (py_splitlines s) \<Longrightarrow> no_breaks l"
  using splitlines_from_no_breaks [of "[]"] by (simp add: py_splitlines_def)

lemma splitlines_unlines_open:
  "(\<And>l. l \<in> set ls \<Longrightarrow> no_breaks l) \<Longrightarrow> no_breaks s \<Longrightarrow>
     py_splitlines (unlines ls @ s) = ls @ (if s = [] then [] else [s])"
  by (induction ls) (simp_all add: py_splitlines_def splitlines_from_line splitlines_from_rest)

lemma join_unlines: "ls \<noteq> [] \<Longrightarrow> py_join [LF] ls = unlines (butlast ls) @ last ls"
  by (induction "[LF]" ls rule: py_join.induct) simp_all

lemma unlines_append [simp]: "unlines (xs @ ys) = unlines xs @ unlines ys"
  by (simp add: unlines_def)

lemma join_LF: "ls \<noteq> [] \<Longrightarrow> py_join [LF] ls @ [LF] = unlines ls"
proof -
  assume ls: "ls \<noteq> []"
  have "unlines ls = unlines (butlast ls @ [last ls])" using ls by simp
  also have "\<dots> = unlines (butlast ls) @ last ls @ [LF]" unfolding unlines_append by simp
  finally show ?thesis using ls by (simp add: join_unlines)
qed

lemma splitlines_join:
  assumes "\<And>l. l \<in> set ls \<Longrightarrow> no_breaks l" "ls \<noteq> []"
  shows "py_splitlines (py_join [LF] ls) = (if last ls = [] then butlast ls else ls)"
    "py_splitlines (py_join [LF] ls @ [LF]) = ls"
proof -
  have "py_splitlines (unlines (butlast ls) @ last ls) = butlast ls @ (if last ls = [] then [] else [last ls])"
    using assms by (intro splitlines_unlines_open) (auto dest: in_set_butlastD)
  with assms(2) show "py_splitlines (py_join [LF] ls) = (if last ls = [] then butlast ls else ls)"
    by (simp add: join_unlines)
  show "py_splitlines (py_join [LF] ls @ [LF]) = ls"
    unfolding join_LF [OF assms(2)] using assms(1) by (rule splitlines_unlines)
qed

lemma join_last_LF: "ls \<noteq> [] \<Longrightarrow> (\<And>l. l \<in> set ls \<Longrightarrow> no_breaks l) \<Longrightarrow>
    (py_join [LF] ls \<noteq> [] \<and> last (py_join [LF] ls) = LF) \<longleftrightarrow> (length ls > 1 \<and> last ls = [])"
proof -
  assume ls: "ls \<noteq> []" "\<And>l. l \<in> set ls \<Longrightarrow> no_breaks l"
  have nb: "no_breaks (last ls)" using ls by simp
  have "last ls \<noteq> [] \<Longrightarrow> last (last ls) \<noteq> LF"
    using nb last_in_set [of "last ls"] py_linebreak_LF unfolding no_breaks_def by metis
  moreover have "butlast ls \<noteq> [] \<longleftrightarrow> length ls > 1" by (cases ls; cases "tl ls") auto
  moreover have "us \<noteq> [] \<Longrightarrow> unlines us \<noteq> [] \<and> last (unlines us) = LF" for us
    by (induction us rule: rev_induct) simp_all
  ultimately show ?thesis using ls(1)
    by (cases "butlast ls = []"; cases "last ls = []") (auto simp: join_unlines)
qed

text \<open>\<^verbatim>\<open>partition\<close> and \<^verbatim>\<open>rpartition\<close> on one character: the parts and whether it was found.\<close>

definition py_partition :: "char \<Rightarrow> string \<Rightarrow> string \<times> bool \<times> string" where
  "py_partition d s = (takeWhile (\<lambda>c. c \<noteq> d) s, d \<in> set s, drop 1 (dropWhile (\<lambda>c. c \<noteq> d) s))"

definition py_rpartition :: "char \<Rightarrow> string \<Rightarrow> string \<times> bool \<times> string" where
  "py_rpartition d s =
     (rev (drop 1 (dropWhile (\<lambda>c. c \<noteq> d) (rev s))), d \<in> set s, rev (takeWhile (\<lambda>c. c \<noteq> d) (rev s)))"

lemma takeWhile_neq_append [simp]: "d \<notin> set s \<Longrightarrow> takeWhile (\<lambda>c. c \<noteq> d) (s @ d # t) = s"
  by (induction s) auto

lemma dropWhile_neq_append [simp]: "d \<notin> set s \<Longrightarrow> dropWhile (\<lambda>c. c \<noteq> d) (s @ d # t) = d # t"
  by (induction s) auto

lemma py_partition_at [simp]: "d \<notin> set s \<Longrightarrow> py_partition d (s @ d # t) = (s, True, t)"
  by (simp add: py_partition_def)

lemma py_partition_none: "d \<notin> set s \<Longrightarrow> py_partition d s = (s, False, [])"
  by (induction s) (auto simp: py_partition_def)

lemma py_rpartition_at [simp]: "d \<notin> set t \<Longrightarrow> py_rpartition d (s @ d # t) = (s, True, t)"
  by (simp add: py_rpartition_def)

lemma py_rpartition_none: "d \<notin> set s \<Longrightarrow> py_rpartition d s = ([], False, s)"
proof -
  assume "d \<notin> set s"
  then have "\<forall>c \<in> set (rev s). c \<noteq> d" by auto
  then have parts: "takeWhile (\<lambda>c. c \<noteq> d) (rev s) = rev s" "dropWhile (\<lambda>c. c \<noteq> d) (rev s) = []"
    unfolding takeWhile_eq_all_conv dropWhile_eq_Nil_conv by auto
  show ?thesis unfolding py_rpartition_def parts using \<open>d \<notin> set s\<close> by simp
qed

lemma py_rpartition_split:
  assumes "d \<in> set s"
  obtains a b where "s = a @ d # b" "d \<notin> set b" "py_rpartition d s = (a, True, b)"
  using assms split_list_last [of d s] by (metis py_rpartition_at)

lemma py_partition_split:
  assumes "d \<in> set s"
  obtains a b where "s = a @ d # b" "d \<notin> set a" "py_partition d s = (a, True, b)"
  using assms split_list_first [of d s] by (metis py_partition_at)

text \<open>The test \<^verbatim>\<open>needle in s\<close> and the replacement of one character by a string.\<close>

fun py_in :: "string \<Rightarrow> string \<Rightarrow> bool" where
  "py_in needle [] = (needle = [])"
| "py_in needle (c # cs) = (prefix needle (c # cs) \<or> py_in needle cs)"

lemma py_in_iff: "py_in n s \<longleftrightarrow> (\<exists>a b. s = a @ n @ b)"
proof (induction s)
  case Nil
  then show ?case by auto
next
  case (Cons c s)
  have "(\<exists>a b. c # s = a @ n @ b) \<longleftrightarrow> prefix n (c # s) \<or> (\<exists>a b. s = a @ n @ b)"
  proof
    assume "\<exists>a b. c # s = a @ n @ b"
    then show "prefix n (c # s) \<or> (\<exists>a b. s = a @ n @ b)"
      by (metis Cons_eq_append_conv prefix_def)
  next
    assume "prefix n (c # s) \<or> (\<exists>a b. s = a @ n @ b)"
    then show "\<exists>a b. c # s = a @ n @ b"
      by (metis append_Cons append_Nil prefix_def)
  qed
  with Cons show ?case by simp
qed

definition py_replace :: "char \<Rightarrow> string \<Rightarrow> string \<Rightarrow> string" where
  "py_replace d r s = concat (map (\<lambda>c. if c = d then r else [c]) s)"

section \<open>The int constructor\<close>

text \<open>
  \<^verbatim>\<open>int(s)\<close> strips white space, takes an optional sign and decimal digits with single
  underscores between them, and raises \<^verbatim>\<open>ValueError\<close> for anything else and for more than
  4300 digits (the interpreter's default limit).
\<close>

definition INT_MAX_DIGITS :: nat where "INT_MAX_DIGITS = 4300"

fun int_body :: "string \<Rightarrow> bool" and int_tail :: "string \<Rightarrow> bool" where
  "int_body [] = False"
| "int_body (c # cs) = (is_digit c \<and> int_tail cs)"
| "int_tail [] = True"
| "int_tail (c # cs) = ((is_digit c \<and> int_tail cs) \<or> (c = CHR ''_'' \<and> int_body cs))"

definition int_magnitude :: "string \<Rightarrow> nat option" where
  "int_magnitude s =
     (let ds = filter is_digit s
      in if int_body s \<and> length ds \<le> INT_MAX_DIGITS then Some (digits_val ds) else None)"

definition py_int :: "string \<Rightarrow> int option" where
  "py_int s = (case py_strip s of
       [] \<Rightarrow> None
     | c # cs \<Rightarrow> (if c = CHR ''-'' then map_option (\<lambda>n. - int n) (int_magnitude cs)
                  else if c = CHR ''+'' then map_option int (int_magnitude cs)
                  else map_option int (int_magnitude (c # cs))))"

lemma int_tail_digits: "(\<And>c. c \<in> set s \<Longrightarrow> is_digit c) \<Longrightarrow> int_tail s"
  by (induction s) auto

lemma int_body_digits: "s \<noteq> [] \<Longrightarrow> (\<And>c. c \<in> set s \<Longrightarrow> is_digit c) \<Longrightarrow> int_body s"
  by (cases s) (auto intro: int_tail_digits)

lemma py_int_digits:
  assumes "s \<noteq> []" "\<And>c. c \<in> set s \<Longrightarrow> is_digit c" "length s \<le> INT_MAX_DIGITS"
  shows "py_int s = Some (int (digits_val s))"
proof -
  have st: "py_strip s = s"
    using assms(2) by (auto intro!: py_strip_id stripped_no_space dest: is_digit_not_space)
  have fl: "filter is_digit s = s" using assms(2) by (simp add: filter_id_conv)
  obtain c cs where s: "s = c # cs" using assms(1) by (cases s) auto
  have "is_digit c" using assms(2) s by simp
  then have "c \<noteq> CHR ''-''" "c \<noteq> CHR ''+''" by (auto simp: is_digit_def cp_def)
  moreover have "int_magnitude s = Some (digits_val s)"
    using assms fl int_body_digits by (simp add: int_magnitude_def)
  ultimately show ?thesis using st s by (simp add: py_int_def)
qed

lemma py_int_too_long:
  assumes "\<And>c. c \<in> set s \<Longrightarrow> is_digit c" "length s > INT_MAX_DIGITS"
  shows "py_int s = None"
proof -
  have st: "py_strip s = s"
    using assms(1) by (auto intro!: py_strip_id stripped_no_space dest: is_digit_not_space)
  have fl: "filter is_digit s = s" using assms(1) by (simp add: filter_id_conv)
  obtain c cs where s: "s = c # cs" using assms(2) by (cases s) auto
  have "is_digit c" using assms(1) s by simp
  then have "c \<noteq> CHR ''-''" "c \<noteq> CHR ''+''" by (auto simp: is_digit_def cp_def)
  moreover have "int_magnitude s = None" using assms(2) fl by (simp add: int_magnitude_def)
  ultimately show ?thesis using st s by (simp add: py_int_def)
qed

lemma py_int_nat_str [simp]:
  "length (nat_str n) \<le> INT_MAX_DIGITS \<Longrightarrow> py_int (nat_str n) = Some (int n)"
  using py_int_digits [of "nat_str n"] nat_str_digits by simp

lemma py_int_strip_LF: "stripped s \<Longrightarrow> py_int (s @ [LF]) = py_int s"
  by (simp add: py_int_def stripped_line py_strip_id)

section \<open>Anchored matching\<close>

text \<open>
  A pattern \<open>^R$\<close> under \<^verbatim>\<open>re.match\<close>: the dollar sign matches at the end and also just
  before a newline at the end, so the strings accepted are those of \<open>R\<close> and those of \<open>R\<close>
  with one newline appended.
\<close>

definition anchored :: "(string \<Rightarrow> bool) \<Rightarrow> string \<Rightarrow> bool" where
  "anchored R s \<longleftrightarrow> R s \<or> (s \<noteq> [] \<and> last s = LF \<and> R (butlast s))"

lemma anchoredI: "R s \<Longrightarrow> anchored R s"
  by (simp add: anchored_def)

lemma anchored_LF: "R s \<Longrightarrow> anchored R (s @ [LF])"
  by (simp add: anchored_def)

lemma anchored_cases:
  assumes "anchored R s"
  obtains "R s" | t where "s = t @ [LF]" "R t"
  using assms unfolding anchored_def by (metis append_butlast_last_id)

end
