(* ===== verification/Regex.thy ===== *)
theory Regex imports Strings begin

text \<open>
  The regular expressions of the source as data, with their language and an executable
  matcher by derivatives.  A pattern of the \<^verbatim>\<open>re\<close> module that is used anchored only asks
  whether the whole string is in the language, so greediness and groups play no role.
\<close>

datatype rx =
    Void
  | Eps
  | Cls "char \<Rightarrow> bool"
  | Alt rx rx
  | Cat rx rx
  | Rep rx

inductive rx_lang :: "rx \<Rightarrow> string \<Rightarrow> bool" where
  lang_eps: "rx_lang Eps []"
| lang_cls: "p c \<Longrightarrow> rx_lang (Cls p) [c]"
| lang_alt1: "rx_lang r s \<Longrightarrow> rx_lang (Alt r q) s"
| lang_alt2: "rx_lang q s \<Longrightarrow> rx_lang (Alt r q) s"
| lang_cat: "rx_lang r s \<Longrightarrow> rx_lang q t \<Longrightarrow> rx_lang (Cat r q) (s @ t)"
| lang_rep0: "rx_lang (Rep r) []"
| lang_rep: "rx_lang r s \<Longrightarrow> rx_lang (Rep r) t \<Longrightarrow> rx_lang (Rep r) (s @ t)"

inductive_simps rx_lang_simps [simp]:
  "rx_lang Void s" "rx_lang Eps s" "rx_lang (Cls p) s" "rx_lang (Alt r q) s" "rx_lang (Cat r q) s"

text \<open>\<^verbatim>\<open>r+\<close>, an optional part, a bounded and an at-least repetition, and a literal.\<close>

definition Plus :: "rx \<Rightarrow> rx" where "Plus r = Cat r (Rep r)"
definition Opt :: "rx \<Rightarrow> rx" where "Opt r = Alt Eps r"

fun Times :: "nat \<Rightarrow> rx \<Rightarrow> rx" where
  "Times 0 r = Eps"
| "Times (Suc n) r = Cat r (Times n r)"

fun UpTo :: "nat \<Rightarrow> rx \<Rightarrow> rx" where
  "UpTo 0 r = Eps"
| "UpTo (Suc n) r = Opt (Cat r (UpTo n r))"

definition Chr :: "char \<Rightarrow> rx" where "Chr d = Cls (\<lambda>c. c = d)"

section \<open>Matching by derivatives\<close>

fun alt :: "rx \<Rightarrow> rx \<Rightarrow> rx" where
  "alt Void q = q"
| "alt r Void = r"
| "alt r q = Alt r q"

fun cat :: "rx \<Rightarrow> rx \<Rightarrow> rx" where
  "cat Void q = Void"
| "cat Eps q = q"
| "cat r q = Cat r q"

fun nullable :: "rx \<Rightarrow> bool" where
  "nullable Void = False"
| "nullable Eps = True"
| "nullable (Cls p) = False"
| "nullable (Alt r q) = (nullable r \<or> nullable q)"
| "nullable (Cat r q) = (nullable r \<and> nullable q)"
| "nullable (Rep r) = True"

fun deriv :: "char \<Rightarrow> rx \<Rightarrow> rx" where
  "deriv c Void = Void"
| "deriv c Eps = Void"
| "deriv c (Cls p) = (if p c then Eps else Void)"
| "deriv c (Alt r q) = alt (deriv c r) (deriv c q)"
| "deriv c (Cat r q) =
     (if nullable r then alt (cat (deriv c r) q) (deriv c q) else cat (deriv c r) q)"
| "deriv c (Rep r) = cat (deriv c r) (Rep r)"

fun rx_match :: "rx \<Rightarrow> string \<Rightarrow> bool" where
  "rx_match r [] = nullable r"
| "rx_match r (c # cs) = rx_match (deriv c r) cs"

lemma alt_lang [simp]: "rx_lang (alt r q) s \<longleftrightarrow> rx_lang r s \<or> rx_lang q s"
  by (induction r q rule: alt.induct) auto

lemma cat_lang [simp]: "rx_lang (cat r q) s \<longleftrightarrow> (\<exists>u v. s = u @ v \<and> rx_lang r u \<and> rx_lang q v)"
  by (induction r q rule: cat.induct) auto

lemma nullable_lang: "nullable r \<longleftrightarrow> rx_lang r []"
  by (induction r) (auto intro: rx_lang.intros)

lemma rep_step:
  "rx_lang (Rep r) (c # s) \<Longrightarrow> \<exists>u v. s = u @ v \<and> rx_lang r (c # u) \<and> rx_lang (Rep r) v"
proof (induction "Rep r" "c # s" arbitrary: r c s rule: rx_lang.induct)
  case (lang_rep r u t)
  show ?case
  proof (cases u)
    case Nil
    with lang_rep show ?thesis by simp
  next
    case (Cons d w)
    with lang_rep show ?thesis by auto
  qed
qed

lemma deriv_lang: "rx_lang (deriv c r) s \<longleftrightarrow> rx_lang r (c # s)"
proof (induction r arbitrary: s)
  case (Cat r q)
  have "rx_lang (Cat r q) (c # s) \<longleftrightarrow>
      (\<exists>u v. s = u @ v \<and> rx_lang r (c # u) \<and> rx_lang q v) \<or> (rx_lang r [] \<and> rx_lang q (c # s))"
    by (auto simp: Cons_eq_append_conv)
  with Cat show ?case by (auto simp: nullable_lang)
next
  case (Rep r)
  show ?case
  proof
    assume "rx_lang (deriv c (Rep r)) s"
    with Rep obtain u v where "s = u @ v" "rx_lang r (c # u)" "rx_lang (Rep r) v" by auto
    with lang_rep [of r "c # u" v] show "rx_lang (Rep r) (c # s)" by simp
  next
    assume "rx_lang (Rep r) (c # s)"
    then show "rx_lang (deriv c (Rep r)) s" using Rep rep_step by fastforce
  qed
qed (auto)

theorem rx_match_lang: "rx_match r s \<longleftrightarrow> rx_lang r s"
  by (induction s arbitrary: r) (simp_all add: nullable_lang deriv_lang)

section \<open>The characters a language can use\<close>

fun rx_chars :: "rx \<Rightarrow> char \<Rightarrow> bool" where
  "rx_chars Void c = False"
| "rx_chars Eps c = False"
| "rx_chars (Cls p) c = p c"
| "rx_chars (Alt r q) c = (rx_chars r c \<or> rx_chars q c)"
| "rx_chars (Cat r q) c = (rx_chars r c \<or> rx_chars q c)"
| "rx_chars (Rep r) c = rx_chars r c"

lemma lang_chars: "rx_lang r s \<Longrightarrow> c \<in> set s \<Longrightarrow> rx_chars r c"
  by (induction r s rule: rx_lang.induct) auto

lemma rx_chars_derived [simp]:
  "rx_chars (Plus r) c = rx_chars r c"
  "rx_chars (Opt r) c = rx_chars r c"
  "rx_chars (Chr d) c \<longleftrightarrow> c = d"
  by (auto simp: Plus_def Opt_def Chr_def)

lemma rx_chars_Times: "rx_chars (Times n r) c \<longleftrightarrow> 0 < n \<and> rx_chars r c"
  by (induction n) auto

lemma rx_chars_UpTo: "rx_chars (UpTo n r) c \<longleftrightarrow> 0 < n \<and> rx_chars r c"
  by (induction n) auto

lemma rx_match_chars: "rx_match r s \<Longrightarrow> c \<in> set s \<Longrightarrow> rx_chars r c"
  using lang_chars by (simp add: rx_match_lang)

text \<open>Under the anchor a newline can follow.\<close>

lemma anchored_chars: "anchored (rx_match r) s \<Longrightarrow> c \<in> set s \<Longrightarrow> rx_chars r c \<or> c = LF"
  by (elim anchored_cases) (auto dest: rx_match_chars)

lemma Rep_Cls: "rx_match (Rep (Cls p)) s \<longleftrightarrow> (\<forall>c \<in> set s. p c)"
  by (induction s) (auto, (metis cat.simps deriv.simps(1) rx_match_lang rx_lang_simps(1))+)

lemma Cat_Cls: "rx_match (Cat (Cls p) r) s \<longleftrightarrow> s \<noteq> [] \<and> p (hd s) \<and> rx_match r (tl s)"
proof (cases s)
  case (Cons c t)
  have "(\<exists>u v. c # t = u @ v \<and> (\<exists>d. u = [d] \<and> p d) \<and> rx_lang r v) \<longleftrightarrow> p c \<and> rx_lang r t"
    by (metis append_Cons append_Nil list.inject)
  with Cons show ?thesis by (auto simp: rx_match_lang)
qed (simp add: rx_match_lang)

lemma Plus_nonempty: "rx_match (Plus (Cls p)) s \<longleftrightarrow> s \<noteq> [] \<and> (\<forall>c \<in> set s. p c)"
  unfolding Plus_def Cat_Cls Rep_Cls by (cases s) auto

end
