(* ===== verification/Results.thy ===== *)
theory Results imports Prelude begin

text \<open>
  \<^verbatim>\<open>errors.py\<close> and \<^verbatim>\<open>_result.py\<close>: the exception classes with their method resolution
  order, and the \<^verbatim>\<open>Result\<close> family.  A dataclass constructor with a \<^verbatim>\<open>__post_init__\<close> check
  is a function into a sum: \<^verbatim>\<open>Inl ValueErrorC\<close> is the panic it raises.
\<close>

section \<open>The exception hierarchy\<close>

datatype exc =
    KentoErrorC | ValidationErrorC | InstanceNotFoundErrorC | InstanceExistsErrorC
  | ImageNotFoundErrorC | ModeErrorC | StateErrorC | StopTimeoutC | SubprocessErrorC
  | ResultErrorC | MalformedReferenceC | ForwardAddressNotImplementedC
  | ValueErrorC | OSErrorC | PermissionErrorC | FileNotFoundErrorC | FileExistsErrorC
  | NotImplementedErrorC | RuntimeErrorC | KeyErrorC
  | CalledProcessErrorC | TimeoutExpiredC | ProcessLookupErrorC | IndexErrorC | TypeErrorC
  | ExceptionC

text \<open>The classes after the class itself in its \<^verbatim>\<open>__mro__\<close>, down to \<^verbatim>\<open>Exception\<close>.\<close>

fun exc_parent :: "exc \<Rightarrow> exc option" where
  "exc_parent ExceptionC = None"
| "exc_parent StopTimeoutC = Some StateErrorC"
| "exc_parent KentoErrorC = Some ExceptionC"
| "exc_parent ValueErrorC = Some ExceptionC"
| "exc_parent OSErrorC = Some ExceptionC"
| "exc_parent PermissionErrorC = Some OSErrorC"
| "exc_parent FileNotFoundErrorC = Some OSErrorC"
| "exc_parent FileExistsErrorC = Some OSErrorC"
| "exc_parent RuntimeErrorC = Some ExceptionC"
| "exc_parent NotImplementedErrorC = Some RuntimeErrorC"
| "exc_parent KeyErrorC = Some ExceptionC"
| "exc_parent CalledProcessErrorC = Some ExceptionC"
| "exc_parent TimeoutExpiredC = Some ExceptionC"
| "exc_parent ProcessLookupErrorC = Some OSErrorC"
| "exc_parent IndexErrorC = Some ExceptionC"
| "exc_parent TypeErrorC = Some ExceptionC"
| "exc_parent _ = Some KentoErrorC"

fun exc_rank :: "exc \<Rightarrow> nat" where
  "exc_rank ExceptionC = 0"
| "exc_rank KentoErrorC = 1" | "exc_rank ValueErrorC = 1" | "exc_rank OSErrorC = 1"
| "exc_rank RuntimeErrorC = 1" | "exc_rank KeyErrorC = 1"
| "exc_rank StopTimeoutC = 3"
| "exc_rank _ = 2"

function mro :: "exc \<Rightarrow> exc list" where
  "mro c = c # (case exc_parent c of None \<Rightarrow> [] | Some p \<Rightarrow> mro p)"
  by pat_completeness auto
termination
proof (relation "measure exc_rank")
  show "\<And>c p. exc_parent c = Some p \<Longrightarrow> (p, c) \<in> measure exc_rank"
    by (case_tac c) auto
qed simp

definition is_kento :: "exc \<Rightarrow> bool" where "is_kento c \<longleftrightarrow> KentoErrorC \<in> set (mro c)"

section \<open>Severity and kinds\<close>

datatype severity = INFO | NOTE | WARNING | ERROR

fun sev_value :: "severity \<Rightarrow> nat" where
  "sev_value INFO = 1" | "sev_value NOTE = 2" | "sev_value WARNING = 3" | "sev_value ERROR = 4"

lemma sev_value_inj [simp]: "sev_value a = sev_value b \<longleftrightarrow> a = b"
  by (cases a; cases b) simp_all

text \<open>\<^verbatim>\<open>Severity\<close> is an \<^verbatim>\<open>IntEnum\<close>: its members compare by value.\<close>

instantiation severity :: linorder
begin
definition less_eq_severity :: "severity \<Rightarrow> severity \<Rightarrow> bool" where
  "less_eq_severity a b \<longleftrightarrow> sev_value a \<le> sev_value b"
definition less_severity :: "severity \<Rightarrow> severity \<Rightarrow> bool" where
  "less_severity a b \<longleftrightarrow> sev_value a < sev_value b"
instance
  by standard (auto simp: less_eq_severity_def less_severity_def)
end

lemma severity_le_ERROR [simp]: "(s::severity) \<le> ERROR"
  by (cases s) (simp_all add: less_eq_severity_def)

lemma severity_tiers:
  "(ERROR \<le> s) = (s = ERROR)" "(WARNING \<le> s) = (s = WARNING \<or> s = ERROR)"
  "(s < WARNING) = (s = INFO \<or> s = NOTE)"
  by (cases s; simp add: less_eq_severity_def less_severity_def)+

datatype cond_kind =
    MALFORMED_REFERENCE | FRAGMENT_DROPPED | FETCH_TIMEOUT | SIZE_EXCEEDED | NON_HTTPS
  | FETCH_FAILED | HTTP_ERROR | EXTRACT_FAILED | INSECURE_REDIRECT
  | VALIDATION | INSTANCE_NOT_FOUND | INSTANCE_EXISTS | IMAGE_NOT_FOUND | MODE_ERROR
  | INVALID_STATE | STOP_TIMEOUT | SUBPROCESS_FAILED | INTERNAL

text \<open>The values a condition's context carries in the modelled code.\<close>

datatype ctx_value = CStr "string option" | CInt "int option" | CList "string list option"

record condition =
  severity :: severity
  kind :: cond_kind
  message :: string
  cond_context :: "(string \<times> ctx_value) list"

section \<open>The Result family\<close>

datatype 'a result =
    Ok 'a "condition list"
  | Warning 'a "condition list"
  | Error "condition list"

fun conditions :: "'a result \<Rightarrow> condition list" where
  "conditions (Ok v cs) = cs"
| "conditions (Warning v cs) = cs"
| "conditions (Error cs) = cs"

text \<open>\<^verbatim>\<open>max(c.severity for c in conditions)\<close> over a non-empty stack.\<close>

definition top_severity :: "condition list \<Rightarrow> severity" where
  "top_severity cs = fold max (map severity (tl cs)) (severity (hd cs))"

definition status :: "'a result \<Rightarrow> severity option" where
  "status r = (if conditions r = [] then None else Some (top_severity (conditions r)))"

text \<open>The three constructors, with the checks of their \<^verbatim>\<open>__post_init__\<close>.\<close>

definition make_Ok :: "'a \<Rightarrow> condition list \<Rightarrow> exc + 'a result" where
  "make_Ok v cs = (if (\<exists>c \<in> set cs. WARNING \<le> severity c) then Inl ValueErrorC else Inr (Ok v cs))"

definition make_Warning :: "'a \<Rightarrow> condition list \<Rightarrow> exc + 'a result" where
  "make_Warning v cs =
     (if cs = [] then Inl ValueErrorC
      else if top_severity cs \<noteq> WARNING then Inl ValueErrorC
      else Inr (Warning v cs))"

definition make_Error :: "condition list \<Rightarrow> exc + 'a result" where
  "make_Error cs =
     (if cs = [] then Inl ValueErrorC
      else if top_severity cs \<noteq> ERROR then Inl ValueErrorC
      else Inr (Error cs))"

text \<open>The values these constructors can build.\<close>

fun wf_result :: "'a result \<Rightarrow> bool" where
  "wf_result (Ok v cs) \<longleftrightarrow> (\<forall>c \<in> set cs. \<not> WARNING \<le> severity c)"
| "wf_result (Warning v cs) \<longleftrightarrow> cs \<noteq> [] \<and> top_severity cs = WARNING"
| "wf_result (Error cs) \<longleftrightarrow> cs \<noteq> [] \<and> top_severity cs = ERROR"

definition is_error :: "'a result \<Rightarrow> bool" where
  "is_error r = (case r of Error cs \<Rightarrow> True | _ \<Rightarrow> False)"

definition is_ok :: "'a result \<Rightarrow> bool" where
  "is_ok r = (\<not> is_error r)"

definition result_of :: "'a \<Rightarrow> condition list \<Rightarrow> exc + 'a result" where
  "result_of v cs =
     (if cs \<noteq> [] then
        (let top = top_severity cs
         in if ERROR \<le> top then make_Error cs
            else if top = WARNING then make_Warning v cs
            else make_Ok v cs)
      else make_Ok v cs)"

text \<open>\<^verbatim>\<open>ResultError\<close>: what \<^verbatim>\<open>unwrap\<close> of an \<^verbatim>\<open>Error\<close> raises.\<close>

record result_error =
  err_message :: string
  err_conditions :: "condition list"

fun unwrap :: "'a result \<Rightarrow> result_error + 'a" where
  "unwrap (Ok v cs) = Inr v"
| "unwrap (Warning v cs) = Inr v"
| "unwrap (Error cs) =
     Inl \<lparr>err_message = message (hd (filter (\<lambda>c. severity c = ERROR) cs)), err_conditions = cs\<rparr>"

fun unwrap_or :: "'a \<Rightarrow> 'a result \<Rightarrow> 'a" where
  "unwrap_or d (Ok v cs) = v"
| "unwrap_or d (Warning v cs) = v"
| "unwrap_or d (Error cs) = d"

fun map_res :: "('a \<Rightarrow> 'b) \<Rightarrow> 'a result \<Rightarrow> exc + 'b result" where
  "map_res f (Ok v cs) = make_Ok (f v) cs"
| "map_res f (Warning v cs) = make_Warning (f v) cs"
| "map_res f (Error cs) = Inr (Error cs)"

section \<open>The boundary from exceptions to results\<close>

text \<open>\<^verbatim>\<open>_ERROR_KIND_MAP\<close> and \<^verbatim>\<open>_error_from\<close>.\<close>

record raised =
  exc_class :: exc
  exc_str :: string
  exc_returncode :: "int option"
  exc_cmd :: "string list option"

definition ERROR_KIND_MAP :: "exc \<rightharpoonup> cond_kind" where
  "ERROR_KIND_MAP = map_of
     [(ValidationErrorC, VALIDATION), (InstanceNotFoundErrorC, INSTANCE_NOT_FOUND),
      (InstanceExistsErrorC, INSTANCE_EXISTS), (ImageNotFoundErrorC, IMAGE_NOT_FOUND),
      (ModeErrorC, MODE_ERROR), (StopTimeoutC, STOP_TIMEOUT), (StateErrorC, INVALID_STATE),
      (SubprocessErrorC, SUBPROCESS_FAILED), (KentoErrorC, INTERNAL)]"

text \<open>\<^verbatim>\<open>next\<close> over an empty generator would raise \<^verbatim>\<open>StopIteration\<close>: the \<^term>\<open>None\<close> of the kind.\<close>

definition error_kind :: "exc \<Rightarrow> cond_kind option" where
  "error_kind c = (case List.map_filter ERROR_KIND_MAP (mro c) of [] \<Rightarrow> None | k # ks \<Rightarrow> Some k)"

definition error_from :: "raised \<Rightarrow> (exc + 'a result) option" where
  "error_from e = (case error_kind (exc_class e) of
       None \<Rightarrow> None
     | Some k \<Rightarrow> Some (make_Error
         [\<lparr>severity = ERROR, kind = k, message = exc_str e,
           cond_context = (if SubprocessErrorC \<in> set (mro (exc_class e))
                      then [(''returncode'', CInt (exc_returncode e)), (''cmd'', CList (exc_cmd e))]
                      else [])\<rparr>]))"

section \<open>Facts\<close>

lemma top_severity_Max: "cs \<noteq> [] \<Longrightarrow> top_severity cs = Max (severity ` set cs)"
proof -
  assume "cs \<noteq> []"
  then obtain c ds where cs: "cs = c # ds" by (cases cs) auto
  have "fold max (map severity ds) (severity c) = Max (set (severity c # map severity ds))"
    by (rule Max.set_eq_fold [symmetric])
  then show ?thesis by (simp add: cs top_severity_def)
qed

lemma top_severity_ge: "c \<in> set cs \<Longrightarrow> severity c \<le> top_severity cs"
  by (subst top_severity_Max) auto

lemma top_severity_in: "cs \<noteq> [] \<Longrightarrow> top_severity cs \<in> severity ` set cs"
  by (simp add: top_severity_Max Max_in)

lemma below_warning: "cs \<noteq> [] \<Longrightarrow> top_severity cs < WARNING \<longleftrightarrow> (\<forall>c \<in> set cs. \<not> WARNING \<le> severity c)"
  by (simp add: top_severity_Max not_le)

lemma make_Ok_Inr: "make_Ok v cs = Inr r \<longleftrightarrow> r = Ok v cs \<and> wf_result r"
  by (auto simp: make_Ok_def)

lemma make_Warning_Inr: "make_Warning v cs = Inr r \<longleftrightarrow> r = Warning v cs \<and> wf_result r"
  by (auto simp: make_Warning_def)

lemma make_Error_Inr: "make_Error cs = Inr r \<longleftrightarrow> r = Error cs \<and> wf_result r"
  by (auto simp: make_Error_def)

lemmas make_Inr = make_Ok_Inr make_Warning_Inr make_Error_Inr

lemma mro_step: "mro c = c # (case exc_parent c of None \<Rightarrow> [] | Some p \<Rightarrow> mro p)"
  by (rule mro.simps)

declare mro.simps [simp del]

lemma mro_list:
  "mro ExceptionC = [ExceptionC]"
  "mro KentoErrorC = [KentoErrorC, ExceptionC]"
  "mro StateErrorC = [StateErrorC, KentoErrorC, ExceptionC]"
  "mro StopTimeoutC = [StopTimeoutC, StateErrorC, KentoErrorC, ExceptionC]"
  "mro OSErrorC = [OSErrorC, ExceptionC]" "mro RuntimeErrorC = [RuntimeErrorC, ExceptionC]"
  by (simp_all add: mro.simps)

lemma error_kind_cases:
  "is_kento c \<Longrightarrow> error_kind c = Some (case c of
      ValidationErrorC \<Rightarrow> VALIDATION | InstanceNotFoundErrorC \<Rightarrow> INSTANCE_NOT_FOUND
    | InstanceExistsErrorC \<Rightarrow> INSTANCE_EXISTS | ImageNotFoundErrorC \<Rightarrow> IMAGE_NOT_FOUND
    | ModeErrorC \<Rightarrow> MODE_ERROR | StopTimeoutC \<Rightarrow> STOP_TIMEOUT | StateErrorC \<Rightarrow> INVALID_STATE
    | SubprocessErrorC \<Rightarrow> SUBPROCESS_FAILED | _ \<Rightarrow> INTERNAL)"
  by (cases c) (simp_all add: is_kento_def error_kind_def ERROR_KIND_MAP_def mro_step mro_list
      List.map_filter_def)

section \<open>Properties\<close>

text \<open>
  Collapsing any condition stack never trips a constructor check: the result holds the
  whole stack, satisfies the family's invariant, is an Error exactly when some condition is
  an error, a clean Ok exactly when none reaches WARNING, and its status is the maximum.
\<close>
theorem result_of_verdict:
  "\<exists>r. result_of v cs = Inr r \<and> wf_result r \<and> conditions r = cs \<and>
       (is_error r \<longleftrightarrow> (\<exists>c \<in> set cs. severity c = ERROR)) \<and>
       ((\<exists>w. r = Ok w cs) \<longleftrightarrow> (\<forall>c \<in> set cs. severity c < WARNING)) \<and>
       status r = (if cs = [] then None else Some (Max (severity ` set cs))) \<and>
       (is_ok r \<longrightarrow> unwrap r = Inr v)"
proof (cases "cs = []")
  case True
  then show ?thesis by (simp add: result_of_def make_Ok_def is_error_def is_ok_def status_def)
next
  case False
  note top = top_severity_Max [OF False] and below = below_warning [OF False]
  have mem: "(\<exists>c \<in> set cs. severity c = s) \<or> top_severity cs \<noteq> s" for s
    using top_severity_in [OF False] by auto
  consider "top_severity cs = ERROR" | "top_severity cs = WARNING" | "top_severity cs < WARNING"
    using severity_tiers(2) not_le by metis
  then show ?thesis
  proof cases
    case 1
    with mem have "\<exists>c \<in> set cs. severity c = ERROR" by auto
    moreover from this have "\<not> (\<forall>c \<in> set cs. severity c < WARNING)"
      by (force simp: severity_tiers)
    ultimately show ?thesis using 1 False top
      by (auto simp: result_of_def make_Error_def is_error_def is_ok_def status_def)
  next
    case 2
    with mem have "\<exists>c \<in> set cs. severity c = WARNING" by auto
    then have "\<not> (\<forall>c \<in> set cs. severity c < WARNING)" by (force simp: severity_tiers)
    moreover have "\<not> (\<exists>c \<in> set cs. severity c = ERROR)"
      using 2 top_severity_ge [of _ cs] by (force simp: less_eq_severity_def)
    ultimately show ?thesis using 2 False top
      by (auto simp: result_of_def make_Warning_def is_error_def is_ok_def status_def severity_tiers)
  next
    case 3
    then have all: "\<forall>c \<in> set cs. severity c < WARNING" using below by (simp add: not_le)
    then have "\<not> (\<exists>c \<in> set cs. severity c = ERROR)" by (force simp: severity_tiers)
    with 3 all False top show ?thesis
      by (auto simp: result_of_def make_Ok_def is_error_def is_ok_def status_def severity_tiers)
  qed
qed

theorem result_of_verdict_witness:
  "\<exists>r. result_of (7::nat)
           [\<lparr>severity = NOTE, kind = INTERNAL, message = ''n'', cond_context = []\<rparr>] = Inr r \<and>
       unwrap r = Inr 7"
  using result_of_verdict [of "7::nat"
      "[\<lparr>severity = NOTE, kind = INTERNAL, message = ''n'', cond_context = []\<rparr>]"]
  by (auto simp: is_ok_def is_error_def severity_tiers)

text \<open>
  Mapping over a well-formed result never trips a constructor check, keeps the
  condition stack and the verdict, and respects composition.
\<close>
theorem map_res_functor:
  assumes "wf_result r"
  shows "\<exists>r'. map_res f r = Inr r' \<and> wf_result r' \<and> conditions r' = conditions r \<and>
              is_error r' = is_error r \<and> map_res g r' = map_res (g \<circ> f) r \<and>
              unwrap_or (f d) r' = f (unwrap_or d r)"
  using assms
  by (cases r) (auto simp: make_Ok_def make_Warning_def is_error_def)

theorem map_res_functor_witness:
  "\<exists>r'. map_res length (Ok ''abc'' []) = Inr r' \<and> unwrap r' = Inr (3::nat)"
proof -
  have "wf_result (Ok ''abc'' [])" by simp
  from map_res_functor [OF this, of length] have
    "\<exists>r'. map_res length (Ok ''abc'' []) = Inr r'" by auto
  then show ?thesis by (auto simp: make_Ok_def)
qed

text \<open>
  The boundary helper is total on the exceptions of the hierarchy: it always builds an
  Error with one condition, whose kind is that of the most specific mapped class, and
  unwrapping it raises the message of the original exception.
\<close>
theorem error_from_boundary:
  assumes "is_kento (exc_class e)"
  shows "\<exists>k c. error_kind (exc_class e) = Some k \<and> error_from e = Some (Inr (Error [c])) \<and>
               kind c = k \<and> severity c = ERROR \<and>
               unwrap (Error [c]) = Inl \<lparr>err_message = exc_str e, err_conditions = [c]\<rparr> \<and>
               (k = STOP_TIMEOUT \<longleftrightarrow> exc_class e = StopTimeoutC) \<and>
               (k = INVALID_STATE \<longleftrightarrow> exc_class e = StateErrorC) \<and>
               (cond_context c \<noteq> [] \<longleftrightarrow> exc_class e = SubprocessErrorC)"
  using error_kind_cases [OF assms] assms
  by (cases "exc_class e")
    (auto simp: error_from_def make_Error_def top_severity_def is_kento_def mro_step mro_list)

theorem error_from_boundary_witness:
  "\<exists>c. error_from \<lparr>exc_class = StopTimeoutC, exc_str = ''still running'', exc_returncode = None,
                   exc_cmd = None\<rparr> = Some (Inr (Error [c])) \<and> kind c = STOP_TIMEOUT"
  using error_from_boundary [of "\<lparr>exc_class = StopTimeoutC, exc_str = ''still running'',
      exc_returncode = None, exc_cmd = None\<rparr>"]
  by (auto simp: is_kento_def mro_list)

end
