(* ===== verification/Interfaces.thy ===== *)
theory Interfaces imports Strings begin

text \<open>
  The contracts several components share, as locales: a text codec (what is rendered parses
  back), an allocator that takes the first free candidate, and operations that keep an
  invariant of the state they act on.  Each is interpreted on the model's definitions in the
  theory of the component that provides it.
\<close>

section \<open>Codecs\<close>

locale codec =
  fixes render :: "'a \<Rightarrow> 'e + string"
    and parse :: "string \<Rightarrow> 'e + 'a"
    and valid :: "'a \<Rightarrow> bool"
  assumes render_total: "valid x \<Longrightarrow> \<exists>s. render x = Inr s"
    and parse_render: "valid x \<Longrightarrow> render x = Inr s \<Longrightarrow> parse s = Inr x"
    and parse_valid: "parse s = Inr x \<Longrightarrow> valid x"
begin

lemma render_injective:
  "valid x \<Longrightarrow> valid y \<Longrightarrow> render x = Inr s \<Longrightarrow> render y = Inr s \<Longrightarrow> x = y"
  using parse_render [of x s] parse_render [of y s] by simp

lemma reparse: "parse s = Inr x \<Longrightarrow> \<exists>t. render x = Inr t \<and> parse t = Inr x"
  using parse_valid render_total parse_render by blast

lemma parse_render_list:
  "(\<And>x. x \<in> set xs \<Longrightarrow> valid x) \<Longrightarrow> mapE render xs = Inr ss \<Longrightarrow> mapE parse ss = Inr xs"
proof (induction xs arbitrary: ss)
  case Nil
  then show ?case by simp
next
  case (Cons x xs)
  then obtain t ts where "render x = Inr t" "mapE render xs = Inr ts" "ss = t # ts" by auto
  with Cons show ?case using parse_render [of x t] by simp
qed

lemma render_list_total: "(\<And>x. x \<in> set xs \<Longrightarrow> valid x) \<Longrightarrow> \<exists>ss. mapE render xs = Inr ss"
proof (induction xs)
  case Nil
  then show ?case by simp
next
  case (Cons x xs)
  then obtain ss where "mapE render xs = Inr ss" by auto
  moreover from Cons.prems obtain s where "render x = Inr s" using render_total [of x] by auto
  ultimately show ?case by simp
qed

lemma reparse_list: "mapE parse ss = Inr xs \<Longrightarrow> \<exists>ts. mapE render xs = Inr ts \<and> mapE parse ts = Inr xs"
proof -
  assume "mapE parse ss = Inr xs"
  then have v: "\<And>x. x \<in> set xs \<Longrightarrow> valid x"
    by (auto simp: mapE_Inr_iff list_all2_conv_all_nth in_set_conv_nth dest: parse_valid)
  then show ?thesis using render_list_total parse_render_list by blast
qed

end

section \<open>First-free allocation\<close>

text \<open>Allocations in turn, each recorded before the next, as the holders of the lock make them.\<close>

fun allocations :: "('k list \<Rightarrow> 'k) \<Rightarrow> nat \<Rightarrow> 'k list \<Rightarrow> 'k list" where
  "allocations pick 0 used = []"
| "allocations pick (Suc k) used = pick used # allocations pick k (pick used # used)"

lemma allocations_length [simp]: "length (allocations pick k used) = k"
  by (induction k arbitrary: used) simp_all

text \<open>
  A search that tries the candidates in turn: what is left to try shrinks, and whatever
  satisfies its equation returns the first free candidate.
\<close>

lemma search_measure:
  assumes "inj cand" "cand n \<in> set used"
  shows "card {m. Suc n \<le> m \<and> cand m \<in> set used} < card {m::nat. n \<le> m \<and> cand m \<in> set used}"
proof (rule psubset_card_mono)
  have "inj_on cand {m. n \<le> m \<and> cand m \<in> set used}" using assms(1) by (rule inj_on_subset) simp
  moreover have "cand ` {m. n \<le> m \<and> cand m \<in> set used} \<subseteq> set used" by auto
  ultimately show "finite {m. n \<le> m \<and> cand m \<in> set used}"
    by (meson List.finite_set finite_imageD finite_subset)
  have "n \<in> {m. n \<le> m \<and> cand m \<in> set used} - {m. Suc n \<le> m \<and> cand m \<in> set used}"
    using assms(2) by simp
  moreover have "{m. Suc n \<le> m \<and> cand m \<in> set used} \<subseteq> {m. n \<le> m \<and> cand m \<in> set used}" by auto
  ultimately show "{m. Suc n \<le> m \<and> cand m \<in> set used} \<subset> {m. n \<le> m \<and> cand m \<in> set used}"
    by blast
qed

lemma search_first:
  fixes f :: "nat \<Rightarrow> 'k"
  assumes "inj cand" "\<And>n. f n = (if cand n \<notin> set used then cand n else f (Suc n))"
  shows "\<exists>m\<ge>n. f n = cand m \<and> cand m \<notin> set used \<and> (\<forall>k. n \<le> k \<and> k < m \<longrightarrow> cand k \<in> set used)"
proof (induction "card {m. n \<le> m \<and> cand m \<in> set used}" arbitrary: n rule: less_induct)
  case less
  show ?case
  proof (cases "cand n \<in> set used")
    case False
    then show ?thesis using assms(2) [of n] by (intro exI [of _ n]) auto
  next
    case True
    from less [OF search_measure [OF assms(1) True]] obtain m where m: "Suc n \<le> m" "f (Suc n) = cand m"
        "cand m \<notin> set used" "\<forall>k. Suc n \<le> k \<and> k < m \<longrightarrow> cand k \<in> set used" by blast
    moreover have "\<forall>k. n \<le> k \<and> k < m \<longrightarrow> cand k \<in> set used"
      using m(4) True by (metis Suc_leI le_neq_implies_less)
    ultimately show ?thesis using True assms(2) [of n] by (intro exI [of _ m]) simp
  qed
qed

locale first_free =
  fixes cand :: "nat \<Rightarrow> 'k"
    and lo :: nat
    and pick :: "'k list \<Rightarrow> 'k"
  assumes cand_inj: "cand m = cand n \<Longrightarrow> m = n"
    and pick_first: "\<exists>n\<ge>lo. pick used = cand n \<and> cand n \<notin> set used \<and>
                       (\<forall>m. lo \<le> m \<and> m < n \<longrightarrow> cand m \<in> set used)"
begin

lemma pick_fresh: "pick used \<notin> set used"
  using pick_first [of used] by auto

lemma pick_least: "lo \<le> m \<Longrightarrow> cand m \<notin> set used \<Longrightarrow> \<exists>n\<le>m. pick used = cand n"
  using pick_first [of used] by (metis not_le_imp_less)

lemma pick_skips: "pick used = cand n \<Longrightarrow> lo \<le> m \<Longrightarrow> m < n \<Longrightarrow> cand m \<in> set used"
  using pick_first [of used] cand_inj by metis

lemma pick_depends_on_set: "set used = set used' \<Longrightarrow> pick used = pick used'"
proof -
  assume eq: "set used = set used'"
  obtain n where n: "lo \<le> n" "pick used = cand n" "cand n \<notin> set used"
      "\<forall>m. lo \<le> m \<and> m < n \<longrightarrow> cand m \<in> set used"
    using pick_first [of used] by auto
  obtain k where k: "lo \<le> k" "pick used' = cand k" "cand k \<notin> set used'"
      "\<forall>m. lo \<le> m \<and> m < k \<longrightarrow> cand m \<in> set used'"
    using pick_first [of used'] by auto
  have "n = k" using n k eq by (metis linorder_neqE_nat)
  with n k show ?thesis by simp
qed

lemma allocations_fresh: "set (allocations pick k used) \<inter> set used = {}"
proof (induction k arbitrary: used)
  case 0
  then show ?case by simp
next
  case (Suc k)
  from Suc [of "pick used # used"] pick_fresh [of used] show ?case by auto
qed

lemma allocations_distinct: "distinct (allocations pick k used)"
proof (induction k arbitrary: used)
  case 0
  then show ?case by simp
next
  case (Suc k)
  then show ?case using allocations_fresh [of k "pick used # used"] by auto
qed

end

section \<open>Operations that keep an invariant\<close>

locale invariant_steps =
  fixes step :: "'op \<Rightarrow> 's \<Rightarrow> 's"
    and inv :: "'s \<Rightarrow> bool"
  assumes step_inv: "inv s \<Longrightarrow> inv (step x s)"
begin

lemma run_inv: "inv s \<Longrightarrow> inv (fold step xs s)"
  by (induction xs arbitrary: s) (simp_all add: step_inv)

end

end
