(* ===== verification/Network.thy ===== *)
theory Network imports Regex Results Interfaces begin

text \<open>
  \<^verbatim>\<open>_network.py\<close>: the network value types and the grammar of port forwards,
  \<^verbatim>\<open>[hostIP:]hostPort:[guestIP:]guestPort[/protocol]\<close>, with its parser, renderer and the
  strict dictionary of forwards, and the decomposition of a static address.  Error messages
  are not modelled, the class of the exception is.
\<close>

section \<open>Value types\<close>

datatype network_mode = DHCP | STATIC | USER | HOST | DISABLED
datatype protocol = TCP | UDP

fun mode_value :: "network_mode \<Rightarrow> string" where
  "mode_value DHCP = ''dhcp''" | "mode_value STATIC = ''static''" | "mode_value USER = ''user''"
| "mode_value HOST = ''host''" | "mode_value DISABLED = ''disabled''"

fun proto_value :: "protocol \<Rightarrow> string" where
  "proto_value TCP = ''tcp''" | "proto_value UDP = ''udp''"

text \<open>The enum looked up by value: \<^verbatim>\<open>ForwardProtocol(s)\<close> raises \<^verbatim>\<open>ValueError\<close> otherwise.\<close>

definition proto_of :: "string \<Rightarrow> protocol option" where
  "proto_of s = (if s = ''tcp'' then Some TCP else if s = ''udp'' then Some UDP else None)"

type_synonym host_binding = "protocol \<times> string option \<times> int"
type_synonym guest_target = "string option \<times> int"

record network_connection =
  nc_mode :: network_mode
  link_config :: "(string \<times> string) list"
  ip_config :: "(string \<times> string) list"

section \<open>The forward grammar\<close>

definition PORT_MIN :: int where "PORT_MIN = 1"
definition PORT_MAX :: int where "PORT_MAX = 65535"

definition ascii_digits :: "string \<Rightarrow> bool" where
  "ascii_digits = anchored (rx_match (Plus (Cls is_digit)))"

fun split_outside_brackets :: "nat \<Rightarrow> string \<Rightarrow> string \<Rightarrow> exc + string list" where
  "split_outside_brackets depth cur [] =
     (if depth \<noteq> 0 then Inl ValidationErrorC else Inr [cur])"
| "split_outside_brackets depth cur (c # cs) =
     (if c = CHR ''['' then split_outside_brackets (Suc depth) (cur @ [c]) cs
      else if c = CHR '']'' then
        (if depth = 0 then Inl ValidationErrorC
         else split_outside_brackets (depth - 1) (cur @ [c]) cs)
      else if c = CHR '':'' \<and> depth = 0 then
        bindE (split_outside_brackets 0 [] cs) (\<lambda>ps. Inr (cur # ps))
      else split_outside_brackets depth (cur @ [c]) cs)"

definition parse_port :: "string \<Rightarrow> exc + int" where
  "parse_port s =
     (if s = [] then Inl ValidationErrorC
      else if \<not> ascii_digits s then Inl ValidationErrorC
      else (case py_int s of
          None \<Rightarrow> Inl ValueErrorC
        | Some port \<Rightarrow>
            if \<not> (PORT_MIN \<le> port \<and> port \<le> PORT_MAX) then Inl ValidationErrorC else Inr port))"

definition validate_address :: "string \<Rightarrow> exc + string" where
  "validate_address addr = (if addr = [] then Inl ValidationErrorC else Inr addr)"

text \<open>The protocol suffix is peeled at the last slash.\<close>

definition peel_protocol :: "string \<Rightarrow> exc + (string \<times> protocol)" where
  "peel_protocol spec =
     (if CHR ''/'' \<in> set spec then
        (let (body, found, proto_str) = py_rpartition (CHR ''/'') spec
         in if body = [] then Inl ValidationErrorC
            else if proto_str = [] then Inl ValidationErrorC
            else (case proto_of (py_lower proto_str) of
                None \<Rightarrow> Inl ValidationErrorC
              | Some p \<Rightarrow> Inr (body, p)))
      else Inr (spec, TCP))"

fun parse_elements :: "protocol \<Rightarrow> string list \<Rightarrow> exc + (host_binding \<times> guest_target)" where
  "parse_elements proto [host_port_s, guest_port_s] =
     bindE (parse_port host_port_s) (\<lambda>host_port.
     bindE (parse_port guest_port_s) (\<lambda>guest_port.
     Inr ((proto, None, host_port), (None, guest_port))))"
| "parse_elements proto [host_addr_s, host_port_s, guest_port_s] =
     bindE (validate_address host_addr_s) (\<lambda>_.
     bindE (parse_port host_port_s) (\<lambda>_.
     bindE (parse_port guest_port_s) (\<lambda>_.
     Inl ForwardAddressNotImplementedC)))"
| "parse_elements proto [host_addr_s, host_port_s, guest_addr_s, guest_port_s] =
     bindE (validate_address host_addr_s) (\<lambda>_.
     bindE (parse_port host_port_s) (\<lambda>_.
     bindE (validate_address guest_addr_s) (\<lambda>_.
     bindE (parse_port guest_port_s) (\<lambda>_.
     Inl ForwardAddressNotImplementedC))))"
| "parse_elements proto _ = Inl ValidationErrorC"

definition parse_forward_spec :: "string \<Rightarrow> exc + (host_binding \<times> guest_target)" where
  "parse_forward_spec spec =
     (if spec = [] then Inl ValidationErrorC
      else bindE (peel_protocol spec) (\<lambda>(body, proto).
           bindE (split_outside_brackets 0 [] body) (\<lambda>elements.
           parse_elements proto elements)))"

definition render_forward_spec :: "host_binding \<Rightarrow> guest_target \<Rightarrow> exc + string" where
  "render_forward_spec binding target =
     (let (proto, host_addr, host_port) = binding; (guest_addr, guest_port) = target
      in if host_addr \<noteq> None \<or> guest_addr \<noteq> None then Inl ForwardAddressNotImplementedC
         else Inr (int_str host_port @ '':'' @ int_str guest_port @
                   (if proto \<noteq> TCP then CHR ''/'' # proto_value proto else [])))"

text \<open>The dictionary of forwards, in insertion order; a second entry for a binding is refused.\<close>

type_synonym forwards = "(host_binding \<times> guest_target) list"

fun add_forwards :: "forwards \<Rightarrow> string list \<Rightarrow> exc + forwards" where
  "add_forwards fwd [] = Inr fwd"
| "add_forwards fwd (spec # specs) =
     bindE (parse_forward_spec spec) (\<lambda>(binding, target).
       if binding \<in> fst ` set fwd then Inl ValidationErrorC
       else add_forwards (fwd @ [(binding, target)]) specs)"

definition parse_forwards :: "string list \<Rightarrow> exc + forwards" where
  "parse_forwards specs = add_forwards [] specs"

section \<open>Static addresses\<close>

definition parse_cidr :: "string \<Rightarrow> exc + (string \<times> string option)" where
  "parse_cidr value =
     (if value = [] then Inl ValidationErrorC
      else if count_list value (CHR ''/'') > 1 then Inl ValidationErrorC
      else let (address, sep, pre) = py_partition (CHR ''/'') value
           in if address = [] then Inl ValidationErrorC
              else if \<not> sep then Inr (address, None)
              else if pre = [] then Inl ValidationErrorC
              else if \<not> ascii_digits pre then Inl ValidationErrorC
              else (case py_int pre of
                  None \<Rightarrow> Inl ValueErrorC
                | Some n \<Rightarrow> if n > 32 then Inl ValidationErrorC else Inr (address, Some pre)))"

section \<open>Facts\<close>

definition valid_forward :: "host_binding \<times> guest_target \<Rightarrow> bool" where
  "valid_forward f \<longleftrightarrow> (\<exists>p h g. f = ((p, None, h), (None, g)) \<and>
     PORT_MIN \<le> h \<and> h \<le> PORT_MAX \<and> PORT_MIN \<le> g \<and> g \<le> PORT_MAX)"

lemmas port_bounds = PORT_MIN_def PORT_MAX_def

lemma ascii_digits_iff:
  "ascii_digits s \<longleftrightarrow> (s \<noteq> [] \<and> (\<forall>c \<in> set s. is_digit c)) \<or>
     (\<exists>t. s = t @ [LF] \<and> t \<noteq> [] \<and> (\<forall>c \<in> set t. is_digit c))"
  by (auto simp: ascii_digits_def anchored_def Plus_nonempty)
    (metis append_butlast_last_id)+

lemma port_str: "PORT_MIN \<le> n \<Longrightarrow> n \<le> PORT_MAX \<Longrightarrow>
    int_str n = nat_str (nat n) \<and> length (nat_str (nat n)) \<le> 5"
  by (auto simp: int_str_def port_bounds intro!: nat_str_length_le)

lemma parse_port_render:
  assumes "PORT_MIN \<le> n" "n \<le> PORT_MAX"
  shows "parse_port (int_str n) = Inr n"
proof -
  have len: "length (nat_str (nat n)) \<le> INT_MAX_DIGITS"
    using port_str [OF assms] by (simp add: INT_MAX_DIGITS_def)
  have "ascii_digits (nat_str (nat n))"
    by (auto simp: ascii_digits_iff dest: nat_str_digits)
  then show ?thesis
    using port_str [OF assms] py_int_nat_str [OF len] assms
    by (simp add: parse_port_def) (simp add: port_bounds)
qed

lemma parse_port_range: "parse_port s = Inr n \<Longrightarrow> PORT_MIN \<le> n \<and> n \<le> PORT_MAX"
  by (auto simp: parse_port_def split: if_splits option.splits)

lemma split_plain:
  assumes "\<And>c. c \<in> set s \<Longrightarrow> c \<noteq> CHR ''['' \<and> c \<noteq> CHR '']'' \<and> c \<noteq> CHR '':''"
  shows "split_outside_brackets d cur (s @ t) = split_outside_brackets d (cur @ s) t"
  using assms by (induction s arbitrary: cur) auto

lemma port_chars: "PORT_MIN \<le> n \<Longrightarrow> n \<le> PORT_MAX \<Longrightarrow> c \<in> set (int_str n) \<Longrightarrow> is_digit c"
  using port_str [of n] nat_str_digits [of c "nat n"] by simp

lemma digit_not_sep: "is_digit c \<Longrightarrow>
    c \<noteq> CHR ''['' \<and> c \<noteq> CHR '']'' \<and> c \<noteq> CHR '':'' \<and> c \<noteq> CHR ''/''"
  by (auto simp: is_digit_def cp_def)

lemma split_ports:
  assumes "\<And>c. c \<in> set a \<Longrightarrow> is_digit c" "\<And>c. c \<in> set b \<Longrightarrow> is_digit c"
  shows "split_outside_brackets 0 [] (a @ CHR '':'' # b) = Inr [a, b]"
proof -
  have "split_outside_brackets 0 [] (a @ CHR '':'' # b) =
      split_outside_brackets 0 a (CHR '':'' # b)"
    using split_plain [of a 0 "[]" "CHR '':'' # b"] assms(1) digit_not_sep by auto
  moreover have "split_outside_brackets 0 [] b = Inr [b]"
    using split_plain [of b 0 "[]" "[]"] assms(2) digit_not_sep by auto
  ultimately show ?thesis by simp
qed

lemma peel_none: "CHR ''/'' \<notin> set s \<Longrightarrow> peel_protocol s = Inr (s, TCP)"
  by (simp add: peel_protocol_def)

lemma peel_udp: "s \<noteq> [] \<Longrightarrow> peel_protocol (s @ ''/udp'') = Inr (s, UDP)"
proof -
  assume "s \<noteq> []"
  moreover have "py_rpartition (CHR ''/'') (s @ CHR ''/'' # ''udp'') = (s, True, ''udp'')"
    by (rule py_rpartition_at) simp
  moreover have "proto_of (py_lower ''udp'') = Some UDP"
    by (simp add: proto_of_def py_defs)
  ultimately show ?thesis by (simp add: peel_protocol_def)
qed

lemma forward_render:
  "valid_forward f \<Longrightarrow> \<exists>s. (\<lambda>(b, t). render_forward_spec b t) f = Inr s"
  by (auto simp: valid_forward_def render_forward_spec_def)

lemma forward_parse_render:
  assumes "valid_forward f" "(\<lambda>(b, t). render_forward_spec b t) f = Inr s"
  shows "parse_forward_spec s = Inr f"
proof -
  obtain p h g where f: "f = ((p, None, h), (None, g))"
    and h: "PORT_MIN \<le> h" "h \<le> PORT_MAX" and g: "PORT_MIN \<le> g" "g \<le> PORT_MAX"
    using assms(1) by (auto simp: valid_forward_def)
  let ?b = "int_str h @ CHR '':'' # int_str g"
  have nosl: "CHR ''/'' \<notin> set ?b"
    using port_chars [OF h] port_chars [OF g] digit_not_sep by fastforce
  have spl: "split_outside_brackets 0 [] ?b = Inr [int_str h, int_str g]"
    using split_ports port_chars h g by blast
  have el: "parse_elements p [int_str h, int_str g] = Inr f"
    using parse_port_render h g by (simp add: f)
  show ?thesis
  proof (cases p)
    case TCP
    then have "s = ?b" using assms(2) f by (simp add: render_forward_spec_def)
    then show ?thesis using nosl spl el TCP by (simp add: parse_forward_spec_def peel_none)
  next
    case UDP
    then have s: "s = ?b @ ''/udp''" using assms(2) f by (simp add: render_forward_spec_def)
    have "peel_protocol (?b @ ''/udp'') = Inr (?b, UDP)" by (rule peel_udp) simp
    then show ?thesis using spl el UDP s by (simp add: parse_forward_spec_def)
  qed
qed

lemma parse_elements_Inr:
  "parse_elements p es = Inr f \<Longrightarrow> \<exists>a b h g. es = [a, b] \<and> parse_port a = Inr h \<and>
     parse_port b = Inr g \<and> f = ((p, None, h), (None, g))"
  by (induction p es rule: parse_elements.induct) auto

lemma forward_parse_valid: "parse_forward_spec s = Inr f \<Longrightarrow> valid_forward f"
  by (fastforce simp: parse_forward_spec_def valid_forward_def
      split: if_splits dest!: parse_elements_Inr dest: parse_port_range)

interpretation fwd: codec "\<lambda>(b, t). render_forward_spec b t" parse_forward_spec valid_forward
  by unfold_locales (auto intro: forward_parse_render forward_parse_valid dest: forward_render)

lemma add_forwards_Inr:
  "add_forwards fwd specs = Inr m \<longleftrightarrow>
     (\<exists>fs. mapE parse_forward_spec specs = Inr fs \<and> m = fwd @ fs \<and>
           (distinct (map fst fwd) \<longrightarrow> distinct (map fst m)) \<and>
           distinct (map fst fs) \<and> fst ` set fs \<inter> fst ` set fwd = {})"
proof (induction specs arbitrary: fwd)
  case Nil
  then show ?case by auto
next
  case (Cons s specs)
  show ?case
  proof (cases "parse_forward_spec s")
    case (Inl e)
    then show ?thesis by simp
  next
    case (Inr f)
    then show ?thesis by (cases f) (auto simp: Cons.IH)
  qed
qed

lemma parse_forwards_Inr:
  "parse_forwards specs = Inr m \<longleftrightarrow>
     mapE parse_forward_spec specs = Inr m \<and> distinct (map fst m)"
  by (auto simp: parse_forwards_def add_forwards_Inr)

lemma forward_line_breaks: "render_forward_spec b t = Inr s \<Longrightarrow> valid_forward (b, t) \<Longrightarrow> no_breaks s"
proof -
  assume r: "render_forward_spec b t = Inr s" and v: "valid_forward (b, t)"
  obtain p h g where b: "b = (p, None, h)" "t = (None, g)"
    and h: "PORT_MIN \<le> h" "h \<le> PORT_MAX" and g: "PORT_MIN \<le> g" "g \<le> PORT_MAX"
    using v by (auto simp: valid_forward_def)
  have dig: "is_digit c \<Longrightarrow> \<not> py_linebreak c" for c
    by (auto simp: py_linebreak_def is_digit_def)
  have "no_breaks (int_str h)" "no_breaks (int_str g)"
    using port_chars [OF h] port_chars [OF g] dig by (auto simp: no_breaks_def)
  moreover have "no_breaks ('':'')" "no_breaks (''/udp'')"
    by (simp_all add: py_linebreak_def cp_def)
  ultimately show ?thesis using r b by (cases p) (auto simp: render_forward_spec_def)
qed

lemma parse_port_too_long:
  assumes "\<And>c. c \<in> set s \<Longrightarrow> is_digit c" "length s > INT_MAX_DIGITS"
  shows "parse_port s = Inl ValueErrorC"
  using assms py_int_too_long [OF assms]
  by (auto simp: parse_port_def ascii_digits_iff INT_MAX_DIGITS_def)

section \<open>Properties\<close>

text \<open>
  Every forward with both ports in 1..65535 and no addresses renders, and its rendering
  parses back to the same binding and target.
\<close>
theorem forward_spec_roundtrip:
  assumes "valid_forward (b, t)"
  shows "\<exists>s. render_forward_spec b t = Inr s \<and> parse_forward_spec s = Inr (b, t)"
  using fwd.render_total [OF assms] fwd.parse_render [OF assms] by auto

theorem forward_spec_roundtrip_witness:
  "\<exists>s. render_forward_spec (UDP, None, 8080) (None, 53) = Inr s \<and>
       parse_forward_spec s = Inr ((UDP, None, 8080), (None, 53))"
  by (rule forward_spec_roundtrip) (simp add: valid_forward_def port_bounds)

text \<open>
  An accepted spec has exactly two elements once its protocol is peeled: a spec in which
  the user typed a host or guest address is never accepted with the address dropped.  What is
  accepted has both ports in range, and rendering it gives a spec with the same meaning.
\<close>
theorem forward_spec_accepts:
  assumes "parse_forward_spec s = Inr (b, t)"
  shows "\<exists>body p h g hs gs. peel_protocol s = Inr (body, p) \<and>
           split_outside_brackets 0 [] body = Inr [hs, gs] \<and>
           b = (p, None, h) \<and> t = (None, g) \<and> 1 \<le> h \<and> h \<le> 65535 \<and> 1 \<le> g \<and> g \<le> 65535 \<and>
           (\<exists>r. render_forward_spec b t = Inr r \<and> parse_forward_spec r = Inr (b, t))"
proof -
  from assms obtain body p es where peel: "peel_protocol s = Inr (body, p)"
    and spl: "split_outside_brackets 0 [] body = Inr es" and el: "parse_elements p es = Inr (b, t)"
    by (auto simp: parse_forward_spec_def split: if_splits)
  moreover have "\<exists>r. render_forward_spec b t = Inr r \<and> parse_forward_spec r = Inr (b, t)"
    using fwd.reparse [OF assms] by simp
  ultimately show ?thesis
    using parse_elements_Inr [OF el] parse_port_range by (fastforce simp: port_bounds)
qed

theorem forward_spec_accepts_witness:
  "\<exists>r. render_forward_spec (UDP, None, 8080) (None, 80) = Inr r \<and>
       parse_forward_spec r = Inr ((UDP, None, 8080), (None, 80))"
proof -
  have "parse_forward_spec ''8080:80/UDP'' = Inr ((UDP, None, 8080), (None, 80))"
    by code_simp
  from forward_spec_accepts [OF this] show ?thesis by blast
qed

text \<open>
  The dictionary of forwards is strict: it is built exactly when every spec parses and no
  two specs share a (protocol, host address, host port) binding, and then it holds one entry
  per spec, in their order.
\<close>
theorem parse_forwards_strict:
  "parse_forwards specs = Inr m \<longleftrightarrow>
     map parse_forward_spec specs = map Inr m \<and> distinct (map fst m)"
  by (auto simp: parse_forwards_Inr mapE_Inr_iff list_all2_conv_all_nth list_eq_iff_nth_eq)

text \<open>
  The state file of forwards round-trips: the rendered entries of a dictionary, written
  one per line, are read back line by line into the same dictionary.
\<close>
theorem forwards_file_roundtrip:
  assumes "parse_forwards specs = Inr m"
  shows "\<exists>ls. mapE (\<lambda>(b, t). render_forward_spec b t) m = Inr ls \<and>
              parse_forwards (py_splitlines (unlines ls)) = Inr m"
proof -
  have m: "mapE parse_forward_spec specs = Inr m" "distinct (map fst m)"
    using assms by (auto simp: parse_forwards_Inr)
  from fwd.reparse_list [OF m(1)] obtain ls
    where ls: "mapE (\<lambda>(b, t). render_forward_spec b t) m = Inr ls" "mapE parse_forward_spec ls = Inr m"
    by blast
  have "no_breaks l" if l: "l \<in> set ls" for l
  proof -
    obtain b t where bt: "(b, t) \<in> set m" "render_forward_spec b t = Inr l"
      using mapE_image [OF ls(1) l] by auto
    moreover have "valid_forward (b, t)"
      using mapE_image [OF m(1) bt(1)] forward_parse_valid by blast
    ultimately show ?thesis using forward_line_breaks by blast
  qed
  with ls m(2) show ?thesis by (auto simp: parse_forwards_Inr splitlines_unlines)
qed

theorem forwards_file_roundtrip_witness:
  "\<exists>m ls. mapE (\<lambda>(b, t). render_forward_spec b t) m = Inr ls \<and> m \<noteq> [] \<and>
          parse_forwards (py_splitlines (unlines ls)) = Inr m"
proof -
  have p: "parse_forwards [''80:80''] = Inr [((TCP, None, 80), (None, 80))]" by code_simp
  show ?thesis using forwards_file_roundtrip [OF p] by blast
qed

text \<open>
  Two inputs outside the documented grammar: a spec with a newline after the guest port is
  accepted and means the spec without it, and a spec whose host port is a run of more than
  4300 digits raises a bare \<^verbatim>\<open>ValueError\<close>, which is not an exception of the library.
\<close>
theorem forward_spec_grammar_gaps:
  assumes "1 \<le> h" "h \<le> 65535" "1 \<le> g" "g \<le> 65535" "k > 4300"
  shows "parse_forward_spec (int_str h @ CHR '':'' # int_str g @ [LF]) = Inr ((TCP, None, h), (None, g)) \<and>
    parse_forward_spec (replicate k (CHR ''9'') @ CHR '':'' # int_str g) = Inl ValueErrorC \<and>
    \<not> is_kento ValueErrorC"
proof -
  have h: "PORT_MIN \<le> h" "h \<le> PORT_MAX" and g: "PORT_MIN \<le> g" "g \<le> PORT_MAX"
    using assms by (simp_all add: port_bounds)
  note dig = port_chars [OF h] port_chars [OF g]
  have lf: "c = LF \<Longrightarrow> c \<noteq> CHR ''['' \<and> c \<noteq> CHR '']'' \<and> c \<noteq> CHR '':'' \<and> c \<noteq> CHR ''/''" for c by simp
  have spl: "split_outside_brackets 0 [] (int_str h @ CHR '':'' # int_str g @ [LF]) =
      Inr [int_str h, int_str g @ [LF]]"
    using split_plain [of "int_str h" 0 "[]" "CHR '':'' # int_str g @ [LF]"]
      split_plain [of "int_str g @ [LF]" 0 "[]" "[]"] dig digit_not_sep by fastforce
  have gp: "int_str g = nat_str (nat g)" "py_int (int_str g) = Some g"
    using port_str [OF g] py_int_nat_str [of "nat g"] g by (simp_all add: INT_MAX_DIGITS_def port_bounds)
  have "parse_port (int_str g @ [LF]) = Inr g"
  proof -
    have "ascii_digits (int_str g @ [LF])"
      using gp dig(2) by (auto simp: ascii_digits_iff)
    moreover have "py_int (int_str g @ [LF]) = Some g"
      using py_int_strip_LF [of "int_str g"] gp by simp
    ultimately show ?thesis using g by (simp add: parse_port_def)
  qed
  moreover have nosl: "CHR ''/'' \<notin> set (int_str h @ CHR '':'' # int_str g @ [LF])"
    using dig digit_not_sep by fastforce
  ultimately have newline: "parse_forward_spec (int_str h @ CHR '':'' # int_str g @ [LF]) =
      Inr ((TCP, None, h), (None, g))"
    using spl parse_port_render [OF h] by (simp add: parse_forward_spec_def peel_none)
  have nines: "c \<in> set (replicate k (CHR ''9'')) \<Longrightarrow> is_digit c" for c
    by (simp add: is_digit_def cp_def)
  have "parse_port (replicate k (CHR ''9'')) = Inl ValueErrorC"
    using parse_port_too_long [of "replicate k (CHR ''9'')"] nines assms(5) by (simp add: INT_MAX_DIGITS_def)
  moreover have "split_outside_brackets 0 [] (replicate k (CHR ''9'') @ CHR '':'' # int_str g) =
      Inr [replicate k (CHR ''9''), int_str g]"
    using split_ports nines dig(2) by blast
  moreover have "CHR ''/'' \<notin> set (replicate k (CHR ''9'') @ CHR '':'' # int_str g)"
    using dig(2) digit_not_sep by fastforce
  ultimately have "parse_forward_spec (replicate k (CHR ''9'') @ CHR '':'' # int_str g) = Inl ValueErrorC"
    by (simp add: parse_forward_spec_def peel_none)
  with newline show ?thesis by (simp add: is_kento_def mro_step mro_list)
qed

theorem forward_spec_grammar_gaps_witness:
  "parse_forward_spec (int_str 8080 @ CHR '':'' # int_str 80 @ [LF]) = Inr ((TCP, None, 8080), (None, 80))"
  using forward_spec_grammar_gaps [of 8080 80 4301] by simp

text \<open>
  A static address decomposes without loss: an accepted input is the address alone, or the
  address, a slash and the prefix length, which then is at most 32.
\<close>
theorem parse_cidr_faithful:
  assumes "parse_cidr v = Inr (a, n)"
  shows "a \<noteq> [] \<and> CHR ''/'' \<notin> set a \<and>
    (case n of None \<Rightarrow> v = a
     | Some p \<Rightarrow> v = a @ CHR ''/'' # p \<and> ascii_digits p \<and> (\<exists>k. py_int p = Some k \<and> k \<le> 32))"
proof (cases "CHR ''/'' \<in> set v")
  case True
  then obtain x y where "v = x @ CHR ''/'' # y" "CHR ''/'' \<notin> set x"
      "py_partition (CHR ''/'') v = (x, True, y)"
    by (rule py_partition_split)
  with assms show ?thesis
    by (auto simp: parse_cidr_def split: if_splits option.splits)
next
  case False
  with assms show ?thesis
    by (auto simp: parse_cidr_def py_partition_none split: if_splits)
qed

theorem parse_cidr_faithful_witness:
  "parse_cidr ''10.0.0.5/24'' = Inr (''10.0.0.5'', Some ''24'') \<and>
   ''10.0.0.5/24'' = ''10.0.0.5'' @ CHR ''/'' # ''24''"
proof -
  have p: "parse_cidr ''10.0.0.5/24'' = Inr (''10.0.0.5'', Some ''24'')" by code_simp
  with parse_cidr_faithful [OF this] show ?thesis by simp
qed

end
