(* ===== verification/References.thy ===== *)
theory References imports Regex Results Interfaces begin

text \<open>
  \<^verbatim>\<open>_references.py\<close>, the OCI part: the grammar of image references (\<^verbatim>\<open>Endpoint\<close>,
  \<^verbatim>\<open>Digest\<close>, \<^verbatim>\<open>OciReference\<close>), its validators, the faithful parser with the
  domain heuristic, the renderer and the Docker Hub normalisation.  A raise inside the parser
  is \<^verbatim>\<open>Malformed\<close> with the message, value and production of the source; any other exception
  is a \<^verbatim>\<open>Panic\<close>.
\<close>

datatype ref_exn = Malformed string string string | Panic exc

section \<open>repr of a string\<close>

definition hex_digit :: "nat \<Rightarrow> char" where
  "hex_digit n = (if n < 10 then char_of (48 + n) else char_of (87 + n))"

definition repr_char :: "char \<Rightarrow> char \<Rightarrow> string" where
  "repr_char q c =
     (if c = q \<or> c = CHR 0x5C then [CHR 0x5C, c]
      else if c = LF then [CHR 0x5C, CHR ''n'']
      else if c = CR then [CHR 0x5C, CHR ''r'']
      else if c = TAB then [CHR 0x5C, CHR ''t'']
      else if cp c < 32 \<or> (127 \<le> cp c \<and> cp c \<le> 160) \<or> cp c = 173
        then [CHR 0x5C, CHR ''x'', hex_digit (cp c div 16), hex_digit (cp c mod 16)]
      else [c])"

definition py_repr :: "string \<Rightarrow> string" where
  "py_repr s = (let q = (if CHR 0x27 \<in> set s \<and> CHR 0x22 \<notin> set s then CHR 0x22 else CHR 0x27)
                in q # concat (map (repr_char q) s) @ [q])"

abbreviation quoted :: "string \<Rightarrow> string" where "quoted x \<equiv> CHR 0x27 # x @ [CHR 0x27]"

text \<open>The message \<^verbatim>\<open>MalformedReference.__init__\<close> builds.\<close>

definition malformed_str :: "string \<Rightarrow> string \<Rightarrow> string \<Rightarrow> string" where
  "malformed_str msg val prodn =
     (if prodn \<noteq> [] then ''malformed reference ('' @ prodn @ ''): '' @ msg @ '': '' @ py_repr val
      else ''malformed reference: '' @ msg @ '': '' @ py_repr val)"

definition malformed_error :: "string \<Rightarrow> string \<Rightarrow> string \<Rightarrow> exc + 'a result" where
  "malformed_error msg val prodn = make_Error
     [\<lparr>severity = ERROR, kind = MALFORMED_REFERENCE, message = malformed_str msg val prodn,
       cond_context = [(''value'', CStr (Some val)),
                       (''production'', CStr (if prodn = [] then None else Some prodn))]\<rparr>]"

section \<open>Grammar fragments\<close>

definition rx_alnum :: rx where "rx_alnum = Cls is_alnum"
definition DOMAIN_COMPONENT :: rx where
  "DOMAIN_COMPONENT =
     Alt rx_alnum (Cat rx_alnum (Cat (Rep (Cls (\<lambda>c. is_alnum c \<or> c = CHR ''-''))) rx_alnum))"
definition DOMAIN_NAME :: rx where
  "DOMAIN_NAME = Cat DOMAIN_COMPONENT (Rep (Cat (Chr CHR ''.'') DOMAIN_COMPONENT))"
definition IPV4_OCTET :: rx where
  "IPV4_OCTET = Cat (Cls is_digit) (UpTo 2 (Cls is_digit))"
definition IPV4 :: rx where
  "IPV4 = Cat (Times 3 (Cat IPV4_OCTET (Chr CHR ''.''))) IPV4_OCTET"
definition IPV6_BRACKETED :: rx where
  "IPV6_BRACKETED =
     Cat (Chr CHR ''['')
       (Cat (Plus (Cls (\<lambda>c. is_hex c \<or> c = CHR '':'' \<or> c = CHR ''.''))) (Chr CHR '']''))"
definition HOST_RX :: rx where "HOST_RX = Alt IPV6_BRACKETED (Alt DOMAIN_NAME IPV4)"
definition PORT_RX :: rx where "PORT_RX = Plus (Cls is_digit)"
definition ALPHA_NUMERIC :: rx where "ALPHA_NUMERIC = Plus (Cls (\<lambda>c. is_lower c \<or> is_digit c))"
definition SEPARATOR :: rx where
  "SEPARATOR = Alt (Cls (\<lambda>c. c = CHR ''_'' \<or> c = CHR ''.''))
     (Alt (Cat (Chr CHR ''_'') (Chr CHR ''_'')) (Plus (Chr CHR ''-'')))"
definition PATH_COMPONENT :: rx where
  "PATH_COMPONENT = Cat ALPHA_NUMERIC (Rep (Cat SEPARATOR ALPHA_NUMERIC))"
definition TAG :: rx where
  "TAG = Cat (Cls is_word) (UpTo 127 (Cls (\<lambda>c. is_word c \<or> c = CHR ''.'' \<or> c = CHR ''-'')))"
definition DIGEST_ALGO_COMPONENT :: rx where
  "DIGEST_ALGO_COMPONENT = Cat (Cls is_alpha) (Rep (Cls is_alnum))"
definition DIGEST_ALGO_SEP :: rx where
  "DIGEST_ALGO_SEP = Cls (\<lambda>c. c = CHR ''+'' \<or> c = CHR ''.'' \<or> c = CHR ''_'' \<or> c = CHR ''-'')"
definition DIGEST_ALGO :: rx where
  "DIGEST_ALGO = Cat DIGEST_ALGO_COMPONENT (Rep (Cat DIGEST_ALGO_SEP DIGEST_ALGO_COMPONENT))"
definition DIGEST_HEX :: rx where
  "DIGEST_HEX = Cat (Times 32 (Cls is_hex)) (Rep (Cls is_hex))"
definition IDENTIFIER :: rx where "IDENTIFIER = Times 64 (Cls is_lower_hex)"

lemmas rx_defs =
  rx_alnum_def DOMAIN_COMPONENT_def DOMAIN_NAME_def IPV4_OCTET_def IPV4_def IPV6_BRACKETED_def
  HOST_RX_def PORT_RX_def ALPHA_NUMERIC_def SEPARATOR_def PATH_COMPONENT_def TAG_def
  DIGEST_ALGO_COMPONENT_def DIGEST_ALGO_SEP_def DIGEST_ALGO_def DIGEST_HEX_def IDENTIFIER_def

definition REPO_NAME_TOTAL_MAX :: nat where "REPO_NAME_TOTAL_MAX = 255"

definition DIGEST_FIXED_LEN :: "string \<rightharpoonup> nat" where
  "DIGEST_FIXED_LEN = map_of [(''sha256'', 64), (''sha384'', 96), (''sha512'', 128)]"

section \<open>Values\<close>

record endpoint =
  host :: string
  port :: "int option"
  username :: "string option"
  password :: "string option"

record digest =
  algorithm :: string
  encoded :: string

record oci_ref =
  oci_endpoint :: "endpoint option"
  oci_path :: string
  oci_name :: string
  oci_version :: "string option"
  oci_digest :: "digest option"

section \<open>Component validators\<close>

definition validate_host :: "string \<Rightarrow> ref_exn + unit" where
  "validate_host h =
     (if h = [] then Inl (Malformed ''empty host'' h ''host'')
      else if \<not> anchored (rx_match HOST_RX) h then Inl (Malformed ''not a valid host'' h ''host'')
      else if rx_match IPV4 h \<and> (\<exists>octet \<in> set (py_split (CHR ''.'') h). digits_val octet > 255)
        then Inl (Malformed ''IPv4 octet out of range'' h ''host'')
      else Inr ())"

definition validate_port :: "string \<Rightarrow> ref_exn + unit" where
  "validate_port p =
     (if \<not> anchored (rx_match PORT_RX) p then Inl (Malformed ''port must be digits'' p ''port-number'')
      else Inr ())"

definition validate_path_component :: "string \<Rightarrow> ref_exn + unit" where
  "validate_path_component c =
     (if c = [] then Inl (Malformed ''empty path component'' c ''path-component'')
      else if \<not> anchored (rx_match PATH_COMPONENT) c
        then Inl (Malformed ''not a valid path component'' c ''path-component'')
      else Inr ())"

definition validate_tag :: "string \<Rightarrow> ref_exn + unit" where
  "validate_tag t =
     (if \<not> anchored (rx_match TAG) t then Inl (Malformed ''not a valid tag'' t ''tag'') else Inr ())"

definition validate_digest :: "string \<Rightarrow> string \<Rightarrow> ref_exn + unit" where
  "validate_digest alg enc =
     (if \<not> anchored (rx_match DIGEST_ALGO) alg
        then Inl (Malformed ''not a valid digest algorithm'' alg ''digest-algorithm'')
      else if \<not> anchored (rx_match DIGEST_HEX) enc
        then Inl (Malformed ''digest hex must be >=32 hex chars'' enc ''digest-hex'')
      else (case DIGEST_FIXED_LEN (py_lower alg) of
          None \<Rightarrow> Inr ()
        | Some fixed \<Rightarrow>
            if length enc \<noteq> fixed
            then Inl (Malformed (alg @ '' digest must be exactly '' @ nat_str fixed @
                                 '' hex chars, got '' @ nat_str (length enc)) enc ''digest-hex'')
            else Inr ()))"

section \<open>Endpoint and Digest\<close>

definition make_endpoint ::
  "string \<Rightarrow> int option \<Rightarrow> string option \<Rightarrow> string option \<Rightarrow> ref_exn + endpoint" where
  "make_endpoint h p u pw =
     bindE (validate_host h) (\<lambda>_.
       case p of
         Some n \<Rightarrow> if n < 0 then Inl (Malformed ''port must be non-negative'' (int_str n) ''port-number'')
                   else Inr \<lparr>host = h, port = p, username = u, password = pw\<rparr>
       | None \<Rightarrow> Inr \<lparr>host = h, port = p, username = u, password = pw\<rparr>)"

definition MASK :: string where "MASK = ''****''"

definition render_endpoint :: "bool \<Rightarrow> endpoint \<Rightarrow> string" where
  "render_endpoint mask_password e =
     (case username e of
        None \<Rightarrow> []
      | Some u \<Rightarrow> (case password e of
            Some pw \<Rightarrow> u @ '':'' @ (if mask_password then MASK else pw) @ ''@''
          | None \<Rightarrow> u @ ''@'')) @
     (case port e of None \<Rightarrow> host e | Some n \<Rightarrow> host e @ '':'' @ int_str n)"

definition parse_digest :: "string \<Rightarrow> ref_exn + digest" where
  "parse_digest s =
     (if CHR '':'' \<notin> set s then Inl (Malformed (''digest must be '' @ quoted ''algorithm:encoded'') s ''digest'')
      else let (alg, _, enc) = py_partition (CHR '':'') s
           in bindE (validate_digest alg enc) (\<lambda>_. Inr \<lparr>algorithm = alg, encoded = enc\<rparr>))"

definition render_digest :: "digest \<Rightarrow> string" where
  "render_digest d = algorithm d @ '':'' @ encoded d"

section \<open>The name production\<close>

definition looks_like_domain :: "string \<Rightarrow> bool" where
  "looks_like_domain c \<longleftrightarrow>
     c = ''localhost'' \<or> CHR ''.'' \<in> set c \<or> CHR '':'' \<in> set c \<or> py_lower c \<noteq> c"

definition render_name_production :: "endpoint option \<Rightarrow> string \<Rightarrow> string \<Rightarrow> string" where
  "render_name_production ep pth name =
     (case ep of None \<Rightarrow> [] | Some e \<Rightarrow> render_endpoint True e @ ''/'') @
     (if pth \<noteq> [] then pth @ ''/'' @ name else name)"

definition validate_name_production ::
  "endpoint option \<Rightarrow> string \<Rightarrow> string \<Rightarrow> string \<Rightarrow> ref_exn + unit" where
  "validate_name_production ep pth name original =
     (if name = [] then Inl (Malformed ''missing name'' original ''name'')
      else bindE (mapE validate_path_component
                    ((if pth = [] then [] else py_split (CHR ''/'') pth) @ [name])) (\<lambda>_.
        let production = render_name_production ep pth name
        in if length production > REPO_NAME_TOTAL_MAX
             then Inl (Malformed (''repository name exceeds '' @ nat_str REPO_NAME_TOTAL_MAX @
                         '' chars (got '' @ nat_str (length production) @ '')'')
                       original ''RepositoryNameTotalLengthMax'')
           else if ep = None \<and> pth = [] \<and> anchored (rx_match IDENTIFIER) name
             then Inl (Malformed (''bare 64-hex string is an image identifier, not a name; '' @
                         ''qualify it (e.g. with a registry) to use it as a reference'')
                       original ''identifier'')
           else Inr ()))"

text \<open>\<^verbatim>\<open>int(port_str)\<close> after the port was validated.\<close>

definition port_int :: "string \<Rightarrow> ref_exn + int" where
  "port_int s = (case py_int s of None \<Rightarrow> Inl (Panic ValueErrorC) | Some n \<Rightarrow> Inr n)"

definition split_hostport :: "string \<Rightarrow> string \<Rightarrow> ref_exn + (string \<times> int option)" where
  "split_hostport domain original =
      (if domain \<noteq> [] \<and> hd domain = CHR ''['' then
         (if CHR '']'' \<notin> set domain then Inl (Malformed ''unterminated IPv6 host'' original ''host'')
          else let (inner, _, remainder) = py_partition (CHR '']'') domain; h = inner @ '']''
               in if remainder \<noteq> [] then
                    (if hd remainder \<noteq> CHR '':''
                     then Inl (Malformed ''junk after IPv6 host'' original ''domain'')
                     else bindE (validate_port (tl remainder)) (\<lambda>_.
                          bindE (port_int (tl remainder)) (\<lambda>n. Inr (h, Some n))))
                  else Inr (h, None))
       else if CHR '':'' \<in> set domain then
         (let (h, _, port_str) = py_rpartition (CHR '':'') domain
          in bindE (validate_port port_str) (\<lambda>_.
             bindE (port_int port_str) (\<lambda>n. Inr (h, Some n))))
       else Inr (domain, None))"

definition parse_endpoint :: "string \<Rightarrow> string \<Rightarrow> ref_exn + endpoint" where
  "parse_endpoint domain original =
     bindE (split_hostport domain original)
      (\<lambda>(h, p). bindE (validate_host h) (\<lambda>_. make_endpoint h p None None))"

definition parse_name ::
  "string \<Rightarrow> string \<Rightarrow> ref_exn + (endpoint option \<times> string \<times> string)" where
  "parse_name name_part original =
     (let components = py_split (CHR ''/'') name_part; first = hd components
      in bindE
          (if length components > 1 \<and> looks_like_domain first
           then bindE (parse_endpoint first original) (\<lambda>e. Inr (Some e, tl components))
           else Inr (None, components))
          (\<lambda>(ep, repo).
            if repo = [] \<or> [] \<in> set repo
            then Inl (Malformed ''empty path component in name'' original ''remote-name'')
            else let name = last repo; pth = py_join ''/'' (butlast repo)
                 in bindE (validate_name_production ep pth name original) (\<lambda>_.
                    Inr (ep, pth, name))))"

section \<open>Parsing a reference\<close>

definition peel_digest :: "string \<Rightarrow> ref_exn + (string \<times> digest option)" where
  "peel_digest s =
     (if CHR ''@'' \<in> set s then
        (let (rest, _, digest_str) = py_rpartition (CHR ''@'') s
         in if digest_str = [] then Inl (Malformed (''empty digest after '' @ quoted ''@'') s ''digest'')
            else if rest = [] then Inl (Malformed (''missing name before '' @ quoted ''@'') s ''reference'')
            else bindE (parse_digest digest_str) (\<lambda>d. Inr (rest, Some d)))
      else Inr (s, None))"

definition peel_tag :: "string \<Rightarrow> string \<Rightarrow> ref_exn + (string \<times> string option)" where
  "peel_tag rest s =
     (let (pre, slash, leaf) = py_rpartition (CHR ''/'') rest;
          (nm, colon, version) = py_partition (CHR '':'') leaf
      in if colon then
           (if version = [] then Inl (Malformed (''empty tag after '' @ quoted '':'') s ''tag'')
            else bindE (validate_tag version) (\<lambda>_.
                 Inr ((if slash then pre @ ''/'' else []) @ nm, Some version)))
         else Inr (rest, None))"

definition oci_parse_raw :: "string \<Rightarrow> ref_exn + oci_ref" where
  "oci_parse_raw s =
     (if s = [] then Inl (Malformed ''empty reference'' s ''reference'')
      else bindE (peel_digest s) (\<lambda>(rest, dig).
           bindE (peel_tag rest s) (\<lambda>(name_part, version).
             if name_part = [] then Inl (Malformed ''missing name'' s ''name'')
             else bindE (parse_name name_part s) (\<lambda>(ep, pth, name).
               Inr \<lparr>oci_endpoint = ep, oci_path = pth, oci_name = name, oci_version = version,
                    oci_digest = dig\<rparr>))))"

text \<open>The dataclass constructor with its \<^verbatim>\<open>__post_init__\<close>.\<close>

definition oci_pathname :: "oci_ref \<Rightarrow> string" where
  "oci_pathname r = (if oci_path r \<noteq> [] then oci_path r @ ''/'' @ oci_name r else oci_name r)"

definition make_oci :: "oci_ref \<Rightarrow> ref_exn + oci_ref" where
  "make_oci r =
     bindE (validate_name_production (oci_endpoint r) (oci_path r) (oci_name r)
              (render_name_production (oci_endpoint r) (oci_path r) (oci_name r))) (\<lambda>_.
     bindE (case oci_version r of None \<Rightarrow> Inr () | Some v \<Rightarrow> validate_tag v) (\<lambda>_. Inr r))"

text \<open>
  The public \<^verbatim>\<open>parse\<close>: a malformed input becomes an Error; an exception of the final
  constructor, or any other exception, propagates.
\<close>

definition oci_parse :: "string \<Rightarrow> exc + oci_ref result" where
  "oci_parse s = (case oci_parse_raw s of
       Inl (Malformed msg val prodn) \<Rightarrow> malformed_error msg val prodn
     | Inl (Panic e) \<Rightarrow> Inl e
     | Inr r \<Rightarrow> (case make_oci r of
           Inl (Malformed msg val prodn) \<Rightarrow> Inl MalformedReferenceC
         | Inl (Panic e) \<Rightarrow> Inl e
         | Inr r' \<Rightarrow> make_Ok r' []))"

definition oci_render :: "oci_ref \<Rightarrow> string" where
  "oci_render r =
     (case oci_endpoint r of None \<Rightarrow> [] | Some e \<Rightarrow> render_endpoint True e @ ''/'') @
     oci_pathname r @
     (case oci_version r of None \<Rightarrow> [] | Some v \<Rightarrow> CHR '':'' # v) @
     (case oci_digest r of None \<Rightarrow> [] | Some d \<Rightarrow> CHR ''@'' # render_digest d)"

definition oci_normalize :: "oci_ref \<Rightarrow> ref_exn + oci_ref" where
  "oci_normalize r =
     bindE (case oci_endpoint r of
              None \<Rightarrow> make_endpoint ''docker.io'' None None None
            | Some e \<Rightarrow> if host e = ''index.docker.io''
                        then make_endpoint ''docker.io'' (port e) (username e) (password e)
                        else Inr e) (\<lambda>e.
       let pth = (if host e = ''docker.io'' \<and> oci_path r = [] then ''library'' else oci_path r);
           version = (case oci_version r of None \<Rightarrow> ''latest'' | Some v \<Rightarrow> v)
       in make_oci \<lparr>oci_endpoint = Some e, oci_path = pth, oci_name = oci_name r,
                    oci_version = Some version, oci_digest = oci_digest r\<rparr>)"

text \<open>\<^verbatim>\<open>_split_scheme\<close>: the scheme in lower case and the rest, or no scheme.\<close>

fun strip_scheme_sep :: "string \<Rightarrow> string option" where
  "strip_scheme_sep (a # b # c # rest) =
     (if a = CHR '':'' \<and> b = CHR ''/'' \<and> c = CHR ''/'' then Some rest else None)"
| "strip_scheme_sep _ = None"

definition is_scheme_char :: "char \<Rightarrow> bool" where
  "is_scheme_char c \<longleftrightarrow> is_alnum c \<or> c = CHR ''+'' \<or> c = CHR ''.'' \<or> c = CHR ''-''"

definition split_scheme :: "string \<Rightarrow> string option \<times> string" where
  "split_scheme s =
     (let sch = takeWhile is_scheme_char s
      in if sch \<noteq> [] \<and> is_alpha (hd sch)
         then (case strip_scheme_sep (dropWhile is_scheme_char s) of
                 Some rest \<Rightarrow> (Some (py_lower sch), rest)
               | None \<Rightarrow> (None, s))
         else (None, s))"

section \<open>Which characters the validated parts hold\<close>

lemma host_chars:
  "validate_host h = Inr () \<Longrightarrow> CHR ''/'' \<notin> set h \<and> CHR ''@'' \<notin> set h \<and> h \<noteq> []"
  using anchored_chars [of HOST_RX h "CHR ''/''"] anchored_chars [of HOST_RX h "CHR ''@''"]
  by (auto simp: validate_host_def rx_defs is_alnum_def is_alpha_def is_lower_def is_upper_def
      is_digit_def is_hex_def is_lower_hex_def cp_def rx_chars_Times rx_chars_UpTo split: if_splits)

lemma component_chars:
  assumes "validate_path_component c = Inr ()"
  shows "CHR ''/'' \<notin> set c \<and> CHR ''@'' \<notin> set c \<and> CHR '':'' \<notin> set c \<and> c \<noteq> []"
  using assms anchored_chars [of PATH_COMPONENT c "CHR ''/''"] anchored_chars [of PATH_COMPONENT c "CHR ''@''"]
    anchored_chars [of PATH_COMPONENT c "CHR '':''"]
  by (auto simp: validate_path_component_def rx_defs is_lower_def is_digit_def cp_def split: if_splits)

lemma tag_nonempty: "rx_match TAG s \<Longrightarrow> s \<noteq> []"
  by (auto simp: TAG_def rx_match_lang elim: rx_lang.cases)

lemma tag_chars:
  assumes "validate_tag t = Inr ()"
  shows "CHR ''/'' \<notin> set t \<and> CHR ''@'' \<notin> set t \<and> t \<noteq> []"
proof -
  have a: "anchored (rx_match TAG) t" using assms by (simp add: validate_tag_def split: if_splits)
  from a have "t \<noteq> []" by (elim anchored_cases) (auto dest: tag_nonempty)
  with anchored_chars [OF a, of "CHR ''/''"] anchored_chars [OF a, of "CHR ''@''"] show ?thesis
    by (auto simp: rx_defs is_word_def is_alnum_def is_alpha_def is_lower_def is_upper_def
        is_digit_def cp_def rx_chars_UpTo)
qed

lemma digest_chars:
  assumes "validate_digest alg enc = Inr ()"
  shows "CHR ''@'' \<notin> set alg \<and> CHR ''@'' \<notin> set enc"
  using assms anchored_chars [of DIGEST_ALGO alg "CHR ''@''"] anchored_chars [of DIGEST_HEX enc "CHR ''@''"]
  by (auto simp: validate_digest_def rx_defs is_alnum_def is_alpha_def is_lower_def is_upper_def
      is_hex_def is_lower_hex_def is_digit_def cp_def rx_chars_Times split: if_splits)


lemma digits_val_bound: "(\<And>c. c \<in> set s \<Longrightarrow> is_digit c) \<Longrightarrow> digits_val s < 10 ^ length s"
proof (induction s rule: rev_induct)
  case Nil
  then show ?case by (simp add: digits_val_def)
next
  case (snoc c s)
  then have "digits_val s < 10 ^ length s" "is_digit c" by auto
  then have "cp c - 48 < 10" by (auto simp: is_digit_def)
  with snoc show ?case by (simp del: cp_inj)
qed

section \<open>Ports\<close>

lemma port_validated:
  assumes "validate_port p = Inr ()"
  obtains q where "q \<noteq> []" "\<And>c. c \<in> set q \<Longrightarrow> is_digit c" "p = q \<or> p = q @ [LF]"
proof -
  have "anchored (rx_match PORT_RX) p" using assms by (simp add: validate_port_def split: if_splits)
  then show ?thesis
    by (elim anchored_cases) (auto simp: PORT_RX_def Plus_nonempty intro: that)
qed

lemma digits_port:
  assumes "q \<noteq> []" "\<And>c. c \<in> set q \<Longrightarrow> is_digit c"
  shows "validate_port q = Inr ()"
  using assms by (auto simp: validate_port_def PORT_RX_def Plus_nonempty intro!: anchoredI)

lemma port_int_validated:
  assumes "validate_port p = Inr ()" "port_int p = Inr n"
  shows "0 \<le> n \<and> validate_port (int_str n) = Inr () \<and> port_int (int_str n) = Inr n \<and>
         (\<forall>c \<in> set (int_str n). is_digit c)"
proof -
  obtain q where q: "q \<noteq> []" "\<And>c. c \<in> set q \<Longrightarrow> is_digit c" "p = q \<or> p = q @ [LF]"
    using port_validated [OF assms(1)] by blast
  have "stripped q" using q(2) by (auto intro!: stripped_no_space dest: is_digit_not_space)
  with q(3) assms(2) have pq: "py_int q = Some n"
    by (auto simp: port_int_def py_int_strip_LF split: option.splits)
  have len: "length q \<le> INT_MAX_DIGITS"
    using py_int_too_long [of q] q(2) pq by (metis not_le_imp_less option.distinct(1))
  then have n: "n = int (digits_val q)" using py_int_digits [OF q(1,2)] pq by simp
  then have s: "int_str n = nat_str (digits_val q)" by (simp add: int_str_def)
  have "digits_val q < 10 ^ length q" by (rule digits_val_bound [OF q(2)])
  then have "length (nat_str (digits_val q)) \<le> length q"
    using nat_str_length_le q(1) by simp
  then have "py_int (int_str n) = Some n" using s len n by simp
  moreover have "validate_port (int_str n) = Inr ()"
    unfolding s by (rule digits_port) (simp_all add: nat_str_digits)
  ultimately show ?thesis using n s nat_str_digits by (auto simp: port_int_def)
qed

lemma port_int_panic:
  assumes "validate_port p = Inr ()" "port_int p = Inl e"
  shows "e = Panic ValueErrorC \<and> length p > INT_MAX_DIGITS"
proof -
  obtain q where q: "q \<noteq> []" "\<And>c. c \<in> set q \<Longrightarrow> is_digit c" "p = q \<or> p = q @ [LF]"
    using port_validated [OF assms(1)] by blast
  have "stripped q" using q(2) by (auto intro!: stripped_no_space dest: is_digit_not_space)
  with q(3) assms(2) have "py_int q = None"
    by (auto simp: port_int_def py_int_strip_LF split: option.splits)
  then have "length q > INT_MAX_DIGITS"
    using py_int_digits [OF q(1,2)] by (cases "length q \<le> INT_MAX_DIGITS") auto
  with q(3) assms(2) show ?thesis by (auto simp: port_int_def split: option.splits)
qed

section \<open>Endpoints\<close>

lemma digit_not_colon: "is_digit c \<Longrightarrow> c \<noteq> CHR '':'' \<and> c \<noteq> CHR ''/'' \<and> c \<noteq> CHR ''@''"
  by (auto simp: is_digit_def cp_def)

text \<open>What the endpoint parser returns, in each form of the domain.\<close>

lemma split_hostport_shape:
  assumes "split_hostport d orig = Inr (h, p)" "h \<noteq> []"
  shows "(hd h = CHR ''['' \<longrightarrow> (\<exists>i. h = i @ [CHR '']''] \<and> CHR '']'' \<notin> set i)) \<and>
    (case p of
       None \<Rightarrow> d = h \<and> (hd h = CHR ''['' \<or> CHR '':'' \<notin> set h)
     | Some n \<Rightarrow> (\<exists>q. d = h @ CHR '':'' # q \<and> validate_port q = Inr () \<and> port_int q = Inr n))"
proof -
  consider "d \<noteq> [] \<and> hd d = CHR ''[''" | "\<not> (d \<noteq> [] \<and> hd d = CHR ''['')" "CHR '':'' \<in> set d"
    | "\<not> (d \<noteq> [] \<and> hd d = CHR ''['')" "CHR '':'' \<notin> set d" by blast
  then show ?thesis
  proof cases
    case 1
    with assms(1) have "CHR '']'' \<in> set d" by (auto simp: split_hostport_def split: if_splits)
    then obtain a b where ab: "d = a @ CHR '']'' # b" "CHR '']'' \<notin> set a"
        "py_partition (CHR '']'') d = (a, True, b)"
      by (rule py_partition_split)
    then have "h = a @ [CHR '']''] \<and> (b = [] \<and> p = None \<or>
        (\<exists>q n. b = CHR '':'' # q \<and> p = Some n \<and> validate_port q = Inr () \<and> port_int q = Inr n))"
      using 1 assms(1) by (cases b) (auto simp: split_hostport_def split: if_splits)
    with ab 1 show ?thesis by (auto simp: hd_append split: if_splits)
  next
    case 2
    from 2(2) obtain a b where ab: "d = a @ CHR '':'' # b" "CHR '':'' \<notin> set b"
        "py_rpartition (CHR '':'') d = (a, True, b)"
      by (rule py_rpartition_split)
    then have "h = a \<and> (\<exists>n. p = Some n \<and> validate_port b = Inr () \<and> port_int b = Inr n)"
      using 2 assms(1) by (auto simp: split_hostport_def split: if_splits)
    with ab 2 assms(2) show ?thesis by (auto simp: hd_append split: if_splits)
  next
    case 3
    with assms show ?thesis by (auto simp: split_hostport_def)
  qed
qed

lemma split_hostport_none:
  assumes "h \<noteq> []" "hd h = CHR ''['' \<longrightarrow> (\<exists>i. h = i @ [CHR '']''] \<and> CHR '']'' \<notin> set i)"
    "hd h = CHR ''['' \<or> CHR '':'' \<notin> set h"
  shows "split_hostport h orig = Inr (h, None)"
  using assms py_partition_at [of "CHR '']''" _ "[]"] by (auto simp: split_hostport_def)

lemma split_hostport_some:
  assumes "h \<noteq> []" "hd h = CHR ''['' \<longrightarrow> (\<exists>i. h = i @ [CHR '']''] \<and> CHR '']'' \<notin> set i)"
    "validate_port q = Inr ()" "port_int q = Inr n" "CHR '':'' \<notin> set q"
  shows "split_hostport (h @ CHR '':'' # q) orig = Inr (h, Some n)"
  using assms by (auto simp: split_hostport_def)

lemma make_endpoint_parsed:
  "make_endpoint h p u pw = Inr e \<longleftrightarrow> validate_host h = Inr () \<and> (\<forall>n. p = Some n \<longrightarrow> 0 \<le> n) \<and>
     e = \<lparr>host = h, port = p, username = u, password = pw\<rparr>"
  by (auto simp: make_endpoint_def split: option.splits)

lemma endpoint_reparse:
  assumes "parse_endpoint d orig = Inr e" "looks_like_domain d"
  shows "parse_endpoint (render_endpoint True e) orig' = Inr e \<and>
    looks_like_domain (render_endpoint True e) \<and>
    CHR ''/'' \<notin> set (render_endpoint True e) \<and> CHR ''@'' \<notin> set (render_endpoint True e)"
proof -
  from assms(1) obtain h p where sp: "split_hostport d orig = Inr (h, p)"
    and h: "validate_host h = Inr ()" and e: "e = \<lparr>host = h, port = p, username = None, password = None\<rparr>"
    and p: "\<forall>n. p = Some n \<longrightarrow> 0 \<le> n"
    by (auto simp: parse_endpoint_def make_endpoint_parsed)
  note hc = host_chars [OF h]
  with sp have shape: "(hd h = CHR ''['' \<longrightarrow> (\<exists>i. h = i @ [CHR '']''] \<and> CHR '']'' \<notin> set i))"
    "case p of None \<Rightarrow> d = h \<and> (hd h = CHR ''['' \<or> CHR '':'' \<notin> set h)
     | Some n \<Rightarrow> (\<exists>q. d = h @ CHR '':'' # q \<and> validate_port q = Inr () \<and> port_int q = Inr n)"
    using split_hostport_shape by blast+
  show ?thesis
  proof (cases p)
    case None
    then have "split_hostport h orig' = Inr (h, None)"
      using split_hostport_none hc shape by simp
    with None shape e h p hc assms(2) show ?thesis
      by (simp add: render_endpoint_def parse_endpoint_def make_endpoint_parsed)
  next
    case (Some n)
    then obtain q where "validate_port q = Inr ()" "port_int q = Inr n" using shape by auto
    then have n: "validate_port (int_str n) = Inr ()" "port_int (int_str n) = Inr n"
        "\<forall>c \<in> set (int_str n). is_digit c"
      using port_int_validated by blast+
    then have d: "CHR '':'' \<notin> set (int_str n)" "CHR ''/'' \<notin> set (int_str n)" "CHR ''@'' \<notin> set (int_str n)"
      using digit_not_colon by blast+
    with n hc shape have "split_hostport (h @ CHR '':'' # int_str n) orig' = Inr (h, Some n)"
      using split_hostport_some by simp
    with Some e h p hc d show ?thesis
      by (simp add: render_endpoint_def parse_endpoint_def make_endpoint_parsed looks_like_domain_def)
  qed
qed


section \<open>The name production\<close>

definition repo_components :: "string \<Rightarrow> string \<Rightarrow> string list" where
  "repo_components pth name = (if pth = [] then [] else py_split (CHR ''/'') pth) @ [name]"

lemma mapE_unit: "(\<exists>us. mapE f xs = Inr us) \<longleftrightarrow> (\<forall>x \<in> set xs. \<exists>u. f x = Inr u)"
  by (induction xs) auto

lemma name_production_ok:
  "validate_name_production ep pth name orig = Inr () \<longleftrightarrow>
     name \<noteq> [] \<and> (\<forall>c \<in> set (repo_components pth name). validate_path_component c = Inr ()) \<and>
     length (render_name_production ep pth name) \<le> REPO_NAME_TOTAL_MAX \<and>
     \<not> (ep = None \<and> pth = [] \<and> anchored (rx_match IDENTIFIER) name)"
  using mapE_unit [of validate_path_component "repo_components pth name"]
  by (auto simp: validate_name_production_def repo_components_def Let_def not_le)

lemma repo_join:
  "xs \<noteq> [] \<Longrightarrow> [] \<notin> set xs \<Longrightarrow> (\<And>x. x \<in> set xs \<Longrightarrow> CHR ''/'' \<notin> set x) \<Longrightarrow>
     repo_components (py_join ''/'' (butlast xs)) (last xs) = xs"
proof -
  assume xs: "xs \<noteq> []" "[] \<notin> set xs" "\<And>x. x \<in> set xs \<Longrightarrow> CHR ''/'' \<notin> set x"
  show ?thesis
  proof (cases "butlast xs")
    case Nil
    with xs show ?thesis by (simp add: repo_components_def) (metis append_Nil append_butlast_last_id)
  next
    case (Cons y ys)
    then have sp: "py_split (CHR ''/'') (py_join ''/'' (butlast xs)) = butlast xs"
      using xs(3) in_set_butlastD [of _ xs] Cons by (intro py_split_join) auto
    have "y \<in> set xs" using Cons in_set_butlastD [of y xs] by simp
    then have "y \<noteq> []" using xs(2) by auto
    then have "py_join ''/'' (butlast xs) \<noteq> []" using Cons by (cases ys) auto
    with sp xs(1) show ?thesis by (simp add: repo_components_def)
  qed
qed

lemma repo_path:
  assumes "[] \<notin> set (repo_components pth name)"
  shows "py_join ''/'' (butlast (repo_components pth name)) = pth"
    "last (repo_components pth name) = name"
  by (auto simp: repo_components_def butlast_append)

definition pathname_of :: "string \<Rightarrow> string \<Rightarrow> string" where
  "pathname_of pth name = (if pth \<noteq> [] then pth @ ''/'' @ name else name)"

lemma split_pathname:
  "CHR ''/'' \<notin> set name \<Longrightarrow> py_split (CHR ''/'') (pathname_of pth name) = repo_components pth name"
proof -
  assume n: "CHR ''/'' \<notin> set name"
  have "py_split (CHR ''/'') (p @ CHR ''/'' # name) = py_split (CHR ''/'') p @ [name]" for p
    using n by (induction p) (auto simp: py_split_no_sep split: list.splits)
  with n show ?thesis by (simp add: pathname_of_def repo_components_def py_split_no_sep)
qed

definition endpoint_ok :: "endpoint option \<Rightarrow> string \<Rightarrow> bool" where
  "endpoint_ok ep pth = (case ep of
     None \<Rightarrow> pth = [] \<or> \<not> looks_like_domain (hd (py_split (CHR ''/'') pth))
   | Some e \<Rightarrow> looks_like_domain (render_endpoint True e) \<and>
       (\<exists>d orig. looks_like_domain d \<and> parse_endpoint d orig = Inr e))"

definition name_part :: "endpoint option \<Rightarrow> string \<Rightarrow> string \<Rightarrow> string" where
  "name_part ep pth name =
     (case ep of None \<Rightarrow> [] | Some e \<Rightarrow> render_endpoint True e @ ''/'') @ pathname_of pth name"

lemma parse_name_sound:
  assumes "parse_name n orig = Inr (ep, pth, name)"
  shows "endpoint_ok ep pth \<and> (\<forall>o'. validate_name_production ep pth name o' = Inr ())"
proof -
  define cs where "cs = py_split (CHR ''/'') n"
  from assms obtain repo where
    repo: "(if length cs > 1 \<and> looks_like_domain (hd cs)
            then bindE (parse_endpoint (hd cs) orig) (\<lambda>e. Inr (Some e, tl cs))
            else Inr (None, cs)) = Inr (ep, repo)"
    and ne: "repo \<noteq> []" "[] \<notin> set repo" and pn: "pth = py_join ''/'' (butlast repo)" "name = last repo"
    and v: "validate_name_production ep pth name orig = Inr ()"
    by (auto simp: parse_name_def cs_def Let_def split: if_splits)
  have sub: "x \<in> set repo \<Longrightarrow> CHR ''/'' \<notin> set x" for x
    using repo py_split_parts [of x "CHR ''/''" n] list.set_sel(2) [of cs x] py_split_nonempty
    by (auto simp: cs_def split: if_splits)
  have "endpoint_ok ep pth"
  proof (cases ep)
    case None
    then have cr: "repo = cs" "length cs \<le> 1 \<or> \<not> looks_like_domain (hd cs)"
      using repo by (auto split: if_splits)
    show ?thesis
    proof (cases "pth = []")
      case False
      then have "repo_components pth name = py_split (CHR ''/'') pth @ [name]"
        by (simp add: repo_components_def)
      moreover have "repo_components pth name = cs"
        using repo_join [OF ne sub] pn cr by simp
      ultimately have "hd cs = hd (py_split (CHR ''/'') pth)" "length cs > 1"
        using py_split_nonempty [of "CHR ''/''" pth] by (auto simp: hd_append length_greater_0_conv [symmetric] simp del: length_greater_0_conv)
      with cr None show ?thesis by (simp add: endpoint_ok_def)
    qed (use None in \<open>simp add: endpoint_ok_def\<close>)
  next
    case (Some e)
    then have "looks_like_domain (hd cs)" "parse_endpoint (hd cs) orig = Inr e"
      using repo by (auto split: if_splits)
    then show ?thesis using Some endpoint_reparse by (auto simp: endpoint_ok_def)
  qed
  with v show ?thesis by (simp add: name_production_ok)
qed

lemma parse_name_complete:
  assumes "endpoint_ok ep pth" "validate_name_production ep pth name orig' = Inr ()"
  shows "parse_name (name_part ep pth name) orig = Inr (ep, pth, name)"
proof -
  from assms(2) have comps: "c \<in> set (repo_components pth name) \<Longrightarrow> CHR ''/'' \<notin> set c \<and> c \<noteq> []" for c
    using component_chars by (simp add: name_production_ok)
  from comps [of name] have n: "CHR ''/'' \<notin> set name" by (simp add: repo_components_def)
  from comps have ne: "[] \<notin> set (repo_components pth name)" by blast
  note sp = split_pathname [OF n] and rp = repo_path [OF ne]
  have v: "validate_name_production ep pth name orig = Inr ()"
    using assms(2) by (simp add: name_production_ok)
  have rne: "repo_components pth name \<noteq> []" by (simp add: repo_components_def)
  show ?thesis
  proof (cases ep)
    case None
    have "\<not> (length (repo_components pth name) > 1 \<and> looks_like_domain (hd (repo_components pth name)))"
      using assms(1) None by (auto simp: endpoint_ok_def repo_components_def hd_append)
    then show ?thesis
      using None v rp ne rne unfolding parse_name_def name_part_def by (auto simp: sp Let_def)
  next
    case (Some e)
    then obtain d o1 where d: "looks_like_domain d" "parse_endpoint d o1 = Inr e"
      using assms(1) by (auto simp: endpoint_ok_def)
    have er: "parse_endpoint (render_endpoint True e) orig = Inr e"
      "looks_like_domain (render_endpoint True e)" "CHR ''/'' \<notin> set (render_endpoint True e)"
      using endpoint_reparse [OF d(2,1)] by auto
    then have "py_split (CHR ''/'') (name_part ep pth name) =
        render_endpoint True e # repo_components pth name"
      using Some sp py_split_append by (simp add: name_part_def)
    with er Some v rp ne rne show ?thesis unfolding parse_name_def by (simp add: Let_def)
  qed
qed


section \<open>Peeling the tag and the digest\<close>

lemma name_part_cases:
  obtains "name_part ep pth name = name" | x where "name_part ep pth name = x @ CHR ''/'' # name"
proof -
  have "name_part ep pth name = name \<or> (\<exists>x. name_part ep pth name = x @ CHR ''/'' # name)"
    by (cases ep; cases "pth = []") (auto simp: name_part_def pathname_of_def intro: exI [of _ "_ @ CHR ''/'' # _"])
  then show ?thesis using that by blast
qed

lemma peel_tag_none:
  assumes "CHR ''/'' \<notin> set nm" "CHR '':'' \<notin> set nm" "n = nm \<or> (\<exists>x. n = x @ CHR ''/'' # nm)"
  shows "peel_tag n s = Inr (n, None)"
proof -
  have "\<exists>pre sl. py_rpartition (CHR ''/'') n = (pre, sl, nm)"
    using assms(1,3) by (auto simp: py_rpartition_none)
  with assms(2) show ?thesis by (auto simp: peel_tag_def py_partition_none)
qed

lemma peel_tag_some:
  assumes "CHR ''/'' \<notin> set nm" "CHR '':'' \<notin> set nm" "n = nm \<or> (\<exists>x. n = x @ CHR ''/'' # nm)"
    "validate_tag t = Inr ()"
  shows "peel_tag (n @ CHR '':'' # t) s = Inr (n, Some t)"
proof -
  have t: "CHR ''/'' \<notin> set t" "t \<noteq> []" using tag_chars [OF assms(4)] by auto
  have leaf: "CHR ''/'' \<notin> set (nm @ CHR '':'' # t)" using t assms(1) by simp
  from assms(3) show ?thesis
  proof
    assume "n = nm"
    with t leaf assms show ?thesis by (simp add: peel_tag_def py_rpartition_none)
  next
    assume "\<exists>x. n = x @ CHR ''/'' # nm"
    then obtain x where "n = x @ CHR ''/'' # nm" by blast
    with t leaf assms show ?thesis
      using py_rpartition_at [OF leaf, of x] by (simp add: peel_tag_def)
  qed
qed

lemma peel_tag_sound:
  "peel_tag rest s = Inr (n, v) \<Longrightarrow> (case v of None \<Rightarrow> n = rest | Some t \<Rightarrow> validate_tag t = Inr ())"
  by (auto simp: peel_tag_def split: prod.splits if_splits)

lemma digest_reparse:
  assumes "parse_digest s = Inr d"
  shows "render_digest d = s \<and> CHR ''@'' \<notin> set s \<and> s \<noteq> []"
proof -
  have "CHR '':'' \<in> set s" using assms by (auto simp: parse_digest_def split: if_splits)
  then obtain a b where ab: "s = a @ CHR '':'' # b" "CHR '':'' \<notin> set a"
      "py_partition (CHR '':'') s = (a, True, b)"
    by (rule py_partition_split)
  with assms have "validate_digest a b = Inr ()" "d = \<lparr>algorithm = a, encoded = b\<rparr>"
    by (auto simp: parse_digest_def)
  with ab digest_chars show ?thesis by (auto simp: render_digest_def)
qed

lemma peel_digest_some:
  "parse_digest t = Inr d \<Longrightarrow> rest \<noteq> [] \<Longrightarrow> peel_digest (rest @ CHR ''@'' # t) = Inr (rest, Some d)"
  using digest_reparse [of t d] by (auto simp: peel_digest_def)

section \<open>The references the parser returns\<close>

definition canonical :: "oci_ref \<Rightarrow> bool" where
  "canonical r \<longleftrightarrow>
     endpoint_ok (oci_endpoint r) (oci_path r) \<and>
     (\<forall>orig. validate_name_production (oci_endpoint r) (oci_path r) (oci_name r) orig = Inr ()) \<and>
     (case oci_version r of None \<Rightarrow> True | Some v \<Rightarrow> validate_tag v = Inr ()) \<and>
     (case oci_digest r of None \<Rightarrow> True | Some d \<Rightarrow> parse_digest (render_digest d) = Inr d)"

lemma parse_canonical: "oci_parse_raw s = Inr r \<Longrightarrow> canonical r"
proof -
  assume "oci_parse_raw s = Inr r"
  then obtain rest dig np v ep pth name where p: "peel_digest s = Inr (rest, dig)"
      "peel_tag rest s = Inr (np, v)" "parse_name np s = Inr (ep, pth, name)"
      "r = \<lparr>oci_endpoint = ep, oci_path = pth, oci_name = name, oci_version = v, oci_digest = dig\<rparr>"
    by (auto simp: oci_parse_raw_def split: if_splits)
  have "case dig of None \<Rightarrow> True | Some d \<Rightarrow> parse_digest (render_digest d) = Inr d"
    using p(1) digest_reparse by (auto simp: peel_digest_def split: if_splits prod.splits)
  moreover have "case v of None \<Rightarrow> True | Some v \<Rightarrow> validate_tag v = Inr ()"
    using peel_tag_sound [OF p(2)] by (auto split: option.splits)
  ultimately show ?thesis using parse_name_sound [OF p(3)] p(4) by (simp add: canonical_def)
qed

lemma canonical_make: "canonical r \<Longrightarrow> make_oci r = Inr r"
  by (auto simp: canonical_def make_oci_def split: option.splits)

lemma name_part_chars:
  assumes "endpoint_ok ep pth" "validate_name_production ep pth name orig = Inr ()"
  shows "CHR ''@'' \<notin> set (name_part ep pth name) \<and> name_part ep pth name \<noteq> [] \<and>
         CHR ''/'' \<notin> set name \<and> CHR '':'' \<notin> set name"
proof -
  from assms(2) have comps: "c \<in> set (repo_components pth name) \<Longrightarrow> CHR ''@'' \<notin> set c" for c
    using component_chars by (simp add: name_production_ok)
  from assms(2) have name: "validate_path_component name = Inr ()"
    by (simp add: name_production_ok repo_components_def)
  note n = component_chars [OF this]
  have "CHR ''@'' \<notin> set (pathname_of pth name)"
    using set_py_join [of "''/''" "repo_components pth name"] comps
      split_pathname [of name pth] n py_join_split [of "CHR ''/''" "pathname_of pth name"] by fastforce
  moreover have "CHR ''@'' \<notin> set (render_endpoint True e)" if "ep = Some e" for e
    using assms(1) that endpoint_reparse by (auto simp: endpoint_ok_def)
  ultimately show ?thesis using n by (auto simp: name_part_def pathname_of_def split: option.splits)
qed

lemma render_canonical:
  "oci_render r = name_part (oci_endpoint r) (oci_path r) (oci_name r) @
      (case oci_version r of None \<Rightarrow> [] | Some v \<Rightarrow> CHR '':'' # v) @
      (case oci_digest r of None \<Rightarrow> [] | Some d \<Rightarrow> CHR ''@'' # render_digest d)"
  by (simp add: oci_render_def name_part_def pathname_of_def oci_pathname_def split: option.splits)

lemma canonical_reparse:
  assumes "canonical r"
  shows "oci_parse_raw (oci_render r) = Inr r"
proof -
  define np where "np = name_part (oci_endpoint r) (oci_path r) (oci_name r)"
  define rest where "rest = np @ (case oci_version r of None \<Rightarrow> [] | Some v \<Rightarrow> CHR '':'' # v)"
  have ep: "endpoint_ok (oci_endpoint r) (oci_path r)"
    and v: "validate_name_production (oci_endpoint r) (oci_path r) (oci_name r) [] = Inr ()"
    and tag: "\<And>t. oci_version r = Some t \<Longrightarrow> validate_tag t = Inr ()"
    and dig: "\<And>d. oci_digest r = Some d \<Longrightarrow> parse_digest (render_digest d) = Inr d"
    using assms by (auto simp: canonical_def)
  note ch = name_part_chars [OF ep v, folded np_def]
  have rest: "rest \<noteq> []" "CHR ''@'' \<notin> set rest"
    using ch tag tag_chars by (auto simp: rest_def split: option.splits)
  have rn: "oci_render r = rest @ (case oci_digest r of None \<Rightarrow> [] | Some d \<Rightarrow> CHR ''@'' # render_digest d)"
    by (simp add: render_canonical rest_def np_def)
  have "peel_digest (oci_render r) = Inr (rest, oci_digest r)"
  proof (cases "oci_digest r")
    case None
    with rn rest show ?thesis by (simp add: peel_digest_def)
  next
    case (Some d)
    with rn rest dig peel_digest_some show ?thesis by simp
  qed
  moreover have "peel_tag rest s = Inr (np, oci_version r)" for s
  proof -
    have shape: "np = oci_name r \<or> (\<exists>x. np = x @ CHR ''/'' # oci_name r)"
      unfolding np_def by (rule name_part_cases) auto
    show ?thesis
      using peel_tag_none [OF _ _ shape] peel_tag_some [OF _ _ shape] ch tag
      by (cases "oci_version r") (auto simp: rest_def)
  qed
  moreover have "parse_name np s = Inr (oci_endpoint r, oci_path r, oci_name r)" for s
    unfolding np_def using ep v by (rule parse_name_complete)
  moreover have "oci_render r \<noteq> []" using rn rest by simp
  ultimately show ?thesis using ch by (simp add: oci_parse_raw_def)
qed

interpretation oci: codec "\<lambda>r. Inr (oci_render r)" oci_parse_raw canonical
  by unfold_locales (auto simp: canonical_reparse parse_canonical)

lemma parse_Ok_iff: "oci_parse s = Inr (Ok r []) \<longleftrightarrow> oci_parse_raw s = Inr r"
  using parse_canonical [of s] canonical_make
  by (auto simp: oci_parse_def make_Ok_def malformed_error_def make_Error_def
      split: sum.splits ref_exn.splits if_splits)


section \<open>Exceptions other than a malformed reference\<close>

lemma validators_no_panic [simp]:
  "validate_host h \<noteq> Inl (Panic e)" "validate_port p \<noteq> Inl (Panic e)" "validate_tag t \<noteq> Inl (Panic e)"
  "validate_path_component c \<noteq> Inl (Panic e)" "validate_digest a b \<noteq> Inl (Panic e)"
  by (auto simp: validate_host_def validate_port_def validate_tag_def validate_path_component_def
      validate_digest_def split: option.splits)

lemma name_production_no_panic [simp]: "validate_name_production ep pth name orig \<noteq> Inl (Panic e)"
  by (auto simp: validate_name_production_def bindE_Inl Let_def dest: mapE_Inl)

lemma make_endpoint_no_panic [simp]: "make_endpoint h p u pw \<noteq> Inl (Panic e)"
  by (auto simp: make_endpoint_def bindE_Inl split: option.splits)

lemma split_hostport_panic:
  assumes "split_hostport d orig = Inl (Panic e)"
  shows "e = ValueErrorC \<and> length d > INT_MAX_DIGITS"
proof -
  consider "d \<noteq> [] \<and> hd d = CHR ''[''" "CHR '']'' \<in> set d"
    | "\<not> (d \<noteq> [] \<and> hd d = CHR ''['')" "CHR '':'' \<in> set d"
    using assms by (auto simp: split_hostport_def split: if_splits)
  then show ?thesis
  proof cases
    case 1
    from 1(2) obtain a b where ab: "d = a @ CHR '']'' # b" "CHR '']'' \<notin> set a"
        "py_partition (CHR '']'') d = (a, True, b)"
      by (rule py_partition_split)
    with 1 assms have "validate_port (tl b) = Inr () \<and> port_int (tl b) = Inl (Panic e)"
      by (auto simp: split_hostport_def bindE_Inl Let_def split: if_splits)
    with ab port_int_panic [of "tl b"] show ?thesis by fastforce
  next
    case 2
    from 2(2) obtain a b where ab: "d = a @ CHR '':'' # b" "CHR '':'' \<notin> set b"
        "py_rpartition (CHR '':'') d = (a, True, b)"
      by (rule py_rpartition_split)
    with 2 assms have "validate_port b = Inr () \<and> port_int b = Inl (Panic e)"
      by (auto simp: split_hostport_def bindE_Inl split: if_splits)
    with ab port_int_panic [of b] show ?thesis by fastforce
  qed
qed

lemma length_py_split: "x \<in> set (py_split d s) \<Longrightarrow> length x \<le> length s"
proof (induction s arbitrary: x)
  case Nil
  then show ?case by simp
next
  case (Cons c s)
  then show ?case by (fastforce split: if_splits list.splits)
qed

lemma parse_name_panic:
  assumes "parse_name n orig = Inl (Panic e)"
  shows "e = ValueErrorC \<and> length n > INT_MAX_DIGITS"
proof -
  let ?d = "hd (py_split (CHR ''/'') n)"
  have "parse_endpoint ?d orig = Inl (Panic e)"
    using assms by (auto simp: parse_name_def bindE_Inl Let_def split: if_splits prod.splits)
  then have "split_hostport ?d orig = Inl (Panic e)"
    by (auto simp: parse_endpoint_def bindE_Inl)
  moreover have "length ?d \<le> length n" by (rule length_py_split [of _ "CHR ''/''"]) simp
  ultimately show ?thesis using split_hostport_panic by force
qed

lemma peel_lengths:
  "peel_digest s = Inr (rest, d) \<Longrightarrow> length rest \<le> length s"
  "peel_tag rest s = Inr (n, v) \<Longrightarrow> length n \<le> length rest"
proof -
  assume p: "peel_digest s = Inr (rest, d)"
  show "length rest \<le> length s"
  proof (cases "CHR ''@'' \<in> set s")
    case True
    then obtain a b where "s = a @ CHR ''@'' # b" "py_rpartition (CHR ''@'') s = (a, True, b)"
      by (rule py_rpartition_split)
    with True p show ?thesis by (auto simp: peel_digest_def split: if_splits)
  qed (use p in \<open>simp add: peel_digest_def\<close>)
next
  assume p: "peel_tag rest s = Inr (n, v)"
  have part: "length nm \<le> length l" if "py_partition (CHR '':'') l = (nm, c, t)" for l nm c t
    using that length_takeWhile_le by (auto simp: py_partition_def)
  show "length n \<le> length rest"
  proof (cases "CHR ''/'' \<in> set rest")
    case True
    then obtain a b where "rest = a @ CHR ''/'' # b" "py_rpartition (CHR ''/'') rest = (a, True, b)"
      by (rule py_rpartition_split)
    with True p part [of b] show ?thesis by (auto simp: peel_tag_def split: prod.splits if_splits)
  next
    case False
    with p part [of rest] show ?thesis
      by (auto simp: peel_tag_def py_rpartition_none split: prod.splits if_splits)
  qed
qed

lemma parse_panic:
  assumes "oci_parse_raw s = Inl (Panic e)"
  shows "e = ValueErrorC \<and> length s > INT_MAX_DIGITS"
proof -
  have dg: "peel_digest s \<noteq> Inl (Panic e)"
    by (auto simp: peel_digest_def parse_digest_def bindE_Inl split: prod.splits)
  have tg: "peel_tag rest s \<noteq> Inl (Panic e)" for rest
    by (auto simp: peel_tag_def bindE_Inl Let_def split: prod.splits)
  obtain rest d n v where p: "peel_digest s = Inr (rest, d)" "peel_tag rest s = Inr (n, v)"
      "parse_name n s = Inl (Panic e)"
    using assms dg tg by (auto simp: oci_parse_raw_def bindE_Inl split: if_splits)
  from parse_name_panic [OF p(3)] peel_lengths(1) [OF p(1)] peel_lengths(2) [OF p(2)]
  show ?thesis by simp
qed

lemma parse_Malformed:
  "oci_parse_raw s = Inl (Malformed msg val prodn) \<Longrightarrow> \<exists>c. oci_parse s = Inr (Error [c]) \<and>
     kind c = MALFORMED_REFERENCE \<and> severity c = ERROR \<and> message c = malformed_str msg val prodn"
  by (simp add: oci_parse_def malformed_error_def make_Error_def top_severity_def)

section \<open>Normalisation\<close>

lemma docker_host: "validate_host ''docker.io'' = Inr ()" by code_simp

lemma library_component: "validate_path_component ''library'' = Inr ()" by code_simp

lemma latest_tag: "validate_tag ''latest'' = Inr ()" by code_simp

lemma endpoint_facts:
  assumes "parse_endpoint d orig = Inr e"
  shows "validate_host (host e) = Inr () \<and> username e = None \<and> password e = None \<and>
    (\<forall>n. port e = Some n \<longrightarrow> 0 \<le> n \<and> validate_port (int_str n) = Inr () \<and>
         port_int (int_str n) = Inr n \<and> CHR '':'' \<notin> set (int_str n))"
proof -
  from assms obtain h p where sp: "split_hostport d orig = Inr (h, p)"
    and h: "validate_host h = Inr ()" and e: "e = \<lparr>host = h, port = p, username = None, password = None\<rparr>"
    by (auto simp: parse_endpoint_def make_endpoint_parsed)
  from split_hostport_shape [OF sp] host_chars [OF h]
  have "case p of None \<Rightarrow> True | Some n \<Rightarrow> \<exists>q. validate_port q = Inr () \<and> port_int q = Inr n"
    by (auto split: option.splits)
  with h e port_int_validated digit_not_colon show ?thesis by (auto split: option.splits)
qed

text \<open>The endpoint of the normalised reference, and that the parser can produce it.\<close>

fun hub_endpoint :: "endpoint option \<Rightarrow> endpoint" where
  "hub_endpoint None = \<lparr>host = ''docker.io'', port = None, username = None, password = None\<rparr>"
| "hub_endpoint (Some e) = (if host e = ''index.docker.io'' then e\<lparr>host := ''docker.io''\<rparr> else e)"

lemma docker_endpoint:
  assumes "\<forall>n. p = Some n \<longrightarrow> validate_port (int_str n) = Inr () \<and> port_int (int_str n) = Inr n \<and>
      0 \<le> n \<and> CHR '':'' \<notin> set (int_str n)"
  shows "endpoint_ok (Some \<lparr>host = ''docker.io'', port = p, username = None, password = None\<rparr>) pth"
proof -
  let ?e = "\<lparr>host = ''docker.io'', port = p, username = None, password = None\<rparr>"
  have "split_hostport (render_endpoint True ?e) [] = Inr (''docker.io'', p)"
  proof (cases p)
    case None
    have "split_hostport ''docker.io'' [] = Inr (''docker.io'', None)"
      by (rule split_hostport_none) simp_all
    with None show ?thesis by (simp add: render_endpoint_def)
  next
    case (Some n)
    have "split_hostport (''docker.io'' @ CHR '':'' # int_str n) [] = Inr (''docker.io'', Some n)"
      using assms Some by (intro split_hostport_some) simp_all
    with Some show ?thesis by (simp add: render_endpoint_def)
  qed
  then have "parse_endpoint (render_endpoint True ?e) [] = Inr ?e"
    using assms docker_host by (auto simp: parse_endpoint_def make_endpoint_parsed)
  moreover have "looks_like_domain (render_endpoint True ?e)"
    by (cases p) (simp_all add: looks_like_domain_def render_endpoint_def)
  ultimately show ?thesis by (auto simp: endpoint_ok_def)
qed

lemma hub_endpoint_ok:
  assumes "endpoint_ok ep pth"
  shows "endpoint_ok (Some (hub_endpoint ep)) pth' \<and> host (hub_endpoint ep) \<noteq> ''index.docker.io'' \<and>
    (case ep of None \<Rightarrow> make_endpoint ''docker.io'' None None None
     | Some e \<Rightarrow> if host e = ''index.docker.io''
                 then make_endpoint ''docker.io'' (port e) (username e) (password e)
                 else Inr e) = Inr (hub_endpoint ep)"
proof (cases ep)
  case None
  with docker_endpoint [of None] docker_host show ?thesis by (simp add: make_endpoint_parsed)
next
  case (Some e)
  then obtain d orig where d: "looks_like_domain d" "parse_endpoint d orig = Inr e"
    using assms by (auto simp: endpoint_ok_def)
  note f = endpoint_facts [OF d(2)]
  show ?thesis
  proof (cases "host e = ''index.docker.io''")
    case True
    then have he: "hub_endpoint ep = \<lparr>host = ''docker.io'', port = port e, username = None, password = None\<rparr>"
      using Some f by simp
    show ?thesis
      unfolding he using docker_endpoint [of "port e"] f docker_host True Some
      by (simp add: make_endpoint_parsed)
  next
    case False
    with assms Some show ?thesis by (auto simp: endpoint_ok_def)
  qed
qed

definition normal_form :: "oci_ref \<Rightarrow> oci_ref" where
  "normal_form r = r\<lparr>oci_endpoint := Some (hub_endpoint (oci_endpoint r)),
     oci_path := (if host (hub_endpoint (oci_endpoint r)) = ''docker.io'' \<and> oci_path r = []
                  then ''library'' else oci_path r),
     oci_version := Some (case oci_version r of None \<Rightarrow> ''latest'' | Some v \<Rightarrow> v)\<rparr>"

lemma normal_form_idem: "host (hub_endpoint (oci_endpoint r)) \<noteq> ''index.docker.io'' \<Longrightarrow>
    normal_form (normal_form r) = normal_form r"
  by (simp add: normal_form_def)

lemma normalize_make: "canonical r \<Longrightarrow> oci_normalize r = make_oci (normal_form r)"
  using hub_endpoint_ok [of "oci_endpoint r" "oci_path r"]
  by (cases r) (simp add: oci_normalize_def normal_form_def canonical_def Let_def)

lemma normal_form_production:
  assumes "canonical r"
  shows "(validate_name_production (oci_endpoint (normal_form r)) (oci_path (normal_form r))
            (oci_name (normal_form r)) orig = Inr ()) \<longleftrightarrow>
    length (render_name_production (oci_endpoint (normal_form r)) (oci_path (normal_form r))
            (oci_name (normal_form r))) \<le> REPO_NAME_TOTAL_MAX"
  using assms library_component
  by (auto simp: canonical_def name_production_ok normal_form_def repo_components_def py_split_no_sep)

lemma normal_form_canonical:
  assumes "canonical r" "length (render_name_production (oci_endpoint (normal_form r))
      (oci_path (normal_form r)) (oci_name (normal_form r))) \<le> REPO_NAME_TOTAL_MAX"
  shows "canonical (normal_form r)"
  using assms normal_form_production [OF assms(1)] hub_endpoint_ok [of "oci_endpoint r" "oci_path r"] latest_tag
  by (auto simp: canonical_def normal_form_def split: option.splits)

lemma normalize_total:
  assumes "canonical r"
  shows "if length (render_name_production (oci_endpoint (normal_form r))
      (oci_path (normal_form r)) (oci_name (normal_form r))) \<le> REPO_NAME_TOTAL_MAX
    then oci_normalize r = Inr (normal_form r)
    else \<exists>msg val. oci_normalize r = Inl (Malformed msg val ''RepositoryNameTotalLengthMax'')"
proof (cases "length (render_name_production (oci_endpoint (normal_form r))
      (oci_path (normal_form r)) (oci_name (normal_form r))) \<le> REPO_NAME_TOTAL_MAX")
  case True
  with normalize_make [OF assms] normal_form_canonical [OF assms] canonical_make show ?thesis by simp
next
  case False
  have "oci_name (normal_form r) \<noteq> []"
    "\<exists>us. mapE validate_path_component (repo_components (oci_path (normal_form r)) (oci_name (normal_form r))) = Inr us"
    using assms library_component unfolding mapE_unit
    by (auto simp: canonical_def name_production_ok normal_form_def repo_components_def py_split_no_sep)
  then have "\<exists>msg. validate_name_production (oci_endpoint (normal_form r)) (oci_path (normal_form r))
       (oci_name (normal_form r)) orig = Inl (Malformed msg orig ''RepositoryNameTotalLengthMax'')" for orig
    using False unfolding repo_components_def
    by (auto simp: validate_name_production_def Let_def)
  from this [of "render_name_production (oci_endpoint (normal_form r)) (oci_path (normal_form r))
       (oci_name (normal_form r))"]
  show ?thesis using False normalize_make [OF assms] by (auto simp: make_oci_def)
qed

section \<open>An over-long port\<close>

lemma port_overflow_endpoint:
  assumes "4300 < k"
  shows "parse_endpoint (''h.io:'' @ replicate k (CHR ''9'')) orig = Inl (Panic ValueErrorC)"
proof -
  let ?q = "replicate k (CHR ''9'')"
  have dig: "c \<in> set ?q \<Longrightarrow> is_digit c" for c by (simp add: is_digit_def cp_def)
  have "validate_port ?q = Inr ()" using assms dig by (intro digits_port) auto
  moreover have "port_int ?q = Inl (Panic ValueErrorC)"
    using py_int_too_long [of ?q] dig assms by (simp add: port_int_def INT_MAX_DIGITS_def)
  moreover have "py_rpartition (CHR '':'') (''h.io'' @ CHR '':'' # ?q) = (''h.io'', True, ?q)"
    by (rule py_rpartition_at) simp
  ultimately show ?thesis by (simp add: parse_endpoint_def split_hostport_def)
qed

section \<open>Properties\<close>

text \<open>
  C32. Parsing and rendering an image reference is a round trip: the rendering of a parsed
  reference parses back to the same reference, whatever form (endpoint, bracketed host, port,
  tag, digest) it has, and two references parsed from any texts with the same rendering are
  the same reference.
\<close>
theorem oci_roundtrip:
  assumes "oci_parse s = Inr (Ok r [])" "oci_parse s' = Inr (Ok r' [])"
  shows "oci_parse (oci_render r) = Inr (Ok r []) \<and> (oci_render r = oci_render r' \<longleftrightarrow> r = r')"
proof -
  from assms have raw: "oci_parse_raw s = Inr r" "oci_parse_raw s' = Inr r'"
    by (simp_all add: parse_Ok_iff)
  then have "canonical r" "canonical r'" by (simp_all add: parse_canonical)
  with raw show ?thesis
    using oci.parse_render [of r] oci.render_injective [of r r' "oci_render r"] by (auto simp: parse_Ok_iff)
qed

text \<open>
  Every text has one of three outcomes: the parsed reference with no conditions, one
  \<^verbatim>\<open>MALFORMED_REFERENCE\<close> error carrying the text of the exception, or a bare
  \<^verbatim>\<open>ValueError\<close>, which only an input of more than 4300 characters causes.  The re-validation
  in the constructor never fails on what the parser built.
\<close>
theorem oci_parse_outcomes:
  "(\<exists>r. oci_parse s = Inr (Ok r []) \<and> make_oci r = Inr r) \<or>
   (\<exists>c msg val prodn. oci_parse s = Inr (Error [c]) \<and> kind c = MALFORMED_REFERENCE \<and>
        severity c = ERROR \<and> message c = malformed_str msg val prodn) \<or>
   (oci_parse s = Inl ValueErrorC \<and> 4300 < length s)"
proof (cases "oci_parse_raw s")
  case (Inr r)
  then show ?thesis using parse_canonical canonical_make parse_Ok_iff by blast
next
  case (Inl x)
  then show ?thesis
  proof (cases x)
    case (Malformed msg val prodn)
    with Inl parse_Malformed show ?thesis by blast
  next
    case (Panic e)
    with Inl parse_panic [of s e] show ?thesis by (auto simp: oci_parse_def INT_MAX_DIGITS_def)
  qed
qed

theorem oci_roundtrip_witness:
  "\<exists>r. oci_parse ''localhost:80/team/app:v1'' = Inr (Ok r []) \<and>
       oci_parse (oci_render r) = Inr (Ok r []) \<and> oci_endpoint r \<noteq> None \<and> oci_version r = Some ''v1''"
proof -
  have p: "oci_parse ''localhost:80/team/app:v1'' = Inr (Ok
      \<lparr>oci_endpoint = Some \<lparr>host = ''localhost'', port = Some 80, username = None, password = None\<rparr>,
       oci_path = ''team'', oci_name = ''app'', oci_version = Some ''v1'', oci_digest = None\<rparr> [])"
    by code_simp
  from oci_roundtrip [OF p p] p show ?thesis by auto
qed

text \<open>
  The exception the three outcomes leave open does escape: a registry port of more than
  4300 digits passes the port grammar and raises \<^verbatim>\<open>ValueError\<close>, which is not an exception of
  the library, where the boundary promises an Error result.
\<close>
theorem oci_port_overflow:
  assumes "4300 < k"
  shows "oci_parse (''h.io:'' @ replicate k (CHR ''9'') @ ''/x'') = Inl ValueErrorC \<and>
         \<not> is_kento ValueErrorC"
proof -
  let ?d = "''h.io:'' @ replicate k (CHR ''9'')"
  let ?s = "''h.io:'' @ replicate k (CHR ''9'') @ ''/x''"
  have s: "?s = ?d @ CHR ''/'' # ''x''" by simp
  have "peel_digest ?s = Inr (?s, None)" by (simp add: peel_digest_def)
  moreover have "peel_tag ?s ?s = Inr (?s, None)"
    by (rule peel_tag_none [where nm = "''x''"]) (auto intro: exI [of _ ?d])
  moreover have "parse_name ?s ?s = Inl (Panic ValueErrorC)"
  proof -
    have "py_split (CHR ''/'') ?s = [?d, ''x'']"
      unfolding s by (subst py_split_append) simp_all
    then show ?thesis
      using port_overflow_endpoint [OF assms, of ?s]
      by (simp add: parse_name_def Let_def looks_like_domain_def)
  qed
  ultimately have "oci_parse_raw ?s = Inl (Panic ValueErrorC)"
    by (simp add: oci_parse_raw_def)
  then show ?thesis by (simp add: oci_parse_def is_kento_def mro_step mro_list)
qed

theorem oci_port_overflow_witness:
  "oci_parse (''h.io:'' @ replicate 5000 (CHR ''9'') @ ''/x'') = Inl ValueErrorC"
  using oci_port_overflow [of 5000] by simp

text \<open>
  Normalising a parsed reference either raises, exactly when the completed repository name
  exceeds the 255 characters cap, or gives a fully qualified reference: it has an endpoint other
  than the legacy hub domain and a tag, keeps the name, the digest, the port and a tag that was
  given, is a fixed point of the normalisation, and renders to text that parses back to it.
\<close>
theorem oci_normalize_qualifies:
  assumes "oci_parse s = Inr (Ok r [])"
  shows "case oci_normalize r of
      Inl x \<Rightarrow> (\<exists>msg val. x = Malformed msg val ''RepositoryNameTotalLengthMax'')
    | Inr n \<Rightarrow> (\<exists>e. oci_endpoint n = Some e \<and> host e \<noteq> ''index.docker.io'' \<and>
               port e = (case oci_endpoint r of None \<Rightarrow> None | Some e' \<Rightarrow> port e') \<and>
               (host e = ''docker.io'' \<longrightarrow> oci_path n \<noteq> [])) \<and>
        oci_name n = oci_name r \<and> oci_digest n = oci_digest r \<and>
        oci_version n = Some (case oci_version r of None \<Rightarrow> ''latest'' | Some v \<Rightarrow> v) \<and>
        oci_normalize n = Inr n \<and> oci_parse (oci_render n) = Inr (Ok n [])"
proof -
  have c: "canonical r" using assms by (simp add: parse_Ok_iff parse_canonical)
  note ep = hub_endpoint_ok [of "oci_endpoint r" "oci_path r" "oci_path r"]
  have nh: "host (hub_endpoint (oci_endpoint r)) \<noteq> ''index.docker.io''"
    using c ep by (simp add: canonical_def)
  show ?thesis
  proof (cases "oci_normalize r")
    case (Inl x)
    with normalize_total [OF c] show ?thesis by (auto split: if_splits)
  next
    case (Inr n)
    with normalize_total [OF c] have n: "n = normal_form r"
      and len: "length (render_name_production (oci_endpoint n) (oci_path n) (oci_name n)) \<le> REPO_NAME_TOTAL_MAX"
      by (auto split: if_splits)
    have cn: "canonical n" using normal_form_canonical [OF c] len n by simp
    have "oci_normalize n = Inr n"
      using normalize_total [OF cn] normal_form_idem [OF nh] n len by simp
    moreover have "oci_parse (oci_render n) = Inr (Ok n [])"
      using canonical_reparse [OF cn] by (simp add: parse_Ok_iff)
    moreover have "port (hub_endpoint (oci_endpoint r)) =
        (case oci_endpoint r of None \<Rightarrow> None | Some e' \<Rightarrow> port e')"
      by (cases "oci_endpoint r") simp_all
    ultimately show ?thesis using Inr n nh by (simp add: normal_form_def)
  qed
qed

theorem oci_normalize_qualifies_witness:
  "\<exists>r n. oci_parse ''debian'' = Inr (Ok r []) \<and> oci_normalize r = Inr n \<and>
         oci_render n = ''docker.io/library/debian:latest'' \<and>
         oci_parse ''docker.io/library/debian:latest'' = Inr (Ok n [])"
proof -
  let ?r = "\<lparr>oci_endpoint = None, oci_path = [], oci_name = ''debian'', oci_version = None, oci_digest = None\<rparr>"
  let ?n = "\<lparr>oci_endpoint = Some \<lparr>host = ''docker.io'', port = None, username = None, password = None\<rparr>,
    oci_path = ''library'', oci_name = ''debian'', oci_version = Some ''latest'', oci_digest = None\<rparr>"
  have p: "oci_parse ''debian'' = Inr (Ok ?r [])" by code_simp
  have n: "oci_normalize ?r = Inr ?n" by code_simp
  have "oci_render ?n = ''docker.io/library/debian:latest''" by code_simp
  with oci_normalize_qualifies [OF p] p n show ?thesis by auto
qed

end
