(* ===== verification/Paths.thy ===== *)
theory Paths imports Strings begin

text \<open>
  The part of \<^verbatim>\<open>pathlib\<close> the components use: a POSIX path is its root (empty, one slash, or
  the two slashes POSIX keeps apart) and its parts, with empty and dot components dropped.
  Text files are read with universal newlines; \<^verbatim>\<open>read_text().strip()\<close> is \<^verbatim>\<open>file_text\<close>.
\<close>

record ppath =
  p_root :: string
  p_parts :: "string list"

definition path_root :: "string \<Rightarrow> string" where
  "path_root s =
     (let n = length (takeWhile (\<lambda>c. c = CHR ''/'') s)
      in if n = 0 then [] else if n = 2 then ''//'' else ''/'')"

definition mk_path :: "string \<Rightarrow> ppath" where
  "mk_path s = \<lparr>p_root = path_root s,
     p_parts = filter (\<lambda>x. x \<noteq> [] \<and> x \<noteq> ''.'') (py_split (CHR ''/'') s)\<rparr>"

definition path_str :: "ppath \<Rightarrow> string" where
  "path_str p = (if p_root p = [] \<and> p_parts p = [] then ''.'' else p_root p @ py_join ''/'' (p_parts p))"

definition path_name :: "ppath \<Rightarrow> string" where
  "path_name p = (if p_parts p = [] then [] else last (p_parts p))"

definition path_parent :: "ppath \<Rightarrow> ppath" where
  "path_parent p = p\<lparr>p_parts := butlast (p_parts p)\<rparr>"

text \<open>\<^verbatim>\<open>path / child\<close>, where an absolute child replaces the path.\<close>

definition path_div :: "ppath \<Rightarrow> string \<Rightarrow> ppath" where
  "path_div p s =
     (let c = mk_path s in if p_root c \<noteq> [] then c else p\<lparr>p_parts := p_parts p @ p_parts c\<rparr>)"

definition file_text :: "string \<Rightarrow> string" where
  "file_text s = py_strip (univ_newlines s)"

lemmas path_defs = mk_path_def path_str_def path_name_def path_parent_def path_div_def path_root_def

lemma length_py_join: "xs \<noteq> [] \<Longrightarrow>
    length (py_join sep xs) = sum_list (map length xs) + (length xs - 1) * length sep"
  by (induction sep xs rule: py_join.induct) simp_all

lemma path_div_plain:
  "CHR ''/'' \<notin> set s \<Longrightarrow> s \<noteq> [] \<Longrightarrow> s \<noteq> ''.'' \<Longrightarrow> path_div p s = p\<lparr>p_parts := p_parts p @ [s]\<rparr>"
proof -
  assume s: "CHR ''/'' \<notin> set s" "s \<noteq> []" "s \<noteq> ''.''"
  then have "takeWhile (\<lambda>c. c = CHR ''/'') s = []" by (cases s) auto
  with s show ?thesis by (simp add: path_defs py_split_no_sep Let_def)
qed

lemma path_str_parent:
  "p_parts p = xs @ [x] \<Longrightarrow> xs \<noteq> [] \<Longrightarrow> path_str p = path_str (path_parent p) @ ''/'' @ x"
  by (simp add: path_str_def path_parent_def py_join_snoc)

lemma mk_path_part: "x \<in> set (p_parts (mk_path s)) \<Longrightarrow> x \<noteq> [] \<and> x \<noteq> ''.'' \<and> CHR ''/'' \<notin> set x \<and> set x \<subseteq> set s"
  using py_split_parts [of x "CHR ''/''" s] set_py_split [of x "CHR ''/''" s] by (auto simp: mk_path_def)

lemma file_text_line: "stripped s \<Longrightarrow> no_breaks s \<Longrightarrow> file_text (s @ [LF]) = s"
proof -
  assume s: "stripped s" "no_breaks s"
  then have "CR \<notin> set s" by (auto simp: no_breaks_def py_linebreak_def cp_def)
  then have "univ_newlines (s @ [LF]) = s @ [LF]"
    by (induction s rule: univ_newlines.induct) auto
  with s show ?thesis by (simp add: file_text_def stripped_line)
qed

text \<open>The paths \<^verbatim>\<open>Path(s)\<close> makes, each rebuilt from its text.\<close>

definition wf_path :: "ppath \<Rightarrow> bool" where
  "wf_path p \<longleftrightarrow> (p_root p = [] \<or> p_root p = ''/'' \<or> p_root p = ''//'') \<and>
     (\<forall>x \<in> set (p_parts p). x \<noteq> [] \<and> x \<noteq> ''.'' \<and> CHR ''/'' \<notin> set x)"

lemma wf_mk_path [simp]: "wf_path (mk_path s)"
  using mk_path_part [of _ s] by (auto simp: wf_path_def mk_path_def path_root_def Let_def)

lemma wf_path_parent [simp]: "wf_path p \<Longrightarrow> wf_path (path_parent p)"
  by (auto simp: wf_path_def path_parent_def dest: in_set_butlastD)

lemma split_parts:
  assumes "wf_path p" "p_parts p \<noteq> []"
  shows "filter (\<lambda>x. x \<noteq> [] \<and> x \<noteq> ''.'') (py_split (CHR ''/'') (py_join ''/'' (p_parts p))) = p_parts p"
    "hd (py_join ''/'' (p_parts p)) \<noteq> CHR ''/''" "py_join ''/'' (p_parts p) \<noteq> []"
proof -
  have parts: "x \<in> set (p_parts p) \<Longrightarrow> x \<noteq> [] \<and> x \<noteq> ''.'' \<and> CHR ''/'' \<notin> set x" for x
    using assms(1) by (simp add: wf_path_def)
  then have "py_split (CHR ''/'') (py_join ''/'' (p_parts p)) = p_parts p"
    using assms(2) by (intro py_split_join) auto
  moreover have "filter (\<lambda>x. x \<noteq> [] \<and> x \<noteq> ''.'') (p_parts p) = p_parts p"
    unfolding filter_id_conv using parts by blast
  ultimately show "filter (\<lambda>x. x \<noteq> [] \<and> x \<noteq> ''.'') (py_split (CHR ''/'') (py_join ''/'' (p_parts p))) = p_parts p"
    by simp
  obtain c x xs where p: "p_parts p = (c # x) # xs"
    using assms(2) parts by (metis list.exhaust list.set_intros(1))
  then have "c \<noteq> CHR ''/''" using parts [of "c # x"] by auto
  with p show "hd (py_join ''/'' (p_parts p)) \<noteq> CHR ''/''" "py_join ''/'' (p_parts p) \<noteq> []"
    by (cases xs; simp)+
qed

lemma mk_path_str [py_facts]:
  assumes "wf_path p"
  shows "mk_path (path_str p) = p"
proof -
  let ?j = "py_join ''/'' (p_parts p)"
  have tw: "takeWhile (\<lambda>c. c = CHR ''/'') ?j = []"
    using split_parts(2,3) [OF assms] by (cases "p_parts p = []"; cases ?j) auto
  have fl: "filter (\<lambda>x. x \<noteq> [] \<and> x \<noteq> ''.'') (py_split (CHR ''/'') ?j) = p_parts p"
    using split_parts(1) [OF assms] by (cases "p_parts p = []") auto
  consider "p_root p = []" | "p_root p = ''/''" | "p_root p = ''//''" using assms by (auto simp: wf_path_def)
  then show ?thesis
  proof cases
    case 1
    then show ?thesis using tw fl
      by (cases "p_parts p = []"; cases p) (simp_all add: mk_path_def path_str_def path_root_def)
  next
    case 2
    then show ?thesis using tw fl
      by (cases p) (simp add: mk_path_def path_str_def path_root_def)
  next
    case 3
    then show ?thesis using tw fl
      by (cases p) (simp add: mk_path_def path_str_def path_root_def)
  qed
qed

lemma mk_path_rel:
  assumes "\<forall>x \<in> set xs. x \<noteq> [] \<and> x \<noteq> ''.'' \<and> CHR ''/'' \<notin> set x" "xs \<noteq> []"
  shows "path_div p (py_join ''/'' xs) = p\<lparr>p_parts := p_parts p @ xs\<rparr>"
proof -
  have "path_str \<lparr>p_root = [], p_parts = xs\<rparr> = py_join ''/'' xs" using assms by (simp add: path_str_def)
  then have "mk_path (py_join ''/'' xs) = \<lparr>p_root = [], p_parts = xs\<rparr>"
    using mk_path_str [of "\<lparr>p_root = [], p_parts = xs\<rparr>"] assms by (simp add: wf_path_def)
  then show ?thesis by (simp add: path_div_def)
qed

lemma length_path_div:
  assumes "p_parts p \<noteq> []" "CHR ''/'' \<notin> set s" "s \<noteq> []" "s \<noteq> ''.''"
  shows "length (path_str (path_div p s)) = length (path_str p) + 1 + length s"
  using assms by (simp add: path_div_plain path_str_def py_join_snoc)

end
