(* ===== verification/Layers.thy ===== *)
theory Layers imports Paths Results begin

text \<open>
  \<^verbatim>\<open>layers.py\<close>: the conversion of podman's absolute layer list into the short form relative
  to the overlay root, and the check made before any state is written that the mount options
  fit the kernel's page.  The outcome of reading a layer's \<^verbatim>\<open>link\<close> file is a parameter: the
  text, or the exception of the read.
\<close>

definition MAX_OVERLAY_LAYERS :: nat where "MAX_OVERLAY_LAYERS = 128"
definition OVERLAY_OPTS_PAGE_LIMIT :: nat where "OVERLAY_OPTS_PAGE_LIMIT = 4096"

definition layer_entries :: "string \<Rightarrow> string list" where
  "layer_entries layers = filter (\<lambda>e. e \<noteq> []) (py_split (CHR '':'') layers)"

text \<open>The loop deriving the common root; \<^term>\<open>None\<close> is the early return of the absolute form.\<close>

fun overlay_root :: "string option \<Rightarrow> string list \<Rightarrow> (string option \<times> ppath list) option" where
  "overlay_root root [] = Some (root, [])"
| "overlay_root root (e # es) =
     (let p = mk_path e; layer_root = path_parent (path_parent p)
      in if path_name p \<noteq> ''diff'' \<or> path_parent p = path_parent (path_parent p) then None
         else let r = path_str layer_root
              in if root \<noteq> None \<and> Some r \<noteq> root then None
                 else map_option (\<lambda>(final, ps). (final, p # ps)) (overlay_root (Some r) es))"

definition short_id :: "(string \<Rightarrow> exc + string) \<Rightarrow> ppath \<Rightarrow> exc + string" where
  "short_id link p =
     (case link (path_str (path_div (path_parent p) ''link'')) of
        Inr text \<Rightarrow> Inr (py_strip text)
      | Inl e \<Rightarrow> if OSErrorC \<in> set (mro e) then Inr [] else Inl e)"

definition rel_part :: "(string \<Rightarrow> exc + string) \<Rightarrow> ppath \<Rightarrow> exc + string" where
  "rel_part link p = bindE (short_id link p) (\<lambda>short.
     Inr (if short \<noteq> [] then ''l/'' @ short else path_name (path_parent p) @ ''/diff''))"

definition to_overlay_lowerdir :: "(string \<Rightarrow> exc + string) \<Rightarrow> string \<Rightarrow> exc + (string \<times> string)" where
  "to_overlay_lowerdir link layers =
     (if layer_entries layers = [] then Inr ([], layers)
      else case overlay_root None (layer_entries layers) of
             None \<Rightarrow> Inr ([], layers)
           | Some (None, ps) \<Rightarrow> Inr ([], layers)
           | Some (Some root, ps) \<Rightarrow>
               bindE (mapE (rel_part link) ps) (\<lambda>rel. Inr (root, py_join '':'' rel)))"

definition overlay_opts :: "string \<Rightarrow> ppath \<Rightarrow> string" where
  "overlay_opts rel state_dir =
     ''lowerdir='' @ rel @ '',upperdir='' @ path_str (path_div state_dir ''upper'') @
     '',workdir='' @ path_str (path_div state_dir ''work'')"

definition preflight_overlay_layers ::
  "(string \<Rightarrow> exc + string) \<Rightarrow> string \<Rightarrow> ppath option \<Rightarrow> exc + unit" where
  "preflight_overlay_layers link layers state_dir =
     (if length (layer_entries layers) > MAX_OVERLAY_LAYERS then Inl StateErrorC
      else case state_dir of
             None \<Rightarrow> Inr ()
           | Some sd \<Rightarrow> bindE (to_overlay_lowerdir link layers) (\<lambda>(root, rel).
               if length (overlay_opts rel sd) \<ge> OVERLAY_OPTS_PAGE_LIMIT - 16 then Inl StateErrorC
               else Inr ()))"

text \<open>
  \<^verbatim>\<open>resolve_layers\<close> on what podman answers: whether the image exists and what the two
  inspections print, \<^term>\<open>None\<close> for one that fails (\<^verbatim>\<open>check=True\<close> raises).
\<close>

definition resolve_layers :: "bool \<Rightarrow> string option \<Rightarrow> string option \<Rightarrow> exc + string" where
  "resolve_layers image_exists upper_out lower_out =
     (if \<not> image_exists then Inl ImageNotFoundErrorC
      else case upper_out of None \<Rightarrow> Inl CalledProcessErrorC
      | Some u \<Rightarrow> (case lower_out of None \<Rightarrow> Inl CalledProcessErrorC
        | Some l \<Rightarrow> (let upper = py_strip u; lower = py_strip l
            in if lower \<noteq> [] \<and> lower \<noteq> ''<no value>'' then Inr (upper @ '':'' @ lower)
               else Inr upper)))"

section \<open>The overlay root\<close>

lemma overlay_root_Some:
  "overlay_root r es = Some (final, ps) \<Longrightarrow>
     ps = map mk_path es \<and> (es = [] \<and> final = r \<or> es \<noteq> [] \<and> (\<exists>root. final = Some root \<and> (r = None \<or> r = Some root) \<and>
     (\<forall>p \<in> set ps. path_name p = ''diff'' \<and> path_parent p \<noteq> path_parent (path_parent p) \<and>
        path_str (path_parent (path_parent p)) = root)))"
proof (induction es arbitrary: r final ps)
  case Nil
  then show ?case by simp
next
  case (Cons e es)
  let ?p = "mk_path e"
  let ?r = "path_str (path_parent (path_parent ?p))"
  from Cons.prems obtain qs where q: "overlay_root (Some ?r) es = Some (final, qs)" "ps = ?p # qs"
    and ok: "path_name ?p = ''diff''" "path_parent ?p \<noteq> path_parent (path_parent ?p)" "r = None \<or> Some ?r = r"
    by (auto simp: Let_def split: if_splits)
  from Cons.IH [OF q(1)] q(2) ok show ?case by auto
qed

text \<open>A layer path is the root, the layer's directory and \<^verbatim>\<open>diff\<close>.\<close>

lemma layer_shape:
  assumes "path_name p = ''diff''" "path_parent p \<noteq> path_parent (path_parent p)"
  shows "\<exists>xs i. p = \<lparr>p_root = p_root p, p_parts = xs @ [i, ''diff'']\<rparr> \<and> path_name (path_parent p) = i \<and>
    path_parent (path_parent p) = \<lparr>p_root = p_root p, p_parts = xs\<rparr>"
proof -
  have "p_parts p \<noteq> []" using assms(1) by (auto simp: path_name_def)
  moreover have "butlast (p_parts p) \<noteq> []" using assms(2) by (auto simp: path_parent_def)
  ultimately obtain xs i where "p_parts p = xs @ [i, ''diff'']"
    using assms(1) by (metis append.assoc append_Cons append_Nil append_butlast_last_id path_name_def)
  then show ?thesis by (cases p) (simp add: path_parent_def path_name_def butlast_append)
qed

lemma rel_part_shape: "rel_part link p = Inr part \<Longrightarrow>
    (\<exists>text. link (path_str (path_div (path_parent p) ''link'')) = Inr text \<and> py_strip text \<noteq> [] \<and>
        part = ''l/'' @ py_strip text) \<or> part = path_name (path_parent p) @ ''/diff''"
  by (auto simp: rel_part_def short_id_def split: sum.splits if_splits)

lemma rel_part_Inl: "rel_part link p = Inl e \<Longrightarrow>
    OSErrorC \<notin> set (mro e) \<and> link (path_str (path_div (path_parent p) ''link'')) = Inl e"
  by (auto simp: rel_part_def short_id_def bindE_Inl split: sum.splits if_splits)

lemma lowerdir_cases:
  assumes "to_overlay_lowerdir link layers = Inr (root, rel)"
  obtains "root = []" "rel = layers"
  | parts where "layer_entries layers \<noteq> []" "rel = py_join '':'' parts"
      "mapE (rel_part link) (map mk_path (layer_entries layers)) = Inr parts"
      "\<forall>p \<in> set (map mk_path (layer_entries layers)). path_name p = ''diff'' \<and>
         path_parent p \<noteq> path_parent (path_parent p) \<and> path_str (path_parent (path_parent p)) = root"
proof (cases "layer_entries layers = [] \<or> overlay_root None (layer_entries layers) = None")
  case True
  with assms that(1) show ?thesis by (auto simp: to_overlay_lowerdir_def split: if_splits)
next
  case False
  then obtain final ps where o: "overlay_root None (layer_entries layers) = Some (final, ps)" by auto
  note sh = overlay_root_Some [OF o]
  with False obtain rt where rt: "final = Some rt" by auto
  with False o assms have "root = rt" and "\<exists>parts. rel = py_join '':'' parts \<and> mapE (rel_part link) ps = Inr parts"
    by (auto simp: to_overlay_lowerdir_def)
  with sh rt False that(2) show ?thesis by blast
qed

section \<open>Properties\<close>

text \<open>
  When the conversion finds the common root, the relative form has one entry per layer, in
  the order of the layers, each the short link read from the layer's \<^verbatim>\<open>link\<close> file or the
  layer's directory, and this fallback entry resolved against the root is the layer's path.
\<close>
theorem overlay_lowerdir_faithful:
  assumes "to_overlay_lowerdir link layers = Inr (root, rel)" "root \<noteq> []"
  shows "\<exists>parts. rel = py_join '':'' parts \<and> length parts = length (layer_entries layers) \<and>
    (\<forall>i < length parts. let p = mk_path (layer_entries layers ! i); fallback = path_name (path_parent p) @ ''/diff''
       in path_div (mk_path root) fallback = p \<and>
          (parts ! i = fallback \<or>
           (\<exists>text. link (path_str (path_div (path_parent p) ''link'')) = Inr text \<and>
                   py_strip text \<noteq> [] \<and> parts ! i = ''l/'' @ py_strip text)))"
  using assms(1)
proof (cases rule: lowerdir_cases)
  case 1
  with assms(2) show ?thesis by simp
next
  case (2 parts)
  have all: "list_all2 (\<lambda>p part. rel_part link p = Inr part) (map mk_path (layer_entries layers)) parts"
    using 2 by (simp add: mapE_Inr_iff)
  then have len: "length parts = length (layer_entries layers)" by (auto dest: list_all2_lengthD)
  have "let p = mk_path (layer_entries layers ! i); fallback = path_name (path_parent p) @ ''/diff''
       in path_div (mk_path root) fallback = p \<and>
          (parts ! i = fallback \<or>
           (\<exists>text. link (path_str (path_div (path_parent p) ''link'')) = Inr text \<and>
                   py_strip text \<noteq> [] \<and> parts ! i = ''l/'' @ py_strip text))" if i: "i < length parts" for i
  proof -
    let ?p = "mk_path (layer_entries layers ! i)"
    have p: "?p \<in> set (map mk_path (layer_entries layers))" using i len by simp
    with 2 have lay: "path_name ?p = ''diff''" "path_parent ?p \<noteq> path_parent (path_parent ?p)"
        "path_str (path_parent (path_parent ?p)) = root" by blast+
    from layer_shape [OF lay(1,2)] obtain xs k where
      shape: "?p = \<lparr>p_root = p_root ?p, p_parts = xs @ [k, ''diff'']\<rparr>" "path_name (path_parent ?p) = k"
        "path_parent (path_parent ?p) = \<lparr>p_root = p_root ?p, p_parts = xs\<rparr>" by blast
    have "wf_path ?p" by simp
    then have "\<forall>x \<in> set [k, ''diff'']. x \<noteq> [] \<and> x \<noteq> ''.'' \<and> CHR ''/'' \<notin> set x"
      by (subst (asm) shape(1)) (simp add: wf_path_def)
    from mk_path_rel [OF this, of "mk_path root"]
    have div: "path_div (mk_path root) (k @ ''/diff'') = (mk_path root)\<lparr>p_parts := p_parts (mk_path root) @ [k, ''diff'']\<rparr>"
      by simp
    have "wf_path (path_parent (path_parent ?p))" by simp
    from trans [OF mk_path_str [OF this, unfolded lay(3)] shape(3)]
    have "(mk_path root)\<lparr>p_parts := p_parts (mk_path root) @ [k, ''diff'']\<rparr> =
        \<lparr>p_root = p_root ?p, p_parts = xs @ [k, ''diff'']\<rparr>" by simp
    with div shape(1) have "path_div (mk_path root) (k @ ''/diff'') = ?p" by simp
    moreover have "rel_part link ?p = Inr (parts ! i)"
      using list_all2_nthD2 [OF all i] i len by simp
    ultimately show ?thesis using rel_part_shape [of link ?p "parts ! i"] shape(2) by (auto simp: Let_def)
  qed
  with 2 len show ?thesis by blast
qed

theorem overlay_lowerdir_faithful_witness:
  "\<exists>rel. to_overlay_lowerdir (\<lambda>p. if p = ''/s/b/link'' then Inl FileNotFoundErrorC else Inr ''SHORT'')
            ''/s/a/diff:/s/b/diff'' = Inr (''/s'', rel) \<and> rel = ''l/SHORT:b/diff'' \<and>
         (\<exists>parts. rel = py_join '':'' parts \<and> length parts = 2)"
proof -
  have p: "to_overlay_lowerdir (\<lambda>p. if p = ''/s/b/link'' then Inl FileNotFoundErrorC else Inr ''SHORT'')
            ''/s/a/diff:/s/b/diff'' = Inr (''/s'', ''l/SHORT:b/diff'')"
    by code_simp
  have "length (layer_entries ''/s/a/diff:/s/b/diff'') = 2" by code_simp
  with overlay_lowerdir_faithful [OF p] p show ?thesis by auto
qed

text \<open>
  The conversion returns whenever the reads of the link files raise nothing but
  \<^verbatim>\<open>OSError\<close>; any other exception of a read, such as the \<^verbatim>\<open>ValueError\<close> of a link file that
  is not valid text, escapes from it.
\<close>
theorem overlay_lowerdir_total:
  "(case to_overlay_lowerdir link layers of
      Inr (root, rel) \<Rightarrow> (root = [] \<and> rel = layers) \<or> layer_entries layers \<noteq> []
    | Inl e \<Rightarrow> OSErrorC \<notin> set (mro e) \<and> (\<exists>p \<in> set (map mk_path (layer_entries layers)).
        link (path_str (path_div (path_parent p) ''link'')) = Inl e)) \<and>
   (\<forall>e. to_overlay_lowerdir (\<lambda>_. Inl e) ''/s/a/diff'' =
      (if OSErrorC \<in> set (mro e) then Inr (''/s'', ''a/diff'') else Inl e))"
proof -
  have esc: "OSErrorC \<notin> set (mro e) \<and> (\<exists>p \<in> set (map mk_path (layer_entries layers)).
        link (path_str (path_div (path_parent p) ''link'')) = Inl e)"
    if inl: "to_overlay_lowerdir link layers = Inl e" for e
  proof -
    obtain root ps where o: "overlay_root None (layer_entries layers) = Some (root, ps)"
      using inl by (cases "overlay_root None (layer_entries layers)") (auto simp: to_overlay_lowerdir_def split: if_splits)
    with inl have "mapE (rel_part link) ps = Inl e"
      by (cases root) (auto simp: to_overlay_lowerdir_def bindE_Inl split: if_splits)
    from mapE_Inl [OF this] obtain p where p: "p \<in> set ps" "rel_part link p = Inl e" by blast
    have "ps = map mk_path (layer_entries layers)" using overlay_root_Some [OF o] by blast
    with p rel_part_Inl [OF p(2)] show ?thesis by blast
  qed
  have "layer_entries ''/s/a/diff'' = [''/s/a/diff'']" "mk_path ''/s/a/diff'' = \<lparr>p_root = ''/'', p_parts = [''s'', ''a'', ''diff'']\<rparr>"
    by code_simp+
  then have ex: "to_overlay_lowerdir (\<lambda>_. Inl e) ''/s/a/diff'' =
      (if OSErrorC \<in> set (mro e) then Inr (''/s'', ''a/diff'') else Inl e)" for e
    by (simp add: to_overlay_lowerdir_def Let_def path_name_def path_parent_def path_str_def
        rel_part_def short_id_def)
  show ?thesis
  proof (cases "to_overlay_lowerdir link layers")
    case (Inl e)
    with esc ex show ?thesis by simp
  next
    case (Inr r)
    obtain root rel where "r = (root, rel)" by (cases r)
    with Inr ex lowerdir_cases [of link layers root rel] show ?thesis by auto
  qed
qed


theorem overlay_lowerdir_total_witness:
  "to_overlay_lowerdir (\<lambda>_. Inl ValueErrorC) ''/s/a/diff'' = Inl ValueErrorC \<and>
   to_overlay_lowerdir (\<lambda>_. Inl FileNotFoundErrorC) ''/s/a/diff'' = Inr (''/s'', ''a/diff'')"
proof -
  have "OSErrorC \<notin> set (mro ValueErrorC)" "OSErrorC \<in> set (mro FileNotFoundErrorC)" by code_simp+
  then show ?thesis
    using overlay_lowerdir_total [where link = "\<lambda>_. Inl ValueErrorC" and layers = "[]"] by simp
qed

text \<open>
  C39. The check passes exactly when the image has at most 128 layers and the options string
  has fewer than 4080 characters, and any such image whose layers all have podman's 26
  character short links passes it whenever the state directory has at most 164 characters.
\<close>
theorem preflight_bounds:
  assumes "to_overlay_lowerdir link layers = Inr (root, rel)" "p_parts sd \<noteq> []"
  shows "(preflight_overlay_layers link layers (Some sd) = Inr () \<longleftrightarrow>
      length (layer_entries layers) \<le> 128 \<and> length (overlay_opts rel sd) < 4080) \<and>
    (length (layer_entries layers) \<le> 128 \<longrightarrow> root \<noteq> [] \<longrightarrow> length (path_str sd) \<le> 164 \<longrightarrow>
     (\<forall>p. \<exists>text. link p = Inr text \<and> length (py_strip text) = 26) \<longrightarrow>
     preflight_overlay_layers link layers (Some sd) = Inr ())"
proof -
  have iff: "preflight_overlay_layers link layers (Some sd) = Inr () \<longleftrightarrow>
      length (layer_entries layers) \<le> 128 \<and> length (overlay_opts rel sd) < 4080"
    using assms(1) by (auto simp: preflight_overlay_layers_def MAX_OVERLAY_LAYERS_def
        OVERLAY_OPTS_PAGE_LIMIT_def)
  have "length (overlay_opts rel sd) < 4080"
    if h: "length (layer_entries layers) \<le> 128" "root \<noteq> []" "length (path_str sd) \<le> 164"
      "\<forall>p. \<exists>text. link p = Inr text \<and> length (py_strip text) = 26"
    using assms(1)
  proof (cases rule: lowerdir_cases)
    case 1
    with h(2) show ?thesis by simp
  next
    case (2 parts)
    have part: "length q = 28" if qp: "q \<in> set parts" for q
    proof -
      from mapE_image [OF 2(3) qp] obtain p where "rel_part link p = Inr q" by blast
      moreover obtain t where "link (path_str (path_div (path_parent p) ''link'')) = Inr t"
          "length (py_strip t) = 26" using h(4) by blast
      ultimately show ?thesis by (auto simp: rel_part_def short_id_def)
    qed
    have len: "length parts = length (layer_entries layers)"
      using 2(3) by (auto simp: mapE_Inr_iff dest: list_all2_lengthD)
    then have ne: "parts \<noteq> []" using 2(1) by auto
    have "sum_list (map length parts) = 28 * length parts"
      using part by (induction parts) auto
    then have "length rel = 28 * length parts + (length parts - 1)"
      using length_py_join [OF ne] 2(2) by simp
    then have "length rel \<le> 3711" using len h(1) by simp
    then show ?thesis
      using h(3) length_path_div [OF assms(2), of "''upper''"] length_path_div [OF assms(2), of "''work''"]
      by (simp add: overlay_opts_def)
  qed
  with iff show ?thesis by blast
qed

theorem preflight_bounds_witness:
  "preflight_overlay_layers (\<lambda>_. Inr (replicate 26 (CHR ''A''))) ''/s/a/diff:/s/b/diff''
      (Some (mk_path ''/var/lib/lxc/web'')) = Inr ()"
proof -
  let ?link = "\<lambda>_::string. (Inr (replicate 26 (CHR ''A'')) :: exc + string)"
  have p: "to_overlay_lowerdir ?link ''/s/a/diff:/s/b/diff'' =
      Inr (''/s'', py_join '':'' (replicate 2 (''l/'' @ replicate 26 (CHR ''A''))))"
    by code_simp
  have sd: "p_parts (mk_path ''/var/lib/lxc/web'') \<noteq> []" by code_simp
  have "length (layer_entries ''/s/a/diff:/s/b/diff'') \<le> 128" by code_simp
  moreover have "length (path_str (mk_path ''/var/lib/lxc/web'')) \<le> 164" by code_simp
  moreover have "length (py_strip (replicate 26 (CHR ''A''))) = 26" by code_simp
  ultimately show ?thesis using preflight_bounds [OF p sd] by simp
qed

text \<open>
  The kernel counts the bytes of the encoded options; a character from 128 on takes two bytes
  in UTF-8, in the range the model covers.
\<close>

definition utf8_length :: "string \<Rightarrow> nat" where
  "utf8_length s = sum_list (map (\<lambda>c. if cp c < 128 then 1 else 2) s)"

lemma utf8_length_simps [simp]:
  "utf8_length [] = 0" "utf8_length (c # s) = (if cp c < 128 then 1 else 2) + utf8_length s"
  "utf8_length (s @ t) = utf8_length s + utf8_length t"
  by (simp_all add: utf8_length_def)

lemma utf8_length_ge: "length s \<le> utf8_length s"
  by (induction s) auto

text \<open>
  The check counts characters where the kernel counts bytes: it also passes for options
  whose encoding exceeds the page, here a state directory of 2001 characters below one layer,
  whose 4000 or so bytes the kernel would truncate.
\<close>
theorem preflight_counts_characters:
  "let layers = ''/s/a/diff''; sd = mk_path (CHR ''/'' # replicate 2000 (CHR 0xE9));
       link = (\<lambda>_. Inr ''SHORT'')
   in preflight_overlay_layers link layers (Some sd) = Inr () \<and>
      (\<exists>root rel. to_overlay_lowerdir link layers = Inr (root, rel) \<and>
         utf8_length (overlay_opts rel sd) > OVERLAY_OPTS_PAGE_LIMIT)"
proof -
  let ?dir = "replicate 2000 (CHR 0xE9)"
  let ?link = "\<lambda>_::string. (Inr ''SHORT'' :: exc + string)"
  have "wf_path \<lparr>p_root = ''/'', p_parts = [?dir]\<rparr>" by (auto simp: wf_path_def numeral_eq_Suc)
  from mk_path_str [OF this] have sd: "mk_path (CHR ''/'' # ?dir) = \<lparr>p_root = ''/'', p_parts = [?dir]\<rparr>"
    by (simp add: path_str_def)
  have low: "to_overlay_lowerdir ?link ''/s/a/diff'' = Inr (''/s'', ''l/SHORT'')" by code_simp
  have le: "length (layer_entries ''/s/a/diff'') \<le> MAX_OVERLAY_LAYERS" by code_simp
  have opts: "overlay_opts ''l/SHORT'' \<lparr>p_root = ''/'', p_parts = [?dir]\<rparr> =
      ''lowerdir=l/SHORT,upperdir=/'' @ ?dir @ ''/upper,workdir=/'' @ ?dir @ ''/work''"
    by (simp add: overlay_opts_def path_div_plain path_str_def)
  have "utf8_length ?dir = 4000" by (simp add: utf8_length_def sum_list_replicate cp_def)
  then have "utf8_length (overlay_opts ''l/SHORT'' \<lparr>p_root = ''/'', p_parts = [?dir]\<rparr>) > OVERLAY_OPTS_PAGE_LIMIT"
    unfolding opts OVERLAY_OPTS_PAGE_LIMIT_def by simp
  moreover have "length (overlay_opts ''l/SHORT'' \<lparr>p_root = ''/'', p_parts = [?dir]\<rparr>) < OVERLAY_OPTS_PAGE_LIMIT - 16"
    unfolding opts OVERLAY_OPTS_PAGE_LIMIT_def by simp
  ultimately show ?thesis unfolding Let_def sd
    using low le by (auto simp: preflight_overlay_layers_def)
qed

end
