(* ===== verification/Store.thy ===== *)
theory Store
  imports Paths Regex Results Interfaces "HOL-Library.Char_ord" "HOL-Library.List_Lexorder"
begin

text \<open>
  The instance store of \<^verbatim>\<open>__init__.py\<close>: name validation, the two namespaces (the LXC base and
  the VM base) as directory listings, resolution of a name to an instance directory, generated
  names, the sanitised image names, the state directory and the choice of the network.

  A directory listing is the list of its entries in the order the operating system yields
  them; a subdirectory maps its regular files to their contents.  The environment, the user
  database and the answers of status commands are arguments.
\<close>

type_synonym files = "string \<rightharpoonup> string"
datatype entry = EFile | EDir files
type_synonym listing = "(string \<times> entry) list"

datatype base = LXC_BASE | VM_BASE

record store =
  lxc_base :: "listing option"
  vm_base :: "listing option"

fun base_of :: "store \<Rightarrow> base \<Rightarrow> listing option" where
  "base_of st LXC_BASE = lxc_base st"
| "base_of st VM_BASE = vm_base st"

section \<open>Instance names\<close>

definition MAX_INSTANCE_NAME :: nat where "MAX_INSTANCE_NAME = 64"

definition NAME_RE :: rx where
  "NAME_RE = Cat (Cls is_alnum) (Rep (Cls (\<lambda>c. is_word c \<or> c = CHR ''.'' \<or> c = CHR ''-'')))"

definition validate_name :: "string \<Rightarrow> exc + unit" where
  "validate_name name =
     (if name = [] then Inl ValidationErrorC
      else if length name > MAX_INSTANCE_NAME then Inl ValidationErrorC
      else if NUL \<in> set name then Inl ValidationErrorC
      else if \<not> anchored (rx_match NAME_RE) name then Inl ValidationErrorC
      else Inr ())"

section \<open>Resolution\<close>

definition recorded_name :: "files \<Rightarrow> string option" where
  "recorded_name fs = map_option file_text (fs ''kento-name'')"

text \<open>The scan of the entries, in sorted order, for a recorded name.\<close>

fun scan_names :: "string \<Rightarrow> listing \<Rightarrow> (string \<times> files) option" where
  "scan_names name [] = None"
| "scan_names name ((d, EFile) # es) = scan_names name es"
| "scan_names name ((d, EDir fs) # es) =
     (if recorded_name fs = Some name \<and> fs ''kento-image'' \<noteq> None then Some (d, fs)
      else scan_names name es)"

definition scan_namespace :: "string \<Rightarrow> listing option \<Rightarrow> (string \<times> files) option" where
  "scan_namespace name base =
     (case base of None \<Rightarrow> None
      | Some es \<Rightarrow>
         (case map_of es name of
            Some (EDir fs) \<Rightarrow> if fs ''kento-image'' \<noteq> None then Some (name, fs)
                              else scan_names name (sort_key fst es)
          | _ \<Rightarrow> scan_names name (sort_key fst es)))"

definition read_mode :: "files \<Rightarrow> string \<Rightarrow> string" where
  "read_mode fs dflt = (case fs ''kento-mode'' of Some t \<Rightarrow> file_text t | None \<Rightarrow> dflt)"

fun first_hit :: "string \<Rightarrow> (base \<times> listing option) list \<Rightarrow> (base \<times> string \<times> files) option" where
  "first_hit name [] = None"
| "first_hit name ((b, l) # bs) =
     (case scan_namespace name l of Some (d, fs) \<Rightarrow> Some (b, d, fs) | None \<Rightarrow> first_hit name bs)"

definition resolve_container ::
  "store \<Rightarrow> string \<Rightarrow> (base \<times> listing option) option \<Rightarrow> exc + (base \<times> string \<times> files)" where
  "resolve_container st name scan_dir =
     bindE (validate_name name) (\<lambda>_.
       let bases = (case scan_dir of Some b \<Rightarrow> [b]
                    | None \<Rightarrow> [(LXC_BASE, lxc_base st), (VM_BASE, vm_base st)])
       in case first_hit name bases of Some hit \<Rightarrow> Inr hit | None \<Rightarrow> Inl InstanceNotFoundErrorC)"

definition is_lxc_scope :: "string \<Rightarrow> bool" where
  "is_lxc_scope namespace \<longleftrightarrow> namespace = ''container'' \<or> namespace = ''lxc''"

definition resolve_in_namespace :: "store \<Rightarrow> string \<Rightarrow> string \<Rightarrow> exc + (base \<times> string \<times> files)" where
  "resolve_in_namespace st name namespace =
     bindE (validate_name name) (\<lambda>_.
       let b = (if is_lxc_scope namespace then LXC_BASE else VM_BASE)
       in case scan_namespace name (base_of st b) of
            Some (d, fs) \<Rightarrow> Inr (b, d, fs)
          | None \<Rightarrow> Inl InstanceNotFoundErrorC)"

definition resolve_any ::
  "store \<Rightarrow> string \<Rightarrow> string option \<Rightarrow> exc + ((base \<times> string \<times> files) \<times> string)" where
  "resolve_any st name namespace =
     bindE (validate_name name) (\<lambda>_.
       if namespace \<noteq> None \<and> is_lxc_scope (the namespace) then
         (case scan_namespace name (lxc_base st) of
            Some (d, fs) \<Rightarrow> Inr ((LXC_BASE, d, fs), read_mode fs ''lxc'')
          | None \<Rightarrow> Inl InstanceNotFoundErrorC)
       else if namespace = Some ''vm'' then
         (case scan_namespace name (vm_base st) of
            Some (d, fs) \<Rightarrow> Inr ((VM_BASE, d, fs), read_mode fs ''vm'')
          | None \<Rightarrow> Inl InstanceNotFoundErrorC)
       else (case (scan_namespace name (lxc_base st), scan_namespace name (vm_base st)) of
               (Some _, Some _) \<Rightarrow> Inl KentoErrorC
             | (Some (d, fs), None) \<Rightarrow> Inr ((LXC_BASE, d, fs), read_mode fs ''lxc'')
             | (None, Some (d, fs)) \<Rightarrow> Inr ((VM_BASE, d, fs), read_mode fs ''vm'')
             | (None, None) \<Rightarrow> Inl InstanceNotFoundErrorC))"

definition check_name_conflict :: "store \<Rightarrow> string \<Rightarrow> string \<Rightarrow> exc + bool" where
  "check_name_conflict st name target =
     bindE (validate_name name) (\<lambda>_.
       Inr (scan_namespace name (if is_lxc_scope target then vm_base st else lxc_base st) \<noteq> None))"

section \<open>Generated names\<close>

fun names_in :: "listing \<Rightarrow> string list" where
  "names_in [] = []"
| "names_in ((d, EFile) # es) = names_in es"
| "names_in ((d, EDir fs) # es) =
     d # (case recorded_name fs of Some n \<Rightarrow> n # names_in es | None \<Rightarrow> names_in es)"

definition used_names :: "listing option \<Rightarrow> listing option \<Rightarrow> string list" where
  "used_names scan_dir other_dir =
     (case scan_dir of None \<Rightarrow> [] | Some es \<Rightarrow> names_in es) @
     (case other_dir of None \<Rightarrow> [] | Some es \<Rightarrow> names_in es)"

definition numbered :: "string \<Rightarrow> nat \<Rightarrow> string" where
  "numbered base_name n = base_name @ ''-'' @ nat_str n"

lemma numbered_inj [simp]: "numbered b m = numbered b n \<longleftrightarrow> m = n"
  by (simp add: numbered_def)

function next_from :: "string \<Rightarrow> nat \<Rightarrow> string list \<Rightarrow> string" where
  "next_from base_name n used =
     (if numbered base_name n \<notin> set used then numbered base_name n
      else next_from base_name (Suc n) used)"
  by pat_completeness auto
termination
proof (relation "measure (\<lambda>(b, n, used). card {m. n \<le> m \<and> numbered b m \<in> set used})")
  fix b :: string and n :: nat and used :: "string list"
  assume "\<not> numbered b n \<notin> set used"
  then show "((b, Suc n, used), (b, n, used)) \<in>
      measure (\<lambda>(b, n, used). card {m. n \<le> m \<and> numbered b m \<in> set used})"
    using search_measure [of "numbered b" n used] by (simp add: inj_def)
qed simp

declare next_from.simps [simp del]

definition next_name :: "string \<Rightarrow> string list \<Rightarrow> string" where
  "next_name base_name used = next_from base_name 0 used"

definition next_instance_name :: "string \<Rightarrow> listing option \<Rightarrow> listing option \<Rightarrow> string" where
  "next_instance_name base_name scan_dir other_dir = next_name base_name (used_names scan_dir other_dir)"

text \<open>The four substitutions in their order.\<close>

definition sanitize_image_name :: "string \<Rightarrow> string" where
  "sanitize_image_name img =
     py_replace (CHR '':'') ''_''
       (py_replace (CHR ''_'') ''__''
         (py_replace (CHR ''/'') ''-''
           (py_replace (CHR ''-'') ''--'' img)))"

section \<open>The state directory and the network\<close>

text \<open>
  \<^verbatim>\<open>upper_base\<close>: the two environment variables, the expansion of a leading tilde and the home
  directory of a user are arguments.
\<close>

definition upper_base ::
  "string option \<Rightarrow> string option \<Rightarrow> (string \<Rightarrow> string) \<Rightarrow> (string \<rightharpoonup> string) \<Rightarrow>
   string \<Rightarrow> ppath option \<Rightarrow> exc + ppath" where
  "upper_base state_dir sudo_user expanduser home_of name base =
     (if state_dir \<noteq> None \<and> the state_dir \<noteq> [] then
        (let o1 = the state_dir; o2 = (if hd o1 = CHR ''~'' then expanduser o1 else o1)
         in Inr (path_div (mk_path o2) name))
      else if sudo_user \<noteq> None \<and> the sudo_user \<noteq> [] then
        (case home_of (the sudo_user) of
           None \<Rightarrow> Inl StateErrorC
         | Some h \<Rightarrow> Inr (path_div (path_div (path_div (path_div (mk_path h) ''.local'') ''share'') ''kento'') name))
      else Inr (path_div (case base of Some b \<Rightarrow> b | None \<Rightarrow> mk_path ''/var/lib/lxc'') name))"

record net_choice =
  net_type :: string
  net_bridge :: "string option"
  net_port :: "string option"

definition detect_bridge :: "(string \<Rightarrow> bool) \<Rightarrow> string option" where
  "detect_bridge exists =
     (if exists ''vmbr0'' then Some ''vmbr0'' else if exists ''lxcbr0'' then Some ''lxcbr0'' else None)"

definition resolve_network ::
  "(string \<Rightarrow> bool) \<Rightarrow> string option \<Rightarrow> string option \<Rightarrow> string \<Rightarrow> string option \<Rightarrow> exc + net_choice" where
  "resolve_network exists nt bridge mode pt =
     (let nt' = (if pt \<noteq> None \<and> nt = None \<and> (mode = ''vm'' \<or> mode = ''pve-vm'')
                 then Some ''usermode'' else nt)
      in if nt' = None then
           (if mode = ''vm'' then Inr \<lparr>net_type = ''usermode'', net_bridge = bridge, net_port = pt\<rparr>
            else case detect_bridge exists of
                   Some b \<Rightarrow> Inr \<lparr>net_type = ''bridge'', net_bridge = Some b, net_port = pt\<rparr>
                 | None \<Rightarrow> if mode = ''pve-vm''
                     then Inr \<lparr>net_type = ''usermode'', net_bridge = bridge, net_port = pt\<rparr>
                     else Inr \<lparr>net_type = ''none'', net_bridge = bridge, net_port = pt\<rparr>)
         else if nt' = Some ''bridge'' \<and> bridge = None then
           (case detect_bridge exists of
              None \<Rightarrow> Inl ValidationErrorC
            | Some b \<Rightarrow> Inr \<lparr>net_type = ''bridge'', net_bridge = Some b, net_port = pt\<rparr>)
         else Inr \<lparr>net_type = the nt', net_bridge = bridge, net_port = pt\<rparr>)"

section \<open>Liveness\<close>

text \<open>
  The answers \<^verbatim>\<open>is_running\<close> asks for: the node name (\<^term>\<open>None\<close> when it cannot be resolved),
  the configuration files present, the outcome of a command (\<^term>\<open>None\<close> for a timeout) and
  the plain VM's process check.
\<close>

record host_view =
  node_name :: "string option"
  conf_files :: "string \<Rightarrow> bool"
  run_status :: "string list \<Rightarrow> (int \<times> string) option"
  vm_alive :: "string \<Rightarrow> bool"

definition pve_config_exists :: "host_view \<Rightarrow> string \<Rightarrow> string \<Rightarrow> bool" where
  "pve_config_exists hv vmid mode =
     (case node_name hv of None \<Rightarrow> True
      | Some node \<Rightarrow> conf_files hv (''/etc/pve/nodes/'' @ node @ ''/'' @
          (if mode = ''pve-vm'' then ''qemu-server'' else ''lxc'') @ ''/'' @ vmid @ ''.conf''))"

definition assume_running :: "host_view \<Rightarrow> string list \<Rightarrow> bool" where
  "assume_running hv cmd = (case run_status hv cmd of
      None \<Rightarrow> True
    | Some (rc, out) \<Rightarrow> if rc \<noteq> 0 then True else py_in ''running'' out)"

definition is_running :: "host_view \<Rightarrow> string \<Rightarrow> files \<Rightarrow> string \<Rightarrow> bool" where
  "is_running hv dir fs mode =
     (if mode = ''vm'' then vm_alive hv dir
      else if mode = ''pve-vm'' then
        (case fs ''kento-vmid'' of None \<Rightarrow> False
         | Some t \<Rightarrow> let vmid = file_text t
                    in if \<not> pve_config_exists hv vmid ''pve-vm'' then False
                       else assume_running hv [''qm'', ''status'', vmid])
      else if mode = ''pve'' then
        (if \<not> pve_config_exists hv dir ''pve'' then False
         else assume_running hv [''pct'', ''status'', dir])
      else (case run_status hv [''lxc-info'', ''-n'', dir, ''-sH''] of
              Some (rc, out) \<Rightarrow> rc = 0 \<and> py_in ''RUNNING'' out
            | None \<Rightarrow> False))"

section \<open>Names\<close>

definition name_char :: "char \<Rightarrow> bool" where
  "name_char c \<longleftrightarrow> is_word c \<or> c = CHR ''.'' \<or> c = CHR ''-''"

lemma NAME_RE_iff: "rx_match NAME_RE s \<longleftrightarrow> s \<noteq> [] \<and> is_alnum (hd s) \<and> (\<forall>c \<in> set s. name_char c)"
  unfolding NAME_RE_def Cat_Cls Rep_Cls by (cases s) (auto simp: name_char_def is_word_def)

lemma name_char_plain: "name_char c \<Longrightarrow> c \<noteq> CHR ''/'' \<and> c \<noteq> NUL \<and> c \<noteq> LF"
  by (auto simp: name_char_def is_word_def is_alnum_def is_alpha_def is_lower_def is_upper_def
      is_digit_def cp_def)

lemma validate_name_iff:
  "validate_name name = Inr () \<longleftrightarrow> length name \<le> 64 \<and>
     (\<exists>stem. (name = stem \<or> name = stem @ [LF]) \<and> stem \<noteq> [] \<and> is_alnum (hd stem) \<and> (\<forall>c \<in> set stem. name_char c))"
  (is "_ \<longleftrightarrow> _ \<and> ?R")
proof -
  have "anchored (rx_match NAME_RE) name \<longleftrightarrow> ?R"
  proof
    assume "anchored (rx_match NAME_RE) name"
    then show ?R by (elim anchored_cases) (auto simp: NAME_RE_iff)
  qed (auto simp: NAME_RE_iff intro: anchoredI anchored_LF)
  moreover have "?R \<Longrightarrow> NUL \<notin> set name \<and> name \<noteq> []" using name_char_plain by fastforce
  ultimately show ?thesis by (auto simp: validate_name_def MAX_INSTANCE_NAME_def not_le)
qed

section \<open>Which entries answer to a name\<close>

fun answers :: "string \<Rightarrow> string \<times> entry \<Rightarrow> bool" where
  "answers name (d, EFile) = False"
| "answers name (d, EDir fs) = (fs ''kento-image'' \<noteq> None \<and> (d = name \<or> recorded_name fs = Some name))"

definition holds_name :: "string \<Rightarrow> listing option \<Rightarrow> bool" where
  "holds_name name l = (case l of None \<Rightarrow> False | Some es \<Rightarrow> \<exists>e \<in> set es. answers name e)"

lemma scan_names_Some:
  "scan_names name es = Some (d, fs) \<Longrightarrow>
     (d, EDir fs) \<in> set es \<and> recorded_name fs = Some name \<and> fs ''kento-image'' \<noteq> None"
  by (induction name es rule: scan_names.induct) (auto split: if_splits)

lemma scan_names_None:
  "scan_names name es = None \<Longrightarrow> (d, EDir fs) \<in> set es \<Longrightarrow>
     \<not> (recorded_name fs = Some name \<and> fs ''kento-image'' \<noteq> None)"
  by (induction name es rule: scan_names.induct) (auto split: if_splits)

lemma scan_names_first:
  "scan_names name es = Some (d, fs) \<Longrightarrow> sorted (map fst es) \<Longrightarrow>
     (d', EDir fs') \<in> set es \<Longrightarrow> recorded_name fs' = Some name \<Longrightarrow> fs' ''kento-image'' \<noteq> None \<Longrightarrow> d \<le> d'"
  by (induction name es rule: scan_names.induct) (auto split: if_splits)

definition direct_hit :: "string \<Rightarrow> listing \<Rightarrow> bool" where
  "direct_hit name es \<longleftrightarrow> (\<exists>fs. map_of es name = Some (EDir fs) \<and> fs ''kento-image'' \<noteq> None)"

lemma scan_namespace_direct:
  "direct_hit name es \<Longrightarrow> \<exists>fs. scan_namespace name (Some es) = Some (name, fs) \<and> (name, EDir fs) \<in> set es \<and>
     fs ''kento-image'' \<noteq> None"
  by (auto simp: direct_hit_def scan_namespace_def dest: map_of_SomeD)

lemma scan_namespace_scan:
  "\<not> direct_hit name es \<Longrightarrow> scan_namespace name (Some es) = scan_names name (sort_key fst es)"
  by (auto simp: direct_hit_def scan_namespace_def split: option.splits entry.splits)

lemma scan_namespace_Some:
  assumes "scan_namespace name (Some es) = Some (d, fs)"
  shows "(d, EDir fs) \<in> set es \<and> answers name (d, EDir fs) \<and>
    (d = name \<or> \<not> direct_hit name es \<and>
      (\<forall>d' fs'. (d', EDir fs') \<in> set es \<and> answers name (d', EDir fs') \<and> d' \<noteq> name \<longrightarrow> d \<le> d'))"
proof (cases "direct_hit name es")
  case True
  with assms scan_namespace_direct [OF True] show ?thesis by auto
next
  case False
  with assms have s: "scan_names name (sort_key fst es) = Some (d, fs)" by (simp add: scan_namespace_scan)
  have "sorted (map fst (sort_key fst es))" by simp
  with scan_names_Some [OF s] scan_names_first [OF s] False show ?thesis by auto
qed

lemma scan_namespace_None:
  assumes "distinct (map fst es)"
  shows "scan_namespace name (Some es) = None \<longleftrightarrow> \<not> holds_name name (Some es)"
proof
  assume n: "scan_namespace name (Some es) = None"
  then have nd: "\<not> direct_hit name es" using scan_namespace_direct by fastforce
  with n have s: "scan_names name (sort_key fst es) = None" by (simp add: scan_namespace_scan)
  show "\<not> holds_name name (Some es)"
  proof
    assume "holds_name name (Some es)"
    then obtain d fs where e: "(d, EDir fs) \<in> set es" "fs ''kento-image'' \<noteq> None"
        "d = name \<or> recorded_name fs = Some name"
      by (auto simp: holds_name_def elim!: answers.elims)
    with scan_names_None [OF s, of d fs] have "d = name" by auto
    with e assms have "map_of es name = Some (EDir fs)" by simp
    with e nd show False by (auto simp: direct_hit_def)
  qed
next
  assume h: "\<not> holds_name name (Some es)"
  show "scan_namespace name (Some es) = None"
  proof (rule ccontr)
    assume "scan_namespace name (Some es) \<noteq> None"
    then obtain d fs where "scan_namespace name (Some es) = Some (d, fs)" by auto
    from scan_namespace_Some [OF this] h show False by (auto simp: holds_name_def)
  qed
qed

definition listing_ok :: "listing option \<Rightarrow> bool" where
  "listing_ok l = (case l of None \<Rightarrow> True | Some es \<Rightarrow> distinct (map fst es))"

lemma scan_namespace_iff: "listing_ok l \<Longrightarrow> scan_namespace name l \<noteq> None \<longleftrightarrow> holds_name name l"
proof (cases l)
  case None
  then show ?thesis by (simp add: scan_namespace_def holds_name_def)
next
  case (Some es)
  assume "listing_ok l"
  with Some scan_namespace_None [of es name] show ?thesis by (auto simp: listing_ok_def)
qed

lemma names_in_answers: "(d, EDir fs) \<in> set es \<Longrightarrow> answers name (d, EDir fs) \<Longrightarrow> name \<in> set (names_in es)"
  by (induction es rule: names_in.induct) (auto split: option.splits)

lemma holds_used: "holds_name name s \<or> holds_name name t \<Longrightarrow> name \<in> set (used_names s t)"
proof -
  assume "holds_name name s \<or> holds_name name t"
  then obtain es d fs where "(s = Some es \<or> t = Some es)" "(d, EDir fs) \<in> set es" "answers name (d, EDir fs)"
    by (auto simp: holds_name_def split: option.splits elim!: answers.elims)
  with names_in_answers show ?thesis by (auto simp: used_names_def split: option.splits)
qed

interpretation nin: first_free "numbered b" 0 "next_name b" for b
  by unfold_locales
    (simp, use search_first [of "numbered b" "\<lambda>n. next_from b n used" used 0 for b used] next_from.simps in
      \<open>simp add: inj_def next_name_def\<close>)

section \<open>Sanitised image names\<close>

definition san_char :: "char \<Rightarrow> string" where
  "san_char c = (if c = CHR ''-'' then ''--'' else if c = CHR ''/'' then ''-''
                 else if c = CHR ''_'' then ''__'' else if c = CHR '':'' then ''_'' else [c])"

lemma py_replace_simps [simp]:
  "py_replace d r [] = []" "py_replace d r (c # s) = (if c = d then r else [c]) @ py_replace d r s"
  "py_replace d r (s @ t) = py_replace d r s @ py_replace d r t"
  by (simp_all add: py_replace_def)

lemma sanitize_chars: "sanitize_image_name s = concat (map san_char s)"
  by (induction s) (simp_all add: sanitize_image_name_def san_char_def)

text \<open>
  The texts in which the separators can be told apart again: no slash follows a hyphen or a
  slash, and no colon follows an underscore or a colon.
\<close>

definition apart :: "char \<Rightarrow> char \<Rightarrow> bool" where
  "apart a b \<longleftrightarrow> \<not> ((a = CHR ''-'' \<or> a = CHR ''/'') \<and> b = CHR ''/'') \<and>
                 \<not> ((a = CHR ''_'' \<or> a = CHR '':'') \<and> b = CHR '':'')"

definition separable :: "string \<Rightarrow> bool" where
  "separable s \<longleftrightarrow> (\<forall>i. Suc i < length s \<longrightarrow> apart (s ! i) (s ! Suc i))"

lemma separable_Nil [simp]: "separable []" "separable [c]"
  by (simp_all add: separable_def)

lemma separable_append: "separable (s @ t) \<longleftrightarrow>
    separable s \<and> separable t \<and> (s \<noteq> [] \<longrightarrow> t \<noteq> [] \<longrightarrow> apart (last s) (hd t))"
proof (induction s)
  case Nil
  then show ?case by simp
next
  case (Cons a s)
  have cons: "separable (a # u) \<longleftrightarrow> separable u \<and> (u \<noteq> [] \<longrightarrow> apart a (hd u))" for u
  proof (cases u)
    case (Cons b v)
    show ?thesis unfolding Cons separable_def by (auto simp: nth_Cons split: nat.splits)
  qed simp
  show ?case using Cons cons [of "s @ t"] cons [of s] by (cases s) (auto simp: hd_append)
qed

lemma separable_snoc: "separable (s @ [c]) \<longleftrightarrow> separable s \<and> (s \<noteq> [] \<longrightarrow> apart (last s) c)"
  by (simp add: separable_append)

lemma san_char_last: "last (san_char c) =
    (if c = CHR ''/'' then CHR ''-'' else if c = CHR '':'' then CHR ''_'' else c)"
  by (simp add: san_char_def)

lemma san_char_nonempty [simp]: "san_char c \<noteq> []"
  by (simp add: san_char_def)

lemma sanitize_snoc: "sanitize_image_name (s @ [c]) = sanitize_image_name s @ san_char c"
  by (simp add: sanitize_chars)

lemma sanitize_last: "s \<noteq> [] \<Longrightarrow> sanitize_image_name s \<noteq> [] \<and> last (sanitize_image_name s) = last (san_char (last s))"
  by (induction s rule: rev_induct) (simp_all add: sanitize_snoc)

text \<open>
  Two last characters with the same image but for one: the image of the other text without its
  last character then ends in the image of a separator that is not apart from it.
\<close>

lemma sanitize_mixed:
  assumes "sanitize_image_name s @ [x, x] = sanitize_image_name t @ [x]"
    "x = CHR ''-'' \<and> c = CHR ''/'' \<or> x = CHR ''_'' \<and> c = CHR '':''"
    "separable (t @ [c])"
  shows False
proof -
  have eq: "sanitize_image_name s @ [x] = sanitize_image_name t" using assms(1) by simp
  have "t \<noteq> []"
  proof
    assume "t = []"
    then have "sanitize_image_name t = []" by (simp add: sanitize_chars)
    with eq show False by simp
  qed
  moreover from this sanitize_last [of t] eq have "last (san_char (last t)) = x" by (metis last_snoc)
  ultimately show False using assms(2,3)
    by (auto simp: separable_snoc apart_def san_char_last split: if_splits)
qed

lemma sanitize_inj:
  "separable s \<Longrightarrow> separable t \<Longrightarrow> sanitize_image_name s = sanitize_image_name t \<Longrightarrow> s = t"
proof (induction s arbitrary: t rule: rev_induct)
  case Nil
  then show ?case using sanitize_last [of t] by (cases "t = []") (auto simp: sanitize_chars)
next
  case (snoc c s)
  then have "t \<noteq> []" using sanitize_last [of "s @ [c]"] by (auto simp: sanitize_chars)
  then obtain u d where t: "t = u @ [d]" by (metis append_butlast_last_id)
  with snoc.prems have eq: "sanitize_image_name s @ san_char c = sanitize_image_name u @ san_char d"
    by (simp add: sanitize_snoc)
  then have lasts: "last (san_char c) = last (san_char d)" by (metis last_appendR san_char_nonempty)
  show ?case
  proof (cases "c = d")
    case True
    with eq snoc t show ?thesis by (simp add: separable_snoc)
  next
    case False
    note mixed = sanitize_mixed [of s _ u d] sanitize_mixed [of u _ s c]
    have "c = CHR ''-'' \<and> d = CHR ''/'' \<or> c = CHR ''/'' \<and> d = CHR ''-'' \<or>
          c = CHR ''_'' \<and> d = CHR '':'' \<or> c = CHR '':'' \<and> d = CHR ''_''"
      using lasts False by (auto simp: san_char_last split: if_splits)
    then have False
      using eq mixed snoc.prems(1,2) t by (elim disjE) (auto simp: san_char_def)
    then show ?thesis ..
  qed
qed

section \<open>Properties\<close>

text \<open>
  A name is accepted exactly when it has at most 64 characters and is a letter or digit
  followed by letters, digits, underscores, dots and hyphens, except that one newline may
  follow; so an accepted name is a single component below the base it is joined to, and is
  neither a dot component nor holds a NUL.
\<close>
theorem validate_name_accepts:
  "(validate_name name = Inr () \<longleftrightarrow> length name \<le> 64 \<and>
     (\<exists>stem. (name = stem \<or> name = stem @ [LF]) \<and> stem \<noteq> [] \<and> is_alnum (hd stem) \<and>
        (\<forall>c \<in> set stem. is_word c \<or> c = CHR ''.'' \<or> c = CHR ''-''))) \<and>
   (validate_name name = Inr () \<longrightarrow>
     path_div b name = b\<lparr>p_parts := p_parts b @ [name]\<rparr> \<and> name \<noteq> ''..'' \<and> NUL \<notin> set name)"
proof -
  have "path_div b name = b\<lparr>p_parts := p_parts b @ [name]\<rparr> \<and> name \<noteq> ''..'' \<and> NUL \<notin> set name"
    if v: "validate_name name = Inr ()"
  proof -
    from v obtain stem where s: "name = stem \<or> name = stem @ [LF]" "stem \<noteq> []" "is_alnum (hd stem)"
        "\<forall>c \<in> set stem. name_char c"
      by (auto simp: validate_name_iff)
    then obtain c cs where cs: "stem = c # cs" "is_alnum c" by (cases stem) auto
    have plain: "x \<in> set stem \<Longrightarrow> x \<noteq> CHR ''/'' \<and> x \<noteq> NUL" for x using s(4) name_char_plain by blast
    have "CHR ''/'' \<notin> set name" "NUL \<notin> set name"
      using s(1) plain [of "CHR ''/''"] plain [of NUL] by auto
    moreover have "c \<noteq> CHR ''.''"
      using cs(2) by (auto simp: is_alnum_def is_alpha_def is_lower_def is_upper_def is_digit_def cp_def)
    ultimately show ?thesis using path_div_plain [of name b] s(1) cs(1) by auto
  qed
  then show ?thesis by (auto simp: validate_name_iff name_char_def)
qed

theorem validate_name_accepts_witness:
  "validate_name ''web-1'' = Inr () \<and> validate_name (''web-1'' @ [LF]) = Inr () \<and>
   path_div (mk_path ''/var/lib/lxc'') ''web-1'' = mk_path ''/var/lib/lxc/web-1''"
proof -
  have "validate_name ''web-1'' = Inr ()" "validate_name (''web-1'' @ [LF]) = Inr ()" by code_simp+
  moreover have "path_div (mk_path ''/var/lib/lxc'') ''web-1'' =
      (mk_path ''/var/lib/lxc'')\<lparr>p_parts := p_parts (mk_path ''/var/lib/lxc'') @ [''web-1'']\<rparr>"
    using validate_name_accepts [of "''web-1''" "mk_path ''/var/lib/lxc''"] calculation(1) by blast
  moreover have "\<dots> = mk_path ''/var/lib/lxc/web-1''" by code_simp
  ultimately show ?thesis by simp
qed

text \<open>
  Resolving an accepted name without a scope finds it exactly when one of the two
  namespaces holds it and the other does not: the hit is a directory with an image file that
  answers to the name, a directory of that very name is preferred, otherwise the first in
  order; a name both hold is reported as ambiguous and a name neither holds as not found.
\<close>
theorem resolve_any_decides:
  assumes "validate_name name = Inr ()" "listing_ok (lxc_base st)" "listing_ok (vm_base st)"
  shows "case resolve_any st name None of
      Inl e \<Rightarrow> (e = KentoErrorC \<and> holds_name name (lxc_base st) \<and> holds_name name (vm_base st)) \<or>
               (e = InstanceNotFoundErrorC \<and> \<not> holds_name name (lxc_base st) \<and> \<not> holds_name name (vm_base st))
    | Inr ((b, d, fs), mode) \<Rightarrow>
        (\<exists>es. base_of st b = Some es \<and> (d, EDir fs) \<in> set es \<and> answers name (d, EDir fs) \<and>
           (d = name \<or> \<not> direct_hit name es \<and>
              (\<forall>d' fs'. (d', EDir fs') \<in> set es \<and> answers name (d', EDir fs') \<and> d' \<noteq> name \<longrightarrow> d \<le> d'))) \<and>
        \<not> holds_name name (base_of st (if b = LXC_BASE then VM_BASE else LXC_BASE)) \<and>
        mode = read_mode fs (if b = LXC_BASE then ''lxc'' else ''vm'')"
proof -
  note iff = scan_namespace_iff [OF assms(2), of name] scan_namespace_iff [OF assms(3), of name]
  have hit: "\<exists>es. l = Some es \<and> (d, EDir fs) \<in> set es \<and> answers name (d, EDir fs) \<and>
      (d = name \<or> \<not> direct_hit name es \<and>
        (\<forall>d' fs'. (d', EDir fs') \<in> set es \<and> answers name (d', EDir fs') \<and> d' \<noteq> name \<longrightarrow> d \<le> d'))"
    if "scan_namespace name l = Some (d, fs)" for l d fs
    using that scan_namespace_Some [of name "the l" d fs] by (cases l) (simp_all add: scan_namespace_def)
  show ?thesis
  proof (cases "scan_namespace name (lxc_base st)")
    case None
    then show ?thesis using assms(1) iff hit [of "vm_base st"]
      by (cases "scan_namespace name (vm_base st)") (simp_all add: resolve_any_def split: prod.splits)
  next
    case (Some h)
    then show ?thesis using assms(1) iff hit [of "lxc_base st"]
      by (cases "scan_namespace name (vm_base st)") (simp_all add: resolve_any_def split: prod.splits)
  qed
qed

theorem resolve_any_decides_witness:
  "\<exists>fs. resolve_any \<lparr>lxc_base = Some [(''101'', EDir [''kento-name'' \<mapsto> ''web'' @ [LF], ''kento-image'' \<mapsto> ''x''])],
      vm_base = None\<rparr> ''web'' None = Inr ((LXC_BASE, ''101'', fs), ''lxc'')"
proof -
  let ?fs = "[''kento-name'' \<mapsto> ''web'' @ [LF], ''kento-image'' \<mapsto> ''x'']"
  let ?st = "\<lparr>lxc_base = Some [(''101'', EDir ?fs)], vm_base = None\<rparr>"
  have v: "validate_name ''web'' = Inr ()" by code_simp
  have ok: "listing_ok (lxc_base ?st)" "listing_ok (vm_base ?st)" by (simp_all add: listing_ok_def)
  have "file_text (''web'' @ [LF]) = ''web''" by code_simp
  then have h: "holds_name ''web'' (lxc_base ?st)" "\<not> holds_name ''web'' (vm_base ?st)"
    by (simp_all add: holds_name_def recorded_name_def)
  note dec = resolve_any_decides [OF v ok]
  have "\<exists>hit. resolve_any ?st ''web'' None = Inr hit"
    using dec h by (cases "resolve_any ?st ''web'' None") simp_all
  then obtain b d fs mode where r: "resolve_any ?st ''web'' None = Inr ((b, d, fs), mode)"
    by (metis prod.exhaust)
  with dec obtain es where es: "base_of ?st b = Some es" "(d, EDir fs) \<in> set es"
      "mode = read_mode fs (if b = LXC_BASE then ''lxc'' else ''vm'')"
    by auto
  have "b = LXC_BASE" using es(1) by (cases b) simp_all
  with es have "d = ''101''" "fs = ?fs" by auto
  with r es \<open>b = LXC_BASE\<close> show ?thesis by (simp add: read_mode_def)
qed

text \<open>
  The three ways of asking agree: resolution with a scope is resolution in that namespace
  with the mode added, an unscoped resolution that succeeds is the scoped one of the namespace
  it found, and a conflict with the other namespace is reported exactly when resolution there
  succeeds.
\<close>
theorem scoped_resolution_agrees:
  assumes "namespace = ''lxc'' \<or> namespace = ''container'' \<or> namespace = ''vm''"
    "validate_name name = Inr ()"
  shows "(case resolve_in_namespace st name namespace of
       Inl e \<Rightarrow> resolve_any st name (Some namespace) = Inl e
     | Inr (b, d, fs) \<Rightarrow> b = (if namespace = ''vm'' then VM_BASE else LXC_BASE) \<and>
         resolve_any st name (Some namespace) = Inr ((b, d, fs), read_mode fs (if namespace = ''vm'' then ''vm'' else ''lxc''))) \<and>
    (\<forall>b d fs mode. resolve_any st name None = Inr ((b, d, fs), mode) \<longrightarrow>
       resolve_any st name (Some (if b = VM_BASE then ''vm'' else ''lxc'')) = Inr ((b, d, fs), mode)) \<and>
    check_name_conflict st name namespace =
      Inr (\<exists>hit. resolve_in_namespace st name (if namespace = ''vm'' then ''lxc'' else ''vm'') = Inr hit)"
proof -
  have scope: "is_lxc_scope namespace = (namespace \<noteq> ''vm'')" "is_lxc_scope ''lxc''" "\<not> is_lxc_scope ''vm''"
    using assms(1) by (auto simp: is_lxc_scope_def)
  have one: "case resolve_in_namespace st name namespace of
       Inl e \<Rightarrow> resolve_any st name (Some namespace) = Inl e
     | Inr (b, d, fs) \<Rightarrow> b = (if namespace = ''vm'' then VM_BASE else LXC_BASE) \<and>
         resolve_any st name (Some namespace) = Inr ((b, d, fs), read_mode fs (if namespace = ''vm'' then ''vm'' else ''lxc''))"
    using assms(2) scope
    by (cases "namespace = ''vm''") (auto simp: resolve_in_namespace_def resolve_any_def split: option.splits)
  have two: "resolve_any st name (Some (if b = VM_BASE then ''vm'' else ''lxc'')) = Inr ((b, d, fs), mode)"
    if "resolve_any st name None = Inr ((b, d, fs), mode)" for b d fs mode
    using that assms(2) scope(2,3) by (auto simp: resolve_any_def split: option.splits)
  have three: "check_name_conflict st name namespace =
      Inr (\<exists>hit. resolve_in_namespace st name (if namespace = ''vm'' then ''lxc'' else ''vm'') = Inr hit)"
    using assms(2) scope
    by (cases "namespace = ''vm''") (auto simp: check_name_conflict_def resolve_in_namespace_def split: option.splits)
  from one two three show ?thesis by blast
qed

theorem scoped_resolution_agrees_witness:
  "check_name_conflict \<lparr>lxc_base = Some [(''web'', EDir [''kento-image'' \<mapsto> ''x''])], vm_base = None\<rparr>
     ''web'' ''vm'' = Inr True"
proof -
  let ?st = "\<lparr>lxc_base = Some [(''web'', EDir [''kento-image'' \<mapsto> ''x''])], vm_base = None\<rparr>"
  have v: "validate_name ''web'' = Inr ()" by code_simp
  moreover have "resolve_in_namespace ?st ''web'' ''lxc'' = Inr (LXC_BASE, ''web'', [''kento-image'' \<mapsto> ''x''])"
    using v by (simp add: resolve_in_namespace_def is_lxc_scope_def scan_namespace_def)
  ultimately show ?thesis using scoped_resolution_agrees [of "''vm''" "''web''" ?st] by auto
qed

text \<open>
  A generated name is the base name with the least free number: neither namespace given
  to it has a directory of that name or records it, so nothing resolves to it, and every
  smaller number is taken.
\<close>
theorem next_instance_name_free:
  assumes "listing_ok s" "listing_ok t"
  shows "\<exists>n. next_instance_name b s t = b @ ''-'' @ nat_str n \<and>
    scan_namespace (next_instance_name b s t) s = None \<and> scan_namespace (next_instance_name b s t) t = None \<and>
    next_instance_name b s t \<notin> set (used_names s t) \<and>
    (\<forall>m < n. b @ ''-'' @ nat_str m \<in> set (used_names s t))"
proof -
  obtain n where n: "next_name b (used_names s t) = numbered b n" "numbered b n \<notin> set (used_names s t)"
      "\<forall>m. 0 \<le> m \<and> m < n \<longrightarrow> numbered b m \<in> set (used_names s t)"
    using nin.pick_first [of b "used_names s t"] by auto
  then have "scan_namespace (numbered b n) s = None" "scan_namespace (numbered b n) t = None"
    using scan_namespace_iff [OF assms(1)] scan_namespace_iff [OF assms(2)] holds_used by blast+
  with n show ?thesis by (auto simp: next_instance_name_def numbered_def)
qed

theorem next_instance_name_free_witness:
  "\<exists>n. next_instance_name ''debian'' (Some [(''debian-0'', EDir Map.empty)]) None = ''debian-'' @ nat_str n \<and> 0 < n"
proof -
  have "listing_ok (Some [(''debian-0'', EDir Map.empty)])" "listing_ok None" by (simp_all add: listing_ok_def)
  from next_instance_name_free [OF this, of "''debian''"] obtain n where
    n: "next_instance_name ''debian'' (Some [(''debian-0'', EDir Map.empty)]) None = ''debian'' @ ''-'' @ nat_str n"
    "next_instance_name ''debian'' (Some [(''debian-0'', EDir Map.empty)]) None
        \<notin> set (used_names (Some [(''debian-0'', EDir Map.empty)]) None)" by blast
  have "n \<noteq> 0"
  proof
    assume "n = 0"
    moreover have "nat_str 0 = ''0''" by code_simp
    ultimately show False using n by (simp add: used_names_def recorded_name_def)
  qed
  with n show ?thesis by auto
qed

text \<open>
  The sanitised image names can be told apart: on texts without a slash after a hyphen or a
  slash and without a colon after an underscore or a colon the substitution is injective, and
  its image never holds a slash or a colon; outside these texts it collides.
\<close>
theorem sanitize_image_name_injective:
  assumes "separable s" "separable t"
  shows "(sanitize_image_name s = sanitize_image_name t \<longleftrightarrow> s = t) \<and>
    CHR ''/'' \<notin> set (sanitize_image_name s) \<and> CHR '':'' \<notin> set (sanitize_image_name s) \<and>
    sanitize_image_name ''a_:b'' = sanitize_image_name ''a:_b'' \<and>
    sanitize_image_name ''a-/b'' = sanitize_image_name ''a/-b'' \<and>
    sanitize_image_name ''a//b'' = sanitize_image_name ''a-b''"
proof -
  have "CHR ''/'' \<notin> set (sanitize_image_name s)" "CHR '':'' \<notin> set (sanitize_image_name s)"
    by (auto simp: sanitize_chars san_char_def split: if_splits)
  moreover have "sanitize_image_name ''a_:b'' = sanitize_image_name ''a:_b''"
    "sanitize_image_name ''a-/b'' = sanitize_image_name ''a/-b''"
    "sanitize_image_name ''a//b'' = sanitize_image_name ''a-b''" by code_simp+
  ultimately show ?thesis using sanitize_inj [OF assms] by blast
qed

theorem sanitize_image_name_injective_witness:
  "sanitize_image_name ''docker.io/library/debian:12'' = ''docker.io-library-debian_12'' \<and>
   sanitize_image_name ''docker.io/library/debian:12'' \<noteq> sanitize_image_name ''docker.io/library-debian:12''"
proof -
  have a: "separable ''docker.io/library/debian:12''" "separable ''docker.io/library-debian:12''"
    by (simp_all add: separable_def nth_Cons apart_def split: nat.splits)
  have "sanitize_image_name ''docker.io/library/debian:12'' = ''docker.io-library-debian_12''" by code_simp
  with sanitize_image_name_injective [OF a] show ?thesis by simp
qed

text \<open>
  The network chosen for a guest: a bridged choice always names its bridge; it fails exactly
  when a bridge was asked for without a name and none exists; an explicit type is kept; without
  one a plain VM gets user-mode networking, and so does any VM a port is forwarded to.
\<close>
theorem resolve_network_decides:
  "case resolve_network exists nt bridge mode pt of
     Inl e \<Rightarrow> e = ValidationErrorC \<and> nt = Some ''bridge'' \<and> bridge = None \<and> detect_bridge exists = None
   | Inr c \<Rightarrow> (net_type c = ''bridge'' \<longrightarrow> net_bridge c \<noteq> None) \<and> net_port c = pt \<and>
       (case nt of Some ty \<Rightarrow> net_type c = ty
        | None \<Rightarrow> if mode = ''vm'' \<or> (mode = ''pve-vm'' \<and> pt \<noteq> None) then net_type c = ''usermode''
                  else case detect_bridge exists of
                      Some b \<Rightarrow> net_type c = ''bridge'' \<and> net_bridge c = Some b
                    | None \<Rightarrow> net_type c = (if mode = ''pve-vm'' then ''usermode'' else ''none''))"
  by (auto simp: resolve_network_def Let_def split: option.splits)

theorem resolve_network_decides_witness:
  "resolve_network (\<lambda>b. b = ''lxcbr0'') None None ''lxc'' None =
     Inr \<lparr>net_type = ''bridge'', net_bridge = Some ''lxcbr0'', net_port = None\<rparr>"
proof -
  have d: "detect_bridge (\<lambda>b. b = ''lxcbr0'') = Some ''lxcbr0''" by code_simp
  have "\<exists>c. resolve_network (\<lambda>b. b = ''lxcbr0'') None None ''lxc'' None = Inr c"
    by (simp add: resolve_network_def d)
  with resolve_network_decides [where exists = "\<lambda>b. b = ''lxcbr0''" and nt = None and bridge = None
      and mode = "''lxc''" and pt = None] d
  show ?thesis by (auto intro: net_choice.equality)
qed

text \<open>
  The liveness check of a PVE guest errs on the side of running: a guest whose
  configuration is known to be gone is not running, and one whose status query times out or
  fails is taken to run; a guest is taken as stopped only when its configuration is gone, its
  VM id file is missing, or a status query succeeded without reporting it as running.
\<close>
theorem is_running_conservative:
  assumes "mode = ''pve'' \<or> mode = ''pve-vm''"
    "vmid = (if mode = ''pve'' then Some dir else map_option file_text (fs ''kento-vmid''))"
    "tool = (if mode = ''pve'' then ''pct'' else ''qm'')"
  shows "is_running hv dir fs mode = (case vmid of
      None \<Rightarrow> False
    | Some i \<Rightarrow> pve_config_exists hv i mode \<and>
        (case run_status hv [tool, ''status'', i] of
           None \<Rightarrow> True
         | Some (rc, out) \<Rightarrow> rc \<noteq> 0 \<or> py_in ''running'' out))"
  using assms by (auto simp: is_running_def assume_running_def Let_def split: option.splits)

theorem is_running_conservative_witness:
  "is_running \<lparr>node_name = None, conf_files = (\<lambda>_. False), run_status = (\<lambda>_. None), vm_alive = (\<lambda>_. False)\<rparr>
     ''101'' Map.empty ''pve''"
  using is_running_conservative [of "''pve''" "Some ''101''" "''101''" Map.empty "''pct''"
      "\<lparr>node_name = None, conf_files = (\<lambda>_. False), run_status = (\<lambda>_. None), vm_alive = (\<lambda>_. False)\<rparr>"]
  by (simp add: pve_config_exists_def)

end
