(* ===== verification/Pve.thy ===== *)
theory Pve imports Store Network begin

text \<open>
  \<^verbatim>\<open>pve.py\<close>: the allocation of VM ids, the generated configuration of a PVE container and of a
  PVE VM, and the rewriting of the \<^verbatim>\<open>args\<close> line after \<^verbatim>\<open>qm set --memory\<close>.  From \<^verbatim>\<open>vm.py\<close>, the
  boot sources and the user-mode forwards the VM configuration is built from.  An instance
  directory is its path and the map of its files; what PVE lists is an argument.
\<close>

section \<open>VM ids\<close>

text \<open>
  PVE's view: the keys of \<^verbatim>\<open>.vmlist\<close> (no file, a file that is not JSON, or its keys) and the
  stems of the configuration files of the two directories.
\<close>

record pve_view =
  vmlist :: "string list option option"
  lxc_stems :: "string list"
  qemu_stems :: "string list"

definition int_keys :: "string list \<Rightarrow> int list option" where
  "int_keys ks = (if \<forall>k \<in> set ks. py_int k \<noteq> None then Some (map (\<lambda>k. the (py_int k)) ks) else None)"

definition valid_ints :: "string list \<Rightarrow> int list" where
  "valid_ints xs = List.map_filter py_int xs"

definition pve_view_vmids :: "pve_view \<Rightarrow> int list" where
  "pve_view_vmids v =
     (let fallback = valid_ints (lxc_stems v @ qemu_stems v)
      in case vmlist v of
           Some (Some ks) \<Rightarrow> (case int_keys ks of Some ids \<Rightarrow> ids | None \<Rightarrow> fallback)
         | _ \<Rightarrow> fallback)"

fun dir_names :: "listing \<Rightarrow> string list" where
  "dir_names [] = []"
| "dir_names ((d, EFile) # es) = dir_names es"
| "dir_names ((d, EDir fs) # es) = d # dir_names es"

fun vmid_files :: "listing \<Rightarrow> string list" where
  "vmid_files [] = []"
| "vmid_files ((d, EFile) # es) = vmid_files es"
| "vmid_files ((d, EDir fs) # es) =
     (case fs ''kento-vmid'' of Some t \<Rightarrow> file_text t # vmid_files es | None \<Rightarrow> vmid_files es)"

definition kento_recorded_vmids :: "store \<Rightarrow> int list" where
  "kento_recorded_vmids st =
     (case lxc_base st of None \<Rightarrow> [] | Some es \<Rightarrow> valid_ints (dir_names es)) @
     (case vm_base st of None \<Rightarrow> [] | Some es \<Rightarrow> valid_ints (vmid_files es))"

definition used_vmids :: "pve_view \<Rightarrow> store \<Rightarrow> int list" where
  "used_vmids v st = pve_view_vmids v @ kento_recorded_vmids st"

function vmid_from :: "int \<Rightarrow> int list \<Rightarrow> int" where
  "vmid_from vmid used = (if vmid \<in> set used then vmid_from (vmid + 1) used else vmid)"
  by pat_completeness auto
termination
proof (relation "measure (\<lambda>(vmid, used). card {m \<in> set used. vmid \<le> m})")
  fix vmid :: int and used :: "int list"
  assume "vmid \<in> set used"
  then have "vmid \<in> {m \<in> set used. vmid \<le> m} - {m \<in> set used. vmid + 1 \<le> m}" by simp
  moreover have "{m \<in> set used. vmid + 1 \<le> m} \<subseteq> {m \<in> set used. vmid \<le> m}" by auto
  ultimately have "{m \<in> set used. vmid + 1 \<le> m} \<subset> {m \<in> set used. vmid \<le> m}" by blast
  then have "card {m \<in> set used. vmid + 1 \<le> m} < card {m \<in> set used. vmid \<le> m}"
    by (intro psubset_card_mono) auto
  then show "((vmid + 1, used), (vmid, used)) \<in> measure (\<lambda>(vmid, used). card {m \<in> set used. vmid \<le> m})"
    by simp
qed simp

declare vmid_from.simps [simp del]

definition next_vmid :: "pve_view \<Rightarrow> store \<Rightarrow> int" where
  "next_vmid v st = vmid_from 100 (used_vmids v st)"

definition validate_vmid :: "pve_view \<Rightarrow> store \<Rightarrow> int \<Rightarrow> exc + unit" where
  "validate_vmid v st vmid =
     (if vmid < 100 then Inl ValidationErrorC
      else if vmid \<in> set (used_vmids v st) then Inl ValidationErrorC
      else Inr ())"

section \<open>The configuration of a PVE container\<close>

definition LXC_TTY :: int where "LXC_TTY = 2"
definition LXC_MOUNT_AUTO :: string where "LXC_MOUNT_AUTO = ''proc:mixed sys:mixed cgroup:mixed''"
definition LXC_MOUNT_AUTO_NESTING :: string where "LXC_MOUNT_AUTO_NESTING = ''proc:rw sys:rw cgroup:rw''"
definition APPARMOR_SYSTEMD_RULES :: "string list" where
  "APPARMOR_SYSTEMD_RULES = [''userns,'', ''mount,'', ''umount,'', ''pivot_root,'', ''mqueue,'']"
definition PVE_LXC_UNLIMITED_MEMORY_MB :: int where "PVE_LXC_UNLIMITED_MEMORY_MB = 17592186044415"

definition pve_arch :: "string \<Rightarrow> string" where
  "pve_arch m = (case map_of [(''x86_64'', ''amd64''), (''aarch64'', ''arm64''), (''i686'', ''i386''),
                              (''i386'', ''i386'')] m of Some a \<Rightarrow> a | None \<Rightarrow> m)"

definition read_lines :: "string \<Rightarrow> string list" where
  "read_lines t = py_splitlines (univ_newlines t)"

definition read_passthrough_lines :: "string option \<Rightarrow> string list" where
  "read_passthrough_lines file = (case file of None \<Rightarrow> []
     | Some t \<Rightarrow> filter (\<lambda>l. l \<noteq> []) (map (rstrip_char CR) (read_lines t)))"

record pve_opts =
  o_bridge :: "string option"
  o_net_type :: "string option"
  o_nesting :: bool
  o_ip :: "string option"
  o_gateway :: "string option"
  o_nameserver :: "string option"
  o_searchdomain :: "string option"
  o_timezone :: "string option"
  o_env :: "string list"
  o_port :: "string option"
  o_memory :: "int option"
  o_cores :: "int option"
  o_hookscript :: "string option"
  o_unprivileged :: bool

definition net0_line :: "pve_opts \<Rightarrow> string" where
  "net0_line p = ''net0: name=eth0,bridge='' @ the (o_bridge p) @
     (if truthy (o_ip p) then '',ip='' @ the (o_ip p) else []) @
     (if truthy (o_gateway p) then '',gw='' @ the (o_gateway p) else []) @ '',type=veth''"

definition net_lines :: "pve_opts \<Rightarrow> string list" where
  "net_lines p =
     (if o_net_type p = Some ''bridge'' \<and> truthy (o_bridge p) then [net0_line p]
      else if o_net_type p = Some ''host'' then [''lxc.net.0.type: none'']
      else if truthy (o_bridge p) then [net0_line p]
      else [])"

definition opt_line :: "string \<Rightarrow> string option \<Rightarrow> string list" where
  "opt_line key v = (if truthy v then [key @ '': '' @ the v] else [])"

definition nesting_lines :: "string list" where
  "nesting_lines = [''features: nesting=1'',
     ''lxc.mount.entry: proc dev/.lxc/proc proc create=dir,optional 0 0'',
     ''lxc.mount.entry: sys dev/.lxc/sys sysfs create=dir,optional 0 0'',
     ''lxc.mount.entry: /dev/fuse dev/fuse none bind,create=file,optional 0 0'',
     ''lxc.mount.entry: /dev/net/tun dev/net/tun none bind,create=file,optional 0 0'']"

definition hook_lines :: "string \<Rightarrow> pve_opts \<Rightarrow> string list" where
  "hook_lines hook p =
     (let needs_hooks = (o_port p \<noteq> None \<or> o_memory p \<noteq> None \<or> o_cores p \<noteq> None)
      in (if o_unprivileged p then [''lxc.hook.pre-start: '' @ hook] else [''lxc.hook.pre-mount: '' @ hook]) @
         (case o_hookscript p of
            Some ref \<Rightarrow> [''hookscript: '' @ ref]
          | None \<Rightarrow> if needs_hooks
              then [''lxc.hook.start-host: '' @ hook, ''lxc.hook.post-stop: '' @ hook] else []) @
         (if o_unprivileged p \<and> \<not> (o_hookscript p = None \<and> needs_hooks)
          then [''lxc.hook.post-stop: '' @ hook] else []))"

definition memory_lines :: "int option \<Rightarrow> string list" where
  "memory_lines mem = (case mem of
     Some m \<Rightarrow> [''memory: '' @ int_str m, ''lxc.cgroup2.memory.max: '' @ int_str (m * 1048576)]
   | None \<Rightarrow> [''memory: '' @ int_str PVE_LXC_UNLIMITED_MEMORY_MB])"

definition cores_lines :: "int option \<Rightarrow> string list" where
  "cores_lines cs = (case cs of
     Some n \<Rightarrow> [''cores: '' @ int_str n, ''cpulimit: '' @ int_str n,
               ''lxc.cgroup2.cpu.max: '' @ int_str (n * 100000) @ '' 100000'']
   | None \<Rightarrow> [])"

definition pve_own_lines :: "string \<Rightarrow> string \<Rightarrow> ppath \<Rightarrow> pve_opts \<Rightarrow> string list" where
  "pve_own_lines machine name cdir p =
     [''arch: '' @ pve_arch machine, ''ostype: unmanaged'', ''hostname: '' @ name,
      ''rootfs: '' @ path_str cdir @ ''/rootfs''] @
     (if o_unprivileged p then [''unprivileged: 1''] else []) @
     net_lines p @
     opt_line ''nameserver'' (o_nameserver p) @
     opt_line ''searchdomain'' (o_searchdomain p) @
     opt_line ''timezone'' (o_timezone p) @
     (if o_nesting p then nesting_lines else []) @
     hook_lines (path_str (path_div cdir ''kento-hook'')) p @
     [''lxc.mount.auto: '' @ (if o_nesting p then LXC_MOUNT_AUTO_NESTING else LXC_MOUNT_AUTO)] @
     (if o_nesting p then []
      else ''lxc.apparmor.profile: generated'' # map (\<lambda>r. ''lxc.apparmor.raw: '' @ r) APPARMOR_SYSTEMD_RULES) @
     [''lxc.tty.max: '' @ int_str LXC_TTY] @
     map (\<lambda>e. ''lxc.environment: '' @ e) (o_env p) @
     memory_lines (o_memory p) @ cores_lines (o_cores p)"

definition generate_pve_config ::
  "string \<Rightarrow> string \<Rightarrow> ppath \<Rightarrow> files \<Rightarrow> pve_opts \<Rightarrow> string" where
  "generate_pve_config machine name cdir fs p =
     py_join [LF] (pve_own_lines machine name cdir p @ read_passthrough_lines (fs ''kento-pve-args'')) @ [LF]"

section \<open>The configuration of a PVE VM\<close>

definition resolve_boot_sources :: "files \<Rightarrow> ppath \<Rightarrow> ppath \<times> ppath" where
  "resolve_boot_sources fs rootfs =
     ((case fs ''kento-kernel'' of Some t \<Rightarrow> mk_path (file_text t)
       | None \<Rightarrow> path_div (path_div rootfs ''boot'') ''vmlinuz''),
      (case fs ''kento-initramfs'' of Some t \<Rightarrow> mk_path (file_text t)
       | None \<Rightarrow> path_div (path_div rootfs ''boot'') ''initramfs.img''))"

definition hostfwd_fragment :: "string \<Rightarrow> exc + string" where
  "hostfwd_fragment spec = bindE (parse_forward_spec spec) (\<lambda>((prot, _, hport), (_, gport)).
     Inr (proto_value prot @ '':127.0.0.1:'' @ int_str hport @ ''-:'' @ int_str gport))"

definition read_hostfwds :: "files \<Rightarrow> exc + string list" where
  "read_hostfwds fs = (case fs ''kento-port'' of None \<Rightarrow> Inr []
     | Some t \<Rightarrow> mapE hostfwd_fragment (filter (\<lambda>s. s \<noteq> []) (map py_strip (read_lines t))))"

fun qemu_passthrough :: "string list \<Rightarrow> exc + string list" where
  "qemu_passthrough [] = Inr []"
| "qemu_passthrough (l # ls) =
     (if l = [] then qemu_passthrough ls
      else if \<exists>c \<in> set l. py_isspace c then Inl ValidationErrorC
      else bindE (qemu_passthrough ls) (\<lambda>r. Inr (l # r)))"

definition cpu_parts :: "files \<Rightarrow> bool \<Rightarrow> string list" where
  "cpu_parts fs kvm =
     (let nesting_on = (case fs ''kento-nesting'' of None \<Rightarrow> False | Some t \<Rightarrow> file_text t = ''1'')
      in if kvm then [''-enable-kvm'', ''-cpu '' @ (if nesting_on then ''host'' else ''host,vmx=off,svm=off'')]
         else [])"

definition usermode_parts :: "files \<Rightarrow> string list \<Rightarrow> string list" where
  "usermode_parts fs hostfwds =
     (if hostfwds = [] then []
      else let mac = (case fs ''kento-mac'' of None \<Rightarrow> [] | Some t \<Rightarrow> file_text t)
           in [''-netdev user,id=net0,'' @ py_join '','' (map (\<lambda>hf. ''hostfwd='' @ hf) hostfwds),
               ''-device virtio-net-pci,netdev=net0'' @ (if mac \<noteq> [] then '',mac='' @ mac else [])])"

definition generate_qm_args :: "ppath \<Rightarrow> files \<Rightarrow> int \<Rightarrow> bool \<Rightarrow> exc + string" where
  "generate_qm_args cdir fs mem kvm =
     (let rootfs = path_div cdir ''rootfs''; (kernel, initramfs) = resolve_boot_sources fs rootfs
      in bindE (read_hostfwds fs) (\<lambda>hostfwds.
         bindE (case fs ''kento-qemu-args'' of None \<Rightarrow> Inr [] | Some t \<Rightarrow> qemu_passthrough (read_lines t)) (\<lambda>extra.
         Inr (py_join '' ''
           (cpu_parts fs kvm @
            [''-kernel '' @ path_str kernel, ''-initrd '' @ path_str initramfs,
             ''-append '' @ [CHR 0x22] @ ''console=ttyS0 rootfstype=virtiofs root=rootfs'' @ [CHR 0x22],
             ''-nographic'',
             ''-chardev socket,id=vfs,path='' @ path_str (path_div cdir ''virtiofsd.sock''),
             ''-device vhost-user-fs-pci,chardev=vfs,tag=rootfs'',
             ''-object memory-backend-memfd,id=mem,size='' @ int_str mem @ ''M,share=on'',
             ''-numa node,memdev=mem''] @
            usermode_parts fs hostfwds @ extra)))))"

record qm_opts =
  q_hookscript :: string
  q_memory :: int
  q_cores :: int
  q_machine :: string
  q_bridge :: "string option"
  q_net_type :: "string option"
  q_kvm :: bool
  q_mac :: "string option"

definition qm_own_lines :: "string \<Rightarrow> string \<Rightarrow> qm_opts \<Rightarrow> string list" where
  "qm_own_lines name qargs q =
     [''name: '' @ name, ''ostype: l26'', ''machine: '' @ q_machine q, ''memory: '' @ int_str (q_memory q),
      ''cores: '' @ int_str (q_cores q), ''hookscript: '' @ q_hookscript q, ''serial0: socket'',
      ''args: '' @ qargs] @
     (if q_net_type q = Some ''bridge'' \<and> truthy (q_bridge q)
      then (if truthy (q_mac q) then [''net0: virtio='' @ the (q_mac q) @ '',bridge='' @ the (q_bridge q)]
            else [''net0: virtio,bridge='' @ the (q_bridge q)])
      else [])"

definition generate_qm_config :: "string \<Rightarrow> ppath \<Rightarrow> files \<Rightarrow> qm_opts \<Rightarrow> exc + string" where
  "generate_qm_config name cdir fs q =
     bindE (generate_qm_args cdir fs (q_memory q) (q_kvm q)) (\<lambda>qargs.
       Inr (py_join [LF] (qm_own_lines name qargs q @ read_passthrough_lines (fs ''kento-pve-args'')) @ [LF]))"

section \<open>Keeping the args line in step with the memory\<close>

definition section_header :: "string \<Rightarrow> bool" where
  "section_header s \<longleftrightarrow> s \<noteq> [] \<and> hd s = CHR ''['' \<and> last s = CHR '']''"

fun parse_field_from :: "string \<Rightarrow> string option \<Rightarrow> string list \<Rightarrow> string option" where
  "parse_field_from field val [] = val"
| "parse_field_from field val (raw # ls) =
     (let stripped = py_lstrip (py_rstrip raw)
      in if section_header stripped then val
         else if stripped = [] \<or> hd stripped = CHR ''#'' then parse_field_from field val ls
         else if CHR '':'' \<notin> set stripped then parse_field_from field val ls
         else let (key, _, v) = py_partition (CHR '':'') stripped
              in if py_strip key = field then parse_field_from field (Some (py_strip v)) ls
                 else parse_field_from field val ls)"

definition parse_qm_conf_field :: "string \<Rightarrow> string \<Rightarrow> string option" where
  "parse_qm_conf_field content field = parse_field_from field None (py_splitlines content)"

text \<open>
  The loop over the lines: whether the new line was put, and whether the global section still
  runs.  The insertion when no \<^verbatim>\<open>args\<close> line appeared is at the first section header, or at
  the end.
\<close>

fun rewrite_from :: "string \<Rightarrow> bool \<Rightarrow> string list \<Rightarrow> string list" where
  "rewrite_from new replaced [] = (if replaced then [] else [new])"
| "rewrite_from new replaced (raw # ls) =
     (if section_header (py_strip raw) then (if replaced then raw # ls else new # raw # ls)
      else if prefix ''args:'' raw then (if replaced then rewrite_from new True ls else new # rewrite_from new True ls)
      else raw # rewrite_from new replaced ls)"

definition rewrite_args :: "string \<Rightarrow> string \<Rightarrow> string" where
  "rewrite_args new content =
     (let out = py_join [LF] (rewrite_from new False (py_splitlines content))
      in if (content \<noteq> [] \<and> last content = LF) \<and> \<not> (out \<noteq> [] \<and> last out = LF) then out @ [LF] else out)"

definition coerce_int :: "string option \<Rightarrow> int option" where
  "coerce_int v = (case v of None \<Rightarrow> None | Some s \<Rightarrow> py_int s)"

text \<open>
  The result of the synchronisation: the pair returned, the configuration file and the files
  of the instance.
\<close>

definition sync_qm_args_to_memory ::
  "string option \<Rightarrow> ppath \<Rightarrow> files \<Rightarrow> bool \<Rightarrow> exc + ((int option \<times> int option) \<times> string option \<times> files)" where
  "sync_qm_args_to_memory conf cdir fs kvm =
     (case conf of None \<Rightarrow> Inr ((None, None), None, fs)
      | Some raw_content \<Rightarrow>
         (let content = univ_newlines raw_content;
              memory_raw = parse_qm_conf_field content ''memory'';
              cores = coerce_int (parse_qm_conf_field content ''cores'')
          in case memory_raw of None \<Rightarrow> Inr ((None, cores), conf, fs)
             | Some m \<Rightarrow> (case py_int m of None \<Rightarrow> Inr ((None, cores), conf, fs)
                | Some mem \<Rightarrow> bindE (generate_qm_args cdir fs mem kvm) (\<lambda>qargs.
                    let fs1 = fs(''kento-memory'' \<mapsto> int_str mem @ [LF]);
                        fs2 = (case cores of None \<Rightarrow> fs1 | Some c \<Rightarrow> fs1(''kento-cores'' \<mapsto> int_str c @ [LF]))
                    in Inr ((Some mem, cores), Some (rewrite_args (''args: '' @ qargs) content), fs2)))))"

section \<open>VM ids: lemmas\<close>

lemma vmid_from_first:
  "\<exists>n\<ge>100. vmid_from 100 used = int n \<and> int n \<notin> set used \<and>
     (\<forall>m. 100 \<le> m \<and> m < n \<longrightarrow> int m \<in> set used)"
proof -
  have "vmid_from (int n) used = (if int n \<notin> set used then int n else vmid_from (int (Suc n)) used)" for n
    by (subst vmid_from.simps) (simp add: add.commute)
  from search_first [of int "\<lambda>n. vmid_from (int n) used" used, OF _ this, of 100]
  show ?thesis by (simp add: inj_on_def)
qed

interpretation vmids: first_free int 100 "vmid_from 100"
  by unfold_locales (simp, rule vmid_from_first)

lemma valid_ints_iff: "n \<in> set (valid_ints xs) \<longleftrightarrow> (\<exists>x \<in> set xs. py_int x = Some n)"
  by (auto simp: valid_ints_def List.map_filter_def image_iff)

lemma dir_names_iff: "d \<in> set (dir_names es) \<longleftrightarrow> (\<exists>fs. (d, EDir fs) \<in> set es)"
  by (induction es rule: dir_names.induct) auto

lemma vmid_files_in: "(d, EDir fs) \<in> set es \<Longrightarrow> fs ''kento-vmid'' = Some u \<Longrightarrow> file_text u \<in> set (vmid_files es)"
  by (induction es rule: vmid_files.induct) (auto split: option.splits)

lemma recorded_reserved:
  "lxc_base st = Some es \<Longrightarrow> (d, EDir fs) \<in> set es \<Longrightarrow> py_int d = Some n \<Longrightarrow> n \<in> set (used_vmids v st)"
  "vm_base st = Some es \<Longrightarrow> (d, EDir fs) \<in> set es \<Longrightarrow> fs ''kento-vmid'' = Some t \<Longrightarrow>
     py_int (file_text t) = Some n \<Longrightarrow> n \<in> set (used_vmids v st)"
  using dir_names_iff [of d es] vmid_files_in [of d fs es t]
  by (fastforce simp: used_vmids_def kento_recorded_vmids_def valid_ints_iff)+

section \<open>The args line: lemmas\<close>

definition global_part :: "string list \<Rightarrow> string list" where
  "global_part ls = takeWhile (\<lambda>l. \<not> section_header (py_strip l)) ls"

definition sections :: "string list \<Rightarrow> string list" where
  "sections ls = dropWhile (\<lambda>l. \<not> section_header (py_strip l)) ls"

definition args_line :: "string \<Rightarrow> string" where "args_line q = ''args: '' @ q"

lemma strip_cons: "\<not> py_isspace c \<Longrightarrow> \<exists>u. py_strip (c # s) = c # u"
proof -
  assume c: "\<not> py_isspace c"
  then have "py_strip (c # s) = py_rstrip (c # s)" by (simp add: py_strip_def py_lstrip_def)
  with c show ?thesis by (simp add: py_rstrip_def dropWhile_append3)
qed

lemma prefix_args: "prefix ''args:'' l \<Longrightarrow> \<exists>u. l = CHR ''a'' # CHR ''r'' # CHR ''g'' # CHR ''s'' # CHR '':'' # u"
  by (auto simp: prefix_def)

lemma args_not_header: "prefix ''args:'' l \<Longrightarrow> \<not> section_header (py_strip l)"
proof -
  assume "prefix ''args:'' l"
  then obtain u where "l = CHR ''a'' # u" by (auto simp: prefix_def)
  moreover have "\<not> py_isspace (CHR ''a'')" by (simp add: py_isspace_def cp_def)
  ultimately obtain v where "py_strip l = CHR ''a'' # v" using strip_cons by blast
  then show ?thesis by (simp add: section_header_def)
qed

lemma args_line_prefix [simp]: "prefix ''args:'' (args_line q)"
  by (simp add: args_line_def)

lemma args_line_not_header [simp]: "\<not> section_header (py_strip (args_line q))"
  by (rule args_not_header) simp

text \<open>What the loop makes of the lines.\<close>

lemma rewrite_from_parts:
  "filter (\<lambda>l. \<not> prefix ''args:'' l) (global_part (rewrite_from (args_line q) r ls)) =
      filter (\<lambda>l. \<not> prefix ''args:'' l) (global_part ls) \<and>
   filter (prefix ''args:'') (global_part (rewrite_from (args_line q) r ls)) = (if r then [] else [args_line q]) \<and>
   sections (rewrite_from (args_line q) r ls) = sections ls"
proof (induction ls arbitrary: r)
  case Nil
  then show ?case by (simp add: global_part_def sections_def)
next
  case (Cons l ls)
  show ?case
  proof (cases "section_header (py_strip l)")
    case True
    then show ?thesis by (simp add: global_part_def sections_def)
  next
    case False
    with Cons [of True] Cons [of r] show ?thesis
      by (auto simp: global_part_def sections_def)
  qed
qed

lemma rewrite_from_done: "filter (prefix ''args:'') (global_part ls) = [] \<Longrightarrow>
    rewrite_from new True ls = ls"
  by (induction ls) (auto simp: global_part_def split: if_splits)

lemma rewrite_from_idem: "filter (prefix ''args:'') (global_part ls) = [args_line q] \<Longrightarrow>
    rewrite_from (args_line q) False ls = ls"
proof (induction ls)
  case Nil
  then show ?case by (simp add: global_part_def)
next
  case (Cons l ls)
  then have nh: "\<not> section_header (py_strip l)" by (auto simp: global_part_def split: if_splits)
  show ?case
  proof (cases "prefix ''args:'' l")
    case True
    with Cons.prems nh have "l = args_line q" "filter (prefix ''args:'') (global_part ls) = []"
      by (auto simp: global_part_def)
    with nh True show ?thesis by (simp add: rewrite_from_done)
  next
    case False
    with Cons nh show ?thesis by (simp add: global_part_def)
  qed
qed

lemma rewrite_from_nonempty: "rewrite_from new False ls \<noteq> []"
  by (induction ls) auto

lemma rewrite_from_set: "l \<in> set (rewrite_from new r ls) \<Longrightarrow> l = new \<or> l \<in> set ls"
  by (induction new r ls rule: rewrite_from.induct) (auto split: if_splits)

section \<open>Fields of the configuration: lemmas\<close>

lemma strip_lr: "py_lstrip (py_rstrip s) = py_strip s"
proof -
  have "py_lstrip (py_rstrip s) = py_rstrip (py_lstrip s)" for s
  proof (induction s)
    case Nil
    then show ?case by (simp add: strip_defs)
  next
    case (Cons c s)
    show ?case
    proof (cases "py_isspace c")
      case False
      then have "\<exists>u. py_rstrip (c # s) = c # u"
        using strip_cons [of c s] by (simp add: py_strip_def py_lstrip_def)
      with False show ?thesis by (auto simp: py_lstrip_def)
    next
      case True
      show ?thesis
      proof (cases "\<forall>x \<in> set s. py_isspace x")
        case True
        have all: "\<forall>x \<in> set (rev s @ [c]). py_isspace x" using True \<open>py_isspace c\<close> by auto
        then have "dropWhile py_isspace (rev s @ [c]) = []" unfolding dropWhile_eq_Nil_conv .
        moreover have "dropWhile py_isspace s = []" using True unfolding dropWhile_eq_Nil_conv .
        ultimately have "py_rstrip (c # s) = []" "py_lstrip (c # s) = []"
          unfolding py_rstrip_def py_lstrip_def using \<open>py_isspace c\<close> by simp_all
        then show ?thesis by (simp only:) (simp add: strip_defs)
      next
        case False
        then have "py_rstrip (c # s) = c # py_rstrip s"
          by (simp add: py_rstrip_def dropWhile_append)
        with Cons True show ?thesis by (simp add: py_lstrip_def)
      qed
    qed
  qed
  then show ?thesis by (simp add: py_strip_def)
qed

lemma field_append: "\<not> (\<exists>l \<in> set ls. section_header (py_strip l)) \<Longrightarrow>
    parse_field_from f v (ls @ ms) = parse_field_from f (parse_field_from f v ls) ms"
  by (induction f v ls rule: parse_field_from.induct) (auto simp: strip_lr Let_def split: prod.splits if_splits)

lemma field_skip: "\<not> section_header (py_strip l) \<Longrightarrow>
    (\<And>v'. parse_field_from f v' [l] = v') \<Longrightarrow> parse_field_from f v (l # ls) = parse_field_from f v ls"
  using field_append [of "[l]" f v ls] by simp

text \<open>A line of a key without spaces and colons sets the field of that key.\<close>

definition field_key :: "string \<Rightarrow> bool" where
  "field_key k \<longleftrightarrow> k \<noteq> [] \<and> (\<forall>c \<in> set k. \<not> py_isspace c \<and> c \<noteq> CHR '':'') \<and>
     hd k \<noteq> CHR ''['' \<and> hd k \<noteq> CHR ''#''"

lemma rstrip_idem: "py_rstrip (py_rstrip s) = py_rstrip s"
  by (simp add: py_rstrip_def)

lemma strip_rstrip: "py_strip (py_rstrip s) = py_strip s"
  by (metis rstrip_idem strip_lr)

lemma strip_key_line: "field_key k \<Longrightarrow> py_strip (k @ CHR '':'' # u) = k @ CHR '':'' # py_rstrip u"
proof -
  assume k: "field_key k"
  then have "py_lstrip (k @ CHR '':'' # u) = k @ CHR '':'' # u"
    by (cases k) (auto simp: field_key_def py_lstrip_def)
  moreover have "\<not> py_isspace (CHR '':'')" by (simp add: py_isspace_def cp_def)
  ultimately show ?thesis by (simp add: py_strip_def py_rstrip_def dropWhile_append3)
qed

lemma key_line_not_header: "field_key k \<Longrightarrow> \<not> section_header (py_strip (k @ CHR '':'' # u))"
  using strip_key_line [of k u] by (simp add: section_header_def field_key_def)

lemma field_line:
  assumes "field_key k"
  shows "parse_field_from f v ((k @ CHR '':'' # u) # ls) =
    parse_field_from f (if k = f then Some (py_strip u) else v) ls"
proof -
  have "py_strip k = k" using assms
    by (intro py_strip_id) (auto simp: field_key_def stripped_def)
  moreover have "CHR '':'' \<notin> set k" "hd (k @ CHR '':'' # py_rstrip u) \<noteq> CHR ''#''"
    using assms by (auto simp: field_key_def)
  moreover have "\<not> section_header (k @ CHR '':'' # py_rstrip u)"
    using key_line_not_header [OF assms, of u] strip_key_line [OF assms, of u] by simp
  ultimately show ?thesis
    by (simp add: strip_lr strip_key_line [OF assms] strip_rstrip)
qed

lemma args_key: "field_key ''args''"
  by (simp add: field_key_def py_isspace_def cp_def)

lemma field_args: "prefix ''args:'' l \<Longrightarrow> f \<noteq> ''args'' \<Longrightarrow> parse_field_from f v (l # ls) = parse_field_from f v ls"
proof -
  assume "prefix ''args:'' l" "f \<noteq> ''args''"
  then obtain u where "l = ''args'' @ CHR '':'' # u" by (auto simp: prefix_def)
  with field_line [OF args_key, of f v u ls] \<open>f \<noteq> ''args''\<close> show ?thesis by simp
qed

lemma field_rewrite:
  assumes "f \<noteq> ''args''"
  shows "parse_field_from f v (rewrite_from (args_line q) r ls) = parse_field_from f v ls"
proof (induction ls arbitrary: r v)
  case Nil
  then show ?case using field_args [OF args_line_prefix assms] by simp
next
  case (Cons l ls)
  show ?case
  proof (cases "section_header (py_strip l)")
    case True
    then show ?thesis using field_args [OF args_line_prefix assms] by simp
  next
    case False
    show ?thesis
    proof (cases "prefix ''args:'' l")
      case True
      with False Cons field_args [OF args_line_prefix assms] field_args [OF True assms] show ?thesis by simp
    next
      case nargs: False
      with False Cons show ?thesis by (simp add: Let_def strip_lr split: prod.splits)
    qed
  qed
qed

lemma field_blank: "parse_field_from f v (ls @ [[]]) = parse_field_from f v ls"
  by (induction f v ls rule: parse_field_from.induct) (auto simp: Let_def strip_defs section_header_def split: prod.splits)

definition drop_blank :: "string list \<Rightarrow> string list" where
  "drop_blank ls = (if ls \<noteq> [] \<and> last ls = [] then butlast ls else ls)"

lemma field_drop_blank: "parse_field_from f v (drop_blank ls) = parse_field_from f v ls"
proof (cases "ls \<noteq> [] \<and> last ls = []")
  case True
  then have "ls = butlast ls @ [[]]" using append_butlast_last_id [of ls] by simp
  then show ?thesis using True field_blank [of f v "butlast ls"] by (simp add: drop_blank_def)
qed (auto simp: drop_blank_def)

section \<open>The rewritten text: lemmas\<close>

lemma rewrite_lines:
  assumes "no_breaks q"
  shows "\<And>l. l \<in> set (rewrite_from (args_line q) False (py_splitlines content)) \<Longrightarrow> no_breaks l"
  using assms rewrite_from_set splitlines_no_breaks by (fastforce simp: args_line_def py_linebreak_def cp_def)

lemma args_in_rewrite: "args_line q \<in> set (rewrite_from (args_line q) False ls)"
  by (induction ls) auto

lemma rewrite_args_text:
  fixes content q :: string
  assumes "no_breaks q"
  defines "out \<equiv> rewrite_from (args_line q) False (py_splitlines content)"
  shows "py_splitlines (rewrite_args (args_line q) content) = drop_blank out"
    "CR \<notin> set (rewrite_args (args_line q) content)"
    "last out = [] \<or> content \<noteq> [] \<and> last content = LF \<Longrightarrow>
       rewrite_args (args_line q) content = py_join [LF] (drop_blank out) @ [LF]"
    "last out \<noteq> [] \<Longrightarrow> \<not> (content \<noteq> [] \<and> last content = LF) \<Longrightarrow>
       rewrite_args (args_line q) content = py_join [LF] out"
proof -
  have nb: "l \<in> set out \<Longrightarrow> no_breaks l" for l using rewrite_lines [OF assms(1)] by (simp add: out_def)
  have ne: "out \<noteq> []" "out \<noteq> [[]]"
    using args_in_rewrite [of q "py_splitlines content"] by (auto simp: out_def args_line_def)
  have len: "last out = [] \<Longrightarrow> length out > 1" using ne by (cases out; cases "tl out") auto
  have ends: "(py_join [LF] out \<noteq> [] \<and> last (py_join [LF] out) = LF) \<longleftrightarrow> last out = []"
    using join_last_LF [OF ne(1) nb] len by blast
  have r: "rewrite_args (args_line q) content =
      (if (content \<noteq> [] \<and> last content = LF) \<and> last out \<noteq> [] then py_join [LF] out @ [LF] else py_join [LF] out)"
    unfolding rewrite_args_def Let_def out_def [symmetric] using ends by auto
  show "py_splitlines (rewrite_args (args_line q) content) = drop_blank out"
    unfolding r using splitlines_join [OF nb ne(1)] ne(1) by (simp add: drop_blank_def)
  have "c \<in> set (py_join [LF] out) \<Longrightarrow> c = LF \<or> \<not> py_linebreak c" for c
    using set_py_join [of "[LF]" out] nb by (auto simp: no_breaks_def)
  from this [of CR] show "CR \<notin> set (rewrite_args (args_line q) content)" unfolding r by auto
  have trim: "py_join [LF] out = py_join [LF] (butlast out) @ [LF]" if b: "last out = []"
  proof -
    have "length (butlast out) > 0" using len [OF b] by simp
    then have "butlast out \<noteq> []" by blast
    from join_LF [OF this] show ?thesis using b by (simp add: join_unlines [OF ne(1)])
  qed
  show "last out = [] \<or> content \<noteq> [] \<and> last content = LF \<Longrightarrow>
       rewrite_args (args_line q) content = py_join [LF] (drop_blank out) @ [LF]"
    unfolding r using trim ne(1) by (auto simp: drop_blank_def)
  show "last out \<noteq> [] \<Longrightarrow> \<not> (content \<noteq> [] \<and> last content = LF) \<Longrightarrow>
       rewrite_args (args_line q) content = py_join [LF] out"
    unfolding r by auto
qed

lemma rewrite_args_field:
  assumes "no_breaks q" "f \<noteq> ''args''"
  shows "parse_qm_conf_field (rewrite_args (args_line q) content) f = parse_qm_conf_field content f"
  unfolding parse_qm_conf_field_def rewrite_args_text(1) [OF assms(1)] field_drop_blank
    field_rewrite [OF assms(2)] ..

lemma global_drop_blank: "filter (prefix ''args:'') (global_part (drop_blank ls)) = filter (prefix ''args:'') (global_part ls)"
proof (cases "ls \<noteq> [] \<and> last ls = []")
  case True
  then obtain ms where ms: "ls = ms @ [[]]" using append_butlast_last_id [of ls] by metis
  have "filter (prefix ''args:'') (global_part (ms @ [[]])) = filter (prefix ''args:'') (global_part ms)"
    by (induction ms) (simp_all add: global_part_def)
  then show ?thesis by (simp add: ms drop_blank_def)
qed (auto simp: drop_blank_def)

section \<open>Properties\<close>

text \<open>
  The VM id handed out is the least free one from 100 on, it passes the validation, and it
  is reserved against every directory of the container base with an integer name and every VM
  id recorded by a VM instance, whether or not PVE still lists them.
\<close>
theorem next_vmid_free:
  "let n = next_vmid v st in
     100 \<le> n \<and> validate_vmid v st n = Inr () \<and> n \<notin> set (pve_view_vmids v) \<and>
     (\<forall>m. 100 \<le> m \<and> m < n \<longrightarrow> validate_vmid v st m = Inl ValidationErrorC) \<and>
     (\<forall>es d fs. lxc_base st = Some es \<and> (d, EDir fs) \<in> set es \<longrightarrow> py_int d \<noteq> Some n) \<and>
     (\<forall>es d fs t. vm_base st = Some es \<and> (d, EDir fs) \<in> set es \<and> fs ''kento-vmid'' = Some t \<longrightarrow>
        py_int (file_text t) \<noteq> Some n)"
proof -
  obtain k where k: "100 \<le> k" "next_vmid v st = int k" "int k \<notin> set (used_vmids v st)"
      "\<forall>m. 100 \<le> m \<and> m < k \<longrightarrow> int m \<in> set (used_vmids v st)"
    using vmids.pick_first [of "used_vmids v st"] by (auto simp: next_vmid_def)
  have "m \<in> set (used_vmids v st)" if "100 \<le> m" "m < int k" for m
    using that k(4) [rule_format, of "nat m"] by (auto simp: le_nat_iff nat_less_iff)
  moreover have "int k \<notin> set (pve_view_vmids v)" using k(3) by (simp add: used_vmids_def)
  moreover have "py_int d \<noteq> Some (int k)" if "lxc_base st = Some es" "(d, EDir fs) \<in> set es" for es d fs
    using recorded_reserved(1) [OF that] k(3) by metis
  moreover have "py_int (file_text t) \<noteq> Some (int k)"
    if "vm_base st = Some es" "(d, EDir fs) \<in> set es" "fs ''kento-vmid'' = Some t" for es d fs t
    using recorded_reserved(2) [OF that] k(3) by metis
  ultimately show ?thesis
    unfolding Let_def k(2) using k(1,3) by (intro conjI allI impI) (auto simp: validate_vmid_def)
qed

theorem next_vmid_free_witness:
  "let st = \<lparr>lxc_base = Some [(''100'', EDir Map.empty)], vm_base = None\<rparr>;
       v = \<lparr>vmlist = None, lxc_stems = [], qemu_stems = []\<rparr>
   in 100 < next_vmid v st \<and> validate_vmid v st (next_vmid v st) = Inr ()"
proof -
  let ?st = "\<lparr>lxc_base = Some [(''100'', EDir Map.empty)], vm_base = None\<rparr>"
  let ?v = "\<lparr>vmlist = None, lxc_stems = [], qemu_stems = []\<rparr>"
  have "py_int ''100'' = Some 100" by code_simp
  with next_vmid_free [of ?v ?st] show ?thesis by (auto simp: Let_def order_less_le)
qed

text \<open>
  The hooks of a PVE container: exactly one of the pre-start and pre-mount hooks is set,
  the former for an unprivileged container; the post-stop hook is never set twice, and is
  always set for an unprivileged one; a hookscript replaces the start-host hook.
\<close>
theorem hook_lines_once:
  "let hs = hook_lines hook p in
     (''lxc.hook.pre-start: '' @ hook \<in> set hs) = o_unprivileged p \<and>
     (''lxc.hook.pre-mount: '' @ hook \<in> set hs) = (\<not> o_unprivileged p) \<and>
     length (filter (\<lambda>l. l = ''lxc.hook.post-stop: '' @ hook) hs) \<le> 1 \<and>
     (o_unprivileged p \<longrightarrow> ''lxc.hook.post-stop: '' @ hook \<in> set hs) \<and>
     (''lxc.hook.start-host: '' @ hook \<in> set hs \<longleftrightarrow>
        o_hookscript p = None \<and> (o_port p \<noteq> None \<or> o_memory p \<noteq> None \<or> o_cores p \<noteq> None)) \<and>
     distinct hs"
  by (auto simp: hook_lines_def Let_def split: option.splits)

theorem hook_lines_once_witness:
  "''lxc.hook.post-stop: /h'' \<in> set (hook_lines ''/h'' \<lparr>o_bridge = None, o_net_type = None, o_nesting = False,
     o_ip = None, o_gateway = None, o_nameserver = None, o_searchdomain = None, o_timezone = None, o_env = [],
     o_port = None, o_memory = None, o_cores = None, o_hookscript = None, o_unprivileged = True\<rparr>)"
  using hook_lines_once [of "''/h''" "\<lparr>o_bridge = None, o_net_type = None, o_nesting = False,
     o_ip = None, o_gateway = None, o_nameserver = None, o_searchdomain = None, o_timezone = None, o_env = [],
     o_port = None, o_memory = None, o_cores = None, o_hookscript = None, o_unprivileged = True\<rparr>"]
  by (simp add: Let_def)

lemma sync_Some:
  assumes "sync_qm_args_to_memory (Some raw) cdir fs kvm = Inr ((Some mem, c), conf, fs')"
  obtains q m where "parse_qm_conf_field (univ_newlines raw) ''memory'' = Some m" "py_int m = Some mem"
    "c = coerce_int (parse_qm_conf_field (univ_newlines raw) ''cores'')"
    "generate_qm_args cdir fs mem kvm = Inr q"
    "conf = Some (rewrite_args (args_line q) (univ_newlines raw))"
    "fs' = (case c of None \<Rightarrow> fs(''kento-memory'' \<mapsto> int_str mem @ [LF])
            | Some n \<Rightarrow> fs(''kento-memory'' \<mapsto> int_str mem @ [LF], ''kento-cores'' \<mapsto> int_str n @ [LF]))"
  using assms by (auto simp: sync_qm_args_to_memory_def Let_def args_line_def split: option.splits)

definition metadata_key :: "string \<Rightarrow> bool" where
  "metadata_key k \<longleftrightarrow> k = ''kento-memory'' \<or> k = ''kento-cores''"

lemma metadata_apart:
  assumes "metadata_key k"
  shows "(fs(k \<mapsto> a)) ''kento-port'' = fs ''kento-port''" "(fs(k \<mapsto> a)) ''kento-kernel'' = fs ''kento-kernel''"
    "(fs(k \<mapsto> a)) ''kento-initramfs'' = fs ''kento-initramfs''"
    "(fs(k \<mapsto> a)) ''kento-nesting'' = fs ''kento-nesting''" "(fs(k \<mapsto> a)) ''kento-mac'' = fs ''kento-mac''"
    "(fs(k \<mapsto> a)) ''kento-qemu-args'' = fs ''kento-qemu-args''"
  using assms by (auto simp: metadata_key_def)

lemma parts_ignore_metadata:
  assumes "metadata_key k"
  shows "read_hostfwds (fs(k \<mapsto> a)) = read_hostfwds fs"
    "resolve_boot_sources (fs(k \<mapsto> a)) r = resolve_boot_sources fs r"
    "cpu_parts (fs(k \<mapsto> a)) kvm = cpu_parts fs kvm" "usermode_parts (fs(k \<mapsto> a)) h = usermode_parts fs h"
  unfolding read_hostfwds_def resolve_boot_sources_def cpu_parts_def usermode_parts_def
    metadata_apart [OF assms] by (rule refl)+

lemma args_ignore_metadata:
  assumes "metadata_key k"
  shows "generate_qm_args cdir (fs(k \<mapsto> a)) mem kvm = generate_qm_args cdir fs mem kvm"
  unfolding generate_qm_args_def parts_ignore_metadata [OF assms] metadata_apart [OF assms] ..

text \<open>
  C1. The synchronisation follows the \<^verbatim>\<open>memory\<close> field of the file and touches nothing but the args line of
  the global section.  It returns the number read from that field, and the one of the \<^verbatim>\<open>cores\<close> field where it
  has one; up to one blank line at the end of the file, the other global lines and all snapshot sections
  stay as they are, the global section ends up with the one args line generated for that memory, every
  other field reads as before, and the metadata files record that memory and those cores.
\<close>
theorem sync_rewrites_only_args:
  assumes "sync_qm_args_to_memory (Some raw) cdir fs kvm = Inr ((Some mem, c), Some conf, fs')"
    "\<And>q. generate_qm_args cdir fs mem kvm = Inr q \<Longrightarrow> no_breaks q"
  shows "(\<exists>m. parse_qm_conf_field (univ_newlines raw) ''memory'' = Some m \<and> py_int m = Some mem) \<and>
    c = (case parse_qm_conf_field (univ_newlines raw) ''cores'' of None \<Rightarrow> None | Some n \<Rightarrow> py_int n) \<and>
    (\<exists>q out. generate_qm_args cdir fs mem kvm = Inr q \<and> py_splitlines conf = drop_blank out \<and>
      filter (\<lambda>l. \<not> prefix ''args:'' l) (global_part out) =
        filter (\<lambda>l. \<not> prefix ''args:'' l) (global_part (py_splitlines (univ_newlines raw))) \<and>
      filter (prefix ''args:'') (global_part out) = [''args: '' @ q] \<and>
      sections out = sections (py_splitlines (univ_newlines raw))) \<and>
    (\<forall>f. f \<noteq> ''args'' \<longrightarrow> parse_qm_conf_field conf f = parse_qm_conf_field (univ_newlines raw) f) \<and>
    fs' ''kento-memory'' = Some (int_str mem @ [LF]) \<and>
    fs' ''kento-cores'' = (case c of None \<Rightarrow> fs ''kento-cores'' | Some n \<Rightarrow> Some (int_str n @ [LF])) \<and>
    (\<forall>f. f \<noteq> ''kento-memory'' \<longrightarrow> f \<noteq> ''kento-cores'' \<longrightarrow> fs' f = fs f)"
proof -
  from assms(1) obtain q m where m: "parse_qm_conf_field (univ_newlines raw) ''memory'' = Some m" "py_int m = Some mem"
    and c: "c = coerce_int (parse_qm_conf_field (univ_newlines raw) ''cores'')"
    and q: "generate_qm_args cdir fs mem kvm = Inr q"
    and conf: "conf = rewrite_args (args_line q) (univ_newlines raw)"
    and fs': "fs' = (case c of None \<Rightarrow> fs(''kento-memory'' \<mapsto> int_str mem @ [LF])
            | Some n \<Rightarrow> fs(''kento-memory'' \<mapsto> int_str mem @ [LF], ''kento-cores'' \<mapsto> int_str n @ [LF]))"
    by (rule sync_Some) blast
  note nb = assms(2) [OF q]
  let ?out = "rewrite_from (args_line q) False (py_splitlines (univ_newlines raw))"
  have "fs' ''kento-memory'' = Some (int_str mem @ [LF])"
    "fs' ''kento-cores'' = (case c of None \<Rightarrow> fs ''kento-cores'' | Some n \<Rightarrow> Some (int_str n @ [LF]))"
    "\<forall>f. f \<noteq> ''kento-memory'' \<longrightarrow> f \<noteq> ''kento-cores'' \<longrightarrow> fs' f = fs f"
    unfolding fs' by (cases c; simp)+
  moreover have "py_splitlines conf = drop_blank ?out" "\<forall>f. f \<noteq> ''args'' \<longrightarrow> parse_qm_conf_field conf f = parse_qm_conf_field (univ_newlines raw) f"
    using rewrite_args_text(1) [OF nb, of "univ_newlines raw"] rewrite_args_field [OF nb] by (simp_all add: conf)
  ultimately show ?thesis
    using m c q rewrite_from_parts [of q False "py_splitlines (univ_newlines raw)"]
    unfolding args_line_def [symmetric] coerce_int_def
    by (intro conjI exI [of _ q] exI [of _ ?out] exI [of _ m]) simp_all
qed

text \<open>
  The synchronisation is idempotent, as long as the file it wrote does not end in a blank
  line: run again on what it wrote it returns the same pair and changes neither the
  configuration nor the metadata.
\<close>
theorem sync_idempotent:
  assumes "sync_qm_args_to_memory (Some raw) cdir fs kvm = Inr ((Some mem, c), Some conf, fs')"
    "\<And>q. generate_qm_args cdir fs mem kvm = Inr q \<Longrightarrow> no_breaks q"
    "last (py_splitlines conf) \<noteq> []"
  shows "sync_qm_args_to_memory (Some conf) cdir fs' kvm = Inr ((Some mem, c), Some conf, fs')"
proof -
  from assms(1) obtain q m where m: "parse_qm_conf_field (univ_newlines raw) ''memory'' = Some m" "py_int m = Some mem"
    and c: "c = coerce_int (parse_qm_conf_field (univ_newlines raw) ''cores'')"
    and q: "generate_qm_args cdir fs mem kvm = Inr q"
    and conf: "conf = rewrite_args (args_line q) (univ_newlines raw)"
    and fs': "fs' = (case c of None \<Rightarrow> fs(''kento-memory'' \<mapsto> int_str mem @ [LF])
            | Some n \<Rightarrow> fs(''kento-memory'' \<mapsto> int_str mem @ [LF], ''kento-cores'' \<mapsto> int_str n @ [LF]))"
    by (rule sync_Some) blast
  note nb = assms(2) [OF q] and written = rewrite_args_text [OF assms(2) [OF q], of "univ_newlines raw"]
  have un: "univ_newlines conf = conf" using written(2) conf univ_newlines_id by simp
  define L where "L = rewrite_from (args_line q) False (py_splitlines (univ_newlines raw))"
  have lines: "py_splitlines conf = drop_blank L" using written(1) conf by (simp add: L_def)
  have one: "filter (prefix ''args:'') (global_part L) = [args_line q]"
    using rewrite_from_parts [of q False] by (simp add: L_def)
  have same: "rewrite_from (args_line q) False (drop_blank L) = drop_blank L"
    by (rule rewrite_from_idem) (use global_drop_blank [of L] one in simp)
  note text2 = rewrite_args_text [OF nb, of conf, unfolded lines same]
  have last: "last (drop_blank L) \<noteq> []" using assms(3) lines by simp
  then have dd: "drop_blank (drop_blank L) = drop_blank L" by (simp add: drop_blank_def)
  have "rewrite_args (args_line q) conf = conf"
  proof (cases "last L = [] \<or> univ_newlines raw \<noteq> [] \<and> last (univ_newlines raw) = LF")
    case True
    then have cf: "conf = py_join [LF] (drop_blank L) @ [LF]" using written(3) conf by (simp add: L_def)
    then show ?thesis using text2(3) dd by simp
  next
    case False
    then have cf: "conf = py_join [LF] L" "drop_blank L = L" using written(4) conf by (auto simp: L_def drop_blank_def)
    have "l \<in> set L \<Longrightarrow> no_breaks l" for l using rewrite_lines [OF nb] by (simp add: L_def)
    moreover have "L \<noteq> []" by (simp add: L_def rewrite_from_nonempty)
    ultimately have "\<not> (conf \<noteq> [] \<and> last conf = LF)" using join_last_LF [of L] cf last by auto
    then show ?thesis using text2(4) last cf by simp
  qed
  moreover have "parse_qm_conf_field conf f = parse_qm_conf_field (univ_newlines raw) f" if "f \<noteq> ''args''" for f
    using rewrite_args_field [OF nb that] conf by simp
  moreover have "generate_qm_args cdir fs' mem kvm = Inr q"
    using q unfolding fs' by (cases c) (simp_all add: args_ignore_metadata metadata_key_def)
  moreover from calculation(2) m c have "parse_qm_conf_field conf ''memory'' = Some m"
    "coerce_int (parse_qm_conf_field conf ''cores'') = c" by simp_all
  moreover have "(case c of None \<Rightarrow> fs'(''kento-memory'' \<mapsto> int_str mem @ [LF])
      | Some n \<Rightarrow> fs'(''kento-memory'' \<mapsto> int_str mem @ [LF], ''kento-cores'' \<mapsto> int_str n @ [LF])) = fs'"
    unfolding fs' by (cases c) (simp_all add: fun_eq_iff)
  ultimately show ?thesis
    unfolding sync_qm_args_to_memory_def args_line_def [symmetric] by (simp add: un m(2) Let_def)
qed

text \<open>A concrete configuration with a stale args line and a snapshot.\<close>

definition sample_conf :: string where
  "sample_conf = unlines [''memory: 8'', ''args: old'', [], ''[s]'', ''args: kept'']"

definition sample_args :: string where
  "sample_args = (case generate_qm_args \<lparr>p_root = ''/'', p_parts = [''d'']\<rparr> Map.empty 8 False of
     Inr q \<Rightarrow> q | Inl _ \<Rightarrow> [])"

lemma sample_args: "generate_qm_args \<lparr>p_root = ''/'', p_parts = [''d'']\<rparr> Map.empty 8 False = Inr sample_args"
  by code_simp

lemma sample_args_no_breaks: "no_breaks sample_args"
  by code_simp

lemma sample_sync:
  "sync_qm_args_to_memory (Some sample_conf) \<lparr>p_root = ''/'', p_parts = [''d'']\<rparr> Map.empty False =
     Inr ((Some 8, None), Some (unlines [''memory: 8'', args_line sample_args, [], ''[s]'', ''args: kept'']),
          [''kento-memory'' \<mapsto> int_str 8 @ [LF]])"
proof -
  have nocr: "univ_newlines sample_conf = sample_conf" by code_simp
  have f: "parse_qm_conf_field sample_conf ''memory'' = Some ''8''" "parse_qm_conf_field sample_conf ''cores'' = None"
    "py_int ''8'' = Some 8" by code_simp+
  have "py_splitlines sample_conf = [''memory: 8'', ''args: old'', [], ''[s]'', ''args: kept'']"
    "section_header (py_strip ''memory: 8'') = False" "section_header (py_strip ''args: old'') = False"
    "section_header (py_strip []) = False" "section_header (py_strip ''[s]'') = True" by code_simp+
  then have out: "rewrite_from (args_line sample_args) False (py_splitlines sample_conf) =
      [''memory: 8'', args_line sample_args, [], ''[s]'', ''args: kept'']" by simp
  have "sample_conf \<noteq> [] \<and> last sample_conf = LF" by code_simp
  then have "rewrite_args (args_line sample_args) sample_conf =
      unlines [''memory: 8'', args_line sample_args, [], ''[s]'', ''args: kept'']"
    using rewrite_args_text(3) [OF sample_args_no_breaks, of sample_conf] join_LF
    unfolding out by (simp add: drop_blank_def)
  then show ?thesis
    unfolding sync_qm_args_to_memory_def args_line_def [symmetric]
    by (simp add: nocr f sample_args Let_def coerce_int_def)
qed

theorem sync_rewrites_only_args_witness:
  "\<exists>q out. generate_qm_args \<lparr>p_root = ''/'', p_parts = [''d'']\<rparr> Map.empty 8 False = Inr q \<and>
     filter (prefix ''args:'') (global_part out) = [''args: '' @ q] \<and>
     sections out = sections (py_splitlines (univ_newlines sample_conf)) \<and>
     (\<exists>m. parse_qm_conf_field (univ_newlines sample_conf) ''memory'' = Some m \<and> py_int m = Some 8)"
proof -
  have nb: "\<And>q. generate_qm_args \<lparr>p_root = ''/'', p_parts = [''d'']\<rparr> Map.empty 8 False = Inr q \<Longrightarrow> no_breaks q"
    using sample_args sample_args_no_breaks by simp
  note r = sync_rewrites_only_args [OF sample_sync, THEN conjunct2, THEN conjunct2, THEN conjunct1]
  obtain q out where "generate_qm_args \<lparr>p_root = ''/'', p_parts = [''d'']\<rparr> Map.empty 8 False = Inr q"
    "filter (prefix ''args:'') (global_part out) = [''args: '' @ q]"
    "sections out = sections (py_splitlines (univ_newlines sample_conf))"
    using r [OF nb] by blast
  moreover have "\<exists>m. parse_qm_conf_field (univ_newlines sample_conf) ''memory'' = Some m \<and> py_int m = Some 8"
    by (rule sync_rewrites_only_args [OF sample_sync, THEN conjunct1]) (rule nb)
  ultimately show ?thesis by blast
qed

theorem sync_idempotent_witness:
  "\<exists>conf fs'. sync_qm_args_to_memory (Some sample_conf) \<lparr>p_root = ''/'', p_parts = [''d'']\<rparr> Map.empty False =
       Inr ((Some 8, None), Some conf, fs') \<and>
     sync_qm_args_to_memory (Some conf) \<lparr>p_root = ''/'', p_parts = [''d'']\<rparr> fs' False =
       Inr ((Some 8, None), Some conf, fs')"
proof -
  have nb: "\<And>q. generate_qm_args \<lparr>p_root = ''/'', p_parts = [''d'']\<rparr> Map.empty 8 False = Inr q \<Longrightarrow> no_breaks q"
    using sample_args sample_args_no_breaks by simp
  have "no_breaks ''memory: 8''" "no_breaks ''[s]''" "no_breaks ''args: kept''" by code_simp+
  moreover have "no_breaks (args_line sample_args)"
    using sample_args_no_breaks by (simp add: args_line_def py_linebreak_def cp_def)
  ultimately have "py_splitlines (unlines [''memory: 8'', args_line sample_args, [], ''[s]'', ''args: kept'']) =
      [''memory: 8'', args_line sample_args, [], ''[s]'', ''args: kept'']"
    by (intro splitlines_unlines) (auto simp del: no_breaks_simps(2) simp: no_breaks_simps(1))
  then have "last (py_splitlines (unlines [''memory: 8'', args_line sample_args, [], ''[s]'', ''args: kept''])) \<noteq> []"
    by simp
  from sync_idempotent [OF sample_sync nb this] sample_sync show ?thesis by blast
qed

section \<open>Configurations made of key and value lines\<close>

fun kv_line :: "string \<times> string \<Rightarrow> string" where
  "kv_line (k, v) = k @ CHR '':'' # CHR '' '' # v"

lemma prefix_args_iff: "field_key k \<Longrightarrow> prefix ''args:'' (k @ CHR '':'' # u) \<longleftrightarrow> k = ''args''"
proof
  assume k: "field_key k" and "prefix ''args:'' (k @ CHR '':'' # u)"
  then obtain v where v: "k @ CHR '':'' # u = ''args'' @ CHR '':'' # v" by (auto simp: prefix_def)
  have "CHR '':'' \<notin> set k" "CHR '':'' \<notin> set ''args''" using k by (auto simp: field_key_def)
  with v show "k = ''args''" by (metis py_partition_at prod.inject)
qed simp

lemma kv_field:
  "(\<And>k. k \<in> set (map fst kvs) \<Longrightarrow> field_key k) \<Longrightarrow>
     parse_field_from f v (map kv_line kvs) =
       (case map_of (rev kvs) f of None \<Rightarrow> v | Some x \<Rightarrow> Some (py_strip (CHR '' '' # x)))"
proof (induction kvs arbitrary: v)
  case Nil
  then show ?case by simp
next
  case (Cons kv kvs)
  obtain k x where kv: "kv = (k, x)" by (cases kv)
  with Cons.prems have "field_key k" by simp
  from field_line [OF this, of f v "CHR '' '' # x" "map kv_line kvs"] Cons kv
  show ?case by (simp add: map_add_def split: option.splits)
qed

lemma kv_global:
  "(\<And>k. k \<in> set (map fst kvs) \<Longrightarrow> field_key k) \<Longrightarrow>
     global_part (map kv_line kvs) = map kv_line kvs \<and>
     filter (prefix ''args:'') (map kv_line kvs) = map kv_line (filter (\<lambda>(k, x). k = ''args'') kvs)"
proof (induction kvs)
  case Nil
  then show ?case by (simp add: global_part_def)
next
  case (Cons kv kvs)
  obtain k x where kv: "kv = (k, x)" by (cases kv)
  with Cons.prems have "field_key k" by simp
  with key_line_not_header [OF this, of "CHR '' '' # x"] prefix_args_iff [OF this, of "CHR '' '' # x"] Cons kv
  show ?case by (simp add: global_part_def)
qed

lemma kv_text:
  assumes "kvs \<noteq> []" "\<And>k x. (k, x) \<in> set kvs \<Longrightarrow> field_key k \<and> no_breaks x"
  shows "py_splitlines (py_join [LF] (map kv_line kvs) @ [LF]) = map kv_line kvs"
    "univ_newlines (py_join [LF] (map kv_line kvs) @ [LF]) = py_join [LF] (map kv_line kvs) @ [LF]"
proof -
  have nb: "no_breaks l" if "l \<in> set (map kv_line kvs)" for l
  proof -
    from that obtain k x where kx: "(k, x) \<in> set kvs" "l = k @ CHR '':'' # CHR '' '' # x" by auto
    have "no_breaks k" using assms(2) [OF kx(1)] linebreak_isspace by (auto simp: field_key_def no_breaks_def)
    with kx assms(2) [OF kx(1)] show ?thesis by (simp add: py_linebreak_def cp_def)
  qed
  show "py_splitlines (py_join [LF] (map kv_line kvs) @ [LF]) = map kv_line kvs"
    by (rule splitlines_join(2)) (use nb assms(1) in auto)
  have "c = LF \<or> \<not> py_linebreak c" if "c \<in> set (py_join [LF] (map kv_line kvs) @ [LF])" for c
    using that set_py_join [of "[LF]" "map kv_line kvs"] nb by (auto simp: no_breaks_def)
  from this [of CR] have "CR \<notin> set (py_join [LF] (map kv_line kvs) @ [LF])" by auto
  then show "univ_newlines (py_join [LF] (map kv_line kvs) @ [LF]) = py_join [LF] (map kv_line kvs) @ [LF]"
    by (rule univ_newlines_id)
qed

lemma int_text:
  assumes "0 \<le> n" "n < 10 ^ 18"
  shows "no_breaks (int_str n)" "py_int (int_str n) = Some n" "py_strip (CHR '' '' # int_str n) = int_str n"
proof -
  have s: "int_str n = nat_str (nat n)" using assms by (simp add: int_str_def)
  have "nat n < 10 ^ 18" using assms by (simp add: nat_less_iff)
  then have "length (nat_str (nat n)) \<le> 18" by (rule nat_str_length_le) simp
  then have "length (nat_str (nat n)) \<le> INT_MAX_DIGITS" by (simp add: INT_MAX_DIGITS_def)
  then show "py_int (int_str n) = Some n" using s assms by simp
  show "no_breaks (int_str n)" unfolding s no_breaks_def
    using nat_str_digits is_digit_not_space linebreak_isspace by blast
  show "py_strip (CHR '' '' # int_str n) = int_str n"
    unfolding s using py_strip_id [OF stripped_nat_str [of "nat n"]]
    by (simp add: py_strip_def py_lstrip_def py_isspace_def cp_def)
qed

definition qm_fields :: "string \<Rightarrow> string \<Rightarrow> qm_opts \<Rightarrow> (string \<times> string) list" where
  "qm_fields name a q =
     [(''name'', name), (''ostype'', ''l26''), (''machine'', q_machine q), (''memory'', int_str (q_memory q)),
      (''cores'', int_str (q_cores q)), (''hookscript'', q_hookscript q), (''serial0'', ''socket''), (''args'', a)] @
     (if q_net_type q = Some ''bridge'' \<and> truthy (q_bridge q)
      then [(''net0'', (if truthy (q_mac q) then ''virtio='' @ the (q_mac q) else ''virtio'') @ '',bridge='' @ the (q_bridge q))]
      else [])"

lemma qm_own_fields: "qm_own_lines name a q = map kv_line (qm_fields name a q)"
  by (simp add: qm_own_lines_def qm_fields_def)

lemma qm_field_keys: "(k, x) \<in> set (qm_fields name a q) \<Longrightarrow> field_key k"
  by (auto simp: qm_fields_def field_key_def py_isspace_def cp_def split: if_splits)

text \<open>
  A configuration just generated is in step: the synchronisation finds the memory and cores
  it was generated with, leaves the text as it is, and only writes the two metadata files.
\<close>
theorem generated_config_in_step:
  assumes "generate_qm_config name cdir fs q = Inr conf" "fs ''kento-pve-args'' = None"
    "no_breaks name" "no_breaks (q_machine q)" "no_breaks (q_hookscript q)"
    "\<And>s. q_bridge q = Some s \<Longrightarrow> no_breaks s" "\<And>s. q_mac q = Some s \<Longrightarrow> no_breaks s"
    "\<And>a. generate_qm_args cdir fs (q_memory q) (q_kvm q) = Inr a \<Longrightarrow> no_breaks a"
    "0 \<le> q_memory q" "q_memory q < 10 ^ 18" "0 \<le> q_cores q" "q_cores q < 10 ^ 18"
  shows "sync_qm_args_to_memory (Some conf) cdir fs (q_kvm q) =
    Inr ((Some (q_memory q), Some (q_cores q)), Some conf,
         fs(''kento-memory'' \<mapsto> int_str (q_memory q) @ [LF], ''kento-cores'' \<mapsto> int_str (q_cores q) @ [LF]))"
proof -
  from assms(1,2) obtain a where a: "generate_qm_args cdir fs (q_memory q) (q_kvm q) = Inr a"
    and conf: "conf = py_join [LF] (map kv_line (qm_fields name a q)) @ [LF]"
    by (auto simp: generate_qm_config_def read_passthrough_lines_def qm_own_fields)
  note mem = int_text [OF assms(9,10)] and cor = int_text [OF assms(11,12)] and nba = assms(8) [OF a]
  have ne: "qm_fields name a q \<noteq> []" by (simp add: qm_fields_def)
  have net: "truthy v \<Longrightarrow> (\<And>s. v = Some s \<Longrightarrow> no_breaks s) \<Longrightarrow> no_breaks (the v)" for v
    by (cases v) auto
  have "(k, x) \<in> set (qm_fields name a q) \<Longrightarrow> no_breaks x" for k x
    using assms(3-5) nba mem(1) cor(1) net [OF _ assms(6)] net [OF _ assms(7)]
    by (auto simp: qm_fields_def py_linebreak_def cp_def split: if_splits)
  then have kv: "(k, x) \<in> set (qm_fields name a q) \<Longrightarrow> field_key k \<and> no_breaks x" for k x
    using qm_field_keys by blast
  have lines: "py_splitlines conf = map kv_line (qm_fields name a q)"
    unfolding conf by (rule kv_text(1) [OF ne kv])
  have un: "univ_newlines conf = conf" unfolding conf by (rule kv_text(2) [OF ne kv])
  have keys: "k \<in> set (map fst (qm_fields name a q)) \<Longrightarrow> field_key k" for k
    using qm_field_keys by (metis imageE list.set_map prod.collapse)
  have field: "parse_qm_conf_field conf f =
      (case map_of (rev (qm_fields name a q)) f of None \<Rightarrow> None | Some x \<Rightarrow> Some (py_strip (CHR '' '' # x)))" for f
    unfolding parse_qm_conf_field_def lines by (rule kv_field) (rule keys)
  have fields: "parse_qm_conf_field conf ''memory'' = Some (int_str (q_memory q))"
      "parse_qm_conf_field conf ''cores'' = Some (int_str (q_cores q))"
    unfolding field using mem(3) cor(3) by (simp_all add: qm_fields_def)
  have glob: "global_part (map kv_line (qm_fields name a q)) = map kv_line (qm_fields name a q)"
    "filter (prefix ''args:'') (map kv_line (qm_fields name a q)) =
       map kv_line (filter (\<lambda>(k, x). k = ''args'') (qm_fields name a q))"
    using kv_global [of "qm_fields name a q"] keys by blast+
  have "filter (\<lambda>(k, x). k = ''args'') (qm_fields name a q) = [(''args'', a)]" by (simp add: qm_fields_def)
  then have "filter (prefix ''args:'') (global_part (py_splitlines conf)) = [args_line a]"
    unfolding lines glob by (simp add: args_line_def)
  then have out: "rewrite_from (args_line a) False (py_splitlines conf) = map kv_line (qm_fields name a q)"
    using rewrite_from_idem lines by metis
  have "last (map kv_line (qm_fields name a q)) \<noteq> []" using ne
    by (metis (no_types, opaque_lifting) Nil_is_append_conv Nil_is_map_conv kv_line.elims last_map list.distinct(1))
  moreover have "conf \<noteq> [] \<and> last conf = LF" by (simp add: conf)
  ultimately have "rewrite_args (args_line a) conf = conf"
    using rewrite_args_text(3) [OF nba, of conf] unfolding out by (simp add: drop_blank_def conf)
  then show ?thesis
    unfolding sync_qm_args_to_memory_def args_line_def [symmetric]
    using mem(2) cor(2) a by (simp add: un fields coerce_int_def Let_def)
qed

theorem generated_config_in_step_witness:
  "\<exists>conf. generate_qm_config ''web'' \<lparr>p_root = ''/'', p_parts = [''d'']\<rparr> Map.empty
      \<lparr>q_hookscript = ''local:h'', q_memory = 8, q_cores = 2, q_machine = ''q35'', q_bridge = Some ''vmbr0'',
       q_net_type = Some ''bridge'', q_kvm = False, q_mac = None\<rparr> = Inr conf \<and>
    sync_qm_args_to_memory (Some conf) \<lparr>p_root = ''/'', p_parts = [''d'']\<rparr> Map.empty False =
      Inr ((Some 8, Some 2), Some conf, [''kento-memory'' \<mapsto> int_str 8 @ [LF], ''kento-cores'' \<mapsto> int_str 2 @ [LF]])"
proof -
  let ?q = "\<lparr>q_hookscript = ''local:h'', q_memory = 8, q_cores = 2, q_machine = ''q35'', q_bridge = Some ''vmbr0'',
       q_net_type = Some ''bridge'', q_kvm = False, q_mac = None\<rparr>"
  let ?d = "\<lparr>p_root = ''/'', p_parts = [''d'']\<rparr>"
  obtain conf where conf: "generate_qm_config ''web'' ?d Map.empty ?q = Inr conf"
    using sample_args by (auto simp: generate_qm_config_def)
  have nb: "no_breaks ''web''" "no_breaks ''q35''" "no_breaks ''local:h''" "no_breaks ''vmbr0''" by code_simp+
  have "sync_qm_args_to_memory (Some conf) ?d Map.empty (q_kvm ?q) =
      Inr ((Some (q_memory ?q), Some (q_cores ?q)), Some conf,
         Map.empty(''kento-memory'' \<mapsto> int_str (q_memory ?q) @ [LF], ''kento-cores'' \<mapsto> int_str (q_cores ?q) @ [LF]))"
    by (rule generated_config_in_step [OF conf]) (use nb sample_args sample_args_no_breaks in auto)
  with conf show ?thesis by simp
qed

end
