(* ===== verification/Create.thy ===== *)
theory Create imports Pve begin

text \<open>
  \<^verbatim>\<open>create.py\<close>: the validation of the pass-through arguments, the environment and the port
  specs, the native configuration of a plain container, the allocation made under the lock, the
  metadata files in the order they are written, the configuration written last, and the
  rollback.  The directory store is that of \<^verbatim>\<open>Store\<close>; the host's capacity, the port
  allocator and the snippets reference are arguments.
\<close>

section \<open>Validation\<close>

definition QEMU_ARG_DENYLIST :: "string list" where
  "QEMU_ARG_DENYLIST = [''-kernel'', ''-initrd'', ''virtiofs'', ''rootfs'', ''memory-backend-memfd'',
     ''memfd-size'', ''-chardev'', ''-serial'']"
definition PVE_ARG_DENYLIST :: "string list" where
  "PVE_ARG_DENYLIST = [''rootfs:'', ''mp0:'', ''lxc.rootfs.path'', ''arch:'', ''hostname:'']"
definition LXC_ARG_DENYLIST :: "string list" where
  "LXC_ARG_DENYLIST = [''lxc.uts.name'', ''lxc.rootfs.path'', ''lxc.hook.'', ''lxc.net.'', ''lxc.mount.auto'',
     ''lxc.tty.max'', ''lxc.apparmor.'', ''lxc.cgroup2.memory.max'', ''lxc.cgroup2.cpu.max'']"

definition deny :: "string list \<Rightarrow> string list \<Rightarrow> exc + unit" where
  "deny denylist argv =
     checkE (\<forall>a \<in> set argv. \<forall>needle \<in> set denylist. \<not> py_in needle a) ValidationErrorC"

definition validate_qemu_args :: "string list \<Rightarrow> exc + unit" where
  "validate_qemu_args = deny QEMU_ARG_DENYLIST"
definition validate_pve_args :: "string list \<Rightarrow> exc + unit" where
  "validate_pve_args = deny PVE_ARG_DENYLIST"
definition validate_lxc_args :: "string list \<Rightarrow> exc + unit" where
  "validate_lxc_args = deny LXC_ARG_DENYLIST"

definition ENV_KEY_RE :: rx where
  "ENV_KEY_RE = Cat (Cls (\<lambda>c. is_alpha c \<or> c = CHR ''_'')) (Rep (Cls is_word))"

definition valid_env_entry :: "string \<Rightarrow> bool" where
  "valid_env_entry e \<longleftrightarrow> (\<forall>c \<in> set e. \<not> (cp c < 32 \<or> cp c = 127)) \<and> CHR ''='' \<in> set e \<and>
     (let (key, _, _) = py_partition (CHR ''='') e in anchored (rx_match ENV_KEY_RE) key)"

definition validate_env :: "string list \<Rightarrow> exc + unit" where
  "validate_env env = checkE (\<forall>e \<in> set env. valid_env_entry e) ValidationErrorC"

datatype port_arg = PStr string | PList "string list"

definition normalize_port_specs :: "port_arg option \<Rightarrow> exc + string list option" where
  "normalize_port_specs port_opt =
     (case port_opt of None \<Rightarrow> Inr None
      | Some pa \<Rightarrow>
         (let specs = (case pa of PStr s \<Rightarrow> [s] | PList l \<Rightarrow> filter (\<lambda>p. p \<noteq> [] \<and> py_strip p \<noteq> []) l);
              concrete = filter (\<lambda>s. s \<noteq> ''auto'') specs
          in if specs = [] then Inr None
             else if concrete \<noteq> [] then bindE (parse_forwards concrete) (\<lambda>_. Inr (Some specs))
             else Inr (Some specs)))"

text \<open>The write site: each placeholder takes a free port not yet claimed in this batch.\<close>

fun resolve_specs :: "(int list \<Rightarrow> exc + int) \<Rightarrow> int list \<Rightarrow> string list \<Rightarrow> exc + string list" where
  "resolve_specs alloc claimed [] = Inr []"
| "resolve_specs alloc claimed (spec # specs) =
     (if spec = ''auto'' then
        bindE (alloc claimed) (\<lambda>hp.
        bindE (parse_forward_spec (int_str hp @ '':22'')) (\<lambda>(b, t).
        bindE (render_forward_spec b t) (\<lambda>r.
        bindE (resolve_specs alloc (hp # claimed) specs) (\<lambda>rs. Inr (r # rs)))))
      else
        bindE (parse_forward_spec spec) (\<lambda>(b, t).
        bindE (render_forward_spec b t) (\<lambda>r.
        bindE (resolve_specs alloc claimed specs) (\<lambda>rs. Inr (r # rs)))))"

definition write_port_specs ::
  "(int list \<Rightarrow> exc + int) \<Rightarrow> files \<Rightarrow> string list \<Rightarrow> exc + (string list \<times> files)" where
  "write_port_specs alloc fs specs =
     bindE (resolve_specs alloc [] specs) (\<lambda>resolved.
     bindE (parse_forwards resolved) (\<lambda>_.
       Inr (resolved, fs(''kento-port'' \<mapsto> unlines resolved))))"

section \<open>Capacity and id ranges\<close>

definition clamp_vm_capacity :: "nat option \<Rightarrow> int \<Rightarrow> string \<Rightarrow> int" where
  "clamp_vm_capacity host_cpus cores mode =
     (if mode \<noteq> ''vm'' \<and> mode \<noteq> ''pve-vm'' then cores
      else case host_cpus of None \<Rightarrow> cores
           | Some n \<Rightarrow> if cores > int n then max 1 (int n) else cores)"

definition SPACES :: rx where "SPACES = Rep (Cls py_isspace)"
definition IDMAP_RE :: rx where
  "IDMAP_RE = Cat SPACES (Cat (Chr CHR ''l'') (Cat (Chr CHR ''x'') (Cat (Chr CHR ''c'') (Cat (Chr CHR ''.'')
     (Cat (Chr CHR ''i'') (Cat (Chr CHR ''d'') (Cat (Chr CHR ''m'') (Cat (Chr CHR ''a'') (Cat (Chr CHR ''p'')
     (Cat SPACES (Cat (Chr CHR ''='') (Cat SPACES (Cat (Chr CHR ''u'') (Cat (Plus (Cls py_isspace))
     (Cat (Chr CHR ''0'') (Cat (Plus (Cls py_isspace)) (Cat (Plus (Cls is_digit))
     (Cat (Plus (Cls py_isspace)) (Cat (Plus (Cls is_digit)) SPACES)))))))))))))))))))"

text \<open>The two captured numbers: the last two of the words of a matching line.\<close>

fun words_from :: "string \<Rightarrow> string \<Rightarrow> string list" where
  "words_from acc [] = (if acc = [] then [] else [acc])"
| "words_from acc (c # cs) =
     (if py_isspace c then (if acc = [] then words_from [] cs else acc # words_from [] cs)
      else words_from (acc @ [c]) cs)"

definition py_words :: "string \<Rightarrow> string list" where "py_words s = words_from [] s"

fun idmap_from :: "string list \<Rightarrow> exc + (int \<times> int)" where
  "idmap_from [] = Inr (100000, 65536)"
| "idmap_from (l # ls) =
     (if anchored (rx_match IDMAP_RE) l then
        (let ws = rev (py_words l)
         in case (py_int (ws ! 1), py_int (ws ! 0)) of
              (Some b, Some c) \<Rightarrow> Inr (b, c) | _ \<Rightarrow> Inl ValueErrorC)
      else idmap_from ls)"

definition pve_idmap_range :: "string \<Rightarrow> exc + (int \<times> int)" where
  "pve_idmap_range conf = idmap_from (py_splitlines conf)"

section \<open>The native configuration of a plain container\<close>

record lxc_env =
  apparmor_profile :: "string option"
  apparmor_active :: bool
  apparmor_parser :: bool

definition lxc_net_lines :: "pve_opts \<Rightarrow> string list" where
  "lxc_net_lines p =
     (let veth = [[], ''lxc.net.0.type = veth'', ''lxc.net.0.link = '' @ the (o_bridge p), ''lxc.net.0.flags = up''] @
            (if truthy (o_ip p) then (''lxc.net.0.ipv4.address = '' @ the (o_ip p)) #
               (if truthy (o_gateway p) then [''lxc.net.0.ipv4.gateway = '' @ the (o_gateway p)] else [])
             else [])
      in if o_net_type p = Some ''bridge'' \<and> truthy (o_bridge p) then veth
         else if o_net_type p = Some ''host'' then [[], ''lxc.net.0.type = none'']
         else if truthy (o_bridge p) then veth
         else [])"

definition lxc_apparmor_lines :: "lxc_env \<Rightarrow> pve_opts \<Rightarrow> exc + string list" where
  "lxc_apparmor_lines ev p =
     (let profile = (case apparmor_profile ev of None \<Rightarrow> ''generated'' | Some q \<Rightarrow> q)
      in if profile \<noteq> ''generated'' \<and> profile \<noteq> ''unconfined'' then Inl ValidationErrorC
         else if profile = ''generated'' \<and> apparmor_active ev \<and> \<not> apparmor_parser ev then Inl StateErrorC
         else Inr ([''lxc.apparmor.profile = '' @ profile, ''lxc.apparmor.allow_incomplete = 1''] @
           (if profile = ''generated'' \<and> \<not> o_nesting p
            then map (\<lambda>r. ''lxc.apparmor.raw = '' @ r) APPARMOR_SYSTEMD_RULES else []) @
           (if o_unprivileged p then [''lxc.idmap = u 0 100000 65536'', ''lxc.idmap = g 0 100000 65536''] else [])))"

definition generate_config ::
  "lxc_env \<Rightarrow> string \<Rightarrow> ppath \<Rightarrow> files \<Rightarrow> pve_opts \<Rightarrow> string \<Rightarrow> exc + string" where
  "generate_config ev name cdir fs p mode =
     (let hook = path_str (path_div cdir ''kento-hook'')
      in bindE (if mode = ''lxc'' then lxc_apparmor_lines ev p else Inr []) (\<lambda>apparmor.
         Inr (py_join [LF]
          ([''lxc.uts.name = '' @ name, ''lxc.rootfs.path = dir:'' @ path_str cdir @ ''/rootfs'', [],
            ''lxc.hook.version = 1'', ''lxc.hook.pre-start = '' @ hook, ''lxc.hook.post-stop = '' @ hook] @
           (if o_port p \<noteq> None then [''lxc.hook.start-host = '' @ hook] else []) @
           lxc_net_lines p @
           [[], ''lxc.mount.auto = '' @ (if o_nesting p then LXC_MOUNT_AUTO_NESTING else LXC_MOUNT_AUTO),
            ''lxc.tty.max = '' @ int_str LXC_TTY] @
           (if mode = ''lxc'' then [''lxc.include = /usr/share/lxc/config/common.conf''] else []) @
           (if o_nesting p then [''lxc.include = /usr/share/lxc/config/nesting.conf'',
               ''lxc.mount.entry = /dev/fuse dev/fuse none bind,create=file,optional 0 0'',
               ''lxc.mount.entry = /dev/net/tun dev/net/tun none bind,create=file,optional 0 0''] else []) @
           apparmor @
           map (\<lambda>e. ''lxc.environment = '' @ e) (o_env p) @
           (case o_memory p of Some m \<Rightarrow> [''lxc.cgroup2.memory.max = '' @ int_str (m * 1048576)] | None \<Rightarrow> []) @
           (case o_cores p of Some n \<Rightarrow> [''lxc.cgroup2.cpu.max = '' @ int_str (n * 100000) @ '' 100000''] | None \<Rightarrow> []) @
           read_passthrough_lines (fs ''kento-lxc-args'')) @ [LF])))"

section \<open>Allocation under the lock\<close>

record request =
  r_name :: "string option"
  r_image :: string
  r_mode :: string
  r_vmid :: int
  r_force :: bool

record slot =
  s_name :: string
  s_vmid :: int
  s_base :: base
  s_dir :: string

definition is_vm_mode :: "string \<Rightarrow> bool" where
  "is_vm_mode mode \<longleftrightarrow> mode = ''vm'' \<or> mode = ''pve-vm''"

definition base_for :: "string \<Rightarrow> base" where
  "base_for mode = (if is_vm_mode mode then VM_BASE else LXC_BASE)"

fun other_base :: "base \<Rightarrow> base" where
  "other_base LXC_BASE = VM_BASE"
| "other_base VM_BASE = LXC_BASE"

definition set_base :: "store \<Rightarrow> base \<Rightarrow> listing \<Rightarrow> store" where
  "set_base st b es = (case b of LXC_BASE \<Rightarrow> st\<lparr>lxc_base := Some es\<rparr> | VM_BASE \<Rightarrow> st\<lparr>vm_base := Some es\<rparr>)"

definition entries_of :: "store \<Rightarrow> base \<Rightarrow> listing" where
  "entries_of st b = (case base_of st b of Some es \<Rightarrow> es | None \<Rightarrow> [])"

definition pick_name :: "store \<Rightarrow> request \<Rightarrow> exc + string" where
  "pick_name st r =
     (let b = base_for (r_mode r)
      in case r_name r of
           None \<Rightarrow> (let name = next_instance_name (sanitize_image_name (r_image r)) (base_of st b)
                                 (base_of st (other_base b))
                   in bindE (validate_name name) (\<lambda>_. Inr name))
         | Some name \<Rightarrow>
             (let conflict = (if r_force r then scan_namespace name (base_of st b) \<noteq> None
                              else scan_namespace name (lxc_base st) \<noteq> None \<or>
                                   scan_namespace name (vm_base st) \<noteq> None)
              in if conflict then Inl InstanceExistsErrorC else Inr name))"

definition pick_vmid :: "pve_view \<Rightarrow> store \<Rightarrow> request \<Rightarrow> exc + int" where
  "pick_vmid v st r =
     (if r_mode r = ''pve'' \<or> r_mode r = ''pve-vm'' then
        (if r_vmid r \<noteq> 0 then bindE (validate_vmid v st (r_vmid r)) (\<lambda>_. Inr (r_vmid r))
         else Inr (next_vmid v st))
      else Inr (r_vmid r))"

text \<open>The directory is made before the lock is released; it is empty but for \<^verbatim>\<open>rootfs\<close>.\<close>

definition allocate :: "pve_view \<Rightarrow> store \<Rightarrow> request \<Rightarrow> exc + (slot \<times> store)" where
  "allocate v st r =
     bindE (pick_name st r) (\<lambda>name.
     bindE (pick_vmid v st r) (\<lambda>vmid.
       let b = base_for (r_mode r); cid = (if r_mode r = ''pve'' then int_str vmid else name)
       in if map_of (entries_of st b) cid \<noteq> None then Inl InstanceExistsErrorC
          else Inr (\<lparr>s_name = name, s_vmid = vmid, s_base = b, s_dir = cid\<rparr>,
                    set_base st b (entries_of st b @ [(cid, EDir Map.empty)]))))"

section \<open>The metadata files, in the order they are written\<close>

record create_opts =
  c_image :: string
  c_image_id :: string
  c_layers :: string
  c_state_dir :: string
  c_mode :: string
  c_hostname :: "string option"
  c_net :: net_choice
  c_qemu_args :: "string list"
  c_pve_args :: "string list"
  c_lxc_args :: "string list"
  c_ip :: "string option"
  c_gateway :: "string option"
  c_dns :: "string option"
  c_searchdomain :: "string option"
  c_timezone :: "string option"
  c_env :: "string list"
  c_ssh_keys :: "string option"
  c_ssh_user :: string
  c_config_mode :: string
  c_mac :: string
  c_memory :: "int option"
  c_cores :: "int option"
  c_nesting :: bool
  c_kernel :: "string option"
  c_initramfs :: "string option"
  c_ports :: "string list option"
  c_unprivileged :: bool

type_synonym file_write = "string \<times> string"

definition line_file :: "string \<Rightarrow> string \<Rightarrow> file_write" where
  "line_file f v = (f, v @ [LF])"

definition opt_file :: "string \<Rightarrow> string option \<Rightarrow> file_write list" where
  "opt_file f v = (case v of Some s \<Rightarrow> [line_file f s] | None \<Rightarrow> [])"

definition truthy_file :: "string \<Rightarrow> string option \<Rightarrow> file_write list" where
  "truthy_file f v = (if truthy v then [line_file f (the v)] else [])"

definition list_file :: "string \<Rightarrow> string list \<Rightarrow> file_write list" where
  "list_file f xs = (if xs \<noteq> [] then [line_file f (py_join [LF] xs)] else [])"

definition net_parts :: "create_opts \<Rightarrow> string list" where
  "net_parts c =
     (if truthy (c_ip c) then [''ip='' @ the (c_ip c)] else []) @
     (if truthy (c_gateway c) then [''gateway='' @ the (c_gateway c)] else []) @
     (if truthy (c_dns c) then [''dns='' @ the (c_dns c)] else []) @
     (if truthy (c_searchdomain c) then [''searchdomain='' @ the (c_searchdomain c)] else [])"

definition common_writes :: "string \<Rightarrow> create_opts \<Rightarrow> file_write list" where
  "common_writes name c =
     [line_file ''kento-image'' (c_image c)] @
     (if c_image_id c \<noteq> [] then [line_file ''kento-image-id'' (c_image_id c)] else []) @
     [line_file ''kento-layers'' (c_layers c), line_file ''kento-state'' (c_state_dir c),
      line_file ''kento-mode'' (c_mode c), line_file ''kento-name'' name] @
     opt_file ''kento-hostname'' (c_hostname c) @
     [line_file ''kento-net-type'' (net_type (c_net c))] @
     opt_file ''kento-bridge'' (net_bridge (c_net c)) @
     list_file ''kento-qemu-args'' (c_qemu_args c) @
     list_file ''kento-pve-args'' (c_pve_args c) @
     list_file ''kento-lxc-args'' (c_lxc_args c) @
     (if truthy (c_ip c) \<or> truthy (c_dns c) \<or> truthy (c_searchdomain c)
      then [line_file ''kento-net'' (py_join [LF] (net_parts c))] else []) @
     truthy_file ''kento-tz'' (c_timezone c) @
     list_file ''kento-env'' (c_env c) @
     (case c_ssh_keys c of Some k \<Rightarrow> [(''kento-authorized-keys'', k)] | None \<Rightarrow> []) @
     (if c_ssh_user c \<noteq> ''root'' then [line_file ''kento-ssh-user'' (c_ssh_user c)] else []) @
     [line_file ''kento-config-mode'' (c_config_mode c)]"

definition nesting_file :: "bool \<Rightarrow> file_write" where
  "nesting_file b = line_file ''kento-nesting'' (if b then ''1'' else ''0'')"

definition port_file :: "string list option \<Rightarrow> file_write list" where
  "port_file ports = (case ports of Some specs \<Rightarrow> [(''kento-port'', unlines specs)] | None \<Rightarrow> [])"

definition vm_writes :: "create_opts \<Rightarrow> int \<Rightarrow> int \<Rightarrow> int \<Rightarrow> file_write list" where
  "vm_writes c vmid mem cores =
     [line_file ''kento-mac'' (c_mac c), line_file ''kento-memory'' (int_str mem),
      line_file ''kento-cores'' (int_str cores), nesting_file (c_nesting c)] @
     opt_file ''kento-kernel'' (c_kernel c) @ opt_file ''kento-initramfs'' (c_initramfs c) @
     (if net_type (c_net c) = ''usermode'' then port_file (c_ports c) else []) @
     (if c_mode c = ''pve-vm'' then [line_file ''kento-vmid'' (int_str vmid)] else [])"

definition lxc_writes :: "create_opts \<Rightarrow> file_write list" where
  "lxc_writes c =
     port_file (c_ports c) @
     opt_file ''kento-memory'' (map_option int_str (c_memory c)) @
     opt_file ''kento-cores'' (map_option int_str (c_cores c)) @
     [nesting_file (c_nesting c)] @
     (if c_unprivileged c then [line_file ''kento-unprivileged'' ''1''] else [])"

definition do_writes :: "file_write list \<Rightarrow> files \<Rightarrow> files" where
  "do_writes ws fs = foldl (\<lambda>m (f, t). m(f \<mapsto> t)) fs ws"

definition create_pve_opts :: "create_opts \<Rightarrow> string option \<Rightarrow> pve_opts" where
  "create_pve_opts c hookscript =
     \<lparr>o_bridge = net_bridge (c_net c), o_net_type = Some (net_type (c_net c)), o_nesting = c_nesting c,
      o_ip = c_ip c, o_gateway = c_gateway c, o_nameserver = c_dns c, o_searchdomain = c_searchdomain c,
      o_timezone = c_timezone c, o_env = c_env c, o_port = map_option (\<lambda>_. []) (c_ports c),
      o_memory = c_memory c, o_cores = c_cores c, o_hookscript = hookscript,
      o_unprivileged = c_unprivileged c\<rparr>"

text \<open>
  The end of the creation of a PVE container: the hookscript reference is there when a port,
  the memory or the cores are given; the id range is recorded for an unprivileged one; the
  configuration is written last.
\<close>

definition needs_snippets :: "create_opts \<Rightarrow> bool" where
  "needs_snippets c \<longleftrightarrow> c_ports c \<noteq> None \<or> c_memory c \<noteq> None \<or> c_cores c \<noteq> None"

definition create_pve ::
  "string \<Rightarrow> (int \<Rightarrow> string) \<Rightarrow> ppath \<Rightarrow> slot \<Rightarrow> create_opts \<Rightarrow> files \<Rightarrow> exc + (files \<times> string)" where
  "create_pve machine snippet_ref cdir s c fs =
     (let fs1 = do_writes (common_writes (s_name s) c @ lxc_writes c) fs;
          hookscript = (if needs_snippets c then Some (snippet_ref (s_vmid s)) else None);
          conf = generate_pve_config machine (s_name s) cdir fs1 (create_pve_opts c hookscript)
      in if c_unprivileged c then
           bindE (pve_idmap_range conf) (\<lambda>(b, n).
             Inr (fs1(''kento-idmap-range'' \<mapsto> int_str b @ '' '' @ int_str n @ [LF]), conf))
         else Inr (fs1, conf))"

definition create_pve_vm ::
  "(int \<Rightarrow> string) \<Rightarrow> string \<Rightarrow> bool \<Rightarrow> ppath \<Rightarrow> slot \<Rightarrow> create_opts \<Rightarrow> int \<Rightarrow> int \<Rightarrow> files \<Rightarrow> exc + (files \<times> string)" where
  "create_pve_vm snippet_ref machine kvm cdir s c mem cores fs =
     (let fs1 = do_writes (common_writes (s_name s) c @ vm_writes c (s_vmid s) mem cores) fs
      in bindE (generate_qm_config (s_name s) cdir fs1
           \<lparr>q_hookscript = snippet_ref (s_vmid s), q_memory = mem, q_cores = cores, q_machine = machine,
            q_bridge = net_bridge (c_net c), q_net_type = Some (net_type (c_net c)), q_kvm = kvm,
            q_mac = Some (c_mac c)\<rparr>)
         (\<lambda>conf. Inr (fs1, conf)))"

section \<open>Rollback\<close>

text \<open>
  The undo actions run from the last to the first over the state of the host; one that raises
  leaves the state it reached and does not stop the others.
\<close>

type_synonym 'w undo = "string \<times> ('w \<Rightarrow> (exc + unit) \<times> 'w)"

fun run_undos :: "'w undo list \<Rightarrow> 'w \<Rightarrow> string list \<Rightarrow> 'w \<times> string list" where
  "run_undos [] w failed = (w, failed)"
| "run_undos ((label, u) # us) w failed =
     (case u w of (Inr _, w') \<Rightarrow> run_undos us w' failed
      | (Inl e, w') \<Rightarrow> run_undos us w' (failed @ [label]))"

definition run_cleanup :: "'w undo list \<Rightarrow> 'w \<Rightarrow> 'w \<times> string list" where
  "run_cleanup undos w = run_undos (rev undos) w []"

end
