(* ===== verification/Reconcile.thy ===== *)
theory Reconcile imports Create begin

text \<open>
  \<^verbatim>\<open>reconcile.py\<close> and \<^verbatim>\<open>destroy.py\<close>: which instances are orphans (their directory survives, their
  PVE configuration is gone), reaping them, rebuilding the configuration of one from its
  metadata, and the removal of an instance.  The probe of a configuration is an argument that
  can raise; the world a removal acts on is the store, the configurations and the separate
  state directories.
\<close>

section \<open>Orphans\<close>

type_synonym probe = "string \<Rightarrow> string \<Rightarrow> exc + bool"

definition read_meta :: "files \<Rightarrow> string \<Rightarrow> string option" where
  "read_meta fs f = map_option file_text (fs f)"

definition orphan_vmid :: "string \<Rightarrow> files \<Rightarrow> string \<Rightarrow> string option" where
  "orphan_vmid d fs mode = (if mode = ''pve'' then Some d else read_meta fs ''kento-vmid'')"

definition is_pve_mode :: "string \<Rightarrow> bool" where
  "is_pve_mode mode \<longleftrightarrow> mode = ''pve'' \<or> mode = ''pve-vm''"

definition is_orphan :: "probe \<Rightarrow> string \<Rightarrow> files \<Rightarrow> string \<Rightarrow> exc + bool option" where
  "is_orphan config_exists d fs mode =
     (if \<not> is_pve_mode mode then Inr (Some False)
      else case orphan_vmid d fs mode of
             None \<Rightarrow> Inr (Some True)
           | Some vmid \<Rightarrow> (case config_exists vmid mode of
                 Inr b \<Rightarrow> Inr (Some (\<not> b))
               | Inl e \<Rightarrow> if OSErrorC \<in> set (mro e) then Inr None else Inl e))"

datatype vmid_value = VInt int | VStr string | VNone

record orphan =
  or_name :: string
  or_vmid :: vmid_value
  or_mode :: string
  or_dir :: "base \<times> string"
  or_image :: "string option"

definition nonempty_or :: "string option \<Rightarrow> string \<Rightarrow> string" where
  "nonempty_or v d = (if truthy v then the v else d)"

definition vmid_value_of :: "string option \<Rightarrow> vmid_value" where
  "vmid_value_of raw = (case raw of None \<Rightarrow> VNone
     | Some r \<Rightarrow> (case py_int r of Some n \<Rightarrow> VInt n | None \<Rightarrow> VStr r))"

definition describe :: "base \<Rightarrow> string \<Rightarrow> files \<Rightarrow> string \<Rightarrow> orphan" where
  "describe b d fs mode =
     \<lparr>or_name = nonempty_or (read_meta fs ''kento-name'') d, or_vmid = vmid_value_of (orphan_vmid d fs mode),
      or_mode = mode, or_dir = (b, d), or_image = read_meta fs ''kento-image''\<rparr>"

fun with_image :: "base \<Rightarrow> listing \<Rightarrow> (base \<times> string \<times> files) list" where
  "with_image b [] = []"
| "with_image b ((d, EFile) # es) = with_image b es"
| "with_image b ((d, EDir fs) # es) =
     (if fs ''kento-image'' \<noteq> None then (b, d, fs) # with_image b es else with_image b es)"

definition in_scope :: "string option \<Rightarrow> string \<Rightarrow> bool" where
  "in_scope scope s \<longleftrightarrow> scope = None \<or> scope = Some s"

fun collect_orphans :: "probe \<Rightarrow> (base \<times> string \<times> files) list \<Rightarrow> exc + orphan list" where
  "collect_orphans config_exists [] = Inr []"
| "collect_orphans config_exists ((b, d, fs) # xs) =
     (let mode = read_mode fs ''lxc''
      in bindE (is_orphan config_exists d fs mode) (\<lambda>o3.
         bindE (collect_orphans config_exists xs) (\<lambda>rest.
           Inr (if is_pve_mode mode \<and> o3 = Some True then describe b d fs mode # rest else rest))))"

definition find_orphans :: "probe \<Rightarrow> store \<Rightarrow> string option \<Rightarrow> exc + orphan list" where
  "find_orphans config_exists st scope =
     collect_orphans config_exists (sort_key (\<lambda>(b, d, fs). d)
       ((if in_scope scope ''lxc'' then with_image LXC_BASE (entries_of st LXC_BASE) else []) @
        (if in_scope scope ''vm'' then with_image VM_BASE (entries_of st VM_BASE) else [])))"

record reap_entry =
  re_orphan :: orphan
  re_reaped :: bool
  re_error :: "exc option"

fun reap_all :: "(orphan \<Rightarrow> 'w \<Rightarrow> (exc + unit) \<times> 'w) \<Rightarrow> orphan list \<Rightarrow> 'w \<Rightarrow> reap_entry list \<times> 'w" where
  "reap_all destroy [] w = ([], w)"
| "reap_all destroy (x # xs) w =
     (let (r, w') = destroy x w; (res, w'') = reap_all destroy xs w'
      in ((case r of Inr _ \<Rightarrow> \<lparr>re_orphan = x, re_reaped = True, re_error = None\<rparr>
           | Inl e \<Rightarrow> \<lparr>re_orphan = x, re_reaped = False, re_error = Some e\<rparr>) # res, w''))"

definition reap_orphans ::
  "probe \<Rightarrow> (orphan \<Rightarrow> 'w \<Rightarrow> (exc + unit) \<times> 'w) \<Rightarrow> store \<Rightarrow> bool \<Rightarrow> string option \<Rightarrow> 'w \<Rightarrow>
   (exc + reap_entry list) \<times> 'w" where
  "reap_orphans config_exists destroy st reap scope w =
     (case find_orphans config_exists st scope of
        Inl e \<Rightarrow> (Inl e, w)
      | Inr os \<Rightarrow>
          if reap then (let (res, w') = reap_all destroy os w in (Inr res, w'))
          else (Inr (map (\<lambda>x. \<lparr>re_orphan = x, re_reaped = False, re_error = None\<rparr>) os), w))"

section \<open>Adoption\<close>

definition adopt_vmid :: "string \<Rightarrow> files \<Rightarrow> string \<Rightarrow> exc + int" where
  "adopt_vmid d fs mode =
     (case orphan_vmid d fs mode of
        None \<Rightarrow> Inl StateErrorC
      | Some raw \<Rightarrow> (case py_int raw of Some n \<Rightarrow> Inr n | None \<Rightarrow> Inl StateErrorC))"

record net_meta =
  m_ip :: "string option"
  m_gateway :: "string option"
  m_dns :: "string option"
  m_searchdomain :: "string option"

definition no_net :: net_meta where
  "no_net = \<lparr>m_ip = None, m_gateway = None, m_dns = None, m_searchdomain = None\<rparr>"

definition or_none :: "string \<Rightarrow> string option" where
  "or_none v = (if v = [] then None else Some v)"

fun parse_net_lines :: "string list \<Rightarrow> net_meta \<Rightarrow> net_meta" where
  "parse_net_lines [] m = m"
| "parse_net_lines (l # ls) m =
     (if CHR ''='' \<notin> set l then parse_net_lines ls m
      else let (k, _, v) = py_partition (CHR ''='') l
           in parse_net_lines ls
                (if k = ''ip'' then m\<lparr>m_ip := or_none v\<rparr>
                 else if k = ''gateway'' then m\<lparr>m_gateway := or_none v\<rparr>
                 else if k = ''dns'' then m\<lparr>m_dns := or_none v\<rparr>
                 else if k = ''searchdomain'' then m\<lparr>m_searchdomain := or_none v\<rparr>
                 else m))"

definition parse_net_meta :: "files \<Rightarrow> net_meta" where
  "parse_net_meta fs = (case fs ''kento-net'' of None \<Rightarrow> no_net
     | Some t \<Rightarrow> parse_net_lines (py_splitlines (file_text t)) no_net)"

text \<open>\<^verbatim>\<open>int(raw) if raw else default\<close>.\<close>

definition meta_int :: "string option \<Rightarrow> int option \<Rightarrow> exc + int option" where
  "meta_int raw dflt = (if truthy raw then (case py_int (the raw) of Some n \<Rightarrow> Inr (Some n) | None \<Rightarrow> Inl ValueErrorC)
                        else Inr dflt)"

definition emit_pve ::
  "string \<Rightarrow> (int \<Rightarrow> string) \<Rightarrow> ppath \<Rightarrow> string \<Rightarrow> files \<Rightarrow> exc + (int \<times> files \<times> string)" where
  "emit_pve machine snippet_ref cdir d fs =
     (let name = nonempty_or (read_meta fs ''kento-name'') d
      in bindE (adopt_vmid d fs ''pve'') (\<lambda>vmid.
         let hookscript = (if fs ''kento-port'' \<noteq> None \<or> fs ''kento-memory'' \<noteq> None \<or> fs ''kento-cores'' \<noteq> None
                           then Some (snippet_ref vmid) else None);
             net = parse_net_meta fs;
             env = (if truthy (read_meta fs ''kento-env'') then py_splitlines (the (read_meta fs ''kento-env'')) else []);
             unprivileged = (read_meta fs ''kento-unprivileged'' = Some ''1'')
         in bindE (meta_int (read_meta fs ''kento-memory'') None) (\<lambda>mem.
            bindE (meta_int (read_meta fs ''kento-cores'') None) (\<lambda>cores.
            let conf = generate_pve_config machine name cdir fs
                  \<lparr>o_bridge = read_meta fs ''kento-bridge'', o_net_type = read_meta fs ''kento-net-type'',
                   o_nesting = (read_meta fs ''kento-nesting'' = Some ''1''),
                   o_ip = m_ip net, o_gateway = m_gateway net, o_nameserver = m_dns net,
                   o_searchdomain = m_searchdomain net, o_timezone = read_meta fs ''kento-tz'', o_env = env,
                   o_port = read_meta fs ''kento-port'', o_memory = mem, o_cores = cores,
                   o_hookscript = hookscript, o_unprivileged = unprivileged\<rparr>
            in if unprivileged then
                 bindE (pve_idmap_range conf) (\<lambda>(b, n).
                   Inr (vmid, fs(''kento-idmap-range'' \<mapsto> int_str b @ '' '' @ int_str n @ [LF]), conf))
               else Inr (vmid, fs, conf)))))"

record vm_defaults =
  vd_memory :: int
  vd_cores :: int
  vd_machine :: string
  vd_kvm :: bool

definition emit_pve_vm ::
  "(int \<Rightarrow> string) \<Rightarrow> vm_defaults \<Rightarrow> ppath \<Rightarrow> string \<Rightarrow> files \<Rightarrow> exc + (int \<times> files \<times> string)" where
  "emit_pve_vm snippet_ref vd cdir d fs =
     (let name = nonempty_or (read_meta fs ''kento-name'') d
      in bindE (adopt_vmid d fs ''pve-vm'') (\<lambda>vmid.
         bindE (meta_int (read_meta fs ''kento-memory'') (Some (vd_memory vd))) (\<lambda>mem.
         bindE (meta_int (read_meta fs ''kento-cores'') (Some (vd_cores vd))) (\<lambda>cores.
         bindE (generate_qm_config name cdir fs
             \<lparr>q_hookscript = snippet_ref vmid, q_memory = the mem, q_cores = the cores,
              q_machine = vd_machine vd, q_bridge = read_meta fs ''kento-bridge'',
              q_net_type = read_meta fs ''kento-net-type'', q_kvm = vd_kvm vd, q_mac = read_meta fs ''kento-mac''\<rparr>)
           (\<lambda>conf. Inr (vmid, fs, conf))))))"

text \<open>
  The checks of \<^verbatim>\<open>adopt\<close> up to the emission: the emission is the last step, so its result is
  that of \<^verbatim>\<open>adopt\<close>.  \<^verbatim>\<open>emit\<close> is the emission for the mode of the instance.
\<close>

definition probe_vmid :: "probe \<Rightarrow> int \<Rightarrow> string \<Rightarrow> exc + bool" where
  "probe_vmid config_exists vmid mode =
     (case config_exists (int_str vmid) mode of
        Inr b \<Rightarrow> Inr b
      | Inl e \<Rightarrow> if OSErrorC \<in> set (mro e) then Inl StateErrorC else Inl e)"

definition adopt ::
  "bool \<Rightarrow> probe \<Rightarrow> (string \<Rightarrow> files \<Rightarrow> exc + (int \<times> files \<times> string)) \<Rightarrow> string \<Rightarrow> files \<Rightarrow> string \<Rightarrow>
   exc + (int \<times> files \<times> string)" where
  "adopt root config_exists emit d fs mode =
     (if \<not> root then Inl StateErrorC
      else if \<not> is_pve_mode mode then Inl ModeErrorC
      else bindE (adopt_vmid d fs mode) (\<lambda>vmid.
        if read_meta fs ''kento-net-type'' = None then Inl StateErrorC
        else bindE (probe_vmid config_exists vmid mode) (\<lambda>own.
          if own then Inl StateErrorC
          else bindE (probe_vmid config_exists vmid ''pve'') (\<lambda>lxc.
            if lxc then Inl StateErrorC
            else bindE (probe_vmid config_exists vmid ''pve-vm'') (\<lambda>qm.
              if qm then Inl StateErrorC else emit d fs)))))"

section \<open>Removal\<close>

text \<open>
  The world: the store, the names of the configurations present (mode and VM id) and the state
  directories outside the instance directories.  What the tools answer is an argument: whether
  the instance runs, what stopping it raises, whether the root is mounted and can be unmounted,
  and whether deleting the configuration, its wrapper or the hold raises.
\<close>

record world =
  w_store :: store
  w_confs :: "(string \<times> string) list"
  w_state_dirs :: "string list"

record answers =
  a_running :: bool
  a_stop :: "exc option"
  a_mounted :: bool
  a_unmount :: bool
  a_delete :: "exc option"
  a_wrapper :: "exc option"
  a_hold :: "exc option"

definition remove_dir :: "store \<Rightarrow> base \<Rightarrow> string \<Rightarrow> store" where
  "remove_dir st b d = set_base st b (filter (\<lambda>(n, e). n \<noteq> d) (entries_of st b))"

text \<open>
  The deletion of the platform configuration; an integer VM id names it.  The wrapper among the snippets is deleted
  after the configuration: when that fails, the configuration is gone already.
\<close>

definition deleted :: "answers \<Rightarrow> exc + unit" where
  "deleted a = (case a_wrapper a of Some e \<Rightarrow> Inl e | None \<Rightarrow> Inr ())"

definition delete_config :: "answers \<Rightarrow> string \<Rightarrow> files \<Rightarrow> string \<Rightarrow> world \<Rightarrow> (exc + unit) \<times> world" where
  "delete_config a d fs mode w =
     (if mode = ''pve'' then
        (case py_int d of
           None \<Rightarrow> (Inl ValueErrorC, w)
         | Some n \<Rightarrow> (case a_delete a of
             Some e \<Rightarrow> (Inl e, w)
           | None \<Rightarrow> (deleted a, w\<lparr>w_confs := filter (\<lambda>x. x \<noteq> (''pve'', int_str n)) (w_confs w)\<rparr>)))
      else if mode = ''pve-vm'' \<and> truthy (read_meta fs ''kento-vmid'') then
        (case py_int (the (read_meta fs ''kento-vmid'')) of
           None \<Rightarrow> (Inr (), w)
         | Some n \<Rightarrow> (case a_delete a of
             Some e \<Rightarrow> (Inl e, w)
           | None \<Rightarrow> (deleted a, w\<lparr>w_confs := filter (\<lambda>x. x \<noteq> (''pve-vm'', int_str n)) (w_confs w)\<rparr>)))
      else (Inr (), w))"

definition destroy_stop :: "answers \<Rightarrow> bool \<Rightarrow> exc + unit" where
  "destroy_stop a force =
     (if a_running a then
        (if \<not> force then Inl StateErrorC
         else case a_stop a of
                None \<Rightarrow> Inr ()
              | Some e \<Rightarrow> if e = CalledProcessErrorC \<or> e = FileNotFoundErrorC then Inr () else Inl e)
      else Inr ())"

definition destroy_dir ::
  "answers \<Rightarrow> bool \<Rightarrow> base \<Rightarrow> string \<Rightarrow> files \<Rightarrow> string \<Rightarrow> string \<Rightarrow> world \<Rightarrow> (exc + unit) \<times> world" where
  "destroy_dir a force b d fs mode cdir w =
     (let state_dir = (case fs ''kento-state'' of Some t \<Rightarrow> path_str (mk_path (file_text t)) | None \<Rightarrow> cdir)
      in case destroy_stop a force of
        Inl e \<Rightarrow> (Inl e, w)
      | Inr _ \<Rightarrow>
        if a_mounted a \<and> \<not> a_unmount a then (Inl StateErrorC, w)
        else if fs ''kento-image'' = None then (Inl FileNotFoundErrorC, w)
        else (case delete_config a d fs mode w of (r, w1) \<Rightarrow>
          if r \<noteq> Inr () \<and> \<not> force then (r, w1)
          else if a_hold a \<noteq> None \<and> \<not> force then (Inl (the (a_hold a)), w1)
          else (Inr (), w1\<lparr>w_store := remove_dir (w_store w1) b d,
                 w_state_dirs := (if state_dir \<noteq> cdir then filter (\<lambda>x. x \<noteq> state_dir) (w_state_dirs w1)
                                  else w_state_dirs w1)\<rparr>)))"

end
