(* ===== verification/Adoption.thy ===== *)
theory Adoption imports Reconcile begin

text \<open>
  \<^verbatim>\<open>adopt\<close> against \<^verbatim>\<open>create\<close>: what the metadata files hold after a creation, and that the
  configuration rebuilt from them is the one the creation wrote.
\<close>

section \<open>What a sequence of writes leaves in a file\<close>

definition wrote :: "string \<Rightarrow> file_write list \<Rightarrow> string option" where
  "wrote f ws = map_of (rev ws) f"

fun over :: "'a option \<Rightarrow> 'a option \<Rightarrow> 'a option" where
  "over None y = y"
| "over (Some x) y = Some x"

lemma over_None [simp]: "over x None = x"
  by (cases x) simp_all

lemma over_map_add: "(m ++ n) f = over (n f) (m f)"
  by (cases "n f") (simp_all add: map_add_def)

lemma over_assoc [simp]: "over (over x y) z = over x (over y z)"
  by (cases x) simp_all

lemma do_writes_wrote: "do_writes ws fs f = over (wrote f ws) (fs f)"
proof (induction ws arbitrary: fs)
  case Nil
  then show ?case by (simp add: do_writes_def wrote_def)
next
  case (Cons w ws)
  obtain g t where w: "w = (g, t)" by (cases w)
  have "do_writes (w # ws) fs = do_writes ws (fs(g \<mapsto> t))" by (simp add: do_writes_def w)
  show ?case unfolding \<open>do_writes (w # ws) fs = _\<close> Cons [of "fs(g \<mapsto> t)"]
    by (simp add: wrote_def w over_map_add)
qed

lemma wrote_simps [simp]:
  "wrote f [] = None"
  "wrote f ((g, t) # ws) = over (wrote f ws) (if f = g then Some t else None)"
  "wrote f (ws @ vs) = over (wrote f vs) (wrote f ws)"
  "wrote f (if b then ws else vs) = (if b then wrote f ws else wrote f vs)"
  by (simp_all add: wrote_def over_map_add)

lemma wrote_files [simp]:
  "wrote f (line_file g v # ws) = over (wrote f ws) (if f = g then Some (v @ [LF]) else None)"
  "wrote f (nesting_file b # ws) =
     over (wrote f ws) (if f = ''kento-nesting'' then Some ((if b then ''1'' else ''0'') @ [LF]) else None)"
  "wrote f (opt_file g v') = (if f = g then map_option (\<lambda>s. s @ [LF]) v' else None)"
  "wrote f (truthy_file g v') = (if f = g \<and> truthy v' then Some (the v' @ [LF]) else None)"
  "wrote f (list_file g xs) = (if f = g \<and> xs \<noteq> [] then Some (py_join [LF] xs @ [LF]) else None)"
  "wrote f (port_file ps) = (if f = ''kento-port'' then map_option unlines ps else None)"
  "wrote f (case k of None \<Rightarrow> [] | Some t \<Rightarrow> [(g, t)]) = (if f = g then k else None)"
  by (auto simp: line_file_def nesting_file_def opt_file_def truthy_file_def list_file_def port_file_def split: option.splits)

section \<open>Values that survive a line of a file\<close>

definition clean :: "string \<Rightarrow> bool" where
  "clean s \<longleftrightarrow> stripped s \<and> no_breaks s"

lemma clean_no_CR: "no_breaks s \<Longrightarrow> CR \<notin> set s"
  by (auto simp: no_breaks_def)

lemma clean_line: "clean s \<Longrightarrow> file_text (s @ [LF]) = s"
  using clean_no_CR [of s] stripped_line [of s] univ_newlines_id [of "s @ [LF]"]
  by (simp add: file_text_def clean_def)

lemma clean_int: "0 \<le> n \<Longrightarrow> n < 10 ^ 18 \<Longrightarrow> clean (int_str n)"
  using int_text(1) [of n] by (simp add: clean_def int_str_def)

lemma clean_no_space: "\<lbrakk>stripped s; stripped t; s \<noteq> []; t \<noteq> []\<rbrakk> \<Longrightarrow> stripped (s @ u @ t)"
  by (simp add: stripped_def)

lemma clean_lines:
  assumes "xs \<noteq> []" "\<And>x. x \<in> set xs \<Longrightarrow> clean x \<and> x \<noteq> []"
  shows "py_splitlines (file_text (py_join [LF] xs @ [LF])) = xs" "file_text (py_join [LF] xs @ [LF]) \<noteq> []"
proof -
  have nb: "no_breaks x" if "x \<in> set xs" for x using assms(2) [OF that] by (simp add: clean_def)
  have "c = LF \<or> \<not> py_linebreak c" if "c \<in> set (py_join [LF] xs @ [LF])" for c
    using that set_py_join [of "[LF]" xs] nb by (auto simp: no_breaks_def)
  from this [of CR] have cr: "CR \<notin> set (py_join [LF] xs @ [LF])" by auto
  have ne: "py_join [LF] xs \<noteq> []"
    using assms by (cases xs; cases "tl xs") (auto simp: join_unlines)
  have "stripped (py_join [LF] xs)"
  proof (cases "tl xs")
    case Nil
    with assms show ?thesis by (cases xs) (auto simp: clean_def)
  next
    case (Cons y ys)
    have h: "stripped (hd xs)" "hd xs \<noteq> []" and l: "stripped (last xs)" "last xs \<noteq> []"
      using assms(2) assms(1) by (auto simp: clean_def)
    have "py_join [LF] xs = hd xs @ (LF # unlines (butlast (tl xs))) @ last xs"
      using Cons by (cases xs) (simp_all add: join_unlines)
    then show ?thesis by (simp only:) (rule clean_no_space [OF h(1) l(1) h(2) l(2)])
  qed
  then have ft: "file_text (py_join [LF] xs @ [LF]) = py_join [LF] xs"
    using cr stripped_line by (simp add: file_text_def univ_newlines_id)
  show "file_text (py_join [LF] xs @ [LF]) \<noteq> []" using ft ne by simp
  have "last xs \<noteq> []" using assms by simp
  then show "py_splitlines (file_text (py_join [LF] xs @ [LF])) = xs"
    unfolding ft using splitlines_join(1) [OF nb assms(1)] by simp
qed

section \<open>The network metadata\<close>

definition kept :: "string option \<Rightarrow> string option" where
  "kept v = (if truthy v then v else None)"

lemma kept_simps [simp]: "truthy (kept v) = truthy v" "truthy v \<Longrightarrow> kept v = v" "\<not> truthy v \<Longrightarrow> kept v = None"
  by (auto simp: kept_def)

lemma parse_net_step:
  "truthy v \<Longrightarrow> parse_net_lines ((''ip='' @ the v) # ls) m = parse_net_lines ls (m\<lparr>m_ip := v\<rparr>)"
  "truthy v \<Longrightarrow> parse_net_lines ((''gateway='' @ the v) # ls) m = parse_net_lines ls (m\<lparr>m_gateway := v\<rparr>)"
  "truthy v \<Longrightarrow> parse_net_lines ((''dns='' @ the v) # ls) m = parse_net_lines ls (m\<lparr>m_dns := v\<rparr>)"
  "truthy v \<Longrightarrow> parse_net_lines ((''searchdomain='' @ the v) # ls) m = parse_net_lines ls (m\<lparr>m_searchdomain := v\<rparr>)"
  by (cases v; simp add: py_partition_def or_none_def)+

lemma parse_net_parts:
  "parse_net_lines (net_parts c) no_net =
     \<lparr>m_ip = kept (c_ip c), m_gateway = kept (c_gateway c), m_dns = kept (c_dns c),
      m_searchdomain = kept (c_searchdomain c)\<rparr>"
  unfolding net_parts_def no_net_def
  by (cases "truthy (c_ip c)"; cases "truthy (c_gateway c)"; cases "truthy (c_dns c)"; cases "truthy (c_searchdomain c)")
    (simp_all del: parse_net_lines.simps(2) add: parse_net_step [unfolded append_Cons append_Nil])

section \<open>Clean creations\<close>

definition clean_opt :: "string option \<Rightarrow> bool" where
  "clean_opt v \<longleftrightarrow> (\<forall>s \<in> set_option v. clean s)"

definition small :: "int option \<Rightarrow> bool" where
  "small v \<longleftrightarrow> (\<forall>n \<in> set_option v. 0 \<le> n \<and> n < 10 ^ 18)"

text \<open>
  The options whose values fit on a line of a metadata file and are read back as they are; a
  gateway comes with an address, which the creation checks.
\<close>

definition clean_opts :: "create_opts \<Rightarrow> bool" where
  "clean_opts c \<longleftrightarrow> clean (net_type (c_net c)) \<and> clean_opt (net_bridge (c_net c)) \<and>
     clean_opt (c_ip c) \<and> clean_opt (c_gateway c) \<and> clean_opt (c_dns c) \<and> clean_opt (c_searchdomain c) \<and>
     clean_opt (c_timezone c) \<and> (\<forall>e \<in> set (c_env c). clean e \<and> e \<noteq> []) \<and>
     small (c_memory c) \<and> small (c_cores c) \<and> clean (c_mac c) \<and>
     (truthy (c_gateway c) \<longrightarrow> truthy (c_ip c))"

lemma clean_prefix: "clean v \<Longrightarrow> v \<noteq> [] \<Longrightarrow> k \<noteq> [] \<Longrightarrow> clean k \<Longrightarrow> clean (k @ CHR ''='' # v)"
  by (auto simp: clean_def stripped_def no_breaks_def py_linebreak_def cp_def)

lemma clean_net_parts:
  assumes "clean_opts c" "x \<in> set (net_parts c)"
  shows "clean x \<and> x \<noteq> []"
proof -
  have k: "clean ''ip''" "clean ''gateway''" "clean ''dns''" "clean ''searchdomain''" by code_simp+
  have v: "clean (the u)" "the u \<noteq> []" if "truthy u" "clean_opt u" for u
    using that by (cases u; simp add: clean_opt_def)+
  from assms(2) show ?thesis
    unfolding net_parts_def using assms(1) clean_prefix [OF v _ k(1)] clean_prefix [OF v _ k(2)]
      clean_prefix [OF v _ k(3)] clean_prefix [OF v _ k(4)]
    by (auto simp: clean_opts_def split: if_splits)
qed

section \<open>What the rebuilt options are\<close>

lemma same_config:
  assumes "port = None \<longleftrightarrow> c_ports c = None"
  shows "generate_pve_config machine name cdir fs
     \<lparr>o_bridge = net_bridge (c_net c), o_net_type = Some (net_type (c_net c)), o_nesting = c_nesting c,
      o_ip = kept (c_ip c), o_gateway = kept (c_gateway c), o_nameserver = kept (c_dns c),
      o_searchdomain = kept (c_searchdomain c), o_timezone = kept (c_timezone c), o_env = c_env c,
      o_port = port, o_memory = c_memory c, o_cores = c_cores c, o_hookscript = hs,
      o_unprivileged = c_unprivileged c\<rparr> =
    generate_pve_config machine name cdir fs (create_pve_opts c hs)"
proof -
  have k: "(if truthy (kept v) then f (the (kept v)) else d) = (if truthy v then f (the v) else d)" for v f and d :: "'a list"
    by (simp add: kept_def)
  have "port = None \<longleftrightarrow> map_option (\<lambda>_. []) (c_ports c) = (None :: string option)" using assms by simp
  then have "hook_lines h \<lparr>o_bridge = net_bridge (c_net c), o_net_type = Some (net_type (c_net c)), o_nesting = c_nesting c,
      o_ip = kept (c_ip c), o_gateway = kept (c_gateway c), o_nameserver = kept (c_dns c),
      o_searchdomain = kept (c_searchdomain c), o_timezone = kept (c_timezone c), o_env = c_env c,
      o_port = port, o_memory = c_memory c, o_cores = c_cores c, o_hookscript = hs,
      o_unprivileged = c_unprivileged c\<rparr> = hook_lines h (create_pve_opts c hs)" for h
    by (simp add: hook_lines_def create_pve_opts_def Let_def)
  then show ?thesis
    unfolding generate_pve_config_def pve_own_lines_def
    by (simp add: create_pve_opts_def net_lines_def net0_line_def opt_line_def k)
qed

lemma meta_after: "fs f = Some (v @ [LF]) \<Longrightarrow> clean v \<Longrightarrow> read_meta fs f = Some v"
  by (simp add: read_meta_def clean_line)

lemma meta_int_after: "small v \<Longrightarrow> fs f = map_option (\<lambda>n. int_str n @ [LF]) v \<Longrightarrow> meta_int (read_meta fs f) None = Inr v"
proof (cases v)
  case None
  then show "fs f = map_option (\<lambda>n. int_str n @ [LF]) v \<Longrightarrow> ?thesis" by (simp add: read_meta_def meta_int_def)
next
  case (Some n)
  assume s: "small v" and f: "fs f = map_option (\<lambda>n. int_str n @ [LF]) v"
  with Some have n: "0 \<le> n" "n < 10 ^ 18" by (simp_all add: small_def)
  have "read_meta fs f = Some (int_str n)" using f Some meta_after [OF _ clean_int [OF n]] by simp
  moreover have "int_str n \<noteq> []" by (simp add: int_str_def)
  ultimately show ?thesis using int_text(2) [OF n] Some by (simp add: meta_int_def)
qed

lemma meta_opt_after: "clean_opt v \<Longrightarrow> fs f = map_option (\<lambda>s. s @ [LF]) v \<Longrightarrow> read_meta fs f = v"
  by (cases v) (simp_all add: read_meta_def clean_opt_def clean_line)

lemma meta_kept_after: "clean_opt v \<Longrightarrow> fs f = (if truthy v then Some (the v @ [LF]) else None) \<Longrightarrow> read_meta fs f = kept v"
  by (cases v) (simp_all add: read_meta_def clean_opt_def clean_line kept_def)

lemma env_after:
  assumes "\<forall>e \<in> set env. clean e \<and> e \<noteq> []" "fs f = (if env \<noteq> [] then Some (py_join [LF] env @ [LF]) else None)"
  shows "(if truthy (read_meta fs f) then py_splitlines (the (read_meta fs f)) else []) = env"
  using assms clean_lines [of env] by (cases "env = []") (simp_all add: read_meta_def)

lemma net_after:
  assumes "clean_opts c" "fs ''kento-net'' = (if truthy (c_ip c) \<or> truthy (c_dns c) \<or> truthy (c_searchdomain c)
      then Some (py_join [LF] (net_parts c) @ [LF]) else None)"
  shows "parse_net_meta fs =
     \<lparr>m_ip = kept (c_ip c), m_gateway = kept (c_gateway c), m_dns = kept (c_dns c),
      m_searchdomain = kept (c_searchdomain c)\<rparr>"
proof (cases "truthy (c_ip c) \<or> truthy (c_dns c) \<or> truthy (c_searchdomain c)")
  case True
  then have "net_parts c \<noteq> []" by (auto simp: net_parts_def)
  from clean_lines(1) [OF this clean_net_parts [OF assms(1)]] True assms(2) parse_net_parts show ?thesis
    by (simp add: parse_net_meta_def)
next
  case False
  with assms show ?thesis by (simp add: parse_net_meta_def no_net_def clean_opts_def)
qed

section \<open>The files of a created container\<close>

definition lxc_files :: "string \<Rightarrow> create_opts \<Rightarrow> files" where
  "lxc_files name c = do_writes (common_writes name c @ lxc_writes c) Map.empty"

lemma lxc_files_at:
  fixes name :: string and c :: create_opts
  defines "fs \<equiv> lxc_files name c"
  shows "fs ''kento-name'' = Some (name @ [LF])" "fs ''kento-net-type'' = Some (net_type (c_net c) @ [LF])"
    "fs ''kento-bridge'' = map_option (\<lambda>s. s @ [LF]) (net_bridge (c_net c))"
    "fs ''kento-nesting'' = Some ((if c_nesting c then ''1'' else ''0'') @ [LF])"
    "fs ''kento-tz'' = (if truthy (c_timezone c) then Some (the (c_timezone c) @ [LF]) else None)"
    "fs ''kento-env'' = (if c_env c \<noteq> [] then Some (py_join [LF] (c_env c) @ [LF]) else None)"
    "fs ''kento-port'' = map_option unlines (c_ports c)"
    "fs ''kento-memory'' = map_option (\<lambda>n. int_str n @ [LF]) (c_memory c)"
    "fs ''kento-cores'' = map_option (\<lambda>n. int_str n @ [LF]) (c_cores c)"
    "fs ''kento-unprivileged'' = (if c_unprivileged c then Some (''1'' @ [LF]) else None)"
    "fs ''kento-net'' = (if truthy (c_ip c) \<or> truthy (c_dns c) \<or> truthy (c_searchdomain c)
      then Some (py_join [LF] (net_parts c) @ [LF]) else None)"
  unfolding fs_def lxc_files_def
  by (simp_all add: do_writes_wrote common_writes_def lxc_writes_def option.map_comp o_def cong: if_cong split del: if_split)

lemma flag_after: "clean ''1'' \<and> clean ''0''"
  by (simp add: clean_def stripped_def no_breaks_def py_isspace_def py_linebreak_def cp_def)

lemma emit_after_create:
  fixes machine :: string and snippet_ref :: "int \<Rightarrow> string" and cdir :: ppath
  assumes c: "clean_opts c" and name: "clean (s_name s)" "s_name s \<noteq> []"
    and vmid: "s_dir s = int_str (s_vmid s)" "0 \<le> s_vmid s" "s_vmid s < 10 ^ 18"
    and fs: "\<And>f. f \<noteq> ''kento-idmap-range'' \<Longrightarrow> fs f = lxc_files (s_name s) c f"
  defines "conf \<equiv> generate_pve_config machine (s_name s) cdir (lxc_files (s_name s) c)
     (create_pve_opts c (if needs_snippets c then Some (snippet_ref (s_vmid s)) else None))"
  shows "emit_pve machine snippet_ref cdir (s_dir s) fs =
    (if c_unprivileged c then bindE (pve_idmap_range conf) (\<lambda>(b, n).
       Inr (s_vmid s, fs(''kento-idmap-range'' \<mapsto> int_str b @ '' '' @ int_str n @ [LF]), conf))
     else Inr (s_vmid s, fs, conf))"
proof -
  have f: "fs ''kento-name'' = Some (s_name s @ [LF])" "fs ''kento-net-type'' = Some (net_type (c_net c) @ [LF])"
    "fs ''kento-bridge'' = map_option (\<lambda>s. s @ [LF]) (net_bridge (c_net c))"
    "fs ''kento-nesting'' = Some ((if c_nesting c then ''1'' else ''0'') @ [LF])"
    "fs ''kento-tz'' = (if truthy (c_timezone c) then Some (the (c_timezone c) @ [LF]) else None)"
    "fs ''kento-env'' = (if c_env c \<noteq> [] then Some (py_join [LF] (c_env c) @ [LF]) else None)"
    "fs ''kento-port'' = map_option unlines (c_ports c)"
    "fs ''kento-memory'' = map_option (\<lambda>n. int_str n @ [LF]) (c_memory c)"
    "fs ''kento-cores'' = map_option (\<lambda>n. int_str n @ [LF]) (c_cores c)"
    "fs ''kento-unprivileged'' = (if c_unprivileged c then Some (''1'' @ [LF]) else None)"
    "fs ''kento-net'' = (if truthy (c_ip c) \<or> truthy (c_dns c) \<or> truthy (c_searchdomain c)
      then Some (py_join [LF] (net_parts c) @ [LF]) else None)"
    by (simp_all add: fs lxc_files_at)
  note c' = c [unfolded clean_opts_def]
  have m: "read_meta fs ''kento-name'' = Some (s_name s)" "read_meta fs ''kento-net-type'' = Some (net_type (c_net c))"
    "read_meta fs ''kento-nesting'' = Some (if c_nesting c then ''1'' else ''0'')"
    "read_meta fs ''kento-unprivileged'' = (if c_unprivileged c then Some ''1'' else None)"
    using c' name(1) flag_after clean_line [of "''1''"] clean_line [of "''0''"]
    by (simp_all add: read_meta_def f clean_line)
  have br: "read_meta fs ''kento-bridge'' = net_bridge (c_net c)" using c' by (intro meta_opt_after f(3)) simp
  have tz: "read_meta fs ''kento-tz'' = kept (c_timezone c)" using c' by (intro meta_kept_after f(5)) simp
  have nn: "nonempty_or (Some (s_name s)) (s_dir s) = s_name s" using name(2) by (simp add: nonempty_or_def)
  have av: "adopt_vmid (s_dir s) fs ''pve'' = Inr (s_vmid s)"
    using int_text(2) [OF vmid(2,3)] by (simp add: adopt_vmid_def orphan_vmid_def vmid(1))
  have mi: "meta_int (read_meta fs ''kento-memory'') None = Inr (c_memory c)"
    "meta_int (read_meta fs ''kento-cores'') None = Inr (c_cores c)"
    using c' f by (auto intro: meta_int_after)
  have env: "(if truthy (read_meta fs ''kento-env'') then py_splitlines (the (read_meta fs ''kento-env'')) else []) = c_env c"
    using c' f(6) by (intro env_after) auto
  have hs: "(if fs ''kento-port'' \<noteq> None \<or> fs ''kento-memory'' \<noteq> None \<or> fs ''kento-cores'' \<noteq> None
      then Some (snippet_ref (s_vmid s)) else None) = (if needs_snippets c then Some (snippet_ref (s_vmid s)) else None)"
    by (simp add: f needs_snippets_def)
  have port: "read_meta fs ''kento-port'' = None \<longleftrightarrow> c_ports c = None" by (simp add: read_meta_def f)
  have args: "generate_pve_config machine n cdir fs p = generate_pve_config machine n cdir (lxc_files (s_name s) c) p" for n p
    by (simp add: generate_pve_config_def fs)
  have gen: "generate_pve_config machine (s_name s) cdir fs
     \<lparr>o_bridge = net_bridge (c_net c), o_net_type = Some (net_type (c_net c)), o_nesting = c_nesting c,
      o_ip = kept (c_ip c), o_gateway = kept (c_gateway c), o_nameserver = kept (c_dns c),
      o_searchdomain = kept (c_searchdomain c), o_timezone = kept (c_timezone c), o_env = c_env c,
      o_port = read_meta fs ''kento-port'', o_memory = c_memory c, o_cores = c_cores c,
      o_hookscript = (if needs_snippets c then Some (snippet_ref (s_vmid s)) else None),
      o_unprivileged = c_unprivileged c\<rparr> = conf"
    unfolding args conf_def by (rule same_config [OF port])
  have net: "parse_net_meta fs = \<lparr>m_ip = kept (c_ip c), m_gateway = kept (c_gateway c), m_dns = kept (c_dns c),
      m_searchdomain = kept (c_searchdomain c)\<rparr>"
    by (rule net_after) (use c f(11) in simp_all)
  have flags: "(Some (if c_nesting c then ''1'' else ''0'') = Some ''1'') = c_nesting c"
    "((if c_unprivileged c then Some ''1'' else None) = Some ''1'') = c_unprivileged c" by simp_all
  show ?thesis
    unfolding emit_pve_def Let_def m nn av bindE.simps hs mi br tz env net flags net_meta.simps gen
    by (rule refl)
qed

section \<open>The files of a created VM\<close>

definition vm_files :: "string \<Rightarrow> create_opts \<Rightarrow> int \<Rightarrow> int \<Rightarrow> int \<Rightarrow> files" where
  "vm_files name c vmid mem cores = do_writes (common_writes name c @ vm_writes c vmid mem cores) Map.empty"

lemma vm_files_at:
  fixes name :: string and c :: create_opts and vmid mem cores :: int
  defines "fs \<equiv> vm_files name c vmid mem cores"
  assumes "c_mode c = ''pve-vm''"
  shows "fs ''kento-name'' = Some (name @ [LF])" "fs ''kento-net-type'' = Some (net_type (c_net c) @ [LF])"
    "fs ''kento-bridge'' = map_option (\<lambda>s. s @ [LF]) (net_bridge (c_net c))"
    "fs ''kento-memory'' = Some (int_str mem @ [LF])" "fs ''kento-cores'' = Some (int_str cores @ [LF])"
    "fs ''kento-mac'' = Some (c_mac c @ [LF])" "fs ''kento-vmid'' = Some (int_str vmid @ [LF])"
  unfolding fs_def vm_files_def using assms(2)
  by (simp_all add: do_writes_wrote common_writes_def vm_writes_def option.map_comp o_def cong: if_cong split del: if_split)

lemma emit_after_create_vm:
  assumes c: "clean_opts c" and name: "clean (s_name s)" "s_name s \<noteq> []" and mode: "c_mode c = ''pve-vm''"
    and n: "0 \<le> s_vmid s" "s_vmid s < 10 ^ 18" "0 \<le> mem" "mem < 10 ^ 18" "0 \<le> cores" "cores < 10 ^ 18"
    and fs: "fs = vm_files (s_name s) c (s_vmid s) mem cores"
    and gen: "generate_qm_config (s_name s) cdir fs
           \<lparr>q_hookscript = snippet_ref (s_vmid s), q_memory = mem, q_cores = cores, q_machine = vd_machine vd,
            q_bridge = net_bridge (c_net c), q_net_type = Some (net_type (c_net c)), q_kvm = vd_kvm vd,
            q_mac = Some (c_mac c)\<rparr> = Inr conf"
  shows "emit_pve_vm snippet_ref vd cdir d fs = Inr (s_vmid s, fs, conf)"
    "adopt_vmid d fs ''pve-vm'' = Inr (s_vmid s)" "read_meta fs ''kento-net-type'' = Some (net_type (c_net c))"
proof -
  note f = vm_files_at [OF mode, of "s_name s" "s_vmid s" mem cores, folded fs]
  note c' = c [unfolded clean_opts_def]
  have m: "read_meta fs ''kento-name'' = Some (s_name s)" "read_meta fs ''kento-net-type'' = Some (net_type (c_net c))"
    "read_meta fs ''kento-mac'' = Some (c_mac c)" "read_meta fs ''kento-vmid'' = Some (int_str (s_vmid s))"
    "read_meta fs ''kento-memory'' = Some (int_str mem)" "read_meta fs ''kento-cores'' = Some (int_str cores)"
    using c' name(1) clean_int [OF n(1,2)] clean_int [OF n(3,4)] clean_int [OF n(5,6)]
    by (auto intro!: meta_after simp: f)
  have br: "read_meta fs ''kento-bridge'' = net_bridge (c_net c)" using c' by (intro meta_opt_after f(3)) simp
  have nn: "nonempty_or (Some (s_name s)) d = s_name s" using name(2) by (simp add: nonempty_or_def)
  show av: "adopt_vmid d fs ''pve-vm'' = Inr (s_vmid s)"
    using int_text(2) [OF n(1,2)] by (simp add: adopt_vmid_def orphan_vmid_def m)
  have "int_str k \<noteq> []" for k by (simp add: int_str_def)
  then have mi: "meta_int (Some (int_str mem)) v = Inr (Some mem)" "meta_int (Some (int_str cores)) v = Inr (Some cores)" for v
    using int_text(2) [OF n(3,4)] int_text(2) [OF n(5,6)] by (simp_all add: meta_int_def)
  show "emit_pve_vm snippet_ref vd cdir d fs = Inr (s_vmid s, fs, conf)"
    unfolding emit_pve_vm_def Let_def m nn av bindE.simps mi br option.sel gen by (rule refl)
  show "read_meta fs ''kento-net-type'' = Some (net_type (c_net c))" by (rule m(2))
qed

section \<open>Properties\<close>

lemma adopt_gone:
  "is_pve_mode mode \<Longrightarrow> adopt_vmid d fs mode = Inr vmid \<Longrightarrow> read_meta fs ''kento-net-type'' \<noteq> None \<Longrightarrow>
     (\<And>m. config_exists (int_str vmid) m = Inr False) \<Longrightarrow> adopt True config_exists emit d fs mode = emit d fs"
  by (auto simp: adopt_def probe_vmid_def)

text \<open>
  C33. The configuration that \<^verbatim>\<open>adopt\<close> rebuilds for a PVE container is, to the character, the one
  the creation wrote, under the same VM id, and the metadata files stay as they were: nothing the
  configuration depends on is missing from the metadata.
\<close>
theorem adopt_restores_config:
  assumes "create_pve machine snippet_ref cdir s c Map.empty = Inr (fs, conf)" "clean_opts c"
    "clean (s_name s)" "s_name s \<noteq> []" "s_dir s = int_str (s_vmid s)" "0 \<le> s_vmid s" "s_vmid s < 10 ^ 18"
    "\<And>m. config_exists (int_str (s_vmid s)) m = Inr False"
  shows "adopt True config_exists (emit_pve machine snippet_ref cdir) (s_dir s) fs ''pve'' = Inr (s_vmid s, fs, conf)"
proof -
  let ?l = "lxc_files (s_name s) c"
  let ?conf = "generate_pve_config machine (s_name s) cdir ?l
     (create_pve_opts c (if needs_snippets c then Some (snippet_ref (s_vmid s)) else None))"
  have r: "(if c_unprivileged c then bindE (pve_idmap_range ?conf) (\<lambda>(b, n).
       Inr (?l(''kento-idmap-range'' \<mapsto> int_str b @ '' '' @ int_str n @ [LF]), ?conf))
     else Inr (?l, ?conf)) = Inr (fs, conf)"
    using assms(1) unfolding create_pve_def lxc_files_def Let_def .
  have fs: "f \<noteq> ''kento-idmap-range'' \<Longrightarrow> fs f = ?l f" for f
    using r by (auto split: if_splits)
  have "emit_pve machine snippet_ref cdir (s_dir s) fs = Inr (s_vmid s, fs, conf)"
  proof -
    have "emit_pve machine snippet_ref cdir (s_dir s) fs =
      (if c_unprivileged c then bindE (pve_idmap_range ?conf) (\<lambda>(b, n).
         Inr (s_vmid s, fs(''kento-idmap-range'' \<mapsto> int_str b @ '' '' @ int_str n @ [LF]), ?conf))
       else Inr (s_vmid s, fs, ?conf))"
      by (rule emit_after_create [OF assms(2-7) fs])
    then show ?thesis using r by (cases "c_unprivileged c") (auto simp del: append.simps)
  qed
  moreover have "adopt_vmid (s_dir s) fs ''pve'' = Inr (s_vmid s)"
    using int_text(2) [OF assms(6,7)] by (simp add: adopt_vmid_def orphan_vmid_def assms(5))
  moreover have "read_meta fs ''kento-net-type'' \<noteq> None"
    by (simp add: read_meta_def fs lxc_files_at)
  ultimately show ?thesis
    using adopt_gone [of "''pve''" "s_dir s" fs "s_vmid s" config_exists "emit_pve machine snippet_ref cdir"] assms(8)
    by (simp add: is_pve_mode_def)
qed

text \<open>
  The same for a PVE VM, as long as the defaults that are not recorded, the machine type and
  KVM, are those of the creation.
\<close>
theorem adopt_restores_qm_config:
  assumes "create_pve_vm snippet_ref machine kvm cdir s c mem cores Map.empty = Inr (fs, conf)" "clean_opts c"
    "clean (s_name s)" "s_name s \<noteq> []" "c_mode c = ''pve-vm''" "0 \<le> s_vmid s" "s_vmid s < 10 ^ 18"
    "0 \<le> mem" "mem < 10 ^ 18" "0 \<le> cores" "cores < 10 ^ 18" "vd_machine vd = machine" "vd_kvm vd = kvm"
    "\<And>m. config_exists (int_str (s_vmid s)) m = Inr False"
  shows "adopt True config_exists (emit_pve_vm snippet_ref vd cdir) d fs ''pve-vm'' = Inr (s_vmid s, fs, conf)"
proof -
  from assms(1) have fs: "fs = vm_files (s_name s) c (s_vmid s) mem cores"
    and gen: "generate_qm_config (s_name s) cdir fs
           \<lparr>q_hookscript = snippet_ref (s_vmid s), q_memory = mem, q_cores = cores, q_machine = vd_machine vd,
            q_bridge = net_bridge (c_net c), q_net_type = Some (net_type (c_net c)), q_kvm = vd_kvm vd,
            q_mac = Some (c_mac c)\<rparr> = Inr conf"
    using assms(12,13) by (auto simp: create_pve_vm_def vm_files_def Let_def)
  note e = emit_after_create_vm [where snippet_ref = snippet_ref and vd = vd and cdir = cdir, OF assms(2-11) fs gen]
  have "adopt True config_exists (emit_pve_vm snippet_ref vd cdir) d fs ''pve-vm'' = emit_pve_vm snippet_ref vd cdir d fs"
    by (rule adopt_gone [where vmid = "s_vmid s"]) (use e(2,3) assms(14) in \<open>simp_all add: is_pve_mode_def\<close>)
  with e(1) show ?thesis by simp
qed

text \<open>A creation with a static address, an environment and a memory limit.\<close>

definition sample_opts :: "string \<Rightarrow> create_opts" where
  "sample_opts mode =
     \<lparr>c_image = ''web:1'', c_image_id = [], c_layers = ''/l'', c_state_dir = ''/s'', c_mode = mode, c_hostname = None,
      c_net = \<lparr>net_type = ''bridge'', net_bridge = Some ''br0'', net_port = None\<rparr>,
      c_qemu_args = [], c_pve_args = [], c_lxc_args = [], c_ip = Some ''10.0.0.2/24'', c_gateway = Some ''10.0.0.1'',
      c_dns = None, c_searchdomain = None, c_timezone = None, c_env = [''A=1''], c_ssh_keys = None,
      c_ssh_user = ''root'', c_config_mode = ''injection'', c_mac = ''52:54:00:00:00:01'', c_memory = Some 8,
      c_cores = None, c_nesting = False, c_kernel = None, c_initramfs = None, c_ports = None, c_unprivileged = False\<rparr>"

lemma sample_clean: "clean_opts (sample_opts mode)"
  by (simp add: clean_opts_def sample_opts_def clean_opt_def small_def clean_def stripped_def no_breaks_def
      py_isspace_def py_linebreak_def cp_def)

lemma sample_name: "clean ''web''"
  by (simp add: clean_def stripped_def no_breaks_def py_isspace_def py_linebreak_def cp_def)

lemma sample_vmid: "int_str 7 = ''7''"
  by code_simp

lemma qm_args_plain: "fs ''kento-port'' = None \<Longrightarrow> fs ''kento-qemu-args'' = None \<Longrightarrow> \<exists>a. generate_qm_args d fs m k = Inr a"
  by (simp add: generate_qm_args_def read_hostfwds_def Let_def split_beta)

theorem adopt_restores_config_witness:
  "\<exists>fs conf. create_pve ''x86_64'' (\<lambda>n. ''local:'' @ int_str n) \<lparr>p_root = ''/'', p_parts = [''d'']\<rparr>
      \<lparr>s_name = ''web'', s_vmid = 7, s_base = LXC_BASE, s_dir = ''7''\<rparr> (sample_opts ''pve'') Map.empty = Inr (fs, conf) \<and>
    adopt True (\<lambda>_ _. Inr False) (emit_pve ''x86_64'' (\<lambda>n. ''local:'' @ int_str n) \<lparr>p_root = ''/'', p_parts = [''d'']\<rparr>)
      ''7'' fs ''pve'' = Inr (7, fs, conf)"
proof -
  let ?s = "\<lparr>s_name = ''web'', s_vmid = 7, s_base = LXC_BASE, s_dir = ''7''\<rparr>"
  let ?d = "\<lparr>p_root = ''/'', p_parts = [''d'']\<rparr>"
  have "\<not> c_unprivileged (sample_opts ''pve'')" by (simp add: sample_opts_def)
  then obtain fs conf where cr: "create_pve ''x86_64'' (\<lambda>n. ''local:'' @ int_str n) ?d ?s (sample_opts ''pve'') Map.empty = Inr (fs, conf)"
    by (simp add: create_pve_def Let_def)
  have "adopt True (\<lambda>_ _. Inr False) (emit_pve ''x86_64'' (\<lambda>n. ''local:'' @ int_str n) ?d) (s_dir ?s) fs ''pve'' = Inr (s_vmid ?s, fs, conf)"
    by (rule adopt_restores_config [OF cr sample_clean]) (simp_all add: sample_name sample_vmid)
  with cr show ?thesis by auto
qed

theorem adopt_restores_qm_config_witness:
  "\<exists>fs conf. create_pve_vm (\<lambda>n. ''local:'' @ int_str n) ''q35'' True \<lparr>p_root = ''/'', p_parts = [''d'']\<rparr>
      \<lparr>s_name = ''web'', s_vmid = 7, s_base = VM_BASE, s_dir = ''web''\<rparr> (sample_opts ''pve-vm'') 8 2 Map.empty = Inr (fs, conf) \<and>
    adopt True (\<lambda>_ _. Inr False) (emit_pve_vm (\<lambda>n. ''local:'' @ int_str n)
        \<lparr>vd_memory = 5, vd_cores = 1, vd_machine = ''q35'', vd_kvm = True\<rparr> \<lparr>p_root = ''/'', p_parts = [''d'']\<rparr>)
      ''web'' fs ''pve-vm'' = Inr (7, fs, conf)"
proof -
  let ?s = "\<lparr>s_name = ''web'', s_vmid = 7, s_base = VM_BASE, s_dir = ''web''\<rparr>"
  let ?d = "\<lparr>p_root = ''/'', p_parts = [''d'']\<rparr>"
  let ?c = "sample_opts ''pve-vm''"
  let ?vd = "\<lparr>vd_memory = 5, vd_cores = 1, vd_machine = ''q35'', vd_kvm = True\<rparr>"
  let ?fs = "do_writes (common_writes ''web'' ?c @ vm_writes ?c 7 8 2) Map.empty"
  have f: "?fs ''kento-port'' = None" "?fs ''kento-qemu-args'' = None"
    by (simp_all add: do_writes_wrote common_writes_def vm_writes_def sample_opts_def cong: if_cong split del: if_split)
  obtain a where "generate_qm_args ?d ?fs 8 True = Inr a"
    using qm_args_plain [OF f] by blast
  then obtain fs conf where cr: "create_pve_vm (\<lambda>n. ''local:'' @ int_str n) ''q35'' True ?d ?s ?c 8 2 Map.empty = Inr (fs, conf)"
    by (simp add: create_pve_vm_def generate_qm_config_def Let_def)
  have "adopt True (\<lambda>_ _. Inr False) (emit_pve_vm (\<lambda>n. ''local:'' @ int_str n) ?vd ?d) ''web'' fs ''pve-vm'' = Inr (s_vmid ?s, fs, conf)"
    by (rule adopt_restores_qm_config [OF cr sample_clean]) (simp_all add: sample_name, simp add: sample_opts_def)
  with cr show ?thesis by auto
qed

section \<open>The recorded id range\<close>

lemma idmap_chars: "anchored (rx_match IDMAP_RE) l \<Longrightarrow> CHR '':'' \<notin> set l"
proof
  assume "anchored (rx_match IDMAP_RE) l" "CHR '':'' \<in> set l"
  then have "rx_chars IDMAP_RE (CHR '':'')" using anchored_chars by fastforce
  then show False
    by (simp add: IDMAP_RE_def SPACES_def py_isspace_def is_digit_def cp_def)
qed

lemma idmap_from_skip: "\<forall>l \<in> set ls. CHR '':'' \<in> set l \<Longrightarrow> idmap_from (ls @ ms) = idmap_from ms"
  by (induction ls) (auto dest: idmap_chars)

lemma rep_skip: "rx_match q s \<Longrightarrow> rx_match (Cat (Rep r) q) s"
  by (auto simp: rx_match_lang intro: lang_rep0)

lemma rep_one: "p c \<Longrightarrow> rx_match (Cat (Rep (Cls p)) q) s \<Longrightarrow> rx_match (Cat (Rep (Cls p)) q) (c # s)"
  unfolding rx_match_lang rx_lang_simps by (metis append_Cons append_Nil lang_cls lang_rep)

lemma cat_plus: "u \<noteq> [] \<Longrightarrow> \<forall>c \<in> set u. p c \<Longrightarrow> rx_match q v \<Longrightarrow> rx_match (Cat (Plus (Cls p)) q) (u @ v)"
  using Plus_nonempty [of p u] by (auto simp: rx_match_lang)

lemma cat_chr: "rx_match q s \<Longrightarrow> rx_match (Cat (Chr c) q) (c # s)"
  by (simp add: Chr_def Cat_Cls)

lemma nat_text: "nat_str n \<noteq> [] \<and> (\<forall>c \<in> set (nat_str n). is_digit c)"
  using nat_str_digits by simp

lemma space_is: "py_isspace (CHR '' '')"
  by (simp add: py_isspace_def cp_def)

definition idmap_line :: "nat \<Rightarrow> nat \<Rightarrow> string" where
  "idmap_line b n = ''lxc.idmap = u 0 '' @ nat_str b @ '' '' @ nat_str n"

lemma idmap_line_matches: "anchored (rx_match IDMAP_RE) (idmap_line b n)"
proof -
  have e: "rx_match SPACES []" by (simp add: SPACES_def)
  have n: "rx_match (Cat (Plus (Cls is_digit)) SPACES) (nat_str n)"
    using cat_plus [OF _ _ e, of "nat_str n" is_digit] nat_text [of n] by simp
  have sp: "rx_match (Cat (Plus (Cls py_isspace)) q) (CHR '' '' # s)" if "rx_match q s" for q s
    using cat_plus [of "'' ''" py_isspace q s] that space_is by simp
  have b: "rx_match (Cat (Plus (Cls is_digit)) (Cat (Plus (Cls py_isspace)) (Cat (Plus (Cls is_digit)) SPACES)))
      (nat_str b @ '' '' @ nat_str n)"
    unfolding append_Cons append_Nil by (rule cat_plus [OF _ _ sp [OF n]]) (use nat_text [of b] in auto)
  have r: "rx_match (Cat SPACES q) s" if "rx_match q s" for q s
    unfolding SPACES_def using that by (rule rep_skip)
  have r1: "rx_match (Cat SPACES q) (CHR '' '' # s)" if "rx_match (Cat SPACES q) s" for q s
    unfolding SPACES_def using space_is that unfolding SPACES_def by (rule rep_one)
  show ?thesis
    unfolding IDMAP_RE_def idmap_line_def append_Cons append_Nil
    by (intro anchoredI r cat_chr r1 sp b [unfolded append_Cons append_Nil])
qed

lemma words_from_plain: "\<forall>c \<in> set u. \<not> py_isspace c \<Longrightarrow> words_from acc (u @ v) = words_from (acc @ u) v"
  by (induction u arbitrary: acc) simp_all

lemma idmap_words: "rev (py_words (idmap_line b n)) = [nat_str n, nat_str b, ''0'', ''u'', ''='', ''lxc.idmap'']"
proof -
  have d: "\<forall>c \<in> set (nat_str k). \<not> py_isspace c" for k using nat_str_digits is_digit_not_space by blast
  have n: "words_from [] (nat_str n) = [nat_str n]" using words_from_plain [OF d, of "[]" n "[]"] by simp
  have "words_from [] (nat_str b @ '' '' @ nat_str n) = [nat_str b, nat_str n]"
    using n by (simp add: words_from_plain [OF d] space_is)
  moreover have "words_from [] (''lxc.idmap = u 0 '' @ s) = ''lxc.idmap'' # ''='' # ''u'' # ''0'' # words_from [] s" for s
    by (simp add: py_isspace_def cp_def)
  ultimately show ?thesis by (simp add: py_words_def idmap_line_def)
qed

text \<open>
  The range recorded for an unprivileged container is that of the first line
  \<^verbatim>\<open>lxc.idmap = u 0 B C\<close> of the configuration.  A configuration all of whose lines are in the
  colon form that PVE and the generator itself write is recorded with the default range,
  whatever mapping its lines set.
\<close>
theorem idmap_range_decides:
  assumes "\<forall>l \<in> set pre. CHR '':'' \<in> set l" "\<forall>l \<in> set post. CHR '':'' \<in> set l"
  shows "(py_splitlines conf = pre @ post \<longrightarrow> pve_idmap_range conf = Inr (100000, 65536)) \<and>
    (py_splitlines conf = pre @ idmap_line b n # rest \<and> b < 10 ^ 18 \<and> n < 10 ^ 18 \<longrightarrow>
       pve_idmap_range conf = Inr (int b, int n))"
proof (intro conjI impI)
  show "py_splitlines conf = pre @ post \<Longrightarrow> pve_idmap_range conf = Inr (100000, 65536)"
    using idmap_from_skip [OF assms(1), of post] idmap_from_skip [OF assms(2), of "[]"]
    by (simp add: pve_idmap_range_def)
  assume "py_splitlines conf = pre @ idmap_line b n # rest \<and> b < 10 ^ 18 \<and> n < 10 ^ 18"
  then have l: "py_splitlines conf = pre @ idmap_line b n # rest" "b < 10 ^ 18" "n < 10 ^ 18" by simp_all
  have "py_int (nat_str b) = Some (int b)" "py_int (nat_str n) = Some (int n)"
    using int_text(2) [of "int b"] int_text(2) [of "int n"] l(2,3) by (simp_all add: int_str_def)
  then show "pve_idmap_range conf = Inr (int b, int n)"
    using idmap_from_skip [OF assms(1), of "idmap_line b n # rest"] idmap_line_matches [of b n] l(1)
    by (simp add: pve_idmap_range_def idmap_words Let_def)
qed

theorem idmap_range_decides_witness:
  "pve_idmap_range (unlines [''arch: amd64'', ''lxc.idmap: u 0 7 9'']) = Inr (100000, 65536) \<and>
   pve_idmap_range (unlines [''arch: amd64'', ''lxc.idmap = u 0 7 9'']) = Inr (int 7, int 9)"
proof -
  have a: "py_splitlines (unlines [''arch: amd64'', ''lxc.idmap: u 0 7 9'']) = [''arch: amd64''] @ [''lxc.idmap: u 0 7 9'']"
    by code_simp
  have b: "py_splitlines (unlines [''arch: amd64'', ''lxc.idmap = u 0 7 9'']) = [''arch: amd64''] @ idmap_line 7 9 # []"
    by code_simp
  show ?thesis
    using idmap_range_decides [of "[''arch: amd64'']" "[''lxc.idmap: u 0 7 9'']"] a
      idmap_range_decides [of "[''arch: amd64'']" "[]" _ 7 9 "[]"] b by simp
qed

end
