(* ===== verification/Orphans.thy ===== *)
theory Orphans imports Reconcile begin

text \<open>
  The search for orphans, reaping and removal of \<^verbatim>\<open>Reconcile\<close>: what is found, what a removal
  touches, and that reaping acts on the orphans only.
\<close>

section \<open>The store under removals\<close>

lemma entries_set_base [simp]: "entries_of (set_base st b es) b' = (if b' = b then es else entries_of st b')"
  by (cases b; cases b') (simp_all add: set_base_def entries_of_def)

lemma entries_remove [simp]:
  "entries_of (remove_dir st b d) b' = (if b' = b then filter (\<lambda>(n, e). n \<noteq> d) (entries_of st b) else entries_of st b')"
  by (simp add: remove_dir_def)

definition files_at :: "store \<Rightarrow> base \<Rightarrow> string \<Rightarrow> files" where
  "files_at st b d = (case map_of (entries_of st b) d of Some (EDir fs) \<Rightarrow> fs | _ \<Rightarrow> Map.empty)"

definition reap_destroy :: "(orphan \<Rightarrow> answers) \<Rightarrow> (orphan \<Rightarrow> string) \<Rightarrow> orphan \<Rightarrow> world \<Rightarrow> (exc + unit) \<times> world" where
  "reap_destroy ans cdir x w =
     (let (b, d) = or_dir x
      in destroy_dir (ans x) True b d (files_at (w_store w) b d) (or_mode x) (cdir x) w)"

section \<open>What is collected\<close>

definition gone :: "probe \<Rightarrow> string \<Rightarrow> files \<Rightarrow> bool" where
  "gone config_exists d fs \<longleftrightarrow> (let mode = read_mode fs ''lxc'' in is_pve_mode mode \<and>
     (case orphan_vmid d fs mode of None \<Rightarrow> True | Some v \<Rightarrow> config_exists v mode = Inr False))"

text \<open>The probes of the file system raise only \<^verbatim>\<open>OSError\<close> and its subclasses.\<close>

definition only_oserrors :: "probe \<Rightarrow> bool" where
  "only_oserrors config_exists \<longleftrightarrow> (\<forall>x y e. config_exists x y = Inl e \<longrightarrow> OSErrorC \<in> set (mro e))"

lemma collect_orphans_filter:
  assumes "only_oserrors config_exists"
  shows "collect_orphans config_exists xs = Inr (map (\<lambda>(b, d, fs). describe b d fs (read_mode fs ''lxc''))
     (filter (\<lambda>(b, d, fs). gone config_exists d fs) xs))"
proof (induction xs)
  case Nil
  then show ?case by simp
next
  case (Cons x xs)
  obtain b d fs where x: "x = (b, d, fs)" by (cases x) auto
  let ?m = "read_mode fs ''lxc''"
  have "\<exists>o3. is_orphan config_exists d fs ?m = Inr o3 \<and> (is_pve_mode ?m \<and> o3 = Some True \<longleftrightarrow> gone config_exists d fs)"
    using assms unfolding only_oserrors_def by (auto simp: is_orphan_def gone_def Let_def split: option.splits sum.splits)
  with Cons show ?case by (auto simp: x Let_def)
qed

lemma with_image_iff: "(b', d, fs) \<in> set (with_image b es) \<longleftrightarrow> b' = b \<and> (d, EDir fs) \<in> set es \<and> fs ''kento-image'' \<noteq> None"
  by (induction b es rule: with_image.induct) auto

definition scope_name :: "base \<Rightarrow> string" where
  "scope_name b = (case b of LXC_BASE \<Rightarrow> ''lxc'' | VM_BASE \<Rightarrow> ''vm'')"

definition candidates :: "store \<Rightarrow> string option \<Rightarrow> (base \<times> string \<times> files) set" where
  "candidates st scope = {(b, d, fs). in_scope scope (scope_name b) \<and> (d, EDir fs) \<in> set (entries_of st b) \<and> fs ''kento-image'' \<noteq> None}"

lemma find_orphans_filter:
  assumes "only_oserrors config_exists"
  shows "\<exists>xs. set xs = {(b, d, fs) \<in> candidates st scope. gone config_exists d fs} \<and> sorted (map (\<lambda>(b, d, fs). d) xs) \<and>
    find_orphans config_exists st scope = Inr (map (\<lambda>(b, d, fs). describe b d fs (read_mode fs ''lxc'')) xs)"
proof -
  let ?all = "(if in_scope scope ''lxc'' then with_image LXC_BASE (entries_of st LXC_BASE) else []) @
        (if in_scope scope ''vm'' then with_image VM_BASE (entries_of st VM_BASE) else [])"
  let ?xs = "filter (\<lambda>(b, d, fs). gone config_exists d fs) (sort_key (\<lambda>(b, d, fs). d) ?all)"
  have "(b, d, fs) \<in> set ?all \<longleftrightarrow> (b, d, fs) \<in> candidates st scope" for b d fs
    by (cases b) (simp_all add: with_image_iff candidates_def scope_name_def)
  then have "set ?xs = {(b, d, fs) \<in> candidates st scope. gone config_exists d fs}" by auto
  moreover have "sorted (map (\<lambda>(b, d, fs). d) ?xs)"
    by (rule sorted_filter) simp
  ultimately show ?thesis
    using collect_orphans_filter [OF assms] by (intro exI [of _ ?xs]) (simp add: find_orphans_def)
qed

text \<open>
  The search for orphans always returns, in the order of the directory names, exactly the
  instances in scope that run under PVE and whose configuration is known to be gone (or whose
  VM id was never recorded).  An instance whose probe raised is never among them.
\<close>
theorem find_orphans_exact:
  assumes "only_oserrors config_exists"
  shows "\<exists>os. find_orphans config_exists st scope = Inr os \<and> sorted (map (snd \<circ> or_dir) os) \<and>
    set os = {describe b d fs (read_mode fs ''lxc'') | b d fs.
       in_scope scope (scope_name b) \<and> (d, EDir fs) \<in> set (entries_of st b) \<and> fs ''kento-image'' \<noteq> None \<and>
       is_pve_mode (read_mode fs ''lxc'') \<and>
       (case orphan_vmid d fs (read_mode fs ''lxc'') of None \<Rightarrow> True
        | Some v \<Rightarrow> config_exists v (read_mode fs ''lxc'') = Inr False)}"
proof -
  from find_orphans_filter [OF assms] obtain xs where
    xs: "set xs = {(b, d, fs) \<in> candidates st scope. gone config_exists d fs}" "sorted (map (\<lambda>(b, d, fs). d) xs)"
      "find_orphans config_exists st scope = Inr (map (\<lambda>(b, d, fs). describe b d fs (read_mode fs ''lxc'')) xs)"
    by blast
  let ?os = "map (\<lambda>(b, d, fs). describe b d fs (read_mode fs ''lxc'')) xs"
  have m: "map (snd \<circ> or_dir) (map (\<lambda>(b, d, fs). describe b d fs (read_mode fs ''lxc'')) xs) = map (\<lambda>(b, d, fs). d) xs"
    by (simp add: describe_def split_beta)
  have "set ?os = {describe b d fs (read_mode fs ''lxc'') | b d fs. (b, d, fs) \<in> set xs}"
    by force
  with xs(1) have "set ?os = {describe b d fs (read_mode fs ''lxc'') | b d fs.
       in_scope scope (scope_name b) \<and> (d, EDir fs) \<in> set (entries_of st b) \<and> fs ''kento-image'' \<noteq> None \<and>
       is_pve_mode (read_mode fs ''lxc'') \<and>
       (case orphan_vmid d fs (read_mode fs ''lxc'') of None \<Rightarrow> True
        | Some v \<Rightarrow> config_exists v (read_mode fs ''lxc'') = Inr False)}"
    by (simp add: candidates_def gone_def Let_def conj_assoc)
  moreover have "sorted (map (snd \<circ> or_dir) ?os)" unfolding m by (rule xs(2))
  ultimately show ?thesis using xs(3) by blast
qed


lemma orphan_paths: "or_dir (describe b d fs m) = (b, d)" "or_mode (describe b d fs m) = m"
  by (simp_all add: describe_def)

section \<open>What a removal touches\<close>

text \<open>A forced removal changes no entry but its own, and its configuration only if its id names one.\<close>

lemma delete_config_store: "w_store (snd (delete_config a d fs mode w)) = w_store w"
  by (auto simp: delete_config_def split: option.splits)

lemma destroy_dir_store:
  "w_store (snd (destroy_dir a force b d fs mode cdir w)) = w_store w \<or>
   w_store (snd (destroy_dir a force b d fs mode cdir w)) = remove_dir (w_store w) b d"
  using delete_config_store [of a d fs mode w]
  by (auto simp: destroy_dir_def Let_def split: sum.splits option.splits prod.splits)

lemma destroy_dir_removed:
  "fst (destroy_dir a force b d fs mode cdir w) = Inr () \<Longrightarrow>
   w_store (snd (destroy_dir a force b d fs mode cdir w)) = remove_dir (w_store w) b d"
  using delete_config_store [of a d fs mode w]
  by (auto simp: destroy_dir_def Let_def split: sum.splits option.splits prod.splits if_splits)

text \<open>One store is another with the entries of some directories removed.\<close>

definition shrunk :: "(base \<times> string) set \<Rightarrow> store \<Rightarrow> store \<Rightarrow> bool" where
  "shrunk R st st' \<longleftrightarrow> (\<exists>S\<subseteq>R. \<forall>b. entries_of st' b = filter (\<lambda>(n, e). (b, n) \<notin> S) (entries_of st b))"

lemma shrunk_refl [simp]: "shrunk R st st"
  unfolding shrunk_def by (rule exI [of _ "{}"]) (simp add: filter_True case_prod_beta)

lemma shrunk_remove: "shrunk {(b, d)} st (remove_dir st b d)"
  unfolding shrunk_def by (rule exI [of _ "{(b, d)}"]) (auto simp: filter_True case_prod_beta intro!: filter_cong)

lemma shrunk_trans: "shrunk R st st' \<Longrightarrow> shrunk Q st' st'' \<Longrightarrow> shrunk (R \<union> Q) st st''"
proof -
  assume "shrunk R st st'" "shrunk Q st' st''"
  then obtain S T where "S \<subseteq> R" "\<forall>b. entries_of st' b = filter (\<lambda>(n, e). (b, n) \<notin> S) (entries_of st b)"
      "T \<subseteq> Q" "\<forall>b. entries_of st'' b = filter (\<lambda>(n, e). (b, n) \<notin> T) (entries_of st' b)"
    by (auto simp: shrunk_def)
  then show ?thesis unfolding shrunk_def
    by (intro exI [of _ "S \<union> T"]) (auto simp: case_prod_beta conj_commute intro!: filter_cong)
qed

lemma shrunk_keeps: "shrunk R st st' \<Longrightarrow> (d, e) \<in> set (entries_of st b) \<Longrightarrow> (b, d) \<notin> R \<Longrightarrow> (d, e) \<in> set (entries_of st' b)"
  by (auto simp: shrunk_def)

lemma shrunk_subset: "shrunk R st st' \<Longrightarrow> set (entries_of st' b) \<subseteq> set (entries_of st b)"
  by (auto simp: shrunk_def)

lemma map_of_filter_keys: "map_of (filter (\<lambda>(n, e). n \<notin> S) es) d = (if d \<in> S then None else map_of es d)"
  by (induction es) auto

lemma shrunk_files: "shrunk R st st' \<Longrightarrow> files_at st' b d = files_at st b d \<or> files_at st' b d = Map.empty"
proof -
  assume "shrunk R st st'"
  then obtain S where "entries_of st' b = filter (\<lambda>(n, e). n \<notin> {n. (b, n) \<in> S}) (entries_of st b)"
    by (auto simp: shrunk_def)
  then show ?thesis by (simp add: files_at_def map_of_filter_keys del: mem_Collect_eq)
qed

lemma reap_destroy_shrunk: "shrunk {or_dir x} (w_store w) (w_store (snd (reap_destroy ans cdir x w)))"
  using destroy_dir_store [of "ans x" True "fst (or_dir x)" "snd (or_dir x)" _ "or_mode x" "cdir x" w]
    shrunk_remove [of "fst (or_dir x)" "snd (or_dir x)" "w_store w"]
  by (metis (no_types, lifting) reap_destroy_def case_prod_beta prod.collapse shrunk_refl)

lemma reap_destroy_removed:
  "fst (reap_destroy ans cdir x w) = Inr () \<Longrightarrow> or_dir x = (b, d) \<Longrightarrow>
     \<forall>e. (d, e) \<notin> set (entries_of (w_store (snd (reap_destroy ans cdir x w))) b)"
  using destroy_dir_removed [of "ans x" True b d "files_at (w_store w) b d" "or_mode x" "cdir x" w]
  by (auto simp: reap_destroy_def)

text \<open>The configuration a removal deletes is the one its id names.\<close>

definition names_no_conf :: "string \<Rightarrow> files \<Rightarrow> string \<Rightarrow> world \<Rightarrow> bool" where
  "names_no_conf d fs mode w \<longleftrightarrow>
     (\<forall>v n. orphan_vmid d fs mode = Some v \<longrightarrow> py_int v = Some n \<longrightarrow> (mode, int_str n) \<notin> set (w_confs w))"

lemma filter_absent: "x \<notin> set xs \<Longrightarrow> filter (\<lambda>y. y \<noteq> x) xs = xs"
  by (induction xs) auto

lemma delete_config_confs:
  "is_pve_mode mode \<Longrightarrow> names_no_conf d fs mode w \<Longrightarrow> w_confs (snd (delete_config a d fs mode w)) = w_confs w"
  unfolding names_no_conf_def orphan_vmid_def delete_config_def is_pve_mode_def
  by (cases "read_meta fs ''kento-vmid''") (auto simp: filter_absent split: option.splits)

lemma destroy_dir_confs:
  assumes "is_pve_mode mode" "fs ''kento-image'' = None \<or> names_no_conf d fs mode w"
  shows "w_confs (snd (destroy_dir a force b d fs mode cdir w)) = w_confs w"
  using assms delete_config_confs [of mode d fs w a]
  by (auto simp: destroy_dir_def Let_def split: sum.splits option.splits prod.splits)

section \<open>Reaping\<close>

lemma reap_all_store:
  "reap_all (reap_destroy ans cdir) os w = (res, w') \<Longrightarrow>
     shrunk (or_dir ` set os) (w_store w) (w_store w') \<and> map re_orphan res = os \<and>
     (\<forall>x \<in> set res. re_reaped x \<longrightarrow> (\<forall>e. (snd (or_dir (re_orphan x)), e) \<notin> set (entries_of (w_store w') (fst (or_dir (re_orphan x))))))"
proof (induction os arbitrary: w res w')
  case Nil
  then show ?case by simp
next
  case (Cons x os)
  obtain r w1 where d: "reap_destroy ans cdir x w = (r, w1)" by (cases "reap_destroy ans cdir x w")
  obtain res2 w2 where r2: "reap_all (reap_destroy ans cdir) os w1 = (res2, w2)" by fastforce
  note ih = Cons.IH [OF r2]
  let ?r = "case r of Inr _ \<Rightarrow> \<lparr>re_orphan = x, re_reaped = True, re_error = None\<rparr>
           | Inl e \<Rightarrow> \<lparr>re_orphan = x, re_reaped = False, re_error = Some e\<rparr>"
  from Cons.prems d r2 have res: "res = ?r # res2" "w' = w2" by simp_all
  have s1: "shrunk {or_dir x} (w_store w) (w_store w1)" using reap_destroy_shrunk [of x w ans cdir] d by simp
  with ih have "shrunk (or_dir ` set (x # os)) (w_store w) (w_store w2)"
    using shrunk_trans [OF s1] by (metis image_insert insert_is_Un list.simps(15))
  moreover have "(snd (or_dir x), e) \<notin> set (entries_of (w_store w2) (fst (or_dir x)))" if "re_reaped ?r" for e
  proof -
    from that have "r = Inr ()" by (auto split: sum.splits)
    with reap_destroy_removed [of ans cdir x w] d
    have "(snd (or_dir x), e) \<notin> set (entries_of (w_store w1) (fst (or_dir x)))" by (metis fst_conv prod.collapse snd_conv)
    with ih shrunk_subset show ?thesis by blast
  qed
  moreover have "re_orphan ?r = x" by (cases r) simp_all
  ultimately show ?case using ih res by auto
qed

lemma reap_all_confs:
  assumes "shrunk R st (w_store w)"
    "\<And>x b d. x \<in> set os \<Longrightarrow> or_dir x = (b, d) \<Longrightarrow> is_pve_mode (or_mode x) \<and> names_no_conf d (files_at st b d) (or_mode x) w"
  shows "w_confs (snd (reap_all (reap_destroy ans cdir) os w)) = w_confs w"
  using assms
proof (induction os arbitrary: w R)
  case Nil
  then show ?case by simp
next
  case (Cons x os)
  obtain b d where bd: "or_dir x = (b, d)" by (cases "or_dir x")
  obtain r w1 where w1: "reap_destroy ans cdir x w = (r, w1)" by (cases "reap_destroy ans cdir x w")
  have m: "is_pve_mode (or_mode x)" "names_no_conf d (files_at st b d) (or_mode x) w"
    using Cons.prems(2) [of x b d] bd by simp_all
  with shrunk_files [OF Cons.prems(1), of b d]
  have "files_at (w_store w) b d ''kento-image'' = None \<or> names_no_conf d (files_at (w_store w) b d) (or_mode x) w" by auto
  from destroy_dir_confs [OF m(1) this] bd w1 have c: "w_confs w1 = w_confs w" by (simp add: reap_destroy_def) (metis snd_conv)
  have "shrunk (R \<union> {or_dir x}) st (w_store w1)"
    using shrunk_trans [OF Cons.prems(1) reap_destroy_shrunk [of x w ans cdir]] w1 by simp
  then have "w_confs (snd (reap_all (reap_destroy ans cdir) os w1)) = w_confs w1"
    by (rule Cons.IH) (use Cons.prems(2) c in \<open>simp add: names_no_conf_def\<close>)
  with w1 c show ?case by (simp add: case_prod_beta Let_def)
qed

text \<open>The recorded VM ids are the texts of the integers they stand for, as the creation writes them.\<close>

definition canonical_ids :: "store \<Rightarrow> bool" where
  "canonical_ids st \<longleftrightarrow> (\<forall>b d fs v n. (d, EDir fs) \<in> set (entries_of st b) \<longrightarrow>
     orphan_vmid d fs (read_mode fs ''lxc'') = Some v \<longrightarrow> py_int v = Some n \<longrightarrow> int_str n = v)"

lemma orphans_name_no_conf:
  assumes "only_oserrors config_exists" "find_orphans config_exists (w_store w) scope = Inr os"
    "\<And>b. distinct (map fst (entries_of (w_store w) b))" "canonical_ids (w_store w)"
    "\<And>x m b. config_exists x m = Inr b \<Longrightarrow> b = ((m, x) \<in> set (w_confs w))" "x \<in> set os" "or_dir x = (b, d)"
  shows "is_pve_mode (or_mode x) \<and> names_no_conf d (files_at (w_store w) b d) (or_mode x) w"
proof -
  from find_orphans_filter [OF assms(1), of "w_store w" scope] assms(2,6) obtain xs where
    "set xs = {(b, d, fs) \<in> candidates (w_store w) scope. gone config_exists d fs}"
    "x \<in> set (map (\<lambda>(b, d, fs). describe b d fs (read_mode fs ''lxc'')) xs)" by auto
  then obtain b' d' fs where x: "x = describe b' d' fs (read_mode fs ''lxc'')" "(b', d', fs) \<in> candidates (w_store w) scope"
    "gone config_exists d' fs" by auto
  with assms(7) have b: "b' = b" "d' = d" "or_mode x = read_mode fs ''lxc''" by (auto simp: orphan_paths)
  with x have e: "(d, EDir fs) \<in> set (entries_of (w_store w) b)" by (simp add: candidates_def)
  then have "files_at (w_store w) b d = fs" using assms(3) by (simp add: files_at_def)
  moreover have "names_no_conf d fs (read_mode fs ''lxc'') w"
    unfolding names_no_conf_def
  proof (intro allI impI)
    fix v n assume v: "orphan_vmid d fs (read_mode fs ''lxc'') = Some v" "py_int v = Some n"
    with x(3) b(2) have "config_exists v (read_mode fs ''lxc'') = Inr False" by (simp add: gone_def Let_def)
    from assms(5) [OF this] have "(read_mode fs ''lxc'', v) \<notin> set (w_confs w)" by simp
    moreover have "int_str n = v" using assms(4) e v unfolding canonical_ids_def by blast
    ultimately show "(read_mode fs ''lxc'', int_str n) \<notin> set (w_confs w)" by simp
  qed
  ultimately show ?thesis using x(3) b(3) by (simp add: gone_def Let_def)
qed

text \<open>
  C36. Reaping acts on the orphans found and on nothing else: every other instance directory
  stays, the report lists the orphans in order, one reported as reaped has no directory left,
  and no configuration that is present is deleted, as long as the recorded ids are integers
  in their usual form and the probes tell the truth.  A dry run changes nothing.
\<close>
theorem reap_touches_only_orphans:
  assumes "only_oserrors config_exists" "find_orphans config_exists (w_store w) scope = Inr os"
    "\<And>b. distinct (map fst (entries_of (w_store w) b))" "canonical_ids (w_store w)"
    "\<And>x m b. config_exists x m = Inr b \<Longrightarrow> b = ((m, x) \<in> set (w_confs w))"
  shows "\<exists>res w'. reap_orphans config_exists (reap_destroy ans cdir) (w_store w) True scope w = (Inr res, w') \<and>
      map re_orphan res = os \<and> w_confs w' = w_confs w \<and>
      (\<forall>b d e. (d, e) \<in> set (entries_of (w_store w) b) \<and> (b, d) \<notin> or_dir ` set os \<longrightarrow> (d, e) \<in> set (entries_of (w_store w') b)) \<and>
      (\<forall>x \<in> set res. re_reaped x \<longrightarrow>
         (\<forall>e. (snd (or_dir (re_orphan x)), e) \<notin> set (entries_of (w_store w') (fst (or_dir (re_orphan x)))))) \<and>
      reap_orphans config_exists (reap_destroy ans cdir) (w_store w) False scope w =
        (Inr (map (\<lambda>x. \<lparr>re_orphan = x, re_reaped = False, re_error = None\<rparr>) os), w)"
proof -
  obtain res w' where r: "reap_all (reap_destroy ans cdir) os w = (res, w')" by fastforce
  note s = reap_all_store [OF r]
  have "w_confs w' = w_confs w"
    using reap_all_confs [of UNIV "w_store w" w os ans cdir] orphans_name_no_conf [OF assms] r by simp
  moreover have "(d, e) \<in> set (entries_of (w_store w') b)"
    if "(d, e) \<in> set (entries_of (w_store w) b)" "(b, d) \<notin> or_dir ` set os" for b d e
    using shrunk_keeps [OF conjunct1 [OF s]] that by blast
  ultimately show ?thesis using s r assms(2)
    by (intro exI [of _ res] exI [of _ w']) (simp add: reap_orphans_def)
qed

text \<open>Two PVE containers, 7 without and 8 with its configuration.\<close>

definition sample_files :: files where
  "sample_files = [''kento-image'' \<mapsto> ''web'', ''kento-mode'' \<mapsto> ''pve'', ''kento-name'' \<mapsto> ''w'']"

definition sample_world :: world where
  "sample_world = \<lparr>w_store = \<lparr>lxc_base = Some [(''7'', EDir sample_files), (''8'', EDir sample_files)], vm_base = None\<rparr>,
     w_confs = [(''pve'', ''8'')], w_state_dirs = []\<rparr>"

definition sample_probe :: probe where
  "sample_probe x m = Inr ((m, x) \<in> set (w_confs sample_world))"

lemma sample_entries:
  "entries_of (w_store sample_world) LXC_BASE = [(''7'', EDir sample_files), (''8'', EDir sample_files)]"
  "entries_of (w_store sample_world) VM_BASE = []"
  by (simp_all add: sample_world_def entries_of_def)

lemma sample_confs: "w_confs sample_world = [(''pve'', ''8'')]"
  by (simp add: sample_world_def)

lemma sample_meta: "read_mode sample_files ''lxc'' = ''pve''" "sample_files ''kento-image'' = Some ''web''"
  by code_simp+

lemma sample_ids: "py_int ''7'' = Some 7" "py_int ''8'' = Some 8" "int_str 7 = ''7''" "int_str 8 = ''8''"
  by code_simp+

lemma sample_probe_ok: "only_oserrors sample_probe"
  by (simp add: only_oserrors_def sample_probe_def)

theorem find_orphans_exact_witness:
  "\<exists>os. find_orphans sample_probe (w_store sample_world) None = Inr os \<and>
     describe LXC_BASE ''7'' sample_files ''pve'' \<in> set os"
proof -
  from find_orphans_exact [OF sample_probe_ok, of "w_store sample_world" None] obtain os where
    os: "find_orphans sample_probe (w_store sample_world) None = Inr os" and
    s: "set os = {describe b d fs (read_mode fs ''lxc'') | b d fs.
       in_scope None (scope_name b) \<and> (d, EDir fs) \<in> set (entries_of (w_store sample_world) b) \<and> fs ''kento-image'' \<noteq> None \<and>
       is_pve_mode (read_mode fs ''lxc'') \<and>
       (case orphan_vmid d fs (read_mode fs ''lxc'') of None \<Rightarrow> True
        | Some v \<Rightarrow> sample_probe v (read_mode fs ''lxc'') = Inr False)}" by blast
  have "in_scope None (scope_name LXC_BASE) \<and> (''7'', EDir sample_files) \<in> set (entries_of (w_store sample_world) LXC_BASE) \<and>
     sample_files ''kento-image'' \<noteq> None \<and> is_pve_mode (read_mode sample_files ''lxc'') \<and>
     (case orphan_vmid ''7'' sample_files (read_mode sample_files ''lxc'') of None \<Rightarrow> True
        | Some v \<Rightarrow> sample_probe v (read_mode sample_files ''lxc'') = Inr False)"
    by (simp add: in_scope_def sample_entries sample_meta is_pve_mode_def orphan_vmid_def sample_probe_def sample_confs)
  then have "describe LXC_BASE ''7'' sample_files (read_mode sample_files ''lxc'') \<in> set os"
    unfolding s by blast
  with os show ?thesis by (auto simp: sample_meta)
qed

theorem reap_touches_only_orphans_witness:
  "\<exists>os res w'. find_orphans sample_probe (w_store sample_world) None = Inr os \<and>
     reap_orphans sample_probe (reap_destroy (\<lambda>_. \<lparr>a_running = False, a_stop = None, a_mounted = False, a_unmount = True,
       a_delete = None, a_wrapper = None, a_hold = None\<rparr>) (\<lambda>_. ''/d'')) (w_store sample_world) True None sample_world = (Inr res, w') \<and>
     map re_orphan res = os \<and> w_confs w' = w_confs sample_world"
proof -
  obtain os where os: "find_orphans sample_probe (w_store sample_world) None = Inr os"
    using find_orphans_filter [OF sample_probe_ok] by blast
  have d: "distinct (map fst (entries_of (w_store sample_world) b))" for b
    by (cases b) (simp_all add: sample_entries)
  have "canonical_ids (w_store sample_world)"
    unfolding canonical_ids_def
  proof (intro allI impI)
    fix b d fs v n
    assume "(d, EDir fs) \<in> set (entries_of (w_store sample_world) b)" and v: "orphan_vmid d fs (read_mode fs ''lxc'') = Some v"
      "py_int v = Some n"
    then have "(d = ''7'' \<or> d = ''8'') \<and> fs = sample_files" by (cases b) (auto simp: sample_entries)
    with v show "int_str n = v" by (auto simp: sample_meta orphan_vmid_def sample_ids)
  qed
  from reap_touches_only_orphans [OF sample_probe_ok os d this, of "\<lambda>_. \<lparr>a_running = False, a_stop = None, a_mounted = False,
       a_unmount = True, a_delete = None, a_wrapper = None, a_hold = None\<rparr>" "\<lambda>_. ''/d''"] os
  show ?thesis by (auto simp: sample_probe_def)
qed

section \<open>Removal\<close>

definition stop_tolerated :: "answers \<Rightarrow> bool \<Rightarrow> bool" where
  "stop_tolerated a force \<longleftrightarrow> \<not> a_running a \<or>
     (force \<and> (a_stop a = None \<or> a_stop a = Some CalledProcessErrorC \<or> a_stop a = Some FileNotFoundErrorC))"

lemma destroy_stop_iff: "destroy_stop a force = Inr () \<longleftrightarrow> stop_tolerated a force"
  by (auto simp: destroy_stop_def stop_tolerated_def split: option.splits)

text \<open>
  The removal of an instance succeeds exactly when it does not run, or runs, is forced and
  stopping it fails in no unexpected way; its root is not mounted or comes off; and, unless it
  is forced, the platform's configuration and the image hold go without an error.  When it
  succeeds, its directory and nothing else is gone from the store; when it fails, the store and
  the state directories are as they were.
\<close>
theorem destroy_outcomes:
  "(fst (destroy_dir a force b d fs mode cdir w) = Inr () \<longleftrightarrow>
     stop_tolerated a force \<and> (a_mounted a \<longrightarrow> a_unmount a) \<and> fs ''kento-image'' \<noteq> None \<and>
     (force \<or> fst (delete_config a d fs mode w) = Inr () \<and> a_hold a = None)) \<and>
   (fst (destroy_dir a force b d fs mode cdir w) = Inr () \<longrightarrow>
     w_store (snd (destroy_dir a force b d fs mode cdir w)) = remove_dir (w_store w) b d) \<and>
   (fst (destroy_dir a force b d fs mode cdir w) \<noteq> Inr () \<longrightarrow>
     w_store (snd (destroy_dir a force b d fs mode cdir w)) = w_store w \<and>
     w_state_dirs (snd (destroy_dir a force b d fs mode cdir w)) = w_state_dirs w)"
proof -
  obtain r w1 where d: "delete_config a d fs mode w = (r, w1)" by (cases "delete_config a d fs mode w")
  have s: "w_store w1 = w_store w" using delete_config_store [of a d fs mode w] d by simp
  have sd: "w_state_dirs w1 = w_state_dirs w"
    using d by (auto simp: delete_config_def split: if_splits option.splits)
  have iff: "fst (destroy_dir a force b d fs mode cdir w) = Inr () \<longleftrightarrow>
     stop_tolerated a force \<and> (a_mounted a \<longrightarrow> a_unmount a) \<and> fs ''kento-image'' \<noteq> None \<and>
     (force \<or> fst (delete_config a d fs mode w) = Inr () \<and> a_hold a = None)"
    by (cases "destroy_stop a force"; cases r)
      (use destroy_stop_iff [of a force] in \<open>auto simp: destroy_dir_def Let_def d\<close>)
  moreover have "w_store (snd (destroy_dir a force b d fs mode cdir w)) = remove_dir (w_store w) b d"
    if "fst (destroy_dir a force b d fs mode cdir w) = Inr ()"
    using that by (rule destroy_dir_removed)
  moreover have "w_store (snd (destroy_dir a force b d fs mode cdir w)) = w_store w \<and>
     w_state_dirs (snd (destroy_dir a force b d fs mode cdir w)) = w_state_dirs w"
    if "fst (destroy_dir a force b d fs mode cdir w) \<noteq> Inr ()"
    using that s sd by (auto simp: destroy_dir_def Let_def d split: sum.splits if_splits)
  ultimately show ?thesis by blast
qed

text \<open>What the tools answer for an instance that does not run.\<close>

definition quiet :: answers where
  "quiet = \<lparr>a_running = False, a_stop = None, a_mounted = False, a_unmount = True, a_delete = None, a_wrapper = None, a_hold = None\<rparr>"

theorem destroy_outcomes_witness:
  "fst (destroy_dir quiet False LXC_BASE ''7'' sample_files ''lxc'' ''/d'' sample_world) = Inr () \<and>
   w_store (snd (destroy_dir quiet False LXC_BASE ''7'' sample_files ''lxc'' ''/d'' sample_world)) =
     remove_dir (w_store sample_world) LXC_BASE ''7'' \<and>
   fst (destroy_dir (quiet\<lparr>a_running := True\<rparr>) False LXC_BASE ''7'' sample_files ''lxc'' ''/d'' sample_world) \<noteq> Inr () \<and>
   w_store (snd (destroy_dir (quiet\<lparr>a_running := True\<rparr>) False LXC_BASE ''7'' sample_files ''lxc'' ''/d'' sample_world)) =
     w_store sample_world"
proof -
  have ok: "fst (destroy_dir quiet False LXC_BASE ''7'' sample_files ''lxc'' ''/d'' sample_world) = Inr ()"
    using destroy_outcomes [of quiet False LXC_BASE "''7''" sample_files "''lxc''" "''/d''" sample_world]
    by (simp add: quiet_def stop_tolerated_def sample_meta delete_config_def)
  have bad: "fst (destroy_dir (quiet\<lparr>a_running := True\<rparr>) False LXC_BASE ''7'' sample_files ''lxc'' ''/d'' sample_world) \<noteq> Inr ()"
    using destroy_outcomes [of "quiet\<lparr>a_running := True\<rparr>" False LXC_BASE "''7''" sample_files "''lxc''" "''/d''" sample_world]
    by (simp add: quiet_def stop_tolerated_def)
  from ok bad destroy_outcomes [of quiet False LXC_BASE "''7''" sample_files "''lxc''" "''/d''" sample_world]
    destroy_outcomes [of "quiet\<lparr>a_running := True\<rparr>" False LXC_BASE "''7''" sample_files "''lxc''" "''/d''" sample_world]
  show ?thesis by blast
qed

end
