(* ===== verification/Admission.thy ===== *)
theory Admission imports Create begin

text \<open>
  The head of \<^verbatim>\<open>create\<close> in \<^verbatim>\<open>create.py\<close>: everything it checks, in order, before the image is
  resolved, the lock taken and a directory made; and \<^verbatim>\<open>defaults.py\<close>'s configuration files the
  values left out come from.  What the host answers is an argument: whether it is a PVE node,
  what the reference parser makes of the image, which files there are, whether the mount probe
  succeeds, whether a snippets directory is found, which bridges there are.
\<close>

section \<open>Configuration files\<close>

fun config_lines :: "string list \<Rightarrow> (string \<times> string) list" where
  "config_lines [] = []"
| "config_lines (l # ls) =
     (let s = py_strip l
      in if s = [] \<or> hd s = CHR ''#'' then config_lines ls
         else if CHR ''='' \<notin> set s then config_lines ls
         else let (k, _, v) = py_partition (CHR ''='') s
              in (py_strip k, py_strip v) # config_lines ls)"

text \<open>The later of two lines for one key wins: the result dictionary is filled in order.\<close>

definition load_config :: "string option \<Rightarrow> (string \<rightharpoonup> string)" where
  "load_config file = (case file of None \<Rightarrow> Map.empty
     | Some t \<Rightarrow> map_of (rev (config_lines (py_splitlines (univ_newlines t)))))"

definition parse_bool :: "string \<Rightarrow> exc + bool" where
  "parse_bool v =
     (let low = py_lower (py_strip v)
      in if low \<in> set [''true'', ''yes'', ''1'', ''on''] then Inr True
         else if low \<in> set [''false'', ''no'', ''0'', ''off''] then Inr False
         else Inl ValueErrorC)"

definition override :: "(string \<rightharpoonup> string) \<Rightarrow> string \<Rightarrow> (string \<Rightarrow> exc + 'a) \<Rightarrow> 'a \<Rightarrow> exc + 'a" where
  "override m k f dflt = (case m k of Some v \<Rightarrow> f v | None \<Rightarrow> Inr dflt)"

definition int_of :: "string \<Rightarrow> exc + int" where
  "int_of s = (case py_int s of Some n \<Rightarrow> Inr n | None \<Rightarrow> Inl ValueErrorC)"

record vm_conf =
  v_memory :: int
  v_cores :: int
  v_kvm :: bool
  v_machine :: string
  v_serial :: string
  v_display :: bool

definition get_vm_defaults :: "string option \<Rightarrow> exc + vm_conf" where
  "get_vm_defaults file =
     (let o1 = load_config file
      in bindE (override o1 ''memory'' int_of 1024) (\<lambda>memory.
         bindE (override o1 ''cores'' int_of 1) (\<lambda>cores.
         bindE (override o1 ''kvm'' parse_bool True) (\<lambda>kvm.
         bindE (override o1 ''machine'' Inr ''q35'') (\<lambda>machine.
         bindE (override o1 ''serial'' Inr ''ttyS0'') (\<lambda>serial.
         bindE (override o1 ''display'' parse_bool False) (\<lambda>display.
           Inr \<lparr>v_memory = memory, v_cores = cores, v_kvm = kvm, v_machine = machine, v_serial = serial,
                v_display = display\<rparr>)))))))"

record lxc_conf =
  l_tty :: int
  l_mount_auto :: string
  l_mount_auto_nesting :: string
  l_nesting :: bool

definition get_lxc_defaults :: "string option \<Rightarrow> exc + lxc_conf" where
  "get_lxc_defaults file =
     (let o1 = load_config file
      in bindE (override o1 ''tty'' int_of LXC_TTY) (\<lambda>tty.
         bindE (override o1 ''mount_auto'' Inr LXC_MOUNT_AUTO) (\<lambda>ma.
         bindE (override o1 ''mount_auto_nesting'' Inr LXC_MOUNT_AUTO_NESTING) (\<lambda>man.
         bindE (override o1 ''nesting'' parse_bool False) (\<lambda>nesting.
           Inr \<lparr>l_tty = tty, l_mount_auto = ma, l_mount_auto_nesting = man, l_nesting = nesting\<rparr>)))))"

section \<open>The request and the host\<close>

record create_args =
  g_image :: string
  g_mode :: string
  g_pve :: "bool option"
  g_vmid :: int
  g_qemu_args :: "string list"
  g_pve_args :: "string list"
  g_lxc_args :: "string list"
  g_env :: "string list"
  g_port :: "port_arg option"
  g_ssh_keys :: "string list"
  g_ssh_host_key_dir :: "string option"
  g_net_type :: "string option"
  g_bridge :: "string option"
  g_ip :: "string option"
  g_gateway :: "string option"
  g_kernel :: "string option"
  g_initramfs :: "string option"
  g_unprivileged :: bool
  g_memory :: "int option"
  g_cores :: "int option"

text \<open>
  \<^verbatim>\<open>h_image_is_url\<close> is the class of the parsed image reference, \<^verbatim>\<open>h_side_is_url\<close> that of a kernel
  or initramfs (\<^verbatim>\<open>_url_ref_or_none\<close>); a directory of host keys is missing (\<^term>\<open>None\<close>) or
  holds a key or not.
\<close>

record host =
  h_root :: bool
  h_is_pve :: bool
  h_image_is_url :: "string \<Rightarrow> exc + bool"
  h_side_is_url :: "string \<Rightarrow> exc + bool"
  h_is_file :: "string \<Rightarrow> bool"
  h_host_keys :: "string \<Rightarrow> bool option"
  h_idmap_supported :: bool
  h_snippets :: "exc + unit"
  h_interface :: "string \<Rightarrow> bool"

definition promote_mode :: "bool \<Rightarrow> bool option \<Rightarrow> string \<Rightarrow> exc + string" where
  "promote_mode is_pve pve mode =
     (let promoted = (if mode = ''vm'' then ''pve-vm'' else ''pve'')
      in case pve of
           Some True \<Rightarrow> if \<not> is_pve then Inl ModeErrorC else Inr promoted
         | Some False \<Rightarrow> Inr mode
         | None \<Rightarrow> Inr (if is_pve then promoted else mode))"

section \<open>The checks in order\<close>

definition check_args :: "create_args \<Rightarrow> exc + unit" where
  "check_args g =
     bindE (if g_qemu_args g \<noteq> [] then validate_qemu_args (g_qemu_args g) else Inr ()) (\<lambda>_.
     bindE (if g_pve_args g \<noteq> [] then validate_pve_args (g_pve_args g) else Inr ()) (\<lambda>_.
     bindE (if g_lxc_args g \<noteq> [] then validate_lxc_args (g_lxc_args g) else Inr ()) (\<lambda>_.
     if g_env g \<noteq> [] then validate_env (g_env g) else Inr ())))"

definition check_keys :: "host \<Rightarrow> create_args \<Rightarrow> exc + unit" where
  "check_keys h g =
     (if \<exists>p \<in> set (g_ssh_keys g). \<not> h_is_file h p then Inl ValidationErrorC
      else case g_ssh_host_key_dir g of
             None \<Rightarrow> Inr ()
           | Some d \<Rightarrow> if h_host_keys h d = Some True then Inr () else Inl ValidationErrorC)"

definition side_missing :: "host \<Rightarrow> string option \<Rightarrow> bool option \<Rightarrow> bool" where
  "side_missing h side url = (case side of None \<Rightarrow> False | Some p \<Rightarrow> url = Some False \<and> \<not> h_is_file h p)"

definition side_url :: "host \<Rightarrow> string option \<Rightarrow> exc + bool option" where
  "side_url h side = (case side of None \<Rightarrow> Inr None | Some p \<Rightarrow> bindE (h_side_is_url h p) (\<lambda>b. Inr (Some b)))"

definition check_boot :: "host \<Rightarrow> create_args \<Rightarrow> string \<Rightarrow> exc + unit" where
  "check_boot h g mode =
     (if g_kernel g \<noteq> None \<or> g_initramfs g \<noteq> None then
        (if \<not> is_vm_mode mode then Inl ModeErrorC
         else bindE (side_url h (g_kernel g)) (\<lambda>ku.
              bindE (side_url h (g_initramfs g)) (\<lambda>iu.
              if side_missing h (g_kernel g) ku then Inl ValidationErrorC
              else if side_missing h (g_initramfs g) iu then Inl ValidationErrorC
              else Inr ())))
      else Inr ())"

definition check_mode :: "host \<Rightarrow> create_args \<Rightarrow> string \<Rightarrow> bool \<Rightarrow> exc + unit" where
  "check_mode h g mode url =
     (if g_lxc_args g \<noteq> [] \<and> mode = ''pve'' then Inl ModeErrorC
      else if g_lxc_args g \<noteq> [] \<and> is_vm_mode mode then Inl ModeErrorC
      else if url \<and> \<not> is_vm_mode mode then Inl ModeErrorC
      else bindE (check_boot h g mode) (\<lambda>_.
        if g_unprivileged g \<and> is_vm_mode mode then Inl ModeErrorC
        else if g_unprivileged g \<and> \<not> h_idmap_supported h then Inl StateErrorC
        else Inr ()))"

definition check_snippets :: "host \<Rightarrow> create_args \<Rightarrow> string \<Rightarrow> string list option \<Rightarrow> exc + unit" where
  "check_snippets h g mode ports =
     (if mode = ''pve-vm'' then h_snippets h
      else if mode = ''pve'' \<and> (ports \<noteq> None \<or> g_memory g \<noteq> None \<or> g_cores g \<noteq> None) then h_snippets h
      else Inr ())"

definition check_network :: "create_args \<Rightarrow> string \<Rightarrow> string \<Rightarrow> string list option \<Rightarrow> exc + unit" where
  "check_network g mode nt ports =
     (if mode = ''vm'' \<and> nt = ''bridge'' then Inl ModeErrorC
      else if g_vmid g \<noteq> 0 \<and> mode \<noteq> ''pve'' \<and> mode \<noteq> ''pve-vm'' then Inl ModeErrorC
      else if ports \<noteq> None \<and> (mode = ''lxc'' \<or> mode = ''pve'') \<and> nt \<noteq> ''bridge'' then Inl ValidationErrorC
      else if ports \<noteq> None \<and> is_vm_mode mode \<and> nt = ''bridge'' then Inl ValidationErrorC
      else if truthy (g_gateway g) \<and> \<not> truthy (g_ip g) then Inl ValidationErrorC
      else if nt \<in> set [''none'', ''host'', ''usermode''] \<and> truthy (g_ip g) then Inl ValidationErrorC
      else if nt \<in> set [''none'', ''host'', ''usermode''] \<and> truthy (g_gateway g) then Inl ValidationErrorC
      else Inr ())"

record admitted =
  ad_mode :: string
  ad_net :: net_choice
  ad_ports :: "string list option"
  ad_url :: bool

text \<open>\<^verbatim>\<open>_resolve_network\<close> passes the port on; only whether there is one matters to it.\<close>

definition admit :: "host \<Rightarrow> create_args \<Rightarrow> exc + admitted" where
  "admit h g =
     (if \<not> h_root h then Inl StateErrorC
      else bindE (check_args g) (\<lambda>_.
           bindE (normalize_port_specs (g_port g)) (\<lambda>ports.
           bindE (check_keys h g) (\<lambda>_.
           bindE (promote_mode (h_is_pve h) (g_pve g) (g_mode g)) (\<lambda>mode.
           bindE (h_image_is_url h (g_image g)) (\<lambda>url.
           bindE (check_mode h g mode url) (\<lambda>_.
           bindE (check_snippets h g mode ports) (\<lambda>_.
           bindE (resolve_network (h_interface h) (g_net_type g) (g_bridge g) mode (map_option (py_join [LF]) ports)) (\<lambda>net.
           bindE (check_network g mode (net_type net) ports) (\<lambda>_.
             Inr \<lparr>ad_mode = mode, ad_net = net, ad_ports = ports, ad_url = url\<rparr>))))))))))"

section \<open>Lemmas\<close>

lemma deny_Inr: "deny denylist argv = Inr () \<longleftrightarrow> (\<forall>a \<in> set argv. \<forall>needle \<in> set denylist. \<not> py_in needle a)"
  by (simp add: deny_def)

lemma check_args_Inr: "check_args g = Inr () \<longleftrightarrow>
    deny QEMU_ARG_DENYLIST (g_qemu_args g) = Inr () \<and> deny PVE_ARG_DENYLIST (g_pve_args g) = Inr () \<and>
    deny LXC_ARG_DENYLIST (g_lxc_args g) = Inr () \<and> (\<forall>e \<in> set (g_env g). valid_env_entry e)"
  by (auto simp: check_args_def validate_qemu_args_def validate_pve_args_def validate_lxc_args_def validate_env_def deny_Inr)

lemma normalize_Inr: "normalize_port_specs p = Inr (Some specs) \<Longrightarrow>
    specs \<noteq> [] \<and> (\<exists>fw. parse_forwards (filter (\<lambda>s. s \<noteq> ''auto'') specs) = Inr fw)"
  by (auto simp: normalize_port_specs_def Let_def parse_forwards_def split: option.splits port_arg.splits if_splits)

lemma check_mode_Inr: "check_mode h g mode url = Inr () \<Longrightarrow>
    (g_lxc_args g \<noteq> [] \<longrightarrow> mode \<noteq> ''pve'' \<and> \<not> is_vm_mode mode) \<and>
    (url \<or> g_kernel g \<noteq> None \<or> g_initramfs g \<noteq> None \<longrightarrow> is_vm_mode mode) \<and>
    (g_unprivileged g \<longrightarrow> \<not> is_vm_mode mode \<and> h_idmap_supported h)"
  by (auto simp: check_mode_def check_boot_def split: if_splits)

lemma guard_Inr: "(if b then Inl e else x) = Inr u \<longleftrightarrow> \<not> b \<and> x = Inr u"
  by simp

lemma check_network_iff: "check_network g mode nt ports = Inr () \<longleftrightarrow>
    \<not> (mode = ''vm'' \<and> nt = ''bridge'') \<and> \<not> (g_vmid g \<noteq> 0 \<and> mode \<noteq> ''pve'' \<and> mode \<noteq> ''pve-vm'') \<and>
    \<not> (ports \<noteq> None \<and> (mode = ''lxc'' \<or> mode = ''pve'') \<and> nt \<noteq> ''bridge'') \<and>
    \<not> (ports \<noteq> None \<and> is_vm_mode mode \<and> nt = ''bridge'') \<and> \<not> (truthy (g_gateway g) \<and> \<not> truthy (g_ip g)) \<and>
    \<not> (nt \<in> set [''none'', ''host'', ''usermode''] \<and> truthy (g_ip g)) \<and>
    \<not> (nt \<in> set [''none'', ''host'', ''usermode''] \<and> truthy (g_gateway g))"
  unfolding check_network_def guard_Inr by (simp only: simp_thms)

lemma check_network_Inr: "check_network g mode nt ports = Inr () \<Longrightarrow>
    (mode = ''vm'' \<longrightarrow> nt \<noteq> ''bridge'') \<and> (g_vmid g \<noteq> 0 \<longrightarrow> mode = ''pve'' \<or> mode = ''pve-vm'') \<and>
    (ports \<noteq> None \<longrightarrow> (mode = ''lxc'' \<or> mode = ''pve'' \<longrightarrow> nt = ''bridge'') \<and> (is_vm_mode mode \<longrightarrow> nt \<noteq> ''bridge'')) \<and>
    (truthy (g_gateway g) \<longrightarrow> truthy (g_ip g)) \<and>
    (truthy (g_ip g) \<longrightarrow> nt \<noteq> ''none'' \<and> nt \<noteq> ''host'' \<and> nt \<noteq> ''usermode'')"
  unfolding check_network_iff list.set insert_iff empty_iff by satx

lemma resolve_network_bridge: "resolve_network ex nt br mode pt = Inr net \<Longrightarrow> net_type net = ''bridge'' \<Longrightarrow> net_bridge net \<noteq> None"
  by (auto simp: resolve_network_def Let_def split: if_splits option.splits)

section \<open>Properties\<close>

text \<open>
  C38. A request that passes the checks is one the rest of the creation can carry out: no
  argument touches what the library writes itself, every environment entry is one line of
  \<^verbatim>\<open>KEY=VALUE\<close>, the given forwards parse without a duplicate, options of the other kind of
  instance are absent, a bridged network has a bridge, and addresses, forwards and VM ids come
  only with the networks and modes that can have them.
\<close>
theorem admit_sound:
  assumes "admit h g = Inr a"
  shows "h_root h \<and>
    (\<forall>x \<in> set (g_qemu_args g). \<forall>n \<in> set QEMU_ARG_DENYLIST. \<not> py_in n x) \<and>
    (\<forall>x \<in> set (g_pve_args g). \<forall>n \<in> set PVE_ARG_DENYLIST. \<not> py_in n x) \<and>
    (\<forall>x \<in> set (g_lxc_args g). \<forall>n \<in> set LXC_ARG_DENYLIST. \<not> py_in n x) \<and>
    (\<forall>e \<in> set (g_env g). valid_env_entry e) \<and>
    (\<forall>specs \<in> set_option (ad_ports a). specs \<noteq> [] \<and> (\<exists>fw. parse_forwards (filter (\<lambda>s. s \<noteq> ''auto'') specs) = Inr fw)) \<and>
    promote_mode (h_is_pve h) (g_pve g) (g_mode g) = Inr (ad_mode a) \<and>
    (g_lxc_args g \<noteq> [] \<longrightarrow> ad_mode a \<noteq> ''pve'' \<and> \<not> is_vm_mode (ad_mode a)) \<and>
    (ad_url a \<or> g_kernel g \<noteq> None \<or> g_initramfs g \<noteq> None \<longrightarrow> is_vm_mode (ad_mode a)) \<and>
    (g_unprivileged g \<longrightarrow> \<not> is_vm_mode (ad_mode a) \<and> h_idmap_supported h) \<and>
    (g_vmid g \<noteq> 0 \<longrightarrow> ad_mode a = ''pve'' \<or> ad_mode a = ''pve-vm'') \<and>
    (ad_mode a = ''vm'' \<longrightarrow> net_type (ad_net a) \<noteq> ''bridge'') \<and>
    (net_type (ad_net a) = ''bridge'' \<longrightarrow> net_bridge (ad_net a) \<noteq> None) \<and>
    (ad_ports a \<noteq> None \<and> (ad_mode a = ''lxc'' \<or> ad_mode a = ''pve'') \<longrightarrow> net_type (ad_net a) = ''bridge'') \<and>
    (ad_ports a \<noteq> None \<and> is_vm_mode (ad_mode a) \<longrightarrow> net_type (ad_net a) \<noteq> ''bridge'') \<and>
    (truthy (g_gateway g) \<longrightarrow> truthy (g_ip g)) \<and>
    (truthy (g_ip g) \<longrightarrow> net_type (ad_net a) \<notin> set [''none'', ''host'', ''usermode''])"
proof -
  from assms obtain ports mode url net where r: "h_root h" "check_args g = Inr ()"
    "normalize_port_specs (g_port g) = Inr ports" "promote_mode (h_is_pve h) (g_pve g) (g_mode g) = Inr mode"
    "check_mode h g mode url = Inr ()"
    "resolve_network (h_interface h) (g_net_type g) (g_bridge g) mode (map_option (py_join [LF]) ports) = Inr net"
    "check_network g mode (net_type net) ports = Inr ()"
    and a: "a = \<lparr>ad_mode = mode, ad_net = net, ad_ports = ports, ad_url = url\<rparr>"
    by (auto simp: admit_def split: if_splits)
  have ports: "\<forall>specs \<in> set_option ports. specs \<noteq> [] \<and> (\<exists>fw. parse_forwards (filter (\<lambda>s. s \<noteq> ''auto'') specs) = Inr fw)"
    using normalize_Inr r(3) by (cases ports) auto
  have "net_type net = ''bridge'' \<longrightarrow> net_bridge net \<noteq> None" using resolve_network_bridge [OF r(6)] by blast
  with check_mode_Inr [OF r(5)] check_network_Inr [OF r(7)] r(2) [unfolded check_args_Inr deny_Inr] r(1,4) ports
  show ?thesis unfolding a admitted.simps list.set insert_iff empty_iff by satx
qed

text \<open>A container on a bridged network with a static address and a forward, on a PVE node.\<close>

definition sample_host :: host where
  "sample_host = \<lparr>h_root = True, h_is_pve = True, h_image_is_url = (\<lambda>_. Inr False), h_side_is_url = (\<lambda>_. Inr False),
     h_is_file = (\<lambda>_. False), h_host_keys = (\<lambda>_. None), h_idmap_supported = True, h_snippets = Inr (),
     h_interface = (\<lambda>i. i = ''vmbr0'')\<rparr>"

definition sample_args :: create_args where
  "sample_args = \<lparr>g_image = ''web'', g_mode = ''lxc'', g_pve = None, g_vmid = 0, g_qemu_args = [], g_pve_args = [''onboot: 1''],
     g_lxc_args = [], g_env = [''A=1''], g_port = Some (PStr ''80:90''), g_ssh_keys = [], g_ssh_host_key_dir = None,
     g_net_type = None, g_bridge = None, g_ip = Some ''10.0.0.2'', g_gateway = Some ''10.0.0.1'', g_kernel = None,
     g_initramfs = None, g_unprivileged = False, g_memory = None, g_cores = None\<rparr>"

lemma sample_admit: "map_sum id ad_mode (admit sample_host sample_args) = Inr ''pve''"
  by code_simp

theorem admit_sound_witness:
  "\<exists>a. admit sample_host sample_args = Inr a \<and> ad_mode a = ''pve'' \<and>
     promote_mode True None ''lxc'' = Inr (ad_mode a) \<and> net_type (ad_net a) \<notin> set [''none'', ''host'', ''usermode'']"
proof -
  from sample_admit obtain a where a: "admit sample_host sample_args = Inr a" "ad_mode a = ''pve''"
    by (cases "admit sample_host sample_args") auto
  from admit_sound [OF a(1)] a show ?thesis by (auto simp: sample_host_def sample_args_def)
qed

end
