(* ===== verification/Interleaving.thy ===== *)
theory Interleaving imports Adoption Orphans begin

text \<open>
  Several \<^verbatim>\<open>kento\<close> processes on one store.  What a creation does under the lock is one step (the
  allocation of \<^verbatim>\<open>Create\<close>); the metadata it writes after the lock is released, and the removals
  of other processes, are steps of their own that come in any order.
\<close>

section \<open>Steps\<close>

definition write_files :: "store \<Rightarrow> base \<Rightarrow> string \<Rightarrow> file_write list \<Rightarrow> store" where
  "write_files st b d ws = set_base st b
     (map (\<lambda>(n, e). (n, if n = d then (case e of EDir fs \<Rightarrow> EDir (do_writes ws fs) | EFile \<Rightarrow> EFile) else e)) (entries_of st b))"

datatype store_op =
    OpAllocate pve_view request
  | OpWrite base string "file_write list"
  | OpRemove base string

fun store_step :: "store_op \<Rightarrow> store \<Rightarrow> store" where
  "store_step (OpAllocate v r) st = (case allocate v st r of Inl _ \<Rightarrow> st | Inr (_, st') \<Rightarrow> st')"
| "store_step (OpWrite b d ws) st = write_files st b d ws"
| "store_step (OpRemove b d) st = remove_dir st b d"

text \<open>A listing of a directory names each entry once.\<close>

definition store_ok :: "store \<Rightarrow> bool" where
  "store_ok st \<longleftrightarrow> (\<forall>b. distinct (map fst (entries_of st b)))"

text \<open>The reachable stores, as a relation: any process may move.\<close>

inductive store_reaches :: "store \<Rightarrow> store_op list \<Rightarrow> store \<Rightarrow> bool" where
  reaches_nil: "store_reaches st [] st"
| reaches_step: "store_reaches st ops st' \<Longrightarrow> store_reaches st (ops @ [x]) (store_step x st')"

inductive_cases reaches_snoc: "store_reaches st (ops @ [x]) st'"

lemma reaches_fold: "store_reaches st ops st' \<longleftrightarrow> st' = fold store_step ops st"
proof
  show "store_reaches st ops st' \<Longrightarrow> st' = fold store_step ops st"
    by (induction rule: store_reaches.induct) simp_all
  have "store_reaches st ops (fold store_step ops st)"
    by (induction ops rule: rev_induct) (auto intro: store_reaches.intros)
  then show "st' = fold store_step ops st \<Longrightarrow> store_reaches st ops st'" by simp
qed

lemma entries_write [simp]: "entries_of (write_files st b d ws) b' =
    (if b' = b then map (\<lambda>(n, e). (n, if n = d then (case e of EDir fs \<Rightarrow> EDir (do_writes ws fs) | EFile \<Rightarrow> EFile) else e))
       (entries_of st b) else entries_of st b')"
  by (simp add: write_files_def)

lemma store_ok_listing: "store_ok st \<longleftrightarrow> listing_ok (lxc_base st) \<and> listing_ok (vm_base st)"
proof -
  have "distinct (map fst (entries_of st b)) \<longleftrightarrow> listing_ok (base_of st b)" for b
    by (simp add: entries_of_def listing_ok_def split: option.splits)
  then show ?thesis unfolding store_ok_def by (metis base.exhaust base_of.simps)
qed

lemma keys_write: "map fst (entries_of (write_files st b d ws) b') = map fst (entries_of st b')"
  by (simp add: case_prod_beta comp_def)

lemma allocate_Inr:
  "allocate v st r = Inr (s, st') \<longleftrightarrow> pick_name st r = Inr (s_name s) \<and> pick_vmid v st r = Inr (s_vmid s) \<and>
     s_base s = base_for (r_mode r) \<and> s_dir s = (if r_mode r = ''pve'' then int_str (s_vmid s) else s_name s) \<and>
     map_of (entries_of st (s_base s)) (s_dir s) = None \<and>
     st' = set_base st (s_base s) (entries_of st (s_base s) @ [(s_dir s, EDir Map.empty)])"
  by (cases s) (auto simp: allocate_def Let_def split: if_splits)

lemma allocate_state:
  assumes "allocate v st r = Inr (s, st')"
  shows "map_of (entries_of st (s_base s)) (s_dir s) = None"
    "st' = set_base st (s_base s) (entries_of st (s_base s) @ [(s_dir s, EDir Map.empty)])"
  using assms unfolding allocate_Inr by blast+

lemma store_step_ok: "store_ok st \<Longrightarrow> store_ok (store_step x st)"
proof (cases x)
  case (OpAllocate v r)
  assume ok: "store_ok st"
  show ?thesis
  proof (cases "allocate v st r")
    case (Inl e)
    with ok OpAllocate show ?thesis by simp
  next
    case (Inr p)
    obtain s st' where p: "p = (s, st')" by (cases p)
    with allocate_state [of v st r s st'] Inr ok OpAllocate show ?thesis
      by (auto simp: store_ok_def map_of_eq_None_iff)
  qed
next
  case (OpWrite b d ws)
  assume "store_ok st"
  with OpWrite keys_write [of st b d ws] show ?thesis by (simp only: store_ok_def store_step.simps) blast
next
  case (OpRemove b d)
  assume "store_ok st"
  with OpRemove show ?thesis by (simp add: store_ok_def distinct_map_filter)
qed

interpretation store_ops: invariant_steps store_step store_ok
  by unfold_locales (rule store_step_ok)

section \<open>Directories, once made, stay\<close>

definition has_dir :: "store \<Rightarrow> base \<Rightarrow> string \<Rightarrow> bool" where
  "has_dir st b d \<longleftrightarrow> (\<exists>fs. (d, EDir fs) \<in> set (entries_of st b))"

lemma allocate_dir: "allocate v st r = Inr (s, st') \<Longrightarrow> has_dir st' (s_base s) (s_dir s)"
  using allocate_state(2) [of v st r s st'] by (auto simp: has_dir_def)

lemma store_step_dir:
  assumes "has_dir st b d" "x \<noteq> OpRemove b d"
  shows "has_dir (store_step x st) b d"
proof (cases x)
  case (OpAllocate v r)
  have "has_dir st' b d" if "allocate v st r = Inr (s, st')" for s st'
    using assms(1) allocate_state(2) [OF that] by (auto simp: has_dir_def)
  with OpAllocate assms(1) show ?thesis by (auto split: sum.splits)
next
  case (OpWrite b' d' ws)
  from assms obtain fs where "(d, EDir fs) \<in> set (entries_of st b)" by (auto simp: has_dir_def)
  then have "(d, if b' = b \<and> d' = d then EDir (do_writes ws fs) else EDir fs) \<in> set (entries_of (write_files st b' d' ws) b)"
    by (force simp: image_iff)
  then show ?thesis unfolding has_dir_def OpWrite store_step.simps by metis
next
  case (OpRemove b' d')
  then show ?thesis using assms by (auto simp: has_dir_def)
qed

lemma steps_dir: "has_dir st b d \<Longrightarrow> OpRemove b d \<notin> set ops \<Longrightarrow> has_dir (fold store_step ops st) b d"
proof (induction ops arbitrary: st)
  case (Cons x ops)
  then have "has_dir (store_step x st) b d" by (intro store_step_dir) auto
  with Cons show ?case by simp
qed simp

lemma has_dir_taken: "has_dir st b d \<Longrightarrow> map_of (entries_of st b) d \<noteq> None"
  by (metis has_dir_def map_of_eq_None_iff fst_conv image_eqI)

lemma has_dir_reserved: "has_dir st LXC_BASE (int_str n) \<Longrightarrow> 0 \<le> n \<Longrightarrow> n < 10 ^ 18 \<Longrightarrow> n \<in> set (used_vmids v st)"
  using recorded_reserved(1) [where d = "int_str n" and n = n and v = v and st = st] int_text(2) [of n]
  by (cases "lxc_base st") (auto simp: has_dir_def entries_of_def)

lemma pick_vmid_fresh: "pick_vmid v st r = Inr n \<Longrightarrow> r_mode r = ''pve'' \<or> r_mode r = ''pve-vm'' \<Longrightarrow>
    n \<notin> set (used_vmids v st) \<and> 100 \<le> n"
  using vmids.pick_fresh [of "used_vmids v st"] vmids.pick_first [of "used_vmids v st"]
  by (auto simp: pick_vmid_def validate_vmid_def next_vmid_def split: if_splits)

section \<open>Properties\<close>

text \<open>
  C34. What the lock guarantees: whatever other processes allocate, write and remove in between,
  two creations never get the same directory, as long as the first one is not removed; and the
  VM id of a container on a PVE node, being the name of its directory, is never handed out
  again, to a container or to a VM.
\<close>
theorem allocation_exclusive:
  assumes "allocate v st r = Inr (s, st1)" "store_reaches st1 ops st2" "OpRemove (s_base s) (s_dir s) \<notin> set ops"
    "allocate v' st2 r' = Inr (s', st3)" "s_vmid s < 10 ^ 18"
  shows "(s_base s', s_dir s') \<noteq> (s_base s, s_dir s) \<and>
    (r_mode r = ''pve'' \<and> (r_mode r' = ''pve'' \<or> r_mode r' = ''pve-vm'') \<longrightarrow> s_vmid s' \<noteq> s_vmid s)"
proof -
  have dir: "has_dir st2 (s_base s) (s_dir s)"
    using steps_dir [OF allocate_dir [OF assms(1)] assms(3)] assms(2) by (simp add: reaches_fold)
  moreover have "map_of (entries_of st2 (s_base s')) (s_dir s') = None" by (rule allocate_state(1) [OF assms(4)])
  ultimately have "(s_base s', s_dir s') \<noteq> (s_base s, s_dir s)" using has_dir_taken by fastforce
  moreover have "s_vmid s' \<noteq> s_vmid s" if m: "r_mode r = ''pve''" "r_mode r' = ''pve'' \<or> r_mode r' = ''pve-vm''"
  proof -
    from assms(1) m have s: "s_base s = LXC_BASE" "s_dir s = int_str (s_vmid s)" "pick_vmid v st r = Inr (s_vmid s)"
      by (simp_all add: allocate_Inr base_for_def is_vm_mode_def)
    then have "100 \<le> s_vmid s" using pick_vmid_fresh m(1) by blast
    then have "s_vmid s \<in> set (used_vmids v' st2)"
      using has_dir_reserved [OF _ _ assms(5)] dir s by simp
    moreover have "s_vmid s' \<notin> set (used_vmids v' st2)"
      using pick_vmid_fresh [of v' st2 r' "s_vmid s'"] assms(4) m(2) by (simp add: allocate_Inr)
    ultimately show ?thesis by auto
  qed
  ultimately show ?thesis by blast
qed

text \<open>
  C35. The lock does not keep the VM ids of PVE VMs apart.  Such an instance is in a directory of
  its name, and its VM id is recorded long after the lock is released: a second creation that
  takes the lock before that is always given the same VM id.
\<close>
theorem pve_vm_vmid_race:
  assumes "allocate v st r = Inr (s, st1)" "r_mode r = ''pve-vm''" "r_vmid r = 0"
    "allocate v st1 r' = Inr (s', st2)" "r_mode r' = ''pve-vm''" "r_vmid r' = 0"
  shows "s_vmid s' = s_vmid s"
proof -
  have s: "s_base s = VM_BASE" "s_vmid s = next_vmid v st" "s_vmid s' = next_vmid v st1"
    using assms(1-6) by (simp_all add: allocate_Inr base_for_def is_vm_mode_def pick_vmid_def)
  have st1: "st1 = set_base st VM_BASE (entries_of st VM_BASE @ [(s_dir s, EDir Map.empty)])"
    using allocate_state(2) [OF assms(1)] s(1) by simp
  have "vmid_files (es @ [(d, EDir Map.empty)]) = vmid_files es" for es d
    by (induction es rule: vmid_files.induct) (auto split: option.splits)
  then have "kento_recorded_vmids st1 = kento_recorded_vmids st"
    by (cases "vm_base st") (simp_all add: st1 set_base_def entries_of_def kento_recorded_vmids_def valid_ints_def List.map_filter_def)
  then have "used_vmids v st1 = used_vmids v st" by (simp add: used_vmids_def)
  then show ?thesis by (simp add: s(2,3) next_vmid_def)
qed

text \<open>
  Nor does it keep the names apart on a PVE node.  A container's directory is named by its
  VM id and its name is recorded after the lock is released: a second creation with the same
  explicit name that takes the lock before that finds no conflict.
\<close>
theorem pve_name_race:
  assumes "allocate v st r = Inr (s, st1)" "r_mode r = ''pve''" "\<not> r_force r" "r_name r = Some n" "n \<noteq> s_dir s" "store_ok st"
  shows "s_name s = n \<and> pick_name st1 r = Inr n"
proof -
  have s: "s_base s = LXC_BASE" "s_name s = n"
    using assms(1-4) by (auto simp: allocate_Inr base_for_def is_vm_mode_def pick_name_def split: if_splits)
  have st1: "st1 = set_base st LXC_BASE (entries_of st LXC_BASE @ [(s_dir s, EDir Map.empty)])"
    using allocate_state(2) [OF assms(1)] s(1) by simp
  have base: "lxc_base st1 = Some (entries_of st LXC_BASE @ [(s_dir s, EDir Map.empty)])" "vm_base st1 = vm_base st"
    by (simp_all add: st1 set_base_def)
  have pn: "pick_name st r = Inr n" using assms(1) s(2) by (simp add: allocate_Inr)
  have "store_ok st1" using store_step_ok [OF assms(6), of "OpAllocate v r"] assms(1) by simp
  then have lok: "listing_ok (lxc_base st)" "listing_ok (lxc_base st1)"
    using assms(6) by (auto simp: store_ok_listing)
  have "scan_namespace n (lxc_base st) = None" "scan_namespace n (vm_base st) = None"
    using pn assms(3,4)
    by (cases "scan_namespace n (lxc_base st)"; cases "scan_namespace n (vm_base st)"; simp add: pick_name_def Let_def)+
  moreover have "holds_name n (lxc_base st1) = holds_name n (lxc_base st)"
    using assms(5) by (cases "lxc_base st") (auto simp: base(1) holds_name_def entries_of_def)
  ultimately have "scan_namespace n (lxc_base st1) = None" "scan_namespace n (vm_base st1) = None"
    using scan_namespace_iff [OF lok(1), of n] scan_namespace_iff [OF lok(2), of n] base(2) by metis+
  then show ?thesis using assms(2-4) s(2) by (simp add: pick_name_def base_for_def is_vm_mode_def)
qed

text \<open>A store of two empty namespaces, a view in which PVE lists nothing, and two creations.\<close>

definition no_view :: pve_view where
  "no_view = \<lparr>vmlist = None, lxc_stems = [], qemu_stems = []\<rparr>"

definition no_store :: store where
  "no_store = \<lparr>lxc_base = Some [], vm_base = Some []\<rparr>"

definition ask :: "string \<Rightarrow> string \<Rightarrow> request" where
  "ask name mode = \<lparr>r_name = Some name, r_image = ''i'', r_mode = mode, r_vmid = 0, r_force = False\<rparr>"

definition vmid_dir :: string where "vmid_dir = int_str 100"

lemma first_vmid: "next_vmid no_view no_store = 100"
  by (simp add: next_vmid_def used_vmids_def no_view_def no_store_def pve_view_vmids_def valid_ints_def
      kento_recorded_vmids_def List.map_filter_def vmid_from.simps)

lemma bare_dir: "scan_namespace n (Some [(d, EDir Map.empty)]) = None" "scan_namespace n (Some []) = None"
  by (simp_all add: scan_namespace_def)

lemma first_ct: "allocate no_view no_store (ask ''web'' ''pve'') =
    Inr (\<lparr>s_name = ''web'', s_vmid = 100, s_base = LXC_BASE, s_dir = vmid_dir\<rparr>,
         \<lparr>lxc_base = Some [(vmid_dir, EDir Map.empty)], vm_base = Some []\<rparr>)"
  using first_vmid
  by (simp add: allocate_def pick_name_def ask_def no_store_def scan_namespace_def pick_vmid_def base_for_def
      is_vm_mode_def entries_of_def set_base_def vmid_dir_def Let_def)

lemma first_vm: "allocate no_view no_store (ask n ''pve-vm'') =
    Inr (\<lparr>s_name = n, s_vmid = 100, s_base = VM_BASE, s_dir = n\<rparr>,
         \<lparr>lxc_base = Some [], vm_base = Some [(n, EDir Map.empty)]\<rparr>)"
  using first_vmid
  by (simp add: allocate_def pick_name_def ask_def no_store_def scan_namespace_def pick_vmid_def base_for_def
      is_vm_mode_def entries_of_def set_base_def)

lemma vmid_dir_not: "vmid_dir \<noteq> ''web''"
  by (simp add: vmid_dir_def int_str_def nat_str.simps)

lemma no_store_ok: "store_ok no_store"
  by (simp add: store_ok_listing no_store_def listing_ok_def)

theorem pve_name_race_witness:
  "\<exists>s st1. allocate no_view no_store (ask ''web'' ''pve'') = Inr (s, st1) \<and> s_name s = ''web'' \<and>
     pick_name st1 (ask ''web'' ''pve'') = Inr ''web''"
  using pve_name_race [OF first_ct, of "''web''"] first_ct vmid_dir_not no_store_ok by (auto simp: ask_def)

theorem pve_vm_vmid_race_witness:
  "\<exists>s st1 s' st2. allocate no_view no_store (ask ''web'' ''pve-vm'') = Inr (s, st1) \<and>
     allocate no_view st1 (ask ''db'' ''pve-vm'') = Inr (s', st2) \<and> s_name s = ''web'' \<and> s_name s' = ''db'' \<and> s_vmid s' = s_vmid s"
proof -
  let ?st1 = "\<lparr>lxc_base = Some [], vm_base = Some [(''web'', EDir Map.empty)]\<rparr>"
  obtain s' st2 where "allocate no_view ?st1 (ask ''db'' ''pve-vm'') = Inr (s', st2)" "s_name s' = ''db''"
    by (simp add: allocate_def pick_name_def ask_def bare_dir pick_vmid_def base_for_def
      is_vm_mode_def entries_of_def set_base_def)
  with pve_vm_vmid_race [OF first_vm _ _ this(1)] first_vm [of "''web''"] show ?thesis by (auto simp: ask_def)
qed

theorem allocation_exclusive_witness:
  "\<exists>s st1 s' st2. allocate no_view no_store (ask ''web'' ''pve'') = Inr (s, st1) \<and>
     allocate no_view st1 (ask ''db'' ''pve-vm'') = Inr (s', st2) \<and> s_vmid s' \<noteq> s_vmid s"
proof -
  let ?st1 = "\<lparr>lxc_base = Some [(vmid_dir, EDir Map.empty)], vm_base = Some []\<rparr>"
  obtain s' st2 where r: "allocate no_view ?st1 (ask ''db'' ''pve-vm'') = Inr (s', st2)"
    by (simp add: allocate_def pick_name_def ask_def bare_dir pick_vmid_def base_for_def
      is_vm_mode_def entries_of_def set_base_def)
  from allocation_exclusive [OF first_ct reaches_nil _ r] first_ct r show ?thesis by (auto simp: ask_def)
qed

section \<open>Names, one creation after the other\<close>

fun names_of :: "listing \<Rightarrow> string list" where
  "names_of [] = []"
| "names_of ((d, EFile) # es) = names_of es"
| "names_of ((d, EDir fs) # es) =
     (if fs ''kento-image'' \<noteq> None then (case recorded_name fs of Some n \<Rightarrow> [n] | None \<Rightarrow> []) else []) @ names_of es"

definition all_names :: "store \<Rightarrow> string list" where
  "all_names st = names_of (entries_of st LXC_BASE) @ names_of (entries_of st VM_BASE)"

text \<open>A creation up to the end of the common metadata, with no other process in between.\<close>

definition create_metadata :: "pve_view \<Rightarrow> request \<Rightarrow> create_opts \<Rightarrow> store \<Rightarrow> store" where
  "create_metadata v r c st = (case allocate v st r of Inl _ \<Rightarrow> st
     | Inr (s, st') \<Rightarrow> write_files st' (s_base s) (s_dir s) (common_writes (s_name s) c))"

lemma names_of_append: "names_of (es @ fs) = names_of es @ names_of fs"
  by (induction es rule: names_of.induct) auto

lemma names_of_in: "n \<in> set (names_of es) \<Longrightarrow> \<exists>d fs. (d, EDir fs) \<in> set es \<and> fs ''kento-image'' \<noteq> None \<and> recorded_name fs = Some n"
proof (induction es rule: names_of.induct)
  case (3 d fs es)
  show ?case
  proof (cases "n \<in> set (names_of es)")
    case True
    with 3 show ?thesis by (metis list.set_intros(2))
  next
    case False
    with "3.prems" have "fs ''kento-image'' \<noteq> None" "recorded_name fs = Some n"
      by (cases "fs ''kento-image''"; cases "recorded_name fs"; simp)+
    then show ?thesis by (metis list.set_intros(1))
  qed
qed simp_all

lemma names_held: "n \<in> set (names_of (entries_of st b)) \<Longrightarrow> holds_name n (base_of st b)"
proof -
  assume "n \<in> set (names_of (entries_of st b))"
  then obtain d fs where e: "(d, EDir fs) \<in> set (entries_of st b)" "answers n (d, EDir fs)"
    using names_of_in by fastforce
  show ?thesis
  proof (cases "base_of st b")
    case None
    with e(1) show ?thesis by (simp add: entries_of_def)
  next
    case (Some es)
    with e(1) have "(d, EDir fs) \<in> set es" by (simp add: entries_of_def)
    with e(2) show ?thesis unfolding holds_name_def Some option.case by blast
  qed
qed

lemma valid_name_clean: "validate_name n = Inr () \<Longrightarrow> last n \<noteq> LF \<Longrightarrow> clean n"
proof -
  assume "validate_name n = Inr ()" "last n \<noteq> LF"
  then have "n \<noteq> []" "\<forall>c \<in> set n. name_char c" by (auto simp: validate_name_iff)
  moreover have "name_char c \<Longrightarrow> \<not> py_isspace c" for c
    by (auto simp: name_char_def is_word_def is_alnum_def is_alpha_def is_lower_def is_upper_def is_digit_def py_isspace_def cp_def)
  ultimately show ?thesis
    using linebreak_isspace by (auto simp: clean_def no_breaks_def intro!: stripped_no_space)
qed

lemma generated_clean: "validate_name (next_name b used) = Inr () \<Longrightarrow> clean (next_name b used)"
proof (rule valid_name_clean)
  obtain k where "next_name b used = numbered b k" using nin.pick_first by blast
  moreover have "is_digit (last (nat_str k))" by (rule nat_str_digits [of _ k]) simp
  ultimately have "is_digit (last (next_name b used))" by (simp add: numbered_def)
  then show "last (next_name b used) \<noteq> LF" by (auto simp: is_digit_def cp_def)
qed

lemma picked_name:
  assumes "pick_name st r = Inr n" "store_ok st" "\<not> r_force r" "\<forall>m \<in> set_option (r_name r). clean m"
  shows "clean n \<and> n \<notin> set (all_names st)"
proof -
  have ok: "listing_ok (lxc_base st)" "listing_ok (vm_base st)" using assms(2) by (simp_all add: store_ok_listing)
  show ?thesis
  proof (cases "r_name r")
    case (Some m)
    with assms(1,3) have "m = n" "scan_namespace n (lxc_base st) = None" "scan_namespace n (vm_base st) = None"
      by (cases "scan_namespace m (lxc_base st)"; cases "scan_namespace m (vm_base st)"; simp add: pick_name_def Let_def)+
    then have "\<not> holds_name n (lxc_base st)" "\<not> holds_name n (vm_base st)"
      using scan_namespace_iff [OF ok(1), of n] scan_namespace_iff [OF ok(2), of n] by metis+
    then show ?thesis using Some assms(4) \<open>m = n\<close> names_held [of n st LXC_BASE] names_held [of n st VM_BASE]
      by (auto simp: all_names_def)
  next
    case None
    let ?b = "base_for (r_mode r)"
    let ?u = "used_names (base_of st ?b) (base_of st (other_base ?b))"
    from None assms(1) have n: "n = next_name (sanitize_image_name (r_image r)) ?u" "validate_name n = Inr ()"
      by (auto simp: pick_name_def Let_def next_instance_name_def)
    then have "n \<notin> set ?u" using nin.pick_fresh by metis
    then have "\<not> holds_name n (base_of st ?b)" "\<not> holds_name n (base_of st (other_base ?b))" using holds_used by blast+
    then have "\<not> holds_name n (base_of st LXC_BASE)" "\<not> holds_name n (base_of st VM_BASE)" by (cases ?b; simp)+
    then show ?thesis using n generated_clean names_held [of n st LXC_BASE] names_held [of n st VM_BASE]
      by (auto simp: all_names_def)
  qed
qed

lemma written_name: "clean n \<Longrightarrow> recorded_name (do_writes (common_writes n c) Map.empty) = Some n \<and>
    do_writes (common_writes n c) Map.empty ''kento-image'' \<noteq> None"
  using clean_line [of n]
  by (simp add: recorded_name_def do_writes_wrote common_writes_def cong: if_cong split del: if_split)

lemma create_metadata_step:
  assumes "store_ok st" "distinct (all_names st)" "\<not> r_force r" "\<forall>m \<in> set_option (r_name r). clean m"
  shows "store_ok (create_metadata v r c st) \<and> distinct (all_names (create_metadata v r c st))"
proof (cases "allocate v st r")
  case (Inl e)
  with assms show ?thesis by (simp add: create_metadata_def)
next
  case (Inr p)
  obtain s st' where p: "p = (s, st')" by (cases p)
  with Inr have al: "allocate v st r = Inr (s, st')" by simp
  note st' = allocate_state [OF al]
  let ?w = "common_writes (s_name s) c"
  have cm: "create_metadata v r c st = write_files st' (s_base s) (s_dir s) ?w" by (simp add: create_metadata_def al)
  have "pick_name st r = Inr (s_name s)" using al by (simp add: allocate_Inr)
  note nm = picked_name [OF this assms(1,3,4)]
  have "(d, e) \<in> set (entries_of st (s_base s)) \<Longrightarrow> d \<noteq> s_dir s" for d e
    using st'(1) by (force simp: map_of_eq_None_iff)
  then have "map (\<lambda>(n, e). (n, if n = s_dir s then (case e of EDir fs \<Rightarrow> EDir (do_writes ?w fs) | EFile \<Rightarrow> EFile) else e))
      (entries_of st (s_base s)) = entries_of st (s_base s)"
    by (intro map_idI) auto
  then have "entries_of (write_files st' (s_base s) (s_dir s) ?w) b =
      (if b = s_base s then entries_of st b @ [(s_dir s, EDir (do_writes ?w Map.empty))] else entries_of st b)" for b
    using st'(2) by simp
  then have "names_of (entries_of (create_metadata v r c st) b) =
      names_of (entries_of st b) @ (if b = s_base s then [s_name s] else [])" for b
    using written_name [OF conjunct1 [OF nm], of c] by (simp add: cm names_of_append)
  then have "distinct (all_names (create_metadata v r c st))"
    using nm assms(2) by (cases "s_base s") (auto simp: all_names_def)
  moreover have "store_ok (create_metadata v r c st)"
    using store_ops.run_inv [OF assms(1), of "[OpAllocate v r, OpWrite (s_base s) (s_dir s) ?w]"] by (simp add: al cm)
  ultimately show ?thesis by blast
qed

text \<open>
  Creations that do not overlap keep the names of the instances apart in both namespaces,
  however many there are and whatever they ask for, as long as none is forced and the explicit
  names have no white space at their ends.
\<close>
theorem sequential_names_unique:
  assumes "store_ok st" "distinct (all_names st)"
    "\<forall>(v, r, c) \<in> set reqs. \<not> r_force r \<and> (\<forall>m \<in> set_option (r_name r). clean m)"
  shows "distinct (all_names (fold (\<lambda>(v, r, c). create_metadata v r c) reqs st))"
proof -
  have "store_ok (fold (\<lambda>(v, r, c). create_metadata v r c) reqs st) \<and>
      distinct (all_names (fold (\<lambda>(v, r, c). create_metadata v r c) reqs st))"
    using assms
  proof (induction reqs arbitrary: st)
    case (Cons x reqs)
    obtain v r c where x: "x = (v, r, c)" by (cases x)
    with Cons.prems create_metadata_step [of st r v c] Cons.IH [of "create_metadata v r c st"] show ?case by simp
  qed simp
  then show ?thesis by blast
qed

theorem sequential_names_unique_witness:
  "distinct (all_names (fold (\<lambda>(v, r, c). create_metadata v r c)
     [(no_view, ask ''web'' ''lxc'', sample_opts ''lxc''), (no_view, ask ''web'' ''pve'', sample_opts ''pve'')] no_store))"
  by (rule sequential_names_unique)
    (use no_store_ok sample_name in \<open>simp_all add: all_names_def no_store_def entries_of_def ask_def\<close>)

section \<open>Reaping while a creation runs\<close>

lemma wrote_take: "wrote f ws = None \<Longrightarrow> wrote f (take k ws) = None"
  unfolding wrote_def map_of_eq_None_iff by (auto dest: in_set_takeD)

lemma early_files:
  assumes "5 \<le> k"
  shows "wrote ''kento-mode'' (take k (common_writes name c)) = Some (c_mode c @ [LF])"
    "wrote ''kento-image'' (take k (common_writes name c)) = Some (c_image c @ [LF])"
    "wrote ''kento-vmid'' (take k (common_writes name c)) = None"
proof -
  define pre where "pre = [line_file ''kento-image'' (c_image c)] @
     (if c_image_id c \<noteq> [] then [line_file ''kento-image-id'' (c_image_id c)] else []) @
     [line_file ''kento-layers'' (c_layers c), line_file ''kento-state'' (c_state_dir c), line_file ''kento-mode'' (c_mode c)]"
  obtain post where post: "common_writes name c = pre @ post" "wrote ''kento-mode'' post = None" "wrote ''kento-image'' post = None"
    by (rule that [of "drop (length pre) (common_writes name c)"])
      (simp_all add: pre_def common_writes_def cong: if_cong split del: if_split)
  have "length pre \<le> 5" by (simp add: pre_def)
  with assms have t: "take k (common_writes name c) = pre @ take (k - length pre) post" by (simp add: post(1))
  show "wrote ''kento-mode'' (take k (common_writes name c)) = Some (c_mode c @ [LF])"
    "wrote ''kento-image'' (take k (common_writes name c)) = Some (c_image c @ [LF])"
    unfolding t using wrote_take [OF post(2)] wrote_take [OF post(3)] by (simp_all add: pre_def)
  show "wrote ''kento-vmid'' (take k (common_writes name c)) = None"
    by (rule wrote_take) (simp add: common_writes_def cong: if_cong split del: if_split)
qed

lemma quiet_destroy:
  "files_at (w_store w) b d ''kento-image'' \<noteq> None \<Longrightarrow> or_dir x = (b, d) \<Longrightarrow>
     \<not> has_dir (w_store (snd (reap_destroy (\<lambda>_. quiet) cdir x w))) b d"
proof -
  assume i: "files_at (w_store w) b d ''kento-image'' \<noteq> None" and x: "or_dir x = (b, d)"
  have "fst (reap_destroy (\<lambda>_. quiet) cdir x w) = Inr ()"
    using i by (auto simp: reap_destroy_def x destroy_dir_def Let_def destroy_stop_def quiet_def case_prod_beta)
  from reap_destroy_removed [OF this x] show ?thesis by (simp add: has_dir_def)
qed

lemma reap_all_quiet:
  assumes "store_ok (w_store w)" "x \<in> set os" "or_dir x = (b, d)"
    "\<And>fs. (d, EDir fs) \<in> set (entries_of (w_store w) b) \<Longrightarrow> fs ''kento-image'' \<noteq> None"
  shows "\<not> has_dir (w_store (snd (reap_all (reap_destroy (\<lambda>_. quiet) cdir) os w))) b d"
  using assms
proof (induction os arbitrary: w)
  case Nil
  then show ?case by simp
next
  case (Cons y os)
  obtain r w1 where w1: "reap_destroy (\<lambda>_. quiet) cdir y w = (r, w1)" by (cases "reap_destroy (\<lambda>_. quiet) cdir y w")
  have sh: "shrunk {or_dir y} (w_store w) (w_store w1)" using reap_destroy_shrunk [of y w "\<lambda>_. quiet" cdir] w1 by simp
  have last: "w_store (snd (reap_all (reap_destroy (\<lambda>_. quiet) cdir) (y # os) w)) =
      w_store (snd (reap_all (reap_destroy (\<lambda>_. quiet) cdir) os w1))"
    by (simp add: w1 Let_def case_prod_beta)
  show ?case
  proof (cases "has_dir (w_store w1) b d")
    case False
    obtain res w2 where r2: "reap_all (reap_destroy (\<lambda>_. quiet) cdir) os w1 = (res, w2)" by fastforce
    with reap_all_store [OF r2] have "shrunk (or_dir ` set os) (w_store w1) (w_store w2)" by blast
    with False shrunk_subset last r2 show ?thesis unfolding has_dir_def by fastforce
  next
    case True
    then obtain fs where "(d, EDir fs) \<in> set (entries_of (w_store w1) b)" by (auto simp: has_dir_def)
    then have fs: "(d, EDir fs) \<in> set (entries_of (w_store w) b)" using shrunk_subset [OF sh] by blast
    then have "files_at (w_store w) b d = fs" using Cons.prems(1) by (simp add: files_at_def store_ok_def)
    with Cons.prems(4) [OF fs] have "files_at (w_store w) b d ''kento-image'' \<noteq> None" by simp
    with quiet_destroy [of w b d y cdir] True w1 have "or_dir y \<noteq> (b, d)" by auto
    with Cons.prems(2,3) have "x \<in> set os" by auto
    moreover have "store_ok (w_store w1)" using sh Cons.prems(1) by (auto simp: store_ok_def shrunk_def distinct_map_filter)
    moreover have "\<And>fs. (d, EDir fs) \<in> set (entries_of (w_store w1) b) \<Longrightarrow> fs ''kento-image'' \<noteq> None"
      using Cons.prems(4) shrunk_subset [OF sh] by blast
    ultimately show ?thesis unfolding last using Cons.IH [of w1] Cons.prems(3) by blast
  qed
qed

text \<open>
  A creation that is still writing its metadata looks like an orphan.  From the moment its
  mode is recorded until its configuration is written, the search for orphans returns it, and
  reaping, which does not take the lock, removes the directory the creation is filling.
\<close>
theorem create_in_flight_is_reaped:
  assumes "allocate v st r = Inr (s, st')" "is_pve_mode (r_mode r)" "c_mode c = r_mode r" "5 \<le> k" "store_ok st"
    "only_oserrors config_exists" "config_exists (s_dir s) ''pve'' = Inr False"
    "w_store w = write_files st' (s_base s) (s_dir s) (take k (common_writes (s_name s) c))"
  shows "has_dir (w_store w) (s_base s) (s_dir s) \<and>
    (\<exists>os x. find_orphans config_exists (w_store w) None = Inr os \<and> x \<in> set os \<and> or_dir x = (s_base s, s_dir s)) \<and>
    \<not> has_dir (w_store (snd (reap_orphans config_exists (reap_destroy (\<lambda>_. quiet) cdir) (w_store w) True None w)))
       (s_base s) (s_dir s)"
proof -
  let ?b = "s_base s" and ?d = "s_dir s"
  define fs where "fs = do_writes (take k (common_writes (s_name s) c)) Map.empty"
  have ok: "store_ok (w_store w)"
    using store_ops.run_inv [OF assms(5), of "[OpAllocate v r, OpWrite ?b ?d (take k (common_writes (s_name s) c))]"] assms(1,8)
    by simp
  have e: "(?d, EDir fs) \<in> set (entries_of (w_store w) ?b)"
    using allocate_state(2) [OF assms(1)] by (auto simp: assms(8) fs_def image_iff)
  have only: "g = fs" if "(?d, EDir g) \<in> set (entries_of (w_store w) ?b)" for g
    using ok that e eq_key_imp_eq_value unfolding store_ok_def by fastforce
  have f: "fs ''kento-mode'' = Some (r_mode r @ [LF])" "fs ''kento-image'' \<noteq> None" "fs ''kento-vmid'' = None"
    using early_files [OF assms(4), of "s_name s" c] by (simp_all add: fs_def do_writes_wrote assms(3))
  have "clean (r_mode r)" using assms(2)
    by (auto simp: is_pve_mode_def clean_def stripped_def no_breaks_def py_isspace_def py_linebreak_def cp_def)
  then have mode: "read_mode fs ''lxc'' = r_mode r" by (simp add: read_mode_def f(1) clean_line)
  have "gone config_exists ?d fs"
    using assms(2,7) f(3) by (auto simp: gone_def Let_def mode orphan_vmid_def read_meta_def is_pve_mode_def)
  moreover have "(?b, ?d, fs) \<in> candidates (w_store w) None" using e f(2) by (simp add: candidates_def in_scope_def)
  ultimately have mem: "(?b, ?d, fs) \<in> {(b, d, fs) \<in> candidates (w_store w) None. gone config_exists d fs}" by simp
  obtain xs where xs: "set xs = {(b, d, fs) \<in> candidates (w_store w) None. gone config_exists d fs}"
    "find_orphans config_exists (w_store w) None = Inr (map (\<lambda>(b, d, fs). describe b d fs (read_mode fs ''lxc'')) xs)"
    using find_orphans_filter [OF assms(6), of "w_store w" None] by blast
  define os where "os = map (\<lambda>(b, d, fs). describe b d fs (read_mode fs ''lxc'')) xs"
  have "(?b, ?d, fs) \<in> set xs" using mem xs(1) by simp
  then have os: "find_orphans config_exists (w_store w) None = Inr os" "describe ?b ?d fs (read_mode fs ''lxc'') \<in> set os"
    using xs(2) by (force simp: os_def)+
  have "\<not> has_dir (w_store (snd (reap_all (reap_destroy (\<lambda>_. quiet) cdir) os w))) ?b ?d"
    using only f(2) by (intro reap_all_quiet [OF ok os(2)]) (auto simp: orphan_paths)
  with e os show ?thesis by (auto simp: reap_orphans_def has_dir_def Let_def case_prod_beta orphan_paths)
qed

theorem create_in_flight_is_reaped_witness:
  "\<exists>s st' w. allocate no_view no_store (ask ''web'' ''pve'') = Inr (s, st') \<and>
     w_store w = write_files st' (s_base s) (s_dir s) (take 6 (common_writes (s_name s) (sample_opts ''pve''))) \<and>
     has_dir (w_store w) (s_base s) (s_dir s) \<and>
     \<not> has_dir (w_store (snd (reap_orphans (\<lambda>_ _. Inr False) (reap_destroy (\<lambda>_. quiet) (\<lambda>_. ''/d'')) (w_store w) True None w)))
       (s_base s) (s_dir s)"
proof -
  obtain s st' where s: "allocate no_view no_store (ask ''web'' ''pve'') = Inr (s, st')" using first_ct by blast
  let ?w = "\<lparr>w_store = write_files st' (s_base s) (s_dir s) (take 6 (common_writes (s_name s) (sample_opts ''pve''))),
     w_confs = [], w_state_dirs = []\<rparr>"
  have "only_oserrors (\<lambda>_ _. Inr False)" by (simp add: only_oserrors_def)
  from create_in_flight_is_reaped [OF s _ _ _ no_store_ok this, of "sample_opts ''pve''" 6 ?w] s show ?thesis
    by (intro exI [of _ s] exI [of _ st'] exI [of _ ?w]) (simp add: ask_def is_pve_mode_def sample_opts_def)
qed

end
