(* ===== verification/Confedit.thy ===== *)
theory Confedit imports Pve begin

text \<open>
  The line editors of \<^verbatim>\<open>set_cmd.py\<close>: replacing, adding or removing one field of a PVE
  configuration or of a native LXC configuration, and dropping a pass-through block.  Both
  replacements are one editor over a test for the end of the part searched and a test for the
  field; the locale \<open>keyed_lines\<close> holds what the commands rely on: a field that was set is
  read back, and no other line is touched.
\<close>

section \<open>The editor\<close>

text \<open>
  The loop over the lines: the index where the part searched ends, and that of the last line
  with the field.
\<close>

fun scan_lines :: "(string \<Rightarrow> bool) \<Rightarrow> (string \<Rightarrow> bool) \<Rightarrow> nat \<Rightarrow> nat option \<Rightarrow> string list \<Rightarrow> nat \<times> nat option" where
  "scan_lines stops hit i last_idx [] = (i, last_idx)"
| "scan_lines stops hit i last_idx (raw # ls) =
     (if stops raw then (i, last_idx)
      else scan_lines stops hit (Suc i) (if hit raw then Some i else last_idx) ls)"

definition edit_lines :: "(string \<Rightarrow> bool) \<Rightarrow> (string \<Rightarrow> bool) \<Rightarrow> string option \<Rightarrow> string list \<Rightarrow> string list" where
  "edit_lines stops hit new ls =
     (case scan_lines stops hit 0 None ls of
        (_, Some i) \<Rightarrow> (case new of None \<Rightarrow> take i ls @ drop (Suc i) ls | Some n \<Rightarrow> ls[i := n])
      | (start, None) \<Rightarrow> (case new of None \<Rightarrow> ls | Some n \<Rightarrow> take start ls @ n # drop start ls))"

definition keep_newline :: "string \<Rightarrow> string \<Rightarrow> string" where
  "keep_newline content out =
     (if (content \<noteq> [] \<and> last content = LF) \<and> \<not> (out \<noteq> [] \<and> last out = LF) then out @ [LF] else out)"

definition conf_stops :: "string \<Rightarrow> bool" where
  "conf_stops raw = section_header (py_strip raw)"

definition field_is :: "char \<Rightarrow> string \<Rightarrow> string \<Rightarrow> bool" where
  "field_is sep field raw \<longleftrightarrow>
     (let stripped = py_strip raw
      in stripped \<noteq> [] \<and> hd stripped \<noteq> CHR ''#'' \<and> sep \<in> set stripped \<and>
         py_strip (fst (py_partition sep stripped)) = field)"

definition conf_line :: "string \<Rightarrow> string \<Rightarrow> string" where
  "conf_line field value = field @ '': '' @ value"

definition raw_line :: "string \<Rightarrow> string \<Rightarrow> string" where
  "raw_line key value = key @ '' = '' @ value"

definition replace_conf_field :: "string \<Rightarrow> string \<Rightarrow> string option \<Rightarrow> string" where
  "replace_conf_field content field value =
     keep_newline content (py_join [LF]
       (edit_lines conf_stops (field_is CHR '':'' field) (map_option (conf_line field) value)
         (py_splitlines content)))"

definition replace_config_raw :: "string \<Rightarrow> string \<Rightarrow> string option \<Rightarrow> string" where
  "replace_config_raw content key value =
     keep_newline content (py_join [LF]
       (edit_lines (\<lambda>_. False) (field_is CHR ''='' key) (map_option (raw_line key) value)
         (py_splitlines content)))"

text \<open>The pass-through lines of the global section are dropped; sections stay.\<close>

fun drop_known :: "string list \<Rightarrow> bool \<Rightarrow> string list \<Rightarrow> string list" where
  "drop_known known in_global [] = []"
| "drop_known known in_global (raw # ls) =
     (let in_global' = (in_global \<and> \<not> conf_stops raw)
      in if in_global' \<and> raw \<in> set known then drop_known known in_global' ls
         else raw # drop_known known in_global' ls)"

definition drop_passthrough_block :: "string \<Rightarrow> string list \<Rightarrow> string" where
  "drop_passthrough_block content known =
     (if known = [] then content
      else keep_newline content (py_join [LF] (drop_known known True (py_splitlines content))))"

text \<open>
  The value a reader of the native configuration takes: the last line with the key, as
  \<^verbatim>\<open>liblxc\<close> and the parser of \<^verbatim>\<open>set_cmd.py\<close> do.
\<close>

definition line_value :: "(string \<Rightarrow> bool) \<Rightarrow> (string \<Rightarrow> bool) \<Rightarrow> (string \<Rightarrow> string) \<Rightarrow> string list \<Rightarrow> string option" where
  "line_value stops hit val ls =
     (let hits = filter hit (takeWhile (\<lambda>l. \<not> stops l) ls) in if hits = [] then None else Some (val (last hits)))"

definition after_sep :: "char \<Rightarrow> string \<Rightarrow> string" where
  "after_sep sep raw = py_strip (snd (snd (py_partition sep (py_strip raw))))"

section \<open>What an edit does to the lines\<close>

lemma scan_lines_none:
  "(\<And>l. l \<in> set (takeWhile (\<lambda>l. \<not> stops l) ls) \<Longrightarrow> \<not> hit l) \<Longrightarrow>
     scan_lines stops hit i r ls = (i + length (takeWhile (\<lambda>l. \<not> stops l) ls), r)"
  by (induction ls arbitrary: i) auto

lemma scan_lines_some:
  "takeWhile (\<lambda>l. \<not> stops l) ls = a @ l # b \<Longrightarrow> hit l \<Longrightarrow> (\<And>x. x \<in> set b \<Longrightarrow> \<not> hit x) \<Longrightarrow>
     scan_lines stops hit i r ls = (i + length (takeWhile (\<lambda>l. \<not> stops l) ls), Some (i + length a))"
proof (induction a arbitrary: ls i r)
  case Nil
  then obtain ms where ls: "ls = l # ms" "\<not> stops l" "takeWhile (\<lambda>l. \<not> stops l) ms = b"
    by (cases ls) (auto split: if_splits)
  with Nil scan_lines_none [of stops ms hit "Suc i" "Some i"] show ?case by simp
next
  case (Cons x a)
  then obtain ms where ls: "ls = x # ms" "\<not> stops x" "takeWhile (\<lambda>l. \<not> stops l) ms = a @ l # b"
    by (cases ls) (auto split: if_splits)
  with Cons.IH [OF ls(3) Cons.prems(2,3), of "Suc i" "if hit x then Some i else r"] show ?case by simp
qed

text \<open>The two shapes of the part searched, with what each edit makes of it.\<close>

lemma edit_lines_cases:
  obtains (absent) g s where "ls = g @ s" "\<forall>l \<in> set g. \<not> stops l" "takeWhile (\<lambda>l. \<not> stops l) s = []" "dropWhile (\<lambda>l. \<not> stops l) s = s"
      "\<forall>l \<in> set g. \<not> hit l"
      "\<And>n. edit_lines stops hit (Some n) ls = g @ n # s" "edit_lines stops hit None ls = ls"
  | (present) a l b s where "ls = a @ l # b @ s" "\<forall>x \<in> set (a @ l # b). \<not> stops x" "takeWhile (\<lambda>l. \<not> stops l) s = []" "dropWhile (\<lambda>l. \<not> stops l) s = s"
      "hit l" "\<forall>x \<in> set b. \<not> hit x"
      "\<And>n. edit_lines stops hit (Some n) ls = a @ n # b @ s" "edit_lines stops hit None ls = a @ b @ s"
proof -
  define g where "g = takeWhile (\<lambda>l. \<not> stops l) ls"
  define s where "s = dropWhile (\<lambda>l. \<not> stops l) ls"
  have gs: "ls = g @ s" by (simp add: g_def s_def)
  have g: "\<forall>l \<in> set g. \<not> stops l" by (auto simp: g_def dest: set_takeWhileD)
  have s: "takeWhile (\<lambda>l. \<not> stops l) s = []" "dropWhile (\<lambda>l. \<not> stops l) s = s"
    unfolding s_def by (induction ls) simp_all
  show thesis
  proof (cases "\<exists>l \<in> set g. hit l")
    case False
    then have sc: "scan_lines stops hit 0 None ls = (length g, None)"
      using scan_lines_none [of stops ls hit 0 None] by (auto simp: g_def)
    show thesis
    proof (rule absent [OF gs g s(1) s(2)])
      show "\<forall>l \<in> set g. \<not> hit l" using False by blast
      show "edit_lines stops hit (Some n) ls = g @ n # s" for n
        unfolding edit_lines_def sc by (simp add: gs)
      show "edit_lines stops hit None ls = ls" unfolding edit_lines_def sc by simp
    qed
  next
    case True
    then obtain a l b where ab: "g = a @ l # b" "hit l" "\<forall>x \<in> set b. \<not> hit x"
      using split_list_last_prop [of g hit] by blast
    then have sc: "scan_lines stops hit 0 None ls = (length g, Some (length a))"
      using scan_lines_some [of stops ls a l b hit 0 None] by (simp add: g_def)
    have ls: "ls = a @ l # b @ s" using gs ab(1) by simp
    show thesis
    proof (rule present [OF ls _ s(1) s(2) ab(2,3)])
      show "\<forall>x \<in> set (a @ l # b). \<not> stops x" using g ab(1) by simp
      show "edit_lines stops hit (Some n) ls = a @ n # b @ s" for n
        unfolding edit_lines_def sc by (simp add: ls)
      show "edit_lines stops hit None ls = a @ b @ s" unfolding edit_lines_def sc by (simp add: ls)
    qed
  qed
qed

lemma edit_lines_set:
  "l \<in> set (edit_lines stops hit new ls) \<Longrightarrow> l \<in> set ls \<or> new = Some l"
  by (cases rule: edit_lines_cases [of ls stops hit]; cases new) auto

text \<open>
  An edit leaves every line that does not have the field, in its order, and everything from the
  first line that ends the part searched.
\<close>

lemma edit_lines_rest:
  assumes "\<And>n. new = Some n \<Longrightarrow> hit n \<and> \<not> stops n"
  shows "filter (\<lambda>l. \<not> hit l) (takeWhile (\<lambda>l. \<not> stops l) (edit_lines stops hit new ls)) =
      filter (\<lambda>l. \<not> hit l) (takeWhile (\<lambda>l. \<not> stops l) ls)"
    "dropWhile (\<lambda>l. \<not> stops l) (edit_lines stops hit new ls) = dropWhile (\<lambda>l. \<not> stops l) ls"
  using assms
  by (cases rule: edit_lines_cases [of ls stops hit]; cases new; force simp: takeWhile_append dropWhile_append)+

section \<open>The contract of a line editor\<close>

text \<open>
  A line format: which lines end the part searched, which line has which key, and how a line
  of a key is rendered and read.  The laws are those of the two formats of the program; the
  lemmas give what a sequence of edits leaves behind.
\<close>

locale keyed_lines =
  fixes stops :: "string \<Rightarrow> bool"
    and is_key :: "string \<Rightarrow> string \<Rightarrow> bool"
    and val :: "string \<Rightarrow> string"
    and render :: "string \<Rightarrow> string \<Rightarrow> string"
    and ok :: "string \<Rightarrow> bool"
  assumes one_key: "is_key k l \<Longrightarrow> is_key k' l \<Longrightarrow> k = k'"
    and render_key: "ok k \<Longrightarrow> is_key k (render k v)"
    and render_goes_on: "ok k \<Longrightarrow> \<not> stops (render k v)"
    and render_val: "ok k \<Longrightarrow> val (render k v) = py_strip v"
    and blank_key: "\<not> is_key k []"
    and blank_goes_on: "\<not> stops []"
begin

definition value_of :: "string \<Rightarrow> string list \<Rightarrow> string option" where
  "value_of k ls = line_value stops (is_key k) val ls"

definition edit :: "string \<Rightarrow> string option \<Rightarrow> string list \<Rightarrow> string list" where
  "edit k v ls = edit_lines stops (is_key k) (map_option (render k) v) ls"

definition uses :: "string \<Rightarrow> string list \<Rightarrow> nat" where
  "uses k ls = length (filter (is_key k) (takeWhile (\<lambda>l. \<not> stops l) ls))"

lemma value_set: "ok k \<Longrightarrow> value_of k (edit k (Some v) ls) = Some (py_strip v)"
  using render_key [of k v] render_goes_on [of k v] render_val [of k v]
  by (cases rule: edit_lines_cases [of ls stops "is_key k"])
    (auto simp: value_of_def edit_def line_value_def Let_def takeWhile_append)

lemma hits_other:
  assumes "k \<noteq> k'" "ok k"
  shows "filter (is_key k') (takeWhile (\<lambda>l. \<not> stops l) (edit k v ls)) =
      filter (is_key k') (takeWhile (\<lambda>l. \<not> stops l) ls)"
proof -
  show "filter (is_key k') (takeWhile (\<lambda>l. \<not> stops l) (edit k v ls)) =
      filter (is_key k') (takeWhile (\<lambda>l. \<not> stops l) ls)"
  proof -
    have r: "filter (\<lambda>l. \<not> is_key k l) (takeWhile (\<lambda>l. \<not> stops l) (edit k v ls)) =
        filter (\<lambda>l. \<not> is_key k l) (takeWhile (\<lambda>l. \<not> stops l) ls)"
      unfolding edit_def by (rule edit_lines_rest(1)) (use render_key render_goes_on assms in auto)
    have "filter (is_key k') ls = filter (is_key k') (filter (\<lambda>l. \<not> is_key k l) ls)" for ls
      using one_key [of k _ k'] assms(1) by (auto simp: intro!: filter_cong)
    from this [of "takeWhile (\<lambda>l. \<not> stops l) (edit k v ls)"] this [of "takeWhile (\<lambda>l. \<not> stops l) ls"] r
    show ?thesis by simp
  qed
qed

lemma value_other: "k \<noteq> k' \<Longrightarrow> ok k \<Longrightarrow> value_of k' (edit k v ls) = value_of k' ls"
  and uses_other: "k \<noteq> k' \<Longrightarrow> ok k \<Longrightarrow> uses k' (edit k v ls) = uses k' ls"
  using hits_other by (simp_all add: value_of_def line_value_def uses_def)

lemma uses_value: "uses k ls = 0 \<longleftrightarrow> value_of k ls = None"
  by (auto simp: uses_def value_of_def line_value_def Let_def filter_empty_conv)

lemma uses_set: "ok k \<Longrightarrow> uses k (edit k (Some v) ls) = max 1 (uses k ls)"
  using render_key [of k v] render_goes_on [of k v]
  by (cases rule: edit_lines_cases [of ls stops "is_key k"])
    (auto simp: uses_def edit_def takeWhile_append filter_empty_conv)

lemma uses_removed: "uses k (edit k None ls) = uses k ls - 1"
  by (cases rule: edit_lines_cases [of ls stops "is_key k"])
    (auto simp: uses_def edit_def takeWhile_append filter_empty_conv)

lemma value_removed: "uses k ls \<le> 1 \<Longrightarrow> value_of k (edit k None ls) = None"
  using uses_value [of k "edit k None ls"] uses_removed [of k ls] by simp

lemma value_blank: "value_of k (ls @ [[]]) = value_of k ls"
  using blank_key blank_goes_on
  by (auto simp: value_of_def line_value_def takeWhile_append takeWhile_eq_all_conv [THEN iffD2])

end

section \<open>The two formats\<close>

definition raw_key :: "string \<Rightarrow> bool" where
  "raw_key k \<longleftrightarrow> k \<noteq> [] \<and> (\<forall>c \<in> set k. \<not> py_isspace c \<and> c \<noteq> CHR ''='') \<and> hd k \<noteq> CHR ''#''"

lemma strip_space: "py_isspace c \<Longrightarrow> py_strip (c # s) = py_strip s"
  by (simp add: py_strip_def py_lstrip_def)

lemma space_char: "py_isspace (CHR '' '')" "\<not> py_isspace (CHR '':'')" "\<not> py_isspace (CHR ''='')"
  by (simp_all add: py_isspace_def cp_def)

lemma strip_front: "\<not> py_isspace c \<Longrightarrow> \<not> py_isspace d \<Longrightarrow> py_strip (c # u @ d # v) = c # u @ d # py_rstrip v"
  by (simp add: py_strip_def py_lstrip_def py_rstrip_def dropWhile_append3)

lemma strip_raw_line: "raw_key k \<Longrightarrow> py_strip (k @ '' = '' @ v) = k @ CHR '' '' # CHR ''='' # py_rstrip (CHR '' '' # v)"
  using strip_front [of "hd k" "CHR ''=''" "tl k @ '' ''" "CHR '' '' # v"] space_char
  by (cases k) (auto simp: raw_key_def)

lemma key_strip: "k \<noteq> [] \<Longrightarrow> \<forall>c \<in> set k. \<not> py_isspace c \<Longrightarrow> py_strip (k @ '' '') = k \<and> py_strip k = k"
  using py_strip_snoc_space [of k "CHR '' ''"] stripped_no_space [of k] space_char py_strip_id [of k] by auto

lemma strip_value: "py_strip (py_rstrip (CHR '' '' # v)) = py_strip v"
  by (simp add: strip_rstrip strip_space space_char)

interpretation conf: keyed_lines conf_stops "field_is CHR '':''" "after_sep CHR '':''" conf_line field_key
proof unfold_locales
  fix k v
  assume k: "field_key k"
  have s: "py_strip (conf_line k v) = k @ CHR '':'' # py_rstrip (CHR '' '' # v)"
    using strip_key_line [OF k, of "CHR '' '' # v"] by (simp add: conf_line_def)
  have n: "CHR '':'' \<notin> set k" "k \<noteq> []" "hd k \<noteq> CHR ''#''" "py_strip k = k"
    using k key_strip [of k] by (auto simp: field_key_def)
  show "field_is CHR '':'' k (conf_line k v)" unfolding field_is_def Let_def s using n by simp
  show "\<not> conf_stops (conf_line k v)" using key_line_not_header [OF k, of "CHR '' '' # v"] by (simp add: conf_stops_def conf_line_def)
  show "after_sep CHR '':'' (conf_line k v) = py_strip v"
    unfolding after_sep_def s using n strip_value [of v] by simp
qed (auto simp: field_is_def Let_def conf_stops_def section_header_def)

interpretation raw: keyed_lines "\<lambda>_. False" "field_is CHR ''=''" "after_sep CHR ''=''" raw_line raw_key
proof unfold_locales
  fix k v
  assume k: "raw_key k"
  have n: "CHR ''='' \<notin> set (k @ '' '')" "k \<noteq> []" "hd k \<noteq> CHR ''#''" "py_strip (k @ '' '') = k"
    using k key_strip [of k] by (auto simp: raw_key_def)
  have s: "py_strip (raw_line k v) = (k @ '' '') @ CHR ''='' # py_rstrip (CHR '' '' # v)"
    using strip_raw_line [OF k, of v] by (simp add: raw_line_def)
  show "field_is CHR ''='' k (raw_line k v)" unfolding field_is_def Let_def s py_partition_at [OF n(1)] using n by simp
  show "after_sep CHR ''='' (raw_line k v) = py_strip v"
    unfolding after_sep_def s py_partition_at [OF n(1)] using strip_value [of v] by simp
qed (auto simp: field_is_def Let_def)

text \<open>The reader of \<^verbatim>\<open>pve.py\<close> takes the value of the last line of the global section with the field.\<close>

lemma parse_field_value:
  "parse_field_from f v ls = (case conf.value_of f ls of None \<Rightarrow> v | Some x \<Rightarrow> Some x)"
  unfolding conf.value_of_def line_value_def
proof (induction ls arbitrary: v)
  case (Cons raw ls)
  obtain k b x where p: "py_partition CHR '':'' (py_strip raw) = (k, b, x)" by (metis prod_cases3)
  show ?case
  proof (cases "conf_stops raw")
    case True
    then show ?thesis by (simp add: strip_lr conf_stops_def)
  next
    case False
    have "parse_field_from f v (raw # ls) =
        parse_field_from f (if field_is CHR '':'' f raw then Some (after_sep CHR '':'' raw) else v) ls"
      using False p by (auto simp: strip_lr conf_stops_def field_is_def after_sep_def Let_def)
    then show ?thesis unfolding Cons using False by (simp add: Let_def split: option.splits)
  qed
qed simp

lemma parse_qm_value: "parse_qm_conf_field content f = conf.value_of f (py_splitlines content)"
  by (simp add: parse_qm_conf_field_def parse_field_value split: option.splits)

section \<open>The texts\<close>

lemma join_keep_lines:
  assumes "\<And>l. l \<in> set ls \<Longrightarrow> no_breaks l"
  shows "(py_splitlines (keep_newline content (py_join [LF] ls)) = ls \<or>
      ls = py_splitlines (keep_newline content (py_join [LF] ls)) @ [[]] \<or>
      py_splitlines (keep_newline content (py_join [LF] ls)) = ls @ [[]]) \<and>
    CR \<notin> set (keep_newline content (py_join [LF] ls))"
proof
  have "c \<in> set (py_join [LF] ls) \<Longrightarrow> c = LF \<or> \<not> py_linebreak c" for c
    using set_py_join [of "[LF]" ls] assms by (auto simp: no_breaks_def)
  from this [of CR] show "CR \<notin> set (keep_newline content (py_join [LF] ls))" by (auto simp: keep_newline_def)
  show "py_splitlines (keep_newline content (py_join [LF] ls)) = ls \<or>
      ls = py_splitlines (keep_newline content (py_join [LF] ls)) @ [[]] \<or>
      py_splitlines (keep_newline content (py_join [LF] ls)) = ls @ [[]]"
  proof (cases "ls = []")
    case True
    then show ?thesis by (simp add: keep_newline_def py_splitlines_def)
  next
    case False
    have "last ls = [] \<Longrightarrow> ls = butlast ls @ [[]]" using append_butlast_last_id [OF False] by simp
    with splitlines_join [OF assms False] show ?thesis by (auto simp: keep_newline_def)
  qed
qed

lemma edit_no_breaks:
  "(\<And>n. new = Some n \<Longrightarrow> no_breaks n) \<Longrightarrow> l \<in> set (edit_lines stops hit new (py_splitlines content)) \<Longrightarrow> no_breaks l"
  using edit_lines_set [of l stops hit new "py_splitlines content"] splitlines_no_breaks [of l content] by blast

lemma line_no_breaks: "field_key k \<Longrightarrow> no_breaks v \<Longrightarrow> no_breaks (conf_line k v)"
  "raw_key k \<Longrightarrow> no_breaks v \<Longrightarrow> no_breaks (raw_line k v)"
  using linebreak_isspace by (auto simp: conf_line_def raw_line_def field_key_def raw_key_def no_breaks_def py_linebreak_def cp_def)

text \<open>The two readers on the text an edit gives are the readers on the edited lines.\<close>

definition field_text :: "string option \<Rightarrow> bool" where
  "field_text v \<longleftrightarrow> (\<forall>x \<in> set_option v. no_breaks x)"

definition raw_value :: "string \<Rightarrow> string \<Rightarrow> string option" where
  "raw_value content k = raw.value_of k (py_splitlines content)"

definition field_count :: "string \<Rightarrow> string \<Rightarrow> nat" where
  "field_count content k = conf.uses k (py_splitlines content)"

definition raw_count :: "string \<Rightarrow> string \<Rightarrow> nat" where
  "raw_count content k = raw.uses k (py_splitlines content)"

lemma conf_uses_blank: "conf.uses k (ls @ [[]]) = conf.uses k ls"
  and raw_uses_blank: "raw.uses k (ls @ [[]]) = raw.uses k ls"
  using conf.blank_key [of k] raw.blank_key [of k] conf.blank_goes_on
  by (auto simp: conf.uses_def raw.uses_def takeWhile_append takeWhile_eq_all_conv [THEN iffD2])

lemma replace_conf_lines:
  assumes "field_key k" "field_text v"
  shows "parse_qm_conf_field (replace_conf_field content k v) f = conf.value_of f (conf.edit k v (py_splitlines content))"
    "field_count (replace_conf_field content k v) f = conf.uses f (conf.edit k v (py_splitlines content))"
    "univ_newlines (replace_conf_field content k v) = replace_conf_field content k v"
proof -
  have nb: "l \<in> set (conf.edit k v (py_splitlines content)) \<Longrightarrow> no_breaks l" for l
    unfolding conf.edit_def using assms line_no_breaks
    by (elim edit_no_breaks [rotated]) (auto simp: field_text_def)
  have r: "replace_conf_field content k v = keep_newline content (py_join [LF] (conf.edit k v (py_splitlines content)))"
    by (simp add: replace_conf_field_def conf.edit_def)
  from join_keep_lines [OF nb, where content = content]
  show "parse_qm_conf_field (replace_conf_field content k v) f = conf.value_of f (conf.edit k v (py_splitlines content))"
    "field_count (replace_conf_field content k v) f = conf.uses f (conf.edit k v (py_splitlines content))"
    "univ_newlines (replace_conf_field content k v) = replace_conf_field content k v"
    unfolding r parse_qm_value field_count_def
    using conf.value_blank [of f] conf_uses_blank [of f] by (metis univ_newlines_id)+
qed

lemma replace_raw_lines:
  assumes "raw_key k" "field_text v"
  shows "raw_value (replace_config_raw content k v) f = raw.value_of f (raw.edit k v (py_splitlines content))"
    "raw_count (replace_config_raw content k v) f = raw.uses f (raw.edit k v (py_splitlines content))"
    "univ_newlines (replace_config_raw content k v) = replace_config_raw content k v"
proof -
  have nb: "l \<in> set (raw.edit k v (py_splitlines content)) \<Longrightarrow> no_breaks l" for l
    unfolding raw.edit_def using assms line_no_breaks
    by (elim edit_no_breaks [rotated]) (auto simp: field_text_def)
  have r: "replace_config_raw content k v = keep_newline content (py_join [LF] (raw.edit k v (py_splitlines content)))"
    by (simp add: replace_config_raw_def raw.edit_def)
  from join_keep_lines [OF nb, where content = content]
  show "raw_value (replace_config_raw content k v) f = raw.value_of f (raw.edit k v (py_splitlines content))"
    "raw_count (replace_config_raw content k v) f = raw.uses f (raw.edit k v (py_splitlines content))"
    "univ_newlines (replace_config_raw content k v) = replace_config_raw content k v"
    unfolding r raw_value_def raw_count_def
    using raw.value_blank [of f] raw_uses_blank [of f] by (metis univ_newlines_id)+
qed

text \<open>A field that was set is read back; a field whose only line was removed is gone; the others stay.\<close>

lemma conf_set: "field_key k \<Longrightarrow> no_breaks v \<Longrightarrow>
    parse_qm_conf_field (replace_conf_field content k (Some v)) k = Some (py_strip v)"
  using replace_conf_lines(1) [of k "Some v"] conf.value_set by (simp add: field_text_def)

lemma conf_other: "k \<noteq> f \<Longrightarrow> field_key k \<Longrightarrow> field_text v \<Longrightarrow>
    parse_qm_conf_field (replace_conf_field content k v) f = parse_qm_conf_field content f"
  unfolding parse_qm_value [of content] by (simp add: replace_conf_lines(1) conf.value_other [of k f])

lemma conf_removed: "field_key k \<Longrightarrow> field_count content k \<le> 1 \<Longrightarrow>
    parse_qm_conf_field (replace_conf_field content k None) k = None"
  by (simp add: replace_conf_lines(1) field_text_def conf.value_removed field_count_def)

lemma count_other: "k \<noteq> f \<Longrightarrow> field_key k \<Longrightarrow> field_text v \<Longrightarrow>
    field_count (replace_conf_field content k v) f = field_count content f"
  by (simp add: replace_conf_lines(2) conf.uses_other [of k f] field_count_def [of content])

lemma count_set: "field_key k \<Longrightarrow> no_breaks v \<Longrightarrow>
    field_count (replace_conf_field content k (Some v)) k = max 1 (field_count content k)"
  by (simp add: replace_conf_lines(2) field_text_def conf.uses_set field_count_def [of content])

lemma count_removed: "field_key k \<Longrightarrow> field_count (replace_conf_field content k None) k = field_count content k - 1"
  by (simp add: replace_conf_lines(2) field_text_def conf.uses_removed field_count_def [of content])

lemma raw_set: "raw_key k \<Longrightarrow> no_breaks v \<Longrightarrow> raw_value (replace_config_raw content k (Some v)) k = Some (py_strip v)"
  using replace_raw_lines(1) [of k "Some v"] raw.value_set by (simp add: field_text_def)

lemma raw_other: "k \<noteq> f \<Longrightarrow> raw_key k \<Longrightarrow> field_text v \<Longrightarrow>
    raw_value (replace_config_raw content k v) f = raw_value content f"
  unfolding raw_value_def [of content] by (simp add: replace_raw_lines(1) raw.value_other [of k f])

lemma raw_removed: "raw_key k \<Longrightarrow> raw_count content k \<le> 1 \<Longrightarrow>
    raw_value (replace_config_raw content k None) k = None"
  by (simp add: replace_raw_lines(1) field_text_def raw.value_removed raw_count_def)

section \<open>Properties\<close>

text \<open>The lines that say something: all but the empty ones.\<close>

definition said :: "string list \<Rightarrow> string list" where "said ls = filter (\<lambda>l. l \<noteq> []) ls"

lemma said_blank [simp]: "said (ls @ [[]]) = said ls"
  by (simp add: said_def)

lemma blank_parts:
  "said (sections (ls @ [[]])) = said (sections ls)"
  "said (filter p (global_part (ls @ [[]]))) = said (filter p (global_part ls))"
  by (induction ls) (auto simp: said_def sections_def global_part_def)

lemma replace_conf_rest:
  assumes "field_key k" "field_text v"
  shows "said (filter (\<lambda>l. \<not> field_is CHR '':'' k l) (global_part (py_splitlines (replace_conf_field content k v)))) =
      said (filter (\<lambda>l. \<not> field_is CHR '':'' k l) (global_part (py_splitlines content)))"
    "said (sections (py_splitlines (replace_conf_field content k v))) = said (sections (py_splitlines content))"
proof -
  let ?e = "conf.edit k v (py_splitlines content)"
  have nb: "l \<in> set ?e \<Longrightarrow> no_breaks l" for l
    unfolding conf.edit_def using assms line_no_breaks
    by (elim edit_no_breaks [rotated]) (auto simp: field_text_def)
  have r: "replace_conf_field content k v = keep_newline content (py_join [LF] ?e)"
    by (simp add: replace_conf_field_def conf.edit_def)
  have st: "conf_stops = (\<lambda>l. section_header (py_strip l))" by (auto simp: conf_stops_def)
  have e: "filter (\<lambda>l. \<not> field_is CHR '':'' k l) (global_part ?e) =
        filter (\<lambda>l. \<not> field_is CHR '':'' k l) (global_part (py_splitlines content))"
      "sections ?e = sections (py_splitlines content)"
    unfolding conf.edit_def global_part_def sections_def st [symmetric]
    using conf.render_key conf.render_goes_on assms(1) by (auto intro!: edit_lines_rest simp: st)
  from join_keep_lines [OF nb, where content = content] blank_parts e
  show "said (filter (\<lambda>l. \<not> field_is CHR '':'' k l) (global_part (py_splitlines (replace_conf_field content k v)))) =
      said (filter (\<lambda>l. \<not> field_is CHR '':'' k l) (global_part (py_splitlines content)))"
    "said (sections (py_splitlines (replace_conf_field content k v))) = said (sections (py_splitlines content))"
    unfolding r by metis+
qed

text \<open>
  Replacing a field of a PVE configuration changes that field only: a value set is the
  value the reader of \<^verbatim>\<open>pve.py\<close> then finds, a removed field that had one line is gone, every
  other field reads as before, and the lines of other fields and of the snapshot sections stay
  in their order.
\<close>
theorem replace_changes_one_field:
  assumes "field_key k" "field_text v" "f \<noteq> k"
  shows "(\<forall>x. v = Some x \<longrightarrow> parse_qm_conf_field (replace_conf_field content k v) k = Some (py_strip x)) \<and>
    (v = None \<and> field_count content k \<le> 1 \<longrightarrow> parse_qm_conf_field (replace_conf_field content k v) k = None) \<and>
    parse_qm_conf_field (replace_conf_field content k v) f = parse_qm_conf_field content f \<and>
    said (filter (\<lambda>l. \<not> field_is CHR '':'' k l) (global_part (py_splitlines (replace_conf_field content k v)))) =
      said (filter (\<lambda>l. \<not> field_is CHR '':'' k l) (global_part (py_splitlines content))) \<and>
    said (sections (py_splitlines (replace_conf_field content k v))) = said (sections (py_splitlines content))"
  using conf_set [OF assms(1)] conf_removed [OF assms(1)] conf_other [OF assms(3) [symmetric] assms(1,2)]
    replace_conf_rest [OF assms(1,2)] assms(2)
  by (auto simp: field_text_def)

theorem replace_changes_one_field_witness:
  "parse_qm_conf_field (replace_conf_field ''memory: 8'' ''memory'' (Some ''9'')) ''memory'' = Some ''9'' \<and>
   parse_qm_conf_field (replace_conf_field ''memory: 8'' ''memory'' (Some ''9'')) ''cores'' =
     parse_qm_conf_field ''memory: 8'' ''cores''"
proof -
  have k: "field_key ''memory''" by (simp add: field_key_def py_isspace_def cp_def)
  have v: "field_text (Some ''9'')" by (simp add: field_text_def py_linebreak_def cp_def)
  have s: "py_strip ''9'' = ''9''" by code_simp
  from replace_changes_one_field [OF k v, of "''cores''" "''memory: 8''"] s show ?thesis by auto
qed

end
