(* ===== verification/Setcmd.thy ===== *)
theory Setcmd imports Confedit Reconcile begin

text \<open>
  \<^verbatim>\<open>set_cmd.py\<close>: changing settings of a stopped instance.  The instance is its directory name,
  the files of its directory, the files of its upper layer the program writes, and the PVE
  configurations by the stem of their file.  A call gives its outcome and the instance it leaves
  behind, so that an error raised after a write shows what was written.  The text written and
  the order of the writes are those of the source; writing a file is taken to succeed.
\<close>

record inst =
  i_dir :: string
  i_files :: files
  i_upper :: files
  i_confs :: "string \<rightharpoonup> string"

type_synonym 'a outcome = "(exc + 'a) \<times> inst"

section \<open>List arguments\<close>

datatype list_action = Skip | Clear | Replace

definition nonempty :: "string list \<Rightarrow> string list" where
  "nonempty raw = filter (\<lambda>x. x \<noteq> []) raw"

definition classify_list :: "string list option \<Rightarrow> list_action" where
  "classify_list raw = (case raw of None \<Rightarrow> Skip
     | Some xs \<Rightarrow> let provided = filter (\<lambda>x. x \<noteq> []) xs in if provided \<noteq> [] then Replace else Clear)"

section \<open>The current network identity\<close>

definition read_line :: "files \<Rightarrow> string \<Rightarrow> string option" where
  "read_line fs field = (case fs (''kento-'' @ field) of None \<Rightarrow> None | Some t \<Rightarrow> or_none (file_text t))"

definition parse_kento_net :: "files \<Rightarrow> net_meta" where
  "parse_kento_net fs = parse_net_meta fs"

record ident =
  id_type :: "string option"
  id_bridge :: "string option"
  id_ip :: "string option"
  id_gateway :: "string option"
  id_dns :: "string option"
  id_searchdomain :: "string option"
  id_port :: "string option"
  id_hostname :: string

text \<open>What the fallbacks derive: the type, the bridge, the address and the gateway.\<close>

record net_fallback =
  fb_type :: string
  fb_bridge :: "string option"
  fb_ip :: "string option"
  fb_gateway :: "string option"

definition no_fallback :: "string \<Rightarrow> net_fallback" where
  "no_fallback t = \<lparr>fb_type = t, fb_bridge = None, fb_ip = None, fb_gateway = None\<rparr>"

fun lxc_net_from :: "string option \<Rightarrow> net_fallback \<Rightarrow> string list \<Rightarrow> string option \<times> net_fallback" where
  "lxc_net_from nt out [] = (nt, out)"
| "lxc_net_from nt out (raw # ls) =
     (let s = py_strip raw
      in if CHR ''='' \<notin> set s \<or> (s \<noteq> [] \<and> hd s = CHR ''#'') then lxc_net_from nt out ls
         else let (k0, _, v0) = py_partition (CHR ''='') s; k = py_strip k0; v = py_strip v0
              in if k = ''lxc.net.0.type'' then lxc_net_from (Some v) out ls
                 else if k = ''lxc.net.0.link'' then lxc_net_from nt (out\<lparr>fb_bridge := Some v\<rparr>) ls
                 else if k = ''lxc.net.0.ipv4.address'' then lxc_net_from nt (out\<lparr>fb_ip := Some v\<rparr>) ls
                 else if k = ''lxc.net.0.ipv4.gateway'' then lxc_net_from nt (out\<lparr>fb_gateway := Some v\<rparr>) ls
                 else lxc_net_from nt out ls)"

definition parse_lxc_net_fallback :: "files \<Rightarrow> net_fallback" where
  "parse_lxc_net_fallback fs =
     (case fs ''config'' of None \<Rightarrow> no_fallback ''none''
      | Some t \<Rightarrow>
         (let (nt, out) = lxc_net_from None (no_fallback ''none'') (read_lines t)
          in if nt = Some ''veth'' \<and> truthy (fb_bridge out) then out\<lparr>fb_type := ''bridge''\<rparr>
             else if nt = Some ''none'' then out\<lparr>fb_type := ''host''\<rparr>
             else out\<lparr>fb_type := ''none''\<rparr>))"

text \<open>The stem of the configuration file that is read, and the VM id it is written under.\<close>

definition pve_lxc_conf_path :: "string \<Rightarrow> files \<Rightarrow> exc + (string \<times> int)" where
  "pve_lxc_conf_path d fs =
     (let vmid = (case fs ''kento-vmid'' of Some t \<Rightarrow> file_text t | None \<Rightarrow> d)
      in case py_int vmid of Some n \<Rightarrow> Inr (vmid, n) | None \<Rightarrow> Inl ValueErrorC)"

definition pve_vm_conf_path :: "files \<Rightarrow> exc + (string \<times> int)" where
  "pve_vm_conf_path fs =
     (case fs ''kento-vmid'' of None \<Rightarrow> Inl FileNotFoundErrorC
      | Some t \<Rightarrow> (case py_int (file_text t) of Some n \<Rightarrow> Inr (int_str n, n) | None \<Rightarrow> Inl ValueErrorC))"

definition net0_parts :: "string \<Rightarrow> (string \<rightharpoonup> string)" where
  "net0_parts net0 =
     map_of (rev (map (\<lambda>p. let (k, _, v) = py_partition (CHR ''='') p in (k, v))
       (filter (\<lambda>p. CHR ''='' \<in> set p) (py_split (CHR '','') net0))))"

definition parse_pve_net_fallback :: "string \<Rightarrow> files \<Rightarrow> (string \<rightharpoonup> string) \<Rightarrow> string \<Rightarrow> net_fallback" where
  "parse_pve_net_fallback d fs confs mode =
     (case (if mode = ''pve'' then pve_lxc_conf_path d fs else pve_vm_conf_path fs) of
        Inl e \<Rightarrow> no_fallback ''none''
      | Inr (stem, _) \<Rightarrow>
         (case confs stem of None \<Rightarrow> no_fallback ''none''
          | Some raw \<Rightarrow>
             (let content = univ_newlines raw
              in if py_in ''lxc.net.0.type: none'' content then no_fallback ''host''
                 else case parse_qm_conf_field content ''net0'' of
                   None \<Rightarrow> no_fallback (if mode = ''pve-vm'' then ''usermode'' else ''none'')
                 | Some net0 \<Rightarrow>
                     (let parts = net0_parts net0
                      in \<lparr>fb_type = (if parts ''bridge'' \<noteq> None then ''bridge'' else ''none''),
                          fb_bridge = parts ''bridge'',
                          fb_ip = (if truthy (parts ''ip'') \<and> parts ''ip'' \<noteq> Some ''dhcp'' then parts ''ip'' else None),
                          fb_gateway = (if truthy (parts ''gw'') then parts ''gw'' else None)\<rparr>))))"

definition first_some :: "'a option \<Rightarrow> 'a option \<Rightarrow> 'a option" where
  "first_some a b = (if a = None then b else a)"

definition resolve_net_identity :: "inst \<Rightarrow> string \<Rightarrow> ident" where
  "resolve_net_identity s mode =
     (let fs = i_files s; net = parse_kento_net fs;
          ident = \<lparr>id_type = read_line fs ''net-type'', id_bridge = read_line fs ''bridge'',
                   id_ip = m_ip net, id_gateway = m_gateway net, id_dns = m_dns net,
                   id_searchdomain = m_searchdomain net, id_port = read_line fs ''port'',
                   id_hostname = nonempty_or (read_line fs ''hostname'')
                                   (nonempty_or (read_line fs ''name'') (i_dir s))\<rparr>
      in if id_type ident \<noteq> None then ident
         else let fb = (if mode = ''lxc'' then parse_lxc_net_fallback fs
                        else if mode = ''pve'' \<or> mode = ''pve-vm''
                          then parse_pve_net_fallback (i_dir s) fs (i_confs s) mode
                        else no_fallback ''usermode'')
              in ident\<lparr>id_type := Some (fb_type fb), id_bridge := first_some (id_bridge ident) (fb_bridge fb),
                       id_ip := first_some (id_ip ident) (fb_ip fb),
                       id_gateway := first_some (id_gateway ident) (fb_gateway fb)\<rparr>)"

section \<open>The request\<close>

record set_args =
  sa_memory :: "int option"
  sa_cores :: "int option"
  sa_mac :: "string option"
  sa_qemu_args :: "string list option"
  sa_pve_args :: "string list option"
  sa_lxc_args :: "string list option"
  sa_network :: "string option"
  sa_ip :: "string option"
  sa_gateway :: "string option"
  sa_dns :: "string option"
  sa_hostname :: "string option"
  sa_port :: "string list option"

text \<open>The defaults of the keyword arguments.\<close>

definition no_args :: set_args where
  "no_args = \<lparr>sa_memory = None, sa_cores = None, sa_mac = None, sa_qemu_args = None, sa_pve_args = None,
     sa_lxc_args = None, sa_network = None, sa_ip = None, sa_gateway = None, sa_dns = None,
     sa_hostname = None, sa_port = None\<rparr>"

definition HEX_PAIR :: rx where "HEX_PAIR = Cat (Cls is_hex) (Cls is_hex)"
definition MAC_RE :: rx where
  "MAC_RE = Cat (Times 5 (Cat HEX_PAIR (Chr (CHR '':'')))) HEX_PAIR"

definition PORT_TYPES :: "string list" where "PORT_TYPES = [''usermode'', ''bridge'']"

definition parse_network_arg :: "string option \<Rightarrow> exc + (string option \<times> string option)" where
  "parse_network_arg network =
     (case network of None \<Rightarrow> Inr (None, None)
      | Some n \<Rightarrow>
         if n \<in> set [''host'', ''usermode'', ''none'', ''bridge''] then Inr (Some n, None)
         else if prefix ''bridge='' n then
           (let (_, _, name) = py_partition (CHR ''='') n
            in if name = [] then Inl ValidationErrorC else Inr (Some ''bridge'', Some name))
         else Inl ValidationErrorC)"

definition validate_net_identity ::
  "ident \<Rightarrow> string \<Rightarrow> bool \<Rightarrow> bool \<Rightarrow> list_action \<Rightarrow> exc + unit" where
  "validate_net_identity new mode ip_provided gateway_provided port_action =
     (let t = the (id_type new)
      in if t = ''bridge'' \<and> mode \<notin> set [''lxc'', ''pve'', ''pve-vm''] then Inl ModeErrorC
         else if t = ''usermode'' \<and> mode \<notin> set [''vm'', ''pve-vm''] then Inl ModeErrorC
         else if t = ''host'' \<and> mode \<notin> set [''lxc'', ''pve''] then Inl ModeErrorC
         else if ip_provided \<and> id_ip new \<noteq> None \<and> t \<noteq> ''bridge'' then Inl ValidationErrorC
         else if gateway_provided \<and> id_ip new = None then Inl ValidationErrorC
         else if port_action = Replace \<and> t \<notin> set PORT_TYPES then Inl ModeErrorC
         else Inr ())"

definition nothing_to_set :: "set_args \<Rightarrow> bool" where
  "nothing_to_set a \<longleftrightarrow> sa_memory a = None \<and> sa_cores a = None \<and> sa_mac a = None \<and> sa_qemu_args a = None \<and>
     sa_pve_args a = None \<and> sa_lxc_args a = None \<and> sa_network a = None \<and> sa_ip a = None \<and>
     sa_gateway a = None \<and> sa_dns a = None \<and> sa_hostname a = None \<and> sa_port a = None"

definition deny_opt :: "string list \<Rightarrow> string list option \<Rightarrow> exc + unit" where
  "deny_opt denylist raw = (case raw of None \<Rightarrow> Inr () | Some xs \<Rightarrow> deny denylist (nonempty xs))"

text \<open>The checks on the fields, before anything is written.\<close>

definition check_fields :: "set_args \<Rightarrow> string \<Rightarrow> exc + unit" where
  "check_fields a mode =
     (if sa_mac a \<noteq> None \<and> mode \<notin> set [''vm'', ''pve-vm''] then Inl ModeErrorC
      else if sa_qemu_args a \<noteq> None \<and> mode \<notin> set [''vm'', ''pve-vm''] then Inl ModeErrorC
      else if sa_pve_args a \<noteq> None \<and> mode \<notin> set [''pve'', ''pve-vm''] then Inl ModeErrorC
      else if sa_lxc_args a \<noteq> None \<and> mode \<noteq> ''lxc'' then Inl ModeErrorC
      else bindE (case sa_lxc_args a of None \<Rightarrow> Inr () | Some xs \<Rightarrow> deny LXC_ARG_DENYLIST xs) (\<lambda>_.
           bindE (deny_opt QEMU_ARG_DENYLIST (sa_qemu_args a)) (\<lambda>_.
           bindE (deny_opt PVE_ARG_DENYLIST (sa_pve_args a)) (\<lambda>_.
           if \<exists>m \<in> set_option (sa_mac a). \<not> anchored (rx_match MAC_RE) m then Inl ValidationErrorC
           else if \<exists>m \<in> set_option (sa_memory a). m \<le> 0 then Inl ValidationErrorC
           else if \<exists>c \<in> set_option (sa_cores a). c \<le> 0 then Inl ValidationErrorC
           else Inr ()))))"

text \<open>
  The clamping of the cores: the memory in effect is read for a warning only, but a recorded
  memory that is not a number raises.
\<close>

definition clamp_cores :: "nat option \<Rightarrow> files \<Rightarrow> set_args \<Rightarrow> string \<Rightarrow> exc + int option" where
  "clamp_cores host_cpus fs a mode =
     (case sa_cores a of
        None \<Rightarrow> Inr None
      | Some c \<Rightarrow>
         if mode \<notin> set [''vm'', ''pve-vm''] then Inr (Some c)
         else bindE (if sa_memory a \<noteq> None then Inr ()
                     else case read_line fs ''memory'' of None \<Rightarrow> Inr ()
                       | Some t \<Rightarrow> if py_int t = None then Inl ValueErrorC else Inr ())
              (\<lambda>_. Inr (Some (clamp_vm_capacity host_cpus c mode))))"

section \<open>The change of the network\<close>

record net_delta =
  nd_new :: ident
  nd_port :: "string list option"
  nd_action :: list_action

definition net_provided :: "set_args \<Rightarrow> bool" where
  "net_provided a \<longleftrightarrow> sa_network a \<noteq> None \<or> sa_ip a \<noteq> None \<or> sa_gateway a \<noteq> None \<or> sa_dns a \<noteq> None \<or>
     sa_hostname a \<noteq> None \<or> sa_port a \<noteq> None"

definition apply_overrides :: "set_args \<Rightarrow> string option \<Rightarrow> string option \<Rightarrow> ident \<Rightarrow> ident" where
  "apply_overrides a req_type req_bridge new0 =
     (let new1 = (case req_type of
            Some t \<Rightarrow> (let n = new0\<lparr>id_type := Some t\<rparr>
                      in if t = ''bridge'' then (if req_bridge \<noteq> None then n\<lparr>id_bridge := req_bridge\<rparr> else n)
                         else n\<lparr>id_bridge := None\<rparr>)
          | None \<Rightarrow> if req_bridge \<noteq> None then new0\<lparr>id_bridge := req_bridge\<rparr> else new0);
          new2 = (case sa_ip a of
            Some i \<Rightarrow> if i = ''dhcp'' then new1\<lparr>id_ip := None, id_gateway := None\<rparr> else new1\<lparr>id_ip := Some i\<rparr>
          | None \<Rightarrow> new1);
          new3 = (case sa_gateway a of Some g \<Rightarrow> new2\<lparr>id_gateway := or_none g\<rparr> | None \<Rightarrow> new2);
          new4 = (case sa_dns a of Some x \<Rightarrow> new3\<lparr>id_dns := or_none x\<rparr> | None \<Rightarrow> new3)
      in case sa_hostname a of Some h \<Rightarrow> new4\<lparr>id_hostname := h\<rparr> | None \<Rightarrow> new4)"

definition resolve_delta :: "inst \<Rightarrow> string \<Rightarrow> set_args \<Rightarrow> exc + net_delta option" where
  "resolve_delta s mode a =
     (if \<not> net_provided a then Inr None
      else bindE (parse_network_arg (sa_network a)) (\<lambda>(req_type, req_bridge).
           let new = apply_overrides a req_type req_bridge (resolve_net_identity s mode);
               action = classify_list (sa_port a)
           in bindE (if action = Replace then bindE (parse_forwards (nonempty (the (sa_port a)))) (\<lambda>_. Inr ())
                     else Inr ()) (\<lambda>_.
              bindE (validate_net_identity new mode (sa_ip a \<noteq> None) (sa_gateway a \<noteq> None) action) (\<lambda>_.
                Inr (Some \<lparr>nd_new = new, nd_port = sa_port a, nd_action = action\<rparr>)))))"

section \<open>The writers\<close>

definition write_meta :: "string \<Rightarrow> string \<Rightarrow> files \<Rightarrow> files" where
  "write_meta field v fs = fs(''kento-'' @ field \<mapsto> v @ [LF])"

definition put_opt :: "string \<Rightarrow> string option \<Rightarrow> files \<Rightarrow> files" where
  "put_opt f v fs = fs(f := v)"

definition ident_parts :: "ident \<Rightarrow> string list" where
  "ident_parts new =
     (if truthy (id_ip new) then [''ip='' @ the (id_ip new)] else []) @
     (if truthy (id_gateway new) then [''gateway='' @ the (id_gateway new)] else []) @
     (if truthy (id_dns new) then [''dns='' @ the (id_dns new)] else []) @
     (if truthy (id_searchdomain new) then [''searchdomain='' @ the (id_searchdomain new)] else [])"

definition persist_net_meta :: "ident \<Rightarrow> files \<Rightarrow> files" where
  "persist_net_meta new fs =
     (let fs1 = write_meta ''net-type'' (the (id_type new)) fs;
          fs2 = put_opt ''kento-bridge'' (if id_type new = Some ''bridge'' \<and> truthy (id_bridge new)
                                         then Some (the (id_bridge new) @ [LF]) else None) fs1
      in put_opt ''kento-net'' (if ident_parts new \<noteq> [] then Some (py_join [LF] (ident_parts new) @ [LF]) else None) fs2)"

text \<open>The files of the guest's upper layer, by their path below it.\<close>

definition STATIC_PATH :: string where "STATIC_PATH = ''etc/systemd/network/05-kento-static.network''"
definition RESOLVED_PATH :: string where "RESOLVED_PATH = ''etc/systemd/resolved.conf.d/90-kento.conf''"
definition HOSTNAME_PATH :: string where "HOSTNAME_PATH = ''etc/hostname''"

definition network_text :: "string \<Rightarrow> string option \<Rightarrow> string option \<Rightarrow> string option \<Rightarrow> string \<Rightarrow> string" where
  "network_text ip gateway dns searchdomain mode =
     py_join [LF] ([''[Match]'', (if mode = ''vm'' \<or> mode = ''pve-vm'' then ''Type=ether'' else ''Name=eth0''), [],
        ''[Network]'', ''Address='' @ ip] @
       (if truthy gateway then [''Gateway='' @ the gateway] else []) @
       (if truthy dns then [''DNS='' @ the dns] else []) @
       (if truthy searchdomain then [''Domains='' @ the searchdomain] else []) @ [[]])"

definition inject_network_config ::
  "string \<Rightarrow> string option \<Rightarrow> string option \<Rightarrow> string option \<Rightarrow> string \<Rightarrow> files \<Rightarrow> files" where
  "inject_network_config ip gateway dns searchdomain mode upper =
     upper(STATIC_PATH \<mapsto> network_text ip gateway dns searchdomain mode)"

definition inject_hostname :: "string \<Rightarrow> files \<Rightarrow> files" where
  "inject_hostname hostname upper = upper(HOSTNAME_PATH \<mapsto> hostname @ [LF])"

definition resolved_text :: "string option \<Rightarrow> string option \<Rightarrow> string" where
  "resolved_text dns searchdomain =
     py_join [LF] ([''[Resolve]''] @ (if truthy dns then [''DNS='' @ the dns] else []) @
       (if truthy searchdomain then [''Domains='' @ the searchdomain] else []) @ [[]])"

definition net_state_dir :: "files \<Rightarrow> string option" where
  "net_state_dir fs = (case fs ''kento-state'' of Some t \<Rightarrow> Some (path_str (mk_path (file_text t))) | None \<Rightarrow> None)"

definition emit_guest_net_dropins :: "ident \<Rightarrow> string \<Rightarrow> inst \<Rightarrow> inst" where
  "emit_guest_net_dropins new mode s =
     (if net_state_dir (i_files s) = None then s
      else let u = i_upper s;
               u1 = (if truthy (id_ip new)
                     then (inject_network_config (the (id_ip new)) (id_gateway new) (id_dns new)
                             (id_searchdomain new) mode u)(RESOLVED_PATH := None)
                     else (let u0 = u(STATIC_PATH := None)
                           in if truthy (id_dns new) \<or> truthy (id_searchdomain new)
                              then u0(RESOLVED_PATH \<mapsto> resolved_text (id_dns new) (id_searchdomain new))
                              else u0(RESOLVED_PATH := None)))
           in if id_hostname new \<noteq> []
              then s\<lparr>i_upper := inject_hostname (id_hostname new) u1,
                     i_files := write_meta ''hostname'' (id_hostname new) (i_files s)\<rparr>
              else s\<lparr>i_upper := u1\<rparr>)"

definition apply_port_meta :: "string list option \<Rightarrow> list_action \<Rightarrow> files \<Rightarrow> exc + files" where
  "apply_port_meta port port_action fs =
     (case port_action of
        Skip \<Rightarrow> Inr fs
      | Clear \<Rightarrow> Inr (fs(''kento-port'' := None))
      | Replace \<Rightarrow>
          bindE (parse_forwards (nonempty (the port))) (\<lambda>forwards.
          bindE (mapE (\<lambda>(b, t). render_forward_spec b t) forwards) (\<lambda>ls.
            Inr (fs(''kento-port'' \<mapsto> concat (map (\<lambda>l. l @ [LF]) ls))))))"

definition apply_passthrough_meta :: "string \<Rightarrow> string list option \<Rightarrow> files \<Rightarrow> files" where
  "apply_passthrough_meta field raw fs =
     (case classify_list raw of
        Skip \<Rightarrow> fs
      | Clear \<Rightarrow> fs(''kento-'' @ field := None)
      | Replace \<Rightarrow> fs(''kento-'' @ field \<mapsto> py_join [LF] (nonempty (the raw)) @ [LF]))"

definition set_files :: "files \<Rightarrow> inst \<Rightarrow> inst" where "set_files fs s = s\<lparr>i_files := fs\<rparr>"

definition write_num :: "string \<Rightarrow> int option \<Rightarrow> files \<Rightarrow> files" where
  "write_num field v fs = (case v of Some n \<Rightarrow> write_meta field (int_str n) fs | None \<Rightarrow> fs)"

text \<open>The pass-through block re-appended at the end.\<close>

definition append_block :: "string \<Rightarrow> string list \<Rightarrow> string" where
  "append_block content block = rstrip_char LF content @ [LF] @ py_join [LF] block @ [LF]"

section \<open>Plain VM\<close>

definition apply_vm ::
  "int option \<Rightarrow> int option \<Rightarrow> string option \<Rightarrow> string list option \<Rightarrow> net_delta option \<Rightarrow> inst \<Rightarrow> unit outcome" where
  "apply_vm memory cores mac qemu_args delta s =
     (let fs1 = write_num ''cores'' cores (write_num ''memory'' memory (i_files s));
          fs2 = (case mac of Some m \<Rightarrow> write_meta ''mac'' m fs1 | None \<Rightarrow> fs1);
          s1 = set_files (apply_passthrough_meta ''qemu-args'' qemu_args fs2) s
      in case delta of None \<Rightarrow> (Inr (), s1)
         | Some nd \<Rightarrow>
            (case apply_port_meta (nd_port nd) (nd_action nd) (i_files s1) of
               Inl e \<Rightarrow> (Inl e, s1)
             | Inr fs3 \<Rightarrow>
                 let fs4 = (if id_type (nd_new nd) \<noteq> Some ''usermode'' then fs3(''kento-port'' := None) else fs3);
                     s2 = emit_guest_net_dropins (nd_new nd) ''vm'' (set_files fs4 s1)
                 in (Inr (), set_files (persist_net_meta (nd_new nd) (i_files s2)) s2)))"

section \<open>Plain container\<close>

definition drop_keys :: "string list \<Rightarrow> string \<Rightarrow> string" where
  "drop_keys ks content = foldl (\<lambda>c k. replace_config_raw c k None) content ks"

definition LXC_NET_KEYS :: "string list" where
  "LXC_NET_KEYS = [''lxc.net.0.type'', ''lxc.net.0.link'', ''lxc.net.0.flags'', ''lxc.net.0.ipv4.address'',
     ''lxc.net.0.ipv4.gateway'']"

definition rewrite_lxc_net :: "string \<Rightarrow> ident \<Rightarrow> string" where
  "rewrite_lxc_net content0 new =
     (let content = drop_keys LXC_NET_KEYS content0
      in if id_type new = Some ''bridge'' \<and> truthy (id_bridge new) then
           (let c1 = replace_config_raw content ''lxc.net.0.type'' (Some ''veth'');
                c2 = replace_config_raw c1 ''lxc.net.0.link'' (id_bridge new);
                c3 = replace_config_raw c2 ''lxc.net.0.flags'' (Some ''up'')
            in if truthy (id_ip new) then
                 (let c4 = replace_config_raw c3 ''lxc.net.0.ipv4.address'' (id_ip new)
                  in if truthy (id_gateway new) then replace_config_raw c4 ''lxc.net.0.ipv4.gateway'' (id_gateway new)
                     else c4)
               else c3)
         else if id_type new = Some ''host'' then replace_config_raw content ''lxc.net.0.type'' (Some ''none'')
         else content)"

text \<open>The two limits of the native configuration.\<close>

definition edit_num :: "(string \<Rightarrow> string \<Rightarrow> string option \<Rightarrow> string) \<Rightarrow> string \<Rightarrow> (int \<Rightarrow> string) \<Rightarrow> int option \<Rightarrow> string \<Rightarrow> string" where
  "edit_num edit key show v content = (case v of Some n \<Rightarrow> edit content key (Some (show n)) | None \<Rightarrow> content)"

definition mem_max :: "int \<Rightarrow> string" where "mem_max n = int_str (n * 1048576)"
definition cpu_max :: "int \<Rightarrow> string" where "cpu_max n = int_str (n * 100000) @ '' 100000''"

definition apply_lxc ::
  "int option \<Rightarrow> int option \<Rightarrow> string list option \<Rightarrow> net_delta option \<Rightarrow> inst \<Rightarrow> unit outcome" where
  "apply_lxc memory cores lxc_args delta s =
     (let content0 = (case i_files s ''config'' of Some t \<Rightarrow> univ_newlines t | None \<Rightarrow> []);
          fs1 = write_num ''cores'' cores (write_num ''memory'' memory (i_files s));
          content1 = edit_num replace_config_raw ''lxc.cgroup2.memory.max'' mem_max memory content0;
          content2 = edit_num replace_config_raw ''lxc.cgroup2.cpu.max'' cpu_max cores content1;
          action = classify_list lxc_args;
          content3 = (if action \<noteq> Skip
                      then drop_passthrough_block content2 (read_passthrough_lines (fs1 ''kento-lxc-args'')) else content2);
          fs2 = apply_passthrough_meta ''lxc-args'' lxc_args fs1;
          content4 = (if action = Replace
                      then append_block content3 (read_passthrough_lines (fs2 ''kento-lxc-args'')) else content3);
          s1 = set_files fs2 s
      in case delta of
           None \<Rightarrow> (Inr (), if memory \<noteq> None \<or> cores \<noteq> None \<or> action \<noteq> Skip
                           then set_files ((i_files s1)(''config'' \<mapsto> content4)) s1 else s1)
         | Some nd \<Rightarrow>
            (let content5 = rewrite_lxc_net content4 (nd_new nd)
             in case apply_port_meta (nd_port nd) (nd_action nd) (i_files s1) of
               Inl e \<Rightarrow> (Inl e, s1)
             | Inr fs3 \<Rightarrow>
                 let s2 = emit_guest_net_dropins (nd_new nd) ''lxc'' (set_files fs3 s1)
                 in (Inr (), set_files ((persist_net_meta (nd_new nd) (i_files s2))(''config'' \<mapsto> content5)) s2)))"

section \<open>PVE container\<close>

definition net0_value :: "ident \<Rightarrow> string" where
  "net0_value new = ''name=eth0,bridge='' @ the (id_bridge new) @
     (if truthy (id_ip new) then '',ip='' @ the (id_ip new) else []) @
     (if truthy (id_ip new) \<and> truthy (id_gateway new) then '',gw='' @ the (id_gateway new) else []) @ '',type=veth''"

definition rewrite_pve_lxc_net :: "string \<Rightarrow> ident \<Rightarrow> string" where
  "rewrite_pve_lxc_net content0 new =
     (let content = replace_conf_field (replace_conf_field content0 ''net0'' None) ''lxc.net.0.type'' None;
          c1 = (if id_type new = Some ''bridge'' \<and> truthy (id_bridge new)
                then replace_conf_field content ''net0'' (Some (net0_value new))
                else if id_type new = Some ''host'' then replace_conf_field content ''lxc.net.0.type'' (Some ''none'')
                else content);
          c2 = replace_conf_field c1 ''nameserver'' (id_dns new);
          c3 = replace_conf_field c2 ''searchdomain'' (id_searchdomain new)
      in if id_hostname new \<noteq> [] then replace_conf_field c3 ''hostname'' (Some (id_hostname new)) else c3)"

definition read_conf :: "inst \<Rightarrow> string \<Rightarrow> string" where
  "read_conf s stem = (case i_confs s stem of Some t \<Rightarrow> univ_newlines t | None \<Rightarrow> [])"

definition write_conf :: "int \<Rightarrow> string \<Rightarrow> inst \<Rightarrow> inst" where
  "write_conf vmid content s = s\<lparr>i_confs := (i_confs s)(int_str vmid \<mapsto> content)\<rparr>"

definition apply_pve_lxc ::
  "int option \<Rightarrow> int option \<Rightarrow> string list option \<Rightarrow> net_delta option \<Rightarrow> inst \<Rightarrow> unit outcome" where
  "apply_pve_lxc memory cores pve_args delta s =
     (case pve_lxc_conf_path (i_dir s) (i_files s) of
        Inl e \<Rightarrow> (Inl e, s)
      | Inr (stem, vmid) \<Rightarrow>
         (let content0 = read_conf s stem;
              fs1 = write_num ''cores'' cores (write_num ''memory'' memory (i_files s));
              action = classify_list pve_args;
              content1 = (if action \<noteq> Skip
                          then drop_passthrough_block content0 (read_passthrough_lines (fs1 ''kento-pve-args'')) else content0);
              content2 = edit_num replace_conf_field ''memory'' int_str memory content1;
              content3 = edit_num replace_conf_field ''lxc.cgroup2.memory.max'' mem_max memory content2;
              content4 = edit_num replace_conf_field ''cores'' int_str cores content3;
              content5 = edit_num replace_conf_field ''cpulimit'' int_str cores content4;
              content6 = edit_num replace_conf_field ''lxc.cgroup2.cpu.max'' cpu_max cores content5;
              finish = (\<lambda>content s'.
                let fs' = apply_passthrough_meta ''pve-args'' pve_args (i_files s');
                    content' = (if action = Replace
                                then append_block content (read_passthrough_lines (fs' ''kento-pve-args'')) else content)
                in (Inr (), write_conf vmid content' (set_files fs' s')))
          in case delta of
               None \<Rightarrow> finish content6 (set_files fs1 s)
             | Some nd \<Rightarrow>
                (case apply_port_meta (nd_port nd) (nd_action nd) fs1 of
                   Inl e \<Rightarrow> (Inl e, set_files fs1 s)
                 | Inr fs2 \<Rightarrow>
                     let s1 = emit_guest_net_dropins (nd_new nd) ''pve'' (set_files fs2 s)
                     in finish (rewrite_pve_lxc_net content6 (nd_new nd))
                          (set_files (persist_net_meta (nd_new nd) (i_files s1)) s1))))"

section \<open>PVE VM\<close>

definition vm_net0 :: "ident \<Rightarrow> string option \<Rightarrow> files \<Rightarrow> string option" where
  "vm_net0 new mac fs =
     (if id_type new = Some ''bridge'' \<and> truthy (id_bridge new) then
        (let recorded = (case fs ''kento-mac'' of Some t \<Rightarrow> Some (file_text t) | None \<Rightarrow> None);
             mac_val = (if mac \<noteq> None then mac else recorded)
         in if truthy mac_val then Some (''virtio='' @ the mac_val @ '',bridge='' @ the (id_bridge new))
            else Some (''virtio,bridge='' @ the (id_bridge new)))
      else None)"

definition swap_mac :: "string \<Rightarrow> string \<Rightarrow> string" where
  "swap_mac mac net0 =
     py_join '','' (map (\<lambda>part. if prefix ''virtio='' part \<or> part = ''virtio'' then ''virtio='' @ mac else part)
       (py_split (CHR '','') net0))"

text \<open>The change of the network of a PVE VM: the port first, then \<^verbatim>\<open>net0\<close>, the guest and the metadata.\<close>

definition apply_vm_net :: "net_delta \<Rightarrow> string option \<Rightarrow> string \<Rightarrow> inst \<Rightarrow> (exc + string) \<times> inst" where
  "apply_vm_net nd mac content s =
     (case apply_port_meta (nd_port nd) (nd_action nd) (i_files s) of
        Inl e \<Rightarrow> (Inl e, s)
      | Inr fs1 \<Rightarrow>
          let content' = replace_conf_field content ''net0'' (vm_net0 (nd_new nd) mac fs1);
              fs2 = (if id_type (nd_new nd) \<noteq> Some ''usermode'' then fs1(''kento-port'' := None) else fs1);
              s1 = emit_guest_net_dropins (nd_new nd) ''pve-vm'' (set_files fs2 s)
          in (Inr content', set_files (persist_net_meta (nd_new nd) (i_files s1)) s1))"

definition set_net0_mac :: "string option \<Rightarrow> string \<Rightarrow> string" where
  "set_net0_mac mac content =
     (case mac of None \<Rightarrow> content
      | Some m \<Rightarrow> (case parse_qm_conf_field content ''net0'' of
           None \<Rightarrow> content | Some net0 \<Rightarrow> replace_conf_field content ''net0'' (Some (swap_mac m net0))))"

text \<open>The memory the arguments are generated for: that of the configuration, else the recorded one.\<close>

definition args_memory :: "string \<Rightarrow> files \<Rightarrow> exc + int" where
  "args_memory content fs =
     (case coerce_int (parse_qm_conf_field content ''memory'') of
        Some n \<Rightarrow> Inr n
      | None \<Rightarrow> (case fs ''kento-memory'' of None \<Rightarrow> Inr 1024
                | Some t \<Rightarrow> (case py_int (file_text t) of Some n \<Rightarrow> Inr n | None \<Rightarrow> Inl ValueErrorC)))"

text \<open>
  The arguments line: after a change of the memory the synchronisation of \<^verbatim>\<open>pve.py\<close> runs on
  the file; after a change of the pass-through or the network the old line is removed and a
  new one put at the end of the text.
\<close>

definition regenerate_args ::
  "ppath \<Rightarrow> int \<Rightarrow> bool \<Rightarrow> bool \<Rightarrow> string \<Rightarrow> inst \<Rightarrow> (exc + string) \<times> inst" where
  "regenerate_args cdir vmid memory_set regen content s =
     (if memory_set then
        (case sync_qm_args_to_memory (i_confs s (int_str vmid)) cdir (i_files s) True of
           Inl e \<Rightarrow> (Inl e, s)
         | Inr (_, conf, fs) \<Rightarrow>
             let s' = s\<lparr>i_files := fs, i_confs := (i_confs s)(int_str vmid := conf)\<rparr>
             in (Inr (read_conf s' (int_str vmid)), s'))
      else if regen then
        (case bindE (args_memory content (i_files s)) (\<lambda>mem. generate_qm_args cdir (i_files s) mem True) of
           Inl e \<Rightarrow> (Inl e, s)
         | Inr q \<Rightarrow>
             let c1 = replace_conf_field content ''args'' None;
                 s' = write_conf vmid (rstrip_char LF c1 @ [LF] @ (''args: '' @ q) @ [LF]) s
             in (Inr (read_conf s' (int_str vmid)), s'))
      else (Inr content, s))"

definition apply_pve_vm ::
  "ppath \<Rightarrow> int option \<Rightarrow> int option \<Rightarrow> string option \<Rightarrow> string list option \<Rightarrow> string list option \<Rightarrow>
   net_delta option \<Rightarrow> inst \<Rightarrow> unit outcome" where
  "apply_pve_vm cdir memory cores mac qemu_args pve_args delta s =
     (case pve_vm_conf_path (i_files s) of
        Inl e \<Rightarrow> (Inl e, s)
      | Inr (stem, vmid) \<Rightarrow>
         (case (case delta of None \<Rightarrow> (Inr (read_conf s stem), s)
                | Some nd \<Rightarrow> apply_vm_net nd mac (read_conf s stem) s) of
            (Inl e, s1) \<Rightarrow> (Inl e, s1)
          | (Inr content1, s1) \<Rightarrow>
             let fs1 = write_num ''cores'' cores (write_num ''memory'' memory (i_files s1));
                 content2 = edit_num replace_conf_field ''memory'' int_str memory content1;
                 content3 = edit_num replace_conf_field ''cores'' int_str cores content2;
                 fs2 = (case mac of Some m \<Rightarrow> write_meta ''mac'' m fs1 | None \<Rightarrow> fs1);
                 content4 = set_net0_mac mac content3;
                 action = classify_list pve_args;
                 content5 = (if action \<noteq> Skip
                             then drop_passthrough_block content4 (read_passthrough_lines (fs2 ''kento-pve-args'')) else content4);
                 s2 = write_conf vmid content5 (set_files (apply_passthrough_meta ''qemu-args'' qemu_args fs2) s1)
             in (case regenerate_args cdir vmid (memory \<noteq> None) (classify_list qemu_args \<noteq> Skip \<or> delta \<noteq> None) content5 s2 of
                   (Inl e, s3) \<Rightarrow> (Inl e, s3)
                 | (Inr content6, s3) \<Rightarrow>
                     let s4 = set_files (apply_passthrough_meta ''pve-args'' pve_args (i_files s3)) s3
                     in (Inr (), (case action of
                            Skip \<Rightarrow> s4
                          | Clear \<Rightarrow> write_conf vmid content6 s4
                          | Replace \<Rightarrow> write_conf vmid (append_block content6
                              (read_passthrough_lines (i_files s4 ''kento-pve-args''))) s4)))))"

section \<open>The command\<close>

text \<open>
  \<^verbatim>\<open>set_cmd\<close> after \<^verbatim>\<open>resolve_any\<close> gave the instance and its mode; whether the caller is root,
  whether the instance runs and the number of host processors are arguments.
\<close>

definition apply_mode :: "ppath \<Rightarrow> string \<Rightarrow> set_args \<Rightarrow> int option \<Rightarrow> net_delta option \<Rightarrow> inst \<Rightarrow> unit outcome" where
  "apply_mode cdir mode a cores delta s =
     (if mode = ''vm'' then apply_vm (sa_memory a) cores (sa_mac a) (sa_qemu_args a) delta s
      else if mode = ''lxc'' then apply_lxc (sa_memory a) cores (sa_lxc_args a) delta s
      else if mode = ''pve'' then apply_pve_lxc (sa_memory a) cores (sa_pve_args a) delta s
      else if mode = ''pve-vm''
        then apply_pve_vm cdir (sa_memory a) cores (sa_mac a) (sa_qemu_args a) (sa_pve_args a) delta s
      else (Inr (), s))"

definition set_cmd :: "bool \<Rightarrow> bool \<Rightarrow> nat option \<Rightarrow> ppath \<Rightarrow> string \<Rightarrow> set_args \<Rightarrow> inst \<Rightarrow> unit outcome" where
  "set_cmd root running host_cpus cdir mode a s =
     (if \<not> root then (Inl StateErrorC, s)
      else if nothing_to_set a then (Inl ValidationErrorC, s)
      else if running then (Inl StateErrorC, s)
      else case bindE (check_fields a mode) (\<lambda>_.
                bindE (clamp_cores host_cpus (i_files s) a mode) (\<lambda>cores.
                bindE (resolve_delta s mode a) (\<lambda>delta. Inr (cores, delta)))) of
        Inl e \<Rightarrow> (Inl e, s)
      | Inr (cores, delta) \<Rightarrow> apply_mode cdir mode a cores delta s)"

end
