(* ===== verification/Reconfigure.thy ===== *)
theory Reconfigure imports Setcmd Adoption begin

text \<open>
  What \<^verbatim>\<open>kento set\<close> promises and what it does: which failures leave the instance untouched, the
  network identity it records, the limits it writes, and the cases in which the change it
  reports never takes effect.
\<close>

section \<open>Validated requests\<close>

lemma apply_port_ok:
  assumes "action = Replace \<Longrightarrow> \<exists>m. parse_forwards (nonempty (the port)) = Inr m"
  shows "\<exists>fs'. apply_port_meta port action fs = Inr fs'"
proof (cases action)
  case Replace
  from assms [OF this] obtain m where m: "parse_forwards (nonempty (the port)) = Inr m" by blast
  then have "mapE parse_forward_spec (nonempty (the port)) = Inr m" by (simp add: parse_forwards_Inr)
  from fwd.reparse_list [OF this] obtain ls where "mapE (\<lambda>(b, t). render_forward_spec b t) m = Inr ls" by blast
  with m Replace show ?thesis by (simp add: apply_port_meta_def)
qed (auto simp: apply_port_meta_def)

lemma resolve_delta_Inr:
  assumes "resolve_delta s mode a = Inr (Some nd)"
  shows "nd_action nd = Replace \<Longrightarrow> \<exists>m. parse_forwards (nonempty (the (nd_port nd))) = Inr m"
    "validate_net_identity (nd_new nd) mode (sa_ip a \<noteq> None) (sa_gateway a \<noteq> None) (nd_action nd) = Inr ()"
    "nd_port nd = sa_port a" "nd_action nd = classify_list (sa_port a)" "net_provided a"
    "\<exists>t b. parse_network_arg (sa_network a) = Inr (t, b) \<and>
       nd_new nd = apply_overrides a t b (resolve_net_identity s mode)"
  using assms by (auto simp: resolve_delta_def Let_def split: if_splits)

lemma resolve_delta_port:
  "resolve_delta s mode a = Inr (Some nd) \<Longrightarrow> \<exists>fs'. apply_port_meta (nd_port nd) (nd_action nd) fs = Inr fs'"
  by (rule apply_port_ok) (rule resolve_delta_Inr(1))

lemma resolve_delta_none: "resolve_delta s mode a = Inr None \<longleftrightarrow> \<not> net_provided a"
  by (auto simp: resolve_delta_def Let_def split: if_splits)

text \<open>The cases of a call: rejected with nothing changed, or applied by the writer of the mode.\<close>

lemma set_cmd_cases:
  obtains (rejected) e where "set_cmd root running cpus cdir mode a s = (Inl e, s)"
  | (applied) cores delta where "root" "\<not> running" "\<not> nothing_to_set a" "check_fields a mode = Inr ()"
      "clamp_cores cpus (i_files s) a mode = Inr cores" "resolve_delta s mode a = Inr delta"
      "set_cmd root running cpus cdir mode a s = apply_mode cdir mode a cores delta s"
proof (cases "root \<and> \<not> nothing_to_set a \<and> \<not> running")
  case False
  then have "\<exists>e. set_cmd root running cpus cdir mode a s = (Inl e, s)" by (auto simp: set_cmd_def)
  then show thesis using rejected by blast
next
  case True
  show thesis
  proof (cases "bindE (check_fields a mode) (\<lambda>_. bindE (clamp_cores cpus (i_files s) a mode) (\<lambda>cores.
      bindE (resolve_delta s mode a) (\<lambda>delta. Inr (cores, delta))))")
    case (Inl e)
    with True have "set_cmd root running cpus cdir mode a s = (Inl e, s)" by (simp add: set_cmd_def)
    then show thesis by (rule rejected)
  next
    case (Inr r)
    then obtain cores delta where r: "r = (cores, delta)" by (cases r)
    show thesis
    proof (rule applied)
      show "root" "\<not> running" "\<not> nothing_to_set a" using True by auto
      show "check_fields a mode = Inr ()" "clamp_cores cpus (i_files s) a mode = Inr cores"
        "resolve_delta s mode a = Inr delta" using Inr r by auto
      show "set_cmd root running cpus cdir mode a s = apply_mode cdir mode a cores delta s"
        using Inr True r by (simp add: set_cmd_def)
    qed
  qed
qed

lemma apply_vm_total:
  "(\<And>nd. delta = Some nd \<Longrightarrow> resolve_delta s mode a = Inr (Some nd)) \<Longrightarrow>
     fst (apply_vm memory cores mac qemu_args delta s) = Inr ()"
proof (cases delta)
  case (Some nd)
  assume "\<And>nd. delta = Some nd \<Longrightarrow> resolve_delta s mode a = Inr (Some nd)"
  note port = resolve_delta_port [OF this [OF Some]]
  then show ?thesis using Some
    by (auto simp: apply_vm_def Let_def split: sum.splits) (metis Inl_Inr_False)
qed (simp add: apply_vm_def Let_def)

lemma apply_lxc_total:
  "(\<And>nd. delta = Some nd \<Longrightarrow> resolve_delta s mode a = Inr (Some nd)) \<Longrightarrow>
     fst (apply_lxc memory cores lxc_args delta s) = Inr ()"
proof (cases delta)
  case (Some nd)
  assume "\<And>nd. delta = Some nd \<Longrightarrow> resolve_delta s mode a = Inr (Some nd)"
  note port = resolve_delta_port [OF this [OF Some]]
  then show ?thesis using Some
    by (auto simp: apply_lxc_def Let_def split: sum.splits) (metis Inl_Inr_False)+
qed (simp add: apply_lxc_def Let_def)

lemma apply_pve_lxc_total:
  assumes "\<And>nd. delta = Some nd \<Longrightarrow> resolve_delta s mode a = Inr (Some nd)"
  shows "apply_pve_lxc memory cores pve_args delta s = (Inl e, s') \<Longrightarrow> s' = s"
proof -
  assume e: "apply_pve_lxc memory cores pve_args delta s = (Inl e, s')"
  show "s' = s"
  proof (cases "pve_lxc_conf_path (i_dir s) (i_files s)")
    case (Inl f)
    with e show ?thesis by (simp add: apply_pve_lxc_def)
  next
    case (Inr p)
    show ?thesis
    proof (cases delta)
      case None
      with e Inr show ?thesis by (auto simp: apply_pve_lxc_def Let_def split: prod.splits)
    next
      case (Some nd)
      note port = resolve_delta_port [OF assms [OF Some]]
      from e Inr Some show ?thesis
        by (auto simp: apply_pve_lxc_def Let_def split: prod.splits sum.splits) (metis port Inl_Inr_False)+
    qed
  qed
qed

text \<open>
  A PVE VM: an error leaves the instance as it is unless the arguments line was to be written
  again, which is done after the metadata and the configuration were written.
\<close>

lemma apply_pve_vm_total:
  assumes "apply_pve_vm cdir memory cores mac qemu_args pve_args delta s = (Inl e, s')"
    "memory = None" "qemu_args = None" "delta = None"
  shows "s' = s"
  using assms
  by (auto simp: apply_pve_vm_def regenerate_args_def Let_def classify_list_def split: sum.splits prod.splits)

lemma set_cmd_error_keeps:
  assumes "set_cmd root running cpus cdir mode a s = (Inl e, s')"
    "mode = ''pve-vm'' \<longrightarrow> sa_memory a = None \<and> sa_qemu_args a = None \<and> \<not> net_provided a"
  shows "s' = s"
proof (cases rule: set_cmd_cases [of root running cpus cdir mode a s])
  case (rejected f)
  with assms(1) show ?thesis by simp
next
  case (applied cores delta)
  have d: "\<And>nd. delta = Some nd \<Longrightarrow> resolve_delta s mode a = Inr (Some nd)" using applied(6) by simp
  have r: "apply_mode cdir mode a cores delta s = (Inl e, s')" using applied(7) assms(1) by simp
  consider "mode = ''vm''" | "mode = ''lxc''" | "mode = ''pve''" | "mode = ''pve-vm''"
    | "mode \<noteq> ''vm''" "mode \<noteq> ''lxc''" "mode \<noteq> ''pve''" "mode \<noteq> ''pve-vm''" by blast
  then show ?thesis
  proof cases
    case 1
    with r [unfolded apply_mode_def] apply_vm_total [where delta = delta and memory = "sa_memory a" and cores = cores and mac = "sa_mac a" and qemu_args = "sa_qemu_args a", OF d] show ?thesis by simp
  next
    case 2
    with r [unfolded apply_mode_def] apply_lxc_total [where delta = delta and memory = "sa_memory a" and cores = cores and lxc_args = "sa_lxc_args a", OF d] show ?thesis by simp
  next
    case 3
    with r [unfolded apply_mode_def] apply_pve_lxc_total [where delta = delta and memory = "sa_memory a" and cores = cores and pve_args = "sa_pve_args a" and e = e and s' = s', OF d] show ?thesis by simp
  next
    case 4
    with assms(2) applied(6) have "delta = None" using resolve_delta_none [of s mode a] by auto
    with 4 r [unfolded apply_mode_def] assms(2) apply_pve_vm_total [of cdir "sa_memory a" cores "sa_mac a" "sa_qemu_args a" "sa_pve_args a" delta s e s']
    show ?thesis by simp
  next
    case 5
    with r [unfolded apply_mode_def] show ?thesis by simp
  qed
qed

text \<open>
  C31. A call of \<^verbatim>\<open>set_cmd\<close> that raises leaves the instance exactly as it was, for a plain
  container, a PVE container and a plain VM, and for a PVE VM when neither the memory nor the
  QEMU arguments nor the network are set.
\<close>
theorem set_all_or_nothing:
  assumes "set_cmd root running cpus cdir mode a s = (Inl e, s')"
    "mode = ''pve-vm'' \<longrightarrow> sa_memory a = None \<and> sa_qemu_args a = None \<and> \<not> net_provided a"
  shows "s' = s"
  using set_cmd_error_keeps [OF assms] .

section \<open>Samples\<close>

definition sample_dir :: ppath where "sample_dir = \<lparr>p_root = ''/'', p_parts = [''d'']\<rparr>"

text \<open>A PVE VM with the id 7 and a snapshot.\<close>

definition sample_vm :: inst where
  "sample_vm = \<lparr>i_dir = ''d'', i_files = [''kento-vmid'' \<mapsto> ''7'' @ [LF]], i_upper = Map.empty,
     i_confs = [''7'' \<mapsto> unlines [''memory: 8'', ''args: old'', ''[s]'', ''args: kept'']]\<rparr>"

theorem set_all_or_nothing_witness:
  "\<exists>s'. set_cmd True False None sample_dir ''lxc'' (no_args\<lparr>sa_mac := Some ''x''\<rparr>) sample_vm = (Inl ModeErrorC, s') \<and>
     s' = sample_vm"
proof -
  have "set_cmd True False None sample_dir ''lxc'' (no_args\<lparr>sa_mac := Some ''x''\<rparr>) sample_vm =
      (Inl ModeErrorC, snd (set_cmd True False None sample_dir ''lxc'' (no_args\<lparr>sa_mac := Some ''x''\<rparr>) sample_vm))"
    by (simp add: set_cmd_def no_args_def nothing_to_set_def check_fields_def)
  from set_all_or_nothing [OF this] this show ?thesis by auto
qed

section \<open>Arguments that poison the configuration\<close>

lemma read_lines_one: "no_breaks x \<Longrightarrow> read_lines (x @ [LF]) = [x]"
  using splitlines_unlines [of "[x]"] univ_newlines_id [of "x @ [LF]"] clean_no_CR [of x]
  by (simp add: read_lines_def unlines_def)

lemma poisoned_args:
  assumes "fs ''kento-qemu-args'' = Some (x @ [LF])" "no_breaks x" "x \<noteq> []" "\<exists>c \<in> set x. py_isspace c"
    "read_hostfwds fs = Inr hf"
  shows "generate_qm_args cdir fs mem kvm = Inl ValidationErrorC"
  using assms by (simp add: generate_qm_args_def Let_def read_lines_one split: prod.splits)

lemma hostfwds_meta: "f \<noteq> ''kento-port'' \<Longrightarrow> read_hostfwds (fs(f := v)) = read_hostfwds fs"
  by (simp add: read_hostfwds_def)

lemma pve_vm_path: "pve_vm_conf_path fs = Inr (stem, vmid) \<Longrightarrow> stem = int_str vmid"
  by (auto simp: pve_vm_conf_path_def split: option.splits)

lemma vm_path_meta: "f \<noteq> ''kento-vmid'' \<Longrightarrow> pve_vm_conf_path (fs(f := v)) = pve_vm_conf_path fs"
  by (simp add: pve_vm_conf_path_def)

lemma memory_key: "field_key ''memory''" and args_field_key: "field_key ''args''"
  by (simp_all add: field_key_def py_isspace_def cp_def)

text \<open>What the memory of a poisoned PVE VM can no longer be set to.\<close>

lemma poisoned_memory:
  assumes "pve_vm_conf_path (i_files s) = Inr (stem, vmid)" "0 < m" "m < 10 ^ 18"
    "i_files s ''kento-qemu-args'' = Some (x @ [LF])" "no_breaks x" "x \<noteq> []" "\<exists>c \<in> set x. py_isspace c"
    "read_hostfwds (i_files s) = Inr hf"
  shows "fst (set_cmd True False cpus cdir ''pve-vm'' (no_args\<lparr>sa_memory := Some m\<rparr>) s) = Inl ValidationErrorC"
proof -
  let ?a = "no_args\<lparr>sa_memory := Some m\<rparr>"
  let ?fs = "write_meta ''memory'' (int_str m) (i_files s)"
  let ?c = "replace_conf_field (read_conf s stem) ''memory'' (Some (int_str m))"
  have it: "no_breaks (int_str m)" "py_int (int_str m) = Some m" "py_strip (int_str m) = int_str m"
    using int_text [of m] clean_int [of m] assms(2,3) by (auto simp: clean_def intro: py_strip_id)
  have un: "univ_newlines ?c = ?c" using replace_conf_lines(3) [OF memory_key] it(1) by (simp add: field_text_def)
  have mem: "parse_qm_conf_field ?c ''memory'' = Some (int_str m)" using conf_set [OF memory_key it(1)] it(3) by simp
  have bad: "generate_qm_args cdir ?fs m True = Inl ValidationErrorC"
  proof (rule poisoned_args)
    show "?fs ''kento-qemu-args'' = Some (x @ [LF])" using assms(4) by (simp add: write_meta_def)
    show "read_hostfwds ?fs = Inr hf" using assms(8) hostfwds_meta by (simp add: write_meta_def)
  qed (use assms in auto)
  have sync: "sync_qm_args_to_memory (Some ?c) cdir ?fs True = Inl ValidationErrorC"
    unfolding sync_qm_args_to_memory_def using un mem it(2) bad by simp
  have pre: "set_cmd True False cpus cdir ''pve-vm'' ?a s = apply_pve_vm cdir (Some m) None None None None None s"
    using assms(2) by (simp add: set_cmd_def nothing_to_set_def no_args_def check_fields_def deny_opt_def
      clamp_cores_def resolve_delta_def net_provided_def apply_mode_def)
  show ?thesis unfolding pre apply_pve_vm_def
    using assms(1) sync
    by (simp add: classify_list_def regenerate_args_def write_num_def edit_num_def set_net0_mac_def
      apply_passthrough_meta_def write_conf_def set_files_def)
qed

text \<open>
  A QEMU argument with white space in it passes every check of \<^verbatim>\<open>set_cmd\<close>, is written to
  \<^verbatim>\<open>kento-qemu-args\<close> of a PVE VM, and only then makes the call fail: the instance keeps the
  argument, its arguments line can no longer be generated, and every later change of its
  memory fails too.
\<close>
theorem set_qemu_arg_poisons:
  assumes "pve_vm_conf_path (i_files s) = Inr (stem, vmid)" "no_breaks x" "x \<noteq> []" "\<exists>c \<in> set x. py_isspace c"
    "deny QEMU_ARG_DENYLIST [x] = Inr ()" "read_hostfwds (i_files s) = Inr hf"
    "args_memory (read_conf s stem) (i_files s) = Inr mem"
  shows "\<exists>s'. set_cmd True False cpus cdir ''pve-vm'' (no_args\<lparr>sa_qemu_args := Some [x]\<rparr>) s = (Inl ValidationErrorC, s') \<and>
    i_files s' ''kento-qemu-args'' = Some (x @ [LF]) \<and>
    (\<forall>memory kvm. generate_qm_args cdir (i_files s') memory kvm = Inl ValidationErrorC) \<and>
    (\<forall>m. 0 < m \<and> m < 10 ^ 18 \<longrightarrow>
       fst (set_cmd True False cpus cdir ''pve-vm'' (no_args\<lparr>sa_memory := Some m\<rparr>) s') = Inl ValidationErrorC)"
proof -
  let ?a = "no_args\<lparr>sa_qemu_args := Some [x]\<rparr>"
  let ?fs = "(i_files s)(''kento-qemu-args'' \<mapsto> x @ [LF])"
  let ?s = "write_conf vmid (read_conf s stem) (set_files ?fs s)"
  have hf: "read_hostfwds ?fs = Inr hf" using assms(6) hostfwds_meta by simp
  have gen: "generate_qm_args cdir ?fs m kvm = Inl ValidationErrorC" for m kvm
    by (rule poisoned_args [OF _ assms(2,3,4) hf]) simp
  have mem: "args_memory (read_conf s stem) ?fs = Inr mem" using assms(7) by (simp add: args_memory_def cong: option.case_cong)
  have pre: "set_cmd True False cpus cdir ''pve-vm'' ?a s = apply_pve_vm cdir None None None (Some [x]) None None s"
    using assms(3,5) by (simp add: set_cmd_def nothing_to_set_def no_args_def check_fields_def deny_opt_def nonempty_def
      clamp_cores_def resolve_delta_def net_provided_def apply_mode_def)
  have r: "set_cmd True False cpus cdir ''pve-vm'' ?a s = (Inl ValidationErrorC, ?s)"
    unfolding pre apply_pve_vm_def using assms(1,3) gen mem
    by (simp add: classify_list_def regenerate_args_def write_num_def edit_num_def set_net0_mac_def nonempty_def
      apply_passthrough_meta_def write_conf_def set_files_def)
  have fs: "i_files ?s = ?fs" by (simp add: write_conf_def set_files_def)
  have path: "pve_vm_conf_path (i_files ?s) = Inr (stem, vmid)" unfolding fs using assms(1) vm_path_meta by simp
  have later: "\<forall>m. 0 < m \<and> m < 10 ^ 18 \<longrightarrow>
       fst (set_cmd True False cpus cdir ''pve-vm'' (no_args\<lparr>sa_memory := Some m\<rparr>) ?s) = Inl ValidationErrorC"
    using poisoned_memory [OF path _ _ _ assms(2,3,4), of _ hf cpus cdir] hf fs by simp
  show ?thesis using r later gen fs by (intro exI [of _ ?s]) simp
qed

theorem set_qemu_arg_poisons_witness:
  "\<exists>s'. set_cmd True False None sample_dir ''pve-vm'' (no_args\<lparr>sa_qemu_args := Some [''-m 9'']\<rparr>) sample_vm =
       (Inl ValidationErrorC, s') \<and> i_files s' ''kento-qemu-args'' = Some (''-m 9'' @ [LF])"
proof -
  have p: "pve_vm_conf_path (i_files sample_vm) = Inr (''7'', 7)" unfolding sample_vm_def by code_simp
  have x: "no_breaks ''-m 9''" "''-m 9'' \<noteq> []" "\<exists>c \<in> set ''-m 9''. py_isspace c"
    by (simp_all add: py_linebreak_def py_isspace_def cp_def)
  have d: "deny QEMU_ARG_DENYLIST [''-m 9''] = Inr ()" by code_simp
  have h: "read_hostfwds (i_files sample_vm) = Inr []" by (simp add: sample_vm_def read_hostfwds_def)
  have m: "args_memory (read_conf sample_vm ''7'') (i_files sample_vm) = Inr 8" unfolding sample_vm_def by code_simp
  from set_qemu_arg_poisons [OF p x d h m] show ?thesis by blast
qed

section \<open>A new arguments line and the snapshot sections\<close>

text \<open>Lines put after a text: those of the text, then the new ones.\<close>

lemma splitlines_from_append:
  "CR \<notin> set t \<Longrightarrow> splitlines_from acc (t @ LF # u) = splitlines_from acc (t @ [LF]) @ splitlines_from [] u"
proof (induction t arbitrary: acc)
  case Nil
  then show ?case by (cases u) auto
next
  case (Cons c t)
  obtain d r where dr: "t @ LF # u = d # r" by (cases "t @ LF # u") auto
  obtain d' r' where dr': "t @ [LF] = d' # r'" by (cases "t @ [LF]") auto
  have "c \<noteq> CR" using Cons.prems by auto
  with Cons dr dr' show ?case by auto
qed

lemma splitlines_from_closed:
  "CR \<notin> set t \<Longrightarrow> (t = [] \<longrightarrow> acc \<noteq> []) \<Longrightarrow> (t \<noteq> [] \<longrightarrow> \<not> py_linebreak (last t)) \<Longrightarrow>
     splitlines_from acc (t @ [LF]) = splitlines_from acc t"
proof (induction t arbitrary: acc)
  case (Cons c t)
  show ?case
  proof (cases t)
    case Nil
    with Cons show ?thesis by auto
  next
    case (Cons d r)
    with Cons.IH Cons.prems show ?thesis by (auto split: if_splits)
  qed
qed simp

lemma said_append: "said (xs @ ys) = said xs @ said ys"
  by (simp add: said_def)

lemma said_newlines: "CR \<notin> set t \<Longrightarrow> said (py_splitlines (t @ replicate (Suc n) LF)) = said (py_splitlines (t @ [LF]))"
proof (induction n)
  case (Suc n)
  have "t @ replicate (Suc (Suc n)) LF = (t @ replicate n LF) @ LF # [LF]"
    by (simp add: replicate_app_Cons_same)
  moreover have "CR \<notin> set (t @ replicate n LF)" using Suc.prems by (auto simp: in_set_replicate)
  ultimately have "py_splitlines (t @ replicate (Suc (Suc n)) LF) =
      splitlines_from [] ((t @ replicate n LF) @ [LF]) @ splitlines_from [] [LF]"
    using splitlines_from_append [of "t @ replicate n LF" "[]" "[LF]"] by (simp add: py_splitlines_def)
  then have "said (py_splitlines (t @ replicate (Suc (Suc n)) LF)) = said (py_splitlines (t @ replicate (Suc n) LF))"
    by (simp add: py_splitlines_def said_def replicate_app_Cons_same)
  with Suc show ?case by simp
qed simp

lemma rstrip_LF_split: "\<exists>n. t = rstrip_char LF t @ replicate n LF"
proof -
  have "rev t = takeWhile (\<lambda>c. c = LF) (rev t) @ dropWhile (\<lambda>c. c = LF) (rev t)" by simp
  moreover have "takeWhile (\<lambda>c. c = LF) (rev t) = replicate (length (takeWhile (\<lambda>c. c = LF) (rev t))) LF"
    by (rule replicate_length_same [symmetric]) (auto dest: set_takeWhileD)
  ultimately have "rev (rev t) = rev (dropWhile (\<lambda>c. c = LF) (rev t)) @ replicate (length (takeWhile (\<lambda>c. c = LF) (rev t))) LF"
    by (metis rev_append rev_replicate)
  then show ?thesis by (auto simp: rstrip_char_def)
qed

lemma rstrip_LF_last: "rstrip_char LF t \<noteq> [] \<Longrightarrow> last (rstrip_char LF t) \<noteq> LF"
  unfolding rstrip_char_def using hd_dropWhile [of "\<lambda>c. c = LF" "rev t"] by (simp add: last_rev)

text \<open>The text without its final line feeds, closed by one, has the lines of the text.\<close>

lemma said_rstrip:
  assumes "\<forall>c \<in> set t. py_linebreak c \<longrightarrow> c = LF"
  shows "said (py_splitlines (rstrip_char LF t @ [LF])) = said (py_splitlines t)"
proof -
  let ?r = "rstrip_char LF t"
  obtain n where n: "t = ?r @ replicate n LF" using rstrip_LF_split by blast
  have "set ?r \<subseteq> set t" by (subst (2) n) auto
  then have plain: "\<forall>c \<in> set ?r. py_linebreak c \<longrightarrow> c = LF" using assms by blast
  then have cr: "CR \<notin> set ?r" by auto
  show ?thesis
  proof (cases n)
    case 0
    show ?thesis
    proof (cases "?r = []")
      case True
      with 0 n have "t = []" by simp
      then show ?thesis by (simp add: rstrip_char_def py_splitlines_def said_def)
    next
      case False
      have "\<not> py_linebreak (last ?r)" using plain False rstrip_LF_last [OF False] by auto
      from splitlines_from_closed [OF cr, of "[]"] this False 0 n
      show ?thesis by (simp add: py_splitlines_def)
    qed
  next
    case (Suc m)
    then show ?thesis using said_newlines [OF cr, of m] n by simp
  qed
qed

lemma value_said: "conf.value_of f (said ls) = conf.value_of f ls"
proof -
  have "filter (field_is CHR '':'' f) (takeWhile (\<lambda>l. \<not> conf_stops l) (filter (\<lambda>l. l \<noteq> []) ls)) =
      filter (field_is CHR '':'' f) (takeWhile (\<lambda>l. \<not> conf_stops l) ls)"
    using conf.blank_key [of f] conf.blank_goes_on by (induction ls) auto
  then show ?thesis by (simp add: conf.value_of_def line_value_def said_def)
qed

definition has_section :: "string \<Rightarrow> bool" where
  "has_section content \<longleftrightarrow> (\<exists>l \<in> set (py_splitlines content). section_header (py_strip l))"

lemma has_section_iff: "has_section content \<longleftrightarrow> said (sections (py_splitlines content)) \<noteq> []"
proof -
  have "(\<exists>l \<in> set ls. section_header (py_strip l)) \<longleftrightarrow> said (sections ls) \<noteq> []" for ls
    by (induction ls) (auto simp: said_def sections_def section_header_def)
  then show ?thesis by (simp add: has_section_def)
qed

lemma has_section_replace: "field_key k \<Longrightarrow> field_text v \<Longrightarrow> has_section (replace_conf_field content k v) = has_section content"
  by (simp add: has_section_iff replace_conf_rest(2))

lemma univ_newlines_prefix: "CR \<notin> set t \<Longrightarrow> univ_newlines (t @ LF # u) = t @ LF # univ_newlines u"
proof (induction t)
  case Nil
  then show ?case by (cases u) auto
next
  case (Cons c t)
  obtain d r where dr: "t @ LF # u = d # r" by (cases "t @ LF # u") auto
  with Cons show ?case by auto
qed

text \<open>Nothing put after a section header is read as a field of the global section.\<close>

lemma value_behind_section:
  "\<exists>l \<in> set ls. conf_stops l \<Longrightarrow> conf.value_of f (ls @ ms) = conf.value_of f ls"
  by (auto simp: conf.value_of_def line_value_def takeWhile_append)

lemma field_behind_section:
  assumes "has_section c" "\<forall>x \<in> set c. py_linebreak x \<longrightarrow> x = LF"
  shows "parse_qm_conf_field (univ_newlines (rstrip_char LF c @ LF # u)) f = parse_qm_conf_field c f"
proof -
  let ?r = "rstrip_char LF c"
  have sub: "set ?r \<subseteq> set c" using rstrip_LF_split [of c] by (metis Un_upper1 set_append)
  have cr: "CR \<notin> set ?r"
  proof
    assume "CR \<in> set ?r"
    with sub assms(2) have "CR = LF" using py_linebreak_CR by blast
    then show False by simp
  qed
  have lines: "said (py_splitlines (?r @ [LF])) = said (py_splitlines c)" by (rule said_rstrip [OF assms(2)])
  have hs: "\<exists>l \<in> set (py_splitlines (?r @ [LF])). conf_stops l"
  proof -
    from assms(1) obtain l where l: "l \<in> set (py_splitlines c)" "conf_stops l" by (auto simp: has_section_def conf_stops_def)
    then have "l \<noteq> []" using conf.blank_goes_on by auto
    with l(1) have "l \<in> set (said (py_splitlines (?r @ [LF])))" unfolding lines by (simp add: said_def)
    with l(2) show ?thesis by (auto simp: said_def)
  qed
  have "py_splitlines (univ_newlines (?r @ LF # u)) = py_splitlines (?r @ [LF]) @ py_splitlines (univ_newlines u)"
    unfolding univ_newlines_prefix [OF cr] py_splitlines_def by (rule splitlines_from_append [OF cr])
  then have "parse_qm_conf_field (univ_newlines (?r @ LF # u)) f = conf.value_of f (py_splitlines (?r @ [LF]))"
    by (simp add: parse_qm_value value_behind_section [OF hs])
  also have "\<dots> = parse_qm_conf_field c f"
    using value_said [of f "py_splitlines (?r @ [LF])"] value_said [of f "py_splitlines c"] lines by (simp add: parse_qm_value)
  finally show ?thesis .
qed

lemma replace_conf_plain:
  assumes "field_key k" "field_text v" "x \<in> set (replace_conf_field content k v)" "py_linebreak x"
  shows "x = LF"
proof -
  have nb: "l \<in> set (conf.edit k v (py_splitlines content)) \<Longrightarrow> no_breaks l" for l
    unfolding conf.edit_def using assms(1,2) line_no_breaks
    by (elim edit_no_breaks [rotated]) (auto simp: field_text_def)
  have "x = LF \<or> x \<in> set (py_join [LF] (conf.edit k v (py_splitlines content)))"
    using assms(3) by (auto simp: replace_conf_field_def conf.edit_def keep_newline_def split: if_splits)
  then show ?thesis using set_py_join [of "[LF]"] nb assms(4) by (fastforce simp: no_breaks_def)
qed

lemma int_str_no_breaks: "no_breaks (int_str n)"
  using nat_str_digits is_digit_not_space linebreak_isspace
  by (auto simp: int_str_def no_breaks_def py_linebreak_def cp_def)

lemma edit_num_section:
  "field_key k \<Longrightarrow> k \<noteq> f \<Longrightarrow> (\<And>n. no_breaks (show n)) \<Longrightarrow>
     has_section (edit_num replace_conf_field k show v c) = has_section c \<and>
     field_count (edit_num replace_conf_field k show v c) f = field_count c f"
  by (cases v) (auto simp: edit_num_def has_section_replace count_other field_text_def)

lemma cores_key: "field_key ''cores''" and net0_key: "field_key ''net0''"
  by (simp_all add: field_key_def py_isspace_def cp_def)

lemma resolve_delta_usermode:
  assumes "resolve_delta s mode a = Inr (Some nd)" "sa_network a = None"
  shows "id_type (nd_new nd) = id_type (resolve_net_identity s mode)"
  using resolve_delta_Inr(6) [OF assms(1)] assms(2)
  by (auto simp: parse_network_arg_def apply_overrides_def Let_def split: option.splits if_splits)

text \<open>What \<^verbatim>\<open>emit_guest_net_dropins\<close> leaves alone.\<close>

lemma dropins_confs [simp]: "i_confs (emit_guest_net_dropins new mode s) = i_confs s"
  "i_dir (emit_guest_net_dropins new mode s) = i_dir s"
  by (simp_all add: emit_guest_net_dropins_def Let_def)

lemma set_files_simps [simp]: "i_confs (set_files fs s) = i_confs s" "i_files (set_files fs s) = fs"
  "i_upper (set_files fs s) = i_upper s" "i_dir (set_files fs s) = i_dir s"
  by (simp_all add: set_files_def)

lemma write_conf_simps [simp]: "i_files (write_conf n c s) = i_files s" "i_upper (write_conf n c s) = i_upper s"
  "i_confs (write_conf n c s) = (i_confs s)(int_str n \<mapsto> c)" "i_dir (write_conf n c s) = i_dir s"
  by (simp_all add: write_conf_def)

text \<open>
  When the QEMU arguments or the network of a PVE VM with a snapshot are set and the memory
  is not, the arguments line is removed from the global section and the new one is put behind
  the snapshot: the configuration the VM boots with has no arguments line at all.
\<close>
theorem set_args_behind_snapshot:
  assumes "set_cmd True False cpus cdir ''pve-vm'' a s = (Inr (), s')"
    "sa_memory a = None" "sa_mac a = None" "sa_pve_args a = None" "sa_qemu_args a \<noteq> None \<or> net_provided a"
    "sa_network a = None" "id_type (resolve_net_identity s ''pve-vm'') \<noteq> Some ''bridge''"
    "pve_vm_conf_path (i_files s) = Inr (stem, vmid)"
    "has_section (read_conf s stem)" "field_count (read_conf s stem) ''args'' \<le> 1"
  shows "parse_qm_conf_field (read_conf s' stem) ''args'' = None"
proof (cases rule: set_cmd_cases [of True False cpus cdir "''pve-vm''" a s])
  case (rejected e)
  with assms(1) show ?thesis by simp
next
  case (applied cores delta)
  have stem: "stem = int_str vmid" by (rule pve_vm_path [OF assms(8)])
  let ?ok = "\<lambda>c. has_section c \<and> field_count c ''args'' \<le> 1"
  define r1 where "r1 = (case delta of None \<Rightarrow> (Inr (read_conf s stem), s) | Some nd \<Rightarrow> apply_vm_net nd None (read_conf s stem) s)"
  have r: "apply_pve_vm cdir None cores None (sa_qemu_args a) None delta s = (Inr (), s')"
    using applied(7) assms(1,2,3,4) by (simp add: apply_mode_def)
  obtain content1 s1 where r1: "r1 = (Inr content1, s1)" and c1: "?ok content1"
  proof (cases delta)
    case None
    with assms(9,10) that show thesis by (simp add: r1_def)
  next
    case (Some nd)
    have "id_type (nd_new nd) \<noteq> Some ''bridge''"
      using resolve_delta_usermode [OF _ assms(6)] applied(6) Some assms(7) by auto
    moreover obtain fs1 where "apply_port_meta (nd_port nd) (nd_action nd) (i_files s) = Inr fs1"
      using resolve_delta_port applied(6) Some by blast
    ultimately have "fst r1 = Inr (replace_conf_field (read_conf s stem) ''net0'' None)"
      using Some by (simp add: r1_def apply_vm_net_def vm_net0_def Let_def)
    then have "r1 = (Inr (replace_conf_field (read_conf s stem) ''net0'' None), snd r1)" by (metis prod.collapse)
    moreover have "?ok (replace_conf_field (read_conf s stem) ''net0'' None)"
      using assms(9,10) has_section_replace [OF net0_key] count_other [OF _ net0_key, of "''args''"]
      by (simp add: field_text_def)
    ultimately show thesis using that by blast
  qed
  define content3 where "content3 = edit_num replace_conf_field ''cores'' int_str cores content1"
  have c3: "?ok content3" unfolding content3_def
    using edit_num_section [OF cores_key, of "''args''" int_str] int_str_no_breaks c1 by simp
  have regen: "classify_list (sa_qemu_args a) \<noteq> Skip \<or> delta \<noteq> None"
  proof (cases "net_provided a")
    case True
    with applied(6) show ?thesis using resolve_delta_none [of s "''pve-vm''" a] by auto
  next
    case False
    with assms(5) show ?thesis by (auto simp: classify_list_def split: if_splits)
  qed
  define s2 where "s2 = write_conf vmid content3
      (set_files (apply_passthrough_meta ''qemu-args'' (sa_qemu_args a) (write_num ''cores'' cores (i_files s1))) s1)"
  have sk: "classify_list None = Skip" by (simp add: classify_list_def)
  have "(case regenerate_args cdir vmid False True content3 s2 of (Inl e, s3) \<Rightarrow> (Inl e, s3)
       | (Inr content6, s3) \<Rightarrow> (Inr (), set_files (apply_passthrough_meta ''pve-args'' None (i_files s3)) s3)) = (Inr (), s')"
    using r regen assms(8) r1 [unfolded r1_def]
    by (simp add: apply_pve_vm_def content3_def s2_def sk write_num_def edit_num_def set_net0_mac_def Let_def
        split: prod.splits sum.splits)
  then obtain q where "i_confs s' (int_str vmid) =
      Some (rstrip_char LF (replace_conf_field content3 ''args'' None) @ [LF] @ (''args: '' @ q) @ [LF])"
    by (auto simp: regenerate_args_def Let_def apply_passthrough_meta_def sk split: sum.splits)
  then have "parse_qm_conf_field (read_conf s' stem) ''args'' =
      parse_qm_conf_field (replace_conf_field content3 ''args'' None) ''args''"
    using field_behind_section [of "replace_conf_field content3 ''args'' None" "(''args: '' @ q) @ [LF]" "''args''"]
      replace_conf_plain [OF args_field_key, of None _ content3] has_section_replace [OF args_field_key, of None content3] c3
    by (simp add: read_conf_def stem field_text_def)
  also have "\<dots> = None" using conf_removed [OF args_field_key] c3 by simp
  finally show ?thesis .
qed

text \<open>The same VM after \<^verbatim>\<open>kento set --qemu-arg -x\<close>.\<close>

theorem set_args_behind_snapshot_witness:
  "\<exists>s'. set_cmd True False None sample_dir ''pve-vm'' (no_args\<lparr>sa_qemu_args := Some [''-x'']\<rparr>) sample_vm = (Inr (), s') \<and>
     parse_qm_conf_field (read_conf sample_vm ''7'') ''args'' = Some ''old'' \<and>
     parse_qm_conf_field (read_conf s' ''7'') ''args'' = None"
proof -
  let ?a = "no_args\<lparr>sa_qemu_args := Some [''-x'']\<rparr>"
  have "fst (set_cmd True False None sample_dir ''pve-vm'' ?a sample_vm) = Inr ()"
    unfolding no_args_def sample_vm_def sample_dir_def by code_simp
  then obtain s' where s': "set_cmd True False None sample_dir ''pve-vm'' ?a sample_vm = (Inr (), s')"
    by (metis prod.collapse)
  have p: "pve_vm_conf_path (i_files sample_vm) = Inr (''7'', 7)" unfolding sample_vm_def by code_simp
  have t: "id_type (resolve_net_identity sample_vm ''pve-vm'') \<noteq> Some ''bridge''"
    unfolding sample_vm_def by code_simp
  have c: "has_section (read_conf sample_vm ''7'')" "field_count (read_conf sample_vm ''7'') ''args'' \<le> 1"
      "parse_qm_conf_field (read_conf sample_vm ''7'') ''args'' = Some ''old''"
    unfolding has_section_def field_count_def conf.uses_def sample_vm_def by code_simp+
  from set_args_behind_snapshot [OF s' _ _ _ _ _ t p c(1,2)] s' c(3) show ?thesis by (simp add: no_args_def)
qed

section \<open>The limits\<close>

lemma edit_num_field:
  "field_key k \<Longrightarrow> (\<And>n. no_breaks (show n)) \<Longrightarrow>
     parse_qm_conf_field (edit_num replace_conf_field k show v c) f =
       (if f = k \<and> v \<noteq> None then Some (py_strip (show (the v))) else parse_qm_conf_field c f)"
  using conf_set [of k _ c] conf_other [of k f _ c] by (cases v) (auto simp: edit_num_def field_text_def)

lemma edit_num_rest:
  "field_key k \<Longrightarrow> (\<And>n. no_breaks (show n)) \<Longrightarrow>
     said (sections (py_splitlines (edit_num replace_conf_field k show v c))) = said (sections (py_splitlines c))"
  using replace_conf_rest(2) [of k] by (cases v) (auto simp: edit_num_def field_text_def)

lemma limit_keys: "field_key ''lxc.cgroup2.memory.max''" "field_key ''cpulimit''" "field_key ''lxc.cgroup2.cpu.max''"
  by (simp_all add: field_key_def py_isspace_def cp_def)

lemma show_breaks: "no_breaks (mem_max n)" "no_breaks (cpu_max n)"
  using int_str_no_breaks by (auto simp: mem_max_def cpu_max_def py_linebreak_def cp_def)

lemma stripped_int_str: "stripped (int_str n)"
proof (rule stripped_no_space)
  fix c
  assume "c \<in> set (int_str n)"
  then have "c = CHR ''-'' \<or> is_digit c" by (auto simp: int_str_def dest: nat_str_digits split: if_splits)
  then show "\<not> py_isspace c" using is_digit_not_space by (auto simp: py_isspace_def cp_def)
qed

lemma int_str_stripped: "py_strip (int_str n) = int_str n"
  by (rule py_strip_id [OF stripped_int_str])

lemma mem_max_stripped: "py_strip (mem_max n) = mem_max n"
  by (simp add: mem_max_def int_str_stripped)

lemma cpu_max_stripped: "py_strip (cpu_max n) = cpu_max n"
proof (rule py_strip_id)
  have "stripped (int_str (n * 100000))" by (rule stripped_int_str)
  moreover have "int_str (n * 100000) \<noteq> []" by (simp add: int_str_def)
  ultimately show "stripped (cpu_max n)" by (simp add: cpu_max_def stripped_def py_isspace_def cp_def)
qed

text \<open>
  Setting the memory and the cores of a stopped PVE container writes the five fields the
  generated configuration has for them, with the same values, and the two metadata files; every
  other field, the snapshot sections, every other file and the guest's files stay.
\<close>
theorem set_limits_exact:
  assumes "0 < m" "0 < c" "pve_lxc_conf_path (i_dir s) (i_files s) = Inr (stem, vmid)" "stem = int_str vmid"
  shows "\<exists>s'. set_cmd True False cpus cdir ''pve'' (no_args\<lparr>sa_memory := Some m, sa_cores := Some c\<rparr>) s = (Inr (), s') \<and>
    (\<forall>f. parse_qm_conf_field (the (i_confs s' stem)) f =
      (case map_of [(''memory'', int_str m), (''lxc.cgroup2.memory.max'', int_str (m * 1048576)), (''cores'', int_str c),
          (''cpulimit'', int_str c), (''lxc.cgroup2.cpu.max'', int_str (c * 100000) @ '' 100000'')] f of
         Some v \<Rightarrow> Some v | None \<Rightarrow> parse_qm_conf_field (read_conf s stem) f)) \<and>
    said (sections (py_splitlines (the (i_confs s' stem)))) = said (sections (py_splitlines (read_conf s stem))) \<and>
    i_files s' = (i_files s)(''kento-memory'' \<mapsto> int_str m @ [LF], ''kento-cores'' \<mapsto> int_str c @ [LF]) \<and>
    i_upper s' = i_upper s"
proof -
  let ?a = "no_args\<lparr>sa_memory := Some m, sa_cores := Some c\<rparr>"
  let ?conf = "edit_num replace_conf_field ''lxc.cgroup2.cpu.max'' cpu_max (Some c)
      (edit_num replace_conf_field ''cpulimit'' int_str (Some c)
      (edit_num replace_conf_field ''cores'' int_str (Some c)
      (edit_num replace_conf_field ''lxc.cgroup2.memory.max'' mem_max (Some m)
      (edit_num replace_conf_field ''memory'' int_str (Some m) (read_conf s stem)))))"
  let ?fs = "(i_files s)(''kento-memory'' \<mapsto> int_str m @ [LF], ''kento-cores'' \<mapsto> int_str c @ [LF])"
  have pre: "set_cmd True False cpus cdir ''pve'' ?a s = apply_pve_lxc (Some m) (Some c) None None s"
    using assms(1,2) by (simp add: set_cmd_def nothing_to_set_def no_args_def check_fields_def deny_opt_def
      clamp_cores_def resolve_delta_def net_provided_def apply_mode_def)
  have r: "set_cmd True False cpus cdir ''pve'' ?a s = (Inr (), write_conf vmid ?conf (set_files ?fs s))"
    unfolding pre apply_pve_lxc_def using assms(3)
    by (simp add: classify_list_def apply_passthrough_meta_def write_num_def write_meta_def Let_def del: fun_upd_apply)
  have conf: "parse_qm_conf_field ?conf f =
      (case map_of [(''memory'', int_str m), (''lxc.cgroup2.memory.max'', int_str (m * 1048576)), (''cores'', int_str c),
          (''cpulimit'', int_str c), (''lxc.cgroup2.cpu.max'', int_str (c * 100000) @ '' 100000'')] f of
         Some v \<Rightarrow> Some v | None \<Rightarrow> parse_qm_conf_field (read_conf s stem) f)" for f
    by (simp add: edit_num_field limit_keys memory_key cores_key show_breaks int_str_no_breaks
      int_str_stripped mem_max_stripped cpu_max_stripped) (simp add: mem_max_def cpu_max_def)
  have rest: "said (sections (py_splitlines ?conf)) = said (sections (py_splitlines (read_conf s stem)))"
    by (simp add: edit_num_rest limit_keys memory_key cores_key show_breaks int_str_no_breaks)
  show ?thesis using r conf rest assms(4) by (intro exI [of _ "write_conf vmid ?conf (set_files ?fs s)"]) simp
qed

text \<open>A PVE container with the id 7 and a configuration of one core.\<close>

definition sample_ct :: inst where
  "sample_ct = \<lparr>i_dir = ''7'', i_files = Map.empty, i_upper = Map.empty, i_confs = [''7'' \<mapsto> ''cores: 1'']\<rparr>"

theorem set_limits_exact_witness:
  "\<exists>s'. set_cmd True False None sample_dir ''pve'' (no_args\<lparr>sa_memory := Some 2, sa_cores := Some 3\<rparr>) sample_ct = (Inr (), s') \<and>
     parse_qm_conf_field (the (i_confs s' ''7'')) ''cpulimit'' = Some ''3''"
proof -
  have p: "pve_lxc_conf_path (i_dir sample_ct) (i_files sample_ct) = Inr (''7'', 7)" unfolding sample_ct_def by code_simp
  have n: "''7'' = int_str 7" "int_str 3 = ''3''" by code_simp+
  from set_limits_exact [OF _ _ p n(1), of 2 3 None sample_dir] obtain s' where
    r: "set_cmd True False None sample_dir ''pve'' (no_args\<lparr>sa_memory := Some 2, sa_cores := Some 3\<rparr>) sample_ct = (Inr (), s')"
    and f: "\<forall>f. parse_qm_conf_field (the (i_confs s' ''7'')) f =
      (case map_of [(''memory'', int_str 2), (''lxc.cgroup2.memory.max'', int_str (2 * 1048576)), (''cores'', int_str 3),
          (''cpulimit'', int_str 3), (''lxc.cgroup2.cpu.max'', int_str (3 * 100000) @ '' 100000'')] f of
         Some v \<Rightarrow> Some v | None \<Rightarrow> parse_qm_conf_field (read_conf sample_ct ''7'') f)" by auto
  from f [rule_format, of "''cpulimit''"] r n(2) show ?thesis by (intro exI [of _ s']) simp
qed

section \<open>Orphans\<close>

lemma one_line: "x \<noteq> [] \<Longrightarrow> no_breaks x \<Longrightarrow> py_splitlines x = [x] \<and> last x \<noteq> LF"
  using splitlines_from_rest [of x "[]"] by (cases x rule: rev_cases) (auto simp: py_splitlines_def)

lemma memory_stub:
  "edit_num replace_conf_field ''lxc.cgroup2.memory.max'' mem_max (Some m)
     (edit_num replace_conf_field ''memory'' int_str (Some m) []) =
   ''memory: '' @ int_str m @ [LF] @ ''lxc.cgroup2.memory.max: '' @ mem_max m"
proof -
  let ?l = "conf_line ''memory'' (int_str m)"
  have nb: "no_breaks ?l" "?l \<noteq> []"
    using line_no_breaks(1) [OF memory_key int_str_no_breaks] by (auto simp: conf_line_def)
  have first: "replace_conf_field [] ''memory'' (Some (int_str m)) = ?l"
    by (simp add: replace_conf_field_def keep_newline_def edit_lines_def py_splitlines_def)
  have other: "\<not> field_is CHR '':'' ''lxc.cgroup2.memory.max'' ?l"
    using conf.one_key [of "''lxc.cgroup2.memory.max''" ?l "''memory''"] conf.render_key [OF memory_key] by auto
  have "\<not> conf_stops ?l" by (rule conf.render_goes_on [OF memory_key])
  then have "replace_conf_field ?l ''lxc.cgroup2.memory.max'' (Some (mem_max m)) =
      ?l @ [LF] @ conf_line ''lxc.cgroup2.memory.max'' (mem_max m)"
    using one_line [OF nb(2,1)] other by (simp add: replace_conf_field_def keep_newline_def edit_lines_def)
  with first show ?thesis by (simp add: edit_num_def conf_line_def)
qed

text \<open>
  An orphan, a PVE container whose configuration is gone, counts as stopped, so its memory
  can be set.  That writes a configuration of two lines, without an architecture or a root file
  system: the orphan is no longer found as one, and \<^verbatim>\<open>adopt\<close> refuses to rebuild it.
\<close>
theorem set_hides_orphan:
  assumes "i_files s ''kento-vmid'' = None" "i_dir s = int_str vmid" "py_int (i_dir s) = Some vmid" "0 < m"
    "i_confs s (i_dir s) = None" "\<not> pve_config_exists hv (i_dir s) ''pve''" "read_meta (i_files s) ''kento-net-type'' \<noteq> None"
  shows "is_orphan (\<lambda>v _. Inr (i_confs s v \<noteq> None)) (i_dir s) (i_files s) ''pve'' = Inr (Some True) \<and>
    (\<exists>s'. set_cmd True (is_running hv (i_dir s) (i_files s) ''pve'') cpus cdir ''pve'' (no_args\<lparr>sa_memory := Some m\<rparr>) s = (Inr (), s') \<and>
      i_confs s' (i_dir s) = Some (''memory: '' @ int_str m @ [LF] @ ''lxc.cgroup2.memory.max: '' @ int_str (m * 1048576)) \<and>
      is_orphan (\<lambda>v _. Inr (i_confs s' v \<noteq> None)) (i_dir s') (i_files s') ''pve'' = Inr (Some False) \<and>
      (\<forall>emit. adopt True (\<lambda>v _. Inr (i_confs s' v \<noteq> None)) emit (i_dir s') (i_files s') ''pve'' = Inl StateErrorC))"
proof -
  let ?a = "no_args\<lparr>sa_memory := Some m\<rparr>"
  let ?fs = "(i_files s)(''kento-memory'' \<mapsto> int_str m @ [LF])"
  let ?text = "''memory: '' @ int_str m @ [LF] @ ''lxc.cgroup2.memory.max: '' @ mem_max m"
  let ?s = "write_conf vmid ?text (set_files ?fs s)"
  have path: "pve_lxc_conf_path (i_dir s) (i_files s) = Inr (i_dir s, vmid)"
    using assms(1,3) by (simp add: pve_lxc_conf_path_def)
  have run: "is_running hv (i_dir s) (i_files s) ''pve'' = False" using assms(6) by (simp add: is_running_def)
  have pre: "set_cmd True False cpus cdir ''pve'' ?a s = apply_pve_lxc (Some m) None None None s"
    using assms(4) by (simp add: set_cmd_def nothing_to_set_def no_args_def check_fields_def deny_opt_def
      clamp_cores_def resolve_delta_def net_provided_def apply_mode_def)
  have empty: "read_conf s (i_dir s) = []" using assms(5) by (simp add: read_conf_def)
  have "edit_num replace_conf_field ''lxc.cgroup2.cpu.max'' cpu_max None
      (edit_num replace_conf_field ''cpulimit'' int_str None (edit_num replace_conf_field ''cores'' int_str None x)) = x" for x
    by (simp add: edit_num_def)
  then have r: "set_cmd True False cpus cdir ''pve'' ?a s = (Inr (), ?s)"
    unfolding pre apply_pve_lxc_def using path empty
    by (simp add: memory_stub classify_list_def apply_passthrough_meta_def write_num_def write_meta_def Let_def del: fun_upd_apply)
  have "is_orphan (\<lambda>v _. Inr (i_confs s v \<noteq> None)) (i_dir s) (i_files s) ''pve'' = Inr (Some True)"
    "is_orphan (\<lambda>v _. Inr (i_confs ?s v \<noteq> None)) (i_dir ?s) (i_files ?s) ''pve'' = Inr (Some False)"
    using assms(2,5) by (simp_all add: is_orphan_def is_pve_mode_def orphan_vmid_def)
  moreover have "adopt True (\<lambda>v _. Inr (i_confs ?s v \<noteq> None)) emit (i_dir ?s) (i_files ?s) ''pve'' = Inl StateErrorC" for emit
    using assms(2,3,7) by (simp add: adopt_def is_pve_mode_def adopt_vmid_def orphan_vmid_def probe_vmid_def read_meta_def)
  ultimately show ?thesis unfolding run using r assms(2) mem_max_def
    by (intro conjI exI [of _ ?s]) simp_all
qed

text \<open>The same container with its configuration gone.\<close>

definition sample_orphan :: inst where
  "sample_orphan = sample_ct\<lparr>i_files := [''kento-net-type'' \<mapsto> ''none'' @ [LF]], i_confs := Map.empty\<rparr>"

definition no_conf_view :: host_view where
  "no_conf_view = \<lparr>node_name = Some ''n'', conf_files = (\<lambda>_. False), run_status = (\<lambda>_. None), vm_alive = (\<lambda>_. False)\<rparr>"

theorem set_hides_orphan_witness:
  "\<exists>s'. set_cmd True (is_running no_conf_view ''7'' (i_files sample_orphan) ''pve'') None sample_dir ''pve''
       (no_args\<lparr>sa_memory := Some 2\<rparr>) sample_orphan = (Inr (), s') \<and>
     is_orphan (\<lambda>v _. Inr (i_confs sample_orphan v \<noteq> None)) ''7'' (i_files sample_orphan) ''pve'' = Inr (Some True) \<and>
     is_orphan (\<lambda>v _. Inr (i_confs s' v \<noteq> None)) (i_dir s') (i_files s') ''pve'' = Inr (Some False)"
proof -
  have p: "i_files sample_orphan ''kento-vmid'' = None" "i_dir sample_orphan = int_str 7" "i_dir sample_orphan = ''7''"
    "py_int (i_dir sample_orphan) = Some 7" "i_confs sample_orphan (i_dir sample_orphan) = None"
    "\<not> pve_config_exists no_conf_view (i_dir sample_orphan) ''pve''"
    "read_meta (i_files sample_orphan) ''kento-net-type'' \<noteq> None"
    unfolding sample_orphan_def sample_ct_def no_conf_view_def by code_simp+
  from set_hides_orphan [OF p(1,2,4) _ p(5,6,7), of 2 None sample_dir] p(3) show ?thesis by auto
qed

section \<open>Ports of a plain container\<close>

lemma lxc_net_keys: "k \<in> set LXC_NET_KEYS \<Longrightarrow> raw_key k"
  by (auto simp: LXC_NET_KEYS_def raw_key_def py_isspace_def cp_def)

lemma drop_keys_other: "f \<notin> set ks \<Longrightarrow> \<forall>k \<in> set ks. raw_key k \<Longrightarrow> raw_value (drop_keys ks c) f = raw_value c f"
  by (induction ks arbitrary: c) (auto simp: drop_keys_def raw_other field_text_def)

definition plain_ident :: "ident \<Rightarrow> bool" where
  "plain_ident n \<longleftrightarrow> field_text (id_bridge n) \<and> field_text (id_ip n) \<and> field_text (id_gateway n)"

lemma rewrite_lxc_other:
  assumes "f \<notin> set LXC_NET_KEYS" "plain_ident n"
  shows "raw_value (rewrite_lxc_net c n) f = raw_value c f"
proof -
  have k: "raw_key ''lxc.net.0.type''" "raw_key ''lxc.net.0.link''" "raw_key ''lxc.net.0.flags''"
      "raw_key ''lxc.net.0.ipv4.address''" "raw_key ''lxc.net.0.ipv4.gateway''"
    by (rule lxc_net_keys; simp add: LXC_NET_KEYS_def)+
  have v: "field_text (Some ''veth'')" "field_text (Some ''up'')" "field_text (Some ''none'')"
    by (simp_all add: field_text_def py_linebreak_def cp_def)
  have d: "raw_value (drop_keys LXC_NET_KEYS c) f = raw_value c f"
    using drop_keys_other [OF assms(1)] lxc_net_keys by blast
  have ne: "f \<noteq> ''lxc.net.0.type''" "f \<noteq> ''lxc.net.0.link''" "f \<noteq> ''lxc.net.0.flags''"
      "f \<noteq> ''lxc.net.0.ipv4.address''" "f \<noteq> ''lxc.net.0.ipv4.gateway''"
    using assms(1) by (auto simp: LXC_NET_KEYS_def)
  note o = raw_other [OF ne(1) [symmetric] k(1)] raw_other [OF ne(2) [symmetric] k(2)] raw_other [OF ne(3) [symmetric] k(3)]
    raw_other [OF ne(4) [symmetric] k(4)] raw_other [OF ne(5) [symmetric] k(5)]
  show ?thesis using assms(2) v d by (simp add: rewrite_lxc_net_def Let_def plain_ident_def o)
qed

lemma dropins_files:
  "f \<noteq> ''kento-hostname'' \<Longrightarrow> i_files (emit_guest_net_dropins new mode s) f = i_files s f"
  by (simp add: emit_guest_net_dropins_def Let_def write_meta_def)

lemma persist_files:
  "f \<noteq> ''kento-net-type'' \<Longrightarrow> f \<noteq> ''kento-bridge'' \<Longrightarrow> f \<noteq> ''kento-net'' \<Longrightarrow> persist_net_meta new fs f = fs f"
  by (simp add: persist_net_meta_def Let_def write_meta_def put_opt_def)

lemma port_only_delta:
  assumes "resolve_delta s mode (no_args\<lparr>sa_port := Some specs\<rparr>) = Inr (Some nd)"
  shows "nd_new nd = resolve_net_identity s mode"
  using resolve_delta_Inr(6) [OF assms]
  by (auto simp: no_args_def parse_network_arg_def apply_overrides_def Let_def)

text \<open>
  Setting the ports of a plain container that has no start hook records the forwards and
  reports success, but the native configuration still has no start hook, and only that hook
  installs the forwards at boot: no forward set this way is ever active.
\<close>
theorem set_port_never_armed:
  assumes "set_cmd True False cpus cdir ''lxc'' (no_args\<lparr>sa_port := Some specs\<rparr>) s = (Inr (), s')"
    "nonempty specs \<noteq> []" "i_files s ''config'' = Some t" "plain_ident (resolve_net_identity s ''lxc'')"
    "raw_value (univ_newlines t) ''lxc.hook.start-host'' = None"
  shows "\<exists>c p fw. i_files s' ''config'' = Some c \<and> raw_value c ''lxc.hook.start-host'' = None \<and>
    parse_forwards (nonempty specs) = Inr fw \<and> fw \<noteq> [] \<and> i_files s' ''kento-port'' = Some p \<and>
    parse_forwards (py_splitlines p) = Inr fw"
proof (cases rule: set_cmd_cases [of True False cpus cdir "''lxc''" "no_args\<lparr>sa_port := Some specs\<rparr>" s])
  case (rejected e)
  with assms(1) show ?thesis by simp
next
  case (applied cores delta)
  let ?a = "no_args\<lparr>sa_port := Some specs\<rparr>"
  have "net_provided ?a" by (simp add: net_provided_def)
  then obtain nd where nd: "delta = Some nd" "resolve_delta s ''lxc'' ?a = Inr (Some nd)"
    using applied(6) resolve_delta_none [of s "''lxc''" ?a] by (cases delta) auto
  have rep: "nd_action nd = Replace" "nd_port nd = Some specs"
    using resolve_delta_Inr(3,4) [OF nd(2)] assms(2) by (auto simp: classify_list_def nonempty_def)
  obtain fw where fw: "parse_forwards (nonempty specs) = Inr fw" using resolve_delta_Inr(1) [OF nd(2) rep(1)] rep(2) by auto
  then have m: "mapE parse_forward_spec (nonempty specs) = Inr fw" "distinct (map fst fw)" by (auto simp: parse_forwards_Inr)
  from fwd.reparse_list [OF m(1)] obtain ls where
    ls: "mapE (\<lambda>(b, t). render_forward_spec b t) fw = Inr ls" "mapE parse_forward_spec ls = Inr fw" by blast
  have nb: "no_breaks l" if "l \<in> set ls" for l
  proof -
    from mapE_image [OF ls(1) that] obtain b u where bu: "(b, u) \<in> set fw" "render_forward_spec b u = Inr l" by auto
    from mapE_image [OF m(1) bu(1)] have "valid_forward (b, u)" using forward_parse_valid by blast
    with bu(2) show ?thesis by (rule forward_line_breaks)
  qed
  have port: "apply_port_meta (nd_port nd) (nd_action nd) (i_files s) = Inr ((i_files s)(''kento-port'' \<mapsto> unlines ls))"
    using rep fw ls(1) by (simp add: apply_port_meta_def unlines_def)
  have again: "parse_forwards (py_splitlines (unlines ls)) = Inr fw"
    using splitlines_unlines [OF nb] ls(2) m(2) by (simp add: parse_forwards_Inr)
  have ne: "fw \<noteq> []" using m(1) assms(2) by (cases "nonempty specs") auto
  have cores: "cores = None" using applied(5) by (simp add: clamp_cores_def no_args_def)
  define s2 where "s2 = emit_guest_net_dropins (nd_new nd) ''lxc'' (set_files ((i_files s)(''kento-port'' \<mapsto> unlines ls)) s)"
  let ?c = "rewrite_lxc_net (univ_newlines t) (nd_new nd)"
  have "apply_lxc None None None (Some nd) s =
      (Inr (), set_files ((persist_net_meta (nd_new nd) (i_files s2))(''config'' \<mapsto> ?c)) s2)"
    using assms(3) port by (simp add: apply_lxc_def Let_def classify_list_def write_num_def edit_num_def
      apply_passthrough_meta_def s2_def set_files_def)
  then have s': "s' = set_files ((persist_net_meta (nd_new nd) (i_files s2))(''config'' \<mapsto> ?c)) s2"
    using applied(7) assms(1) nd(1) cores by (simp add: apply_mode_def no_args_def)
  have "i_files s' ''kento-port'' = Some (unlines ls)" by (simp add: s' persist_files s2_def dropins_files)
  moreover have "raw_value ?c ''lxc.hook.start-host'' = None"
    using rewrite_lxc_other [of "''lxc.hook.start-host''" "nd_new nd"] assms(4,5) port_only_delta [OF nd(2)]
    by (simp add: LXC_NET_KEYS_def)
  ultimately show ?thesis using s' fw ne again by auto
qed

text \<open>A plain bridged container created without a port.\<close>

definition sample_plain :: inst where
  "sample_plain = \<lparr>i_dir = ''c'', i_files = [''kento-net-type'' \<mapsto> ''bridge'' @ [LF], ''kento-bridge'' \<mapsto> ''b'' @ [LF],
     ''config'' \<mapsto> ''lxc.tty.max = 2'' @ [LF]], i_upper = Map.empty, i_confs = Map.empty\<rparr>"

theorem set_port_never_armed_witness:
  "\<exists>s' c p. set_cmd True False None sample_dir ''lxc'' (no_args\<lparr>sa_port := Some [''80:8'']\<rparr>) sample_plain = (Inr (), s') \<and>
     i_files s' ''config'' = Some c \<and> raw_value c ''lxc.hook.start-host'' = None \<and>
     i_files s' ''kento-port'' = Some p \<and> parse_forwards (py_splitlines p) = Inr [((TCP, None, 80), (None, 8))]"
proof -
  have "fst (set_cmd True False None sample_dir ''lxc'' (no_args\<lparr>sa_port := Some [''80:8'']\<rparr>) sample_plain) = Inr ()"
    unfolding no_args_def sample_plain_def sample_dir_def by code_simp
  then obtain s' where s': "set_cmd True False None sample_dir ''lxc'' (no_args\<lparr>sa_port := Some [''80:8'']\<rparr>) sample_plain = (Inr (), s')"
    by (metis prod.collapse)
  have f: "nonempty [''80:8''] \<noteq> []" "i_files sample_plain ''config'' = Some (''lxc.tty.max = 2'' @ [LF])"
    by (simp_all add: nonempty_def sample_plain_def)
  have "resolve_net_identity sample_plain ''lxc'' =
      \<lparr>id_type = Some ''bridge'', id_bridge = Some ''b'', id_ip = None, id_gateway = None, id_dns = None,
       id_searchdomain = None, id_port = None, id_hostname = ''c''\<rparr>"
    unfolding sample_plain_def by code_simp
  then have i: "plain_ident (resolve_net_identity sample_plain ''lxc'')"
    by (simp add: plain_ident_def field_text_def py_linebreak_def cp_def)
  have v: "raw_value (univ_newlines (''lxc.tty.max = 2'' @ [LF])) ''lxc.hook.start-host'' = None"
    unfolding raw_value_def raw.value_of_def by code_simp
  have p: "parse_forwards (nonempty [''80:8'']) = Inr [((TCP, None, 80), (None, 8))]" by code_simp
  from set_port_never_armed [OF s' f i v] s' p show ?thesis by auto
qed

end
