(* ===== verification/Snapshot.thy ===== *)
theory Snapshot imports Setcmd begin

text \<open>
  The typed view of an instance in \<^verbatim>\<open>_instances.py\<close>: the loaders that build it from the files of
  the instance directory, the status, and the decomposition of a typed value into the
  parameters of \<^verbatim>\<open>set_cmd\<close> and of \<^verbatim>\<open>create\<close>.  A dictionary is an association list with distinct
  keys in insertion order.
\<close>

section \<open>Dictionaries\<close>

fun dict_set :: "'k \<Rightarrow> 'v \<Rightarrow> ('k \<times> 'v) list \<Rightarrow> ('k \<times> 'v) list" where
  "dict_set k v [] = [(k, v)]"
| "dict_set k v ((a, b) # xs) = (if a = k then (a, v) # xs else (a, b) # dict_set k v xs)"

lemma map_of_dict_set [simp]: "map_of (dict_set k v xs) = (map_of xs)(k \<mapsto> v)"
  by (induction xs) auto

lemma dict_set_keys: "map fst (dict_set k v xs) = (if k \<in> set (map fst xs) then map fst xs else map fst xs @ [k])"
  by (induction xs) (auto simp del: set_map)

lemma distinct_dict_set: "distinct (map fst xs) \<Longrightarrow> distinct (map fst (dict_set k v xs))"
  unfolding dict_set_keys by simp

section \<open>The network\<close>

definition NET_TYPE_TO_MODE :: "string \<rightharpoonup> network_mode" where
  "NET_TYPE_TO_MODE = map_of [(''host'', HOST), (''usermode'', USER), (''none'', DISABLED)]"

fun net_fields :: "string list \<Rightarrow> (string \<rightharpoonup> string) \<Rightarrow> (string \<rightharpoonup> string)" where
  "net_fields [] m = m"
| "net_fields (l # ls) m =
     (let (key, sep, v) = py_partition (CHR ''='') l
      in net_fields ls (if sep \<and> v \<noteq> [] then m(py_strip key \<mapsto> py_strip v) else m))"

text \<open>A recorded address that does not parse is kept whole; only a \<^verbatim>\<open>KentoError\<close> is caught.\<close>

definition split_address :: "string \<Rightarrow> exc + (string \<times> string option)" where
  "split_address ip = (case parse_cidr ip of Inr r \<Rightarrow> Inr r | Inl e \<Rightarrow> if is_kento e then Inr (ip, None) else Inl e)"

definition load_ip_config :: "files \<Rightarrow> exc + (string \<times> string) list" where
  "load_ip_config fs =
     (if \<not> truthy (read_meta fs ''kento-net'') then Inr []
      else let fields = net_fields (py_splitlines (the (read_meta fs ''kento-net''))) Map.empty
           in bindE (if truthy (fields ''ip'')
                     then bindE (split_address (the (fields ''ip''))) (\<lambda>(address, subnet).
                       Inr ((''address'', address) # (case subnet of Some n \<Rightarrow> [(''subnet'', n)] | None \<Rightarrow> [])))
                     else Inr [])
              (\<lambda>l3. Inr (l3 @ (if truthy (fields ''gateway'') then [(''gateway'', the (fields ''gateway''))] else []) @
                        (if truthy (fields ''dns'') then [(''dns1'', the (fields ''dns''))] else []))))"

definition resolve_net_mode :: "string option \<Rightarrow> (string \<times> string) list \<Rightarrow> network_mode" where
  "resolve_net_mode nt ip =
     (if nt = Some ''bridge'' then (if truthy (map_of ip ''address'') then STATIC else DHCP)
      else case NET_TYPE_TO_MODE (nonempty_or nt []) of Some m \<Rightarrow> m | None \<Rightarrow> DISABLED)"

definition load_network :: "files \<Rightarrow> exc + network_connection" where
  "load_network fs =
     bindE (load_ip_config fs) (\<lambda>ip.
       let bridge = read_meta fs ''kento-bridge''; mac = read_meta fs ''kento-mac'';
           mode = resolve_net_mode (read_meta fs ''kento-net-type'') ip
       in Inr \<lparr>nc_mode = mode,
               link_config = (if truthy bridge then [(''bridge'', the bridge)] else []) @
                             (if truthy mac then [(''mac'', the mac)] else []),
               ip_config = (if mode \<noteq> STATIC then [] else ip)\<rparr>)"

section \<open>The other loaders\<close>

fun load_forward_lines :: "string list \<Rightarrow> forwards \<Rightarrow> exc + forwards" where
  "load_forward_lines [] fwd = Inr fwd"
| "load_forward_lines (l # ls) fwd =
     (let spec = py_strip l
      in if spec = [] then load_forward_lines ls fwd
         else case parse_forward_spec spec of
                Inr (b, t) \<Rightarrow> load_forward_lines ls (dict_set b t fwd)
              | Inl e \<Rightarrow> if is_kento e then load_forward_lines ls fwd else Inl e)"

definition load_forwards :: "files \<Rightarrow> exc + forwards" where
  "load_forwards fs =
     (if truthy (read_meta fs ''kento-port'')
      then load_forward_lines (py_splitlines (the (read_meta fs ''kento-port''))) [] else Inr [])"

definition load_resource :: "files \<Rightarrow> string \<Rightarrow> string \<Rightarrow> (string \<times> int) list" where
  "load_resource fs key field =
     (case read_meta fs field of None \<Rightarrow> []
      | Some raw \<Rightarrow> (case py_int raw of Some n \<Rightarrow> [(key, n)] | None \<Rightarrow> []))"

definition load_resources :: "files \<Rightarrow> (string \<times> int) list" where
  "load_resources fs = load_resource fs ''memory'' ''kento-memory'' @ load_resource fs ''cores'' ''kento-cores''"

fun env_pairs :: "string list \<Rightarrow> (string \<times> string) list \<Rightarrow> (string \<times> string) list" where
  "env_pairs [] env = env"
| "env_pairs (l # ls) env =
     (let (key, sep, v) = py_partition (CHR ''='') l in env_pairs ls (if sep then dict_set key v env else env))"

definition load_environment :: "files \<Rightarrow> (string \<times> string) list" where
  "load_environment fs =
     (if truthy (read_meta fs ''kento-env'') then env_pairs (py_splitlines (the (read_meta fs ''kento-env''))) [] else [])"

definition load_passthrough :: "files \<Rightarrow> string \<Rightarrow> string list" where
  "load_passthrough fs filename = (case fs filename of None \<Rightarrow> [] | Some t \<Rightarrow> filter (\<lambda>l. l \<noteq> []) (read_lines t))"

datatype storage_mode = OVERLAY | EPHEMERAL_IMAGE

definition load_storage :: "files \<Rightarrow> storage_mode" where
  "load_storage fs =
     (if \<not> truthy (read_meta fs ''kento-storage'') then OVERLAY
      else if read_meta fs ''kento-storage'' = Some ''overlay'' then OVERLAY
      else if read_meta fs ''kento-storage'' = Some ''ephemeral-image'' then EPHEMERAL_IMAGE
      else OVERLAY)"

section \<open>The platform\<close>

datatype platform_mode = STANDARD | PVE

record platform_profile =
  pp_mode :: platform_mode
  pp_mid :: "int option"
  pp_extra_args :: "string list"

definition PVE_MID_FLOOR :: int where "PVE_MID_FLOOR = 100"

definition make_profile :: "platform_mode \<Rightarrow> int option \<Rightarrow> string list \<Rightarrow> exc + platform_profile" where
  "make_profile mode mid extra_args =
     (let p = \<lparr>pp_mode = mode, pp_mid = mid, pp_extra_args = extra_args\<rparr>
      in case mode of
           STANDARD \<Rightarrow> if mid \<noteq> None then Inl ValidationErrorC else if extra_args \<noteq> [] then Inl ValidationErrorC else Inr p
         | PVE \<Rightarrow> (case mid of None \<Rightarrow> Inl ValidationErrorC
                  | Some n \<Rightarrow> if n < PVE_MID_FLOOR then Inl ValidationErrorC else Inr p))"

text \<open>\<^verbatim>\<open>str.isdigit\<close> on the characters of the model: the decimal digits and the three superscripts.\<close>

definition py_isdigit :: "string \<Rightarrow> bool" where
  "py_isdigit s \<longleftrightarrow> s \<noteq> [] \<and> (\<forall>c \<in> set s. is_digit c \<or> cp c = 178 \<or> cp c = 179 \<or> cp c = 185)"

definition load_platform_profile :: "string \<Rightarrow> files \<Rightarrow> string \<Rightarrow> exc + platform_profile" where
  "load_platform_profile d fs mode =
     (if \<not> is_pve_mode mode then make_profile STANDARD None []
      else let raw = (if mode = ''pve-vm'' then read_meta fs ''kento-vmid'' else Some d);
               extra = load_passthrough fs ''kento-pve-args''
           in if raw \<noteq> None \<and> py_isdigit (the raw)
              then (case py_int (the raw) of Some n \<Rightarrow> make_profile PVE (Some n) extra | None \<Rightarrow> Inl ValueErrorC)
              else make_profile PVE None extra)"

section \<open>From a typed value to the parameters of set\<close>

definition set_cmd_list_arg :: "string list \<Rightarrow> string list" where
  "set_cmd_list_arg args = (if args \<noteq> [] then args else [[]])"

definition cidr_text :: "string \<Rightarrow> string option \<Rightarrow> string" where
  "cidr_text address subnet = (if truthy subnet then address @ ''/'' @ the subnet else address)"

definition network_to_set_params :: "network_connection \<Rightarrow> exc + set_args" where
  "network_to_set_params conn =
     (let bridge = map_of (link_config conn) ''bridge'';
          bridge_arg = (if truthy bridge then ''bridge='' @ the bridge else ''bridge'');
          mac = map_of (link_config conn) ''mac'';
          ip = map_of (ip_config conn)
      in if ip ''dns2'' \<noteq> None then Inl ValidationErrorC
         else let params = (if nc_mode conn = STATIC then
                no_args\<lparr>sa_network := Some bridge_arg,
                        sa_ip := map_option (\<lambda>a. cidr_text a (ip ''subnet'')) (ip ''address''),
                        sa_gateway := Some (nonempty_or (ip ''gateway'') []), sa_dns := Some (nonempty_or (ip ''dns1'') [])\<rparr>
              else no_args\<lparr>sa_network := Some (case nc_mode conn of
                           USER \<Rightarrow> ''usermode'' | HOST \<Rightarrow> ''host'' | DISABLED \<Rightarrow> ''none'' | _ \<Rightarrow> bridge_arg),
                         sa_ip := Some ''dhcp'', sa_dns := Some []\<rparr>)
              in Inr (params\<lparr>sa_mac := mac\<rparr>))"

text \<open>A value of the resource bag is an integer or something else, as the run-time check sees it.\<close>

datatype bag_value = BInt int | BOther

definition bag_int :: "bag_value \<Rightarrow> exc + int" where
  "bag_int v = (case v of BInt n \<Rightarrow> Inr n | BOther \<Rightarrow> Inl ValidationErrorC)"

definition bag_params :: "(string \<times> bag_value) list \<Rightarrow> exc + (int option \<times> int option)" where
  "bag_params bag =
     (if \<exists>k \<in> set (map fst bag). k \<noteq> ''memory'' \<and> k \<noteq> ''cores'' then Inl ValidationErrorC
      else bindE (case map_of bag ''memory'' of None \<Rightarrow> Inr None | Some v \<Rightarrow> bindE (bag_int v) (\<lambda>n. Inr (Some n))) (\<lambda>m.
           bindE (case map_of bag ''cores'' of None \<Rightarrow> Inr None | Some v \<Rightarrow> bindE (bag_int v) (\<lambda>n. Inr (Some n))) (\<lambda>c.
             Inr (m, c))))"

definition resources_to_set_params :: "(string \<times> bag_value) list \<Rightarrow> exc + set_args" where
  "resources_to_set_params bag = bindE (bag_params bag) (\<lambda>(m, c). Inr (no_args\<lparr>sa_memory := m, sa_cores := c\<rparr>))"

section \<open>From typed values to the parameters of create\<close>

definition platform_to_create_args :: "platform_profile option \<Rightarrow> int option \<Rightarrow> exc + (bool option \<times> int)" where
  "platform_to_create_args platform mid =
     (let profile_mid = (case platform of None \<Rightarrow> None | Some p \<Rightarrow> pp_mid p)
      in if mid \<noteq> None \<and> profile_mid \<noteq> None \<and> mid \<noteq> profile_mid then Inl ValidationErrorC
         else let chosen = (if mid \<noteq> None then mid else profile_mid);
                  vmid = (case chosen of Some n \<Rightarrow> n | None \<Rightarrow> 0)
              in Inr (map_option (\<lambda>p. pp_mode p = PVE) platform, vmid))"

record net_params =
  np_net_type :: "string option"
  np_bridge :: "string option"
  np_ip :: "string option"
  np_gateway :: "string option"
  np_dns :: "string option"
  np_mac :: "string option"

definition no_net_params :: net_params where
  "no_net_params = \<lparr>np_net_type = None, np_bridge = None, np_ip = None, np_gateway = None, np_dns = None, np_mac = None\<rparr>"

definition given :: "string option \<Rightarrow> string option" where "given v = (if truthy v then v else None)"

definition network_to_create_params :: "network_connection option \<Rightarrow> string \<Rightarrow> exc + net_params" where
  "network_to_create_params conn kind_mode =
     (case conn of None \<Rightarrow> Inr no_net_params
      | Some c \<Rightarrow>
         (let ip = map_of (ip_config c); bridge = map_of (link_config c) ''bridge''; mac = map_of (link_config c) ''mac''
          in if ip ''dns2'' \<noteq> None then Inl ValidationErrorC
             else if mac \<noteq> None \<and> kind_mode \<notin> set [''vm'', ''pve-vm''] then Inl ValidationErrorC
             else Inr ((case nc_mode c of
                   STATIC \<Rightarrow> no_net_params\<lparr>np_net_type := Some ''bridge'', np_bridge := given bridge,
                       np_ip := map_option (\<lambda>a. cidr_text a (ip ''subnet'')) (ip ''address''),
                       np_gateway := given (ip ''gateway''), np_dns := given (ip ''dns1'')\<rparr>
                 | DHCP \<Rightarrow> no_net_params\<lparr>np_net_type := Some ''bridge'', np_bridge := given bridge\<rparr>
                 | USER \<Rightarrow> no_net_params\<lparr>np_net_type := Some ''usermode''\<rparr>
                 | HOST \<Rightarrow> no_net_params\<lparr>np_net_type := Some ''host''\<rparr>
                 | DISABLED \<Rightarrow> no_net_params\<lparr>np_net_type := Some ''none''\<rparr>)\<lparr>np_mac := mac\<rparr>)))"

definition environment_to_env_list :: "(string \<times> string) list \<Rightarrow> string list option" where
  "environment_to_env_list env = (if env = [] then None else Some (map (\<lambda>(k, v). k @ ''='' @ v) env))"

definition forwards_to_create_port :: "forwards \<Rightarrow> exc + string list option" where
  "forwards_to_create_port fwd =
     (if fwd = [] then Inr None else bindE (mapE (\<lambda>(b, t). render_forward_spec b t) fwd) (\<lambda>ls. Inr (Some ls)))"

definition resolve_extra_args :: "string list \<Rightarrow> platform_profile option \<Rightarrow> exc + string list option" where
  "resolve_extra_args param platform =
     (let profile = (case platform of None \<Rightarrow> [] | Some p \<Rightarrow> pp_extra_args p)
      in if param \<noteq> [] \<and> profile \<noteq> [] \<and> param \<noteq> profile then Inl ValidationErrorC
         else let chosen = (if param \<noteq> [] then param else profile)
              in Inr (if chosen = [] then None else Some chosen))"

section \<open>The status\<close>

datatype status = RUNNING | STOPPED | SUSPENDED | ORPHAN | UNKNOWN

text \<open>
  The two probes can raise: the presence of the configuration and the liveness.  Only what the
  handlers catch becomes \<^verbatim>\<open>UNKNOWN\<close>.
\<close>

definition resolve_status ::
  "(string \<Rightarrow> string \<Rightarrow> exc + bool) \<Rightarrow> (string \<Rightarrow> exc + bool) \<Rightarrow> string \<Rightarrow> files \<Rightarrow> string \<Rightarrow> exc + status" where
  "resolve_status config_exists running d fs mode =
     (let run = (case running mode of
            Inr b \<Rightarrow> Inr (if b then RUNNING else STOPPED)
          | Inl e \<Rightarrow> if OSErrorC \<in> set (mro e) \<or> is_kento e then Inr UNKNOWN else Inl e)
      in if \<not> is_pve_mode mode then run
         else case (if mode = ''pve-vm'' then read_meta fs ''kento-vmid'' else Some d) of
                None \<Rightarrow> Inr ORPHAN
              | Some vmid \<Rightarrow> (case config_exists vmid mode of
                    Inr False \<Rightarrow> Inr ORPHAN
                  | Inr True \<Rightarrow> run
                  | Inl e \<Rightarrow> if OSErrorC \<in> set (mro e) then Inr UNKNOWN else Inl e))"

end
