(* ===== verification/Typed.thy ===== *)
theory Typed imports Snapshot Reconfigure begin

text \<open>
  The typed view against the operations: what a typed value assigned to an instance reads back
  as, what the loaders make of recorded files, and how the status relates to the search for
  orphans.
\<close>

section \<open>The recorded network, read back\<close>

lemma net_fields_line:
  "CHR ''='' \<notin> set k \<Longrightarrow> py_strip k = k \<Longrightarrow> v \<noteq> [] \<Longrightarrow> clean v \<Longrightarrow>
     net_fields ((k @ CHR ''='' # v) # ls) m = net_fields ls (m(k \<mapsto> v))"
  by (simp add: clean_def py_strip_id)

lemma net_keys: "py_strip ''ip'' = ''ip''" "py_strip ''gateway'' = ''gateway''" "py_strip ''dns'' = ''dns''"
    "py_strip ''searchdomain'' = ''searchdomain''"
  by code_simp+

lemma net_fields_step:
  "truthy v \<Longrightarrow> clean_opt v \<Longrightarrow> net_fields ((''ip='' @ the v) # ls) m = net_fields ls (m(''ip'' := v))"
  "truthy v \<Longrightarrow> clean_opt v \<Longrightarrow> net_fields ((''gateway='' @ the v) # ls) m = net_fields ls (m(''gateway'' := v))"
  "truthy v \<Longrightarrow> clean_opt v \<Longrightarrow> net_fields ((''dns='' @ the v) # ls) m = net_fields ls (m(''dns'' := v))"
  "truthy v \<Longrightarrow> clean_opt v \<Longrightarrow> net_fields ((''searchdomain='' @ the v) # ls) m = net_fields ls (m(''searchdomain'' := v))"
  using net_fields_line [of "''ip''"] net_fields_line [of "''gateway''"] net_fields_line [of "''dns''"]
    net_fields_line [of "''searchdomain''"] net_keys
  by (cases v; simp del: net_fields.simps(2) add: clean_opt_def)+

definition clean_ident :: "ident \<Rightarrow> bool" where
  "clean_ident new \<longleftrightarrow> clean_opt (id_ip new) \<and> clean_opt (id_gateway new) \<and> clean_opt (id_dns new) \<and>
     clean_opt (id_searchdomain new) \<and> clean_opt (id_bridge new) \<and> clean_opt (id_type new)"

lemma net_fields_parts:
  assumes "clean_ident new"
  shows "net_fields (ident_parts new) Map.empty ''ip'' = kept (id_ip new)"
    "net_fields (ident_parts new) Map.empty ''gateway'' = kept (id_gateway new)"
    "net_fields (ident_parts new) Map.empty ''dns'' = kept (id_dns new)"
  using assms unfolding ident_parts_def clean_ident_def
  by (cases "truthy (id_ip new)"; cases "truthy (id_gateway new)"; cases "truthy (id_dns new)"; cases "truthy (id_searchdomain new)";
      simp del: net_fields.simps(2) add: net_fields_step [unfolded append_Cons append_Nil])+

lemma clean_ident_parts:
  assumes "clean_ident new" "x \<in> set (ident_parts new)"
  shows "clean x \<and> x \<noteq> []"
proof -
  have k: "clean ''ip''" "clean ''gateway''" "clean ''dns''" "clean ''searchdomain''" by code_simp+
  have v: "clean (the u)" "the u \<noteq> []" if "truthy u" "clean_opt u" for u
    using that by (cases u; simp add: clean_opt_def)+
  from assms show ?thesis
    unfolding ident_parts_def using assms(1) clean_prefix [OF v _ k(1)] clean_prefix [OF v _ k(2)]
      clean_prefix [OF v _ k(3)] clean_prefix [OF v _ k(4)]
    by (auto simp: clean_ident_def split: if_splits)
qed

text \<open>What the loader makes of the files \<^verbatim>\<open>_persist_net_meta\<close> wrote.\<close>

definition ip_view :: "ident \<Rightarrow> exc + (string \<times> string) list" where
  "ip_view new =
     bindE (if truthy (id_ip new)
            then bindE (split_address (the (id_ip new))) (\<lambda>(address, subnet).
              Inr ((''address'', address) # (case subnet of Some n \<Rightarrow> [(''subnet'', n)] | None \<Rightarrow> [])))
            else Inr [])
       (\<lambda>l3. Inr (l3 @ (if truthy (id_gateway new) then [(''gateway'', the (id_gateway new))] else []) @
                 (if truthy (id_dns new) then [(''dns1'', the (id_dns new))] else [])))"

lemma load_ip_persisted:
  assumes "clean_ident new"
    "fs ''kento-net'' = (if ident_parts new \<noteq> [] then Some (py_join [LF] (ident_parts new) @ [LF]) else None)"
  shows "load_ip_config fs = ip_view new"
proof (cases "ident_parts new = []")
  case True
  then have "\<not> truthy (id_ip new)" "\<not> truthy (id_gateway new)" "\<not> truthy (id_dns new)"
    by (auto simp: ident_parts_def split: if_splits)
  with True assms(2) show ?thesis by (simp add: load_ip_config_def read_meta_def ip_view_def)
next
  case False
  note l = clean_lines [OF False clean_ident_parts [OF assms(1)]]
  have r: "read_meta fs ''kento-net'' = Some (file_text (py_join [LF] (ident_parts new) @ [LF]))"
    using False assms(2) by (simp add: read_meta_def)
  have f: "truthy (kept v) = truthy v" "truthy v \<Longrightarrow> the (kept v) = the v" for v by (auto simp: kept_def)
  show ?thesis unfolding load_ip_config_def r using l net_fields_parts [OF assms(1)]
    by (simp add: ip_view_def f cong: if_cong)
qed

lemma load_network_persisted:
  assumes "clean_ident new" "id_type new = Some t" "t \<noteq> []" "clean_opt mac" "fs ''kento-mac'' = map_option (\<lambda>m. m @ [LF]) mac"
  shows "load_network (persist_net_meta new fs) =
    bindE (ip_view new) (\<lambda>ip. let mode = resolve_net_mode (Some t) ip in
      Inr \<lparr>nc_mode = mode,
        link_config = (if t = ''bridge'' \<and> truthy (id_bridge new) then [(''bridge'', the (id_bridge new))] else []) @
                      (if truthy mac then [(''mac'', the mac)] else []),
        ip_config = (if mode \<noteq> STATIC then [] else ip)\<rparr>)"
proof -
  let ?fs = "persist_net_meta new fs"
  have ip: "load_ip_config ?fs = ip_view new"
    by (rule load_ip_persisted [OF assms(1)]) (simp add: persist_net_meta_def Let_def put_opt_def)
  have ty: "read_meta ?fs ''kento-net-type'' = Some t"
    using assms(1,2) by (intro meta_after) (simp_all add: persist_net_meta_def Let_def put_opt_def write_meta_def clean_ident_def clean_opt_def)
  have mac: "read_meta ?fs ''kento-mac'' = mac"
    using assms(4,5) by (intro meta_opt_after) (simp_all add: persist_files)
  have br: "read_meta ?fs ''kento-bridge'' = (if t = ''bridge'' then kept (id_bridge new) else None)"
  proof (cases "t = ''bridge'' \<and> truthy (id_bridge new)")
    case True
    then obtain b where "id_bridge new = Some b" "b \<noteq> []" by (cases "id_bridge new") auto
    with True assms(1,2) show ?thesis
      by (simp add: read_meta_def persist_net_meta_def Let_def put_opt_def clean_ident_def clean_opt_def clean_line kept_def)
  next
    case False
    with assms(2) show ?thesis by (auto simp: read_meta_def persist_net_meta_def Let_def put_opt_def)
  qed
  show ?thesis unfolding load_network_def ip ty mac br by (auto simp: Let_def kept_def split: if_splits)
qed

text \<open>The loader looks at four files only.\<close>

definition NET_FILES :: "string set" where
  "NET_FILES = {''kento-net-type'', ''kento-bridge'', ''kento-mac'', ''kento-net''}"

lemma load_network_cong: "(\<And>f. f \<in> NET_FILES \<Longrightarrow> fs f = gs f) \<Longrightarrow> load_network fs = load_network gs"
  by (simp add: NET_FILES_def load_network_def load_ip_config_def read_meta_def cong: if_cong)

text \<open>A change of the network alone, or with the MAC address: what the writer of each mode leaves in them.\<close>

definition mac_files :: "string option \<Rightarrow> files \<Rightarrow> files" where
  "mac_files mac fs = (case mac of Some m \<Rightarrow> write_meta ''mac'' m fs | None \<Rightarrow> fs)"

definition net_request :: "set_args \<Rightarrow> bool" where
  "net_request a \<longleftrightarrow> sa_memory a = None \<and> sa_cores a = None \<and> sa_qemu_args a = None \<and> sa_pve_args a = None \<and>
     sa_lxc_args a = None \<and> sa_port a = None"

lemma mac_files_simps: "f \<noteq> ''kento-mac'' \<Longrightarrow> mac_files mac fs f = fs f"
    "mac_files mac fs ''kento-mac'' = (case mac of Some m \<Rightarrow> Some (m @ [LF]) | None \<Rightarrow> fs ''kento-mac'')"
  by (auto simp: mac_files_def write_meta_def split: option.splits)

lemma persist_mac:
  "f \<in> NET_FILES \<Longrightarrow> persist_net_meta new (mac_files mac fs) f = mac_files mac (persist_net_meta new fs) f"
  by (cases mac) (auto simp: mac_files_def persist_net_meta_def write_meta_def put_opt_def Let_def NET_FILES_def)

lemma persist_cong: "f \<in> NET_FILES \<Longrightarrow> (fs ''kento-mac'' = gs ''kento-mac'') \<Longrightarrow> persist_net_meta new fs f = persist_net_meta new gs f"
  by (auto simp: persist_net_meta_def write_meta_def put_opt_def Let_def NET_FILES_def)

lemma mac_persist_cong:
  "f \<in> NET_FILES \<Longrightarrow> fs ''kento-mac'' = gs ''kento-mac'' \<Longrightarrow>
     mac_files mac (persist_net_meta new fs) f = mac_files mac (persist_net_meta new gs) f"
  using persist_cong [of f fs gs new] by (cases mac) (simp_all add: mac_files_def write_meta_def)

lemma dropins_mac: "i_files (emit_guest_net_dropins new mode s) ''kento-mac'' = i_files s ''kento-mac''"
  by (rule dropins_files) simp

lemma apply_net_files:
  assumes "net_request a" "nd_action nd = Skip" "mode \<in> set [''lxc'', ''pve'', ''vm'', ''pve-vm'']"
    "mode \<in> set [''lxc'', ''pve''] \<longrightarrow> sa_mac a = None"
    "mode = ''pve'' \<longrightarrow> (\<exists>p. pve_lxc_conf_path (i_dir s) (i_files s) = Inr p)"
    "apply_mode cdir mode a None (Some nd) s = (r, s')"
  shows "(mode \<noteq> ''pve-vm'' \<longrightarrow> r = Inr ()) \<and>
    (r = Inr () \<longrightarrow> (\<forall>f \<in> NET_FILES. i_files s' f = persist_net_meta (nd_new nd) (mac_files (sa_mac a) (i_files s)) f))"
proof -
  note d = apply_mode_def classify_list_def apply_port_meta_def apply_passthrough_meta_def write_num_def Let_def
    set_files_simps(2) dropins_mac
  have cfg: "''config'' \<notin> NET_FILES" "''kento-mac'' \<in> NET_FILES" "''kento-port'' \<notin> NET_FILES" by (auto simp: NET_FILES_def)
  from assms(3) consider "mode = ''lxc''" | "mode = ''pve''" | "mode = ''vm''" | "mode = ''pve-vm''" by auto
  then show ?thesis
  proof cases
    case 1
    with assms cfg show ?thesis
      by (auto simp: net_request_def apply_lxc_def d mac_files_def intro!: persist_cong)
  next
    case 2
    with assms(5) obtain p where p: "pve_lxc_conf_path (i_dir s) (i_files s) = Inr p" by auto
    with 2 assms cfg show ?thesis
      by (cases p) (auto simp: net_request_def apply_pve_lxc_def d mac_files_def write_conf_simps intro!: persist_cong)
  next
    case 3
    with assms cfg show ?thesis
      by (auto simp: net_request_def apply_vm_def d mac_files_def[symmetric] intro!: persist_cong)
  next
    case 4
    with assms cfg show ?thesis
      by (auto simp: net_request_def apply_pve_vm_def apply_vm_net_def regenerate_args_def d mac_files_def[symmetric]
        write_conf_simps persist_mac split: sum.splits prod.splits intro!: mac_persist_cong)
  qed
qed

section \<open>Assigning a network\<close>

definition opt_entry :: "(string \<rightharpoonup> string) \<Rightarrow> string \<Rightarrow> (string \<times> string) list" where
  "opt_entry m k = (case m k of Some v \<Rightarrow> [(k, v)] | None \<Rightarrow> [])"

text \<open>
  The connections the loaders produce for a mode: a bridged one names its bridge, a static one
  has its address; the keys are in the order of the loaders and the values survive a line of a
  file.
\<close>

definition typed_conn :: "string \<Rightarrow> network_connection \<Rightarrow> bool" where
  "typed_conn mode conn \<longleftrightarrow>
     (let lc = map_of (link_config conn); ip = map_of (ip_config conn);
          bridged = (nc_mode conn = STATIC \<or> nc_mode conn = DHCP); vm = (mode = ''vm'' \<or> mode = ''pve-vm'')
      in (\<forall>v \<in> set (map snd (link_config conn @ ip_config conn)). clean v \<and> v \<noteq> []) \<and>
         link_config conn = (if bridged then [(''bridge'', the (lc ''bridge''))] else []) @ opt_entry lc ''mac'' \<and>
         ip_config conn = (if nc_mode conn = STATIC
           then (''address'', the (ip ''address'')) # opt_entry ip ''subnet'' @ opt_entry ip ''gateway'' @ opt_entry ip ''dns1''
           else []) \<and>
         (nc_mode conn = STATIC \<longrightarrow> the (ip ''address'') \<noteq> ''dhcp'' \<and>
            parse_cidr (cidr_text (the (ip ''address'')) (ip ''subnet'')) = Inr (the (ip ''address''), ip ''subnet'')) \<and>
         (bridged \<longrightarrow> mode \<noteq> ''vm'') \<and> (nc_mode conn = USER \<longrightarrow> vm) \<and> (nc_mode conn = HOST \<longrightarrow> \<not> vm) \<and>
         (lc ''mac'' \<noteq> None \<longrightarrow> vm \<and> anchored (rx_match MAC_RE) (the (lc ''mac''))))"

lemma bridge_arg: "b \<noteq> [] \<Longrightarrow> parse_network_arg (Some (''bridge='' @ b)) = Inr (Some ''bridge'', Some b)"
  by (simp add: parse_network_arg_def py_partition_def)

lemma clean_cidr: "clean a \<Longrightarrow> a \<noteq> [] \<Longrightarrow> clean_opt n \<Longrightarrow> n \<noteq> Some [] \<Longrightarrow> clean (cidr_text a n) \<and> cidr_text a n \<noteq> []"
proof (cases n)
  case (Some p)
  moreover have "\<not> py_linebreak (CHR ''/'')" by (simp add: py_linebreak_def cp_def)
  moreover assume "clean a" "a \<noteq> []" "clean_opt n" "n \<noteq> Some []"
  ultimately show ?thesis using clean_no_space [of a p "''/''"]
    by (simp add: cidr_text_def clean_opt_def clean_def no_breaks_def ball_Un)
qed (simp add: cidr_text_def)

lemma opt_entry_const: "opt_entry (\<lambda>_. m k) k = opt_entry m k"
  by (simp add: opt_entry_def)

text \<open>What a typed connection turns into, by its mode.\<close>

lemma static_conn:
  assumes "typed_conn mode conn" "nc_mode conn = STATIC"
  obtains b mac a n g d where "conn = \<lparr>nc_mode = STATIC, link_config = (''bridge'', b) # opt_entry (\<lambda>_. mac) ''mac'',
      ip_config = (''address'', a) # opt_entry (\<lambda>_. n) ''subnet'' @ opt_entry (\<lambda>_. g) ''gateway'' @ opt_entry (\<lambda>_. d) ''dns1''\<rparr>"
    "clean b" "b \<noteq> []" "clean_opt mac" "mac \<noteq> Some []" "clean a" "a \<noteq> []" "clean_opt n" "n \<noteq> Some []"
    "clean_opt g" "g \<noteq> Some []" "clean_opt d" "d \<noteq> Some []" "a \<noteq> ''dhcp''" "parse_cidr (cidr_text a n) = Inr (a, n)"
    "mode \<noteq> ''vm''" "\<forall>m \<in> set_option mac. (mode = ''vm'' \<or> mode = ''pve-vm'') \<and> anchored (rx_match MAC_RE) m"
proof -
  let ?lc = "map_of (link_config conn)" and ?ip = "map_of (ip_config conn)"
  have l: "link_config conn = (''bridge'', the (?lc ''bridge'')) # opt_entry ?lc ''mac''" and
    i: "ip_config conn = (''address'', the (?ip ''address'')) # opt_entry ?ip ''subnet'' @ opt_entry ?ip ''gateway'' @ opt_entry ?ip ''dns1''"
    using assms by (auto simp: typed_conn_def Let_def)
  have v: "\<And>v. v \<in> set (map snd (link_config conn)) \<union> set (map snd (ip_config conn)) \<Longrightarrow> clean v \<and> v \<noteq> []"
    using assms(1) by (simp add: typed_conn_def Let_def)
  have in_l: "?lc k = Some x \<Longrightarrow> x \<in> set (map snd (link_config conn))" for k x
    by (force dest: map_of_SomeD)
  have in_i: "?ip k = Some x \<Longrightarrow> x \<in> set (map snd (ip_config conn))" for k x
    by (force dest: map_of_SomeD)
  have vo: "clean_opt (?ip k) \<and> ?ip k \<noteq> Some []" "clean_opt (?lc k) \<and> ?lc k \<noteq> Some []" for k
    using v in_i [of k] in_l [of k] by (cases "?ip k"; cases "?lc k"; simp add: clean_opt_def)+
  from arg_cong [OF l, of "\<lambda>xs. the (?lc ''bridge'') \<in> set (map snd xs)"]
  have b: "clean (the (?lc ''bridge''))" "the (?lc ''bridge'') \<noteq> []" using v by simp_all
  from arg_cong [OF i, of "\<lambda>xs. the (?ip ''address'') \<in> set (map snd xs)"]
  have a: "clean (the (?ip ''address''))" "the (?ip ''address'') \<noteq> []" using v by simp_all
  note u = assms(1) [unfolded typed_conn_def Let_def]
  have c: "conn = \<lparr>nc_mode = STATIC, link_config = (''bridge'', the (?lc ''bridge'')) # opt_entry (\<lambda>_. ?lc ''mac'') ''mac'',
      ip_config = (''address'', the (?ip ''address'')) # opt_entry (\<lambda>_. ?ip ''subnet'') ''subnet'' @
        opt_entry (\<lambda>_. ?ip ''gateway'') ''gateway'' @ opt_entry (\<lambda>_. ?ip ''dns1'') ''dns1''\<rparr>"
    unfolding opt_entry_const using l i assms(2) by (intro network_connection.equality) simp_all
  have r: "the (?ip ''address'') \<noteq> ''dhcp''" "mode \<noteq> ''vm''"
    "parse_cidr (cidr_text (the (?ip ''address'')) (?ip ''subnet'')) = Inr (the (?ip ''address''), ?ip ''subnet'')"
    using u assms(2) by blast+
  have m: "\<forall>m \<in> set_option (?lc ''mac''). (mode = ''vm'' \<or> mode = ''pve-vm'') \<and> anchored (rx_match MAC_RE) m"
    using u by (cases "?lc ''mac''") simp_all
  show thesis using that [OF c b _ _ a _ _ _ _ _ _ r(1) r(3) r(2) m] vo by blast
qed

lemma other_conn:
  assumes "typed_conn mode conn" "nc_mode conn \<noteq> STATIC"
  obtains b mac where "conn = \<lparr>nc_mode = nc_mode conn,
      link_config = (if nc_mode conn = DHCP then [(''bridge'', b)] else []) @ opt_entry (\<lambda>_. mac) ''mac'', ip_config = []\<rparr>"
    "nc_mode conn = DHCP \<Longrightarrow> clean b \<and> b \<noteq> [] \<and> mode \<noteq> ''vm''" "clean_opt mac" "mac \<noteq> Some []"
    "nc_mode conn = USER \<Longrightarrow> mode = ''vm'' \<or> mode = ''pve-vm''" "nc_mode conn = HOST \<Longrightarrow> mode \<noteq> ''vm'' \<and> mode \<noteq> ''pve-vm''"
    "\<forall>m \<in> set_option mac. (mode = ''vm'' \<or> mode = ''pve-vm'') \<and> anchored (rx_match MAC_RE) m"
proof -
  let ?lc = "map_of (link_config conn)"
  have l: "link_config conn = (if nc_mode conn = DHCP then [(''bridge'', the (?lc ''bridge''))] else []) @ opt_entry ?lc ''mac''"
    and i: "ip_config conn = []"
    using assms by (auto simp: typed_conn_def Let_def)
  have v: "\<And>v. v \<in> set (map snd (link_config conn)) \<Longrightarrow> clean v \<and> v \<noteq> []"
    using assms(1) by (simp add: typed_conn_def Let_def)
  have in_l: "?lc k = Some x \<Longrightarrow> x \<in> set (map snd (link_config conn))" for k x
    by (force dest: map_of_SomeD)
  have vo: "clean_opt (?lc k) \<and> ?lc k \<noteq> Some []" for k
    using v in_l [of k] by (cases "?lc k"; simp add: clean_opt_def)+
  have b: "clean (the (?lc ''bridge''))" "the (?lc ''bridge'') \<noteq> []" if "nc_mode conn = DHCP"
    using v that arg_cong [OF l, of "\<lambda>xs. the (?lc ''bridge'') \<in> set (map snd xs)"] by simp_all
  note u = assms(1) [unfolded typed_conn_def Let_def]
  have c: "conn = \<lparr>nc_mode = nc_mode conn,
      link_config = (if nc_mode conn = DHCP then [(''bridge'', the (?lc ''bridge''))] else []) @ opt_entry (\<lambda>_. ?lc ''mac'') ''mac'', ip_config = []\<rparr>"
    unfolding opt_entry_const using l i by (intro network_connection.equality) simp_all
  have m: "\<forall>m \<in> set_option (?lc ''mac''). (mode = ''vm'' \<or> mode = ''pve-vm'') \<and> anchored (rx_match MAC_RE) m"
    using u by (cases "?lc ''mac''") simp_all
  have d: "nc_mode conn = DHCP \<Longrightarrow> clean (the (?lc ''bridge'')) \<and> the (?lc ''bridge'') \<noteq> [] \<and> mode \<noteq> ''vm''"
    using u b by blast
  show thesis using that [OF c d _ _ _ _ m] vo u by blast
qed

lemma cleared: "g \<noteq> Some [] \<Longrightarrow> or_none (nonempty_or g []) = g"
  by (cases g) (simp_all add: nonempty_or_def or_none_def)

lemma static_params:
  assumes "conn = \<lparr>nc_mode = STATIC, link_config = (''bridge'', b) # opt_entry (\<lambda>_. mac) ''mac'',
      ip_config = (''address'', a) # opt_entry (\<lambda>_. n) ''subnet'' @ opt_entry (\<lambda>_. g) ''gateway'' @ opt_entry (\<lambda>_. d) ''dns1''\<rparr>"
    "b \<noteq> []"
  shows "network_to_set_params conn = Inr (no_args\<lparr>sa_network := Some (''bridge='' @ b), sa_ip := Some (cidr_text a n),
    sa_gateway := Some (nonempty_or g []), sa_dns := Some (nonempty_or d []), sa_mac := mac\<rparr>)"
  unfolding assms(1) using assms(2)
  by (cases mac; cases n; cases g; cases d) (simp_all add: network_to_set_params_def Let_def opt_entry_def)

lemma other_params:
  assumes "conn = \<lparr>nc_mode = m, link_config = (if m = DHCP then [(''bridge'', b)] else []) @ opt_entry (\<lambda>_. mac) ''mac'',
      ip_config = []\<rparr>" "m \<noteq> STATIC" "m = DHCP \<Longrightarrow> b \<noteq> []"
  shows "network_to_set_params conn = Inr (no_args\<lparr>sa_network := Some (case m of
      USER \<Rightarrow> ''usermode'' | HOST \<Rightarrow> ''host'' | DISABLED \<Rightarrow> ''none'' | _ \<Rightarrow> ''bridge='' @ b),
    sa_ip := Some ''dhcp'', sa_dns := Some [], sa_mac := mac\<rparr>)"
  unfolding assms(1) using assms(2,3)
  by (cases m; cases mac) (simp_all add: network_to_set_params_def Let_def opt_entry_def)

text \<open>The change of the network such a value stands for, and what the loader will see.\<close>

definition recorded_mac :: "string option \<Rightarrow> files \<Rightarrow> string option" where
  "recorded_mac mac fs = (if mac = None then read_meta fs ''kento-mac'' else mac)"

lemma portless_delta:
  assumes "net_provided a" "sa_port a = None" "parse_network_arg (sa_network a) = Inr (t, b)"
    "new = apply_overrides a t b (resolve_net_identity s mode)"
    "validate_net_identity new mode (sa_ip a \<noteq> None) (sa_gateway a \<noteq> None) Skip = Inr ()"
  shows "resolve_delta s mode a = Inr (Some \<lparr>nd_new = new, nd_port = None, nd_action = Skip\<rparr>)"
  using assms by (simp add: resolve_delta_def classify_list_def Let_def)

lemma static_delta:
  assumes "typed_conn mode conn" "nc_mode conn = STATIC" "network_to_set_params conn = Inr a"
    "clean_opt (m_searchdomain (parse_net_meta (i_files s)))" "mode \<in> set [''lxc'', ''pve'', ''vm'', ''pve-vm'']"
  shows "\<exists>nd ip. resolve_delta s mode a = Inr (Some nd) \<and> nd_action nd = Skip \<and> clean_ident (nd_new nd) \<and>
    id_type (nd_new nd) = Some ''bridge'' \<and> ip_view (nd_new nd) = Inr ip \<and> resolve_net_mode (Some ''bridge'') ip = STATIC \<and>
    conn = \<lparr>nc_mode = STATIC, link_config = (''bridge'', the (id_bridge (nd_new nd))) # opt_entry (\<lambda>_. sa_mac a) ''mac'', ip_config = ip\<rparr> \<and>
    truthy (id_bridge (nd_new nd)) \<and> clean_opt (sa_mac a) \<and> sa_mac a \<noteq> Some [] \<and> check_fields a mode = Inr () \<and> net_request a"
proof -
  obtain b mac x n g d where c: "conn = \<lparr>nc_mode = STATIC, link_config = (''bridge'', b) # opt_entry (\<lambda>_. mac) ''mac'',
      ip_config = (''address'', x) # opt_entry (\<lambda>_. n) ''subnet'' @ opt_entry (\<lambda>_. g) ''gateway'' @ opt_entry (\<lambda>_. d) ''dns1''\<rparr>"
    and v: "clean b" "b \<noteq> []" "clean_opt mac" "mac \<noteq> Some []" "clean x" "x \<noteq> []" "clean_opt n" "n \<noteq> Some []"
    "clean_opt g" "g \<noteq> Some []" "clean_opt d" "d \<noteq> Some []" "x \<noteq> ''dhcp''" "parse_cidr (cidr_text x n) = Inr (x, n)"
    "mode \<noteq> ''vm''" "\<forall>m \<in> set_option mac. (mode = ''vm'' \<or> mode = ''pve-vm'') \<and> anchored (rx_match MAC_RE) m"
    by (rule static_conn [OF assms(1,2)]) blast
  have a: "a = no_args\<lparr>sa_network := Some (''bridge='' @ b), sa_ip := Some (cidr_text x n),
    sa_gateway := Some (nonempty_or g []), sa_dns := Some (nonempty_or d []), sa_mac := mac\<rparr>"
    using static_params [OF c v(2)] assms(3) by simp
  note k = clean_cidr [OF v(5,6,7,8)]
  have dh: "cidr_text x n \<noteq> ''dhcp''"
    using v(13) by (auto simp: cidr_text_def dest: arg_cong [of _ _ "\<lambda>s. CHR ''/'' \<in> set s"])
  define new where "new = apply_overrides a (Some ''bridge'') (Some b) (resolve_net_identity s mode)"
  have sd: "id_searchdomain (resolve_net_identity s mode) = m_searchdomain (parse_net_meta (i_files s))"
    by (simp add: resolve_net_identity_def Let_def parse_kento_net_def)
  have new: "id_type new = Some ''bridge''" "id_bridge new = Some b" "id_ip new = Some (cidr_text x n)"
    "id_gateway new = g" "id_dns new = d" "id_searchdomain new = m_searchdomain (parse_net_meta (i_files s))"
    using dh sd cleared [OF v(10)] cleared [OF v(12)] by (simp_all add: new_def apply_overrides_def a Let_def no_args_def)
  have r: "resolve_delta s mode a = Inr (Some \<lparr>nd_new = new, nd_port = None, nd_action = Skip\<rparr>)"
    by (rule portless_delta [OF _ _ _ new_def])
      (use bridge_arg [OF v(2)] new assms(5) v(15) in \<open>simp_all add: a net_provided_def no_args_def validate_net_identity_def\<close>)
  have i: "ip_view new = Inr (ip_config conn)"
    using new k v(9-14) unfolding c by (cases n; cases g; cases d) (simp_all add: ip_view_def split_address_def opt_entry_def)
  have ch: "check_fields a mode = Inr ()" using v(16) by (cases mac) (simp_all add: a check_fields_def no_args_def deny_opt_def)
  have cl: "clean_ident new" using new k v assms(4) by (simp add: clean_ident_def clean_opt_def) code_simp
  have "net_request a" by (simp add: net_request_def a no_args_def)
  moreover have "resolve_net_mode (Some ''bridge'') (ip_config conn) = STATIC" using v(6) by (simp add: resolve_net_mode_def c)
  ultimately show ?thesis using r i ch cl new v(2,3,4)
    by (intro exI [of _ "\<lparr>nd_new = new, nd_port = None, nd_action = Skip\<rparr>"] exI [of _ "ip_config conn"]) (simp add: a c)
qed

definition net_word :: "network_mode \<Rightarrow> string" where
  "net_word m = (case m of USER \<Rightarrow> ''usermode'' | HOST \<Rightarrow> ''host'' | DISABLED \<Rightarrow> ''none'' | _ \<Rightarrow> ''bridge'')"

lemma other_delta:
  assumes "typed_conn mode conn" "nc_mode conn \<noteq> STATIC" "network_to_set_params conn = Inr a"
    "clean_opt (m_searchdomain (parse_net_meta (i_files s)))" "mode \<in> set [''lxc'', ''pve'', ''vm'', ''pve-vm'']"
  shows "\<exists>nd. resolve_delta s mode a = Inr (Some nd) \<and> nd_action nd = Skip \<and> clean_ident (nd_new nd) \<and>
    id_type (nd_new nd) = Some (net_word (nc_mode conn)) \<and> ip_view (nd_new nd) = Inr [] \<and>
    conn = \<lparr>nc_mode = nc_mode conn, link_config = (if nc_mode conn = DHCP then [(''bridge'', the (id_bridge (nd_new nd)))] else []) @
      opt_entry (\<lambda>_. sa_mac a) ''mac'', ip_config = []\<rparr> \<and>
    (nc_mode conn = DHCP \<longrightarrow> truthy (id_bridge (nd_new nd))) \<and> clean_opt (sa_mac a) \<and> sa_mac a \<noteq> Some [] \<and>
    check_fields a mode = Inr () \<and> net_request a"
proof -
  obtain b mac where c: "conn = \<lparr>nc_mode = nc_mode conn,
      link_config = (if nc_mode conn = DHCP then [(''bridge'', b)] else []) @ opt_entry (\<lambda>_. mac) ''mac'', ip_config = []\<rparr>"
    and v: "nc_mode conn = DHCP \<Longrightarrow> clean b \<and> b \<noteq> [] \<and> mode \<noteq> ''vm''" "clean_opt mac" "mac \<noteq> Some []"
    "nc_mode conn = USER \<Longrightarrow> mode = ''vm'' \<or> mode = ''pve-vm''" "nc_mode conn = HOST \<Longrightarrow> mode \<noteq> ''vm'' \<and> mode \<noteq> ''pve-vm''"
    "\<forall>m \<in> set_option mac. (mode = ''vm'' \<or> mode = ''pve-vm'') \<and> anchored (rx_match MAC_RE) m"
    by (rule other_conn [OF assms(1,2)]) blast
  define word where "word = (case nc_mode conn of USER \<Rightarrow> ''usermode'' | HOST \<Rightarrow> ''host'' | DISABLED \<Rightarrow> ''none'' | _ \<Rightarrow> ''bridge='' @ b)"
  have a: "a = no_args\<lparr>sa_network := Some word, sa_ip := Some ''dhcp'', sa_dns := Some [], sa_mac := mac\<rparr>"
    using other_params [OF c assms(2)] v(1) assms(3) by (simp add: word_def)
  let ?b = "if nc_mode conn = DHCP then Some b else None"
  have p: "parse_network_arg (sa_network a) = Inr (Some (net_word (nc_mode conn)), ?b)"
    using bridge_arg [of b] v(1) assms(2) by (cases "nc_mode conn") (simp_all add: a word_def net_word_def parse_network_arg_def)
  define new where "new = apply_overrides a (Some (net_word (nc_mode conn))) ?b (resolve_net_identity s mode)"
  have sd: "id_searchdomain (resolve_net_identity s mode) = m_searchdomain (parse_net_meta (i_files s))"
    by (simp add: resolve_net_identity_def Let_def parse_kento_net_def)
  have new: "id_type new = Some (net_word (nc_mode conn))" "id_bridge new = ?b" "id_ip new = None" "id_gateway new = None"
    "id_dns new = None" "id_searchdomain new = m_searchdomain (parse_net_meta (i_files s))"
    using sd assms(2) by (cases "nc_mode conn"; simp add: new_def apply_overrides_def a Let_def no_args_def net_word_def or_none_def)+
  have r: "resolve_delta s mode a = Inr (Some \<lparr>nd_new = new, nd_port = None, nd_action = Skip\<rparr>)"
  proof (rule portless_delta [OF _ _ p new_def])
    show "validate_net_identity new mode (sa_ip a \<noteq> None) (sa_gateway a \<noteq> None) Skip = Inr ()"
      using new assms(2,5) v(1,4,5) by (cases "nc_mode conn") (auto simp: a no_args_def validate_net_identity_def net_word_def)
  qed (simp_all add: a net_provided_def no_args_def)
  have ch: "check_fields a mode = Inr ()" using v(6) by (cases mac) (simp_all add: a check_fields_def no_args_def deny_opt_def)
  have "clean (net_word (nc_mode conn))" by (cases "nc_mode conn") (simp_all add: net_word_def, code_simp+)
  then have cl: "clean_ident new" using new v(1) assms(4) by (simp add: clean_ident_def clean_opt_def)
  have "net_request a" by (simp add: net_request_def a no_args_def)
  moreover have "ip_view new = Inr []" using new by (simp add: ip_view_def)
  moreover have "conn = \<lparr>nc_mode = nc_mode conn, link_config = (if nc_mode conn = DHCP then [(''bridge'', the (id_bridge new))] else []) @
      opt_entry (\<lambda>_. sa_mac a) ''mac'', ip_config = []\<rparr>" by (rule trans [OF c]) (simp add: new(2) a)
  moreover have "nc_mode conn = DHCP \<longrightarrow> truthy (id_bridge new)" using new(2) v(1) by simp
  moreover have "sa_mac a = mac" by (simp add: a)
  ultimately show ?thesis using r ch cl new(1) v(2,3)
    by (intro exI [of _ "\<lparr>nd_new = new, nd_port = None, nd_action = Skip\<rparr>"], unfold net_delta.select_convs) blast
qed

text \<open>The general case: a MAC address recorded before stays when the value names none.\<close>

lemma setter_core:
  assumes "typed_conn mode conn" "network_to_set_params conn = Inr a" "mode \<in> set [''lxc'', ''pve'', ''vm'', ''pve-vm'']"
    "clean_opt old" "old \<noteq> Some []" "sa_mac a = None \<longrightarrow> i_files s ''kento-mac'' = map_option (\<lambda>m. m @ [LF]) old"
    "clean_opt (m_searchdomain (parse_net_meta (i_files s)))"
    "mode = ''pve'' \<longrightarrow> (\<exists>p. pve_lxc_conf_path (i_dir s) (i_files s) = Inr p)"
    "set_cmd True False cpus cdir mode a s = (r, s')"
  shows "(mode \<noteq> ''pve-vm'' \<longrightarrow> r = Inr ()) \<and> (r = Inr () \<longrightarrow> load_network (i_files s') =
    Inr (conn\<lparr>link_config := link_config conn @ (if sa_mac a = None then opt_entry (\<lambda>_. old) ''mac'' else [])\<rparr>))"
proof -
  obtain nd ip where nd: "resolve_delta s mode a = Inr (Some nd)" "nd_action nd = Skip" "clean_ident (nd_new nd)"
      "id_type (nd_new nd) = Some (net_word (nc_mode conn))" "ip_view (nd_new nd) = Inr ip"
      "resolve_net_mode (Some (net_word (nc_mode conn))) ip = nc_mode conn"
    and c: "conn = \<lparr>nc_mode = nc_mode conn, link_config = (if nc_mode conn = DHCP \<or> nc_mode conn = STATIC
        then [(''bridge'', the (id_bridge (nd_new nd)))] else []) @ opt_entry (\<lambda>_. sa_mac a) ''mac'', ip_config = ip\<rparr>"
    and b: "nc_mode conn = DHCP \<or> nc_mode conn = STATIC \<Longrightarrow> truthy (id_bridge (nd_new nd))"
    and m: "clean_opt (sa_mac a)" "sa_mac a \<noteq> Some []" and ch: "check_fields a mode = Inr ()" "net_request a"
    and ip: "nc_mode conn \<noteq> STATIC \<Longrightarrow> ip = []"
  proof (cases "nc_mode conn = STATIC")
    case True
    from static_delta [OF assms(1) True assms(2,7,3)] True that show thesis by (auto simp: net_word_def)
  next
    case False
    have "resolve_net_mode (Some (net_word (nc_mode conn))) [] = nc_mode conn"
      using False by (cases "nc_mode conn") (simp_all add: resolve_net_mode_def net_word_def nonempty_or_def NET_TYPE_TO_MODE_def)
    with other_delta [OF assms(1) False assms(2,7,3)] False that show thesis by force
  qed
  have mac: "mode \<in> set [''lxc'', ''pve''] \<longrightarrow> sa_mac a = None" using ch(1) by (auto simp: check_fields_def split: if_splits)
  have "\<not> nothing_to_set a" "clamp_cores cpus (i_files s) a mode = Inr None"
    using resolve_delta_Inr(5) [OF nd(1)] ch(2) by (auto simp: nothing_to_set_def net_provided_def net_request_def clamp_cores_def)
  then have "apply_mode cdir mode a None (Some nd) s = (r, s')" using assms(9) ch(1) nd(1) by (simp add: set_cmd_def)
  note app = apply_net_files [OF ch(2) nd(2) assms(3) mac assms(8) this]
  have w: "net_word (nc_mode conn) \<noteq> []" "net_word (nc_mode conn) = ''bridge'' \<longleftrightarrow> nc_mode conn = DHCP \<or> nc_mode conn = STATIC"
    by (cases "nc_mode conn"; simp add: net_word_def)+
  have km: "mac_files (sa_mac a) (i_files s) ''kento-mac'' = map_option (\<lambda>m. m @ [LF]) (first_some (sa_mac a) old)"
    using assms(6) by (cases "sa_mac a") (simp_all add: mac_files_simps first_some_def)
  define g where "g = mac_files (sa_mac a) (i_files s)"
  from km have km: "g ''kento-mac'' = map_option (\<lambda>m. m @ [LF]) (first_some (sa_mac a) old)" by (simp add: g_def)
  have cl: "clean_opt (first_some (sa_mac a) old)" using m(1) assms(4) by (simp add: first_some_def)
  have lc: "link_config conn = (if nc_mode conn = DHCP \<or> nc_mode conn = STATIC then [(''bridge'', the (id_bridge (nd_new nd)))] else []) @
      opt_entry (\<lambda>_. sa_mac a) ''mac''" and ic: "ip_config conn = ip" by (subst c; simp)+
  have "load_network (persist_net_meta (nd_new nd) g) =
      Inr (conn\<lparr>link_config := link_config conn @ (if sa_mac a = None then opt_entry (\<lambda>_. old) ''mac'' else [])\<rparr>)"
    unfolding load_network_persisted [OF nd(3,4) w(1) cl, of g, OF km]
    using nd(5,6) m(2) assms(5) w(2) b ip lc ic
    by (cases "sa_mac a"; cases old) (auto simp: Let_def opt_entry_def first_some_def)
  with app load_network_cong [of "i_files s'"] show ?thesis unfolding g_def by metis
qed

text \<open>
  Assigning a network connection to a stopped instance and loading the instance again gives
  the same connection: for every mode, with the values a loader produces, the assignment
  succeeds for the plain modes and a PVE container, and whenever it succeeds the type, the
  bridge, the MAC address, the address with its prefix, the gateway and the name server read
  back unchanged.
\<close>
theorem network_setter_roundtrip:
  assumes "typed_conn mode conn" "network_to_set_params conn = Inr a" "mode \<in> set [''lxc'', ''pve'', ''vm'', ''pve-vm'']"
    "sa_mac a = None \<longrightarrow> i_files s ''kento-mac'' = None" "clean_opt (m_searchdomain (parse_net_meta (i_files s)))"
    "mode = ''pve'' \<longrightarrow> (\<exists>p. pve_lxc_conf_path (i_dir s) (i_files s) = Inr p)"
    "set_cmd True False cpus cdir mode a s = (r, s')"
  shows "(mode \<noteq> ''pve-vm'' \<longrightarrow> r = Inr ()) \<and> (r = Inr () \<longrightarrow> load_network (i_files s') = Inr conn)"
  using setter_core [OF assms(1,2,3), of None, OF _ _ _ assms(5,6,7)] assms(4)
  by (simp add: opt_entry_def clean_opt_def)

text \<open>
  A network connection that names no MAC address, assigned to a VM with a recorded one, does
  not replace the recorded state: the assignment succeeds and the instance still loads with the
  old MAC address, so what reads back is not what was assigned.
\<close>
theorem network_setter_keeps_mac:
  assumes "typed_conn ''vm'' conn" "network_to_set_params conn = Inr a" "sa_mac a = None"
    "clean m" "m \<noteq> []" "i_files s ''kento-mac'' = Some (m @ [LF])" "clean_opt (m_searchdomain (parse_net_meta (i_files s)))"
    "set_cmd True False cpus cdir ''vm'' a s = (r, s')"
  shows "r = Inr () \<and> load_network (i_files s') = Inr (conn\<lparr>link_config := link_config conn @ [(''mac'', m)]\<rparr>) \<and>
    load_network (i_files s') \<noteq> Inr conn"
proof -
  have "r = Inr () \<and> load_network (i_files s') = Inr (conn\<lparr>link_config := link_config conn @ [(''mac'', m)]\<rparr>)"
    using setter_core [OF assms(1,2) _ _ _ _ assms(7) _ assms(8), of "Some m"] assms(3-6)
    by (simp add: opt_entry_def clean_opt_def)
  moreover have "conn\<lparr>link_config := link_config conn @ [(''mac'', m)]\<rparr> \<noteq> conn"
    by (auto dest: arg_cong [of _ _ link_config])
  ultimately show ?thesis by simp
qed

text \<open>A static connection, and a user-mode VM with a recorded MAC address.\<close>

definition sample_conn :: network_connection where
  "sample_conn = \<lparr>nc_mode = STATIC, link_config = [(''bridge'', ''vmbr0'')],
     ip_config = [(''address'', ''10.0.0.5''), (''subnet'', ''24''), (''gateway'', ''10.0.0.1'')]\<rparr>"

definition sample_mac_vm :: inst where
  "sample_mac_vm = \<lparr>i_dir = ''v'', i_files = [''kento-mac'' \<mapsto> ''02:00:00:00:00:01'' @ [LF]], i_upper = Map.empty,
     i_confs = Map.empty\<rparr>"

theorem network_setter_roundtrip_witness:
  "\<exists>a s'. network_to_set_params sample_conn = Inr a \<and>
     set_cmd True False None sample_dir ''lxc'' a sample_plain = (Inr (), s') \<and> load_network (i_files s') = Inr sample_conn"
proof -
  obtain a where a: "network_to_set_params sample_conn = Inr a"
    by (simp add: network_to_set_params_def sample_conn_def Let_def)
  obtain r s' where r: "set_cmd True False None sample_dir ''lxc'' a sample_plain = (r, s')"
    by (cases "set_cmd True False None sample_dir ''lxc'' a sample_plain")
  have t: "typed_conn ''lxc'' sample_conn" unfolding sample_conn_def by code_simp
  have f: "i_files sample_plain ''kento-mac'' = None" "clean_opt (m_searchdomain (parse_net_meta (i_files sample_plain)))"
    by (simp_all add: sample_plain_def parse_net_meta_def read_meta_def no_net_def clean_opt_def)
  from network_setter_roundtrip [OF t a _ _ f(2) _ r] f(1) a r show ?thesis by auto
qed

theorem network_setter_keeps_mac_witness:
  "\<exists>a s' c. network_to_set_params \<lparr>nc_mode = USER, link_config = [], ip_config = []\<rparr> = Inr a \<and>
     set_cmd True False None sample_dir ''vm'' a sample_mac_vm = (Inr (), s') \<and> load_network (i_files s') = Inr c \<and>
     link_config c = [(''mac'', ''02:00:00:00:00:01'')]"
proof -
  let ?c = "\<lparr>nc_mode = USER, link_config = [], ip_config = []\<rparr>"
  obtain a where a: "network_to_set_params ?c = Inr a" "sa_mac a = None"
    by (simp add: network_to_set_params_def Let_def no_args_def)
  obtain r s' where r: "set_cmd True False None sample_dir ''vm'' a sample_mac_vm = (r, s')"
    by (cases "set_cmd True False None sample_dir ''vm'' a sample_mac_vm")
  have t: "typed_conn ''vm'' ?c" by code_simp
  have m: "clean ''02:00:00:00:00:01''" "''02:00:00:00:00:01'' \<noteq> []" by code_simp simp
  have f: "i_files sample_mac_vm ''kento-mac'' = Some (''02:00:00:00:00:01'' @ [LF])"
    "clean_opt (m_searchdomain (parse_net_meta (i_files sample_mac_vm)))"
    by (simp_all add: sample_mac_vm_def parse_net_meta_def read_meta_def no_net_def clean_opt_def)
  from network_setter_keeps_mac [OF t a m f r] a r show ?thesis by auto
qed

section \<open>Assigning the forwards\<close>

lemma forward_line_clean: "valid_forward (b, t) \<Longrightarrow> render_forward_spec b t = Inr l \<Longrightarrow> clean l \<and> l \<noteq> []"
proof -
  assume v: "valid_forward (b, t)" and r: "render_forward_spec b t = Inr l"
  then obtain p h g where l: "l = int_str h @ '':'' @ int_str g @ (if p \<noteq> TCP then CHR ''/'' # proto_value p else [])"
    by (auto simp: valid_forward_def render_forward_spec_def)
  have i: "stripped (int_str n)" "int_str n \<noteq> []" for n using stripped_int_str [of n] by (simp_all add: int_str_def)
  have "stripped l"
  proof (cases p)
    case TCP
    with l i show ?thesis using clean_no_space [of "int_str h" "int_str g" "'':''"] by simp
  next
    case UDP
    have "stripped ''/udp''" by code_simp
    with UDP l i show ?thesis using clean_no_space [of "int_str h" "''/udp''" "'':'' @ int_str g"] by simp
  qed
  with l i(2) forward_line_breaks [OF r v] show ?thesis by (simp add: clean_def)
qed

lemma rendered_again:
  assumes "parse_forwards specs = Inr fw"
  obtains ls where "mapE (\<lambda>(b, t). render_forward_spec b t) fw = Inr ls" "mapE parse_forward_spec ls = Inr fw"
    "\<And>l. l \<in> set ls \<Longrightarrow> clean l \<and> l \<noteq> []" "distinct (map fst fw)"
proof -
  from assms have m: "mapE parse_forward_spec specs = Inr fw" "distinct (map fst fw)" by (auto simp: parse_forwards_Inr)
  from fwd.reparse_list [OF m(1)] obtain ls where
    ls: "mapE (\<lambda>(b, t). render_forward_spec b t) fw = Inr ls" "mapE parse_forward_spec ls = Inr fw" by blast
  moreover have "clean l \<and> l \<noteq> []" if "l \<in> set ls" for l
  proof -
    from mapE_image [OF ls(1) that] obtain b u where bu: "(b, u) \<in> set fw" "render_forward_spec b u = Inr l" by auto
    from mapE_image [OF m(1) bu(1)] have "valid_forward (b, u)" using forward_parse_valid by blast
    from forward_line_clean [OF this bu(2)] show ?thesis .
  qed
  ultimately show thesis using m(2) that by blast
qed

lemma dict_set_new: "k \<notin> set (map fst acc) \<Longrightarrow> dict_set k v acc = acc @ [(k, v)]"
  by (induction acc) auto

lemma load_lines:
  "mapE parse_forward_spec ls = Inr fw \<Longrightarrow> (\<And>l. l \<in> set ls \<Longrightarrow> clean l \<and> l \<noteq> []) \<Longrightarrow> distinct (map fst (acc @ fw)) \<Longrightarrow>
     load_forward_lines ls acc = Inr (acc @ fw)"
proof (induction ls arbitrary: fw acc)
  case (Cons l ls)
  from Cons.prems(1) obtain b t rest where f: "parse_forward_spec l = Inr (b, t)" "mapE parse_forward_spec ls = Inr rest"
      "fw = (b, t) # rest" by auto
  have l: "py_strip l = l" "l \<noteq> []" using Cons.prems(2) [of l] by (simp_all add: clean_def py_strip_id)
  have "dict_set b t acc = acc @ [(b, t)]" using Cons.prems(3) f(3) by (intro dict_set_new) auto
  with Cons.IH [OF f(2), of "acc @ [(b, t)]"] Cons.prems f l show ?case by simp
qed simp

lemma load_rendered:
  assumes "mapE parse_forward_spec ls = Inr fw" "\<And>l. l \<in> set ls \<Longrightarrow> clean l \<and> l \<noteq> []" "distinct (map fst fw)"
    "fs ''kento-port'' = Some (unlines ls)"
  shows "load_forwards fs = Inr fw"
proof (cases "ls = []")
  case True
  with assms show ?thesis by (simp add: load_forwards_def read_meta_def file_text_def unlines_def)
next
  case False
  then have "unlines ls = unlines (butlast ls @ [last ls])" by simp
  then have "unlines ls = py_join [LF] ls @ [LF]" unfolding join_unlines [OF False] unlines_append by (simp add: unlines_def)
  with clean_lines [OF False assms(2)] assms(4) have "read_meta fs ''kento-port'' = Some (file_text (unlines ls))"
      "py_splitlines (file_text (unlines ls)) = ls" "file_text (unlines ls) \<noteq> []" by (simp_all add: read_meta_def)
  with load_lines [OF assms(1,2), of "[]"] assms(3) show ?thesis by (simp add: load_forwards_def)
qed

text \<open>What a change of the ports alone leaves in \<^verbatim>\<open>kento-port\<close>.\<close>

definition slirp_lost :: "string \<Rightarrow> ident \<Rightarrow> bool" where
  "slirp_lost mode new \<longleftrightarrow> (mode = ''vm'' \<or> mode = ''pve-vm'') \<and> id_type new \<noteq> Some ''usermode''"

lemma apply_port_file:
  assumes "mode \<in> set [''lxc'', ''pve'', ''vm'', ''pve-vm'']" "a = no_args\<lparr>sa_port := Some specs\<rparr>"
    "apply_mode cdir mode a None (Some nd) s = (Inr (), s')"
    "apply_port_meta (nd_port nd) (nd_action nd) (i_files s) = Inr fs"
  shows "i_files s' ''kento-port'' = (if slirp_lost mode (nd_new nd) then None else fs ''kento-port'')"
proof -
  note d = apply_mode_def classify_list_def apply_passthrough_meta_def write_num_def Let_def no_args_def slirp_lost_def
    persist_files dropins_files
  from assms(1) consider "mode = ''lxc''" | "mode = ''pve''" | "mode = ''vm''" | "mode = ''pve-vm''" by auto
  then show ?thesis
  proof cases
    case 1
    with assms(2-) show ?thesis by (auto simp: apply_lxc_def d)
  next
    case 2
    with assms(2-) show ?thesis by (auto simp: apply_pve_lxc_def d split: sum.splits)
  next
    case 3
    with assms(2-) show ?thesis by (auto simp: apply_vm_def d)
  next
    case 4
    with assms(2-) show ?thesis
      by (auto simp: apply_pve_vm_def apply_vm_net_def regenerate_args_def d split: sum.splits prod.splits)
  qed
qed

text \<open>
  Setting the forwards of a stopped instance succeeds only for specifications that parse,
  and loading the instance again then gives exactly the forwards they stand for, in order.
  The exception is a VM without user-mode networking: there the call reports success too, and
  the forwards are gone.
\<close>
theorem set_forwards_reads_back:
  assumes "set_cmd True False cpus cdir mode (no_args\<lparr>sa_port := Some specs\<rparr>) s = (Inr (), s')"
    "nonempty specs \<noteq> []" "mode \<in> set [''lxc'', ''pve'', ''vm'', ''pve-vm'']"
  shows "\<exists>fw. parse_forwards (nonempty specs) = Inr fw \<and> fw \<noteq> [] \<and>
    load_forwards (i_files s') = Inr (if slirp_lost mode (resolve_net_identity s mode) then [] else fw)"
proof (cases rule: set_cmd_cases [of True False cpus cdir mode "no_args\<lparr>sa_port := Some specs\<rparr>" s])
  case (rejected e)
  with assms(1) show ?thesis by simp
next
  case (applied cores delta)
  let ?a = "no_args\<lparr>sa_port := Some specs\<rparr>"
  have "net_provided ?a" by (simp add: net_provided_def)
  then obtain nd where nd: "delta = Some nd" "resolve_delta s mode ?a = Inr (Some nd)"
    using applied(6) resolve_delta_none [of s mode ?a] by (cases delta) auto
  have rep: "nd_action nd = Replace" "nd_port nd = Some specs"
    using resolve_delta_Inr(3,4) [OF nd(2)] assms(2) by (auto simp: classify_list_def nonempty_def)
  obtain fw where fw: "parse_forwards (nonempty specs) = Inr fw" using resolve_delta_Inr(1) [OF nd(2) rep(1)] rep(2) by auto
  from rendered_again [OF fw] obtain ls where ls: "mapE (\<lambda>(b, t). render_forward_spec b t) fw = Inr ls"
    "mapE parse_forward_spec ls = Inr fw" "\<And>l. l \<in> set ls \<Longrightarrow> clean l \<and> l \<noteq> []" "distinct (map fst fw)" by metis
  have port: "apply_port_meta (nd_port nd) (nd_action nd) (i_files s) = Inr ((i_files s)(''kento-port'' \<mapsto> unlines ls))"
    using rep fw ls(1) by (simp add: apply_port_meta_def unlines_def)
  have "cores = None" using applied(5) by (simp add: clamp_cores_def no_args_def)
  with applied(7) assms(1) nd(1) have "apply_mode cdir mode ?a None (Some nd) s = (Inr (), s')" by simp
  from apply_port_file [OF assms(3) refl this port]
  have f: "i_files s' ''kento-port'' = (if slirp_lost mode (nd_new nd) then None else Some (unlines ls))" by simp
  have "fw \<noteq> []" using fw assms(2) by (cases "nonempty specs") (auto simp: parse_forwards_Inr)
  moreover have "load_forwards (i_files s') = Inr (if slirp_lost mode (nd_new nd) then [] else fw)"
  proof (cases "slirp_lost mode (nd_new nd)")
    case True
    with f show ?thesis by (simp add: load_forwards_def read_meta_def)
  next
    case False
    with f load_rendered [OF ls(2,3,4)] show ?thesis by simp
  qed
  ultimately show ?thesis using fw port_only_delta [OF nd(2)] by auto
qed

text \<open>A bridged PVE VM.\<close>

definition sample_bridged :: inst where
  "sample_bridged = \<lparr>i_dir = ''d'', i_files = [''kento-vmid'' \<mapsto> ''7'' @ [LF], ''kento-net-type'' \<mapsto> ''bridge'' @ [LF],
     ''kento-bridge'' \<mapsto> ''b'' @ [LF]], i_upper = Map.empty, i_confs = [''7'' \<mapsto> unlines [''memory: 8'', ''args: old'']]\<rparr>"

theorem set_forwards_reads_back_witness:
  "\<exists>s' fw. set_cmd True False None sample_dir ''pve-vm'' (no_args\<lparr>sa_port := Some [''10:20'']\<rparr>) sample_bridged = (Inr (), s') \<and>
     parse_forwards [''10:20''] = Inr fw \<and> fw \<noteq> [] \<and> load_forwards (i_files s') = Inr []"
proof -
  let ?r = "set_cmd True False None sample_dir ''pve-vm'' (no_args\<lparr>sa_port := Some [''10:20'']\<rparr>) sample_bridged"
  have "fst ?r = Inr ()" unfolding sample_bridged_def by code_simp
  then have r: "?r = (Inr (), snd ?r)" by (cases ?r) simp
  have n: "nonempty [''10:20''] = [''10:20'']" by (simp add: nonempty_def)
  have "slirp_lost ''pve-vm'' (resolve_net_identity sample_bridged ''pve-vm'')" unfolding sample_bridged_def by code_simp
  with set_forwards_reads_back [OF r] n r show ?thesis by auto
qed

section \<open>The platform of an instance\<close>

lemma allocated_slot:
  assumes "allocate v st r = Inr (s, st')"
  shows "pick_vmid v st r = Inr (s_vmid s)" "s_dir s = (if r_mode r = ''pve'' then int_str (s_vmid s) else s_name s)"
  using assms by (auto simp: allocate_def Let_def split: if_splits)

text \<open>VM ids given out under PVE are never below the floor the profile insists on.\<close>

lemma picked_above_floor:
  assumes "pick_vmid v st r = Inr n" "is_pve_mode (r_mode r)"
  shows "PVE_MID_FLOOR \<le> n"
proof -
  from assms have "n = next_vmid v st \<or> 100 \<le> n"
    by (auto simp: pick_vmid_def is_pve_mode_def validate_vmid_def split: if_splits)
  then show ?thesis using vmid_from_first [of "used_vmids v st"] by (auto simp: next_vmid_def PVE_MID_FLOOR_def)
qed

lemma passthrough_after:
  assumes "\<And>a. a \<in> set xs \<Longrightarrow> no_breaks a \<and> a \<noteq> []" "fs f = (if xs \<noteq> [] then Some (py_join [LF] xs @ [LF]) else None)"
  shows "load_passthrough fs f = xs"
proof (cases "xs = []")
  case True
  with assms(2) show ?thesis by (simp add: load_passthrough_def)
next
  case False
  have "py_join [LF] xs @ [LF] = unlines xs" using False join_LF by simp
  moreover have "CR \<notin> set (unlines xs)"
    using assms(1) clean_no_CR by (auto simp: unlines_def)
  ultimately have "read_lines (py_join [LF] xs @ [LF]) = xs"
    using splitlines_unlines [of xs] assms(1) by (simp add: read_lines_def univ_newlines_id)
  then show ?thesis using assms False by (simp add: load_passthrough_def filter_id_conv)
qed

lemma int_str_isdigit: "0 \<le> n \<Longrightarrow> py_isdigit (int_str n)"
  using nat_text [of "nat n"] by (simp add: int_str_def py_isdigit_def)

text \<open>
  C37. The platform of an instance created under PVE is the one that was asked for.  Whatever VM id the allocation
  gave out, what the creation of a container or of a virtual machine then recorded loads as a PVE
  profile under exactly that id, which is never below 100, with exactly the arguments given, in
  their order; so the profile's own check, which refuses ids below 100, never refuses it.
\<close>
theorem created_platform_loads:
  assumes "allocate v st r = Inr (s, st')" "s_vmid s < 10 ^ 18" "\<And>a. a \<in> set (c_pve_args c) \<Longrightarrow> no_breaks a \<and> a \<noteq> []"
    and "r_mode r = ''pve'' \<and> create_pve machine snippet_ref cdir s c Map.empty = Inr (fs, conf) \<or>
      r_mode r = ''pve-vm'' \<and> c_mode c = ''pve-vm'' \<and> create_pve_vm snippet_ref machine kvm cdir s c mem cores Map.empty = Inr (fs, conf)"
  shows "load_platform_profile (s_dir s) fs (r_mode r) =
      Inr \<lparr>pp_mode = PVE, pp_mid = Some (s_vmid s), pp_extra_args = c_pve_args c\<rparr> \<and> 100 \<le> s_vmid s"
proof -
  have pve: "is_pve_mode (r_mode r)" using assms(4) by (auto simp: is_pve_mode_def)
  have floor: "100 \<le> s_vmid s"
    using picked_above_floor [OF allocated_slot(1) [OF assms(1)] pve] by (simp add: PVE_MID_FLOOR_def)
  have int: "py_isdigit (int_str (s_vmid s))" "py_int (int_str (s_vmid s)) = Some (s_vmid s)"
    using int_str_isdigit int_text(2) [OF _ assms(2)] floor by simp_all
  have at: "(if r_mode r = ''pve-vm'' then read_meta fs ''kento-vmid'' else Some (s_dir s)) = Some (int_str (s_vmid s)) \<and>
    fs ''kento-pve-args'' = (if c_pve_args c \<noteq> [] then Some (py_join [LF] (c_pve_args c) @ [LF]) else None)"
    using assms(4)
  proof (elim disjE conjE)
    assume m: "r_mode r = ''pve''" and "create_pve machine snippet_ref cdir s c Map.empty = Inr (fs, conf)"
    then have "f \<noteq> ''kento-idmap-range'' \<Longrightarrow> fs f = lxc_files (s_name s) c f" for f
      by (auto simp: create_pve_def lxc_files_def Let_def split: if_splits)
    then have "fs ''kento-pve-args'' = lxc_files (s_name s) c ''kento-pve-args''" by simp
    then show ?thesis using m allocated_slot(2) [OF assms(1)]
      by (simp add: lxc_files_def do_writes_wrote common_writes_def lxc_writes_def cong: if_cong split del: if_split)
  next
    assume m: "r_mode r = ''pve-vm''" "c_mode c = ''pve-vm''"
      and "create_pve_vm snippet_ref machine kvm cdir s c mem cores Map.empty = Inr (fs, conf)"
    then have fs: "fs = vm_files (s_name s) c (s_vmid s) mem cores" by (auto simp: create_pve_vm_def vm_files_def Let_def)
    have "read_meta fs ''kento-vmid'' = Some (int_str (s_vmid s))"
      unfolding fs by (rule meta_after) (rule vm_files_at(7) [OF m(2)], rule clean_int, use floor assms(2) in simp_all)
    moreover have "fs ''kento-pve-args'' = (if c_pve_args c \<noteq> [] then Some (py_join [LF] (c_pve_args c) @ [LF]) else None)"
      by (simp add: fs vm_files_def do_writes_wrote common_writes_def vm_writes_def cong: if_cong split del: if_split)
    ultimately show ?thesis using m by simp
  qed
  have args: "load_passthrough fs ''kento-pve-args'' = c_pve_args c"
    by (rule passthrough_after [OF assms(3)]) (use at in simp_all)
  show ?thesis using pve floor int at args
    by (simp add: load_platform_profile_def make_profile_def Let_def PVE_MID_FLOOR_def)
qed

definition sample_ask :: request where
  "sample_ask = \<lparr>r_name = Some ''web'', r_image = ''web'', r_mode = ''pve'', r_vmid = 0, r_force = False\<rparr>"

theorem created_platform_loads_witness:
  "\<exists>s fs conf. create_pve ''x86_64'' (\<lambda>n. ''local:'' @ int_str n) sample_dir s ((sample_opts ''pve'')\<lparr>c_pve_args := [''--tags'', ''a'']\<rparr>) Map.empty =
      Inr (fs, conf) \<and> load_platform_profile (s_dir s) fs ''pve'' =
      Inr \<lparr>pp_mode = PVE, pp_mid = Some 100, pp_extra_args = [''--tags'', ''a'']\<rparr>"
proof -
  let ?c = "(sample_opts ''pve'')\<lparr>c_pve_args := [''--tags'', ''a'']\<rparr>"
  let ?s = "\<lparr>s_name = ''web'', s_vmid = 100, s_base = LXC_BASE, s_dir = ''100''\<rparr>"
  have "case allocate \<lparr>vmlist = None, lxc_stems = [], qemu_stems = []\<rparr> \<lparr>lxc_base = Some [], vm_base = Some []\<rparr> sample_ask of
      Inl _ \<Rightarrow> False | Inr (s, _) \<Rightarrow> s = ?s" by code_simp
  then obtain st' where al: "allocate \<lparr>vmlist = None, lxc_stems = [], qemu_stems = []\<rparr> \<lparr>lxc_base = Some [], vm_base = Some []\<rparr> sample_ask = Inr (?s, st')"
    by (auto split: sum.splits)
  obtain fs conf where cr: "create_pve ''x86_64'' (\<lambda>n. ''local:'' @ int_str n) sample_dir ?s ?c Map.empty = Inr (fs, conf)"
    by (simp add: create_pve_def Let_def sample_opts_def)
  have args: "\<And>a. a \<in> set (c_pve_args ?c) \<Longrightarrow> no_breaks a \<and> a \<noteq> []"
    by (auto simp: no_breaks_def py_linebreak_def cp_def)
  have "r_mode sample_ask = ''pve''" by (simp add: sample_ask_def)
  with created_platform_loads [where c = ?c and machine = "''x86_64''" and snippet_ref = "\<lambda>n. ''local:'' @ int_str n"
      and cdir = sample_dir and fs = fs and conf = conf, OF al _ args] cr
  have "load_platform_profile (s_dir ?s) fs ''pve'' = Inr \<lparr>pp_mode = PVE, pp_mid = Some 100, pp_extra_args = [''--tags'', ''a'']\<rparr>"
    by simp
  with cr show ?thesis by blast
qed

section \<open>The status of an instance\<close>

text \<open>
  The status agrees with the search for orphans: for the same answers of the probes an
  instance is reported as \<^verbatim>\<open>ORPHAN\<close> exactly when \<^verbatim>\<open>_is_orphan\<close> says that its configuration is gone,
  as \<^verbatim>\<open>UNKNOWN\<close> when it cannot tell, an error of that search is raised, and otherwise the liveness
  decides: an operating system or kento error of its probe is \<^verbatim>\<open>UNKNOWN\<close> too, and a suspended
  instance is never reported as such.
\<close>
theorem status_orphan_agree:
  "resolve_status ce run d fs mode =
     (case is_orphan ce d fs mode of
        Inl e \<Rightarrow> Inl e
      | Inr None \<Rightarrow> Inr UNKNOWN
      | Inr (Some gone) \<Rightarrow> (if gone then Inr ORPHAN
          else case run mode of
                 Inr b \<Rightarrow> Inr (if b then RUNNING else STOPPED)
               | Inl e \<Rightarrow> if OSErrorC \<in> set (mro e) \<or> is_kento e then Inr UNKNOWN else Inl e))"
proof (cases "is_pve_mode mode")
  case False
  then show ?thesis by (simp add: resolve_status_def is_orphan_def Let_def)
next
  case True
  then have v: "(if mode = ''pve-vm'' then read_meta fs ''kento-vmid'' else Some d) = orphan_vmid d fs mode"
    by (auto simp: orphan_vmid_def is_pve_mode_def)
  show ?thesis unfolding resolve_status_def is_orphan_def Let_def v using True
    by (cases "orphan_vmid d fs mode"; cases "ce (the (orphan_vmid d fs mode)) mode") (auto split: bool.splits)
qed

end
