(* ===== verification/Portfwd.thy ===== *)
theory Portfwd imports Reconfigure Snapshot begin

text \<open>
  The host side of a forward, \<^verbatim>\<open>portfwd.py\<close>: the rule commands of the two firewall backends and of
  the QEMU monitor, and the procedures that run them.  A command line is given to a \<^emph>\<open>tool\<close>, an
  argument of every procedure: it answers with an exit code and the text it prints, or raises,
  and changes the world it runs in.
\<close>

type_synonym 'w tool = "string list \<Rightarrow> 'w \<Rightarrow> (exc + int \<times> string) \<times> 'w"
type_synonym 'w effect = "(exc + unit) \<times> 'w"

section \<open>Comments and backends\<close>

definition NFT_TABLE :: "string list" where "NFT_TABLE = [''ip'', ''kento'']"
definition NFT_CHAINS :: "string list" where "NFT_CHAINS = [''prerouting'', ''output'', ''postrouting'']"
definition IPT_CHAINS :: "string list" where "IPT_CHAINS = [''PREROUTING'', ''OUTPUT'', ''POSTROUTING'']"

definition forward_comment :: "string \<Rightarrow> protocol \<Rightarrow> int \<Rightarrow> string" where
  "forward_comment name proto host_port = ''kento:'' @ name @ '':'' @ proto_value proto @ '':'' @ int_str host_port"

text \<open>\<^verbatim>\<open>shutil.which\<close> is an argument.\<close>

definition resolve_backend :: "(string \<Rightarrow> bool) \<Rightarrow> string option" where
  "resolve_backend which = (if which ''nft'' then Some ''nft'' else if which ''iptables'' then Some ''iptables'' else None)"

section \<open>The commands\<close>

definition destination :: "string \<Rightarrow> int \<Rightarrow> string" where
  "destination guest_ip guest_port = guest_ip @ '':'' @ int_str guest_port"

definition build_nft_install :: "string \<Rightarrow> protocol \<Rightarrow> int \<Rightarrow> int \<Rightarrow> string \<Rightarrow> string list list" where
  "build_nft_install guest_ip proto host_port guest_port name =
     (let comment = CHR 34 # forward_comment name proto host_port @ [CHR 34];
          dnat = [proto_value proto, ''dport'', int_str host_port, ''dnat'', ''to'', destination guest_ip guest_port,
                  ''comment'', comment]
      in [[''add'', ''rule''] @ NFT_TABLE @ [''prerouting''] @ dnat,
          [''add'', ''rule''] @ NFT_TABLE @ [''output''] @ dnat,
          [''add'', ''rule''] @ NFT_TABLE @ [''postrouting'', ''ip'', ''saddr'', ''127.0.0.0/8'', ''ip'', ''daddr'', guest_ip,
            proto_value proto, ''dport'', int_str guest_port, ''masquerade'', ''comment'', comment]])"

definition build_iptables_install :: "string \<Rightarrow> protocol \<Rightarrow> int \<Rightarrow> int \<Rightarrow> string \<Rightarrow> string list list" where
  "build_iptables_install guest_ip proto host_port guest_port name =
     (let comment = [''-m'', ''comment'', ''--comment'', forward_comment name proto host_port];
          dnat = [''-p'', proto_value proto, ''--dport'', int_str host_port, ''-j'', ''DNAT'', ''--to-destination'',
                  destination guest_ip guest_port]
      in [[''-t'', ''nat'', ''-A'', ''PREROUTING''] @ dnat @ comment,
          [''-t'', ''nat'', ''-A'', ''OUTPUT''] @ dnat @ comment,
          [''-t'', ''nat'', ''-A'', ''POSTROUTING'', ''-s'', ''127.0.0.0/8'', ''-d'', guest_ip, ''-p'', proto_value proto,
            ''--dport'', int_str guest_port, ''-j'', ''MASQUERADE''] @ comment])"

definition build_install :: "string \<Rightarrow> string \<Rightarrow> protocol \<Rightarrow> int \<Rightarrow> int \<Rightarrow> string \<Rightarrow> exc + string list list" where
  "build_install backend guest_ip proto host_port guest_port name =
     (if backend = ''nft'' then Inr (build_nft_install guest_ip proto host_port guest_port name)
      else if backend = ''iptables'' then Inr (build_iptables_install guest_ip proto host_port guest_port name)
      else Inl ValueErrorC)"

definition QMP_NETDEV :: string where "QMP_NETDEV = ''net0''"

definition build_hostfwd_add :: "protocol \<Rightarrow> int \<Rightarrow> int \<Rightarrow> string" where
  "build_hostfwd_add proto host_port guest_port =
     ''hostfwd_add '' @ QMP_NETDEV @ '' '' @ proto_value proto @ '':127.0.0.1:'' @ int_str host_port @ ''-:'' @ int_str guest_port"

definition build_hostfwd_remove :: "protocol \<Rightarrow> int \<Rightarrow> string" where
  "build_hostfwd_remove proto host_port =
     ''hostfwd_remove '' @ QMP_NETDEV @ '' '' @ proto_value proto @ '':127.0.0.1:'' @ int_str host_port"

section \<open>Running the commands\<close>

definition run_one :: "'w tool \<Rightarrow> string list \<Rightarrow> 'w \<Rightarrow> 'w effect" where
  "run_one tool argv w =
     (case tool argv w of
        (Inl e, w') \<Rightarrow> (Inl e, w')
      | (Inr (rc, _), w') \<Rightarrow> (if rc \<noteq> 0 then Inl SubprocessErrorC else Inr (), w'))"

fun run_each :: "'w tool \<Rightarrow> string list list \<Rightarrow> 'w \<Rightarrow> 'w effect" where
  "run_each tool [] w = (Inr (), w)"
| "run_each tool (argv # rest) w =
     (case run_one tool argv w of (Inl e, w') \<Rightarrow> (Inl e, w') | (Inr _, w') \<Rightarrow> run_each tool rest w')"

text \<open>The bootstrap of the table ignores the exit codes.\<close>

definition nft_chain_text :: "string \<Rightarrow> string \<Rightarrow> string" where
  "nft_chain_text hook priority = ''{ type nat hook '' @ hook @ '' priority '' @ priority @ ''; policy accept; }''"

definition NFT_BOOTSTRAP :: "string list list" where
  "NFT_BOOTSTRAP = [[''add'', ''table'', ''ip'', ''kento''],
     [''add'', ''chain'', ''ip'', ''kento'', ''prerouting'', nft_chain_text ''prerouting'' ''dstnat''],
     [''add'', ''chain'', ''ip'', ''kento'', ''output'', nft_chain_text ''output'' ''dstnat''],
     [''add'', ''chain'', ''ip'', ''kento'', ''postrouting'', nft_chain_text ''postrouting'' ''srcnat'']]"

fun run_ignoring :: "'w tool \<Rightarrow> string list list \<Rightarrow> 'w \<Rightarrow> 'w effect" where
  "run_ignoring tool [] w = (Inr (), w)"
| "run_ignoring tool (argv # rest) w =
     (case tool argv w of (Inl e, w') \<Rightarrow> (Inl e, w') | (Inr _, w') \<Rightarrow> run_ignoring tool rest w')"

definition ensure_nft_table :: "'w tool \<Rightarrow> 'w \<Rightarrow> 'w effect" where
  "ensure_nft_table tool w = run_ignoring tool (map (\<lambda>argv. ''nft'' # argv) NFT_BOOTSTRAP) w"

definition run_install :: "'w tool \<Rightarrow> string \<Rightarrow> string \<Rightarrow> protocol \<Rightarrow> int \<Rightarrow> int \<Rightarrow> string \<Rightarrow> 'w \<Rightarrow> 'w effect" where
  "run_install tool backend guest_ip proto host_port guest_port name w =
     (case (if backend = ''nft'' then ensure_nft_table tool w else (Inr (), w)) of
        (Inl e, w') \<Rightarrow> (Inl e, w')
      | (Inr _, w') \<Rightarrow>
         (case build_install backend guest_ip proto host_port guest_port name of
            Inl e \<Rightarrow> (Inl e, w')
          | Inr argvs \<Rightarrow> run_each tool (map (\<lambda>argv. backend # argv) argvs) w'))"

section \<open>Removal\<close>

definition nft_handle :: "string \<Rightarrow> string \<Rightarrow> string option" where
  "nft_handle needle line =
     (if \<not> py_in needle line then None
      else let tokens = py_words line
           in if length tokens \<ge> 2 \<and> tokens ! (length tokens - 2) = ''handle'' then Some (last tokens) else None)"

fun nft_delete_lines :: "'w tool \<Rightarrow> string \<Rightarrow> string \<Rightarrow> string list \<Rightarrow> 'w \<Rightarrow> 'w effect" where
  "nft_delete_lines tool needle ch [] w = (Inr (), w)"
| "nft_delete_lines tool needle ch (line # ls) w =
     (case nft_handle needle line of
        None \<Rightarrow> nft_delete_lines tool needle ch ls w
      | Some handle \<Rightarrow>
         (case tool [''nft'', ''delete'', ''rule'', ''ip'', ''kento'', ch, ''handle'', handle] w of
            (Inl e, w') \<Rightarrow> (Inl e, w')
          | (Inr _, w') \<Rightarrow> nft_delete_lines tool needle ch ls w'))"

fun nft_remove_chains :: "'w tool \<Rightarrow> string \<Rightarrow> string list \<Rightarrow> 'w \<Rightarrow> 'w effect" where
  "nft_remove_chains tool needle [] w = (Inr (), w)"
| "nft_remove_chains tool needle (ch # chs) w =
     (case tool [''nft'', ''-a'', ''list'', ''chain'', ''ip'', ''kento'', ch] w of
        (Inl e, w') \<Rightarrow> (Inl e, w')
      | (Inr (rc, out), w') \<Rightarrow>
         (if rc \<noteq> 0 then nft_remove_chains tool needle chs w'
          else case nft_delete_lines tool needle ch (py_splitlines out) w' of
                 (Inl e, w2) \<Rightarrow> (Inl e, w2)
               | (Inr _, w2) \<Rightarrow> nft_remove_chains tool needle chs w2))"

definition nft_remove_by_comment :: "'w tool \<Rightarrow> string \<Rightarrow> 'w \<Rightarrow> 'w effect" where
  "nft_remove_by_comment tool comment w =
     nft_remove_chains tool (''comment '' @ [CHR 34] @ comment @ [CHR 34]) NFT_CHAINS w"

text \<open>The number of the first row of a listing that carries the comment.\<close>

definition row_matches :: "string \<Rightarrow> string \<Rightarrow> bool" where
  "row_matches comment line \<longleftrightarrow> py_in (''/* '' @ comment @ '' */'') line \<or> py_in ('' '' @ comment @ '' '') ('' '' @ line @ '' '')"

fun find_row :: "string \<Rightarrow> string list \<Rightarrow> string option" where
  "find_row comment [] = None"
| "find_row comment (line # ls) =
     (if row_matches comment line \<and> py_words line \<noteq> [] \<and> py_isdigit (hd (py_words line))
      then Some (hd (py_words line)) else find_row comment ls)"

definition ipt_list :: "string \<Rightarrow> string list" where
  "ipt_list ch = [''iptables'', ''-t'', ''nat'', ''-L'', ch, ''--line-numbers'', ''-n'']"

definition ipt_delete :: "string \<Rightarrow> string \<Rightarrow> string list" where
  "ipt_delete ch num = [''iptables'', ''-t'', ''nat'', ''-D'', ch, num]"

text \<open>The deletion loop of a chain; that it may not end is the value \<^term>\<open>None\<close>.\<close>

partial_function (option) ipt_chain :: "'w tool \<Rightarrow> string \<Rightarrow> string \<Rightarrow> 'w \<Rightarrow> 'w effect option" where
  "ipt_chain tool comment ch w =
     (case tool (ipt_list ch) w of
        (Inl e, w1) \<Rightarrow> Some (Inl e, w1)
      | (Inr (rc, out), w1) \<Rightarrow>
         (if rc \<noteq> 0 then Some (Inr (), w1)
          else case find_row comment (py_splitlines out) of
                 None \<Rightarrow> Some (Inr (), w1)
               | Some num \<Rightarrow>
                  (case tool (ipt_delete ch num) w1 of
                     (Inl e, w2) \<Rightarrow> Some (Inl e, w2)
                   | (Inr (rc2, _), w2) \<Rightarrow> if rc2 \<noteq> 0 then Some (Inr (), w2) else ipt_chain tool comment ch w2)))"

fun ipt_chains :: "'w tool \<Rightarrow> string \<Rightarrow> string list \<Rightarrow> 'w \<Rightarrow> 'w effect option" where
  "ipt_chains tool comment [] w = Some (Inr (), w)"
| "ipt_chains tool comment (ch # chs) w =
     (case ipt_chain tool comment ch w of
        None \<Rightarrow> None
      | Some (Inl e, w') \<Rightarrow> Some (Inl e, w')
      | Some (Inr _, w') \<Rightarrow> ipt_chains tool comment chs w')"

definition iptables_remove_by_comment :: "'w tool \<Rightarrow> string \<Rightarrow> 'w \<Rightarrow> 'w effect option" where
  "iptables_remove_by_comment tool comment w = ipt_chains tool comment IPT_CHAINS w"

definition run_remove :: "'w tool \<Rightarrow> string \<Rightarrow> protocol \<Rightarrow> int \<Rightarrow> string \<Rightarrow> 'w \<Rightarrow> 'w effect option" where
  "run_remove tool backend proto host_port name w =
     (let comment = forward_comment name proto host_port
      in if backend = ''nft'' then Some (nft_remove_by_comment tool comment w)
         else iptables_remove_by_comment tool comment w)"

section \<open>The monitor of a VM\<close>

text \<open>
  \<^verbatim>\<open>qmp_hmp\<close> gives the text a command returns or raises; an operating system error and a value
  error become a subprocess error, and so does any text that comes back.
\<close>

type_synonym 'w monitor = "string \<Rightarrow> 'w \<Rightarrow> (exc + string) \<times> 'w"

definition vm_hostfwd :: "'w monitor \<Rightarrow> string \<Rightarrow> 'w \<Rightarrow> 'w effect" where
  "vm_hostfwd monitor cmd w =
     (case monitor cmd w of
        (Inl e, w') \<Rightarrow> (Inl (if OSErrorC \<in> set (mro e) \<or> ValueErrorC \<in> set (mro e) then SubprocessErrorC else e), w')
      | (Inr out, w') \<Rightarrow> (if out \<noteq> [] then Inl SubprocessErrorC else Inr (), w'))"

definition vm_hostfwd_add :: "'w monitor \<Rightarrow> protocol \<Rightarrow> int \<Rightarrow> int \<Rightarrow> 'w \<Rightarrow> 'w effect" where
  "vm_hostfwd_add monitor proto host_port guest_port w = vm_hostfwd monitor (build_hostfwd_add proto host_port guest_port) w"

definition vm_hostfwd_remove :: "'w monitor \<Rightarrow> protocol \<Rightarrow> int \<Rightarrow> 'w \<Rightarrow> 'w effect" where
  "vm_hostfwd_remove monitor proto host_port w = vm_hostfwd monitor (build_hostfwd_remove proto host_port) w"

section \<open>The comment of a forward\<close>

lemma name_no_colon: "validate_name n = Inr () \<Longrightarrow> CHR '':'' \<notin> set n"
proof -
  have "\<not> name_char (CHR '':'')"
    by (simp add: name_char_def is_word_def is_alnum_def is_alpha_def is_lower_def is_upper_def is_digit_def cp_def)
  then show "validate_name n = Inr () \<Longrightarrow> CHR '':'' \<notin> set n" by (auto simp: validate_name_iff)
qed

lemma colon_split: "CHR '':'' \<notin> set a \<Longrightarrow> CHR '':'' \<notin> set b \<Longrightarrow> a @ CHR '':'' # x = b @ CHR '':'' # y \<longleftrightarrow> a = b \<and> x = y"
proof
  assume a: "CHR '':'' \<notin> set a" "CHR '':'' \<notin> set b"
  note p = py_partition_at [OF a(1)] py_partition_at [OF a(2)]
  assume "a @ CHR '':'' # x = b @ CHR '':'' # y"
  from arg_cong [OF this, of "py_partition (CHR '':'')"] have "(a, True, x) = (b, True, y)" unfolding p .
  then show "a = b \<and> x = y" by simp
qed blast

lemma proto_value_inj: "proto_value p = proto_value q \<longleftrightarrow> p = q"
  by (cases p; cases q) simp_all

lemma proto_no_colon: "CHR '':'' \<notin> set (proto_value p)"
  by (cases p) simp_all

lemma port_text_inj: "PORT_MIN \<le> h \<Longrightarrow> h \<le> PORT_MAX \<Longrightarrow> PORT_MIN \<le> k \<Longrightarrow> k \<le> PORT_MAX \<Longrightarrow> int_str h = int_str k \<longleftrightarrow> h = k"
proof -
  assume "PORT_MIN \<le> h" "h \<le> PORT_MAX" "PORT_MIN \<le> k" "k \<le> PORT_MAX"
  then have "py_int (int_str h) = Some h" "py_int (int_str k) = Some k"
    by (intro int_text(2); simp add: PORT_MIN_def PORT_MAX_def)+
  then show ?thesis by (metis option.inject)
qed

text \<open>
  The comment identifies a forward: two forwards of validly named instances carry the same
  comment only when they are the same forward of the same instance, and the prefix
  \<^verbatim>\<open>kento:NAME:\<close> the teardown matches is a prefix of a comment exactly when the forward belongs
  to that instance, so neither a live removal nor a teardown touches another instance's rules.
\<close>
theorem forward_comment_unique:
  assumes "validate_name n = Inr ()" "validate_name m = Inr ()"
    "PORT_MIN \<le> h" "h \<le> PORT_MAX" "PORT_MIN \<le> k" "k \<le> PORT_MAX"
  shows "(forward_comment n p h = forward_comment m q k \<longleftrightarrow> n = m \<and> p = q \<and> h = k) \<and>
    (prefix (''kento:'' @ n @ '':'') (forward_comment m q k) \<longleftrightarrow> n = m)"
proof
  note c = colon_split [OF name_no_colon [OF assms(1)] name_no_colon [OF assms(2)]]
  show "forward_comment n p h = forward_comment m q k \<longleftrightarrow> n = m \<and> p = q \<and> h = k"
    using c colon_split [OF proto_no_colon proto_no_colon] port_text_inj [OF assms(3-6)]
    by (simp add: forward_comment_def proto_value_inj)
  have "prefix (n @ '':'') (m @ '':'' @ x) \<longleftrightarrow> n = m" for x
    using c [of "_" x] by (auto simp: prefix_def dest: sym)
  then show "prefix (''kento:'' @ n @ '':'') (forward_comment m q k) \<longleftrightarrow> n = m"
    by (simp add: forward_comment_def)
qed

theorem forward_comment_unique_witness:
  "forward_comment ''web'' TCP 80 \<noteq> forward_comment ''web2'' TCP 80 \<and>
   \<not> prefix ''kento:web:'' (forward_comment ''web2'' TCP 80)"
proof -
  have v: "validate_name ''web'' = Inr ()" "validate_name ''web2'' = Inr ()" by code_simp+
  have "PORT_MIN \<le> 80" "80 \<le> PORT_MAX" by (simp_all add: PORT_MIN_def PORT_MAX_def)
  from forward_comment_unique [OF v this this, of TCP TCP] show ?thesis by simp
qed

section \<open>Live and boot-time forwards of a VM\<close>

text \<open>
  The monitor command that adds a forward to a running VM carries exactly the fragment the
  next boot generates for the forward recorded in \<^verbatim>\<open>kento-port\<close>, and the one that removes it
  names the same protocol, address and host port.
\<close>
theorem live_forward_as_at_boot:
  assumes "valid_forward ((p, None, h), (None, g))"
  shows "\<exists>s. render_forward_spec (p, None, h) (None, g) = Inr s \<and>
    (\<exists>f rest. hostfwd_fragment s = Inr f \<and> build_hostfwd_add p h g = ''hostfwd_add net0 '' @ f \<and>
       ''hostfwd_remove net0 '' @ f = build_hostfwd_remove p h @ ''-:'' @ rest \<and> rest = int_str g)"
proof -
  from fwd.render_total [OF assms] obtain s where s: "render_forward_spec (p, None, h) (None, g) = Inr s" by auto
  with fwd.parse_render [OF assms] have "parse_forward_spec s = Inr ((p, None, h), (None, g))" by simp
  with s show ?thesis by (simp add: hostfwd_fragment_def build_hostfwd_add_def build_hostfwd_remove_def QMP_NETDEV_def)
qed

theorem live_forward_as_at_boot_witness:
  "build_hostfwd_add UDP 7 9 = ''hostfwd_add net0 udp:127.0.0.1:7-:9'' \<and>
   (\<exists>s. render_forward_spec (UDP, None, 7) (None, 9) = Inr s \<and> hostfwd_fragment s = Inr ''udp:127.0.0.1:7-:9'')"
proof -
  have "valid_forward ((UDP, None, 7), (None, 9))" by (simp add: valid_forward_def PORT_MIN_def PORT_MAX_def)
  from live_forward_as_at_boot [OF this] have a: "\<exists>s f. render_forward_spec (UDP, None, 7) (None, 9) = Inr s \<and>
    hostfwd_fragment s = Inr f \<and> build_hostfwd_add UDP 7 9 = ''hostfwd_add net0 '' @ f" by blast
  have b: "build_hostfwd_add UDP 7 9 = ''hostfwd_add net0 udp:127.0.0.1:7-:9''"
    by code_simp
  with a show ?thesis by auto
qed

section \<open>The removal loop of iptables\<close>

text \<open>
  What the loop relies on: a listing changes nothing, and deleting the number of a printed row
  that carries the comment succeeds, leaves one rule less in the chain, and does not change
  what the other chains list.
\<close>

definition listed :: "'w tool \<Rightarrow> string \<Rightarrow> string \<Rightarrow> 'w \<Rightarrow> string option" where
  "listed tool comment ch w =
     (case fst (tool (ipt_list ch) w) of Inr (rc, out) \<Rightarrow> if rc = 0 then find_row comment (py_splitlines out) else None
      | Inl _ \<Rightarrow> None)"

definition obeys_iptables :: "'w tool \<Rightarrow> (string \<Rightarrow> 'w \<Rightarrow> nat) \<Rightarrow> string \<Rightarrow> bool" where
  "obeys_iptables tool rules comment \<longleftrightarrow>
     (\<forall>ch w. \<exists>r. tool (ipt_list ch) w = (Inr r, w)) \<and>
     (\<forall>ch w num. listed tool comment ch w = Some num \<longrightarrow>
        (\<exists>out w'. tool (ipt_delete ch num) w = (Inr (0, out), w') \<and> rules ch w' < rules ch w \<and>
           (\<forall>ch'. ch' \<noteq> ch \<longrightarrow> fst (tool (ipt_list ch') w') = fst (tool (ipt_list ch') w))))"

lemma ipt_chain_ends:
  assumes "obeys_iptables tool rules comment"
  shows "\<exists>w'. ipt_chain tool comment ch w = Some (Inr (), w') \<and> listed tool comment ch w' = None \<and>
    (\<forall>ch'. ch' \<noteq> ch \<longrightarrow> fst (tool (ipt_list ch') w') = fst (tool (ipt_list ch') w))"
proof (induction "rules ch w" arbitrary: w rule: less_induct)
  case less
  from assms obtain a where "tool (ipt_list ch) w = (Inr a, w)" unfolding obeys_iptables_def by blast
  then obtain rc out where r: "tool (ipt_list ch) w = (Inr (rc, out), w)" by (metis surj_pair)
  show ?case
  proof (cases "listed tool comment ch w")
    case None
    with r have "ipt_chain tool comment ch w = Some (Inr (), w)"
      by (subst ipt_chain.simps) (auto simp: listed_def split: option.splits)
    with None show ?thesis by blast
  next
    case (Some num)
    with assms obtain o2 w2 where d: "tool (ipt_delete ch num) w = (Inr (0, o2), w2)" "rules ch w2 < rules ch w"
        "\<forall>ch'. ch' \<noteq> ch \<longrightarrow> fst (tool (ipt_list ch') w2) = fst (tool (ipt_list ch') w)"
      unfolding obeys_iptables_def by blast
    from r Some have "rc = 0" "find_row comment (py_splitlines out) = Some num" by (auto simp: listed_def split: if_splits)
    with r d(1) have "ipt_chain tool comment ch w = ipt_chain tool comment ch w2" by (subst ipt_chain.simps) simp
    with less [OF d(2)] d(3) show ?thesis by metis
  qed
qed

lemma ipt_chains_end:
  assumes "obeys_iptables tool rules comment" "distinct chs"
  shows "\<exists>w'. ipt_chains tool comment chs w = Some (Inr (), w') \<and> (\<forall>ch \<in> set chs. listed tool comment ch w' = None) \<and>
    (\<forall>ch'. ch' \<notin> set chs \<longrightarrow> fst (tool (ipt_list ch') w') = fst (tool (ipt_list ch') w))"
  using assms(2)
proof (induction chs arbitrary: w)
  case (Cons ch chs)
  from ipt_chain_ends [OF assms(1), of ch w] obtain w1 where w1: "ipt_chain tool comment ch w = Some (Inr (), w1)"
    "listed tool comment ch w1 = None" "\<forall>ch'. ch' \<noteq> ch \<longrightarrow> fst (tool (ipt_list ch') w1) = fst (tool (ipt_list ch') w)" by blast
  from Cons.prems have "distinct chs" by simp
  from Cons.IH [OF this, of w1] obtain w2 where w2: "ipt_chains tool comment chs w1 = Some (Inr (), w2)" "\<forall>ch \<in> set chs. listed tool comment ch w2 = None"
    "\<forall>ch'. ch' \<notin> set chs \<longrightarrow> fst (tool (ipt_list ch') w2) = fst (tool (ipt_list ch') w1)" by blast
  have "listed tool comment ch w2 = listed tool comment ch w1" using w2(3) Cons.prems by (simp add: listed_def)
  with w1 w2 show ?case by (intro exI [of _ w2]) auto
qed simp

text \<open>
  With the iptables backend the removal of a forward always comes to its end, and then no
  chain lists a rule with the comment of that forward.
\<close>
theorem iptables_removal_ends:
  assumes "obeys_iptables tool rules (forward_comment name proto host_port)" "backend \<noteq> ''nft''"
  shows "\<exists>w'. run_remove tool backend proto host_port name w = Some (Inr (), w') \<and>
    (\<forall>ch \<in> set IPT_CHAINS. listed tool (forward_comment name proto host_port) ch w' = None)"
proof -
  have "distinct IPT_CHAINS" by (simp add: IPT_CHAINS_def)
  from ipt_chains_end [OF assms(1) this, of w] assms(2) show ?thesis
    by (auto simp: run_remove_def iptables_remove_by_comment_def)
qed

text \<open>A firewall that holds some rules of one forward in each chain and prints one numbered row each.\<close>

definition sample_row :: "nat \<Rightarrow> string" where
  "sample_row i = nat_str (Suc i) @ '' DNAT tcp /* kento:web:tcp:7 */''"

definition sample_tool :: "(string \<Rightarrow> nat) tool" where
  "sample_tool argv w =
     (if length argv = 7 then (Inr (0, unlines (map sample_row [0..<w (argv ! 4)])), w)
      else (Inr (0, []), w(argv ! 4 := w (argv ! 4) - 1)))"

lemma sample_row_breaks: "no_breaks (sample_row i)"
proof -
  have "no_breaks (nat_str (Suc i))" using int_str_no_breaks [of "int (Suc i)"] by (simp add: int_str_def del: of_nat_Suc)
  moreover have "no_breaks '' DNAT tcp /* kento:web:tcp:7 */''" by code_simp
  ultimately show ?thesis by (simp add: sample_row_def no_breaks_def ball_Un)
qed

lemma sample_listed: "listed sample_tool ''kento:web:tcp:7'' ch w = (if w ch = 0 then None else Some ''1'')"
proof -
  have "sample_row 0 = ''1 DNAT tcp /* kento:web:tcp:7 */''" by code_simp
  moreover have "row_matches ''kento:web:tcp:7'' ''1 DNAT tcp /* kento:web:tcp:7 */''" by code_simp
  moreover have "py_words ''1 DNAT tcp /* kento:web:tcp:7 */'' = [''1'', ''DNAT'', ''tcp'', ''/*'', ''kento:web:tcp:7'', ''*/'']" by code_simp
  moreover have "py_isdigit ''1''" by code_simp
  ultimately have "find_row ''kento:web:tcp:7'' (map sample_row [0..<n]) = (if n = 0 then None else Some ''1'')" for n
    by (cases n) (simp_all add: upt_conv_Cons del: upt_Suc)
  moreover have "py_splitlines (unlines (map sample_row xs)) = map sample_row xs" for xs
    by (rule splitlines_unlines) (auto simp: sample_row_breaks)
  ultimately show ?thesis by (simp add: listed_def sample_tool_def ipt_list_def)
qed

theorem iptables_removal_ends_witness:
  "\<exists>w'. run_remove sample_tool ''iptables'' TCP 7 ''web'' (\<lambda>_. 2) = Some (Inr (), w') \<and>
     listed sample_tool ''kento:web:tcp:7'' ''OUTPUT'' w' = None \<and>
     listed sample_tool ''kento:web:tcp:7'' ''OUTPUT'' (\<lambda>_. 2) = Some ''1''"
proof -
  have c: "forward_comment ''web'' TCP 7 = ''kento:web:tcp:7''" by code_simp
  have "obeys_iptables sample_tool (\<lambda>ch w. w ch) ''kento:web:tcp:7''"
    unfolding obeys_iptables_def sample_listed by (simp add: sample_tool_def ipt_list_def ipt_delete_def)
  then have "obeys_iptables sample_tool (\<lambda>ch w. w ch) (forward_comment ''web'' TCP 7)" unfolding c .
  from iptables_removal_ends [OF this, of "''iptables''" "\<lambda>_. 2"] obtain w' where
    w: "run_remove sample_tool ''iptables'' TCP 7 ''web'' (\<lambda>_. 2) = Some (Inr (), w')"
    "\<forall>ch \<in> set IPT_CHAINS. listed sample_tool ''kento:web:tcp:7'' ch w' = None" unfolding c by auto
  have "''OUTPUT'' \<in> set IPT_CHAINS" by (simp add: IPT_CHAINS_def)
  moreover have "listed sample_tool ''kento:web:tcp:7'' ''OUTPUT'' (\<lambda>_. 2) = Some ''1''" unfolding sample_listed by simp
  ultimately show ?thesis using w by blast
qed

end
