(* ===== verification/Effects.thy ===== *)
theory Effects imports Complex_Main Portfwd begin

text \<open>
  Programs that act on a world, may raise, and may not return: the shape of every procedure that
  runs commands, signals processes or waits.  A loop without a bound of its own is a recursion
  over \<^typ>\<open>'a option\<close>, so that not returning is a value, and that it returns is a theorem.
\<close>

type_synonym ('a, 'w) prog = "'w \<Rightarrow> ((exc + 'a) \<times> 'w) option"

definition give :: "'a \<Rightarrow> ('a, 'w) prog" where "give x w = Some (Inr x, w)"
definition raise_exc :: "exc \<Rightarrow> ('a, 'w) prog" where "raise_exc e w = Some (Inl e, w)"
definition look :: "('w \<Rightarrow> 'a) \<Rightarrow> ('a, 'w) prog" where "look f w = Some (Inr (f w), w)"
definition alter :: "('w \<Rightarrow> 'w) \<Rightarrow> (unit, 'w) prog" where "alter f w = Some (Inr (), f w)"
definition act :: "('w \<Rightarrow> (exc + 'a) \<times> 'w) \<Rightarrow> ('a, 'w) prog" where "act f w = Some (f w)"
definition pure_res :: "exc + 'a \<Rightarrow> ('a, 'w) prog" where "pure_res r w = Some (r, w)"

fun bindP :: "('a, 'w) prog \<Rightarrow> ('a \<Rightarrow> ('b, 'w) prog) \<Rightarrow> ('b, 'w) prog" where
  "bindP m k w = (case m w of
      None \<Rightarrow> None
    | Some (Inl e, w') \<Rightarrow> Some (Inl e, w')
    | Some (Inr x, w') \<Rightarrow> k x w')"

definition seqP :: "('a, 'w) prog \<Rightarrow> ('b, 'w) prog \<Rightarrow> ('b, 'w) prog" where
  "seqP m k = bindP m (\<lambda>_. k)"

definition whenP :: "bool \<Rightarrow> (unit, 'w) prog \<Rightarrow> (unit, 'w) prog" where
  "whenP b m = (if b then m else give ())"

text \<open>\<^verbatim>\<open>try ... except\<close>: the handler is given the exception, and passes on what it does not catch.\<close>

fun tryP :: "('a, 'w) prog \<Rightarrow> (exc \<Rightarrow> ('a, 'w) prog) \<Rightarrow> ('a, 'w) prog" where
  "tryP m h w = (case m w of
      None \<Rightarrow> None
    | Some (Inl e, w') \<Rightarrow> h e w'
    | Some (Inr x, w') \<Rightarrow> Some (Inr x, w'))"

declare bindP.simps [simp del] tryP.simps [simp del]

definition catches :: "exc list \<Rightarrow> exc \<Rightarrow> bool" where
  "catches cs e \<longleftrightarrow> (\<exists>c \<in> set cs. c \<in> set (mro e))"

definition exceptP :: "exc list \<Rightarrow> ('a, 'w) prog \<Rightarrow> ('a, 'w) prog \<Rightarrow> ('a, 'w) prog" where
  "exceptP cs m h = tryP m (\<lambda>e. if catches cs e then h else raise_exc e)"

lemma prog_simps [simp]:
  "give x w = Some (Inr x, w)" "raise_exc e w = Some (Inl e, w)" "look f w = Some (Inr (f w), w)"
  "alter g w = Some (Inr (), g w)" "act h w = Some (h w)" "pure_res r w = Some (r, w)"
  "whenP True m = m" "whenP False m = give ()"
  by (simp_all add: give_def raise_exc_def look_def alter_def act_def pure_res_def whenP_def)

lemma bindP_step:
  "m w = Some (Inr x, w') \<Longrightarrow> bindP m k w = k x w'"
  "m w = Some (Inl e, w') \<Longrightarrow> bindP m k w = Some (Inl e, w')"
  "m w = Some (Inr x, w') \<Longrightarrow> seqP m n w = n w'"
  "m w = Some (Inl e, w') \<Longrightarrow> seqP m n w = Some (Inl e, w')"
  "m w = Some (Inr x, w') \<Longrightarrow> tryP m h w = Some (Inr x, w')"
  "m w = Some (Inl e, w') \<Longrightarrow> tryP m h w = h e w'"
  by (simp_all add: bindP.simps tryP.simps seqP_def)

text \<open>A program is run through its parts.\<close>

lemma bindP_Some:
  "bindP m k w = Some (r, w') \<longleftrightarrow>
     (\<exists>e. m w = Some (Inl e, w') \<and> r = Inl e) \<or> (\<exists>x w1. m w = Some (Inr x, w1) \<and> k x w1 = Some (r, w'))"
  by (auto simp: bindP.simps split: option.splits sum.splits)

lemma seqP_Some:
  "seqP m k w = Some (r, w') \<longleftrightarrow>
     (\<exists>e. m w = Some (Inl e, w') \<and> r = Inl e) \<or> (\<exists>x w1. m w = Some (Inr x, w1) \<and> k w1 = Some (r, w'))"
  by (simp add: seqP_def bindP_Some)

lemma tryP_Some:
  "tryP m h w = Some (r, w') \<longleftrightarrow>
     (\<exists>x. m w = Some (Inr x, w') \<and> r = Inr x) \<or> (\<exists>e w1. m w = Some (Inl e, w1) \<and> h e w1 = Some (r, w'))"
  by (auto simp: tryP.simps split: option.splits sum.splits)

text \<open>Programs that return from every world.\<close>

definition returns :: "('a, 'w) prog \<Rightarrow> bool" where
  "returns m \<longleftrightarrow> (\<forall>w. \<exists>r w'. m w = Some (r, w'))"

lemma returnsI: "(\<And>w. \<exists>r w'. m w = Some (r, w')) \<Longrightarrow> returns m" by (simp add: returns_def)
lemma returnsE: "returns m \<Longrightarrow> (\<And>r w'. m w = Some (r, w') \<Longrightarrow> thesis) \<Longrightarrow> thesis" by (auto simp: returns_def)

lemma returns_base [intro, simp]:
  "returns (give x)" "returns (raise_exc e)" "returns (look f)" "returns (alter g)" "returns (act h)" "returns (pure_res r)"
  by (auto simp: returns_def)

lemma returns_bindP [intro]: "returns m \<Longrightarrow> (\<And>x. returns (k x)) \<Longrightarrow> returns (bindP m k)"
  unfolding returns_def bindP.simps by (metis (mono_tags, lifting) old.sum.exhaust option.simps(5) prod.case sum.case)

lemma returns_seqP [intro]: "returns m \<Longrightarrow> returns n \<Longrightarrow> returns (seqP m n)"
  unfolding seqP_def by blast

lemma returns_tryP [intro]: "returns m \<Longrightarrow> (\<And>e. returns (h e)) \<Longrightarrow> returns (tryP m h)"
  unfolding returns_def tryP.simps by (metis (mono_tags, lifting) old.sum.exhaust option.simps(5) prod.case sum.case)

lemma returns_whenP [intro]: "returns m \<Longrightarrow> returns (whenP b m)"
  by (cases b) auto

lemma returns_exceptP [intro]: "returns m \<Longrightarrow> returns h \<Longrightarrow> returns (exceptP cs m h)"
  unfolding exceptP_def by (rule returns_tryP) auto

text \<open>Programs that keep a property of the world, whatever they answer.\<close>

definition keeps :: "('w \<Rightarrow> bool) \<Rightarrow> ('a, 'w) prog \<Rightarrow> bool" where
  "keeps P m \<longleftrightarrow> (\<forall>w r w'. P w \<longrightarrow> m w = Some (r, w') \<longrightarrow> P w')"

lemma keepsD: "keeps P m \<Longrightarrow> m w = Some (r, w') \<Longrightarrow> P w \<Longrightarrow> P w'" by (auto simp: keeps_def)

lemma keeps_base [intro, simp]:
  "keeps P (give x)" "keeps P (raise_exc e)" "keeps P (look f)" "keeps P (pure_res r)"
  by (auto simp: keeps_def)

lemma keeps_act [intro]: "(\<And>w r w'. P w \<Longrightarrow> f w = (r, w') \<Longrightarrow> P w') \<Longrightarrow> keeps P (act f)"
  by (simp add: keeps_def)

lemma keeps_bindP [intro]: "keeps P m \<Longrightarrow> (\<And>x. keeps P (k x)) \<Longrightarrow> keeps P (bindP m k)"
  unfolding keeps_def bindP_Some by blast

lemma keeps_seqP [intro]: "keeps P m \<Longrightarrow> keeps P n \<Longrightarrow> keeps P (seqP m n)"
  unfolding keeps_def seqP_Some by blast

lemma keeps_tryP [intro]: "keeps P m \<Longrightarrow> (\<And>e. keeps P (h e)) \<Longrightarrow> keeps P (tryP m h)"
  unfolding keeps_def tryP_Some by blast

lemma keeps_exceptP [intro]: "keeps P m \<Longrightarrow> keeps P h \<Longrightarrow> keeps P (exceptP cs m h)"
  unfolding exceptP_def by (rule keeps_tryP) auto

section \<open>The operating system\<close>

text \<open>
  What the procedures ask of the operating system, each an argument: a command run to its end
  (in a directory, when one is given), a process spawned, asked after, signalled and waited for,
  the clock and sleeping, the sockets in the directory of the instance, a program looked up on
  the path, and whether a path is a regular file.
\<close>

datatype sig = SIGTERM | SIGKILL

record 'w os =
  os_run :: "string option \<Rightarrow> 'w tool"
  os_spawn :: "string list \<Rightarrow> 'w \<Rightarrow> (exc + int) \<times> 'w"
  os_alive :: "int \<Rightarrow> 'w \<Rightarrow> bool"
  os_exited :: "int \<Rightarrow> 'w \<Rightarrow> bool"
  os_kill :: "int \<Rightarrow> sig \<Rightarrow> 'w \<Rightarrow> (exc + unit) \<times> 'w"
  os_wait :: "int \<Rightarrow> rat \<Rightarrow> 'w \<Rightarrow> (exc + unit) \<times> 'w"
  os_now :: "'w \<Rightarrow> rat"
  os_sleep :: "rat \<Rightarrow> 'w \<Rightarrow> 'w"
  os_sock :: "string \<Rightarrow> 'w \<Rightarrow> bool"
  os_unlink_sock :: "string \<Rightarrow> 'w \<Rightarrow> 'w"
  os_which :: "string \<Rightarrow> string option"
  os_is_file :: "string \<Rightarrow> 'w \<Rightarrow> bool"
  os_link :: "string \<Rightarrow> exc + string"

text \<open>Sleeping takes the time it is asked for; the clock does not go back otherwise.\<close>

definition clock_runs :: "'w os \<Rightarrow> bool" where
  "clock_runs os \<longleftrightarrow> (\<forall>d w. 0 \<le> d \<longrightarrow> os_now os w + d \<le> os_now os (os_sleep os d w))"

text \<open>\<^verbatim>\<open>run_or_die\<close>: a command that cannot be run or fails is a subprocess error.\<close>

definition run_or_die :: "'w tool \<Rightarrow> string list \<Rightarrow> 'w \<Rightarrow> 'w effect" where
  "run_or_die tool argv w =
     (case tool argv w of
        (Inl e, w') \<Rightarrow> (Inl (if OSErrorC \<in> set (mro e) then SubprocessErrorC else e), w')
      | (Inr (rc, _), w') \<Rightarrow> (if rc \<noteq> 0 then Inl SubprocessErrorC else Inr (), w'))"

end
