(* ===== verification/Liveset.thy ===== *)
theory Liveset imports Effects Typed begin

text \<open>
  The setters of a typed instance in \<^verbatim>\<open>_instances.py\<close>: the engine of the settings that need a
  stopped instance, the engine of the forwards, which on a running instance applies the
  difference rule by rule with an undo stack, and the engine of the resources.  The lock is not
  part of the model: an engine runs under it from its start to its end.
\<close>

text \<open>A handle: the instance on disk, the values cached in it, and the world outside.\<close>

record 'w live =
  li_alive :: bool
  li_inst :: inst
  li_net :: network_connection
  li_fwd :: forwards
  li_res :: "(string \<times> bag_value) list"
  li_world :: 'w

section \<open>Settings of a stopped instance\<close>

text \<open>
  \<^verbatim>\<open>_set_via_set_cmd\<close>: the call of \<^verbatim>\<open>set_cmd\<close> and, when it raises, the call that restores the old
  value, whose own error is only logged.  Whether the instance runs is probed by the engine and
  again by \<^verbatim>\<open>set_cmd\<close>; the answers are those of the same state.
\<close>

definition persist_or_restore ::
  "(set_args \<Rightarrow> inst \<Rightarrow> unit outcome) \<Rightarrow> set_args \<Rightarrow> set_args \<Rightarrow> inst \<Rightarrow> unit outcome" where
  "persist_or_restore call new old s =
     (case call new s of
        (Inr u, s') \<Rightarrow> (Inr u, s')
      | (Inl e, s') \<Rightarrow> (Inl e, snd (call old s')))"

definition set_via_set_cmd ::
  "(set_args \<Rightarrow> inst \<Rightarrow> unit outcome) \<Rightarrow> exc + bool \<Rightarrow> set_args \<Rightarrow> set_args \<Rightarrow>
   (('w, 'x) live_scheme \<Rightarrow> ('w, 'x) live_scheme) \<Rightarrow> ('w, 'x) live_scheme \<Rightarrow> (exc + unit) \<times> ('w, 'x) live_scheme" where
  "set_via_set_cmd call running new old cache h =
     (if \<not> li_alive h then (Inl InstanceNotFoundErrorC, h)
      else case running of
        Inl e \<Rightarrow> (Inl e, h)
      | Inr True \<Rightarrow> (Inl StateErrorC, h)
      | Inr False \<Rightarrow>
         (case persist_or_restore call new old (li_inst h) of
            (Inr u, s') \<Rightarrow> (Inr u, cache (h\<lparr>li_inst := s'\<rparr>))
          | (Inl e, s') \<Rightarrow> (Inl e, h\<lparr>li_inst := s'\<rparr>)))"

definition set_network ::
  "(set_args \<Rightarrow> inst \<Rightarrow> unit outcome) \<Rightarrow> exc + bool \<Rightarrow> network_connection \<Rightarrow> 'w live \<Rightarrow> (exc + unit) \<times> 'w live" where
  "set_network call running conn h =
     (case bindE (network_to_set_params conn) (\<lambda>new. bindE (network_to_set_params (li_net h)) (\<lambda>old. Inr (new, old))) of
        Inl e \<Rightarrow> (Inl e, h)
      | Inr (new, old) \<Rightarrow> set_via_set_cmd call running new old (\<lambda>h'. h'\<lparr>li_net := conn\<rparr>) h)"

section \<open>Forwards\<close>

record 'w applier =
  ap_add :: "host_binding \<Rightarrow> guest_target \<Rightarrow> 'w \<Rightarrow> 'w effect option"
  ap_remove :: "host_binding \<Rightarrow> guest_target \<Rightarrow> 'w \<Rightarrow> 'w effect option"

text \<open>The guest's address: the recorded static one, else what \<^verbatim>\<open>lxc-info\<close> answers (an argument).\<close>

fun static_ip :: "string list \<Rightarrow> string option" where
  "static_ip [] = None"
| "static_ip (l # ls) =
     (let line = py_strip l; addr = py_strip (fst (py_partition (CHR ''/'') (drop 3 line)))
      in if prefix ''ip='' line \<and> addr \<noteq> [] then Some addr else static_ip ls)"

definition dotted_quad :: "string \<Rightarrow> bool" where
  "dotted_quad token \<longleftrightarrow> (let parts = py_split (CHR ''.'') token in length parts = 4 \<and> list_all py_isdigit parts)"

definition resolve_guest_ip :: "files \<Rightarrow> (int \<times> string) option \<Rightarrow> string option" where
  "resolve_guest_ip fs lxc_info =
     (case (case fs ''kento-net'' of None \<Rightarrow> None | Some t \<Rightarrow> static_ip (read_lines t)) of
        Some a \<Rightarrow> Some a
      | None \<Rightarrow> (case lxc_info of None \<Rightarrow> None
           | Some (rc, out) \<Rightarrow> if rc \<noteq> 0 then None else find dotted_quad (py_words out)))"

definition require_ready :: "string option \<Rightarrow> string option \<Rightarrow> exc + string \<times> string" where
  "require_ready backend ip =
     (case ip of None \<Rightarrow> Inl StateErrorC
      | Some i \<Rightarrow> (case backend of None \<Rightarrow> Inl SubprocessErrorC | Some b \<Rightarrow> Inr (b, i)))"

definition bridged_applier :: "'w tool \<Rightarrow> string option \<Rightarrow> string option \<Rightarrow> string \<Rightarrow> 'w applier" where
  "bridged_applier tool backend ip name =
     \<lparr>ap_add = (\<lambda>(p, _, hp) (_, gp) w. case require_ready backend ip of
          Inl e \<Rightarrow> Some (Inl e, w) | Inr (b, i) \<Rightarrow> Some (run_install tool b i p hp gp name w)),
      ap_remove = (\<lambda>(p, _, hp) _ w. case require_ready backend ip of
          Inl e \<Rightarrow> Some (Inl e, w) | Inr (b, i) \<Rightarrow> run_remove tool b p hp name w)\<rparr>"

definition qmp_applier :: "'w monitor \<Rightarrow> ('w \<Rightarrow> bool) \<Rightarrow> 'w applier" where
  "qmp_applier monitor sock_exists =
     \<lparr>ap_add = (\<lambda>(p, _, hp) (_, gp) w.
          Some (if \<not> sock_exists w then (Inl SubprocessErrorC, w) else vm_hostfwd_add monitor p hp gp w)),
      ap_remove = (\<lambda>(p, _, hp) _ w.
          Some (if \<not> sock_exists w then (Inl SubprocessErrorC, w) else vm_hostfwd_remove monitor p hp w))\<rparr>"

definition forwards_applier :: "string \<Rightarrow> network_mode \<Rightarrow> 'w applier \<Rightarrow> 'w applier \<Rightarrow> exc + 'w applier" where
  "forwards_applier mode net bridged qmp =
     (if mode = ''vm'' \<or> mode = ''pve-vm'' then (if net \<noteq> USER then Inl ModeErrorC else Inr qmp) else Inr bridged)"

text \<open>The difference of two dictionaries of forwards, in the order the code visits it.\<close>

definition to_remove :: "forwards \<Rightarrow> forwards \<Rightarrow> forwards" where
  "to_remove old new = filter (\<lambda>(b, t). map_of new b = None) old @
     map (\<lambda>(b, t). (b, the (map_of old b))) (filter (\<lambda>(b, t). \<exists>u \<in> set_option (map_of old b). u \<noteq> t) new)"

definition to_add :: "forwards \<Rightarrow> forwards \<Rightarrow> forwards" where
  "to_add old new = filter (\<lambda>(b, t). map_of old b \<noteq> Some t) new"

datatype live_op = AddFwd host_binding guest_target | RemoveFwd host_binding guest_target

definition live_ops :: "forwards \<Rightarrow> forwards \<Rightarrow> live_op list" where
  "live_ops old new = map (\<lambda>(b, t). RemoveFwd b t) (to_remove old new) @ map (\<lambda>(b, t). AddFwd b t) (to_add old new)"

fun inverse_op :: "live_op \<Rightarrow> live_op" where
  "inverse_op (AddFwd b t) = RemoveFwd b t"
| "inverse_op (RemoveFwd b t) = AddFwd b t"

fun do_op :: "'w applier \<Rightarrow> live_op \<Rightarrow> 'w \<Rightarrow> 'w effect option" where
  "do_op ap (AddFwd b t) w = ap_add ap b t w"
| "do_op ap (RemoveFwd b t) w = ap_remove ap b t w"

text \<open>The undo stack is kept with the latest inverse first.\<close>

fun apply_ops :: "'w applier \<Rightarrow> live_op list \<Rightarrow> live_op list \<Rightarrow> 'w \<Rightarrow> ((exc + unit) \<times> live_op list \<times> 'w) option" where
  "apply_ops ap [] undo w = Some (Inr (), undo, w)"
| "apply_ops ap (x # xs) undo w =
     (case do_op ap x w of
        None \<Rightarrow> None
      | Some (Inl e, w') \<Rightarrow> Some (Inl e, undo, w')
      | Some (Inr _, w') \<Rightarrow> apply_ops ap xs (inverse_op x # undo) w')"

fun roll_back :: "'w applier \<Rightarrow> live_op list \<Rightarrow> 'w \<Rightarrow> 'w option" where
  "roll_back ap [] w = Some w"
| "roll_back ap (x # xs) w = (case do_op ap x w of None \<Rightarrow> None | Some (_, w') \<Rightarrow> roll_back ap xs w')"

definition persist_forwards :: "string list \<Rightarrow> files \<Rightarrow> exc + files" where
  "persist_forwards specs fs =
     (if specs \<noteq> [] then apply_port_meta (Some specs) Replace fs else apply_port_meta (Some [[]]) Clear fs)"

definition check_forwards :: "forwards \<Rightarrow> exc + string list" where
  "check_forwards new =
     bindE (mapE (\<lambda>(b, t). render_forward_spec b t) new) (\<lambda>specs. bindE (parse_forwards specs) (\<lambda>_. Inr specs))"

definition put_files :: "files \<Rightarrow> 'w live \<Rightarrow> 'w live" where
  "put_files fs h = h\<lparr>li_inst := set_files fs (li_inst h)\<rparr>"

definition set_forwards_live ::
  "exc + bool \<Rightarrow> exc + 'w applier \<Rightarrow> forwards \<Rightarrow> 'w live \<Rightarrow> ((exc + unit) \<times> 'w live) option" where
  "set_forwards_live running applier new h =
     (if \<not> li_alive h then Some (Inl InstanceNotFoundErrorC, h)
      else case check_forwards new of
        Inl e \<Rightarrow> Some (Inl e, h)
      | Inr specs \<Rightarrow>
         (case running of
            Inl e \<Rightarrow> Some (Inl e, h)
          | Inr False \<Rightarrow>
             (case persist_forwards specs (i_files (li_inst h)) of
                Inl e \<Rightarrow> Some (Inl e, h)
              | Inr fs \<Rightarrow> Some (Inr (), (put_files fs h)\<lparr>li_fwd := new\<rparr>))
          | Inr True \<Rightarrow>
             (let xs = live_ops (li_fwd h) new
              in case (if xs = [] then Some (Inr (), [], li_world h)
                       else case applier of Inl e \<Rightarrow> Some (Inl e, [], li_world h)
                            | Inr ap \<Rightarrow> apply_ops ap xs [] (li_world h)) of
                   None \<Rightarrow> None
                 | Some (r, undo, w) \<Rightarrow>
                    (case bindE r (\<lambda>_. persist_forwards specs (i_files (li_inst h))) of
                       Inr fs \<Rightarrow> Some (Inr (), (put_files fs h)\<lparr>li_fwd := new, li_world := w\<rparr>)
                     | Inl e \<Rightarrow>
                        (case (case applier of Inl _ \<Rightarrow> Some w | Inr ap \<Rightarrow> roll_back ap undo w) of
                           None \<Rightarrow> None
                         | Some w' \<Rightarrow> Some (Inl e, h\<lparr>li_world := w'\<rparr>))))))"

section \<open>Resources\<close>

definition MIB_BYTES :: int where "MIB_BYTES = 1048576"
definition CFS_PERIOD :: int where "CFS_PERIOD = 100000"

definition lxc_knob :: "string \<Rightarrow> string \<Rightarrow> int \<Rightarrow> exc + string list" where
  "lxc_knob name key v =
     (if key = ''memory'' then Inr [''lxc-cgroup'', ''-n'', name, ''memory.max'', int_str (v * MIB_BYTES)]
      else if key = ''cores'' then Inr [''lxc-cgroup'', ''-n'', name, ''cpu.max'', int_str (v * CFS_PERIOD) @ '' '' @ int_str CFS_PERIOD]
      else Inl ValueErrorC)"

definition pve_vmid_text :: "inst \<Rightarrow> string" where
  "pve_vmid_text s = nonempty_or (map_option file_text (i_files s ''kento-vmid'')) (i_dir s)"

definition pve_knob :: "inst \<Rightarrow> string \<Rightarrow> int \<Rightarrow> exc + string list" where
  "pve_knob s key v =
     (if key = ''memory'' then Inr [''pct'', ''set'', pve_vmid_text s, ''-memory'', int_str v]
      else if key = ''cores'' then Inr [''pct'', ''set'', pve_vmid_text s, ''-cores'', int_str v, ''-cpulimit'', int_str v]
      else Inl ValueErrorC)"

definition apply_knob :: "'w tool \<Rightarrow> string \<Rightarrow> string \<Rightarrow> inst \<Rightarrow> string \<Rightarrow> int \<Rightarrow> 'w \<Rightarrow> 'w effect" where
  "apply_knob tool mode name s key v w =
     (case (if mode = ''pve'' then pve_knob s key v else lxc_knob name key v) of
        Inl e \<Rightarrow> (Inl e, w) | Inr argv \<Rightarrow> run_or_die tool argv w)"

text \<open>The knobs that change: the key, the new value, the value to restore.\<close>

definition knob_change :: "(string \<times> bag_value) list \<Rightarrow> string \<Rightarrow> int option \<Rightarrow> (string \<times> int \<times> int option) list" where
  "knob_change old key new =
     (case new of None \<Rightarrow> []
      | Some n \<Rightarrow> if map_of old key = Some (BInt n) then []
                  else [(key, n, case map_of old key of Some (BInt m) \<Rightarrow> Some m | _ \<Rightarrow> None)])"

fun apply_knobs ::
  "(string \<Rightarrow> int \<Rightarrow> 'w \<Rightarrow> 'w effect) \<Rightarrow> (string \<times> int \<times> int option) list \<Rightarrow> (string \<times> int) list \<Rightarrow> 'w \<Rightarrow>
   (exc + unit) \<times> (string \<times> int) list \<times> 'w" where
  "apply_knobs ap [] undo w = (Inr (), undo, w)"
| "apply_knobs ap ((key, n, old) # xs) undo w =
     (case ap key n w of
        (Inl e, w') \<Rightarrow> (Inl e, undo, w')
      | (Inr _, w') \<Rightarrow> apply_knobs ap xs (case old of Some m \<Rightarrow> (key, m) # undo | None \<Rightarrow> undo) w')"

fun roll_knobs :: "(string \<Rightarrow> int \<Rightarrow> 'w \<Rightarrow> 'w effect) \<Rightarrow> (string \<times> int) list \<Rightarrow> 'w \<Rightarrow> 'w" where
  "roll_knobs ap [] w = w"
| "roll_knobs ap ((key, v) # xs) w = roll_knobs ap xs (snd (ap key v w))"

definition persist_resources :: "string \<Rightarrow> set_args \<Rightarrow> inst \<Rightarrow> unit outcome" where
  "persist_resources mode a s =
     (if mode = ''pve'' then apply_pve_lxc (sa_memory a) (sa_cores a) None None s
      else apply_lxc (sa_memory a) (sa_cores a) None None s)"

definition set_resources_live ::
  "(set_args \<Rightarrow> inst \<Rightarrow> unit outcome) \<Rightarrow> exc + bool \<Rightarrow> 'w tool \<Rightarrow> string \<Rightarrow> string \<Rightarrow> (string \<times> bag_value) list \<Rightarrow>
   'w live \<Rightarrow> (exc + unit) \<times> 'w live" where
  "set_resources_live call running tool mode name bag h =
     (case bindE (resources_to_set_params bag) (\<lambda>new. bindE (resources_to_set_params (li_res h)) (\<lambda>old. Inr (new, old))) of
        Inl e \<Rightarrow> (Inl e, h)
      | Inr (new, old) \<Rightarrow>
         (if \<not> li_alive h then (Inl InstanceNotFoundErrorC, h)
          else case running of
            Inl e \<Rightarrow> (Inl e, h)
          | Inr False \<Rightarrow>
             (case persist_or_restore call new old (li_inst h) of
                (Inr u, s') \<Rightarrow> (Inr u, h\<lparr>li_inst := s', li_res := bag\<rparr>)
              | (Inl e, s') \<Rightarrow> (Inl e, h\<lparr>li_inst := s'\<rparr>))
          | Inr True \<Rightarrow>
             (if mode = ''vm'' \<or> mode = ''pve-vm'' then (Inl StateErrorC, h)
              else let ap = apply_knob tool mode name (li_inst h);
                       changes = knob_change (li_res h) ''memory'' (sa_memory new) @ knob_change (li_res h) ''cores'' (sa_cores new);
                       (r, undo, w) = apply_knobs ap changes [] (li_world h);
                       (r', s') = (case r of Inl e \<Rightarrow> (Inl e, li_inst h) | Inr _ \<Rightarrow> persist_resources mode new (li_inst h))
                   in (case r' of
                         Inr _ \<Rightarrow> (Inr (), h\<lparr>li_inst := s', li_res := bag, li_world := w\<rparr>)
                       | Inl e \<Rightarrow> (Inl e, h\<lparr>li_inst := snd (persist_resources mode old s'), li_world := roll_knobs ap undo w\<rparr>)))))"

section \<open>What the difference of two dictionaries does\<close>

text \<open>The forwards in force, and what an operation that succeeds does to them.\<close>

type_synonym in_force = "host_binding \<rightharpoonup> guest_target"

fun op_effect :: "live_op \<Rightarrow> in_force \<Rightarrow> in_force" where
  "op_effect (AddFwd b t) m = m(b \<mapsto> t)"
| "op_effect (RemoveFwd b t) m = m(b := None)"

text \<open>Operations whose inverse restores what was there; what is removed satisfies \<open>ok\<close>.\<close>

fun exact_ops :: "(host_binding \<Rightarrow> guest_target \<Rightarrow> bool) \<Rightarrow> live_op list \<Rightarrow> in_force \<Rightarrow> bool" where
  "exact_ops ok [] m \<longleftrightarrow> True"
| "exact_ops ok (AddFwd b t # xs) m \<longleftrightarrow> m b = None \<and> exact_ops ok xs (m(b \<mapsto> t))"
| "exact_ops ok (RemoveFwd b t # xs) m \<longleftrightarrow> m b = Some t \<and> ok b t \<and> exact_ops ok xs (m(b := None))"

lemma exact_removals:
  "distinct (map fst xs) \<Longrightarrow> (\<And>b t. (b, t) \<in> set xs \<Longrightarrow> m b = Some t \<and> ok b t) \<Longrightarrow>
     exact_ops ok (map (\<lambda>(b, t). RemoveFwd b t) xs @ ys) m =
       exact_ops ok ys (fold op_effect (map (\<lambda>(b, t). RemoveFwd b t) xs) m)"
proof (induction xs arbitrary: m)
  case (Cons x xs)
  obtain b t where x: "x = (b, t)" by (cases x)
  have "(m(b := None)) c = Some u \<and> ok c u" if "(c, u) \<in> set xs" for c u
    using Cons.prems(1) Cons.prems(2) [of c u] that x by force
  with Cons.IH [of "m(b := None)"] Cons.prems x show ?case by (simp del: fun_upd_apply)
qed simp

lemma fold_removals:
  "fold op_effect (map (\<lambda>(b, t). RemoveFwd b t) xs) m = (\<lambda>b. if b \<in> fst ` set xs then None else m b)"
  by (induction xs arbitrary: m) (auto simp: fun_eq_iff)

lemma exact_additions:
  "distinct (map fst xs) \<Longrightarrow> (\<And>b. b \<in> fst ` set xs \<Longrightarrow> m b = None) \<Longrightarrow> exact_ops ok (map (\<lambda>(b, t). AddFwd b t) xs) m"
proof (induction xs arbitrary: m)
  case (Cons x xs)
  obtain b t where x: "x = (b, t)" by (cases x)
  have "(m(b \<mapsto> t)) c = None" if "c \<in> fst ` set xs" for c
    using Cons.prems(1) Cons.prems(2) [of c] that x by auto
  with Cons.IH [of "m(b \<mapsto> t)"] Cons.prems x show ?case by (simp del: fun_upd_apply)
qed simp

lemma fold_additions:
  "distinct (map fst xs) \<Longrightarrow>
     fold op_effect (map (\<lambda>(b, t). AddFwd b t) xs) m = (\<lambda>b. case map_of xs b of Some t \<Rightarrow> Some t | None \<Rightarrow> m b)"
proof (induction xs arbitrary: m)
  case (Cons x xs)
  obtain b t where x: "x = (b, t)" by (cases x)
  then have "map_of xs b = None" using Cons.prems by (simp add: map_of_eq_None_iff)
  with Cons x show ?case by (auto simp: fun_eq_iff split: option.splits)
qed simp

text \<open>The removals, for keys and values of any type.\<close>

lemma set_changed:
  "(b, t) \<in> set (map (\<lambda>(b, t). (b, the (m b))) (filter (\<lambda>(b, t). \<exists>u \<in> set_option (m b). u \<noteq> t) xs)) \<longleftrightarrow>
     (\<exists>u. (b, u) \<in> set xs \<and> m b = Some t \<and> t \<noteq> u)"
  by (force simp: image_iff)

lemma changed_keys:
  "map fst (map (\<lambda>(b, t). (b, f b)) xs) = map fst xs"
  by (induction xs) auto

lemma removed_sets:
  assumes "distinct (map fst old)" "distinct (map fst new)"
  shows "(b, t) \<in> set (filter (\<lambda>(b, t). map_of new b = None) old) \<or> (\<exists>u. (b, u) \<in> set new \<and> map_of old b = Some t \<and> t \<noteq> u) \<longleftrightarrow>
    map_of old b = Some t \<and> map_of new b \<noteq> Some t"
proof -
  have o: "(b, v) \<in> set old \<longleftrightarrow> map_of old b = Some v" and n: "(b, v) \<in> set new \<longleftrightarrow> map_of new b = Some v" for v
    using assms by simp_all
  show ?thesis unfolding n by (cases "map_of new b") (auto simp: o)
qed

lemma removals:
  assumes "distinct (map fst old)" "distinct (map fst new)"
  shows "(b, t) \<in> set (to_remove old new) \<longleftrightarrow> map_of old b = Some t \<and> map_of new b \<noteq> Some t"
  unfolding to_remove_def set_append Un_iff set_changed by (rule removed_sets [OF assms])

lemma keys_apart: "distinct (map fst (filter (\<lambda>(b, t). map_of new b = None) old)) \<Longrightarrow> distinct (map fst (filter P new)) \<Longrightarrow>
    distinct (map fst (filter (\<lambda>(b, t). map_of new b = None) old) @ map fst (filter P new))"
  by (force simp: map_of_eq_None_iff)

lemma removals_distinct:
  assumes "distinct (map fst old)" "distinct (map fst new)"
  shows "distinct (map fst (to_remove old new))"
  unfolding to_remove_def map_append changed_keys
  by (rule keys_apart) (rule distinct_map_filter, rule assms)+

lemma additions: "distinct (map fst new) \<Longrightarrow>
    map_of (to_add old new) b = (if map_of new b = None \<or> map_of old b = map_of new b then None else map_of new b)"
  unfolding to_add_def
proof (induction new)
  case (Cons x new)
  obtain c u where x: "x = (c, u)" by (cases x)
  then have "map_of new c = None" using Cons.prems by (simp add: map_of_eq_None_iff)
  with Cons x show ?case by auto
qed simp

lemma live_ops_sound:
  assumes "distinct (map fst old)" "distinct (map fst new)" "\<And>b t. (b, t) \<in> set old \<Longrightarrow> ok b t"
  shows "exact_ops ok (live_ops old new) (map_of old)" "fold op_effect (live_ops old new) (map_of old) = map_of new"
    "AddFwd b t \<in> set (live_ops old new) \<Longrightarrow> (b, t) \<in> set new - set old"
proof -
  have d: "distinct (map fst (to_remove old new))" "distinct (map fst (to_add old new))"
    using removals_distinct assms(1,2) by (auto simp: to_add_def distinct_map_filter)
  have r: "map_of old b = Some t \<and> ok b t" if "(b, t) \<in> set (to_remove old new)" for b t
    using that assms(3) [OF map_of_SomeD] unfolding removals [OF assms(1,2)] by blast
  let ?m = "fold op_effect (map (\<lambda>(b, t). RemoveFwd b t) (to_remove old new)) (map_of old)"
  have k: "b \<in> fst ` set (to_remove old new) \<longleftrightarrow> map_of old b \<noteq> None \<and> map_of old b \<noteq> map_of new b" for b
    using removals [OF assms(1,2), of b] by (cases "map_of old b") (auto simp: image_iff, force+)
  have a: "?m b = None" if "b \<in> fst ` set (to_add old new)" for b
  proof -
    from that have "map_of (to_add old new) b \<noteq> None" by (simp add: map_of_eq_None_iff)
    then show ?thesis unfolding fold_removals using additions [OF assms(2), of old b] k [of b] by (auto split: if_splits)
  qed
  show "exact_ops ok (live_ops old new) (map_of old)"
    unfolding live_ops_def
    by (subst exact_removals [where m = "map_of old" and ok = ok, OF d(1)]) (rule r, assumption, rule exact_additions [OF d(2) a])
  show "fold op_effect (live_ops old new) (map_of old) = map_of new"
    unfolding live_ops_def fold_append comp_apply fold_additions [OF d(2)] fold_removals
  proof (rule ext)
    fix b
    show "(case map_of (to_add old new) b of Some t \<Rightarrow> Some t
        | None \<Rightarrow> if b \<in> fst ` set (to_remove old new) then None else map_of old b) = map_of new b"
      using additions [OF assms(2), of old b] k [of b] by (cases "map_of old b"; cases "map_of new b") auto
  qed
  show "AddFwd b t \<in> set (live_ops old new) \<Longrightarrow> (b, t) \<in> set new - set old"
    using map_of_is_SomeI [OF assms(1), of b t] by (auto simp: live_ops_def to_add_def)
qed

lemma check_forwards_ok:
  assumes "distinct (map fst new)" "\<And>f. f \<in> set new \<Longrightarrow> valid_forward f"
  obtains specs where "check_forwards new = Inr specs" "mapE parse_forward_spec specs = Inr new"
    "\<And>l. l \<in> set specs \<Longrightarrow> clean l \<and> l \<noteq> []" "mapE (\<lambda>(b, t). render_forward_spec b t) new = Inr specs"
proof -
  from fwd.render_list_total [OF assms(2)] obtain specs where s: "mapE (\<lambda>(b, t). render_forward_spec b t) new = Inr specs" by blast
  have p: "mapE parse_forward_spec specs = Inr new" by (rule fwd.parse_render_list [OF assms(2) s])
  then have "check_forwards new = Inr specs" using s assms(1) by (simp add: check_forwards_def parse_forwards_Inr [THEN iffD2])
  moreover have "clean l \<and> l \<noteq> []" if "l \<in> set specs" for l
  proof -
    from mapE_image [OF s that] obtain b t where bt: "(b, t) \<in> set new" "render_forward_spec b t = Inr l" by auto
    from forward_line_clean [OF assms(2) [OF bt(1)] bt(2)] show ?thesis .
  qed
  ultimately show thesis using that p s by blast
qed

lemma persist_loads:
  assumes "mapE parse_forward_spec specs = Inr new" "\<And>l. l \<in> set specs \<Longrightarrow> clean l \<and> l \<noteq> []" "distinct (map fst new)"
    "mapE (\<lambda>(b, t). render_forward_spec b t) new = Inr specs"
  shows "\<exists>fs'. persist_forwards specs fs = Inr fs' \<and> load_forwards fs' = Inr new"
proof (cases "specs = []")
  case True
  with assms(1) show ?thesis by (simp add: persist_forwards_def apply_port_meta_def load_forwards_def read_meta_def)
next
  case False
  have n: "nonempty specs = specs" using assms(2) by (auto simp: nonempty_def filter_id_conv)
  have "parse_forwards specs = Inr new" using assms(1,3) by (simp add: parse_forwards_Inr)
  with n assms(4) False have "persist_forwards specs fs = Inr (fs(''kento-port'' \<mapsto> unlines specs))"
    by (simp add: persist_forwards_def apply_port_meta_def unlines_def)
  moreover have "load_forwards (fs(''kento-port'' \<mapsto> unlines specs)) = Inr new"
    by (rule load_rendered [OF assms(1,2,3)]) simp_all
  ultimately show ?thesis by blast
qed

definition sample_forward :: "int \<Rightarrow> host_binding \<times> guest_target" where
  "sample_forward n = ((TCP, None, n), (None, 9))"

definition sample_live :: "'w \<Rightarrow> 'w live" where
  "sample_live w = \<lparr>li_alive = True, li_inst = sample_plain, li_net = sample_conn, li_fwd = [sample_forward 7], li_res = [], li_world = w\<rparr>"

section \<open>Where the shipped appliers fail\<close>

lemma one_added:
  "distinct (map fst (old @ [(b, t)])) \<Longrightarrow> live_ops old (old @ [(b, t)]) = [AddFwd b t]"
proof -
  assume d: "distinct (map fst (old @ [(b, t)]))"
  then have n: "map_of old b = None" by (simp add: map_of_eq_None_iff)
  have "to_remove old (old @ [(b, t)]) = []"
  proof -
    have "\<not> (c, u) \<in> set (to_remove old (old @ [(b, t)]))" for c u
      using d n removals [of old "old @ [(b, t)]"] by (auto simp: map_add_def split: option.splits)
    then show ?thesis by (metis list.set_intros(1) neq_Nil_conv surj_pair)
  qed
  moreover have "filter (\<lambda>(c, u). map_of old c \<noteq> Some u) old = []" using d by (auto simp: filter_empty_conv)
  ultimately show ?thesis using n by (simp add: live_ops_def to_add_def)
qed

lemma one_removed:
  assumes "distinct (map fst (xs @ (b, t) # ys))"
  shows "live_ops (xs @ (b, t) # ys) (xs @ ys) = [RemoveFwd b t]"
proof -
  let ?old = "xs @ (b, t) # ys" and ?new = "xs @ ys"
  have new: "distinct (map fst ?new)" "map_of ?new b = None" using assms by (auto simp: map_of_eq_None_iff)
  have keep: "map_of ?old c = Some u \<and> map_of ?new c = Some u" if "(c, u) \<in> set ?new" for c u
    using that assms new(1) map_of_is_SomeI [of ?old c u] map_of_is_SomeI [of ?new c u] by simp
  have "filter (\<lambda>(c, u). map_of ?new c = None) zs = []" if "set zs \<subseteq> set ?new" for zs
    using that keep by (fastforce simp: filter_empty_conv)
  from this [of xs] this [of ys] have "filter (\<lambda>(c, u). map_of ?new c = None) ?old = [(b, t)]" using new(2) by simp
  moreover have "filter (\<lambda>(c, u). \<exists>v \<in> set_option (map_of ?old c). v \<noteq> u) ?new = []"
    using keep by (fastforce simp: filter_empty_conv)
  moreover have "filter (\<lambda>(c, u). map_of ?old c \<noteq> Some u) ?new = []" using keep by (fastforce simp: filter_empty_conv)
  ultimately show ?thesis by (simp only: live_ops_def to_remove_def to_add_def) simp
qed

text \<open>
  When the last of the three firewall commands of a new forward fails, the assignment raises
  but the first two rules stay: the undo stack holds no entry for the addition that failed, no
  removal command is run, and the host keeps redirecting the port although neither the
  instance's files nor its handle knows of the forward.
\<close>
theorem forwards_partial_add_left:
  assumes "build_install ''iptables'' ip p hp gp name = Inr [c1, c2, c3]"
    "tool (''iptables'' # c1) (li_world h) = (Inr (0, o1), w1)" "tool (''iptables'' # c2) w1 = (Inr (0, o2), w2)"
    "tool (''iptables'' # c3) w2 = (Inr (rc, o3), w3)" "rc \<noteq> 0"
    "li_alive h" "new = li_fwd h @ [((p, None, hp), (None, gp))]" "distinct (map fst new)" "\<And>f. f \<in> set new \<Longrightarrow> valid_forward f"
  shows "set_forwards_live (Inr True) (Inr (bridged_applier tool (Some ''iptables'') (Some ip) name)) new h =
    Some (Inl SubprocessErrorC, h\<lparr>li_world := w3\<rparr>)"
proof -
  obtain specs where s: "check_forwards new = Inr specs" by (rule check_forwards_ok [OF assms(8,9)])
  have x: "live_ops (li_fwd h) new = [AddFwd (p, None, hp) (None, gp)]"
    unfolding assms(7) by (rule one_added) (use assms(7,8) in simp)
  have "run_install tool ''iptables'' ip p hp gp name (li_world h) = (Inl SubprocessErrorC, w3)"
    using assms(1-5) by (simp add: run_install_def run_one_def)
  with s x assms(6) show ?thesis
    by (simp add: set_forwards_live_def Let_def bridged_applier_def require_ready_def)
qed

text \<open>An iptables that has no masquerading: the world is the list of the commands that took effect.\<close>

definition no_masquerade :: "string list list tool" where
  "no_masquerade argv w = (if ''MASQUERADE'' \<in> set argv then (Inr (1, []), w) else (Inr (0, []), argv # w))"

theorem forwards_partial_add_left_witness:
  "\<exists>h'. set_forwards_live (Inr True) (Inr (bridged_applier no_masquerade (Some ''iptables'') (Some ''10.0.0.5'') ''web''))
       [sample_forward 7, sample_forward 8] (sample_live []) = Some (Inl SubprocessErrorC, h') \<and> length (li_world h') = 2 \<and>
     li_fwd h' = [sample_forward 7]"
proof -
  let ?b = "build_iptables_install ''10.0.0.5'' TCP 8 9 ''web''"
  have b: "build_install ''iptables'' ''10.0.0.5'' TCP 8 9 ''web'' = Inr [?b ! 0, ?b ! 1, ?b ! 2]"
    by (simp add: build_install_def build_iptables_install_def Let_def)
  have m: "''MASQUERADE'' \<in> set (?b ! 2)" "''MASQUERADE'' \<notin> set (?b ! 0)" "''MASQUERADE'' \<notin> set (?b ! 1)" by code_simp+
  let ?w1 = "[''iptables'' # ?b ! 0]" and ?w2 = "[''iptables'' # ?b ! 1, ''iptables'' # ?b ! 0]"
  have t: "no_masquerade (''iptables'' # ?b ! 0) (li_world (sample_live [])) = (Inr (0, []), ?w1)"
    "no_masquerade (''iptables'' # ?b ! 1) ?w1 = (Inr (0, []), ?w2)" "no_masquerade (''iptables'' # ?b ! 2) ?w2 = (Inr (1, []), ?w2)"
    using m by (simp_all add: no_masquerade_def sample_live_def)
  have n: "[sample_forward 7, sample_forward 8] = li_fwd (sample_live []) @ [((TCP, None, 8), (None, 9))]" "li_alive (sample_live [])"
    "distinct (map fst [sample_forward 7, sample_forward 8])" "\<And>f. f \<in> set [sample_forward 7, sample_forward 8] \<Longrightarrow> valid_forward f"
    by (auto simp: sample_live_def sample_forward_def valid_forward_def PORT_MIN_def PORT_MAX_def)
  from forwards_partial_add_left [OF b t _ n(2,1,3,4)] show ?thesis by (simp add: sample_live_def)
qed

text \<open>
  QEMU answers a removal of a forward with the text that it has been removed, and any text
  counts as a failure here: a running VM's forward can never be removed.  The assignment raises,
  the forward is already gone from the VM, and it stays recorded and cached.
\<close>
theorem vm_forward_removal_refused:
  assumes "\<And>w. \<exists>out w'. monitor (build_hostfwd_remove p hp) w = (Inr out, w') \<and> out \<noteq> [] \<and> hp \<notin> listening w'"
    "sock_exists (li_world h)" "li_alive h" "li_fwd h = xs @ ((p, None, hp), (None, gp)) # ys"
    "distinct (map fst (li_fwd h))" "\<And>f. f \<in> set (li_fwd h) \<Longrightarrow> valid_forward f"
  shows "\<exists>w. set_forwards_live (Inr True) (Inr (qmp_applier monitor sock_exists)) (xs @ ys) h =
    Some (Inl SubprocessErrorC, h\<lparr>li_world := w\<rparr>) \<and> hp \<notin> listening w"
proof -
  have "distinct (map fst (xs @ ys))" "\<And>f. f \<in> set (xs @ ys) \<Longrightarrow> valid_forward f" using assms(4,5,6) by auto
  then obtain specs where s: "check_forwards (xs @ ys) = Inr specs" by (rule check_forwards_ok)
  have x: "live_ops (li_fwd h) (xs @ ys) = [RemoveFwd (p, None, hp) (None, gp)]"
    using one_removed assms(4,5) by simp
  from assms(1) [of "li_world h"] obtain out w' where m: "monitor (build_hostfwd_remove p hp) (li_world h) = (Inr out, w')"
    "out \<noteq> []" "hp \<notin> listening w'" by blast
  then have "vm_hostfwd_remove monitor p hp (li_world h) = (Inl SubprocessErrorC, w')"
    by (simp add: vm_hostfwd_remove_def vm_hostfwd_def)
  with s x m(3) assms(2,3) show ?thesis
    by (intro exI [of _ w']) (simp add: set_forwards_live_def Let_def qmp_applier_def)
qed

text \<open>A monitor in the manner of QEMU that forwards one port.\<close>

definition sample_monitor :: "int set monitor" where
  "sample_monitor cmd w = (if cmd = build_hostfwd_remove TCP 7
     then (Inr (''host forwarding rule for tcp:127.0.0.1:7 '' @ (if 7 \<in> w then ''removed'' else ''not found'')), w - {7}) else (Inr [], w))"

theorem vm_forward_removal_refused_witness:
  "\<exists>w. set_forwards_live (Inr True) (Inr (qmp_applier sample_monitor (\<lambda>_. True))) [] (sample_live {7}) =
     Some (Inl SubprocessErrorC, (sample_live {7})\<lparr>li_world := w\<rparr>) \<and> 7 \<notin> w \<and> li_fwd (sample_live {7 :: int}) = [sample_forward 7]"
proof -
  have m: "\<And>w. \<exists>out w'. sample_monitor (build_hostfwd_remove TCP 7) w = (Inr out, w') \<and> out \<noteq> [] \<and> 7 \<notin> w'"
    by (simp add: sample_monitor_def)
  have h: "li_alive (sample_live {7 :: int})" "li_fwd (sample_live {7 :: int}) = [] @ ((TCP, None, 7), (None, 9)) # []"
    "distinct (map fst (li_fwd (sample_live {7 :: int})))" "\<And>f. f \<in> set (li_fwd (sample_live {7 :: int})) \<Longrightarrow> valid_forward f"
    by (auto simp: sample_live_def sample_forward_def valid_forward_def PORT_MIN_def PORT_MAX_def)
  from vm_forward_removal_refused [of sample_monitor TCP 7 "\<lambda>w. w" "\<lambda>_. True", OF m _ h] show ?thesis
    by (simp add: sample_live_def)
qed

section \<open>The network of a stopped container\<close>

text \<open>The handle shows what the instance would load with.\<close>

definition net_coherent :: "'w live \<Rightarrow> bool" where
  "net_coherent h \<longleftrightarrow> load_network (i_files (li_inst h)) = Inr (li_net h)"

lemma params_net_request: "network_to_set_params conn = Inr a \<Longrightarrow> net_request a \<and> net_provided a"
  by (auto simp: network_to_set_params_def Let_def net_request_def net_provided_def no_args_def split: if_splits)



end
