(* ===== verification/Firewall.thy ===== *)
theory Firewall imports Liveset begin

text \<open>
  The forwards of a running container against the firewall they are installed in: the laws of the two
  firewall tools that \<^verbatim>\<open>portfwd.py\<close> runs, what its procedures do to the rules of a chain under these laws, and what an
  assignment of forwards in \<^verbatim>\<open>_instances.py\<close> leaves in the firewall, whichever command fails.
\<close>

section \<open>Appliers that install rules\<close>

text \<open>
  What the engine needs of an applier: a removal takes away all rules of its binding, an addition appends the rules of the
  forward, all three of them when it succeeds and only the first few when it fails; neither touches the rest of the
  firewall.  An addition of a \<open>sure\<close> forward does not fail.
\<close>

type_synonym 'r held = "host_binding \<Rightarrow> string \<Rightarrow> 'r list"

definition rule_applier ::
  "'w applier \<Rightarrow> ('w \<Rightarrow> 'r held) \<Rightarrow> ('w \<Rightarrow> 'o) \<Rightarrow> (host_binding \<Rightarrow> guest_target \<Rightarrow> nat \<Rightarrow> string \<Rightarrow> 'r list) \<Rightarrow>
   (host_binding \<Rightarrow> guest_target \<Rightarrow> bool) \<Rightarrow> bool" where
  "rule_applier ap held rest part sure \<longleftrightarrow>
     (\<forall>b t ch. part b t 0 ch = []) \<and>
     (\<forall>b t w. valid_forward (b, t) \<longrightarrow>
        (\<exists>w'. ap_remove ap b t w = Some (Inr (), w') \<and> held w' = (held w)(b := \<lambda>_. []) \<and> rest w' = rest w)) \<and>
     (\<forall>b t w. valid_forward (b, t) \<longrightarrow>
        (\<exists>r w' k. ap_add ap b t w = Some (r, w') \<and> held w' = (held w)(b := \<lambda>ch. held w b ch @ part b t k ch) \<and> rest w' = rest w \<and>
           (if r = Inr () then k = 3 else r = Inl SubprocessErrorC \<and> k < 3 \<and> \<not> sure b t)))"

lemma rule_applier_remove:
  assumes "rule_applier ap held rest part sure" "valid_forward (b, t)"
  obtains w' where "ap_remove ap b t w = Some (Inr (), w')" "held w' = (held w)(b := \<lambda>_. [])" "rest w' = rest w"
  using assms unfolding rule_applier_def by blast

lemma rule_applier_add:
  assumes "rule_applier ap held rest part sure" "valid_forward (b, t)"
  obtains r w' k where "ap_add ap b t w = Some (r, w')" "held w' = (held w)(b := \<lambda>ch. held w b ch @ part b t k ch)" "rest w' = rest w"
    "if r = Inr () then k = 3 else r = Inl SubprocessErrorC \<and> k < 3 \<and> \<not> sure b t"
  using assms unfolding rule_applier_def by blast

lemma rule_applier_part: "rule_applier ap held rest part sure \<Longrightarrow> part b t 0 ch = []"
  unfolding rule_applier_def by blast

text \<open>The rules of the forwards in force.\<close>

definition rules_at :: "(host_binding \<Rightarrow> guest_target \<Rightarrow> nat \<Rightarrow> string \<Rightarrow> 'r list) \<Rightarrow> in_force \<Rightarrow> 'r held" where
  "rules_at part m = (\<lambda>b ch. case m b of None \<Rightarrow> [] | Some t \<Rightarrow> part b t 3 ch)"

lemma rules_at_upd:
  "rules_at part (m(b := None)) = (rules_at part m)(b := \<lambda>_. [])"
  "rules_at part (m(b \<mapsto> t)) = (rules_at part m)(b := part b t 3)"
  by (auto simp: rules_at_def fun_eq_iff)

text \<open>What is left of a forward whose installation failed, before the rules that were there.\<close>

definition with_left :: "(host_binding \<Rightarrow> guest_target \<Rightarrow> nat \<Rightarrow> string \<Rightarrow> 'r list) \<Rightarrow> host_binding \<Rightarrow> guest_target \<Rightarrow> nat \<Rightarrow> 'r held \<Rightarrow> 'r held" where
  "with_left part b t k v = v(b := \<lambda>ch. part b t k ch @ v b ch)"

lemma undo_add:
  assumes "rule_applier ap held rest part sure" "valid_forward (c, u)" "m c = None" "k < 3"
    "held w = with_left part b t k (rules_at part (m(c \<mapsto> u)))"
  obtains w' j where "ap_remove ap c u w = Some (Inr (), w')" "rest w' = rest w" "j < 3" "held w' = with_left part b t j (rules_at part m)"
proof -
  obtain w' where w': "ap_remove ap c u w = Some (Inr (), w')" "held w' = (held w)(c := \<lambda>_. [])" "rest w' = rest w"
    by (rule rule_applier_remove [OF assms(1,2)])
  have none: "rules_at part m c = (\<lambda>_. [])" using assms(3) by (simp add: rules_at_def)
  have "held w' = with_left part b t (if b = c then 0 else k) (rules_at part m)"
    unfolding w'(2) assms(5) with_left_def rules_at_upd using none rule_applier_part [OF assms(1)] by (auto simp: fun_eq_iff)
  with w' assms(4) that show ?thesis by (metis zero_less_numeral)
qed

lemma undo_remove:
  assumes "rule_applier ap held rest part sure" "valid_forward (c, u)" "sure c u" "m c = Some u"
    "held w = with_left part b t k (rules_at part (m(c := None)))"
  obtains w' where "ap_add ap c u w = Some (Inr (), w')" "rest w' = rest w" "held w' = with_left part b t k (rules_at part m)"
proof -
  obtain r w' j where w': "ap_add ap c u w = Some (r, w')" "held w' = (held w)(c := \<lambda>ch. held w c ch @ part c u j ch)" "rest w' = rest w"
    "if r = Inr () then j = 3 else r = Inl SubprocessErrorC \<and> j < 3 \<and> \<not> sure c u" by (rule rule_applier_add [OF assms(1,2)])
  from w'(4) assms(3) have r: "r = Inr ()" "j = 3" by (auto split: if_splits)
  have "rules_at part m c = part c u 3" using assms(4) by (simp add: rules_at_def)
  then have "held w' = with_left part b t k (rules_at part m)"
    unfolding w'(2) assms(5) r(2) with_left_def rules_at_upd by (auto simp: fun_eq_iff)
  with w'(1,3) r(1) that show ?thesis by blast
qed

text \<open>
  A run of the operations and the undo stack it leaves: either everything succeeded, or it stopped at an addition, and undoing
  then leads back to the rules there were, with those of the addition that failed in front.
\<close>

definition stopped ::
  "('w \<Rightarrow> 'r held) \<Rightarrow> (host_binding \<Rightarrow> guest_target \<Rightarrow> nat \<Rightarrow> string \<Rightarrow> 'r list) \<Rightarrow> (host_binding \<Rightarrow> guest_target \<Rightarrow> bool) \<Rightarrow>
   live_op list \<Rightarrow> in_force \<Rightarrow> 'w \<Rightarrow> bool" where
  "stopped held part sure xs m w \<longleftrightarrow>
     (\<exists>b t k. AddFwd b t \<in> set xs \<and> k < 3 \<and> \<not> sure b t \<and> held w = with_left part b t k (rules_at part m))"

definition op_outcome ::
  "'w applier \<Rightarrow> ('w \<Rightarrow> 'r held) \<Rightarrow> ('w \<Rightarrow> 'o) \<Rightarrow> (host_binding \<Rightarrow> guest_target \<Rightarrow> nat \<Rightarrow> string \<Rightarrow> 'r list) \<Rightarrow>
   (host_binding \<Rightarrow> guest_target \<Rightarrow> bool) \<Rightarrow> live_op list \<Rightarrow> in_force \<Rightarrow> live_op list \<Rightarrow> 'w \<Rightarrow> bool" where
  "op_outcome ap held rest part sure xs m undo w \<longleftrightarrow>
     (\<exists>r u w' w2. apply_ops ap xs undo w = Some (r, u @ undo, w') \<and> (\<forall>rs. roll_back ap (u @ rs) w' = roll_back ap rs w2) \<and>
        rest w' = rest w \<and> rest w2 = rest w \<and>
        (if r = Inr () then held w' = rules_at part (fold op_effect xs m)
         else r = Inl SubprocessErrorC \<and> stopped held part sure xs m w2))"

lemma op_outcomeE:
  assumes "op_outcome ap held rest part sure xs m undo w"
  obtains (all) u w' w2 where "apply_ops ap xs undo w = Some (Inr (), u @ undo, w')" "\<And>rs. roll_back ap (u @ rs) w' = roll_back ap rs w2"
    "rest w' = rest w" "rest w2 = rest w" "held w' = rules_at part (fold op_effect xs m)"
  | (stop) u w' w2 where "apply_ops ap xs undo w = Some (Inl SubprocessErrorC, u @ undo, w')"
    "\<And>rs. roll_back ap (u @ rs) w' = roll_back ap rs w2" "rest w' = rest w" "rest w2 = rest w" "stopped held part sure xs m w2"
  using assms unfolding op_outcome_def by (smt (verit))

lemma op_outcomeI:
  "apply_ops ap xs undo w = Some (Inr (), u @ undo, w') \<Longrightarrow> (\<And>rs. roll_back ap (u @ rs) w' = roll_back ap rs v) \<Longrightarrow>
     rest w' = rest w \<Longrightarrow> rest v = rest w \<Longrightarrow> held w' = rules_at part (fold op_effect xs m) \<Longrightarrow> op_outcome ap held rest part sure xs m undo w"
  "apply_ops ap xs undo w = Some (Inl SubprocessErrorC, u @ undo, w') \<Longrightarrow> (\<And>rs. roll_back ap (u @ rs) w' = roll_back ap rs v) \<Longrightarrow>
     rest w' = rest w \<Longrightarrow> rest v = rest w \<Longrightarrow> stopped held part sure xs m v \<Longrightarrow> op_outcome ap held rest part sure xs m undo w"
  unfolding op_outcome_def by fastforce+

lemma outcome_add:
  assumes ap: "rule_applier ap held rest part sure" and c: "m c = None" "valid_forward (c, u)" "held w = rules_at part m"
    and tail: "\<And>w1. held w1 = rules_at part (m(c \<mapsto> u)) \<Longrightarrow> op_outcome ap held rest part sure xs (m(c \<mapsto> u)) (RemoveFwd c u # undo) w1"
  shows "op_outcome ap held rest part sure (AddFwd c u # xs) m undo w"
proof -
  obtain r w1 k where w1: "ap_add ap c u w = Some (r, w1)" "held w1 = (held w)(c := \<lambda>ch. held w c ch @ part c u k ch)" "rest w1 = rest w"
    "if r = Inr () then k = 3 else r = Inl SubprocessErrorC \<and> k < 3 \<and> \<not> sure c u" by (rule rule_applier_add [OF ap c(2)])
  have none: "rules_at part m c = (\<lambda>_. [])" using c(1) by (simp add: rules_at_def)
  show ?thesis
  proof (cases "r = Inr ()")
    case False
    with w1(4) have r: "r = Inl SubprocessErrorC" "k < 3" "\<not> sure c u" by simp_all
    have "held w1 = with_left part c u k (rules_at part m)" unfolding w1(2) c(3) with_left_def none by (simp add: fun_eq_iff)
    with r have "stopped held part sure (AddFwd c u # xs) m w1" unfolding stopped_def by (metis list.set_intros(1))
    with r w1(1,3) show ?thesis by (intro op_outcomeI(2) [where u = "[]" and v = w1 and w' = w1]) simp_all
  next
    case True
    with w1(2,4) have "held w1 = rules_at part (m(c \<mapsto> u))" unfolding c(3) rules_at_upd none by simp
    from tail [OF this] show ?thesis
    proof (cases rule: op_outcomeE)
      case (all un w' w2)
      obtain w3 where "ap_remove ap c u w2 = Some (Inr (), w3)" "rest w3 = rest w2" by (rule rule_applier_remove [OF ap c(2)])
      with all w1 True show ?thesis by (intro op_outcomeI(1) [where u = "un @ [RemoveFwd c u]" and v = w3 and w' = w']) simp_all
    next
      case (stop un w' w2)
      then obtain b t k where e: "AddFwd b t \<in> set xs" "k < 3" "\<not> sure b t" "held w2 = with_left part b t k (rules_at part (m(c \<mapsto> u)))"
        unfolding stopped_def by blast
      obtain w3 j where w3: "ap_remove ap c u w2 = Some (Inr (), w3)" "rest w3 = rest w2" "j < 3" "held w3 = with_left part b t j (rules_at part m)"
        by (rule undo_add [OF ap c(2,1) e(2,4)])
      with e have "stopped held part sure (AddFwd c u # xs) m w3" unfolding stopped_def by (metis list.set_intros(2))
      with stop w1 True w3 show ?thesis by (intro op_outcomeI(2) [where u = "un @ [RemoveFwd c u]" and v = w3 and w' = w']) simp_all
    qed
  qed
qed

lemma outcome_remove:
  assumes ap: "rule_applier ap held rest part sure" and c: "m c = Some u" "sure c u" "valid_forward (c, u)" "held w = rules_at part m"
    and tail: "\<And>w1. held w1 = rules_at part (m(c := None)) \<Longrightarrow> op_outcome ap held rest part sure xs (m(c := None)) (AddFwd c u # undo) w1"
  shows "op_outcome ap held rest part sure (RemoveFwd c u # xs) m undo w"
proof -
  obtain w1 where w1: "ap_remove ap c u w = Some (Inr (), w1)" "held w1 = (held w)(c := \<lambda>_. [])" "rest w1 = rest w"
    by (rule rule_applier_remove [OF ap c(3)])
  have "held w1 = rules_at part (m(c := None))" unfolding w1(2) c(4) rules_at_upd ..
  from tail [OF this] show ?thesis
  proof (cases rule: op_outcomeE)
    case (all un w' w2)
    obtain r w3 where "ap_add ap c u w2 = Some (r, w3)" "rest w3 = rest w2" by (rule rule_applier_add [OF ap c(3)])
    with all w1 show ?thesis by (intro op_outcomeI(1) [where u = "un @ [AddFwd c u]" and v = w3 and w' = w']) simp_all
  next
    case (stop un w' w2)
    then obtain b t k where e: "AddFwd b t \<in> set xs" "k < 3" "\<not> sure b t" "held w2 = with_left part b t k (rules_at part (m(c := None)))"
      unfolding stopped_def by blast
    obtain w3 where w3: "ap_add ap c u w2 = Some (Inr (), w3)" "rest w3 = rest w2" "held w3 = with_left part b t k (rules_at part m)"
      by (rule undo_remove [OF ap c(3,2,1) e(4)])
    with e have "stopped held part sure (RemoveFwd c u # xs) m w3" unfolding stopped_def by (metis list.set_intros(2))
    with stop w1 w3 show ?thesis by (intro op_outcomeI(2) [where u = "un @ [AddFwd c u]" and v = w3 and w' = w']) simp_all
  qed
qed

lemma apply_ops_outcome:
  assumes ap: "rule_applier ap held rest part sure"
    and "exact_ops (\<lambda>b t. sure b t \<and> valid_forward (b, t)) xs m" "\<And>b t. AddFwd b t \<in> set xs \<Longrightarrow> valid_forward (b, t)"
    and "held w = rules_at part m"
  shows "op_outcome ap held rest part sure xs m undo w"
  using assms(2-)
proof (induction xs arbitrary: m w undo)
  case Nil
  then show ?case by (intro op_outcomeI(1) [where u = "[]" and v = w]) simp_all
next
  case (Cons x xs)
  show ?case
  proof (cases x)
    case (AddFwd c u)
    have "AddFwd c u \<in> set (x # xs)" using AddFwd by simp
    from Cons.prems(2) [OF this] Cons.prems(1) AddFwd have c: "valid_forward (c, u)" "m c = None"
      "exact_ops (\<lambda>b t. sure b t \<and> valid_forward (b, t)) xs (m(c \<mapsto> u))" by simp_all
    show ?thesis unfolding AddFwd
      by (rule outcome_add [where m = m and w = w, OF ap c(2,1) Cons.prems(3)]) (rule Cons.IH [OF c(3)], rule Cons.prems(2), simp)
  next
    case (RemoveFwd c u)
    from Cons.prems(1) RemoveFwd have c: "m c = Some u" "sure c u" "valid_forward (c, u)"
      "exact_ops (\<lambda>b t. sure b t \<and> valid_forward (b, t)) xs (m(c := None))" by simp_all
    show ?thesis unfolding RemoveFwd
      by (rule outcome_remove [where m = m and w = w, OF ap c(1-3) Cons.prems(3)]) (rule Cons.IH [OF c(4)], rule Cons.prems(2), simp)
  qed
qed

section \<open>Words of a line\<close>

text \<open>A word without white space.\<close>

definition solid :: "string \<Rightarrow> bool" where
  "solid v \<longleftrightarrow> v \<noteq> [] \<and> (\<forall>c \<in> set v. \<not> py_isspace c)"

lemma words_from_sub: "v \<in> set (words_from acc s) \<Longrightarrow> set v \<subseteq> set acc \<union> set s"
proof (induction acc s rule: words_from.induct)
  case (2 acc c cs)
  then show ?case by (cases "py_isspace c"; cases "acc = []") auto
qed (simp split: if_splits)

lemma words_from_solid: "\<forall>c \<in> set acc. \<not> py_isspace c \<Longrightarrow> v \<in> set (words_from acc s) \<Longrightarrow> solid v"
proof (induction acc s rule: words_from.induct)
  case (2 acc c cs)
  then show ?case by (cases "py_isspace c"; cases "acc = []") (auto simp: solid_def)
qed (simp add: solid_def split: if_splits)

lemma words_of_solid: "solid v \<Longrightarrow> py_words v = [v]"
  using words_from_plain [of v "[]" "[]"] by (simp add: py_words_def solid_def)

lemma words_cons: "solid v \<Longrightarrow> py_words (v @ CHR '' '' # s) = v # py_words s"
  using words_from_plain [of v "[]" "CHR '' '' # s"] space_is by (simp add: py_words_def solid_def)

lemma blank_prefix:
  "CHR '' '' \<notin> set c \<Longrightarrow> CHR '' '' \<notin> set a \<Longrightarrow> prefix (c @ [CHR '' '']) (a @ CHR '' '' # s) \<longleftrightarrow> c = a"
proof (induction c arbitrary: a)
  case Nil
  then show ?case by (cases a) auto
next
  case (Cons x c)
  then show ?case by (cases a) auto
qed

lemma blank_skip: "CHR '' '' \<notin> set a \<Longrightarrow> py_in (CHR '' '' # n) (a @ s) \<longleftrightarrow> py_in (CHR '' '' # n) s"
  by (induction a) auto

lemma word_in_line:
  assumes "solid c" "\<forall>x \<in> set l. py_isspace x \<longrightarrow> x = CHR '' ''" "\<forall>x \<in> set acc. \<not> py_isspace x"
  shows "c \<in> set (words_from acc l) \<longleftrightarrow> py_in (CHR '' '' # c @ '' '') (CHR '' '' # acc @ l @ '' '')"
  using assms(2,3)
proof (induction l arbitrary: acc)
  have c: "CHR '' '' \<notin> set c" "c \<noteq> []" using assms(1) space_is by (auto simp: solid_def)
  have step: "py_in (CHR '' '' # c @ '' '') (CHR '' '' # a @ CHR '' '' # s) \<longleftrightarrow> c = a \<or> py_in (CHR '' '' # c @ '' '') (CHR '' '' # s)"
    if "CHR '' '' \<notin> set a" for a s
    using blank_prefix [OF c(1) that] blank_skip [OF that, of "c @ '' ''" "CHR '' '' # s"] by simp
  have short: "\<not> py_in (CHR '' '' # c @ '' '') '' ''" using c(2) by simp
  {
    case Nil
    then have "CHR '' '' \<notin> set acc" using space_is by auto
    from step [OF this, of "[]"] short c(2) show ?case by (auto simp del: py_in.simps)
  next
    case (Cons x l)
    show ?case
    proof (cases "py_isspace x")
      case True
      then have x: "x = CHR '' ''" using Cons.prems(1) by simp
      have "CHR '' '' \<notin> set acc" using Cons.prems(2) space_is by auto
      from step [OF this, of "l @ '' ''"] have "py_in (CHR '' '' # c @ '' '') (CHR '' '' # acc @ (x # l) @ '' '') \<longleftrightarrow>
        c = acc \<or> py_in (CHR '' '' # c @ '' '') (CHR '' '' # l @ '' '')" using x by simp
      moreover have "c \<in> set (words_from [] l) \<longleftrightarrow> py_in (CHR '' '' # c @ '' '') (CHR '' '' # l @ '' '')"
        using Cons.IH [of "[]"] Cons.prems(1) by (simp del: py_in.simps)
      ultimately show ?thesis using True c(2) by (simp del: py_in.simps)
    next
      case False
      then show ?thesis using Cons.IH [of "acc @ [x]"] Cons.prems by (simp del: py_in.simps)
    qed
  }
qed

text \<open>On a line without other white space than blanks, matching a comment is looking for it among the words.\<close>

definition blanks_only :: "string \<Rightarrow> bool" where
  "blanks_only l \<longleftrightarrow> (\<forall>x \<in> set l. py_isspace x \<longrightarrow> x = CHR '' '')"

lemma row_matches_word:
  assumes "solid c" "blanks_only l"
  shows "row_matches c l \<longleftrightarrow> c \<in> set (py_words l)"
proof -
  have "py_in ('' '' @ c @ '' '') ('' '' @ l @ '' '')" if i: "py_in (''/* '' @ c @ '' */'') l"
  proof -
    obtain a b where l: "l = a @ (''/* '' @ c @ '' */'') @ b" using i by (auto simp: py_in_iff)
    have "'' '' @ l @ '' '' = ('' '' @ a @ ''/*'') @ ('' '' @ c @ '' '') @ (''*/'' @ b @ '' '')" by (simp add: l)
    then show ?thesis unfolding py_in_iff by blast
  qed
  then show ?thesis using word_in_line [OF assms(1), of l "[]"] assms(2)
    by (auto simp: row_matches_def blanks_only_def py_words_def simp del: py_in.simps)
qed

section \<open>The chains of a firewall\<close>

text \<open>
  A rule is the words it was stated with, after the chain; \<open>chain w ch\<close> are the rules of a chain, in order.  The name of a
  forward in the firewall is its comment, which nft is given in double quotes.
\<close>

type_synonym rule = "string list"

definition quoted :: "string \<Rightarrow> string" where "quoted c = CHR 34 # c @ [CHR 34]"

fun comment_of :: "string \<Rightarrow> rule \<Rightarrow> string option" where
  "comment_of key (k # v # s) = (case comment_of key (v # s) of Some c \<Rightarrow> Some c | None \<Rightarrow> if k = key then Some v else None)"
| "comment_of key _ = None"

lemma comment_of_end: "comment_of key (s @ [key, c]) = Some c"
proof (induction s)
  case (Cons x s)
  then show ?case by (cases s) simp_all
qed simp

text \<open>The comment a rule is listed with: the tool's own quotes are not part of it.\<close>

definition comment_shown :: "string \<Rightarrow> rule \<Rightarrow> string option" where
  "comment_shown backend s =
     (if backend = ''nft'' then map_option (filter (\<lambda>x. x \<noteq> CHR 34)) (comment_of ''comment'' s) else comment_of ''--comment'' s)"

definition chains_of :: "string \<Rightarrow> string list" where
  "chains_of backend = (if backend = ''nft'' then NFT_CHAINS else IPT_CHAINS)"

text \<open>The three rules of a forward, each with its chain.\<close>

definition forward_rules :: "string \<Rightarrow> string \<Rightarrow> string \<Rightarrow> host_binding \<Rightarrow> guest_target \<Rightarrow> (string \<times> rule) list" where
  "forward_rules backend ip name b t =
     (let proto = proto_value (fst b); port = int_str (snd (snd b)); dest = ip @ '':'' @ int_str (snd t);
          c = forward_comment name (fst b) (snd (snd b))
      in if backend = ''nft'' then
           map (\<lambda>(ch, r). (ch, r @ [''comment'', quoted c]))
             [(''prerouting'', [proto, ''dport'', port, ''dnat'', ''to'', dest]), (''output'', [proto, ''dport'', port, ''dnat'', ''to'', dest]),
              (''postrouting'', [''ip'', ''saddr'', ''127.0.0.0/8'', ''ip'', ''daddr'', ip, proto, ''dport'', int_str (snd t), ''masquerade''])]
         else map (\<lambda>(ch, r). (ch, r @ [''-m'', ''comment'', ''--comment'', c]))
             [(''PREROUTING'', [''-p'', proto, ''--dport'', port, ''-j'', ''DNAT'', ''--to-destination'', dest]),
              (''OUTPUT'', [''-p'', proto, ''--dport'', port, ''-j'', ''DNAT'', ''--to-destination'', dest]),
              (''POSTROUTING'', [''-s'', ''127.0.0.0/8'', ''-d'', ip, ''-p'', proto, ''--dport'', int_str (snd t), ''-j'', ''MASQUERADE''])])"

definition append_rule :: "string \<Rightarrow> string \<Rightarrow> rule \<Rightarrow> string list" where
  "append_rule backend ch s =
     (if backend = ''nft'' then [''nft'', ''add'', ''rule'', ''ip'', ''kento'', ch] @ s else [''iptables'', ''-t'', ''nat'', ''-A'', ch] @ s)"

text \<open>The commands of the program are those that append these rules, in this order.\<close>

lemma build_is_append:
  assumes "backend = ''nft'' \<or> backend = ''iptables''"
  shows "\<exists>argvs. build_install backend ip p hp gp name = Inr argvs \<and>
    map (\<lambda>argv. backend # argv) argvs = map (\<lambda>(ch, s). append_rule backend ch s) (forward_rules backend ip name (p, a, hp) (g, gp))"
  using assms
  by (auto simp: build_install_def build_nft_install_def build_iptables_install_def forward_rules_def append_rule_def NFT_TABLE_def
      destination_def quoted_def Let_def)

text \<open>The rules a chain gets from the first \<open>k\<close> commands.\<close>

definition in_chain :: "string \<Rightarrow> (string \<times> rule) list \<Rightarrow> rule list" where
  "in_chain ch rs = map snd (filter (\<lambda>(c, s). c = ch) rs)"

lemma in_chain_simps [simp]:
  "in_chain ch [] = []" "in_chain ch ((c, s) # rs) = (if c = ch then s # in_chain ch rs else in_chain ch rs)"
  by (simp_all add: in_chain_def)

text \<open>What both tools do: appending a rule appends it, or fails and changes nothing.\<close>

definition appends :: "string \<Rightarrow> 'w tool \<Rightarrow> ('w \<Rightarrow> string \<Rightarrow> rule list) \<Rightarrow> bool" where
  "appends backend tool chain \<longleftrightarrow>
     (\<forall>ch \<in> set (chains_of backend). \<forall>s w. \<exists>rc out w'. tool (append_rule backend ch s) w = (Inr (rc, out), w') \<and>
        chain w' = (if rc = 0 then (chain w)(ch := chain w ch @ [s]) else chain w))"

lemma run_each_appends:
  assumes "appends backend tool chain" "fst ` set rs \<subseteq> set (chains_of backend)"
  shows "\<exists>r w' k. run_each tool (map (\<lambda>(ch, s). append_rule backend ch s) rs) w = (r, w') \<and>
    chain w' = (\<lambda>ch. chain w ch @ in_chain ch (take k rs)) \<and>
    (if r = Inr () then k = length rs else r = Inl SubprocessErrorC \<and> k < length rs)"
  using assms(2)
proof (induction rs arbitrary: w)
  case Nil
  then show ?case by (intro exI [of _ "Inr ()"] exI [of _ w] exI [of _ 0]) simp
next
  case (Cons x rs)
  obtain ch s where x: "x = (ch, s)" by (cases x)
  with Cons.prems have "ch \<in> set (chains_of backend)" by simp
  with assms(1) obtain rc out w1 where t: "tool (append_rule backend ch s) w = (Inr (rc, out), w1)"
    "chain w1 = (if rc = 0 then (chain w)(ch := chain w ch @ [s]) else chain w)"
    unfolding appends_def by blast
  show ?case
  proof (cases "rc = 0")
    case False
    have "run_each tool (map (\<lambda>(ch, s). append_rule backend ch s) (x # rs)) w = (Inl SubprocessErrorC, w1)"
      using False t(1) x by (simp add: run_one_def)
    moreover have "chain w1 = (\<lambda>ch. chain w ch @ in_chain ch (take 0 (x # rs)))" using t(2) False by simp
    ultimately show ?thesis by (intro exI [of _ "Inl SubprocessErrorC"] exI [of _ w1] exI [of _ 0] conjI) simp_all
  next
    case True
    from Cons.prems have "fst ` set rs \<subseteq> set (chains_of backend)" by simp
    from Cons.IH [OF this, of w1] obtain r w' k where i: "run_each tool (map (\<lambda>(ch, s). append_rule backend ch s) rs) w1 = (r, w')"
      "chain w' = (\<lambda>ch. chain w1 ch @ in_chain ch (take k rs))"
      "if r = Inr () then k = length rs else r = Inl SubprocessErrorC \<and> k < length rs" by blast
    have "chain w' = (\<lambda>c. chain w c @ in_chain c (take (Suc k) (x # rs)))"
      using i(2) t(2) True x by (auto simp: fun_eq_iff)
    moreover have "run_each tool (map (\<lambda>(ch, s). append_rule backend ch s) (x # rs)) w = (r, w')"
      using i(1) t(1) True x by (simp add: run_one_def)
    ultimately show ?thesis using i(3) by (intro exI [of _ r] exI [of _ w'] exI [of _ "Suc k"] conjI) (simp_all split: if_splits)
  qed
qed

section \<open>Comments\<close>

definition binding_comment :: "string \<Rightarrow> host_binding \<Rightarrow> string" where
  "binding_comment name b = forward_comment name (fst b) (snd (snd b))"

definition bound :: "host_binding \<Rightarrow> bool" where "bound b \<longleftrightarrow> (\<exists>t. valid_forward (b, t))"

lemma name_solid:
  assumes "validate_name name = Inr ()" "LF \<notin> set name"
  shows "\<forall>c \<in> set name. \<not> py_isspace c \<and> c \<noteq> CHR 34"
proof
  fix c
  assume "c \<in> set name"
  with assms have "name_char c" by (auto simp: validate_name_iff)
  then show "\<not> py_isspace c \<and> c \<noteq> CHR 34"
    by (auto simp: name_char_def is_word_def is_alnum_def is_alpha_def is_lower_def is_upper_def is_digit_def py_isspace_def cp_def)
qed

lemma comment_solid:
  assumes "validate_name name = Inr ()" "LF \<notin> set name" "bound b"
  shows "solid (binding_comment name b)" "CHR 34 \<notin> set (binding_comment name b)" "prefix ''kento:'' (binding_comment name b)"
proof -
  obtain p h where b: "b = (p, None, h)" "1 \<le> h" using assms(3) by (auto simp: bound_def valid_forward_def PORT_MIN_def)
  have d: "\<forall>c \<in> set (int_str h). is_digit c" using b(2) nat_text [of "nat h"] by (simp add: int_str_def)
  have p: "\<forall>c \<in> set (proto_value p). \<not> py_isspace c \<and> c \<noteq> CHR 34" by (cases p) (simp_all add: py_isspace_def cp_def)
  have k: "\<forall>c \<in> set ''kento:''. \<not> py_isspace c \<and> c \<noteq> CHR 34" by (simp add: py_isspace_def cp_def)
  have "\<not> py_isspace c \<and> c \<noteq> CHR 34" if "is_digit c" for c using that is_digit_not_space by (auto simp: is_digit_def cp_def)
  with name_solid [OF assms(1,2)] d p k have "\<forall>c \<in> set (binding_comment name b). \<not> py_isspace c \<and> c \<noteq> CHR 34"
    by (auto simp: binding_comment_def forward_comment_def b(1))
  then show "solid (binding_comment name b)" "CHR 34 \<notin> set (binding_comment name b)"
    by (auto simp: solid_def binding_comment_def forward_comment_def)
  show "prefix ''kento:'' (binding_comment name b)" by (simp add: binding_comment_def forward_comment_def)
qed

lemma comment_inj:
  assumes "validate_name name = Inr ()" "bound b" "bound c"
  shows "binding_comment name b = binding_comment name c \<longleftrightarrow> b = c"
proof -
  obtain p h q k where bc: "b = (p, None, h)" "c = (q, None, k)" "PORT_MIN \<le> h" "h \<le> PORT_MAX" "PORT_MIN \<le> k" "k \<le> PORT_MAX"
    using assms(2,3) by (auto simp: bound_def valid_forward_def)
  from forward_comment_unique [OF assms(1,1) bc(3-6)] show ?thesis by (auto simp: bc(1,2) binding_comment_def)
qed

lemma forward_rules_shown:
  assumes "validate_name name = Inr ()" "LF \<notin> set name" "bound b" "(ch, s) \<in> set (forward_rules backend ip name b t)"
  shows "comment_shown backend s = Some (binding_comment name b)" "ch \<in> set (chains_of backend)"
proof -
  let ?c = "binding_comment name b"
  have q: "filter (\<lambda>x. x \<noteq> CHR 34) (quoted ?c) = ?c" using comment_solid(2) [OF assms(1-3)] by (auto simp: quoted_def filter_id_conv)
  have "\<exists>r. s = (if backend = ''nft'' then r @ [''comment'', quoted ?c] else (r @ [''-m'', ''comment'']) @ [''--comment'', ?c])"
    using assms(4) by (cases "backend = ''nft''") (auto simp: forward_rules_def binding_comment_def Let_def)
  then show "comment_shown backend s = Some ?c" using q comment_of_end by (auto simp: comment_shown_def simp del: append_assoc)
  show "ch \<in> set (chains_of backend)"
    using assms(4) by (cases "backend = ''nft''") (auto simp: forward_rules_def chains_of_def NFT_CHAINS_def IPT_CHAINS_def Let_def)
qed

lemma forward_rules_length [simp]: "length (forward_rules backend ip name b t) = 3"
  by (simp add: forward_rules_def Let_def)

section \<open>Removing from iptables\<close>

text \<open>
  The laws of iptables: listing a chain changes nothing and prints, after some heading, one numbered row for each rule, where
  a word \<^verbatim>\<open>kento:...\<close> is the comment of the rule; and deleting a number deletes that rule.
\<close>

definition ipt_row :: "nat \<Rightarrow> string \<Rightarrow> rule \<Rightarrow> bool" where
  "ipt_row n l s \<longleftrightarrow> blanks_only l \<and>
     (\<exists>ws. py_words l = nat_str n # ws \<and> (\<forall>v. prefix ''kento:'' v \<longrightarrow> (v \<in> set ws \<longleftrightarrow> comment_shown ''iptables'' s = Some v)))"

definition ipt_prints :: "string \<Rightarrow> rule list \<Rightarrow> bool" where
  "ipt_prints out rs \<longleftrightarrow>
     (\<exists>heads rows. py_splitlines out = heads @ rows \<and> (\<forall>l \<in> set heads. py_words l = [] \<or> \<not> py_isdigit (hd (py_words l))) \<and>
        length rows = length rs \<and> (\<forall>i < length rs. ipt_row (Suc i) (rows ! i) (rs ! i)))"

definition nat_table :: "'w tool \<Rightarrow> ('w \<Rightarrow> string \<Rightarrow> rule list) \<Rightarrow> bool" where
  "nat_table tool chain \<longleftrightarrow> appends ''iptables'' tool chain \<and>
     (\<forall>ch \<in> set IPT_CHAINS. \<forall>w.
        (\<exists>out. tool (ipt_list ch) w = (Inr (0, out), w) \<and> ipt_prints out (chain w ch)) \<and>
        (\<forall>i < length (chain w ch). \<exists>out w'. tool (ipt_delete ch (nat_str (Suc i))) w = (Inr (0, out), w') \<and>
           chain w' = (chain w)(ch := take i (chain w ch) @ drop (Suc i) (chain w ch))))"

lemma find_row_None: "find_row c ls = None \<Longrightarrow> l \<in> set ls \<Longrightarrow> row_matches c l \<Longrightarrow> py_words l \<noteq> [] \<Longrightarrow> \<not> py_isdigit (hd (py_words l))"
  by (induction ls) (auto split: if_splits)

lemma find_row_Some: "find_row c ls = Some x \<Longrightarrow> \<exists>l \<in> set ls. row_matches c l \<and> py_words l \<noteq> [] \<and> py_isdigit (hd (py_words l)) \<and> x = hd (py_words l)"
  by (induction ls) (auto split: if_splits)

lemma digits_isdigit: "py_isdigit (nat_str n)"
  using nat_text [of n] by (simp add: py_isdigit_def)

lemma ipt_row_matches:
  assumes "solid c" "prefix ''kento:'' c" "ipt_row n l s"
  shows "row_matches c l \<longleftrightarrow> comment_shown ''iptables'' s = Some c" "py_words l \<noteq> []" "hd (py_words l) = nat_str n"
proof -
  obtain ws where ws: "blanks_only l" "py_words l = nat_str n # ws" "c \<in> set ws \<longleftrightarrow> comment_shown ''iptables'' s = Some c"
    using assms(2,3) by (auto simp: ipt_row_def)
  have "CHR ''k'' \<in> set c" using assms(2) by (auto simp: prefix_def)
  then have "c \<noteq> nat_str n" using nat_text [of n] by (auto simp: is_digit_def cp_def)
  with ws row_matches_word [OF assms(1) ws(1)] show "row_matches c l \<longleftrightarrow> comment_shown ''iptables'' s = Some c"
    "py_words l \<noteq> []" "hd (py_words l) = nat_str n" by auto
qed

lemma find_row_printed:
  assumes "solid c" "prefix ''kento:'' c" "ipt_prints out rs"
  shows "case find_row c (py_splitlines out) of
      None \<Rightarrow> \<forall>s \<in> set rs. comment_shown ''iptables'' s \<noteq> Some c
    | Some x \<Rightarrow> \<exists>i < length rs. x = nat_str (Suc i) \<and> comment_shown ''iptables'' (rs ! i) = Some c"
proof -
  obtain heads rows where h: "py_splitlines out = heads @ rows" "\<forall>l \<in> set heads. py_words l = [] \<or> \<not> py_isdigit (hd (py_words l))"
    "length rows = length rs" "\<forall>i < length rs. ipt_row (Suc i) (rows ! i) (rs ! i)" using assms(3) unfolding ipt_prints_def by blast
  note row = ipt_row_matches [OF assms(1,2)]
  show ?thesis
  proof (cases "find_row c (py_splitlines out)")
    case None
    have "comment_shown ''iptables'' (rs ! i) \<noteq> Some c" if "i < length rs" for i
    proof -
      have "rows ! i \<in> set (py_splitlines out)" using h(1,3) that by simp
      from find_row_None [OF None this] row [OF h(4) [rule_format, OF that]] digits_isdigit show ?thesis by auto
    qed
    with None show ?thesis by (auto simp: in_set_conv_nth)
  next
    case (Some x)
    from find_row_Some [OF this] h(1,2) obtain l where l: "l \<in> set rows" "row_matches c l" "x = hd (py_words l)" by auto
    then obtain i where "i < length rs" "l = rows ! i" using h(3) by (auto simp: in_set_conv_nth)
    with row [OF h(4) [rule_format]] l Some show ?thesis by auto
  qed
qed

lemma ipt_chain_clears:
  assumes "nat_table tool chain" "solid c" "prefix ''kento:'' c" "ch \<in> set IPT_CHAINS"
  shows "\<exists>w'. ipt_chain tool c ch w = Some (Inr (), w') \<and>
    chain w' = (chain w)(ch := filter (\<lambda>s. comment_shown ''iptables'' s \<noteq> Some c) (chain w ch))"
proof (induction "length (chain w ch)" arbitrary: w rule: less_induct)
  case less
  obtain out where out: "tool (ipt_list ch) w = (Inr (0, out), w)" "ipt_prints out (chain w ch)"
    using assms(1,4) unfolding nat_table_def by blast
  note found = find_row_printed [OF assms(2,3) out(2)]
  show ?case
  proof (cases "find_row c (py_splitlines out)")
    case None
    with out(1) have "ipt_chain tool c ch w = Some (Inr (), w)" by (subst ipt_chain.simps) simp
    moreover have "filter (\<lambda>s. comment_shown ''iptables'' s \<noteq> Some c) (chain w ch) = chain w ch" using found None by (simp add: filter_id_conv)
    ultimately show ?thesis by (intro exI [of _ w]) simp
  next
    case (Some x)
    with found obtain i where i: "i < length (chain w ch)" "x = nat_str (Suc i)" "comment_shown ''iptables'' (chain w ch ! i) = Some c" by auto
    with assms(1,4) obtain o2 w2 where d: "tool (ipt_delete ch x) w = (Inr (0, o2), w2)"
      "chain w2 = (chain w)(ch := take i (chain w ch) @ drop (Suc i) (chain w ch))" unfolding nat_table_def by blast
    from d(2) i(1) have "length (chain w2 ch) < length (chain w ch)" by simp
    from less [OF this] obtain w' where w': "ipt_chain tool c ch w2 = Some (Inr (), w')"
      "chain w' = (chain w2)(ch := filter (\<lambda>s. comment_shown ''iptables'' s \<noteq> Some c) (chain w2 ch))" by blast
    have "filter (\<lambda>s. comment_shown ''iptables'' s \<noteq> Some c) (chain w ch) =
      filter (\<lambda>s. comment_shown ''iptables'' s \<noteq> Some c) (take i (chain w ch) @ chain w ch ! i # drop (Suc i) (chain w ch))"
      by (simp only: id_take_nth_drop [OF i(1), symmetric])
    with w'(2) d(2) i(3) have "chain w' = (chain w)(ch := filter (\<lambda>s. comment_shown ''iptables'' s \<noteq> Some c) (chain w ch))" by simp
    moreover have "ipt_chain tool c ch w = ipt_chain tool c ch w2" using out(1) Some d(1) by (subst ipt_chain.simps) simp
    ultimately show ?thesis using w'(1) by metis
  qed
qed

lemma ipt_chains_clear:
  assumes "nat_table tool chain" "solid c" "prefix ''kento:'' c" "set chs \<subseteq> set IPT_CHAINS"
  shows "\<exists>w'. ipt_chains tool c chs w = Some (Inr (), w') \<and>
    chain w' = (\<lambda>ch. if ch \<in> set chs then filter (\<lambda>s. comment_shown ''iptables'' s \<noteq> Some c) (chain w ch) else chain w ch)"
  using assms(4)
proof (induction chs arbitrary: w)
  case (Cons ch chs)
  then have c: "ch \<in> set IPT_CHAINS" "set chs \<subseteq> set IPT_CHAINS" by simp_all
  obtain w1 where w1: "ipt_chain tool c ch w = Some (Inr (), w1)"
    "chain w1 = (chain w)(ch := filter (\<lambda>s. comment_shown ''iptables'' s \<noteq> Some c) (chain w ch))"
    using ipt_chain_clears [OF assms(1-3) c(1)] by blast
  obtain w2 where w2: "ipt_chains tool c chs w1 = Some (Inr (), w2)"
    "chain w2 = (\<lambda>ch. if ch \<in> set chs then filter (\<lambda>s. comment_shown ''iptables'' s \<noteq> Some c) (chain w1 ch) else chain w1 ch)"
    using Cons.IH [OF c(2), of w1] by blast
  have "chain w2 = (\<lambda>k. if k \<in> set (ch # chs) then filter (\<lambda>s. comment_shown ''iptables'' s \<noteq> Some c) (chain w k) else chain w k)"
    unfolding w2(2) w1(2) by (auto simp: fun_eq_iff)
  with w1(1) w2(1) show ?case by (intro exI [of _ w2]) simp
qed simp

section \<open>Removing from nft\<close>

text \<open>
  The laws of nft, whose rules have handles: the bootstrap of the table changes no rule; a listing with handles changes
  nothing, is refused only where there are no rules, and prints one line for each rule, with its comment in double quotes
  and its handle at the end and no other double quote; and deleting a handle deletes that rule.
\<close>

type_synonym 'w handled = "'w \<Rightarrow> string \<Rightarrow> (string \<times> rule) list"

definition nft_row :: "string \<Rightarrow> string \<times> rule \<Rightarrow> bool" where
  "nft_row l x \<longleftrightarrow> (\<exists>a. CHR 34 \<notin> set a \<and>
     l = a @ (case comment_shown ''nft'' (snd x) of None \<Rightarrow> [] | Some c \<Rightarrow> ''comment '' @ quoted c) @ '' # handle '' @ fst x)"

definition nft_prints :: "string \<Rightarrow> (string \<times> rule) list \<Rightarrow> bool" where
  "nft_prints out xs \<longleftrightarrow>
     (\<exists>top rows bottom. py_splitlines out = top @ rows @ bottom \<and> (\<forall>l \<in> set top \<union> set bottom. CHR 34 \<notin> set l) \<and> list_all2 nft_row rows xs)"

definition handles_apart :: "(string \<times> rule) list \<Rightarrow> bool" where
  "handles_apart xs \<longleftrightarrow> distinct (map fst xs) \<and> (\<forall>x \<in> set xs. solid (fst x) \<and> CHR 34 \<notin> set (fst x))"

definition nft_delete :: "string \<Rightarrow> string \<Rightarrow> string list" where
  "nft_delete ch k = [''nft'', ''delete'', ''rule'', ''ip'', ''kento'', ch, ''handle'', k]"

definition nft_table :: "'w tool \<Rightarrow> 'w handled \<Rightarrow> bool" where
  "nft_table tool rules \<longleftrightarrow> appends ''nft'' tool (\<lambda>w ch. map snd (rules w ch)) \<and>
     (\<forall>argv \<in> set NFT_BOOTSTRAP. \<forall>w. \<exists>a w'. tool (''nft'' # argv) w = (Inr a, w') \<and> rules w' = rules w) \<and>
     (\<forall>ch \<in> set NFT_CHAINS. \<forall>w. handles_apart (rules w ch) \<and>
        (\<exists>rc out. tool [''nft'', ''-a'', ''list'', ''chain'', ''ip'', ''kento'', ch] w = (Inr (rc, out), w) \<and>
           (if rc = 0 then nft_prints out (rules w ch) else rules w ch = [])) \<and>
        (\<forall>k \<in> fst ` set (rules w ch). \<exists>a w'. tool (nft_delete ch k) w = (Inr a, w') \<and>
           rules w' = (rules w)(ch := filter (\<lambda>x. fst x \<noteq> k) (rules w ch))))"

lemma words_blank: "words_from acc (s @ CHR '' '' # t) = words_from acc s @ words_from [] t"
  using space_is by (induction acc s rule: words_from.induct) auto

lemma nft_row_words:
  assumes "solid k"
  shows "\<exists>ws. py_words (z @ '' # handle '' @ k) = ws @ [''handle'', k]"
proof -
  have "solid ''#''" "solid ''handle''" by code_simp+
  then have "py_words (''# handle '' @ k) = [''#'', ''handle'', k]"
    using words_cons [of "''#''" "''handle '' @ k"] words_cons [of "''handle''" k] words_of_solid [OF assms] by simp
  with words_blank [of "[]" z "''# handle '' @ k"] show ?thesis by (auto simp: py_words_def)
qed

lemma quote_split: "CHR 34 \<notin> set a \<Longrightarrow> CHR 34 \<notin> set b \<Longrightarrow> a @ CHR 34 # x = b @ CHR 34 # y \<longleftrightarrow> a = b \<and> x = y"
proof (induction a arbitrary: b)
  case Nil
  then show ?case by (cases b) auto
next
  case (Cons k a)
  then show ?case by (cases b) auto
qed

lemma needle_in_row:
  assumes "nft_row l x" "CHR 34 \<notin> set c" "CHR 34 \<notin> set (fst x)"
  shows "py_in (''comment '' @ quoted c) l \<longleftrightarrow> comment_shown ''nft'' (snd x) = Some c"
proof -
  obtain a where l: "CHR 34 \<notin> set a"
    "l = a @ (case comment_shown ''nft'' (snd x) of None \<Rightarrow> [] | Some d \<Rightarrow> ''comment '' @ quoted d) @ '' # handle '' @ fst x"
    using assms(1) unfolding nft_row_def by blast
  show ?thesis
  proof (cases "comment_shown ''nft'' (snd x)")
    case None
    then have "CHR 34 \<notin> set l" using l assms(3) by simp
    then show ?thesis using None by (auto simp: py_in_iff quoted_def)
  next
    case (Some d)
    let ?h = "'' # handle '' @ fst x"
    have d: "CHR 34 \<notin> set d" using Some by (auto simp: comment_shown_def)
    have n: "l = (a @ ''comment '') @ CHR 34 # (d @ CHR 34 # ?h)" using l(2) Some by (simp add: quoted_def)
    have "c = d" if p: "l = u @ (''comment '' @ quoted c) @ v" for u v
    proof -
      have "length (filter ((=) (CHR 34)) l) = 2" unfolding n using l(1) d assms(3) by (auto simp: filter_empty_conv)
      moreover have "length (filter ((=) (CHR 34)) l) = length (filter ((=) (CHR 34)) u) + 2 + length (filter ((=) (CHR 34)) v)"
        unfolding p using assms(2) by (auto simp: quoted_def filter_empty_conv)
      ultimately have "length (filter ((=) (CHR 34)) u) = 0" by linarith
      then have u: "CHR 34 \<notin> set u" by (auto simp: filter_empty_conv)
      have "(a @ ''comment '') @ CHR 34 # (d @ CHR 34 # ?h) = (u @ ''comment '') @ CHR 34 # (c @ CHR 34 # v)"
        using n p by (simp add: quoted_def)
      then have "d @ CHR 34 # ?h = c @ CHR 34 # v" using l(1) u by (subst (asm) quote_split) auto
      then show ?thesis using quote_split [OF d assms(2)] by blast
    qed
    moreover have "l = a @ (''comment '' @ quoted d) @ ?h" using l(2) Some by simp
    ultimately show ?thesis using Some unfolding py_in_iff by (auto simp del: append_assoc)
  qed
qed

lemma nft_handle_row:
  assumes "nft_row l x" "CHR 34 \<notin> set c" "CHR 34 \<notin> set (fst x)" "solid (fst x)"
  shows "nft_handle (''comment '' @ quoted c) l = (if comment_shown ''nft'' (snd x) = Some c then Some (fst x) else None)"
proof -
  obtain z where "l = z @ '' # handle '' @ fst x" using assms(1) unfolding nft_row_def by (metis append_assoc)
  with nft_row_words [OF assms(4), of z] obtain ws where "py_words l = ws @ [''handle'', fst x]" by auto
  then show ?thesis using needle_in_row [OF assms(1-3)] by (simp add: nft_handle_def Let_def nth_append)
qed

text \<open>The handles a listing gives.\<close>

definition hits :: "string \<Rightarrow> string list \<Rightarrow> string list" where
  "hits needle ls = concat (map (\<lambda>l. case nft_handle needle l of None \<Rightarrow> [] | Some k \<Rightarrow> [k]) ls)"

lemma hits_simps:
  "hits needle [] = []" "hits needle (l # ls) = (case nft_handle needle l of None \<Rightarrow> hits needle ls | Some k \<Rightarrow> k # hits needle ls)"
  "hits needle (ls @ ks) = hits needle ls @ hits needle ks"
  by (simp_all add: hits_def split: option.splits)

lemma hits_rows:
  assumes "list_all2 nft_row rows xs" "CHR 34 \<notin> set c" "\<forall>x \<in> set xs. solid (fst x) \<and> CHR 34 \<notin> set (fst x)"
  shows "hits (''comment '' @ quoted c) rows = map fst (filter (\<lambda>x. comment_shown ''nft'' (snd x) = Some c) xs)"
  using assms(1,3)
proof (induction rows xs rule: list_all2_induct)
  case (Cons l ls x xs)
  then have "solid (fst x)" "CHR 34 \<notin> set (fst x)" by simp_all
  from nft_handle_row [OF Cons(1) assms(2) this(2,1)] Cons show ?case by (simp add: hits_simps)
qed (simp add: hits_simps)

lemma no_hits: "\<forall>l \<in> set ls. CHR 34 \<notin> set l \<Longrightarrow> hits (''comment '' @ quoted c) ls = []"
proof (induction ls)
  case (Cons l ls)
  then have "\<not> py_in (''comment '' @ quoted c) l" by (auto simp: py_in_iff quoted_def)
  with Cons show ?case by (simp add: hits_simps nft_handle_def)
qed (simp add: hits_simps)

lemma nft_lines_delete:
  assumes "nft_table tool rules" "ch \<in> set NFT_CHAINS" "distinct (hits needle ls)" "set (hits needle ls) \<subseteq> fst ` set (rules w ch)"
  shows "\<exists>w'. nft_delete_lines tool needle ch ls w = (Inr (), w') \<and>
    rules w' = (rules w)(ch := filter (\<lambda>x. fst x \<notin> set (hits needle ls)) (rules w ch))"
  using assms(3,4)
proof (induction ls arbitrary: w)
  case (Cons l ls)
  show ?case
  proof (cases "nft_handle needle l")
    case None
    with Cons show ?thesis by (simp add: hits_simps)
  next
    case (Some k)
    with Cons.prems have k: "k \<in> fst ` set (rules w ch)" "k \<notin> set (hits needle ls)" "distinct (hits needle ls)"
      "set (hits needle ls) \<subseteq> fst ` set (rules w ch)" by (simp_all add: hits_simps)
    with assms(1,2) obtain a w1 where w1: "tool (nft_delete ch k) w = (Inr a, w1)"
      "rules w1 = (rules w)(ch := filter (\<lambda>x. fst x \<noteq> k) (rules w ch))" unfolding nft_table_def by blast
    have "set (hits needle ls) \<subseteq> fst ` set (rules w1 ch)" using k w1(2) by fastforce
    from Cons.IH [OF k(3) this] obtain w2 where w2: "nft_delete_lines tool needle ch ls w1 = (Inr (), w2)"
      "rules w2 = (rules w1)(ch := filter (\<lambda>x. fst x \<notin> set (hits needle ls)) (rules w1 ch))" by blast
    have "rules w2 = (rules w)(ch := filter (\<lambda>x. fst x \<notin> set (hits needle (l # ls))) (rules w ch))"
      unfolding w2(2) w1(2) using Some by (simp add: hits_simps fun_upd_def fun_eq_iff conj_commute)
    with w1(1) w2(1) Some show ?thesis by (intro exI [of _ w2]) (simp add: nft_delete_def)
  qed
qed (simp add: hits_simps)

lemma nft_chain_hits:
  assumes "nft_table tool rules" "ch \<in> set NFT_CHAINS" "CHR 34 \<notin> set c" "nft_prints out (rules w ch)"
  shows "hits (''comment '' @ quoted c) (py_splitlines out) = map fst (filter (\<lambda>x. comment_shown ''nft'' (snd x) = Some c) (rules w ch))"
proof -
  obtain top rows bottom where p: "py_splitlines out = top @ rows @ bottom" "\<forall>l \<in> set top \<union> set bottom. CHR 34 \<notin> set l"
    "list_all2 nft_row rows (rules w ch)" using assms(4) unfolding nft_prints_def by blast
  have "\<forall>x \<in> set (rules w ch). solid (fst x) \<and> CHR 34 \<notin> set (fst x)"
    using assms(1,2) unfolding nft_table_def handles_apart_def by blast
  from hits_rows [OF p(3) assms(3) this] no_hits [of top c] no_hits [of bottom c] p(2) show ?thesis
    by (simp add: p(1) hits_simps)
qed

lemma filter_handles:
  assumes "distinct (map fst xs)"
  shows "filter (\<lambda>x. fst x \<notin> fst ` set (filter P xs)) xs = filter (\<lambda>x. \<not> P x) xs"
proof (rule filter_cong [OF refl])
  fix x
  assume x: "x \<in> set xs"
  have "fst x = fst y \<longleftrightarrow> x = y" if "y \<in> set xs" for y using assms x that by (auto simp: distinct_map inj_on_def)
  then show "fst x \<notin> fst ` set (filter P xs) \<longleftrightarrow> \<not> P x" using x by auto
qed

lemma nft_chains_clear:
  assumes "nft_table tool rules" "CHR 34 \<notin> set c" "set chs \<subseteq> set NFT_CHAINS"
  shows "\<exists>w'. nft_remove_chains tool (''comment '' @ quoted c) chs w = (Inr (), w') \<and>
    rules w' = (\<lambda>ch. if ch \<in> set chs then filter (\<lambda>x. comment_shown ''nft'' (snd x) \<noteq> Some c) (rules w ch) else rules w ch)"
  using assms(3)
proof (induction chs arbitrary: w)
  case (Cons ch chs)
  let ?n = "''comment '' @ quoted c" and ?clear = "filter (\<lambda>x. comment_shown ''nft'' (snd x) \<noteq> Some c)"
  from Cons.prems have c: "ch \<in> set NFT_CHAINS" "set chs \<subseteq> set NFT_CHAINS" by simp_all
  obtain rc out where out: "tool [''nft'', ''-a'', ''list'', ''chain'', ''ip'', ''kento'', ch] w = (Inr (rc, out), w)"
    "if rc = 0 then nft_prints out (rules w ch) else rules w ch = []" and apart: "distinct (map fst (rules w ch))"
    using assms(1) c(1) unfolding nft_table_def handles_apart_def by blast
  have "\<exists>w1. nft_remove_chains tool ?n (ch # chs) w = nft_remove_chains tool ?n chs w1 \<and> rules w1 = (rules w)(ch := ?clear (rules w ch))"
  proof (cases "rc = 0")
    case True
    with out have h: "hits ?n (py_splitlines out) = map fst (filter (\<lambda>x. comment_shown ''nft'' (snd x) = Some c) (rules w ch))"
      by (intro nft_chain_hits [OF assms(1) c(1) assms(2)]) simp
    have "distinct (hits ?n (py_splitlines out))" "set (hits ?n (py_splitlines out)) \<subseteq> fst ` set (rules w ch)"
      unfolding h using apart by (auto simp: distinct_map_filter)
    from nft_lines_delete [OF assms(1) c(1) this] obtain w1 where w1: "nft_delete_lines tool ?n ch (py_splitlines out) w = (Inr (), w1)"
      "rules w1 = (rules w)(ch := filter (\<lambda>x. fst x \<notin> set (hits ?n (py_splitlines out))) (rules w ch))" by blast
    have "rules w1 = (rules w)(ch := ?clear (rules w ch))"
      unfolding w1(2) h using filter_handles [OF apart, of "\<lambda>x. comment_shown ''nft'' (snd x) = Some c"] by simp
    with out(1) w1(1) True show ?thesis by (intro exI [of _ w1]) simp
  next
    case False
    with out show ?thesis by (intro exI [of _ w]) (simp add: fun_eq_iff)
  qed
  then obtain w1 where w1: "nft_remove_chains tool ?n (ch # chs) w = nft_remove_chains tool ?n chs w1"
    "rules w1 = (rules w)(ch := ?clear (rules w ch))" by blast
  obtain w2 where w2: "nft_remove_chains tool ?n chs w1 = (Inr (), w2)"
    "rules w2 = (\<lambda>k. if k \<in> set chs then ?clear (rules w1 k) else rules w1 k)" using Cons.IH [OF c(2), of w1] by blast
  have "rules w2 = (\<lambda>k. if k \<in> set (ch # chs) then ?clear (rules w k) else rules w k)"
    unfolding w2(2) w1(2) by (auto simp: fun_eq_iff)
  with w1(1) w2(1) show ?case by (intro exI [of _ w2]) simp
qed simp

lemma bootstrap_spares:
  assumes "nft_table tool rules"
  shows "\<exists>w'. ensure_nft_table tool w = (Inr (), w') \<and> rules w' = rules w"
proof -
  have "\<exists>w'. run_ignoring tool (map (\<lambda>argv. ''nft'' # argv) xs) w = (Inr (), w') \<and> rules w' = rules w"
    if "set xs \<subseteq> set NFT_BOOTSTRAP" for xs
    using that
  proof (induction xs arbitrary: w)
    case (Cons x xs)
    then obtain a w1 where "tool (''nft'' # x) w = (Inr a, w1)" "rules w1 = rules w" "set xs \<subseteq> set NFT_BOOTSTRAP"
      using assms unfolding nft_table_def by (metis list.set_intros(1) set_subset_Cons subsetD subset_trans)
    with Cons.IH [of w1] show ?case by simp
  qed simp
  from this [OF subset_refl] show ?thesis by (simp add: ensure_nft_table_def)
qed

section \<open>The applier of a container\<close>

text \<open>
  A firewall: the tool of a backend that obeys its laws, and the rules of the chains the program writes to.
\<close>

definition firewall :: "string \<Rightarrow> 'w tool \<Rightarrow> ('w \<Rightarrow> string \<Rightarrow> rule list) \<Rightarrow> bool" where
  "firewall backend tool chain \<longleftrightarrow>
     backend = ''iptables'' \<and> nat_table tool chain \<or>
     backend = ''nft'' \<and> (\<exists>rules. nft_table tool rules \<and> chain = (\<lambda>w ch. map snd (rules w ch)))"

lemma firewall_installs:
  assumes "firewall backend tool chain" "validate_name name = Inr ()" "LF \<notin> set name" "valid_forward ((p, a, hp), (x, gp))"
  shows "\<exists>r w' k. run_install tool backend ip p hp gp name w = (r, w') \<and>
    chain w' = (\<lambda>ch. chain w ch @ in_chain ch (take k (forward_rules backend ip name (p, a, hp) (x, gp)))) \<and>
    (if r = Inr () then k = 3 else r = Inl SubprocessErrorC \<and> k < 3)"
proof -
  let ?rs = "forward_rules backend ip name (p, a, hp) (x, gp)"
  have b: "backend = ''nft'' \<or> backend = ''iptables''" and ap: "appends backend tool chain"
    using assms(1) by (auto simp: firewall_def nat_table_def nft_table_def)
  obtain argvs where argvs: "build_install backend ip p hp gp name = Inr argvs"
    "map (\<lambda>argv. backend # argv) argvs = map (\<lambda>(ch, s). append_rule backend ch s) ?rs" using build_is_append [OF b] by blast
  have "bound (p, a, hp)" using assms(4) by (auto simp: bound_def)
  from forward_rules_shown(2) [OF assms(2,3) this] have ch: "fst ` set ?rs \<subseteq> set (chains_of backend)" by fastforce
  obtain w1 where w1: "(if backend = ''nft'' then ensure_nft_table tool w else (Inr (), w)) = (Inr (), w1)" "chain w1 = chain w"
    using assms(1) bootstrap_spares by (fastforce simp: firewall_def)
  from run_each_appends [OF ap ch, of w1] obtain r w' k where r: "run_each tool (map (\<lambda>(ch, s). append_rule backend ch s) ?rs) w1 = (r, w')"
    "chain w' = (\<lambda>ch. chain w ch @ in_chain ch (take k ?rs))" "if r = Inr () then k = 3 else r = Inl SubprocessErrorC \<and> k < 3"
    unfolding w1(2) forward_rules_length by blast
  have "run_install tool backend ip p hp gp name w = (r, w')" using w1(1) argvs r(1) by (simp add: run_install_def)
  with r(2,3) show ?thesis by blast
qed

lemma firewall_removes:
  assumes "firewall backend tool chain" "validate_name name = Inr ()" "LF \<notin> set name" "bound (p, a, hp)"
  shows "\<exists>w'. run_remove tool backend p hp name w = Some (Inr (), w') \<and>
    chain w' = (\<lambda>ch. if ch \<in> set (chains_of backend)
      then filter (\<lambda>s. comment_shown backend s \<noteq> Some (binding_comment name (p, a, hp))) (chain w ch) else chain w ch)"
proof -
  let ?c = "binding_comment name (p, a, hp)"
  note c = comment_solid [OF assms(2-4)]
  have fc: "forward_comment name p hp = ?c" by (simp add: binding_comment_def)
  from assms(1) consider (ipt) "backend = ''iptables''" "nat_table tool chain"
    | (nft) rules where "backend = ''nft''" "nft_table tool rules" "chain = (\<lambda>w ch. map snd (rules w ch))" by (auto simp: firewall_def)
  then show ?thesis
  proof cases
    case ipt
    from ipt_chains_clear [OF ipt(2) c(1,3) subset_refl, of w] show ?thesis
      unfolding ipt(1) by (simp add: run_remove_def iptables_remove_by_comment_def fc chains_of_def)
  next
    case nft
    from nft_chains_clear [OF nft(2) c(2) subset_refl, of w] nft(1) show ?thesis
      by (auto simp: run_remove_def nft_remove_by_comment_def fc chains_of_def quoted_def nft(3) filter_map comp_def fun_eq_iff)
  qed
qed

text \<open>
  The rules of one forward of an instance, the rules that are of no forward of this instance, and those the first commands of
  an installation append.
\<close>

definition rules_held :: "string \<Rightarrow> ('w \<Rightarrow> string \<Rightarrow> rule list) \<Rightarrow> string \<Rightarrow> 'w \<Rightarrow> rule held" where
  "rules_held backend chain name w b ch =
     (if bound b \<and> ch \<in> set (chains_of backend)
      then filter (\<lambda>s. comment_shown backend s = Some (binding_comment name b)) (chain w ch) else [])"

definition other_rules :: "string \<Rightarrow> ('w \<Rightarrow> string \<Rightarrow> rule list) \<Rightarrow> string \<Rightarrow> 'w \<Rightarrow> string \<Rightarrow> rule list" where
  "other_rules backend chain name w ch =
     filter (\<lambda>s. ch \<in> set (chains_of backend) \<longrightarrow> (\<forall>b. bound b \<longrightarrow> comment_shown backend s \<noteq> Some (binding_comment name b))) (chain w ch)"

definition first_rules :: "string \<Rightarrow> string \<Rightarrow> string \<Rightarrow> host_binding \<Rightarrow> guest_target \<Rightarrow> nat \<Rightarrow> string \<Rightarrow> rule list" where
  "first_rules backend ip name b t k ch = in_chain ch (take k (forward_rules backend ip name b t))"

text \<open>A forward whose installation the tool never refuses.\<close>

definition always_installs :: "'w tool \<Rightarrow> string \<Rightarrow> string \<Rightarrow> string \<Rightarrow> host_binding \<Rightarrow> guest_target \<Rightarrow> bool" where
  "always_installs tool backend ip name b t \<longleftrightarrow>
     (\<forall>w. fst (run_install tool backend ip (fst b) (snd (snd b)) (snd t) name w) = Inr ())"

lemma first_rules_shown:
  assumes "validate_name name = Inr ()" "LF \<notin> set name" "bound b" "s \<in> set (first_rules backend ip name b t k ch)"
  shows "comment_shown backend s = Some (binding_comment name b)" "ch \<in> set (chains_of backend)"
proof -
  have "(ch, s) \<in> set (take k (forward_rules backend ip name b t))" using assms(4) by (auto simp: first_rules_def in_chain_def)
  then have "(ch, s) \<in> set (forward_rules backend ip name b t)" by (rule in_set_takeD)
  from forward_rules_shown [OF assms(1-3) this]
  show "comment_shown backend s = Some (binding_comment name b)" "ch \<in> set (chains_of backend)" .
qed

lemma held_appended:
  assumes "validate_name name = Inr ()" "LF \<notin> set name" "bound b" "chain w' = (\<lambda>ch. chain w ch @ first_rules backend ip name b t k ch)"
  shows "rules_held backend chain name w' =
      (rules_held backend chain name w)(b := \<lambda>ch. rules_held backend chain name w b ch @ first_rules backend ip name b t k ch)"
    "other_rules backend chain name w' = other_rules backend chain name w"
proof -
  note shown = first_rules_shown [OF assms(1-3), where backend = backend and ip = ip and t = t and k = k]
  have own: "filter (\<lambda>s. comment_shown backend s = Some (binding_comment name c)) (first_rules backend ip name b t k ch) =
    (if c = b then first_rules backend ip name b t k ch else [])" if "bound c" for c ch
    using shown(1) [of _ ch] comment_inj [OF assms(1,3) that] by (auto simp: filter_id_conv filter_empty_conv)
  have none: "first_rules backend ip name b t k ch = []" if "ch \<notin> set (chains_of backend)" for ch
    using shown(2) [of _ ch] that by (metis list.set_intros(1) neq_Nil_conv)
  show "rules_held backend chain name w' =
      (rules_held backend chain name w)(b := \<lambda>ch. rules_held backend chain name w b ch @ first_rules backend ip name b t k ch)"
    using own none assms(3) by (auto simp: rules_held_def assms(4) fun_eq_iff)
  show "other_rules backend chain name w' = other_rules backend chain name w"
  proof
    fix ch
    have "\<not> (ch \<in> set (chains_of backend) \<longrightarrow> (\<forall>c. bound c \<longrightarrow> comment_shown backend s \<noteq> Some (binding_comment name c)))"
      if "s \<in> set (first_rules backend ip name b t k ch)" for s using shown [OF that] assms(3) by blast
    then have "filter (\<lambda>s. ch \<in> set (chains_of backend) \<longrightarrow> (\<forall>c. bound c \<longrightarrow> comment_shown backend s \<noteq> Some (binding_comment name c)))
      (first_rules backend ip name b t k ch) = []" unfolding filter_empty_conv by blast
    then show "other_rules backend chain name w' ch = other_rules backend chain name w ch" by (simp only: other_rules_def assms(4) filter_append append_Nil2)
  qed
qed

lemma held_removed:
  assumes "validate_name name = Inr ()" "bound b" "chain w' = (\<lambda>ch. if ch \<in> set (chains_of backend)
      then filter (\<lambda>s. comment_shown backend s \<noteq> Some (binding_comment name b)) (chain w ch) else chain w ch)"
  shows "rules_held backend chain name w' = (rules_held backend chain name w)(b := \<lambda>_. [])"
    "other_rules backend chain name w' = other_rules backend chain name w"
proof -
  have "rules_held backend chain name w' c ch = ((rules_held backend chain name w)(b := \<lambda>_. [])) c ch" for c ch
    using comment_inj [OF assms(1,2), of c] by (auto simp: rules_held_def assms(3) filter_empty_conv intro!: filter_cong)
  then show "rules_held backend chain name w' = (rules_held backend chain name w)(b := \<lambda>_. [])" by blast
  show "other_rules backend chain name w' = other_rules backend chain name w"
  proof
    fix ch
    have "(\<forall>c. bound c \<longrightarrow> comment_shown backend s \<noteq> Some (binding_comment name c)) \<and> comment_shown backend s \<noteq> Some (binding_comment name b) \<longleftrightarrow>
      (\<forall>c. bound c \<longrightarrow> comment_shown backend s \<noteq> Some (binding_comment name c))" for s using assms(2) by blast
    then show "other_rules backend chain name w' ch = other_rules backend chain name w ch" by (simp add: other_rules_def assms(3) conj_commute)
  qed
qed

theorem bridged_rules:
  assumes "firewall backend tool chain" "validate_name name = Inr ()" "LF \<notin> set name"
  shows "rule_applier (bridged_applier tool (Some backend) (Some ip) name) (rules_held backend chain name) (other_rules backend chain name)
    (first_rules backend ip name) (always_installs tool backend ip name)"
  unfolding rule_applier_def
proof (intro conjI allI impI)
  show "first_rules backend ip name b t 0 ch = []" for b t ch by (simp add: first_rules_def)
next
  fix b t w
  assume v: "valid_forward (b, t)"
  obtain p a hp x gp where bt: "b = (p, a, hp)" "t = (x, gp)" by (metis surj_pair)
  have b: "bound (p, a, hp)" using v bt by (auto simp: bound_def)
  obtain w' where w': "run_remove tool backend p hp name w = Some (Inr (), w')"
    "chain w' = (\<lambda>ch. if ch \<in> set (chains_of backend)
      then filter (\<lambda>s. comment_shown backend s \<noteq> Some (binding_comment name (p, a, hp))) (chain w ch) else chain w ch)"
    using firewall_removes [OF assms b] by blast
  from held_removed [OF assms(2) b w'(2)] w'(1) show "\<exists>w'. ap_remove (bridged_applier tool (Some backend) (Some ip) name) b t w =
      Some (Inr (), w') \<and> rules_held backend chain name w' = (rules_held backend chain name w)(b := \<lambda>_. []) \<and>
      other_rules backend chain name w' = other_rules backend chain name w"
    unfolding bt by (intro exI [of _ w']) (simp add: bridged_applier_def require_ready_def)
next
  fix b t w
  assume v: "valid_forward (b, t)"
  obtain p a hp x gp where bt: "b = (p, a, hp)" "t = (x, gp)" by (metis surj_pair)
  have b: "bound (p, a, hp)" using v bt by (auto simp: bound_def)
  obtain r w' k where r: "run_install tool backend ip p hp gp name w = (r, w')"
    "chain w' = (\<lambda>ch. chain w ch @ first_rules backend ip name b t k ch)" "if r = Inr () then k = 3 else r = Inl SubprocessErrorC \<and> k < 3"
    using firewall_installs [OF assms v [unfolded bt], of ip w] unfolding first_rules_def bt by blast
  have "\<not> always_installs tool backend ip name b t" if "r \<noteq> Inr ()"
    using r(1) that by (auto simp: always_installs_def bt intro!: exI [of _ w])
  with held_appended [OF assms(2,3) b [folded bt] r(2)] r(1,3)
  show "\<exists>r w' k. ap_add (bridged_applier tool (Some backend) (Some ip) name) b t w = Some (r, w') \<and>
      rules_held backend chain name w' =
        (rules_held backend chain name w)(b := \<lambda>ch. rules_held backend chain name w b ch @ first_rules backend ip name b t k ch) \<and>
      other_rules backend chain name w' = other_rules backend chain name w \<and>
      (if r = Inr () then k = 3 else r = Inl SubprocessErrorC \<and> k < 3 \<and> \<not> always_installs tool backend ip name b t)"
    by (intro exI [of _ r] exI [of _ w'] exI [of _ k] conjI) (auto simp: bt bridged_applier_def require_ready_def)
qed

section \<open>An assignment of forwards\<close>


section \<open>Sample firewalls\<close>

text \<open>
  An iptables and an nft that print of a rule no more than its comment, and refuse the rules whose comment is not one word.  The
  world of the first are the rules of each chain, and that of the second are the rules with their handles.
\<close>

definition plain_rule :: "string \<Rightarrow> rule \<Rightarrow> bool" where
  "plain_rule backend s \<longleftrightarrow> (case comment_shown backend s of None \<Rightarrow> True | Some c \<Rightarrow> solid c)"

definition ipt_rules :: "(string \<Rightarrow> rule list) \<Rightarrow> string \<Rightarrow> rule list" where
  "ipt_rules w ch = filter (plain_rule ''iptables'') (w ch)"

definition ipt_line :: "nat \<Rightarrow> rule \<Rightarrow> string" where
  "ipt_line n s = nat_str n @ (case comment_shown ''iptables'' s of None \<Rightarrow> [] | Some c \<Rightarrow> '' /* '' @ c @ '' */'')"

definition sample_ipt :: "(string \<Rightarrow> rule list) tool" where
  "sample_ipt argv w =
     (let ch = argv ! 4; rs = ipt_rules w ch; s = drop 5 argv; i = digits_val (argv ! 5) - 1
      in if argv ! 3 = ''-A'' then if plain_rule ''iptables'' s then (Inr (0, []), w(ch := rs @ [s])) else (Inr (1, []), w)
         else if argv ! 3 = ''-L'' then (Inr (0, unlines (map (\<lambda>i. ipt_line (Suc i) (rs ! i)) [0..<length rs])), w)
         else (Inr (0, []), w(ch := take i rs @ drop (Suc i) rs)))"

lemma solid_clean: "solid c \<Longrightarrow> no_breaks c \<and> blanks_only c"
  using linebreak_isspace by (auto simp: solid_def no_breaks_def blanks_only_def)

lemma nat_str_solid: "solid (nat_str n)"
  using nat_text [of n] is_digit_not_space by (auto simp: solid_def)

lemma ipt_line_row:
  assumes "plain_rule ''iptables'' s"
  shows "ipt_row n (ipt_line n s) s" "no_breaks (ipt_line n s)"
proof -
  note n = nat_str_solid [of n] solid_clean [OF nat_str_solid, of n]
  show "no_breaks (ipt_line n s)"
    using assms n solid_clean by (auto simp: ipt_line_def plain_rule_def no_breaks_def py_linebreak_def cp_def split: option.splits)
  show "ipt_row n (ipt_line n s) s"
  proof (cases "comment_shown ''iptables'' s")
    case None
    with n words_of_solid [OF n(1)] show ?thesis by (auto simp: ipt_row_def ipt_line_def)
  next
    case (Some c)
    with assms have c: "solid c" by (simp add: plain_rule_def)
    have "solid ''/*''" "solid ''*/''" by code_simp+
    then have "py_words (ipt_line n s) = [nat_str n, ''/*'', c, ''*/'']"
      using words_cons [OF n(1), of "''/* '' @ c @ '' */''"] words_cons [of "''/*''" "c @ '' */''"] words_cons [OF c, of "''*/''"]
        words_of_solid [of "''*/''"] Some by (simp add: ipt_line_def)
    moreover have "blanks_only (ipt_line n s)"
      using n solid_clean [OF c] Some by (auto simp: ipt_line_def blanks_only_def py_isspace_def cp_def)
    ultimately show ?thesis using Some by (auto simp: ipt_row_def)
  qed
qed

lemma ipt_rules_upd: "\<forall>s \<in> set rs. plain_rule ''iptables'' s \<Longrightarrow> ipt_rules (w(ch := rs)) = (ipt_rules w)(ch := rs)"
  by (auto simp: ipt_rules_def fun_eq_iff)

lemma sample_nat_table: "nat_table sample_ipt ipt_rules"
  unfolding nat_table_def
proof (intro conjI ballI allI impI)
  have "ipt_rules (w(ch := ipt_rules w ch @ [s])) = (ipt_rules w)(ch := ipt_rules w ch @ [s])" if "plain_rule ''iptables'' s" for w ch s
    by (rule ipt_rules_upd) (use that in \<open>auto simp: ipt_rules_def\<close>)
  then show "appends ''iptables'' sample_ipt ipt_rules" by (auto simp: appends_def append_rule_def sample_ipt_def Let_def)
next
  fix ch and w :: "string \<Rightarrow> rule list"
  have p: "plain_rule ''iptables'' (ipt_rules w ch ! i)" if "i < length (ipt_rules w ch)" for i
    using nth_mem [OF that] by (simp add: ipt_rules_def)
  let ?rows = "map (\<lambda>i. ipt_line (Suc i) (ipt_rules w ch ! i)) [0..<length (ipt_rules w ch)]"
  have "py_splitlines (unlines ?rows) = ?rows" using p ipt_line_row(2) by (intro splitlines_unlines) auto
  then have "ipt_prints (unlines ?rows) (ipt_rules w ch)"
    unfolding ipt_prints_def by (intro exI [of _ "[]"] exI [of _ ?rows]) (auto simp: p ipt_line_row(1))
  then show "\<exists>out. sample_ipt (ipt_list ch) w = (Inr (0, out), w) \<and> ipt_prints out (ipt_rules w ch)"
    by (simp add: sample_ipt_def ipt_list_def Let_def)
next
  fix ch i and w :: "string \<Rightarrow> rule list"
  let ?rs = "take i (ipt_rules w ch) @ drop (Suc i) (ipt_rules w ch)"
  have "ipt_rules (w(ch := ?rs)) = (ipt_rules w)(ch := ?rs)"
    by (rule ipt_rules_upd) (auto dest!: in_set_takeD in_set_dropD simp: ipt_rules_def)
  then show "\<exists>out w'. sample_ipt (ipt_delete ch (nat_str (Suc i))) w = (Inr (0, out), w') \<and> ipt_rules w' = (ipt_rules w)(ch := ?rs)"
    by (simp add: sample_ipt_def ipt_delete_def Let_def)
qed

definition nft_numbers :: "(string \<Rightarrow> (nat \<times> rule) list) \<Rightarrow> string \<Rightarrow> (nat \<times> rule) list" where
  "nft_numbers w ch = (if distinct (map fst (w ch)) \<and> list_all (\<lambda>x. plain_rule ''nft'' (snd x)) (w ch) then w ch else [])"

definition nft_rules :: "(string \<Rightarrow> (nat \<times> rule) list) handled" where
  "nft_rules w ch = map (\<lambda>x. (nat_str (fst x), snd x)) (nft_numbers w ch)"

definition nft_line :: "string \<times> rule \<Rightarrow> string" where
  "nft_line x = (case comment_shown ''nft'' (snd x) of None \<Rightarrow> [] | Some c \<Rightarrow> ''comment '' @ quoted c) @ '' # handle '' @ fst x"

definition sample_nft :: "(string \<Rightarrow> (nat \<times> rule) list) tool" where
  "sample_nft argv w =
     (let s = drop 6 argv; xs = nft_numbers w (argv ! 5)
      in if argv ! 1 = ''-a'' then (Inr (0, unlines (map nft_line (nft_rules w (argv ! 6)))), w)
         else if argv ! 1 = ''delete'' then (Inr (0, []), w(argv ! 5 := filter (\<lambda>x. nat_str (fst x) \<noteq> argv ! 7) xs))
         else if argv ! 2 = ''rule'' then
           (if plain_rule ''nft'' s then (Inr (0, []), w(argv ! 5 := xs @ [(Suc (sum_list (map fst xs)), s)])) else (Inr (1, []), w))
         else (Inr (0, []), w))"

lemma nft_numbers_ok: "distinct (map fst (nft_numbers w ch))" "x \<in> set (nft_numbers w ch) \<Longrightarrow> plain_rule ''nft'' (snd x)"
  by (auto simp: nft_numbers_def list_all_iff)

lemma nft_rules_upd:
  assumes "distinct (map fst xs)" "\<And>x. x \<in> set xs \<Longrightarrow> plain_rule ''nft'' (snd x)"
  shows "nft_rules (w(ch := xs)) = (nft_rules w)(ch := map (\<lambda>x. (nat_str (fst x), snd x)) xs)"
  using assms by (auto simp: nft_rules_def nft_numbers_def list_all_iff fun_eq_iff)

lemma fresh_number: "Suc (sum_list (map fst xs)) \<notin> fst ` set (xs :: (nat \<times> rule) list)"
  using member_le_sum_list [of _ "map fst xs"] by fastforce

lemma nft_line_row:
  assumes "x \<in> set (nft_rules w ch)"
  shows "nft_row (nft_line x) x" "no_breaks (nft_line x)"
proof -
  from assms obtain n s where x: "x = (nat_str n, s)" "plain_rule ''nft'' s" using nft_numbers_ok(2) by (fastforce simp: nft_rules_def)
  show "nft_row (nft_line x) x" by (auto simp: nft_row_def nft_line_def intro!: exI [of _ "[]"])
  show "no_breaks (nft_line x)"
    using x solid_clean solid_clean [OF nat_str_solid [of n]]
    by (auto simp: nft_line_def plain_rule_def quoted_def no_breaks_def py_linebreak_def cp_def split: option.splits)
qed

lemma nft_handles_apart: "handles_apart (nft_rules w ch)"
proof -
  have "map fst (nft_rules w ch) = map nat_str (map fst (nft_numbers w ch))" by (auto simp: nft_rules_def)
  moreover have "distinct (map nat_str (map fst (nft_numbers w ch)))"
    using nft_numbers_ok(1) by (subst distinct_map) (auto simp: inj_on_def)
  moreover have "CHR 34 \<notin> set (nat_str n)" for n using nat_text [of n] by (auto simp: is_digit_def cp_def)
  ultimately show ?thesis unfolding handles_apart_def using nat_str_solid by (simp only: simp_thms) (auto simp: nft_rules_def)
qed

lemma sample_nft_appends: "appends ''nft'' sample_nft (\<lambda>w ch. map snd (nft_rules w ch))"
proof -
  have "nft_rules (w(ch := nft_numbers w ch @ [(Suc (sum_list (map fst (nft_numbers w ch))), s)])) =
    (nft_rules w)(ch := nft_rules w ch @ [(nat_str (Suc (sum_list (map fst (nft_numbers w ch)))), s)])" if "plain_rule ''nft'' s" for w ch s
  proof -
    let ?xs = "nft_numbers w ch @ [(Suc (sum_list (map fst (nft_numbers w ch))), s)]"
    have "distinct (map fst ?xs)" using nft_numbers_ok(1) [of w ch] fresh_number [of "nft_numbers w ch"] by simp
    moreover have "plain_rule ''nft'' (snd x)" if "x \<in> set ?xs" for x using that nft_numbers_ok(2) [of x w ch] \<open>plain_rule ''nft'' s\<close> by auto
    ultimately have "nft_rules (w(ch := ?xs)) = (nft_rules w)(ch := map (\<lambda>x. (nat_str (fst x), snd x)) ?xs)" by (rule nft_rules_upd)
    then show ?thesis by (simp add: nft_rules_def [of w ch])
  qed
  moreover have "(\<lambda>c. map snd ((f(ch := xs)) c)) = (\<lambda>c. map snd (f c))(ch := map snd xs)"
    for f :: "string \<Rightarrow> (string \<times> rule) list" and ch xs by (simp add: fun_eq_iff)
  ultimately show ?thesis by (simp add: appends_def append_rule_def sample_nft_def Let_def del: fun_upd_apply)
qed

lemma sample_nft_table: "nft_table sample_nft nft_rules"
  unfolding nft_table_def
proof (intro conjI ballI allI)
  show "appends ''nft'' sample_nft (\<lambda>w ch. map snd (nft_rules w ch))" by (rule sample_nft_appends)
next
  fix argv w
  assume "argv \<in> set NFT_BOOTSTRAP"
  then show "\<exists>a w'. sample_nft (''nft'' # argv) w = (Inr a, w') \<and> nft_rules w' = nft_rules w"
    by (auto simp: NFT_BOOTSTRAP_def sample_nft_def)
next
  fix ch and w :: "string \<Rightarrow> (nat \<times> rule) list"
  show "handles_apart (nft_rules w ch)" by (rule nft_handles_apart)
  let ?rows = "map nft_line (nft_rules w ch)"
  have "py_splitlines (unlines ?rows) = ?rows" using nft_line_row(2) by (intro splitlines_unlines) auto
  then have "nft_prints (unlines ?rows) (nft_rules w ch)"
    unfolding nft_prints_def by (intro exI [of _ "[]"] exI [of _ ?rows]) (auto simp: list.rel_map nft_line_row(1) intro!: list.rel_refl_strong)
  then show "\<exists>rc out. sample_nft [''nft'', ''-a'', ''list'', ''chain'', ''ip'', ''kento'', ch] w = (Inr (rc, out), w) \<and>
      (if rc = 0 then nft_prints out (nft_rules w ch) else nft_rules w ch = [])"
    by (simp add: sample_nft_def)
next
  fix ch k and w :: "string \<Rightarrow> (nat \<times> rule) list"
  have "nft_rules (w(ch := filter (\<lambda>x. nat_str (fst x) \<noteq> k) (nft_numbers w ch))) =
    (nft_rules w)(ch := map (\<lambda>x. (nat_str (fst x), snd x)) (filter (\<lambda>x. nat_str (fst x) \<noteq> k) (nft_numbers w ch)))"
    by (rule nft_rules_upd) (use nft_numbers_ok in \<open>auto simp: distinct_map_filter\<close>)
  also have "map (\<lambda>x. (nat_str (fst x), snd x)) (filter (\<lambda>x. nat_str (fst x) \<noteq> k) (nft_numbers w ch)) = filter (\<lambda>x. fst x \<noteq> k) (nft_rules w ch)"
    by (simp add: nft_rules_def filter_map comp_def)
  finally have upd: "nft_rules (w(ch := filter (\<lambda>x. nat_str (fst x) \<noteq> k) (nft_numbers w ch))) = (nft_rules w)(ch := filter (\<lambda>x. fst x \<noteq> k) (nft_rules w ch))" .
  have "sample_nft (nft_delete ch k) w = (Inr (0, []), w(ch := filter (\<lambda>x. nat_str (fst x) \<noteq> k) (nft_numbers w ch)))"
    by (simp add: sample_nft_def nft_delete_def)
  with upd show "\<exists>a w'. sample_nft (nft_delete ch k) w = (Inr a, w') \<and> nft_rules w' = (nft_rules w)(ch := filter (\<lambda>x. fst x \<noteq> k) (nft_rules w ch))"
    by blast
qed

text \<open>Both accept the rules of every forward, and a first forward is installed by the applier itself.\<close>

lemma run_each_accepted:
  "(\<And>ch s w. (ch, s) \<in> set rs \<Longrightarrow> \<exists>out w'. tool (append_rule backend ch s) w = (Inr (0, out), w')) \<Longrightarrow>
     fst (run_each tool (map (\<lambda>(ch, s). append_rule backend ch s) rs) w) = Inr ()"
proof (induction rs arbitrary: w)
  case (Cons x rs)
  obtain ch s where x: "x = (ch, s)" by (cases x)
  then obtain out w1 where "tool (append_rule backend ch s) w = (Inr (0, out), w1)" using Cons.prems [of ch s w] by auto
  moreover have "fst (run_each tool (map (\<lambda>(ch, s). append_rule backend ch s) rs) w1) = Inr ()" by (rule Cons.IH, rule Cons.prems) simp
  ultimately show ?case by (simp add: x run_one_def)
qed simp

lemma accepting_installs:
  assumes fw: "firewall backend tool chain" and name: "validate_name name = Inr ()" "LF \<notin> set name" and v: "valid_forward (b, t)"
    and accepts: "\<And>ch s w. plain_rule backend s \<Longrightarrow> \<exists>out w'. tool (append_rule backend ch s) w = (Inr (0, out), w')"
  shows "always_installs tool backend ip name b t"
proof -
  obtain p a hp x gp where bt: "b = (p, a, hp)" "t = (x, gp)" by (metis surj_pair)
  have b: "bound b" using v unfolding bound_def by blast
  have backend: "backend = ''nft'' \<or> backend = ''iptables''" using fw by (auto simp: firewall_def)
  obtain argvs where argvs: "build_install backend ip p hp gp name = Inr argvs"
    "map (\<lambda>argv. backend # argv) argvs = map (\<lambda>(ch, s). append_rule backend ch s) (forward_rules backend ip name b t)"
    using build_is_append [OF backend] unfolding bt by blast
  have "plain_rule backend s" if "(ch, s) \<in> set (forward_rules backend ip name b t)" for ch s
    using forward_rules_shown(1) [OF name b that] comment_solid(1) [OF name b] by (simp add: plain_rule_def)
  then have each: "fst (run_each tool (map (\<lambda>argv. backend # argv) argvs) w) = Inr ()" for w
    unfolding argvs(2) by (intro run_each_accepted accepts) blast
  have "fst (run_install tool backend ip p hp gp name w) = Inr ()" for w
  proof -
    obtain w1 where "(if backend = ''nft'' then ensure_nft_table tool w else (Inr (), w)) = (Inr (), w1)"
      using fw bootstrap_spares by (fastforce simp: firewall_def)
    with argvs(1) each [of w1] show ?thesis by (simp add: run_install_def)
  qed
  then show ?thesis by (simp add: always_installs_def bt)
qed

lemma first_installed:
  assumes fw: "firewall backend tool chain" and name: "validate_name name = Inr ()" "LF \<notin> set name" and v: "valid_forward (b, t)"
    and sure: "always_installs tool backend ip name b t" and none: "\<And>ch. chain w ch = []"
  shows "\<exists>w'. rules_held backend chain name w' = rules_at (first_rules backend ip name) (map_of [(b, t)])"
proof -
  obtain r w' k where w': "rules_held backend chain name w' =
      (rules_held backend chain name w)(b := \<lambda>ch. rules_held backend chain name w b ch @ first_rules backend ip name b t k ch)"
    "if r = Inr () then k = 3 else r = Inl SubprocessErrorC \<and> k < 3 \<and> \<not> always_installs tool backend ip name b t"
    by (rule rule_applier_add [OF bridged_rules [OF fw name] v])
  have "k = 3" using w'(2) sure by (auto split: if_splits)
  with w'(1) none show ?thesis by (intro exI [of _ w']) (auto simp: rules_at_def rules_held_def fun_eq_iff)
qed

definition no_monitor :: "'w applier" where
  "no_monitor = \<lparr>ap_add = (\<lambda>_ _ _. None), ap_remove = (\<lambda>_ _ _. None)\<rparr>"


end
