(* ===== verification/Vmrun.thy ===== *)
theory Vmrun imports Effects Layers begin

text \<open>
  The runtime of plain VMs, \<^verbatim>\<open>vm.py\<close>: mounting the root file system, starting virtiofsd and QEMU
  with the rollback of a failed start, the command line of QEMU, signalling and waiting for
  processes, stopping, and the allocation of a host port.  The state is the metadata of the
  instance's directory and the world of the operating system.
\<close>

record 'w guest =
  g_files :: files
  g_world :: 'w

definition osP :: "('w \<Rightarrow> (exc + 'a) \<times> 'w) \<Rightarrow> ('a, 'w guest) prog" where
  "osP f = act (\<lambda>g. case f (g_world g) of (r, w) \<Rightarrow> (r, g\<lparr>g_world := w\<rparr>))"

definition askP :: "('w \<Rightarrow> 'a) \<Rightarrow> ('a, 'w guest) prog" where "askP f = look (\<lambda>g. f (g_world g))"
definition doP :: "('w \<Rightarrow> 'w) \<Rightarrow> (unit, 'w guest) prog" where "doP f = alter (\<lambda>g. g\<lparr>g_world := f (g_world g)\<rparr>)"
definition file_of :: "string \<Rightarrow> (string option, 'w guest) prog" where "file_of f = look (\<lambda>g. g_files g f)"
definition drop_file :: "string \<Rightarrow> (unit, 'w guest) prog" where
  "drop_file f = alter (\<lambda>g. g\<lparr>g_files := (g_files g)(f := None)\<rparr>)"
definition put_file :: "string \<Rightarrow> string \<Rightarrow> (unit, 'w guest) prog" where
  "put_file f t = alter (\<lambda>g. g\<lparr>g_files := (g_files g)(f \<mapsto> t)\<rparr>)"

text \<open>\<^verbatim>\<open>read_text().strip()\<close> of a file that must be there.\<close>

definition need_file :: "string \<Rightarrow> (string, 'w guest) prog" where
  "need_file f = bindP (file_of f) (\<lambda>t. case t of None \<Rightarrow> raise_exc FileNotFoundErrorC | Some x \<Rightarrow> give (file_text x))"

section \<open>Programs and ports\<close>

definition VIRTIOFSD_SEARCH :: "string list" where
  "VIRTIOFSD_SEARCH = [''/usr/libexec/virtiofsd'', ''/usr/lib/qemu/virtiofsd'', ''/usr/lib/virtiofsd'', ''/usr/bin/virtiofsd'']"

definition find_virtiofsd :: "'w os \<Rightarrow> (string, 'w guest) prog" where
  "find_virtiofsd os =
     (if truthy (os_which os ''virtiofsd'') then give (the (os_which os ''virtiofsd''))
      else bindP (askP (\<lambda>w. find (\<lambda>c. os_is_file os c w) VIRTIOFSD_SEARCH))
             (\<lambda>c. case c of Some p \<Rightarrow> give p | None \<Rightarrow> raise_exc StateErrorC))"

definition find_qemu :: "'w os \<Rightarrow> (string, 'w guest) prog" where
  "find_qemu os =
     (if truthy (os_which os ''qemu-system-x86_64'') then give (the (os_which os ''qemu-system-x86_64''))
      else raise_exc StateErrorC)"

definition PORT_LOW :: int where "PORT_LOW = 10022"
definition PORT_HIGH :: int where "PORT_HIGH = 10999"

definition host_ports :: "files \<Rightarrow> int list" where
  "host_ports fs = (case fs ''kento-port'' of None \<Rightarrow> []
     | Some t \<Rightarrow> List.map_filter (\<lambda>l. py_int (hd (py_split (CHR '':'') l)))
                   (filter (\<lambda>l. l \<noteq> []) (map py_strip (read_lines t))))"

fun listing_ports :: "listing \<Rightarrow> int list" where
  "listing_ports [] = []"
| "listing_ports ((d, EFile) # es) = listing_ports es"
| "listing_ports ((d, EDir fs) # es) = host_ports fs @ listing_ports es"

definition used_ports :: "store \<Rightarrow> int list \<Rightarrow> int list" where
  "used_ports st exclude = exclude @ listing_ports (entries_of st VM_BASE) @ listing_ports (entries_of st LXC_BASE)"

definition allocate_port :: "store \<Rightarrow> (int \<Rightarrow> bool) \<Rightarrow> int list \<Rightarrow> exc + int" where
  "allocate_port st port_is_free exclude =
     (let used = used_ports st exclude
      in case find (\<lambda>p. p \<notin> set used \<and> port_is_free p) [PORT_LOW..PORT_HIGH] of
           Some p \<Rightarrow> Inr p | None \<Rightarrow> Inl StateErrorC)"

section \<open>Mounting\<close>

definition vm_up :: "'w os \<Rightarrow> 'w guest \<Rightarrow> bool" where
  "vm_up os g = (case g_files g ''kento-qemu-pid'' of None \<Rightarrow> False
     | Some t \<Rightarrow> (case py_int (file_text t) of None \<Rightarrow> False | Some pid \<Rightarrow> os_alive os pid (g_world g)))"

definition is_vm_running :: "'w os \<Rightarrow> (bool, 'w guest) prog" where "is_vm_running os = look (vm_up os)"

definition is_mountpoint :: "'w os \<Rightarrow> string \<Rightarrow> (bool, 'w guest) prog" where
  "is_mountpoint os p = bindP (osP (os_run os None [''mountpoint'', ''-q'', p])) (\<lambda>(rc, _). give (rc = 0))"

definition umount_with_retry :: "'w os \<Rightarrow> string \<Rightarrow> bool \<Rightarrow> (bool, 'w guest) prog" where
  "umount_with_retry os p force =
     bindP (osP (os_run os None [''umount'', p])) (\<lambda>(rc, _).
       if rc = 0 then give True
       else seqP (exceptP [FileNotFoundErrorC, OSErrorC]
                    (bindP (osP (os_run os None [''fuser'', ''-km'', p])) (\<lambda>_. give ())) (give ()))
              (bindP (osP (os_run os None [''umount'', ''-l'', p])) (\<lambda>(rc2, _).
                if rc2 = 0 then give True else give force)))"

definition rootfs_path :: "ppath \<Rightarrow> string" where "rootfs_path cdir = path_str (path_div cdir ''rootfs'')"

definition mount_rootfs :: "'w os \<Rightarrow> ppath \<Rightarrow> string \<Rightarrow> ppath \<Rightarrow> (unit, 'w guest) prog" where
  "mount_rootfs os cdir layers state_dir =
     bindP (is_mountpoint os (rootfs_path cdir)) (\<lambda>mounted.
       if mounted then raise_exc StateErrorC
       else bindP (pure_res (to_overlay_lowerdir (os_link os) layers)) (\<lambda>(base_dir, rel).
         osP (run_or_die (os_run os (if base_dir = [] then None else Some base_dir))
           [''mount'', ''-t'', ''overlay'', ''overlay'', ''-o'', overlay_opts rel state_dir, rootfs_path cdir])))"

definition unmount_rootfs :: "'w os \<Rightarrow> ppath \<Rightarrow> (unit, 'w guest) prog" where
  "unmount_rootfs os cdir = osP (run_or_die (os_run os None) [''umount'', rootfs_path cdir])"

section \<open>The command line of QEMU\<close>

definition VM_MEMORY :: int where "VM_MEMORY = 1024"
definition VM_CORES :: int where "VM_CORES = 1"
definition VM_KVM :: bool where "VM_KVM = True"
definition VM_MACHINE :: string where "VM_MACHINE = ''q35''"

definition sock_path :: "ppath \<Rightarrow> string \<Rightarrow> string" where "sock_path cdir s = path_str (path_div cdir s)"

definition text_or :: "files \<Rightarrow> string \<Rightarrow> string \<Rightarrow> string" where
  "text_or fs f d = (case fs f of Some t \<Rightarrow> file_text t | None \<Rightarrow> d)"

definition cpu_model :: "files \<Rightarrow> string" where
  "cpu_model fs = (if fs ''kento-nesting'' \<noteq> None \<and> text_or fs ''kento-nesting'' [] = ''1'' then ''host''
                   else ''host,vmx=off,svm=off'')"

definition nic_args :: "files \<Rightarrow> string list \<Rightarrow> string list" where
  "nic_args fs hostfwds =
     (if hostfwds = [] then []
      else let mac = text_or fs ''kento-mac'' []
           in [''-netdev'', ''user,id=net0,'' @ py_join '','' (map (\<lambda>hf. ''hostfwd='' @ hf) hostfwds),
               ''-device'', if mac \<noteq> [] then ''virtio-net-pci,netdev=net0,mac='' @ mac else ''virtio-net-pci,netdev=net0''])"

definition passthrough_args :: "files \<Rightarrow> string list" where
  "passthrough_args fs = (case fs ''kento-qemu-args'' of None \<Rightarrow> []
     | Some t \<Rightarrow> filter (\<lambda>l. l \<noteq> []) (map py_strip (read_lines t)))"

definition qemu_argv :: "ppath \<Rightarrow> files \<Rightarrow> exc + string list" where
  "qemu_argv cdir fs =
     (let (kernel, initramfs) = resolve_boot_sources fs (path_div cdir ''rootfs'')
      in bindE (read_hostfwds fs) (\<lambda>hostfwds.
         let memory = text_or fs ''kento-memory'' (int_str VM_MEMORY);
             cores = text_or fs ''kento-cores'' (int_str VM_CORES)
         in Inr ([''qemu-system-x86_64'', ''-kernel'', path_str kernel, ''-initrd'', path_str initramfs,
                  ''-m'', memory, ''-smp'', cores, ''-machine'', VM_MACHINE] @
              (if VM_KVM then [''-enable-kvm'', ''-cpu'', cpu_model fs] else []) @
              [''-display'', ''none'',
               ''-serial'', ''unix:'' @ sock_path cdir ''serial.sock'' @ '',server=on,wait=off'',
               ''-qmp'', ''unix:'' @ sock_path cdir ''qmp.sock'' @ '',server=on,wait=off'',
               ''-chardev'', ''socket,id=vfs,path='' @ sock_path cdir ''virtiofsd.sock'',
               ''-device'', ''vhost-user-fs-pci,chardev=vfs,tag=rootfs'',
               ''-object'', ''memory-backend-memfd,id=mem,size='' @ memory @ ''M,share=on'',
               ''-numa'', ''node,memdev=mem''] @
              nic_args fs hostfwds @
              [''-append'', ''console=ttyS0 rootfstype=virtiofs root=rootfs''] @
              passthrough_args fs)))"

definition launch_qemu :: "'w os \<Rightarrow> ppath \<Rightarrow> (int, 'w guest) prog" where
  "launch_qemu os cdir =
     bindP (look g_files) (\<lambda>fs. bindP (pure_res (qemu_argv cdir fs)) (\<lambda>argv. osP (os_spawn os argv)))"

section \<open>Starting\<close>

text \<open>\<^verbatim>\<open>Popen.terminate\<close> and \<^verbatim>\<open>Popen.kill\<close>: no signal to a process that has been reaped.\<close>

definition popen_signal :: "'w os \<Rightarrow> int \<Rightarrow> sig \<Rightarrow> (unit, 'w guest) prog" where
  "popen_signal os pid s = bindP (askP (os_exited os pid)) (\<lambda>gone.
     if gone then give () else exceptP [ProcessLookupErrorC] (osP (os_kill os pid s)) (give ()))"

definition end_virtiofsd :: "'w os \<Rightarrow> int \<Rightarrow> (unit, 'w guest) prog" where
  "end_virtiofsd os pid =
     tryP (seqP (popen_signal os pid SIGTERM) (osP (os_wait os pid 5)))
       (\<lambda>e. if catches [TimeoutExpiredC] e then
              exceptP [TimeoutExpiredC, OSErrorC] (seqP (popen_signal os pid SIGKILL) (osP (os_wait os pid 5))) (give ())
            else if catches [OSErrorC, ValueErrorC] e then give ()
            else raise_exc e)"

definition cleanup_failed_start :: "'w os \<Rightarrow> ppath \<Rightarrow> int option \<Rightarrow> (unit, 'w guest) prog" where
  "cleanup_failed_start os cdir virtiofsd =
     seqP (case virtiofsd of None \<Rightarrow> give () | Some pid \<Rightarrow> end_virtiofsd os pid)
       (seqP (drop_file ''kento-virtiofsd-pid'')
         (seqP (drop_file ''kento-qemu-pid'')
           (bindP (is_mountpoint os (rootfs_path cdir)) (\<lambda>mounted.
             seqP (if mounted then bindP (umount_with_retry os (rootfs_path cdir) True) (\<lambda>_. give ()) else give ())
               (doP (os_unlink_sock os ''virtiofsd.sock''))))))"

text \<open>The wait for the socket: at most fifty looks, a tenth of a second apart.\<close>

fun wait_sock :: "'w os \<Rightarrow> nat \<Rightarrow> 'w \<Rightarrow> 'w" where
  "wait_sock os 0 w = w"
| "wait_sock os (Suc n) w = (if os_sock os ''virtiofsd.sock'' w then w else wait_sock os n (os_sleep os (1/10) w))"

text \<open>The first half of a start, without a rollback of its own: up to the programs found.\<close>

definition start_prepare :: "'w os \<Rightarrow> ppath \<Rightarrow> (string, 'w guest) prog" where
  "start_prepare os cdir =
     bindP (need_file ''kento-layers'') (\<lambda>layers.
     bindP (need_file ''kento-state'') (\<lambda>state.
     seqP (mount_rootfs os cdir layers (mk_path state))
     (bindP (look g_files) (\<lambda>fs.
      let (kernel, initramfs) = resolve_boot_sources fs (path_div cdir ''rootfs'')
      in bindP (askP (os_is_file os (path_str kernel))) (\<lambda>k.
         if \<not> k then seqP (unmount_rootfs os cdir) (raise_exc StateErrorC)
         else bindP (askP (os_is_file os (path_str initramfs))) (\<lambda>i.
         if \<not> i then seqP (unmount_rootfs os cdir) (raise_exc StateErrorC)
         else if fs ''kento-inject.sh'' = None then seqP (unmount_rootfs os cdir) (raise_exc StateErrorC)
         else seqP (osP (run_or_die (os_run os None)
                [''sh'', sock_path cdir ''kento-inject.sh'', rootfs_path cdir, path_str cdir]))
              (bindP (find_virtiofsd os) (\<lambda>bin. seqP (bindP (find_qemu os) (\<lambda>_. give ())) (give bin)))))))))"

text \<open>The second half, whose every failure is rolled back.\<close>

definition virtiofsd_argv :: "ppath \<Rightarrow> string \<Rightarrow> string list" where
  "virtiofsd_argv cdir bin = [bin, ''--socket-path='' @ sock_path cdir ''virtiofsd.sock'',
     ''--shared-dir='' @ rootfs_path cdir, ''--cache=auto'']"

definition start_launch :: "'w os \<Rightarrow> ppath \<Rightarrow> string \<Rightarrow> (int, 'w guest) prog" where
  "start_launch os cdir bin =
     bindP (tryP (osP (os_spawn os (virtiofsd_argv cdir bin)))
              (\<lambda>e. seqP (cleanup_failed_start os cdir None) (raise_exc e))) (\<lambda>pid.
     tryP (seqP (put_file ''kento-virtiofsd-pid'' (int_str pid @ [LF]))
            (seqP (doP (wait_sock os 50))
              (bindP (askP (\<lambda>w. os_sock os ''virtiofsd.sock'' w \<and> \<not> os_exited os pid w)) (\<lambda>up.
                if \<not> up then raise_exc StateErrorC else launch_qemu os cdir))))
       (\<lambda>e. seqP (cleanup_failed_start os cdir (Some pid)) (raise_exc e)))"

definition start_vm :: "'w os \<Rightarrow> ppath \<Rightarrow> (unit, 'w guest) prog" where
  "start_vm os cdir =
     bindP (is_vm_running os) (\<lambda>up.
       if up then give ()
       else bindP (start_prepare os cdir) (\<lambda>bin.
            bindP (start_launch os cdir bin) (\<lambda>qemu.
            put_file ''kento-qemu-pid'' (int_str qemu @ [LF]))))"

section \<open>Stopping\<close>

text \<open>The wait for a process: whether it was seen gone before the deadline.\<close>

partial_function (option) wait_gone :: "'w os \<Rightarrow> int \<Rightarrow> rat \<Rightarrow> 'w \<Rightarrow> (bool \<times> 'w) option" where
  "wait_gone os pid deadline w =
     (if os_now os w < deadline then
        (if \<not> os_alive os pid w then Some (True, w) else wait_gone os pid deadline (os_sleep os (1/10) w))
      else Some (False, w))"

definition await_gone :: "'w os \<Rightarrow> int \<Rightarrow> rat \<Rightarrow> (bool, 'w guest) prog" where
  "await_gone os pid timeout g =
     (case wait_gone os pid (os_now os (g_world g) + timeout) (g_world g) of
        None \<Rightarrow> None | Some (b, w) \<Rightarrow> Some (Inr b, g\<lparr>g_world := w\<rparr>))"

definition kill_and_wait :: "'w os \<Rightarrow> string \<Rightarrow> bool \<Rightarrow> bool \<Rightarrow> (unit, 'w guest) prog" where
  "kill_and_wait os pid_file force no_kill =
     bindP (file_of pid_file) (\<lambda>t. case t of None \<Rightarrow> give ()
       | Some x \<Rightarrow> (case py_int (file_text x) of
           None \<Rightarrow> drop_file pid_file
         | Some pid \<Rightarrow>
             bindP (exceptP [ProcessLookupErrorC]
                      (seqP (osP (os_kill os pid (if force then SIGKILL else SIGTERM))) (give True)) (give False)) (\<lambda>sent.
             if \<not> sent then drop_file pid_file
             else bindP (await_gone os pid 5) (\<lambda>gone.
               if gone then drop_file pid_file
               else if no_kill then give ()
               else seqP (exceptP [ProcessLookupErrorC] (osP (os_kill os pid SIGKILL)) (give ()))
                         (drop_file pid_file)))))"

definition stop_vm :: "'w os \<Rightarrow> ppath \<Rightarrow> bool \<Rightarrow> bool \<Rightarrow> (unit, 'w guest) prog" where
  "stop_vm os cdir force no_kill =
     seqP (kill_and_wait os ''kento-qemu-pid'' force no_kill)
     (seqP (kill_and_wait os ''kento-virtiofsd-pid'' force no_kill)
     (seqP (bindP (is_mountpoint os (rootfs_path cdir)) (\<lambda>mounted.
        if mounted then bindP (umount_with_retry os (rootfs_path cdir) force) (\<lambda>ok.
          if ok then give () else raise_exc StateErrorC)
        else give ()))
     (seqP (doP (os_unlink_sock os ''virtiofsd.sock''))
     (seqP (doP (os_unlink_sock os ''serial.sock'')) (doP (os_unlink_sock os ''qmp.sock''))))))"

section \<open>Processes that are stopped\<close>

text \<open>
  What stopping relies on: a signal reaches a process that lives and SIGKILL ends it (at once, which
  is an idealisation: the code waits up to five seconds for it), a process that is gone stays gone, commands answer, and the clock runs.
\<close>

definition signals_work :: "'w os \<Rightarrow> bool" where
  "signals_work os \<longleftrightarrow> (\<forall>pid s w. \<exists>r w'. os_kill os pid s w = (r, w') \<and>
     (if os_alive os pid w then r = Inr () \<and> (s = SIGKILL \<longrightarrow> \<not> os_alive os pid w') else r = Inl ProcessLookupErrorC))"

definition gone_stays :: "'w os \<Rightarrow> bool" where
  "gone_stays os \<longleftrightarrow> (\<forall>pid w. \<not> os_alive os pid w \<longrightarrow>
     (\<forall>d. \<not> os_alive os pid (os_sleep os d w)) \<and> (\<forall>q s. \<not> os_alive os pid (snd (os_kill os q s w))) \<and>
     (\<forall>argv. \<not> os_alive os pid (snd (os_run os None argv w))) \<and> (\<forall>s. \<not> os_alive os pid (os_unlink_sock os s w)))"

definition commands_answer :: "'w os \<Rightarrow> bool" where
  "commands_answer os \<longleftrightarrow> (\<forall>argv w. \<exists>rc out w'. os_run os None argv w = (Inr (rc, out), w'))"

definition unlinks :: "'w os \<Rightarrow> bool" where
  "unlinks os \<longleftrightarrow> (\<forall>s w. \<not> os_sock os s (os_unlink_sock os s w) \<and>
     (\<forall>t. \<not> os_sock os t w \<longrightarrow> \<not> os_sock os t (os_unlink_sock os s w)))"

lemma wait_gone_runs:
  assumes "clock_runs os" "\<And>w. P w \<Longrightarrow> P (os_sleep os (1/10) w)"
  shows "P w \<Longrightarrow> \<exists>b w'. wait_gone os pid deadline w = Some (b, w') \<and> P w' \<and> (b \<longrightarrow> \<not> os_alive os pid w')"
proof (induction "nat \<lceil>(deadline - os_now os w) * 10\<rceil>" arbitrary: w rule: less_induct)
  case less
  show ?case
  proof (cases "os_now os w < deadline \<and> os_alive os pid w")
    case True
    let ?w = "os_sleep os (1/10) w"
    have "os_now os w + 1/10 \<le> os_now os ?w" using assms(1) by (simp add: clock_runs_def)
    then have "(deadline - os_now os ?w) * 10 \<le> (deadline - os_now os w) * 10 - 1" by (simp add: field_simps)
    then have "\<lceil>(deadline - os_now os ?w) * 10\<rceil> \<le> \<lceil>(deadline - os_now os w) * 10\<rceil> - 1"
      by (metis ceiling_diff_one ceiling_mono)
    moreover have "0 < \<lceil>(deadline - os_now os w) * 10\<rceil>" using True by simp
    ultimately have "nat \<lceil>(deadline - os_now os ?w) * 10\<rceil> < nat \<lceil>(deadline - os_now os w) * 10\<rceil>" by linarith
    from less.hyps [OF this assms(2) [OF less.prems]] True show ?thesis by (subst wait_gone.simps) simp
  next
    case False
    with less.prems show ?thesis by (subst wait_gone.simps) auto
  qed
qed

lemma osP_run: "osP f g = Some (fst (f (g_world g)), g\<lparr>g_world := snd (f (g_world g))\<rparr>)"
  by (simp add: osP_def case_prod_beta)

lemma ask_do [simp]:
  "askP f g = Some (Inr (f (g_world g)), g)" "doP h g = Some (Inr (), g\<lparr>g_world := h (g_world g)\<rparr>)"
  "file_of n g = Some (Inr (g_files g n), g)" "drop_file n g = Some (Inr (), g\<lparr>g_files := (g_files g)(n := None)\<rparr>)"
  "put_file n t g = Some (Inr (), g\<lparr>g_files := (g_files g)(n \<mapsto> t)\<rparr>)"
  by (simp_all add: askP_def doP_def file_of_def drop_file_def put_file_def)

lemma bind_give [simp]: "bindP (give x) k w = k x w" by (simp add: bindP_step)
lemma bind_look [simp]: "bindP (look f) k w = k (f w) w" by (simp add: bindP_step)
lemma bind_raise [simp]: "bindP (raise_exc e) k w = Some (Inl e, w)" by (simp add: bindP_step)
lemma bind_pure [simp]: "bindP (pure_res (Inr x)) k w = k x w" by (simp add: bindP_step)
lemma bind_pure_error [simp]: "bindP (pure_res (Inl e)) k w = Some (Inl e, w)" by (simp add: bindP_step)
lemma seq_give [simp]: "seqP (give x) m w = m w" by (simp add: bindP_step)
lemma seq_raise [simp]: "seqP (raise_exc e) m w = Some (Inl e, w)" by (simp add: bindP_step)
lemma seq_alter [simp]: "seqP (alter f) m w = m (f w)" by (simp add: bindP_step)
lemma bind_ask [simp]: "bindP (askP f) k g = k (f (g_world g)) g" by (simp add: bindP_step)
lemma bind_file [simp]: "bindP (file_of n) k g = k (g_files g n) g" by (simp add: bindP_step)
lemma seq_do [simp]: "seqP (doP h) m g = m (g\<lparr>g_world := h (g_world g)\<rparr>)" by (simp add: bindP_step)
lemma seq_drop [simp]: "seqP (drop_file n) m g = m (g\<lparr>g_files := (g_files g)(n := None)\<rparr>)" by (simp add: bindP_step)
lemma seq_put [simp]: "seqP (put_file n t) m g = m (g\<lparr>g_files := (g_files g)(n \<mapsto> t)\<rparr>)" by (simp add: bindP_step)

lemma catches_lookup [simp]: "catches [ProcessLookupErrorC] ProcessLookupErrorC" by (simp add: catches_def mro_step)

text \<open>A kill of a process, allowed to fail because it is gone.\<close>

lemma kill_allowed:
  assumes "signals_work os"
  shows "exceptP [ProcessLookupErrorC] (seqP (osP (os_kill os pid s)) (give True)) (give False) g =
      Some (Inr (os_alive os pid (g_world g)), g\<lparr>g_world := snd (os_kill os pid s (g_world g))\<rparr>)"
    "exceptP [ProcessLookupErrorC] (osP (os_kill os pid s)) (give ()) g =
      Some (Inr (), g\<lparr>g_world := snd (os_kill os pid s (g_world g))\<rparr>)"
    "os_alive os pid (snd (os_kill os pid SIGKILL w)) \<Longrightarrow> \<not> os_alive os pid w"
proof -
  obtain r w' where k: "os_kill os pid s (g_world g) = (r, w')"
    "if os_alive os pid (g_world g) then r = Inr () else r = Inl ProcessLookupErrorC"
    using assms unfolding signals_work_def by meson
  then show "exceptP [ProcessLookupErrorC] (seqP (osP (os_kill os pid s)) (give True)) (give False) g =
      Some (Inr (os_alive os pid (g_world g)), g\<lparr>g_world := snd (os_kill os pid s (g_world g))\<rparr>)"
    "exceptP [ProcessLookupErrorC] (osP (os_kill os pid s)) (give ()) g =
      Some (Inr (), g\<lparr>g_world := snd (os_kill os pid s (g_world g))\<rparr>)"
    by (cases "os_alive os pid (g_world g)"; simp add: exceptP_def tryP.simps seqP_def bindP.simps osP_run)+
  show "os_alive os pid (snd (os_kill os pid SIGKILL w)) \<Longrightarrow> \<not> os_alive os pid w"
    using assms unfolding signals_work_def by (metis snd_conv)
qed

lemma kill_and_wait_kills:
  assumes "clock_runs os" "signals_work os" "gone_stays os"
  shows "\<exists>w'. kill_and_wait os f force False g = Some (Inr (), \<lparr>g_files = (g_files g)(f := None), g_world = w'\<rparr>) \<and>
    (\<forall>t pid. g_files g f = Some t \<and> py_int (file_text t) = Some pid \<longrightarrow> \<not> os_alive os pid w') \<and>
    (\<forall>p. \<not> os_alive os p (g_world g) \<longrightarrow> \<not> os_alive os p w')"
proof (cases "g_files g f")
  case None
  then have "(g_files g)(f := None) = g_files g" by auto
  with None show ?thesis by (intro exI [of _ "g_world g"]) (simp add: kill_and_wait_def)
next
  case (Some t)
  show ?thesis
  proof (cases "py_int (file_text t)")
    case None
    with Some show ?thesis by (intro exI [of _ "g_world g"]) (simp add: kill_and_wait_def)
  next
    case (Some pid)
    let ?s = "if force then SIGKILL else SIGTERM"
    let ?w = "snd (os_kill os pid ?s (g_world g))"
    have stay: "\<not> os_alive os p w \<Longrightarrow> \<not> os_alive os p (os_sleep os d w)" "\<not> os_alive os p w \<Longrightarrow> \<not> os_alive os p (snd (os_kill os q s w))" for p q s d w
      using assms(3) unfolding gone_stays_def by blast+
    define alive where "alive \<longleftrightarrow> os_alive os pid (g_world g)"
    note kill = kill_allowed [OF assms(2)]
    have k: "kill_and_wait os f force False g = (if \<not> alive then drop_file f else bindP (await_gone os pid 5) (\<lambda>gone.
        if gone then drop_file f
        else seqP (exceptP [ProcessLookupErrorC] (osP (os_kill os pid SIGKILL)) (give ())) (drop_file f))) (g\<lparr>g_world := ?w\<rparr>)"
      using \<open>g_files g f = Some t\<close> Some by (simp add: kill_and_wait_def alive_def
            bindP_step(1) [where m = "exceptP [ProcessLookupErrorC] (seqP (osP (os_kill os pid ?s)) (give True)) (give False)", OF kill(1)])
    show ?thesis
    proof (cases alive)
      case False
      with k stay(2) Some \<open>g_files g f = Some t\<close> show ?thesis
        by (intro exI [of _ ?w]) (auto simp: alive_def)
    next
      case True
      let ?P = "\<lambda>w. \<forall>p. \<not> os_alive os p (g_world g) \<longrightarrow> \<not> os_alive os p w"
      have P: "\<And>w. ?P w \<Longrightarrow> ?P (os_sleep os (1/10) w)" "?P ?w" using stay by blast+
      obtain b w1 where w1: "wait_gone os pid (os_now os ?w + 5) ?w = Some (b, w1)" "?P w1" "b \<longrightarrow> \<not> os_alive os pid w1"
        using wait_gone_runs [OF assms(1), of ?P, OF P] by blast
      let ?w2 = "if b then w1 else snd (os_kill os pid SIGKILL w1)"
      have a: "await_gone os pid 5 (g\<lparr>g_world := ?w\<rparr>) = Some (Inr b, g\<lparr>g_world := w1\<rparr>)" using w1(1) by (simp add: await_gone_def)
      have "kill_and_wait os f force False g = Some (Inr (), \<lparr>g_files = (g_files g)(f := None), g_world = ?w2\<rparr>)"
        unfolding k using True by (cases b) (simp_all add: bindP_step(1) [where m = "await_gone os pid 5", OF a]
            bindP_step(3) [where m = "exceptP [ProcessLookupErrorC] (osP (os_kill os pid SIGKILL)) (give ())", OF kill(2)])
      moreover have "\<not> os_alive os pid (snd (os_kill os pid SIGKILL w1))" using kill(3) [of pid w1] stay(2) by blast
      then have "\<not> os_alive os pid ?w2" using w1(3) by simp
      moreover have "?P (snd (os_kill os pid SIGKILL w1))" using w1(2) stay(2) by blast
      then have "?P ?w2" using w1(2) by simp
      ultimately show ?thesis using Some \<open>g_files g f = Some t\<close> by (intro exI [of _ ?w2]) simp
    qed
  qed
qed

lemma bind_osP [simp]: "f (g_world g) = (Inr x, w) \<Longrightarrow> bindP (osP f) k g = k x (g\<lparr>g_world := w\<rparr>)"
  by (simp add: bindP_step osP_run)
lemma seq_osP [simp]: "f (g_world g) = (Inr x, w) \<Longrightarrow> seqP (osP f) m g = m (g\<lparr>g_world := w\<rparr>)"
  by (simp add: bindP_step osP_run)

text \<open>Unmounting answers, and changes no metadata and revives no process.\<close>

definition settled :: "'w os \<Rightarrow> 'w guest \<Rightarrow> 'w guest \<Rightarrow> bool" where
  "settled os g g' \<longleftrightarrow> g_files g' = g_files g \<and> (\<forall>p. \<not> os_alive os p (g_world g) \<longrightarrow> \<not> os_alive os p (g_world g'))"

lemma settled_refl [simp]: "settled os g g" by (simp add: settled_def)
lemma settled_trans: "settled os g g1 \<Longrightarrow> settled os g1 g2 \<Longrightarrow> settled os g g2" by (auto simp: settled_def)

lemma settled_run:
  "gone_stays os \<Longrightarrow> os_run os None argv (g_world g) = (r, w) \<Longrightarrow> settled os g (g\<lparr>g_world := w\<rparr>)"
  unfolding settled_def gone_stays_def by (metis guest.select_convs guest.simps(4) guest.surjective snd_conv guest.update_convs(2))

lemma mountpoint_settled:
  assumes "commands_answer os" "gone_stays os"
  shows "\<exists>b g'. is_mountpoint os p g = Some (Inr b, g') \<and> settled os g g'"
proof -
  obtain rc out w where r: "os_run os None [''mountpoint'', ''-q'', p] (g_world g) = (Inr (rc, out), w)"
    using assms(1) unfolding commands_answer_def by blast
  with settled_run [OF assms(2) r] show ?thesis by (simp add: is_mountpoint_def)
qed

lemma umount_settled:
  assumes "commands_answer os" "gone_stays os"
  shows "\<exists>b g'. umount_with_retry os p force g = Some (Inr b, g') \<and> settled os g g' \<and> (force \<longrightarrow> b)"
proof -
  obtain rc out w where 1: "os_run os None [''umount'', p] (g_world g) = (Inr (rc, out), w)"
    using assms(1) unfolding commands_answer_def by blast
  let ?g1 = "g\<lparr>g_world := w\<rparr>"
  obtain rc1 out1 w1 where 2: "os_run os None [''fuser'', ''-km'', p] (g_world ?g1) = (Inr (rc1, out1), w1)"
    using assms(1) unfolding commands_answer_def by blast
  let ?g2 = "?g1\<lparr>g_world := w1\<rparr>"
  obtain rc2 out2 w2 where 3: "os_run os None [''umount'', ''-l'', p] (g_world ?g2) = (Inr (rc2, out2), w2)"
    using assms(1) unfolding commands_answer_def by blast
  have s: "settled os g ?g1" "settled os ?g1 ?g2" "settled os ?g2 (?g2\<lparr>g_world := w2\<rparr>)"
    using settled_run [OF assms(2)] 1 2 3 by blast+
  show ?thesis
  proof (cases "rc = 0")
    case True
    with 1 have "umount_with_retry os p force g = Some (Inr True, ?g1)" by (simp add: umount_with_retry_def)
    with s(1) show ?thesis by blast
  next
    case False
    with 1 2 3 have "umount_with_retry os p force g = Some (Inr (rc2 = 0 \<or> force), ?g2\<lparr>g_world := w2\<rparr>)"
      by (simp add: umount_with_retry_def exceptP_def bindP_step(3) tryP.simps)
    with settled_trans [OF settled_trans [OF s(1,2)] s(3)] show ?thesis by blast
  qed
qed

lemma stop_vm_ends:
  assumes "clock_runs os" "signals_work os" "gone_stays os" "commands_answer os" "unlinks os"
    "g_files g ''kento-qemu-pid'' = Some t1" "py_int (file_text t1) = Some qemu"
    "g_files g ''kento-virtiofsd-pid'' = Some t2" "py_int (file_text t2) = Some virtiofsd"
  shows "\<exists>r g'. stop_vm os cdir force False g = Some (r, g') \<and>
    \<not> os_alive os qemu (g_world g') \<and> \<not> os_alive os virtiofsd (g_world g') \<and>
    g_files g' = (g_files g)(''kento-qemu-pid'' := None, ''kento-virtiofsd-pid'' := None) \<and>
    (r = Inr () \<and> (\<forall>s \<in> {''virtiofsd.sock'', ''serial.sock'', ''qmp.sock''}. \<not> os_sock os s (g_world g')) \<or>
     r = Inl StateErrorC \<and> \<not> force)"
proof -
  note kw = kill_and_wait_kills [OF assms(1,2,3)]
  obtain w1 where 1: "kill_and_wait os ''kento-qemu-pid'' force False g =
      Some (Inr (), \<lparr>g_files = (g_files g)(''kento-qemu-pid'' := None), g_world = w1\<rparr>)" "\<not> os_alive os qemu w1"
    using kw [of "''kento-qemu-pid''" force g] assms(6,7) by blast
  let ?g1 = "\<lparr>g_files = (g_files g)(''kento-qemu-pid'' := None), g_world = w1\<rparr>"
  have "g_files ?g1 ''kento-virtiofsd-pid'' = Some t2" using assms(8) by simp
  then obtain w2 where 2: "kill_and_wait os ''kento-virtiofsd-pid'' force False ?g1 =
      Some (Inr (), \<lparr>g_files = (g_files ?g1)(''kento-virtiofsd-pid'' := None), g_world = w2\<rparr>)"
      "\<not> os_alive os virtiofsd w2" "\<not> os_alive os qemu w2"
    using kw [of "''kento-virtiofsd-pid''" force ?g1] assms(9) 1(2) by (metis (no_types, lifting) guest.select_convs(2))
  let ?g2 = "\<lparr>g_files = (g_files ?g1)(''kento-virtiofsd-pid'' := None), g_world = w2\<rparr>"
  obtain b g3 where 3: "is_mountpoint os (rootfs_path cdir) ?g2 = Some (Inr b, g3)" "settled os ?g2 g3"
    using mountpoint_settled [OF assms(4,3)] by blast
  obtain ok g4 where 4: "umount_with_retry os (rootfs_path cdir) force g3 = Some (Inr ok, g4)" "settled os g3 g4" "force \<longrightarrow> ok"
    using umount_settled [OF assms(4,3)] by blast
  let ?m = "bindP (is_mountpoint os (rootfs_path cdir)) (\<lambda>mounted.
        if mounted then bindP (umount_with_retry os (rootfs_path cdir) force) (\<lambda>ok.
          if ok then give () else raise_exc StateErrorC)
        else give ())"
  have m: "?m ?g2 = (if b then (if ok then Some (Inr (), g4) else Some (Inl StateErrorC, g4)) else Some (Inr (), g3))"
    using 3(1) 4(1) by (simp add: bindP.simps)
  have s: "settled os ?g2 g3" "settled os ?g2 g4" using 3(2) 4(2) settled_trans by blast+
  have dead: "\<not> os_alive os qemu (g_world h) \<and> \<not> os_alive os virtiofsd (g_world h)" if "settled os ?g2 h" for h
    using that 2(2,3) by (simp add: settled_def)
  let ?tidy = "seqP (doP (os_unlink_sock os ''virtiofsd.sock'')) (seqP (doP (os_unlink_sock os ''serial.sock'')) (doP (os_unlink_sock os ''qmp.sock'')))"
  have run: "stop_vm os cdir force False g = seqP ?m ?tidy ?g2"
    using 1(1) 2(1) by (simp add: stop_vm_def seqP_def bindP.simps)
  have fin: "\<exists>g'. ?tidy h = Some (Inr (), g') \<and> settled os h g' \<and>
      (\<forall>s \<in> {''virtiofsd.sock'', ''serial.sock'', ''qmp.sock''}. \<not> os_sock os s (g_world g'))" for h
    using assms(3,5) unfolding gone_stays_def unlinks_def by (simp add: settled_def)
  consider (ok) h where "?m ?g2 = Some (Inr (), h)" "settled os ?g2 h" | (bad) "?m ?g2 = Some (Inl StateErrorC, g4)" "\<not> force"
    using m s 4(3) by (cases b; cases ok) auto
  then show ?thesis
  proof cases
    case ok
    from fin obtain g' where g': "?tidy h = Some (Inr (), g')" "settled os h g'"
      "\<forall>s \<in> {''virtiofsd.sock'', ''serial.sock'', ''qmp.sock''}. \<not> os_sock os s (g_world g')" by blast
    have "stop_vm os cdir force False g = Some (Inr (), g')" unfolding run using ok(1) g'(1) by (simp add: seqP_def bindP.simps)
    moreover have "settled os ?g2 g'" using ok(2) g'(2) settled_trans by blast
    ultimately show ?thesis using dead g'(3) by (intro exI [of _ "Inr ()"] exI [of _ g']) (simp add: settled_def fun_upd_twist)
  next
    case bad
    have "stop_vm os cdir force False g = Some (Inl StateErrorC, g4)" unfolding run using bad(1) by (simp add: seqP_def bindP.simps)
    with bad(2) dead [OF s(2)] s(2) show ?thesis
      by (intro exI [of _ "Inl StateErrorC"] exI [of _ g4]) (simp add: settled_def fun_upd_twist)
  qed
qed

text \<open>
  Stopping a VM without the no-kill option always returns, however stubborn the processes
  are: afterwards neither QEMU nor virtiofsd runs and both pid files are gone.  The only error
  is a root file system that stays busy, which a forced stop passes over, and without an error
  the sockets are gone too.
\<close>
theorem stop_vm_stops:
  assumes "clock_runs os" "signals_work os" "gone_stays os" "commands_answer os" "unlinks os"
    "g_files g ''kento-qemu-pid'' = Some t1" "py_int (file_text t1) = Some qemu"
    "g_files g ''kento-virtiofsd-pid'' = Some t2" "py_int (file_text t2) = Some virtiofsd"
  shows "\<exists>r g'. stop_vm os cdir force False g = Some (r, g') \<and>
    \<not> os_alive os qemu (g_world g') \<and> \<not> os_alive os virtiofsd (g_world g') \<and>
    g_files g' = (g_files g)(''kento-qemu-pid'' := None, ''kento-virtiofsd-pid'' := None) \<and>
    (r = Inr () \<and> (\<forall>s \<in> {''virtiofsd.sock'', ''serial.sock'', ''qmp.sock''}. \<not> os_sock os s (g_world g')) \<or>
     r = Inl StateErrorC \<and> \<not> force)"
  by (rule stop_vm_ends [OF assms])

text \<open>A small operating system: processes that may ignore SIGTERM, one mount, sockets, a clock.\<close>

record box =
  bx_alive :: "int list"
  bx_mounted :: bool
  bx_socks :: "string list"
  bx_clock :: rat

definition sample_os :: "int list \<Rightarrow> bool \<Rightarrow> box os" where
  "sample_os stubborn bad_inject =
     \<lparr>os_run = (\<lambda>cwd argv w. if hd argv = ''mountpoint'' then (Inr (if bx_mounted w then 0 else 1, []), w)
          else if hd argv = ''mount'' then (Inr (0, []), w\<lparr>bx_mounted := True\<rparr>)
          else if hd argv = ''umount'' then (Inr (0, []), w\<lparr>bx_mounted := False\<rparr>)
          else (Inr (if hd argv = ''sh'' \<and> bad_inject then 1 else 0, []), w)),
      os_spawn = (\<lambda>argv w. let p = if hd argv = ''qemu-system-x86_64'' then 8 else 7
          in (Inr p, w\<lparr>bx_alive := p # bx_alive w, bx_socks := ''virtiofsd.sock'' # bx_socks w\<rparr>)),
      os_alive = (\<lambda>p w. p \<in> set (bx_alive w)),
      os_exited = (\<lambda>p w. p \<notin> set (bx_alive w)),
      os_kill = (\<lambda>p s w. if p \<in> set (bx_alive w)
          then (Inr (), if s = SIGKILL \<or> p \<notin> set stubborn then w\<lparr>bx_alive := filter (\<lambda>q. q \<noteq> p) (bx_alive w)\<rparr> else w)
          else (Inl ProcessLookupErrorC, w)),
      os_wait = (\<lambda>p d w. if p \<in> set (bx_alive w) then (Inl TimeoutExpiredC, w\<lparr>bx_clock := bx_clock w + d\<rparr>) else (Inr (), w)),
      os_now = bx_clock,
      os_sleep = (\<lambda>d w. w\<lparr>bx_clock := bx_clock w + d\<rparr>),
      os_sock = (\<lambda>s w. s \<in> set (bx_socks w)),
      os_unlink_sock = (\<lambda>s w. w\<lparr>bx_socks := filter (\<lambda>t. t \<noteq> s) (bx_socks w)\<rparr>),
      os_which = (\<lambda>p. Some (''/usr/bin/'' @ p)),
      os_is_file = (\<lambda>p w. bx_mounted w),
      os_link = (\<lambda>_. Inl FileNotFoundErrorC)\<rparr>"

lemma sample_os_fair:
  "clock_runs (sample_os st bad)" "signals_work (sample_os st bad)" "gone_stays (sample_os st bad)"
  "commands_answer (sample_os st bad)" "unlinks (sample_os st bad)"
  by (auto simp: clock_runs_def signals_work_def gone_stays_def commands_answer_def unlinks_def sample_os_def)

definition sample_vm :: "box guest" where
  "sample_vm = \<lparr>g_files = [''kento-qemu-pid'' \<mapsto> ''8'', ''kento-virtiofsd-pid'' \<mapsto> ''7''],
     g_world = \<lparr>bx_alive = [8, 7], bx_mounted = True, bx_socks = [''qmp.sock''], bx_clock = 0\<rparr>\<rparr>"

lemma sample_pids:
  "g_files sample_vm ''kento-qemu-pid'' = Some ''8''" "py_int (file_text ''8'') = Some 8"
  "g_files sample_vm ''kento-virtiofsd-pid'' = Some ''7''" "py_int (file_text ''7'') = Some 7"
  unfolding sample_vm_def by simp_all code_simp+

theorem stop_vm_stops_witness:
  "\<exists>r g'. stop_vm (sample_os [8] False) (mk_path ''/var'') False False sample_vm = Some (r, g') \<and>
     8 \<notin> set (bx_alive (g_world g')) \<and> 8 \<in> set (bx_alive (g_world sample_vm))"
proof -
  have "8 \<in> set (bx_alive (g_world sample_vm))" by (simp add: sample_vm_def)
  with stop_vm_stops [OF sample_os_fair sample_pids, of "[8]" False "mk_path ''/var''" False] show ?thesis
    by (force simp: sample_os_def)
qed

section \<open>A graceful stop of a VM that does not answer\<close>

text \<open>A process that ignores SIGTERM: nothing the procedure does ends it.\<close>

definition stubborn :: "'w os \<Rightarrow> int \<Rightarrow> bool" where
  "stubborn os q \<longleftrightarrow> (\<forall>w. os_alive os q w \<longrightarrow> (\<forall>p. os_alive os q (snd (os_kill os p SIGTERM w))) \<and>
     (\<forall>d. os_alive os q (os_sleep os d w)) \<and> (\<forall>argv. os_alive os q (snd (os_run os None argv w))) \<and>
     (\<forall>s. os_alive os q (os_unlink_sock os s w)))"

text \<open>The root file system is mounted; it is held by one process, without which it unmounts.\<close>

definition held_mount :: "'w os \<Rightarrow> string \<Rightarrow> ('w \<Rightarrow> bool) \<Rightarrow> int \<Rightarrow> bool" where
  "held_mount os p mounted v \<longleftrightarrow>
     (\<forall>w. \<exists>rc out. os_run os None [''mountpoint'', ''-q'', p] w = (Inr (rc, out), w) \<and> (rc = 0 \<longleftrightarrow> mounted w)) \<and>
     (\<forall>w. \<not> os_alive os v w \<longrightarrow> (\<exists>out w'. os_run os None [''umount'', p] w = (Inr (0, out), w') \<and> \<not> mounted w')) \<and>
     (\<forall>w. mounted w \<longrightarrow> (\<forall>q. mounted (snd (os_kill os q SIGTERM w))) \<and> (\<forall>d. mounted (os_sleep os d w))) \<and>
     (\<forall>w s. mounted (os_unlink_sock os s w) = mounted w)"

text \<open>A pid file whose process gets SIGTERM without the escalation to SIGKILL.\<close>

lemma kill_and_wait_term:
  assumes "clock_runs os" "signals_work os" "g_files g f = Some t" "py_int (file_text t) = Some pid" "os_alive os pid (g_world g)"
    "\<And>w d. P w \<Longrightarrow> P (os_sleep os d w)" "P (snd (os_kill os pid SIGTERM (g_world g)))"
  shows "\<exists>b w'. kill_and_wait os f False True g = Some (Inr (), \<lparr>g_files = if b then (g_files g)(f := None) else g_files g, g_world = w'\<rparr>) \<and>
    P w' \<and> (b \<longrightarrow> \<not> os_alive os pid w')"
proof -
  let ?w = "snd (os_kill os pid SIGTERM (g_world g))"
  obtain b w1 where w1: "wait_gone os pid (os_now os ?w + 5) ?w = Some (b, w1)" "P w1" "b \<longrightarrow> \<not> os_alive os pid w1"
    using wait_gone_runs [OF assms(1), of P, OF assms(6,7)] by blast
  have a: "await_gone os pid 5 (g\<lparr>g_world := ?w\<rparr>) = Some (Inr b, g\<lparr>g_world := w1\<rparr>)" using w1(1) by (simp add: await_gone_def)
  have "kill_and_wait os f False True g = bindP (await_gone os pid 5) (\<lambda>gone. if gone then drop_file f else give ()) (g\<lparr>g_world := ?w\<rparr>)"
    using assms(3,4,5) by (simp add: kill_and_wait_def
        bindP_step(1) [where m = "exceptP [ProcessLookupErrorC] (seqP (osP (os_kill os pid SIGTERM)) (give True)) (give False)",
          OF kill_allowed(1) [OF assms(2)]])
  then have "kill_and_wait os f False True g = Some (Inr (), \<lparr>g_files = if b then (g_files g)(f := None) else g_files g, g_world = w1\<rparr>)"
    by (cases b) (simp_all add: bindP_step(1) [where m = "await_gone os pid 5", OF a])
  with w1 show ?thesis by blast
qed

text \<open>The wait sees that a process is gone, when it is gone from the start.\<close>

lemma wait_gone_seen:
  "clock_runs os \<Longrightarrow> os_now os w < deadline \<Longrightarrow> \<not> os_alive os pid w \<Longrightarrow> wait_gone os pid deadline w = Some (True, w)"
  by (subst wait_gone.simps) simp

lemma stop_vm_stubborn:
  assumes "clock_runs os" "signals_work os" "gone_stays os" "unlinks os" "stubborn os q" "held_mount os (rootfs_path cdir) mounted v"
    "\<And>w. \<not> os_alive os v (snd (os_kill os v SIGTERM w))"
    "g_files g ''kento-qemu-pid'' = Some t1" "py_int (file_text t1) = Some q" "os_alive os q (g_world g)"
    "g_files g ''kento-virtiofsd-pid'' = Some t2" "py_int (file_text t2) = Some v" "mounted (g_world g)"
  shows "\<exists>w'. stop_vm os cdir False True g = Some (Inr (), \<lparr>g_files = (g_files g)(''kento-virtiofsd-pid'' := None), g_world = w'\<rparr>) \<and>
    os_alive os q w' \<and> \<not> os_alive os v w' \<and> \<not> mounted w' \<and> \<not> os_sock os ''qmp.sock'' w'"
proof -
  let ?P = "\<lambda>w. os_alive os q w \<and> mounted w"
  have P: "?P w \<Longrightarrow> ?P (os_sleep os d w)" "?P w \<Longrightarrow> ?P (snd (os_kill os p SIGTERM w))" for w d p
    using assms(5,6) unfolding stubborn_def held_mount_def by blast+
  obtain b w1 where 1: "kill_and_wait os ''kento-qemu-pid'' False True g =
      Some (Inr (), \<lparr>g_files = if b then (g_files g)(''kento-qemu-pid'' := None) else g_files g, g_world = w1\<rparr>)"
      "?P w1" "b \<longrightarrow> \<not> os_alive os q w1"
    using kill_and_wait_term [where P = ?P, OF assms(1,2,8,9,10) P(1) P(2)] assms(10,13) by blast
  then have "\<not> b" by blast
  let ?g1 = "\<lparr>g_files = g_files g, g_world = w1\<rparr>"
  let ?w = "snd (os_kill os v SIGTERM w1)"
  have gone: "\<not> os_alive os v ?w" by (rule assms(7))
  have kill: "kill_and_wait os ''kento-virtiofsd-pid'' False True ?g1 = Some (Inr (), \<lparr>g_files = (g_files g)(''kento-virtiofsd-pid'' := None), g_world = ?w\<rparr>)"
  proof -
    have a: "await_gone os v 5 (?g1\<lparr>g_world := ?w\<rparr>) = Some (Inr True, ?g1\<lparr>g_world := ?w\<rparr>)"
      using wait_gone_seen [OF assms(1) _ gone] by (simp add: await_gone_def)
    have "kill_and_wait os ''kento-virtiofsd-pid'' False True ?g1 = (if \<not> os_alive os v w1 then drop_file ''kento-virtiofsd-pid''
        else bindP (await_gone os v 5) (\<lambda>gone. if gone then drop_file ''kento-virtiofsd-pid'' else give ())) (?g1\<lparr>g_world := ?w\<rparr>)"
      using assms(11,12) by (simp add: kill_and_wait_def
        bindP_step(1) [where m = "exceptP [ProcessLookupErrorC] (seqP (osP (os_kill os v SIGTERM)) (give True)) (give False)",
          OF kill_allowed(1) [OF assms(2)]])
    also have "... = Some (Inr (), \<lparr>g_files = (g_files g)(''kento-virtiofsd-pid'' := None), g_world = ?w\<rparr>)"
      using a by (simp add: bindP_step(1) [where m = "await_gone os v 5"])
    finally show ?thesis .
  qed
  obtain out w3 where u: "os_run os None [''umount'', rootfs_path cdir] ?w = (Inr (0, out), w3)" "\<not> mounted w3"
    using assms(6) gone unfolding held_mount_def by blast
  have "?P ?w" using P(2) 1(2) by blast
  moreover have "os_alive os q w3" using \<open>?P ?w\<close> u(1) assms(5) unfolding stubborn_def by (metis snd_conv)
  moreover have "\<not> os_alive os v w3" using gone u(1) assms(3) unfolding gone_stays_def by (metis snd_conv)
  ultimately have s: "?P ?w" "os_alive os q w3" "\<not> os_alive os v w3" by auto
  let ?w4 = "os_unlink_sock os ''qmp.sock'' (os_unlink_sock os ''serial.sock'' (os_unlink_sock os ''virtiofsd.sock'' w3))"
  let ?g2 = "\<lparr>g_files = (g_files g)(''kento-virtiofsd-pid'' := None), g_world = ?w\<rparr>" and ?g3 = "\<lparr>g_files = (g_files g)(''kento-virtiofsd-pid'' := None), g_world = w3\<rparr>"
  obtain out2 where "os_run os None [''mountpoint'', ''-q'', rootfs_path cdir] ?w = (Inr (0, out2), ?w)"
    using assms(6) s(1) unfolding held_mount_def by metis
  then have m: "is_mountpoint os (rootfs_path cdir) ?g2 = Some (Inr True, ?g2)" by (simp add: is_mountpoint_def)
  have n: "umount_with_retry os (rootfs_path cdir) False ?g2 = Some (Inr True, ?g3)"
    using u(1) by (simp add: umount_with_retry_def)
  have k: "kill_and_wait os ''kento-qemu-pid'' False True g = Some (Inr (), ?g1)" using 1(1) \<open>\<not> b\<close> by simp
  let ?mount = "bindP (is_mountpoint os (rootfs_path cdir)) (\<lambda>mounted.
        if mounted then bindP (umount_with_retry os (rootfs_path cdir) False) (\<lambda>ok.
          if ok then give () else raise_exc StateErrorC)
        else give ())"
  have mount: "?mount ?g2 = Some (Inr (), ?g3)" by (simp add: m n bindP.simps)
  have "stop_vm os cdir False True g = Some (Inr (), \<lparr>g_files = (g_files g)(''kento-virtiofsd-pid'' := None), g_world = ?w4\<rparr>)"
    unfolding stop_vm_def bindP_step(3) [of "kill_and_wait os ''kento-qemu-pid'' False True", OF k]
      bindP_step(3) [of "kill_and_wait os ''kento-virtiofsd-pid'' False True", OF kill] bindP_step(3) [of ?mount, OF mount]
    by simp
  moreover have "os_alive os q ?w4" using assms(5) s(2) unfolding stubborn_def by blast
  moreover have "\<not> os_alive os v ?w4" using assms(3) s(3) unfolding gone_stays_def by blast
  moreover have "mounted (os_unlink_sock os s w) = mounted w" for s w using assms(6) unfolding held_mount_def by (elim conjE allE)
  then have "\<not> mounted ?w4" using u(2) by simp
  moreover have "\<not> os_sock os ''qmp.sock'' ?w4" using assms(4) unfolding unlinks_def by blast
  ultimately show ?thesis by blast
qed

section \<open>A failed start\<close>

text \<open>
  A start whose injection of the guest's configuration fails raises and leaves the root file
  system mounted; from then on every start is refused because it is mounted, also when the cause
  has been repaired (the second operating system is any that still reports the mount).
\<close>
theorem failed_inject_keeps_mount:
  assumes "g_files g ''kento-qemu-pid'' = None" "g_files g ''kento-layers'' = Some l" "g_files g ''kento-state'' = Some s"
    "g_files g ''kento-inject.sh'' = Some script"
    "resolve_boot_sources (g_files g) (path_div cdir ''rootfs'') = (kern, initram)"
    "to_overlay_lowerdir (os_link os) (file_text l) = Inr (base_dir, rel)"
    "os_run os None [''mountpoint'', ''-q'', rootfs_path cdir] (g_world g) = (Inr (rc1, o1), w1)" "rc1 \<noteq> 0"
    "os_run os (if base_dir = [] then None else Some base_dir) [''mount'', ''-t'', ''overlay'', ''overlay'', ''-o'',
       overlay_opts rel (mk_path (file_text s)), rootfs_path cdir] w1 = (Inr (0, o2), w2)"
    "os_is_file os (path_str kern) w2" "os_is_file os (path_str initram) w2"
    "os_run os None [''sh'', sock_path cdir ''kento-inject.sh'', rootfs_path cdir, path_str cdir] w2 = (Inr (rc3, o3), w3)" "rc3 \<noteq> 0"
    "os_run os2 None [''mountpoint'', ''-q'', rootfs_path cdir] w3 = (Inr (0, o4), w4)"
  shows "\<exists>g1 g2. start_vm os cdir g = Some (Inl SubprocessErrorC, g1) \<and> g_world g1 = w3 \<and> g_files g1 = g_files g \<and>
    start_vm os2 cdir g1 = Some (Inl StateErrorC, g2)"
proof -
  have mount: "mount_rootfs os cdir (file_text l) (mk_path (file_text s)) g = Some (Inr (), g\<lparr>g_world := w2\<rparr>)"
    using assms(6,7,8,9) by (simp add: mount_rootfs_def is_mountpoint_def bindP_step osP_run run_or_die_def)
  have "start_prepare os cdir g = Some (Inl SubprocessErrorC, g\<lparr>g_world := w3\<rparr>)"
    using assms(2,3,4,5,10,11,12,13)
    by (simp add: start_prepare_def need_file_def mount seqP_def bindP.simps osP_run run_or_die_def)
  then have "start_vm os cdir g = Some (Inl SubprocessErrorC, g\<lparr>g_world := w3\<rparr>)"
    using assms(1) by (simp add: start_vm_def is_vm_running_def vm_up_def bindP.simps)
  moreover have "start_vm os2 cdir (g\<lparr>g_world := w3\<rparr>) = Some (Inl StateErrorC, g\<lparr>g_world := w4\<rparr>)"
    using assms(1,2,3,14)
    by (simp add: start_vm_def is_vm_running_def vm_up_def start_prepare_def need_file_def mount_rootfs_def is_mountpoint_def
        seqP_def bindP.simps osP_run)
  ultimately show ?thesis by (intro exI [of _ "g\<lparr>g_world := w3\<rparr>"] exI [of _ "g\<lparr>g_world := w4\<rparr>"]) simp
qed

definition stopped_vm :: "box guest" where
  "stopped_vm = \<lparr>g_files = [''kento-layers'' \<mapsto> ''/s/a/diff'', ''kento-state'' \<mapsto> ''/v'', ''kento-inject.sh'' \<mapsto> []],
     g_world = \<lparr>bx_alive = [], bx_mounted = False, bx_socks = [], bx_clock = 0\<rparr>\<rparr>"

theorem failed_inject_keeps_mount_witness:
  "\<exists>g1 g2. start_vm (sample_os [] True) (mk_path ''/v'') stopped_vm = Some (Inl SubprocessErrorC, g1) \<and>
     bx_mounted (g_world g1) \<and> start_vm (sample_os [] False) (mk_path ''/v'') g1 = Some (Inl StateErrorC, g2)"
proof -
  let ?w = "g_world stopped_vm" and ?os = "sample_os [] True"
  have b: "to_overlay_lowerdir (os_link ?os) (file_text ''/s/a/diff'') = Inr (''/s'', ''a/diff'')" unfolding sample_os_def by code_simp
  obtain kern initram where k: "resolve_boot_sources (g_files stopped_vm) (path_div (mk_path ''/v'') ''rootfs'') = (kern, initram)"
    by (cases "resolve_boot_sources (g_files stopped_vm) (path_div (mk_path ''/v'') ''rootfs'')")
  have f: "g_files stopped_vm ''kento-qemu-pid'' = None" "g_files stopped_vm ''kento-layers'' = Some ''/s/a/diff''"
    "g_files stopped_vm ''kento-state'' = Some ''/v''" "g_files stopped_vm ''kento-inject.sh'' = Some []" by (simp_all add: stopped_vm_def)
  note t = failed_inject_keeps_mount [OF f k b, where ?os2.0 = "sample_os [] False" and ?rc1.0 = 1 and ?rc3.0 = 1 and ?w1.0 = ?w
      and ?w2.0 = "?w\<lparr>bx_mounted := True\<rparr>" and ?w3.0 = "?w\<lparr>bx_mounted := True\<rparr>" and ?w4.0 = "?w\<lparr>bx_mounted := True\<rparr>"
      and ?o1.0 = "[]" and ?o2.0 = "[]" and ?o3.0 = "[]" and ?o4.0 = "[]"]
  have "\<exists>g1 g2. start_vm ?os (mk_path ''/v'') stopped_vm = Some (Inl SubprocessErrorC, g1) \<and>
     g_world g1 = ?w\<lparr>bx_mounted := True\<rparr> \<and> g_files g1 = g_files stopped_vm \<and> start_vm (sample_os [] False) (mk_path ''/v'') g1 = Some (Inl StateErrorC, g2)"
    by (rule t) (simp_all add: sample_os_def stopped_vm_def)
  then show ?thesis by force
qed

section \<open>The rollback of a start\<close>

text \<open>
  Waiting for a child reaps it or times out.  \<^verbatim>\<open>mountpoint\<close> exits with 0 exactly when something is mounted; after a lazy
  unmount nothing is, whatever it exits with: it fails when there was nothing left to detach.
\<close>

definition reaps :: "'w os \<Rightarrow> bool" where
  "reaps os \<longleftrightarrow> (\<forall>pid d w. (\<exists>w'. os_wait os pid d w = (Inr (), w') \<and> \<not> os_alive os pid w') \<or>
       (\<exists>w'. os_wait os pid d w = (Inl TimeoutExpiredC, w') \<and> (\<not> os_alive os pid w \<longrightarrow> \<not> os_alive os pid w'))) \<and>
     (\<forall>pid w. os_exited os pid w \<longrightarrow> \<not> os_alive os pid w)"

definition detaches :: "'w os \<Rightarrow> string \<Rightarrow> ('w \<Rightarrow> bool) \<Rightarrow> bool" where
  "detaches os p mounted \<longleftrightarrow>
     (\<forall>w. \<exists>rc out. os_run os None [''mountpoint'', ''-q'', p] w = (Inr (rc, out), w) \<and> (rc = 0 \<longleftrightarrow> mounted w)) \<and>
     (\<forall>w. \<exists>rc out w'. os_run os None [''umount'', p] w = (Inr (rc, out), w') \<and> (rc = 0 \<longrightarrow> \<not> mounted w')) \<and>
     (\<forall>w. \<exists>rc out w'. os_run os None [''umount'', ''-l'', p] w = (Inr (rc, out), w') \<and> \<not> mounted w') \<and>
     (\<forall>w s. mounted (os_unlink_sock os s w) \<longrightarrow> mounted w)"

lemma popen_signal_sent:
  assumes "signals_work os" "gone_stays os" "reaps os"
  shows "\<exists>w'. popen_signal os pid s g = Some (Inr (), g\<lparr>g_world := w'\<rparr>) \<and>
    (s = SIGKILL \<or> \<not> os_alive os pid (g_world g) \<longrightarrow> \<not> os_alive os pid w')"
proof (cases "os_exited os pid (g_world g)")
  case True
  then show ?thesis using assms(3) by (intro exI [of _ "g_world g"]) (simp add: popen_signal_def reaps_def bindP.simps)
next
  case False
  let ?w = "snd (os_kill os pid s (g_world g))"
  have "popen_signal os pid s g = Some (Inr (), g\<lparr>g_world := ?w\<rparr>)"
    using False kill_allowed(2) [OF assms(1)] by (simp add: popen_signal_def)
  moreover have "\<not> os_alive os pid (g_world g) \<Longrightarrow> \<not> os_alive os pid ?w" using assms(2) unfolding gone_stays_def by blast
  moreover have "s = SIGKILL \<Longrightarrow> \<not> os_alive os pid ?w"
    using kill_allowed(3) [OF assms(1), of pid "g_world g"] assms(2) unfolding gone_stays_def by blast
  ultimately show ?thesis by blast
qed

lemma catches_timeout [simp]: "catches [TimeoutExpiredC] TimeoutExpiredC" "catches [TimeoutExpiredC, OSErrorC] TimeoutExpiredC"
  by (simp_all add: catches_def mro_step)

lemma wait_step: "os_wait os pid d (g_world g) = (r, w) \<Longrightarrow> osP (os_wait os pid d) g = Some (r, g\<lparr>g_world := w\<rparr>)"
  by (simp add: osP_run)

lemma end_virtiofsd_ends:
  assumes "signals_work os" "gone_stays os" "reaps os"
  shows "\<exists>w'. end_virtiofsd os pid g = Some (Inr (), g\<lparr>g_world := w'\<rparr>) \<and> \<not> os_alive os pid w'"
proof -
  from popen_signal_sent [OF assms] obtain w1 where 1: "popen_signal os pid SIGTERM g = Some (Inr (), g\<lparr>g_world := w1\<rparr>)" by blast
  have kill: "\<exists>w'. popen_signal os pid SIGKILL (g\<lparr>g_world := w\<rparr>) = Some (Inr (), g\<lparr>g_world := w'\<rparr>) \<and> \<not> os_alive os pid w'" for w
    using popen_signal_sent [OF assms, of pid SIGKILL "g\<lparr>g_world := w\<rparr>"] by simp
  consider (gone) w2 where "os_wait os pid 5 w1 = (Inr (), w2)" "\<not> os_alive os pid w2"
    | (late) w2 where "os_wait os pid 5 w1 = (Inl TimeoutExpiredC, w2)"
    using assms(3) unfolding reaps_def by blast
  then show ?thesis
  proof cases
    case gone
    with 1 have "end_virtiofsd os pid g = Some (Inr (), g\<lparr>g_world := w2\<rparr>)"
      by (simp add: end_virtiofsd_def tryP.simps seqP_def bindP.simps osP_run)
    with gone(2) show ?thesis by blast
  next
    case late
    from kill [of w2] obtain w' where k: "popen_signal os pid SIGKILL (g\<lparr>g_world := w2\<rparr>) = Some (Inr (), g\<lparr>g_world := w'\<rparr>)"
      "\<not> os_alive os pid w'" by blast
    have "\<exists>r w3. os_wait os pid 5 w' = (r, w3) \<and> \<not> os_alive os pid w3 \<and> (r = Inr () \<or> r = Inl TimeoutExpiredC)"
      using assms(3) k(2) unfolding reaps_def by blast
    then obtain r w3 where w3: "os_wait os pid 5 w' = (r, w3)" "\<not> os_alive os pid w3" "r = Inr () \<or> r = Inl TimeoutExpiredC" by blast
    have "end_virtiofsd os pid g = Some (Inr (), g\<lparr>g_world := w3\<rparr>)"
      using 1 late k(1) w3(1,3) by (auto simp: end_virtiofsd_def exceptP_def tryP.simps seqP_def bindP.simps osP_run)
    with w3(2) show ?thesis by blast
  qed
qed

lemma umount_detaches:
  assumes "commands_answer os" "gone_stays os" "detaches os p mounted"
  shows "\<exists>g'. umount_with_retry os p True g = Some (Inr True, g') \<and> settled os g g' \<and> \<not> mounted (g_world g')"
proof -
  from umount_settled [OF assms(1,2), of p True g] obtain g' where u: "umount_with_retry os p True g = Some (Inr True, g')" "settled os g g'" by auto
  from assms(3) obtain rc out w where 1: "os_run os None [''umount'', p] (g_world g) = (Inr (rc, out), w)" "rc = 0 \<longrightarrow> \<not> mounted w"
    unfolding detaches_def by blast
  obtain rc1 out1 w1 where 2: "os_run os None [''fuser'', ''-km'', p] w = (Inr (rc1, out1), w1)"
    using assms(1) unfolding commands_answer_def by blast
  from assms(3) obtain rc2 out2 w2 where 3: "os_run os None [''umount'', ''-l'', p] w1 = (Inr (rc2, out2), w2)" "\<not> mounted w2"
    unfolding detaches_def by blast
  have "umount_with_retry os p True g = Some (Inr True, g\<lparr>g_world := if rc = 0 then w else w2\<rparr>)"
    using 1(1) 2 3(1) by (simp add: umount_with_retry_def exceptP_def tryP.simps seqP_def bindP.simps osP_run)
  moreover have "\<not> mounted (if rc = 0 then w else w2)" using 1(2) 3(2) by (cases "rc = 0") simp_all
  ultimately show ?thesis using u by auto
qed

lemma cleanup_cleans:
  assumes "signals_work os" "gone_stays os" "reaps os" "commands_answer os" "unlinks os" "detaches os (rootfs_path cdir) mounted"
  shows "\<exists>w'. cleanup_failed_start os cdir v g = Some (Inr (),
      \<lparr>g_files = (g_files g)(''kento-virtiofsd-pid'' := None, ''kento-qemu-pid'' := None), g_world = w'\<rparr>) \<and>
    (\<forall>pid. v = Some pid \<longrightarrow> \<not> os_alive os pid w') \<and> \<not> mounted w' \<and> \<not> os_sock os ''virtiofsd.sock'' w'"
proof -
  obtain fs w where g: "g = \<lparr>g_files = fs, g_world = w\<rparr>" by (cases g)
  let ?tidy = "case v of None \<Rightarrow> give () | Some pid \<Rightarrow> end_virtiofsd os pid"
  obtain w1 where 1: "?tidy g = Some (Inr (), \<lparr>g_files = fs, g_world = w1\<rparr>)" "\<forall>pid. v = Some pid \<longrightarrow> \<not> os_alive os pid w1"
  proof (cases v)
    case None
    then show ?thesis using that [of w] by (simp add: g)
  next
    case (Some pid)
    from end_virtiofsd_ends [OF assms(1,2,3), of pid g] obtain w' where "end_virtiofsd os pid g = Some (Inr (), \<lparr>g_files = fs, g_world = w'\<rparr>)"
      "\<not> os_alive os pid w'" by (auto simp: g)
    with Some that [of w'] show ?thesis by simp
  qed
  let ?fs = "fs(''kento-virtiofsd-pid'' := None, ''kento-qemu-pid'' := None)"
  let ?g = "\<lparr>g_files = ?fs, g_world = w1\<rparr>"
  have m: "is_mountpoint os (rootfs_path cdir) ?g = Some (Inr (mounted w1), ?g)"
  proof -
    obtain rc out where "os_run os None [''mountpoint'', ''-q'', rootfs_path cdir] w1 = (Inr (rc, out), w1)" "rc = 0 \<longleftrightarrow> mounted w1"
      using assms(6) unfolding detaches_def by blast
    then show ?thesis by (simp add: is_mountpoint_def bindP.simps osP_run)
  qed
  obtain w2 where g2: "umount_with_retry os (rootfs_path cdir) True ?g = Some (Inr True, \<lparr>g_files = ?fs, g_world = w2\<rparr>)"
      "\<forall>p. \<not> os_alive os p w1 \<longrightarrow> \<not> os_alive os p w2" "\<not> mounted w2"
  proof -
    from umount_detaches [OF assms(4,2,6)] obtain g2 where u: "umount_with_retry os (rootfs_path cdir) True ?g = Some (Inr True, g2)"
      "settled os ?g g2" "\<not> mounted (g_world g2)" by blast
    moreover have "g2 = \<lparr>g_files = ?fs, g_world = g_world g2\<rparr>" using u(2) by (cases g2) (simp add: settled_def)
    ultimately show ?thesis using that [of "g_world g2"] by (simp add: settled_def)
  qed
  let ?w = "if mounted w1 then w2 else w1"
  have "cleanup_failed_start os cdir v g = Some (Inr (), \<lparr>g_files = ?fs, g_world = os_unlink_sock os ''virtiofsd.sock'' ?w\<rparr>)"
    unfolding cleanup_failed_start_def bindP_step(3) [of ?tidy, OF 1(1)] using m g2(1) by (cases "mounted w1") (simp_all add: bindP_step seqP_def)
  moreover have "\<forall>pid. v = Some pid \<longrightarrow> \<not> os_alive os pid ?w" using 1(2) g2(2) by auto
  then have "\<forall>pid. v = Some pid \<longrightarrow> \<not> os_alive os pid (os_unlink_sock os ''virtiofsd.sock'' ?w)"
    using assms(2) unfolding gone_stays_def by blast
  moreover have "\<not> mounted ?w" using g2(3) by simp
  then have "\<not> mounted (os_unlink_sock os ''virtiofsd.sock'' ?w)" using assms(6) unfolding detaches_def by blast
  moreover have "\<not> os_sock os ''virtiofsd.sock'' (os_unlink_sock os ''virtiofsd.sock'' ?w)" using assms(5) unfolding unlinks_def by blast
  ultimately show ?thesis by (intro exI [of _ "os_unlink_sock os ''virtiofsd.sock'' ?w"]) (simp add: g)
qed

text \<open>
  C27. A start that fails from the start of virtiofsd on is rolled back: virtiofsd is gone, the
  root file system is not mounted, and the pid files and the socket are removed.
\<close>
theorem failed_launch_rolls_back:
  fixes os :: "'w os"
  assumes "signals_work os" "gone_stays os" "reaps os" "commands_answer os" "unlinks os" "detaches os (rootfs_path cdir) mounted"
    "start_launch os cdir bin g = Some (Inl e, g')"
  shows "g_files g' ''kento-virtiofsd-pid'' = None \<and> g_files g' ''kento-qemu-pid'' = None \<and>
    \<not> mounted (g_world g') \<and> \<not> os_sock os ''virtiofsd.sock'' (g_world g') \<and>
    (\<forall>pid w. os_spawn os (virtiofsd_argv cdir bin) (g_world g) = (Inr pid, w) \<longrightarrow> \<not> os_alive os pid (g_world g'))"
proof -
  note clean = cleanup_cleans [OF assms(1-6)]
  have handled: "g_files g' ''kento-virtiofsd-pid'' = None \<and> g_files g' ''kento-qemu-pid'' = None \<and>
      \<not> mounted (g_world g') \<and> \<not> os_sock os ''virtiofsd.sock'' (g_world g') \<and> (\<forall>pid. v = Some pid \<longrightarrow> \<not> os_alive os pid (g_world g'))"
    if "seqP (cleanup_failed_start os cdir v) (raise_exc x :: (int, 'w guest) prog) h = Some (Inl e, g')" for v x h
    using clean [of v h] that by (auto simp: seqP_def bindP.simps)
  obtain r w where s: "os_spawn os (virtiofsd_argv cdir bin) (g_world g) = (r, w)" by (cases "os_spawn os (virtiofsd_argv cdir bin) (g_world g)")
  show ?thesis
  proof (cases r)
    case (Inl x)
    then have "seqP (cleanup_failed_start os cdir None) (raise_exc x :: (int, 'w guest) prog) (g\<lparr>g_world := w\<rparr>) = Some (Inl e, g')"
      using assms(7) s clean [of None "g\<lparr>g_world := w\<rparr>"] by (auto simp: start_launch_def seqP_def bindP.simps tryP.simps osP_run)
    from handled [OF this] show ?thesis using s Inl by simp
  next
    case (Inr pid)
    define rest where "rest = seqP (put_file ''kento-virtiofsd-pid'' (int_str pid @ [LF]))
            (seqP (doP (wait_sock os 50))
              (bindP (askP (\<lambda>w. os_sock os ''virtiofsd.sock'' w \<and> \<not> os_exited os pid w)) (\<lambda>up.
                if \<not> up then raise_exc StateErrorC else launch_qemu os cdir)))"
    have "tryP rest (\<lambda>e. seqP (cleanup_failed_start os cdir (Some pid)) (raise_exc e)) (g\<lparr>g_world := w\<rparr>) = Some (Inl e, g')"
      using assms(7) s Inr by (simp add: start_launch_def rest_def tryP.simps bindP.simps osP_run)
    then obtain x h where "seqP (cleanup_failed_start os cdir (Some pid)) (raise_exc x :: (int, 'w guest) prog) h = Some (Inl e, g')"
      unfolding tryP_Some by auto
    from handled [OF this] show ?thesis using s Inr by simp
  qed
qed

theorem failed_launch_rolls_back_witness:
  "\<exists>g'. start_launch (sample_os [7] True) (mk_path ''/v'') ''d'' (sample_vm\<lparr>g_files := [''kento-port'' \<mapsto> ''x'']\<rparr>) = Some (Inl ValidationErrorC, g') \<and>
     \<not> bx_mounted (g_world g') \<and> 7 \<notin> set (bx_alive (g_world g')) \<and> g_files g' ''kento-virtiofsd-pid'' = None"
proof -
  let ?os = "sample_os [7] True" and ?g = "sample_vm\<lparr>g_files := [''kento-port'' \<mapsto> ''x'']\<rparr>" and ?p = "mk_path ''/v''"
  have h: "reaps ?os" "detaches ?os (rootfs_path ?p) bx_mounted"
    by (auto simp: reaps_def detaches_def sample_os_def)
  have q: "qemu_argv ?p ([''kento-port'' \<mapsto> ''x'', ''kento-virtiofsd-pid'' \<mapsto> t]) = Inl ValidationErrorC" for t
  proof -
    have "parse_forward_spec ''x'' = Inl ValidationErrorC" "read_lines ''x'' = [''x'']" "py_strip ''x'' = ''x''" by code_simp+
    then show ?thesis by (simp add: qemu_argv_def read_hostfwds_def hostfwd_fragment_def case_prod_beta Let_def)
  qed
  have "\<exists>g'. start_launch ?os ?p ''d'' ?g = Some (Inl ValidationErrorC, g')"
  proof -
    have seen: "os_sock ?os ''virtiofsd.sock'' w \<Longrightarrow> wait_sock ?os n w = w" for n w by (cases n) simp_all
    let ?w1 = "(g_world ?g)\<lparr>bx_alive := 7 # bx_alive (g_world ?g), bx_socks := ''virtiofsd.sock'' # bx_socks (g_world ?g)\<rparr>"
    let ?g1 = "\<lparr>g_files = [''kento-port'' \<mapsto> ''x'', ''kento-virtiofsd-pid'' \<mapsto> int_str 7 @ [LF]], g_world = ?w1\<rparr>"
    have "start_launch ?os ?p ''d'' ?g = seqP (cleanup_failed_start ?os ?p (Some 7)) (raise_exc ValidationErrorC) ?g1"
      using seen [of ?w1 50] q
      by (simp add: start_launch_def virtiofsd_argv_def tryP.simps bindP.simps osP_run launch_qemu_def sample_os_def sample_vm_def)
    moreover obtain g2 where "cleanup_failed_start ?os ?p (Some 7) ?g1 = Some (Inr (), g2)"
      using cleanup_cleans [OF sample_os_fair(2,3) h(1) sample_os_fair(4,5) h(2), of "Some 7" ?g1] by blast
    ultimately show ?thesis by (simp add: bindP_step)
  qed
  then obtain g' where g': "start_launch ?os ?p ''d'' ?g = Some (Inl ValidationErrorC, g')" by blast
  moreover have "os_spawn ?os (virtiofsd_argv ?p ''d'') (g_world ?g) = (Inr 7, (g_world ?g)\<lparr>bx_alive := 7 # bx_alive (g_world ?g), bx_socks := ''virtiofsd.sock'' # bx_socks (g_world ?g)\<rparr>)"
    by (simp add: sample_os_def virtiofsd_argv_def)
  moreover note failed_launch_rolls_back [OF sample_os_fair(2,3) h(1) sample_os_fair(4,5) h(2) g']
  ultimately show ?thesis by (force simp: sample_os_def)
qed

end
