(* ===== verification/Ports.thy ===== *)
theory Ports imports Vmrun Create begin

text \<open>
  Automatic host ports: the allocation of \<^verbatim>\<open>vm.py\<close> as the write site of \<^verbatim>\<open>create.py\<close> uses it.
\<close>

lemma split_prefix: "split_outside_brackets d cur s = Inr (x # r) \<Longrightarrow> \<exists>m. x = cur @ m"
proof (induction d cur s arbitrary: x r rule: split_outside_brackets.induct)
  case (2 depth cur c cs)
  show ?case
  proof (cases "c = CHR '':'' \<and> depth = 0")
    case True
    with 2(5) show ?thesis by auto
  next
    case False
    with 2 show ?thesis by (fastforce split: if_splits)
  qed
qed (simp split: if_splits)

text \<open>The first of several elements stands before the first colon.\<close>

lemma split_head:
  "split_outside_brackets 0 cur s = Inr (x # y # zs) \<Longrightarrow> CHR ''['' \<notin> set x \<Longrightarrow>
     \<exists>m t. x = cur @ m \<and> s = m @ CHR '':'' # t \<and> CHR '':'' \<notin> set m"
proof (induction s arbitrary: cur)
  case (Cons c s)
  consider (colon) "c = CHR '':''" | (bracket) "c = CHR ''[''" | (plain) "c \<noteq> CHR '':''" "c \<noteq> CHR ''[''" "c \<noteq> CHR '']''" | "c = CHR '']''"
    by blast
  then show ?case
  proof cases
    case colon
    with Cons.prems have "x = cur" by auto
    with colon show ?thesis by (intro exI [of _ "[]"] exI [of _ s]) simp
  next
    case bracket
    with Cons.prems(1) have "split_outside_brackets 1 (cur @ [c]) s = Inr (x # y # zs)" by simp
    from split_prefix [OF this] bracket Cons.prems(2) show ?thesis by auto
  next
    case plain
    with Cons.prems(1) have "split_outside_brackets 0 (cur @ [c]) s = Inr (x # y # zs)" by simp
    from Cons.IH [OF this Cons.prems(2)] obtain m t where "x = (cur @ [c]) @ m" "s = m @ CHR '':'' # t" "CHR '':'' \<notin> set m" by blast
    with plain show ?thesis by (intro exI [of _ "c # m"] exI [of _ t]) simp
  next
    case 4
    with Cons.prems(1) show ?thesis by simp
  qed
qed simp

lemma parse_port_digits: "parse_port a = Inr h \<Longrightarrow> py_int a = Some h \<and> CHR ''['' \<notin> set a"
proof -
  have "\<not> is_digit (CHR ''['')" by code_simp
  then show "parse_port a = Inr h \<Longrightarrow> ?thesis"
    by (auto simp: parse_port_def ascii_digits_iff split: if_splits option.splits)
qed

lemma peel_body: "peel_protocol s = Inr (body, p) \<Longrightarrow> \<exists>t. s = body @ t"
proof (cases "CHR ''/'' \<in> set s")
  case True
  then obtain a b where "s = a @ CHR ''/'' # b" "py_rpartition (CHR ''/'') s = (a, True, b)" by (rule py_rpartition_split)
  then show "peel_protocol s = Inr (body, p) \<Longrightarrow> ?thesis" by (auto simp: peel_protocol_def split: if_splits option.splits)
qed (simp add: peel_protocol_def)

lemma spec_host_port:
  assumes "parse_forward_spec l = Inr ((p, a, h), tg)"
  shows "py_int (hd (py_split (CHR '':'') l)) = Some h"
proof -
  from assms obtain body q es where b: "peel_protocol l = Inr (body, q)" "split_outside_brackets 0 [] body = Inr es"
    "parse_elements q es = Inr ((p, a, h), tg)" by (auto simp: parse_forward_spec_def split: if_splits)
  from parse_elements_Inr [OF b(3)] obtain x y where e: "es = [x, y]" "parse_port x = Inr h" by auto
  with b(2) split_head [of "[]" body x y "[]"] parse_port_digits [OF e(2)] obtain t where
    "body = x @ CHR '':'' # t" "CHR '':'' \<notin> set x" by auto
  with peel_body [OF b(1)] obtain t' where "l = x @ CHR '':'' # t'" by auto
  with \<open>CHR '':'' \<notin> set x\<close> parse_port_digits [OF e(2)] show ?thesis by (simp add: py_split_append)
qed

text \<open>Every port recorded by an instance counts as used.\<close>

lemma listing_ports_iff: "h \<in> set (listing_ports es) \<longleftrightarrow> (\<exists>d fs. (d, EDir fs) \<in> set es \<and> h \<in> set (host_ports fs))"
  by (induction es rule: listing_ports.induct) auto

definition records_port :: "store \<Rightarrow> int \<Rightarrow> bool" where
  "records_port st h \<longleftrightarrow> (\<exists>b d fs t l p a tg. (d, EDir fs) \<in> set (entries_of st b) \<and> fs ''kento-port'' = Some t \<and>
     l \<in> set (read_lines t) \<and> parse_forward_spec (py_strip l) = Inr ((p, a, h), tg))"

lemma recorded_used:
  assumes "records_port st h"
  shows "h \<in> set (used_ports st exclude)"
proof -
  from assms obtain b d fs t l p a tg where r: "(d, EDir fs) \<in> set (entries_of st b)" "fs ''kento-port'' = Some t"
    "l \<in> set (read_lines t)" "parse_forward_spec (py_strip l) = Inr ((p, a, h), tg)" unfolding records_port_def by blast
  have "py_strip l \<noteq> []" using r(4) by (auto simp: parse_forward_spec_def)
  with r(3) have "py_strip l \<in> set (filter (\<lambda>l. l \<noteq> []) (map py_strip (read_lines t)))" by simp
  with spec_host_port [OF r(4)] r(2) have "h \<in> set (host_ports fs)"
    unfolding host_ports_def by (force simp: List.map_filter_def)
  with r(1) show ?thesis by (cases b) (auto simp: used_ports_def listing_ports_iff)
qed

lemma allocate_port_Inr:
  "allocate_port st free exclude = Inr hp \<Longrightarrow>
     PORT_LOW \<le> hp \<and> hp \<le> PORT_HIGH \<and> free hp \<and> hp \<notin> set (used_ports st exclude)"
  by (auto simp: allocate_port_def Let_def find_Some_iff split: option.splits dest: nth_mem)

lemma low_port_valid: "PORT_LOW \<le> hp \<Longrightarrow> hp \<le> PORT_HIGH \<Longrightarrow> valid_forward ((TCP, None, hp), (None, 22))"
  by (simp add: valid_forward_def port_bounds PORT_LOW_def PORT_HIGH_def)

lemma auto_spec:
  "valid_forward ((TCP, None, hp), (None, 22)) \<Longrightarrow> parse_forward_spec (int_str hp @ '':22'') = Inr ((TCP, None, hp), (None, 22))"
proof -
  have "int_str 22 = ''22''" by code_simp
  then show "valid_forward ((TCP, None, hp), (None, 22)) \<Longrightarrow> ?thesis"
    using forward_parse_render [of "((TCP, None, hp), (None, 22))" "int_str hp @ '':22''"] by (simp add: render_forward_spec_def)
qed

lemma resolve_specs_auto:
  "(\<And>c hp. alloc c = Inr hp \<Longrightarrow> valid_forward ((TCP, None, hp), (None, 22))) \<Longrightarrow> resolve_specs alloc claimed specs = Inr rs \<Longrightarrow>
    list_all2 (\<lambda>spec r. spec = ''auto'' \<longrightarrow> (\<exists>c hp. alloc c = Inr hp \<and> r = int_str hp @ '':22'')) specs rs"
proof (induction alloc claimed specs arbitrary: rs rule: resolve_specs.induct)
  case (2 alloc claimed spec specs)
  show ?case
  proof (cases "spec = ''auto''")
    case True
    with 2(4) obtain hp b t r ts where r: "alloc claimed = Inr hp" "parse_forward_spec (int_str hp @ '':22'') = Inr (b, t)"
      "render_forward_spec b t = Inr r" "resolve_specs alloc (hp # claimed) specs = Inr ts" "rs = r # ts" by auto
    have "b = (TCP, None, hp) \<and> t = (None, 22)" using auto_spec [OF 2(3) [OF r(1)]] r(2) by simp
    moreover have "int_str 22 = ''22''" by code_simp
    ultimately have "r = int_str hp @ '':22''" using r(3) by (auto simp: render_forward_spec_def)
    with r 2(1) [OF True 2(3) r(4)] True show ?thesis by auto
  next
    case False
    with 2(4) obtain b t r ts where r: "parse_forward_spec spec = Inr (b, t)" "render_forward_spec b t = Inr r"
      "resolve_specs alloc claimed specs = Inr ts" "rs = r # ts" by auto
    with 2(2) [OF False 2(3) r(3)] False show ?thesis by auto
  qed
qed simp

text \<open>
  Each automatic forward written for a new instance has a free host port of the reserved
  range that no instance of the store records: no line of any port file is a forward of that
  host port, whatever its protocol and however it is spelled.
\<close>
theorem auto_ports_fresh:
  assumes "write_port_specs (allocate_port st free) fs specs = Inr (resolved, fs')"
  shows "list_all2 (\<lambda>spec r. spec = ''auto'' \<longrightarrow> (\<exists>hp. r = int_str hp @ '':22'' \<and> PORT_LOW \<le> hp \<and> hp \<le> PORT_HIGH \<and>
      free hp \<and> \<not> records_port st hp)) specs resolved"
proof -
  have "resolve_specs (allocate_port st free) [] specs = Inr resolved"
    using assms by (auto simp: write_port_specs_def)
  from resolve_specs_auto [OF low_port_valid this] show ?thesis
    by (rule list_all2_mono) (use allocate_port_Inr recorded_used in fast)+
qed


definition sample_ports :: store where
  "sample_ports = \<lparr>lxc_base = Some [(''a'', EDir [''kento-port'' \<mapsto> ''7:9''])], vm_base = None\<rparr>"

theorem auto_ports_fresh_witness:
  "\<exists>r fs' hp. write_port_specs (allocate_port sample_ports (\<lambda>p. p = 10023)) Map.empty [''auto''] = Inr ([r], fs') \<and>
     r = int_str hp @ '':22'' \<and> hp = 10023 \<and> \<not> records_port sample_ports hp"
proof -
  let ?alloc = "allocate_port sample_ports (\<lambda>p. p = 10023)"
  have "host_ports [''kento-port'' \<mapsto> ''7:9''] = [7]" by code_simp
  then have u: "set (used_ports sample_ports []) = {7}" by (simp add: used_ports_def sample_ports_def entries_of_def)
  have "find (\<lambda>p. p \<notin> set (used_ports sample_ports []) \<and> p = 10023) [PORT_LOW..PORT_HIGH] \<noteq> None"
    unfolding find_None_iff u by (simp add: PORT_LOW_def PORT_HIGH_def)
  then obtain hp where hp: "?alloc [] = Inr hp" by (auto simp: allocate_port_def Let_def)
  from allocate_port_Inr [OF hp] have b: "PORT_LOW \<le> hp" "hp \<le> PORT_HIGH" by auto
  have d: "int_str 22 = ''22''" by code_simp
  note p = auto_spec [OF low_port_valid [OF b]]
  from p have "resolve_specs ?alloc [] [''auto''] = Inr [int_str hp @ '':22'']"
    using hp d by (simp add: render_forward_spec_def)
  moreover from p have "\<exists>m. parse_forwards [int_str hp @ '':22''] = Inr m" by (simp add: parse_forwards_def)
  ultimately obtain fs' where w: "write_port_specs ?alloc Map.empty [''auto''] = Inr ([int_str hp @ '':22''], fs')"
    by (auto simp: write_port_specs_def)
  from auto_ports_fresh [OF w] show ?thesis using w by auto
qed

end
