(* ===== verification/Holds.thy ===== *)
theory Holds imports Vmrun begin

text \<open>
  The image holds of \<^verbatim>\<open>layers.py\<close>: a stopped podman container that keeps an image from being
  pruned while an instance uses it, its creation, inspection, replacement and removal.  Podman
  is a command of the operating system.
\<close>

definition podman :: "'w os \<Rightarrow> string list \<Rightarrow> (int \<times> string, 'w guest) prog" where
  "podman os args = osP (os_run os None (''podman'' # args))"

definition hold_of :: "string \<Rightarrow> string" where "hold_of name = ''kento-hold.'' @ name"

definition resolve_image_id :: "'w os \<Rightarrow> string \<Rightarrow> (string, 'w guest) prog" where
  "resolve_image_id os img =
     exceptP [ExceptionC]
       (bindP (podman os [''image'', ''inspect'', img, ''--format'', ''{{.Id}}'']) (\<lambda>(rc, out).
          if rc \<noteq> 0 then give [] else give (py_strip out)))
       (give [])"

definition create_cmd :: "string \<Rightarrow> string \<Rightarrow> string \<Rightarrow> string list" where
  "create_cmd img name image_id =
     [''create'', ''--name'', hold_of name, ''--label'', ''io.kento.hold-for='' @ name] @
     (if image_id \<noteq> [] then [''--label'', ''io.kento.hold-image-id='' @ image_id, image_id] else [img]) @
     [''/bin/true'']"

definition create_image_hold :: "'w os \<Rightarrow> string \<Rightarrow> string \<Rightarrow> (unit, 'w guest) prog" where
  "create_image_hold os img name =
     bindP (resolve_image_id os img) (\<lambda>image_id.
     bindP (podman os (create_cmd img name image_id)) (\<lambda>_. give ()))"

definition pinned_cmd :: "string \<Rightarrow> string list" where
  "pinned_cmd name = [''container'', ''inspect'', hold_of name, ''--format'',
     ''{{index .Config.Labels '' @ [CHR 34] @ ''io.kento.hold-image-id'' @ [CHR 34] @ ''}}'']"

definition hold_pinned_id :: "'w os \<Rightarrow> string \<Rightarrow> (string, 'w guest) prog" where
  "hold_pinned_id os name =
     exceptP [ExceptionC]
       (bindP (podman os (pinned_cmd name)) (\<lambda>(rc, out).
          if rc \<noteq> 0 then give [] else give (if py_strip out = ''<no value>'' then [] else py_strip out)))
       (give [])"

definition remove_image_hold :: "'w os \<Rightarrow> string \<Rightarrow> (unit, 'w guest) prog" where
  "remove_image_hold os name = bindP (podman os [''rm'', hold_of name]) (\<lambda>_. give ())"

definition ensure_image_hold :: "'w os \<Rightarrow> string \<Rightarrow> string \<Rightarrow> (unit, 'w guest) prog" where
  "ensure_image_hold os img name =
     exceptP [ExceptionC]
       (bindP (podman os [''container'', ''exists'', hold_of name]) (\<lambda>(rc, _).
          if rc \<noteq> 0 then create_image_hold os img name else give ()))
       (give ())"

definition repin_image_hold :: "'w os \<Rightarrow> string \<Rightarrow> string \<Rightarrow> (bool, 'w guest) prog" where
  "repin_image_hold os img name =
     bindP (resolve_image_id os img) (\<lambda>target.
       if target = [] then seqP (ensure_image_hold os img name) (give False)
       else bindP (exceptP [ExceptionC]
              (bindP (hold_pinned_id os name) (\<lambda>pinned.
               bindP (podman os [''container'', ''exists'', hold_of name]) (\<lambda>(rc, _). give (pinned, rc = 0))))
              (give ([], False))) (\<lambda>(pinned, present).
            if present \<and> pinned = target then give False
            else seqP (remove_image_hold os name) (seqP (create_image_hold os img name) (give True))))"

section \<open>What podman does\<close>

text \<open>
  A view of the store: the holds by instance, each with the image id in its label, and the id an
  image name resolves to.  Podman answers the queries from it, and the two commands change it.
\<close>

definition clean_id :: "string \<Rightarrow> bool" where
  "clean_id i \<longleftrightarrow> i = [] \<or> stripped i \<and> i \<noteq> ''<no value>''"

definition podman_obeys :: "'w os \<Rightarrow> ('w \<Rightarrow> string \<Rightarrow> string option) \<Rightarrow> (string \<Rightarrow> string option) \<Rightarrow> bool" where
  "podman_obeys os holds ids \<longleftrightarrow>
     (\<forall>img w. os_run os None [''podman'', ''image'', ''inspect'', img, ''--format'', ''{{.Id}}''] w =
        (Inr (case ids img of Some i \<Rightarrow> (0, i @ [LF]) | None \<Rightarrow> (1, [])), w)) \<and>
     (\<forall>n w. os_run os None (''podman'' # pinned_cmd n) w =
        (Inr (case holds w n of Some i \<Rightarrow> (0, (if i = [] then ''<no value>'' else i) @ [LF]) | None \<Rightarrow> (1, [])), w)) \<and>
     (\<forall>n w. os_run os None [''podman'', ''container'', ''exists'', hold_of n] w =
        (Inr (if holds w n = None then 1 else 0, []), w)) \<and>
     (\<forall>n w. \<exists>r w'. os_run os None [''podman'', ''rm'', hold_of n] w = (Inr r, w') \<and> holds w' = (holds w)(n := None)) \<and>
     (\<forall>img n i w. clean_id i \<longrightarrow> (\<exists>r w'. os_run os None (''podman'' # create_cmd img n i) w = (Inr r, w') \<and>
        holds w' = (if holds w n = None then (holds w)(n \<mapsto> i) else holds w))) \<and>
     (\<forall>img i. ids img = Some i \<longrightarrow> i \<noteq> [] \<and> clean_id i) \<and>
     (\<forall>w n j. holds w n = Some j \<longrightarrow> clean_id j)"

lemma stripped_LF [simp]: "stripped i \<Longrightarrow> py_strip (i @ [LF]) = i"
  by (simp add: stripped_line)

lemma podman_bind [simp]:
  "os_run os None (''podman'' # args) (g_world g) = (Inr x, w) \<Longrightarrow> bindP (podman os args) k g = k x (g\<lparr>g_world := w\<rparr>)"
  by (simp add: podman_def)

lemma same_world [simp]: "g\<lparr>g_world := g_world g\<rparr> = g" by simp

lemma resolve_id:
  assumes "podman_obeys os holds ids"
  shows "resolve_image_id os img g = Some (Inr (case ids img of Some i \<Rightarrow> i | None \<Rightarrow> []), g)"
proof -
  have "os_run os None (''podman'' # [''image'', ''inspect'', img, ''--format'', ''{{.Id}}'']) (g_world g) =
      (Inr (case ids img of Some i \<Rightarrow> (0, i @ [LF]) | None \<Rightarrow> (1, [])), g_world g)"
    using assms unfolding podman_obeys_def by blast
  moreover have "\<And>i. ids img = Some i \<Longrightarrow> stripped i" using assms unfolding podman_obeys_def clean_id_def by blast
  ultimately show ?thesis
    by (cases "ids img") (simp_all add: resolve_image_id_def exceptP_def tryP.simps)
qed

lemma create_hold:
  assumes "podman_obeys os holds ids"
  shows "\<exists>w'. create_image_hold os img n g = Some (Inr (), g\<lparr>g_world := w'\<rparr>) \<and>
    holds w' = (if holds (g_world g) n = None then (holds (g_world g))(n \<mapsto> (case ids img of Some i \<Rightarrow> i | None \<Rightarrow> []))
                else holds (g_world g))"
proof -
  let ?i = "case ids img of Some i \<Rightarrow> i | None \<Rightarrow> []"
  have "clean_id ?i" using assms unfolding podman_obeys_def by (auto simp: clean_id_def split: option.splits)
  have "\<exists>r w'. os_run os None (''podman'' # create_cmd img n ?i) (g_world g) = (Inr r, w') \<and>
        holds w' = (if holds (g_world g) n = None then (holds (g_world g))(n \<mapsto> ?i) else holds (g_world g))"
    using assms \<open>clean_id ?i\<close> unfolding podman_obeys_def by blast
  then obtain r w' where "os_run os None (''podman'' # create_cmd img n ?i) (g_world g) = (Inr r, w')"
      "holds w' = (if holds (g_world g) n = None then (holds (g_world g))(n \<mapsto> ?i) else holds (g_world g))" by blast
  moreover have "create_image_hold os img n g = bindP (podman os (create_cmd img n ?i)) (\<lambda>_. give ()) g"
    by (simp add: create_image_hold_def bindP_step(1) [of "resolve_image_id os img", OF resolve_id [OF assms]])
  ultimately show ?thesis by (intro exI [of _ w']) simp
qed

lemma hold_id:
  assumes "podman_obeys os holds ids"
  shows "hold_pinned_id os n g = Some (Inr (case holds (g_world g) n of Some j \<Rightarrow> j | None \<Rightarrow> []), g)"
proof -
  have "os_run os None (''podman'' # pinned_cmd n) (g_world g) =
      (Inr (case holds (g_world g) n of Some i \<Rightarrow> (0, (if i = [] then ''<no value>'' else i) @ [LF]) | None \<Rightarrow> (1, [])), g_world g)"
    using assms unfolding podman_obeys_def by blast
  moreover have "\<And>j. holds (g_world g) n = Some j \<Longrightarrow> j = [] \<or> stripped j \<and> j \<noteq> ''<no value>''"
    using assms unfolding podman_obeys_def clean_id_def by blast
  moreover have "py_strip [CHR ''<'', CHR ''n'', CHR ''o'', CHR '' '', CHR ''v'', CHR ''a'', CHR ''l'', CHR ''u'', CHR ''e'', CHR ''>'', LF] = ''<no value>''"
    by code_simp
  ultimately show ?thesis
    by (cases "holds (g_world g) n") (auto simp: hold_pinned_id_def exceptP_def tryP.simps)
qed

lemma exists_hold:
  assumes "podman_obeys os holds ids"
  shows "bindP (podman os [''container'', ''exists'', hold_of n]) k g = k (if holds (g_world g) n = None then 1 else 0, []) g"
proof -
  have "os_run os None (''podman'' # [''container'', ''exists'', hold_of n]) (g_world g) = (Inr (if holds (g_world g) n = None then 1 else 0, []), g_world g)"
    using assms unfolding podman_obeys_def by blast
  then show ?thesis by simp
qed

text \<open>
  Repinning the hold of an instance aligns it with the image its name resolves to now: the
  call says whether the hold had to be replaced, afterwards the hold pins exactly that img's
  content, no other instance's hold is touched, and a second call changes nothing.
\<close>
theorem repin_aligns:
  assumes "podman_obeys os holds ids" "ids img = Some i"
  shows "\<exists>w'. repin_image_hold os img n g = Some (Inr (holds (g_world g) n \<noteq> Some i), g\<lparr>g_world := w'\<rparr>) \<and>
    holds w' = (holds (g_world g))(n \<mapsto> i) \<and>
    repin_image_hold os img n (g\<lparr>g_world := w'\<rparr>) = Some (Inr False, g\<lparr>g_world := w'\<rparr>)"
proof -
  have id: "i \<noteq> []" using assms unfolding podman_obeys_def by blast
  have look: "exceptP [ExceptionC]
              (bindP (hold_pinned_id os n) (\<lambda>pinned.
               bindP (podman os [''container'', ''exists'', hold_of n]) (\<lambda>(rc, _). give (pinned, rc = 0))))
              (give ([], False)) h =
     Some (Inr (case holds (g_world h) n of Some j \<Rightarrow> j | None \<Rightarrow> [], holds (g_world h) n \<noteq> None), h)" for h
    by (simp add: exceptP_def tryP.simps bindP_step(1) [of "hold_pinned_id os n", OF hold_id [OF assms(1)]] exists_hold [OF assms(1)])
  have rp: "repin_image_hold os img n h = (if holds (g_world h) n = Some i then give False
      else seqP (remove_image_hold os n) (seqP (create_image_hold os img n) (give True))) h" for h
    unfolding repin_image_hold_def bindP_step(1) [of "resolve_image_id os img", OF resolve_id [OF assms(1)]]
    using id assms(2) by (auto simp: bindP_step(1) [OF look] split: option.splits)
  let ?h = "holds (g_world g)"
  show ?thesis
  proof (cases "?h n = Some i")
    case True
    then have "?h(n \<mapsto> i) = ?h" by auto
    with True rp show ?thesis by (intro exI [of _ "g_world g"]) simp
  next
    case False
    obtain r w1 where 1: "os_run os None (''podman'' # [''rm'', hold_of n]) (g_world g) = (Inr r, w1)" "holds w1 = ?h(n := None)"
      using assms(1) unfolding podman_obeys_def by blast
    let ?g1 = "g\<lparr>g_world := w1\<rparr>"
    obtain w2 where 2: "create_image_hold os img n ?g1 = Some (Inr (), ?g1\<lparr>g_world := w2\<rparr>)" "holds w2 = ?h(n \<mapsto> i)"
      using create_hold [OF assms(1), of img n ?g1] 1(2) assms(2) by auto
    have "remove_image_hold os n g = Some (Inr (), ?g1)" using 1(1) by (simp add: remove_image_hold_def)
    then have "seqP (remove_image_hold os n) (seqP (create_image_hold os img n) (give True)) g = Some (Inr True, g\<lparr>g_world := w2\<rparr>)"
      using 2(1) by (simp add: seqP_def bindP.simps)
    with False rp [of g] have "repin_image_hold os img n g = Some (Inr True, g\<lparr>g_world := w2\<rparr>)" by simp
    moreover have "repin_image_hold os img n (g\<lparr>g_world := w2\<rparr>) = Some (Inr False, g\<lparr>g_world := w2\<rparr>)"
      using rp [of "g\<lparr>g_world := w2\<rparr>"] 2(2) by simp
    ultimately show ?thesis using False 2(2) by (intro exI [of _ w2]) simp
  qed
qed

text \<open>A podman that knows one image; the world is the labels of the holds.\<close>

definition hold_name_of :: "string \<Rightarrow> string" where "hold_name_of h = drop (length (hold_of [])) h"

definition sample_podman :: "(string \<rightharpoonup> string) tool" where
  "sample_podman argv w =
     (let n = hold_name_of (argv ! 3)
      in if take 3 argv = [''podman'', ''image'', ''inspect''] then (Inr (if argv ! 3 = ''web'' then (0, ''sha'' @ [LF]) else (1, [])), w)
         else if take 3 argv = [''podman'', ''container'', ''inspect''] then
           (Inr (case w n of Some i \<Rightarrow> (0, (if i = [] \<or> \<not> clean_id i then ''<no value>'' else i) @ [LF]) | None \<Rightarrow> (1, [])), w)
         else if take 3 argv = [''podman'', ''container'', ''exists''] then (Inr (if w n = None then 1 else 0, []), w)
         else if take 2 argv = [''podman'', ''rm''] then (Inr (0, []), w(hold_name_of (argv ! 2) := None))
         else if take 2 argv = [''podman'', ''create''] then
           (Inr (0, []), if w n = None then w(n \<mapsto> if argv ! 6 = ''--label'' then drop 23 (argv ! 7) else []) else w)
         else (Inr (0, []), w))"

definition podman_os :: "(string \<rightharpoonup> string) os" where
  "podman_os = \<lparr>os_run = (\<lambda>_. sample_podman), os_spawn = (\<lambda>_ w. (Inr 1, w)), os_alive = (\<lambda>_ _. False), os_exited = (\<lambda>_ _. True),
     os_kill = (\<lambda>_ _ w. (Inl ProcessLookupErrorC, w)), os_wait = (\<lambda>_ _ w. (Inr (), w)), os_now = (\<lambda>_. 0), os_sleep = (\<lambda>_ w. w),
     os_sock = (\<lambda>_ _. False), os_unlink_sock = (\<lambda>_ w. w), os_which = (\<lambda>_. None), os_is_file = (\<lambda>_ _. False), os_link = (\<lambda>_. Inr [])\<rparr>"

definition view_holds :: "(string \<rightharpoonup> string) \<Rightarrow> string \<Rightarrow> string option" where
  "view_holds w n = map_option (\<lambda>i. if clean_id i then i else []) (w n)"

lemma view_update:
  "view_holds (w(n := None)) = (view_holds w)(n := None)" "clean_id i \<Longrightarrow> view_holds (w(n \<mapsto> i)) = (view_holds w)(n \<mapsto> i)"
  "view_holds w n = None \<longleftrightarrow> w n = None"
  by (auto simp: view_holds_def)

lemma sample_podman_obeys: "podman_obeys podman_os view_holds [''web'' \<mapsto> ''sha'']"
proof -
  have c: "clean_id ''sha''" "clean_id []" by code_simp+
  have run: "os_run podman_os None = sample_podman" by (simp add: podman_os_def)
  note d = sample_podman_def hold_name_of_def hold_of_def pinned_cmd_def create_cmd_def
  have "sample_podman (''podman'' # pinned_cmd n) w =
     (Inr (case view_holds w n of Some i \<Rightarrow> (0, (if i = [] then ''<no value>'' else i) @ [LF]) | None \<Rightarrow> (1, [])), w)" for n w
    by (auto simp: d view_holds_def split: option.splits)
  moreover have "sample_podman (''podman'' # create_cmd img n i) w = (Inr (0, []), if w n = None then w(n \<mapsto> i) else w)" for img n i w
    by (simp add: d)
  moreover have "sample_podman [''podman'', ''rm'', hold_of n] w = (Inr (0, []), w(n := None))" for n w by (simp add: d)
  moreover have "sample_podman [''podman'', ''container'', ''exists'', hold_of n] w = (Inr (if view_holds w n = None then 1 else 0, []), w)" for n w
    by (simp add: d view_update)
  moreover have "sample_podman [''podman'', ''image'', ''inspect'', img, ''--format'', ''{{.Id}}''] w =
     (Inr (case [''web'' \<mapsto> ''sha''] img of Some i \<Rightarrow> (0, i @ [LF]) | None \<Rightarrow> (1, [])), w)" for img w by (simp add: d)
  moreover have "view_holds w n = Some j \<Longrightarrow> clean_id j" for w n j using c by (auto simp: view_holds_def split: if_splits)
  ultimately show ?thesis using c unfolding podman_obeys_def run by (simp add: view_update)
qed

theorem repin_aligns_witness:
  "\<exists>w'. repin_image_hold podman_os ''web'' ''a'' \<lparr>g_files = Map.empty, g_world = [''a'' \<mapsto> ''old'', ''b'' \<mapsto> ''old'']\<rparr> =
       Some (Inr True, \<lparr>g_files = Map.empty, g_world = w'\<rparr>) \<and> view_holds w' ''a'' = Some ''sha'' \<and> view_holds w' ''b'' = Some ''old''"
proof -
  let ?g = "\<lparr>g_files = Map.empty, g_world = [''a'' \<mapsto> ''old'', ''b'' \<mapsto> ''old'']\<rparr>"
  have "clean_id ''old''" by code_simp
  then have "view_holds (g_world ?g) ''a'' \<noteq> Some ''sha''" "view_holds (g_world ?g) ''b'' = Some ''old''" by (simp_all add: view_holds_def)
  with repin_aligns [OF sample_podman_obeys, of "''web''" "''sha''" "''a''" ?g] show ?thesis by auto
qed

end
