(* ===== verification/Lifecycle.thy ===== *)
theory Lifecycle imports Holds Snapshot begin

text \<open>
  Starting and stopping: \<^verbatim>\<open>start.py\<close>, \<^verbatim>\<open>stop.py\<close>, \<^verbatim>\<open>suspend.py\<close> and the methods of a typed
  instance that wrap them, with the bounded wait of a stop.  What the run state is asked of is
  a view of the host that depends on the world and may raise.
\<close>

definition probe_now :: "'w os \<Rightarrow> ('w \<Rightarrow> exc + host_view) \<Rightarrow> string \<Rightarrow> string \<Rightarrow> 'w guest \<Rightarrow> exc + bool" where
  "probe_now os view dir mode g =
     (if mode = ''vm'' then Inr (vm_up os g)
      else bindE (view (g_world g)) (\<lambda>hv. Inr (is_running hv dir (g_files g) mode)))"

definition probeP :: "'w os \<Rightarrow> ('w \<Rightarrow> exc + host_view) \<Rightarrow> string \<Rightarrow> string \<Rightarrow> (bool, 'w guest) prog" where
  "probeP os view dir mode = bindP (look (probe_now os view dir mode)) pure_res"

section \<open>Stopping\<close>

definition PVE_SHUTDOWN_TIMEOUT :: int where "PVE_SHUTDOWN_TIMEOUT = 30"

definition NOT_RUNNING_MARKERS :: "string list" where
  "NOT_RUNNING_MARKERS = [''not running'', ''no such'', ''is stopped'']"

definition is_not_running_error :: "string \<Rightarrow> bool" where
  "is_not_running_error text = list_ex (\<lambda>m. py_in m (py_lower text)) NOT_RUNNING_MARKERS"

text \<open>The text a \<^verbatim>\<open>qm\<close> or \<^verbatim>\<open>pct\<close> command prints is that of both its streams.\<close>

definition pve_shutdown_or_die ::
  "'w os \<Rightarrow> ('w \<Rightarrow> exc + host_view) \<Rightarrow> string \<Rightarrow> string \<Rightarrow> string list \<Rightarrow> (bool, 'w guest) prog" where
  "pve_shutdown_or_die os view dir mode cmd =
     bindP (tryP (bindP (osP (os_run os None cmd)) (\<lambda>r. give (Some r)))
              (\<lambda>e. if catches [FileNotFoundErrorC, OSErrorC] e
                   then seqP (osP (run_or_die (os_run os None) cmd)) (give None) else raise_exc e))
       (\<lambda>r. case r of None \<Rightarrow> give False
          | Some (rc, out) \<Rightarrow>
              if rc = 0 then give True
              else if is_not_running_error out then give False
              else bindP (probeP os view dir mode) (\<lambda>up. if \<not> up then give False else raise_exc SubprocessErrorC))"

definition stop_cmd :: "string \<Rightarrow> string \<Rightarrow> string \<Rightarrow> bool \<Rightarrow> int option \<Rightarrow> bool \<Rightarrow> string list" where
  "stop_cmd mode dir vmid force timeout graceful_only =
     (if mode = ''pve-vm'' then
        (if force then [''qm'', ''stop'', vmid]
         else if graceful_only then [''qm'', ''shutdown'', vmid]
         else [''qm'', ''shutdown'', vmid, ''--timeout'',
               int_str (case timeout of Some t \<Rightarrow> t | None \<Rightarrow> PVE_SHUTDOWN_TIMEOUT), ''--forceStop''])
      else if mode = ''pve'' then
        (if force then [''pct'', ''stop'', dir] else [''pct'', ''shutdown'', dir])
      else [''lxc-stop'', ''-n'', dir] @
        (if force then [''-k''] else if graceful_only then [''--nokill''] else []))"

definition shutdown ::
  "bool \<Rightarrow> 'w os \<Rightarrow> ('w \<Rightarrow> exc + host_view) \<Rightarrow> ppath \<Rightarrow> string \<Rightarrow> bool \<Rightarrow> int option \<Rightarrow> bool \<Rightarrow> (unit, 'w guest) prog" where
  "shutdown is_root os view cdir mode force timeout graceful_only =
     (let dir = path_name cdir
      in if \<not> is_root then raise_exc StateErrorC
         else if graceful_only \<and> force then raise_exc ValidationErrorC
         else if graceful_only \<and> timeout \<noteq> None then raise_exc ValidationErrorC
         else if force \<and> timeout \<noteq> None then raise_exc ValidationErrorC
         else bindP (probeP os view dir mode) (\<lambda>up.
           if \<not> up then give ()
           else if mode = ''vm'' then stop_vm os cdir force graceful_only
           else if mode = ''pve-vm'' then
             bindP (need_file ''kento-vmid'') (\<lambda>vmid.
             bindP (pve_shutdown_or_die os view dir mode (stop_cmd mode dir vmid force timeout graceful_only)) (\<lambda>_. give ()))
           else if mode = ''pve'' then
             bindP (pve_shutdown_or_die os view dir mode (stop_cmd mode dir [] force timeout graceful_only)) (\<lambda>_. give ())
           else osP (run_or_die (os_run os None) (stop_cmd mode dir [] force timeout graceful_only))))"

section \<open>Starting\<close>

definition start_cmd :: "string \<Rightarrow> string \<Rightarrow> string \<Rightarrow> string list" where
  "start_cmd mode dir vmid =
     (if mode = ''pve-vm'' then [''qm'', ''start'', vmid]
      else if mode = ''pve'' then [''pct'', ''start'', dir]
      else [''lxc-start'', ''-n'', dir])"

definition start ::
  "bool \<Rightarrow> 'w os \<Rightarrow> ('w \<Rightarrow> exc + host_view) \<Rightarrow> ppath \<Rightarrow> string \<Rightarrow> string \<Rightarrow> (unit, 'w guest) prog" where
  "start is_root os view cdir mode name =
     (let dir = path_name cdir
      in if \<not> is_root then raise_exc StateErrorC
         else bindP (probeP os view dir mode) (\<lambda>up.
           if up then give ()
           else bindP (need_file ''kento-image'') (\<lambda>img.
                bindP (file_of ''kento-name'') (\<lambda>nm.
                seqP (ensure_image_hold os img (case nm of Some t \<Rightarrow> file_text t | None \<Rightarrow> name))
                (if mode = ''vm'' then start_vm os cdir
                 else if mode = ''pve-vm'' then
                   bindP (need_file ''kento-vmid'') (\<lambda>vmid. osP (run_or_die (os_run os None) (start_cmd mode dir vmid)))
                 else osP (run_or_die (os_run os None) (start_cmd mode dir [])))))))"

section \<open>The methods of a handle\<close>

record 'w handle =
  hd_dead :: bool
  hd_status :: status
  hd_guest :: "'w guest"

definition on_guest :: "('a, 'w guest) prog \<Rightarrow> ('a, 'w handle) prog" where
  "on_guest m h = (case m (hd_guest h) of None \<Rightarrow> None | Some (r, g) \<Rightarrow> Some (r, h\<lparr>hd_guest := g\<rparr>))"

definition check_alive :: "(unit, 'w handle) prog" where
  "check_alive = bindP (look hd_dead) (\<lambda>dead. if dead then raise_exc InstanceNotFoundErrorC else give ())"

definition status_now :: "'w os \<Rightarrow> ('w \<Rightarrow> exc + host_view) \<Rightarrow> string \<Rightarrow> string \<Rightarrow> 'w guest \<Rightarrow> exc + status" where
  "status_now os view dir mode g =
     resolve_status (\<lambda>vmid m. bindE (view (g_world g)) (\<lambda>hv. Inr (pve_config_exists hv vmid m)))
       (\<lambda>m. probe_now os view dir m g) dir (g_files g) mode"

definition update_status :: "'w os \<Rightarrow> ('w \<Rightarrow> exc + host_view) \<Rightarrow> string \<Rightarrow> string \<Rightarrow> (unit, 'w handle) prog" where
  "update_status os view dir mode =
     bindP (look (\<lambda>h. status_now os view dir mode (hd_guest h))) (\<lambda>r.
     bindP (pure_res r) (\<lambda>s. alter (\<lambda>h. h\<lparr>hd_status := s\<rparr>)))"

text \<open>The bounded wait: the last look is at or after the deadline.\<close>

partial_function (option) wait_down ::
  "'w os \<Rightarrow> ('w guest \<Rightarrow> exc + bool) \<Rightarrow> rat \<Rightarrow> 'w guest \<Rightarrow> ((exc + bool) \<times> 'w guest) option" where
  "wait_down os up deadline g =
     (case up g of
        Inl e \<Rightarrow> Some (if catches [OSErrorC, KentoErrorC] e then Inr True else Inl e, g)
      | Inr running \<Rightarrow>
          (if \<not> running then Some (Inr True, g)
           else if deadline \<le> os_now os (g_world g) then Some (Inr False, g)
           else wait_down os up deadline (g\<lparr>g_world := os_sleep os (1/2) (g_world g)\<rparr>)))"

definition wait_until_down :: "'w os \<Rightarrow> ('w \<Rightarrow> exc + host_view) \<Rightarrow> string \<Rightarrow> string \<Rightarrow> int \<Rightarrow> (bool, 'w guest) prog" where
  "wait_until_down os view dir mode timeout g =
     wait_down os (probe_now os view dir mode) (os_now os (g_world g) + of_int (max timeout 0)) g"

definition STOP_DEFAULT_TIMEOUT :: int where "STOP_DEFAULT_TIMEOUT = 15"

definition stop_grace :: "int option \<Rightarrow> bool \<Rightarrow> int" where
  "stop_grace timeout force = (case timeout of None \<Rightarrow> if force then 0 else STOP_DEFAULT_TIMEOUT | Some t \<Rightarrow> t)"

definition instance_stop ::
  "bool \<Rightarrow> 'w os \<Rightarrow> ('w \<Rightarrow> exc + host_view) \<Rightarrow> ppath \<Rightarrow> string \<Rightarrow> int option \<Rightarrow> bool \<Rightarrow> (unit, 'w handle) prog" where
  "instance_stop is_root os view cdir mode timeout force =
     (let dir = path_name cdir; grace = stop_grace timeout force
      in seqP check_alive
        (if force \<and> grace \<le> 0 then
           seqP (on_guest (shutdown is_root os view cdir mode True None False)) (update_status os view dir mode)
         else
           seqP (on_guest (shutdown is_root os view cdir mode False None True))
           (bindP (on_guest (wait_until_down os view dir mode grace)) (\<lambda>down.
             seqP (if \<not> down then
                     (if force then on_guest (shutdown is_root os view cdir mode True None False)
                      else seqP (update_status os view dir mode) (raise_exc StopTimeoutC))
                   else give ())
               (update_status os view dir mode)))))"

definition instance_start ::
  "bool \<Rightarrow> 'w os \<Rightarrow> ('w \<Rightarrow> exc + host_view) \<Rightarrow> ppath \<Rightarrow> string \<Rightarrow> string \<Rightarrow> (unit, 'w handle) prog" where
  "instance_start is_root os view cdir mode name =
     seqP check_alive (seqP (on_guest (start is_root os view cdir mode name)) (update_status os view (path_name cdir) mode))"

text \<open>The boundary of a method: what it raises becomes an \<^verbatim>\<open>Error\<close> of its kind, other exceptions pass.\<close>

definition boundary :: "('a, 'h) prog \<Rightarrow> 'h \<Rightarrow> ((exc + (cond_kind + 'a)) \<times> 'h) option" where
  "boundary m h = map_option (\<lambda>(r, h'). (case r of
      Inr x \<Rightarrow> Inr (Inr x)
    | Inl e \<Rightarrow> (if is_kento e then (case error_kind e of Some k \<Rightarrow> Inr (Inl k) | None \<Rightarrow> Inl e) else Inl e), h')) (m h)"

section \<open>Suspending\<close>

text \<open>
  \<^verbatim>\<open>_dispatch\<close> after \<^verbatim>\<open>resolve_any\<close>: the command is given to the VM's monitor (an argument that
  answers the reply or raises) or to \<^verbatim>\<open>qm\<close>.
\<close>

definition vm_qmp :: "'w os \<Rightarrow> (string \<Rightarrow> 'w \<Rightarrow> (exc + bool) \<times> 'w) \<Rightarrow> string \<Rightarrow> (unit, 'w guest) prog" where
  "vm_qmp os qmp command =
     bindP (askP (os_sock os ''qmp.sock'')) (\<lambda>there.
       if \<not> there then raise_exc SubprocessErrorC
       else bindP (tryP (osP (qmp command)) (\<lambda>e. raise_exc (if catches [OSErrorC, ValueErrorC] e then SubprocessErrorC else e)))
              (\<lambda>rejected. if rejected then raise_exc SubprocessErrorC else give ()))"

definition pve_vm_qm :: "'w os \<Rightarrow> string \<Rightarrow> (unit, 'w guest) prog" where
  "pve_vm_qm os verb =
     bindP (need_file ''kento-vmid'') (\<lambda>vmid.
     bindP (osP (os_run os None [''qm'', verb, vmid])) (\<lambda>(rc, _). if rc \<noteq> 0 then raise_exc SubprocessErrorC else give ()))"

definition dispatch ::
  "bool \<Rightarrow> 'w os \<Rightarrow> ('w \<Rightarrow> exc + host_view) \<Rightarrow> (string \<Rightarrow> 'w \<Rightarrow> (exc + bool) \<times> 'w) \<Rightarrow> string \<Rightarrow> string \<Rightarrow> string \<Rightarrow> string \<Rightarrow>
   (unit, 'w guest) prog" where
  "dispatch is_root os view qmp dir mode vm_command qm_verb =
     (if \<not> is_root then raise_exc StateErrorC
      else if mode = ''lxc'' \<or> mode = ''pve'' then raise_exc ModeErrorC
      else bindP (probeP os view dir mode) (\<lambda>up.
        if \<not> up then raise_exc StateErrorC
        else if mode = ''vm'' then vm_qmp os qmp vm_command
        else if mode = ''pve-vm'' then pve_vm_qm os qm_verb
        else raise_exc ModeErrorC))"

definition suspend where "suspend is_root os view qmp dir mode = dispatch is_root os view qmp dir mode ''stop'' ''suspend''"
definition resume where "resume is_root os view qmp dir mode = dispatch is_root os view qmp dir mode ''cont'' ''resume''"

section \<open>The bounded wait\<close>

lemma wait_down_ends:
  assumes "clock_runs os" "\<And>w. P w \<Longrightarrow> P (os_sleep os (1/2) w)"
  shows "P (g_world g) \<Longrightarrow> \<exists>r w. wait_down os up deadline g = Some (r, g\<lparr>g_world := w\<rparr>) \<and> P w \<and>
    (r = Inr False \<longrightarrow> up (g\<lparr>g_world := w\<rparr>) = Inr True \<and> deadline \<le> os_now os w) \<and>
    (r \<noteq> Inr False \<longrightarrow> up (g\<lparr>g_world := w\<rparr>) \<noteq> Inr True)"
proof (induction "nat \<lceil>(deadline - os_now os (g_world g)) * 2\<rceil>" arbitrary: g rule: less_induct)
  case less
  show ?case
  proof (cases "up g = Inr True \<and> os_now os (g_world g) < deadline")
    case True
    let ?g = "g\<lparr>g_world := os_sleep os (1/2) (g_world g)\<rparr>"
    have "os_now os (g_world g) + 1/2 \<le> os_now os (g_world ?g)" using assms(1) by (simp add: clock_runs_def)
    then have "(deadline - os_now os (g_world ?g)) * 2 \<le> (deadline - os_now os (g_world g)) * 2 - 1" by (simp add: field_simps)
    then have "\<lceil>(deadline - os_now os (g_world ?g)) * 2\<rceil> \<le> \<lceil>(deadline - os_now os (g_world g)) * 2\<rceil> - 1"
      by (metis ceiling_diff_one ceiling_mono)
    moreover have "0 < \<lceil>(deadline - os_now os (g_world g)) * 2\<rceil>" using True by simp
    ultimately have "nat \<lceil>(deadline - os_now os (g_world ?g)) * 2\<rceil> < nat \<lceil>(deadline - os_now os (g_world g)) * 2\<rceil>" by linarith
    from less.hyps [OF this] assms(2) [OF less.prems] have
      "\<exists>r w. wait_down os up deadline ?g = Some (r, ?g\<lparr>g_world := w\<rparr>) \<and> P w \<and>
        (r = Inr False \<longrightarrow> up (?g\<lparr>g_world := w\<rparr>) = Inr True \<and> deadline \<le> os_now os w) \<and>
        (r \<noteq> Inr False \<longrightarrow> up (?g\<lparr>g_world := w\<rparr>) \<noteq> Inr True)" by simp
    with True show ?thesis by (subst wait_down.simps) simp
  next
    case False
    then obtain r where r: "wait_down os up deadline g = Some (r, g)" "r = Inr False \<longrightarrow> up g = Inr True \<and> deadline \<le> os_now os (g_world g)"
      "r \<noteq> Inr False \<longrightarrow> up g \<noteq> Inr True"
      by (subst (asm) wait_down.simps) (fastforce split: sum.splits if_splits)
    have "g\<lparr>g_world := g_world g\<rparr> = g" by simp
    with r less.prems show ?thesis by metis
  qed
qed

text \<open>
  C28. The wait of a stop always returns, whatever the state of the instance does meanwhile: it
  answers that the instance is still up only when it looked at or after the deadline and saw it
  running, and it looks once, without sleeping, when there is no time to wait.
\<close>
theorem stop_wait_decides:
  assumes "clock_runs os"
  shows "\<exists>r w. wait_until_down os view dir mode timeout g = Some (r, g\<lparr>g_world := w\<rparr>) \<and>
    (r = Inr False \<longrightarrow> probe_now os view dir mode (g\<lparr>g_world := w\<rparr>) = Inr True \<and>
       os_now os (g_world g) + of_int timeout \<le> os_now os w) \<and>
    (r \<noteq> Inr False \<longrightarrow> probe_now os view dir mode (g\<lparr>g_world := w\<rparr>) \<noteq> Inr True) \<and>
    (timeout \<le> 0 \<longrightarrow> w = g_world g)"
proof -
  let ?up = "probe_now os view dir mode" and ?d = "os_now os (g_world g) + of_int (max timeout 0)"
  obtain r w where w: "wait_down os ?up ?d g = Some (r, g\<lparr>g_world := w\<rparr>)"
    "r = Inr False \<longrightarrow> ?up (g\<lparr>g_world := w\<rparr>) = Inr True \<and> ?d \<le> os_now os w"
    "r \<noteq> Inr False \<longrightarrow> ?up (g\<lparr>g_world := w\<rparr>) \<noteq> Inr True"
    using wait_down_ends [OF assms, of "\<lambda>_. True" g ?up ?d] by blast
  have late: "(of_int timeout :: rat) \<le> of_int (max timeout 0)" by simp
  have "w = g_world g" if "timeout \<le> 0"
  proof -
    have "\<exists>s. wait_down os ?up ?d g = Some (s, g)" using that by (subst wait_down.simps) (auto split: sum.split)
    then have "g\<lparr>g_world := w\<rparr> = g" using w(1) by auto
    then show ?thesis by (metis guest.ext_inject guest.surjective guest.update_convs(2))
  qed
  moreover have "r = Inr False \<longrightarrow> os_now os (g_world g) + of_int timeout \<le> os_now os w" using w(2) late by linarith
  ultimately show ?thesis using w unfolding wait_until_down_def by blast
qed

theorem stop_wait_decides_witness:
  "\<exists>r w. wait_until_down (sample_os [] False) (\<lambda>_. Inl OSErrorC) ''v'' ''vm'' 1 sample_vm = Some (r, sample_vm\<lparr>g_world := w\<rparr>) \<and>
     (r = Inr False \<longrightarrow> 1 \<le> bx_clock w)"
  using stop_wait_decides [OF sample_os_fair(1), of "[]" False "\<lambda>_. Inl OSErrorC" "''v''" "''vm''" 1 sample_vm]
  by (auto simp: sample_os_def sample_vm_def)

section \<open>Stops composed\<close>

lemma vm_probe: "probeP os view dir ''vm'' g = Some (Inr (vm_up os g), g)"
  by (simp add: probeP_def probe_now_def)

lemma vm_status: "resolve_status c (\<lambda>m. probe_now os view d m g) d (g_files g) ''vm'' = Inr (if vm_up os g then RUNNING else STOPPED)"
  by (simp add: resolve_status_def probe_now_def is_pve_mode_def)

lemma vm_update_status:
  "update_status os view d ''vm'' h = Some (Inr (), h\<lparr>hd_status := if vm_up os (hd_guest h) then RUNNING else STOPPED\<rparr>)"
  by (simp add: update_status_def status_now_def vm_status)

lemma on_guest_step: "m (hd_guest h) = Some (r, g) \<Longrightarrow> on_guest m h = Some (r, h\<lparr>hd_guest := g\<rparr>)"
  by (simp add: on_guest_def)

lemma alive_handle: "\<not> hd_dead h \<Longrightarrow> check_alive h = Some (Inr (), h)"
  by (simp add: check_alive_def)

text \<open>
  C29. A forced stop of a running VM returns with both of its processes gone and the handle's
  status \<^const>\<open>STOPPED\<close>, also when they ignore SIGTERM.
\<close>
theorem forced_stop_stops:
  assumes "clock_runs os" "signals_work os" "gone_stays os" "commands_answer os" "unlinks os"
    "g_files (hd_guest h) ''kento-qemu-pid'' = Some t1" "py_int (file_text t1) = Some qemu" "os_alive os qemu (g_world (hd_guest h))"
    "g_files (hd_guest h) ''kento-virtiofsd-pid'' = Some t2" "py_int (file_text t2) = Some virtiofsd" "\<not> hd_dead h"
  shows "\<exists>h'. instance_stop True os view cdir ''vm'' None True h = Some (Inr (), h') \<and> hd_status h' = STOPPED \<and>
    \<not> os_alive os qemu (g_world (hd_guest h')) \<and> \<not> os_alive os virtiofsd (g_world (hd_guest h'))"
proof -
  let ?g = "hd_guest h"
  obtain g' where g': "stop_vm os cdir True False ?g = Some (Inr (), g')" "\<not> os_alive os qemu (g_world g')"
    "\<not> os_alive os virtiofsd (g_world g')" "g_files g' ''kento-qemu-pid'' = None"
    using stop_vm_ends [OF assms(1-7,9,10), of cdir True] by auto
  have "vm_up os ?g" using assms(6,7,8) by (simp add: vm_up_def)
  then have "shutdown True os view cdir ''vm'' True None False ?g = Some (Inr (), g')"
    by (simp add: shutdown_def Let_def bindP_step(1) [where m = "probeP os view (path_name cdir) ''vm''", OF vm_probe] g'(1))
  from on_guest_step [of "shutdown True os view cdir ''vm'' True None False" h, OF this] have s: "on_guest (shutdown True os view cdir ''vm'' True None False) h = Some (Inr (), h\<lparr>hd_guest := g'\<rparr>)" .
  have "instance_stop True os view cdir ''vm'' None True h = update_status os view (path_name cdir) ''vm'' (h\<lparr>hd_guest := g'\<rparr>)"
    using s by (simp add: instance_stop_def stop_grace_def Let_def bindP_step(3) [where m = check_alive, OF alive_handle [OF assms(11)]] bindP_step(3))
  then show ?thesis using g' by (simp add: vm_update_status vm_up_def)
qed

definition sample_handle :: "box handle" where
  "sample_handle = \<lparr>hd_dead = False, hd_status = RUNNING, hd_guest = sample_vm\<rparr>"

theorem forced_stop_stops_witness:
  "\<exists>h'. instance_stop True (sample_os [7, 8] False) (\<lambda>_. Inl OSErrorC) (mk_path ''/v'') ''vm'' None True sample_handle = Some (Inr (), h') \<and>
     hd_status h' = STOPPED \<and> 8 \<notin> set (bx_alive (g_world (hd_guest h')))"
proof -
  let ?os = "sample_os [7, 8] False"
  have h: "hd_guest sample_handle = sample_vm" "\<not> hd_dead sample_handle" by (simp_all add: sample_handle_def)
  have a: "os_alive ?os 8 (g_world sample_vm)" by (simp add: sample_os_def sample_vm_def)
  have "\<exists>h'. instance_stop True ?os (\<lambda>_. Inl OSErrorC) (mk_path ''/v'') ''vm'' None True sample_handle = Some (Inr (), h') \<and>
      hd_status h' = STOPPED \<and> \<not> os_alive ?os 8 (g_world (hd_guest h')) \<and> \<not> os_alive ?os 7 (g_world (hd_guest h'))"
    by (rule forced_stop_stops [OF sample_os_fair]) (use h a sample_pids in simp_all)
  then show ?thesis by (force simp: sample_os_def)
qed

text \<open>
  C30. A graceful stop of a plain VM whose QEMU ignores SIGTERM reports a timeout with the VM
  still up, as documented, but not unharmed: virtiofsd has been ended, the root file system
  unmounted and the control sockets removed under the running guest.
\<close>
theorem graceful_stop_strands_vm:
  assumes "clock_runs os" "signals_work os" "gone_stays os" "unlinks os" "stubborn os q" "held_mount os (rootfs_path cdir) mounted v"
    "\<And>w. \<not> os_alive os v (snd (os_kill os v SIGTERM w))" "\<And>d w. mounted (os_sleep os d w) = mounted w"
    "\<And>s d w. os_sock os s (os_sleep os d w) = os_sock os s w"
    "g_files (hd_guest h) ''kento-qemu-pid'' = Some t1" "py_int (file_text t1) = Some q" "os_alive os q (g_world (hd_guest h))"
    "g_files (hd_guest h) ''kento-virtiofsd-pid'' = Some t2" "py_int (file_text t2) = Some v" "mounted (g_world (hd_guest h))"
    "\<not> hd_dead h"
  shows "\<exists>h'. instance_stop True os view cdir ''vm'' timeout False h = Some (Inl StopTimeoutC, h') \<and>
    hd_status h' = RUNNING \<and> os_alive os q (g_world (hd_guest h')) \<and> \<not> os_alive os v (g_world (hd_guest h')) \<and>
    \<not> mounted (g_world (hd_guest h')) \<and> \<not> os_sock os ''qmp.sock'' (g_world (hd_guest h'))"
proof -
  let ?g = "hd_guest h" and ?dir = "path_name cdir" and ?grace = "stop_grace timeout False"
  obtain w where w: "stop_vm os cdir False True ?g = Some (Inr (), \<lparr>g_files = (g_files ?g)(''kento-virtiofsd-pid'' := None), g_world = w\<rparr>)"
    "os_alive os q w" "\<not> os_alive os v w" "\<not> mounted w" "\<not> os_sock os ''qmp.sock'' w"
    using stop_vm_stubborn [OF assms(1-7,10-15)] by blast
  let ?fs = "(g_files ?g)(''kento-virtiofsd-pid'' := None)"
  let ?g1 = "\<lparr>g_files = ?fs, g_world = w\<rparr>"
  have up: "vm_up os \<lparr>g_files = ?fs, g_world = x\<rparr> \<longleftrightarrow> os_alive os q x" for x using assms(10,11) by (simp add: vm_up_def)
  have "vm_up os ?g" using assms(10,11,12) by (simp add: vm_up_def)
  then have sh: "shutdown True os view cdir ''vm'' False None True ?g = Some (Inr (), ?g1)"
    by (simp add: shutdown_def Let_def bindP_step(1) [where m = "probeP os view (path_name cdir) ''vm''", OF vm_probe] w(1))
  let ?P = "\<lambda>x. os_alive os q x \<and> \<not> os_alive os v x \<and> \<not> mounted x \<and> \<not> os_sock os ''qmp.sock'' x"
  have P: "?P (os_sleep os (1/2) x)" if "?P x" for x
  proof -
    have "os_alive os q (os_sleep os (1/2) x)" using assms(5) that unfolding stubborn_def by blast
    moreover have "\<not> os_alive os v (os_sleep os (1/2) x)" using assms(3) that unfolding gone_stays_def by blast
    ultimately show ?thesis using that assms(8,9) by blast
  qed
  have p1: "?P (g_world ?g1)" using w(2-5) by simp
  obtain r x where x: "wait_until_down os view ?dir ''vm'' ?grace ?g1 = Some (r, ?g1\<lparr>g_world := x\<rparr>)" "?P x"
    "r \<noteq> Inr False \<longrightarrow> probe_now os view ?dir ''vm'' (?g1\<lparr>g_world := x\<rparr>) \<noteq> Inr True"
    unfolding wait_until_down_def
    using wait_down_ends [of os ?P ?g1 "probe_now os view ?dir ''vm''" "os_now os (g_world ?g1) + of_int (max ?grace 0)", OF assms(1) P p1]
    by blast
  have r: "r = Inr False" using x(2,3) up by (auto simp: probe_now_def)
  let ?h1 = "h\<lparr>hd_guest := ?g1\<rparr>" and ?h2 = "h\<lparr>hd_guest := \<lparr>g_files = ?fs, g_world = x\<rparr>\<rparr>"
  have s: "on_guest (shutdown True os view cdir ''vm'' False None True) h = Some (Inr (), ?h1)"
    by (rule on_guest_step [of "shutdown True os view cdir ''vm'' False None True" h, OF sh])
  have wt: "on_guest (wait_until_down os view ?dir ''vm'' ?grace) ?h1 = Some (Inr False, ?h2)"
    using x(1) r by (simp add: on_guest_def)
  have "instance_stop True os view cdir ''vm'' timeout False h =
      seqP (update_status os view ?dir ''vm'') (raise_exc StopTimeoutC) ?h2"
  proof -
    have "seqP (seqP (update_status os view ?dir ''vm'') (raise_exc StopTimeoutC)) m ?h2 =
        seqP (update_status os view ?dir ''vm'') (raise_exc StopTimeoutC) ?h2" for m :: "(unit, 'a handle) prog"
      by (simp add: seqP_def bindP.simps vm_update_status)
    then show ?thesis
      using s by (simp add: instance_stop_def Let_def bindP_step(3) [where m = check_alive, OF alive_handle [OF assms(16)]] bindP_step(3)
          bindP_step(1) [where m = "on_guest (wait_until_down os view ?dir ''vm'' ?grace)", OF wt])
  qed
  also have "... = Some (Inl StopTimeoutC, ?h2\<lparr>hd_status := RUNNING\<rparr>)" using x(2) up by (simp add: seqP_def bindP.simps vm_update_status)
  finally show ?thesis using x(2) by simp
qed

theorem graceful_stop_strands_vm_witness:
  "\<exists>h'. instance_stop True (sample_os [8] False) (\<lambda>_. Inl OSErrorC) (mk_path ''/v'') ''vm'' None False sample_handle = Some (Inl StopTimeoutC, h') \<and>
     8 \<in> set (bx_alive (g_world (hd_guest h'))) \<and> \<not> bx_mounted (g_world (hd_guest h'))"
proof -
  let ?os = "sample_os [8] False" and ?p = "mk_path ''/v''"
  have h: "hd_guest sample_handle = sample_vm" "\<not> hd_dead sample_handle" by (simp_all add: sample_handle_def)
  have o: "stubborn ?os 8" "held_mount ?os (rootfs_path ?p) bx_mounted 7"
    by (auto simp: stubborn_def held_mount_def sample_os_def)
  have k: "\<not> os_alive ?os 7 (snd (os_kill ?os 7 SIGTERM w))" for w by (simp add: sample_os_def)
  have m: "bx_mounted (os_sleep ?os d w) = bx_mounted w" "os_sock ?os s (os_sleep ?os d w) = os_sock ?os s w" for s d w
    by (simp_all add: sample_os_def)
  have g: "os_alive ?os 8 (g_world sample_vm)" "bx_mounted (g_world sample_vm)" by (simp_all add: sample_os_def sample_vm_def)
  have "\<exists>h'. instance_stop True ?os (\<lambda>_. Inl OSErrorC) ?p ''vm'' None False sample_handle = Some (Inl StopTimeoutC, h') \<and>
      hd_status h' = RUNNING \<and> os_alive ?os 8 (g_world (hd_guest h')) \<and> \<not> os_alive ?os 7 (g_world (hd_guest h')) \<and>
      \<not> bx_mounted (g_world (hd_guest h')) \<and> \<not> os_sock ?os ''qmp.sock'' (g_world (hd_guest h'))"
    by (rule graceful_stop_strands_vm [OF sample_os_fair(1,2,3,5) o k m]) (use h g sample_pids in simp_all)
  then show ?thesis by (force simp: sample_os_def)
qed

text \<open>
  A stop of a plain container begins with a graceful \<^verbatim>\<open>lxc-stop\<close> that must not kill; when that
  reports that the container did not stop, the error is passed on at once: neither the promised
  timeout condition nor, for a forced stop with a grace period, the promised kill follows, and
  the handle's status stays as it was.
\<close>
theorem failed_graceful_skips_kill:
  assumes "\<not> hd_dead h" "\<not> (force \<and> stop_grace timeout force \<le> 0)"
    "view (g_world (hd_guest h)) = Inr hv" "is_running hv (path_name cdir) (g_files (hd_guest h)) ''lxc''"
    "os_run os None [''lxc-stop'', ''-n'', path_name cdir, ''--nokill''] (g_world (hd_guest h)) = (Inr (rc, out), w)" "rc \<noteq> 0"
  shows "instance_stop True os view cdir ''lxc'' timeout force h =
    Some (Inl SubprocessErrorC, h\<lparr>hd_guest := (hd_guest h)\<lparr>g_world := w\<rparr>\<rparr>)"
proof -
  let ?g = "hd_guest h"
  have p: "probeP os view (path_name cdir) ''lxc'' ?g = Some (Inr True, ?g)"
    using assms(3,4) by (simp add: probeP_def probe_now_def)
  have "shutdown True os view cdir ''lxc'' False None True ?g = Some (Inl SubprocessErrorC, ?g\<lparr>g_world := w\<rparr>)"
    using assms(5,6) by (simp add: shutdown_def Let_def bindP_step(1) [where m = "probeP os view (path_name cdir) ''lxc''", OF p]
        stop_cmd_def osP_run run_or_die_def)
  from on_guest_step [of "shutdown True os view cdir ''lxc'' False None True" h, OF this]
  have s: "on_guest (shutdown True os view cdir ''lxc'' False None True) h = Some (Inl SubprocessErrorC, h\<lparr>hd_guest := ?g\<lparr>g_world := w\<rparr>\<rparr>)" .
  have n: "(force \<and> stop_grace timeout force \<le> 0) = False" using assms(2) by blast
  show ?thesis using s
    by (simp add: instance_stop_def n Let_def bindP_step(3) [where m = check_alive, OF alive_handle [OF assms(1)]] bindP_step(4))
qed

text \<open>A container that \<^verbatim>\<open>lxc-stop\<close> without a kill does not end.\<close>

definition stuck_os :: "string list list os" where
  "stuck_os = \<lparr>os_run = (\<lambda>cwd argv w. (Inr (if argv = [''lxc-stop'', ''-n'', ''c'', ''--nokill''] then 1 else 0, []), w @ [argv])),
     os_spawn = (\<lambda>_ w. (Inl OSErrorC, w)), os_alive = (\<lambda>_ _. False), os_exited = (\<lambda>_ _. True),
     os_kill = (\<lambda>_ _ w. (Inl ProcessLookupErrorC, w)), os_wait = (\<lambda>_ _ w. (Inr (), w)), os_now = (\<lambda>_. 0), os_sleep = (\<lambda>_ w. w),
     os_sock = (\<lambda>_ _. False), os_unlink_sock = (\<lambda>_ w. w), os_which = (\<lambda>_. None), os_is_file = (\<lambda>_ _. False), os_link = (\<lambda>_. Inl OSErrorC)\<rparr>"

theorem failed_graceful_skips_kill_witness:
  "\<exists>h'. instance_stop True stuck_os (\<lambda>_. Inr \<lparr>node_name = None, conf_files = (\<lambda>_. False), run_status = (\<lambda>_. Some (0, ''RUNNING'')), vm_alive = (\<lambda>_. False)\<rparr>)
       (mk_path ''/v/c'') ''lxc'' (Some 10) True \<lparr>hd_dead = False, hd_status = RUNNING, hd_guest = \<lparr>g_files = Map.empty, g_world = []\<rparr>\<rparr> =
     Some (Inl SubprocessErrorC, h') \<and> g_world (hd_guest h') = [[''lxc-stop'', ''-n'', ''c'', ''--nokill'']]"
proof -
  have n: "path_name (mk_path ''/v/c'') = ''c''" "py_in ''RUNNING'' ''RUNNING''" by code_simp+
  show ?thesis
    by (subst failed_graceful_skips_kill [where w = "[[''lxc-stop'', ''-n'', ''c'', ''--nokill'']]" and out = "[]" and rc = 1
        and hv = "\<lparr>node_name = None, conf_files = (\<lambda>_. False), run_status = (\<lambda>_. Some (0, ''RUNNING'')), vm_alive = (\<lambda>_. False)\<rparr>"])
      (simp_all add: n stop_grace_def stuck_os_def is_running_def)
qed

end
