(* ===== verification/Images.thy ===== *)
theory Images imports Holds Snapshot References begin

text \<open>
  \<^verbatim>\<open>images.py\<close>: the markers of the instances and the hold
  containers of podman, and the collector of orphaned holds.  Podman is a command of the operating system; the text
  of summaries and warnings is not modelled.  The typed ledger built on them is in \<^verbatim>\<open>Ledger\<close>.
\<close>

definition ref_exc :: "ref_exn + 'a \<Rightarrow> exc + 'a" where
  "ref_exc r = (case r of Inr x \<Rightarrow> Inr x | Inl (Malformed _ _ _) \<Rightarrow> Inl MalformedReferenceC | Inl (Panic e) \<Rightarrow> Inl e)"

definition unwrapE :: "exc + 'a result \<Rightarrow> exc + 'a" where
  "unwrapE r = bindE r (\<lambda>res. case unwrap res of Inl _ \<Rightarrow> Inl ResultErrorC | Inr x \<Rightarrow> Inr x)"

text \<open>The elements of a list in order of their first occurrence, as the keys of a dictionary.\<close>

definition firsts :: "'a list \<Rightarrow> 'a list" where "firsts xs = rev (remdups (rev xs))"

lemma set_firsts [simp]: "set (firsts xs) = set xs" by (simp add: firsts_def)
lemma distinct_firsts [simp]: "distinct (firsts xs)" by (simp add: firsts_def)

section \<open>The markers\<close>

text \<open>Each instance with its recorded image: the image and the name of the instance.\<close>

fun guest_entries :: "listing \<Rightarrow> (string \<times> string) list" where
  "guest_entries [] = []"
| "guest_entries ((d, EFile) # es) = guest_entries es"
| "guest_entries ((d, EDir fs) # es) =
     (case fs ''kento-image'' of None \<Rightarrow> guest_entries es
      | Some t \<Rightarrow> (file_text t, case recorded_name fs of Some n \<Rightarrow> n | None \<Rightarrow> d) # guest_entries es)"

definition store_guests :: "store \<Rightarrow> (string \<times> string) list" where
  "store_guests st = guest_entries (entries_of st LXC_BASE) @ guest_entries (entries_of st VM_BASE)"

definition guest_names :: "store \<Rightarrow> string list" where "guest_names st = map snd (store_guests st)"

definition guest_image_refs :: "store \<Rightarrow> (string \<times> string list) list" where
  "guest_image_refs st =
     (let gs = filter (\<lambda>(img, n). img \<noteq> []) (store_guests st)
      in map (\<lambda>img. (img, sort (remdups (map snd (filter (\<lambda>g. fst g = img) gs))))) (firsts (map fst gs)))"

definition hold_line :: "string \<Rightarrow> (string \<times> string) option" where
  "hold_line raw =
     (let line = py_strip raw; parts = py_split TAB line
      in if line = [] then None
         else let held_for = py_strip (hd parts); img = (if length parts > 1 then py_strip (parts ! 1) else [])
              in if held_for \<noteq> [] then Some (held_for, img) else None)"

definition HOLDS_CMD :: "string list" where
  "HOLDS_CMD = [''ps'', ''-a'', ''--filter'', ''label=io.kento.hold-for'', ''--format'',
     ''{{.Label '' @ [CHR 34] @ ''io.kento.hold-for'' @ [CHR 34] @ ''}}'' @ [TAB] @ ''{{.Image}}'']"

definition holds :: "'w os \<Rightarrow> ((string \<times> string) list, 'w guest) prog" where
  "holds os = bindP (podman os HOLDS_CMD) (\<lambda>(rc, out).
     if rc \<noteq> 0 then give [] else give (List.map_filter hold_line (read_lines out)))"

definition hold_id_line :: "string \<Rightarrow> (string \<times> string) option" where
  "hold_id_line line =
     (let parts = py_split TAB line
      in if py_strip line = [] then None
         else let held_for = py_strip (hd parts); image_id = (if length parts > 1 then py_strip (parts ! 1) else [])
              in if held_for \<noteq> [] \<and> image_id \<noteq> [] \<and> image_id \<noteq> ''<no value>'' then Some (held_for, image_id) else None)"

definition HOLD_IDS_CMD :: "string list" where
  "HOLD_IDS_CMD = [''ps'', ''-a'', ''--filter'', ''label=io.kento.hold-for'', ''--format'',
     ''{{.Label '' @ [CHR 34] @ ''io.kento.hold-for'' @ [CHR 34] @ ''}}'' @ [TAB] @
     ''{{.Label '' @ [CHR 34] @ ''io.kento.hold-image-id'' @ [CHR 34] @ ''}}'']"

definition hold_image_ids :: "'w os \<Rightarrow> ((string \<times> string) list, 'w guest) prog" where
  "hold_image_ids os = bindP (podman os HOLD_IDS_CMD) (\<lambda>(rc, out).
     if rc \<noteq> 0 then give [] else give (fold (\<lambda>(n, i). dict_set n i) (List.map_filter hold_id_line (read_lines out)) []))"

section \<open>The collector of orphaned holds\<close>

datatype prune_result = PruneNothing | PruneWould "(string \<times> string) list" "string list" | PruneDone nat nat "string list"

definition orphaned_holds :: "store \<Rightarrow> (string \<times> string) list \<Rightarrow> (string \<times> string) list" where
  "orphaned_holds st hs = filter (\<lambda>(n, img). n \<notin> set (guest_names st)) hs"

definition candidate_images :: "store \<Rightarrow> (string \<times> string) list \<Rightarrow> string list" where
  "candidate_images st hs =
     (let refs = map fst (guest_image_refs st);
          surviving = filter (\<lambda>i. i \<noteq> []) (map snd (filter (\<lambda>(n, img). n \<in> set (guest_names st)) hs));
          orphaned = filter (\<lambda>i. i \<noteq> []) (map snd (orphaned_holds st hs))
      in sort (filter (\<lambda>i. i \<notin> set refs \<and> i \<notin> set surviving) (remdups orphaned)))"

fun remove_holds :: "'w os \<Rightarrow> (string \<times> string) list \<Rightarrow> (unit, 'w guest) prog" where
  "remove_holds os [] = give ()"
| "remove_holds os ((n, img) # hs) = seqP (remove_image_hold os n) (remove_holds os hs)"

text \<open>The number of images removed and those refused.\<close>

fun remove_images :: "'w os \<Rightarrow> string list \<Rightarrow> nat \<Rightarrow> string list \<Rightarrow> (nat \<times> string list, 'w guest) prog" where
  "remove_images os [] n fails = give (n, fails)"
| "remove_images os (i # is) n fails =
     bindP (podman os [''image'', ''rm'', i]) (\<lambda>(rc, _).
       if rc = 0 then remove_images os is (Suc n) fails else remove_images os is n (fails @ [i]))"

definition prune :: "'w os \<Rightarrow> store \<Rightarrow> bool \<Rightarrow> (prune_result, 'w guest) prog" where
  "prune os st yes =
     bindP (holds os) (\<lambda>hs.
       let orphaned = orphaned_holds st hs; candidates = candidate_images st hs
       in if orphaned = [] then give PruneNothing
          else if \<not> yes then give (PruneWould orphaned candidates)
          else seqP (remove_holds os orphaned)
                 (bindP (remove_images os candidates 0 []) (\<lambda>(n, fails). give (PruneDone (length orphaned) n fails))))"

lemma candidate_images_iff:
  "i \<in> set (candidate_images st hs) \<longleftrightarrow> i \<noteq> [] \<and> (\<exists>n. (n, i) \<in> set hs \<and> n \<notin> set (guest_names st)) \<and>
     (\<forall>n. (n, i) \<in> set hs \<longrightarrow> n \<notin> set (guest_names st)) \<and> i \<notin> fst ` set (store_guests st)"
  by (auto simp: candidate_images_def orphaned_holds_def guest_image_refs_def Let_def image_iff)

lemma keeps_podman:
  assumes "\<And>w r w'. P w \<Longrightarrow> os_run os None (''podman'' # args) w = (r, w') \<Longrightarrow> P w'"
  shows "keeps (\<lambda>g. P (g_world g)) (podman os args)"
  using assms unfolding podman_def osP_def by (intro keeps_act) (auto split: prod.splits)

lemma remove_holds_keeps:
  assumes "\<And>n w r w'. n \<in> fst ` set hs \<Longrightarrow> os_run os None [''podman'', ''rm'', hold_of n] w = (r, w') \<Longrightarrow> P w \<Longrightarrow> P w'"
  shows "keeps (\<lambda>g. P (g_world g)) (remove_holds os hs)"
  using assms
proof (induction hs)
  case (Cons h hs)
  have "keeps (\<lambda>g. P (g_world g)) (podman os [''rm'', hold_of (fst h)])"
    by (rule keeps_podman) (use Cons.prems [of "fst h"] in simp)
  moreover have "keeps (\<lambda>g. P (g_world g)) (remove_holds os hs)"
    by (rule Cons.IH, rule Cons.prems) auto
  ultimately show ?case by (cases h) (auto simp: remove_image_hold_def)
qed simp

lemma remove_images_keeps:
  assumes "\<And>i w r w'. i \<in> set is \<Longrightarrow> os_run os None [''podman'', ''image'', ''rm'', i] w = (r, w') \<Longrightarrow> P w \<Longrightarrow> P w'"
  shows "keeps (\<lambda>g. P (g_world g)) (remove_images os is n fails)"
  using assms
proof (induction "is" arbitrary: n fails)
  case (Cons i "is")
  have "keeps (\<lambda>g. P (g_world g)) (podman os [''image'', ''rm'', i])"
    by (rule keeps_podman) (use Cons.prems [of i] in simp)
  moreover have "keeps (\<lambda>g. P (g_world g)) (remove_images os is m f)" for m f
    by (rule Cons.IH, rule Cons.prems) auto
  ultimately show ?case by auto
qed simp

text \<open>What podman says of the holds.\<close>

definition holds_said :: "'w os \<Rightarrow> 'w \<Rightarrow> (string \<times> string) list \<Rightarrow> bool" where
  "holds_said os w hs \<longleftrightarrow> (\<exists>out. os_run os None (''podman'' # HOLDS_CMD) w = (Inr (0, out), w) \<and> List.map_filter hold_line (read_lines out) = hs)"

lemma holds_query: "holds_said os (g_world g) hs \<Longrightarrow> holds os g = Some (Inr hs, g)"
  by (auto simp: holds_said_def holds_def)

text \<open>
  C22. Pruning spares what is in use: whatever its outcome, everything that survives the removal
  of a hold whose instance is gone, and of an image that is pinned by such holds only and
  recorded by no instance, survives a run; a dry run changes nothing.
\<close>
theorem prune_spares:
  assumes "holds_said os (g_world g) hs"
    "\<And>n w r w'. n \<notin> set (guest_names st) \<Longrightarrow> os_run os None [''podman'', ''rm'', hold_of n] w = (r, w') \<Longrightarrow> P w \<Longrightarrow> P w'"
    "\<And>i w r w'. (\<forall>n. (n, i) \<in> set hs \<longrightarrow> n \<notin> set (guest_names st)) \<Longrightarrow> i \<notin> fst ` set (store_guests st) \<Longrightarrow>
       os_run os None [''podman'', ''image'', ''rm'', i] w = (r, w') \<Longrightarrow> P w \<Longrightarrow> P w'"
    "prune os st yes g = Some (r, g')" "P (g_world g)"
  shows "P (g_world g') \<and> (\<not> yes \<longrightarrow> g' = g)"
proof -
  let ?o = "orphaned_holds st hs" and ?c = "candidate_images st hs"
  have run: "prune os st yes g = (if ?o = [] then give PruneNothing else if \<not> yes then give (PruneWould ?o ?c)
      else seqP (remove_holds os ?o) (bindP (remove_images os ?c 0 []) (\<lambda>(n, fails). give (PruneDone (length ?o) n fails)))) g"
    by (simp add: prune_def Let_def bindP_step(1) [where m = "holds os", OF holds_query [OF assms(1)]])
  show ?thesis
  proof (cases "?o = [] \<or> \<not> yes")
    case True
    with run assms(4,5) show ?thesis by (auto split: if_splits)
  next
    case False
    then have go: "seqP (remove_holds os ?o) (bindP (remove_images os ?c 0 []) (\<lambda>(n, fails). give (PruneDone (length ?o) n fails))) g = Some (r, g')"
      using run assms(4) by simp
    have orph: "fst ` set ?o \<subseteq> - set (guest_names st)" by (auto simp: orphaned_holds_def)
    have h: "keeps (\<lambda>g. P (g_world g)) (remove_holds os ?o)"
      by (rule remove_holds_keeps) (use assms(2) orph in blast)
    have i: "keeps (\<lambda>g. P (g_world g)) (remove_images os ?c 0 [])"
      by (rule remove_images_keeps) (use assms(3) candidate_images_iff in blast)
    have "keeps (\<lambda>g. P (g_world g)) (seqP (remove_holds os ?o) (bindP (remove_images os ?c 0 []) (\<lambda>(n, fails). give (PruneDone (length ?o) n fails))))"
      using h i by (intro keeps_seqP keeps_bindP) (auto split: prod.split)
    from keepsD [OF this go] assms(5) have "P (g_world g')" by simp
    with False show ?thesis by simp
  qed
qed

text \<open>
  The images an instance uses are known to the collector only by the text it records: an
  image id pinned by an orphaned hold is a candidate for removal although the name an existing
  instance records resolves to it.
\<close>
theorem prune_by_id_ignores_guests:
  assumes "holds_said os (g_world g) hs" "(n, i) \<in> set hs" "n \<notin> set (guest_names st)" "i \<noteq> []"
    "\<forall>m. (m, i) \<in> set hs \<longrightarrow> m \<notin> set (guest_names st)" "i \<notin> fst ` set (store_guests st)"
    "(t, a) \<in> set (store_guests st)" "resolve_image_id os t g = Some (Inr i, g)"
  shows "\<exists>orphans candidates. prune os st False g = Some (Inr (PruneWould orphans candidates), g) \<and> i \<in> set candidates \<and>
    a \<in> set (guest_names st)"
proof -
  have "orphaned_holds st hs \<noteq> []" using assms(2,3) by (force simp: orphaned_holds_def filter_empty_conv)
  moreover have "i \<in> set (candidate_images st hs)" using assms candidate_images_iff by blast
  moreover have "a \<in> set (guest_names st)" using assms(7) by (force simp: guest_names_def)
  ultimately show ?thesis
    by (simp add: prune_def Let_def bindP_step(1) [where m = "holds os", OF holds_query [OF assms(1)]])
qed

text \<open>A podman with two holds and the images by id; the name \<^verbatim>\<open>web\<close> resolves to the second image.\<close>

record shelf =
  sh_holds :: "(string \<times> string) list"
  sh_images :: "string list"

definition shelf_run :: "shelf tool" where
  "shelf_run argv w =
     (if argv = ''podman'' # HOLDS_CMD then (Inr (0, concat (map (\<lambda>(n, i). n @ [TAB] @ i @ [LF]) (sh_holds w))), w)
      else if take 2 argv = [''podman'', ''rm''] then
        (Inr (0, []), w\<lparr>sh_holds := filter (\<lambda>(n, i). hold_of n \<noteq> argv ! 2) (sh_holds w)\<rparr>)
      else if take 3 argv = [''podman'', ''image'', ''rm''] then (Inr (0, []), w\<lparr>sh_images := removeAll (argv ! 3) (sh_images w)\<rparr>)
      else if take 3 argv = [''podman'', ''image'', ''inspect''] then (Inr (if argv ! 3 = ''web'' then (0, ''id2'' @ [LF]) else (1, [])), w)
      else (Inr (1, []), w))"

definition shelf_os :: "shelf os" where
  "shelf_os = \<lparr>os_run = (\<lambda>_. shelf_run), os_spawn = (\<lambda>_ w. (Inr 1, w)), os_alive = (\<lambda>_ _. False), os_exited = (\<lambda>_ _. True),
     os_kill = (\<lambda>_ _ w. (Inl ProcessLookupErrorC, w)), os_wait = (\<lambda>_ _ w. (Inr (), w)), os_now = (\<lambda>_. 0), os_sleep = (\<lambda>_ w. w),
     os_sock = (\<lambda>_ _. False), os_unlink_sock = (\<lambda>_ w. w), os_which = (\<lambda>_. None), os_is_file = (\<lambda>_ _. False), os_link = (\<lambda>_. Inr [])\<rparr>"

lemma shelf_runs: "os_run shelf_os c = shelf_run" by (simp add: shelf_os_def)

definition shelf_start :: "shelf guest" where
  "shelf_start = \<lparr>g_files = Map.empty, g_world = \<lparr>sh_holds = [(''a'', ''id1''), (''b'', ''id2'')], sh_images = [''id1'', ''id2'']\<rparr>\<rparr>"

definition shelf_store :: store where
  "shelf_store = \<lparr>lxc_base = Some [(''d'', EDir [''kento-image'' \<mapsto> ''web'', ''kento-name'' \<mapsto> ''a''])], vm_base = None\<rparr>"

lemma shelf_says: "holds_said shelf_os (g_world shelf_start) [(''a'', ''id1''), (''b'', ''id2'')]"
proof -
  have "os_run shelf_os None (''podman'' # HOLDS_CMD) (g_world shelf_start) =
      (Inr (0, ''a'' @ [TAB] @ ''id1'' @ [LF] @ ''b'' @ [TAB] @ ''id2'' @ [LF]), g_world shelf_start)"
    by (simp add: shelf_runs shelf_run_def shelf_start_def)
  moreover have "List.map_filter hold_line (read_lines (''a'' @ [TAB] @ ''id1'' @ [LF] @ ''b'' @ [TAB] @ ''id2'' @ [LF])) = [(''a'', ''id1''), (''b'', ''id2'')]"
    by code_simp
  ultimately show ?thesis unfolding holds_said_def by blast
qed

lemma shelf_guests: "store_guests shelf_store = [(''web'', ''a'')]" "guest_names shelf_store = [''a'']"
proof -
  have "file_text ''web'' = ''web''" "file_text ''a'' = ''a''" by code_simp+
  then show "store_guests shelf_store = [(''web'', ''a'')]" "guest_names shelf_store = [''a'']"
    by (simp_all add: guest_names_def store_guests_def shelf_store_def entries_of_def recorded_name_def)
qed

theorem prune_spares_witness:
  "\<exists>r g'. prune shelf_os shelf_store True shelf_start = Some (r, g') \<and> ''id1'' \<in> set (sh_images (g_world g'))"
proof -
  have "\<exists>r g'. prune shelf_os shelf_store True shelf_start = Some (r, g')"
  proof -
    have "orphaned_holds shelf_store [(''a'', ''id1''), (''b'', ''id2'')] = [(''b'', ''id2'')]" by (simp add: orphaned_holds_def shelf_guests)
    moreover have "candidate_images shelf_store [(''a'', ''id1''), (''b'', ''id2'')] = [''id2'']"
      by (simp add: candidate_images_def orphaned_holds_def shelf_guests guest_image_refs_def firsts_def)
    ultimately show ?thesis
      by (simp add: prune_def Let_def bindP_step(1) [where m = "holds shelf_os", OF holds_query [OF shelf_says]])
         (simp add: remove_image_hold_def podman_def seqP_def bindP.simps osP_run shelf_runs shelf_run_def HOLDS_CMD_def)
  qed
  then obtain r g' where run: "prune shelf_os shelf_store True shelf_start = Some (r, g')" by blast
  have "''id1'' \<in> set (sh_images (g_world g')) \<and> (\<not> True \<longrightarrow> g' = shelf_start)"
    by (rule prune_spares [OF shelf_says _ _ run])
       (auto simp: shelf_guests shelf_runs shelf_run_def HOLDS_CMD_def shelf_start_def split: if_splits)
  with run show ?thesis by blast
qed

theorem prune_by_id_ignores_guests_witness:
  "\<exists>orphans candidates. prune shelf_os shelf_store False shelf_start = Some (Inr (PruneWould orphans candidates), shelf_start) \<and>
     ''id2'' \<in> set candidates \<and> ''a'' \<in> set (guest_names shelf_store)"
proof -
  have s: "py_strip (''id2'' @ [LF]) = ''id2''" by code_simp
  have "resolve_image_id shelf_os ''web'' shelf_start = Some (Inr ''id2'', shelf_start)"
    using s by (simp add: resolve_image_id_def podman_def exceptP_def tryP.simps bindP.simps osP_run shelf_runs shelf_run_def HOLDS_CMD_def)
  from prune_by_id_ignores_guests [OF shelf_says _ _ _ _ _ _ this, of "''b''" shelf_store "''a''"] show ?thesis
    by (auto simp: shelf_guests)
qed

end
