(* ===== verification/Ledger.thy ===== *)
theory Ledger imports Images "HOL-Library.Multiset" begin

text \<open>
  The typed image ledger of \<^verbatim>\<open>_images.py\<close>: holds, image records grouped by content id, and OCI
  images with their resolution, enumeration, collection, removal and mounting.  The boundaries
  that turn a raised error into a result are those of \<^verbatim>\<open>_error_from\<close>; here the bodies raise.
\<close>

section \<open>Content ids\<close>

definition digest_from_podman_id :: "string \<Rightarrow> exc + digest" where
  "digest_from_podman_id raw =
     ref_exc (if CHR '':'' \<in> set raw then parse_digest raw
              else bindE (validate_digest ''sha256'' raw) (\<lambda>_. Inr \<lparr>algorithm = ''sha256'', encoded = raw\<rparr>))"

definition BARE_SHA256 :: rx where "BARE_SHA256 = Times 64 (Cls is_lower_hex)"

datatype pin = PinId digest | PinRef oci_ref

definition parse_legacy_pinned :: "string \<Rightarrow> exc + pin" where
  "parse_legacy_pinned img =
     (if anchored (rx_match BARE_SHA256) img then bindE (digest_from_podman_id img) (\<lambda>d. Inr (PinId d))
      else bindE (unwrapE (oci_parse img)) (\<lambda>r. Inr (PinRef r)))"

definition resolve_id :: "'w os \<Rightarrow> string \<Rightarrow> (digest, 'w guest) prog" where
  "resolve_id os ref = bindP (resolve_image_id os ref) (\<lambda>raw.
     if raw = [] then raise_exc ImageNotFoundErrorC else pure_res (digest_from_podman_id raw))"

section \<open>Holds\<close>

record hold =
  ho_instance :: string
  ho_pinned :: pin

fun typed_holds :: "(string \<rightharpoonup> string) \<Rightarrow> (string \<times> string) list \<Rightarrow> exc + hold list" where
  "typed_holds ids [] = Inr []"
| "typed_holds ids ((n, img) # hs) =
     (let image_id = (case ids n of Some i \<Rightarrow> i | None \<Rightarrow> [])
      in if image_id = [] \<and> img = [] then typed_holds ids hs
         else bindE (if image_id \<noteq> [] then bindE (digest_from_podman_id image_id) (\<lambda>d. Inr (PinId d)) else parse_legacy_pinned img)
                (\<lambda>p. bindE (typed_holds ids hs) (\<lambda>rest. Inr (\<lparr>ho_instance = n, ho_pinned = p\<rparr> # rest))))"

definition list_holds :: "'w os \<Rightarrow> (hold list, 'w guest) prog" where
  "list_holds os = bindP (hold_image_ids os) (\<lambda>ids. bindP (holds os) (\<lambda>hs.
     bindP (pure_res (typed_holds (map_of ids) hs)) (\<lambda>ths. give (sort_key ho_instance ths))))"

section \<open>Image records\<close>

datatype managed_status = IN_USE | ORPHANED

record image_record =
  ir_id :: digest
  ir_refs :: "oci_ref list"
  ir_guests :: "string list"
  ir_holds :: "hold list"

definition held :: "image_record \<Rightarrow> bool" where "held r \<longleftrightarrow> ir_holds r \<noteq> []"
definition in_use :: "image_record \<Rightarrow> bool" where "in_use r \<longleftrightarrow> ir_guests r \<noteq> []"
definition dangling :: "image_record \<Rightarrow> bool" where "dangling r \<longleftrightarrow> ir_refs r = []"
definition managed_status :: "image_record \<Rightarrow> managed_status" where
  "managed_status r = (if ir_guests r \<noteq> [] then IN_USE else ORPHANED)"

text \<open>
  A marker that has a content id: the instances that record an image, with the reference when
  it is one, or a hold.  The buckets are dictionaries: of the references by their rendering, of
  the instances a set.
\<close>

datatype marker = GuestMark digest "oci_ref option" "string list" | HoldMark digest hold

fun mark_id :: "marker \<Rightarrow> digest" where
  "mark_id (GuestMark d r ns) = d"
| "mark_id (HoldMark d h) = d"

record bucket =
  bk_id :: digest
  bk_refs :: "(string \<times> oci_ref) list"
  bk_guests :: "string list"
  bk_holds :: "hold list"

definition empty_bucket :: "digest \<Rightarrow> bucket" where
  "empty_bucket d = \<lparr>bk_id = d, bk_refs = [], bk_guests = [], bk_holds = []\<rparr>"

fun fill :: "marker \<Rightarrow> bucket \<Rightarrow> bucket" where
  "fill (GuestMark d r ns) b = b\<lparr>bk_refs := (case r of None \<Rightarrow> bk_refs b | Some x \<Rightarrow> dict_set (oci_render x) x (bk_refs b)),
     bk_guests := bk_guests b @ ns\<rparr>"
| "fill (HoldMark d h) b = b\<lparr>bk_holds := bk_holds b @ [h]\<rparr>"

fun add_marker :: "marker \<Rightarrow> (string \<times> bucket) list \<Rightarrow> (string \<times> bucket) list" where
  "add_marker m [] = [(render_digest (mark_id m), fill m (empty_bucket (mark_id m)))]"
| "add_marker m ((k, b) # bs) = (if k = render_digest (mark_id m) then (k, fill m b) # bs else (k, b) # add_marker m bs)"

definition bucket_record :: "bucket \<Rightarrow> image_record" where
  "bucket_record b = \<lparr>ir_id = bk_id b, ir_refs = map snd (bk_refs b), ir_guests = sort (remdups (bk_guests b)), ir_holds = bk_holds b\<rparr>"

definition group_records :: "marker list \<Rightarrow> image_record list" where
  "group_records ms = sort_key (\<lambda>r. render_digest (ir_id r)) (map (\<lambda>(k, b). bucket_record b) (fold add_marker ms []))"

text \<open>A reference whose content is gone gives no marker.\<close>

definition when_local :: "'w os \<Rightarrow> string \<Rightarrow> (digest \<Rightarrow> marker) \<Rightarrow> (marker list, 'w guest) prog" where
  "when_local os ref f = tryP (bindP (resolve_id os ref) (\<lambda>d. give [f d]))
     (\<lambda>e. if catches [ImageNotFoundErrorC] e then give [] else raise_exc e)"

fun guest_markers :: "'w os \<Rightarrow> (string \<times> string list) list \<Rightarrow> (marker list, 'w guest) prog" where
  "guest_markers os [] = give []"
| "guest_markers os ((img, ns) # rs) =
     bindP (pure_res (parse_legacy_pinned img)) (\<lambda>p.
     bindP (case p of PinId d \<Rightarrow> give [GuestMark d None ns] | PinRef r \<Rightarrow> when_local os img (\<lambda>d. GuestMark d (Some r) ns)) (\<lambda>m.
     bindP (guest_markers os rs) (\<lambda>ms. give (m @ ms))))"

fun hold_markers :: "'w os \<Rightarrow> hold list \<Rightarrow> (marker list, 'w guest) prog" where
  "hold_markers os [] = give []"
| "hold_markers os (h # hs) =
     bindP (case ho_pinned h of PinId d \<Rightarrow> give [HoldMark d h] | PinRef r \<Rightarrow> when_local os (oci_render r) (\<lambda>d. HoldMark d h)) (\<lambda>m.
     bindP (hold_markers os hs) (\<lambda>ms. give (m @ ms)))"

definition list_records :: "'w os \<Rightarrow> store \<Rightarrow> (image_record list, 'w guest) prog" where
  "list_records os st =
     bindP (guest_markers os (guest_image_refs st)) (\<lambda>gs.
     bindP (list_holds os) (\<lambda>hs.
     bindP (hold_markers os hs) (\<lambda>ms. give (group_records (gs @ ms)))))"

datatype id_arg = ArgDigest digest | ArgRef oci_ref | ArgStr string

fun coerce_to_id :: "'w os \<Rightarrow> id_arg \<Rightarrow> (digest, 'w guest) prog" where
  "coerce_to_id os (ArgDigest d) = give d"
| "coerce_to_id os (ArgRef r) = resolve_id os (oci_render r)"
| "coerce_to_id os (ArgStr s) =
     (let by_ref = bindP (pure_res (unwrapE (oci_parse s))) (\<lambda>r. resolve_id os (oci_render r))
      in if anchored (rx_match BARE_SHA256) s then pure_res (digest_from_podman_id s)
         else if CHR '':'' \<in> set s then
           (case ref_exc (parse_digest s) of Inr d \<Rightarrow> give d | Inl e \<Rightarrow> if is_kento e then by_ref else raise_exc e)
         else by_ref)"

definition record_of :: "digest \<Rightarrow> image_record list \<Rightarrow> image_record option" where
  "record_of d rs = find (\<lambda>r. render_digest (ir_id r) = render_digest d) rs"

definition get_record :: "'w os \<Rightarrow> store \<Rightarrow> id_arg \<Rightarrow> (image_record, 'w guest) prog" where
  "get_record os st a =
     bindP (coerce_to_id os a) (\<lambda>d. bindP (list_records os st) (\<lambda>rs.
       case record_of d rs of Some r \<Rightarrow> give r | None \<Rightarrow> raise_exc ImageNotFoundErrorC))"

definition record_for_id :: "'w os \<Rightarrow> store \<Rightarrow> digest \<Rightarrow> (image_record, 'w guest) prog" where
  "record_for_id os st d = bindP (list_records os st) (\<lambda>rs.
     give (case record_of d rs of Some r \<Rightarrow> r | None \<Rightarrow> \<lparr>ir_id = d, ir_refs = [], ir_guests = [], ir_holds = []\<rparr>))"

section \<open>OCI images\<close>

record layer =
  layer_id :: string
  short_link :: string

record oci_image =
  im_source :: oci_ref
  im_id :: digest
  im_layers :: "layer list"
  im_root :: ppath

definition store_shaped :: "ppath \<Rightarrow> bool" where
  "store_shaped p \<longleftrightarrow> path_name p = ''diff'' \<and> path_parent p \<noteq> path_parent (path_parent p)"

definition decompose_layers :: "(string \<Rightarrow> exc + string) \<Rightarrow> string \<Rightarrow> string \<Rightarrow> exc + (ppath \<times> layer list)" where
  "decompose_layers link lower base =
     (let paths = map mk_path (layer_entries lower);
          roots = remdups (map (\<lambda>p. path_str (path_parent (path_parent p))) paths)
      in if layer_entries lower = [] then Inl StateErrorC
         else if \<not> list_all store_shaped paths then Inl StateErrorC
         else bindE (if base \<noteq> [] then Inr (mk_path base)
                     else if length roots = 1 then Inr (mk_path (hd roots)) else Inl StateErrorC) (\<lambda>r.
              bindE (mapE (\<lambda>p. bindE (short_id link p) (\<lambda>s. Inr \<lparr>layer_id = path_name (path_parent p), short_link = s\<rparr>)) paths)
                (\<lambda>ls. Inr (r, ls))))"

definition render_lowerdir :: "oci_image \<Rightarrow> string" where
  "render_lowerdir im = py_join '':'' (map (\<lambda>l. path_str (path_div (path_div (im_root im) (layer_id l)) ''diff'')) (im_layers im))"

definition checked :: "'w os \<Rightarrow> string list \<Rightarrow> (string, 'w guest) prog" where
  "checked os args = bindP (podman os args) (\<lambda>(rc, out). if rc \<noteq> 0 then raise_exc CalledProcessErrorC else give out)"

definition layers_of :: "'w os \<Rightarrow> string \<Rightarrow> (string, 'w guest) prog" where
  "layers_of os img =
     bindP (podman os [''image'', ''exists'', img]) (\<lambda>(rc, _).
       if rc \<noteq> 0 then raise_exc ImageNotFoundErrorC
       else bindP (checked os [''image'', ''inspect'', img, ''--format'', ''{{.GraphDriver.Data.UpperDir}}'']) (\<lambda>u.
            bindP (checked os [''image'', ''inspect'', img, ''--format'', ''{{.GraphDriver.Data.LowerDir}}'']) (\<lambda>l.
            pure_res (resolve_layers True (Some u) (Some l)))))"

definition oci_resolve :: "'w os \<Rightarrow> oci_ref \<Rightarrow> (oci_image, 'w guest) prog" where
  "oci_resolve os source =
     (let ref = oci_render source
      in bindP (layers_of os ref) (\<lambda>lower.
         bindP (pure_res (to_overlay_lowerdir (os_link os) lower)) (\<lambda>(base, _).
         bindP (pure_res (decompose_layers (os_link os) lower base)) (\<lambda>(r, ls).
         bindP (resolve_id os ref) (\<lambda>d. give \<lparr>im_source = source, im_id = d, im_layers = ls, im_root = r\<rparr>)))))"

datatype ref_arg = RefStr string | RefOci oci_ref

fun coerce_ref :: "ref_arg \<Rightarrow> exc + oci_ref" where
  "coerce_ref (RefOci r) = Inr r"
| "coerce_ref (RefStr s) = unwrapE (oci_parse s)"

definition podman_or_die :: "'w os \<Rightarrow> string list \<Rightarrow> (string, 'w guest) prog" where
  "podman_or_die os args =
     bindP (tryP (podman os args) (\<lambda>e. raise_exc (if catches [OSErrorC] e then SubprocessErrorC else e))) (\<lambda>(rc, out).
       if rc \<noteq> 0 then raise_exc SubprocessErrorC else give out)"

definition get_image :: "'w os \<Rightarrow> ref_arg \<Rightarrow> (oci_image, 'w guest) prog" where
  "get_image os a = bindP (pure_res (coerce_ref a)) (oci_resolve os)"

definition pull_image :: "'w os \<Rightarrow> ref_arg \<Rightarrow> (oci_image, 'w guest) prog" where
  "pull_image os a = bindP (pure_res (coerce_ref a)) (\<lambda>r.
     bindP (podman_or_die os [''pull'', oci_render r]) (\<lambda>_. oci_resolve os r))"

definition resolve_record :: "'w os \<Rightarrow> image_record \<Rightarrow> (oci_image, 'w guest) prog" where
  "resolve_record os r = get_image os (RefStr (render_digest (ir_id r)))"

text \<open>An entry that does not parse or resolve is skipped.\<close>

fun resolve_entries :: "'w os \<Rightarrow> string list \<Rightarrow> (oci_image list, 'w guest) prog" where
  "resolve_entries os [] = give []"
| "resolve_entries os (raw # ls) =
     (let entry = py_strip raw
      in if entry = [] \<or> py_in ''<none>'' entry then resolve_entries os ls
         else bindP (tryP (bindP (pure_res (unwrapE (oci_parse entry))) (\<lambda>r. bindP (oci_resolve os r) (\<lambda>im. give [im])))
                       (\<lambda>e. if catches [KentoErrorC] e then give [] else raise_exc e)) (\<lambda>im.
              bindP (resolve_entries os ls) (\<lambda>ims. give (im @ ims))))"

definition list_images :: "'w os \<Rightarrow> (oci_image list, 'w guest) prog" where
  "list_images os = bindP (podman_or_die os [''images'', ''--format'', ''{{.Repository}}:{{.Tag}}'']) (\<lambda>out.
     resolve_entries os (read_lines out))"

section \<open>Collection and removal\<close>

datatype prune_scope = DANGLING

text \<open>The reasons of the failures are not modelled.\<close>

record reclaim_report =
  rr_dry_run :: bool
  rr_reclaimed :: "string list"
  rr_failed :: "string list"

fun reclaim :: "'w os \<Rightarrow> string set \<Rightarrow> string list \<Rightarrow> string list \<Rightarrow> string list \<Rightarrow> string list \<Rightarrow> (reclaim_report, 'w guest) prog" where
  "reclaim os spare seen gone fails [] = give \<lparr>rr_dry_run = False, rr_reclaimed = gone, rr_failed = fails\<rparr>"
| "reclaim os spare seen gone fails (raw # ls) =
     (let i = py_strip raw
      in if i = [] \<or> i \<in> set seen then reclaim os spare seen gone fails ls
         else if i \<in> spare then reclaim os spare (i # seen) gone fails ls
         else bindP (tryP (bindP (podman_or_die os [''rmi'', i]) (\<lambda>_. give True))
                       (\<lambda>e. if catches [SubprocessErrorC] e then give False else raise_exc e)) (\<lambda>ok.
              if ok then reclaim os spare (i # seen) (gone @ [i]) fails ls
              else reclaim os spare (i # seen) gone (fails @ [i]) ls))"

definition DANGLING_CMD :: "string list" where
  "DANGLING_CMD = [''images'', ''--filter'', ''dangling=true'', ''--format'', ''{{.Id}}'']"

definition prune_images :: "'w os \<Rightarrow> prune_scope \<Rightarrow> (reclaim_report, 'w guest) prog" where
  "prune_images os scope =
     (if scope \<noteq> DANGLING then raise_exc ValidationErrorC
      else bindP (podman_or_die os DANGLING_CMD) (\<lambda>out.
           bindP (hold_image_ids os) (\<lambda>ids.
           bindP (holds os) (\<lambda>hs.
             reclaim os (snd ` set ids \<union> {img \<in> snd ` set hs. img \<noteq> []}) [] [] [] (read_lines out)))))"

definition bare_id :: "string \<Rightarrow> string" where
  "bare_id v = (let (a, sep, b) = py_partition (CHR '':'') v in if sep then b else v)"

definition image_held :: "'w os \<Rightarrow> oci_image \<Rightarrow> string \<Rightarrow> (bool, 'w guest) prog" where
  "image_held os im rendered =
     (let hex = encoded (im_id im)
      in bindP (hold_image_ids os) (\<lambda>ids.
         if list_ex (\<lambda>(n, i). i \<noteq> [] \<and> bare_id i = hex) ids then give True
         else bindP (holds os) (\<lambda>hs. give (list_ex (\<lambda>(n, img). img \<noteq> [] \<and> (bare_id img = hex \<or> img = rendered)) hs))))"

definition remove_image :: "'w os \<Rightarrow> oci_image \<Rightarrow> bool \<Rightarrow> (unit, 'w guest) prog" where
  "remove_image os im force =
     (let rendered = oci_render (im_source im)
      in bindP (if force then give False else image_held os im rendered) (\<lambda>pinned.
         if pinned then raise_exc StateErrorC
         else bindP (podman_or_die os ([''rmi''] @ (if force then [''--force''] else []) @ [rendered])) (\<lambda>_. give ())))"

section \<open>Mounting\<close>

definition mount_image :: "'w os \<Rightarrow> oci_image \<Rightarrow> ppath \<Rightarrow> ppath \<Rightarrow> (unit, 'w guest) prog" where
  "mount_image os im host_dir state_dir = mount_rootfs os host_dir (render_lowerdir im) state_dir"

definition unmount_image :: "'w os \<Rightarrow> ppath \<Rightarrow> (unit, 'w guest) prog" where
  "unmount_image os host_dir = unmount_rootfs os host_dir"

section \<open>Grouping\<close>

abbreviation mark_key :: "marker \<Rightarrow> string" where "mark_key m \<equiv> render_digest (mark_id m)"

fun guests_of :: "marker \<Rightarrow> string list" where
  "guests_of (GuestMark d r ns) = ns"
| "guests_of (HoldMark d h) = []"

fun holds_of :: "marker \<Rightarrow> hold list" where
  "holds_of (GuestMark d r ns) = []"
| "holds_of (HoldMark d h) = [h]"

fun refs_of :: "marker \<Rightarrow> oci_ref list" where
  "refs_of (GuestMark d (Some r) ns) = [r]"
| "refs_of m = []"

lemma map_of_add_marker:
  "map_of (add_marker m bs) = (map_of bs)(mark_key m \<mapsto> fill m (case map_of bs (mark_key m) of None \<Rightarrow> empty_bucket (mark_id m) | Some b \<Rightarrow> b))"
  by (induction m bs rule: add_marker.induct) (auto split: option.splits)

lemma add_marker_keys:
  "map fst (add_marker m bs) = (if mark_key m \<in> set (map fst bs) then map fst bs else map fst bs @ [mark_key m])"
  by (induction m bs rule: add_marker.induct) (auto simp del: set_map)

lemma fill_id [simp]: "bk_id (fill m b) = bk_id b" by (cases m) (auto split: option.splits)

lemma fold_fill:
  "bk_id (fold fill ms b) = bk_id b"
  "bk_guests (fold fill ms b) = bk_guests b @ concat (map guests_of ms)"
  "bk_holds (fold fill ms b) = bk_holds b @ concat (map holds_of ms)"
proof (induction ms arbitrary: b)
  case (Cons m ms)
  {
    case 1 show ?case using Cons.IH(1) by simp
  next
    case 2 show ?case using Cons.IH(2) by (cases m) (auto split: option.splits)
  next
    case 3 show ?case using Cons.IH(3) by (cases m) (auto split: option.splits)
  }
qed simp_all

text \<open>The bucket of a key is filled from the markers of the key, in their order.\<close>

lemma group_buckets:
  "map_of (fold add_marker ms []) k =
     (case filter (\<lambda>m. mark_key m = k) ms of [] \<Rightarrow> None | m # rest \<Rightarrow> Some (fold fill (m # rest) (empty_bucket (mark_id m))))"
  "distinct (map fst (fold add_marker ms []))"
proof (induction ms rule: rev_induct)
  case (snoc m ms)
  {
    case 1
    show ?case using snoc(1) by (cases "filter (\<lambda>m. mark_key m = k) ms") (auto simp: map_of_add_marker)
  next
    case 2
    show ?case using snoc(2) by (simp add: add_marker_keys del: set_map)
  }
qed simp_all

definition keyed :: "(string \<times> oci_ref) list \<Rightarrow> bool" where
  "keyed xs \<longleftrightarrow> map fst xs = map (oci_render \<circ> snd) xs \<and> distinct (map fst xs)"

lemma keyed_dict_set: "keyed xs \<Longrightarrow> keyed (dict_set (oci_render y) y xs)"
  unfolding keyed_def
proof (elim conjE, intro conjI)
  show "map fst xs = map (oci_render \<circ> snd) xs \<Longrightarrow>
      map fst (dict_set (oci_render y) y xs) = map (oci_render \<circ> snd) (dict_set (oci_render y) y xs)"
    by (induction "oci_render y" y xs rule: dict_set.induct) simp_all
qed (rule distinct_dict_set)

lemma refs_keys: "set (map fst (dict_set k y xs)) = insert k (set (map fst xs))"
  by (induction k y xs rule: dict_set.induct) auto

lemma fill_refs:
  "set (map fst (bk_refs (fill m b))) = set (map fst (bk_refs b)) \<union> oci_render ` set (refs_of m)"
  "keyed (bk_refs b) \<Longrightarrow> keyed (bk_refs (fill m b))"
proof -
  show "set (map fst (bk_refs (fill m b))) = set (map fst (bk_refs b)) \<union> oci_render ` set (refs_of m)"
    by (cases m) (simp_all add: refs_keys del: set_map split: option.split)
  show "keyed (bk_refs b) \<Longrightarrow> keyed (bk_refs (fill m b))"
    by (cases m) (simp_all add: keyed_dict_set split: option.split)
qed

lemma fold_fill_refs:
  "set (map fst (bk_refs (fold fill ms b))) = set (map fst (bk_refs b)) \<union> oci_render ` set (concat (map refs_of ms))"
  "keyed (bk_refs b) \<Longrightarrow> keyed (bk_refs (fold fill ms b))"
proof (induction ms arbitrary: b)
  case (Cons m ms)
  {
    case 1
    show ?case using Cons.IH(1) [of "fill m b"] fill_refs(1) [of m b] by (simp add: image_Un Un_assoc del: set_map)
  next
    case 2
    then show ?case using Cons.IH(2) [of "fill m b"] fill_refs(2) [of b m] by simp
  }
qed simp_all

lemma record_id [simp]: "ir_id (bucket_record b) = bk_id b" by (simp add: bucket_record_def)

lemma bucket_of_key:
  assumes "(k, b) \<in> set (fold add_marker ms [])"
  shows "\<exists>m rest. filter (\<lambda>m. mark_key m = k) ms = m # rest \<and> b = fold fill (m # rest) (empty_bucket (mark_id m)) \<and> mark_key m = k \<and> m \<in> set ms"
proof -
  have "map_of (fold add_marker ms []) k = Some b" using assms group_buckets(2) by simp
  then obtain m rest where f: "filter (\<lambda>m. mark_key m = k) ms = m # rest" "b = fold fill (m # rest) (empty_bucket (mark_id m))"
    unfolding group_buckets(1) by (auto split: list.splits)
  from Cons_eq_filterD [OF f(1) [symmetric]] have "mark_key m = k \<and> m \<in> set ms" by auto
  with f show ?thesis by blast
qed

lemma group_ids: "r \<in> set (group_records ms) \<Longrightarrow> \<exists>m \<in> set ms. ir_id r = mark_id m"
  using bucket_of_key by (fastforce simp: group_records_def fold_fill empty_bucket_def)

lemma group_keys:
  "sorted_wrt (<) (map (\<lambda>r. render_digest (ir_id r)) (group_records ms))"
  "set (map (\<lambda>r. render_digest (ir_id r)) (group_records ms)) = mark_key ` set ms"
proof -
  let ?bs = "fold add_marker ms []" and ?k = "\<lambda>r. render_digest (ir_id r)"
  let ?rs = "map (\<lambda>(k, b). bucket_record b) ?bs"
  have "render_digest (bk_id b) = k" if "(k, b) \<in> set ?bs" for k b
    using bucket_of_key [OF that] by (auto simp: fold_fill empty_bucket_def)
  then have keys: "map ?k ?rs = map fst ?bs" by auto
  have set_keys: "set (map fst ?bs) = mark_key ` set ms"
  proof -
    have "k \<in> set (map fst ?bs) \<longleftrightarrow> map_of ?bs k \<noteq> None" for k by (simp add: map_of_eq_None_iff)
    moreover have "map_of ?bs k \<noteq> None \<longleftrightarrow> k \<in> mark_key ` set ms" for k
    proof -
      have "map_of ?bs k \<noteq> None \<longleftrightarrow> filter (\<lambda>m. mark_key m = k) ms \<noteq> []" unfolding group_buckets(1) by (auto split: list.splits)
      then show ?thesis by (auto simp: filter_empty_conv)
    qed
    ultimately show ?thesis by blast
  qed
  have sorted: "sorted (map ?k (group_records ms))" by (simp add: group_records_def)
  have "mset (map ?k (group_records ms)) = mset (map fst ?bs)" unfolding keys [symmetric] group_records_def by (simp only: mset_map mset_sort)
  then have perm: "set (map ?k (group_records ms)) = set (map fst ?bs)" "distinct (map ?k (group_records ms))"
    using group_buckets(2) by (metis mset_eq_setD, metis mset_eq_imp_distinct_iff)
  show "sorted_wrt (<) (map ?k (group_records ms))" using sorted perm(2) by (simp add: strict_sorted_iff)
  show "set (map ?k (group_records ms)) = mark_key ` set ms" using perm(1) set_keys by simp
qed

text \<open>
  C21. The records are the groups of the markers by content id, found in one pass: one record for
  each id some marker has, in the order of the rendered ids, with the instances of its markers
  sorted and without repetition, their holds in order, and each reference once.
\<close>
theorem records_group_markers:
  "sorted_wrt (<) (map (\<lambda>r. render_digest (ir_id r)) (group_records ms)) \<and>
   set (map (\<lambda>r. render_digest (ir_id r)) (group_records ms)) = mark_key ` set ms \<and>
   (\<forall>r \<in> set (group_records ms). let own = filter (\<lambda>m. mark_key m = render_digest (ir_id r)) ms
      in ir_guests r = sort (remdups (concat (map guests_of own))) \<and> ir_holds r = concat (map holds_of own) \<and>
         distinct (map oci_render (ir_refs r)) \<and> oci_render ` set (ir_refs r) = oci_render ` set (concat (map refs_of own)))"
proof -
  let ?bs = "fold add_marker ms []" and ?k = "\<lambda>r. render_digest (ir_id r)"
  have "let own = filter (\<lambda>m. mark_key m = ?k r) ms
      in ir_guests r = sort (remdups (concat (map guests_of own))) \<and> ir_holds r = concat (map holds_of own) \<and>
         distinct (map oci_render (ir_refs r)) \<and> oci_render ` set (ir_refs r) = oci_render ` set (concat (map refs_of own))"
    if r: "r \<in> set (group_records ms)" for r
  proof -
    from r obtain k b where b: "(k, b) \<in> set ?bs" "r = bucket_record b" by (auto simp: group_records_def)
    from bucket_of_key [OF b(1)] obtain m rest where own: "filter (\<lambda>m. mark_key m = k) ms = m # rest"
      and fb: "b = fold fill (m # rest) (empty_bucket (mark_id m))" and mk: "mark_key m = k" by blast
    have rid: "?k r = k" using mk by (simp add: b(2) fb fold_fill empty_bucket_def)
    let ?own = "m # rest"
    have e: "bk_refs (empty_bucket (mark_id m)) = []" "bk_guests (empty_bucket (mark_id m)) = []" "bk_holds (empty_bucket (mark_id m)) = []"
      by (simp_all add: empty_bucket_def)
    have f: "bk_guests b = concat (map guests_of ?own)" "bk_holds b = concat (map holds_of ?own)"
      unfolding fb fold_fill e by simp_all
    have fr: "set (map fst (bk_refs b)) = oci_render ` set (concat (map refs_of ?own))" "keyed (bk_refs b)"
    proof -
      show "set (map fst (bk_refs b)) = oci_render ` set (concat (map refs_of ?own))"
        unfolding fb fold_fill_refs(1) e by simp
      show "keyed (bk_refs b)" unfolding fb by (rule fold_fill_refs(2)) (simp add: e keyed_def)
    qed
    have snds: "map oci_render (ir_refs r) = map fst (bk_refs b)" using fr(2) by (simp add: b(2) bucket_record_def keyed_def)
    then have "distinct (map oci_render (ir_refs r))" using fr(2) by (simp add: keyed_def)
    moreover have "oci_render ` set (ir_refs r) = oci_render ` set (concat (map refs_of ?own))"
      using fr(1) snds by (metis set_map)
    ultimately have "distinct (map oci_render (ir_refs r))" "oci_render ` set (ir_refs r) = oci_render ` set (concat (map refs_of ?own))" by blast+
    then show ?thesis unfolding rid own using f by (simp add: b(2) bucket_record_def)
  qed
  then show ?thesis using group_keys by blast
qed

definition sample_digest :: "char \<Rightarrow> digest" where
  "sample_digest c = \<lparr>algorithm = ''sha256'', encoded = replicate 64 c\<rparr>"

theorem records_group_markers_witness:
  "\<exists>r. r \<in> set (group_records [GuestMark (sample_digest (CHR ''b'')) None [''y'', ''x''], GuestMark (sample_digest (CHR ''a'')) None [''z''],
       GuestMark (sample_digest (CHR ''b'')) None [''x'']]) \<and> ir_guests r = [''x'', ''y'']"
proof -
  let ?ms = "[GuestMark (sample_digest (CHR ''b'')) None [''y'', ''x''], GuestMark (sample_digest (CHR ''a'')) None [''z''],
       GuestMark (sample_digest (CHR ''b'')) None [''x'']]" and ?k = "\<lambda>r. render_digest (ir_id r)"
  note t = records_group_markers [of ?ms]
  have "render_digest (sample_digest (CHR ''b'')) \<in> ?k ` set (group_records ?ms)" using t by simp
  then obtain r where r: "r \<in> set (group_records ?ms)" "?k r = render_digest (sample_digest (CHR ''b''))" by auto
  have ne: "render_digest (sample_digest (CHR ''a'')) \<noteq> render_digest (sample_digest (CHR ''b''))"
    by (simp add: render_digest_def sample_digest_def numeral_eq_Suc)
  have "ir_guests r = sort (remdups [''y'', ''x'', ''x''])" using t r ne by (auto simp: Let_def)
  also have "... = [''x'', ''y'']" by code_simp
  finally show ?thesis using r(1) by blast
qed

section \<open>A marker that cannot be read\<close>

lemma guest_markers_error:
  "(img, ns) \<in> set rs \<Longrightarrow> parse_legacy_pinned img = Inl e \<Longrightarrow> guest_markers os rs g \<noteq> Some (Inr ms, g')"
  by (induction os rs arbitrary: g ms rule: guest_markers.induct) (auto simp: bindP_Some)

lemma typed_holds_error:
  "(n, img) \<in> set hs \<Longrightarrow> (case ids n of Some i \<Rightarrow> i | None \<Rightarrow> []) = [] \<Longrightarrow> img \<noteq> [] \<Longrightarrow> parse_legacy_pinned img = Inl e \<Longrightarrow>
     typed_holds ids hs \<noteq> Inr ths"
proof (induction hs arbitrary: ths)
  case (Cons h hs)
  then show ?case by (cases h) (fastforce simp: Let_def split: if_splits)
qed simp

text \<open>
  One marker that is not an image reference hides the whole ledger: when an instance records
  such a text, or a hold without an id pins by one, no listing of records ever succeeds, whatever
  the other markers are.
\<close>
theorem bad_marker_hides_ledger:
  assumes "parse_legacy_pinned img = Inl e"
    "img \<in> fst ` set (guest_image_refs st) \<or>
     (\<exists>n ids hs. hold_image_ids os = (\<lambda>h. Some (Inr ids, h)) \<and> holds os = (\<lambda>h. Some (Inr hs, h)) \<and>
        (n, img) \<in> set hs \<and> n \<notin> fst ` set ids \<and> img \<noteq> [])"
  shows "list_records os st g \<noteq> Some (Inr rs, g')"
proof (cases "img \<in> fst ` set (guest_image_refs st)")
  case True
  then obtain ns where "(img, ns) \<in> set (guest_image_refs st)" by auto
  then have "guest_markers os (guest_image_refs st) g \<noteq> Some (Inr ms, h)" for ms h by (rule guest_markers_error [OF _ assms(1)])
  then show ?thesis by (auto simp: list_records_def bindP_Some)
next
  case False
  with assms(2) obtain n ids hs where q: "hold_image_ids os = (\<lambda>h. Some (Inr ids, h))" "holds os = (\<lambda>h. Some (Inr hs, h))"
    and h: "(n, img) \<in> set hs" "n \<notin> fst ` set ids" "img \<noteq> []" by blast
  have "(case map_of ids n of Some i \<Rightarrow> i | None \<Rightarrow> []) = []" using h(2) by (simp add: map_of_eq_None_iff [THEN iffD2])
  then have "typed_holds (map_of ids) hs \<noteq> Inr ths" for ths using typed_holds_error [of n img hs "map_of ids"] h(1,3) assms(1) by blast
  then have "list_holds os h \<noteq> Some (Inr ths, h')" for h ths h' by (auto simp: list_holds_def q bindP_Some)
  then show ?thesis by (auto simp: list_records_def bindP_Some)
qed

theorem bad_marker_hides_ledger_witness:
  "\<forall>g rs g'. list_records shelf_os \<lparr>lxc_base = None, vm_base = Some [(''u'', EDir [''kento-image'' \<mapsto> ''https://h/r.txz''])]\<rparr> g \<noteq> Some (Inr rs, g')"
proof -
  let ?st = "\<lparr>lxc_base = None, vm_base = Some [(''u'', EDir [''kento-image'' \<mapsto> ''https://h/r.txz''])]\<rparr>"
  have "parse_legacy_pinned ''https://h/r.txz'' = Inl ResultErrorC" by code_simp
  moreover have "file_text ''https://h/r.txz'' = ''https://h/r.txz''" by code_simp
  then have "''https://h/r.txz'' \<in> fst ` set (guest_image_refs ?st)"
    by (simp add: guest_image_refs_def store_guests_def entries_of_def recorded_name_def firsts_def)
  ultimately show ?thesis using bad_marker_hides_ledger by blast
qed

section \<open>Collecting spares the held images\<close>

lemma keeps_podman_or_die:
  assumes "\<And>w r w'. P w \<Longrightarrow> os_run os None (''podman'' # args) w = (r, w') \<Longrightarrow> P w'"
  shows "keeps (\<lambda>g. P (g_world g)) (podman_or_die os args)"
proof -
  have "keeps (\<lambda>g. P (g_world g)) (podman os args)" by (rule keeps_podman) (rule assms)
  then show ?thesis unfolding podman_or_die_def by (intro keeps_bindP keeps_tryP) (auto split: prod.split)
qed

lemma reclaim_keeps:
  assumes "\<And>i w r w'. i \<notin> spare \<Longrightarrow> os_run os None [''podman'', ''rmi'', i] w = (r, w') \<Longrightarrow> P w \<Longrightarrow> P w'"
  shows "keeps (\<lambda>g. P (g_world g)) (reclaim os spare seen gone fails ls)"
proof (induction ls arbitrary: seen gone fails)
  case (Cons raw ls)
  have "keeps (\<lambda>g. P (g_world g)) (podman_or_die os [''rmi'', i])" if "i \<notin> spare" for i
    by (rule keeps_podman_or_die) (use assms that in simp)
  then have "keeps (\<lambda>g. P (g_world g)) (tryP (bindP (podman_or_die os [''rmi'', i]) (\<lambda>_. give True))
      (\<lambda>e. if catches [SubprocessErrorC] e then give False else raise_exc e))" if "i \<notin> spare" for i
    using that by (intro keeps_tryP keeps_bindP) auto
  with Cons show ?case by (auto simp: Let_def intro!: keeps_bindP)
qed simp

lemma reclaim_report:
  "reclaim os spare seen gone fails ls g = Some (Inr rep, g') \<Longrightarrow>
     set (rr_reclaimed rep) \<union> set (rr_failed rep) = set gone \<union> set fails \<union> (py_strip ` set ls - {[]} - set seen - spare) \<and>
     mset (rr_reclaimed rep @ rr_failed rep) = mset (gone @ fails) + mset_set (py_strip ` set ls - {[]} - set seen - spare)"
proof (induction ls arbitrary: seen gone fails g)
  case (Cons raw ls)
  let ?i = "py_strip raw"
  show ?case
  proof (cases "?i = [] \<or> ?i \<in> set seen \<or> ?i \<in> spare")
    case True
    then obtain s where s: "reclaim os spare s gone fails ls g = Some (Inr rep, g')" "s = seen \<or> s = ?i # seen \<and> ?i \<in> spare"
      using Cons.prems by (auto simp: Let_def split: if_splits)
    have "py_strip ` set (raw # ls) - {[]} - set seen - spare = py_strip ` set ls - {[]} - set s - spare" using True s(2) by auto
    with Cons.IH [OF s(1)] show ?thesis by simp
  next
    case False
    from Cons.prems False obtain ok g1 where ok: "(if ok then reclaim os spare (?i # seen) (gone @ [?i]) fails ls
              else reclaim os spare (?i # seen) gone (fails @ [?i]) ls) g1 = Some (Inr rep, g')"
      by (auto simp: Let_def bindP_Some)
    let ?rest = "py_strip ` set ls - {[]} - set (?i # seen) - spare"
    have rest: "py_strip ` set (raw # ls) - {[]} - set seen - spare = insert ?i ?rest" "?i \<notin> ?rest" "finite ?rest" using False by auto
    show ?thesis
    proof (cases ok)
      case True
      then have "reclaim os spare (?i # seen) (gone @ [?i]) fails ls g1 = Some (Inr rep, g')" using ok by simp
      from Cons.IH [OF this] rest show ?thesis unfolding rest(1) by auto
    next
      case False
      then have "reclaim os spare (?i # seen) gone (fails @ [?i]) ls g1 = Some (Inr rep, g')" using ok by simp
      from Cons.IH [OF this] rest show ?thesis unfolding rest(1) by auto
    qed
  qed
qed auto

text \<open>
  Collecting dangling images spares what a hold pins: what survives the removal of any image
  whose id no hold has, as label or as image, survives a run; and a run that returns reports each
  other dangling image exactly once, as removed or as refused.
\<close>
theorem prune_images_spares_held:
  assumes "os_run os None (''podman'' # DANGLING_CMD) (g_world g) = (Inr (0, out), g_world g)"
    "hold_image_ids os g = Some (Inr ids, g)" "holds os g = Some (Inr hs, g)"
    "\<And>i w r w'. i \<notin> snd ` set ids \<Longrightarrow> i \<notin> snd ` set hs \<or> i = [] \<Longrightarrow> os_run os None [''podman'', ''rmi'', i] w = (r, w') \<Longrightarrow> P w \<Longrightarrow> P w'"
    "P (g_world g)" "prune_images os DANGLING g = Some (r, g')"
  shows "P (g_world g') \<and> (\<forall>rep. r = Inr rep \<longrightarrow>
     distinct (rr_reclaimed rep @ rr_failed rep) \<and>
     set (rr_reclaimed rep @ rr_failed rep) = py_strip ` set (read_lines out) - {[]} - snd ` set ids - snd ` set hs)"
proof -
  let ?spare = "snd ` set ids \<union> {img \<in> snd ` set hs. img \<noteq> []}"
  have d: "podman_or_die os DANGLING_CMD g = Some (Inr out, g)"
    using assms(1) by (simp add: podman_or_die_def podman_def tryP.simps bindP.simps osP_run)
  have run: "prune_images os DANGLING g = reclaim os ?spare [] [] [] (read_lines out) g"
    by (simp add: prune_images_def bindP_step(1) [where m = "podman_or_die os DANGLING_CMD", OF d]
        bindP_step(1) [where m = "hold_image_ids os", OF assms(2)] bindP_step(1) [where m = "holds os", OF assms(3)])
  have "keeps (\<lambda>g. P (g_world g)) (reclaim os ?spare [] [] [] (read_lines out))"
    by (rule reclaim_keeps) (use assms(4) in blast)
  from keepsD [OF this] assms(5,6) run have "P (g_world g')" by simp
  moreover have "distinct (rr_reclaimed rep @ rr_failed rep) \<and>
     set (rr_reclaimed rep @ rr_failed rep) = py_strip ` set (read_lines out) - {[]} - snd ` set ids - snd ` set hs" if "r = Inr rep" for rep
  proof -
    let ?D = "py_strip ` set (read_lines out) - {[]} - ?spare"
    have "reclaim os ?spare [] [] [] (read_lines out) g = Some (Inr rep, g')" using assms(6) run that by simp
    from reclaim_report [OF this] have m: "mset (rr_reclaimed rep @ rr_failed rep) = mset_set ?D"
      "set (rr_reclaimed rep) \<union> set (rr_failed rep) = ?D" by simp_all
    have "finite ?D" by simp
    then have "distinct (rr_reclaimed rep @ rr_failed rep)"
      using mset_eq_imp_distinct_iff [of "rr_reclaimed rep @ rr_failed rep" "sorted_list_of_set ?D"] m(1)
        mset_set_set [of "sorted_list_of_set ?D"] by (simp only: set_sorted_list_of_set distinct_sorted_list_of_set)
    moreover have "?D = py_strip ` set (read_lines out) - {[]} - snd ` set ids - snd ` set hs" by auto
    ultimately show ?thesis using m(2) by simp
  qed
  ultimately show ?thesis by blast
qed

text \<open>
  Removal without force is refused, before any image is touched, when a hold carries the
  content id the image was resolved to, in either of podman's two forms.
\<close>
theorem remove_refuses_held:
  assumes "hold_image_ids os g = Some (Inr ids, g')" "(n, i) \<in> set ids" "digest_from_podman_id i = Inr (im_id im)"
  shows "remove_image os im False g = Some (Inl StateErrorC, g')"
proof -
  have "i \<noteq> [] \<and> bare_id i = encoded (im_id im)"
  proof (cases "CHR '':'' \<in> set i")
    case True
    then obtain a b where p: "py_partition (CHR '':'') i = (a, True, b)" by (metis py_partition_split)
    with True assms(3) have "im_id im = \<lparr>algorithm = a, encoded = b\<rparr>"
      by (auto simp: digest_from_podman_id_def ref_exc_def parse_digest_def split: sum.splits ref_exn.splits)
    with p True show ?thesis by (auto simp: bare_id_def)
  next
    case False
    then have "py_partition (CHR '':'') i = (i, False, [])" by (rule py_partition_none)
    moreover have "digest_from_podman_id [] \<noteq> Inr (im_id im)"
    proof -
      have "digest_from_podman_id [] = Inl MalformedReferenceC" by code_simp
      then show ?thesis by simp
    qed
    moreover have "encoded (im_id im) = i"
      using False assms(3) by (auto simp: digest_from_podman_id_def ref_exc_def split: sum.splits ref_exn.splits dest!: arg_cong [where f = encoded])
    ultimately show ?thesis using assms(3) by (auto simp: bare_id_def)
  qed
  then have "list_ex (\<lambda>(n, i). i \<noteq> [] \<and> bare_id i = encoded (im_id im)) ids" using assms(2) by (auto simp: list_ex_iff)
  then have "image_held os im s g = Some (Inr True, g')" for s
    by (simp add: image_held_def Let_def bindP_step(1) [where m = "hold_image_ids os", OF assms(1)])
  then show ?thesis by (simp add: remove_image_def Let_def bindP_step(1) [where m = "image_held os im s" for s])
qed

text \<open>A podman with one hold, of an image with an id label, and a dangling image beside it.\<close>

definition shelf_ids_os :: "shelf os" where
  "shelf_ids_os = shelf_os\<lparr>os_run := (\<lambda>_ argv w.
     if argv = ''podman'' # HOLD_IDS_CMD then (Inr (0, concat (map (\<lambda>(n, i). n @ [TAB] @ i @ [LF]) (sh_holds w))), w)
     else if argv = ''podman'' # DANGLING_CMD then (Inr (0, concat (map (\<lambda>i. i @ [LF]) (sh_images w))), w)
     else if take 2 argv = [''podman'', ''rmi''] then (Inr (0, []), w\<lparr>sh_images := removeAll (argv ! 2) (sh_images w)\<rparr>)
     else shelf_run argv w)\<rparr>"

definition one_held :: "string \<Rightarrow> shelf guest" where
  "one_held i = \<lparr>g_files = Map.empty, g_world = \<lparr>sh_holds = [(''a'', i)], sh_images = [i, ''id2'']\<rparr>\<rparr>"

lemma shelf_ids_run: "os_run shelf_ids_os c argv w =
     (if argv = ''podman'' # HOLD_IDS_CMD then (Inr (0, concat (map (\<lambda>(n, i). n @ [TAB] @ i @ [LF]) (sh_holds w))), w)
     else if argv = ''podman'' # DANGLING_CMD then (Inr (0, concat (map (\<lambda>i. i @ [LF]) (sh_images w))), w)
     else if take 2 argv = [''podman'', ''rmi''] then (Inr (0, []), w\<lparr>sh_images := removeAll (argv ! 2) (sh_images w)\<rparr>)
     else shelf_run argv w)"
  by (simp add: shelf_ids_os_def)

lemma one_held_ids:
  assumes "List.map_filter hold_id_line (read_lines (''a'' @ [TAB] @ i @ [LF])) = [(''a'', i)]"
  shows "hold_image_ids shelf_ids_os (one_held i) = Some (Inr [(''a'', i)], one_held i)"
  using assms by (simp add: hold_image_ids_def podman_def bindP.simps osP_run shelf_ids_run one_held_def)

theorem prune_images_spares_held_witness:
  "\<exists>rep g'. prune_images shelf_ids_os DANGLING (one_held ''id1'') = Some (Inr rep, g') \<and> ''id1'' \<in> set (sh_images (g_world g')) \<and>
     set (rr_reclaimed rep @ rr_failed rep) = {''id2''}"
proof -
  let ?g = "one_held ''id1''" and ?out = "''id1'' @ [LF] @ ''id2'' @ [LF]"
  have l: "read_lines ?out = [''id1'', ''id2'']" "py_strip ''id1'' = ''id1''" "py_strip ''id2'' = ''id2''"
    "List.map_filter hold_id_line (read_lines (''a'' @ [TAB] @ ''id1'' @ [LF])) = [(''a'', ''id1'')]"
    "List.map_filter hold_line (read_lines (''a'' @ [TAB] @ ''id1'' @ [LF])) = [(''a'', ''id1'')]" by code_simp+
  have c: "HOLDS_CMD \<noteq> HOLD_IDS_CMD" "HOLDS_CMD \<noteq> DANGLING_CMD" "DANGLING_CMD \<noteq> HOLD_IDS_CMD" "take 1 HOLDS_CMD \<noteq> [''rmi'']"
    by (simp_all add: HOLDS_CMD_def HOLD_IDS_CMD_def DANGLING_CMD_def)
  have d: "os_run shelf_ids_os None (''podman'' # DANGLING_CMD) (g_world ?g) = (Inr (0, ?out), g_world ?g)"
    using c by (simp add: shelf_ids_run one_held_def)
  have h: "holds shelf_ids_os ?g = Some (Inr [(''a'', ''id1'')], ?g)"
    using c l(5) by (simp add: holds_def podman_def bindP.simps osP_run shelf_ids_run shelf_run_def one_held_def)
  have ids: "hold_image_ids shelf_ids_os ?g = Some (Inr [(''a'', ''id1'')], ?g)" by (rule one_held_ids [OF l(4)])
  have run: "\<exists>rep g'. prune_images shelf_ids_os DANGLING ?g = Some (Inr rep, g')"
  proof -
    have dd: "podman_or_die shelf_ids_os DANGLING_CMD ?g = Some (Inr ?out, ?g)"
      using d by (simp add: podman_or_die_def podman_def tryP.simps bindP.simps osP_run)
    show ?thesis
      by (simp add: prune_images_def bindP_step(1) [where m = "podman_or_die shelf_ids_os DANGLING_CMD", OF dd]
          bindP_step(1) [where m = "hold_image_ids shelf_ids_os", OF ids] bindP_step(1) [where m = "holds shelf_ids_os", OF h] l(1-3) [simplified])
         (simp add: Let_def podman_or_die_def podman_def tryP.simps bindP.simps osP_run shelf_ids_run HOLD_IDS_CMD_def DANGLING_CMD_def)
  qed
  then obtain rep g' where r: "prune_images shelf_ids_os DANGLING ?g = Some (Inr rep, g')" by blast
  have "''id1'' \<in> set (sh_images (g_world g')) \<and> (\<forall>p. (Inr rep :: exc + reclaim_report) = Inr p \<longrightarrow> distinct (rr_reclaimed p @ rr_failed p) \<and>
     set (rr_reclaimed p @ rr_failed p) = py_strip ` set (read_lines ?out) - {[]} - snd ` set [(''a'', ''id1'')] - snd ` set [(''a'', ''id1'')])"
    by (rule prune_images_spares_held [where P = "\<lambda>w. ''id1'' \<in> set (sh_images w)", OF d ids h _ _ r])
       (auto simp: shelf_ids_run shelf_run_def one_held_def HOLDS_CMD_def HOLD_IDS_CMD_def DANGLING_CMD_def split: if_splits)
  with r l(1-3) show ?thesis by auto
qed

theorem remove_refuses_held_witness:
  "\<exists>g'. remove_image shelf_ids_os \<lparr>im_source = \<lparr>oci_endpoint = None, oci_path = [], oci_name = ''web'', oci_version = None, oci_digest = None\<rparr>,
       im_id = sample_digest (CHR ''b''), im_layers = [], im_root = mk_path ''/s''\<rparr> False (one_held (replicate 64 (CHR ''b''))) = Some (Inl StateErrorC, g')"
proof -
  let ?i = "replicate 64 (CHR ''b'')"
  have "List.map_filter hold_id_line (read_lines (''a'' @ [TAB] @ ?i @ [LF])) = [(''a'', ?i)]" by code_simp
  moreover have "digest_from_podman_id ?i = Inr (sample_digest (CHR ''b''))" by code_simp
  ultimately show ?thesis
    using remove_refuses_held [OF one_held_ids, of ?i "''a''" ?i
        "\<lparr>im_source = \<lparr>oci_endpoint = None, oci_path = [], oci_name = ''web'', oci_version = None, oci_digest = None\<rparr>,
       im_id = sample_digest (CHR ''b''), im_layers = [], im_root = mk_path ''/s''\<rparr>"] by simp
qed

section \<open>Mounting an image\<close>

lemma path_str_nonempty: "wf_path p \<Longrightarrow> path_str p \<noteq> []"
  by (cases "p_parts p") (auto simp: path_str_def wf_path_def elim: py_join.elims)

lemma path_str_chars: "c \<in> set (path_str (mk_path s)) \<Longrightarrow> c \<in> set s \<or> c = CHR ''/'' \<or> c = CHR ''.''"
proof -
  assume c: "c \<in> set (path_str (mk_path s))"
  have "set (p_root (mk_path s)) \<subseteq> {CHR ''/''}" by (simp add: mk_path_def path_root_def Let_def)
  moreover have "c \<in> set (py_join ''/'' xs) \<Longrightarrow> (\<exists>x \<in> set xs. c \<in> set x) \<or> c = CHR ''/''" for xs
    by (induction "''/''" xs rule: py_join.induct) auto
  moreover have "\<And>x. x \<in> set (p_parts (mk_path s)) \<Longrightarrow> set x \<subseteq> set s" using mk_path_part by blast
  ultimately show ?thesis using c unfolding path_str_def by (auto split: if_splits)
qed

lemma overlay_root_cong: "map mk_path es = map mk_path fs \<Longrightarrow> overlay_root r es = overlay_root r fs"
proof (induction es arbitrary: fs r)
  case (Cons e es)
  then obtain f gs where "fs = f # gs" "mk_path e = mk_path f" "map mk_path es = map mk_path gs" by auto
  with Cons.IH [of gs] show ?case by (simp add: Let_def)
qed simp

lemma overlay_root_found:
  "\<forall>e \<in> set es. store_shaped (mk_path e) \<and> path_str (path_parent (path_parent (mk_path e))) = q \<Longrightarrow> r = None \<or> r = Some q \<Longrightarrow>
     \<exists>f ps. overlay_root r es = Some (f, ps)"
proof (induction es arbitrary: r)
  case (Cons e es)
  from Cons.IH [of "Some q"] Cons.prems obtain f ps where "overlay_root (Some q) es = Some (f, ps)" by auto
  with Cons.prems show ?case by (auto simp: Let_def store_shaped_def)
qed simp

text \<open>The lowerdir rendered from the layers of an image converts as the text they came from.\<close>

lemma rendered_lowerdir:
  assumes "to_overlay_lowerdir link lower = Inr (base, rel)" "decompose_layers link lower base = Inr (im_root im, im_layers im)"
  shows "to_overlay_lowerdir link (render_lowerdir im) = Inr (base, rel)"
proof -
  let ?es = "layer_entries lower" and ?up = "\<lambda>p. path_str (path_parent (path_parent p))"
  let ?ps = "map mk_path ?es"
  have es: "?es \<noteq> []" "\<forall>p \<in> set ?ps. store_shaped p" and rt: "base = [] \<Longrightarrow> length (remdups (map ?up ?ps)) = 1"
    and r: "base \<noteq> [] \<Longrightarrow> im_root im = mk_path base"
    and ls: "mapE (\<lambda>p. bindE (short_id link p) (\<lambda>s. Inr \<lparr>layer_id = path_name (path_parent p), short_link = s\<rparr>)) ?ps = Inr (im_layers im)"
    using assms(2) by (auto simp: decompose_layers_def Let_def list_all_iff comp_def split: if_splits)
  from assms(1) show ?thesis
  proof (cases rule: lowerdir_cases)
    case 1
    then have "length (remdups (map ?up ?ps)) = 1" using rt by simp
    then obtain q where "set (map ?up ?ps) = {q}" by (metis length_0_conv length_Suc_conv One_nat_def set_remdups list.set(1,2))
    then have "\<forall>e \<in> set ?es. store_shaped (mk_path e) \<and> ?up (mk_path e) = q" using es(2) by auto
    with overlay_root_found obtain f qs where o: "overlay_root None ?es = Some (f, qs)" by blast
    from overlay_root_Some [OF o] es(1) obtain root where "f = Some root" "\<forall>p \<in> set qs. ?up p = root" "qs = ?ps" by blast
    moreover from this es(1) have "root \<noteq> []" using path_str_nonempty by (cases ?es) auto
    ultimately have "base \<noteq> []" using assms(1) es(1) o by auto (auto simp: to_overlay_lowerdir_def)
    with 1 show ?thesis by simp
  next
    case (2 parts)
    have up: "\<And>p. p \<in> set ?ps \<Longrightarrow> path_name p = ''diff'' \<and> path_parent p \<noteq> path_parent (path_parent p) \<and> ?up p = base"
      using 2(4) by blast
    have ne: "base \<noteq> []"
    proof -
      obtain e where "e \<in> set ?es" using es(1) by (cases ?es) auto
      then have "base = ?up (mk_path e)" using up by simp
      then show ?thesis using path_str_nonempty [of "path_parent (path_parent (mk_path e))"] by simp
    qed
    have one: "path_div (path_div (im_root im) (path_name (path_parent p))) ''diff'' = p" if p: "p \<in> set ?ps" for p
    proof -
      have wf: "wf_path p" using p by auto
      from layer_shape [of p] up [OF p] obtain xs k where
        shape: "p = \<lparr>p_root = p_root p, p_parts = xs @ [k, ''diff'']\<rparr>" "path_name (path_parent p) = k"
          "path_parent (path_parent p) = \<lparr>p_root = p_root p, p_parts = xs\<rparr>" by blast
      have "im_root im = mk_path (?up p)" using r [OF ne] up [OF p] by simp
      also have "... = \<lparr>p_root = p_root p, p_parts = xs\<rparr>"
        using mk_path_str [of "path_parent (path_parent p)"] wf_path_parent [OF wf_path_parent [OF wf]] unfolding shape(3) by simp
      finally have root: "im_root im = \<lparr>p_root = p_root p, p_parts = xs\<rparr>" .
      have "k \<noteq> []" "k \<noteq> ''.''" "CHR ''/'' \<notin> set k"
        using wf by (subst (asm) shape(1), simp add: wf_path_def)+
      then have "path_div (path_div (im_root im) k) ''diff'' = \<lparr>p_root = p_root p, p_parts = xs @ [k, ''diff'']\<rparr>"
        using root by (simp add: path_div_plain)
      then show ?thesis using shape(1,2) by simp
    qed
    have ids: "map (\<lambda>l. path_str (path_div (path_div (im_root im) (layer_id l)) ''diff'')) (im_layers im) = map path_str ?ps"
    proof -
      have "list_all2 (\<lambda>p l. layer_id l = path_name (path_parent p)) ?ps (im_layers im)"
        using ls unfolding mapE_Inr_iff by (rule list_all2_mono) auto
      then have "map layer_id (im_layers im) = map (\<lambda>p. path_name (path_parent p)) ?ps"
        by (simp add: list_all2_conv_all_nth list_eq_iff_nth_eq)
      then have "map (\<lambda>i. path_str (path_div (path_div (im_root im) i) ''diff'')) (map layer_id (im_layers im)) =
          map (\<lambda>p. path_str (path_div (path_div (im_root im) (path_name (path_parent p))) ''diff'')) ?ps"
        by (simp only: map_map comp_def)
      then show ?thesis using one by (simp add: comp_def)
    qed
    have entries: "layer_entries (render_lowerdir im) = map path_str ?ps"
    proof -
      have colon: "CHR '':'' \<notin> set (path_str (mk_path e))" if "e \<in> set ?es" for e
        using that path_str_chars [of "CHR '':''" e] py_split_parts [of e "CHR '':''" lower] by (auto simp: layer_entries_def)
      have "py_split (CHR '':'') (py_join '':'' (map path_str ?ps)) = map path_str ?ps"
        using es(1) colon by (intro py_split_join) auto
      moreover have "filter (\<lambda>e. e \<noteq> []) (map path_str ?ps) = map path_str ?ps"
        using path_str_nonempty by (auto simp: filter_id_conv)
      ultimately show ?thesis unfolding layer_entries_def render_lowerdir_def ids by simp
    qed
    have same: "map mk_path (map path_str ?ps) = ?ps" by (simp add: mk_path_str comp_def)
    from overlay_root_cong [OF same, of None] have "overlay_root None (map path_str ?ps) = overlay_root None ?es" .
    moreover have "overlay_root None ?es \<noteq> None"
      using assms(1) ne es(1) by (cases "overlay_root None ?es") (auto simp: to_overlay_lowerdir_def)
    ultimately show ?thesis using assms(1) ne es(1) unfolding to_overlay_lowerdir_def entries
      by (auto split: option.splits)
  qed
qed

text \<open>
  An image mounts exactly as the layers podman names for its reference: for every image that
  resolves, mounting it does what mounting the text of those layers does, and with the same
  outcome.
\<close>
theorem image_mounts_its_layers:
  assumes "oci_resolve os source g = Some (Inr im, g')"
  shows "\<exists>lower g1. layers_of os (oci_render source) g = Some (Inr lower, g1) \<and>
    (\<forall>host_dir state_dir h. mount_image os im host_dir state_dir h = mount_rootfs os host_dir lower state_dir h)"
proof -
  from assms obtain lower g1 base rel r ls d where l: "layers_of os (oci_render source) g = Some (Inr lower, g1)"
    "to_overlay_lowerdir (os_link os) lower = Inr (base, rel)" "decompose_layers (os_link os) lower base = Inr (r, ls)"
    "im = \<lparr>im_source = source, im_id = d, im_layers = ls, im_root = r\<rparr>"
    by (auto simp: oci_resolve_def Let_def bindP_Some split: prod.splits)
  then have eq: "to_overlay_lowerdir (os_link os) (render_lowerdir im) = to_overlay_lowerdir (os_link os) lower"
    using rendered_lowerdir [of "os_link os" lower base rel im] by simp
  then have "mount_rootfs os host_dir (render_lowerdir im) state_dir = mount_rootfs os host_dir lower state_dir" for host_dir state_dir
    unfolding mount_rootfs_def eq by simp
  with l(1) show ?thesis by (auto simp: mount_image_def)
qed

text \<open>A podman that knows one image with two layers.\<close>

definition layered_os :: "unit os" where
  "layered_os = \<lparr>os_run = (\<lambda>_ argv w. (Inr (0, if argv ! 2 = ''inspect'' then
       (if last argv = ''{{.GraphDriver.Data.UpperDir}}'' then ''/s/a/diff'' @ [LF]
        else if last argv = ''{{.GraphDriver.Data.LowerDir}}'' then ''/s/b/diff'' @ [LF]
        else replicate 64 (CHR ''c'') @ [LF]) else []), w)),
     os_spawn = (\<lambda>_ w. (Inr 1, w)), os_alive = (\<lambda>_ _. False), os_exited = (\<lambda>_ _. True),
     os_kill = (\<lambda>_ _ w. (Inl ProcessLookupErrorC, w)), os_wait = (\<lambda>_ _ w. (Inr (), w)), os_now = (\<lambda>_. 0), os_sleep = (\<lambda>_ w. w),
     os_sock = (\<lambda>_ _. False), os_unlink_sock = (\<lambda>_ w. w), os_which = (\<lambda>_. None), os_is_file = (\<lambda>_ _. False),
     os_link = (\<lambda>p. if p = ''/s/a/link'' then Inr ''AA'' else Inl FileNotFoundErrorC)\<rparr>"

theorem image_mounts_its_layers_witness:
  "\<exists>im g'. oci_resolve layered_os \<lparr>oci_endpoint = None, oci_path = [], oci_name = ''web'', oci_version = None, oci_digest = None\<rparr>
       \<lparr>g_files = Map.empty, g_world = ()\<rparr> = Some (Inr im, g') \<and>
     mount_image layered_os im (mk_path ''/v'') (mk_path ''/v'') g' = mount_rootfs layered_os (mk_path ''/v'') ''/s/a/diff:/s/b/diff'' (mk_path ''/v'') g'"
proof -
  let ?src = "\<lparr>oci_endpoint = None, oci_path = [], oci_name = ''web'', oci_version = None, oci_digest = None\<rparr>"
  let ?g = "\<lparr>g_files = Map.empty, g_world = ()\<rparr>"
  have r: "oci_render ?src = ''web''" "py_strip (replicate 64 (CHR ''c'') @ [LF]) = replicate 64 (CHR ''c'')"
    "resolve_layers True (Some (''/s/a/diff'' @ [LF])) (Some (''/s/b/diff'' @ [LF])) = Inr ''/s/a/diff:/s/b/diff''"
    "digest_from_podman_id (replicate 64 (CHR ''c'')) = Inr (sample_digest (CHR ''c''))"
    "replicate 64 (CHR ''c'') \<noteq> []" by code_simp+
  have "to_overlay_lowerdir (os_link layered_os) ''/s/a/diff:/s/b/diff'' = Inr (''/s'', ''l/AA:b/diff'')"
    "decompose_layers (os_link layered_os) ''/s/a/diff:/s/b/diff'' ''/s'' =
       Inr (mk_path ''/s'', [\<lparr>layer_id = ''a'', short_link = ''AA''\<rparr>, \<lparr>layer_id = ''b'', short_link = []\<rparr>])"
    unfolding layered_os_def by code_simp+
  moreover have l: "layers_of layered_os ''web'' ?g = Some (Inr ''/s/a/diff:/s/b/diff'', ?g)"
    using r(3) by (simp add: layers_of_def checked_def podman_def bindP.simps osP_run layered_os_def)
  moreover have "resolve_image_id layered_os ''web'' ?g = Some (Inr (replicate 64 (CHR ''c'')), ?g)"
    using r(2) by (simp add: resolve_image_id_def podman_def exceptP_def tryP.simps bindP.simps osP_run layered_os_def)
  then have "resolve_id layered_os ''web'' ?g = Some (Inr (sample_digest (CHR ''c'')), ?g)"
    using r(4,5) by (simp add: resolve_id_def bindP_step)
  ultimately have "\<exists>im. oci_resolve layered_os ?src ?g = Some (Inr im, ?g)"
    by (simp add: oci_resolve_def Let_def r(1) bindP_step)
  then obtain im where im: "oci_resolve layered_os ?src ?g = Some (Inr im, ?g)" by blast
  with image_mounts_its_layers [OF im] l show ?thesis unfolding r(1) by auto
qed

section \<open>Looking a record up\<close>

definition valid_digest :: "digest \<Rightarrow> bool" where
  "valid_digest d \<longleftrightarrow> parse_digest (render_digest d) = Inr d"

lemma podman_id_valid: "digest_from_podman_id raw = Inr d \<Longrightarrow> valid_digest d"
proof (cases "CHR '':'' \<in> set raw")
  case True
  assume "digest_from_podman_id raw = Inr d"
  with True have "parse_digest raw = Inr d" by (auto simp: digest_from_podman_id_def ref_exc_def split: sum.splits ref_exn.splits)
  with digest_reparse [OF this] show ?thesis by (simp add: valid_digest_def)
next
  case False
  assume "digest_from_podman_id raw = Inr d"
  with False have v: "validate_digest ''sha256'' raw = Inr ()" "d = \<lparr>algorithm = ''sha256'', encoded = raw\<rparr>"
    by (auto simp: digest_from_podman_id_def ref_exc_def split: sum.splits ref_exn.splits)
  have "py_partition (CHR '':'') (''sha256'' @ CHR '':'' # raw) = (''sha256'', True, raw)" by (rule py_partition_at) simp
  with v show ?thesis by (simp add: valid_digest_def render_digest_def parse_digest_def)
qed

lemma legacy_valid: "parse_legacy_pinned img = Inr (PinId d) \<Longrightarrow> valid_digest d"
  by (auto simp: parse_legacy_pinned_def podman_id_valid split: if_splits)

lemma when_local_valid: "when_local os ref f g = Some (Inr ms, g') \<Longrightarrow> (\<And>d. mark_id (f d) = d) \<Longrightarrow> \<forall>m \<in> set ms. valid_digest (mark_id m)"
  by (auto simp: when_local_def tryP_Some bindP_Some resolve_id_def podman_id_valid split: if_splits)

lemma guest_markers_valid: "guest_markers os rs g = Some (Inr ms, g') \<Longrightarrow> \<forall>m \<in> set ms. valid_digest (mark_id m)"
proof (induction os rs arbitrary: g ms rule: guest_markers.induct)
  case (2 os img ns rs)
  from 2(2) obtain p g1 m g2 ms' where p: "parse_legacy_pinned img = Inr p" "ms = m @ ms'" "guest_markers os rs g2 = Some (Inr ms', g')"
    "(case p of PinId d \<Rightarrow> give [GuestMark d None ns] | PinRef r \<Rightarrow> when_local os img (\<lambda>d. GuestMark d (Some r) ns)) g1 = Some (Inr m, g2)"
    by (auto simp: bindP_Some)
  have "\<forall>x \<in> set m. valid_digest (mark_id x)"
    using p(1,4) legacy_valid when_local_valid [of os img _ g1 m g2] by (cases p) fastforce+
  with 2(1) [OF p(3)] p show ?case by (auto split: pin.splits)
qed simp

lemma typed_holds_valid: "typed_holds ids hs = Inr ths \<Longrightarrow> \<forall>h \<in> set ths. \<forall>d. ho_pinned h = PinId d \<longrightarrow> valid_digest d"
  by (induction ids hs arbitrary: ths rule: typed_holds.induct)
     (auto simp: Let_def podman_id_valid legacy_valid split: if_splits)

lemma hold_markers_valid:
  "hold_markers os hs g = Some (Inr ms, g') \<Longrightarrow> \<forall>h \<in> set hs. \<forall>d. ho_pinned h = PinId d \<longrightarrow> valid_digest d \<Longrightarrow>
     \<forall>m \<in> set ms. valid_digest (mark_id m)"
proof (induction os hs arbitrary: g ms rule: hold_markers.induct)
  case (2 os h hs)
  from 2(2) obtain g1 m ms' where p: "ms = m @ ms'" "hold_markers os hs g1 = Some (Inr ms', g')"
    "(case ho_pinned h of PinId d \<Rightarrow> give [HoldMark d h] | PinRef r \<Rightarrow> when_local os (oci_render r) (\<lambda>d. HoldMark d h)) g = Some (Inr m, g1)"
    by (auto simp: bindP_Some)
  have "\<forall>x \<in> set m. valid_digest (mark_id x)"
  proof (cases "ho_pinned h")
    case (PinId d)
    with p(3) 2(3) show ?thesis by auto
  next
    case (PinRef r)
    with p(3) when_local_valid [of os "oci_render r" "\<lambda>d. HoldMark d h" g m g1] show ?thesis by simp
  qed
  with 2(1) [OF p(2)] 2(3) p(1) show ?case by auto
qed simp

lemma listed_valid:
  assumes "list_records os st g = Some (Inr rs, g')"
  shows "\<forall>r \<in> set rs. valid_digest (ir_id r)" "sorted_wrt (<) (map (\<lambda>r. render_digest (ir_id r)) rs)"
proof -
  from assms obtain gs g1 hs g2 ms where m: "guest_markers os (guest_image_refs st) g = Some (Inr gs, g1)"
    "list_holds os g1 = Some (Inr hs, g2)" "hold_markers os hs g2 = Some (Inr ms, g')" "rs = group_records (gs @ ms)"
    by (auto simp: list_records_def bindP_Some)
  have "\<forall>h \<in> set hs. \<forall>d. ho_pinned h = PinId d \<longrightarrow> valid_digest d"
    using m(2) typed_holds_valid by (fastforce simp: list_holds_def bindP_Some)
  with hold_markers_valid [OF m(3)] guest_markers_valid [OF m(1)] have v: "\<forall>x \<in> set (gs @ ms). valid_digest (mark_id x)" by auto
  have "valid_digest (ir_id r)" if "r \<in> set rs" for r
    using v group_ids [of r "gs @ ms"] that m(4) by force
  then show "\<forall>r \<in> set rs. valid_digest (ir_id r)" by blast
  show "sorted_wrt (<) (map (\<lambda>r. render_digest (ir_id r)) rs)" unfolding m(4) by (rule group_keys(1))
qed

text \<open>
  C3. The listing and the lookup agree: on a store and a podman that do not change, every listed
  record is found by the text of its content id, and as the very record.
\<close>
theorem listed_records_are_found:
  assumes "list_records os st g = Some (Inr rs, g')" "r \<in> set rs"
  shows "get_record os st (ArgStr (render_digest (ir_id r))) g = Some (Inr r, g') \<and>
    get_record os st (ArgDigest (ir_id r)) g = Some (Inr r, g') \<and> record_for_id os st (ir_id r) g = Some (Inr r, g')"
proof -
  let ?s = "render_digest (ir_id r)"
  have v: "parse_digest ?s = Inr (ir_id r)" "CHR '':'' \<in> set ?s"
    using listed_valid(1) [OF assms(1)] assms(2) by (auto simp: valid_digest_def render_digest_def)
  have "\<not> anchored (rx_match BARE_SHA256) ?s"
  proof
    assume "anchored (rx_match BARE_SHA256) ?s"
    from anchored_chars [OF this v(2)] show False
      by (simp add: BARE_SHA256_def rx_chars_Times is_lower_hex_def is_digit_def cp_def)
  qed
  then have c: "coerce_to_id os (ArgStr ?s) g = Some (Inr (ir_id r), g)"
    using v by (simp add: ref_exc_def Let_def)
  have inj: "x = y" if "x \<in> set rs" "y \<in> set rs" "render_digest (ir_id x) = render_digest (ir_id y)" for x y
    using listed_valid(2) [OF assms(1)] that by (auto simp: strict_sorted_iff distinct_map inj_on_def)
  have f: "record_of (ir_id r) rs = Some r"
  proof -
    obtain y where "record_of (ir_id r) rs = Some y"
      using assms(2) unfolding record_of_def by (metis (mono_tags, lifting) find_None_iff2 not_None_eq)
    moreover from this have "y \<in> set rs" "render_digest (ir_id y) = ?s"
      unfolding record_of_def by (metis (mono_tags, lifting) find_Some_iff nth_mem)+
    ultimately show ?thesis using inj assms(2) by blast
  qed
  have "bindP (list_records os st) k g = k rs g'" for k :: "image_record list \<Rightarrow> (image_record, 'a guest) prog"
    by (rule bindP_step(1) [where m = "list_records os st", OF assms(1)])
  then show ?thesis using f
    by (simp add: get_record_def record_for_id_def bindP_step(1) [where m = "coerce_to_id os (ArgStr ?s)", OF c] del: coerce_to_id.simps(3))
qed

theorem listed_records_are_found_witness:
  "\<exists>r. get_record layered_os \<lparr>lxc_base = Some [(''a'', EDir [''kento-image'' \<mapsto> replicate 64 (CHR ''c'')])], vm_base = None\<rparr>
      (ArgStr (render_digest (sample_digest (CHR ''c'')))) \<lparr>g_files = Map.empty, g_world = ()\<rparr> = Some (Inr r, \<lparr>g_files = Map.empty, g_world = ()\<rparr>) \<and>
     ir_guests r = [''a'']"
proof -
  let ?c = "replicate 64 (CHR ''c'')" and ?d = "sample_digest (CHR ''c'')" and ?g = "\<lparr>g_files = Map.empty, g_world = ()\<rparr>"
  let ?st = "\<lparr>lxc_base = Some [(''a'', EDir [''kento-image'' \<mapsto> ?c])], vm_base = None\<rparr>"
  let ?r = "\<lparr>ir_id = ?d, ir_refs = [], ir_guests = [''a''], ir_holds = []\<rparr>"
  have f: "file_text ?c = ?c" "parse_legacy_pinned ?c = Inr (PinId ?d)" "?c \<noteq> []" "read_lines [] = []" by code_simp+
  have refs: "guest_image_refs ?st = [(?c, [''a''])]"
    using f(1,3) by (simp add: guest_image_refs_def store_guests_def entries_of_def recorded_name_def firsts_def)
  have gm: "guest_markers layered_os [(?c, [''a''])] ?g = Some (Inr [GuestMark ?d None [''a'']], ?g)"
    using f(2) by simp
  have q: "hold_image_ids layered_os ?g = Some (Inr [], ?g)" "holds layered_os ?g = Some (Inr [], ?g)"
    using f(4) by (simp_all add: hold_image_ids_def holds_def podman_def bindP.simps osP_run layered_os_def HOLDS_CMD_def HOLD_IDS_CMD_def List.map_filter_simps)
  have lh: "list_holds layered_os ?g = Some (Inr [], ?g)"
    by (simp add: list_holds_def bindP_step(1) [where m = "hold_image_ids layered_os", OF q(1)] bindP_step(1) [where m = "holds layered_os", OF q(2)])
  have l: "list_records layered_os ?st ?g = Some (Inr [?r], ?g)"
    by (simp add: list_records_def refs bindP_step(1) [where m = "guest_markers layered_os [(?c, [''a''])]", OF gm]
        bindP_step(1) [where m = "list_holds layered_os", OF lh] group_records_def bucket_record_def empty_bucket_def del: guest_markers.simps)
  have "?r \<in> set [?r]" by simp
  from listed_records_are_found [OF l this] show ?thesis by (intro exI [of _ ?r]) simp
qed

end
