(* ===== verification/Cloudinit.thy ===== *)
theory Cloudinit imports Create "HOL-Library.Multiset" begin

text \<open>
  \<^verbatim>\<open>cloudinit.py\<close>: the detection of cloud-init in the layers of an image, the documents of a
  NoCloud seed, the canonical JSON text whose hash is the instance id, and the seed directory.
  SHA-256 is an argument (the hexadecimal digest of a text), as is the existence of a path.
\<close>

section \<open>Detection\<close>

definition CLOUD_MARKERS :: "string list" where
  "CLOUD_MARKERS = [''usr/bin/cloud-init'', ''usr/sbin/cloud-init'', ''etc/cloud/cloud.cfg'',
     ''lib/systemd/system/cloud-init.service'', ''usr/lib/systemd/system/cloud-init.service'']"

fun any_exists :: "(string \<Rightarrow> exc + bool) \<Rightarrow> string list \<Rightarrow> exc + bool" where
  "any_exists exists [] = Inr False"
| "any_exists exists (p # ps) = bindE (exists p) (\<lambda>b. if b then Inr True else any_exists exists ps)"

definition detect_cloudinit :: "(string \<Rightarrow> exc + bool) \<Rightarrow> string \<Rightarrow> exc + bool" where
  "detect_cloudinit exists layers =
     any_exists exists (concat (map (\<lambda>l. map (\<lambda>m. path_str (path_div (mk_path l) m)) CLOUD_MARKERS) (py_split (CHR '':'') layers)))"

section \<open>The documents\<close>

text \<open>What a seed is made from; the host keys are those of an existing directory.\<close>

record seed_request =
  sr_name :: string
  sr_ip :: "string option"
  sr_gateway :: "string option"
  sr_dns :: "string option"
  sr_searchdomain :: "string option"
  sr_timezone :: "string option"
  sr_env :: "string list option"
  sr_keys :: "string option"
  sr_key_user :: string
  sr_host_keys :: "files option"

definition generate_meta_data :: "string \<Rightarrow> string \<Rightarrow> string" where
  "generate_meta_data name iid = ''instance-id: '' @ iid @ [LF] @ ''local-hostname: '' @ name @ [LF]"

definition key_lines :: "string option \<Rightarrow> string list" where
  "key_lines keys = (if truthy keys then
     filter (\<lambda>k. k \<noteq> [] \<and> hd k \<noteq> CHR ''#'') (map py_strip (py_splitlines (py_strip (the keys)))) else [])"

definition authorized_section :: "string list \<Rightarrow> string \<Rightarrow> string list" where
  "authorized_section keys user =
     (if keys = [] then []
      else if user = ''root'' then ''ssh_authorized_keys:'' # map (\<lambda>k. ''  - '' @ k) keys
      else [''users:'', ''  - name: '' @ user, ''    ssh_authorized_keys:''] @ map (\<lambda>k. ''      - '' @ k) keys)"

definition ssh_keys_section :: "files \<Rightarrow> string list" where
  "ssh_keys_section fs = concat (map (\<lambda>t.
     (case fs (''ssh_host_'' @ t @ ''_key'') of None \<Rightarrow> []
      | Some s \<Rightarrow> (''  '' @ t @ ''_private: |'') # map (\<lambda>l. ''    '' @ l) (py_splitlines (univ_newlines s))) @
     (case fs (''ssh_host_'' @ t @ ''_key.pub'') of None \<Rightarrow> []
      | Some s \<Rightarrow> [''  '' @ t @ ''_public: '' @ file_text s])) [''rsa'', ''ecdsa'', ''ed25519''])"

definition generate_user_data :: "seed_request \<Rightarrow> string" where
  "generate_user_data r = py_join [LF]
     ([''#cloud-config''] @
      (if truthy (sr_timezone r) then [''timezone: '' @ the (sr_timezone r)] else []) @
      authorized_section (key_lines (sr_keys r)) (sr_key_user r) @
      (case sr_host_keys r of None \<Rightarrow> []
       | Some fs \<Rightarrow> (let ls = ssh_keys_section fs in if ls \<noteq> [] then ''ssh_keys:'' # ls else [])) @
      (case sr_env r of None \<Rightarrow> []
       | Some es \<Rightarrow> (if es = [] then [] else [''write_files:'', ''  - path: /etc/environment'', ''    content: |''] @ map (\<lambda>e. ''      '' @ e) es)) @
      [[]])"

definition generate_network_config :: "string option \<Rightarrow> string option \<Rightarrow> string option \<Rightarrow> string option \<Rightarrow> string option" where
  "generate_network_config ip gateway dns searchdomain =
     (if \<not> truthy ip \<and> \<not> truthy dns \<and> \<not> truthy searchdomain then None
      else Some (py_join [LF]
        ([''network:'', ''  version: 2'', ''  ethernets:'', ''    all:'', ''      match:'',
          ''        name: '' @ [CHR 34] @ ''*'' @ [CHR 34]] @
         (if truthy ip then [''      addresses:'', ''        - '' @ the ip] @
            (if truthy gateway then [''      routes:'', ''        - to: default'', ''          via: '' @ the gateway] else [])
          else [''      dhcp4: true'']) @
         (if truthy dns \<or> truthy searchdomain then [''      nameservers:''] @
            (if truthy dns then [''        addresses:'', ''          - '' @ the dns] else []) @
            (if truthy searchdomain then [''        search:'', ''          - '' @ the searchdomain] else []) else []) @
         [[]])))"

section \<open>The instance id\<close>

text \<open>The JSON texts of \<^verbatim>\<open>json.dumps\<close> with its default escapes.\<close>

definition hex_char :: "nat \<Rightarrow> char" where
  "hex_char n = char_of (if n < 10 then 48 + n else 87 + n)"

definition json_char :: "char \<Rightarrow> string" where
  "json_char c =
     (if c = CHR 34 then [CHR 92, CHR 34] else if c = CHR 92 then [CHR 92, CHR 92]
      else if c = LF then [CHR 92, CHR ''n''] else if c = CR then [CHR 92, CHR ''r'']
      else if c = TAB then [CHR 92, CHR ''t''] else if c = CHR 8 then [CHR 92, CHR ''b'']
      else if c = CHR 12 then [CHR 92, CHR ''f'']
      else if 32 \<le> cp c \<and> cp c \<le> 126 then [c]
      else [CHR 92, CHR ''u'', CHR ''0'', CHR ''0'', hex_char (cp c div 16), hex_char (cp c mod 16)])"

definition json_str :: "string \<Rightarrow> string" where
  "json_str s = [CHR 34] @ concat (map json_char s) @ [CHR 34]"

definition json_opt :: "string option \<Rightarrow> string" where
  "json_opt v = (case v of None \<Rightarrow> ''null'' | Some s \<Rightarrow> json_str s)"

definition json_bool :: "bool \<Rightarrow> string" where "json_bool b = (if b then ''true'' else ''false'')"

definition json_list :: "string list \<Rightarrow> string" where
  "json_list xs = ''['' @ py_join '','' (map json_str xs) @ '']''"

definition json_field :: "string \<Rightarrow> string \<Rightarrow> string" where
  "json_field k v = json_str k @ '':'' @ v"

definition canonical :: "seed_request \<Rightarrow> string" where
  "canonical r = ''{'' @ py_join '',''
     [json_field ''dns'' (json_opt (sr_dns r)),
      json_field ''env'' (case sr_env r of None \<Rightarrow> ''null'' | Some es \<Rightarrow> if es = [] then ''null'' else json_list (sort es)),
      json_field ''gateway'' (json_opt (sr_gateway r)),
      json_field ''has_ssh_host_keys'' (json_bool (sr_host_keys r \<noteq> None)),
      json_field ''has_ssh_keys'' (json_bool (truthy (sr_keys r))),
      json_field ''ip'' (json_opt (sr_ip r)),
      json_field ''name'' (json_str (sr_name r)),
      json_field ''searchdomain'' (json_opt (sr_searchdomain r)),
      json_field ''ssh_key_user'' (json_str (sr_key_user r)),
      json_field ''timezone'' (json_opt (sr_timezone r))] @ ''}''"

definition compute_instance_id :: "(string \<Rightarrow> string) \<Rightarrow> seed_request \<Rightarrow> string" where
  "compute_instance_id sha256 r = ''kento-'' @ take 16 (sha256 (canonical r))"

section \<open>The seed\<close>

definition write_seed :: "(string \<Rightarrow> string) \<Rightarrow> seed_request \<Rightarrow> files \<Rightarrow> files" where
  "write_seed sha256 r seed =
     (let seed1 = seed(''meta-data'' \<mapsto> generate_meta_data (sr_name r) (compute_instance_id sha256 r),
                       ''user-data'' \<mapsto> generate_user_data r)
      in seed1(''network-config'' := generate_network_config (sr_ip r) (sr_gateway r) (sr_dns r) (sr_searchdomain r)))"

section \<open>What the instance id tells apart\<close>

lemma json_char_head: "json_char c \<noteq> [] \<and> hd (json_char c) \<noteq> CHR 34"
  by (auto simp: json_char_def)

lemma hex_char_inj: "m < 16 \<Longrightarrow> n < 16 \<Longrightarrow> hex_char m = hex_char n \<Longrightarrow> m = n"
proof -
  assume mn: "m < 16" "n < 16" and eq: "hex_char m = hex_char n"
  have b: "(if k < 10 then 48 + k else 87 + k) < 256" if "k < 16" for k :: nat using that by simp
  from arg_cong [OF eq, of "of_char :: char \<Rightarrow> nat"] have
    "(if m < 10 then 48 + m else 87 + m) = (if n < 10 then 48 + n else 87 + n)"
    using b [OF mn(1)] b [OF mn(2)] by (simp only: hex_char_def of_char_of) (simp add: take_bit_nat_def)
  then show "m = n" using mn by (simp split: if_splits)
qed

lemma json_char_cancel:
  assumes "json_char c @ x = json_char d @ y"
  shows "c = d \<and> x = y"
proof -
  have "(of_char k :: nat) mod 256 < 256" for k by (rule mod_less_divisor) simp
  then have "cp k < 256" for k unfolding cp_def of_char_mod_256 .
  then have h: "cp k div 16 < 16" "cp k mod 16 < 16" for k by (simp_all add: less_mult_imp_div_less)
  have "cp c div 16 = cp d div 16 \<Longrightarrow> cp c mod 16 = cp d mod 16 \<Longrightarrow> cp c = cp d"
    using div_mult_mod_eq [of "cp c" 16] div_mult_mod_eq [of "cp d" 16] by metis
  then have "hex_char (cp c div 16) = hex_char (cp d div 16) \<Longrightarrow> hex_char (cp c mod 16) = hex_char (cp d mod 16) \<Longrightarrow> c = d"
    using hex_char_inj h by (metis cp_inj)
  then show ?thesis using assms unfolding json_char_def by (auto split: if_splits)
qed

lemma json_chars_cancel:
  "concat (map json_char s) @ CHR 34 # x = concat (map json_char t) @ CHR 34 # y \<Longrightarrow> s = t \<and> x = y"
proof (induction s arbitrary: t)
  case Nil
  then show ?case using json_char_head by (cases t) (auto, metis append_is_Nil_conv hd_append2 list.sel(1))
next
  case (Cons c s)
  show ?case
  proof (cases t)
    case Nil
    with Cons.prems json_char_head [of c] show ?thesis by (cases "json_char c") auto
  next
    case (Cons d u)
    from Cons.prems [unfolded Cons] have "json_char c @ (concat (map json_char s) @ CHR 34 # x) = json_char d @ (concat (map json_char u) @ CHR 34 # y)" by simp
    from json_char_cancel [OF this] Cons.IH [of u] show ?thesis by (simp add: Cons)
  qed
qed

lemma json_str_cancel: "json_str s @ x = json_str t @ y \<longleftrightarrow> s = t \<and> x = y"
  using json_chars_cancel [of s x t y] by (auto simp: json_str_def)

lemma json_opt_cancel: "json_opt v @ x = json_opt w @ y \<longleftrightarrow> v = w \<and> x = y"
  using json_str_cancel [of _ x _ y] by (auto simp: json_opt_def json_str_def split: option.splits)

lemma json_bool_cancel: "json_bool v @ x = json_bool w @ y \<longleftrightarrow> v = w \<and> x = y"
  by (auto simp: json_bool_def)

lemma json_elems_cancel:
  "py_join '','' (map json_str xs) @ '']'' @ x = py_join '','' (map json_str ys) @ '']'' @ y \<longleftrightarrow> xs = ys \<and> x = y"
proof (induction xs arbitrary: ys)
  case Nil
  then show ?case by (cases ys; cases "tl ys") (auto simp: json_str_def)
next
  case (Cons a xs)
  show ?case
  proof (cases ys)
    case Nil
    then show ?thesis by (cases xs) (auto simp: json_str_def)
  next
    case (Cons b zs)
    have split: "py_join '','' (map json_str (c # cs)) @ '']'' @ z =
        json_str c @ (if cs = [] then '']'' @ z else CHR '','' # py_join '','' (map json_str cs) @ '']'' @ z)" for c cs z
      by (cases cs) auto
    show ?thesis unfolding Cons split json_str_cancel using Cons.IH [of zs] by (auto simp: Cons)
  qed
qed

lemma json_list_cancel: "json_list xs @ x = json_list ys @ y \<longleftrightarrow> xs = ys \<and> x = y"
  using json_elems_cancel [of xs x ys y] by (simp add: json_list_def)

lemma json_field_cancel: "json_field k v @ x = json_field k w @ y \<longleftrightarrow> v @ x = w @ y"
  by (simp add: json_field_def)

definition env_text :: "string list option \<Rightarrow> string" where
  "env_text e = (case e of None \<Rightarrow> ''null'' | Some es \<Rightarrow> if es = [] then ''null'' else json_list (sort es))"

lemma env_cancel: "env_text e @ x = env_text f @ y \<longleftrightarrow>
    mset (case e of None \<Rightarrow> [] | Some es \<Rightarrow> es) = mset (case f of None \<Rightarrow> [] | Some es \<Rightarrow> es) \<and> x = y"
proof -
  have "sort es = sort fs \<longleftrightarrow> mset es = mset fs" for es fs :: "string list"
    by (metis mset_sort properties_for_sort sorted_sort)
  moreover have "sort es = [] \<longleftrightarrow> es = []" for es :: "string list" by (metis set_empty set_sort)
  moreover have "json_list es @ u \<noteq> ''null'' @ v" for es u v by (simp add: json_list_def)
  ultimately show ?thesis
    using json_list_cancel by (auto simp: env_text_def split: option.splits) metis+
qed

text \<open>
  The text that is hashed into the instance id tells configurations apart: it is the same for
  two requests exactly when they agree on the name, the addresses, the time zone, the user of the
  keys, the environment up to the order of its entries, and on whether there are keys and host
  keys, whatever characters the values hold.
\<close>
theorem instance_config_faithful:
  "canonical r = canonical q \<longleftrightarrow>
     sr_name r = sr_name q \<and> sr_ip r = sr_ip q \<and> sr_gateway r = sr_gateway q \<and> sr_dns r = sr_dns q \<and>
     sr_searchdomain r = sr_searchdomain q \<and> sr_timezone r = sr_timezone q \<and> sr_key_user r = sr_key_user q \<and>
     mset (case sr_env r of None \<Rightarrow> [] | Some es \<Rightarrow> es) = mset (case sr_env q of None \<Rightarrow> [] | Some es \<Rightarrow> es) \<and>
     truthy (sr_keys r) = truthy (sr_keys q) \<and> (sr_host_keys r = None \<longleftrightarrow> sr_host_keys q = None)"
proof -
  have timezone: "json_opt v @ ''}'' = json_opt w @ ''}'' \<longleftrightarrow> v = w" for v w using json_opt_cancel [of v "''}''" w "''}''"] by simp
  have "canonical r = canonical q \<longleftrightarrow>
     sr_dns r = sr_dns q \<and>
     mset (case sr_env r of None \<Rightarrow> [] | Some es \<Rightarrow> es) = mset (case sr_env q of None \<Rightarrow> [] | Some es \<Rightarrow> es) \<and>
     sr_gateway r = sr_gateway q \<and> (sr_host_keys r \<noteq> None \<longleftrightarrow> sr_host_keys q \<noteq> None) \<and>
     truthy (sr_keys r) = truthy (sr_keys q) \<and> sr_ip r = sr_ip q \<and> sr_name r = sr_name q \<and>
     sr_searchdomain r = sr_searchdomain q \<and> sr_key_user r = sr_key_user q \<and> sr_timezone r = sr_timezone q"
    unfolding canonical_def env_text_def [symmetric]
    by (simp only: py_join.simps append_assoc same_append_eq json_field_cancel json_opt_cancel env_cancel
        json_bool_cancel json_str_cancel timezone simp_thms)
  then show ?thesis by auto
qed

lemma key_lines_breaks: "k \<in> set (key_lines ks) \<Longrightarrow> no_breaks k"
proof -
  have strip: "c \<in> set (py_strip l) \<Longrightarrow> c \<in> set l" for c l
    by (auto simp: py_strip_def py_lstrip_def py_rstrip_def dest!: set_dropWhileD)
  then show "k \<in> set (key_lines ks) \<Longrightarrow> no_breaks k"
    by (auto simp: key_lines_def no_breaks_def split: if_splits dest!: splitlines_no_breaks dest: strip)
qed

lemma prefixed_lines:
  assumes "no_breaks p" "set xs \<subseteq> Collect no_breaks" "set ys \<subseteq> Collect no_breaks"
    "unlines (map ((@) p) xs) = unlines (map ((@) p) ys)"
  shows "xs = ys"
proof -
  have "py_splitlines (unlines (map ((@) p) zs)) = map ((@) p) zs" if "set zs \<subseteq> Collect no_breaks" for zs
    by (rule splitlines_unlines) (use that assms(1) in auto)
  then have "map ((@) p) xs = map ((@) p) ys" using assms(2-4) by metis
  then show ?thesis by (rule map_injective) (simp add: inj_def)
qed

lemma authorized_inj:
  assumes "xs \<noteq> []" "ys \<noteq> []" "set xs \<subseteq> Collect no_breaks" "set ys \<subseteq> Collect no_breaks"
    "unlines (authorized_section xs u) = unlines (authorized_section ys u)"
  shows "xs = ys"
proof (cases "u = ''root''")
  case True
  have "no_breaks ''  - ''" by code_simp
  from prefixed_lines [OF this assms(3,4)] True assms show ?thesis by (simp add: authorized_section_def)
next
  case False
  have "no_breaks ''      - ''" by code_simp
  from prefixed_lines [OF this assms(3,4)] False assms show ?thesis by (simp add: authorized_section_def)
qed

text \<open>
  The contents of the SSH keys are not part of it: two requests that differ in their keys only,
  both with some, get the same instance id and so the same meta-data, whatever the hash, although
  their user-data differ when their lists of keys do, so that cloud-init does not run again for them.
\<close>
theorem instance_id_ignores_keys:
  assumes "k1 \<noteq> []" "k2 \<noteq> []" "key_lines (Some k1) \<noteq> []" "key_lines (Some k2) \<noteq> []" "key_lines (Some k1) \<noteq> key_lines (Some k2)"
  shows "write_seed sha256 (r\<lparr>sr_keys := Some k1\<rparr>) seed ''meta-data'' = write_seed sha256 (r\<lparr>sr_keys := Some k2\<rparr>) seed ''meta-data'' \<and>
    write_seed sha256 (r\<lparr>sr_keys := Some k1\<rparr>) seed ''user-data'' \<noteq> write_seed sha256 (r\<lparr>sr_keys := Some k2\<rparr>) seed ''user-data''"
proof -
  let ?r = "\<lambda>k. r\<lparr>sr_keys := Some k\<rparr>"
  let ?p = "[''#cloud-config''] @ (if truthy (sr_timezone r) then [''timezone: '' @ the (sr_timezone r)] else [])"
  let ?s = "(case sr_host_keys r of None \<Rightarrow> []
       | Some fs \<Rightarrow> (let ls = ssh_keys_section fs in if ls \<noteq> [] then ''ssh_keys:'' # ls else [])) @
      (case sr_env r of None \<Rightarrow> []
       | Some es \<Rightarrow> (if es = [] then [] else [''write_files:'', ''  - path: /etc/environment'', ''    content: |''] @ map (\<lambda>e. ''      '' @ e) es))"
  have all: "generate_user_data (?r k) = py_join [LF] ((?p @ authorized_section (key_lines (Some k)) (sr_key_user r) @ ?s) @ [[]])" for k
    by (simp add: generate_user_data_def)
  have open_end: "py_join [LF] (ls @ [[]]) = unlines ls" for ls by (simp add: join_unlines)
  have doc: "generate_user_data (?r k) = unlines ?p @ unlines (authorized_section (key_lines (Some k)) (sr_key_user r)) @ unlines ?s" for k
    by (simp only: all open_end) (simp only: unlines_append append_assoc)
  have "generate_user_data (?r k1) \<noteq> generate_user_data (?r k2)"
    using authorized_inj [OF assms(3,4), of "sr_key_user r"] assms(5) key_lines_breaks
    by (auto simp only: doc same_append_eq append_same_eq)
  moreover have "canonical (?r k1) = canonical (?r k2)" using assms(1,2) by (simp add: instance_config_faithful)
  ultimately show ?thesis by (simp add: write_seed_def Let_def compute_instance_id_def)
qed

definition sample_seed :: seed_request where
  "sample_seed = \<lparr>sr_name = ''web'', sr_ip = None, sr_gateway = None, sr_dns = None, sr_searchdomain = None,
     sr_timezone = None, sr_env = None, sr_keys = None, sr_key_user = ''root'', sr_host_keys = None\<rparr>"

theorem instance_id_ignores_keys_witness:
  "write_seed (\<lambda>t. t) (sample_seed\<lparr>sr_keys := Some ''k1''\<rparr>) Map.empty ''meta-data'' =
     write_seed (\<lambda>t. t) (sample_seed\<lparr>sr_keys := Some ''k2''\<rparr>) Map.empty ''meta-data'' \<and>
   write_seed (\<lambda>t. t) (sample_seed\<lparr>sr_keys := Some ''k1''\<rparr>) Map.empty ''user-data'' \<noteq>
     write_seed (\<lambda>t. t) (sample_seed\<lparr>sr_keys := Some ''k2''\<rparr>) Map.empty ''user-data''"
proof -
  have k: "key_lines (Some ''k1'') = [''k1'']" "key_lines (Some ''k2'') = [''k2'']" by code_simp+
  show ?thesis by (rule instance_id_ignores_keys) (simp_all add: k)
qed

end
