(* ===== verification/Diagnose.thy ===== *)
theory Diagnose imports Orphans Images Cloudinit begin

text \<open>
  \<^verbatim>\<open>diagnose.py\<close> and \<^verbatim>\<open>_diagnosis.py\<close>: the read-only scan of the host and of the instances, the
  report, its layout, and its translation into typed findings.  What the host answers (or what
  asking raises) is an argument, a record of the probes.  The wording of a message is replaced
  by a value with the data the message shows; reading a metadata file does not fail here.
\<close>

section \<open>Findings\<close>

datatype message =
    ApparmorUnknown | ApparmorInactive | ApparmorProfile string | ParserUnknown | ParserMissing | ApparmorReady
  | HoldsUnknown | HoldsFresh nat | HoldStale string string
  | PinsUnknown | HoldDrift string string string | HoldsAligned
  | VmidsUnknown | VmidsReserved int "int list" | VmidsFree int nat
  | StatusUnknown
  | ConfigUnknown | Orphaned "string option" | ConfigPresent "string option"
  | ForwardError string | ForwardsActive string string
  | HelperLeaked int | HelperUnknown | MountLeaked string | MountUnknown
  | StaticMissing | StaticPresent | NestedMissing | NetworkUnknown | VethSkipped | VethManual string
  | CloudinitRoot

record finding =
  fd_category :: string
  fd_severity :: string
  fd_scope :: string
  fd_note :: message
  fd_remedy :: "string option"

definition finding :: "string \<Rightarrow> string \<Rightarrow> string \<Rightarrow> message \<Rightarrow> string option \<Rightarrow> finding" where
  "finding category sev scope msg remedy =
     \<lparr>fd_category = category, fd_severity = sev, fd_scope = scope, fd_note = msg, fd_remedy = remedy\<rparr>"

record health =
  hp_apparmor :: "exc + bool"
  hp_profile :: "string option"
  hp_parser :: "exc + bool"
  hp_holds :: "exc + (string \<times> string) list"
  hp_hold_ids :: "exc + (string \<times> string) list"
  hp_is_pve :: "exc + bool"
  hp_vmids :: "exc + pve_view"
  hp_conf :: probe
  hp_hosts :: "string \<Rightarrow> string \<Rightarrow> exc + host_view"
  hp_kill :: "int \<Rightarrow> exc + unit"
  hp_ismount :: "string \<Rightarrow> exc + bool"
  hp_exists :: "string \<Rightarrow> exc + bool"
  hp_which :: "string \<Rightarrow> string option"
  hp_base :: "base \<Rightarrow> ppath"

text \<open>\<^verbatim>\<open>try ... except (PermissionError, OSError)\<close>.\<close>

definition degrade :: "exc + 'a \<Rightarrow> ('a \<Rightarrow> exc + 'b) \<Rightarrow> 'b \<Rightarrow> exc + 'b" where
  "degrade r f other = (case bindE r f of Inr x \<Rightarrow> Inr x
     | Inl e \<Rightarrow> if catches [PermissionErrorC, OSErrorC] e then Inr other else Inl e)"

section \<open>The instances scanned\<close>

record scanned =
  sc_base :: base
  sc_dir :: string
  sc_files :: files
  sc_mode :: string
  sc_name :: string

definition scan_of :: "string \<Rightarrow> base \<times> string \<times> files \<Rightarrow> scanned" where
  "scan_of dflt x = (case x of (b, d, fs) \<Rightarrow>
     \<lparr>sc_base = b, sc_dir = d, sc_files = fs, sc_mode = read_mode fs dflt, sc_name = nonempty_or (read_meta fs ''kento-name'') d\<rparr>)"

definition enumerate_instances :: "store \<Rightarrow> string option \<Rightarrow> exc + scanned list" where
  "enumerate_instances st name =
     (case name of
        Some n \<Rightarrow> bindE (validate_name n) (\<lambda>_.
          (case scan_namespace n (lxc_base st) of
             Some (d, fs) \<Rightarrow> Inr [scan_of ''lxc'' (LXC_BASE, d, fs)]
           | None \<Rightarrow> (case scan_namespace n (vm_base st) of
               Some (d, fs) \<Rightarrow> Inr [scan_of ''vm'' (VM_BASE, d, fs)]
             | None \<Rightarrow> Inl InstanceNotFoundErrorC)))
      | None \<Rightarrow> Inr (map (scan_of ''lxc'') (sort_key (\<lambda>(b, d, fs). d)
          (with_image LXC_BASE (entries_of st LXC_BASE) @ with_image VM_BASE (entries_of st VM_BASE)))))"

definition container_dir :: "health \<Rightarrow> scanned \<Rightarrow> ppath" where
  "container_dir hp s = path_div (hp_base hp (sc_base s)) (sc_dir s)"

section \<open>The checks of the host\<close>

definition check_apparmor :: "health \<Rightarrow> exc + finding list" where
  "check_apparmor hp =
     (let one = (\<lambda>sev m remedy. [finding ''apparmor'' sev ''host'' m remedy])
      in degrade (hp_apparmor hp) (\<lambda>active.
           if \<not> active then Inr (one ''ok'' ApparmorInactive None)
           else let profile = (case hp_profile hp of Some p \<Rightarrow> p | None \<Rightarrow> ''generated'')
                in if profile \<noteq> ''generated'' then Inr (one ''ok'' (ApparmorProfile profile) None)
                   else degrade (hp_parser hp) (\<lambda>parser.
                     if \<not> parser then Inr (one ''error'' ParserMissing
                       (Some ''install apparmor_parser (apparmor package) or set KENTO_APPARMOR_PROFILE=unconfined''))
                     else Inr (one ''ok'' ApparmorReady None)) (one ''info'' ParserUnknown None))
         (one ''info'' ApparmorUnknown None))"

definition check_stale_holds :: "health \<Rightarrow> store \<Rightarrow> exc + finding list" where
  "check_stale_holds hp st = degrade (hp_holds hp) (\<lambda>hs.
     let stale = orphaned_holds st hs
     in Inr (if stale = [] then [finding ''hold'' ''ok'' ''host'' (HoldsFresh (length hs)) None]
             else map (\<lambda>(n, img). finding ''hold'' ''warn'' ''host'' (HoldStale n (if img = [] then ''?'' else img)) (Some ''kento prune'')) stale))
     [finding ''hold'' ''info'' ''host'' HoldsUnknown None]"

definition diag_short_id :: "string \<Rightarrow> string" where
  "diag_short_id i = (let s = py_strip i in take 12 (if take 7 s = ''sha256:'' then drop 7 s else s))"

fun recorded_ids :: "listing \<Rightarrow> (string \<times> string) list" where
  "recorded_ids [] = []"
| "recorded_ids ((d, EFile) # es) = recorded_ids es"
| "recorded_ids ((d, EDir fs) # es) =
     (case (fs ''kento-image'', fs ''kento-image-id'') of
        (Some _, Some t) \<Rightarrow> ((case recorded_name fs of Some n \<Rightarrow> n | None \<Rightarrow> d), file_text t) # recorded_ids es
      | _ \<Rightarrow> recorded_ids es)"

text \<open>A later entry replaces an earlier one, as in a dictionary.\<close>

definition guest_image_id :: "store \<Rightarrow> string \<Rightarrow> string" where
  "guest_image_id st n = (case map_of (rev (recorded_ids (entries_of st LXC_BASE) @ recorded_ids (entries_of st VM_BASE))) n of
     Some i \<Rightarrow> i | None \<Rightarrow> [])"

definition drifted :: "store \<Rightarrow> (string \<rightharpoonup> string) \<Rightarrow> string \<Rightarrow> (string \<times> string \<times> string) option" where
  "drifted st hold_ids n =
     (let pinned = (case hold_ids n of Some i \<Rightarrow> i | None \<Rightarrow> []); guest_id = guest_image_id st n
      in if pinned = [] \<or> guest_id = [] then None
         else if pinned \<noteq> guest_id then Some (n, pinned, guest_id) else None)"

definition check_hold_drift :: "health \<Rightarrow> store \<Rightarrow> exc + finding list" where
  "check_hold_drift hp st = degrade (hp_hold_ids hp) (\<lambda>ids.
     let drift = List.map_filter (drifted st (map_of ids)) (sort (remdups (guest_names st)))
     in Inr (map (\<lambda>(n, p, g). finding ''hold'' ''warn'' ''host'' (HoldDrift n (diag_short_id p) (diag_short_id g)) (Some (''kento scrub '' @ n))) drift @
             (if drift = [] then [finding ''hold'' ''ok'' ''host'' HoldsAligned None] else [])))
     [finding ''hold'' ''info'' ''host'' PinsUnknown None]"

fun reserved_orphans :: "probe \<Rightarrow> int list \<Rightarrow> exc + int list" where
  "reserved_orphans conf [] = Inr []"
| "reserved_orphans conf (v # vs) =
     bindE (degrade (conf (int_str v) ''pve'') (\<lambda>lxc. bindE (conf (int_str v) ''pve-vm'') (\<lambda>vm. Inr (\<not> lxc \<and> \<not> vm))) False) (\<lambda>gone.
     bindE (reserved_orphans conf vs) (\<lambda>rest. Inr (if gone then v # rest else rest)))"

definition check_vmid_health :: "health \<Rightarrow> store \<Rightarrow> exc + finding list" where
  "check_vmid_health hp st = bindE (degrade (hp_is_pve hp) Inr False) (\<lambda>on_pve.
     if \<not> on_pve then Inr []
     else bindE (degrade (hp_vmids hp) (\<lambda>v. Inr (Some v)) None) (\<lambda>view.
       case view of None \<Rightarrow> Inr [finding ''vmid'' ''info'' ''host'' VmidsUnknown None]
       | Some v \<Rightarrow> (let recorded = sort (remdups (kento_recorded_vmids st))
           in bindE (reserved_orphans (hp_conf hp) recorded) (\<lambda>reserved. Inr
             (if reserved \<noteq> [] then [finding ''vmid'' ''warn'' ''host'' (VmidsReserved (next_vmid v st) reserved)
                (Some ''kento adopt <name> to heal, or kento destroy -f <name> to discard, the orphan(s), then re-check'')]
              else [finding ''vmid'' ''info'' ''host'' (VmidsFree (next_vmid v st) (length recorded)) None])))))"

section \<open>The checks of an instance\<close>

definition check_orphan :: "health \<Rightarrow> scanned \<Rightarrow> exc + finding list" where
  "check_orphan hp s =
     (if \<not> is_pve_mode (sc_mode s) then Inr []
      else let vmid = orphan_vmid (sc_dir s) (sc_files s) (sc_mode s);
               one = (\<lambda>sev m remedy. [finding ''orphan'' sev (sc_name s) m remedy])
           in bindE (is_orphan (hp_conf hp) (sc_dir s) (sc_files s) (sc_mode s)) (\<lambda>gone. Inr
             (case gone of
                None \<Rightarrow> one ''info'' ConfigUnknown None
              | Some True \<Rightarrow> one ''warn'' (Orphaned vmid)
                  (Some (''kento adopt '' @ sc_name s @ '' to heal it, or kento destroy -f '' @ sc_name s @ '' to discard it''))
              | Some False \<Rightarrow> one ''ok'' (ConfigPresent vmid) None)))"

definition check_portfwd :: "scanned \<Rightarrow> finding list" where
  "check_portfwd s =
     (case sc_files s ''kento-portfwd-error'' of
        Some t \<Rightarrow> [finding ''portfwd'' ''error'' (sc_name s) (ForwardError (file_text t))
                     (Some ''check the host firewall (nft/iptables) then restart the instance'')]
      | None \<Rightarrow> (case sc_files s ''kento-portfwd-active'' of
            Some t \<Rightarrow> [finding ''portfwd'' ''ok'' (sc_name s) (ForwardsActive (file_text t)
                         (case sc_files s ''kento-portfwd-backend'' of Some b \<Rightarrow> file_text b | None \<Rightarrow> ''?'')) None]
          | None \<Rightarrow> []))"

definition diag_pid_alive :: "(int \<Rightarrow> exc + unit) \<Rightarrow> int \<Rightarrow> exc + bool" where
  "diag_pid_alive kill pid = (case kill pid of Inr _ \<Rightarrow> Inr True
     | Inl e \<Rightarrow> if catches [ProcessLookupErrorC] e then Inr False
               else if catches [PermissionErrorC] e then Inr True else Inl e)"

definition leak_remedy :: "string \<Rightarrow> string option" where
  "leak_remedy n = Some (''kento scrub '' @ n @ '' or kento destroy -f '' @ n)"

definition check_helper :: "health \<Rightarrow> scanned \<Rightarrow> exc + finding list" where
  "check_helper hp s =
     (case sc_files s ''kento-virtiofsd-pid'' of None \<Rightarrow> Inr []
      | Some t \<Rightarrow> (case (case py_int (file_text t) of None \<Rightarrow> Inl ValueErrorC
            | Some pid \<Rightarrow> bindE (diag_pid_alive (hp_kill hp) pid) (\<lambda>alive. Inr
               (if alive then [finding ''mount'' ''warn'' (sc_name s) (HelperLeaked pid) (leak_remedy (sc_name s))] else []))) of
          Inr fs \<Rightarrow> Inr fs
        | Inl e \<Rightarrow> if catches [PermissionErrorC, OSErrorC, ValueErrorC] e
                  then Inr [finding ''mount'' ''info'' (sc_name s) HelperUnknown None] else Inl e))"

definition rootfs_candidates :: "health \<Rightarrow> scanned \<Rightarrow> string list" where
  "rootfs_candidates hp s =
     firsts ([path_str (path_div (container_dir hp s) ''rootfs'')] @
       (let state = read_meta (sc_files s) ''kento-state''
        in if truthy state then [path_str (path_div (mk_path (the state)) ''rootfs'')] else []))"

definition check_mounts :: "health \<Rightarrow> scanned \<Rightarrow> bool \<Rightarrow> exc + finding list" where
  "check_mounts hp s running =
     (if running then Inr []
      else if sc_mode s = ''vm'' \<or> sc_mode s = ''pve-vm'' then check_helper hp s
      else bindE (mapE (\<lambda>p. degrade (hp_ismount hp p) (\<lambda>m. Inr
             (if m then [finding ''mount'' ''warn'' (sc_name s) (MountLeaked p) (leak_remedy (sc_name s))] else []))
             [finding ''mount'' ''info'' (sc_name s) MountUnknown None]) (rootfs_candidates hp s)) (\<lambda>fs. Inr (concat fs)))"

definition net_dir :: "health \<Rightarrow> scanned \<Rightarrow> ppath" where
  "net_dir hp s =
     (let state = read_meta (sc_files s) ''kento-state'';
          state_dir = (if truthy state then mk_path (the state) else container_dir hp s)
      in path_div (path_div (path_div (path_div state_dir ''upper'') ''etc'') ''systemd'') ''network'')"

definition has_static_ip :: "files \<Rightarrow> bool" where
  "has_static_ip fs \<longleftrightarrow> (let net = read_meta fs ''kento-net''
     in truthy net \<and> list_ex (\<lambda>l. take 3 l = ''ip='') (py_splitlines (the net)))"

definition check_dropins :: "health \<Rightarrow> scanned \<Rightarrow> exc + finding list" where
  "check_dropins hp s =
     bindE (if has_static_ip (sc_files s) then
              bindE (hp_exists hp (path_str (path_div (net_dir hp s) ''05-kento-static.network''))) (\<lambda>there. Inr
                (if \<not> there then [finding ''network'' ''warn'' (sc_name s) StaticMissing
                     (Some (''kento scrub '' @ sc_name s @ '' and recreate, or re-run create''))]
                 else [finding ''network'' ''ok'' (sc_name s) StaticPresent None]))
            else Inr []) (\<lambda>static.
     bindE (if read_meta (sc_files s) ''kento-nesting'' = Some ''1'' then
              bindE (hp_exists hp (path_str (path_div (net_dir hp s) ''10-kento-nested-veth.network''))) (\<lambda>there. Inr
                (if \<not> there then [finding ''network'' ''info'' (sc_name s) NestedMissing None] else []))
            else Inr []) (\<lambda>nested. Inr (static @ nested)))"

definition check_diag_network :: "health \<Rightarrow> scanned \<Rightarrow> bool \<Rightarrow> exc + finding list" where
  "check_diag_network hp s running =
     bindE (degrade (check_dropins hp s) (\<lambda>fs. Inr (Some fs)) None) (\<lambda>r. Inr
       (case r of None \<Rightarrow> [finding ''network'' ''info'' (sc_name s) NetworkUnknown None]
        | Some fs \<Rightarrow> fs @ (if \<not> running then []
            else let tool = (if truthy (hp_which hp ''networkctl'') then hp_which hp ''networkctl'' else hp_which hp ''ip'')
                 in case tool of None \<Rightarrow> [finding ''network'' ''info'' (sc_name s) VethSkipped None]
                    | Some p \<Rightarrow> [finding ''network'' ''info'' (sc_name s) (VethManual (snd (snd (py_rpartition (CHR ''/'') p)))) None])))"

definition check_cloudinit :: "health \<Rightarrow> scanned \<Rightarrow> exc + finding list" where
  "check_cloudinit hp s =
     (let layers = read_meta (sc_files s) ''kento-layers''
      in if sc_files s ''kento-authorized-keys'' = None then Inr []
         else if nonempty_or (read_meta (sc_files s) ''kento-ssh-user'') ''root'' \<noteq> ''root'' then Inr []
         else if \<not> truthy layers then Inr []
         else degrade (detect_cloudinit (hp_exists hp) (the layers)) (\<lambda>found. Inr
           (if \<not> found then []
            else [finding ''cloudinit'' ''warn'' (sc_name s) CloudinitRoot
              (Some (''recreate with --ssh-key-user <user> (e.g. '' @ [CHR 39] @ ''debian'' @ [CHR 39] @ '') if root login does not work''))])) [])"

section \<open>The report\<close>

record report =
  rp_checks :: "finding list"
  rp_problems :: nat
  rp_scanned :: nat

definition diag_running :: "health \<Rightarrow> scanned \<Rightarrow> exc + bool" where
  "diag_running hp s = bindE (hp_hosts hp (sc_dir s) (sc_mode s)) (\<lambda>hv. Inr (is_running hv (sc_dir s) (sc_files s) (sc_mode s)))"

definition check_instance :: "health \<Rightarrow> scanned \<Rightarrow> exc + finding list" where
  "check_instance hp s =
     bindE (degrade (diag_running hp s) (\<lambda>b. Inr (b, [])) (False, [finding ''status'' ''info'' (sc_name s) StatusUnknown None])) (\<lambda>(running, st).
     bindE (check_orphan hp s) (\<lambda>orphan.
     bindE (check_mounts hp s running) (\<lambda>mounts.
     bindE (check_diag_network hp s running) (\<lambda>network.
     bindE (check_cloudinit hp s) (\<lambda>ci. Inr (st @ orphan @ check_portfwd s @ mounts @ network @ ci))))))"

definition is_problem :: "finding \<Rightarrow> bool" where
  "is_problem f \<longleftrightarrow> fd_severity f \<in> {''warn'', ''error''}"

definition run_diagnostics :: "health \<Rightarrow> store \<Rightarrow> string option \<Rightarrow> exc + report" where
  "run_diagnostics hp st name =
     bindE (enumerate_instances st name) (\<lambda>instances.
     bindE (check_apparmor hp) (\<lambda>apparmor.
     bindE (check_stale_holds hp st) (\<lambda>stale.
     bindE (check_hold_drift hp st) (\<lambda>drift.
     bindE (check_vmid_health hp st) (\<lambda>vmids.
     bindE (mapE (check_instance hp) instances) (\<lambda>each.
       let checks = apparmor @ stale @ drift @ vmids @ concat each
       in Inr \<lparr>rp_checks = checks, rp_problems = length (filter is_problem checks), rp_scanned = length instances\<rparr>))))))"

text \<open>The lines of the layout, without their wording.\<close>

datatype line = Summary nat nat nat | Blank | Title "string option" | Problem finding | Fix string | Info finding | Passed nat "string list"

definition emit_group :: "string option \<Rightarrow> finding list \<Rightarrow> line list" where
  "emit_group title fs =
     (if fs = [] then []
      else let oks = filter (\<lambda>f. fd_severity f = ''ok'') fs
           in [Blank, Title title] @
              concat (map (\<lambda>f. Problem f # (if truthy (fd_remedy f) then [Fix (the (fd_remedy f))] else [])) (filter is_problem fs)) @
              map Info (filter (\<lambda>f. fd_severity f = ''info'') fs) @
              (if oks \<noteq> [] then [Passed (length oks) (sort (remdups (map fd_category oks)))] else []))"

definition format_diagnostics :: "report \<Rightarrow> line list" where
  "format_diagnostics r =
     (let checks = rp_checks r; others = filter (\<lambda>f. fd_scope f \<noteq> ''host'') checks
      in [Summary (length checks) (rp_problems r) (rp_scanned r)] @
         emit_group None (filter (\<lambda>f. fd_scope f = ''host'') checks) @
         concat (map (\<lambda>s. emit_group (Some s) (filter (\<lambda>f. fd_scope f = s) others)) (firsts (map fd_scope others))))"

section \<open>The typed diagnosis\<close>

datatype diagnosis_domain = INSTANCE | IMAGE | HOST
datatype check_level = L_OK | L_INFO | L_WARNING | L_ERROR

record typed_finding =
  tf_domain :: diagnosis_domain
  tf_subject :: "string option"
  tf_check :: string
  tf_level :: check_level
  tf_note :: message
  tf_remedy :: "string option"

definition problems :: "typed_finding list \<Rightarrow> typed_finding list" where
  "problems fs = filter (\<lambda>f. tf_level f = L_WARNING \<or> tf_level f = L_ERROR) fs"

definition diagnosis_ok :: "typed_finding list \<Rightarrow> bool" where "diagnosis_ok fs \<longleftrightarrow> problems fs = []"

definition domain_for_category :: "string \<Rightarrow> diagnosis_domain" where
  "domain_for_category c =
     (if c \<in> {''status'', ''network'', ''mount'', ''portfwd'', ''cloudinit''} then INSTANCE
      else if c = ''hold'' then IMAGE else HOST)"

definition subject_for_finding :: "string \<Rightarrow> string option" where
  "subject_for_finding scope = (if scope = ''host'' then None else Some scope)"

definition level_for :: "string \<Rightarrow> check_level" where
  "level_for s = (if s = ''ok'' then L_OK else if s = ''info'' then L_INFO else if s = ''warn'' then L_WARNING
     else if s = ''error'' then L_ERROR else L_INFO)"

definition typed_of :: "finding \<Rightarrow> typed_finding" where
  "typed_of f = \<lparr>tf_domain = domain_for_category (fd_category f), tf_subject = subject_for_finding (fd_scope f),
     tf_check = fd_category f, tf_level = level_for (fd_severity f), tf_note = fd_note f, tf_remedy = fd_remedy f\<rparr>"

definition diagnosis_from_report :: "report \<Rightarrow> diagnosis_domain option \<Rightarrow> string option \<Rightarrow> typed_finding list" where
  "diagnosis_from_report r domain subject =
     filter (\<lambda>t. (domain = None \<or> domain = Some (tf_domain t)) \<and> (subject = None \<or> tf_subject t = subject))
       (map typed_of (rp_checks r))"

definition diagnose :: "health \<Rightarrow> store \<Rightarrow> string option \<Rightarrow> exc + typed_finding list" where
  "diagnose hp st name = bindE (run_diagnostics hp st name) (\<lambda>r. Inr (diagnosis_from_report r None None))"

definition instance_diagnose :: "health \<Rightarrow> store \<Rightarrow> bool \<Rightarrow> string \<Rightarrow> exc + typed_finding list" where
  "instance_diagnose hp st dead name =
     (if dead then Inl InstanceNotFoundErrorC
      else bindE (run_diagnostics hp st (Some name)) (\<lambda>r. Inr (diagnosis_from_report r (Some INSTANCE) (Some name))))"

definition image_diagnose :: "health \<Rightarrow> store \<Rightarrow> exc + typed_finding list" where
  "image_diagnose hp st = bindE (run_diagnostics hp st None) (\<lambda>r. Inr (diagnosis_from_report r (Some IMAGE) None))"

section \<open>Which findings a check makes\<close>

text \<open>A check that returns makes findings with a property.\<close>

definition makes :: "(finding \<Rightarrow> bool) \<Rightarrow> exc + finding list \<Rightarrow> bool" where
  "makes P r \<longleftrightarrow> (\<forall>fs. r = Inr fs \<longrightarrow> (\<forall>f \<in> set fs. P f))"

lemma makes_simps [simp]:
  "makes P (Inr fs) \<longleftrightarrow> (\<forall>f \<in> set fs. P f)" "makes P (Inl e)"
  by (simp_all add: makes_def)

lemma makes_bindE: "(\<And>x. r = Inr x \<Longrightarrow> makes P (f x)) \<Longrightarrow> makes P (bindE r f)"
  by (cases r) simp_all

lemma makes_degrade: "(\<And>x. r = Inr x \<Longrightarrow> makes P (f x)) \<Longrightarrow> makes P (Inr other) \<Longrightarrow> makes P (degrade r f other)"
  by (cases r) (auto simp: degrade_def makes_def split: sum.splits)

lemma finding_simps [simp]:
  "fd_category (finding c v s m r) = c" "fd_severity (finding c v s m r) = v" "fd_scope (finding c v s m r) = s"
  "fd_note (finding c v s m r) = m" "fd_remedy (finding c v s m r) = r"
  by (simp_all add: finding_def)

lemma host_checks:
  "makes (\<lambda>f. fd_scope f = ''host'' \<and> fd_category f = ''apparmor'') (check_apparmor hp)"
  "makes (\<lambda>f. fd_scope f = ''host'' \<and> fd_category f = ''hold'') (check_stale_holds hp st)"
  "makes (\<lambda>f. fd_scope f = ''host'' \<and> fd_category f = ''hold'') (check_hold_drift hp st)"
  "makes (\<lambda>f. fd_scope f = ''host'' \<and> fd_category f = ''vmid'') (check_vmid_health hp st)"
proof -
  show "makes (\<lambda>f. fd_scope f = ''host'' \<and> fd_category f = ''apparmor'') (check_apparmor hp)"
    unfolding check_apparmor_def Let_def by (intro makes_degrade) (auto intro!: makes_degrade)
  show "makes (\<lambda>f. fd_scope f = ''host'' \<and> fd_category f = ''hold'') (check_stale_holds hp st)"
    unfolding check_stale_holds_def Let_def by (intro makes_degrade) auto
  show "makes (\<lambda>f. fd_scope f = ''host'' \<and> fd_category f = ''hold'') (check_hold_drift hp st)"
    unfolding check_hold_drift_def Let_def by (intro makes_degrade) auto
  show "makes (\<lambda>f. fd_scope f = ''host'' \<and> fd_category f = ''vmid'') (check_vmid_health hp st)"
    unfolding check_vmid_health_def Let_def by (intro makes_bindE) (auto intro!: makes_bindE split: option.splits)
qed

lemma makes_concat: "(\<And>x. makes P (f x)) \<Longrightarrow> makes P (bindE (mapE f xs) (\<lambda>fs. Inr (concat fs)))"
  by (intro makes_bindE) (force simp: makes_def dest: mapE_image)

lemma degrade_Inr: "degrade r f other = Inr y \<Longrightarrow> y = other \<or> (\<exists>x. r = Inr x \<and> f x = Inr y)"
  by (cases r) (auto simp: degrade_def split: sum.splits if_splits)

definition own :: "scanned \<Rightarrow> finding \<Rightarrow> bool" where
  "own s f \<longleftrightarrow> fd_scope f = sc_name s \<and> fd_category f \<in> {''status'', ''network'', ''mount'', ''portfwd'', ''cloudinit''}"

lemma own_finding [simp]:
  "own s (finding ''status'' v (sc_name s) m r)" "own s (finding ''network'' v (sc_name s) m r)" "own s (finding ''mount'' v (sc_name s) m r)"
  "own s (finding ''portfwd'' v (sc_name s) m r)" "own s (finding ''cloudinit'' v (sc_name s) m r)"
  by (simp_all add: own_def)

lemma makes_helper: "makes (own s) (check_helper hp s)"
proof (cases "sc_files s ''kento-virtiofsd-pid''")
  case (Some t)
  show ?thesis
  proof (cases "py_int (file_text t)")
    case (Some pid)
    then show ?thesis using \<open>sc_files s _ = Some t\<close>
      by (cases "diag_pid_alive (hp_kill hp) pid") (simp_all add: check_helper_def)
  qed (simp add: check_helper_def Some)
qed (simp add: check_helper_def)

lemma makes_dropins: "makes (own s) (check_dropins hp s)"
  by (auto simp: check_dropins_def makes_def split: if_splits)

lemma instance_parts:
  "makes (\<lambda>f. fd_scope f = sc_name s \<and> fd_category f = ''orphan'') (check_orphan hp s)"
  "\<forall>f \<in> set (check_portfwd s). own s f"
  "makes (own s) (check_mounts hp s running)"
  "makes (own s) (check_diag_network hp s running)"
  "makes (own s) (check_cloudinit hp s)"
proof -
  show "makes (\<lambda>f. fd_scope f = sc_name s \<and> fd_category f = ''orphan'') (check_orphan hp s)"
    unfolding check_orphan_def Let_def by (auto intro!: makes_bindE split: option.splits bool.splits)
  show "\<forall>f \<in> set (check_portfwd s). own s f" by (auto simp: check_portfwd_def split: option.splits)
  show "makes (own s) (check_mounts hp s running)"
    unfolding check_mounts_def by (auto intro!: makes_concat makes_degrade makes_helper)
  show "makes (own s) (check_diag_network hp s running)"
    unfolding check_diag_network_def Let_def using makes_dropins [of s hp]
    by (intro makes_bindE) (auto simp: makes_def dest!: degrade_Inr split: option.splits)
  show "makes (own s) (check_cloudinit hp s)"
    unfolding check_cloudinit_def Let_def by (auto intro!: makes_degrade)
qed

text \<open>The findings of an instance: its own, and those of the search for orphans.\<close>

lemma instance_findings:
  assumes "check_instance hp s = Inr fs"
  shows "\<forall>f \<in> set fs. own s f \<or> fd_scope f = sc_name s \<and> fd_category f = ''orphan''"
    "\<exists>os. check_orphan hp s = Inr os \<and> filter (\<lambda>f. fd_category f = ''orphan'') fs = os"
proof -
  let ?own = "own s" and ?orph = "\<lambda>f. fd_scope f = sc_name s \<and> fd_category f = ''orphan''"
  from assms obtain running st orphan mounts network ci where
    p: "degrade (diag_running hp s) (\<lambda>b. Inr (b, [])) (False, [finding ''status'' ''info'' (sc_name s) StatusUnknown None]) = Inr (running, st)"
      "check_orphan hp s = Inr orphan" "check_mounts hp s running = Inr mounts" "check_diag_network hp s running = Inr network"
      "check_cloudinit hp s = Inr ci" "fs = st @ orphan @ check_portfwd s @ mounts @ network @ ci"
    by (auto simp: check_instance_def)
  have own: "\<forall>f \<in> set st. own s f" "\<forall>f \<in> set (check_portfwd s @ mounts @ network @ ci). own s f" "\<forall>f \<in> set orphan. ?orph f"
    using degrade_Inr [OF p(1)] instance_parts(1,3-5) [of s hp] instance_parts(2) [of s] p(2-5) by (auto simp: makes_def)
  then show "\<forall>f \<in> set fs. own s f \<or> ?orph f" by (auto simp: p(6))
  have "filter (\<lambda>f. fd_category f = ''orphan'') xs = []" if "\<forall>f \<in> set xs. own s f" for xs
    using that by (auto simp: own_def filter_empty_conv)
  from this [of st] this [of "check_portfwd s @ mounts @ network @ ci"] own(1,2)
  have "filter (\<lambda>f. fd_category f = ''orphan'') fs = filter (\<lambda>f. fd_category f = ''orphan'') orphan"
    by (simp add: p(6))
  also have "\<dots> = orphan" using own(3) by (simp add: filter_id_conv)
  finally show "\<exists>os. check_orphan hp s = Inr os \<and> filter (\<lambda>f. fd_category f = ''orphan'') fs = os" using p(2) by simp
qed

lemma run_Inr:
  assumes "run_diagnostics hp st name = Inr r"
  obtains scs hosts each where "enumerate_instances st name = Inr scs" "mapE (check_instance hp) scs = Inr each"
    "\<forall>f \<in> set hosts. fd_scope f = ''host'' \<and> fd_category f \<in> {''apparmor'', ''hold'', ''vmid''}"
    "r = \<lparr>rp_checks = hosts @ concat each, rp_problems = length (filter is_problem (hosts @ concat each)), rp_scanned = length scs\<rparr>"
proof -
  from assms obtain scs a s d v each where p: "enumerate_instances st name = Inr scs" "check_apparmor hp = Inr a" "check_stale_holds hp st = Inr s"
      "check_hold_drift hp st = Inr d" "check_vmid_health hp st = Inr v" "mapE (check_instance hp) scs = Inr each"
      "r = \<lparr>rp_checks = a @ s @ d @ v @ concat each, rp_problems = length (filter is_problem (a @ s @ d @ v @ concat each)), rp_scanned = length scs\<rparr>"
    by (auto simp: run_diagnostics_def Let_def)
  show ?thesis
  proof (rule that [of scs each "a @ s @ d @ v"])
    show "\<forall>f \<in> set (a @ s @ d @ v). fd_scope f = ''host'' \<and> fd_category f \<in> {''apparmor'', ''hold'', ''vmid''}"
      using host_checks [of hp] p(2-5) by (auto simp: makes_def)
  qed (simp_all add: p)
qed

section \<open>Orphans\<close>

lemma scan_simps [simp]:
  "sc_base (scan_of m (b, d, fs)) = b" "sc_dir (scan_of m (b, d, fs)) = d" "sc_files (scan_of m (b, d, fs)) = fs"
  "sc_mode (scan_of m (b, d, fs)) = read_mode fs m" "sc_name (scan_of m (b, d, fs)) = nonempty_or (read_meta fs ''kento-name'') d"
  by (simp_all add: scan_of_def)

definition orphan_warning :: "finding \<Rightarrow> bool" where
  "orphan_warning f \<longleftrightarrow> fd_category f = ''orphan'' \<and> fd_severity f = ''warn''"

definition warned_vmid :: "finding \<Rightarrow> vmid_value" where
  "warned_vmid f = (case fd_note f of Orphaned v \<Rightarrow> vmid_value_of v | _ \<Rightarrow> VNone)"

lemma orphan_warnings:
  "mapE (check_instance hp) (map (scan_of ''lxc'') xs) = Inr each \<Longrightarrow>
     \<exists>os. collect_orphans (hp_conf hp) xs = Inr os \<and>
       map (\<lambda>f. (fd_scope f, warned_vmid f)) (filter orphan_warning (concat each)) = map (\<lambda>x. (or_name x, or_vmid x)) os"
proof (induction xs arbitrary: each)
  case (Cons x xs)
  obtain b d fs where x: "x = (b, d, fs)" by (cases x) auto
  let ?s = "scan_of ''lxc'' x" and ?m = "read_mode fs ''lxc''"
  from Cons.prems obtain e rest where e: "check_instance hp ?s = Inr e" "mapE (check_instance hp) (map (scan_of ''lxc'') xs) = Inr rest" "each = e # rest"
    by auto
  from Cons.IH [OF e(2)] obtain os where os: "collect_orphans (hp_conf hp) xs = Inr os"
      "map (\<lambda>f. (fd_scope f, warned_vmid f)) (filter orphan_warning (concat rest)) = map (\<lambda>x. (or_name x, or_vmid x)) os" by blast
  from instance_findings(2) [OF e(1)] obtain o1 where o1: "check_orphan hp ?s = Inr o1" "filter (\<lambda>f. fd_category f = ''orphan'') e = o1" by blast
  have "filter orphan_warning e = filter (\<lambda>f. fd_severity f = ''warn'') o1"
    by (simp add: o1(2) [symmetric] orphan_warning_def [abs_def] conj_commute)
  moreover obtain o3 where o3: "is_orphan (hp_conf hp) d fs ?m = Inr o3"
      "map (\<lambda>f. (fd_scope f, warned_vmid f)) (filter (\<lambda>f. fd_severity f = ''warn'') o1) =
        (if is_pve_mode ?m \<and> o3 = Some True then [(or_name (describe b d fs ?m), or_vmid (describe b d fs ?m))] else [])"
  proof (cases "is_pve_mode ?m")
    case False
    with o1(1) show ?thesis by (intro that [of "Some False"]) (auto simp: check_orphan_def x is_orphan_def)
  next
    case True
    with o1(1) obtain o3 where o3: "is_orphan (hp_conf hp) d fs ?m = Inr o3" by (auto simp: check_orphan_def x Let_def)
    show ?thesis
    proof (rule that [OF o3])
      show "map (\<lambda>f. (fd_scope f, warned_vmid f)) (filter (\<lambda>f. fd_severity f = ''warn'') o1) =
        (if is_pve_mode ?m \<and> o3 = Some True then [(or_name (describe b d fs ?m), or_vmid (describe b d fs ?m))] else [])"
        using True o1(1) o3 by (cases o3; cases "the o3") (auto simp: check_orphan_def x Let_def describe_def warned_vmid_def)
    qed
  qed
  ultimately show ?case
    using os by (cases "is_pve_mode ?m \<and> o3 = Some True") (simp_all add: x e(3) Let_def)
qed simp

text \<open>
  C23. The scan of the host warns of exactly the orphans that pruning would find, in its order, by
  their names and with their VM ids: whenever the scan succeeds so does the search, and the
  warnings are the orphans.
\<close>
theorem diagnosis_warns_of_orphans:
  assumes "run_diagnostics hp st None = Inr r"
  shows "\<exists>os. find_orphans (hp_conf hp) st None = Inr os \<and>
    map (\<lambda>f. (fd_scope f, warned_vmid f)) (filter orphan_warning (rp_checks r)) = map (\<lambda>x. (or_name x, or_vmid x)) os"
proof -
  from run_Inr [OF assms] obtain scs hosts each where r: "enumerate_instances st None = Inr scs" "mapE (check_instance hp) scs = Inr each"
      "\<forall>f \<in> set hosts. fd_scope f = ''host'' \<and> fd_category f \<in> {''apparmor'', ''hold'', ''vmid''}"
      "r = \<lparr>rp_checks = hosts @ concat each, rp_problems = length (filter is_problem (hosts @ concat each)), rp_scanned = length scs\<rparr>" .
  have "filter orphan_warning hosts = []" using r(3) by (auto simp: filter_empty_conv orphan_warning_def)
  moreover from r(1,2) have "mapE (check_instance hp) (map (scan_of ''lxc'') (sort_key (\<lambda>(b, d, fs). d)
      (with_image LXC_BASE (entries_of st LXC_BASE) @ with_image VM_BASE (entries_of st VM_BASE)))) = Inr each"
    by (simp add: enumerate_instances_def)
  from orphan_warnings [OF this] have "\<exists>os. find_orphans (hp_conf hp) st None = Inr os \<and>
      map (\<lambda>f. (fd_scope f, warned_vmid f)) (filter orphan_warning (concat each)) = map (\<lambda>x. (or_name x, or_vmid x)) os"
    by (simp add: find_orphans_def in_scope_def)
  ultimately show ?thesis by (simp add: r(4))
qed

section \<open>The diagnosis of one instance\<close>

lemma typed_problem:
  "f \<in> set (rp_checks r) \<Longrightarrow> is_problem f \<Longrightarrow> domain_for_category (fd_category f) = D \<Longrightarrow>
     subject_for_finding (fd_scope f) = Some n \<Longrightarrow> typed_of f \<in> set (problems (diagnosis_from_report r (Some D) (Some n)))"
  by (auto simp: problems_def diagnosis_from_report_def typed_of_def level_for_def is_problem_def)

text \<open>
  An instance named \<^verbatim>\<open>host\<close> is never diagnosed: the name is the mark of the findings about the
  host.  When the hook of an instance left the error of its forwards behind, the diagnosis of the
  instance has problems under every name but this one, under which it has no finding at all.
\<close>
theorem diagnosis_skips_host:
  assumes "scan_namespace n (lxc_base st) = Some (d, fs)" "nonempty_or (read_meta fs ''kento-name'') d = n"
    "fs ''kento-portfwd-error'' = Some t" "instance_diagnose hp st False n = Inr found"
  shows "validate_name ''host'' = Inr () \<and> (n = ''host'' \<longrightarrow> found = [] \<and> diagnosis_ok found) \<and> (n \<noteq> ''host'' \<longrightarrow> \<not> diagnosis_ok found)"
proof -
  have name: "validate_name ''host'' = Inr ()" by code_simp
  from assms(4) obtain r where r: "run_diagnostics hp st (Some n) = Inr r" "found = diagnosis_from_report r (Some INSTANCE) (Some n)"
    by (auto simp: instance_diagnose_def)
  have host: "diagnosis_from_report r d (Some ''host'') = []" for d
    by (auto simp: diagnosis_from_report_def filter_empty_conv typed_of_def subject_for_finding_def)
  have "\<not> diagnosis_ok found" if "n \<noteq> ''host''"
  proof -
    let ?s = "scan_of ''lxc'' (LXC_BASE, d, fs)"
    let ?f = "finding ''portfwd'' ''error'' n (ForwardError (file_text t)) (Some ''check the host firewall (nft/iptables) then restart the instance'')"
    from run_Inr [OF r(1)] obtain scs hosts each where s: "enumerate_instances st (Some n) = Inr scs" "mapE (check_instance hp) scs = Inr each"
        "r = \<lparr>rp_checks = hosts @ concat each, rp_problems = length (filter is_problem (hosts @ concat each)), rp_scanned = length scs\<rparr>" .
    from s(1) assms(1) have "scs = [?s]" by (auto simp: enumerate_instances_def)
    with s(2) obtain e where e: "check_instance hp ?s = Inr e" "each = [e]" by auto
    have "check_portfwd ?s = [?f]" using assms(2,3) by (simp add: check_portfwd_def)
    with e(1) have "?f \<in> set e" by (auto simp: check_instance_def)
    then have "?f \<in> set (rp_checks r)" by (simp add: s(3) e(2))
    from typed_problem [OF this, of INSTANCE n] that have "typed_of ?f \<in> set (problems found)"
      by (simp add: r(2) is_problem_def domain_for_category_def subject_for_finding_def)
    then show ?thesis by (auto simp: diagnosis_ok_def)
  qed
  with name host r(2) show ?thesis by (auto simp: diagnosis_ok_def problems_def)
qed

section \<open>The scan always reports\<close>

text \<open>What asking the host may raise: errors of the operating system only.\<close>

definition os_only :: "exc + 'a \<Rightarrow> bool" where
  "os_only r \<longleftrightarrow> (\<forall>e. r = Inl e \<longrightarrow> OSErrorC \<in> set (mro e))"

definition host_answers :: "health \<Rightarrow> bool" where
  "host_answers hp \<longleftrightarrow> os_only (hp_apparmor hp) \<and> os_only (hp_parser hp) \<and> os_only (hp_holds hp) \<and> os_only (hp_hold_ids hp) \<and>
     os_only (hp_is_pve hp) \<and> os_only (hp_vmids hp) \<and> (\<forall>v m. os_only (hp_conf hp v m)) \<and> (\<forall>d m. os_only (hp_hosts hp d m)) \<and>
     (\<forall>p. os_only (hp_kill hp p)) \<and> (\<forall>p. os_only (hp_ismount hp p)) \<and> (\<forall>p. os_only (hp_exists hp p))"

lemma os_only_bindE: "os_only r \<Longrightarrow> (\<And>x. os_only (f x)) \<Longrightarrow> os_only (bindE r f)"
  by (cases r) (auto simp: os_only_def)

lemma os_only_Inr [simp]: "os_only (Inr x)" by (simp add: os_only_def)

lemma degrade_returns: "os_only r \<Longrightarrow> (\<And>x. os_only (f x)) \<Longrightarrow> \<exists>y. degrade r f z = Inr y"
  using os_only_bindE [of r f] by (auto simp: degrade_def os_only_def catches_def split: sum.splits)

lemma degrade_total: "os_only r \<Longrightarrow> (\<And>x. \<exists>y. f x = Inr y) \<Longrightarrow> \<exists>y. degrade r f z = Inr y"
  by (rule degrade_returns) (metis os_only_Inr)+

text \<open>A check that reports whatever the host answers.\<close>

definition reports :: "exc + 'a \<Rightarrow> bool" where "reports r \<longleftrightarrow> (\<exists>y. r = Inr y)"

lemma reports_simps [simp]: "reports (Inr x)" "\<not> reports (Inl e)" by (simp_all add: reports_def)

lemma reports_bindE: "reports r \<Longrightarrow> (\<And>x. r = Inr x \<Longrightarrow> reports (f x)) \<Longrightarrow> reports (bindE r f)"
  by (cases r) simp_all

lemma reports_degrade: "os_only r \<Longrightarrow> (\<And>x. os_only (f x)) \<Longrightarrow> reports (degrade r f z)"
  using degrade_returns [of r f z] by (simp add: reports_def)

lemma reports_os_only: "reports r \<Longrightarrow> os_only r" by (auto simp: reports_def)

lemma reports_mapE: "(\<And>x. x \<in> set xs \<Longrightarrow> reports (f x)) \<Longrightarrow> reports (mapE f xs)"
  by (induction xs) (auto intro!: reports_bindE)

lemma host_parts:
  assumes "host_answers hp"
  shows "os_only (hp_apparmor hp)" "os_only (hp_parser hp)" "os_only (hp_holds hp)" "os_only (hp_hold_ids hp)" "os_only (hp_is_pve hp)"
    "os_only (hp_vmids hp)" "os_only (hp_conf hp v m)" "os_only (hp_hosts hp d m)" "os_only (hp_kill hp i)" "os_only (hp_ismount hp p)"
    "os_only (hp_exists hp p)"
  using assms by (simp_all add: host_answers_def)

lemma host_checks_report:
  assumes "host_answers hp"
  shows "reports (check_apparmor hp)" "reports (check_stale_holds hp st)" "reports (check_hold_drift hp st)" "reports (check_vmid_health hp st)"
proof -
  note h = host_parts [OF assms]
  show "reports (check_apparmor hp)" unfolding check_apparmor_def Let_def
    by (intro reports_degrade h) (auto intro!: reports_os_only reports_degrade h)
  show "reports (check_stale_holds hp st)" unfolding check_stale_holds_def Let_def by (intro reports_degrade h) auto
  show "reports (check_hold_drift hp st)" unfolding check_hold_drift_def Let_def by (intro reports_degrade h) auto
  have "reports (reserved_orphans (hp_conf hp) vs)" for vs
    by (induction vs) (auto intro!: reports_bindE reports_degrade os_only_bindE h)
  then show "reports (check_vmid_health hp st)" unfolding check_vmid_health_def Let_def
    by (intro reports_bindE reports_degrade h) (auto intro!: reports_bindE reports_degrade h split: option.splits)
qed

lemma check_instance_reports:
  assumes "host_answers hp"
  shows "reports (check_instance hp s)"
proof -
  note h = host_parts [OF assms]
  have orphan: "reports (check_orphan hp s)"
    using h(7) by (auto simp: check_orphan_def is_orphan_def os_only_def Let_def intro!: reports_bindE split: option.splits sum.splits)
  have alive: "os_only (diag_pid_alive (hp_kill hp) pid)" for pid
    using h(9) [of pid] by (auto simp: diag_pid_alive_def os_only_def split: sum.splits)
  have helper: "reports (check_helper hp s)"
  proof (cases "sc_files s ''kento-virtiofsd-pid''")
    case (Some t)
    show ?thesis
    proof (cases "py_int (file_text t)")
      case None
      have "catches [PermissionErrorC, OSErrorC, ValueErrorC] ValueErrorC" by code_simp
      then show ?thesis by (simp add: check_helper_def Some None)
    next
      case (Some pid)
      then show ?thesis using alive [of pid] \<open>sc_files s _ = Some t\<close>
        by (cases "diag_pid_alive (hp_kill hp) pid") (auto simp: check_helper_def os_only_def catches_def)
    qed
  qed (simp add: check_helper_def)
  have mounts: "reports (check_mounts hp s running)" for running
    unfolding check_mounts_def using helper by (auto intro!: reports_bindE reports_mapE reports_degrade h)
  have "os_only (check_dropins hp s)"
    unfolding check_dropins_def by (auto intro!: os_only_bindE h)
  then have network: "reports (check_diag_network hp s running)" for running
    unfolding check_diag_network_def by (auto intro!: reports_bindE reports_degrade)
  have "os_only (any_exists (hp_exists hp) ps)" for ps
    by (induction ps) (auto intro!: os_only_bindE h)
  then have ci: "reports (check_cloudinit hp s)"
    unfolding check_cloudinit_def detect_cloudinit_def Let_def by (auto intro!: reports_degrade)
  show ?thesis unfolding check_instance_def diag_running_def
    by (auto intro!: reports_bindE reports_degrade os_only_bindE h orphan mounts network ci split: prod.splits)
qed

lemma run_reports:
  assumes "host_answers hp"
  shows "reports (run_diagnostics hp st name) \<longleftrightarrow> reports (enumerate_instances st name)"
proof
  assume "reports (enumerate_instances st name)"
  then show "reports (run_diagnostics hp st name)"
    unfolding run_diagnostics_def Let_def
    by (intro reports_bindE reports_mapE host_checks_report [OF assms] check_instance_reports [OF assms]) simp_all
qed (cases "enumerate_instances st name"; simp add: run_diagnostics_def)

text \<open>
  The scan is total: when asking the host raises errors of the operating system only, the scan
  of the host always reports, and the scan of one instance reports unless the name is not valid or
  no instance has it; the checks degrade to informational findings and never fail the scan.
\<close>
theorem diagnosis_always_reports:
  assumes "host_answers hp"
  shows "run_diagnostics hp st name = Inl e \<longleftrightarrow>
     (\<exists>n. name = Some n \<and> (validate_name n = Inl e \<or>
        validate_name n = Inr () \<and> scan_namespace n (lxc_base st) = None \<and> scan_namespace n (vm_base st) = None \<and> e = InstanceNotFoundErrorC))"
proof -
  have "run_diagnostics hp st name = Inl e \<longleftrightarrow> enumerate_instances st name = Inl e"
    using run_reports [OF assms, of st name] by (cases "enumerate_instances st name") (auto simp: run_diagnostics_def reports_def)
  also have "\<dots> \<longleftrightarrow> (\<exists>n. name = Some n \<and> (validate_name n = Inl e \<or>
        validate_name n = Inr () \<and> scan_namespace n (lxc_base st) = None \<and> scan_namespace n (vm_base st) = None \<and> e = InstanceNotFoundErrorC))"
    by (auto simp: enumerate_instances_def bindE_Inl split: option.splits)
  finally show ?thesis .
qed

text \<open>
  A virtual machine cannot be diagnosed behind a container of its name: its diagnosis resolves
  the name again, and containers come first, so it is the container's and does not depend on
  anything in the namespace of the virtual machines.
\<close>
theorem diagnosis_shadowed:
  assumes "host_answers hp" "scan_namespace n (lxc_base st) = Some (d, fs)"
  shows "instance_diagnose hp (st\<lparr>vm_base := v\<rparr>) False n = instance_diagnose hp st False n"
proof (cases "validate_name n")
  case (Inl e)
  then show ?thesis by (simp add: instance_diagnose_def run_diagnostics_def enumerate_instances_def)
next
  case (Inr u)
  let ?s = "scan_of ''lxc'' (LXC_BASE, d, fs)"
  from check_instance_reports [OF assms(1), of ?s] obtain own where own: "check_instance hp ?s = Inr own" by (auto simp: reports_def)
  have "instance_diagnose hp st' False n =
      Inr (filter (\<lambda>t. tf_domain t = INSTANCE \<and> tf_subject t = Some n) (map typed_of own))"
    if st': "scan_namespace n (lxc_base st') = Some (d, fs)" for st'
  proof -
    have "\<exists>r. run_diagnostics hp st' (Some n) = Inr r"
      using run_reports [OF assms(1), of st' "Some n"] Inr st' by (simp add: reports_def enumerate_instances_def)
    then obtain r where r: "run_diagnostics hp st' (Some n) = Inr r" by blast
    from run_Inr [OF r] obtain scs hosts each where s: "enumerate_instances st' (Some n) = Inr scs" "mapE (check_instance hp) scs = Inr each"
        "\<forall>f \<in> set hosts. fd_scope f = ''host'' \<and> fd_category f \<in> {''apparmor'', ''hold'', ''vmid''}"
        "r = \<lparr>rp_checks = hosts @ concat each, rp_problems = length (filter is_problem (hosts @ concat each)), rp_scanned = length scs\<rparr>" .
    from s(1,2) st' Inr own have "each = [own]" by (auto simp: enumerate_instances_def)
    moreover have "filter (\<lambda>t. tf_domain t = INSTANCE \<and> tf_subject t = Some n) (map typed_of hosts) = []"
      using s(3) by (auto simp: filter_empty_conv typed_of_def subject_for_finding_def)
    ultimately show ?thesis using r
      by (simp add: instance_diagnose_def diagnosis_from_report_def s(4) eq_commute [of _ INSTANCE])
  qed
  from this [of st] this [of "st\<lparr>vm_base := v\<rparr>"] assms(2) show ?thesis by simp
qed

section \<open>Counting and layout\<close>

lemma typed_problems: "length (problems (map typed_of fs)) = length (filter is_problem fs)"
  by (induction fs) (auto simp: problems_def typed_of_def level_for_def is_problem_def)

text \<open>
  The typed diagnosis loses nothing: it has as many problems as the report counts, is fine exactly
  when the report counts none, and each of its findings is in the projection to exactly one of the
  three domains.
\<close>
theorem diagnosis_counts_problems:
  assumes "run_diagnostics hp st name = Inr r"
  shows "length (problems (diagnosis_from_report r None None)) = rp_problems r \<and>
    (diagnosis_ok (diagnosis_from_report r None None) \<longleftrightarrow> rp_problems r = 0) \<and>
    mset (diagnosis_from_report r None None) =
      mset (diagnosis_from_report r (Some INSTANCE) None) + mset (diagnosis_from_report r (Some IMAGE) None) +
      mset (diagnosis_from_report r (Some HOST) None)"
proof -
  have p: "rp_problems r = length (filter is_problem (rp_checks r))"
    using assms by (rule run_Inr) simp
  have "mset xs = mset (filter (\<lambda>x. INSTANCE = tf_domain x) xs) + mset (filter (\<lambda>x. IMAGE = tf_domain x) xs) +
      mset (filter (\<lambda>x. HOST = tf_domain x) xs)" for xs
  proof (induction xs)
    case (Cons x xs)
    then show ?case by (cases "tf_domain x") simp_all
  qed simp
  from this [of "map typed_of (rp_checks r)"]
  have "mset (diagnosis_from_report r None None) =
      mset (diagnosis_from_report r (Some INSTANCE) None) + mset (diagnosis_from_report r (Some IMAGE) None) +
      mset (diagnosis_from_report r (Some HOST) None)"
    unfolding diagnosis_from_report_def by (simp only: option.inject option.distinct simp_thms filter_True filter.simps cong: filter_cong) simp
  moreover have "diagnosis_from_report r None None = map typed_of (rp_checks r)" by (simp add: diagnosis_from_report_def)
  ultimately show ?thesis using typed_problems [of "rp_checks r"] by (simp add: p diagnosis_ok_def flip: length_0_conv)
qed

fun shown :: "line \<Rightarrow> finding option" where
  "shown (Problem f) = Some f"
| "shown l = None"

lemma shown_append: "List.map_filter shown (xs @ ys) = List.map_filter shown xs @ List.map_filter shown ys"
  by (simp add: List.map_filter_def)

lemma shown_group: "List.map_filter shown (emit_group t fs) = filter is_problem fs"
proof -
  have "List.map_filter shown (concat (map (\<lambda>f. Problem f # (if truthy (fd_remedy f) then [Fix (the (fd_remedy f))] else [])) gs)) = gs" for gs
    by (induction gs) (auto simp: List.map_filter_def)
  moreover have "List.map_filter shown (map Info gs) = []" for gs by (simp add: List.map_filter_def)
  ultimately show ?thesis
    by (cases "fs = []") (simp_all add: emit_group_def Let_def List.map_filter_simps shown_append)
qed

lemma filter_apart:
  "(\<And>x. \<not> (P x \<and> Q x)) \<Longrightarrow> mset (filter P xs) + mset (filter Q xs) = mset (filter (\<lambda>x. P x \<or> Q x) xs)"
  by (induction xs) auto

lemma scope_groups:
  "distinct ks \<Longrightarrow> mset (concat (map (\<lambda>s. filter (\<lambda>f. fd_scope f = s \<and> P f) xs) ks)) =
     mset (filter (\<lambda>f. fd_scope f \<in> set ks \<and> P f) xs)"
proof (induction ks)
  case (Cons k ks)
  then have "mset (concat (map (\<lambda>s. filter (\<lambda>f. fd_scope f = s \<and> P f) xs) (k # ks))) =
      mset (filter (\<lambda>f. fd_scope f = k \<and> P f) xs) + mset (filter (\<lambda>f. fd_scope f \<in> set ks \<and> P f) xs)"
    by simp
  also have "\<dots> = mset (filter (\<lambda>f. fd_scope f = k \<and> P f \<or> fd_scope f \<in> set ks \<and> P f) xs)"
    by (rule filter_apart) (use Cons.prems in auto)
  also have "(\<lambda>f. fd_scope f = k \<and> P f \<or> fd_scope f \<in> set ks \<and> P f) = (\<lambda>f. fd_scope f \<in> set (k # ks) \<and> P f)"
    by auto
  finally show ?case .
qed simp

text \<open>
  The layout of a report shows every problem exactly once, under the host or under its instance,
  after a line with the numbers of the report.
\<close>
theorem layout_shows_problems:
  "mset (List.map_filter shown (format_diagnostics r)) = mset (filter is_problem (rp_checks r)) \<and>
   hd (format_diagnostics r) = Summary (length (rp_checks r)) (rp_problems r) (rp_scanned r)"
proof -
  let ?others = "filter (\<lambda>f. fd_scope f \<noteq> ''host'') (rp_checks r)"
  let ?ks = "firsts (map fd_scope ?others)"
  have "List.map_filter shown (concat (map (\<lambda>s. emit_group (Some s) (filter (\<lambda>f. fd_scope f = s) xs)) ks)) =
      concat (map (\<lambda>s. filter is_problem (filter (\<lambda>f. fd_scope f = s) xs)) ks)" for ks xs
    by (induction ks) (simp_all add: shown_append shown_group List.map_filter_simps)
  then have "List.map_filter shown (format_diagnostics r) =
      filter is_problem (filter (\<lambda>f. fd_scope f = ''host'') (rp_checks r)) @
      concat (map (\<lambda>s. filter is_problem (filter (\<lambda>f. fd_scope f = s) ?others)) ?ks)"
    unfolding format_diagnostics_def Let_def by (simp only: shown_append shown_group) (simp add: List.map_filter_simps)
  also have "\<dots> = filter (\<lambda>f. fd_scope f = ''host'' \<and> is_problem f) (rp_checks r) @
      concat (map (\<lambda>s. filter (\<lambda>f. fd_scope f = s \<and> is_problem f) ?others) ?ks)"
    by (simp only: filter_filter conj_assoc)
  finally have "mset (List.map_filter shown (format_diagnostics r)) =
      mset (filter (\<lambda>f. fd_scope f = ''host'' \<and> is_problem f) (rp_checks r)) + mset (filter (\<lambda>f. fd_scope f \<in> set ?ks \<and> is_problem f) ?others)"
    by (simp only: mset_append scope_groups [OF distinct_firsts])
  also have "filter (\<lambda>f. fd_scope f \<in> set ?ks \<and> is_problem f) ?others = filter (\<lambda>f. fd_scope f \<noteq> ''host'' \<and> is_problem f) (rp_checks r)"
    by (auto intro!: filter_cong)
  also have "mset (filter (\<lambda>f. fd_scope f = ''host'' \<and> is_problem f) (rp_checks r)) + mset (filter (\<lambda>f. fd_scope f \<noteq> ''host'' \<and> is_problem f) (rp_checks r)) =
      mset (filter (\<lambda>f. fd_scope f = ''host'' \<and> is_problem f \<or> fd_scope f \<noteq> ''host'' \<and> is_problem f) (rp_checks r))"
    by (rule filter_apart) auto
  also have "(\<lambda>f. fd_scope f = ''host'' \<and> is_problem f \<or> fd_scope f \<noteq> ''host'' \<and> is_problem f) = is_problem" by auto
  finally show ?thesis by (simp add: format_diagnostics_def Let_def)
qed

section \<open>Examples\<close>

text \<open>A host without AppArmor, podman and PVE, on which nothing runs.\<close>

definition quiet_view :: host_view where
  "quiet_view = \<lparr>node_name = None, conf_files = (\<lambda>_. False), run_status = (\<lambda>_. Some (0, [])), vm_alive = (\<lambda>_. False)\<rparr>"

definition quiet_host :: health where
  "quiet_host = \<lparr>hp_apparmor = Inr False, hp_profile = None, hp_parser = Inr False, hp_holds = Inl FileNotFoundErrorC,
     hp_hold_ids = Inl FileNotFoundErrorC, hp_is_pve = Inr False, hp_vmids = Inl PermissionErrorC,
     hp_conf = (\<lambda>_ _. Inr False), hp_hosts = (\<lambda>_ _. Inr quiet_view), hp_kill = (\<lambda>_. Inl ProcessLookupErrorC),
     hp_ismount = (\<lambda>_. Inr False), hp_exists = (\<lambda>_. Inr False), hp_which = (\<lambda>_. None),
     hp_base = (\<lambda>b. mk_path (case b of LXC_BASE \<Rightarrow> ''/var/lib/lxc'' | VM_BASE \<Rightarrow> ''/var/lib/kento/vm''))\<rparr>"

definition broken_store :: "string \<Rightarrow> store" where
  "broken_store n = \<lparr>lxc_base = Some [(''100'', EDir (Map.empty(''kento-image'' \<mapsto> ''i'', ''kento-name'' \<mapsto> n, ''kento-mode'' \<mapsto> ''pve'',
     ''kento-portfwd-error'' \<mapsto> ''nft failed'')))], vm_base = Some []\<rparr>"

lemma quiet_answers: "host_answers quiet_host"
proof -
  have "OSErrorC \<in> set (mro FileNotFoundErrorC)" "OSErrorC \<in> set (mro PermissionErrorC)" "OSErrorC \<in> set (mro ProcessLookupErrorC)" by code_simp+
  then show ?thesis by (simp add: host_answers_def quiet_host_def os_only_def)
qed

lemma quiet_report: "reports (enumerate_instances st name) \<Longrightarrow> \<exists>r. run_diagnostics quiet_host st name = Inr r"
  using run_reports [OF quiet_answers, of st name] by (simp add: reports_def)

lemma broken_hit:
  "scan_namespace ''web'' (lxc_base (broken_store ''web'')) \<noteq> None"
  "scan_namespace ''nope'' (lxc_base (broken_store ''web'')) = None" "scan_namespace ''nope'' (vm_base (broken_store ''web'')) = None"
  "validate_name ''nope'' = Inr ()" "validate_name ''web'' = Inr ()"
  by code_simp+

theorem diagnosis_always_reports_witness:
  "run_diagnostics quiet_host (broken_store ''web'') (Some ''nope'') = Inl InstanceNotFoundErrorC"
  using diagnosis_always_reports [OF quiet_answers, of "broken_store ''web''" "Some ''nope''" InstanceNotFoundErrorC]
  by (simp add: broken_hit)

theorem diagnosis_shadowed_witness:
  "instance_diagnose quiet_host ((broken_store ''web'')\<lparr>vm_base := lxc_base (broken_store ''web'')\<rparr>) False ''web'' =
     instance_diagnose quiet_host (broken_store ''web'') False ''web''"
proof -
  obtain d fs where "scan_namespace ''web'' (lxc_base (broken_store ''web'')) = Some (d, fs)" using broken_hit(1) by auto
  from diagnosis_shadowed [OF quiet_answers this] show ?thesis .
qed

theorem diagnosis_skips_host_witness:
  "(\<exists>found. instance_diagnose quiet_host (broken_store ''web'') False ''web'' = Inr found \<and> \<not> diagnosis_ok found) \<and>
   (\<exists>found. instance_diagnose quiet_host (broken_store ''host'') False ''host'' = Inr found \<and> diagnosis_ok found)"
proof -
  have hit: "scan_namespace n (lxc_base (broken_store n)) = Some (''100'', Map.empty(''kento-image'' \<mapsto> ''i'', ''kento-name'' \<mapsto> n,
        ''kento-mode'' \<mapsto> ''pve'', ''kento-portfwd-error'' \<mapsto> ''nft failed''))" if "file_text n = n" "n \<noteq> ''100''" for n
    using that by (simp add: scan_namespace_def broken_store_def recorded_name_def)
  have name: "nonempty_or (read_meta (Map.empty(''kento-image'' \<mapsto> ''i'', ''kento-name'' \<mapsto> n,
        ''kento-mode'' \<mapsto> ''pve'', ''kento-portfwd-error'' \<mapsto> ''nft failed'')) ''kento-name'') ''100'' = n" if "file_text n = n" "n \<noteq> []" for n
    using that by (simp add: nonempty_or_def read_meta_def)
  have words: "file_text ''web'' = ''web''" "file_text ''host'' = ''host''" "validate_name ''host'' = Inr ()" by code_simp+
  have found: "\<exists>found. instance_diagnose quiet_host (broken_store n) False n = Inr found" if "file_text n = n" "n \<noteq> ''100''" "validate_name n = Inr ()" for n
    using quiet_report [of "broken_store n" "Some n"] hit [OF that(1,2)] that(3)
    by (auto simp: instance_diagnose_def reports_def enumerate_instances_def)
  from found [of "''web''"] obtain f1 where f1: "instance_diagnose quiet_host (broken_store ''web'') False ''web'' = Inr f1"
    using words broken_hit(5) by auto
  from found [of "''host''"] obtain f2 where f2: "instance_diagnose quiet_host (broken_store ''host'') False ''host'' = Inr f2"
    using words by auto
  have "\<not> diagnosis_ok f1"
    using diagnosis_skips_host [OF hit name _ f1, of "''nft failed''"] words by simp
  moreover have "diagnosis_ok f2"
    using diagnosis_skips_host [OF hit name _ f2, of "''nft failed''"] words by (simp add: diagnosis_ok_def problems_def)
  ultimately show ?thesis using f1 f2 by blast
qed

theorem diagnosis_warns_of_orphans_witness:
  "\<exists>r (os :: orphan list). run_diagnostics quiet_host (broken_store ''web'') None = Inr r \<and> os \<noteq> [] \<and>
     map (\<lambda>f. (fd_scope f, warned_vmid f)) (filter orphan_warning (rp_checks r)) = map (\<lambda>x. (or_name x, or_vmid x)) os"
proof -
  obtain r where r: "run_diagnostics quiet_host (broken_store ''web'') None = Inr r"
    using quiet_report [of "broken_store ''web''" None] by (auto simp: enumerate_instances_def)
  from diagnosis_warns_of_orphans [OF r] obtain os where os: "find_orphans (hp_conf quiet_host) (broken_store ''web'') None = Inr os"
      "map (\<lambda>f. (fd_scope f, warned_vmid f)) (filter orphan_warning (rp_checks r)) = map (\<lambda>x. (or_name x, or_vmid x)) os" by blast
  have "(case find_orphans (\<lambda>_ _. Inr False) (broken_store ''web'') None of Inr xs \<Rightarrow> xs \<noteq> [] | Inl e \<Rightarrow> False)" by code_simp
  with os(1) have "os \<noteq> []" by (simp add: quiet_host_def)
  from conjI [OF r conjI [OF this os(2)]] show ?thesis by (intro exI)
qed

theorem diagnosis_counts_problems_witness:
  "\<exists>r. run_diagnostics quiet_host (broken_store ''web'') None = Inr r \<and>
     (diagnosis_ok (diagnosis_from_report r None None) \<longleftrightarrow> rp_problems r = 0)"
proof -
  obtain r where r: "run_diagnostics quiet_host (broken_store ''web'') None = Inr r"
    using quiet_report [of "broken_store ''web''" None] by (auto simp: enumerate_instances_def)
  from r conjunct1 [OF conjunct2 [OF diagnosis_counts_problems [OF r]]] show ?thesis by (intro exI [of _ r] conjI)
qed

end
