(* ===== verification/Urlref.thy ===== *)
theory Urlref imports References begin

text \<open>
  The member of the reference family for \<^verbatim>\<open>http\<close> and \<^verbatim>\<open>https\<close> locators in \<^verbatim>\<open>_references.py\<close>, the split
  of a URL by the standard library it rests on, and the dispatch by scheme.  Whether the text in
  brackets is an IPv6 address is an argument (the library's address parser).  No character of the
  model changes under the compatibility normalisation into one of the delimiters the library
  looks for, so that check is left out.
\<close>

section \<open>Splitting a URL\<close>

record split_url =
  us_scheme :: string
  us_netloc :: string
  us_path :: string
  us_query :: string
  us_fragment :: string

definition unsafe_char :: "char \<Rightarrow> bool" where "unsafe_char c \<longleftrightarrow> c = TAB \<or> c = CR \<or> c = LF"

definition url_text :: "string \<Rightarrow> string" where
  "url_text s = filter (\<lambda>c. \<not> unsafe_char c) (dropWhile (\<lambda>c. cp c \<le> 32) s)"

definition url_scheme :: "string \<Rightarrow> string \<times> string" where
  "url_scheme u =
     (let (pre, colon, rest) = py_partition (CHR '':'') u
      in if colon \<and> pre \<noteq> [] \<and> is_alpha (hd pre) \<and> list_all is_scheme_char pre then (py_lower pre, rest) else ([], u))"

definition url_delim :: "char \<Rightarrow> bool" where "url_delim c \<longleftrightarrow> c = CHR ''/'' \<or> c = CHR ''?'' \<or> c = CHR ''#''"

definition bracketed :: "string \<Rightarrow> string" where
  "bracketed netloc = fst (py_partition (CHR '']'') (snd (snd (py_partition (CHR ''['') netloc))))"

definition check_netloc :: "(string \<Rightarrow> bool) \<Rightarrow> string \<Rightarrow> exc + unit" where
  "check_netloc ipv6 netloc =
     (if (CHR ''['' \<in> set netloc) \<noteq> (CHR '']'' \<in> set netloc) then Inl ValueErrorC
      else if CHR ''['' \<in> set netloc \<and> \<not> ipv6 (bracketed netloc) then Inl ValueErrorC
      else Inr ())"

definition urlsplit :: "(string \<Rightarrow> bool) \<Rightarrow> string \<Rightarrow> exc + split_url" where
  "urlsplit ipv6 s =
     (let (sch, rest) = url_scheme (url_text s);
          has = (take 2 rest = ''//'');
          netloc = (if has then takeWhile (\<lambda>c. \<not> url_delim c) (drop 2 rest) else []);
          rest2 = (if has then dropWhile (\<lambda>c. \<not> url_delim c) (drop 2 rest) else rest)
      in bindE (check_netloc ipv6 netloc) (\<lambda>_.
           let (before, _, fragment) = py_partition (CHR ''#'') rest2;
               (pth, _, query) = py_partition (CHR ''?'') before
           in Inr \<lparr>us_scheme = sch, us_netloc = netloc, us_path = pth, us_query = query, us_fragment = fragment\<rparr>))"

definition netloc_userinfo :: "string \<Rightarrow> string option \<times> string option" where
  "netloc_userinfo netloc =
     (let (userinfo, have_info, _) = py_rpartition (CHR ''@'') netloc
      in if have_info then (let (u, have_password, pw) = py_partition (CHR '':'') userinfo
                            in (Some u, if have_password then Some pw else None))
         else (None, None))"

definition netloc_hostinfo :: "string \<Rightarrow> string \<times> string" where
  "netloc_hostinfo netloc =
     (let (_, _, hostinfo) = py_rpartition (CHR ''@'') netloc;
          (_, open_br, rest) = py_partition (CHR ''['') hostinfo
      in if open_br then (let (h, _, after) = py_partition (CHR '']'') rest; (_, _, p) = py_partition (CHR '':'') after in (h, p))
         else (let (h, _, p) = py_partition (CHR '':'') hostinfo in (h, p)))"

definition netloc_hostname :: "string \<Rightarrow> string option" where
  "netloc_hostname netloc =
     (let h = fst (netloc_hostinfo netloc); (a, percent, zone) = py_partition (CHR ''%'') h
      in if h = [] then None else Some (py_lower a @ (if percent then ''%'' else []) @ zone))"

definition netloc_port :: "string \<Rightarrow> exc + int option" where
  "netloc_port netloc =
     (let p = snd (netloc_hostinfo netloc)
      in if p = [] then Inr None
         else if \<not> list_all is_digit p then Inl ValueErrorC
         else case py_int p of None \<Rightarrow> Inl ValueErrorC
              | Some n \<Rightarrow> if 0 \<le> n \<and> n \<le> 65535 then Inr (Some n) else Inl ValueErrorC)"

section \<open>The reference\<close>

record url_ref =
  url_endpoint :: endpoint
  url_path :: string
  url_name :: string
  url_version :: "string option"
  url_secure :: bool
  url_query :: string
  url_fragment :: string

definition url_pathname :: "url_ref \<Rightarrow> string" where
  "url_pathname r = (if url_path r \<noteq> [] then url_path r @ ''/'' @ url_name r else url_name r)"

definition url_segments :: "string \<Rightarrow> string list" where
  "url_segments p = filter (\<lambda>s. s \<noteq> []) (py_split (CHR ''/'') p)"

definition path_and_leaf :: "string list \<Rightarrow> string \<times> string" where
  "path_and_leaf segments = (if segments = [] then ([], []) else (py_join ''/'' (butlast segments), last segments))"

definition split_name_version :: "string \<Rightarrow> string \<Rightarrow> ref_exn + (string \<times> string option)" where
  "split_name_version name original =
     (if CHR ''+'' \<notin> set name then Inr (name, None)
      else let (base, _, version) = py_rpartition (CHR ''+'') name
           in if version = [] then Inl (Malformed (''empty version label after '' @ quoted ''+'') original ''version'')
              else Inr (base, Some version))"

text \<open>The text of the library's error is left out of the message.\<close>

definition parse_authority :: "string \<Rightarrow> string \<Rightarrow> ref_exn + endpoint" where
  "parse_authority netloc original =
     (case netloc_port netloc of
        Inl e \<Rightarrow> Inl (Malformed ''malformed authority'' original ''host'')
      | Inr p \<Rightarrow> (case netloc_hostname netloc of
          None \<Rightarrow> Inl (Malformed ''http(s) reference requires a host'' original ''host'')
        | Some hostname \<Rightarrow>
           (let h = (if CHR '':'' \<in> set hostname \<and> hd hostname \<noteq> CHR ''['' then ''['' @ hostname @ '']'' else hostname);
                (u, pw) = netloc_userinfo netloc
            in make_endpoint h p u pw)))"

definition url_parse_raw :: "(string \<Rightarrow> bool) \<Rightarrow> string \<Rightarrow> ref_exn + url_ref" where
  "url_parse_raw ipv6 s =
     (if s = [] then Inl (Malformed ''empty reference'' s ''reference'')
      else case urlsplit ipv6 s of
        Inl e \<Rightarrow> Inl (Panic e)
      | Inr sp \<Rightarrow>
         (if us_scheme sp \<notin> {''http'', ''https''}
          then Inl (Malformed (''not an http(s) URL (scheme '' @ py_repr (us_scheme sp) @ '')'') s ''scheme'')
          else bindE (parse_authority (us_netloc sp) s) (\<lambda>e.
               let (pth, leaf) = path_and_leaf (url_segments (us_path sp))
               in bindE (split_name_version leaf s) (\<lambda>(name, version).
                  Inr \<lparr>url_endpoint = e, url_path = pth, url_name = name, url_version = version,
                       url_secure = (us_scheme sp = ''https''), url_query = us_query sp, url_fragment = us_fragment sp\<rparr>))))"

definition url_parse :: "(string \<Rightarrow> bool) \<Rightarrow> string \<Rightarrow> exc + url_ref result" where
  "url_parse ipv6 s = (case url_parse_raw ipv6 s of
       Inl (Malformed msg val prodn) \<Rightarrow> malformed_error msg val prodn
     | Inl (Panic e) \<Rightarrow> Inl e
     | Inr r \<Rightarrow> make_Ok r [])"

definition url_render :: "url_ref \<Rightarrow> string" where
  "url_render r =
     (if url_secure r then ''https'' else ''http'') @ ''://'' @ render_endpoint True (url_endpoint r) @ ''/'' @ url_pathname r @
     (case url_version r of None \<Rightarrow> [] | Some v \<Rightarrow> ''+'' @ v) @
     (if url_query r \<noteq> [] then ''?'' @ url_query r else []) @
     (if url_fragment r \<noteq> [] then ''#'' @ url_fragment r else [])"

section \<open>Normal forms\<close>

definition upper_hex :: "char \<Rightarrow> char" where
  "upper_hex c = (if is_lower c then char_of (cp c - 32) else c)"

fun normalize_pct :: "string \<Rightarrow> string" where
  "normalize_pct (c # a # b # s) =
     (if c = CHR ''%'' \<and> is_hex a \<and> is_hex b then CHR ''%'' # upper_hex a # upper_hex b # normalize_pct s
      else c # normalize_pct (a # b # s))"
| "normalize_pct s = s"

text \<open>\<^verbatim>\<open>posixpath.normpath\<close> of an absolute path, without its leading slashes.\<close>

fun collapse :: "string list \<Rightarrow> string list \<Rightarrow> string list" where
  "collapse acc [] = rev acc"
| "collapse acc (c # cs) =
     (if c = [] \<or> c = ''.'' then collapse acc cs
      else if c = ''..'' then collapse (drop 1 acc) cs
      else collapse (c # acc) cs)"

definition normalize_url_path :: "string \<Rightarrow> string" where
  "normalize_url_path p = (if p = [] then [] else py_join ''/'' (collapse [] (py_split (CHR ''/'') (normalize_pct p))))"

definition url_default_port :: "bool \<Rightarrow> int" where "url_default_port secure = (if secure then 443 else 80)"

definition url_normalize :: "url_ref \<Rightarrow> ref_exn + url_ref" where
  "url_normalize r =
     (let e = url_endpoint r;
          p = (if port e = Some (url_default_port (url_secure r)) then None else port e)
      in bindE (make_endpoint (py_lower (host e)) p (username e) (password e)) (\<lambda>e'.
           let (pth, leaf) = path_and_leaf (url_segments (normalize_url_path (url_pathname r)))
           in Inr \<lparr>url_endpoint = e', url_path = pth, url_name = leaf, url_version = url_version r, url_secure = url_secure r,
                   url_query = normalize_pct (url_query r), url_fragment = normalize_pct (url_fragment r)\<rparr>))"

section \<open>Dispatch\<close>

datatype source_ref = OciSource oci_ref | UrlSource url_ref

definition source_parse :: "(string \<Rightarrow> bool) \<Rightarrow> string \<Rightarrow> exc + source_ref result" where
  "source_parse ipv6 s =
     (case split_scheme s of
        (None, _) \<Rightarrow> bindE (oci_parse s) (\<lambda>r. Inr (map_result OciSource r))
      | (Some sch, rest) \<Rightarrow>
          if sch = ''oci'' then bindE (oci_parse rest) (\<lambda>r. Inr (map_result OciSource r))
          else if sch = ''http'' \<or> sch = ''https'' then bindE (url_parse ipv6 s) (\<lambda>r. Inr (map_result UrlSource r))
          else if sch = ''file'' then Inl NotImplementedErrorC
          else malformed_error (''unknown source-reference scheme '' @ py_repr sch) s ''scheme'')"

section \<open>The parts of a split\<close>

definition safe :: "string \<Rightarrow> bool" where "safe s \<longleftrightarrow> (\<forall>c \<in> set s. \<not> unsafe_char c)"

lemma safe_simps [simp]: "safe []" "safe (s @ t) \<longleftrightarrow> safe s \<and> safe t" "safe (c # s) \<longleftrightarrow> \<not> unsafe_char c \<and> safe s"
  by (auto simp: safe_def)

lemma safe_sub: "safe t \<Longrightarrow> set s \<subseteq> set t \<Longrightarrow> safe s" by (auto simp: safe_def)

lemma partition_parts:
  "set (fst (py_partition d s)) \<subseteq> set s" "d \<notin> set (fst (py_partition d s))" "set (snd (snd (py_partition d s))) \<subseteq> set s"
  by (auto simp: py_partition_def dest: set_takeWhileD in_set_dropD set_dropWhileD)

lemma safe_url_text: "safe (url_text s)" by (auto simp: safe_def url_text_def)

lemma url_text_safe: "safe s \<Longrightarrow> s \<noteq> [] \<Longrightarrow> 32 < cp (hd s) \<Longrightarrow> url_text s = s"
  by (cases s) (auto simp: url_text_def safe_def filter_id_conv)

lemma url_scheme_rest: "set (snd (url_scheme u)) \<subseteq> set u"
  using partition_parts(3) [of "CHR '':''" u] by (auto simp: url_scheme_def Let_def split: prod.splits if_splits)

lemma urlsplit_parts:
  assumes "urlsplit ipv6 s = Inr sp"
  shows "safe (us_netloc sp)" "safe (us_path sp)" "safe (us_query sp)" "safe (us_fragment sp)"
    "\<forall>c \<in> set (us_netloc sp). \<not> url_delim c" "check_netloc ipv6 (us_netloc sp) = Inr ()"
    "CHR ''#'' \<notin> set (us_path sp)" "CHR ''?'' \<notin> set (us_path sp)" "CHR ''#'' \<notin> set (us_query sp)"
proof -
  obtain sch rest where sr: "url_scheme (url_text s) = (sch, rest)" by (cases "url_scheme (url_text s)") auto
  have rest: "safe rest" using safe_sub [OF safe_url_text url_scheme_rest, of s] by (simp add: sr)
  define has where "has = (take 2 rest = ''//'')"
  define n where "n = (if has then takeWhile (\<lambda>c. \<not> url_delim c) (drop 2 rest) else [])"
  define t where "t = (if has then dropWhile (\<lambda>c. \<not> url_delim c) (drop 2 rest) else rest)"
  obtain before b1 f where f: "py_partition (CHR ''#'') t = (before, b1, f)" by (cases "py_partition (CHR ''#'') t") auto
  obtain pth b2 q where q: "py_partition (CHR ''?'') before = (pth, b2, q)" by (cases "py_partition (CHR ''?'') before") auto
  have sp: "check_netloc ipv6 n = Inr ()" "sp = \<lparr>us_scheme = sch, us_netloc = n, us_path = pth, us_query = q, us_fragment = f\<rparr>"
    using assms by (auto simp: urlsplit_def sr Let_def f q has_def [symmetric] n_def [symmetric] t_def [symmetric])
  have n: "safe n" "\<forall>c \<in> set n. \<not> url_delim c"
    using rest by (auto simp: n_def safe_def dest: set_takeWhileD in_set_dropD)
  have t: "safe t" using rest by (auto simp: t_def safe_def dest: set_dropWhileD in_set_dropD)
  note pf = partition_parts [of "CHR ''#''" t, unfolded f] and pq = partition_parts [of "CHR ''?''" before, unfolded q]
  show "safe (us_netloc sp)" "safe (us_path sp)" "safe (us_query sp)" "safe (us_fragment sp)"
    "\<forall>c \<in> set (us_netloc sp). \<not> url_delim c" "check_netloc ipv6 (us_netloc sp) = Inr ()"
    "CHR ''#'' \<notin> set (us_path sp)" "CHR ''?'' \<notin> set (us_path sp)" "CHR ''#'' \<notin> set (us_query sp)"
    using n sp pf pq safe_sub [OF t] by (auto simp: safe_def)
qed

lemma urlsplit_render:
  assumes "sch = ''http'' \<or> sch = ''https''" "safe n" "\<forall>c \<in> set n. \<not> url_delim c" "check_netloc ipv6 n = Inr ()"
    "safe p" "CHR ''#'' \<notin> set p" "CHR ''?'' \<notin> set p" "safe q" "CHR ''#'' \<notin> set q" "safe f"
  shows "urlsplit ipv6 (sch @ ''://'' @ n @ ''/'' @ p @ (if q \<noteq> [] then ''?'' @ q else []) @ (if f \<noteq> [] then ''#'' @ f else [])) =
    Inr \<lparr>us_scheme = sch, us_netloc = n, us_path = ''/'' @ p, us_query = q, us_fragment = f\<rparr>"
proof -
  let ?rest = "''/'' @ p @ (if q \<noteq> [] then ''?'' @ q else []) @ (if f \<noteq> [] then ''#'' @ f else [])"
  have lit: "safe ''http''" "safe ''https''" "safe ''://''" "\<not> unsafe_char (CHR ''/'')" "\<not> unsafe_char (CHR ''?'')" "\<not> unsafe_char (CHR ''#'')" "\<not> unsafe_char (CHR '':'')"
    by (simp_all add: safe_def unsafe_char_def)
  have "safe (sch @ ''://'' @ n @ ?rest)" using assms lit by auto
  then have plain: "url_text (sch @ ''://'' @ n @ ?rest) = sch @ ''://'' @ n @ ?rest"
    by (rule url_text_safe) (use assms(1) in \<open>auto simp: cp_def\<close>)
  have "url_scheme (''http'' @ CHR '':'' # u) = (''http'', u)" "url_scheme (''https'' @ CHR '':'' # u) = (''https'', u)" for u
  proof -
    have "list_all is_scheme_char ''http''" "list_all is_scheme_char ''https''" "is_alpha (CHR ''h'')" "py_lower ''http'' = ''http''" "py_lower ''https'' = ''https''" by code_simp+
    moreover have "py_partition (CHR '':'') (''http'' @ CHR '':'' # u) = (''http'', True, u)" "py_partition (CHR '':'') (''https'' @ CHR '':'' # u) = (''https'', True, u)"
      by (rule py_partition_at, simp)+
    ultimately show "url_scheme (''http'' @ CHR '':'' # u) = (''http'', u)" "url_scheme (''https'' @ CHR '':'' # u) = (''https'', u)"
      by (simp_all only: url_scheme_def Let_def prod.case) auto
  qed
  then have sch: "url_scheme (sch @ CHR '':'' # u) = (sch, u)" for u using assms(1) by auto
  have net: "takeWhile (\<lambda>c. \<not> url_delim c) (n @ ?rest) = n" "dropWhile (\<lambda>c. \<not> url_delim c) (n @ ?rest) = ?rest"
    using assms(3) by (simp_all add: takeWhile_append dropWhile_append url_delim_def)
  let ?before = "''/'' @ p @ (if q \<noteq> [] then ''?'' @ q else [])"
  have "CHR ''#'' \<notin> set ?before" using assms(6,9) by simp
  then have "py_partition (CHR ''#'') ?rest = (?before, f \<noteq> [], f)"
    using py_partition_at [of "CHR ''#''" ?before f] py_partition_none [of "CHR ''#''" ?before] by (cases "f = []") simp_all
  moreover have "py_partition (CHR ''?'') ?before = (''/'' @ p, q \<noteq> [], q)"
    using py_partition_at [of "CHR ''?''" "''/'' @ p" q] py_partition_none [of "CHR ''?''" "''/'' @ p"] assms(7) by (cases "q = []") simp_all
  ultimately show ?thesis unfolding urlsplit_def plain using sch [of "''//'' @ n @ ?rest"] net assms(4)
    by (simp add: Let_def del: py_partition_at)
qed

section \<open>Hosts\<close>

definition plain_host_char :: "char \<Rightarrow> bool" where "plain_host_char c \<longleftrightarrow> is_alnum c \<or> c = CHR ''-'' \<or> c = CHR ''.''"
definition ipv6_char :: "char \<Rightarrow> bool" where "ipv6_char c \<longleftrightarrow> is_hex c \<or> c = CHR '':'' \<or> c = CHR ''.''"

lemma bracketed_rx: "rx_match IPV6_BRACKETED h \<Longrightarrow> \<exists>inner. h = ''['' @ inner @ '']'' \<and> (\<forall>c \<in> set inner. ipv6_char c)"
  using Rep_Cls [of "\<lambda>c. is_hex c \<or> c = CHR '':'' \<or> c = CHR ''.''"]
  unfolding rx_match_lang IPV6_BRACKETED_def by (fastforce simp: Chr_def Plus_def ipv6_char_def)

lemma host_shape:
  assumes "validate_host h = Inr ()" "safe h"
  shows "(\<exists>inner. h = ''['' @ inner @ '']'' \<and> (\<forall>c \<in> set inner. ipv6_char c)) \<or> (\<forall>c \<in> set h. plain_host_char c)"
proof -
  from assms(1) have "anchored (rx_match HOST_RX) h" by (auto simp: validate_host_def split: if_splits)
  then have "rx_match HOST_RX h"
  proof (cases rule: anchored_cases)
    case (2 t)
    with assms(2) show ?thesis by (simp add: unsafe_char_def)
  qed simp
  then have "rx_match IPV6_BRACKETED h \<or> rx_match (Alt DOMAIN_NAME IPV4) h" by (simp add: HOST_RX_def rx_match_lang)
  then show ?thesis
  proof
    assume "rx_match (Alt DOMAIN_NAME IPV4) h"
    from rx_match_chars [OF this] have "\<forall>c \<in> set h. plain_host_char c"
      by (auto simp: rx_defs plain_host_char_def is_alnum_def rx_chars_Times rx_chars_UpTo)
    then show ?thesis ..
  qed (use bracketed_rx in blast)
qed


section \<open>The authority, rendered and read again\<close>

definition user_prefix :: "string option \<Rightarrow> string" where
  "user_prefix uo = (case uo of None \<Rightarrow> [] | Some u \<Rightarrow> u @ ''@'')"

definition port_text :: "int option \<Rightarrow> string" where
  "port_text po = (case po of None \<Rightarrow> [] | Some n \<Rightarrow> '':'' @ int_str n)"

lemma render_no_password: "password e = None \<Longrightarrow> render_endpoint True e = user_prefix (username e) @ host e @ port_text (port e)"
  by (simp add: render_endpoint_def user_prefix_def port_text_def split: option.splits)

lemma userinfo_split:
  assumes "netloc_userinfo netloc = (uo, None)"
  obtains hi where "netloc = user_prefix uo @ hi" "CHR ''@'' \<notin> set hi" "\<And>u. uo = Some u \<Longrightarrow> CHR '':'' \<notin> set u"
proof (cases "CHR ''@'' \<in> set netloc")
  case False
  with assms show ?thesis by (auto intro: that simp: netloc_userinfo_def py_rpartition_none user_prefix_def)
next
  case True
  then obtain ui hi where s: "netloc = ui @ CHR ''@'' # hi" "CHR ''@'' \<notin> set hi" "py_rpartition (CHR ''@'') netloc = (ui, True, hi)"
    by (rule py_rpartition_split)
  have "CHR '':'' \<notin> set ui"
  proof
    assume "CHR '':'' \<in> set ui"
    then obtain a b where "py_partition (CHR '':'') ui = (a, True, b)" by (rule py_partition_split)
    with assms s(3) show False by (simp add: netloc_userinfo_def)
  qed
  with assms s show ?thesis by (auto intro!: that simp: netloc_userinfo_def py_partition_none user_prefix_def)
qed

lemma userinfo_join:
  assumes "CHR ''@'' \<notin> set hi" "\<And>u. uo = Some u \<Longrightarrow> CHR '':'' \<notin> set u"
  shows "netloc_userinfo (user_prefix uo @ hi) = (uo, None)" "netloc_hostinfo (user_prefix uo @ hi) = netloc_hostinfo hi"
  using assms by (auto simp: netloc_userinfo_def netloc_hostinfo_def user_prefix_def py_rpartition_none py_partition_none split: option.splits)

lemma hostinfo_bracketed:
  assumes "CHR ''@'' \<notin> set t" "CHR ''['' \<in> set t"
  obtains a b where "t = a @ CHR ''['' # b" "CHR ''['' \<notin> set a" "fst (netloc_hostinfo t) = fst (py_partition (CHR '']'') b)"
proof -
  obtain a b where "t = a @ CHR ''['' # b" "CHR ''['' \<notin> set a" "py_partition (CHR ''['') t = (a, True, b)"
    using assms(2) by (rule py_partition_split)
  with assms(1) show ?thesis by (intro that) (auto simp: netloc_hostinfo_def py_rpartition_none case_prod_beta simp del: py_partition_at)
qed

lemma hostinfo_plain:
  assumes "CHR ''@'' \<notin> set t" "CHR ''['' \<notin> set t"
  shows "netloc_hostinfo t = (fst (py_partition (CHR '':'') t), snd (snd (py_partition (CHR '':'') t)))"
  using assms by (simp add: netloc_hostinfo_def py_rpartition_none py_partition_none case_prod_beta)

lemma port_text_partition: "\<forall>n. po = Some n \<longrightarrow> 0 \<le> n \<Longrightarrow> CHR '':'' \<notin> set h \<Longrightarrow>
  py_partition (CHR '':'') (h @ port_text po) = (h, po \<noteq> None, case po of None \<Rightarrow> [] | Some n \<Rightarrow> int_str n)"
  by (auto simp: port_text_def py_partition_none split: option.splits)

lemma int_str_digits: "0 \<le> n \<Longrightarrow> c \<in> set (int_str n) \<Longrightarrow> is_digit c"
  using nat_str_digits by (auto simp: int_str_def)

lemma port_text_chars: "\<forall>n. po = Some n \<longrightarrow> 0 \<le> n \<Longrightarrow> c \<in> set (port_text po) \<Longrightarrow> is_digit c \<or> c = CHR '':''"
  by (auto simp: port_text_def int_str_digits split: option.splits)

lemma hostinfo_rendered:
  assumes "\<forall>n. po = Some n \<longrightarrow> 0 \<le> n"
  shows "\<forall>c \<in> set inner. ipv6_char c \<Longrightarrow>
      netloc_hostinfo (''['' @ inner @ '']'' @ port_text po) = (inner, case po of None \<Rightarrow> [] | Some n \<Rightarrow> int_str n)"
    and "\<forall>c \<in> set h. plain_host_char c \<Longrightarrow> netloc_hostinfo (h @ port_text po) = (h, case po of None \<Rightarrow> [] | Some n \<Rightarrow> int_str n)"
proof -
  note pt = port_text_chars [OF assms]
  have digs: "\<not> is_digit (CHR ''@'')" "\<not> is_digit (CHR ''['')" "\<not> is_digit (CHR '']'')" by (simp_all add: is_digit_def cp_def)
  { assume i: "\<forall>c \<in> set inner. ipv6_char c"
    have c6: "\<not> ipv6_char (CHR ''@'')" "\<not> ipv6_char (CHR '']'')"
      by (simp_all add: ipv6_char_def is_hex_def is_lower_hex_def is_digit_def cp_def)
    have "CHR ''@'' \<notin> set (''['' @ inner @ '']'' @ port_text po)" using i c6 pt digs by auto
    moreover have "py_partition (CHR '']'') (inner @ CHR '']'' # port_text po) = (inner, True, port_text po)"
      by (rule py_partition_at) (use i c6 in blast)
    moreover have "py_partition (CHR ''['') (''['' @ inner @ '']'' @ port_text po) = ([], True, inner @ '']'' @ port_text po)"
      by (simp add: py_partition_def)
    ultimately show "netloc_hostinfo (''['' @ inner @ '']'' @ port_text po) = (inner, case po of None \<Rightarrow> [] | Some n \<Rightarrow> int_str n)"
      using port_text_partition [OF assms, of "[]"] by (simp add: netloc_hostinfo_def py_rpartition_none)
  }
  { assume h: "\<forall>c \<in> set h. plain_host_char c"
    have cp: "\<not> plain_host_char (CHR ''@'')" "\<not> plain_host_char (CHR ''['')" "\<not> plain_host_char (CHR '':'')"
      by (simp_all add: plain_host_char_def is_alnum_def is_alpha_def is_lower_def is_upper_def is_digit_def cp_def)
    have "CHR ''@'' \<notin> set (h @ port_text po)" "CHR ''['' \<notin> set (h @ port_text po)" "CHR '':'' \<notin> set h" using h cp pt digs by auto
    then show "netloc_hostinfo (h @ port_text po) = (h, case po of None \<Rightarrow> [] | Some n \<Rightarrow> int_str n)"
      using port_text_partition [OF assms, of h] by (simp add: hostinfo_plain)
  }
qed

lemma lower_char_idem [simp]: "lower_char (lower_char c) = lower_char c"
  by (auto simp: lower_char_def is_upper_def cp_char_of)

lemma py_lower_idem [simp]: "py_lower (py_lower s) = py_lower s" by (simp add: py_lower_def)

lemma py_lower_mem: "d \<in> set (py_lower s) \<longleftrightarrow> (\<exists>c \<in> set s. lower_char c = d)" by (auto simp: py_lower_def)

lemma lower_char_low: "cp c < 65 \<or> 90 < cp c \<and> cp c < 97 \<Longrightarrow> lower_char d = c \<Longrightarrow> d = c"
  by (auto simp: lower_char_def is_upper_def cp_char_of split: if_splits)

lemma py_lower_has: "cp d < 65 \<or> 90 < cp d \<and> cp d < 97 \<Longrightarrow> d \<in> set (py_lower s) \<longleftrightarrow> d \<in> set s"
proof -
  assume d: "cp d < 65 \<or> 90 < cp d \<and> cp d < 97"
  then have "lower_char c = d \<longleftrightarrow> c = d" for c
    using lower_char_low [of d c] by (auto simp: lower_char_def is_upper_def)
  then show ?thesis by (auto simp: py_lower_mem)
qed

lemma safe_lower: "safe s \<Longrightarrow> safe (py_lower s)"
  using py_lower_has [of TAB s] py_lower_has [of CR s] py_lower_has [of LF s]
  by (auto simp: safe_def unsafe_char_def cp_def)

text \<open>What a parsed authority says of its endpoint: the form the rendered authority can be read back from.\<close>

definition endpoint_form :: "(string \<Rightarrow> bool) \<Rightarrow> endpoint \<Rightarrow> bool" where
  "endpoint_form ipv6 e \<longleftrightarrow>
     validate_host (host e) = Inr () \<and> (\<forall>n. port e = Some n \<longrightarrow> 0 \<le> n \<and> n \<le> 65535) \<and>
     (\<forall>u. username e = Some u \<longrightarrow> CHR '':'' \<notin> set u \<and> safe u \<and> (\<forall>c \<in> set u. \<not> url_delim c)) \<and>
     ((\<exists>inner. host e = ''['' @ inner @ '']'' \<and> py_lower inner = inner \<and> CHR '':'' \<in> set inner \<and> ipv6 inner \<and>
        (\<forall>c \<in> set inner. ipv6_char c)) \<or>
      (py_lower (host e) = host e \<and> host e \<noteq> [] \<and> (\<forall>c \<in> set (host e). plain_host_char c)))"

lemma int_str_port: "0 \<le> n \<Longrightarrow> n \<le> 65535 \<Longrightarrow> py_int (int_str n) = Some n \<and> int_str n \<noteq> [] \<and> list_all is_digit (int_str n)"
proof -
  assume n: "0 \<le> n" "n \<le> 65535"
  then have "nat n < 10 ^ 5" by simp
  then have "length (nat_str (nat n)) \<le> 5" by (rule nat_str_length_le) simp
  then have "length (nat_str (nat n)) \<le> INT_MAX_DIGITS" by (simp add: INT_MAX_DIGITS_def)
  with n show ?thesis using nat_str_digits by (auto simp: int_str_def list_all_iff)
qed

lemma host_chars_safe:
  "ipv6_char c \<Longrightarrow> \<not> unsafe_char c \<and> \<not> url_delim c \<and> c \<noteq> CHR ''@'' \<and> c \<noteq> CHR ''['' \<and> c \<noteq> CHR '']'' \<and> c \<noteq> CHR ''%''"
  "plain_host_char c \<Longrightarrow> \<not> unsafe_char c \<and> \<not> url_delim c \<and> c \<noteq> CHR ''@'' \<and> c \<noteq> CHR ''['' \<and> c \<noteq> CHR '']'' \<and> c \<noteq> CHR ''%'' \<and> c \<noteq> CHR '':''"
  "is_digit c \<Longrightarrow> \<not> unsafe_char c \<and> \<not> url_delim c \<and> c \<noteq> CHR ''@'' \<and> c \<noteq> CHR ''['' \<and> c \<noteq> CHR '']''"
  by (auto simp: ipv6_char_def plain_host_char_def unsafe_char_def url_delim_def is_hex_def is_lower_hex_def is_alnum_def is_alpha_def
      is_lower_def is_upper_def is_digit_def cp_def)

lemma endpoint_form_reparse:
  assumes form: "endpoint_form ipv6 e" and pw: "password e = None"
    and u: "\<And>u. username e = Some u \<Longrightarrow> CHR ''['' \<notin> set u \<and> CHR '']'' \<notin> set u"
  defines "n \<equiv> render_endpoint True e"
  shows "parse_authority n orig = Inr e" "safe n" "\<forall>c \<in> set n. \<not> url_delim c" "check_netloc ipv6 n = Inr ()"
proof -
  let ?hi = "host e @ port_text (port e)" and ?digits = "case port e of None \<Rightarrow> [] | Some n \<Rightarrow> int_str n"
  have n: "n = user_prefix (username e) @ ?hi" using pw by (simp add: n_def render_no_password)
  have port: "\<forall>n. port e = Some n \<longrightarrow> 0 \<le> n" and host: "validate_host (host e) = Inr ()"
    and user: "\<And>u. username e = Some u \<Longrightarrow> CHR '':'' \<notin> set u \<and> safe u \<and> (\<forall>c \<in> set u. \<not> url_delim c)"
    using form by (auto simp: endpoint_form_def)
  have pt: "\<And>c. c \<in> set (port_text (port e)) \<Longrightarrow> \<not> unsafe_char c \<and> \<not> url_delim c \<and> c \<noteq> CHR ''@'' \<and> c \<noteq> CHR ''['' \<and> c \<noteq> CHR '']''"
    using port_text_chars [OF port] host_chars_safe(3) by (auto simp: unsafe_char_def url_delim_def)
  define hn where "hn = fst (netloc_hostinfo ?hi)"
  have hostpart: "netloc_hostinfo ?hi = (hn, ?digits) \<and> hn \<noteq> [] \<and> py_lower hn = hn \<and> CHR ''%'' \<notin> set hn \<and> hd hn \<noteq> CHR ''['' \<and>
      (if CHR '':'' \<in> set hn then ''['' @ hn @ '']'' else hn) = host e \<and>
      (\<forall>c \<in> set (host e). \<not> unsafe_char c \<and> \<not> url_delim c \<and> c \<noteq> CHR ''@'') \<and>
      check_netloc ipv6 (user_prefix (username e) @ ?hi) = Inr ()"
    using form unfolding endpoint_form_def
  proof (elim conjE disjE exE)
    fix inner assume i: "host e = ''['' @ inner @ '']''" "py_lower inner = inner" "CHR '':'' \<in> set inner" "ipv6 inner" "\<forall>c \<in> set inner. ipv6_char c"
    have "CHR ''['' \<notin> set (user_prefix (username e))" using u by (auto simp: user_prefix_def split: option.splits)
    then have "py_partition (CHR ''['') (user_prefix (username e) @ ?hi) = (user_prefix (username e), True, inner @ '']'' @ port_text (port e))"
      using py_partition_at [of "CHR ''[''" "user_prefix (username e)" "inner @ '']'' @ port_text (port e)"] i(1) by simp
    moreover have "py_partition (CHR '']'') (inner @ CHR '']'' # port_text (port e)) = (inner, True, port_text (port e))"
      by (rule py_partition_at) (use i(5) host_chars_safe(1) in blast)
    ultimately have "check_netloc ipv6 (user_prefix (username e) @ ?hi) = Inr ()"
      using i(1,4) by (simp add: check_netloc_def bracketed_def)
    moreover have "inner \<noteq> []" using i(3) by auto
    moreover have "hd inner \<noteq> CHR ''[''" using \<open>inner \<noteq> []\<close> i(5) host_chars_safe(1) by (cases inner) auto
    moreover have "netloc_hostinfo ?hi = (inner, ?digits)" using hostinfo_rendered(1) [OF port i(5)] i(1) by simp
    moreover have "\<forall>c \<in> set (host e). \<not> unsafe_char c \<and> \<not> url_delim c \<and> c \<noteq> CHR ''@''"
      using i(1,5) host_chars_safe(1) by (auto simp: unsafe_char_def url_delim_def)
    moreover have "CHR ''%'' \<notin> set inner" using i(5) host_chars_safe(1) by blast
    ultimately show ?thesis using i(1-3) by (simp add: hn_def)
  next
    assume i: "py_lower (host e) = host e" "host e \<noteq> []" "\<forall>c \<in> set (host e). plain_host_char c"
    have "CHR ''['' \<notin> set (user_prefix (username e) @ ?hi)" "CHR '']'' \<notin> set (user_prefix (username e) @ ?hi)"
      using u pt i(3) host_chars_safe(2) by (auto simp: user_prefix_def split: option.splits)
    then have "check_netloc ipv6 (user_prefix (username e) @ ?hi) = Inr ()" by (simp add: check_netloc_def)
    moreover have "hd (host e) \<noteq> CHR ''[''" using i(2,3) host_chars_safe(2) by (cases "host e") auto
    moreover have "\<forall>c \<in> set (host e). \<not> unsafe_char c \<and> \<not> url_delim c \<and> c \<noteq> CHR ''@''" "CHR ''%'' \<notin> set (host e)" "CHR '':'' \<notin> set (host e)"
      using i(3) host_chars_safe(2) by blast+
    ultimately show ?thesis using i(1,2) hostinfo_rendered(2) [OF port i(3)] by (simp add: hn_def)
  qed
  then have at: "CHR ''@'' \<notin> set ?hi" using pt by auto
  have ui: "netloc_userinfo n = (username e, None)" "netloc_hostinfo n = (hn, ?digits)"
    unfolding n using userinfo_join [OF at, of "username e"] user hostpart by auto
  have "netloc_hostname n = Some hn" using ui(2) hostpart by (simp add: netloc_hostname_def py_partition_none)
  moreover have "netloc_port n = Inr (port e)" using ui(2) form int_str_port
    by (auto simp: netloc_port_def endpoint_form_def split: option.splits)
  ultimately show "parse_authority n orig = Inr e"
    using ui(1) hostpart host port pw by (auto simp: parse_authority_def make_endpoint_parsed)
  have "\<forall>c \<in> set (host e). \<not> unsafe_char c \<and> \<not> url_delim c" using hostpart by blast
  moreover have "\<forall>c \<in> set (user_prefix (username e)). \<not> unsafe_char c \<and> \<not> url_delim c"
  proof (cases "username e")
    case (Some u)
    then have "set (user_prefix (username e)) = insert (CHR ''@'') (set u)" by (auto simp: user_prefix_def)
    then show ?thesis using user [OF Some] by (auto simp: safe_def unsafe_char_def url_delim_def)
  qed (simp add: user_prefix_def)
  ultimately have "\<forall>c \<in> set n. \<not> unsafe_char c \<and> \<not> url_delim c" using pt unfolding n set_append by blast
  then show "safe n" "\<forall>c \<in> set n. \<not> url_delim c" by (simp_all add: safe_def)
  show "check_netloc ipv6 n = Inr ()" using hostpart n by simp
qed

lemma netloc_port_range: "netloc_port netloc = Inr (Some n) \<Longrightarrow> 0 \<le> n \<and> n \<le> 65535"
  by (auto simp: netloc_port_def Let_def split: if_splits option.splits)

lemma parse_authority_parts:
  assumes "parse_authority netloc orig = Inr e"
  obtains hostname where "netloc_hostname netloc = Some hostname" "netloc_port netloc = Inr (port e)"
    "netloc_userinfo netloc = (username e, password e)" "validate_host (host e) = Inr ()"
    "host e = (if CHR '':'' \<in> set hostname \<and> hd hostname \<noteq> CHR ''['' then ''['' @ hostname @ '']'' else hostname)"
proof (cases "netloc_port netloc")
  case (Inr p)
  show ?thesis
  proof (cases "netloc_hostname netloc")
    case (Some hostname)
    obtain u pw where u: "netloc_userinfo netloc = (u, pw)" by (cases "netloc_userinfo netloc")
    with assms Inr Some have "make_endpoint (if CHR '':'' \<in> set hostname \<and> hd hostname \<noteq> CHR ''['' then ''['' @ hostname @ '']'' else hostname) p u pw = Inr e"
      by (simp add: parse_authority_def)
    then show ?thesis using Inr Some u by (intro that [of hostname]) (auto simp: make_endpoint_parsed)
  qed (use assms Inr in \<open>simp add: parse_authority_def\<close>)
qed (use assms in \<open>simp add: parse_authority_def\<close>)

lemma parse_authority_form:
  assumes parsed: "parse_authority netloc orig = Inr e"
    and net: "safe netloc" "\<forall>c \<in> set netloc. \<not> url_delim c" "check_netloc ipv6 netloc = Inr ()"
    and pw: "password e = None" and u: "\<And>u. username e = Some u \<Longrightarrow> CHR ''['' \<notin> set u \<and> CHR '']'' \<notin> set u"
    and closed: "\<And>x. ipv6 x \<Longrightarrow> ipv6 (py_lower x)"
  shows "endpoint_form ipv6 e"
proof -
  obtain hostname where h: "netloc_hostname netloc = Some hostname" "netloc_port netloc = Inr (port e)"
    "netloc_userinfo netloc = (username e, None)" "validate_host (host e) = Inr ()"
    "host e = (if CHR '':'' \<in> set hostname \<and> hd hostname \<noteq> CHR ''['' then ''['' @ hostname @ '']'' else hostname)"
    using parse_authority_parts [OF parsed] pw by metis
  obtain hi where hi: "netloc = user_prefix (username e) @ hi" "CHR ''@'' \<notin> set hi" "\<And>u. username e = Some u \<Longrightarrow> CHR '':'' \<notin> set u"
    using userinfo_split [OF h(3)] by metis
  have user: "CHR '':'' \<notin> set u \<and> safe u \<and> (\<forall>c \<in> set u. \<not> url_delim c)" if "username e = Some u" for u
    using that hi net(1,2) by (auto simp: user_prefix_def safe_def)
  define h0 where "h0 = fst (netloc_hostinfo hi)"
  obtain a pct zone where part: "py_partition (CHR ''%'') h0 = (a, pct, zone)" by (cases "py_partition (CHR ''%'') h0") auto
  have hn: "h0 \<noteq> []" "hostname = py_lower a @ (if pct then ''%'' else []) @ zone"
    using h(1) part userinfo_join(2) [OF hi(2) hi(3)] by (auto simp: netloc_hostname_def hi(1) h0_def split: if_splits)
  have set_h0: "set h0 \<subseteq> set netloc"
    using hi by (auto simp: h0_def netloc_hostinfo_def py_rpartition_none py_partition_def case_prod_beta dest!: set_takeWhileD in_set_dropD set_dropWhileD split: if_splits)
  have "set zone \<subseteq> set h0" "set a \<subseteq> set h0" using partition_parts [of "CHR ''%''" h0] part by auto
  then have "safe a" "safe zone" using safe_sub [OF net(1)] set_h0 by blast+
  then have safe_host: "safe (host e)" using h(5) hn(2) by (auto simp: safe_lower unsafe_char_def)
  have whole: "pct = False \<and> hostname = py_lower h0" if "CHR ''%'' \<notin> set hostname"
  proof -
    have "\<not> pct" using that hn(2) by auto
    with part have "CHR ''%'' \<notin> set h0" by (simp add: py_partition_def)
    with part hn(2) show ?thesis by (simp add: py_partition_none)
  qed
  from host_shape [OF h(4) safe_host] show ?thesis
  proof (elim disjE exE conjE)
    fix inner assume i: "host e = ''['' @ inner @ '']''" "\<forall>c \<in> set inner. ipv6_char c"
    show ?thesis
    proof (cases "CHR '':'' \<in> set hostname \<and> hd hostname \<noteq> CHR ''[''")
      case True
      then have hostname: "hostname = inner" using i(1) h(5) by simp
      have low: "hostname = py_lower h0" using whole i(2) hostname host_chars_safe(1) by blast
      have "CHR '':'' \<in> set h0" using True low by (simp add: py_lower_has cp_def)
      moreover have "CHR '':'' \<notin> set (fst (netloc_hostinfo hi))" if "CHR ''['' \<notin> set hi"
        using hostinfo_plain [OF hi(2) that] partition_parts(2) [of "CHR '':''" hi] by simp
      ultimately have "CHR ''['' \<in> set hi" by (auto simp: h0_def)
      then obtain x y where xy: "hi = x @ CHR ''['' # y" "CHR ''['' \<notin> set x" "h0 = fst (py_partition (CHR '']'') y)"
        using hostinfo_bracketed [OF hi(2)] unfolding h0_def by metis
      have "CHR ''['' \<notin> set (user_prefix (username e) @ x)" using u xy(2) by (auto simp: user_prefix_def split: option.splits)
      then have "py_partition (CHR ''['') ((user_prefix (username e) @ x) @ CHR ''['' # y) = (user_prefix (username e) @ x, True, y)"
        by (rule py_partition_at)
      then have "bracketed netloc = h0" by (simp add: bracketed_def hi(1) xy(1,3))
      then have "ipv6 h0" using net(3) hi(1) xy(1) by (auto simp: check_netloc_def split: if_splits)
      then have "ipv6 inner" using closed low hostname by simp
      moreover have "py_lower inner = inner" using low hostname by simp
      ultimately show ?thesis using i True hostname h(2,4) user netloc_port_range by (auto simp: endpoint_form_def)
    next
      case False
      then have "hostname = ''['' @ inner @ '']''" using h(5) i(1) by simp
      moreover then have "CHR ''%'' \<notin> set hostname" using i(2) host_chars_safe(1) by auto
      ultimately have eq: "py_lower h0 = ''['' @ inner @ '']''" using whole by simp
      have "CHR '']'' \<in> set (py_lower h0)" "CHR ''['' \<in> set (py_lower h0)" unfolding eq by simp_all
      then have br: "CHR '']'' \<in> set h0" "CHR ''['' \<in> set h0" by (simp_all add: py_lower_has cp_def)
      show ?thesis
      proof (cases "CHR ''['' \<in> set hi")
        case True
        then obtain x y where "hi = x @ CHR ''['' # y" "h0 = fst (py_partition (CHR '']'') y)"
          using hostinfo_bracketed [OF hi(2)] unfolding h0_def by metis
        with br(1) partition_parts(2) [of "CHR '']''" y] show ?thesis by simp
      next
        case no: False
        then have "CHR ''['' \<notin> set h0" using hostinfo_plain [OF hi(2) no] partition_parts(1) [of "CHR '':''" hi] by (auto simp: h0_def)
        with br(2) show ?thesis by simp
      qed
    qed
  next
    assume i: "\<forall>c \<in> set (host e). plain_host_char c"
    have "CHR ''['' \<notin> set (host e)" using i host_chars_safe(2) by blast
    then have "host e = hostname" using h(5) by (auto split: if_splits)
    moreover then have "hostname = py_lower h0" using whole i host_chars_safe(2) by blast
    ultimately show ?thesis using i h(2,4) hn(1) user netloc_port_range
      by (auto simp: endpoint_form_def py_lower_def)
  qed
qed

section \<open>Paths\<close>

definition clean_segments :: "string list \<Rightarrow> bool" where
  "clean_segments xs \<longleftrightarrow> (\<forall>x \<in> set xs. x \<noteq> [] \<and> CHR ''/'' \<notin> set x)"

definition version_text :: "string option \<Rightarrow> string" where "version_text v = (case v of None \<Rightarrow> [] | Some l \<Rightarrow> ''+'' @ l)"

lemma clean_url_segments: "clean_segments (url_segments p)"
  by (auto simp: clean_segments_def url_segments_def dest: py_split_parts)

lemma url_segments_join: "clean_segments xs \<Longrightarrow> url_segments (py_join ''/'' xs) = xs"
  by (cases "xs = []") (simp_all add: url_segments_def clean_segments_def py_split_join filter_id_conv)

lemma url_segments_slash: "url_segments (''/'' @ p) = url_segments p" by (simp add: url_segments_def)

lemma py_join_empty: "clean_segments xs \<Longrightarrow> py_join ''/'' xs = [] \<longleftrightarrow> xs = []"
  by (cases xs; cases "tl xs") (auto simp: clean_segments_def)

lemma path_and_leaf_join:
  assumes "clean_segments xs" "path_and_leaf xs = (pth, leaf)"
  shows "(if pth \<noteq> [] then pth @ ''/'' @ leaf else leaf) = py_join ''/'' xs"
proof (cases xs rule: rev_cases)
  case (snoc ys y)
  have "clean_segments ys" using assms(1) snoc by (simp add: clean_segments_def)
  from py_join_empty [OF this] show ?thesis using assms(2) snoc by (cases "ys = []") (auto simp: path_and_leaf_def py_join_snoc)
qed (use assms(2) in \<open>simp add: path_and_leaf_def\<close>)

lemma split_name_version_text: "split_name_version leaf orig = Inr (name, v) \<Longrightarrow>
    leaf = name @ version_text v \<and> split_name_version leaf orig' = Inr (name, v)"
proof (cases "CHR ''+'' \<in> set leaf")
  case True
  then obtain a b where "leaf = a @ CHR ''+'' # b" "CHR ''+'' \<notin> set b" "py_rpartition (CHR ''+'') leaf = (a, True, b)"
    by (rule py_rpartition_split)
  then show "split_name_version leaf orig = Inr (name, v) \<Longrightarrow> ?thesis"
    by (auto simp: split_name_version_def version_text_def split: if_splits)
qed (auto simp: split_name_version_def version_text_def)

section \<open>The reference, rendered and read again\<close>

lemma url_parse_Ok: "url_parse ipv6 s = Inr (Ok r []) \<longleftrightarrow> url_parse_raw ipv6 s = Inr r"
  by (auto simp: url_parse_def malformed_error_def make_Ok_def make_Error_def split: sum.splits ref_exn.splits)

lemma url_parse_parts:
  assumes "url_parse_raw ipv6 s = Inr r"
  obtains sp leaf where "urlsplit ipv6 s = Inr sp" "us_scheme sp = (if url_secure r then ''https'' else ''http'')"
    "parse_authority (us_netloc sp) s = Inr (url_endpoint r)" "path_and_leaf (url_segments (us_path sp)) = (url_path r, leaf)"
    "split_name_version leaf s = Inr (url_name r, url_version r)" "url_query r = us_query sp" "url_fragment r = us_fragment sp"
proof -
  have "s \<noteq> []" using assms by (auto simp: url_parse_raw_def)
  obtain sp where sp: "urlsplit ipv6 s = Inr sp" using assms \<open>s \<noteq> []\<close> by (cases "urlsplit ipv6 s") (auto simp: url_parse_raw_def)
  then have sch: "us_scheme sp \<in> {''http'', ''https''}" using assms \<open>s \<noteq> []\<close> by (auto simp: url_parse_raw_def split: if_splits)
  obtain pth leaf where pl: "path_and_leaf (url_segments (us_path sp)) = (pth, leaf)" by (cases "path_and_leaf (url_segments (us_path sp))")
  obtain e where e: "parse_authority (us_netloc sp) s = Inr e"
    using assms sp sch \<open>s \<noteq> []\<close> by (cases "parse_authority (us_netloc sp) s") (auto simp: url_parse_raw_def)
  obtain n v where nv: "split_name_version leaf s = Inr (n, v)"
    using assms sp sch e pl \<open>s \<noteq> []\<close> by (cases "split_name_version leaf s") (auto simp: url_parse_raw_def)
  show ?thesis using assms \<open>s \<noteq> []\<close> sp sch pl e nv by (intro that [of sp leaf]) (auto simp: url_parse_raw_def)
qed

lemma url_reparse:
  assumes parsed: "url_parse_raw ipv6 s = Inr r" and pw: "password (url_endpoint r) = None"
    and u: "\<And>u. username (url_endpoint r) = Some u \<Longrightarrow> CHR ''['' \<notin> set u \<and> CHR '']'' \<notin> set u"
    and closed: "\<And>x. ipv6 x \<Longrightarrow> ipv6 (py_lower x)"
  shows "url_parse_raw ipv6 (url_render r) = Inr r"
proof -
  obtain sp leaf where sp: "urlsplit ipv6 s = Inr sp" "us_scheme sp = (if url_secure r then ''https'' else ''http'')"
    and auth: "parse_authority (us_netloc sp) s = Inr (url_endpoint r)"
    and pl: "path_and_leaf (url_segments (us_path sp)) = (url_path r, leaf)"
    and nv: "split_name_version leaf s = Inr (url_name r, url_version r)"
    and qf: "url_query r = us_query sp" "url_fragment r = us_fragment sp"
    using url_parse_parts [OF parsed] by metis
  note parts = urlsplit_parts [OF sp(1)]
  have "endpoint_form ipv6 (url_endpoint r)"
    using parse_authority_form [OF auth parts(1,5,6) pw u closed] .
  note e = endpoint_form_reparse [OF this pw u]
  define segs where "segs = url_segments (us_path sp)"
  have clean: "clean_segments segs" by (simp add: segs_def clean_url_segments)
  have path_text: "url_pathname r @ version_text (url_version r) = py_join ''/'' segs"
    using path_and_leaf_join [OF clean_url_segments pl] split_name_version_text [OF nv, of s] by (auto simp: url_pathname_def segs_def split: if_splits)
  have "set (py_join ''/'' segs) \<subseteq> insert (CHR ''/'') (set (us_path sp))"
    using set_py_join [of "''/''" segs] set_py_split [of _ "CHR ''/''" "us_path sp"] by (auto simp: segs_def url_segments_def)
  then have p: "safe (py_join ''/'' segs)" "CHR ''#'' \<notin> set (py_join ''/'' segs)" "CHR ''?'' \<notin> set (py_join ''/'' segs)"
    using parts(2,7,8) by (auto simp: safe_def unsafe_char_def)
  let ?sch = "if url_secure r then ''https'' else ''http''"
  let ?sp = "\<lparr>us_scheme = ?sch, us_netloc = render_endpoint True (url_endpoint r), us_path = ''/'' @ py_join ''/'' segs,
      us_query = url_query r, us_fragment = url_fragment r\<rparr>"
  have rendered: "url_render r = ?sch @ ''://'' @ render_endpoint True (url_endpoint r) @ ''/'' @ py_join ''/'' segs @
      (if url_query r \<noteq> [] then ''?'' @ url_query r else []) @ (if url_fragment r \<noteq> [] then ''#'' @ url_fragment r else [])"
    unfolding path_text [symmetric] by (simp add: url_render_def version_text_def)
  have split: "urlsplit ipv6 (url_render r) = Inr ?sp"
    unfolding rendered by (rule urlsplit_render) (use e(2-4) p parts(3,4,9) qf in auto)
  have "url_render r \<noteq> []" by (simp add: rendered)
  moreover have "url_segments (us_path ?sp) = segs" using url_segments_slash url_segments_join [OF clean] by simp
  moreover have "split_name_version leaf (url_render r) = Inr (url_name r, url_version r)" using split_name_version_text [OF nv] by blast
  ultimately show ?thesis using split e(1) pl by (auto simp: url_parse_raw_def segs_def)
qed

section \<open>The normal form\<close>

lemma upper_hex_hex: "is_hex c \<Longrightarrow> is_hex (upper_hex c) \<and> upper_hex (upper_hex c) = upper_hex c"
  by (auto simp: upper_hex_def is_hex_def is_lower_hex_def is_digit_def is_lower_def cp_char_of)

lemma normalize_pct_plain: "\<not> (c = CHR ''%'' \<and> (\<exists>a b t. x = a # b # t \<and> is_hex a \<and> is_hex b)) \<Longrightarrow> normalize_pct (c # x) = c # normalize_pct x"
  by (cases x; cases "tl x") auto

lemma normalize_pct_hd: "\<exists>t. normalize_pct (c # x) = c # t"
  by (cases x; cases "tl x") auto

lemma not_hex_percent: "\<not> is_hex (CHR ''%'')" "\<not> is_hex (CHR ''/'')" by (simp_all add: is_hex_def is_lower_hex_def is_digit_def cp_def)

lemma normalize_pct_second: "normalize_pct (a # x) = a # b # t \<Longrightarrow> is_hex a \<Longrightarrow> \<exists>u. x = b # u"
proof -
  assume n: "normalize_pct (a # x) = a # b # t" "is_hex a"
  then have "normalize_pct (a # x) = a # normalize_pct x" using not_hex_percent by (intro normalize_pct_plain) auto
  with n(1) have "normalize_pct x = b # t" by simp
  then show ?thesis using normalize_pct_hd [of "hd x" "tl x"] by (cases x) auto
qed

lemma normalize_pct_idem: "normalize_pct (normalize_pct s) = normalize_pct s"
proof (induction s rule: normalize_pct.induct)
  case (1 c a b s)
  show ?case
  proof (cases "c = CHR ''%'' \<and> is_hex a \<and> is_hex b")
    case True
    with 1 show ?thesis by (simp add: upper_hex_hex)
  next
    case False
    have "\<not> (c = CHR ''%'' \<and> (\<exists>a' b' t. normalize_pct (a # b # s) = a' # b' # t \<and> is_hex a' \<and> is_hex b'))"
    proof
      assume "c = CHR ''%'' \<and> (\<exists>a' b' t. normalize_pct (a # b # s) = a' # b' # t \<and> is_hex a' \<and> is_hex b')"
      then obtain a' b' t where m: "c = CHR ''%''" "normalize_pct (a # b # s) = a' # b' # t" "is_hex a'" "is_hex b'" by blast
      moreover have "a' = a" using m(2) normalize_pct_hd [of a "b # s"] by auto
      moreover then have "b' = b" using normalize_pct_second [of a "b # s" b' t] m by auto
      ultimately show False using False by simp
    qed
    from normalize_pct_plain [OF this] 1(2) [OF False]
    have "normalize_pct (c # normalize_pct (a # b # s)) = c # normalize_pct (a # b # s)" by simp
    moreover have "normalize_pct (c # a # b # s) = c # normalize_pct (a # b # s)" by (simp only: normalize_pct.simps False if_False)
    ultimately show ?thesis by simp
  qed
qed simp_all

lemma split_char: "c \<noteq> d \<Longrightarrow> py_split d (c # s) = (c # hd (py_split d s)) # tl (py_split d s)"
  by (cases "py_split d s") auto

lemma hd_split: "hd (py_split d s) = takeWhile (\<lambda>c. c \<noteq> d) s"
proof (induction s)
  case (Cons c s)
  then show ?case by (cases "py_split d s") auto
qed simp

lemma split_normalize_pct: "py_split (CHR ''/'') (normalize_pct s) = map normalize_pct (py_split (CHR ''/'') s)"
proof (induction s rule: normalize_pct.induct)
  case (1 c a b s)
  show ?case
  proof (cases "c = CHR ''%'' \<and> is_hex a \<and> is_hex b")
    case True
    then have ne: "a \<noteq> CHR ''/''" "b \<noteq> CHR ''/''" "upper_hex a \<noteq> CHR ''/''" "upper_hex b \<noteq> CHR ''/''"
      using not_hex_percent upper_hex_hex [of a] upper_hex_hex [of b] by auto
    obtain x xs where x: "py_split (CHR ''/'') s = x # xs" by (cases "py_split (CHR ''/'') s") auto
    with 1(1) [OF True] True ne show ?thesis by simp
  next
    case False
    show ?thesis
    proof (cases "c = CHR ''/''")
      case True
      with 1(2) False show ?thesis by simp
    next
      case ne: False
      obtain x xs where x: "py_split (CHR ''/'') (a # b # s) = x # xs" by (metis py_split_nonempty list.exhaust)
      have "x = takeWhile (\<lambda>c. c \<noteq> CHR ''/'') (a # b # s)" using hd_split [of "CHR ''/''" "a # b # s"] x by simp
      then have "\<not> (c = CHR ''%'' \<and> (\<exists>a b t. x = a # b # t \<and> is_hex a \<and> is_hex b))" using False by (auto split: if_splits)
      from normalize_pct_plain [OF this] have "map normalize_pct (py_split (CHR ''/'') (c # a # b # s)) = (c # normalize_pct x) # map normalize_pct xs"
        using ne x by (simp add: split_char del: py_split.simps(2))
      moreover have "py_split (CHR ''/'') (normalize_pct (c # a # b # s)) = (c # normalize_pct x) # map normalize_pct xs"
      proof -
        have "normalize_pct (c # a # b # s) = c # normalize_pct (a # b # s)" by (simp only: normalize_pct.simps False if_False)
        then show ?thesis using 1(2) [OF False] ne x by (simp add: split_char del: py_split.simps(2) normalize_pct.simps)
      qed
      ultimately show ?thesis by simp
    qed
  qed
qed simp_all

definition normal_segment :: "string \<Rightarrow> bool" where
  "normal_segment x \<longleftrightarrow> x \<noteq> [] \<and> x \<noteq> ''.'' \<and> x \<noteq> ''..'' \<and> CHR ''/'' \<notin> set x \<and> normalize_pct x = x"

lemma collapse_normal: "list_all (\<lambda>x. CHR ''/'' \<notin> set x \<and> normalize_pct x = x) cs \<Longrightarrow> list_all normal_segment acc \<Longrightarrow>
    list_all normal_segment (collapse acc cs)"
proof (induction acc cs rule: collapse.induct)
  case (2 acc c cs)
  have "list_all normal_segment (drop 1 acc)" using 2(5) by (cases acc) auto
  moreover have "c \<noteq> [] \<and> c \<noteq> ''.'' \<and> c \<noteq> ''..'' \<Longrightarrow> normal_segment c" using 2(4) by (simp add: normal_segment_def)
  then have "c \<noteq> [] \<and> c \<noteq> ''.'' \<and> c \<noteq> ''..'' \<Longrightarrow> list_all normal_segment (c # acc)" using 2(5) by simp
  moreover have "list_all (\<lambda>x. CHR ''/'' \<notin> set x \<and> normalize_pct x = x) cs" using 2(4) by simp
  ultimately show ?case using 2(1-3,5) by (cases "c = [] \<or> c = ''.''"; cases "c = ''..''") simp_all
qed simp

lemma collapse_id: "list_all normal_segment cs \<Longrightarrow> collapse acc cs = rev acc @ cs"
  by (induction cs arbitrary: acc) (auto simp: normal_segment_def)

lemma normalize_url_path_normal: "\<exists>cs. list_all normal_segment cs \<and> normalize_url_path p = py_join ''/'' cs"
proof (cases "p = []")
  case True
  then show ?thesis by (intro exI [of _ "[]"]) (simp add: normalize_url_path_def)
next
  case False
  let ?cs = "collapse [] (py_split (CHR ''/'') (normalize_pct p))"
  have "list_all (\<lambda>x. CHR ''/'' \<notin> set x \<and> normalize_pct x = x) (py_split (CHR ''/'') (normalize_pct p))"
    using py_split_parts [of _ "CHR ''/''" "normalize_pct p"] by (auto simp: list_all_iff split_normalize_pct normalize_pct_idem)
  from collapse_normal [OF this, of "[]"] show ?thesis using False by (intro exI [of _ ?cs]) (simp add: normalize_url_path_def)
qed

lemma normal_clean: "list_all normal_segment cs \<Longrightarrow> clean_segments cs"
  by (auto simp: clean_segments_def normal_segment_def list_all_iff)

lemma normalize_url_path_fixed: "list_all normal_segment cs \<Longrightarrow> normalize_url_path (py_join ''/'' cs) = py_join ''/'' cs"
proof -
  assume cs: "list_all normal_segment cs"
  show ?thesis
  proof (cases "cs = []")
    case False
    have split: "py_split (CHR ''/'') (py_join ''/'' cs) = cs"
      by (rule py_split_join [OF False]) (use cs in \<open>auto simp: normal_segment_def list_all_iff\<close>)
    have "map normalize_pct cs = cs" using cs by (auto simp: normal_segment_def list_all_iff intro: map_idI)
    then have "py_split (CHR ''/'') (normalize_pct (py_join ''/'' cs)) = cs" by (simp add: split_normalize_pct split)
    then show ?thesis using collapse_id [OF cs, of "[]"] by (simp add: normalize_url_path_def)
  qed (simp add: normalize_url_path_def)
qed

lemma url_normalize_form:
  assumes "url_normalize r = Inr r'"
  obtains cs where "list_all normal_segment cs" "url_pathname r' = py_join ''/'' cs" "path_and_leaf cs = (url_path r', url_name r')"
    "validate_host (host (url_endpoint r')) = Inr ()" "host (url_endpoint r') = py_lower (host (url_endpoint r))"
    "\<forall>n. port (url_endpoint r') = Some n \<longrightarrow> 0 \<le> n \<and> n \<noteq> url_default_port (url_secure r')"
    "url_query r' = normalize_pct (url_query r)" "url_fragment r' = normalize_pct (url_fragment r)"
proof -
  obtain cs where cs: "list_all normal_segment cs" "normalize_url_path (url_pathname r) = py_join ''/'' cs"
    using normalize_url_path_normal by blast
  have segs: "url_segments (py_join ''/'' cs) = cs" by (rule url_segments_join [OF normal_clean [OF cs(1)]])
  obtain pth leaf where pl: "path_and_leaf cs = (pth, leaf)" by (cases "path_and_leaf cs")
  let ?p = "if port (url_endpoint r) = Some (url_default_port (url_secure r)) then None else port (url_endpoint r)"
  obtain e' where e': "make_endpoint (py_lower (host (url_endpoint r))) ?p (username (url_endpoint r)) (password (url_endpoint r)) = Inr e'"
    and r': "r' = \<lparr>url_endpoint = e', url_path = pth, url_name = leaf, url_version = url_version r, url_secure = url_secure r,
      url_query = normalize_pct (url_query r), url_fragment = normalize_pct (url_fragment r)\<rparr>"
    using assms by (auto simp: url_normalize_def cs(2) segs pl Let_def bindE_Inr)
  have "url_pathname r' = py_join ''/'' cs" using path_and_leaf_join [OF normal_clean [OF cs(1)] pl] by (simp only: url_pathname_def r' url_ref.simps)
  moreover have "validate_host (py_lower (host (url_endpoint r))) = Inr ()" "\<forall>n. ?p = Some n \<longrightarrow> 0 \<le> n"
    "e' = \<lparr>host = py_lower (host (url_endpoint r)), port = ?p, username = username (url_endpoint r), password = password (url_endpoint r)\<rparr>"
    using e' unfolding make_endpoint_parsed by blast+
  ultimately show ?thesis using cs(1) pl r' by (intro that [of cs]) auto
qed

lemma url_normalize_again: "url_normalize r = Inr r' \<Longrightarrow> url_normalize r' = Inr r'"
proof -
  assume n: "url_normalize r = Inr r'"
  from url_normalize_form [OF n] obtain cs where cs: "list_all normal_segment cs" "url_pathname r' = py_join ''/'' cs"
    "path_and_leaf cs = (url_path r', url_name r')"
    and e: "validate_host (host (url_endpoint r')) = Inr ()" "host (url_endpoint r') = py_lower (host (url_endpoint r))"
    "\<forall>n. port (url_endpoint r') = Some n \<longrightarrow> 0 \<le> n \<and> n \<noteq> url_default_port (url_secure r')"
    and qf: "url_query r' = normalize_pct (url_query r)" "url_fragment r' = normalize_pct (url_fragment r)" .
  have "normalize_url_path (url_pathname r') = py_join ''/'' cs" by (simp add: cs(2) normalize_url_path_fixed [OF cs(1)])
  moreover have "url_segments (py_join ''/'' cs) = cs" by (rule url_segments_join [OF normal_clean [OF cs(1)]])
  ultimately have path: "path_and_leaf (url_segments (normalize_url_path (url_pathname r'))) = (url_path r', url_name r')" using cs(3) by simp
  have "make_endpoint (py_lower (host (url_endpoint r'))) (if port (url_endpoint r') = Some (url_default_port (url_secure r')) then None
      else port (url_endpoint r')) (username (url_endpoint r')) (password (url_endpoint r')) = Inr (url_endpoint r')"
    using e by (auto simp: make_endpoint_parsed)
  then show ?thesis using qf by (simp add: url_normalize_def path normalize_pct_idem)
qed

lemma source_parse_bracket:
  assumes "safe n" "\<forall>c \<in> set n. \<not> url_delim c" "(CHR ''['' \<in> set n) \<noteq> (CHR '']'' \<in> set n)"
  shows "source_parse ipv6 (''https://'' @ n @ ''/'') = Inl ValueErrorC"
proof -
  have rest: "takeWhile (\<lambda>c. \<not> url_delim c) (n @ ''/'') = n" using assms(2) by (simp add: takeWhile_append url_delim_def)
  have lit: "safe ''https://''" "safe ''/''" by (simp_all add: unsafe_char_def)
  have plain: "url_text (''https://'' @ n @ ''/'') = ''https://'' @ n @ ''/''"
    by (rule url_text_safe) (use assms(1) lit in \<open>auto simp: cp_def\<close>)
  have s: "list_all is_scheme_char ''https''" "is_alpha (CHR ''h'')" "py_lower ''https'' = ''https''" "\<not> is_scheme_char (CHR '':'')" by code_simp+
  have "py_partition (CHR '':'') (''https'' @ CHR '':'' # ''//'' @ n @ ''/'') = (''https'', True, ''//'' @ n @ ''/'')"
    by (rule py_partition_at) simp
  then have "url_scheme (''https://'' @ n @ ''/'') = (''https'', ''//'' @ n @ ''/'')" using s by (simp add: url_scheme_def)
  then have "urlsplit ipv6 (''https://'' @ n @ ''/'') = Inl ValueErrorC"
    using rest assms(3) unfolding urlsplit_def plain by (simp add: check_netloc_def)
  then have "url_parse ipv6 (''https://'' @ n @ ''/'') = Inl ValueErrorC" by (simp add: url_parse_def url_parse_raw_def)
  moreover have "takeWhile is_scheme_char (''https://'' @ n @ ''/'') = ''https''" "dropWhile is_scheme_char (''https://'' @ n @ ''/'') = ''://'' @ n @ ''/''"
    using s by (simp_all add: is_scheme_char_def)
  then have "split_scheme (''https://'' @ n @ ''/'') = (Some ''https'', n @ ''/'')" using s by (simp add: split_scheme_def)
  ultimately show ?thesis by (simp add: source_parse_def)
qed

section \<open>Properties\<close>

text \<open>
  C40. A URL reference without a password is what its rendered text parses to: every component, the
  query and the fragment included, survives.  The user name may not hold a bracket, and the test for a
  bracketed address may not depend on the case of its letters, since the parser lowers the host.
\<close>

theorem url_roundtrip:
  assumes "url_parse ipv6 s = Inr (Ok r [])" and "password (url_endpoint r) = None"
    and "\<And>u. username (url_endpoint r) = Some u \<Longrightarrow> CHR ''['' \<notin> set u \<and> CHR '']'' \<notin> set u"
    and "\<And>x. ipv6 x \<Longrightarrow> ipv6 (py_lower x)"
  shows "url_parse ipv6 (url_render r) = Inr (Ok r [])"
  using url_reparse [of ipv6 s r] assms by (simp add: url_parse_Ok)

definition sample_url :: url_ref where
  "sample_url = \<lparr>url_endpoint = \<lparr>host = ''[::1]'', port = Some 8443, username = Some ''me'', password = None\<rparr>,
     url_path = ''a'', url_name = ''x'', url_version = Some ''v1'', url_secure = True, url_query = ''q=1'', url_fragment = ''f''\<rparr>"

theorem url_roundtrip_witness:
  "url_parse (\<lambda>x. x = ''::1'') ''https://me@[::1]:8443/a//x+v1?q=1#f'' = Inr (Ok sample_url []) \<and>
   url_parse (\<lambda>x. x = ''::1'') (url_render sample_url) = Inr (Ok sample_url [])"
proof -
  have "url_parse (\<lambda>x. x = ''::1'') ''https://me@[::1]:8443/a//x+v1?q=1#f'' = Inr (Ok sample_url [])" by code_simp
  moreover have "py_lower ''::1'' = ''::1''" by code_simp
  ultimately show ?thesis using url_roundtrip [of "\<lambda>x. x = ''::1''" "''https://me@[::1]:8443/a//x+v1?q=1#f''" sample_url]
    by (simp add: sample_url_def)
qed

text \<open>
  Normalising a URL reference twice is normalising it once, and the normal form holds no empty, current-directory or
  parent-directory segment, no default port, and a host in lower case.
\<close>

theorem url_normalize_idempotent:
  assumes "url_normalize r = Inr r'"
  shows "url_normalize r' = Inr r' \<and>
    (\<forall>x \<in> set (url_segments (url_pathname r')). x \<noteq> ''.'' \<and> x \<noteq> ''..'') \<and>
    port (url_endpoint r') \<noteq> Some (url_default_port (url_secure r')) \<and> py_lower (host (url_endpoint r')) = host (url_endpoint r')"
proof -
  from url_normalize_form [OF assms] obtain cs where cs: "list_all normal_segment cs" "url_pathname r' = py_join ''/'' cs"
    "path_and_leaf cs = (url_path r', url_name r')"
    and "validate_host (host (url_endpoint r')) = Inr ()" and e: "host (url_endpoint r') = py_lower (host (url_endpoint r))"
    "\<forall>n. port (url_endpoint r') = Some n \<longrightarrow> 0 \<le> n \<and> n \<noteq> url_default_port (url_secure r')"
    and "url_query r' = normalize_pct (url_query r)" "url_fragment r' = normalize_pct (url_fragment r)" .
  have "url_segments (url_pathname r') = cs" unfolding cs(2) by (rule url_segments_join [OF normal_clean [OF cs(1)]])
  with cs(1) e url_normalize_again [OF assms] show ?thesis by (auto simp: normal_segment_def list_all_iff)
qed

theorem url_normalize_idempotent_witness:
  "\<exists>r'. url_normalize (sample_url\<lparr>url_path := ''a/../%2f'', url_endpoint := \<lparr>host = ''H.org'', port = Some 443, username = None, password = None\<rparr>\<rparr>) = Inr r' \<and>
     url_normalize r' = Inr r' \<and> url_pathname r' = ''%2F/x'' \<and> host (url_endpoint r') = ''h.org'' \<and> port (url_endpoint r') = None"
proof -
  let ?r = "sample_url\<lparr>url_path := ''a/../%2f'', url_endpoint := \<lparr>host = ''H.org'', port = Some 443, username = None, password = None\<rparr>\<rparr>"
  let ?n = "sample_url\<lparr>url_path := ''%2F'', url_endpoint := \<lparr>host = ''h.org'', port = None, username = None, password = None\<rparr>\<rparr>"
  have n: "url_normalize ?r = Inr ?n" by code_simp
  have "url_pathname ?n = ''%2F/x''" by code_simp
  with n url_normalize_idempotent [OF n] show ?thesis by (intro exI [of _ ?n]) simp
qed

text \<open>
  A URL whose authority has one bracket without the other makes the parser raise, where the contract promises
  an \<^verbatim>\<open>Error\<close> for malformed input: the split is outside the handler that converts the library's error.
\<close>

theorem url_bracket_raises:
  assumes "safe n" "\<forall>c \<in> set n. \<not> url_delim c" "(CHR ''['' \<in> set n) \<noteq> (CHR '']'' \<in> set n)"
  shows "source_parse ipv6 (''https://'' @ n @ ''/'') = Inl ValueErrorC"
  by (rule source_parse_bracket [OF assms])

theorem url_bracket_raises_witness: "source_parse (\<lambda>_. True) ''https://[::1/'' = Inl ValueErrorC"
  using url_bracket_raises [of "''[::1''" "\<lambda>_. True"] by (simp add: unsafe_char_def url_delim_def)

text \<open>
  A URL whose last segment is only a version label is renamed by normalisation: the segment before it
  becomes the name that carries the label, so the normal form names another resource.
\<close>

theorem url_label_moves:
  assumes "url_name r = []" "url_version r = Some v" "url_normalize r = Inr r'" "url_segments (normalize_url_path (url_path r @ ''/'')) \<noteq> []"
    "url_path r \<noteq> []"
  shows "url_name r' = last (url_segments (normalize_url_path (url_path r @ ''/''))) \<and> url_version r' = Some v"
  using assms by (auto simp: url_normalize_def url_pathname_def path_and_leaf_def Let_def bindE_Inr)

theorem url_label_moves_witness:
  "\<exists>r r'. url_parse (\<lambda>_. True) ''http://h/a/+v'' = Inr (Ok r []) \<and> url_normalize r = Inr r' \<and> url_render r = ''http://h/a/+v'' \<and>
     url_render r' = ''http://h/a+v'' \<and> url_name r' = ''a''"
proof -
  let ?r = "\<lparr>url_endpoint = \<lparr>host = ''h'', port = None, username = None, password = None\<rparr>, url_path = ''a'', url_name = [],
    url_version = Some ''v'', url_secure = False, url_query = [], url_fragment = []\<rparr> :: url_ref"
  let ?n = "?r\<lparr>url_path := [], url_name := ''a''\<rparr>"
  have p: "url_parse (\<lambda>_. True) ''http://h/a/+v'' = Inr (Ok ?r [])" by code_simp
  have n: "url_normalize ?r = Inr ?n" by code_simp
  have m: "url_segments (normalize_url_path (url_path ?r @ ''/'')) = [''a'']" by code_simp
  have "url_name ?n = ''a''" using url_label_moves [of ?r "''v''" ?n] n m by simp
  moreover have "url_render ?r = ''http://h/a/+v''" "url_render ?n = ''http://h/a+v''" by code_simp+
  ultimately show ?thesis using p n by blast
qed

end
