(* ===== verification/Instances.thy ===== *)
theory Instances imports Typed Lifecycle Ledger Urlref Orphans Admission begin

text \<open>
  The handles of \<^verbatim>\<open>_instances.py\<close> as a library offers them: the snapshot a handle is loaded as, resolving a name to the
  right kind of handle, the enumeration of the store, the reconciliation of orphans, the image and the
  disk usage of a handle, and the translation of typed arguments into those of the creation.  The probes of the host, the
  time a directory was changed and the address parser are arguments; reading a metadata file does not fail.
\<close>

section \<open>The snapshot\<close>

record 'w machine =
  mc_os :: "'w os"
  mc_ipv6 :: "string \<Rightarrow> bool"
  mc_exists :: probe
  mc_running :: "string \<Rightarrow> files \<Rightarrow> string \<Rightarrow> exc + bool"
  mc_mtime :: "base \<Rightarrow> string \<Rightarrow> exc + int"
  mc_base :: "base \<Rightarrow> ppath"

record snapshot =
  sn_dir :: "base \<times> string"
  sn_mode :: string
  sn_name :: string
  sn_hostname :: string
  sn_sources :: "source_ref list"
  sn_storage :: storage_mode
  sn_network :: network_connection
  sn_forwards :: forwards
  sn_status :: status
  sn_resources :: "(string \<times> int) list"
  sn_platform :: platform_profile
  sn_nesting :: bool
  sn_created :: int
  sn_environment :: "(string \<times> string) list"
  sn_hold :: "hold option"
  sn_upper :: ppath
  sn_work :: ppath
  sn_unprivileged :: bool
  sn_args :: "string list"

definition load_sources :: "(string \<Rightarrow> bool) \<Rightarrow> files \<Rightarrow> exc + source_ref list" where
  "load_sources ipv6 fs =
     (if \<not> truthy (read_meta fs ''kento-image'') then Inr []
      else bindE (unwrapE (source_parse ipv6 (the (read_meta fs ''kento-image'')))) (\<lambda>r. Inr [r]))"

definition load_created :: "exc + int \<Rightarrow> int" where
  "load_created mtime = (case mtime of Inr t \<Rightarrow> t | Inl _ \<Rightarrow> 0)"

definition image_cmd :: "string \<Rightarrow> string list" where
  "image_cmd name = [''container'', ''inspect'', hold_of name, ''--format'', ''{{.Image}}'']"

text \<open>A hold with neither a label nor an image is reported as none.\<close>

definition load_hold :: "'w os \<Rightarrow> string \<Rightarrow> (hold option, 'w guest) prog" where
  "load_hold os name =
     bindP (hold_pinned_id os name) (\<lambda>image_id.
       if image_id \<noteq> [] then
         bindP (pure_res (digest_from_podman_id image_id)) (\<lambda>d. give (Some \<lparr>ho_instance = name, ho_pinned = PinId d\<rparr>))
       else bindP (exceptP [ExceptionC] (bindP (podman os (image_cmd name)) (\<lambda>r. give (Some r))) (give None)) (\<lambda>res.
         case res of None \<Rightarrow> give None
         | Some (rc, out) \<Rightarrow>
             (let img = py_strip out
              in if rc \<noteq> 0 then give None
                 else if img = [] \<or> img = ''<no value>'' then give None
                 else bindP (pure_res (parse_legacy_pinned img)) (\<lambda>p. give (Some \<lparr>ho_instance = name, ho_pinned = p\<rparr>)))))"

definition flag :: "files \<Rightarrow> string \<Rightarrow> bool" where "flag fs f \<longleftrightarrow> read_meta fs f = Some ''1''"

text \<open>Everything but the hold, in the order of the loader.\<close>

definition load_static :: "'w machine \<Rightarrow> base \<times> string \<times> files \<Rightarrow> string \<Rightarrow> exc + snapshot" where
  "load_static mc = (\<lambda>(b, d, fs) mode.
     let name = nonempty_or (read_meta fs ''kento-name'') d
     in bindE (load_sources (mc_ipv6 mc) fs) (\<lambda>sources.
        bindE (load_network fs) (\<lambda>network.
        bindE (load_forwards fs) (\<lambda>fwd.
        bindE (resolve_status (mc_exists mc) (mc_running mc d fs) d fs mode) (\<lambda>status.
        bindE (load_platform_profile d fs mode) (\<lambda>platform.
          let state_dir = (if truthy (read_meta fs ''kento-state'') then mk_path (the (read_meta fs ''kento-state''))
                           else path_div (mc_base mc b) d)
          in Inr \<lparr>sn_dir = (b, d), sn_mode = mode, sn_name = name,
               sn_hostname = nonempty_or (read_meta fs ''kento-hostname'') name, sn_sources = sources, sn_storage = load_storage fs,
               sn_network = network, sn_forwards = fwd, sn_status = status, sn_resources = load_resources fs, sn_platform = platform,
               sn_nesting = flag fs ''kento-nesting'', sn_created = load_created (mc_mtime mc b d),
               sn_environment = load_environment fs, sn_hold = None, sn_upper = path_div state_dir ''upper'',
               sn_work = path_div state_dir ''work'', sn_unprivileged = (\<not> is_vm_mode mode \<and> flag fs ''kento-unprivileged''),
               sn_args = load_passthrough fs (if is_vm_mode mode then ''kento-qemu-args'' else ''kento-lxc-args'')\<rparr>))))))"

definition load_snapshot :: "'w machine \<Rightarrow> base \<times> string \<times> files \<Rightarrow> string \<Rightarrow> (snapshot, 'w guest) prog" where
  "load_snapshot mc x mode =
     bindP (pure_res (load_static mc x mode)) (\<lambda>s. bindP (load_hold (mc_os mc) (sn_name s)) (\<lambda>h. give (s\<lparr>sn_hold := h\<rparr>)))"

section \<open>Kinds of handle\<close>

datatype inst_class = AnyInstance | Containers | Machines

fun is_a :: "snapshot \<Rightarrow> inst_class \<Rightarrow> bool" where
  "is_a s AnyInstance = True"
| "is_a s Containers = (\<not> is_vm_mode (sn_mode s))"
| "is_a s Machines = is_vm_mode (sn_mode s)"

fun class_namespace :: "inst_class \<Rightarrow> string option" where
  "class_namespace AnyInstance = None"
| "class_namespace Containers = Some ''lxc''"
| "class_namespace Machines = Some ''vm''"

definition reject_kind_mismatch :: "inst_class \<Rightarrow> snapshot \<Rightarrow> exc + unit" where
  "reject_kind_mismatch cls s = (if is_a s cls then Inr () else Inl InstanceNotFoundErrorC)"

definition try_resolve_other_kind :: "'w machine \<Rightarrow> store \<Rightarrow> string \<Rightarrow> (snapshot option, 'w guest) prog" where
  "try_resolve_other_kind mc st name =
     (case resolve_any st name None of
        Inl e \<Rightarrow> if is_kento e then give None else raise_exc e
      | Inr (x, mode) \<Rightarrow> bindP (load_snapshot mc x mode) (\<lambda>s. give (Some s)))"

definition checked_load :: "'w machine \<Rightarrow> inst_class \<Rightarrow> base \<times> string \<times> files \<Rightarrow> string \<Rightarrow> (snapshot, 'w guest) prog" where
  "checked_load mc cls x mode =
     bindP (load_snapshot mc x mode) (\<lambda>s. bindP (pure_res (reject_kind_mismatch cls s)) (\<lambda>_. give s))"

definition get_impl :: "'w machine \<Rightarrow> store \<Rightarrow> inst_class \<Rightarrow> string \<Rightarrow> (snapshot, 'w guest) prog" where
  "get_impl mc st cls name =
     (case class_namespace cls of
        None \<Rightarrow> bindP (pure_res (resolve_any st name None)) (\<lambda>(x, mode). checked_load mc cls x mode)
      | Some ns \<Rightarrow> (case resolve_any st name (Some ns) of
            Inr (x, mode) \<Rightarrow> checked_load mc cls x mode
          | Inl e \<Rightarrow> if catches [InstanceNotFoundErrorC] e
              then bindP (try_resolve_other_kind mc st name) (\<lambda>other.
                     case other of None \<Rightarrow> raise_exc e
                     | Some s \<Rightarrow> bindP (pure_res (reject_kind_mismatch cls s)) (\<lambda>_. raise_exc e))
              else raise_exc e))"

text \<open>The public method: what is raised becomes an error of its kind.\<close>

definition instance_get :: "'w machine \<Rightarrow> store \<Rightarrow> inst_class \<Rightarrow> string \<Rightarrow> 'w guest \<Rightarrow> ((exc + (cond_kind + snapshot)) \<times> 'w guest) option" where
  "instance_get mc st cls name = boundary (get_impl mc st cls name)"

section \<open>Enumeration\<close>

definition skipped :: "exc \<Rightarrow> bool" where "skipped e \<longleftrightarrow> catches [OSErrorC, KentoErrorC, NotImplementedErrorC] e"

fun load_each :: "'w machine \<Rightarrow> inst_class \<Rightarrow> (base \<times> string \<times> files) list \<Rightarrow> (snapshot list, 'w guest) prog" where
  "load_each mc cls [] = give []"
| "load_each mc cls (x # xs) =
     bindP (tryP (bindP (load_snapshot mc x (read_mode (snd (snd x)) ''lxc'')) (\<lambda>s. give (Some s)))
              (\<lambda>e. if skipped e then give None else raise_exc e)) (\<lambda>o1.
     bindP (load_each mc cls xs) (\<lambda>rest.
       give (case o1 of Some s \<Rightarrow> if is_a s cls then s # rest else rest | None \<Rightarrow> rest)))"

definition list_entries :: "store \<Rightarrow> inst_class \<Rightarrow> (base \<times> string \<times> files) list" where
  "list_entries st cls = concat (map (\<lambda>b. sort_key (\<lambda>(b, d, fs). d) (with_image b (entries_of st b)))
     (filter (\<lambda>b. in_scope (class_namespace cls) (scope_name b)) [LXC_BASE, VM_BASE]))"

definition list_impl :: "'w machine \<Rightarrow> store \<Rightarrow> inst_class \<Rightarrow> (snapshot list, 'w guest) prog" where
  "list_impl mc st cls = load_each mc cls (list_entries st cls)"

definition instance_list :: "'w machine \<Rightarrow> store \<Rightarrow> inst_class \<Rightarrow> 'w guest \<Rightarrow> ((exc + (cond_kind + snapshot list)) \<times> 'w guest) option" where
  "instance_list mc st cls = boundary (list_impl mc st cls)"

section \<open>Reconciliation\<close>

record prune_report =
  pr_dry_run :: bool
  pr_reclaimed :: "string list"
  pr_failed :: "(string \<times> exc) list"

definition prune_report_of :: "bool \<Rightarrow> reap_entry list \<Rightarrow> prune_report" where
  "prune_report_of reap es =
     (let failing = (\<lambda>e. reap \<and> re_error e \<noteq> None)
      in \<lparr>pr_dry_run = (\<not> reap), pr_reclaimed = map (or_name \<circ> re_orphan) (filter (\<lambda>e. \<not> failing e) es),
          pr_failed = map (\<lambda>e. (or_name (re_orphan e), the (re_error e))) (filter failing es)\<rparr>)"

definition prune_orphans ::
  "probe \<Rightarrow> (orphan \<Rightarrow> 'v \<Rightarrow> (exc + unit) \<times> 'v) \<Rightarrow> store \<Rightarrow> inst_class \<Rightarrow> bool \<Rightarrow> (prune_report, 'v) prog" where
  "prune_orphans config_exists destroy st cls reap =
     bindP (act (reap_orphans config_exists destroy st reap (class_namespace cls))) (\<lambda>es. give (prune_report_of reap es))"

section \<open>The image and the disk of a handle\<close>

datatype rootfs = OciRootfs oci_image | DirRootfs url_ref

record resolved_image =
  ri_image :: rootfs
  ri_kernel :: "ppath option"
  ri_initramfs :: "ppath option"

definition instance_image :: "'w os \<Rightarrow> snapshot \<Rightarrow> (resolved_image, 'w guest) prog" where
  "instance_image os s =
     (case sn_sources s of [] \<Rightarrow> raise_exc InstanceNotFoundErrorC
      | src # _ \<Rightarrow>
         bindP (case src of OciSource r \<Rightarrow> bindP (oci_resolve os r) (\<lambda>im. give (OciRootfs im))
                | UrlSource u \<Rightarrow> give (DirRootfs u)) (\<lambda>img.
         bindP (file_of ''kento-kernel'') (\<lambda>k. bindP (file_of ''kento-initramfs'') (\<lambda>i.
           let side = (\<lambda>t. case t of None \<Rightarrow> None | Some x \<Rightarrow> if file_text x \<noteq> [] then Some (mk_path (file_text x)) else None)
           in give \<lparr>ri_image = img, ri_kernel = side k, ri_initramfs = side i\<rparr>))))"

text \<open>The first word of the answer of \<^verbatim>\<open>du\<close> as an integer.\<close>

definition du_bytes :: "string \<Rightarrow> int option" where
  "du_bytes out = (case py_words out of [] \<Rightarrow> None | w # _ \<Rightarrow> py_int w)"

definition disk_usage :: "'w os \<Rightarrow> (string \<Rightarrow> 'w \<Rightarrow> bool) \<Rightarrow> snapshot \<Rightarrow> (int, 'w guest) prog" where
  "disk_usage os is_dir s =
     (let upper = path_str (sn_upper s)
      in bindP (askP (is_dir upper)) (\<lambda>there.
         if \<not> there then give 0
         else bindP (osP (os_run os None [''du'', ''-s'', ''--block-size=1'', upper])) (\<lambda>(rc, out).
           if rc \<noteq> 0 then give 0 else give (case du_bytes out of Some n \<Rightarrow> n | None \<Rightarrow> 0))))"

section \<open>Typed arguments of a creation\<close>

text \<open>An image given as text, as a reference, as a resolved handle, or as something else.\<close>

datatype image_arg = ImageText string | ImageRef oci_ref | ImageHandle rootfs | ImageOther

fun image_to_ref :: "image_arg \<Rightarrow> exc + string" where
  "image_to_ref (ImageText s) = Inr s"
| "image_to_ref (ImageRef r) = Inr (oci_render r)"
| "image_to_ref (ImageHandle (OciRootfs im)) = Inr (oci_render (im_source im))"
| "image_to_ref (ImageHandle (DirRootfs u)) = Inr (url_render u)"
| "image_to_ref ImageOther = Inl ValidationErrorC"

definition resources_to_create_params :: "(string \<times> bag_value) list option \<Rightarrow> exc + (int option \<times> int option)" where
  "resources_to_create_params bag = (case bag of None \<Rightarrow> Inr (None, None) | Some b \<Rightarrow> bag_params b)"

record typed_create =
  t_image :: image_arg
  t_hostname :: "string option"
  t_platform :: "platform_profile option"
  t_mid :: "int option"
  t_network :: "network_connection option"
  t_forwards :: forwards
  t_resources :: "(string \<times> bag_value) list option"
  t_environment :: "(string \<times> string) list"
  t_storage :: storage_mode
  t_args :: "string list"
  t_extra_args :: "string list"
  t_ssh_keys :: "string list"
  t_ssh_host_key_dir :: "string option"
  t_unprivileged :: bool
  t_kernel :: "string option"
  t_initramfs :: "string option"

text \<open>
  The options that are passed on unread (the name, start, nesting, the search domain, the time zone, the SSH user, the configuration
  mode and force) are left out.  \<^verbatim>\<open>vm\<close> tells the two classes apart: each passes the arguments of its own backend.
\<close>

definition build_create_args :: "bool \<Rightarrow> typed_create \<Rightarrow> exc + create_args" where
  "build_create_args vm t =
     (let kind_mode = (if vm then ''vm'' else ''lxc'')
      in if t_storage t \<noteq> OVERLAY then Inl NotImplementedErrorC
         else bindE (platform_to_create_args (t_platform t) (t_mid t)) (\<lambda>(pve, vmid).
              bindE (image_to_ref (t_image t)) (\<lambda>img.
              bindE (resolve_extra_args (t_extra_args t) (t_platform t)) (\<lambda>pve_args.
              bindE (forwards_to_create_port (t_forwards t)) (\<lambda>ports.
              bindE (network_to_create_params (t_network t) kind_mode) (\<lambda>np.
              bindE (resources_to_create_params (t_resources t)) (\<lambda>(mem, cores).
                Inr \<lparr>g_image = img, g_mode = kind_mode, g_pve = pve, g_vmid = vmid,
                  g_qemu_args = (if vm then t_args t else []), g_pve_args = (case pve_args of Some a \<Rightarrow> a | None \<Rightarrow> []),
                  g_lxc_args = (if vm then [] else t_args t),
                  g_env = (case environment_to_env_list (t_environment t) of Some l \<Rightarrow> l | None \<Rightarrow> []),
                  g_port = map_option PList ports, g_ssh_keys = t_ssh_keys t, g_ssh_host_key_dir = t_ssh_host_key_dir t,
                  g_net_type = np_net_type np, g_bridge = np_bridge np, g_ip = np_ip np, g_gateway = np_gateway np,
                  g_kernel = (if vm then t_kernel t else None), g_initramfs = (if vm then t_initramfs t else None),
                  g_unprivileged = (\<not> vm \<and> t_unprivileged t), g_memory = mem, g_cores = cores\<rparr>)))))))"

section \<open>Loading\<close>

lemma returns_osP [intro, simp]: "returns (osP f)" by (simp add: osP_def)

lemma returns_load_hold: "returns (load_hold os name)"
  unfolding load_hold_def hold_pinned_id_def podman_def Let_def
  by (intro returns_bindP returns_exceptP) (auto intro!: returns_bindP returns_exceptP split: option.splits prod.splits)

lemma returns_load_snapshot: "returns (load_snapshot mc x mode)"
  unfolding load_snapshot_def by (intro returns_bindP returns_load_hold) auto

lemma load_snapshot_Some:
  assumes "load_snapshot mc x mode g = Some (Inr s, g')"
  obtains t h where "load_static mc x mode = Inr t" "s = t\<lparr>sn_hold := h\<rparr>"
  using assms by (auto simp: load_snapshot_def bindP_Some)

lemma load_static_fields:
  "load_static mc (b, d, fs) mode = Inr t \<Longrightarrow> sn_dir t = (b, d) \<and> sn_mode t = mode \<and> (\<exists>p. load_platform_profile d fs mode = Inr p)"
  by (auto simp: load_static_def Let_def)

lemma returns_load_each: "returns (load_each mc cls xs)"
proof (induction xs)
  case (Cons x xs)
  show ?case unfolding load_each.simps
    by (intro returns_bindP returns_tryP returns_load_snapshot Cons) (auto split: if_splits)
qed (simp add: returns_def)

text \<open>An entry that raises what is not skipped stops the enumeration.\<close>

lemma load_each_raises:
  assumes "x \<in> set xs" "load_static mc x (read_mode (snd (snd x)) ''lxc'') = Inl e" "\<not> skipped e"
  shows "\<exists>e' g'. load_each mc cls xs g = Some (Inl e', g') \<and> \<not> skipped e'"
  using assms(1)
proof (induction xs arbitrary: g)
  case (Cons y ys)
  let ?first = "tryP (bindP (load_snapshot mc y (read_mode (snd (snd y)) ''lxc'')) (\<lambda>s. give (Some s)))
      (\<lambda>e. if skipped e then give None else raise_exc e)"
  have "returns ?first" by (intro returns_tryP returns_bindP returns_load_snapshot) auto
  then obtain r g1 where r: "?first g = Some (r, g1)" by (rule returnsE)
  show ?case
  proof (cases r)
    case (Inl e')
    with r have "\<not> skipped e'" by (auto simp: tryP_Some bindP_Some split: if_splits)
    with r Inl show ?thesis unfolding load_each.simps by (auto simp: bindP_step(2))
  next
    case (Inr o1)
    have "x \<noteq> y"
    proof
      assume "x = y"
      then have "load_snapshot mc y (read_mode (snd (snd y)) ''lxc'') g = Some (Inl e, g)" using assms(2) by (simp add: load_snapshot_def bindP.simps)
      with r Inr assms(3) show False by (auto simp: tryP_Some bindP_Some)
    qed
    then obtain e' g' where "load_each mc cls ys g1 = Some (Inl e', g')" "\<not> skipped e'" using Cons.IH [of g1] Cons.prems by auto
    with r Inr show ?thesis unfolding load_each.simps by (auto simp: bindP_step(1,2))
  qed
qed simp

lemma with_image_entries: "(b, d, fs) \<in> set (list_entries st cls) \<longleftrightarrow>
    in_scope (class_namespace cls) (scope_name b) \<and> (d, EDir fs) \<in> set (entries_of st b) \<and> fs ''kento-image'' \<noteq> None"
  by (cases b) (auto simp: list_entries_def with_image_iff)

lemma not_skipped_not_kento: "\<not> skipped e \<Longrightarrow> \<not> is_kento e" by (auto simp: skipped_def catches_def is_kento_def)

section \<open>Answers that do not change\<close>

text \<open>The inspection of a hold answers the same whenever it is asked, and changes nothing.\<close>

definition holds_stable :: "'w os \<Rightarrow> bool" where
  "holds_stable os \<longleftrightarrow> (\<forall>n. \<exists>r1 r2. \<forall>w. os_run os None (''podman'' # pinned_cmd n) w = (r1, w) \<and>
     os_run os None (''podman'' # image_cmd n) w = (r2, w))"

definition steady :: "('a, 'g) prog \<Rightarrow> bool" where "steady m \<longleftrightarrow> (\<exists>r. \<forall>g. m g = Some (r, g))"

lemma steady_base [intro, simp]: "steady (give x)" "steady (raise_exc e)" "steady (pure_res r)"
  by (auto simp: steady_def)

lemma steady_bindP [intro]: "steady m \<Longrightarrow> (\<And>x. steady (k x)) \<Longrightarrow> steady (bindP m k)"
proof -
  assume m: "steady m" and k: "\<And>x. steady (k x)"
  then obtain r where r: "\<forall>g. m g = Some (r, g)" by (auto simp: steady_def)
  show ?thesis
  proof (cases r)
    case (Inr x)
    from k obtain q where "\<forall>g. k x g = Some (q, g)" by (auto simp: steady_def)
    with r Inr show ?thesis unfolding steady_def by (intro exI [of _ q]) (simp add: bindP.simps)
  qed (use r in \<open>auto simp: steady_def bindP.simps\<close>)
qed

lemma steady_exceptP [intro]: "steady m \<Longrightarrow> steady h \<Longrightarrow> steady (exceptP cs m h)"
proof -
  assume "steady m" "steady h"
  then obtain r q where r: "\<forall>g. m g = Some (r, g)" "\<forall>g. h g = Some (q, g)" by (auto simp: steady_def)
  then show ?thesis unfolding exceptP_def steady_def by (cases r) (auto simp: tryP.simps)
qed

lemma podman_steady: "\<forall>w. os_run os None (''podman'' # args) w = (r, w) \<Longrightarrow> steady (podman os args)"
  by (simp add: podman_def osP_def steady_def)

lemma load_hold_steady: "holds_stable os \<Longrightarrow> steady (load_hold os name)"
proof -
  assume "holds_stable os"
  then obtain r1 r2 where "\<forall>w. os_run os None (''podman'' # pinned_cmd name) w = (r1, w)" "\<forall>w. os_run os None (''podman'' # image_cmd name) w = (r2, w)"
    unfolding holds_stable_def by meson
  then have "steady (podman os (pinned_cmd name))" "steady (podman os (image_cmd name))" by (auto intro: podman_steady)
  then show ?thesis unfolding load_hold_def hold_pinned_id_def Let_def
    by (auto intro!: steady_bindP steady_exceptP split: option.splits prod.splits)
qed

lemma load_snapshot_steady: "holds_stable (mc_os mc) \<Longrightarrow> steady (load_snapshot mc x mode)"
  unfolding load_snapshot_def by (auto intro!: steady_bindP load_hold_steady)

lemma load_each_member:
  assumes "holds_stable (mc_os mc)" "load_each mc cls xs g = Some (Inr ss, g')" "x \<in> set xs"
    "load_snapshot mc x (read_mode (snd (snd x)) ''lxc'') h = Some (Inr s, h')" "is_a s cls"
  shows "s \<in> set ss"
  using assms(2,3)
proof (induction xs arbitrary: g ss)
  case (Cons y ys)
  from Cons.prems(1) obtain o1 g1 rest where first: "tryP (bindP (load_snapshot mc y (read_mode (snd (snd y)) ''lxc'')) (\<lambda>s. give (Some s)))
      (\<lambda>e. if skipped e then give None else raise_exc e) g = Some (Inr o1, g1)"
    and rest: "load_each mc cls ys g1 = Some (Inr rest, g')"
    and ss: "ss = (case o1 of Some s \<Rightarrow> if is_a s cls then s # rest else rest | None \<Rightarrow> rest)"
    unfolding load_each.simps by (auto simp: bindP_Some split: option.splits)
  show ?case
  proof (cases "x = y")
    case True
    obtain r where "\<forall>g. load_snapshot mc y (read_mode (snd (snd y)) ''lxc'') g = Some (r, g)"
      using load_snapshot_steady [OF assms(1)] unfolding steady_def by blast
    with assms(4) True have "load_snapshot mc y (read_mode (snd (snd y)) ''lxc'') g = Some (Inr s, g)" by simp
    with first have "o1 = Some s" by (auto simp: tryP.simps bindP.simps)
    with ss assms(5) show ?thesis by simp
  next
    case False
    with Cons rest have "s \<in> set rest" by auto
    with ss show ?thesis by (auto split: option.splits)
  qed
qed simp

section \<open>Resolution\<close>

lemma resolve_any_entry:
  assumes "resolve_any st name (class_namespace cls) = Inr ((b, d, fs), mode)"
  shows "(b, d, fs) \<in> set (list_entries st cls) \<and> mode = read_mode fs (scope_name b)"
proof -
  have hit: "(d, EDir fs) \<in> set (entries_of st b) \<and> fs ''kento-image'' \<noteq> None" if "scan_namespace name (base_of st b) = Some (d, fs)" for b d fs
  proof (cases "base_of st b")
    case (Some es)
    with that scan_namespace_Some [of name es d fs] show ?thesis by (auto simp: entries_of_def)
  qed (use that in \<open>simp add: scan_namespace_def\<close>)
  show ?thesis unfolding with_image_entries using assms hit [of LXC_BASE] hit [of VM_BASE]
    by (cases cls) (auto simp: resolve_any_def in_scope_def scope_name_def is_lxc_scope_def split: option.splits)
qed

lemma get_impl_Inr:
  assumes "get_impl mc st cls name g = Some (Inr s, g')"
  obtains b d fs mode where "resolve_any st name (class_namespace cls) = Inr ((b, d, fs), mode)"
    "load_snapshot mc (b, d, fs) mode g = Some (Inr s, g')" "is_a s cls"
proof -
  note result = that
  have done1: thesis if "resolve_any st name (class_namespace cls) = Inr (x, mode)" "checked_load mc cls x mode g = Some (Inr s, g')" for x mode
    using that result
    by (cases x) (auto simp: checked_load_def bindP_Some reject_kind_mismatch_def split: if_splits)
  show thesis
  proof (cases "class_namespace cls")
    case None
    with assms done1 show thesis by (auto simp: get_impl_def bindP_Some)
  next
    case (Some ns)
    with assms done1 show thesis
      by (auto simp: get_impl_def bindP_Some split: sum.splits if_splits option.splits)
  qed
qed

lemma load_each_origin:
  assumes "load_each mc cls xs g = Some (Inr ss, g')" "s \<in> set ss"
  shows "\<exists>x \<in> set xs. \<exists>h h'. load_snapshot mc x (read_mode (snd (snd x)) ''lxc'') h = Some (Inr s, h')"
  using assms
proof (induction xs arbitrary: g ss)
  case (Cons y ys)
  from Cons.prems(1) obtain o1 g1 rest where first: "tryP (bindP (load_snapshot mc y (read_mode (snd (snd y)) ''lxc'')) (\<lambda>s. give (Some s)))
      (\<lambda>e. if skipped e then give None else raise_exc e) g = Some (Inr o1, g1)"
    and rest: "load_each mc cls ys g1 = Some (Inr rest, g')"
    and ss: "ss = (case o1 of Some s \<Rightarrow> if is_a s cls then s # rest else rest | None \<Rightarrow> rest)"
    unfolding load_each.simps by (auto simp: bindP_Some split: option.splits)
  show ?case
  proof (cases "s \<in> set rest")
    case True
    with Cons.IH [OF rest] show ?thesis by auto
  next
    case False
    with ss Cons.prems(2) have "o1 = Some s" by (auto split: option.splits if_splits)
    with first show ?thesis by (auto simp: tryP_Some bindP_Some split: if_splits)
  qed
qed (simp add: give_def)

lemma reap_all_orphans: "reap_all destroy os w = (res, w') \<Longrightarrow> map re_orphan res = os"
  by (induction os arbitrary: w res w') (auto simp: Let_def split: prod.splits sum.splits)

lemma boundary_Ok: "boundary m h = Some (Inr (Inr x), h') \<longleftrightarrow> m h = Some (Inr x, h')"
  by (cases "m h") (auto simp: boundary_def split: sum.splits option.splits if_splits)

section \<open>Typed creation\<close>

lemma int_str_no_space: "c \<in> set (int_str n) \<Longrightarrow> \<not> py_isspace c"
proof -
  assume "c \<in> set (int_str n)"
  then have "is_digit c \<or> c = CHR ''-''" using nat_str_digits by (auto simp: int_str_def split: if_splits)
  moreover have "\<not> py_isspace (CHR ''-'')" by (simp add: py_isspace_def cp_def)
  ultimately show ?thesis using is_digit_not_space by blast
qed

lemma forward_text: "render_forward_spec b t = Inr s \<Longrightarrow> CHR '':'' \<in> set s \<and> stripped s"
proof -
  assume r: "render_forward_spec b t = Inr s"
  obtain p ha h where b: "b = (p, ha, h)" by (rule prod_cases3)
  obtain ga g where t: "t = (ga, g)" by (rule prod.exhaust)
  have s: "s = int_str h @ '':'' @ int_str g @ (if p \<noteq> TCP then CHR ''/'' # proto_value p else [])"
    using r unfolding b t by (simp add: render_forward_spec_def split: if_splits)
  have lit: "\<not> py_isspace (CHR '':'')" "\<forall>c \<in> set (CHR ''/'' # proto_value p). \<not> py_isspace c"
    by (simp add: py_isspace_def cp_def) (cases p; simp add: py_isspace_def cp_def)
  have "set s \<subseteq> set (int_str h) \<union> {CHR '':''} \<union> set (int_str g) \<union> set (CHR ''/'' # proto_value p)" unfolding s by (cases "p = TCP") (simp_all, blast+)
  then have "\<not> py_isspace c" if "c \<in> set s" for c using that lit int_str_no_space by blast
  then have "stripped s" by (rule stripped_no_space)
  then show ?thesis by (simp add: s)
qed

lemma typed_forwards_admitted:
  assumes "mapE (\<lambda>(b, t). render_forward_spec b t) fwd = Inr ls" "list_all valid_forward fwd" "fwd \<noteq> []"
    "normalize_port_specs (Some (PList ls)) = Inr ports"
  shows "ports = Some ls \<and> parse_forwards ls = Inr fwd"
proof -
  have all2: "list_all2 (\<lambda>f s. (\<lambda>(b, t). render_forward_spec b t) f = Inr s) fwd ls" using assms(1) by (simp add: mapE_Inr_iff)
  have each: "CHR '':'' \<in> set s \<and> stripped s" if "s \<in> set ls" for s
  proof -
    from that obtain i where i: "i < length ls" "ls ! i = s" by (auto simp: in_set_conv_nth)
    obtain b t where f: "fwd ! i = (b, t)" by (cases "fwd ! i")
    have "(\<lambda>(b, t). render_forward_spec b t) (fwd ! i) = Inr s" using all2 i by (auto simp: list_all2_conv_all_nth)
    then show ?thesis using forward_text f by simp
  qed
  then have ne: "s \<noteq> [] \<and> py_strip s \<noteq> [] \<and> s \<noteq> ''auto''" if "s \<in> set ls" for s using that py_strip_id by fastforce
  then have f: "filter (\<lambda>p. p \<noteq> [] \<and> py_strip p \<noteq> []) ls = ls" "filter (\<lambda>s. s \<noteq> ''auto'') ls = ls" by (simp_all add: filter_id_conv)
  have "ls \<noteq> []" using all2 assms(3) by auto
  with assms(4) f obtain m where m: "parse_forwards ls = Inr m" "ports = Some ls" by (auto simp: normalize_port_specs_def)
  have "list_all2 (\<lambda>s f. parse_forward_spec s = Inr f) ls fwd"
  proof (rule list_all2_all_nthI)
    show len: "length ls = length fwd" using all2 by (simp add: list_all2_lengthD)
    show "parse_forward_spec (ls ! i) = Inr (fwd ! i)" if "i < length ls" for i
      by (rule forward_parse_render) (use all2 assms(2) len that in \<open>auto simp: list_all2_conv_all_nth list_all_length\<close>)
  qed
  then have "mapE parse_forward_spec ls = Inr fwd" by (simp add: mapE_Inr_iff)
  with m show ?thesis by (auto simp: parse_forwards_Inr)
qed

lemma resolve_network_named: "resolve_network ifc (Some nt) br mode pt = Inr net \<Longrightarrow> net_type net = nt"
  by (auto simp: resolve_network_def Let_def split: if_splits option.splits)

lemma create_net_word: "network_to_create_params (Some c) k = Inr np \<Longrightarrow> np_net_type np = Some (net_word (nc_mode c))"
  by (auto simp: network_to_create_params_def net_word_def no_net_params_def Let_def split: if_splits network_mode.splits)

lemma promote_kind: "promote_mode is_pve pve (if vm then ''vm'' else ''lxc'') = Inr mode \<Longrightarrow>
    is_vm_mode mode = vm \<and> is_pve_mode mode = (case pve of None \<Rightarrow> is_pve | Some b \<Rightarrow> b)"
  by (auto simp: promote_mode_def is_vm_mode_def is_pve_mode_def Let_def split: option.splits bool.splits if_splits)

lemma admit_parts:
  assumes "admit h g = Inr a"
  obtains ports where "normalize_port_specs (g_port g) = Inr ports" "promote_mode (h_is_pve h) (g_pve g) (g_mode g) = Inr (ad_mode a)"
    "resolve_network (h_interface h) (g_net_type g) (g_bridge g) (ad_mode a) (map_option (py_join [LF]) ports) = Inr (ad_net a)"
    "check_network g (ad_mode a) (net_type (ad_net a)) ports = Inr ()" "ad_ports a = ports"
  using assms by (auto simp: admit_def split: if_splits)

section \<open>Properties\<close>

text \<open>
  C18. What a lookup gives, the enumeration lists, whatever class they are asked of: while the inspection of the holds is
  steady and every instance has its mode recorded, the handle is among the handles, field by field.
\<close>

theorem get_is_listed:
  assumes "holds_stable (mc_os mc)"
    and "\<And>b d fs. (d, EDir fs) \<in> set (entries_of st b) \<Longrightarrow> fs ''kento-image'' \<noteq> None \<Longrightarrow> fs ''kento-mode'' \<noteq> None"
    and "instance_get mc st cls name g = Some (Inr (Inr s), g')" "instance_list mc st cls h = Some (Inr (Inr ss), h')"
  shows "s \<in> set ss"
proof -
  have get: "get_impl mc st cls name g = Some (Inr s, g')" and list: "list_impl mc st cls h = Some (Inr ss, h')"
    using assms(3,4) by (simp_all add: instance_get_def instance_list_def boundary_Ok)
  from get_impl_Inr [OF get] obtain b d fs mode where
    r: "resolve_any st name (class_namespace cls) = Inr ((b, d, fs), mode)" "load_snapshot mc (b, d, fs) mode g = Some (Inr s, g')" "is_a s cls" .
  note entry = resolve_any_entry [OF r(1)]
  then have "fs ''kento-mode'' \<noteq> None" using assms(2) by (auto simp: with_image_entries)
  then have "mode = read_mode fs ''lxc''" using entry by (auto simp: read_mode_def)
  with load_each_member [OF assms(1) list [unfolded list_impl_def], of "(b, d, fs)" g s g'] entry r(2,3) show ?thesis by simp
qed

text \<open>
  C19. One instance whose recorded image is a URL with an unmatched bracket makes the enumeration raise, for every class
  whose namespace it is in, although a bad entry is to be skipped: the error of the parser is not among those caught.
\<close>

theorem bad_image_stops_listing:
  assumes "(d, EDir fs) \<in> set (entries_of st b)" "in_scope (class_namespace cls) (scope_name b)"
    "read_meta fs ''kento-image'' = Some (''https://'' @ n @ ''/'')"
    "safe n" "\<forall>c \<in> set n. \<not> url_delim c" "(CHR ''['' \<in> set n) \<noteq> (CHR '']'' \<in> set n)"
  shows "\<exists>e g'. instance_list mc st cls g = Some (Inl e, g')"
proof -
  have "source_parse (mc_ipv6 mc) (''https://'' @ n @ ''/'') = Inl ValueErrorC" using source_parse_bracket [OF assms(4-6)] .
  then have "load_sources (mc_ipv6 mc) fs = Inl ValueErrorC" using assms(3) by (simp add: load_sources_def unwrapE_def)
  then have "load_static mc (b, d, fs) (read_mode fs ''lxc'') = Inl ValueErrorC" by (simp add: load_static_def Let_def)
  moreover have "(b, d, fs) \<in> set (list_entries st cls)" using assms(1-3) by (auto simp: with_image_entries read_meta_def)
  moreover have "\<not> skipped ValueErrorC" by (simp add: skipped_def catches_def mro_step)
  ultimately obtain e g' where "list_impl mc st cls g = Some (Inl e, g')" "\<not> skipped e"
    using load_each_raises [of "(b, d, fs)" "list_entries st cls" mc ValueErrorC cls g] by (auto simp: list_impl_def)
  then show ?thesis using not_skipped_not_kento by (auto simp: instance_list_def boundary_def)
qed

text \<open>
  A virtual machine under PVE without a recorded id is an orphan that the search for orphans finds, but no handle of any class
  can be had for it: every lookup that resolves to it fails and no enumeration lists it, so its status
  is never reported.
\<close>

theorem idless_orphan_has_no_handle:
  assumes "only_oserrors (mc_exists mc)" and entry: "(d, EDir fs) \<in> set (entries_of st b)" "fs ''kento-image'' \<noteq> None"
    and mode: "fs ''kento-mode'' = Some t" "file_text t = ''pve-vm''" and vmid: "fs ''kento-vmid'' = None"
    and "distinct (map fst (entries_of st b))"
  shows "(\<exists>os. find_orphans (mc_exists mc) st None = Inr os \<and> describe b d fs ''pve-vm'' \<in> set os) \<and>
    resolve_status (mc_exists mc) (mc_running mc d fs) d fs ''pve-vm'' = Inr ORPHAN \<and>
    (\<forall>cls name g s g'. resolve_any st name (class_namespace cls) = Inr ((b, d, fs), ''pve-vm'') \<longrightarrow>
       instance_get mc st cls name g \<noteq> Some (Inr (Inr s), g')) \<and>
    (\<forall>cls g ss g'. instance_list mc st cls g = Some (Inr (Inr ss), g') \<longrightarrow> (\<forall>s \<in> set ss. sn_dir s \<noteq> (b, d)))"
proof -
  have rm: "read_mode fs x = ''pve-vm''" for x using mode by (simp add: read_mode_def)
  have bad: "load_static mc (b, d, fs) ''pve-vm'' \<noteq> Inr s" for s
  proof
    assume "load_static mc (b, d, fs) ''pve-vm'' = Inr s"
    from load_static_fields [OF this] obtain p where "load_platform_profile d fs ''pve-vm'' = Inr p" by blast
    then show False using vmid by (simp add: load_platform_profile_def is_pve_mode_def read_meta_def make_profile_def)
  qed
  have no_load: "load_snapshot mc (b, d, fs) ''pve-vm'' g \<noteq> Some (Inr s, g')" for g s g'
    using bad by (auto simp: load_snapshot_def bindP_Some)
  have "\<exists>os. find_orphans (mc_exists mc) st None = Inr os \<and> describe b d fs ''pve-vm'' \<in> set os"
  proof -
    from find_orphans_filter [OF assms(1)] obtain xs where
      xs: "set xs = {(b, d, fs) \<in> candidates st None. gone (mc_exists mc) d fs}"
        "find_orphans (mc_exists mc) st None = Inr (map (\<lambda>(b, d, fs). describe b d fs (read_mode fs ''lxc'')) xs)" by blast
    have "(b, d, fs) \<in> set xs" using entry vmid rm
      by (simp add: xs(1) candidates_def in_scope_def gone_def is_pve_mode_def orphan_vmid_def read_meta_def)
    from imageI [OF this, of "\<lambda>(b, d, fs). describe b d fs (read_mode fs ''lxc'')"] show ?thesis using xs(2) rm by simp
  qed
  moreover have "resolve_status (mc_exists mc) (mc_running mc d fs) d fs ''pve-vm'' = Inr ORPHAN"
    using vmid by (simp add: resolve_status_def is_pve_mode_def read_meta_def)
  moreover have "instance_get mc st cls name g \<noteq> Some (Inr (Inr s), g')"
    if "resolve_any st name (class_namespace cls) = Inr ((b, d, fs), ''pve-vm'')" for cls name g s g'
  proof
    assume "instance_get mc st cls name g = Some (Inr (Inr s), g')"
    then have "get_impl mc st cls name g = Some (Inr s, g')"
      by (simp add: instance_get_def boundary_Ok)
    from get_impl_Inr [OF this] that no_load show False by (metis Inr_inject prod.inject)
  qed
  moreover have "sn_dir s \<noteq> (b, d)" if "instance_list mc st cls g = Some (Inr (Inr ss), g')" "s \<in> set ss" for cls g ss g' s
  proof -
    have "list_impl mc st cls g = Some (Inr ss, g')"
      using that(1) by (simp add: instance_list_def boundary_Ok)
    from load_each_origin [OF this [unfolded list_impl_def] that(2)] obtain b' d' fs' h h' where
      o1: "(b', d', fs') \<in> set (list_entries st cls)" "load_snapshot mc (b', d', fs') (read_mode fs' ''lxc'') h = Some (Inr s, h')" by auto
    have "sn_dir s = (b', d')" using load_snapshot_Some [OF o1(2)] load_static_fields by (metis (no_types, lifting) snapshot.simps(1) snapshot.surjective snapshot.update_convs(15))
    moreover have "(b', d') \<noteq> (b, d)"
    proof
      assume "(b', d') = (b, d)"
      then have "(d, EDir fs') \<in> set (entries_of st b)" using o1(1) by (simp add: with_image_entries)
      then have "fs' = fs" using entry(1) assms(7) by (metis eq_key_imp_eq_value entry.inject)
      with o1(2) \<open>(b', d') = (b, d)\<close> rm no_load show False by simp
    qed
    ultimately show ?thesis by simp
  qed
  ultimately show ?thesis by blast
qed

text \<open>
  A reconciliation reports every orphan of the class's namespace exactly once, as reclaimed or as failed; a dry run
  reports all of them as reclaimable, none as failed, and changes nothing.
\<close>

theorem prune_reports_every_orphan:
  assumes "prune_orphans config_exists destroy st cls reap w = Some (Inr rep, w')"
  shows "\<exists>os. find_orphans config_exists st (class_namespace cls) = Inr os \<and>
    mset (pr_reclaimed rep) + mset (map fst (pr_failed rep)) = mset (map or_name os) \<and> pr_dry_run rep = (\<not> reap) \<and>
    (\<not> reap \<longrightarrow> w' = w \<and> pr_failed rep = [] \<and> pr_reclaimed rep = map or_name os)"
proof -
  have split: "mset (map f (filter P xs)) + mset (map f (filter (\<lambda>x. \<not> P x) xs)) = mset (map f xs)" for f :: "reap_entry \<Rightarrow> string" and P xs
    by (induction xs) auto
  obtain os where os: "find_orphans config_exists st (class_namespace cls) = Inr os"
    using assms by (cases "find_orphans config_exists st (class_namespace cls)") (auto simp: prune_orphans_def bindP_Some reap_orphans_def)
  obtain es where es: "reap_orphans config_exists destroy st reap (class_namespace cls) w = (Inr es, w')" and rep: "rep = prune_report_of reap es"
    using assms by (auto simp: prune_orphans_def bindP_Some)
  have names: "map re_orphan es = os \<and> (\<not> reap \<longrightarrow> w' = w \<and> (\<forall>e \<in> set es. re_error e = None))"
  proof (cases reap)
    case True
    then have "reap_all destroy os w = (es, w')" using es os by (auto simp: reap_orphans_def split: prod.splits)
    then show ?thesis using reap_all_orphans True by simp
  next
    case False
    then show ?thesis using es os by (auto simp: reap_orphans_def comp_def)
  qed
  let ?P = "\<lambda>e. \<not> (reap \<and> re_error e \<noteq> None)"
  have "mset (map (or_name \<circ> re_orphan) (filter ?P es)) + mset (map (or_name \<circ> re_orphan) (filter (\<lambda>e. \<not> ?P e) es)) = mset (map (or_name \<circ> re_orphan) es)"
    by (rule split)
  moreover have "map (or_name \<circ> re_orphan) es = map or_name os" using names by (metis map_map)
  moreover have "map fst (pr_failed rep) = map (or_name \<circ> re_orphan) (filter (\<lambda>e. \<not> ?P e) es)" by (simp add: rep prune_report_of_def comp_def)
  moreover have "pr_reclaimed rep = map (or_name \<circ> re_orphan) (filter ?P es)" by (simp add: rep prune_report_of_def)
  ultimately have "mset (pr_reclaimed rep) + mset (map fst (pr_failed rep)) = mset (map or_name os)" by (simp only:)
  moreover have "pr_failed rep = [] \<and> pr_reclaimed rep = map or_name os" if "\<not> reap"
    using that names by (auto simp: rep prune_report_of_def)
  moreover have "pr_dry_run rep = (\<not> reap)" by (simp add: rep prune_report_of_def)
  ultimately show ?thesis using os names by blast
qed

text \<open>
  C20. A typed creation that is admitted creates what was asked for: the kind of the class, on the platform of the profile (or
  that of the host without one), under the given id, on the kind of network given, with exactly the given forwards.
\<close>

theorem typed_create_faithful:
  assumes "build_create_args vm t = Inr g" "admit h g = Inr a"
  shows "is_vm_mode (ad_mode a) = vm \<and>
    is_pve_mode (ad_mode a) = (case t_platform t of None \<Rightarrow> h_is_pve h | Some p \<Rightarrow> pp_mode p = PVE) \<and>
    (\<forall>n. n \<noteq> 0 \<and> (t_mid t = Some n \<or> (\<exists>p. t_platform t = Some p \<and> pp_mid p = Some n)) \<longrightarrow> is_pve_mode (ad_mode a) \<and> g_vmid g = n) \<and>
    (\<forall>c. t_network t = Some c \<longrightarrow> net_type (ad_net a) = net_word (nc_mode c)) \<and>
    (t_forwards t \<noteq> [] \<and> list_all valid_forward (t_forwards t) \<longrightarrow>
       (\<exists>specs. ad_ports a = Some specs \<and> parse_forwards specs = Inr (t_forwards t)))"
proof -
  obtain pve vmid img ports np where
    b: "platform_to_create_args (t_platform t) (t_mid t) = Inr (pve, vmid)" "forwards_to_create_port (t_forwards t) = Inr ports"
      "network_to_create_params (t_network t) (if vm then ''vm'' else ''lxc'') = Inr np"
    and g: "g_mode g = (if vm then ''vm'' else ''lxc'')" "g_pve g = pve" "g_vmid g = vmid" "g_port g = map_option PList ports" "g_net_type g = np_net_type np"
    using assms(1) by (auto simp: build_create_args_def Let_def split: if_splits)
  obtain specs where a: "normalize_port_specs (g_port g) = Inr specs" "promote_mode (h_is_pve h) (g_pve g) (g_mode g) = Inr (ad_mode a)"
    "resolve_network (h_interface h) (g_net_type g) (g_bridge g) (ad_mode a) (map_option (py_join [LF]) specs) = Inr (ad_net a)"
    "check_network g (ad_mode a) (net_type (ad_net a)) specs = Inr ()" "ad_ports a = specs" using admit_parts [OF assms(2)] .
  have kind: "is_vm_mode (ad_mode a) = vm" "is_pve_mode (ad_mode a) = (case pve of None \<Rightarrow> h_is_pve h | Some b \<Rightarrow> b)"
    using promote_kind [of "h_is_pve h" pve vm "ad_mode a"] a(2) g(1,2) by simp_all
  have pve: "pve = map_option (\<lambda>p. pp_mode p = PVE) (t_platform t)"
    and vmid: "\<forall>n. t_mid t = Some n \<or> (\<exists>p. t_platform t = Some p \<and> pp_mid p = Some n) \<longrightarrow> vmid = n"
    using b(1) by (auto simp: platform_to_create_args_def Let_def split: if_splits option.splits)
  have "is_pve_mode (ad_mode a)" if "vmid \<noteq> 0" using check_network_Inr [OF a(4)] that g(3) by (auto simp: is_pve_mode_def)
  moreover have "net_type (ad_net a) = net_word (nc_mode c)" if "t_network t = Some c" for c
    using resolve_network_named create_net_word b(3) that a(3) g(5) by metis
  moreover have "\<exists>specs. ad_ports a = Some specs \<and> parse_forwards specs = Inr (t_forwards t)"
    if f: "t_forwards t \<noteq> []" "list_all valid_forward (t_forwards t)"
  proof -
    obtain ls where ls: "mapE (\<lambda>(b, t). render_forward_spec b t) (t_forwards t) = Inr ls" "ports = Some ls"
      using b(2) f(1) by (auto simp: forwards_to_create_port_def)
    with a(1) g(4) typed_forwards_admitted [OF ls(1) f(2,1)] a(5) show ?thesis by simp
  qed
  ultimately show ?thesis using kind pve vmid g(3) by (auto split: option.splits)
qed

section \<open>Witnesses\<close>

text \<open>A container that is stopped, and a virtual machine under PVE whose id was never recorded.\<close>

definition web_files :: files where
  "web_files = [''kento-image'' \<mapsto> ''web:1'' @ [LF], ''kento-mode'' \<mapsto> ''lxc'' @ [LF], ''kento-net-type'' \<mapsto> ''host'' @ [LF]]"
definition old_files :: files where
  "old_files = [''kento-image'' \<mapsto> ''vm:1'' @ [LF], ''kento-mode'' \<mapsto> ''pve-vm'' @ [LF]]"
definition two_instances :: store where
  "two_instances = \<lparr>lxc_base = Some [(''web'', EDir web_files)], vm_base = Some [(''old'', EDir old_files)]\<rparr>"

definition no_podman :: "unit os" where
  "no_podman = \<lparr>os_run = (\<lambda>_ _ w. (Inr (1, []), w)), os_spawn = (\<lambda>_ w. (Inl OSErrorC, w)), os_alive = (\<lambda>_ _. False), os_exited = (\<lambda>_ _. True),
     os_kill = (\<lambda>_ _ w. (Inr (), w)), os_wait = (\<lambda>_ _ w. (Inr (), w)), os_now = (\<lambda>_. 0), os_sleep = (\<lambda>_ w. w),
     os_sock = (\<lambda>_ _. False), os_unlink_sock = (\<lambda>_ w. w), os_which = (\<lambda>_. None), os_is_file = (\<lambda>_ _. False), os_link = (\<lambda>_. Inr [])\<rparr>"

definition still_host :: "unit machine" where
  "still_host = \<lparr>mc_os = no_podman, mc_ipv6 = (\<lambda>_. True), mc_exists = (\<lambda>_ _. Inr False), mc_running = (\<lambda>_ _ _. Inr False),
     mc_mtime = (\<lambda>_ _. Inr 7), mc_base = (\<lambda>_. mk_path ''/v'')\<rparr>"

definition no_files :: "unit guest" where "no_files = \<lparr>g_files = Map.empty, g_world = ()\<rparr>"

lemma no_podman_hold: "load_hold no_podman n g = Some (Inr None, g)"
  by (simp add: load_hold_def hold_pinned_id_def podman_def osP_def no_podman_def bindP.simps exceptP_def tryP.simps)

definition web_snapshot :: snapshot where
  "web_snapshot = \<lparr>sn_dir = (LXC_BASE, ''web''), sn_mode = ''lxc'', sn_name = ''web'', sn_hostname = ''web'',
     sn_sources = [OciSource \<lparr>oci_endpoint = None, oci_path = [], oci_name = ''web'', oci_version = Some ''1'', oci_digest = None\<rparr>],
     sn_storage = OVERLAY, sn_network = \<lparr>nc_mode = HOST, link_config = [], ip_config = []\<rparr>, sn_forwards = [], sn_status = STOPPED, sn_resources = [],
     sn_platform = \<lparr>pp_mode = STANDARD, pp_mid = None, pp_extra_args = []\<rparr>, sn_nesting = False, sn_created = 7, sn_environment = [],
     sn_hold = None, sn_upper = mk_path ''/v/web/upper'', sn_work = mk_path ''/v/web/work'', sn_unprivileged = False, sn_args = []\<rparr>"

lemma web_loaded: "load_static still_host (LXC_BASE, ''web'', web_files) ''lxc'' = Inr web_snapshot" by code_simp

lemma web_handle: "load_snapshot still_host (LXC_BASE, ''web'', web_files) ''lxc'' g = Some (Inr web_snapshot, g)"
proof -
  have "mc_os still_host = no_podman" by (simp add: still_host_def)
  then show ?thesis by (simp add: load_snapshot_def web_loaded bindP.simps no_podman_hold) (simp add: web_snapshot_def)
qed

lemma old_unloadable: "load_static still_host (VM_BASE, ''old'', old_files) ''pve-vm'' = Inl ValidationErrorC" by code_simp

lemma two_resolved:
  "resolve_any two_instances ''web'' (Some ''lxc'') = Inr ((LXC_BASE, ''web'', web_files), ''lxc'')"
  "resolve_any two_instances ''old'' None = Inr ((VM_BASE, ''old'', old_files), ''pve-vm'')"
proof -
  have names: "validate_name ''web'' = Inr ()" "validate_name ''old'' = Inr ()" by code_simp+
  have modes: "read_mode web_files x = ''lxc''" "read_mode old_files x = ''pve-vm''" for x
    by (simp_all add: read_mode_def web_files_def old_files_def) code_simp+
  have scans: "scan_namespace ''web'' (lxc_base two_instances) = Some (''web'', web_files)"
    "scan_namespace ''old'' (lxc_base two_instances) = None" "scan_namespace ''old'' (vm_base two_instances) = Some (''old'', old_files)"
    by (simp_all add: scan_namespace_def two_instances_def web_files_def old_files_def recorded_name_def)
  show "resolve_any two_instances ''web'' (Some ''lxc'') = Inr ((LXC_BASE, ''web'', web_files), ''lxc'')"
    "resolve_any two_instances ''old'' None = Inr ((VM_BASE, ''old'', old_files), ''pve-vm'')"
    by (simp_all add: resolve_any_def names modes scans is_lxc_scope_def)
qed

lemma web_got: "instance_get still_host two_instances Containers ''web'' g = Some (Inr (Inr web_snapshot), g)"
proof -
  note two_resolved(1)
  moreover have "sn_mode web_snapshot = ''lxc''" by (simp add: web_snapshot_def)
  ultimately have "get_impl still_host two_instances Containers ''web'' g = Some (Inr web_snapshot, g)"
    by (simp add: get_impl_def checked_load_def bindP.simps web_handle reject_kind_mismatch_def is_vm_mode_def)
  then show ?thesis by (simp add: instance_get_def boundary_Ok)
qed

lemma two_listed: "instance_list still_host two_instances AnyInstance g = Some (Inr (Inr [web_snapshot]), g)"
proof -
  have "list_entries two_instances AnyInstance = [(LXC_BASE, ''web'', web_files), (VM_BASE, ''old'', old_files)]"
    by (simp add: list_entries_def in_scope_def two_instances_def entries_of_def web_files_def old_files_def)
  moreover have "read_mode web_files ''lxc'' = ''lxc''" "read_mode old_files ''lxc'' = ''pve-vm''" by code_simp+
  moreover have "load_snapshot still_host (VM_BASE, ''old'', old_files) ''pve-vm'' g = Some (Inl ValidationErrorC, g)" for g
    by (simp add: load_snapshot_def old_unloadable bindP.simps)
  moreover have "skipped ValidationErrorC" by (simp add: skipped_def catches_def mro_step)
  ultimately have "list_impl still_host two_instances AnyInstance g = Some (Inr [web_snapshot], g)"
    by (simp add: list_impl_def bindP.simps tryP.simps web_handle)
  then show ?thesis by (simp add: instance_list_def boundary_Ok)
qed

theorem get_is_listed_witness:
  "instance_get still_host two_instances Containers ''web'' no_files = Some (Inr (Inr web_snapshot), no_files) \<and>
   (\<exists>ss. instance_list still_host two_instances Containers no_files = Some (Inr (Inr ss), no_files) \<and> web_snapshot \<in> set ss)"
proof -
  have "list_entries two_instances Containers = [(LXC_BASE, ''web'', web_files)]"
    by (simp add: list_entries_def in_scope_def two_instances_def entries_of_def web_files_def scope_name_def)
  moreover have "read_mode web_files ''lxc'' = ''lxc''" by code_simp
  ultimately have "list_impl still_host two_instances Containers no_files =
      Some (Inr (if is_a web_snapshot Containers then [web_snapshot] else []), no_files)"
    by (simp add: list_impl_def bindP.simps tryP.simps web_handle)
  then have listed: "\<exists>ss. instance_list still_host two_instances Containers no_files = Some (Inr (Inr ss), no_files)"
    by (simp add: instance_list_def boundary_Ok)
  then obtain ss where ss: "instance_list still_host two_instances Containers no_files = Some (Inr (Inr ss), no_files)" by blast
  have stable: "holds_stable (mc_os still_host)" by (simp add: holds_stable_def still_host_def no_podman_def)
  have modes: "fs ''kento-mode'' \<noteq> None" if "(d, EDir fs) \<in> set (entries_of two_instances b)" for b d fs
    using that by (cases b) (auto simp: two_instances_def entries_of_def web_files_def old_files_def)
  have "web_snapshot \<in> set ss" 
    by (rule get_is_listed [where mc = still_host and st = two_instances, OF stable _ web_got [of no_files] ss]) (rule modes)
  then show ?thesis using web_got ss by blast
qed

theorem bad_image_stops_listing_witness:
  "\<exists>e g'. instance_list still_host
     (two_instances\<lparr>vm_base := Some [(''u'', EDir [''kento-image'' \<mapsto> ''https://[::1/'' @ [LF], ''kento-mode'' \<mapsto> ''vm'' @ [LF]])]\<rparr>) AnyInstance no_files = Some (Inl e, g')"
proof -
  let ?fs = "[''kento-image'' \<mapsto> ''https://[::1/'' @ [LF], ''kento-mode'' \<mapsto> ''vm'' @ [LF]]"
  let ?st = "two_instances\<lparr>vm_base := Some [(''u'', EDir ?fs)]\<rparr>"
  have "file_text (''https://[::1/'' @ [LF]) = ''https://[::1/''" by code_simp
  then have "read_meta ?fs ''kento-image'' = Some (''https://'' @ ''[::1'' @ ''/'')" by (simp add: read_meta_def)
  then show ?thesis using bad_image_stops_listing [of "''u''" ?fs ?st VM_BASE AnyInstance "''[::1''" still_host no_files]
    by (simp add: entries_of_def in_scope_def unsafe_char_def url_delim_def)
qed

theorem idless_orphan_has_no_handle_witness:
  "resolve_any two_instances ''old'' None = Inr ((VM_BASE, ''old'', old_files), ''pve-vm'') \<and>
   (\<forall>s g'. instance_get still_host two_instances AnyInstance ''old'' no_files \<noteq> Some (Inr (Inr s), g')) \<and>
   instance_list still_host two_instances AnyInstance no_files = Some (Inr (Inr [web_snapshot]), no_files) \<and>
   sn_dir web_snapshot \<noteq> (VM_BASE, ''old'')"
proof -
  have "only_oserrors (mc_exists still_host)" by (simp add: only_oserrors_def still_host_def)
  moreover have "(''old'', EDir old_files) \<in> set (entries_of two_instances VM_BASE)" "distinct (map fst (entries_of two_instances VM_BASE))"
    by (simp_all add: two_instances_def entries_of_def)
  moreover have "old_files ''kento-image'' \<noteq> None" "old_files ''kento-mode'' = Some (''pve-vm'' @ [LF])" "old_files ''kento-vmid'' = None"
    by (simp_all add: old_files_def)
  moreover have "file_text (''pve-vm'' @ [LF]) = ''pve-vm''" by code_simp
  ultimately have all: "(\<forall>cls name g s g'. resolve_any two_instances name (class_namespace cls) = Inr ((VM_BASE, ''old'', old_files), ''pve-vm'') \<longrightarrow>
       instance_get still_host two_instances cls name g \<noteq> Some (Inr (Inr s), g')) \<and>
    (\<forall>cls g ss g'. instance_list still_host two_instances cls g = Some (Inr (Inr ss), g') \<longrightarrow> (\<forall>s \<in> set ss. sn_dir s \<noteq> (VM_BASE, ''old'')))"
    using idless_orphan_has_no_handle [of still_host "''old''" old_files two_instances VM_BASE "''pve-vm'' @ [LF]"] by blast
  note r = two_resolved(2)
  then show ?thesis using all two_listed [of no_files] by (metis class_namespace.simps(1) list.set_intros(1))
qed

theorem prune_reports_every_orphan_witness:
  "\<exists>rep w'. prune_orphans (\<lambda>_ _. Inr False) (\<lambda>x w. (Inl StateErrorC, Suc w)) two_instances Machines True 0 = Some (Inr rep, w') \<and>
     pr_reclaimed rep = [] \<and> pr_failed rep = [(''old'', StateErrorC)] \<and> w' = Suc 0 \<and>
     mset (pr_reclaimed rep) + mset (map fst (pr_failed rep)) = {#''old''#}"
proof -
  let ?rep = "\<lparr>pr_dry_run = False, pr_reclaimed = [], pr_failed = [(''old'', StateErrorC)]\<rparr>"
  have run: "prune_orphans (\<lambda>_ _. Inr False) (\<lambda>x w. (Inl StateErrorC, Suc w)) two_instances Machines True 0 = Some (Inr ?rep, Suc 0)" by code_simp
  have "find_orphans (\<lambda>_ _. Inr False) two_instances (class_namespace Machines) = Inr [describe VM_BASE ''old'' old_files ''pve-vm'']" by code_simp
  with prune_reports_every_orphan [OF run] have "mset (pr_reclaimed ?rep) + mset (map fst (pr_failed ?rep)) = {#or_name (describe VM_BASE ''old'' old_files ''pve-vm'')#}" by auto
  moreover have "or_name (describe VM_BASE ''old'' old_files ''pve-vm'') = ''old''" by code_simp
  ultimately show ?thesis using run by (intro exI [of _ ?rep] exI [of _ "Suc 0"]) simp
qed

definition typed_vm :: typed_create where
  "typed_vm = \<lparr>t_image = ImageText ''vm:1'', t_hostname = None, t_platform = Some \<lparr>pp_mode = PVE, pp_mid = Some 105, pp_extra_args = []\<rparr>, t_mid = None,
     t_network = Some \<lparr>nc_mode = USER, link_config = [], ip_config = []\<rparr>, t_forwards = [((TCP, None, 80), (None, 80))], t_resources = None,
     t_environment = [], t_storage = OVERLAY, t_args = [], t_extra_args = [], t_ssh_keys = [], t_ssh_host_key_dir = None,
     t_unprivileged = False, t_kernel = None, t_initramfs = None\<rparr>"

definition typed_vm_args :: create_args where
  "typed_vm_args = \<lparr>g_image = ''vm:1'', g_mode = ''vm'', g_pve = Some True, g_vmid = 105, g_qemu_args = [], g_pve_args = [], g_lxc_args = [],
     g_env = [], g_port = Some (PList [''80:80'']), g_ssh_keys = [], g_ssh_host_key_dir = None, g_net_type = Some ''usermode'', g_bridge = None,
     g_ip = None, g_gateway = None, g_kernel = None, g_initramfs = None, g_unprivileged = False, g_memory = None, g_cores = None\<rparr>"

definition pve_host :: host where
  "pve_host = \<lparr>h_root = True, h_is_pve = True, h_image_is_url = (\<lambda>_. Inr False), h_side_is_url = (\<lambda>_. Inr False), h_is_file = (\<lambda>_. True),
     h_host_keys = (\<lambda>_. None), h_idmap_supported = True, h_snippets = Inr (), h_interface = (\<lambda>_. False)\<rparr>"

theorem typed_create_faithful_witness:
  "\<exists>g a. build_create_args True typed_vm = Inr g \<and> admit pve_host g = Inr a \<and> ad_mode a = ''pve-vm'' \<and> g_vmid g = 105 \<and>
     net_type (ad_net a) = ''usermode'' \<and> (\<exists>specs. ad_ports a = Some specs \<and> parse_forwards specs = Inr (t_forwards typed_vm))"
proof -
  let ?a = "\<lparr>ad_mode = ''pve-vm'', ad_net = \<lparr>net_type = ''usermode'', net_bridge = None, net_port = Some ''80:80''\<rparr>,
        ad_ports = Some [''80:80''], ad_url = False\<rparr>"
  have g: "build_create_args True typed_vm = Inr typed_vm_args" by code_simp
  have a: "admit pve_host typed_vm_args = Inr ?a" by code_simp
  have "t_forwards typed_vm \<noteq> []" "list_all valid_forward (t_forwards typed_vm)" "t_network typed_vm = Some \<lparr>nc_mode = USER, link_config = [], ip_config = []\<rparr>"
    by (simp_all add: typed_vm_def valid_forward_def port_bounds)
  with typed_create_faithful [OF g a] have "\<exists>specs. ad_ports ?a = Some specs \<and> parse_forwards specs = Inr (t_forwards typed_vm)" by blast
  moreover have "g_vmid typed_vm_args = 105" by (simp add: typed_vm_args_def)
  ultimately show ?thesis using g a by (intro exI [of _ typed_vm_args] exI [of _ ?a]) simp
qed

end
