(* ===== verification/Fetch.thy ===== *)
theory Fetch imports Urlref Images begin

text \<open>
  Rootfs trees from a URL: the fetcher of \<^verbatim>\<open>fetch.py\<close>, the extractor of \<^verbatim>\<open>extract.py\<close>, their composition in \<^verbatim>\<open>urlvm.py\<close>
  and the image built on it.  A server maps the URL sent to it to an error or to a response: the redirects followed, the chunks the reads
  return, and the error that ends them, if any.  The disk and the archive library are arguments that may raise.
\<close>

section \<open>The network and the disk\<close>

text \<open>What the network library raises; the first three are those of \<^verbatim>\<open>urllib.error\<close> and the timeouts.\<close>

datatype net_exc = NetHTTP int | NetURL bool string | NetTimeout | NetOther exc

record response =
  rs_hops :: "string list"
  rs_chunks :: "string list"
  rs_break :: "net_exc option"

type_synonym server = "string \<Rightarrow> net_exc + response"

record disk =
  dk_write :: "string \<Rightarrow> exc option"
  dk_unlink :: "exc option"

definition DEFAULT_MAX_BYTES :: int where "DEFAULT_MAX_BYTES = 2 * 1024 ^ 3"

definition max_bytes_from_env :: "string option \<Rightarrow> exc + int" where
  "max_bytes_from_env raw = (case raw of None \<Rightarrow> Inr DEFAULT_MAX_BYTES
     | Some t \<Rightarrow> (case py_int t of Some n \<Rightarrow> Inr n | None \<Rightarrow> Inl ValueErrorC))"

definition wire_url :: "url_ref \<Rightarrow> string" where
  "wire_url r =
     (if url_secure r then ''https'' else ''http'') @ ''://'' @ render_endpoint False (url_endpoint r) @ ''/'' @ url_pathname r @
     (case url_version r of None \<Rightarrow> [] | Some v \<Rightarrow> ''+'' @ v) @
     (if url_query r \<noteq> [] then ''?'' @ url_query r else [])"

section \<open>Conditions\<close>

definition fetch_error :: "cond_kind \<Rightarrow> string \<Rightarrow> (string \<times> ctx_value) list \<Rightarrow> exc + string result" where
  "fetch_error k msg ctx = make_Error [\<lparr>severity = ERROR, kind = k, message = msg, cond_context = ctx\<rparr>]"

definition fragment_conditions :: "url_ref \<Rightarrow> condition list" where
  "fragment_conditions r =
     (if url_fragment r \<noteq> []
      then [\<lparr>severity = WARNING, kind = FRAGMENT_DROPPED,
             message = ''dropped fragment '' @ quoted (url_fragment r) @ '' from URL (not sent to server)'',
             cond_context = [(''fragment'', CStr (Some (url_fragment r)))]\<rparr>] else [])"

definition insecure_hops :: "response \<Rightarrow> string list" where
  "insecure_hops rs = filter (\<lambda>u. prefix ''http://'' (py_lower u)) (rs_hops rs)"

definition insecure_redirect_condition :: "(string \<Rightarrow> bool) \<Rightarrow> string list \<Rightarrow> exc + condition" where
  "insecure_redirect_condition bracket_ok hops =
     bindE (urlsplit bracket_ok (last hops)) (\<lambda>sp.
       let h = (case netloc_hostname (us_netloc sp) of Some x \<Rightarrow> if x \<noteq> [] then x else ''<unknown>'' | None \<Rightarrow> ''<unknown>'')
       in Inr \<lparr>severity = WARNING, kind = INSECURE_REDIRECT,
               message = ''followed a redirect to a non-https host '' @ py_repr h @ '' (cleartext)'',
               cond_context = [(''insecure_hop_host'', CStr (Some h)), (''hop_count'', CInt (Some (int (length hops))))]\<rparr>)"

section \<open>Streaming\<close>

datatype stream_end = Finished string | Exceeded string | Broken net_exc string

text \<open>A chunk without bytes is the end of the body.\<close>

fun stream :: "int \<Rightarrow> (string \<Rightarrow> exc option) \<Rightarrow> string list \<Rightarrow> net_exc option \<Rightarrow> string \<Rightarrow> stream_end" where
  "stream cap wr [] brk out = (case brk of None \<Rightarrow> Finished out | Some e \<Rightarrow> Broken e out)"
| "stream cap wr (c # cs) brk out =
     (if c = [] then Finished out
      else if int (length out + length c) > cap then Exceeded out
      else case wr (out @ c) of Some e \<Rightarrow> Broken (NetOther e) out | None \<Rightarrow> stream cap wr cs brk (out @ c))"

definition cap_error :: "int \<Rightarrow> string \<Rightarrow> exc + string result" where
  "cap_error cap masked =
     fetch_error SIZE_EXCEEDED (''download exceeded the '' @ int_str cap @ ''-byte size cap (streamed bytes, not Content-Length)'')
       [(''cap'', CInt (Some cap)), (''url'', CStr (Some masked))]"

text \<open>The file is what \<^verbatim>\<open>dest\<close> holds; it is changed as soon as the connection is open.\<close>

definition stream_to_file ::
  "(string \<Rightarrow> bool) \<Rightarrow> server \<Rightarrow> disk \<Rightarrow> string \<Rightarrow> string \<Rightarrow> int \<Rightarrow> string \<Rightarrow> condition list \<Rightarrow> string option \<Rightarrow>
   (net_exc + string result) \<times> string option" where
  "stream_to_file bracket_ok server dk wire dest cap masked conds old =
     (let lift = (\<lambda>r. case r of Inl e \<Rightarrow> Inl (NetOther e) | Inr x \<Rightarrow> Inr x)
      in case server wire of
        Inl e \<Rightarrow> (Inl e, old)
      | Inr rs \<Rightarrow> (case dk_write dk [] of
          Some e \<Rightarrow> (Inl (NetOther e), old)
        | None \<Rightarrow> (case stream cap (dk_write dk) (rs_chunks rs) (rs_break rs) [] of
            Broken e out \<Rightarrow> (Inl e, Some out)
          | Exceeded out \<Rightarrow> (case dk_unlink dk of Some e \<Rightarrow> (Inl (NetOther e), Some out) | None \<Rightarrow> (lift (cap_error cap masked), None))
          | Finished out \<Rightarrow>
              (lift (bindE (if insecure_hops rs \<noteq> [] then bindE (insecure_redirect_condition bracket_ok (insecure_hops rs)) (\<lambda>c. Inr [c]) else Inr [])
                       (\<lambda>extra. result_of dest (conds @ extra))), Some out))))"

definition fetch_url ::
  "(string \<Rightarrow> bool) \<Rightarrow> server \<Rightarrow> disk \<Rightarrow> string option \<Rightarrow> url_ref \<Rightarrow> string \<Rightarrow> int option \<Rightarrow> string option \<Rightarrow>
   (exc + string result) \<times> string option" where
  "fetch_url bracket_ok server dk env r dest max_bytes old =
     (let masked = url_render r; url = [(''url'', CStr (Some masked))]
      in if \<not> url_secure r then (fetch_error NON_HTTPS ''refusing to fetch a non-https URL'' url, old)
         else case (case max_bytes of None \<Rightarrow> max_bytes_from_env env | Some n \<Rightarrow> Inr n) of
           Inl e \<Rightarrow> (Inl e, old)
         | Inr cap \<Rightarrow> (case stream_to_file bracket_ok server dk (wire_url r) dest cap masked (fragment_conditions r) old of
             (Inr res, f) \<Rightarrow> (Inr res, f)
           | (Inl e, f) \<Rightarrow> ((case e of
                NetHTTP code \<Rightarrow> fetch_error HTTP_ERROR (''server returned HTTP '' @ int_str code) [(''status'', CInt (Some code)), (''url'', CStr (Some masked))]
              | NetURL timed reason \<Rightarrow> if timed then fetch_error FETCH_TIMEOUT ''timed out fetching URL'' url
                  else fetch_error FETCH_FAILED (''failed to fetch URL: '' @ reason) [(''reason'', CStr (Some reason)), (''url'', CStr (Some masked))]
              | NetTimeout \<Rightarrow> fetch_error FETCH_TIMEOUT ''timed out fetching URL'' url
              | NetOther x \<Rightarrow> Inl x), f)))"

section \<open>Extraction\<close>

text \<open>What the archive library raises: a member its filter rejects, an archive it cannot read, or something else.\<close>

datatype tar_exc = TarFilter "string option" string | TarBad string | TarPanic exc

record 'tree unpacker =
  up_has_filter :: bool
  up_mkdir :: "exc option"
  up_empty :: 'tree
  up_extract :: "string option \<Rightarrow> 'tree \<Rightarrow> tar_exc option \<times> 'tree"

text \<open>The state directory of an instance: the archive, the extracted tree, and whether the overlay's two directories are there.\<close>

record 'tree url_dir =
  ud_txz :: "string option"
  ud_base :: "'tree option"
  ud_overlay :: bool

definition extract_error :: "string \<Rightarrow> tar_exc \<Rightarrow> exc + string result" where
  "extract_error archive e = (case e of
       TarFilter m t \<Rightarrow> fetch_error EXTRACT_FAILED (''unsafe archive member rejected: '' @ t)
         ((''archive'', CStr (Some archive)) # (case m of None \<Rightarrow> [] | Some x \<Rightarrow> [(''member'', CStr (Some x))]))
     | TarBad t \<Rightarrow> fetch_error EXTRACT_FAILED (''failed to extract archive: '' @ t) [(''archive'', CStr (Some archive))]
     | TarPanic x \<Rightarrow> Inl x)"

definition extract_txz :: "'tree unpacker \<Rightarrow> string \<Rightarrow> string \<Rightarrow> 'tree url_dir \<Rightarrow> (exc + string result) \<times> 'tree url_dir" where
  "extract_txz up archive dest_dir ud =
     (if \<not> up_has_filter up then (Inl RuntimeErrorC, ud)
      else case up_mkdir up of Some e \<Rightarrow> (Inl e, ud)
      | None \<Rightarrow>
         (let (r, tree) = up_extract up (ud_txz ud) (case ud_base ud of Some t \<Rightarrow> t | None \<Rightarrow> up_empty up); ud' = ud\<lparr>ud_base := Some tree\<rparr>
          in case r of Some e \<Rightarrow> (extract_error archive e, ud') | None \<Rightarrow> (make_Ok dest_dir [], ud')))"

definition fetch_and_extract_rootfs ::
  "(url_ref \<Rightarrow> string \<Rightarrow> string option \<Rightarrow> (exc + string result) \<times> string option) \<Rightarrow> 'tree unpacker \<Rightarrow> exc option \<Rightarrow>
   url_ref \<Rightarrow> string \<Rightarrow> string \<Rightarrow> 'tree url_dir \<Rightarrow> (exc + string result) \<times> 'tree url_dir" where
  "fetch_and_extract_rootfs fetch up unlink source txz_dest rootfs_dir ud =
     (let (f, txz) = fetch source txz_dest (ud_txz ud); ud1 = ud\<lparr>ud_txz := txz\<rparr>
      in case f of Inl e \<Rightarrow> (Inl e, ud1)
         | Inr fetched \<Rightarrow>
            if \<not> is_ok fetched then (Inr fetched, ud1)
            else let (x, ud2) = extract_txz up txz_dest rootfs_dir ud1
                 in case x of Inl e \<Rightarrow> (Inl e, ud2)
                    | Inr extracted \<Rightarrow>
                       if \<not> is_ok extracted then (Inr extracted, ud2)
                       else case unlink of Some e \<Rightarrow> (Inl e, ud2)
                            | None \<Rightarrow> (result_of rootfs_dir (conditions fetched @ conditions extracted), ud2\<lparr>ud_txz := None\<rparr>))"

text \<open>The image: its preparation raises what the composition reports, its release removes what is there.\<close>

definition directory_prepare ::
  "(url_ref \<Rightarrow> string \<Rightarrow> string option \<Rightarrow> (exc + string result) \<times> string option) \<Rightarrow> 'tree unpacker \<Rightarrow> exc option \<Rightarrow> exc option \<Rightarrow>
   url_ref \<Rightarrow> string \<Rightarrow> 'tree url_dir \<Rightarrow> (exc + unit) \<times> 'tree url_dir" where
  "directory_prepare fetch up unlink mkdir source state_dir ud =
     (let (r, ud') = fetch_and_extract_rootfs fetch up unlink source (state_dir @ ''/rootfs.txz'') (state_dir @ ''/rootfs-base'') ud
      in case unwrapE r of Inl e \<Rightarrow> (Inl e, ud')
         | Inr _ \<Rightarrow> (case mkdir of Some e \<Rightarrow> (Inl e, ud') | None \<Rightarrow> (Inr (), ud'\<lparr>ud_overlay := True\<rparr>)))"

definition directory_release :: "exc option \<Rightarrow> exc option \<Rightarrow> 'tree url_dir \<Rightarrow> (exc + unit) \<times> 'tree url_dir" where
  "directory_release rmtree unlink ud =
     (if ud_base ud \<noteq> None \<and> rmtree \<noteq> None then (Inl (the rmtree), ud)
      else let ud' = ud\<lparr>ud_base := None\<rparr>
           in case unlink of Some e \<Rightarrow> (Inl e, ud') | None \<Rightarrow> (Inr (), ud'\<lparr>ud_txz := None\<rparr>))"

section \<open>What a stream writes\<close>

definition body :: "response \<Rightarrow> string" where "body rs = concat (takeWhile (\<lambda>c. c \<noteq> []) (rs_chunks rs))"

lemma stream_bound: "int (length out) \<le> max 0 cap \<Longrightarrow>
    (case stream cap wr cs brk out of Finished f \<Rightarrow> int (length f) \<le> max 0 cap | Exceeded f \<Rightarrow> int (length f) \<le> max 0 cap
       | Broken e f \<Rightarrow> int (length f) \<le> max 0 cap)"
  by (induction cap wr cs brk out rule: stream.induct) (auto split: option.splits)

lemma stream_finished: "stream cap wr cs brk out = Finished f \<Longrightarrow> f = out @ concat (takeWhile (\<lambda>c. c \<noteq> []) cs)"
  by (induction cap wr cs brk out rule: stream.induct) (auto split: option.splits if_splits)

text \<open>A body within the cap on a disk that takes it is written whole.\<close>

lemma stream_whole:
  assumes "\<And>t. wr t = None" "int (length out + length (concat (takeWhile (\<lambda>c. c \<noteq> []) cs))) \<le> cap"
  shows "stream cap wr cs brk out = (if list_all (\<lambda>c. c \<noteq> []) cs \<and> brk \<noteq> None then Broken (the brk) (out @ concat cs)
    else Finished (out @ concat (takeWhile (\<lambda>c. c \<noteq> []) cs)))"
  using assms(2)
proof (induction cs arbitrary: out)
  case (Cons c cs)
  show ?case
  proof (cases "c = []")
    case False
    with Cons.prems have "\<not> int (length out + length c) > cap" by simp
    with False assms(1) Cons.IH [of "out @ c"] Cons.prems show ?thesis by (simp add: add.assoc)
  qed simp
qed (auto split: option.splits)

lemma top_error: "top_severity [c] = severity c" by (simp add: top_severity_def)

lemma fetch_error_Inr: "fetch_error k msg ctx = Inr (Error [\<lparr>severity = ERROR, kind = k, message = msg, cond_context = ctx\<rparr>])"
  by (simp add: fetch_error_def make_Error_def top_error)

lemma warnings_result: "\<forall>c \<in> set cs. severity c = WARNING \<Longrightarrow> result_of v cs = Inr (if cs = [] then Ok v [] else Warning v cs)"
proof (cases cs)
  case (Cons c ds)
  assume w: "\<forall>c \<in> set cs. severity c = WARNING"
  have "\<forall>c \<in> set ds. severity c = WARNING \<Longrightarrow> fold max (map severity ds) WARNING = WARNING" by (induction ds) auto
  then have "top_severity cs = WARNING" using w Cons by (simp add: top_severity_def)
  moreover then have "\<not> ERROR \<le> top_severity cs" by (simp add: severity_tiers)
  ultimately show ?thesis using Cons by (simp add: result_of_def make_Warning_def Let_def)
qed (simp add: result_of_def make_Ok_def)

lemma make_fields: "make_Ok v [] = Inr (Ok v [])" by (simp add: make_Ok_def)

text \<open>The outcomes of a fetch of an \<^verbatim>\<open>https\<close> URL, by what the stream does.\<close>

lemma stream_to_file_ok:
  assumes "stream_to_file bracket_ok server dk wire dest cap masked conds old = (Inr res, f)" "is_ok res"
  obtains rs out where "server wire = Inr rs" "f = Some out" "out = body rs" "int (length out) \<le> max 0 cap"
    "stream cap (dk_write dk) (rs_chunks rs) (rs_break rs) [] = Finished out"
proof -
  from assms obtain rs where rs: "server wire = Inr rs" by (auto simp: stream_to_file_def Let_def split: sum.splits)
  from assms rs have w: "dk_write dk [] = None" by (auto simp: stream_to_file_def Let_def split: option.splits)
  from assms rs w obtain out where out: "stream cap (dk_write dk) (rs_chunks rs) (rs_break rs) [] = Finished out" "f = Some out"
    by (auto simp: stream_to_file_def Let_def cap_error_def fetch_error_Inr is_ok_def is_error_def split: stream_end.splits option.splits)
  have "int (length out) \<le> max 0 cap" using stream_bound [of "[]" cap "dk_write dk" "rs_chunks rs" "rs_break rs"] out(1) by simp
  with rs out stream_finished [OF out(1)] show ?thesis by (intro that) (simp_all add: body_def)
qed

lemma stream_to_file_size:
  "snd (stream_to_file bracket_ok server dk wire dest cap masked conds old) = old \<or>
   (\<forall>out. snd (stream_to_file bracket_ok server dk wire dest cap masked conds old) = Some out \<longrightarrow> int (length out) \<le> max 0 cap)"
proof (cases "server wire")
  case (Inr rs)
  show ?thesis
  proof (cases "dk_write dk []")
    case None
    with Inr stream_bound [of "[]" cap "dk_write dk" "rs_chunks rs" "rs_break rs"] show ?thesis
      by (cases "stream cap (dk_write dk) (rs_chunks rs) (rs_break rs) []")
        (auto simp: stream_to_file_def Let_def split: option.splits)
  qed (use Inr in \<open>simp add: stream_to_file_def\<close>)
qed (simp add: stream_to_file_def)

lemma fetch_url_https:
  assumes "url_secure r" "(case max_bytes of None \<Rightarrow> max_bytes_from_env env | Some n \<Rightarrow> Inr n) = Inr cap"
  shows "snd (fetch_url bracket_ok server dk env r dest max_bytes old) =
      snd (stream_to_file bracket_ok server dk (wire_url r) dest cap (url_render r) (fragment_conditions r) old)"
    "fst (fetch_url bracket_ok server dk env r dest max_bytes old) = Inr res \<Longrightarrow> is_ok res \<Longrightarrow>
      stream_to_file bracket_ok server dk (wire_url r) dest cap (url_render r) (fragment_conditions r) old =
        (Inr res, snd (fetch_url bracket_ok server dk env r dest max_bytes old))"
  using assms by (auto simp: fetch_url_def Let_def fetch_error_Inr is_ok_def is_error_def split: prod.splits sum.splits net_exc.splits if_splits)

section \<open>Properties\<close>

text \<open>
  C24. A fetch that succeeds was of an \<^verbatim>\<open>https\<close> URL, and the file holds exactly the body the server sent, within the cap; and whatever
  the outcome, a file the fetch has written never exceeds the cap.
\<close>

theorem fetch_bounded:
  assumes "(case max_bytes of None \<Rightarrow> max_bytes_from_env env | Some n \<Rightarrow> Inr n) = Inr cap"
  shows "(\<forall>res f. fetch_url bracket_ok server dk env r dest max_bytes old = (Inr res, f) \<and> is_ok res \<longrightarrow>
      url_secure r \<and> (\<exists>rs. server (wire_url r) = Inr rs \<and> f = Some (body rs) \<and> int (length (body rs)) \<le> max 0 cap)) \<and>
    (snd (fetch_url bracket_ok server dk env r dest max_bytes old) \<noteq> old \<longrightarrow>
      (\<forall>out. snd (fetch_url bracket_ok server dk env r dest max_bytes old) = Some out \<longrightarrow> int (length out) \<le> max 0 cap))"
proof (cases "url_secure r")
  case False
  then show ?thesis by (auto simp: fetch_url_def Let_def fetch_error_Inr is_ok_def is_error_def)
next
  case True
  note https = fetch_url_https [OF True assms]
  have "\<exists>rs. server (wire_url r) = Inr rs \<and> f = Some (body rs) \<and> int (length (body rs)) \<le> max 0 cap"
    if "fetch_url bracket_ok server dk env r dest max_bytes old = (Inr res, f)" "is_ok res" for res f
  proof -
    have "stream_to_file bracket_ok server dk (wire_url r) dest cap (url_render r) (fragment_conditions r) old = (Inr res, f)"
      using https(2) [where server = server and dk = dk and dest = dest and old = old and res = res] that by simp
    from stream_to_file_ok [OF this \<open>is_ok res\<close>] show ?thesis by metis
  qed
  moreover have "int (length out) \<le> max 0 cap"
    if "snd (fetch_url bracket_ok server dk env r dest max_bytes old) \<noteq> old" "snd (fetch_url bracket_ok server dk env r dest max_bytes old) = Some out" for out
    using that stream_to_file_size [of bracket_ok server dk "wire_url r" dest cap "url_render r" "fragment_conditions r" old]
    unfolding https(1) by blast
  ultimately show ?thesis using True by blast
qed

text \<open>
  C25. What a fetch reports does not depend on the password of its URL: for two references that differ in the password
  only, and a server that answers the same to both, the outcome is the same, its messages and contexts included.
\<close>

theorem fetch_hides_password:
  assumes "r' = r\<lparr>url_endpoint := (url_endpoint r)\<lparr>password := Some p'\<rparr>\<rparr>" "password (url_endpoint r) = Some p"
    and "server (wire_url r') = server (wire_url r)"
  shows "fetch_url bracket_ok server dk env r' dest max_bytes old = fetch_url bracket_ok server dk env r dest max_bytes old"
proof -
  have "url_render r' = url_render r"
    using assms(1,2) by (simp add: url_render_def render_endpoint_def url_pathname_def split: option.splits)
  moreover have "fragment_conditions r' = fragment_conditions r" "url_secure r' = url_secure r"
    using assms(1) by (simp_all add: fragment_conditions_def)
  moreover have "stream_to_file bracket_ok server dk (wire_url r') dest cap m cs old = stream_to_file bracket_ok server dk (wire_url r) dest cap m cs old"
    for cap m cs by (simp only: stream_to_file_def assms(3))
  ultimately show ?thesis by (simp only: fetch_url_def)
qed

text \<open>
  A connection that is reset while the body is read is not reported as a failed fetch: the operating system's error
  passes through, and the part already received stays in the file.
\<close>

theorem reset_body_raises:
  assumes "url_secure r" "server (wire_url r) = Inr rs" "list_all (\<lambda>c. c \<noteq> []) (rs_chunks rs)" "rs_break rs = Some (NetOther OSErrorC)"
    and "\<And>t. dk_write dk t = None" "int (length (body rs)) \<le> cap"
  shows "fetch_url bracket_ok server dk env r dest (Some cap) old = (Inl OSErrorC, Some (concat (rs_chunks rs)))"
proof -
  have "stream cap (dk_write dk) (rs_chunks rs) (rs_break rs) [] = Broken (NetOther OSErrorC) (concat (rs_chunks rs))"
    using stream_whole [of "dk_write dk" "[]" "rs_chunks rs" cap "rs_break rs"] assms(3-6) by (simp add: body_def)
  then show ?thesis using assms(1,2,5) by (simp add: fetch_url_def stream_to_file_def)
qed

text \<open>
  A rootfs is delivered only whole: the composition succeeds only when the fetch and the extraction of the body
  the server sent succeeded, the archive is then gone, and a failed fetch leaves the tree as it was.
\<close>

theorem rootfs_delivered_whole:
  assumes "fetch_and_extract_rootfs (\<lambda>r dest old. fetch_url bracket_ok server dk env r dest max_bytes old) up unlink r txz_dest rootfs_dir ud = (Inr res, ud')"
  shows "(is_ok res \<longrightarrow> (\<exists>rs tree. server (wire_url r) = Inr rs \<and> url_secure r \<and> up_has_filter up \<and>
       up_extract up (Some (body rs)) (case ud_base ud of Some t \<Rightarrow> t | None \<Rightarrow> up_empty up) = (None, tree) \<and>
       ud' = ud\<lparr>ud_txz := None, ud_base := Some tree\<rparr>)) \<and>
    (\<forall>fr f. fetch_url bracket_ok server dk env r txz_dest max_bytes (ud_txz ud) = (Inr fr, f) \<and> is_error fr \<longrightarrow> ud_base ud' = ud_base ud)"
proof -
  obtain f txz where fetched: "fetch_url bracket_ok server dk env r txz_dest max_bytes (ud_txz ud) = (f, txz)" by (cases "fetch_url bracket_ok server dk env r txz_dest max_bytes (ud_txz ud)")
  with assms obtain fr where fr: "f = Inr fr" by (cases f) (auto simp: fetch_and_extract_rootfs_def)
  show ?thesis
  proof (cases "is_ok fr")
    case False
    with assms fetched fr show ?thesis by (auto simp: fetch_and_extract_rootfs_def)
  next
    case True
    have body: "\<exists>rs. server (wire_url r) = Inr rs \<and> url_secure r \<and> txz = Some (body rs)"
    proof -
      have sec: "url_secure r" using fetched fr True by (auto simp: fetch_url_def Let_def fetch_error_Inr is_ok_def is_error_def split: if_splits)
      obtain cap where cap: "(case max_bytes of None \<Rightarrow> max_bytes_from_env env | Some n \<Rightarrow> Inr n) = Inr cap"
        using fetched fr sec by (cases "case max_bytes of None \<Rightarrow> max_bytes_from_env env | Some n \<Rightarrow> Inr n") (auto simp: fetch_url_def)
      have "stream_to_file bracket_ok server dk (wire_url r) txz_dest cap (url_render r) (fragment_conditions r) (ud_txz ud) = (Inr fr, txz)"
        using fetch_url_https(2) [OF sec cap, where server = server and dk = dk and dest = txz_dest and old = "ud_txz ud" and res = fr] fetched fr True by simp
      then show ?thesis using stream_to_file_ok True sec by metis
    qed
    show ?thesis using assms fetched fr True body
      by (auto simp: fetch_and_extract_rootfs_def extract_txz_def extract_error_def fetch_error_Inr make_fields Let_def is_ok_def is_error_def
          split: option.splits prod.splits if_splits tar_exc.splits)
  qed
qed

section \<open>Witnesses\<close>

definition sample_source :: url_ref where
  "sample_source = \<lparr>url_endpoint = \<lparr>host = ''h'', port = None, username = Some ''u'', password = Some ''pw''\<rparr>, url_path = [], url_name = ''r.txz'',
     url_version = None, url_secure = True, url_query = [], url_fragment = ''f''\<rparr>"

definition good_disk :: disk where "good_disk = \<lparr>dk_write = (\<lambda>_. None), dk_unlink = None\<rparr>"

definition good_server :: server where
  "good_server u = (if u = ''https://u:pw@h/r.txz'' \<or> u = ''https://u:other@h/r.txz'' then Inr \<lparr>rs_hops = [], rs_chunks = [''ab'', ''c''], rs_break = None\<rparr>
     else Inl (NetHTTP 404))"

definition reset_server :: server where
  "reset_server u = Inr \<lparr>rs_hops = [], rs_chunks = [''ab''], rs_break = Some (NetOther OSErrorC)\<rparr>"

definition dropped :: condition where
  "dropped = \<lparr>severity = WARNING, kind = FRAGMENT_DROPPED, message = ''dropped fragment '' @ quoted ''f'' @ '' from URL (not sent to server)'',
     cond_context = [(''fragment'', CStr (Some ''f''))]\<rparr>"

lemma sample_fetched: "fetch_url (\<lambda>_. True) good_server good_disk None sample_source ''d'' (Some 3) None = (Inr (Warning ''d'' [dropped]), Some ''abc'')"
  by code_simp

theorem fetch_bounded_witness:
  "fetch_url (\<lambda>_. True) good_server good_disk None sample_source ''d'' (Some 3) None = (Inr (Warning ''d'' [dropped]), Some ''abc'') \<and>
   url_secure sample_source \<and> (\<exists>rs. good_server (wire_url sample_source) = Inr rs \<and> ''abc'' = body rs \<and> int (length (body rs)) \<le> max 0 3)"
  using fetch_bounded [where bracket_ok = "\<lambda>_. True" and max_bytes = "Some 3" and env = None and cap = 3 and server = good_server and dk = good_disk and r = sample_source and dest = "''d''" and old = None] sample_fetched
  by (simp add: is_ok_def is_error_def)

theorem fetch_hides_password_witness:
  "fetch_url (\<lambda>_. True) good_server good_disk None (sample_source\<lparr>url_endpoint := (url_endpoint sample_source)\<lparr>password := Some ''other''\<rparr>\<rparr>) ''d'' (Some 3) None =
     (Inr (Warning ''d'' [dropped]), Some ''abc'')"
proof -
  let ?r = "sample_source\<lparr>url_endpoint := (url_endpoint sample_source)\<lparr>password := Some ''other''\<rparr>\<rparr>"
  have "wire_url ?r = ''https://u:other@h/r.txz''" "wire_url sample_source = ''https://u:pw@h/r.txz''" by code_simp+
  then have "good_server (wire_url ?r) = good_server (wire_url sample_source)" by (simp add: good_server_def)
  moreover have "password (url_endpoint sample_source) = Some ''pw''" by (simp add: sample_source_def)
  ultimately show ?thesis
    using fetch_hides_password [where r' = ?r and r = sample_source and p' = "''other''" and p = "''pw''" and server = good_server] sample_fetched by simp
qed

theorem reset_body_raises_witness:
  "fetch_url (\<lambda>_. True) reset_server good_disk None sample_source ''d'' (Some 9) None = (Inl OSErrorC, Some ''ab'')"
  using reset_body_raises [where r = sample_source and server = reset_server and rs = "\<lparr>rs_hops = [], rs_chunks = [''ab''], rs_break = Some (NetOther OSErrorC)\<rparr>" and dk = good_disk and cap = 9]
  by (simp add: sample_source_def reset_server_def good_disk_def body_def)

definition sample_unpacker :: "string unpacker" where
  "sample_unpacker = \<lparr>up_has_filter = True, up_mkdir = None, up_empty = [], up_extract = (\<lambda>a t. (None, t @ the a))\<rparr>"

theorem rootfs_delivered_whole_witness:
  "\<exists>res ud'. fetch_and_extract_rootfs (\<lambda>r dest old. fetch_url (\<lambda>_. True) good_server good_disk None r dest (Some 3) old) sample_unpacker None
     sample_source ''t'' ''b'' \<lparr>ud_txz = None, ud_base = None, ud_overlay = False\<rparr> = (Inr res, ud') \<and> is_ok res \<and>
     ud' = \<lparr>ud_txz = None, ud_base = Some ''abc'', ud_overlay = False\<rparr>"
proof -
  let ?fetch = "\<lambda>r dest old. fetch_url (\<lambda>_. True) good_server good_disk None r dest (Some 3) old"
  let ?ud = "\<lparr>ud_txz = None, ud_base = None, ud_overlay = False\<rparr> :: string url_dir"
  have run: "fetch_and_extract_rootfs ?fetch sample_unpacker None sample_source ''t'' ''b'' ?ud =
    (Inr (Warning ''b'' [dropped]), ?ud\<lparr>ud_base := Some ''abc''\<rparr>)" by code_simp
  have "\<exists>rs tree. up_extract sample_unpacker (Some (body rs)) [] = (None, tree) \<and> ?ud\<lparr>ud_base := Some ''abc''\<rparr> = ?ud\<lparr>ud_txz := None, ud_base := Some tree\<rparr>"
    using rootfs_delivered_whole [OF run] by (auto simp: is_ok_def is_error_def sample_unpacker_def)
  with run show ?thesis by (auto simp: is_ok_def is_error_def)
qed

end
