(* ===== verification/Hooks.thy ===== *)
theory Hooks imports Vmrun Admission begin

text \<open>
  The scripts kento generates and where they are put: \<^verbatim>\<open>hook.py\<close>, \<^verbatim>\<open>inject.py\<close>, \<^verbatim>\<open>lxc_hook.py\<close> and
  \<^verbatim>\<open>vm_hook.py\<close>.  The texts of the shell scripts \<^verbatim>\<open>hook.sh\<close> and \<^verbatim>\<open>inject.sh\<close> and the constant rest of the hook of a
  virtual machine are arguments; what is computed is what is put into them.
\<close>

section \<open>Templates\<close>

text \<open>\<^verbatim>\<open>str.replace\<close>: the occurrences from the left that do not overlap.\<close>

function replace_all :: "string \<Rightarrow> string \<Rightarrow> string \<Rightarrow> string" where
  "replace_all old new [] = []"
| "replace_all old new (c # cs) =
     (if prefix old (c # cs) then new @ replace_all old new (drop (length old - 1) cs) else c # replace_all old new cs)"
  by pat_completeness auto
termination by (relation "measure (\<lambda>(_, _, s). length s)") auto

definition lower_of :: "(string \<Rightarrow> exc + string) \<Rightarrow> string \<Rightarrow> exc + (string \<times> string)" where
  "lower_of link layers = bindE (to_overlay_lowerdir link layers) (\<lambda>(base, rel). Inr (if base = [] then ''/'' else base, rel))"

definition generate_hook :: "(string \<Rightarrow> exc + string) \<Rightarrow> string \<Rightarrow> ppath \<Rightarrow> string \<Rightarrow> string \<Rightarrow> ppath option \<Rightarrow> exc + string" where
  "generate_hook link template cdir layers name state_dir =
     (let sd = (case state_dir of Some d \<Rightarrow> d | None \<Rightarrow> cdir)
      in bindE (lower_of link layers) (\<lambda>(base, rel).
           Inr (replace_all ''@@LAYERS@@'' rel
               (replace_all ''@@OVERLAY_BASE@@'' base
               (replace_all ''@@STATE_DIR@@'' (path_str sd)
               (replace_all ''@@CONTAINER_DIR@@'' (path_str cdir)
               (replace_all ''@@NAME@@'' name template)))))))"

definition write_hook :: "(string \<Rightarrow> exc + string) \<Rightarrow> string \<Rightarrow> ppath \<Rightarrow> string \<Rightarrow> string \<Rightarrow> ppath option \<Rightarrow> (unit, 'w guest) prog" where
  "write_hook link template cdir layers name state_dir =
     bindP (pure_res (generate_hook link template cdir layers name state_dir)) (\<lambda>t. put_file ''kento-hook'' t)"

definition write_inject :: "string \<Rightarrow> (unit, 'w guest) prog" where
  "write_inject script = put_file ''kento-inject.sh'' script"

section \<open>The hook of a virtual machine\<close>

definition shell_var :: "string \<Rightarrow> string \<Rightarrow> string" where
  "shell_var k v = k @ ''='' @ [CHR 34] @ v @ [CHR 34, LF]"

definition generate_vm_hook :: "(string \<Rightarrow> exc + string) \<Rightarrow> string \<Rightarrow> ppath \<Rightarrow> string \<Rightarrow> string \<Rightarrow> ppath \<Rightarrow> exc + string" where
  "generate_vm_hook link rest cdir layers name state_dir =
     bindE (lower_of link layers) (\<lambda>(base, rel).
       Inr (''#!/bin/sh'' @ [LF] @ ''set -eu'' @ [LF, LF] @ ''VMID='' @ [CHR 34] @ ''$1'' @ [CHR 34, LF] @
            ''PHASE='' @ [CHR 34] @ ''$2'' @ [CHR 34, LF, LF] @
            shell_var ''NAME'' name @ shell_var ''CONTAINER_DIR'' (path_str cdir) @ shell_var ''STATE_DIR'' (path_str state_dir) @
            shell_var ''OVERLAY_BASE'' base @ shell_var ''LAYERS'' rel @ rest))"

definition write_vm_hook :: "(string \<Rightarrow> exc + string) \<Rightarrow> string \<Rightarrow> ppath \<Rightarrow> string \<Rightarrow> string \<Rightarrow> ppath \<Rightarrow> (unit, 'w guest) prog" where
  "write_vm_hook link rest cdir layers name state_dir =
     bindP (pure_res (generate_vm_hook link rest cdir layers name state_dir)) (\<lambda>t. put_file ''kento-hook'' t)"

section \<open>The storage of snippets\<close>

definition STORAGE_TYPES :: "string list" where
  "STORAGE_TYPES = [''dir:'', ''nfs:'', ''cifs:'', ''glusterfs:'', ''zfspool:'', ''btrfs:'', ''lvmthin:'', ''lvm:'']"

text \<open>What follows the first word of a text without outer white space, as \<^verbatim>\<open>split(None, 1)\<close> gives it.\<close>

definition after_word :: "string \<Rightarrow> string" where
  "after_word s = dropWhile py_isspace (dropWhile (\<lambda>c. \<not> py_isspace c) s)"

fun scan_storages :: "string list \<Rightarrow> string option \<Rightarrow> exc + string option" where
  "scan_storages [] current = Inr None"
| "scan_storages (l # ls) current =
     (let s = py_strip l
      in if list_ex (\<lambda>t. prefix t s) STORAGE_TYPES then
           (case py_words (py_strip (tl (dropWhile (\<lambda>c. c \<noteq> CHR '':'') s))) of
              [] \<Rightarrow> Inl IndexErrorC
            | w # _ \<Rightarrow> scan_storages ls (Some w))
         else if prefix ''content'' s \<and> truthy current then
           (if ''snippets'' \<in> set (py_split (CHR '','') (after_word s)) then Inr current else scan_storages ls current)
         else scan_storages ls current)"

definition snippets_storage :: "string option \<Rightarrow> string option \<Rightarrow> exc + string" where
  "snippets_storage conf storage_cfg =
     (let name = load_config conf ''snippets_storage''
      in if truthy name then Inr (the name)
         else bindE (case storage_cfg of None \<Rightarrow> Inr None | Some t \<Rightarrow> scan_storages (py_splitlines (univ_newlines t)) None)
           (\<lambda>r. case r of None \<Rightarrow> Inl StateErrorC | Some w \<Rightarrow> Inr w))"

definition find_snippets_dir :: "'w os \<Rightarrow> string option \<Rightarrow> string option \<Rightarrow> (ppath \<times> string, 'w guest) prog" where
  "find_snippets_dir os conf storage_cfg =
     bindP (pure_res (snippets_storage conf storage_cfg)) (\<lambda>name.
     bindP (osP (os_run os None [''pvesm'', ''path'', name @ '':snippets/probe''])) (\<lambda>(rc, out).
       if rc \<noteq> 0 then raise_exc SubprocessErrorC else give (path_parent (mk_path (py_strip out)), name)))"

text \<open>The files of the host that are written and removed.\<close>

record 'w host_disk =
  hd_write :: "string \<Rightarrow> string \<Rightarrow> 'w \<Rightarrow> (exc + unit) \<times> 'w"
  hd_unlink :: "string \<Rightarrow> 'w \<Rightarrow> (exc + unit) \<times> 'w"

definition generate_snippets_wrapper :: "string \<Rightarrow> string" where
  "generate_snippets_wrapper hook_path = ''#!/bin/sh'' @ [LF] @ ''exec '' @ [CHR 34] @ hook_path @ [CHR 34] @ '' '' @ [CHR 34] @ ''$@'' @ [CHR 34, LF]"

definition generate_lxc_snippets_wrapper :: "string \<Rightarrow> string" where
  "generate_lxc_snippets_wrapper hook_path =
     (let q = (\<lambda>s. [CHR 34] @ s @ [CHR 34]);
          run = (\<lambda>k. ''        exec '' @ q hook_path @ '' '' @ q ''$VMID'' @ '' '' @ q [] @ '' '' @ q k)
      in py_join [LF]
        [''#!/bin/sh'', ''# Generated by kento. PVE strips lxc.hook.start-host, so we route'',
         ''# post-start / post-stop through this snippets wrapper to fire the'',
         ''# per-container kento-hook (the plain-LXC hook.sh).'',
         ''VMID='' @ q ''$1'', ''PHASE='' @ q ''$2'', ''case '' @ q ''$PHASE'' @ '' in'',
         ''    post-start)'', run ''start-host'', ''        ;;'',
         ''    post-stop)'', run ''post-stop'', ''        ;;'',
         ''esac'', ''exit 0'', []])"

definition wrapper_name :: "string \<Rightarrow> int \<Rightarrow> string" where
  "wrapper_name guest_kind vmid = ''kento-'' @ guest_kind @ ''-'' @ int_str vmid @ ''.sh''"

text \<open>The directory is given by a caller that has already found it, or is found now.\<close>

definition write_wrapper ::
  "string \<Rightarrow> (string \<Rightarrow> string) \<Rightarrow> 'w os \<Rightarrow> 'w host_disk \<Rightarrow> string option \<Rightarrow> string option \<Rightarrow> int \<Rightarrow> string \<Rightarrow> (ppath \<times> string) option \<Rightarrow>
   (string, 'w guest) prog" where
  "write_wrapper guest_kind text_for os disk conf storage_cfg vmid hook_path known =
     bindP (case known of Some r \<Rightarrow> give r | None \<Rightarrow> find_snippets_dir os conf storage_cfg) (\<lambda>(dir, storage).
       seqP (osP (hd_write disk (path_str (path_div dir (wrapper_name guest_kind vmid))) (text_for hook_path)))
         (give (storage @ '':snippets/'' @ wrapper_name guest_kind vmid)))"

definition delete_wrapper :: "string \<Rightarrow> 'w os \<Rightarrow> 'w host_disk \<Rightarrow> string option \<Rightarrow> string option \<Rightarrow> int \<Rightarrow> (unit, 'w guest) prog" where
  "delete_wrapper guest_kind os disk conf storage_cfg vmid =
     exceptP [StateErrorC]
       (bindP (find_snippets_dir os conf storage_cfg) (\<lambda>(dir, _).
          osP (hd_unlink disk (path_str (path_div dir (wrapper_name guest_kind vmid))))))
       (give ())"

definition write_snippets_wrapper where "write_snippets_wrapper = write_wrapper ''vm'' generate_snippets_wrapper"
definition write_lxc_snippets_wrapper where "write_lxc_snippets_wrapper = write_wrapper ''lxc'' generate_lxc_snippets_wrapper"
definition delete_snippets_wrapper where "delete_snippets_wrapper = delete_wrapper ''vm''"
definition delete_lxc_snippets_wrapper where "delete_lxc_snippets_wrapper = delete_wrapper ''lxc''"

section \<open>What a template becomes\<close>

datatype piece = Txt string | Slot string

fun fill :: "(string \<Rightarrow> string) \<Rightarrow> piece \<Rightarrow> string" where
  "fill v (Txt t) = t"
| "fill v (Slot m) = v m"

definition marker :: "string \<Rightarrow> string" where "marker m = ''@@'' @ m @ ''@@''"

definition rendered :: "piece list \<Rightarrow> string" where "rendered ps = concat (map (fill marker) ps)"

definition plain :: "string \<Rightarrow> bool" where "plain t \<longleftrightarrow> CHR ''@'' \<notin> set t"

text \<open>Every slot has a name and is followed by a closing quotation mark.\<close>

fun template :: "piece list \<Rightarrow> bool" where
  "template [] = True"
| "template (Txt t # ps) = (plain t \<and> template ps)"
| "template (Slot m # ps) = (m \<noteq> [] \<and> plain m \<and> CHR 34 \<notin> set m \<and> (case ps of Txt (c # _) # _ \<Rightarrow> c = CHR 34 | _ \<Rightarrow> False) \<and> template ps)"

definition put_slot :: "string \<Rightarrow> string \<Rightarrow> piece \<Rightarrow> piece" where
  "put_slot m v p = (if p = Slot m then Txt v else p)"

lemma replace_plain: "plain t \<Longrightarrow> replace_all (marker m) v (t @ r) = t @ replace_all (marker m) v r"
  by (induction t) (auto simp: plain_def marker_def)

lemma replace_step: "\<not> prefix old (c # cs) \<Longrightarrow> replace_all old new (c # cs) = c # replace_all old new cs" by simp

lemma plain_takeWhile: "plain m \<Longrightarrow> takeWhile (\<lambda>c. c \<noteq> CHR ''@'') (m @ ''@@'' @ r) = m"
  by (induction m) (auto simp: plain_def)

lemma marker_prefix:
  assumes "plain m" "plain k"
  shows "prefix (marker m) (marker k @ r) \<longleftrightarrow> m = k"
proof
  assume "prefix (marker m) (marker k @ r)"
  then obtain s where "m @ ''@@'' @ s = k @ ''@@'' @ r" by (auto simp: marker_def prefix_def)
  then have "takeWhile (\<lambda>c. c \<noteq> CHR ''@'') (m @ ''@@'' @ s) = takeWhile (\<lambda>c. c \<noteq> CHR ''@'') (k @ ''@@'' @ r)" by simp
  then show "m = k" by (simp only: plain_takeWhile assms)
qed (simp add: prefix_def)

lemma replace_here: "replace_all (marker m) v (marker m @ r) = v @ replace_all (marker m) v r"
proof -
  have "prefix (marker m) (marker m @ r)" by simp
  moreover have "marker m @ r = CHR ''@'' # (drop 1 (marker m) @ r)" by (simp add: marker_def)
  moreover have "drop (length (marker m) - 1) (drop 1 (marker m) @ r) = r" by (simp add: marker_def)
  ultimately show ?thesis by (metis replace_all.simps(2))
qed

lemma replace_other:
  assumes "plain m" "plain k" "m \<noteq> []" "k \<noteq> []" "m \<noteq> k" "CHR 34 \<notin> set m"
  shows "replace_all (marker m) v (marker k @ CHR 34 # r) = marker k @ replace_all (marker m) v (CHR 34 # r)"
proof -
  have a: "\<not> prefix (marker m) (CHR ''@'' # CHR ''@'' # k @ CHR ''@'' # CHR ''@'' # CHR 34 # r)"
    using marker_prefix [OF assms(1,2), of "CHR 34 # r"] assms(5) by (simp add: marker_def)
  have b: "\<not> prefix (marker m) (CHR ''@'' # k @ s)" for s
    using assms(2,4) by (cases k) (auto simp: marker_def plain_def)
  have c: "\<not> prefix (marker m) (CHR ''@'' # CHR ''@'' # CHR 34 # r)" "\<not> prefix (marker m) (CHR ''@'' # CHR 34 # r)"
    using assms(3,6) by (cases m; auto simp: marker_def)+
  have k: "marker k @ x = CHR ''@'' # CHR ''@'' # k @ CHR ''@'' # CHR ''@'' # x" for x by (simp add: marker_def)
  show ?thesis
    by (simp only: k replace_step [OF a] replace_step [OF b] replace_step [OF c(1)] replace_step [OF c(2)] replace_plain [OF assms(2)])
qed

lemma replace_template:
  assumes "template ps" "plain m" "m \<noteq> []" "CHR 34 \<notin> set m"
  shows "replace_all (marker m) v (rendered ps) = rendered (map (put_slot m v) ps)"
  using assms
proof (induction ps rule: template.induct)
  case (2 t ps)
  then show ?case by (simp add: rendered_def put_slot_def replace_plain del: replace_all.simps)
next
  case (3 k ps)
  from 3(2) obtain t qs where ps: "ps = Txt (CHR 34 # t) # qs" by (auto split: list.splits piece.splits)
  then have r: "rendered ps = CHR 34 # t @ rendered qs" by (simp add: rendered_def)
  show ?case
  proof (cases "k = m")
    case True
    with 3 show ?thesis by (simp add: rendered_def put_slot_def replace_here del: replace_all.simps)
  next
    case False
    have "replace_all (marker m) v (marker k @ rendered ps) = marker k @ replace_all (marker m) v (rendered ps)"
      unfolding r using replace_other [of m k v "t @ rendered qs"] 3(2-5) False by (simp del: replace_all.simps)
    with 3 False show ?thesis by (simp add: rendered_def put_slot_def del: replace_all.simps)
  qed
qed (simp add: rendered_def)

lemma template_put: "template ps \<Longrightarrow> plain v \<Longrightarrow> template (map (put_slot m v) ps)"
proof (induction ps rule: template.induct)
  case (3 k ps)
  from 3(2) obtain t qs where "ps = Txt (CHR 34 # t) # qs" by (auto split: list.splits piece.splits)
  with 3 show ?case by (auto simp: put_slot_def)
qed (simp_all add: put_slot_def)

definition SLOTS :: "string list" where
  "SLOTS = [''NAME'', ''CONTAINER_DIR'', ''STATE_DIR'', ''OVERLAY_BASE'', ''LAYERS'']"

text \<open>
  The hook is its template with each slot replaced by its value, whatever the values contain beside the mark of a slot,
  although the slots are replaced one after the other: no value is taken for a slot, and none is left.
\<close>

theorem hook_fills_template:
  assumes "template ps" "\<And>m. Slot m \<in> set ps \<Longrightarrow> m \<in> set SLOTS" "lower_of link layers = Inr (base, rel)"
    and "plain name" "plain (path_str cdir)" "plain (path_str sd)" "plain base"
  shows "generate_hook link (rendered ps) cdir layers name (Some sd) =
    Inr (concat (map (fill (the \<circ> map_of (zip SLOTS [name, path_str cdir, path_str sd, base, rel]))) ps))"
proof -
  have m: "''@@NAME@@'' = marker ''NAME''" "''@@CONTAINER_DIR@@'' = marker ''CONTAINER_DIR''" "''@@STATE_DIR@@'' = marker ''STATE_DIR''"
    "''@@OVERLAY_BASE@@'' = marker ''OVERLAY_BASE''" "''@@LAYERS@@'' = marker ''LAYERS''" by (simp_all add: marker_def)
  have k: "plain ''NAME''" "plain ''CONTAINER_DIR''" "plain ''STATE_DIR''" "plain ''OVERLAY_BASE''" "plain ''LAYERS''"
    by (simp_all add: plain_def)
  have "rendered (map (put_slot ''LAYERS'' rel) (map (put_slot ''OVERLAY_BASE'' base) (map (put_slot ''STATE_DIR'' (path_str sd))
      (map (put_slot ''CONTAINER_DIR'' (path_str cdir)) (map (put_slot ''NAME'' name) ps))))) =
    concat (map (fill (the \<circ> map_of (zip SLOTS [name, path_str cdir, path_str sd, base, rel]))) ps)"
    unfolding rendered_def using assms(2)
  proof (induction ps)
    case (Cons p ps)
    then show ?case by (cases p) (auto simp: put_slot_def SLOTS_def)
  qed simp
  then show ?thesis
    using assms(1,3-7) k unfolding generate_hook_def m
    by (simp add: replace_template template_put del: replace_all.simps map_map)
qed

section \<open>Which storage is chosen\<close>

text \<open>A section of the storage configuration: its type, its name and its properties.\<close>

record storage =
  st_type :: string
  st_name :: string
  st_props :: "(string \<times> string) list"

definition prop_line :: "string \<times> string \<Rightarrow> string" where "prop_line kv = TAB # fst kv @ '' '' @ snd kv"

definition storage_lines :: "storage \<Rightarrow> string list" where
  "storage_lines s = (st_type s @ '': '' @ st_name s) # map prop_line (st_props s)"

definition has_snippets :: "storage \<Rightarrow> bool" where
  "has_snippets s = list_ex (\<lambda>(k, v). k = ''content'' \<and> ''snippets'' \<in> set (py_split (CHR '','') v)) (st_props s)"

definition word :: "string \<Rightarrow> bool" where "word w \<longleftrightarrow> w \<noteq> [] \<and> (\<forall>c \<in> set w. \<not> py_isspace c \<and> c \<noteq> CHR '':'')"

definition storage_ok :: "storage \<Rightarrow> bool" where
  "storage_ok s \<longleftrightarrow> word (st_type s) \<and> word (st_name s) \<and> \<not> prefix ''content'' (st_type s) \<and>
     (\<forall>(k, v) \<in> set (st_props s). word k \<and> (prefix ''content'' k \<longrightarrow> k = ''content'') \<and> v \<noteq> [] \<and> stripped v)"

definition known_type :: "storage \<Rightarrow> bool" where "known_type s \<longleftrightarrow> st_type s @ '':'' \<in> set STORAGE_TYPES"

lemma word_type: "word k \<Longrightarrow> word w \<Longrightarrow> prefix (w @ '':'') (k @ CHR '' '' # v) = False" "word k \<Longrightarrow> word w \<Longrightarrow> prefix (w @ '':'') (k @ CHR '':'' # v) \<longleftrightarrow> w = k"
proof -
  have sp: "py_isspace (CHR '' '')" by code_simp
  have t: "takeWhile (\<lambda>c. c \<noteq> CHR '':'' \<and> c \<noteq> CHR '' '') (w @ c # x) = w" if "word w" "c = CHR '':'' \<or> c = CHR '' ''" for w c x
  proof -
    have "\<forall>d \<in> set w. d \<noteq> CHR '':'' \<and> d \<noteq> CHR '' ''" using that(1) sp by (auto simp: word_def)
    then show ?thesis using that(2) by (subst takeWhile_append2) auto
  qed
  show "prefix (w @ '':'') (k @ CHR '':'' # v) \<longleftrightarrow> w = k" if "word k" "word w"
  proof
    assume "prefix (w @ '':'') (k @ CHR '':'' # v)"
    then obtain x where "w @ CHR '':'' # x = k @ CHR '':'' # v" by (auto simp: prefix_def)
    then show "w = k" using t [of w "CHR '':''" x] t [of k "CHR '':''" v] that by simp
  qed (simp add: prefix_def)
  show "prefix (w @ '':'') (k @ CHR '' '' # v) = False" if "word k" "word w"
  proof -
    have False if "w @ CHR '':'' # x = k @ CHR '' '' # v" for x
    proof -
      have "w = k" using that t [of w "CHR '':''" x] t [of k "CHR '' ''" v] \<open>word k\<close> \<open>word w\<close> by simp
      with that show False by simp
    qed
    then show ?thesis by (auto simp: prefix_def)
  qed
qed

definition TYPE_WORDS :: "string list" where
  "TYPE_WORDS = [''dir'', ''nfs'', ''cifs'', ''glusterfs'', ''zfspool'', ''btrfs'', ''lvmthin'', ''lvm'']"

lemma storage_types: "STORAGE_TYPES = map (\<lambda>w. w @ '':'') TYPE_WORDS" "w \<in> set TYPE_WORDS \<Longrightarrow> word w"
proof -
  have "list_all word TYPE_WORDS" by code_simp
  then show "w \<in> set TYPE_WORDS \<Longrightarrow> word w" by (auto simp: list_all_iff)
qed (simp add: STORAGE_TYPES_def TYPE_WORDS_def)

lemma no_type_line: "word k \<Longrightarrow> list_ex (\<lambda>t. prefix t (k @ CHR '' '' # v)) STORAGE_TYPES = False"
  using storage_types(2) by (simp add: storage_types(1) list_ex_iff word_type del: prefix_append)

lemma type_line: "word k \<Longrightarrow> list_ex (\<lambda>t. prefix t (k @ CHR '':'' # v)) STORAGE_TYPES \<longleftrightarrow> k @ '':'' \<in> set STORAGE_TYPES"
  using storage_types(2) by (auto simp: storage_types(1) list_ex_iff word_type simp del: prefix_append)

lemma word_facts: "word w \<Longrightarrow> stripped w" "word w \<Longrightarrow> words_from [] w = [w]" "word w \<Longrightarrow> w \<noteq> []"
proof -
  have "words_from acc w = (if acc @ w = [] then [] else [acc @ w])" if "\<forall>c \<in> set w. \<not> py_isspace c" for acc w
    using that by (induction acc w rule: words_from.induct) auto
  from this [of w "[]"] show "word w \<Longrightarrow> words_from [] w = [w]" by (auto simp: word_def)
qed (auto simp: word_def intro: stripped_no_space)

lemma stripped_pair: "stripped a \<Longrightarrow> a \<noteq> [] \<Longrightarrow> stripped b \<Longrightarrow> b \<noteq> [] \<Longrightarrow> stripped (a @ x @ b)"
  by (auto simp: stripped_def)

lemma prefix_before: "c \<notin> set w \<Longrightarrow> prefix w (a @ c # b) \<longleftrightarrow> prefix w a"
proof (induction w arbitrary: a)
  case (Cons x w)
  then show ?case by (cases a) auto
qed simp

lemma strip_indented: "stripped x \<Longrightarrow> py_strip (TAB # x) = x"
proof -
  have "py_isspace TAB" by code_simp
  then have "py_strip (TAB # x) = py_strip x" by (simp add: py_strip_def py_lstrip_def)
  then show "stripped x \<Longrightarrow> py_strip (TAB # x) = x" by (simp add: py_strip_id)
qed

lemma space_colon: "py_isspace (CHR '' '')" "\<not> py_isspace (CHR '':'')" by code_simp+

lemma scan_prop:
  assumes "word k" "prefix ''content'' k \<longrightarrow> k = ''content''" "v \<noteq> []" "stripped v"
  shows "scan_storages (prop_line (k, v) # ls) cur =
    (if k = ''content'' \<and> ''snippets'' \<in> set (py_split (CHR '','') v) \<and> truthy cur then Inr cur else scan_storages ls cur)"
proof -
  have "stripped (k @ '' '' @ v)" using assms word_facts [of k] by (intro stripped_pair)
  then have l: "py_strip (prop_line (k, v)) = k @ CHR '' '' # v" using strip_indented by (simp add: prop_line_def)
  have c: "prefix ''content'' (k @ CHR '' '' # v) \<longleftrightarrow> k = ''content''" using assms(2) by (subst prefix_before) auto
  have "\<forall>c \<in> set k. \<not> py_isspace c" using assms(1) by (simp add: word_def)
  then have "after_word (k @ CHR '' '' # v) = dropWhile py_isspace (CHR '' '' # v)"
    unfolding after_word_def by (subst dropWhile_append2) (auto simp: space_colon)
  then have w: "after_word (k @ CHR '' '' # v) = v" using assms(3,4) space_colon(1) by (cases v) (auto simp: stripped_def)
  show ?thesis unfolding scan_storages.simps l Let_def no_type_line [OF assms(1)] c w by auto
qed

lemma scan_props:
  assumes "\<forall>(k, v) \<in> set kvs. word k \<and> (prefix ''content'' k \<longrightarrow> k = ''content'') \<and> v \<noteq> [] \<and> stripped v"
  shows "scan_storages (map prop_line kvs @ ls) cur =
    (if truthy cur \<and> list_ex (\<lambda>(k, v). k = ''content'' \<and> ''snippets'' \<in> set (py_split (CHR '','') v)) kvs then Inr cur else scan_storages ls cur)"
  using assms
proof (induction kvs)
  case (Cons kv kvs)
  obtain k v where "kv = (k, v)" by (cases kv)
  with Cons show ?case by (auto simp: scan_prop simp del: scan_storages.simps)
qed simp

lemma scan_header:
  assumes "storage_ok s"
  shows "scan_storages ((st_type s @ '': '' @ st_name s) # ls) cur = scan_storages ls (if known_type s then Some (st_name s) else cur)"
proof -
  let ?l = "st_type s @ CHR '':'' # CHR '' '' # st_name s"
  have w: "word (st_type s)" "word (st_name s)" and c: "\<not> prefix ''content'' (st_type s)" using assms by (auto simp: storage_ok_def)
  have "py_strip (st_type s @ '': '' @ st_name s) = st_type s @ '': '' @ st_name s"
    using w word_facts by (intro py_strip_id stripped_pair) auto
  then have l: "py_strip (st_type s @ '': '' @ st_name s) = ?l" by simp
  have d: "dropWhile (\<lambda>c. c \<noteq> CHR '':'') ?l = CHR '':'' # CHR '' '' # st_name s"
    using w(1) by (subst dropWhile_append2) (auto simp: word_def)
  have "py_strip (CHR '' '' # st_name s) = py_strip (st_name s)" by (simp add: py_strip_def py_lstrip_def space_colon)
  then have n: "py_words (py_strip (tl (CHR '':'' # CHR '' '' # st_name s))) = [st_name s]"
    using w(2) by (simp add: py_words_def py_strip_id word_facts)
  have p: "prefix ''content'' ?l = False" using c by (subst prefix_before) auto
  show ?thesis unfolding scan_storages.simps l Let_def type_line [OF w(1)] d n p known_type_def by simp
qed

lemma scan_storage:
  assumes "storage_ok s"
  shows "scan_storages (storage_lines s @ ls) cur =
    (let cur' = (if known_type s then Some (st_name s) else cur)
     in if truthy cur' \<and> has_snippets s then Inr cur' else scan_storages ls cur')"
proof -
  have "\<forall>(k, v) \<in> set (st_props s). word k \<and> (prefix ''content'' k \<longrightarrow> k = ''content'') \<and> v \<noteq> [] \<and> stripped v"
    using assms by (simp add: storage_ok_def)
  note props = scan_props [OF this]
  have "storage_lines s @ ls = (st_type s @ '': '' @ st_name s) # map prop_line (st_props s) @ ls" by (simp add: storage_lines_def)
  then have "scan_storages (storage_lines s @ ls) cur =
      scan_storages (map prop_line (st_props s) @ ls) (if known_type s then Some (st_name s) else cur)"
    by (simp only: scan_header [OF assms])
  then show ?thesis by (simp only: props Let_def has_snippets_def)
qed

lemma scan_known:
  "list_all (\<lambda>s. storage_ok s \<and> known_type s) ss \<Longrightarrow>
     scan_storages (concat (map storage_lines ss) @ ls) cur =
       (case find has_snippets ss of Some s \<Rightarrow> Inr (Some (st_name s)) | None \<Rightarrow> scan_storages ls (if ss = [] then cur else Some (st_name (last ss))))"
proof (induction ss arbitrary: cur)
  case (Cons s ss)
  then have ok: "storage_ok s" "known_type s" and "truthy (Some (st_name s))" by (auto simp: storage_ok_def word_def)
  with Cons.IH [of "Some (st_name s)"] Cons.prems show ?case
    by (cases "ss = []") (simp_all add: scan_storage [OF ok(1)] Let_def del: scan_storages.simps split: option.split)
qed simp

text \<open>
  C13. Without a setting, the storage chosen is the first of the configuration that declares snippets, when every section is of one of
  the types known; a section of another type that declares them has them taken for those of the section before it, which is then chosen
  although it has none.
\<close>

theorem snippets_storage_chosen:
  assumes "load_config conf ''snippets_storage'' = None" "py_splitlines (univ_newlines t) = concat (map storage_lines (ss @ other))"
    and "list_all (\<lambda>s. storage_ok s \<and> known_type s) ss"
  shows "(other = [] \<longrightarrow> snippets_storage conf (Some t) = (case find has_snippets ss of Some s \<Rightarrow> Inr (st_name s) | None \<Rightarrow> Inl StateErrorC)) \<and>
    (\<forall>s rest. other = s # rest \<and> storage_ok s \<and> \<not> known_type s \<and> has_snippets s \<and> ss \<noteq> [] \<and> \<not> list_ex has_snippets ss \<longrightarrow>
       snippets_storage conf (Some t) = Inr (st_name (last ss)))"
proof -
  have none: "find has_snippets ss = None" if "\<not> list_ex has_snippets ss" using that by (auto simp: find_None_iff list_ex_iff)
  have last: "truthy (Some (st_name (last ss)))" if "ss \<noteq> []"
    using that assms(3) by (cases ss rule: rev_cases) (auto simp: storage_ok_def word_def)
  show ?thesis
    using assms(1) scan_known [OF assms(3), of "concat (map storage_lines other)" None] none last
    by (auto simp: snippets_storage_def assms(2) scan_storage simp del: scan_storages.simps(2) split: option.splits)
qed

text \<open>
  When the tool that locates a storage fails, removing the wrapper of an instance raises and removes nothing: only the case that no
  storage is found is handled.
\<close>

theorem locate_failure_stops_removal:
  assumes "snippets_storage conf storage_cfg = Inr name" "os_run os None [''pvesm'', ''path'', name @ '':snippets/probe''] (g_world g) = (Inr (rc, out), w)" "rc \<noteq> 0"
  shows "delete_wrapper gk os disk conf storage_cfg vmid g = Some (Inl SubprocessErrorC, g\<lparr>g_world := w\<rparr>)"
proof -
  have "find_snippets_dir os conf storage_cfg g = Some (Inl SubprocessErrorC, g\<lparr>g_world := w\<rparr>)"
    using assms by (simp add: find_snippets_dir_def bindP.simps osP_def)
  moreover have "\<not> catches [StateErrorC] SubprocessErrorC" by code_simp
  ultimately show ?thesis by (simp add: delete_wrapper_def exceptP_def bindP_step tryP.simps)
qed

section \<open>Instances of the properties\<close>

definition sample_template :: "piece list" where
  "sample_template = [Txt (''NAME='' @ [CHR 34]), Slot ''NAME'', Txt ([CHR 34, LF] @ ''LAYERS='' @ [CHR 34]), Slot ''LAYERS'', Txt [CHR 34, LF]]"

theorem hook_fills_template_witness:
  "generate_hook (\<lambda>_. Inr []) (rendered sample_template) (mk_path ''/c/7'') ''/x'' ''web'' (Some (mk_path ''/s'')) =
     Inr (''NAME='' @ [CHR 34] @ ''web'' @ [CHR 34, LF] @ ''LAYERS='' @ [CHR 34] @ ''/x'' @ [CHR 34, LF])"
proof -
  have "lower_of (\<lambda>_. Inr []) ''/x'' = Inr (''/'', ''/x'')" by code_simp
  moreover have "template sample_template" by code_simp
  moreover have "plain (path_str (mk_path ''/c/7''))" "plain (path_str (mk_path ''/s''))" by code_simp+
  ultimately show ?thesis
    using hook_fills_template [of sample_template "\<lambda>_. Inr []" "''/x''" "''/''" "''/x''" "''web''" "mk_path ''/c/7''" "mk_path ''/s''"]
    by (auto simp: sample_template_def SLOTS_def plain_def)
qed

definition local_storage :: storage where
  "local_storage = \<lparr>st_type = ''dir'', st_name = ''local'', st_props = [(''path'', ''/var/lib/vz''), (''content'', ''iso,vztmpl'')]\<rparr>"

definition ceph_storage :: storage where
  "ceph_storage = \<lparr>st_type = ''cephfs'', st_name = ''ceph'', st_props = [(''content'', ''backup,snippets'')]\<rparr>"

theorem snippets_storage_chosen_witness:
  "snippets_storage None (Some (py_join [LF] (storage_lines local_storage @ storage_lines ceph_storage))) = Inr ''local'' \<and>
   \<not> has_snippets local_storage \<and> has_snippets ceph_storage"
proof -
  have t: "py_splitlines (univ_newlines (py_join [LF] (storage_lines local_storage @ storage_lines ceph_storage))) =
      concat (map storage_lines ([local_storage] @ [ceph_storage]))" by code_simp
  have "load_config None ''snippets_storage'' = None" by code_simp
  moreover have "storage_ok local_storage \<and> known_type local_storage \<and> storage_ok ceph_storage \<and> \<not> known_type ceph_storage" by code_simp
  moreover have "\<not> has_snippets local_storage \<and> has_snippets ceph_storage" by code_simp
  moreover have "st_name local_storage = ''local''" by (simp add: local_storage_def)
  ultimately show ?thesis using snippets_storage_chosen [OF _ t] by simp
qed

definition no_pvesm :: "unit os" where
  "no_pvesm = \<lparr>os_run = (\<lambda>_ _ w. (Inr (2, ''no such storage''), w)), os_spawn = (\<lambda>_ w. (Inr 1, w)), os_alive = (\<lambda>_ _. False),
     os_exited = (\<lambda>_ _. False), os_kill = (\<lambda>_ _ w. (Inr (), w)), os_wait = (\<lambda>_ _ w. (Inr (), w)), os_now = (\<lambda>_. 0),
     os_sleep = (\<lambda>_ w. w), os_sock = (\<lambda>_ _. False), os_unlink_sock = (\<lambda>_ w. w), os_which = (\<lambda>_. None), os_is_file = (\<lambda>_ _. False),
     os_link = (\<lambda>_. Inr [])\<rparr>"

theorem locate_failure_stops_removal_witness:
  "delete_snippets_wrapper no_pvesm \<lparr>hd_write = (\<lambda>_ _ w. (Inr (), w)), hd_unlink = (\<lambda>_ w. (Inr (), w))\<rparr> (Some (''snippets_storage = local'' @ [LF])) None 100
     \<lparr>g_files = Map.empty, g_world = ()\<rparr> = Some (Inl SubprocessErrorC, \<lparr>g_files = Map.empty, g_world = ()\<rparr>)"
proof -
  have "snippets_storage (Some (''snippets_storage = local'' @ [LF])) None = Inr ''local''" by code_simp
  from locate_failure_stops_removal [OF this, of no_pvesm "\<lparr>g_files = Map.empty, g_world = ()\<rparr>" 2 "''no such storage''" "()" "''vm''"]
  show ?thesis by (simp add: no_pvesm_def delete_snippets_wrapper_def)
qed

end
