(* ===== verification/Scrub.thy ===== *)
theory Scrub imports Hooks Lifecycle Ledger Setcmd Cloudinit begin

text \<open>
  \<^verbatim>\<open>reset.py\<close>: returning an instance to the state of its image.  The writable layer is a pair of directories (the layer and the copy set
  aside while it is cleared) whose contents are maps from paths to texts, a symbolic link being the text of its target.
  Faults of the file system while a directory is cleared are an argument.
\<close>

section \<open>Clearing a directory\<close>

record dirs =
  dr_cur :: "files option"
  dr_old :: "files option"

datatype dir_op = SweepOld | SetAside | MakeDir | DropOld

text \<open>A fault raises; a removal that fails leaves a part of the directory.\<close>

type_synonym faults = "dir_op \<Rightarrow> (exc \<times> files) option"

definition remove_old :: "dir_op \<Rightarrow> faults \<Rightarrow> dirs \<Rightarrow> (exc + unit) \<times> dirs" where
  "remove_old x fl d =
     (if dr_old d = None then (Inr (), d)
      else case fl x of Some (e, rest) \<Rightarrow> (Inl e, d\<lparr>dr_old := Some rest\<rparr>) | None \<Rightarrow> (Inr (), d\<lparr>dr_old := None\<rparr>))"

definition set_aside :: "faults \<Rightarrow> dirs \<Rightarrow> (exc + unit) \<times> dirs" where
  "set_aside fl d =
     (case dr_cur d of None \<Rightarrow> (Inr (), d)
      | Some u \<Rightarrow> (case fl SetAside of Some (e, _) \<Rightarrow> (Inl e, d) | None \<Rightarrow> (Inr (), \<lparr>dr_cur = None, dr_old = Some u\<rparr>)))"

definition make_dir :: "faults \<Rightarrow> dirs \<Rightarrow> (exc + unit) \<times> dirs" where
  "make_dir fl d =
     (if dr_cur d \<noteq> None then (Inl FileExistsErrorC, d)
      else case fl MakeDir of Some (e, _) \<Rightarrow> (Inl e, d) | None \<Rightarrow> (Inr (), d\<lparr>dr_cur := Some Map.empty\<rparr>))"

definition safe_clear_dir :: "faults \<Rightarrow> (unit, dirs) prog" where
  "safe_clear_dir fl =
     seqP (act (remove_old SweepOld fl)) (seqP (act (set_aside fl)) (seqP (act (make_dir fl)) (act (remove_old DropOld fl))))"

section \<open>The state\<close>

record 'w scrub =
  sb_guest :: "'w guest"
  sb_upper :: dirs
  sb_work :: dirs
  sb_seed :: files
  sb_confs :: "int \<Rightarrow> string option"

text \<open>The host: whether the caller is root, the commands, the texts of the scripts, the files of the host that are read.\<close>

record 'w scrub_host =
  sh_root :: bool
  sh_os :: "'w os"
  sh_view :: "'w \<Rightarrow> exc + host_view"
  sh_disk :: "'w host_disk"
  sh_idmap :: "string \<Rightarrow> 'w \<Rightarrow> string list option"
  sh_rm_idmap :: "string \<Rightarrow> 'w \<Rightarrow> 'w"
  sh_faults :: "string \<Rightarrow> faults"
  sh_hook :: string
  sh_vm_rest :: string
  sh_sha256 :: "string \<Rightarrow> string"
  sh_host_keys :: "files option"
  sh_vm_conf :: "string option"
  sh_storage_cfg :: "string option"

definition onG :: "('a, 'w guest) prog \<Rightarrow> ('a, 'w scrub) prog" where
  "onG m s = (case m (sb_guest s) of None \<Rightarrow> None | Some (r, g) \<Rightarrow> Some (r, s\<lparr>sb_guest := g\<rparr>))"

definition filesP :: "(files, 'w scrub) prog" where "filesP = look (\<lambda>s. g_files (sb_guest s))"

definition on_upper :: "(unit, dirs) prog \<Rightarrow> (unit, 'w scrub) prog" where
  "on_upper m s = (case m (sb_upper s) of None \<Rightarrow> None | Some (r, d) \<Rightarrow> Some (r, s\<lparr>sb_upper := d\<rparr>))"

definition on_work :: "(unit, dirs) prog \<Rightarrow> (unit, 'w scrub) prog" where
  "on_work m s = (case m (sb_work s) of None \<Rightarrow> None | Some (r, d) \<Rightarrow> Some (r, s\<lparr>sb_work := d\<rparr>))"

text \<open>Writing into the layer makes it when it is not there.\<close>

definition write_upper :: "(files \<Rightarrow> files) \<Rightarrow> (unit, 'w scrub) prog" where
  "write_upper f = alter (\<lambda>s. s\<lparr>sb_upper := (sb_upper s)\<lparr>dr_cur := Some (f (case dr_cur (sb_upper s) of Some u \<Rightarrow> u | None \<Rightarrow> Map.empty))\<rparr>\<rparr>)"

definition text_in :: "files \<Rightarrow> string \<Rightarrow> string option" where "text_in fs f = map_option file_text (fs f)"

section \<open>The steps\<close>

definition scrub_checks :: "'w scrub_host \<Rightarrow> string \<Rightarrow> string \<Rightarrow> (unit, 'w scrub) prog" where
  "scrub_checks h dir mode =
     bindP (onG (probeP (sh_os h) (sh_view h) dir mode)) (\<lambda>up. if up then raise_exc StateErrorC else give ())"

text \<open>The layers and the id of the image, before anything is cleared.\<close>

definition scrub_resolve :: "'w scrub_host \<Rightarrow> (string \<times> string, 'w scrub) prog" where
  "scrub_resolve h =
     bindP filesP (\<lambda>fs.
       case text_in fs ''kento-image'' of None \<Rightarrow> raise_exc FileNotFoundErrorC
       | Some img \<Rightarrow>
           bindP (onG (layers_of (sh_os h) img)) (\<lambda>layers.
           bindP (onG (resolve_image_id (sh_os h) img)) (\<lambda>new_id.
           seqP (whenP (new_id \<noteq> []) (onG (put_file ''kento-image-id'' (new_id @ [LF])))) (give (img, layers)))))"

fun unmount_each :: "'w os \<Rightarrow> string list \<Rightarrow> (unit, 'w guest) prog" where
  "unmount_each os [] = give ()"
| "unmount_each os (d # ds) = bindP (osP (os_run os None [''umount'', d])) (\<lambda>_. unmount_each os ds)"

definition scrub_unmount :: "'w scrub_host \<Rightarrow> ppath \<Rightarrow> ppath \<Rightarrow> (unit, 'w scrub) prog" where
  "scrub_unmount h cdir state_dir =
     (let rootfs = path_str (path_div cdir ''rootfs''); idmap = path_str (path_div state_dir ''idmap''); os = sh_os h
      in bindP (onG (osP (os_run os None [''mountpoint'', ''-q'', rootfs]))) (\<lambda>(rc, _).
         seqP (if rc = 0 then bindP (onG (osP (os_run os None [''umount'', rootfs]))) (\<lambda>(rc2, _). if rc2 \<noteq> 0 then raise_exc StateErrorC else give ())
               else give ())
           (bindP (onG (askP (sh_idmap h idmap))) (\<lambda>ds.
              case ds of None \<Rightarrow> give ()
              | Some subdirs \<Rightarrow> seqP (onG (unmount_each os (rev subdirs))) (onG (doP (sh_rm_idmap h idmap)))))))"

definition scrub_clear :: "'w scrub_host \<Rightarrow> ppath \<Rightarrow> (unit, 'w scrub) prog" where
  "scrub_clear h state_dir =
     seqP (on_upper (safe_clear_dir (sh_faults h ''upper''))) (seqP (on_work (safe_clear_dir (sh_faults h ''work'')))
       (onG (drop_file ''kento-portfwd-active'')))"

fun parse_net :: "string list \<Rightarrow> exc + (string \<rightharpoonup> string)" where
  "parse_net [] = Inr Map.empty"
| "parse_net (l # ls) =
     (case py_partition (CHR ''='') l of (k, present, v) \<Rightarrow>
        if \<not> present then Inl ValueErrorC else bindE (parse_net ls) (\<lambda>m. Inr (if k \<in> dom m then m else m(k \<mapsto> v))))"

definition read_net :: "files \<Rightarrow> exc + (string \<rightharpoonup> string)" where
  "read_net fs = (case text_in fs ''kento-net'' of None \<Rightarrow> Inr Map.empty | Some t \<Rightarrow> parse_net (py_splitlines t))"

definition LOCALTIME_PATH :: string where "LOCALTIME_PATH = ''etc/localtime''"
definition TIMEZONE_PATH :: string where "TIMEZONE_PATH = ''etc/timezone''"
definition ENVIRONMENT_PATH :: string where "ENVIRONMENT_PATH = ''etc/environment''"

definition inject_timezone :: "string \<Rightarrow> files \<Rightarrow> files" where
  "inject_timezone tz upper = upper(LOCALTIME_PATH \<mapsto> ''/usr/share/zoneinfo/'' @ tz, TIMEZONE_PATH \<mapsto> tz @ [LF])"

definition inject_env :: "string list \<Rightarrow> files \<Rightarrow> files" where
  "inject_env env upper = upper(ENVIRONMENT_PATH \<mapsto> py_join [LF] env @ [LF])"

definition inject_net :: "(string \<rightharpoonup> string) \<Rightarrow> string \<Rightarrow> files \<Rightarrow> files" where
  "inject_net net mode upper =
     (case net ''ip'' of Some ip \<Rightarrow> inject_network_config ip (net ''gateway'') (net ''dns'') (net ''searchdomain'') mode upper
      | None \<Rightarrow> if truthy (net ''dns'') \<or> truthy (net ''searchdomain'')
                then upper(RESOLVED_PATH \<mapsto> resolved_text (net ''dns'') (net ''searchdomain'')) else upper)"

definition scrub_inject :: "string \<Rightarrow> (unit, 'w scrub) prog" where
  "scrub_inject mode =
     bindP filesP (\<lambda>fs.
     seqP (case text_in fs ''kento-name'' of Some n \<Rightarrow> write_upper (inject_hostname n) | None \<Rightarrow> give ())
    (bindP (pure_res (read_net fs)) (\<lambda>net.
     seqP (whenP (fs ''kento-net'' \<noteq> None) (write_upper (inject_net net mode)))
    (seqP (case text_in fs ''kento-tz'' of Some tz \<Rightarrow> write_upper (inject_timezone tz) | None \<Rightarrow> give ())
          (case text_in fs ''kento-env'' of Some t \<Rightarrow> write_upper (inject_env (py_splitlines t)) | None \<Rightarrow> give ())))))"

definition seed_of :: "'w scrub_host \<Rightarrow> files \<Rightarrow> string \<Rightarrow> (string \<rightharpoonup> string) \<Rightarrow> seed_request" where
  "seed_of h fs name net =
     \<lparr>sr_name = (case text_in fs ''kento-name'' of Some n \<Rightarrow> n | None \<Rightarrow> name), sr_ip = net ''ip'', sr_gateway = net ''gateway'',
      sr_dns = net ''dns'', sr_searchdomain = net ''searchdomain'', sr_timezone = text_in fs ''kento-tz'',
      sr_env = map_option py_splitlines (text_in fs ''kento-env''), sr_keys = map_option univ_newlines (fs ''kento-authorized-keys''),
      sr_key_user = (case text_in fs ''kento-ssh-user'' of Some u \<Rightarrow> u | None \<Rightarrow> ''root''), sr_host_keys = sh_host_keys h\<rparr>"

definition scrub_seed :: "'w scrub_host \<Rightarrow> string \<Rightarrow> (unit, 'w scrub) prog" where
  "scrub_seed h name =
     bindP filesP (\<lambda>fs.
       if text_in fs ''kento-config-mode'' = Some ''cloudinit'' then
         bindP (pure_res (read_net fs)) (\<lambda>net.
           alter (\<lambda>s. s\<lparr>sb_seed := write_seed (sh_sha256 h) (seed_of h fs name net) (sb_seed s)\<rparr>))
       else give ())"

definition scrub_repin :: "'w scrub_host \<Rightarrow> string \<Rightarrow> string \<Rightarrow> (unit, 'w scrub) prog" where
  "scrub_repin h img name =
     bindP filesP (\<lambda>fs.
       bindP (onG (repin_image_hold (sh_os h) img (case text_in fs ''kento-name'' of Some n \<Rightarrow> n | None \<Rightarrow> name))) (\<lambda>_. give ()))"

text \<open>The arguments of the virtual machine are generated anew with the default of their generator.\<close>

definition scrub_args :: "ppath \<Rightarrow> (unit, 'w scrub) prog" where
  "scrub_args cdir =
     bindP filesP (\<lambda>fs.
       case Option.bind (text_in fs ''kento-vmid'') py_int of None \<Rightarrow> give ()
       | Some vmid \<Rightarrow>
           bindP (look (\<lambda>s. sb_confs s vmid)) (\<lambda>conf.
           bindP (pure_res (sync_qm_args_to_memory conf cdir fs True)) (\<lambda>(_, conf', fs').
             alter (\<lambda>s. s\<lparr>sb_confs := (sb_confs s)(vmid := conf'), sb_guest := (sb_guest s)\<lparr>g_files := fs'\<rparr>\<rparr>))))"

definition scrub_hook :: "'w scrub_host \<Rightarrow> ppath \<Rightarrow> string \<Rightarrow> string \<Rightarrow> ppath \<Rightarrow> string \<Rightarrow> (unit, 'w scrub) prog" where
  "scrub_hook h cdir mode layers state_dir name =
     seqP (if mode = ''pve-vm'' then
             seqP (onG (write_vm_hook (os_link (sh_os h)) (sh_vm_rest h) cdir layers name state_dir)) (scrub_args cdir)
           else whenP (mode \<noteq> ''vm'') (onG (write_hook (os_link (sh_os h)) (sh_hook h) cdir layers name (Some state_dir))))
      (bindP filesP (\<lambda>fs.
         if mode = ''pve'' \<and> (fs ''kento-port'' \<noteq> None \<or> fs ''kento-memory'' \<noteq> None \<or> fs ''kento-cores'' \<noteq> None) then
           (case py_int (path_name cdir) of None \<Rightarrow> raise_exc ValueErrorC
            | Some vmid \<Rightarrow> bindP (onG (write_lxc_snippets_wrapper (sh_os h) (sh_disk h) (sh_vm_conf h) (sh_storage_cfg h) vmid
                (path_str (path_div cdir ''kento-hook'')) None)) (\<lambda>_. give ()))
         else give ()))"

definition reset :: "'w scrub_host \<Rightarrow> ppath \<Rightarrow> string \<Rightarrow> string option \<Rightarrow> (unit, 'w scrub) prog" where
  "reset h cdir name given_mode =
     (if \<not> sh_root h then raise_exc StateErrorC
      else bindP filesP (\<lambda>fs.
        let mode = (case given_mode of Some m \<Rightarrow> m | None \<Rightarrow> read_mode fs ''lxc'')
        in seqP (scrub_checks h (path_name cdir) mode)
          (bindP (scrub_resolve h) (\<lambda>(img, layers).
             let state_dir = (case text_in fs ''kento-state'' of Some t \<Rightarrow> mk_path t | None \<Rightarrow> cdir)
             in seqP (scrub_unmount h cdir state_dir)
               (seqP (scrub_clear h state_dir)
               (seqP (scrub_inject mode)
               (seqP (scrub_seed h name)
               (seqP (onG (put_file ''kento-layers'' (layers @ [LF])))
               (seqP (scrub_repin h img name)
                 (scrub_hook h cdir mode layers state_dir name))))))))))"

section \<open>What the steps leave alone\<close>

lemma onG_Some: "onG m s = Some (r, s') \<longleftrightarrow> (\<exists>g. m (sb_guest s) = Some (r, g) \<and> s' = s\<lparr>sb_guest := g\<rparr>)"
  by (auto simp: onG_def split: option.splits)

lemma on_dirs_Some:
  "on_upper p s = Some (r, s') \<longleftrightarrow> (\<exists>d. p (sb_upper s) = Some (r, d) \<and> s' = s\<lparr>sb_upper := d\<rparr>)"
  "on_work p s = Some (r, s') \<longleftrightarrow> (\<exists>d. p (sb_work s) = Some (r, d) \<and> s' = s\<lparr>sb_work := d\<rparr>)"
  by (auto simp: on_upper_def on_work_def split: option.splits)

text \<open>What the metadata of the instance is kept by.\<close>

lemma keeps_files [intro]: "keeps (\<lambda>g. g_files g = fs) (osP f)" "keeps (\<lambda>g. g_files g = fs) (askP q)" "keeps (\<lambda>g. g_files g = fs) (doP u)"
  "keeps (\<lambda>g. g_files g = fs) (podman os args)"
  by (auto simp: keeps_def osP_def askP_def doP_def podman_def split: prod.splits)

lemma keeps_probe: "keeps (\<lambda>g. g_files g = fs) (probeP os view dir mode)" unfolding probeP_def by auto

lemma keeps_layers_of: "keeps (\<lambda>g. g_files g = fs) (layers_of os img)"
  unfolding layers_of_def checked_def by (auto split: prod.splits intro!: keeps_bindP keeps_files)

lemma keeps_resolve_id: "keeps (\<lambda>g. g_files g = fs) (resolve_image_id os img)"
  unfolding resolve_image_id_def by (auto split: prod.splits intro!: keeps_exceptP keeps_bindP keeps_files)

lemma keeps_repin: "keeps (\<lambda>g. g_files g = fs) (repin_image_hold os img name)"
  unfolding repin_image_hold_def ensure_image_hold_def create_image_hold_def remove_image_hold_def hold_pinned_id_def
  by (auto split: prod.splits intro!: keeps_exceptP keeps_bindP keeps_seqP keeps_files keeps_resolve_id)

text \<open>The parts of the state beside the instance's files and the world.\<close>

definition sides :: "'w scrub \<Rightarrow> dirs \<times> dirs \<times> files \<times> (int \<Rightarrow> string option)" where
  "sides s = (sb_upper s, sb_work s, sb_seed s, sb_confs s)"

lemma sides_guest [simp]: "sides (s\<lparr>sb_guest := g\<rparr>) = sides s" by (simp add: sides_def)

lemma onG_sides [intro]: "keeps (\<lambda>s. sides s = x) (onG m)" by (auto simp: keeps_def onG_Some)

lemma onG_files: "keeps (\<lambda>g. Q (g_files g)) m \<Longrightarrow> keeps (\<lambda>s. Q (g_files (sb_guest s))) (onG m)"
  by (auto simp: keeps_def onG_Some)

lemma keeps_unmount_each: "keeps (\<lambda>g. g_files g = fs) (unmount_each os ds)"
proof (induction ds)
  case (Cons d ds)
  then show ?case unfolding unmount_each.simps by (auto intro!: keeps_bindP keeps_files)
qed (simp add: keeps_def)

lemma keeps_filesP [intro, simp]: "keeps P filesP" by (simp add: filesP_def)

lemma scrub_unmount_keeps: "keeps (\<lambda>s. sides s = x) (scrub_unmount h cdir sd)" "keeps (\<lambda>s. g_files (sb_guest s) = fs) (scrub_unmount h cdir sd)"
  unfolding scrub_unmount_def Let_def
  by (auto split: prod.splits option.splits if_splits intro!: keeps_bindP keeps_seqP onG_sides onG_files keeps_unmount_each)

section \<open>Clearing\<close>

definition clean :: dirs where "clean = \<lparr>dr_cur = Some Map.empty, dr_old = None\<rparr>"

definition no_faults :: faults where "no_faults = (\<lambda>_. None)"

lemma clear_total: "safe_clear_dir no_faults d = Some (Inr (), clean)"
  by (cases d) (auto simp: safe_clear_dir_def seqP_def bindP.simps remove_old_def set_aside_def make_dir_def clean_def no_faults_def split: option.splits)

text \<open>What one operation does to the two directories.\<close>

lemma dir_ops:
  "remove_old x fl d = (r, d') \<Longrightarrow> dr_cur d' = dr_cur d \<and> (r = Inr () \<longrightarrow> dr_old d' = None)"
  "set_aside fl d = (r, d') \<Longrightarrow> if r = Inr () then dr_cur d' = None \<and> (dr_cur d \<noteq> None \<longrightarrow> dr_old d' = dr_cur d) else d' = d"
  "make_dir fl d = (r, d') \<Longrightarrow> if r = Inr () then dr_cur d = None \<and> d' = d\<lparr>dr_cur := Some Map.empty\<rparr> else d' = d"
  by (auto simp: remove_old_def set_aside_def make_dir_def split: if_splits option.splits)

lemma clear_parts:
  assumes "safe_clear_dir fl d = Some (r, d')"
  obtains (sweep) "remove_old SweepOld fl d = (r, d')" "r \<noteq> Inr ()"
  | (aside) d1 where "remove_old SweepOld fl d = (Inr (), d1)" "set_aside fl d1 = (r, d')" "r \<noteq> Inr ()"
  | (make) d1 d2 where "remove_old SweepOld fl d = (Inr (), d1)" "set_aside fl d1 = (Inr (), d2)" "make_dir fl d2 = (r, d')" "r \<noteq> Inr ()"
  | (drop) d1 d2 d3 where "remove_old SweepOld fl d = (Inr (), d1)" "set_aside fl d1 = (Inr (), d2)" "make_dir fl d2 = (Inr (), d3)"
      "remove_old DropOld fl d3 = (r, d')"
  using assms by (auto simp: safe_clear_dir_def seqP_Some)

lemma clear_ok:
  assumes "safe_clear_dir fl d = Some (Inr u, d')"
  shows "d' = clean"
  using assms
proof (cases rule: clear_parts)
  case (drop d1 d2 d3)
  from dir_ops(3) [OF drop(3)] dir_ops(1) [OF drop(4)] show ?thesis by (cases d') (simp add: clean_def)
qed auto


section \<open>Nothing is touched before the image is resolved\<close>

lemma scrub_checks_result:
  assumes "scrub_checks h dir mode s = Some (c, s1)"
  obtains p g1 where "probeP (sh_os h) (sh_view h) dir mode (sb_guest s) = Some (p, g1)" "s1 = s\<lparr>sb_guest := g1\<rparr>"
    "g_files g1 = g_files (sb_guest s)" "\<And>u. c = Inr u \<Longrightarrow> p = Inr False"
proof -
  obtain p g1 where p: "probeP (sh_os h) (sh_view h) dir mode (sb_guest s) = Some (p, g1)" "s1 = s\<lparr>sb_guest := g1\<rparr>"
    and q: "\<And>u. c = Inr u \<Longrightarrow> p = Inr False"
    using assms by (auto simp: scrub_checks_def bindP_Some onG_Some split: if_splits)
  have "g_files g1 = g_files (sb_guest s)" using keepsD [OF keeps_probe p(1)] by blast
  with p q show thesis using that by blast
qed

lemma scrub_resolve_result:
  assumes "scrub_resolve h s = Some (x, s1)"
  shows "(\<exists>e g. x = Inl e \<and> s1 = s\<lparr>sb_guest := g\<rparr> \<and> g_files g = g_files (sb_guest s)) \<or>
    (\<exists>img layers g. text_in (g_files (sb_guest s)) ''kento-image'' = Some img \<and>
       layers_of (sh_os h) img (sb_guest s) = Some (Inr layers, g))"
proof (cases "text_in (g_files (sb_guest s)) ''kento-image''")
  case None
  then show ?thesis using assms by (auto simp: scrub_resolve_def filesP_def bindP.simps intro!: exI [where x = "sb_guest s"])
next
  case (Some img)
  then obtain lr g where l: "layers_of (sh_os h) img (sb_guest s) = Some (lr, g)"
    and x: "\<And>e. lr = Inl e \<Longrightarrow> x = Inl e \<and> s1 = s\<lparr>sb_guest := g\<rparr>"
    using assms by (auto simp: scrub_resolve_def filesP_def bindP_Some onG_Some)
  show ?thesis using x Some l keepsD [OF keeps_layers_of l] by (cases lr) auto
qed

text \<open>
  C9. A scrub changes nothing of the instance unless it was not running and the layers of its image could be resolved: refused or
  failing before that, it leaves the metadata, the writable layer, the seed and the configuration as they are.
\<close>

theorem scrub_resolves_first:
  assumes "reset h cdir name gm s = Some (r, s')"
  shows "sides s' = sides s \<and> g_files (sb_guest s') = g_files (sb_guest s) \<or>
    (\<exists>g1 img layers g2. probeP (sh_os h) (sh_view h) (path_name cdir)
        (case gm of Some m \<Rightarrow> m | None \<Rightarrow> read_mode (g_files (sb_guest s)) ''lxc'') (sb_guest s) = Some (Inr False, g1) \<and>
      text_in (g_files (sb_guest s)) ''kento-image'' = Some img \<and> layers_of (sh_os h) img g1 = Some (Inr layers, g2))"
proof (cases "sh_root h")
  case True
  let ?mode = "case gm of Some m \<Rightarrow> m | None \<Rightarrow> read_mode (g_files (sb_guest s)) ''lxc''"
  from assms True obtain k where run: "bindP (scrub_checks h (path_name cdir) ?mode) (\<lambda>_. bindP (scrub_resolve h) k) s = Some (r, s')"
    unfolding reset_def filesP_def Let_def seqP_def by (auto simp: bindP.simps [where m = "look f" for f])
  then obtain c s1 where c: "scrub_checks h (path_name cdir) ?mode s = Some (c, s1)"
    and fails: "\<And>e. c = Inl e \<Longrightarrow> s' = s1" and goes: "\<And>u. c = Inr u \<Longrightarrow> bindP (scrub_resolve h) k s1 = Some (r, s')"
    by (subst (asm) bindP_Some) auto
  obtain p g1 where p: "probeP (sh_os h) (sh_view h) (path_name cdir) ?mode (sb_guest s) = Some (p, g1)" "s1 = s\<lparr>sb_guest := g1\<rparr>"
    "g_files g1 = g_files (sb_guest s)" "\<And>u. c = Inr u \<Longrightarrow> p = Inr False" by (rule scrub_checks_result [OF c]) blast
  show ?thesis
  proof (cases c)
    case (Inl e)
    with fails p(2,3) show ?thesis by simp
  next
    case (Inr u)
    then obtain x s2 where x: "scrub_resolve h s1 = Some (x, s2)" "\<And>e. x = Inl e \<Longrightarrow> s' = s2"
      using goes by (auto simp: bindP_Some)
    from scrub_resolve_result [OF x(1)] show ?thesis
      using x(2) p Inr by auto
  qed
qed (use assms in \<open>auto simp: reset_def\<close>)

section \<open>A scrub that succeeds\<close>

definition mode_of :: "files \<Rightarrow> string option \<Rightarrow> string" where
  "mode_of fs gm = (case gm of Some m \<Rightarrow> m | None \<Rightarrow> read_mode fs ''lxc'')"

definition state_dir_of :: "files \<Rightarrow> ppath \<Rightarrow> ppath" where
  "state_dir_of fs cdir = (case text_in fs ''kento-state'' of Some t \<Rightarrow> mk_path t | None \<Rightarrow> cdir)"

lemma filesP_run [simp]: "filesP s = Some (Inr (g_files (sb_guest s)), s)" by (simp add: filesP_def)

lemma reset_steps:
  "reset h cdir name gm s =
    (if \<not> sh_root h then raise_exc StateErrorC
     else let fs = g_files (sb_guest s) in
       seqP (scrub_checks h (path_name cdir) (mode_of fs gm)) (bindP (scrub_resolve h) (\<lambda>(img, layers).
         seqP (scrub_unmount h cdir (state_dir_of fs cdir)) (seqP (scrub_clear h (state_dir_of fs cdir)) (seqP (scrub_inject (mode_of fs gm))
         (seqP (scrub_seed h name) (seqP (onG (put_file ''kento-layers'' (layers @ [LF]))) (seqP (scrub_repin h img name)
         (scrub_hook h cdir (mode_of fs gm) layers (state_dir_of fs cdir) name))))))))) s"
  by (simp add: reset_def bindP_step(1) [OF filesP_run] mode_of_def state_dir_of_def Let_def)

lemma scrub_checks_keeps: "keeps (\<lambda>s. sides s = x) (scrub_checks h dir mode)" "keeps (\<lambda>s. g_files (sb_guest s) = fs) (scrub_checks h dir mode)"
  unfolding scrub_checks_def by (auto intro!: keeps_bindP onG_sides onG_files keeps_probe split: if_splits)

lemma scrub_resolve_keeps: "keeps (\<lambda>s. sides s = x) (scrub_resolve h)"
  unfolding scrub_resolve_def whenP_def by (auto intro!: keeps_bindP keeps_seqP onG_sides split: option.splits)

lemma scrub_resolve_ok:
  assumes "scrub_resolve h s = Some (Inr (img, layers), s')" "f \<noteq> ''kento-image-id''"
  shows "g_files (sb_guest s') f = g_files (sb_guest s) f"
proof -
  from assms(1) obtain lr li g1 g2 where l: "layers_of (sh_os h) lr (sb_guest s) = Some (Inr layers, g1)"
    "resolve_image_id (sh_os h) lr g1 = Some (Inr li, g2)" "s' = s\<lparr>sb_guest := g2\<rparr> \<or> s' = s\<lparr>sb_guest := g2\<lparr>g_files := (g_files g2)(''kento-image-id'' \<mapsto> li @ [LF])\<rparr>\<rparr>"
    by (auto simp: scrub_resolve_def bindP_Some seqP_Some onG_Some whenP_def put_file_def split: option.splits if_splits)
  have "g_files g2 = g_files (sb_guest s)" using keepsD [OF keeps_layers_of l(1)] keepsD [OF keeps_resolve_id l(2)] by blast
  with l(3) assms(2) show ?thesis by auto
qed

lemma scrub_clear_ok:
  assumes "scrub_clear h sd s = Some (Inr (), s')"
  shows "sides s' = (clean, clean, sb_seed s, sb_confs s)" "g_files (sb_guest s') = (g_files (sb_guest s))(''kento-portfwd-active'' := None)"
  using assms by (auto simp: scrub_clear_def seqP_Some on_dirs_Some onG_Some drop_file_def sides_def dest!: clear_ok)

lemma scrub_clear_runs:
  assumes "sh_faults h = (\<lambda>_. no_faults)"
  shows "\<exists>s'. scrub_clear h sd s = Some (Inr (), s')"
  using assms by (simp add: scrub_clear_def seqP_def bindP.simps on_upper_def on_work_def clear_total onG_def drop_file_def)

lemma write_upper_run [simp]:
  "write_upper f s = Some (Inr (), s\<lparr>sb_upper := (sb_upper s)\<lparr>dr_cur := Some (f (case dr_cur (sb_upper s) of Some u \<Rightarrow> u | None \<Rightarrow> Map.empty))\<rparr>\<rparr>)"
  by (simp add: write_upper_def)

lemma opt_write:
  assumes "dr_cur (sb_upper s) = Some u"
  shows "(case o1 of Some n \<Rightarrow> write_upper (f n) | None \<Rightarrow> give ()) s =
      Some (Inr (), s\<lparr>sb_upper := (sb_upper s)\<lparr>dr_cur := Some (case o1 of Some n \<Rightarrow> f n u | None \<Rightarrow> u)\<rparr>\<rparr>)"
    "whenP b (write_upper k) s = Some (Inr (), s\<lparr>sb_upper := (sb_upper s)\<lparr>dr_cur := Some (if b then k u else u)\<rparr>\<rparr>)"
proof -
  have "s\<lparr>sb_upper := (sb_upper s)\<lparr>dr_cur := Some u\<rparr>\<rparr> = s" using assms by (cases s; cases "sb_upper s") auto
  then show "(case o1 of Some n \<Rightarrow> write_upper (f n) | None \<Rightarrow> give ()) s =
      Some (Inr (), s\<lparr>sb_upper := (sb_upper s)\<lparr>dr_cur := Some (case o1 of Some n \<Rightarrow> f n u | None \<Rightarrow> u)\<rparr>\<rparr>)"
    "whenP b (write_upper k) s = Some (Inr (), s\<lparr>sb_upper := (sb_upper s)\<lparr>dr_cur := Some (if b then k u else u)\<rparr>\<rparr>)"
    using assms by (simp_all add: whenP_def split: option.split)
qed

lemma paths_apart:
  "distinct [HOSTNAME_PATH, STATIC_PATH, RESOLVED_PATH, LOCALTIME_PATH, TIMEZONE_PATH, ENVIRONMENT_PATH]"
  by (simp add: HOSTNAME_PATH_def STATIC_PATH_def RESOLVED_PATH_def LOCALTIME_PATH_def TIMEZONE_PATH_def ENVIRONMENT_PATH_def)

text \<open>A line of a unit file for a value that is there and not empty.\<close>

definition setting :: "string \<Rightarrow> string option \<Rightarrow> string" where
  "setting key v = (if truthy v then key @ the v @ [LF] else [])"

definition static_text :: "(string \<rightharpoonup> string) \<Rightarrow> string \<Rightarrow> string option" where
  "static_text net mode = map_option (\<lambda>ip.
     ''[Match]'' @ [LF] @ (if mode = ''vm'' \<or> mode = ''pve-vm'' then ''Type=ether'' else ''Name=eth0'') @ [LF, LF] @
     ''[Network]'' @ [LF] @ ''Address='' @ ip @ [LF] @ setting ''Gateway='' (net ''gateway'') @ setting ''DNS='' (net ''dns'') @
     setting ''Domains='' (net ''searchdomain'')) (net ''ip'')"

definition resolver_text :: "(string \<rightharpoonup> string) \<Rightarrow> string option" where
  "resolver_text net =
     (if net ''ip'' = None \<and> (truthy (net ''dns'') \<or> truthy (net ''searchdomain''))
      then Some (''[Resolve]'' @ [LF] @ setting ''DNS='' (net ''dns'') @ setting ''Domains='' (net ''searchdomain'')) else None)"

lemma unit_texts:
  "static_text net mode = map_option (\<lambda>ip. network_text ip (net ''gateway'') (net ''dns'') (net ''searchdomain'') mode) (net ''ip'')"
  "resolver_text net = (if net ''ip'' = None \<and> (truthy (net ''dns'') \<or> truthy (net ''searchdomain''))
     then Some (resolved_text (net ''dns'') (net ''searchdomain'')) else None)"
  by (simp_all add: static_text_def resolver_text_def network_text_def resolved_text_def setting_def cong: map_option_cong)

text \<open>
  What a freshly injected layer holds: each of the six files the injection may write has exactly the text the metadata
  calls for, or is not there when they call for none, and there is no other file.
\<close>

definition injected :: "files \<Rightarrow> (string \<rightharpoonup> string) \<Rightarrow> string \<Rightarrow> files \<Rightarrow> bool" where
  "injected fs net mode u \<longleftrightarrow>
     u HOSTNAME_PATH = map_option (\<lambda>n. n @ [LF]) (text_in fs ''kento-name'') \<and> u STATIC_PATH = static_text net mode \<and>
     u RESOLVED_PATH = resolver_text net \<and>
     u LOCALTIME_PATH = map_option (\<lambda>t. ''/usr/share/zoneinfo/'' @ t) (text_in fs ''kento-tz'') \<and>
     u TIMEZONE_PATH = map_option (\<lambda>t. t @ [LF]) (text_in fs ''kento-tz'') \<and>
     u ENVIRONMENT_PATH = map_option (\<lambda>t. py_join [LF] (py_splitlines t) @ [LF]) (text_in fs ''kento-env'') \<and>
     dom u \<subseteq> {HOSTNAME_PATH, STATIC_PATH, RESOLVED_PATH, LOCALTIME_PATH, TIMEZONE_PATH, ENVIRONMENT_PATH}"

lemma scrub_inject_ok:
  assumes "scrub_inject mode s = Some (Inr (), s')" "sb_upper s = clean"
  shows "\<exists>u net. read_net (g_files (sb_guest s)) = Inr net \<and> s' = s\<lparr>sb_upper := \<lparr>dr_cur = Some u, dr_old = None\<rparr>\<rparr> \<and>
    injected (g_files (sb_guest s)) net mode u"
proof -
  let ?fs = "g_files (sb_guest s)"
  from assms(1) obtain net where net: "read_net ?fs = Inr net"
    by (cases "read_net ?fs") (auto simp: scrub_inject_def bindP_Some seqP_Some)
  have none: "net = Map.empty" if "?fs ''kento-net'' = None" using net that by (simp add: read_net_def text_in_def)
  define u1 where "u1 = (case text_in ?fs ''kento-name'' of Some n \<Rightarrow> inject_hostname n Map.empty | None \<Rightarrow> Map.empty)"
  define u2 where "u2 = (if ?fs ''kento-net'' \<noteq> None then inject_net net mode u1 else u1)"
  define u3 where "u3 = (case text_in ?fs ''kento-tz'' of Some tz \<Rightarrow> inject_timezone tz u2 | None \<Rightarrow> u2)"
  define u4 where "u4 = (case text_in ?fs ''kento-env'' of Some t \<Rightarrow> inject_env (py_splitlines t) u3 | None \<Rightarrow> u3)"
  define st where "st u = s\<lparr>sb_upper := \<lparr>dr_cur = Some u, dr_old = None\<rparr>\<rparr>" for u
  have st: "dr_cur (sb_upper (st u)) = Some u" "(st u)\<lparr>sb_upper := (sb_upper (st u))\<lparr>dr_cur := Some v\<rparr>\<rparr> = st v" for u v by (simp_all add: st_def)
  have s: "s = st Map.empty" using assms(2) by (cases s) (simp add: st_def clean_def)
  have w1: "(case text_in ?fs ''kento-name'' of Some n \<Rightarrow> write_upper (inject_hostname n) | None \<Rightarrow> give ()) s = Some (Inr (), st u1)"
    using opt_write(1) [OF st(1), of inject_hostname "text_in ?fs ''kento-name''" Map.empty] unfolding st(2) u1_def [symmetric] by (simp only: s [symmetric])
  have w2: "whenP (?fs ''kento-net'' \<noteq> None) (write_upper (inject_net net mode)) (st u1) = Some (Inr (), st u2)"
    using opt_write(2) [OF st(1), of "?fs ''kento-net'' \<noteq> None" "inject_net net mode" u1] unfolding st(2) u2_def [symmetric] by simp
  have w3: "(case text_in ?fs ''kento-tz'' of Some tz \<Rightarrow> write_upper (inject_timezone tz) | None \<Rightarrow> give ()) (st u2) = Some (Inr (), st u3)"
    using opt_write(1) [OF st(1), of inject_timezone "text_in ?fs ''kento-tz''" u2] unfolding st(2) u3_def [symmetric] by simp
  have w4: "(case text_in ?fs ''kento-env'' of Some t \<Rightarrow> write_upper (inject_env (py_splitlines t)) | None \<Rightarrow> give ()) (st u3) = Some (Inr (), st u4)"
    using opt_write(1) [OF st(1), of "\<lambda>t. inject_env (py_splitlines t)" "text_in ?fs ''kento-env''" u3] unfolding st(2) u4_def [symmetric] by simp
  have "scrub_inject mode s = Some (Inr (), st u4)"
    by (simp add: scrub_inject_def seqP_def bindP.simps w1 w2 w3 w4 net del: not_None_eq)
  then have "s' = st u4" using assms(1) by simp
  then have "s' = s\<lparr>sb_upper := \<lparr>dr_cur = Some u4, dr_old = None\<rparr>\<rparr>" by (simp add: st_def)
  moreover have "injected ?fs net mode u4"
  proof -
    note ne = paths_apart [simplified] paths_apart [THEN distinct_rev [THEN iffD2], simplified]
    have u4: "u4 p = (if p = ENVIRONMENT_PATH \<and> text_in ?fs ''kento-env'' \<noteq> None
        then map_option (\<lambda>t. py_join [LF] (py_splitlines t) @ [LF]) (text_in ?fs ''kento-env'') else u3 p)" for p
      by (simp add: u4_def inject_env_def split: option.split)
    have u3: "u3 p = (if text_in ?fs ''kento-tz'' = None then u2 p
        else if p = TIMEZONE_PATH then map_option (\<lambda>t. t @ [LF]) (text_in ?fs ''kento-tz'')
        else if p = LOCALTIME_PATH then Some (''/usr/share/zoneinfo/'' @ the (text_in ?fs ''kento-tz'')) else u2 p)" for p
      using ne by (simp add: u3_def inject_timezone_def split: option.split)
    have u2: "u2 p = (if p = STATIC_PATH \<and> net ''ip'' \<noteq> None then static_text net mode
        else if p = RESOLVED_PATH \<and> resolver_text net \<noteq> None then resolver_text net else u1 p)" for p
      using none ne by (auto simp: u2_def inject_net_def inject_network_config_def unit_texts split: option.split)
    have u1: "u1 p = (if p = HOSTNAME_PATH then map_option (\<lambda>n. n @ [LF]) (text_in ?fs ''kento-name'') else None)" for p
      by (simp add: u1_def inject_hostname_def split: option.split)
    have "u4 p = None" if "p \<notin> {HOSTNAME_PATH, STATIC_PATH, RESOLVED_PATH, LOCALTIME_PATH, TIMEZONE_PATH, ENVIRONMENT_PATH}" for p
      using that by (simp add: u4 u3 u2 u1)
    then have "dom u4 \<subseteq> {HOSTNAME_PATH, STATIC_PATH, RESOLVED_PATH, LOCALTIME_PATH, TIMEZONE_PATH, ENVIRONMENT_PATH}"
      by (intro subsetI) (metis domIff)
    moreover have "u4 HOSTNAME_PATH = map_option (\<lambda>n. n @ [LF]) (text_in ?fs ''kento-name'')" using ne by (simp add: u4 u3 u2 u1)
    moreover have "u4 STATIC_PATH = static_text net mode" using ne by (simp add: u4 u3 u2 u1 static_text_def)
    moreover have "u4 RESOLVED_PATH = resolver_text net" using ne by (simp add: u4 u3 u2 u1)
    moreover have "u4 LOCALTIME_PATH = map_option (\<lambda>t. ''/usr/share/zoneinfo/'' @ t) (text_in ?fs ''kento-tz'')"
      using ne by (cases "text_in ?fs ''kento-tz''") (simp_all add: u4 u3 u2 u1)
    moreover have "u4 TIMEZONE_PATH = map_option (\<lambda>t. t @ [LF]) (text_in ?fs ''kento-tz'')" using ne by (simp add: u4 u3 u2 u1)
    moreover have "u4 ENVIRONMENT_PATH = map_option (\<lambda>t. py_join [LF] (py_splitlines t) @ [LF]) (text_in ?fs ''kento-env'')"
      using ne by (simp add: u4 u3 u2 u1)
    ultimately show ?thesis by (simp add: injected_def)
  qed
  ultimately show ?thesis using net by blast
qed

lemma reset_ok:
  assumes "reset h cdir name gm s = Some (Inr (), s')"
  obtains s1 img layers s2 s3 s4 s5 s6 s8 where
    "scrub_checks h (path_name cdir) (mode_of (g_files (sb_guest s)) gm) s = Some (Inr (), s1)"
    "scrub_resolve h s1 = Some (Inr (img, layers), s2)"
    "scrub_unmount h cdir (state_dir_of (g_files (sb_guest s)) cdir) s2 = Some (Inr (), s3)"
    "scrub_clear h (state_dir_of (g_files (sb_guest s)) cdir) s3 = Some (Inr (), s4)"
    "scrub_inject (mode_of (g_files (sb_guest s)) gm) s4 = Some (Inr (), s5)"
    "scrub_seed h name s5 = Some (Inr (), s6)"
    "scrub_repin h img name (s6\<lparr>sb_guest := (sb_guest s6)\<lparr>g_files := (g_files (sb_guest s6))(''kento-layers'' \<mapsto> layers @ [LF])\<rparr>\<rparr>) = Some (Inr (), s8)"
    "scrub_hook h cdir (mode_of (g_files (sb_guest s)) gm) layers (state_dir_of (g_files (sb_guest s)) cdir) name s8 = Some (Inr (), s')"
  using assms by (auto simp: reset_steps Let_def seqP_Some bindP_Some onG_Some put_file_def split: if_splits)

lemma before_clear:
  assumes "scrub_checks h dir mode s = Some (Inr (), s1)" "scrub_resolve h s1 = Some (Inr (img, layers), s2)"
    "scrub_unmount h cdir sd s2 = Some (Inr (), s3)" "scrub_clear h sd s3 = Some (Inr (), s4)"
  shows "sides s4 = (clean, clean, sb_seed s, sb_confs s)"
    "f \<noteq> ''kento-image-id'' \<Longrightarrow> f \<noteq> ''kento-portfwd-active'' \<Longrightarrow> g_files (sb_guest s4) f = g_files (sb_guest s) f"
proof -
  have "sides s3 = sides s"
    using keepsD [OF scrub_checks_keeps(1) assms(1)] keepsD [OF scrub_resolve_keeps assms(2)] keepsD [OF scrub_unmount_keeps(1) assms(3)] by blast
  then show "sides s4 = (clean, clean, sb_seed s, sb_confs s)" using scrub_clear_ok(1) [OF assms(4)] by (simp add: sides_def)
  have "g_files (sb_guest s1) = g_files (sb_guest s)" using keepsD [OF scrub_checks_keeps(2) assms(1)] by blast
  moreover have "g_files (sb_guest s3) = g_files (sb_guest s2)" using keepsD [OF scrub_unmount_keeps(2) assms(3)] by blast
  ultimately show "f \<noteq> ''kento-image-id'' \<Longrightarrow> f \<noteq> ''kento-portfwd-active'' \<Longrightarrow> g_files (sb_guest s4) f = g_files (sb_guest s) f"
    using scrub_resolve_ok [OF assms(2)] scrub_clear_ok(2) [OF assms(4)] by simp
qed

lemma texts_kept:
  assumes "\<forall>f. f \<noteq> ''kento-image-id'' \<longrightarrow> f \<noteq> ''kento-portfwd-active'' \<longrightarrow> fs' f = fs f"
  shows "read_net fs' = read_net fs" "injected fs' net mode u = injected fs net mode u"
    "f \<noteq> ''kento-image-id'' \<Longrightarrow> f \<noteq> ''kento-portfwd-active'' \<Longrightarrow> text_in fs' f = text_in fs f"
  using assms by (simp_all add: read_net_def injected_def text_in_def)

text \<open>The steps after the injection leave the writable layer, and the record of the layers, alone.\<close>

lemma keeps_alter: "(\<And>s. P s \<Longrightarrow> P (f s)) \<Longrightarrow> keeps P (alter f)" by (simp add: keeps_def)

lemma scrub_seed_keeps: "keeps (\<lambda>s. (sb_upper s, sb_work s, sb_confs s, sb_guest s) = x) (scrub_seed h name)"
  unfolding scrub_seed_def by (auto intro!: keeps_bindP keeps_alter split: if_splits)

lemma scrub_repin_keeps: "keeps (\<lambda>s. sides s = x) (scrub_repin h img name)" "keeps (\<lambda>s. g_files (sb_guest s) = fs) (scrub_repin h img name)"
  unfolding scrub_repin_def by (auto intro!: keeps_bindP onG_sides onG_files keeps_repin)

lemma keeps_put_other: "f \<noteq> k \<Longrightarrow> keeps (\<lambda>g. g_files g k = v) (put_file f t)"
  by (simp add: keeps_def put_file_def)

lemma keeps_snippets: "keeps (\<lambda>g. g_files g = fs) (write_lxc_snippets_wrapper os disk conf cfg vmid p known)"
  unfolding write_lxc_snippets_wrapper_def write_wrapper_def find_snippets_dir_def
  by (auto intro!: keeps_bindP keeps_seqP keeps_files split: option.splits prod.splits)

lemma keeps_weaken: "(\<And>fs. keeps (\<lambda>g. g_files g = fs) m) \<Longrightarrow> keeps (\<lambda>g. Q (g_files g)) m"
  unfolding keeps_def by metis

lemma scrub_args_keeps: "keeps (\<lambda>s. (sb_upper s, sb_work s, g_files (sb_guest s) ''kento-layers'') = x) (scrub_args cdir)"
proof -
  have "fs' ''kento-layers'' = fs ''kento-layers''" if "sync_qm_args_to_memory conf cdir fs kvm = Inr (y, conf', fs')" for conf fs kvm y conf' fs'
    using that by (auto simp: sync_qm_args_to_memory_def Let_def split: option.splits)
  then show ?thesis
    by (auto simp: scrub_args_def keeps_def bindP_Some bindP_step(1) split: option.splits)
qed

lemma scrub_hook_keeps:
  "keeps (\<lambda>s. (sb_upper s, sb_work s, g_files (sb_guest s) ''kento-layers'') = x) (scrub_hook h cdir mode layers sd name)"
proof -
  let ?P = "\<lambda>s. (sb_upper s, sb_work s, g_files (sb_guest s) ''kento-layers'') = x"
  have on: "keeps ?P (onG m)" if "\<And>v. keeps (\<lambda>g. g_files g ''kento-layers'' = v) m" for m
  proof (unfold keeps_def, intro allI impI)
    fix s r s' assume s: "?P s" "onG m s = Some (r, s')"
    then obtain g where g: "m (sb_guest s) = Some (r, g)" "s' = s\<lparr>sb_guest := g\<rparr>" by (auto simp: onG_Some)
    from keepsD [OF that g(1)] have "g_files g ''kento-layers'' = g_files (sb_guest s) ''kento-layers''" by blast
    with g(2) s(1) show "?P s'" by simp
  qed
  have put: "keeps (\<lambda>g. g_files g ''kento-layers'' = v) (put_file ''kento-hook'' t)" for v t by (rule keeps_put_other) simp
  have "keeps ?P (onG (write_vm_hook (os_link (sh_os h)) (sh_vm_rest h) cdir layers name sd))"
    "keeps ?P (onG (write_hook (os_link (sh_os h)) (sh_hook h) cdir layers name (Some sd)))"
    unfolding write_vm_hook_def write_hook_def by (auto intro!: on keeps_bindP put)
  moreover have "keeps ?P (onG (write_lxc_snippets_wrapper (sh_os h) (sh_disk h) (sh_vm_conf h) (sh_storage_cfg h) vmid p known))" for vmid p known
    by (rule on, rule keeps_weaken, rule keeps_snippets)
  ultimately show ?thesis
    unfolding scrub_hook_def whenP_def by (auto intro!: keeps_seqP keeps_bindP scrub_args_keeps split: option.splits)
qed

text \<open>
  C4. A scrub that succeeds leaves nothing of the old writable layer: of the six files an injection may write each has exactly the text
  the metadata calls for, or is not there when they call for none (the resolver's file is there for a recorded resolver without an
  address, the time zone is a link and a file), and there is no other file.  The host name is the recorded name whatever host name was
  set, the work directory is new and no copy remains.
\<close>

theorem scrub_forgets:
  assumes "reset h cdir name gm s = Some (Inr (), s')"
  shows "\<exists>u net. sb_upper s' = \<lparr>dr_cur = Some u, dr_old = None\<rparr> \<and> sb_work s' = clean \<and> read_net (g_files (sb_guest s)) = Inr net \<and>
    injected (g_files (sb_guest s)) net (mode_of (g_files (sb_guest s)) gm) u"
  using assms
proof (cases rule: reset_ok)
  case (1 s1 img layers s2 s3 s4 s5 s6 s8)
  note b = before_clear [OF 1(1-4)]
  have "\<forall>f. f \<noteq> ''kento-image-id'' \<longrightarrow> f \<noteq> ''kento-portfwd-active'' \<longrightarrow> g_files (sb_guest s4) f = g_files (sb_guest s) f" using b(2) by blast
  note t = texts_kept(1,2) [OF this]
  from b(1) have "sb_upper s4 = clean" "sb_work s4 = clean" by (simp_all add: sides_def)
  with scrub_inject_ok [OF 1(5)] obtain u net where u: "read_net (g_files (sb_guest s)) = Inr net"
    "s5 = s4\<lparr>sb_upper := \<lparr>dr_cur = Some u, dr_old = None\<rparr>\<rparr>" "injected (g_files (sb_guest s)) net (mode_of (g_files (sb_guest s)) gm) u"
    unfolding t by blast
  have "sb_upper s6 = sb_upper s5 \<and> sb_work s6 = sb_work s5" using keepsD [OF scrub_seed_keeps 1(6)] by simp
  moreover have "sb_upper s8 = sb_upper s6 \<and> sb_work s8 = sb_work s6"
    using keepsD [OF scrub_repin_keeps(1) 1(7)] by (simp add: sides_def)
  moreover have "sb_upper s' = sb_upper s8 \<and> sb_work s' = sb_work s8" using keepsD [OF scrub_hook_keeps 1(8)] by simp
  ultimately show ?thesis using u \<open>sb_work s4 = clean\<close> by auto
qed

text \<open>
  One line without an equals sign in the recorded network makes a scrub raise after it has cleared the writable layer: the
  layer is left with at most the host name, and the record of the layers and the hook stay those of the old image.
\<close>

theorem bad_net_half_scrubbed:
  assumes "sh_root h" "scrub_checks h (path_name cdir) (mode_of (g_files (sb_guest s)) gm) s = Some (Inr (), s1)"
    "scrub_resolve h s1 = Some (Inr (img, layers), s2)" "scrub_unmount h cdir (state_dir_of (g_files (sb_guest s)) cdir) s2 = Some (Inr (), s3)"
    "sh_faults h = (\<lambda>_. no_faults)"
    and net: "text_in (g_files (sb_guest s)) ''kento-net'' = Some t" "l \<in> set (py_splitlines t)" "CHR ''='' \<notin> set l"
  shows "\<exists>s' u. reset h cdir name gm s = Some (Inl ValueErrorC, s') \<and> dr_cur (sb_upper s') = Some u \<and> dom u \<subseteq> {HOSTNAME_PATH} \<and>
    sb_work s' = clean \<and> g_files (sb_guest s') ''kento-layers'' = g_files (sb_guest s) ''kento-layers'' \<and>
    g_files (sb_guest s') ''kento-hook'' = g_files (sb_guest s) ''kento-hook''"
proof -
  obtain s4 where s4: "scrub_clear h (state_dir_of (g_files (sb_guest s)) cdir) s3 = Some (Inr (), s4)"
    using scrub_clear_runs [OF assms(5)] by blast
  note b = before_clear [OF assms(2-4) s4]
  have bad: "parse_net ls = Inl ValueErrorC" if "l \<in> set ls" for ls
    using that
  proof (induction ls)
    case (Cons k ls)
    then show ?case using net(3) by (cases "CHR ''='' \<in> set k") (auto simp: py_partition_def)
  qed simp
  have "\<forall>f. f \<noteq> ''kento-image-id'' \<longrightarrow> f \<noteq> ''kento-portfwd-active'' \<longrightarrow> g_files (sb_guest s4) f = g_files (sb_guest s) f" using b(2) by blast
  from texts_kept(1) [OF this] have "read_net (g_files (sb_guest s4)) = Inl ValueErrorC"
    using bad [OF net(2)] net(1) by (simp add: read_net_def)
  moreover from b(1) have up: "sb_upper s4 = clean" "sb_work s4 = clean" by (simp_all add: sides_def)
  let ?u = "case text_in (g_files (sb_guest s4)) ''kento-name'' of Some n \<Rightarrow> inject_hostname n Map.empty | None \<Rightarrow> Map.empty"
  let ?s' = "s4\<lparr>sb_upper := (sb_upper s4)\<lparr>dr_cur := Some ?u\<rparr>\<rparr>"
  have "dr_cur (sb_upper s4) = Some Map.empty" using up by (simp add: clean_def)
  note w = opt_write(1) [OF this, of inject_hostname "text_in (g_files (sb_guest s4)) ''kento-name''"]
  ultimately have inj: "scrub_inject (mode_of (g_files (sb_guest s)) gm) s4 = Some (Inl ValueErrorC, ?s')"
    by (simp add: scrub_inject_def seqP_def bindP.simps w)
  have "reset h cdir name gm s = Some (Inl ValueErrorC, ?s')"
    unfolding reset_steps using assms(1) by (simp add: Let_def seqP_def bindP.simps assms(2-4) s4 inj)
  moreover have "dom ?u \<subseteq> {HOSTNAME_PATH}" by (auto simp: inject_hostname_def split: option.splits)
  ultimately show ?thesis using up b(2) by (intro exI [of _ ?s'] exI [of _ ?u]) simp
qed

text \<open>
  C14. A scrub of a virtual machine under PVE gives it arguments that enable KVM, whatever the arguments were and whatever the
  defaults of the host say, which its creation follows.
\<close>

theorem scrub_enables_kvm:
  assumes "reset h cdir name gm s = Some (Inr (), s')" "mode_of (g_files (sb_guest s)) gm = ''pve-vm''"
    "Option.bind (text_in (g_files (sb_guest s)) ''kento-vmid'') py_int = Some v" "sb_confs s v = Some raw"
    "Option.bind (parse_qm_conf_field (univ_newlines raw) ''memory'') py_int = Some mem"
  shows "\<exists>q. sb_confs s' v = Some (rewrite_args (''args: -enable-kvm -cpu '' @ q) (univ_newlines raw))"
  using assms(1)
proof (cases rule: reset_ok)
  case (1 s1 img layers s2 s3 s4 s5 s6 s8)
  note b = before_clear [OF 1(1-4)]
  from b(1) have "sb_upper s4 = clean" "sb_confs s4 = sb_confs s" by (simp_all add: sides_def)
  with scrub_inject_ok [OF 1(5)] have c5: "sb_confs s5 = sb_confs s" "sb_guest s5 = sb_guest s4" by auto
  have c6: "sb_confs s6 = sb_confs s5 \<and> sb_guest s6 = sb_guest s5" using keepsD [OF scrub_seed_keeps 1(6)] by simp
  have c8: "sb_confs s8 = sb_confs s" "g_files (sb_guest s8) = (g_files (sb_guest s4))(''kento-layers'' \<mapsto> layers @ [LF])"
    using keepsD [OF scrub_repin_keeps(1) 1(7)] keepsD [OF scrub_repin_keeps(2) 1(7)] c5 c6 by (auto simp: sides_def)
  then have vm: "text_in (g_files (sb_guest s8)) ''kento-vmid'' = text_in (g_files (sb_guest s)) ''kento-vmid''" by (simp add: text_in_def b(2))
  from 1(8) assms(2) obtain s9 where s9: "onG (write_vm_hook (os_link (sh_os h)) (sh_vm_rest h) cdir layers name (state_dir_of (g_files (sb_guest s)) cdir)) s8 = Some (Inr (), s9)"
    "scrub_args cdir s9 = Some (Inr (), s')"
    by (auto simp: scrub_hook_def seqP_Some bindP_Some split: if_splits)
  from s9(1) have "sb_confs s9 = sb_confs s" "g_files (sb_guest s9) ''kento-vmid'' = g_files (sb_guest s8) ''kento-vmid''"
    using c8(1) by (auto simp: onG_Some write_vm_hook_def bindP_Some put_file_def)
  with vm assms(3,4) have at: "Option.bind (text_in (g_files (sb_guest s9)) ''kento-vmid'') py_int = Some v" "sb_confs s9 v = Some raw"
    by (auto simp: text_in_def)
  from s9(2) at obtain y conf fs where y: "sync_qm_args_to_memory (Some raw) cdir (g_files (sb_guest s9)) True = Inr (y, conf, fs)" "sb_confs s' v = conf"
    by (auto simp: scrub_args_def bindP_Some bindP_step(1) [OF filesP_run])
  obtain m where m: "parse_qm_conf_field (univ_newlines raw) ''memory'' = Some m" "py_int m = Some mem"
    using assms(5) by (cases "parse_qm_conf_field (univ_newlines raw) ''memory''") auto
  with y(1) obtain q where q: "generate_qm_args cdir (g_files (sb_guest s9)) mem True = Inr q" "conf = Some (rewrite_args (''args: '' @ q) (univ_newlines raw))"
    by (cases "generate_qm_args cdir (g_files (sb_guest s9)) mem True") (auto simp: sync_qm_args_to_memory_def Let_def)
  have "\<exists>r. q = ''-enable-kvm -cpu '' @ r"
    using q(1) by (auto simp: generate_qm_args_def cpu_parts_def Let_def split: prod.splits)
  with q(2) y(2) show ?thesis by auto
qed

section \<open>Instances of the properties\<close>

definition quiet_os :: "unit os" where
  "quiet_os = layered_os\<lparr>os_run := (\<lambda>cwd argv w. if hd argv = ''podman'' then os_run layered_os cwd argv w else (Inr (1, []), w))\<rparr>"

definition sample_scrub_host :: "unit scrub_host" where
  "sample_scrub_host = \<lparr>sh_root = True, sh_os = quiet_os,
     sh_view = (\<lambda>_. Inr \<lparr>node_name = Some ''n'', conf_files = (\<lambda>_. False), run_status = (\<lambda>_. None), vm_alive = (\<lambda>_. False)\<rparr>),
     sh_disk = \<lparr>hd_write = (\<lambda>_ _ w. (Inr (), w)), hd_unlink = (\<lambda>_ w. (Inr (), w))\<rparr>, sh_idmap = (\<lambda>_ _. None), sh_rm_idmap = (\<lambda>_ w. w),
     sh_faults = (\<lambda>_. no_faults), sh_hook = ''@@LAYERS@@'', sh_vm_rest = [], sh_sha256 = id, sh_host_keys = None, sh_vm_conf = None,
     sh_storage_cfg = None\<rparr>"

definition scrub_files :: "string \<Rightarrow> files" where
  "scrub_files mode = [''kento-image'' \<mapsto> ''web'' @ [LF], ''kento-name'' \<mapsto> ''web'' @ [LF], ''kento-hostname'' \<mapsto> ''box'' @ [LF],
     ''kento-mode'' \<mapsto> mode @ [LF], ''kento-layers'' \<mapsto> ''old'', ''kento-vmid'' \<mapsto> ''107'' @ [LF]]"

definition sample_scrub :: "files \<Rightarrow> unit scrub" where
  "sample_scrub fs = \<lparr>sb_guest = \<lparr>g_files = fs, g_world = ()\<rparr>, sb_upper = \<lparr>dr_cur = Some [''etc/hostname'' \<mapsto> ''box'', ''root/x'' \<mapsto> ''data''], dr_old = None\<rparr>,
     sb_work = \<lparr>dr_cur = Some Map.empty, dr_old = None\<rparr>, sb_seed = Map.empty, sb_confs = [107 \<mapsto> ''memory: 8'' @ [LF]]\<rparr>"

definition scrubbed :: "((exc + 'a) \<times> 'w scrub) option \<Rightarrow> bool" where
  "scrubbed r = (case r of Some (Inr _, _) \<Rightarrow> True | _ \<Rightarrow> False)"

lemma scrubbed_Some: "scrubbed r \<Longrightarrow> \<exists>x s'. r = Some (Inr x, s')"
  by (auto simp: scrubbed_def split: option.splits sum.splits prod.splits)

lemma sample_scrubbed:
  "scrubbed (reset sample_scrub_host (mk_path ''/c/web'') ''web'' None (sample_scrub (scrub_files ''vm'')))"
  "scrubbed (reset sample_scrub_host (mk_path ''/c/web'') ''web'' None (sample_scrub (scrub_files ''pve-vm'')))"
  by code_simp+

text \<open>An instance with a resolver and a time zone but no address of its own.\<close>

theorem scrub_forgets_witness:
  "\<exists>s' u. reset sample_scrub_host (mk_path ''/c/web'') ''web'' None (sample_scrub ((scrub_files ''vm'')(''kento-net'' \<mapsto> ''dns=9.9.9.9'', ''kento-tz'' \<mapsto> ''UTC''))) =
       Some (Inr (), s') \<and> dr_cur (sb_upper s') = Some u \<and> u HOSTNAME_PATH = Some (''web'' @ [LF]) \<and> u ''root/x'' = None \<and> u STATIC_PATH = None \<and>
     u RESOLVED_PATH = Some (''[Resolve]'' @ [LF] @ ''DNS=9.9.9.9'' @ [LF]) \<and> u LOCALTIME_PATH = Some ''/usr/share/zoneinfo/UTC''"
proof -
  let ?s = "sample_scrub ((scrub_files ''vm'')(''kento-net'' \<mapsto> ''dns=9.9.9.9'', ''kento-tz'' \<mapsto> ''UTC''))"
  have "scrubbed (reset sample_scrub_host (mk_path ''/c/web'') ''web'' None ?s)" by code_simp
  then obtain s' where s': "reset sample_scrub_host (mk_path ''/c/web'') ''web'' None ?s = Some (Inr (), s')"
    using scrubbed_Some by force
  have out: "''root/x'' \<notin> {HOSTNAME_PATH, STATIC_PATH, RESOLVED_PATH, LOCALTIME_PATH, TIMEZONE_PATH, ENVIRONMENT_PATH}"
    by (simp add: HOSTNAME_PATH_def STATIC_PATH_def RESOLVED_PATH_def LOCALTIME_PATH_def TIMEZONE_PATH_def ENVIRONMENT_PATH_def)
  have t: "text_in (g_files (sb_guest ?s)) ''kento-name'' = Some ''web''" "text_in (g_files (sb_guest ?s)) ''kento-tz'' = Some ''UTC''" by code_simp+
  have n: "read_net (g_files (sb_guest ?s)) = Inr net \<Longrightarrow> net = [''dns'' \<mapsto> ''9.9.9.9'']" for net
  proof -
    have "text_in (g_files (sb_guest ?s)) ''kento-net'' = Some ''dns=9.9.9.9''" "py_splitlines ''dns=9.9.9.9'' = [''dns=9.9.9.9'']"
      "py_partition (CHR ''='') ''dns=9.9.9.9'' = (''dns'', True, ''9.9.9.9'')" by code_simp+
    then show "read_net (g_files (sb_guest ?s)) = Inr net \<Longrightarrow> net = [''dns'' \<mapsto> ''9.9.9.9'']" by (simp add: read_net_def)
  qed
  from scrub_forgets [OF s'] obtain u net where u: "dr_cur (sb_upper s') = Some u" "read_net (g_files (sb_guest ?s)) = Inr net"
    "injected (g_files (sb_guest ?s)) net (mode_of (g_files (sb_guest ?s)) None) u" by auto
  with n [OF u(2)] t out s' show ?thesis by (auto simp: injected_def static_text_def resolver_text_def setting_def)
qed

theorem scrub_resolves_first_witness:
  "\<exists>s'. reset sample_scrub_host (mk_path ''/c/web'') ''web'' None (sample_scrub Map.empty) = Some (Inl FileNotFoundErrorC, s') \<and>
     sides s' = sides (sample_scrub Map.empty)"
proof -
  have "(case reset sample_scrub_host (mk_path ''/c/web'') ''web'' None (sample_scrub Map.empty) of Some (Inl e, _) \<Rightarrow> e = FileNotFoundErrorC | _ \<Rightarrow> False)"
    by code_simp
  then obtain s' where s': "reset sample_scrub_host (mk_path ''/c/web'') ''web'' None (sample_scrub Map.empty) = Some (Inl FileNotFoundErrorC, s')"
    by (auto split: option.splits sum.splits prod.splits)
  have "text_in (g_files (sb_guest (sample_scrub Map.empty))) ''kento-image'' = None" by (simp add: sample_scrub_def text_in_def)
  with scrub_resolves_first [OF s'] s' show ?thesis by auto
qed

theorem scrub_enables_kvm_witness:
  "\<exists>s' q. reset sample_scrub_host (mk_path ''/c/web'') ''web'' None (sample_scrub (scrub_files ''pve-vm'')) = Some (Inr (), s') \<and>
     sb_confs s' 107 = Some (rewrite_args (''args: -enable-kvm -cpu '' @ q) (univ_newlines (''memory: 8'' @ [LF])))"
proof -
  obtain s' where s': "reset sample_scrub_host (mk_path ''/c/web'') ''web'' None (sample_scrub (scrub_files ''pve-vm'')) = Some (Inr (), s')"
    using scrubbed_Some [OF sample_scrubbed(2)] by auto
  have "mode_of (g_files (sb_guest (sample_scrub (scrub_files ''pve-vm'')))) None = ''pve-vm''"
    "Option.bind (text_in (g_files (sb_guest (sample_scrub (scrub_files ''pve-vm'')))) ''kento-vmid'') py_int = Some 107"
    "sb_confs (sample_scrub (scrub_files ''pve-vm'')) 107 = Some (''memory: 8'' @ [LF])"
    "Option.bind (parse_qm_conf_field (univ_newlines (''memory: 8'' @ [LF])) ''memory'') py_int = Some 8" by code_simp+
  from scrub_enables_kvm [OF s' this] s' show ?thesis by blast
qed


theorem bad_net_half_scrubbed_witness:
  "\<exists>s' u. reset sample_scrub_host (mk_path ''/c/web'') ''web'' None (sample_scrub ((scrub_files ''vm'')(''kento-net'' \<mapsto> ''10.0.0.2''))) = Some (Inl ValueErrorC, s') \<and>
     dr_cur (sb_upper s') = Some u \<and> dom u \<subseteq> {HOSTNAME_PATH} \<and> g_files (sb_guest s') ''kento-layers'' = Some ''old''"
proof -
  let ?s = "sample_scrub ((scrub_files ''vm'')(''kento-net'' \<mapsto> ''10.0.0.2''))"
  have "scrubbed (bindP (scrub_checks sample_scrub_host (path_name (mk_path ''/c/web'')) (mode_of (g_files (sb_guest ?s)) None)) (\<lambda>_.
      bindP (scrub_resolve sample_scrub_host) (\<lambda>_.
      scrub_unmount sample_scrub_host (mk_path ''/c/web'') (state_dir_of (g_files (sb_guest ?s)) (mk_path ''/c/web'')))) ?s)"
    by code_simp
  from scrubbed_Some [OF this] obtain s1 x s2 s3 where s:
    "scrub_checks sample_scrub_host (path_name (mk_path ''/c/web'')) (mode_of (g_files (sb_guest ?s)) None) ?s = Some (Inr (), s1)"
    "scrub_resolve sample_scrub_host s1 = Some (Inr x, s2)"
    "scrub_unmount sample_scrub_host (mk_path ''/c/web'') (state_dir_of (g_files (sb_guest ?s)) (mk_path ''/c/web'')) s2 = Some (Inr (), s3)"
    by (auto simp: bindP_Some)
  obtain img layers where x: "x = (img, layers)" by (cases x)
  have h: "sh_root sample_scrub_host" "sh_faults sample_scrub_host = (\<lambda>_. no_faults)" by (simp_all add: sample_scrub_host_def)
  have n: "text_in (g_files (sb_guest ?s)) ''kento-net'' = Some ''10.0.0.2''" "''10.0.0.2'' \<in> set (py_splitlines ''10.0.0.2'')"
    "CHR ''='' \<notin> set ''10.0.0.2''" by code_simp+
  have "g_files (sb_guest ?s) ''kento-layers'' = Some ''old''" by code_simp
  with bad_net_half_scrubbed [OF h(1) s(1) s(2) [unfolded x] s(3) h(2) n, of "''web''"] show ?thesis by auto
qed

end
