(* ===== verification/Json.thy ===== *)
theory Json imports Cloudinit begin

text \<open>
  JSON values and the texts \<^verbatim>\<open>json.dumps\<close> makes of them, on one line and with an indentation of two.  Strings and lists of strings are
  written as in \<^verbatim>\<open>Cloudinit\<close>; parsing is left to the users of the values, which take it as an argument.
\<close>

datatype jval = JNull | JStr string | JInt int | JBool bool | JList "jval list" | JObj "(string \<times> jval) list"

definition indent_line :: "nat \<Rightarrow> string" where "indent_line n = LF # replicate n (CHR '' '')"

fun dumps :: "nat \<Rightarrow> jval \<Rightarrow> string" where
  "dumps n JNull = ''null''"
| "dumps n (JStr s) = json_str s"
| "dumps n (JInt k) = int_str k"
| "dumps n (JBool b) = json_bool b"
| "dumps n (JList xs) = (if xs = [] then ''[]''
     else ''['' @ indent_line (n + 2) @ py_join ('','' @ indent_line (n + 2)) (map (dumps (n + 2)) xs) @ indent_line n @ '']'')"
| "dumps n (JObj kvs) = (if kvs = [] then ''{}''
     else ''{'' @ indent_line (n + 2) @
       py_join ('','' @ indent_line (n + 2)) (map (\<lambda>(k, v). json_str k @ '': '' @ dumps (n + 2) v) kvs) @ indent_line n @ ''}'')"

fun dumps_line :: "jval \<Rightarrow> string" where
  "dumps_line JNull = ''null''"
| "dumps_line (JStr s) = json_str s"
| "dumps_line (JInt k) = int_str k"
| "dumps_line (JBool b) = json_bool b"
| "dumps_line (JList xs) = ''['' @ py_join '', '' (map dumps_line xs) @ '']''"
| "dumps_line (JObj kvs) = ''{'' @ py_join '', '' (map (\<lambda>(k, v). json_str k @ '': '' @ dumps_line v) kvs) @ ''}''"

text \<open>
  \<^verbatim>\<open>k in v\<close>: a key of an object, an element of a list, a part of a string; of another value it is a type error.
\<close>

fun jval_in :: "string \<Rightarrow> jval \<Rightarrow> exc + bool" where
  "jval_in k (JObj kvs) = Inr (k \<in> set (map fst kvs))"
| "jval_in k (JList xs) = Inr (JStr k \<in> set xs)"
| "jval_in k (JStr s) = Inr (py_in k s)"
| "jval_in k _ = Inl TypeErrorC"

text \<open>A text on one line is written on one line: every control character is escaped.\<close>

lemma json_char_line: "LF \<notin> set (json_char c)"
proof -
  have hex: "LF \<noteq> hex_char n" if "n < 16" for n
  proof -
    have "(if n < 10 then 48 + n else 87 + n) < 256 \<and> (if n < 10 then 48 + n else 87 + n) \<noteq> 10" using that by simp
    then have "cp (hex_char n) \<noteq> 10" by (simp add: hex_char_def cp_char_of)
    moreover have "cp LF = 10" by code_simp
    ultimately show ?thesis by metis
  qed
  have "cp c div 16 < 16" by (rule less_mult_imp_div_less) (simp add: cp_def nat_of_char_less_256 [of c, simplified])
  then have "LF \<noteq> hex_char (cp c div 16)" "LF \<noteq> hex_char (cp c mod 16)" using hex by simp_all
  moreover have "LF \<notin> {CHR 92, CHR 34, CHR ''n'', CHR ''r'', CHR ''t'', CHR ''b'', CHR ''f'', CHR ''u'', CHR ''0''}" by code_simp
  moreover have "cp LF = 10" by code_simp
  then have "LF \<noteq> c" if "32 \<le> cp c" using that by auto
  ultimately show ?thesis by (simp add: json_char_def)
qed

lemma dumps_line_line: "LF \<notin> set (dumps_line v)"
proof -
  have str: "LF \<notin> set (json_str s)" for s using json_char_line by (auto simp: json_str_def)
  have num: "LF \<notin> set (int_str k)" for k
  proof -
    have "\<not> is_digit LF" by code_simp
    then show ?thesis using nat_str_digits [of LF] by (auto simp: int_str_def)
  qed
  have join: "LF \<notin> set (py_join '', '' xs)" if "\<forall>x \<in> set xs. LF \<notin> set x" for xs
    using that set_py_join [of "'', ''" xs] by (auto simp: subset_iff)
  show ?thesis
  proof (induction v)
    case (JList xs)
    with join [of "map dumps_line xs"] show ?case by auto
  next
    case (JObj kvs)
    have "\<forall>x \<in> set (map (\<lambda>(k, v). json_str k @ '': '' @ dumps_line v) kvs). LF \<notin> set x" using JObj str by fastforce
    from join [OF this] show ?case by simp
  qed (simp_all add: str num json_bool_def)
qed

end
