(* ===== verification/Listing.thy ===== *)
theory Listing imports Snapshot Orphans Json "HOL-Library.AList" begin

text \<open>
  The reports on instances: \<^verbatim>\<open>list.py\<close> and \<^verbatim>\<open>info.py\<close>, the data they gather, their JSON texts and their tables.  The probes of the
  host, \<^verbatim>\<open>du\<close>, \<^verbatim>\<open>ssh-keygen\<close> and the formatted time a directory was changed are arguments; reading a metadata file does not fail.
\<close>

section \<open>The host\<close>

text \<open>The public keys of an instance are the names of the files in its directory of host keys, in order, when there is one.\<close>

record list_host =
  lh_base :: "base \<Rightarrow> ppath"
  lh_conf :: probe
  lh_running :: "base \<times> string \<times> files \<Rightarrow> string \<Rightarrow> exc + bool"
  lh_pubs :: "base \<times> string \<Rightarrow> string list option"
  lh_keygen :: "base \<times> string \<Rightarrow> string \<Rightarrow> exc + (int \<times> string)"
  lh_is_dir :: "string \<Rightarrow> bool"
  lh_du :: "string \<Rightarrow> exc + (int \<times> string)"
  lh_created :: "base \<times> string \<Rightarrow> exc + string"

section \<open>Fingerprints and sizes\<close>

definition key_type :: "string \<Rightarrow> string" where
  "key_type file =
     (let stem = (if file = ''.pub'' then file else take (length file - 4) file); parts = py_split (CHR ''_'') stem
      in if length parts \<ge> 4 \<and> parts ! 0 = ''ssh'' \<and> parts ! 1 = ''host'' then py_join ''_'' (butlast (drop 2 parts)) else stem)"

fun fingerprints_from :: "(string \<Rightarrow> exc + (int \<times> string)) \<Rightarrow> string list \<Rightarrow> (string \<times> string) list \<Rightarrow> exc + ((string \<times> string) list \<times> bool)" where
  "fingerprints_from keygen [] fps = Inr (fps, True)"
| "fingerprints_from keygen (f # fs) fps =
     (case keygen f of
        Inl e \<Rightarrow> if FileNotFoundErrorC \<in> set (mro e) then Inr ([], True) else Inl e
      | Inr (rc, out) \<Rightarrow>
          (let fields = py_words (py_strip out)
           in fingerprints_from keygen fs (if rc = 0 \<and> length fields \<ge> 2 then AList.update (key_type f) (fields ! 1) fps else fps)))"

definition get_ssh_host_key_fingerprints :: "list_host \<Rightarrow> base \<times> string \<Rightarrow> exc + ((string \<times> string) list \<times> bool)" where
  "get_ssh_host_key_fingerprints h bd =
     (case lh_pubs h bd of None \<Rightarrow> Inr ([], False)
      | Some files \<Rightarrow> if files = [] then Inr ([], False) else fingerprints_from (lh_keygen h bd) files [])"

definition get_size :: "list_host \<Rightarrow> string \<Rightarrow> exc + string" where
  "get_size h p = bindE (lh_du h p) (\<lambda>(rc, out).
     if rc \<noteq> 0 then Inr ''?'' else case py_words out of [] \<Rightarrow> Inl IndexErrorC | w # _ \<Rightarrow> Inr w)"

definition list_state_dir :: "list_host \<Rightarrow> base \<times> string \<times> files \<Rightarrow> ppath" where
  "list_state_dir h = (\<lambda>(b, d, fs). case read_meta fs ''kento-state'' of Some t \<Rightarrow> mk_path t | None \<Rightarrow> path_div (lh_base h b) d)"

section \<open>Listing\<close>

record row =
  r_name :: string
  r_type :: string
  r_mode :: string
  r_image :: string
  r_status :: string
  r_extra :: "(string \<times> jval) list"
  r_size :: "string option"

definition shown_mode :: "string \<Rightarrow> string" where "shown_mode mode = (if mode = ''pve'' then ''pve-lxc'' else mode)"
definition family :: "string \<Rightarrow> string" where "family mode = (if mode = ''vm'' \<or> mode = ''pve-vm'' then ''VM'' else ''LXC'')"
definition run_word :: "bool \<Rightarrow> string" where "run_word b = (if b then ''running'' else ''stopped'')"

definition list_status :: "list_host \<Rightarrow> base \<times> string \<times> files \<Rightarrow> string \<Rightarrow> exc + string" where
  "list_status h = (\<lambda>(b, d, fs) mode.
     if is_pve_mode mode then
       bindE (is_orphan (lh_conf h) d fs mode) (\<lambda>o3. case o3 of
           None \<Rightarrow> Inl OSErrorC
         | Some True \<Rightarrow> Inr ''orphan''
         | Some False \<Rightarrow> bindE (lh_running h (b, d, fs) mode) (\<lambda>r. Inr (run_word r)))
     else bindE (lh_running h (b, d, fs) mode) (\<lambda>r. Inr (run_word r)))"

definition vmid_field :: "files \<Rightarrow> (string \<times> jval) list" where
  "vmid_field fs = (case read_meta fs ''kento-vmid'' of None \<Rightarrow> []
     | Some t \<Rightarrow> [(''vmid'', case py_int t of Some n \<Rightarrow> JInt n | None \<Rightarrow> JStr t)])"

definition text_field :: "string \<Rightarrow> string option \<Rightarrow> (string \<times> jval) list" where
  "text_field k v = (if truthy v then [(k, JStr (the v))] else [])"

definition str_list :: "string list \<Rightarrow> jval" where "str_list xs = JList (map JStr xs)"
definition str_obj :: "(string \<times> string) list \<Rightarrow> jval" where "str_obj kvs = JObj (map (\<lambda>(k, v). (k, JStr v)) kvs)"

definition list_env :: "files \<Rightarrow> (string \<times> jval) list" where
  "list_env fs = (case fs ''kento-env'' of None \<Rightarrow> []
     | Some t \<Rightarrow> (let ls = py_splitlines (univ_newlines t) in if ls \<noteq> [] then [(''environment'', str_list ls)] else []))"

definition list_extra :: "list_host \<Rightarrow> base \<times> string \<times> files \<Rightarrow> exc + (string \<times> jval) list" where
  "list_extra h = (\<lambda>(b, d, fs).
     bindE (get_ssh_host_key_fingerprints h (b, d)) (\<lambda>(fps, _).
       Inr (vmid_field fs @ text_field ''mac'' (read_meta fs ''kento-mac'') @ list_env fs @
            (if fps \<noteq> [] then [(''ssh_host_key_fingerprints'', str_obj fps)] else []))))"

definition list_size :: "list_host \<Rightarrow> base \<times> string \<times> files \<Rightarrow> exc + string" where
  "list_size h x =
     (let upper = path_str (path_div (list_state_dir h x) ''upper'') in if lh_is_dir h upper then get_size h upper else Inr ''0'')"

definition list_row :: "list_host \<Rightarrow> bool \<Rightarrow> bool \<Rightarrow> base \<times> string \<times> files \<Rightarrow> exc + row" where
  "list_row h show_size as_json = (\<lambda>(b, d, fs).
     let mode = read_mode fs ''lxc''
     in bindE (list_status h (b, d, fs) mode) (\<lambda>st.
        bindE (if as_json then list_extra h (b, d, fs) else Inr []) (\<lambda>extra.
        bindE (if show_size then bindE (list_size h (b, d, fs)) (\<lambda>z. Inr (Some z)) else Inr None) (\<lambda>size.
          Inr \<lparr>r_name = (case read_meta fs ''kento-name'' of Some n \<Rightarrow> n | None \<Rightarrow> d), r_type = family mode, r_mode = shown_mode mode,
               r_image = (case read_meta fs ''kento-image'' of Some i \<Rightarrow> i | None \<Rightarrow> []), r_status = st, r_extra = extra, r_size = size\<rparr>))))"

text \<open>An entry whose reads fail with an error of the operating system is left out.\<close>

fun list_rows :: "list_host \<Rightarrow> bool \<Rightarrow> bool \<Rightarrow> (base \<times> string \<times> files) list \<Rightarrow> exc + row list" where
  "list_rows h show_size as_json [] = Inr []"
| "list_rows h show_size as_json (x # xs) =
     (case list_row h show_size as_json x of
        Inl e \<Rightarrow> if OSErrorC \<in> set (mro e) then list_rows h show_size as_json xs else Inl e
      | Inr r \<Rightarrow> bindE (list_rows h show_size as_json xs) (\<lambda>rs. Inr (r # rs)))"

definition listed :: "store \<Rightarrow> string option \<Rightarrow> (base \<times> string \<times> files) list" where
  "listed st scope = sort_key (\<lambda>(b, d, fs). d)
     ((if in_scope scope ''lxc'' then with_image LXC_BASE (entries_of st LXC_BASE) else []) @
      (if in_scope scope ''vm'' then with_image VM_BASE (entries_of st VM_BASE) else []))"

definition row_json :: "row \<Rightarrow> (string \<times> jval) list" where
  "row_json r = [(''name'', JStr (r_name r)), (''type'', JStr (r_type r)), (''mode'', JStr (r_mode r)), (''image'', JStr (r_image r)),
     (''status'', JStr (r_status r))] @ r_extra r @ (case r_size r of Some z \<Rightarrow> [(''upper_size'', JStr z)] | None \<Rightarrow> [])"

definition row_cells :: "bool \<Rightarrow> row \<Rightarrow> string list" where
  "row_cells show_size r = [r_name r, r_mode r, r_image r, r_status r] @ (if show_size then [the (r_size r)] else [])"

definition headers :: "bool \<Rightarrow> string list" where
  "headers show_size = [''NAME'', ''TYPE'', ''IMAGE'', ''STATUS''] @ (if show_size then [''UPPER SIZE''] else [])"

definition ljust :: "nat \<Rightarrow> string \<Rightarrow> string" where "ljust w s = s @ replicate (w - length s) (CHR '' '')"

definition widths :: "string list \<Rightarrow> string list list \<Rightarrow> nat list" where
  "widths hs rows = map (\<lambda>i. Max (set (length (hs ! i) # map (\<lambda>r. length (r ! i)) rows))) [0..<length hs]"

definition table_line :: "nat list \<Rightarrow> string list \<Rightarrow> string" where
  "table_line ws cells = py_join ''  '' (map2 ljust ws cells)"

definition render_table :: "string list \<Rightarrow> string list list \<Rightarrow> string" where
  "render_table hs rows =
     (let ws = widths hs rows
      in py_join [LF] ([table_line ws hs, py_join ''  '' (map (\<lambda>w. replicate w (CHR ''-'')) ws)] @ map (table_line ws) rows))"

definition list_containers :: "list_host \<Rightarrow> store \<Rightarrow> string option \<Rightarrow> bool \<Rightarrow> bool \<Rightarrow> exc + string" where
  "list_containers h st scope show_size as_json =
     bindE (list_rows h show_size as_json (listed st scope)) (\<lambda>rows. Inr
       (if as_json then dumps 0 (JList (map (\<lambda>r. JObj (row_json r)) rows))
        else if rows = [] then ''(no instances found)''
        else render_table (headers show_size) (map (row_cells show_size) rows)))"

section \<open>The details of an instance\<close>

record info_data =
  in_name :: string
  in_image :: string
  in_mode :: string
  in_type :: string
  in_status :: string
  in_directory :: string
  in_state :: string
  in_config :: "string option"
  in_vmid :: "int option"
  in_port :: "string option"
  in_net :: "string option"
  in_mac :: "string option"
  in_nesting :: "bool option"
  in_tz :: "string option"
  in_user :: string
  in_env :: "string list option"
  in_layers :: "string list"
  in_created :: string
  in_fps :: "(string \<times> string) list"
  in_qemu :: "string list"
  in_pve :: "string list"
  in_lxc :: "string list"
  in_upper :: "string option"
  in_sizes :: "string option list option"

definition truthy_or_none :: "string option \<Rightarrow> string option" where "truthy_or_none v = (if truthy v then v else None)"

definition layer_size :: "list_host \<Rightarrow> string \<Rightarrow> exc + string option" where
  "layer_size h lp =
     (let p = path_str (mk_path lp) in if lh_is_dir h p then bindE (get_size h p) (\<lambda>z. Inr (Some z)) else Inr None)"

text \<open>The data, and whether there are keys without fingerprints.\<close>

definition gather :: "list_host \<Rightarrow> string \<Rightarrow> base \<times> string \<times> files \<Rightarrow> string \<Rightarrow> bool \<Rightarrow> exc + (info_data \<times> bool)" where
  "gather h name = (\<lambda>(b, d, fs) mode verbose.
     let meta = read_meta fs; cdir = path_div (lh_base h b) d;
         state_dir = (if truthy (meta ''kento-state'') then mk_path (the (meta ''kento-state'')) else cdir);
         layers = (if truthy (meta ''kento-layers'') then py_split (CHR '':'') (the (meta ''kento-layers'')) else []);
         upper = path_str (path_div state_dir ''upper'')
     in bindE (lh_running h (b, d, fs) mode) (\<lambda>up.
        bindE (if truthy (meta ''kento-vmid'') then
                 (case py_int (the (meta ''kento-vmid'')) of Some n \<Rightarrow> Inr (Some n) | None \<Rightarrow> Inl ValueErrorC) else Inr None) (\<lambda>vmid.
        bindE (case lh_created h (b, d) of Inr t \<Rightarrow> Inr t | Inl e \<Rightarrow> if OSErrorC \<in> set (mro e) then Inr ''unknown'' else Inl e) (\<lambda>created.
        bindE (get_ssh_host_key_fingerprints h (b, d)) (\<lambda>(fps, has_keys).
        bindE (if verbose \<and> lh_is_dir h upper then bindE (get_size h upper) (\<lambda>z. Inr (Some z)) else Inr None) (\<lambda>upper_size.
        bindE (if verbose \<and> layers \<noteq> [] then bindE (mapE (layer_size h) layers) (\<lambda>zs. Inr (Some zs)) else Inr None) (\<lambda>sizes.
          Inr (\<lparr>in_name = nonempty_or (meta ''kento-name'') name, in_image = nonempty_or (meta ''kento-image'') ''unknown'',
                in_mode = shown_mode mode, in_type = family mode, in_status = run_word up, in_directory = path_str cdir,
                in_state = path_str state_dir, in_config = truthy_or_none (meta ''kento-config-mode''), in_vmid = vmid,
                in_port = truthy_or_none (meta ''kento-port''), in_net = truthy_or_none (meta ''kento-net''),
                in_mac = truthy_or_none (meta ''kento-mac''), in_nesting = map_option (\<lambda>t. t = ''1'') (meta ''kento-nesting''),
                in_tz = truthy_or_none (meta ''kento-tz''), in_user = nonempty_or (meta ''kento-ssh-user'') ''root'',
                in_env = map_option py_splitlines (truthy_or_none (meta ''kento-env'')), in_layers = layers, in_created = created,
                in_fps = fps, in_qemu = load_passthrough fs ''kento-qemu-args'', in_pve = load_passthrough fs ''kento-pve-args'',
                in_lxc = load_passthrough fs ''kento-lxc-args'', in_upper = upper_size, in_sizes = sizes\<rparr>,
               has_keys \<and> fps = []))))))))"

definition opt_field :: "string \<Rightarrow> ('a \<Rightarrow> jval) \<Rightarrow> 'a option \<Rightarrow> (string \<times> jval) list" where
  "opt_field k f v = (case v of Some x \<Rightarrow> [(k, f x)] | None \<Rightarrow> [])"

definition info_json :: "info_data \<Rightarrow> (string \<times> jval) list" where
  "info_json i =
     [(''name'', JStr (in_name i)), (''image'', JStr (in_image i)), (''mode'', JStr (in_mode i)), (''type'', JStr (in_type i)),
      (''status'', JStr (in_status i)), (''directory'', JStr (in_directory i)), (''state_directory'', JStr (in_state i))] @
     opt_field ''config_mode'' JStr (in_config i) @ opt_field ''vmid'' JInt (in_vmid i) @ opt_field ''port'' JStr (in_port i) @
     opt_field ''network'' JStr (in_net i) @ opt_field ''mac'' JStr (in_mac i) @ opt_field ''nesting'' JBool (in_nesting i) @
     opt_field ''timezone'' JStr (in_tz i) @ [(''ssh_user'', JStr (in_user i))] @ opt_field ''environment'' str_list (in_env i) @
     [(''layer_count'', JInt (int (length (in_layers i)))), (''created'', JStr (in_created i)),
      (''ssh_host_key_fingerprints'', str_obj (in_fps i)), (''qemu_args'', str_list (in_qemu i)), (''pve_args'', str_list (in_pve i)),
      (''lxc_args'', str_list (in_lxc i))] @
     opt_field ''upper_size'' JStr (in_upper i) @
     (case in_sizes i of None \<Rightarrow> []
      | Some zs \<Rightarrow> [(''layers'', str_list (in_layers i)), (''layer_sizes'', JList (map (\<lambda>z. case z of Some t \<Rightarrow> JStr t | None \<Rightarrow> JNull) zs))])"

definition human_line :: "string \<Rightarrow> string \<Rightarrow> string" where "human_line label v = ljust 12 (label @ '':'') @ v"

definition opt_line :: "string \<Rightarrow> string option \<Rightarrow> string list" where
  "opt_line label v = (case v of Some t \<Rightarrow> [human_line label t] | None \<Rightarrow> [])"

definition port_lines :: "string option \<Rightarrow> string list" where
  "port_lines v = (case v of None \<Rightarrow> []
     | Some t \<Rightarrow> (case filter (\<lambda>s. py_strip s \<noteq> []) (py_splitlines t) of
          s # s2 # ss \<Rightarrow> human_line ''Port'' s # map (\<lambda>x. replicate 12 (CHR '' '') @ x) (s2 # ss)
        | _ \<Rightarrow> [human_line ''Port'' t]))"

text \<open>The names of key types are ASCII.\<close>

definition py_upper :: "string \<Rightarrow> string" where "py_upper s = map (\<lambda>c. if is_lower c then char_of (cp c - 32) else c) s"

definition key_order :: "(string \<times> string) list \<Rightarrow> string list" where
  "key_order fps = (let known = [''rsa'', ''ecdsa'', ''ed25519'']
     in filter (\<lambda>k. k \<in> set (map fst fps)) known @ sort (filter (\<lambda>k. k \<notin> set known) (map fst fps)))"

definition fingerprint_lines :: "(string \<times> string) list \<Rightarrow> bool \<Rightarrow> string list" where
  "fingerprint_lines fps missing =
     (if fps \<noteq> [] then ''SSH host key fingerprints:'' #
        map (\<lambda>k. ''  '' @ ljust 10 (py_upper k @ '':'') @ '' '' @ the (map_of fps k)) (key_order fps)
      else if missing then [''SSH host key fingerprints:'', ''  ssh-keygen not found, cannot display fingerprints''] else [])"

definition args_lines :: "string \<Rightarrow> string list \<Rightarrow> string list" where
  "args_lines label xs = (if xs = [] then [] else (''  '' @ label @ '':'') # map (\<lambda>x. ''    '' @ x) xs)"

definition verbose_lines :: "info_data \<Rightarrow> string list" where
  "verbose_lines i =
     opt_line ''Upper size'' (in_upper i) @
     (case in_sizes i of None \<Rightarrow> []
      | Some zs \<Rightarrow> ''Layer paths:'' # map (\<lambda>(k, lp). ''  ['' @ nat_str k @ ''] '' @ lp @ '' ('' @
          (case if k < length zs then zs ! k else None of Some z \<Rightarrow> z | None \<Rightarrow> ''missing'') @ '')'') (enumerate 0 (in_layers i))) @
     (if in_qemu i \<noteq> [] \<or> in_pve i \<noteq> [] \<or> in_lxc i \<noteq> [] then
        ''Pass-through flags:'' # args_lines ''--qemu-arg'' (in_qemu i) @ args_lines ''--pve-arg'' (in_pve i) @ args_lines ''--lxc-arg'' (in_lxc i)
      else [])"

definition format_human :: "info_data \<Rightarrow> bool \<Rightarrow> bool \<Rightarrow> string" where
  "format_human i verbose missing = py_join [LF]
     ([human_line ''Name'' (in_name i), human_line ''Image'' (in_image i), human_line ''Mode'' (in_mode i @ '' ('' @ in_type i @ '')''),
       human_line ''Status'' (in_status i), human_line ''Created'' (in_created i), human_line ''Directory'' (in_directory i),
       human_line ''State'' (in_state i)] @
      opt_line ''Config'' (in_config i) @ opt_line ''VMID'' (map_option int_str (in_vmid i)) @ port_lines (in_port i) @
      opt_line ''Network'' (in_net i) @ opt_line ''MAC'' (in_mac i) @
      opt_line ''Nesting'' (map_option (\<lambda>b. if b then ''allowed'' else ''disabled'') (in_nesting i)) @ opt_line ''Timezone'' (in_tz i) @
      (if in_user i \<noteq> ''root'' then [human_line ''SSH user'' (in_user i)] else []) @
      opt_line ''Env'' (map_option (py_join '', '') (in_env i)) @ [human_line ''Layers'' (nat_str (length (in_layers i)))] @
      fingerprint_lines (in_fps i) missing @ (if verbose then verbose_lines i else []))"

definition info :: "list_host \<Rightarrow> string \<Rightarrow> base \<times> string \<times> files \<Rightarrow> string \<Rightarrow> bool \<Rightarrow> bool \<Rightarrow> exc + string" where
  "info h name x mode as_json verbose =
     bindE (gather h name x mode verbose) (\<lambda>(i, missing). Inr (if as_json then dumps 0 (JObj (info_json i)) else format_human i verbose missing))"

section \<open>The status shown\<close>

fun status_text :: "status \<Rightarrow> string option" where
  "status_text RUNNING = Some ''running''"
| "status_text STOPPED = Some ''stopped''"
| "status_text ORPHAN = Some ''orphan''"
| "status_text _ = None"

definition os_errors :: "(exc + 'a) \<Rightarrow> bool" where
  "os_errors r = (case r of Inl e \<Rightarrow> OSErrorC \<in> set (mro e) | Inr _ \<Rightarrow> True)"

lemma list_status_typed:
  assumes "only_oserrors (lh_conf h)" "os_errors (lh_running h (b, d, fs) mode)"
  shows "\<exists>st. resolve_status (lh_conf h) (lh_running h (b, d, fs)) d fs mode = Inr st \<and>
    (case status_text st of Some w \<Rightarrow> list_status h (b, d, fs) mode = Inr w
     | None \<Rightarrow> \<exists>e. list_status h (b, d, fs) mode = Inl e \<and> OSErrorC \<in> set (mro e))"
proof -
  let ?r = "lh_running h (b, d, fs) mode"
  have run: "\<exists>st. (case ?r of Inr x \<Rightarrow> Inr (if x then RUNNING else STOPPED)
        | Inl e \<Rightarrow> if OSErrorC \<in> set (mro e) \<or> is_kento e then Inr UNKNOWN else Inl e) = Inr st \<and>
      (case status_text st of Some w \<Rightarrow> bindE ?r (\<lambda>x. Inr (run_word x)) = Inr w
       | None \<Rightarrow> \<exists>e. bindE ?r (\<lambda>x. Inr (run_word x)) = Inl e \<and> OSErrorC \<in> set (mro e))"
    using assms(2) by (cases ?r) (auto simp: os_errors_def run_word_def)
  have os: "OSErrorC \<in> set (mro OSErrorC)" by (simp add: mro_step)
  show ?thesis
  proof (cases "is_pve_mode mode")
    case False
    then have ls: "list_status h (b, d, fs) mode = bindE ?r (\<lambda>x. Inr (run_word x))" by (simp add: list_status_def)
    show ?thesis unfolding ls resolve_status_def Let_def using run False by simp
  next
    case True
    then have v: "(if mode = ''pve-vm'' then read_meta fs ''kento-vmid'' else Some d) = orphan_vmid d fs mode"
      by (auto simp: orphan_vmid_def is_pve_mode_def)
    show ?thesis
    proof (cases "orphan_vmid d fs mode")
      case None
      with True show ?thesis by (simp add: resolve_status_def list_status_def is_orphan_def v Let_def)
    next
      case (Some vmid)
      show ?thesis
      proof (cases "lh_conf h vmid mode")
        case (Inl e)
        with assms(1) have "OSErrorC \<in> set (mro e)" unfolding only_oserrors_def by blast
        with Inl True Some os show ?thesis by (simp add: resolve_status_def list_status_def is_orphan_def v Let_def)
      next
        case (Inr there)
        show ?thesis
        proof (cases there)
          case False
          with Inr True Some show ?thesis by (simp add: resolve_status_def list_status_def is_orphan_def v Let_def)
        next
          case there: True
          then have ls: "list_status h (b, d, fs) mode = bindE ?r (\<lambda>x. Inr (run_word x))"
            using Inr True Some by (simp add: list_status_def is_orphan_def)
          show ?thesis unfolding ls resolve_status_def v Let_def using run True Some Inr there by simp
        qed
      qed
    qed
  qed
qed

definition shown_name :: "string \<Rightarrow> files \<Rightarrow> string" where
  "shown_name d fs = (case read_meta fs ''kento-name'' of Some n \<Rightarrow> n | None \<Rightarrow> d)"

text \<open>
  C7. The table of instances shows exactly those whose status is known, in order, each with the status its handle reports; an instance
  whose status is unknown is left out of it, and no error of the operating system makes the listing fail.
\<close>

theorem listing_shows_status:
  assumes "only_oserrors (lh_conf h)" "\<And>x mode. os_errors (lh_running h x mode)"
  shows "\<exists>rows. list_rows h False False xs = Inr rows \<and>
    map (\<lambda>r. (r_name r, r_status r)) rows = List.map_filter (\<lambda>(b, d, fs).
      case resolve_status (lh_conf h) (lh_running h (b, d, fs)) d fs (read_mode fs ''lxc'') of
        Inr st \<Rightarrow> map_option (Pair (shown_name d fs)) (status_text st) | Inl _ \<Rightarrow> None) xs"
proof (induction xs)
  case (Cons x xs)
  obtain b d fs where x: "x = (b, d, fs)" by (cases x) auto
  from list_status_typed [OF assms(1,2), of b d fs "read_mode fs ''lxc''"] obtain st where
    st: "resolve_status (lh_conf h) (lh_running h (b, d, fs)) d fs (read_mode fs ''lxc'') = Inr st"
    "case status_text st of Some w \<Rightarrow> list_status h (b, d, fs) (read_mode fs ''lxc'') = Inr w
     | None \<Rightarrow> \<exists>e. list_status h (b, d, fs) (read_mode fs ''lxc'') = Inl e \<and> OSErrorC \<in> set (mro e)" by blast
  show ?case
  proof (cases "status_text st")
    case None
    with st(2) obtain e where "list_row h False False x = Inl e" "OSErrorC \<in> set (mro e)" by (auto simp: list_row_def x Let_def)
    with Cons st(1) None show ?thesis by (simp add: x List.map_filter_simps)
  next
    case (Some w)
    with st(2) have "\<exists>r. list_row h False False x = Inr r \<and> r_name r = shown_name d fs \<and> r_status r = w"
      by (simp add: list_row_def x Let_def shown_name_def)
    with Cons st(1) Some show ?thesis by (auto simp: x List.map_filter_simps)
  qed
qed (simp add: List.map_filter_simps)

section \<open>The details\<close>

lemma gather_fields:
  assumes "gather h name (b, d, fs) mode verbose = Inr (i, m)"
  shows "in_name i = nonempty_or (read_meta fs ''kento-name'') name" "in_image i = nonempty_or (read_meta fs ''kento-image'') ''unknown''"
    "in_mode i = shown_mode mode" "in_type i = family mode" "in_mac i = truthy_or_none (read_meta fs ''kento-mac'')"
    "in_env i = map_option py_splitlines (truthy_or_none (read_meta fs ''kento-env''))"
    "\<exists>k. get_ssh_host_key_fingerprints h (b, d) = Inr (in_fps i, k)"
    "(if truthy (read_meta fs ''kento-vmid'') then (case py_int (the (read_meta fs ''kento-vmid'')) of Some n \<Rightarrow> Inr (Some n) | None \<Rightarrow> Inl ValueErrorC)
      else Inr None) = Inr (in_vmid i)"
  using assms by (auto simp: gather_def Let_def)

lemma gather_status:
  "gather h name (b, d, fs) mode verbose = Inr (i, m) \<Longrightarrow> \<exists>up. lh_running h (b, d, fs) mode = Inr up \<and> in_status i = run_word up"
  by (auto simp: gather_def Let_def)

text \<open>
  C17. An instance under PVE whose configuration is gone is shown as an orphan by the listing and has the status of one, but its details
  say that it is stopped, for the run state is all they ask for.
\<close>

theorem info_hides_orphan:
  assumes "\<And>v m. lh_conf h v m = Inr (pve_config_exists hv v m)" "\<And>b d fs m. lh_running h (b, d, fs) m = Inr (is_running hv d fs m)"
    and "resolve_status (lh_conf h) (lh_running h (b, d, fs)) d fs mode = Inr ORPHAN" "gather h name (b, d, fs) mode verbose = Inr (i, m)"
  shows "list_status h (b, d, fs) mode = Inr ''orphan'' \<and> in_status i = ''stopped''"
proof -
  have oo: "only_oserrors (lh_conf h)" "os_errors (lh_running h (b, d, fs) mode)" using assms(1,2) by (simp_all add: only_oserrors_def os_errors_def)
  from list_status_typed [OF oo] assms(3) have shown: "list_status h (b, d, fs) mode = Inr ''orphan''" by simp
  have pve: "is_pve_mode mode" using assms(2,3) by (auto simp: resolve_status_def Let_def split: if_splits)
  have "\<not> is_running hv d fs mode"
  proof (cases "mode = ''pve''")
    case True
    with assms(1-3) show ?thesis by (auto simp: resolve_status_def is_running_def Let_def is_pve_mode_def split: if_splits)
  next
    case False
    with pve have "mode = ''pve-vm''" by (simp add: is_pve_mode_def)
    with assms(1-3) show ?thesis
      by (auto simp: resolve_status_def is_running_def Let_def is_pve_mode_def read_meta_def split: if_splits option.splits)
  qed
  moreover from gather_status [OF assms(4)] obtain up where "lh_running h (b, d, fs) mode = Inr up" "in_status i = run_word up" by blast
  ultimately have "in_status i = ''stopped''" using assms(2) by (simp add: run_word_def)
  with shown show ?thesis by blast
qed

text \<open>
  A recorded VM id that is not a number is shown as it is in the JSON listing, but makes the details fail, whichever are asked for.
\<close>

theorem bad_vmid_breaks_info:
  assumes "read_meta fs ''kento-vmid'' = Some t" "t \<noteq> []" "py_int t = None" "lh_running h (b, d, fs) mode = Inr up"
  shows "info h name (b, d, fs) mode as_json verbose = Inl ValueErrorC \<and>
    (\<forall>r. list_row h show_size True (b, d, fs) = Inr r \<longrightarrow> (''vmid'', JStr t) \<in> set (row_json r))"
proof
  show "info h name (b, d, fs) mode as_json verbose = Inl ValueErrorC"
    using assms by (simp add: info_def gather_def Let_def)
  show "\<forall>r. list_row h show_size True (b, d, fs) = Inr r \<longrightarrow> (''vmid'', JStr t) \<in> set (row_json r)"
    using assms by (auto simp: list_row_def Let_def list_extra_def vmid_field_def row_json_def)
qed

text \<open>
  The JSON listing can stand in for the details: every field it gives of an instance that is no orphan, is named and has an
  image recorded, is a field of the details with the same value, when its recorded id is a number and its environment is recorded as a
  creation records it.
\<close>

theorem list_within_info:
  assumes "list_row h False True (b, d, fs) = Inr r" "gather h name (b, d, fs) (read_mode fs ''lxc'') verbose = Inr (i, m)"
    and "r_status r \<noteq> ''orphan''" "truthy (read_meta fs ''kento-name'')" "truthy (read_meta fs ''kento-image'')"
    and "read_meta fs ''kento-vmid'' \<noteq> Some []" "\<And>t. fs ''kento-env'' = Some t \<Longrightarrow> py_splitlines (univ_newlines t) = py_splitlines (file_text t)"
  shows "set (row_json r) \<subseteq> set (info_json i)"
proof -
  let ?mode = "read_mode fs ''lxc''"
  from assms(1) obtain st fps k where st: "list_status h (b, d, fs) ?mode = Inr st" and fps: "get_ssh_host_key_fingerprints h (b, d) = Inr (fps, k)"
    and r: "r = \<lparr>r_name = (case read_meta fs ''kento-name'' of Some n \<Rightarrow> n | None \<Rightarrow> d), r_type = family ?mode, r_mode = shown_mode ?mode,
      r_image = (case read_meta fs ''kento-image'' of Some im \<Rightarrow> im | None \<Rightarrow> []), r_status = st,
      r_extra = vmid_field fs @ text_field ''mac'' (read_meta fs ''kento-mac'') @ list_env fs @
        (if fps \<noteq> [] then [(''ssh_host_key_fingerprints'', str_obj fps)] else []), r_size = None\<rparr>"
    by (auto simp: list_row_def list_extra_def Let_def)
  from gather_status [OF assms(2)] obtain up where up: "lh_running h (b, d, fs) ?mode = Inr up" "in_status i = run_word up" by blast
  note i = gather_fields [OF assms(2)]
  from i(7) fps have f: "in_fps i = fps" by simp
  have "st = run_word up"
    using st assms(3) up(1) by (auto simp: r list_status_def split: if_splits option.splits bool.splits)
  then have status: "(''status'', JStr st) \<in> set (info_json i)" using up(2) by (simp add: info_json_def)
  have base: "(''name'', JStr (r_name r)) \<in> set (info_json i)" "(''image'', JStr (r_image r)) \<in> set (info_json i)"
    "(''mode'', JStr (shown_mode ?mode)) \<in> set (info_json i)" "(''type'', JStr (family ?mode)) \<in> set (info_json i)"
    "(''ssh_host_key_fingerprints'', str_obj fps) \<in> set (info_json i)"
    using assms(4,5) by (auto simp: info_json_def i(1-4) f r nonempty_or_def split: option.splits)
  have vmid: "set (vmid_field fs) \<subseteq> set (info_json i)"
    using i(8) assms(6) by (cases "in_vmid i"; cases "read_meta fs ''kento-vmid''") (auto simp: vmid_field_def info_json_def opt_field_def split: option.splits if_splits)
  have mac: "set (text_field ''mac'' (read_meta fs ''kento-mac'')) \<subseteq> set (info_json i)"
    by (cases "read_meta fs ''kento-mac''") (auto simp: text_field_def info_json_def opt_field_def i(5) truthy_or_none_def)
  have env: "set (list_env fs) \<subseteq> set (info_json i)"
  proof (cases "fs ''kento-env''")
    case (Some t)
    let ?ls = "py_splitlines (file_text t)"
    have e: "list_env fs = (if ?ls \<noteq> [] then [(''environment'', str_list ?ls)] else [])"
      using Some assms(7) [OF Some] by (simp add: list_env_def Let_def)
    have "(''environment'', str_list ?ls) \<in> set (info_json i)" if "?ls \<noteq> []"
    proof -
      have "file_text t \<noteq> []" using that by (auto simp: py_splitlines_def)
      then have "in_env i = Some ?ls" using i(6) Some by (simp add: truthy_or_none_def read_meta_def)
      then show ?thesis by (simp add: info_json_def opt_field_def)
    qed
    with e show ?thesis by (cases "?ls = []") simp_all
  qed (simp add: list_env_def)
  show ?thesis using status base vmid mac env by (auto simp: row_json_def r)
qed

section \<open>Instances of the properties\<close>

definition quiet_view :: host_view where
  "quiet_view = \<lparr>node_name = Some ''n'', conf_files = (\<lambda>_. False), run_status = (\<lambda>_. Some (0, ''RUNNING'')), vm_alive = (\<lambda>_. False)\<rparr>"

definition sample_lister :: list_host where
  "sample_lister = \<lparr>lh_base = (\<lambda>_. mk_path ''/k''), lh_conf = (\<lambda>v m. Inr (pve_config_exists quiet_view v m)),
     lh_running = (\<lambda>(b, d, fs) m. Inr (is_running quiet_view d fs m)), lh_pubs = (\<lambda>_. Some [''ssh_host_rsa_key.pub'']),
     lh_keygen = (\<lambda>_ _. Inr (0, ''3072 SHA256:abc root (RSA)'')), lh_is_dir = (\<lambda>_. False), lh_du = (\<lambda>_. Inr (0, ''4K'')),
     lh_created = (\<lambda>_. Inr ''now'')\<rparr>"

definition web_files :: files where
  "web_files = [''kento-image'' \<mapsto> ''debian'' @ [LF], ''kento-name'' \<mapsto> ''web'' @ [LF], ''kento-mode'' \<mapsto> ''lxc'' @ [LF],
     ''kento-env'' \<mapsto> ''A=1'' @ [LF], ''kento-mac'' \<mapsto> ''52:54:00:00:00:01'' @ [LF]]"

definition gone_files :: files where
  "gone_files = [''kento-image'' \<mapsto> ''debian'' @ [LF], ''kento-mode'' \<mapsto> ''pve'' @ [LF]]"

lemma sample_probes: "only_oserrors (lh_conf sample_lister)" "os_errors (lh_running sample_lister x mode)"
  by (auto simp: only_oserrors_def os_errors_def sample_lister_def split: prod.splits)

theorem listing_shows_status_witness:
  "\<exists>rows. list_rows sample_lister False False [(LXC_BASE, ''107'', gone_files), (LXC_BASE, ''w'', web_files)] = Inr rows \<and>
     map (\<lambda>r. (r_name r, r_status r)) rows = [(''107'', ''orphan''), (''web'', ''running'')]"
proof -
  have "List.map_filter (\<lambda>(b, d, fs).
      case resolve_status (lh_conf sample_lister) (lh_running sample_lister (b, d, fs)) d fs (read_mode fs ''lxc'') of
        Inr st \<Rightarrow> map_option (Pair (shown_name d fs)) (status_text st) | Inl _ \<Rightarrow> None)
      [(LXC_BASE, ''107'', gone_files), (LXC_BASE, ''w'', web_files)] = [(''107'', ''orphan''), (''web'', ''running'')]" by code_simp
  with listing_shows_status [OF sample_probes, of "[(LXC_BASE, ''107'', gone_files), (LXC_BASE, ''w'', web_files)]"] show ?thesis by simp
qed

theorem info_hides_orphan_witness:
  "\<exists>i m. gather sample_lister ''107'' (LXC_BASE, ''107'', gone_files) ''pve'' False = Inr (i, m) \<and> in_status i = ''stopped'' \<and>
     list_status sample_lister (LXC_BASE, ''107'', gone_files) ''pve'' = Inr ''orphan''"
proof -
  have "(case gather sample_lister ''107'' (LXC_BASE, ''107'', gone_files) ''pve'' False of Inr _ \<Rightarrow> True | _ \<Rightarrow> False)" by code_simp
  then obtain i m where g: "gather sample_lister ''107'' (LXC_BASE, ''107'', gone_files) ''pve'' False = Inr (i, m)"
    by (auto split: sum.splits)
  have "resolve_status (lh_conf sample_lister) (lh_running sample_lister (LXC_BASE, ''107'', gone_files)) ''107'' gone_files ''pve'' = Inr ORPHAN"
    by code_simp
  with info_hides_orphan [OF _ _ this g, of quiet_view] g show ?thesis by (simp add: sample_lister_def)
qed

theorem bad_vmid_breaks_info_witness:
  "info sample_lister ''web'' (LXC_BASE, ''w'', web_files(''kento-vmid'' \<mapsto> ''x1'')) ''lxc'' True False = Inl ValueErrorC"
proof -
  have "read_meta (web_files(''kento-vmid'' \<mapsto> ''x1'')) ''kento-vmid'' = Some ''x1''" "py_int ''x1'' = None" by code_simp+
  moreover have "lh_running sample_lister (LXC_BASE, ''w'', web_files(''kento-vmid'' \<mapsto> ''x1'')) ''lxc'' = Inr True" by code_simp
  ultimately show ?thesis using bad_vmid_breaks_info by blast
qed

theorem list_within_info_witness:
  "\<exists>r i m. list_row sample_lister False True (LXC_BASE, ''w'', web_files) = Inr r \<and>
     gather sample_lister ''w'' (LXC_BASE, ''w'', web_files) ''lxc'' False = Inr (i, m) \<and> set (row_json r) \<subseteq> set (info_json i) \<and> r_status r = ''running''"
proof -
  have "(case list_row sample_lister False True (LXC_BASE, ''w'', web_files) of Inr r \<Rightarrow> r_status r = ''running'' | _ \<Rightarrow> False)"
    "(case gather sample_lister ''w'' (LXC_BASE, ''w'', web_files) (read_mode web_files ''lxc'') False of Inr _ \<Rightarrow> True | _ \<Rightarrow> False)" by code_simp+
  then obtain r i m where r: "list_row sample_lister False True (LXC_BASE, ''w'', web_files) = Inr r" "r_status r = ''running''"
    and g: "gather sample_lister ''w'' (LXC_BASE, ''w'', web_files) (read_mode web_files ''lxc'') False = Inr (i, m)"
    by (auto split: sum.splits)
  have c: "truthy (read_meta web_files ''kento-name'')" "truthy (read_meta web_files ''kento-image'')" "read_meta web_files ''kento-vmid'' \<noteq> Some []"
    "py_splitlines (univ_newlines (''A=1'' @ [LF])) = py_splitlines (file_text (''A=1'' @ [LF]))" by code_simp+
  have "web_files ''kento-env'' = Some (''A=1'' @ [LF])" by (simp add: web_files_def)
  with c(4) have "\<And>t. web_files ''kento-env'' = Some t \<Longrightarrow> py_splitlines (univ_newlines t) = py_splitlines (file_text t)" by simp
  moreover have "read_mode web_files ''lxc'' = ''lxc''" by code_simp
  moreover have "r_status r \<noteq> ''orphan''" using r(2) by simp
  ultimately show ?thesis using list_within_info [OF r(1) g _ c(1-3)] r g by auto
qed

end
