(* ===== verification/Qmp.thy ===== *)
theory Qmp imports Json Lifecycle begin

text \<open>
  The monitor protocol of \<^verbatim>\<open>suspend.py\<close>: the buffered reader of lines over a socket, the greeting and the negotiation, commands and
  their replies with the events between them, and the human monitor's command.  A session is the chunks the socket gives, in order,
  and how it ends (the end of the stream, or an error such as a timeout); the parser of JSON is an argument.
\<close>

section \<open>The reader\<close>

definition strip_bytes :: "string \<Rightarrow> string" where
  "strip_bytes s = (let sp = (\<lambda>c. c \<in> set [CHR '' '', TAB, LF, CR, CHR 11, CHR 12])
     in rev (dropWhile sp (rev (dropWhile sp s))))"

text \<open>A chunk without bytes is the end of the stream.\<close>

fun next_line :: "exc option \<Rightarrow> string \<Rightarrow> string list \<Rightarrow> (exc + string) \<times> string \<times> string list" where
  "next_line end1 buf [] =
     (if LF \<in> set buf then (case py_partition LF buf of (l, _, rest) \<Rightarrow> (Inr l, rest, []))
      else case end1 of Some e \<Rightarrow> (Inl e, buf, [])
           | None \<Rightarrow> if strip_bytes buf \<noteq> [] then (Inr buf, [], []) else (Inl ValueErrorC, buf, []))"
| "next_line end1 buf (c # cs) =
     (if LF \<in> set buf then (case py_partition LF buf of (l, _, rest) \<Rightarrow> (Inr l, rest, c # cs))
      else if c = [] then (if strip_bytes buf \<noteq> [] then (Inr buf, [], c # cs) else (Inl ValueErrorC, buf, c # cs))
      else next_line end1 (buf @ c) cs)"

definition pending :: "string \<Rightarrow> string list \<Rightarrow> nat" where "pending buf cs = length buf + sum_list (map length cs)"

lemma partition_first:
  assumes "LF \<in> set buf"
  obtains a b where "buf = a @ LF # b" "LF \<notin> set a" "py_partition LF buf = (a, True, b)"
proof -
  from split_list_first [OF assms] obtain a b where "buf = a @ LF # b" "LF \<notin> set a" by blast
  then show ?thesis using that py_partition_at [of LF a b] by simp
qed

lemma partition_shorter: "LF \<in> set buf \<Longrightarrow> py_partition LF buf = (l, x, rest) \<Longrightarrow> length rest < length buf"
  by (elim partition_first) simp

lemma next_line_less: "next_line end1 buf cs = (Inr l, buf', cs') \<Longrightarrow> pending buf' cs' < pending buf cs"
proof (induction end1 buf cs rule: next_line.induct)
  case (1 end1 buf)
  have "buf \<noteq> []" if "strip_bytes buf \<noteq> []" using that by (auto simp: strip_bytes_def)
  with 1 show ?case using partition_shorter [of buf] by (auto simp: pending_def split: if_splits option.splits prod.splits)
next
  case (2 end1 buf c cs)
  have "buf \<noteq> []" if "strip_bytes buf \<noteq> []" using that by (auto simp: strip_bytes_def)
  with 2 show ?case using partition_shorter [of buf] by (auto simp: pending_def split: if_splits prod.splits)
qed

function next_json :: "(string \<Rightarrow> exc + jval) \<Rightarrow> exc option \<Rightarrow> string \<Rightarrow> string list \<Rightarrow> (exc + jval) \<times> string \<times> string list" where
  "next_json loads end1 buf cs =
     (case next_line end1 buf cs of
        (Inl e, buf', cs') \<Rightarrow> (Inl e, buf', cs')
      | (Inr l, buf', cs') \<Rightarrow> (let t = strip_bytes l in if t = [] then next_json loads end1 buf' cs' else (loads t, buf', cs')))"
  by pat_completeness auto
termination
  by (relation "measure (\<lambda>(_, _, buf, cs). pending buf cs)") (auto dest: next_line_less [OF sym])

declare next_json.simps [simp del]

lemma next_json_less: "next_json loads end1 buf cs = (Inr m, buf', cs') \<Longrightarrow> pending buf' cs' < pending buf cs"
proof (induction loads end1 buf cs rule: next_json.induct)
  case (1 loads end1 buf cs)
  from "1.prems" obtain l b1 c1 where l: "next_line end1 buf cs = (Inr l, b1, c1)"
    by (subst (asm) next_json.simps) (auto split: prod.splits sum.splits)
  note less = next_line_less [OF l]
  show ?case
  proof (cases "strip_bytes l = []")
    case True
    with "1.prems" l have "next_json loads end1 b1 c1 = (Inr m, buf', cs')" by (subst (asm) next_json.simps) (simp add: Let_def)
    with "1.IH" [OF l [symmetric]] True less show ?thesis by fastforce
  next
    case False
    with "1.prems" l less show ?thesis by (subst (asm) next_json.simps) (auto simp: Let_def)
  qed
qed

text \<open>Events are passed over.\<close>

function next_reply :: "(string \<Rightarrow> exc + jval) \<Rightarrow> exc option \<Rightarrow> string \<Rightarrow> string list \<Rightarrow> (exc + jval) \<times> string \<times> string list" where
  "next_reply loads end1 buf cs =
     (case next_json loads end1 buf cs of
        (Inl e, buf', cs') \<Rightarrow> (Inl e, buf', cs')
      | (Inr m, buf', cs') \<Rightarrow> (case jval_in ''event'' m of Inl e \<Rightarrow> (Inl e, buf', cs')
          | Inr True \<Rightarrow> next_reply loads end1 buf' cs' | Inr False \<Rightarrow> (Inr m, buf', cs')))"
  by pat_completeness auto
termination
  by (relation "measure (\<lambda>(_, _, buf, cs). pending buf cs)") (auto dest: next_json_less [OF sym])

declare next_reply.simps [simp del]

section \<open>Commands\<close>

text \<open>The socket: whether it can be connected and what is sent accepted, the chunks it gives and how they end.\<close>

record wire =
  wi_connect :: "exc option"
  wi_send :: "string \<Rightarrow> exc option"
  wi_chunks :: "string list"
  wi_end :: "exc option"

definition execute :: "string \<Rightarrow> jval" where "execute c = JObj [(''execute'', JStr c)]"

definition sent_line :: "jval \<Rightarrow> string" where "sent_line c = dumps_line c @ [LF]"

text \<open>The replies, and the lines that were sent.\<close>

fun qmp_replies :: "(string \<Rightarrow> exc + jval) \<Rightarrow> wire \<Rightarrow> jval list \<Rightarrow> string \<Rightarrow> string list \<Rightarrow> (exc + jval list) \<times> string list" where
  "qmp_replies loads wi [] buf cs = (Inr [], [])"
| "qmp_replies loads wi (c # cmds) buf cs =
     (case wi_send wi (sent_line c) of Some e \<Rightarrow> (Inl e, [])
      | None \<Rightarrow> (case next_reply loads (wi_end wi) buf cs of
          (Inl e, _, _) \<Rightarrow> (Inl e, [sent_line c])
        | (Inr r, buf', cs') \<Rightarrow> (case qmp_replies loads wi cmds buf' cs' of (res, sent) \<Rightarrow>
            (bindE res (\<lambda>rs. Inr (r # rs)), sent_line c # sent))))"

definition qmp_command :: "(string \<Rightarrow> exc + jval) \<Rightarrow> wire \<Rightarrow> jval list \<Rightarrow> (exc + jval list) \<times> string list" where
  "qmp_command loads wi cmds =
     (case wi_connect wi of Some e \<Rightarrow> (Inl e, [])
      | None \<Rightarrow> (case next_json loads (wi_end wi) [] (wi_chunks wi) of
          (Inl e, _, _) \<Rightarrow> (Inl e, [])
        | (Inr g, buf, cs) \<Rightarrow> (case jval_in ''QMP'' g of
            Inl e \<Rightarrow> (Inl e, [])
          | Inr False \<Rightarrow> (Inl ValueErrorC, [])
          | Inr True \<Rightarrow> (case qmp_replies loads wi (execute ''qmp_capabilities'' # cmds) buf cs of
              (res, sent) \<Rightarrow> (bindE res (\<lambda>rs. Inr (tl rs)), sent)))))"

text \<open>
  The value under a key; that of a reply that is no object raises, as does the text \<^verbatim>\<open>str\<close> makes of a value that is no string,
  which is an argument.
\<close>

definition reply_text :: "(jval \<Rightarrow> string) \<Rightarrow> jval \<Rightarrow> exc + string" where
  "reply_text show_val r = (case r of
       JObj kvs \<Rightarrow> Inr (py_strip (case map_of (rev kvs) ''return'' of None \<Rightarrow> [] | Some (JStr t) \<Rightarrow> t | Some v \<Rightarrow> show_val v))
     | _ \<Rightarrow> Inl ExceptionC)"

definition qmp_hmp :: "(string \<Rightarrow> exc + jval) \<Rightarrow> (jval \<Rightarrow> string) \<Rightarrow> wire \<Rightarrow> string \<Rightarrow> exc + string" where
  "qmp_hmp loads show_val wi command_line =
     bindE (fst (qmp_command loads wi
       [JObj [(''execute'', JStr ''human-monitor-command''), (''arguments'', JObj [(''command-line'', JStr command_line)])]])) (\<lambda>rs.
       let r = hd rs in bindE (jval_in ''error'' r) (\<lambda>bad.
         if bad then (case r of JObj _ \<Rightarrow> Inl ValueErrorC | _ \<Rightarrow> Inl TypeErrorC) else reply_text show_val r))"

text \<open>The monitor of a virtual machine, as suspending and resuming use it: whether the reply to a command is an error.\<close>

definition monitor_of :: "(string \<Rightarrow> exc + jval) \<Rightarrow> ('w \<Rightarrow> wire \<times> 'w) \<Rightarrow> string \<Rightarrow> 'w \<Rightarrow> (exc + bool) \<times> 'w" where
  "monitor_of loads open1 command w =
     (case open1 w of (wi, w') \<Rightarrow> (bindE (fst (qmp_command loads wi [execute command])) (\<lambda>rs. jval_in ''error'' (hd rs)), w'))"

section \<open>How the stream is cut does not matter\<close>

abbreviation no_gaps :: "string list \<Rightarrow> bool" where "no_gaps cs \<equiv> [] \<notin> set cs"

definition flat :: "'a \<times> string \<times> string list \<Rightarrow> 'a \<times> string \<times> string list" where
  "flat x = (case x of (r, buf, cs) \<Rightarrow> (r, buf @ concat cs, []))"

lemma partition_append: "LF \<in> set buf \<Longrightarrow> py_partition LF buf = (l, x, rest) \<Longrightarrow> py_partition LF (buf @ s) = (l, x, rest @ s)"
  by (elim partition_first) simp

lemma next_line_flat: "no_gaps cs \<Longrightarrow> next_line end1 (buf @ concat cs) [] = flat (next_line end1 buf cs) \<and> no_gaps (snd (snd (next_line end1 buf cs)))"
proof (induction end1 buf cs rule: next_line.induct)
  case (2 end1 buf c cs)
  show ?case
  proof (cases "LF \<in> set buf")
    case True
    obtain l x rest where p: "py_partition LF buf = (l, x, rest)" by (cases "py_partition LF buf")
    have "py_partition LF (buf @ concat (c # cs)) = (l, x, rest @ concat (c # cs))" by (rule partition_append [OF True p])
    with True p 2(2) show ?thesis by (simp add: flat_def del: concat.simps)
  next
    case False
    from 2(2) have c: "c \<noteq> []" "no_gaps cs" by auto
    then have s: "next_line end1 buf (c # cs) = next_line end1 (buf @ c) cs" using False by simp
    have "buf @ concat (c # cs) = (buf @ c) @ concat cs" by simp
    then show ?thesis unfolding s using 2(1) [OF False c(1) c(2)] by presburger
  qed
qed (auto simp: flat_def split: prod.splits option.splits)

lemma next_json_flat: "no_gaps cs \<Longrightarrow> next_json loads end1 (buf @ concat cs) [] = flat (next_json loads end1 buf cs) \<and>
    no_gaps (snd (snd (next_json loads end1 buf cs)))"
proof (induction loads end1 buf cs rule: next_json.induct)
  case (1 loads end1 buf cs)
  obtain r b1 c1 where l: "next_line end1 buf cs = (r, b1, c1)" by (cases "next_line end1 buf cs")
  with next_line_flat [OF "1.prems", of end1 buf] have f: "next_line end1 (buf @ concat cs) [] = (r, b1 @ concat c1, [])" "no_gaps c1"
    by (simp_all add: flat_def)
  show ?case
  proof (cases r)
    case (Inl e)
    then show ?thesis using l f by (subst (1 2 3) next_json.simps) (simp add: flat_def)
  next
    case (Inr t)
    show ?thesis
    proof (cases "strip_bytes t = []")
      case True
      then have a: "next_json loads end1 buf cs = next_json loads end1 b1 c1" "next_json loads end1 (buf @ concat cs) [] = next_json loads end1 (b1 @ concat c1) []"
        using l f(1) Inr by (subst next_json.simps, simp)+
      show ?thesis unfolding a using "1.IH" [OF l [symmetric, unfolded Inr]] True f(2) by simp
    next
      case False
      then show ?thesis using l f Inr by (subst (1 2 3) next_json.simps) (simp add: flat_def)
    qed
  qed
qed

lemma next_reply_flat: "no_gaps cs \<Longrightarrow> next_reply loads end1 (buf @ concat cs) [] = flat (next_reply loads end1 buf cs) \<and>
    no_gaps (snd (snd (next_reply loads end1 buf cs)))"
proof (induction loads end1 buf cs rule: next_reply.induct)
  case (1 loads end1 buf cs)
  obtain r b1 c1 where l: "next_json loads end1 buf cs = (r, b1, c1)" by (cases "next_json loads end1 buf cs")
  with next_json_flat [OF "1.prems", of loads end1 buf] have f: "next_json loads end1 (buf @ concat cs) [] = (r, b1 @ concat c1, [])" "no_gaps c1"
    by (simp_all add: flat_def)
  show ?case
  proof (cases r)
    case (Inl e)
    then show ?thesis using l f by (subst (1 2 3) next_reply.simps) (simp add: flat_def)
  next
    case (Inr m)
    show ?thesis
    proof (cases "jval_in ''event'' m = Inr True")
      case True
      then have a: "next_reply loads end1 buf cs = next_reply loads end1 b1 c1" "next_reply loads end1 (buf @ concat cs) [] = next_reply loads end1 (b1 @ concat c1) []"
        using l f(1) Inr by (subst next_reply.simps, simp)+
      show ?thesis unfolding a using "1.IH" [OF l [symmetric, unfolded Inr]] True f(2) by simp
    next
      case False
      then show ?thesis using l f Inr by (subst (1 2 3) next_reply.simps) (auto simp: flat_def split: sum.splits bool.splits)
    qed
  qed
qed

lemma qmp_replies_flat: "no_gaps cs \<Longrightarrow> qmp_replies loads wi cmds (buf @ concat cs) [] = qmp_replies loads wi cmds buf cs"
proof (induction cmds arbitrary: buf cs)
  case (Cons c cmds)
  obtain r b1 c1 where l: "next_reply loads (wi_end wi) buf cs = (r, b1, c1)" by (cases "next_reply loads (wi_end wi) buf cs")
  with next_reply_flat [OF Cons.prems, of loads "wi_end wi" buf]
  have f: "next_reply loads (wi_end wi) (buf @ concat cs) [] = (r, b1 @ concat c1, [])" "no_gaps c1" by (simp_all add: flat_def)
  show ?case using l f Cons.IH [OF f(2)] by (simp split: option.splits sum.splits)
qed simp

text \<open>
  C12. What a session answers and sends depends on the bytes the monitor sends only, not on how the socket cuts them into chunks.
\<close>

theorem chunks_do_not_matter:
  assumes "no_gaps (wi_chunks wi)" "no_gaps cs" "concat cs = concat (wi_chunks wi)"
  shows "qmp_command loads (wi\<lparr>wi_chunks := cs\<rparr>) cmds = qmp_command loads wi cmds"
proof -
  have whole: "qmp_command loads (wi\<lparr>wi_chunks := ds\<rparr>) cmds =
      (case wi_connect wi of Some e \<Rightarrow> (Inl e, [])
      | None \<Rightarrow> (case next_json loads (wi_end wi) (concat ds) [] of
          (Inl e, _, _) \<Rightarrow> (Inl e, [])
        | (Inr g, buf, _) \<Rightarrow> (case jval_in ''QMP'' g of
            Inl e \<Rightarrow> (Inl e, [])
          | Inr False \<Rightarrow> (Inl ValueErrorC, [])
          | Inr True \<Rightarrow> (case qmp_replies loads wi (execute ''qmp_capabilities'' # cmds) buf [] of
              (res, sent) \<Rightarrow> (bindE res (\<lambda>rs. Inr (tl rs)), sent)))))" if "no_gaps ds" for ds
  proof -
    obtain r b1 c1 where l: "next_json loads (wi_end wi) [] ds = (r, b1, c1)" by (cases "next_json loads (wi_end wi) [] ds")
    with next_json_flat [OF that, of loads "wi_end wi" "[]"]
    have f: "next_json loads (wi_end wi) (concat ds) [] = (r, b1 @ concat c1, [])" "no_gaps c1" by (simp_all add: flat_def)
    have w: "qmp_replies loads (wi\<lparr>wi_chunks := ds\<rparr>) xs b c = qmp_replies loads wi xs b c" for xs b c
    proof (induction xs arbitrary: b c)
      case (Cons x xs)
      then show ?case by (auto split: option.splits prod.splits sum.splits)
    qed simp
    show ?thesis using l f qmp_replies_flat [OF f(2), of loads wi _ b1] by (simp add: qmp_command_def w split: option.split sum.split bool.split del: qmp_replies.simps)
  qed
  have "wi\<lparr>wi_chunks := wi_chunks wi\<rparr> = wi" by simp
  note whole [OF assms(1), unfolded this]
  with whole [OF assms(2), unfolded assms(3)] show ?thesis by (rule trans [OF _ sym])
qed

section \<open>Replies and events\<close>

text \<open>A message on a line of its own: what is parsed from it.\<close>

definition says :: "(string \<Rightarrow> exc + jval) \<Rightarrow> string \<Rightarrow> jval \<Rightarrow> bool" where
  "says loads t m \<longleftrightarrow> LF \<notin> set t \<and> strip_bytes t \<noteq> [] \<and> loads (strip_bytes t) = Inr m"

lemma next_json_says: "says loads t m \<Longrightarrow> next_json loads end1 (t @ LF # rest) [] = (Inr m, rest, [])"
  by (subst next_json.simps) (simp add: says_def Let_def)

definition unlines_of :: "string list \<Rightarrow> string" where "unlines_of ts = concat (map (\<lambda>t. t @ [LF]) ts)"

definition is_event :: "jval \<Rightarrow> bool" where "is_event m \<longleftrightarrow> jval_in ''event'' m = Inr True"

lemma next_reply_says:
  assumes "list_all2 (says loads) ts ms" "list_all (\<lambda>m. \<exists>b. jval_in ''event'' m = Inr b) ms" "filter (\<lambda>m. \<not> is_event m) ms = r # rs"
  shows "\<exists>ts' ms'. next_reply loads end1 (unlines_of ts @ rest) [] = (Inr r, unlines_of ts' @ rest, []) \<and> list_all2 (says loads) ts' ms' \<and>
    list_all (\<lambda>m. \<exists>b. jval_in ''event'' m = Inr b) ms' \<and> filter (\<lambda>m. \<not> is_event m) ms' = rs"
  using assms
proof (induction ts ms rule: list_all2_induct)
  case (Cons t ts m ms)
  note j = next_json_says [OF Cons(1), of end1 "unlines_of ts @ rest"]
  show ?case
  proof (cases "is_event m")
    case True
    then have "next_reply loads end1 (unlines_of (t # ts) @ rest) [] = next_reply loads end1 (unlines_of ts @ rest) []"
      using j by (subst next_reply.simps) (simp add: unlines_of_def is_event_def)
    with Cons True show ?thesis by simp
  next
    case False
    with Cons(4) obtain b where "jval_in ''event'' m = Inr b" "\<not> b" by (auto simp: is_event_def)
    then have "next_reply loads end1 (unlines_of (t # ts) @ rest) [] = (Inr m, unlines_of ts @ rest, [])"
      using j by (subst next_reply.simps) (simp add: unlines_of_def)
    with Cons False show ?thesis by auto
  qed
qed simp

lemma qmp_replies_says:
  assumes "\<And>t. wi_send wi t = None" "list_all2 (says loads) ts ms" "list_all (\<lambda>m. \<exists>b. jval_in ''event'' m = Inr b) ms"
    "length cmds \<le> length (filter (\<lambda>m. \<not> is_event m) ms)"
  shows "qmp_replies loads wi cmds (unlines_of ts) [] = (Inr (take (length cmds) (filter (\<lambda>m. \<not> is_event m) ms)), map sent_line cmds)"
  using assms(2-4)
proof (induction cmds arbitrary: ts ms)
  case (Cons c cmds)
  then obtain r rs where f: "filter (\<lambda>m. \<not> is_event m) ms = r # rs" by (cases "filter (\<lambda>m. \<not> is_event m) ms") auto
  from next_reply_says [OF Cons(2,3) f, of "wi_end wi" "[]"] obtain ts' ms' where
    n: "next_reply loads (wi_end wi) (unlines_of ts) [] = (Inr r, unlines_of ts', [])" "list_all2 (says loads) ts' ms'"
      "list_all (\<lambda>m. \<exists>b. jval_in ''event'' m = Inr b) ms'" "filter (\<lambda>m. \<not> is_event m) ms' = rs" by auto
  with Cons.IH [OF n(2,3)] Cons(4) f assms(1) show ?case by simp
qed simp

text \<open>
  C6. The replies of a session are the messages after the greeting that are no events, in order, but for the first, which answers the
  negotiation, one for each command, however events are interleaved and the stream is cut; each command is sent on a line of its own.
\<close>

theorem replies_skip_events:
  assumes "wi_connect wi = None" "\<And>t. wi_send wi t = None" "no_gaps (wi_chunks wi)" "concat (wi_chunks wi) = unlines_of (t # ts)"
    and "says loads t g" "jval_in ''QMP'' g = Inr True" "list_all2 (says loads) ts ms" "list_all (\<lambda>m. \<exists>b. jval_in ''event'' m = Inr b) ms"
    and "Suc (length cmds) \<le> length (filter (\<lambda>m. \<not> is_event m) ms)"
  shows "qmp_command loads wi cmds =
      (Inr (take (length cmds) (tl (filter (\<lambda>m. \<not> is_event m) ms))), map sent_line (execute ''qmp_capabilities'' # cmds)) \<and>
    (\<forall>c \<in> set cmds. py_split LF (sent_line c) = [dumps_line c, []])"
proof
  obtain b1 c1 where "next_json loads (wi_end wi) [] (wi_chunks wi) = (Inr g, b1, c1)" "b1 @ concat c1 = unlines_of ts" "no_gaps c1"
  proof -
    obtain r b1 c1 where l: "next_json loads (wi_end wi) [] (wi_chunks wi) = (r, b1, c1)" by (cases "next_json loads (wi_end wi) [] (wi_chunks wi)")
    with next_json_flat [OF assms(3), of loads "wi_end wi" "[]"] assms(4)
    have "next_json loads (wi_end wi) (t @ LF # unlines_of ts) [] = (r, b1 @ concat c1, [])" "no_gaps c1"
      by (simp_all add: flat_def unlines_of_def)
    with next_json_says [OF assms(5)] l that show ?thesis by simp
  qed
  moreover from this have "qmp_replies loads wi (execute ''qmp_capabilities'' # cmds) b1 c1 =
      (Inr (take (Suc (length cmds)) (filter (\<lambda>m. \<not> is_event m) ms)), map sent_line (execute ''qmp_capabilities'' # cmds))"
    using qmp_replies_flat [of c1 loads wi "execute ''qmp_capabilities'' # cmds" b1]
      qmp_replies_says [OF assms(2,7,8), of "execute ''qmp_capabilities'' # cmds"] assms(9) by simp
  moreover have "tl (take (Suc (length cmds)) (filter (\<lambda>m. \<not> is_event m) ms)) = take (length cmds) (tl (filter (\<lambda>m. \<not> is_event m) ms))"
    by (cases "filter (\<lambda>m. \<not> is_event m) ms") simp_all
  ultimately show "qmp_command loads wi cmds =
      (Inr (take (length cmds) (tl (filter (\<lambda>m. \<not> is_event m) ms))), map sent_line (execute ''qmp_capabilities'' # cmds))"
    using assms(1,6) by (simp add: qmp_command_def del: qmp_replies.simps)
  show "\<forall>c \<in> set cmds. py_split LF (sent_line c) = [dumps_line c, []]"
    using dumps_line_line py_split_append py_split_no_sep by (auto simp: sent_line_def)
qed

section \<open>Suspending over the monitor\<close>

lemma qmp_replies_ok: "qmp_replies loads wi cmds buf cs = (Inr rs, sent) \<Longrightarrow> length rs = length cmds \<and> sent = map sent_line cmds"
  by (induction cmds arbitrary: buf cs rs sent) (auto split: option.splits prod.splits sum.splits)

lemma qmp_command_ok: "qmp_command loads wi cmds = (Inr rs, sent) \<Longrightarrow> length rs = length cmds \<and> sent = map sent_line (execute ''qmp_capabilities'' # cmds)"
  by (auto simp: qmp_command_def simp del: qmp_replies.simps split: option.splits prod.splits sum.splits bool.splits dest!: qmp_replies_ok)

text \<open>
  A virtual machine is suspended only by a session that negotiated, sent the one command \<^verbatim>\<open>stop\<close>, and got a reply that is no error.
\<close>

theorem suspend_sends_stop:
  assumes "suspend is_root os view (monitor_of loads open1) dir ''vm'' g = Some (Inr (), g')"
  shows "\<exists>wi w' r. open1 (g_world g) = (wi, w') \<and> jval_in ''error'' r = Inr False \<and>
    qmp_command loads wi [execute ''stop''] = (Inr [r], map sent_line [execute ''qmp_capabilities'', execute ''stop''])"
proof -
  from assms have "vm_qmp os (monitor_of loads open1) ''stop'' g = Some (Inr (), g')"
    by (auto simp: suspend_def dispatch_def probeP_def bindP_Some probe_now_def split: if_splits)
  then have "monitor_of loads open1 ''stop'' (g_world g) = (Inr False, g_world g')"
    by (auto simp: vm_qmp_def bindP_Some tryP_Some osP_def askP_def split: if_splits prod.splits)
  then obtain wi w' rs where m: "open1 (g_world g) = (wi, w')" "fst (qmp_command loads wi [execute ''stop'']) = Inr rs"
    "jval_in ''error'' (hd rs) = Inr False" by (auto simp: monitor_of_def split: prod.splits)
  obtain sent where q: "qmp_command loads wi [execute ''stop''] = (Inr rs, sent)" using m(2) by (cases "qmp_command loads wi [execute ''stop'']") simp
  from qmp_command_ok [OF q] obtain r where "rs = [r]" "sent = map sent_line [execute ''qmp_capabilities'', execute ''stop'']"
    by (cases rs) auto
  with m q show ?thesis by (intro exI [of _ wi] exI [of _ w'] exI [of _ r]) simp
qed

text \<open>
  A message that is a bare number makes the session raise a type error, not the value error of a malformed stream, and suspending
  lets it pass.
\<close>

theorem bare_value_is_type_error:
  assumes "wi_connect wi = None" "no_gaps (wi_chunks wi)" "concat (wi_chunks wi) = t @ LF # rest" "says loads t (JInt n)"
    and "open1 (g_world g) = (wi, w)" "os_sock os ''qmp.sock'' (g_world g)" "vm_up os g"
  shows "suspend True os view (monitor_of loads open1) dir ''vm'' g = Some (Inl TypeErrorC, g\<lparr>g_world := w\<rparr>)"
proof -
  from next_json_flat [OF assms(2), of loads "wi_end wi" "[]"] next_json_says [OF assms(4), of "wi_end wi" rest]
  have "fst (next_json loads (wi_end wi) [] (wi_chunks wi)) = Inr (JInt n)"
    by (cases "next_json loads (wi_end wi) [] (wi_chunks wi)") (simp add: flat_def assms(3))
  then have "qmp_command loads wi cmds = (Inl TypeErrorC, [])" for cmds
    using assms(1) by (cases "next_json loads (wi_end wi) [] (wi_chunks wi)") (simp add: qmp_command_def)
  then have m: "monitor_of loads open1 c (g_world g) = (Inl TypeErrorC, w)" for c by (simp add: monitor_of_def assms(5))
  have "\<not> catches [OSErrorC, ValueErrorC] TypeErrorC" by code_simp
  then have "vm_qmp os (monitor_of loads open1) ''stop'' g = Some (Inl TypeErrorC, g\<lparr>g_world := w\<rparr>)"
    using m assms(6) by (simp add: vm_qmp_def bindP.simps tryP.simps osP_run askP_def)
  then show ?thesis using assms(7) by (simp add: suspend_def dispatch_def probeP_def bindP.simps probe_now_def)
qed

section \<open>Instances of the properties\<close>

text \<open>A parser that knows four texts.\<close>

definition sample_loads :: "string \<Rightarrow> exc + jval" where
  "sample_loads t = (if t = ''G'' then Inr (JObj [(''QMP'', JObj [])]) else if t = ''R'' then Inr (JObj [(''return'', JObj [])])
     else if t = ''E'' then Inr (JObj [(''event'', JStr ''STOP'')]) else if t = ''7'' then Inr (JInt 7) else Inl ValueErrorC)"

definition sample_wire :: "string list \<Rightarrow> wire" where
  "sample_wire cs = \<lparr>wi_connect = None, wi_send = (\<lambda>_. None), wi_chunks = cs, wi_end = None\<rparr>"

lemma sample_says:
  "says sample_loads ''G'' (JObj [(''QMP'', JObj [])])" "says sample_loads ''R'' (JObj [(''return'', JObj [])])"
  "says sample_loads ''E'' (JObj [(''event'', JStr ''STOP'')])" "says sample_loads ''7'' (JInt 7)"
  by code_simp+

theorem chunks_do_not_matter_witness:
  "qmp_command sample_loads (sample_wire [''G'' @ [LF] @ ''R'', LF # ''R'' @ [LF]]) [execute ''stop''] =
     qmp_command sample_loads (sample_wire [''G'' @ [LF], ''R'' @ [LF] @ ''R'' @ [LF]]) [execute ''stop'']"
  using chunks_do_not_matter [of "sample_wire [''G'' @ [LF], ''R'' @ [LF] @ ''R'' @ [LF]]" "[''G'' @ [LF] @ ''R'', LF # ''R'' @ [LF]]"]
  by (simp add: sample_wire_def)

theorem replies_skip_events_witness:
  "qmp_command sample_loads (sample_wire [''G'' @ [LF] @ ''E'', LF # ''R'' @ [LF] @ ''E'', LF # ''R'' @ [LF]]) [execute ''stop''] =
     (Inr [JObj [(''return'', JObj [])]], map sent_line [execute ''qmp_capabilities'', execute ''stop''])"
proof -
  let ?e = "JObj [(''event'', JStr ''STOP'')]" and ?r = "JObj [(''return'', JObj [])]"
  let ?ms = "[?e, ?r, ?e, ?r]" and ?wi = "sample_wire [''G'' @ [LF] @ ''E'', LF # ''R'' @ [LF] @ ''E'', LF # ''R'' @ [LF]]"
  have ms: "list_all2 (says sample_loads) [''E'', ''R'', ''E'', ''R''] ?ms" using sample_says by simp
  have ev: "list_all (\<lambda>m. \<exists>b. jval_in ''event'' m = Inr b) ?ms" by auto
  have keep: "filter (\<lambda>m. \<not> is_event m) ?ms = [?r, ?r]" by (simp add: is_event_def)
  have wi: "wi_connect ?wi = None" "\<And>t. wi_send ?wi t = None" "no_gaps (wi_chunks ?wi)"
    "concat (wi_chunks ?wi) = unlines_of (''G'' # [''E'', ''R'', ''E'', ''R''])" by (simp_all add: sample_wire_def unlines_of_def)
  have "Suc (length [execute ''stop'']) \<le> length (filter (\<lambda>m. \<not> is_event m) ?ms)" unfolding keep by simp
  from replies_skip_events [OF wi sample_says(1) _ ms ev this] show ?thesis unfolding keep by simp
qed

text \<open>A machine that is up, behind whose socket a monitor answers the given chunks.\<close>

definition monitored_os :: "string list os" where
  "monitored_os =
     \<lparr>os_run = (\<lambda>_ _ w. (Inr (0, []), w)), os_spawn = (\<lambda>_ w. (Inr 1, w)), os_alive = (\<lambda>_ _. True), os_exited = (\<lambda>_ _. False),
      os_kill = (\<lambda>_ _ w. (Inr (), w)), os_wait = (\<lambda>_ _ w. (Inr (), w)), os_now = (\<lambda>_. 0), os_sleep = (\<lambda>_ w. w),
      os_sock = (\<lambda>_ _. True), os_unlink_sock = (\<lambda>_ w. w), os_which = (\<lambda>_. None), os_is_file = (\<lambda>_ _. False),
      os_link = (\<lambda>_. Inl FileNotFoundErrorC)\<rparr>"

definition monitored :: "string list \<Rightarrow> string list guest" where
  "monitored cs = \<lparr>g_files = [''kento-qemu-pid'' \<mapsto> ''42''], g_world = cs\<rparr>"

lemma monitored_up: "vm_up monitored_os (monitored cs)" "os_sock monitored_os s w"
proof -
  have "py_int (file_text ''42'') = Some 42" by code_simp
  then show "vm_up monitored_os (monitored cs)" by (simp add: vm_up_def monitored_def monitored_os_def)
  show "os_sock monitored_os s w" by (simp add: monitored_os_def)
qed

theorem bare_value_is_type_error_witness:
  "suspend True monitored_os (\<lambda>_. Inl OSErrorC) (monitor_of sample_loads (\<lambda>cs. (sample_wire cs, []))) ''/v'' ''vm'' (monitored [''7'' @ [LF]]) =
     Some (Inl TypeErrorC, (monitored [''7'' @ [LF]])\<lparr>g_world := []\<rparr>)"
proof -
  have "wi_connect (sample_wire [''7'' @ [LF]]) = None" "no_gaps (wi_chunks (sample_wire [''7'' @ [LF]]))"
    "concat (wi_chunks (sample_wire [''7'' @ [LF]])) = ''7'' @ LF # []" by (simp_all add: sample_wire_def)
  note * = bare_value_is_type_error [where ?open1.0 = "\<lambda>cs. (sample_wire cs, [])" and w = "[]" and g = "monitored [''7'' @ [LF]]" and os = monitored_os,
      OF this sample_says(4) _ monitored_up(2,1)]
  show ?thesis by (rule *) (simp add: monitored_def)
qed

theorem suspend_sends_stop_witness:
  "\<exists>wi w' r. (sample_wire [''G'' @ [LF] @ ''R'', LF # ''R'' @ [LF]], [] :: string list) = (wi, w') \<and> jval_in ''error'' r = Inr False \<and>
     qmp_command sample_loads wi [execute ''stop''] = (Inr [r], map sent_line [execute ''qmp_capabilities'', execute ''stop''])"
proof -
  let ?cs = "[''G'' @ [LF] @ ''R'', LF # ''R'' @ [LF]]"
  let ?m = "monitor_of sample_loads (\<lambda>cs. (sample_wire cs, [] :: string list))"
  have "fst (qmp_command sample_loads (sample_wire ?cs) [execute ''stop'']) = Inr [JObj [(''return'', JObj [])]]" by code_simp
  then have "?m ''stop'' ?cs = (Inr False, [])" by (simp add: monitor_of_def)
  then have "suspend True monitored_os (\<lambda>_. Inl OSErrorC) ?m ''/v'' ''vm'' (monitored ?cs) = Some (Inr (), (monitored ?cs)\<lparr>g_world := []\<rparr>)"
    using monitored_up
    by (simp add: suspend_def dispatch_def probeP_def bindP.simps probe_now_def vm_qmp_def tryP.simps osP_run askP_def monitored_def)
  from suspend_sends_stop [OF this] show ?thesis by (simp add: monitored_def)
qed

end
