(* ===== verification/Console.thy ===== *)
theory Console imports Lifecycle begin

text \<open>
  Working inside an instance: \<^verbatim>\<open>attach.py\<close> with the escape of its serial relay, \<^verbatim>\<open>exec_cmd.py\<close>, \<^verbatim>\<open>logs.py\<close> and the stream of
  journal lines of \<^verbatim>\<open>_instances.py\<close>.  A byte is a character.  The terminal, the socket and the standard streams are the fields of a
  record of operations on the world; a child's output is read by an argument.  An error of a stream without a descriptor is a value error.
\<close>

section \<open>The escape\<close>

definition ESCAPE_BYTE :: char where "ESCAPE_BYTE = CHR 0x1D"

datatype relay_action = Forward string | Detach | Swallow

text \<open>What is done with a byte, and whether the detector is armed after it.\<close>

definition feed :: "bool \<Rightarrow> char \<Rightarrow> relay_action \<times> bool" where
  "feed armed b =
     (if \<not> armed then (if b = ESCAPE_BYTE then (Swallow, True) else (Forward [b], False))
      else if b = CHR ''Q'' \<or> b = CHR ''q'' then (Detach, False)
      else if b = ESCAPE_BYTE then (Forward [ESCAPE_BYTE], False)
      else (Forward [ESCAPE_BYTE, b], False))"

text \<open>The bytes of one read: what is to be sent, whether to detach, and the detector.\<close>

fun feed_all :: "bool \<Rightarrow> string \<Rightarrow> string \<times> bool \<times> bool" where
  "feed_all armed [] = ([], False, armed)"
| "feed_all armed (b # bs) =
     (case feed armed b of
        (Detach, a) \<Rightarrow> ([], True, a)
      | (Forward p, a) \<Rightarrow> (case feed_all a bs of (out, d, a') \<Rightarrow> (p @ out, d, a'))
      | (Swallow, a) \<Rightarrow> feed_all a bs)"

section \<open>The relay\<close>

record 'w terminal =
  te_sock_there :: "'w \<Rightarrow> bool"
  te_isatty :: "'w \<Rightarrow> exc + bool"
  te_connect :: "'w \<Rightarrow> (exc + unit) \<times> 'w"
  te_getattr :: "'w \<Rightarrow> exc + string"
  te_setraw :: "'w \<Rightarrow> (exc + unit) \<times> 'w"
  te_setattr :: "string \<Rightarrow> 'w \<Rightarrow> (exc + unit) \<times> 'w"
  te_close :: "'w \<Rightarrow> (exc + unit) \<times> 'w"
  te_select :: "'w \<Rightarrow> (exc + (bool \<times> bool)) \<times> 'w"
  te_recv :: "'w \<Rightarrow> (exc + string) \<times> 'w"
  te_write :: "string \<Rightarrow> 'w \<Rightarrow> (exc + nat) \<times> 'w"
  te_read :: "'w \<Rightarrow> (exc + string) \<times> 'w"
  te_sendall :: "string \<Rightarrow> 'w \<Rightarrow> (exc + unit) \<times> 'w"

partial_function (option) write_all :: "'w terminal \<Rightarrow> string \<Rightarrow> 'w \<Rightarrow> ((exc + unit) \<times> 'w) option" where
  "write_all te data w =
     (if data = [] then Some (Inr (), w)
      else case te_write te data w of (Inl e, w') \<Rightarrow> Some (Inl e, w') | (Inr n, w') \<Rightarrow> write_all te (drop n data) w')"

text \<open>One round: what the socket has is written out, what was typed is sent.  The detector, unless the session is over.\<close>

definition relay_output :: "'w terminal \<Rightarrow> bool \<Rightarrow> (bool, 'w) prog" where
  "relay_output te ready =
     (if \<not> ready then give True
      else bindP (act (te_recv te)) (\<lambda>data. if data = [] then give False else seqP (write_all te data) (give True)))"

definition relay_input :: "'w terminal \<Rightarrow> bool \<Rightarrow> bool \<Rightarrow> (bool option, 'w) prog" where
  "relay_input te ready armed =
     (if \<not> ready then give (Some armed)
      else bindP (act (te_read te)) (\<lambda>data.
        if data = [] then give None
        else (case feed_all armed data of (out, detached, a) \<Rightarrow>
          seqP (if out \<noteq> [] then act (te_sendall te out) else give ()) (give (if detached then None else Some a)))))"

definition relay_round :: "'w terminal \<Rightarrow> bool \<Rightarrow> (bool option, 'w) prog" where
  "relay_round te armed =
     bindP (act (te_select te)) (\<lambda>(typed, got). bindP (relay_output te got) (\<lambda>go.
       if \<not> go then give None else relay_input te typed armed))"

partial_function (option) relay_loop :: "'w terminal \<Rightarrow> bool \<Rightarrow> 'w \<Rightarrow> ((exc + unit) \<times> 'w) option" where
  "relay_loop te armed w =
     (case relay_round te armed w of
        None \<Rightarrow> None
      | Some (Inl e, w') \<Rightarrow> Some (Inl e, w')
      | Some (Inr None, w') \<Rightarrow> Some (Inr (), w')
      | Some (Inr (Some a), w') \<Rightarrow> relay_loop te a w')"

text \<open>\<^verbatim>\<open>try ... finally\<close>: what the cleanup raises replaces what was raised.\<close>

definition finallyP :: "('a, 'w) prog \<Rightarrow> (unit, 'w) prog \<Rightarrow> ('a, 'w) prog" where
  "finallyP m f w = (case m w of None \<Rightarrow> None
     | Some (r, w') \<Rightarrow> (case f w' of None \<Rightarrow> None | Some (Inl e, w2) \<Rightarrow> Some (Inl e, w2) | Some (Inr _, w2) \<Rightarrow> Some (r, w2)))"

definition relay_serial :: "'w terminal \<Rightarrow> (int, 'w) prog" where
  "relay_serial te =
     bindP (look (te_sock_there te)) (\<lambda>there.
     if \<not> there then raise_exc StateErrorC
     else bindP (bindP (look (te_isatty te)) (\<lambda>r. case r of
            Inr b \<Rightarrow> give b
          | Inl e \<Rightarrow> if catches [OSErrorC, ValueErrorC] e then give False else raise_exc e)) (\<lambda>tty.
     if \<not> tty then raise_exc StateErrorC
     else seqP (exceptP [OSErrorC] (act (te_connect te)) (raise_exc StateErrorC))
     (bindP (bindP (look (te_getattr te)) pure_res) (\<lambda>old_attrs.
      seqP (finallyP (seqP (act (te_setraw te)) (relay_loop te False))
             (seqP (act (te_setattr te old_attrs)) (act (te_close te))))
        (give 0)))))"

section \<open>Dispatch\<close>

text \<open>A program with the streams of the caller; its exit code.\<close>

definition run_code :: "'w os \<Rightarrow> string list \<Rightarrow> (int, 'w guest) prog" where
  "run_code os argv = bindP (osP (os_run os None argv)) (\<lambda>(rc, _). give rc)"

definition on_world :: "('a, 'w) prog \<Rightarrow> ('a, 'w guest) prog" where
  "on_world m g = (case m (g_world g) of None \<Rightarrow> None | Some (r, w) \<Rightarrow> Some (r, g\<lparr>g_world := w\<rparr>))"

definition attach ::
  "bool \<Rightarrow> 'w os \<Rightarrow> (base \<Rightarrow> string \<Rightarrow> 'w terminal) \<Rightarrow> store \<Rightarrow> string \<Rightarrow> string option \<Rightarrow> (int, 'w guest) prog" where
  "attach is_root os te st name namespace =
     (if \<not> is_root then raise_exc StateErrorC
      else bindP (pure_res (resolve_any st name namespace)) (\<lambda>((b, d, fs), mode).
        if mode = ''vm'' then on_world (relay_serial (te b d))
        else if mode = ''pve-vm'' then
          (case fs ''kento-vmid'' of None \<Rightarrow> raise_exc FileNotFoundErrorC
           | Some t \<Rightarrow> run_code os [''qm'', ''terminal'', file_text t])
        else if mode = ''pve'' then run_code os [''pct'', ''enter'', d]
        else run_code os [''lxc-attach'', ''-n'', name]))"

definition wrap_command :: "string list \<Rightarrow> string option \<Rightarrow> (string \<times> string) list \<Rightarrow> string list" where
  "wrap_command command user env =
     (let inner = (if env \<noteq> [] then ''env'' # map (\<lambda>(k, v). k @ ''='' @ v) env else []) @ command
      in case user of None \<Rightarrow> inner | Some u \<Rightarrow> [''runuser'', ''-u'', u, ''--''] @ inner)"

text \<open>The program that runs a command in a container.\<close>

definition inside :: "string \<Rightarrow> string \<Rightarrow> string \<Rightarrow> string list" where
  "inside mode d name = (if mode = ''pve'' then [''pct'', ''exec'', d, ''--''] else [''lxc-attach'', ''-n'', name, ''--''])"

definition exec_cmd ::
  "bool \<Rightarrow> 'w os \<Rightarrow> store \<Rightarrow> string \<Rightarrow> string list \<Rightarrow> string option \<Rightarrow> string option \<Rightarrow> (string \<times> string) list \<Rightarrow> (int, 'w guest) prog" where
  "exec_cmd is_root os st name command namespace user env =
     (if \<not> is_root then raise_exc StateErrorC
      else if command = [] then raise_exc ValidationErrorC
      else bindP (pure_res (resolve_any st name namespace)) (\<lambda>((b, d, fs), mode).
        if mode = ''vm'' \<or> mode = ''pve-vm'' then raise_exc ModeErrorC
        else run_code os (inside mode d name @ wrap_command command user env)))"

definition logs :: "bool \<Rightarrow> 'w os \<Rightarrow> store \<Rightarrow> string \<Rightarrow> string list \<Rightarrow> string option \<Rightarrow> (int, 'w guest) prog" where
  "logs is_root os st name args namespace =
     (if \<not> is_root then raise_exc StateErrorC
      else bindP (pure_res (resolve_any st name namespace)) (\<lambda>((b, d, fs), mode).
        if mode = ''vm'' \<or> mode = ''pve-vm'' then raise_exc ModeErrorC
        else run_code os (inside mode d name @ ''journalctl'' # args)))"

section \<open>The stream of journal lines\<close>

definition logs_argv :: "string \<Rightarrow> string \<Rightarrow> string \<Rightarrow> bool \<Rightarrow> int option \<Rightarrow> string list \<Rightarrow> exc + string list" where
  "logs_argv mode d name follow lines args =
     (if lines \<noteq> None \<and> the lines < 0 then Inl ValidationErrorC
      else Inr (inside mode d name @ ''journalctl'' #
        (if follow then [''-f''] else []) @ (case lines of None \<Rightarrow> [] | Some n \<Rightarrow> [''-n'', int_str n]) @ args))"

text \<open>A wait without a bound is a bounded wait that is taken again when it times out.\<close>

partial_function (option) wait_exit :: "'w os \<Rightarrow> int \<Rightarrow> 'w guest \<Rightarrow> ((exc + unit) \<times> 'w guest) option" where
  "wait_exit os pid g =
     (case os_wait os pid 1 (g_world g) of
        (Inr _, w) \<Rightarrow> Some (Inr (), g\<lparr>g_world := w\<rparr>)
      | (Inl e, w) \<Rightarrow> if e = TimeoutExpiredC then wait_exit os pid (g\<lparr>g_world := w\<rparr>) else Some (Inl e, g\<lparr>g_world := w\<rparr>))"

definition reap_child :: "'w os \<Rightarrow> int \<Rightarrow> (unit, 'w guest) prog" where
  "reap_child os pid =
     exceptP [ExceptionC]
       (bindP (askP (os_exited os pid)) (\<lambda>gone.
         if gone then give ()
         else seqP (popen_signal os pid SIGTERM)
           (exceptP [TimeoutExpiredC] (osP (os_wait os pid 2)) (seqP (popen_signal os pid SIGKILL) (wait_exit os pid)))))
       (give ())"

definition rstrip_lf :: "string \<Rightarrow> string" where "rstrip_lf l = rev (dropWhile (\<lambda>c. c = LF) (rev l))"

text \<open>The lines a consumer that asks \<open>n\<close> times is given, and whether the child's output ended before.\<close>

fun pull :: "(int \<Rightarrow> 'w \<Rightarrow> (exc + string option) \<times> 'w) \<Rightarrow> int \<Rightarrow> nat \<Rightarrow> (string list \<times> bool, 'w guest) prog" where
  "pull rd pid 0 = give ([], False)"
| "pull rd pid (Suc n) = bindP (osP (rd pid)) (\<lambda>l. case l of None \<Rightarrow> give ([], True)
     | Some x \<Rightarrow> bindP (pull rd pid n) (\<lambda>(ls, ended). give (rstrip_lf x # ls, ended)))"

text \<open>A generator that is closed before it is asked never starts.\<close>

definition stream_lines ::
  "'w os \<Rightarrow> (int \<Rightarrow> 'w \<Rightarrow> (exc + string option) \<times> 'w) \<Rightarrow> string list \<Rightarrow> nat \<Rightarrow> (string list, 'w guest) prog" where
  "stream_lines os rd argv n =
     (if n = 0 then give []
      else bindP (osP (os_spawn os argv)) (\<lambda>pid.
        finallyP (bindP (pull rd pid n) (\<lambda>(ls, ended). seqP (whenP ended (wait_exit os pid)) (give ls))) (reap_child os pid)))"

section \<open>The escape, read by read\<close>

lemma feed_all_append:
  "feed_all a (xs @ ys) = (case feed_all a xs of (out, d, a') \<Rightarrow>
     if d then (out, True, a') else (case feed_all a' ys of (out2, d2, a2) \<Rightarrow> (out @ out2, d2, a2)))"
  by (induction xs arbitrary: a) (auto split: prod.splits relay_action.splits if_splits)

text \<open>What is to be typed for the bytes to be sent.\<close>

definition escaped :: "string \<Rightarrow> string" where
  "escaped bs = concat (map (\<lambda>b. if b = ESCAPE_BYTE then [ESCAPE_BYTE, ESCAPE_BYTE] else [b]) bs)"

lemma feed_escaped: "feed_all False (escaped bs) = (bs, False, False)"
proof (induction bs)
  case (Cons b bs)
  have "ESCAPE_BYTE \<noteq> CHR ''Q''" "ESCAPE_BYTE \<noteq> CHR ''q''" by (simp_all add: ESCAPE_BYTE_def)
  with Cons show ?case by (simp add: escaped_def feed_def)
qed (simp add: escaped_def)

lemma feed_detach: "q = CHR ''Q'' \<or> q = CHR ''q'' \<Longrightarrow> feed_all False (escaped bs @ ESCAPE_BYTE # q # rest) = (bs, True, False)"
  by (simp add: feed_all_append feed_escaped) (auto simp: feed_def ESCAPE_BYTE_def)

section \<open>A session at a desk\<close>

text \<open>
  A terminal with a script: what is typed and what the console prints, round by round, until the console closes.  Standard output
  takes at most so many bytes at once.
\<close>

record desk =
  dk_script :: "(string \<times> string) list"
  dk_typed :: string
  dk_printed :: string
  dk_sent :: string
  dk_shown :: string
  dk_attrs :: string
  dk_open :: bool

definition desk_terminal :: "nat \<Rightarrow> desk terminal" where
  "desk_terminal k =
     \<lparr>te_sock_there = (\<lambda>_. True), te_isatty = (\<lambda>_. Inr True),
      te_connect = (\<lambda>d. (Inr (), d\<lparr>dk_open := True\<rparr>)),
      te_getattr = (\<lambda>d. Inr (dk_attrs d)),
      te_setraw = (\<lambda>d. (Inr (), d\<lparr>dk_attrs := ''raw''\<rparr>)),
      te_setattr = (\<lambda>t d. (Inr (), d\<lparr>dk_attrs := t\<rparr>)),
      te_close = (\<lambda>d. (Inr (), d\<lparr>dk_open := False\<rparr>)),
      te_select = (\<lambda>d. case dk_script d of [] \<Rightarrow> (Inr (False, True), d\<lparr>dk_typed := [], dk_printed := []\<rparr>)
         | (i, s) # rest \<Rightarrow> (Inr (i \<noteq> [], s \<noteq> []), d\<lparr>dk_script := rest, dk_typed := i, dk_printed := s\<rparr>)),
      te_recv = (\<lambda>d. (Inr (dk_printed d), d)),
      te_write = (\<lambda>t d. (Inr (min k (length t)), d\<lparr>dk_shown := dk_shown d @ take k t\<rparr>)),
      te_read = (\<lambda>d. (Inr (dk_typed d), d)),
      te_sendall = (\<lambda>t d. (Inr (), d\<lparr>dk_sent := dk_sent d @ t\<rparr>))\<rparr>"

lemma desk_write:
  assumes "0 < k"
  shows "write_all (desk_terminal k) t d = Some (Inr (), d\<lparr>dk_shown := dk_shown d @ t\<rparr>)"
proof (induction "length t" arbitrary: t d rule: less_induct)
  case less
  show ?case
  proof (cases "t = []")
    case True
    then show ?thesis by (subst write_all.simps) simp
  next
    case False
    then have "length (drop (min k (length t)) t) < length t" using assms by (simp add: min_def)
    note IH = less [OF this, of "d\<lparr>dk_shown := dk_shown d @ take k t\<rparr>"]
    have "te_write (desk_terminal k) t d = (Inr (min k (length t)), d\<lparr>dk_shown := dk_shown d @ take k t\<rparr>)" by (simp add: desk_terminal_def)
    moreover have "take k t @ drop (min k (length t)) t = t" by (cases "k \<le> length t") (simp_all add: min_def)
    ultimately show ?thesis using False IH by (subst write_all.simps) simp
  qed
qed

lemma desk_round:
  assumes "0 < k"
  shows "relay_round (desk_terminal k) a d = (case dk_script d of
      [] \<Rightarrow> Some (Inr None, d\<lparr>dk_typed := [], dk_printed := []\<rparr>)
    | (i, s) # rest \<Rightarrow> (case feed_all a i of (out, det, a') \<Rightarrow> Some (Inr (if det then None else Some a'),
        d\<lparr>dk_script := rest, dk_typed := i, dk_printed := s, dk_sent := dk_sent d @ out, dk_shown := dk_shown d @ s\<rparr>)))"
  (is "?l = ?r")
proof (cases "dk_script d")
  case Nil
  then show ?thesis by (simp add: relay_round_def relay_output_def desk_terminal_def bindP.simps)
next
  case (Cons x rest)
  obtain i s where x: "x = (i, s)" by (cases x)
  let ?d = "d\<lparr>dk_script := rest, dk_typed := i, dk_printed := s\<rparr>" and ?d2 = "d\<lparr>dk_script := rest, dk_typed := i, dk_printed := s, dk_shown := dk_shown d @ s\<rparr>"
  have sel: "te_select (desk_terminal k) d = (Inr (i \<noteq> [], s \<noteq> []), ?d)" using Cons x by (simp add: desk_terminal_def)
  have rd: "te_recv (desk_terminal k) ?d = (Inr s, ?d)" "te_read (desk_terminal k) ?d2 = (Inr i, ?d2)"
    "te_sendall (desk_terminal k) t ?d2 = (Inr (), ?d2\<lparr>dk_sent := dk_sent d @ t\<rparr>)" for t by (simp_all add: desk_terminal_def)
  have out: "relay_output (desk_terminal k) (s \<noteq> []) ?d = Some (Inr True, ?d2)"
    using rd(1) desk_write [OF assms, of s ?d] by (cases "s = []") (simp_all add: relay_output_def bindP.simps seqP_def)
  obtain o1 det a' where f: "feed_all a i = (o1, det, a')" by (cases "feed_all a i")
  have "relay_input (desk_terminal k) (i \<noteq> []) a ?d2 = Some (Inr (if det then None else Some a'), ?d2\<lparr>dk_sent := dk_sent d @ o1\<rparr>)"
    using rd(2,3) f by (cases "i = []"; cases "o1 = []") (simp_all add: relay_input_def bindP.simps seqP_def)
  with sel out Cons x f show ?thesis by (simp add: relay_round_def bindP.simps)
qed

lemma desk_loop:
  assumes "0 < k"
  shows "\<exists>used rest d'. relay_loop (desk_terminal k) a d = Some (Inr (), d') \<and> dk_script d = used @ rest \<and>
    dk_sent d' = dk_sent d @ fst (feed_all a (concat (map fst (dk_script d)))) \<and> dk_shown d' = dk_shown d @ concat (map snd used) \<and>
    (\<not> fst (snd (feed_all a (concat (map fst (dk_script d))))) \<longrightarrow> rest = []) \<and> dk_open d' = dk_open d"
proof (induction "dk_script d" arbitrary: a d)
  case Nil
  then show ?case using desk_round [OF assms, of a d] by (subst relay_loop.simps) simp
next
  case (Cons x script)
  obtain i s where x: "x = (i, s)" by (cases x)
  obtain o1 det a' where f: "feed_all a i = (o1, det, a')" by (cases "feed_all a i")
  let ?d = "d\<lparr>dk_script := script, dk_typed := i, dk_printed := s, dk_sent := dk_sent d @ o1, dk_shown := dk_shown d @ s\<rparr>"
  have r: "relay_round (desk_terminal k) a d = Some (Inr (if det then None else Some a'), ?d)"
    using desk_round [OF assms, of a d] Cons(2) [symmetric] x f by simp
  show ?case
  proof (cases det)
    case True
    then have "relay_loop (desk_terminal k) a d = Some (Inr (), ?d)" using r by (subst relay_loop.simps) simp
    then show ?thesis using Cons(2) [symmetric] x f True by (intro exI [of _ "[x]"] exI [of _ script] exI [of _ ?d]) (simp add: feed_all_append)
  next
    case False
    then have l: "relay_loop (desk_terminal k) a d = relay_loop (desk_terminal k) a' ?d" using r by (subst relay_loop.simps) simp
    have "\<exists>used rest d'. relay_loop (desk_terminal k) a' ?d = Some (Inr (), d') \<and> script = used @ rest \<and>
        dk_sent d' = dk_sent d @ o1 @ fst (feed_all a' (concat (map fst script))) \<and> dk_shown d' = dk_shown d @ s @ concat (map snd used) \<and>
        (\<not> fst (snd (feed_all a' (concat (map fst script)))) \<longrightarrow> rest = []) \<and> dk_open d' = dk_open d"
      using Cons(1) [of ?d a'] by simp
    then obtain used rest d' where IH: "relay_loop (desk_terminal k) a' ?d = Some (Inr (), d')" "script = used @ rest"
      "dk_sent d' = dk_sent d @ o1 @ fst (feed_all a' (concat (map fst script)))" "dk_shown d' = dk_shown d @ s @ concat (map snd used)"
      "\<not> fst (snd (feed_all a' (concat (map fst script)))) \<longrightarrow> rest = []" "dk_open d' = dk_open d" by blast
    have "feed_all a (concat (map fst (dk_script d))) = (case feed_all a' (concat (map fst script)) of (o2, d2, a2) \<Rightarrow> (o1 @ o2, d2, a2))"
      using Cons(2) [symmetric] x f False by (simp add: feed_all_append)
    with l IH Cons(2) [symmetric] x show ?thesis
      by (intro exI [of _ "x # used"] exI [of _ rest] exI [of _ d']) (simp split: prod.splits)
  qed
qed

text \<open>
  C5. Typing the escaped form of any bytes and then the escape and a \<^verbatim>\<open>q\<close> sends exactly those bytes and detaches, however the
  terminal cuts what is typed into reads, whatever is typed after and however little standard output takes at once; the terminal's
  attributes are restored, the socket is closed, and what was shown is what the console printed in the rounds up to then.
\<close>

theorem console_session:
  assumes "0 < k" "concat (map fst (dk_script d)) = escaped bs @ ESCAPE_BYTE # q # later" "q = CHR ''Q'' \<or> q = CHR ''q''"
  shows "\<exists>used rest d'. relay_serial (desk_terminal k) d = Some (Inr 0, d') \<and> dk_sent d' = dk_sent d @ bs \<and> dk_attrs d' = dk_attrs d \<and>
    \<not> dk_open d' \<and> dk_script d = used @ rest \<and> dk_shown d' = dk_shown d @ concat (map snd used)"
proof -
  let ?te = "desk_terminal k" and ?d = "d\<lparr>dk_open := True, dk_attrs := ''raw''\<rparr>"
  have "feed_all False (concat (map fst (dk_script ?d))) = (bs, True, False)" using feed_detach [OF assms(3)] assms(2) by simp
  with desk_loop [OF assms(1), of False ?d] obtain used rest d' where
    l: "relay_loop ?te False ?d = Some (Inr (), d')" "dk_script d = used @ rest" "dk_sent d' = dk_sent d @ bs"
      "dk_shown d' = dk_shown d @ concat (map snd used)" by auto
  have te: "te_sock_there ?te w" "te_isatty ?te w = Inr True" "te_connect ?te w = (Inr (), w\<lparr>dk_open := True\<rparr>)" "te_getattr ?te w = Inr (dk_attrs w)"
    "te_setraw ?te w = (Inr (), w\<lparr>dk_attrs := ''raw''\<rparr>)" "te_setattr ?te t w = (Inr (), w\<lparr>dk_attrs := t\<rparr>)"
    "te_close ?te w = (Inr (), w\<lparr>dk_open := False\<rparr>)" for w t by (simp_all add: desk_terminal_def)
  have "relay_serial ?te d = Some (Inr 0, d'\<lparr>dk_attrs := dk_attrs d, dk_open := False\<rparr>)"
    using l(1) by (simp add: relay_serial_def bindP.simps seqP_def exceptP_def tryP.simps finallyP_def te)
  then show ?thesis using l by (intro exI [of _ used] exI [of _ rest]) simp
qed

theorem console_session_witness:
  "\<exists>used rest d'. relay_serial (desk_terminal 2)
       \<lparr>dk_script = [(''l'', []), (''s'' @ [ESCAPE_BYTE], ''out''), (ESCAPE_BYTE # [ESCAPE_BYTE], ''put''), (''qx'', []), (''y'', ''z'')],
        dk_typed = [], dk_printed = [], dk_sent = [], dk_shown = [], dk_attrs = ''cooked'', dk_open = False\<rparr> = Some (Inr 0, d') \<and>
     dk_sent d' = ''ls'' @ [ESCAPE_BYTE] \<and> dk_attrs d' = ''cooked'' \<and> \<not> dk_open d' \<and>
     [(''l'', []), (''s'' @ [ESCAPE_BYTE], ''out''), (ESCAPE_BYTE # [ESCAPE_BYTE], ''put''), (''qx'', []), (''y'', ''z'')] = used @ rest \<and>
     dk_shown d' = concat (map snd used)"
  using console_session [of 2 "\<lparr>dk_script = [(''l'', []), (''s'' @ [ESCAPE_BYTE], ''out''), (ESCAPE_BYTE # [ESCAPE_BYTE], ''put''), (''qx'', []), (''y'', ''z'')],
        dk_typed = [], dk_printed = [], dk_sent = [], dk_shown = [], dk_attrs = ''cooked'', dk_open = False\<rparr>" "''ls'' @ [ESCAPE_BYTE]" "CHR ''q''" "''xy''"]
  by (simp add: escaped_def ESCAPE_BYTE_def)

section \<open>The end of a session\<close>

lemma finallyP_Some:
  "finallyP m f w = Some (r, w') \<longleftrightarrow> (\<exists>r1 w1 x. m w = Some (r1, w1) \<and> f w1 = Some (x, w') \<and> r = (case x of Inl e \<Rightarrow> Inl e | Inr _ \<Rightarrow> r1))"
  by (auto simp: finallyP_def split: option.splits sum.splits)

text \<open>
  C10. A session on a terminal that was connected, however it ends - detached, closed, or by an error of the socket, the terminal or
  the screen - ends with restoring the attributes that were read and then closing the socket; a restore that fails is what it raises,
  and the socket stays open.
\<close>

theorem session_restores_terminal:
  assumes "relay_serial te w = Some (r, w')" "te_sock_there te w" "te_isatty te w = Inr True" "te_connect te w = (Inr (), w1)"
    and "te_getattr te w1 = Inr old"
  shows "\<exists>w2 x w3. te_setattr te old w2 = (x, w3) \<and> (case x of Inl e \<Rightarrow> r = Inl e \<and> w' = w3 | Inr _ \<Rightarrow> w' = snd (te_close te w3))"
proof -
  let ?body = "seqP (act (te_setraw te)) (relay_loop te False)" and ?after = "seqP (act (te_setattr te old)) (act (te_close te))"
  have "bindP (finallyP ?body ?after) (\<lambda>_. give 0) w1 = Some (r, w')"
    using assms by (simp add: relay_serial_def bindP.simps seqP_def exceptP_def tryP.simps)
  then obtain s where "finallyP ?body ?after w1 = Some (s, w')" "r = (case s of Inl e \<Rightarrow> Inl e | Inr _ \<Rightarrow> Inr 0)"
    by (auto simp: bindP_Some)
  then obtain r1 w2 x where e: "?after w2 = Some (x, w')" "s = (case x of Inl e \<Rightarrow> Inl e | Inr _ \<Rightarrow> r1)" by (auto simp: finallyP_Some)
  obtain y w3 where y: "te_setattr te old w2 = (y, w3)" by (cases "te_setattr te old w2")
  with e have "case y of Inl e \<Rightarrow> r = Inl e \<and> w' = w3 | Inr _ \<Rightarrow> w' = snd (te_close te w3)"
    using \<open>r = _\<close> by (cases y) (auto simp: seqP_def bindP.simps)
  with y show ?thesis by blast
qed

text \<open>A terminal that hangs up while raw: reading what is typed fails.\<close>

definition hung_up :: "desk terminal" where
  "hung_up = (desk_terminal 1)\<lparr>te_read := \<lambda>d. (Inl OSErrorC, d)\<rparr>"

theorem session_restores_terminal_witness:
  "\<exists>d'. relay_serial hung_up \<lparr>dk_script = [(''a'', [])], dk_typed = [], dk_printed = [], dk_sent = [], dk_shown = [], dk_attrs = ''cooked'', dk_open = False\<rparr> =
     Some (Inl OSErrorC, d') \<and> dk_attrs d' = ''cooked'' \<and> \<not> dk_open d'"
proof -
  let ?d = "\<lparr>dk_script = [(''a'', [])], dk_typed = [], dk_printed = [], dk_sent = [], dk_shown = [], dk_attrs = ''cooked'', dk_open = False\<rparr>"
  let ?w1 = "?d\<lparr>dk_open := True\<rparr>"
  have te: "te_sock_there hung_up w" "te_isatty hung_up w = Inr True" "te_connect hung_up w = (Inr (), w\<lparr>dk_open := True\<rparr>)"
    "te_getattr hung_up w = Inr (dk_attrs w)" "te_setraw hung_up w = (Inr (), w\<lparr>dk_attrs := ''raw''\<rparr>)"
    "te_setattr hung_up t w = (Inr (), w\<lparr>dk_attrs := t\<rparr>)" "te_close hung_up w = (Inr (), w\<lparr>dk_open := False\<rparr>)" for w t
    by (simp_all add: hung_up_def desk_terminal_def)
  have "relay_loop hung_up False (?w1\<lparr>dk_attrs := ''raw''\<rparr>) = Some (Inl OSErrorC, ?w1\<lparr>dk_attrs := ''raw'', dk_script := [], dk_typed := ''a''\<rparr>)"
    by (subst relay_loop.simps) (simp add: relay_round_def relay_output_def relay_input_def bindP.simps hung_up_def desk_terminal_def)
  then obtain d' where d': "relay_serial hung_up ?d = Some (Inl OSErrorC, d')"
    by (simp add: relay_serial_def bindP.simps seqP_def exceptP_def tryP.simps finallyP_def te)
  from session_restores_terminal [OF this te(1,2) te(3) te(4)]
  have "dk_attrs d' = ''cooked'' \<and> \<not> dk_open d'" by (auto simp: te)
  with d' show ?thesis by blast
qed

section \<open>No follower is left\<close>

text \<open>Waiting for a child that is gone returns.\<close>

definition waits_return :: "'w os \<Rightarrow> bool" where
  "waits_return os \<longleftrightarrow> (\<forall>pid d w. \<not> os_alive os pid w \<longrightarrow> (\<exists>w'. os_wait os pid d w = (Inr (), w')))"

lemma reap_child_reaps:
  assumes "signals_work os" "gone_stays os" "reaps os" "waits_return os"
  shows "\<exists>w'. reap_child os pid g = Some (Inr (), g\<lparr>g_world := w'\<rparr>) \<and> \<not> os_alive os pid w'"
proof (cases "os_exited os pid (g_world g)")
  case True
  then have "\<not> os_alive os pid (g_world g)" using assms(3) unfolding reaps_def by blast
  with True show ?thesis by (intro exI [of _ "g_world g"]) (simp add: reap_child_def exceptP_def bindP.simps tryP.simps askP_def)
next
  case False
  obtain w1 where t: "popen_signal os pid SIGTERM g = Some (Inr (), g\<lparr>g_world := w1\<rparr>)" using popen_signal_sent [OF assms(1-3)] by blast
  note sig = this
  consider (gone) w2 where "os_wait os pid 2 w1 = (Inr (), w2)" "\<not> os_alive os pid w2" | (late) w2 where "os_wait os pid 2 w1 = (Inl TimeoutExpiredC, w2)"
    using assms(3) unfolding reaps_def by blast
  then show ?thesis
  proof cases
    case gone
    with False sig show ?thesis
      by (intro exI [of _ w2]) (simp add: reap_child_def exceptP_def bindP.simps tryP.simps seqP_def askP_def osP_run)
  next
    case late
    obtain w3 where k: "popen_signal os pid SIGKILL (g\<lparr>g_world := w2\<rparr>) = Some (Inr (), g\<lparr>g_world := w3\<rparr>)" "\<not> os_alive os pid w3"
      using popen_signal_sent [OF assms(1-3), of pid SIGKILL "g\<lparr>g_world := w2\<rparr>"] by auto
    obtain w4 where w4: "os_wait os pid 1 w3 = (Inr (), w4)" using assms(4) k(2) unfolding waits_return_def by blast
    then have dead: "\<not> os_alive os pid w4"
      using assms(3) unfolding reaps_def by (metis Pair_inject sum.distinct(1))
    have "wait_exit os pid (g\<lparr>g_world := w3\<rparr>) = Some (Inr (), g\<lparr>g_world := w4\<rparr>)" using w4 by (subst wait_exit.simps) simp
    with False sig late k(1) dead show ?thesis
      by (intro exI [of _ w4]) (simp add: reap_child_def exceptP_def bindP.simps tryP.simps seqP_def askP_def osP_run)
  qed
qed

text \<open>
  C11. A stream of journal lines that is closed before the output ended, or whose reading fails, returns and leaves no child behind:
  the follower is gone when it does, even one that ignores SIGTERM, and the consumer was given the lines it was.
\<close>

theorem no_follower_left:
  assumes "signals_work os" "gone_stays os" "reaps os" "waits_return os"
    and "0 < n" "os_spawn os argv (g_world g) = (Inr pid, w)" "pull rd pid n (g\<lparr>g_world := w\<rparr>) = Some (r, g1)" "\<not> (\<exists>ls. r = Inr (ls, True))"
  shows "\<exists>w'. stream_lines os rd argv n g = Some (case r of Inl e \<Rightarrow> Inl e | Inr (ls, _) \<Rightarrow> Inr ls, g1\<lparr>g_world := w'\<rparr>) \<and> \<not> os_alive os pid w'"
proof -
  from reap_child_reaps [OF assms(1-4), of pid g1] obtain w' where
    r: "reap_child os pid g1 = Some (Inr (), g1\<lparr>g_world := w'\<rparr>)" "\<not> os_alive os pid w'" by blast
  have "bindP (pull rd pid n) (\<lambda>(ls, ended). seqP (whenP ended (wait_exit os pid)) (give ls)) (g\<lparr>g_world := w\<rparr>) =
      Some (case r of Inl e \<Rightarrow> Inl e | Inr (ls, _) \<Rightarrow> Inr ls, g1)"
    using assms(7,8) by (cases r) (auto simp: bindP.simps seqP_def)
  with assms(5,6) r show ?thesis
    by (intro exI [of _ w']) (simp add: stream_lines_def finallyP_def bindP.simps osP_run)
qed

text \<open>A follower that ignores SIGTERM, closed after two lines.\<close>

theorem no_follower_left_witness:
  "\<exists>g'. stream_lines (sample_os [7] False) (\<lambda>_ w. (Inr (Some (''x'' @ [LF])), w)) [''lxc-attach''] 2 sample_vm = Some (Inr [''x'', ''x''], g') \<and>
     7 \<notin> set (bx_alive (g_world g'))"
proof -
  let ?os = "sample_os [7] False" and ?rd = "\<lambda>(_ :: int) w. (Inr (Some (''x'' @ [LF])), w)"
  let ?w = "(g_world sample_vm)\<lparr>bx_alive := 7 # bx_alive (g_world sample_vm), bx_socks := ''virtiofsd.sock'' # bx_socks (g_world sample_vm)\<rparr>"
  have h: "reaps ?os" "waits_return ?os" by (auto simp: reaps_def waits_return_def sample_os_def)
  have "os_spawn ?os [''lxc-attach''] (g_world sample_vm) = (Inr 7, ?w)" by (simp add: sample_os_def)
  moreover have "rstrip_lf (''x'' @ [LF]) = ''x''" by code_simp
  then have "pull ?rd 7 2 (sample_vm\<lparr>g_world := ?w\<rparr>) = Some (Inr ([''x'', ''x''], False), sample_vm\<lparr>g_world := ?w\<rparr>)"
    by (simp add: numeral_2_eq_2 bindP.simps osP_run)
  ultimately show ?thesis
    using no_follower_left [OF sample_os_fair(2,3) h, of 2 "[''lxc-attach'']" sample_vm 7 ?w ?rd "Inr ([''x'', ''x''], False)" "sample_vm\<lparr>g_world := ?w\<rparr>"]
    by (auto simp: sample_os_def)
qed

section \<open>Draining\<close>

text \<open>
  Writing out returns whatever the stream does, as long as each write that succeeds takes at least one byte, and all the bytes have
  been taken, in order, when it does without an error.
\<close>

theorem write_all_drains:
  assumes "\<And>t v n v'. t \<noteq> [] \<Longrightarrow> te_write te t v = (Inr n, v') \<Longrightarrow> 0 < n"
    and "\<And>t v n v'. te_write te t v = (Inr n, v') \<Longrightarrow> taken v' = taken v @ take n t"
  shows "\<exists>r w'. write_all te data w = Some (r, w') \<and> (r = Inr () \<longrightarrow> taken w' = taken w @ data)"
proof (induction "length data" arbitrary: data w rule: less_induct)
  case less
  show ?case
  proof (cases "data = []")
    case True
    then show ?thesis by (subst write_all.simps) simp
  next
    case False
    obtain r v where s: "te_write te data w = (r, v)" by (cases "te_write te data w")
    show ?thesis
    proof (cases r)
      case (Inl e)
      then show ?thesis using False s by (subst write_all.simps) simp
    next
      case (Inr n)
      with s assms have n: "0 < n" "taken v = taken w @ take n data" using False by blast+
      with False have "length (drop n data) < length data" by simp
      from less [OF this, of v] obtain q u where "write_all te (drop n data) v = Some (q, u)" "q = Inr () \<longrightarrow> taken u = taken v @ drop n data" by blast
      then show ?thesis using False s Inr n(2) by (subst write_all.simps) simp
    qed
  qed
qed

theorem write_all_drains_witness:
  "\<exists>r d'. write_all (desk_terminal 2) ''abcde'' \<lparr>dk_script = [], dk_typed = [], dk_printed = [], dk_sent = [], dk_shown = ''-'', dk_attrs = [], dk_open = True\<rparr> =
     Some (r, d') \<and> (r = Inr () \<longrightarrow> dk_shown d' = ''-abcde'')"
proof -
  let ?d = "\<lparr>dk_script = [], dk_typed = [], dk_printed = [], dk_sent = [], dk_shown = ''-'', dk_attrs = [], dk_open = True\<rparr>"
  have w: "te_write (desk_terminal 2) t v = (Inr n, v') \<Longrightarrow> dk_shown v' = dk_shown v @ take n t"
    "t \<noteq> [] \<Longrightarrow> te_write (desk_terminal 2) t v = (Inr n, v') \<Longrightarrow> 0 < n" for t v n v'
    by (auto simp: desk_terminal_def min_def)
  have "\<exists>r w'. write_all (desk_terminal 2) ''abcde'' ?d = Some (r, w') \<and> (r = Inr () \<longrightarrow> dk_shown w' = dk_shown ?d @ ''abcde'')"
    by (rule write_all_drains [where te = "desk_terminal 2" and taken = dk_shown]) (erule w | assumption)+
  then show ?thesis by simp
qed

end
