(* ===== verification/Handles.thy ===== *)
theory Handles imports Instances Console Liveset begin

text \<open>
  The methods of a handle in \<^verbatim>\<open>_instances.py\<close> that wrap the procedures of the other modules: refreshing, removal, adoption, creation and
  the throw-away instance of a \<^verbatim>\<open>with\<close> block, the sessions, suspending and resuming, and the setters of the host name and of the
  pass-through arguments.  A procedure whose parts are modelled elsewhere over a state of its own (creation, removal, adoption)
  is an argument here, so that what holds does so whatever it does.
\<close>

section \<open>A handle and the system\<close>

record 'w system =
  sy_store :: store
  sy_guest :: "'w guest"
  sy_snap :: snapshot
  sy_dead :: bool
  sy_code :: "int option"

definition over_store :: "(store \<Rightarrow> ('a, 'w guest) prog) \<Rightarrow> ('a, 'w system) prog" where
  "over_store m y = (case m (sy_store y) (sy_guest y) of None \<Rightarrow> None | Some (r, g) \<Rightarrow> Some (r, y\<lparr>sy_guest := g\<rparr>))"

definition check_live :: "(unit, 'w system) prog" where
  "check_live = bindP (look sy_dead) (\<lambda>dead. if dead then raise_exc InstanceNotFoundErrorC else give ())"

definition set_snap :: "(snapshot \<Rightarrow> snapshot) \<Rightarrow> (unit, 'w system) prog" where
  "set_snap f = alter (\<lambda>y. y\<lparr>sy_snap := f (sy_snap y)\<rparr>)"

text \<open>A directory that has been removed has no files, and reading one of them answers that it is absent.\<close>

definition refresh :: "'w machine \<Rightarrow> (unit, 'w system) prog" where
  "refresh mc =
     seqP check_live (bindP (look sy_snap) (\<lambda>s.
       bindP (over_store (\<lambda>st. load_snapshot mc (fst (sn_dir s), snd (sn_dir s), files_at st (fst (sn_dir s)) (snd (sn_dir s))) (sn_mode s)))
         (\<lambda>fresh. set_snap (\<lambda>_. fresh))))"

definition instance_destroy :: "(bool \<Rightarrow> snapshot \<Rightarrow> (unit, 'w system) prog) \<Rightarrow> bool \<Rightarrow> (unit, 'w system) prog" where
  "instance_destroy destroy force =
     seqP check_live (bindP (look sy_snap) (\<lambda>s. seqP (destroy force s) (alter (\<lambda>y. y\<lparr>sy_dead := True\<rparr>))))"

text \<open>The status after a scrub is resolved anew, from the files that are there.\<close>

definition instance_scrub :: "'w machine \<Rightarrow> (snapshot \<Rightarrow> (unit, 'w system) prog) \<Rightarrow> (unit, 'w system) prog" where
  "instance_scrub mc reset =
     seqP check_live (bindP (look sy_snap) (\<lambda>s. seqP (reset s)
       (bindP (bindP (look (\<lambda>y. case sn_dir s of (b, d) \<Rightarrow>
            let fs = files_at (sy_store y) b d in resolve_status (mc_exists mc) (mc_running mc d fs) d fs (sn_mode s))) pure_res)
          (\<lambda>st. set_snap (\<lambda>s'. s'\<lparr>sn_status := st\<rparr>)))))"

definition instance_adopt ::
  "(string \<Rightarrow> (unit, 'w system) prog) \<Rightarrow> 'w machine \<Rightarrow> inst_class \<Rightarrow> string \<Rightarrow> (snapshot, 'w system) prog" where
  "instance_adopt adopt_one mc cls name = seqP (adopt_one name) (over_store (\<lambda>st. get_impl mc st cls name))"

section \<open>Creation\<close>

text \<open>A new handle is alive and has run no session.\<close>

definition hand_out :: "snapshot \<Rightarrow> (unit, 'w system) prog" where
  "hand_out s = alter (\<lambda>y. y\<lparr>sy_snap := s, sy_dead := False, sy_code := None\<rparr>)"

definition instance_create ::
  "(create_args \<Rightarrow> (unit, 'w system) prog) \<Rightarrow> 'w machine \<Rightarrow> bool \<Rightarrow> string \<Rightarrow> typed_create \<Rightarrow> (unit, 'w system) prog" where
  "instance_create create mc vm name t =
     bindP (pure_res (build_create_args vm t)) (\<lambda>a. seqP (create a)
       (bindP (over_store (\<lambda>st. get_impl mc st (if vm then Machines else Containers) name)) hand_out))"

text \<open>\<^verbatim>\<open>unwrap\<close> of what a method returns: an error is raised as one of results.\<close>

definition unwrapP :: "('a, 'w) prog \<Rightarrow> ('a, 'w) prog" where
  "unwrapP m w = (case boundary m w of None \<Rightarrow> None
     | Some (Inl e, w') \<Rightarrow> Some (Inl e, w')
     | Some (Inr (Inl k), w') \<Rightarrow> Some (Inl ResultErrorC, w')
     | Some (Inr (Inr x), w') \<Rightarrow> Some (Inr x, w'))"

definition transient ::
  "(create_args \<Rightarrow> (unit, 'w system) prog) \<Rightarrow> (bool \<Rightarrow> snapshot \<Rightarrow> (unit, 'w system) prog) \<Rightarrow> 'w machine \<Rightarrow> bool \<Rightarrow> string \<Rightarrow>
   typed_create \<Rightarrow> ('a, 'w system) prog \<Rightarrow> ('a, 'w system) prog" where
  "transient create destroy mc vm name t body =
     seqP (unwrapP (instance_create create mc vm name t)) (finallyP body (unwrapP (instance_destroy destroy True)))"

text \<open>The two kinds.\<close>

definition container_create where "container_create create mc = instance_create create mc False"
definition machine_create where "machine_create create mc = instance_create create mc True"
definition container_transient where "container_transient create destroy mc = transient create destroy mc False"
definition machine_transient where "machine_transient create destroy mc = transient create destroy mc True"

section \<open>Sessions\<close>

definition instance_attach :: "bool \<Rightarrow> 'w os \<Rightarrow> (base \<Rightarrow> string \<Rightarrow> 'w terminal) \<Rightarrow> (unit, 'w system) prog" where
  "instance_attach is_root os te =
     seqP check_live (bindP (look sy_snap) (\<lambda>s. bindP (over_store (\<lambda>st. attach is_root os te st (sn_name s) None))
       (\<lambda>code. alter (\<lambda>y. y\<lparr>sy_code := Some code\<rparr>))))"

definition instance_exec ::
  "bool \<Rightarrow> 'w os \<Rightarrow> string list \<Rightarrow> string option \<Rightarrow> (string \<times> string) list \<Rightarrow> (int, 'w system) prog" where
  "instance_exec is_root os command user env =
     seqP check_live (bindP (look sy_snap) (\<lambda>s. over_store (\<lambda>st. exec_cmd is_root os st (sn_name s) command None user env)))"

text \<open>The argument vector the stream is made of.\<close>

definition instance_logs :: "bool \<Rightarrow> int option \<Rightarrow> string list \<Rightarrow> (string list, 'w system) prog" where
  "instance_logs follow lines args =
     seqP check_live (bindP (look sy_snap) (\<lambda>s. pure_res (logs_argv (sn_mode s) (snd (sn_dir s)) (sn_name s) follow lines args)))"

section \<open>Suspending and resuming\<close>

text \<open>\<^verbatim>\<open>_dispatch\<close>: the name is resolved, over both namespaces, and the rest runs on the files of what it resolves to.\<close>

definition on_files :: "files \<Rightarrow> ('a, 'w guest) prog \<Rightarrow> ('a, 'w guest) prog" where
  "on_files fs m g = (case m (g\<lparr>g_files := fs\<rparr>) of None \<Rightarrow> None | Some (r, g') \<Rightarrow> Some (r, g\<lparr>g_world := g_world g'\<rparr>))"

definition dispatch_named ::
  "(string \<Rightarrow> string \<Rightarrow> (unit, 'w guest) prog) \<Rightarrow> bool \<Rightarrow> store \<Rightarrow> string \<Rightarrow> (unit, 'w guest) prog" where
  "dispatch_named act1 is_root st name =
     (if \<not> is_root then raise_exc StateErrorC
      else bindP (pure_res (resolve_any st name None)) (\<lambda>((b, d, fs), mode). on_files fs (act1 d mode)))"

definition instance_suspend ::
  "bool \<Rightarrow> 'w os \<Rightarrow> ('w \<Rightarrow> exc + host_view) \<Rightarrow> (string \<Rightarrow> 'w \<Rightarrow> (exc + bool) \<times> 'w) \<Rightarrow> (unit, 'w system) prog" where
  "instance_suspend is_root os view qmp =
     seqP check_live (bindP (look sy_snap) (\<lambda>s. seqP
       (over_store (\<lambda>st. dispatch_named (suspend is_root os view qmp) is_root st (sn_name s)))
       (set_snap (\<lambda>s'. s'\<lparr>sn_status := SUSPENDED\<rparr>))))"

definition instance_resume ::
  "bool \<Rightarrow> 'w os \<Rightarrow> ('w \<Rightarrow> exc + host_view) \<Rightarrow> (string \<Rightarrow> 'w \<Rightarrow> (exc + bool) \<times> 'w) \<Rightarrow> (unit, 'w system) prog" where
  "instance_resume is_root os view qmp =
     seqP check_live (bindP (look sy_snap) (\<lambda>s. seqP
       (over_store (\<lambda>st. dispatch_named (resume is_root os view qmp) is_root st (sn_name s)))
       (set_snap (\<lambda>s'. s'\<lparr>sn_status := RUNNING\<rparr>))))"

section \<open>Setters\<close>

text \<open>A handle with the other settable fields that are cached in it.\<close>

record 'w typed_live = "'w live" +
  li_hostname :: string
  li_profile :: platform_profile
  li_args :: "string list"

type_synonym set_call = "set_args \<Rightarrow> inst \<Rightarrow> unit outcome"

definition set_hostname :: "set_call \<Rightarrow> exc + bool \<Rightarrow> string \<Rightarrow> 'w typed_live \<Rightarrow> (exc + unit) \<times> 'w typed_live" where
  "set_hostname call running v h =
     set_via_set_cmd call running (no_args\<lparr>sa_hostname := Some v\<rparr>) (no_args\<lparr>sa_hostname := Some (li_hostname h)\<rparr>)
       (\<lambda>h'. h'\<lparr>li_hostname := v\<rparr>) h"

definition set_extra_args :: "set_call \<Rightarrow> exc + bool \<Rightarrow> string list \<Rightarrow> 'w typed_live \<Rightarrow> (exc + unit) \<times> 'w typed_live" where
  "set_extra_args call running args h =
     (case make_profile (pp_mode (li_profile h)) (pp_mid (li_profile h)) args of Inl e \<Rightarrow> (Inl e, h)
      | Inr p \<Rightarrow> set_via_set_cmd call running (no_args\<lparr>sa_pve_args := Some (set_cmd_list_arg args)\<rparr>)
          (no_args\<lparr>sa_pve_args := Some (set_cmd_list_arg (pp_extra_args (li_profile h)))\<rparr>) (\<lambda>h'. h'\<lparr>li_profile := p\<rparr>) h)"

definition set_lxc_args :: "set_call \<Rightarrow> exc + bool \<Rightarrow> string list \<Rightarrow> 'w typed_live \<Rightarrow> (exc + unit) \<times> 'w typed_live" where
  "set_lxc_args call running args h =
     set_via_set_cmd call running (no_args\<lparr>sa_lxc_args := Some (set_cmd_list_arg args)\<rparr>)
       (no_args\<lparr>sa_lxc_args := Some (set_cmd_list_arg (li_args h))\<rparr>) (\<lambda>h'. h'\<lparr>li_args := args\<rparr>) h"

definition set_qemu_args :: "set_call \<Rightarrow> exc + bool \<Rightarrow> string list \<Rightarrow> 'w typed_live \<Rightarrow> (exc + unit) \<times> 'w typed_live" where
  "set_qemu_args call running args h =
     set_via_set_cmd call running (no_args\<lparr>sa_qemu_args := Some (set_cmd_list_arg args)\<rparr>)
       (no_args\<lparr>sa_qemu_args := Some (set_cmd_list_arg (li_args h))\<rparr>) (\<lambda>h'. h'\<lparr>li_args := args\<rparr>) h"

section \<open>A name in both namespaces\<close>

lemma over_store_run: "m (sy_store y) (sy_guest y) = Some (r, g) \<Longrightarrow> over_store m y = Some (r, y\<lparr>sy_guest := g\<rparr>)"
  by (simp add: over_store_def)

lemma boundary_raise: "m h = Some (Inl e, h') \<Longrightarrow> is_kento e \<Longrightarrow> error_kind e = Some k \<Longrightarrow> boundary m h = Some (Inr (Inl k), h')"
  by (simp add: boundary_def)

lemma live_step: "\<not> sy_dead y \<Longrightarrow> seqP check_live (bindP (look sy_snap) f) y = f (sy_snap y) y"
  by (simp add: check_live_def seqP_def bindP.simps)

text \<open>
  C15. A handle of a container or a virtual machine whose name the other namespace has too can be had, since its class narrows the lookup,
  but it cannot be attached to, run a command, be suspended or be resumed: each resolves the name again, over both namespaces, and
  answers an internal error, having run nothing and changed nothing.
\<close>

theorem duplicate_name_blocks_handle:
  assumes "validate_name (sn_name (sy_snap y)) = Inr ()" "\<not> sy_dead y" "command \<noteq> []"
    and "scan_namespace (sn_name (sy_snap y)) (lxc_base (sy_store y)) = Some (d, fs)"
    and "scan_namespace (sn_name (sy_snap y)) (vm_base (sy_store y)) = Some (d', fs')"
  shows "(\<exists>x. resolve_any (sy_store y) (sn_name (sy_snap y)) (class_namespace Containers) = Inr x) \<and>
    (\<exists>x. resolve_any (sy_store y) (sn_name (sy_snap y)) (class_namespace Machines) = Inr x) \<and>
    boundary (instance_attach True os te) y = Some (Inr (Inl INTERNAL), y) \<and>
    boundary (instance_exec True os command user env) y = Some (Inr (Inl INTERNAL), y) \<and>
    boundary (instance_suspend True os view qmp) y = Some (Inr (Inl INTERNAL), y) \<and>
    boundary (instance_resume True os view qmp) y = Some (Inr (Inl INTERNAL), y)"
proof -
  let ?n = "sn_name (sy_snap y)" and ?st = "sy_store y"
  have both: "resolve_any ?st ?n None = Inl KentoErrorC" using assms by (simp add: resolve_any_def)
  have k: "is_kento KentoErrorC" "error_kind KentoErrorC = Some INTERNAL" by code_simp+
  have same: "y\<lparr>sy_guest := sy_guest y\<rparr> = y" by simp
  have "attach True os te ?st ?n None (sy_guest y) = Some (Inl KentoErrorC, sy_guest y)"
    "exec_cmd True os ?st ?n command None user env (sy_guest y) = Some (Inl KentoErrorC, sy_guest y)"
    "dispatch_named f True ?st ?n (sy_guest y) = Some (Inl KentoErrorC, sy_guest y)" for f
    using assms(3) by (simp_all add: attach_def exec_cmd_def dispatch_named_def both bindP.simps)
  then have "instance_attach True os te y = Some (Inl KentoErrorC, y)" "instance_exec True os command user env y = Some (Inl KentoErrorC, y)"
    "instance_suspend True os view qmp y = Some (Inl KentoErrorC, y)" "instance_resume True os view qmp y = Some (Inl KentoErrorC, y)"
    unfolding instance_attach_def instance_exec_def instance_suspend_def instance_resume_def live_step [OF assms(2)]
    by (simp_all add: bindP.simps seqP_def over_store_def)
  then show ?thesis using assms(1,4,5) k by (simp add: resolve_any_def is_lxc_scope_def boundary_def)
qed

section \<open>Throw-away instances\<close>

lemma kento_has_kind: "is_kento e \<Longrightarrow> \<exists>k. error_kind e = Some k"
  by (cases e) (auto simp: is_kento_def mro_step error_kind_def ERROR_KIND_MAP_def mro_list List.map_filter_def)

lemma unwrapP_raise: "m w = Some (Inl e, w') \<Longrightarrow> unwrapP m w = Some (Inl (if is_kento e then ResultErrorC else e), w')"
  using kento_has_kind [of e] by (auto simp: unwrapP_def boundary_def)

lemma unwrapP_ok: "m w = Some (Inr x, w') \<Longrightarrow> unwrapP m w = Some (Inr x, w')" by (simp add: unwrapP_def boundary_def)

lemma unwrapP_Some: "unwrapP m w = Some (r, w') \<Longrightarrow> \<exists>q. m w = Some (q, w') \<and> (\<forall>x. r = Inr x \<longleftrightarrow> q = Inr x)"
  by (cases "m w") (auto simp: unwrapP_def boundary_def split: option.splits sum.splits if_splits)

text \<open>
  When the block of a throw-away instance is entered, leaving it, normally or by an exception, removes the instance by force and the
  block's result is given only if that succeeded; a block that has removed its own instance raises when it is left.
\<close>

theorem transient_removes:
  assumes "instance_create create mc vm name t y = Some (Inr (), y1)" "body y1 = Some (b, y2)"
    and "transient create destroy mc vm name t body y = Some (r, y')"
  shows "\<exists>q. instance_destroy destroy True y2 = Some (q, y') \<and> (q = Inr () \<longrightarrow> r = b \<and> sy_dead y') \<and> (q \<noteq> Inr () \<longrightarrow> (\<exists>e. r = Inl e)) \<and>
    (sy_dead y2 \<longrightarrow> y' = y2 \<and> (\<exists>e. r = Inl e))"
proof -
  from assms have "finallyP body (unwrapP (instance_destroy destroy True)) y1 = Some (r, y')"
    by (simp add: transient_def bindP_step(3) [OF unwrapP_ok])
  with assms(2) obtain x where x: "unwrapP (instance_destroy destroy True) y2 = Some (x, y')" "r = (case x of Inl e \<Rightarrow> Inl e | Inr _ \<Rightarrow> b)"
    by (auto simp: finallyP_Some)
  from unwrapP_Some [OF x(1)] obtain q where q: "instance_destroy destroy True y2 = Some (q, y')" "\<forall>u. x = Inr u \<longleftrightarrow> q = Inr u" by blast
  have "sy_dead y'" if "q = Inr ()" using q(1) that by (auto simp: instance_destroy_def seqP_Some bindP_Some)
  moreover have "y' = y2 \<and> q \<noteq> Inr ()" if "sy_dead y2"
    using q(1) that by (auto simp: instance_destroy_def check_live_def seqP_def bindP.simps)
  ultimately show ?thesis using q x(2) by (cases x) auto
qed

text \<open>
  C16. A creation that succeeded but whose instance cannot be loaded leaves it behind: the block is not entered, nothing removes the
  instance, and what is raised is an error of results whatever the error of the library was.
\<close>

theorem transient_leaks_unloadable:
  assumes "build_create_args vm t = Inr a" "create a y = Some (Inr (), y1)"
    and "get_impl mc (sy_store y1) (if vm then Machines else Containers) name (sy_guest y1) = Some (Inl e, g)"
  shows "transient create destroy mc vm name t body y = Some (Inl (if is_kento e then ResultErrorC else e), y1\<lparr>sy_guest := g\<rparr>)"
proof -
  have "instance_create create mc vm name t y = Some (Inl e, y1\<lparr>sy_guest := g\<rparr>)"
    using assms by (simp add: instance_create_def bindP.simps seqP_def over_store_def)
  then have "unwrapP (instance_create create mc vm name t) y = Some (Inl (if is_kento e then ResultErrorC else e), y1\<lparr>sy_guest := g\<rparr>)"
    by (rule unwrapP_raise)
  then show ?thesis by (simp add: transient_def bindP_step(4))
qed

section \<open>Refreshing what is gone\<close>

text \<open>
  Refreshing the handle of a plain container that was removed meanwhile does not fail: the handle becomes that of a stopped instance
  named after its directory, without an image.
\<close>

theorem refresh_of_removed:
  assumes "\<not> sy_dead y" "sn_dir (sy_snap y) = (b, d)" "sn_mode (sy_snap y) = ''lxc''" "map_of (entries_of (sy_store y) b) d = None"
    and "mc_running mc d Map.empty ''lxc'' = Inr False" "load_hold (mc_os mc) d (sy_guest y) = Some (Inr h, g)"
  shows "\<exists>s. refresh mc y = Some (Inr (), y\<lparr>sy_guest := g, sy_snap := s\<rparr>) \<and> sn_status s = STOPPED \<and> sn_name s = d \<and> sn_sources s = []"
proof -
  have p: "\<not> is_pve_mode ''lxc''" by code_simp
  then have pf: "load_platform_profile d Map.empty ''lxc'' = Inr \<lparr>pp_mode = STANDARD, pp_mid = None, pp_extra_args = []\<rparr>"
    by (simp add: load_platform_profile_def make_profile_def)
  have r: "read_meta Map.empty f = None" for f by (simp add: read_meta_def)
  have "case load_network Map.empty of Inr _ \<Rightarrow> True | Inl _ \<Rightarrow> False" "case load_forwards Map.empty of Inr _ \<Rightarrow> True | Inl _ \<Rightarrow> False" by code_simp+
  then obtain nc fw where n: "load_network Map.empty = Inr nc" "load_forwards Map.empty = Inr fw"
    by (cases "load_network Map.empty"; cases "load_forwards Map.empty") simp_all
  obtain s where s: "load_static mc (b, d, Map.empty) ''lxc'' = Inr s" "sn_status s = STOPPED" "sn_name s = d" "sn_sources s = []"
    using assms(5) p by (auto simp: load_static_def Let_def r n pf load_sources_def nonempty_or_def resolve_status_def)
  then have "load_snapshot mc (b, d, Map.empty) ''lxc'' (sy_guest y) = Some (Inr (s\<lparr>sn_hold := h\<rparr>), g)"
    using assms(6) by (simp add: load_snapshot_def bindP.simps)
  then have "over_store (\<lambda>st. load_snapshot mc (b, d, files_at st b d) ''lxc'') y = Some (Inr (s\<lparr>sn_hold := h\<rparr>), y\<lparr>sy_guest := g\<rparr>)"
    using assms(4) by (simp add: over_store_def files_at_def)
  then have "refresh mc y = Some (Inr (), y\<lparr>sy_guest := g, sy_snap := s\<lparr>sn_hold := h\<rparr>\<rparr>)"
    using assms(2,3) by (simp add: refresh_def live_step [OF assms(1)] bindP.simps set_snap_def)
  with s show ?thesis by (intro exI [of _ "s\<lparr>sn_hold := h\<rparr>"]) simp
qed

section \<open>The host name\<close>

lemma apply_hostname_file:
  assumes "mode \<in> set [''lxc'', ''pve'', ''vm'', ''pve-vm'']" "a = no_args\<lparr>sa_hostname := Some v\<rparr>" "nd_action nd = Skip"
    "apply_mode cdir mode a None (Some nd) s = (Inr (), s')" "i_files s ''kento-state'' = Some t"
  shows "i_files s' ''kento-hostname'' = (if id_hostname (nd_new nd) \<noteq> [] then Some (id_hostname (nd_new nd) @ [LF]) else i_files s ''kento-hostname'')"
proof -
  have e: "i_files (emit_guest_net_dropins new m s0) ''kento-hostname'' =
      (if id_hostname new \<noteq> [] then Some (id_hostname new @ [LF]) else i_files s0 ''kento-hostname'')" if "i_files s0 ''kento-state'' = Some t" for new m s0
    using that by (simp add: emit_guest_net_dropins_def Let_def write_meta_def net_state_dir_def)
  note d = apply_mode_def classify_list_def apply_passthrough_meta_def apply_port_meta_def write_num_def Let_def no_args_def persist_files e
  from assms(1) consider "mode = ''lxc''" | "mode = ''pve''" | "mode = ''vm''" | "mode = ''pve-vm''" by auto
  then show ?thesis
  proof cases
    case 1
    with assms(2-) show ?thesis by (auto simp: apply_lxc_def d)
  next
    case 2
    with assms(2-) show ?thesis by (auto simp: apply_pve_lxc_def d write_conf_simps split: sum.splits)
  next
    case 3
    with assms(2-) show ?thesis by (auto simp: apply_vm_def d)
  next
    case 4
    with assms(2-) show ?thesis
      by (auto simp: apply_pve_vm_def apply_vm_net_def regenerate_args_def d write_conf_simps split: sum.splits prod.splits)
  qed
qed

lemma hostname_delta: "resolve_delta s mode (no_args\<lparr>sa_hostname := Some v\<rparr>) = Inr (Some nd) \<Longrightarrow> id_hostname (nd_new nd) = v \<and> nd_action nd = Skip"
  by (auto simp: resolve_delta_def net_provided_def no_args_def classify_list_def apply_overrides_def parse_network_arg_def Let_def
      split: if_splits sum.splits)

text \<open>
  Assigning a host name to a stopped instance caches what it records, and a clean one is read back by the loader; the empty one is accepted
  and cached, but the recorded name stays what it was.
\<close>

theorem hostname_setter:
  assumes "set_hostname (set_cmd True False cpus cdir mode) (Inr False) v h = (Inr (), h')"
    and "mode \<in> set [''lxc'', ''pve'', ''vm'', ''pve-vm'']" "i_files (li_inst h) ''kento-state'' = Some t"
  shows "li_hostname h' = v \<and> (v \<noteq> [] \<and> clean v \<longrightarrow> read_meta (i_files (li_inst h')) ''kento-hostname'' = Some v) \<and>
    (v = [] \<longrightarrow> i_files (li_inst h') ''kento-hostname'' = i_files (li_inst h) ''kento-hostname'')"
proof -
  let ?a = "no_args\<lparr>sa_hostname := Some v\<rparr>"
  from assms(1) obtain s' where s': "set_cmd True False cpus cdir mode ?a (li_inst h) = (Inr (), s')" "h' = h\<lparr>li_inst := s', li_hostname := v\<rparr>"
    by (auto simp: set_hostname_def set_via_set_cmd_def persist_or_restore_def split: if_splits prod.splits sum.splits)
  show ?thesis
  proof (cases rule: set_cmd_cases [of True False cpus cdir mode ?a "li_inst h"])
    case (rejected e)
    with s' show ?thesis by simp
  next
    case (applied cores delta)
    have "net_provided ?a" by (simp add: net_provided_def)
    then obtain nd where nd: "delta = Some nd" "resolve_delta (li_inst h) mode ?a = Inr (Some nd)"
      using applied(6) resolve_delta_none [of "li_inst h" mode ?a] by (cases delta) auto
    have "cores = None" using applied(5) by (simp add: clamp_cores_def no_args_def)
    with applied(7) s'(1) nd(1) have "apply_mode cdir mode ?a None (Some nd) (li_inst h) = (Inr (), s')" by simp
    from apply_hostname_file [OF assms(2) refl _ this assms(3)] hostname_delta [OF nd(2)]
    have "i_files s' ''kento-hostname'' = (if v \<noteq> [] then Some (v @ [LF]) else i_files (li_inst h) ''kento-hostname'')" by simp
    then show ?thesis using s'(2) clean_line [of v] by (simp add: read_meta_def)
  qed
qed

section \<open>Instances of the properties\<close>

definition fresh_system :: "store \<Rightarrow> unit system" where
  "fresh_system st = \<lparr>sy_store = st, sy_guest = no_files, sy_snap = web_snapshot, sy_dead = False, sy_code = None\<rparr>"

definition twin_store :: store where
  "twin_store = \<lparr>lxc_base = Some [(''web'', EDir web_files)], vm_base = Some [(''web'', EDir web_files)]\<rparr>"

definition empty_store :: store where "empty_store = \<lparr>lxc_base = Some [], vm_base = Some []\<rparr>"

theorem duplicate_name_blocks_handle_witness:
  "boundary (instance_exec True no_podman [''true''] None []) (fresh_system twin_store) = Some (Inr (Inl INTERNAL), fresh_system twin_store) \<and>
   (\<exists>x. resolve_any twin_store ''web'' (Some ''lxc'') = Inr x)"
proof -
  have "validate_name ''web'' = Inr ()" by code_simp
  moreover have "scan_namespace ''web'' (lxc_base twin_store) = Some (''web'', web_files)" "scan_namespace ''web'' (vm_base twin_store) = Some (''web'', web_files)"
    by (simp_all add: scan_namespace_def twin_store_def web_files_def)
  moreover have "sn_name web_snapshot = ''web''" by (simp add: web_snapshot_def)
  ultimately show ?thesis
    using duplicate_name_blocks_handle [of "fresh_system twin_store" "[''true'']" "''web''" web_files "''web''" web_files]
    by (simp add: fresh_system_def)
qed

text \<open>A plain container from an image, and a creation that makes the two sample instances.\<close>

definition typed_plain :: typed_create where "typed_plain = typed_vm\<lparr>t_platform := None, t_network := None, t_forwards := []\<rparr>"

definition make_two :: "create_args \<Rightarrow> (unit, unit system) prog" where "make_two a = alter (\<lambda>y. y\<lparr>sy_store := two_instances\<rparr>)"

definition wipe_store :: "bool \<Rightarrow> snapshot \<Rightarrow> (unit, unit system) prog" where "wipe_store force s = alter (\<lambda>y. y\<lparr>sy_store := empty_store\<rparr>)"

lemma web_got_impl: "get_impl still_host two_instances Containers ''web'' g = Some (Inr web_snapshot, g)"
  using web_got [of g] by (simp add: instance_get_def boundary_Ok)

lemma typed_builds: "\<exists>a. build_create_args False typed_plain = Inr a" "\<exists>a. build_create_args True typed_vm = Inr a"
proof -
  have "case build_create_args False typed_plain of Inr _ \<Rightarrow> True | Inl _ \<Rightarrow> False" "case build_create_args True typed_vm of Inr _ \<Rightarrow> True | Inl _ \<Rightarrow> False"
    by code_simp+
  then show "\<exists>a. build_create_args False typed_plain = Inr a" "\<exists>a. build_create_args True typed_vm = Inr a"
    by (auto split: sum.splits)
qed

theorem transient_removes_witness:
  "\<exists>y'. transient make_two wipe_store still_host False ''web'' typed_plain (look (\<lambda>y. sn_name (sy_snap y))) (fresh_system empty_store) =
     Some (Inr ''web'', y') \<and> sy_dead y' \<and> sy_store y' = empty_store"
proof -
  obtain a where a: "build_create_args False typed_plain = Inr a" using typed_builds by blast
  let ?y1 = "fresh_system two_instances"
  have c: "instance_create make_two still_host False ''web'' typed_plain (fresh_system empty_store) = Some (Inr (), ?y1)"
    using a web_got_impl by (simp add: instance_create_def bindP.simps seqP_def make_two_def over_store_def hand_out_def fresh_system_def)
  have d: "instance_destroy wipe_store True ?y1 = Some (Inr (), ?y1\<lparr>sy_store := empty_store, sy_dead := True\<rparr>)"
    by (simp add: instance_destroy_def check_live_def seqP_def bindP.simps wipe_store_def fresh_system_def)
  have n: "sn_name web_snapshot = ''web''" by (simp add: web_snapshot_def)
  let ?body = "look (\<lambda>y. sn_name (sy_snap y))"
  obtain r y' where t: "transient make_two wipe_store still_host False ''web'' typed_plain ?body (fresh_system empty_store) = Some (r, y')"
    using unwrapP_ok [where m = "instance_create make_two still_host False ''web'' typed_plain", OF c] unwrapP_ok [where m = "instance_destroy wipe_store True", OF d]
    by (simp add: transient_def bindP_step(3) finallyP_def)
  from transient_removes [where body = ?body, OF c _ this, of "Inr ''web''" ?y1] d n
  have "y' = ?y1\<lparr>sy_store := empty_store, sy_dead := True\<rparr>" "r = Inr ''web''" by (auto simp: fresh_system_def)
  with t show ?thesis by (intro exI [of _ y']) (simp add: fresh_system_def)
qed

text \<open>The virtual machine whose id was never recorded.\<close>

theorem transient_leaks_unloadable_witness:
  "\<exists>y'. transient make_two wipe_store still_host True ''old'' typed_vm (give ()) (fresh_system empty_store) = Some (Inl ResultErrorC, y') \<and>
     sy_store y' = two_instances"
proof -
  obtain a where a: "build_create_args True typed_vm = Inr a" using typed_builds by blast
  have m: "make_two a (fresh_system empty_store) = Some (Inr (), fresh_system two_instances)" by (simp add: make_two_def fresh_system_def)
  have "validate_name ''old'' = Inr ()" "read_mode old_files ''vm'' = ''pve-vm''" by code_simp+
  moreover have "scan_namespace ''old'' (vm_base two_instances) = Some (''old'', old_files)"
    by (simp add: scan_namespace_def two_instances_def old_files_def)
  ultimately have "resolve_any two_instances ''old'' (Some ''vm'') = Inr ((VM_BASE, ''old'', old_files), ''pve-vm'')"
    by (simp add: resolve_any_def is_lxc_scope_def)
  then have "get_impl still_host two_instances Machines ''old'' no_files = Some (Inl ValidationErrorC, no_files)"
    by (simp add: get_impl_def checked_load_def load_snapshot_def old_unloadable bindP.simps)
  then have "get_impl still_host (sy_store (fresh_system two_instances)) (if True then Machines else Containers) ''old'' (sy_guest (fresh_system two_instances)) =
      Some (Inl ValidationErrorC, no_files)" by (simp add: fresh_system_def)
  note t = transient_leaks_unloadable [where create = make_two and destroy = wipe_store and body = "give ()", OF a m this]
  have "is_kento ValidationErrorC" by code_simp
  with t show ?thesis by (simp add: fresh_system_def)
qed

theorem refresh_of_removed_witness:
  "\<exists>s. refresh still_host (fresh_system empty_store) = Some (Inr (), (fresh_system empty_store)\<lparr>sy_snap := s\<rparr>) \<and> sn_status s = STOPPED \<and>
     sn_name s = ''web'' \<and> sn_sources s = []"
proof -
  have d: "sn_dir web_snapshot = (LXC_BASE, ''web'')" "sn_mode web_snapshot = ''lxc''" by (simp_all add: web_snapshot_def)
  have h: "load_hold (mc_os still_host) ''web'' no_files = Some (Inr None, no_files)" using no_podman_hold by (simp add: still_host_def)
  show ?thesis
    using refresh_of_removed [of "fresh_system empty_store" LXC_BASE "''web''" still_host None no_files] d h
    by (simp add: fresh_system_def empty_store_def entries_of_def still_host_def)
qed

text \<open>A plain container with a state directory.\<close>

definition named_live :: "unit typed_live" where
  "named_live = \<lparr>li_alive = True, li_inst = \<lparr>i_dir = ''c'', i_files = [''kento-state'' \<mapsto> ''/s'' @ [LF], ''kento-net-type'' \<mapsto> ''host'' @ [LF]],
       i_upper = Map.empty, i_confs = Map.empty\<rparr>, li_net = \<lparr>nc_mode = HOST, link_config = [], ip_config = []\<rparr>, li_fwd = [], li_res = [],
     li_world = (), li_hostname = ''old'', li_profile = \<lparr>pp_mode = STANDARD, pp_mid = None, pp_extra_args = []\<rparr>, li_args = []\<rparr>"

theorem hostname_setter_witness:
  "\<exists>h'. set_hostname (set_cmd True False None sample_dir ''lxc'') (Inr False) ''new'' named_live = (Inr (), h') \<and> li_hostname h' = ''new'' \<and>
     read_meta (i_files (li_inst h')) ''kento-hostname'' = Some ''new''"
proof -
  let ?r = "set_hostname (set_cmd True False None sample_dir ''lxc'') (Inr False) ''new'' named_live"
  have "fst ?r = Inr ()" unfolding named_live_def by code_simp
  then have r: "?r = (Inr (), snd ?r)" by (cases ?r) simp
  have "clean ''new''" by code_simp
  moreover have "i_files (li_inst named_live) ''kento-state'' = Some (''/s'' @ [LF])" by (simp add: named_live_def)
  ultimately show ?thesis using hostname_setter [OF r] r by (intro exI [of _ "snd ?r"]) simp
qed

end
