(* ===== verification/Spec2Isabelle.thy ===== *)
theory Spec2Isabelle imports Network References Interfaces Layers Store Pve Create Reconcile Adoption Orphans Admission Interleaving Confedit Setcmd Reconfigure Snapshot Typed Portfwd Liveset Firewall Ports Holds Lifecycle Ledger Cloudinit Diagnose Urlref Instances Fetch Hooks Scrub Json Listing Qmp Console Handles begin

text \<open>
  \<^bold>\<open>The verification of the kento core library.\<close>

  Kento composes instances out of OCI images.  An instance is a directory with small metadata
  files (\<^verbatim>\<open>kento-mode\<close>, \<^verbatim>\<open>kento-layers\<close>, \<^verbatim>\<open>kento-net\<close> and so on); its root file system is an overlay of
  the layers of an image, mounted under a writable layer.  It runs in one of four modes: a container of
  plain LXC, a container of Proxmox VE, a plain QEMU virtual machine over virtiofs, and a virtual machine
  of Proxmox VE.  The Python library in \<^verbatim>\<open>src/kento\<close> creates, configures, starts, stops, suspends, scrubs, adopts,
  diagnoses and removes instances, keeps the images they need, and offers all this a second time as
  handles with typed values.  The theories model this library; there is one theory, or a few,
  for each part of it.  A name of a definition is the name of the function or class it
  translates, with a suffix or a prefix where that name is taken.

  \<^bold>\<open>How state and operations correspond to the code.\<close>

  A dataclass is a record, an enumeration or a union a datatype.  A \<^verbatim>\<open>str\<close> is a list of characters (the code
  points 0 to 255), a Python integer an \<^verbatim>\<open>int\<close>; no part of the program has integers of a
  fixed width.  A dictionary is a map, or an association list where the order or repeated keys matter.

  An exception is a value of \<^typ>\<open>exc\<close>, the class with its method resolution order (theory
  Results), and a function that may raise has a sum type with the exception on the left.  The text of
  messages is not modelled, except that of a malformed reference.  An instance's directory is its path with the map
  from file names to texts; the file system as the store sees it is the listing of the two
  namespaces.

  What is not in \<^verbatim>\<open>src\<close>, the operating system, podman, the tools of LXC and Proxmox VE, the
  firewall, a server, the JSON parser, SHA-256, the address parser, is an argument: a record of
  operations on a world (\<^typ>\<open>'w os\<close>, \<^typ>\<open>'w terminal\<close>) that answer or raise and
  change the world, or a function.  What a property relies on of them is a named hypothesis
  (for instance \<^verbatim>\<open>signals_work\<close>, \<^verbatim>\<open>gone_stays\<close>, \<^verbatim>\<open>clock_runs\<close>), and a witness instantiates it.

  A procedure that acts on a world is a \<^verbatim>\<open>prog\<close> (theory Effects): it gives None when it does not return, and
  otherwise an exception or a value together with the world left, so that an error raised after
  a write shows what was written.  Loops over data are structural recursions or have a measure.
  A loop that waits for the world is a \<^verbatim>\<open>partial_function\<close> over options: \<^verbatim>\<open>wait_gone\<close>, \<^verbatim>\<open>wait_down\<close>, \<^verbatim>\<open>wait_exit\<close>, \<^verbatim>\<open>ipt_chain\<close>,
  \<^verbatim>\<open>write_all\<close> and \<^verbatim>\<open>relay_loop\<close>.  No fuel is used anywhere; that such a loop ends is a theorem
  about a clock that runs, a kill that works or a stream that ends.

  \<^bold>\<open>The shared theories.\<close>

  \<^item> Prelude: exceptions as values and their sequencing (\<^verbatim>\<open>bindE\<close>, \<^verbatim>\<open>mapE\<close>), Python's character classes, decimal
    numerals and their round trip.
  \<^item> Strings: \<^verbatim>\<open>strip\<close>, \<^verbatim>\<open>split\<close>, \<^verbatim>\<open>partition\<close>, \<^verbatim>\<open>splitlines\<close>, \<^verbatim>\<open>join\<close>, \<^verbatim>\<open>int\<close> with its digit limit, the \<^verbatim>\<open>$\<close> anchor.
  \<^item> Regex: regular expressions as data and a matcher by derivatives, proved correct for the language.
  \<^item> Paths: the part of \<^verbatim>\<open>pathlib\<close> the code uses.
  \<^item> Results: \<^verbatim>\<open>errors.py\<close> and \<^verbatim>\<open>_result.py\<close>, the exceptions, severities, conditions, the
    three-case result and the boundary \<^verbatim>\<open>_error_from\<close> from exceptions to results.
  \<^item> Effects: procedures on a world, \<^verbatim>\<open>try\<close>, \<^verbatim>\<open>finally\<close>, and the rules by which a run is taken apart.
  \<^item> Json: the values and texts of \<^verbatim>\<open>json.dumps\<close>.
  \<^item> Interfaces: the locales.  \<^verbatim>\<open>codec\<close> (what is rendered parses back, so rendering is injective) is interpreted
    on port forwards in Network and on image references in References; \<^verbatim>\<open>first_free\<close> (an allocator takes the first free
    candidate) on VM ids in Pve and on instance names in Store; \<^verbatim>\<open>invariant_steps\<close> on the operations of
    several processes in Interleaving.  Confedit has a locale of its own, \<^verbatim>\<open>keyed_lines\<close>, for an editor of key and value lines,
    interpreted on the format of Proxmox VE and on that of LXC.

  \<^bold>\<open>Values.\<close>

  \<^item> References (\<^verbatim>\<open>_references.py\<close>): the grammar of OCI references, its validators, the parser with
    the domain heuristic, the renderer, the normalisation.  Parsing and rendering are inverse
    on the references the parser returns; every outcome of the parser is classified.
  \<^item> Urlref (\<^verbatim>\<open>_references.py\<close>): URL references over the standard library's split, with the same round trip,
    and the dispatch by scheme.
  \<^item> Network (\<^verbatim>\<open>_network.py\<close>): forwards, the forwards dictionary, static addresses; the round trip of forwards.
  \<^item> Typed, Snapshot (\<^verbatim>\<open>_instances.py\<close>, \<^verbatim>\<open>_platform.py\<close>, \<^verbatim>\<open>_storage.py\<close>, \<^verbatim>\<open>_diagnosis.py\<close>): the loaders of the typed view, the status,
    the decomposition of typed values into the parameters of \<^verbatim>\<open>set_cmd\<close> and \<^verbatim>\<open>create\<close>; a value assigned is read back.

  \<^bold>\<open>The store and the creation of instances.\<close>

  \<^item> Store (\<^verbatim>\<open>__init__.py\<close>): name validation, the two namespaces, resolution of a name, generated
    names, liveness.  Generated names are free, resolution decides existence.
  \<^item> Layers (\<^verbatim>\<open>layers.py\<close>): the short form of the layers of an overlay and the check of the
    mount options; the exact bounds (128 layers, 4080 characters).
  \<^item> Pve (\<^verbatim>\<open>pve.py\<close>, \<^verbatim>\<open>vm.py\<close>): VM ids, the generated configurations, and the rewriting of the \<^verbatim>\<open>args\<close> line after a change
    of the memory, which changes nothing else and is idempotent.
  \<^item> Hooks (\<^verbatim>\<open>hook.py\<close>, \<^verbatim>\<open>inject.py\<close>, \<^verbatim>\<open>lxc_hook.py\<close>, \<^verbatim>\<open>vm_hook.py\<close>): filling the templates, writing the scripts, the choice of the
    storage for snippets.
  \<^item> Cloudinit (\<^verbatim>\<open>cloudinit.py\<close>): detection, the documents of the seed, the instance id.
  \<^item> Admission (\<^verbatim>\<open>create.py\<close>, \<^verbatim>\<open>defaults.py\<close>): every check of a creation before anything is made; a request admitted is consistent.
  \<^item> Create (\<^verbatim>\<open>create.py\<close>): what follows, in parts: the allocation under the lock, the metadata
    files in their order, the configuration, the rollback.
  \<^item> Reconcile, Adoption, Orphans (\<^verbatim>\<open>reconcile.py\<close>, \<^verbatim>\<open>destroy.py\<close>): orphans, reaping, removal, and the configuration rebuilt
    from the metadata, which is the one the creation wrote, to the character.  Whether the caller is root, what the tools of Proxmox VE
    answer and whether the wrapper of a deleted configuration can be removed are arguments.
  \<^item> Interleaving: several processes on one store, a step relation whose steps are the parts the code runs
    under the lock and the writes after it.  Directories and container ids are exclusive under
    every interleaving; the ids of virtual machines are not (a race of the code).

  \<^bold>\<open>Changing and running instances.\<close>

  \<^item> Confedit, Setcmd, Reconfigure (\<^verbatim>\<open>set_cmd.py\<close>): the line editors, the whole of \<^verbatim>\<open>kento set\<close> in its four modes, and
    what it promises: a call that raises leaves the instance as it was, but for one case.
  \<^item> Liveset (\<^verbatim>\<open>_instances.py\<close>): the setters of a handle: stopped settings, forwards, resources; what the undo stack of the
    forwards does not undo, and that a removal from a running virtual machine is always refused.
  \<^item> Firewall (\<^verbatim>\<open>portfwd.py\<close>, \<^verbatim>\<open>_instances.py\<close>): the laws of nft and iptables over the rules of their chains, what the commands
    of a forward do under them, and the abstract specification of an assignment of forwards to a running container: a
    transaction on the rules, except for the first rules of an addition that was refused.  It is shown of the shipped engine with the shipped
    applier, for both tools; two sample tools obey the laws.
  \<^item> Portfwd (\<^verbatim>\<open>portfwd.py\<close>, \<^verbatim>\<open>subprocess_util.py\<close>): the rules of the two firewalls and of the QEMU monitor; the removal loop ends.
  \<^item> Ports, Vmrun (\<^verbatim>\<open>vm.py\<close>): host ports, mounting, the start of virtiofsd and QEMU with its rollback, the command line,
    signals and waits, the stop.
  \<^item> Lifecycle (\<^verbatim>\<open>start.py\<close>, \<^verbatim>\<open>stop.py\<close>, \<^verbatim>\<open>suspend.py\<close>): start, stop, suspend, resume and the bounded wait, which
    always returns; a forced stop ends both processes.
  \<^item> Qmp (\<^verbatim>\<open>suspend.py\<close>): the monitor's lines, replies and events over a socket; how the stream is cut does not matter.
  \<^item> Console (\<^verbatim>\<open>attach.py\<close>, \<^verbatim>\<open>exec_cmd.py\<close>, \<^verbatim>\<open>logs.py\<close>): the serial relay and its escape, sessions, the journal and its stream; the
    terminal is restored, no follower is left.
  \<^item> Scrub (\<^verbatim>\<open>reset.py\<close>): returning an instance to its image; a clearing that fails can be done again.
  \<^item> Instances, Handles (\<^verbatim>\<open>_instances.py\<close>): the handles, their resolution and enumeration, reconciliation, the methods that
    wrap the procedures of the other modules, the throw-away instance of a \<^verbatim>\<open>with\<close> block.

  \<^bold>\<open>Images and reports.\<close>

  \<^item> Holds (\<^verbatim>\<open>layers.py\<close>): the stopped containers that keep an image from being pruned.
  \<^item> Images, Ledger (\<^verbatim>\<open>images.py\<close>, \<^verbatim>\<open>_images.py\<close>): the markers of instances and holds, the records built from
    them, the collectors and removal, OCI images.  The ledger is the markers grouped by content id,
    every record listed is found, and pruning spares what is held.
  \<^item> Fetch (\<^verbatim>\<open>fetch.py\<close>, \<^verbatim>\<open>extract.py\<close>, \<^verbatim>\<open>urlvm.py\<close>, \<^verbatim>\<open>_images.py\<close>): root file systems from a URL; the cap on the disk holds whatever the
    server streams, and passwords do not show.
  \<^item> Diagnose (\<^verbatim>\<open>diagnose.py\<close>, \<^verbatim>\<open>_diagnosis.py\<close>): the checks of the host and of instances, the report, the typed
    findings; the scan warns of exactly the orphans pruning finds.
  \<^item> Listing (\<^verbatim>\<open>list.py\<close>, \<^verbatim>\<open>info.py\<close>): the listing and the details, as text and as JSON; the listing shows the
    status of the handle.

  \<^bold>\<open>What is not modelled.\<close>

  \<^item> \<^verbatim>\<open>locking.py\<close>, a file lock: its effect is that a step of Interleaving is one step.
  \<^item> The shell scripts \<^verbatim>\<open>hook.sh\<close> and \<^verbatim>\<open>inject.sh\<close> and the constant text of the hook of a virtual machine, which are not Python
    and run on the host or in the guest; they are arguments of the functions that fill and write them.
  \<^item> Of \<^verbatim>\<open>create.py\<close>, the mount probe, the copies of SSH keys and the order in which the parts of the
    creation modelled here are called; of \<^verbatim>\<open>pve.py\<close>, the writing and deleting of files under \<^verbatim>\<open>/etc/pve\<close>.
  \<^item> Of \<^verbatim>\<open>_images.py\<close>, \<^verbatim>\<open>LocalDirectoryImage\<close> and the abstract and stub classes; the wording of summaries, warnings
    and error messages; the report for people of \<^verbatim>\<open>reconcile.py\<close>.
  \<^item> In Handles, creation, removal and adoption are arguments: they are modelled over states of their own, and what
    is shown of a handle holds whatever they do.
  \<^item> The failure of a write to a metadata file, except where a theory says that it models the disk's faults
    (Scrub, Fetch); so the write of \<^verbatim>\<open>kento-qemu-pid\<close> after a launch, which is outside the rollback, does not fail here.
  \<^item> The time SIGKILL takes: in the hypothesis \<^verbatim>\<open>signals_work\<close> a process it was sent to is gone at the next probe.
\<close>

end
